(* ===== verification/Rpi5_Prelude.thy ===== *)
theory Rpi5_Prelude
  imports "HOL-Library.Word" "HOL-Library.State_Monad"
begin

section \<open>Shared types, register access and lemmas\<close>

text \<open>
  What every component of the development uses: the integer types of the C code as
  words, status codes, byte buffers, memory-mapped registers and the lemmas on bits,
  buffers and state-passing programs that the component proofs share.

  \<^item> \<open>UINT8\<close>, \<open>UINT16\<close>, \<open>UINT32\<close> and \<open>UINT64\<close> are words of that width. A \<open>UINTN\<close> that
    counts bytes of a buffer or elements of an array is a \<open>nat\<close>: no C object reaches
    \<open>2 ^ 63\<close> bytes, so sums of such offsets do not wrap. A subtraction that can wrap is
    written \<^verbatim>\<open>usub64\<close>.
  \<^item> A buffer \<^verbatim>\<open>UINT8 *P\<close> is a function from offsets to bytes. Nothing hides an access
    outside the buffer: the bytes there are part of the function, and the frame lemmas
    say which offsets an operation writes.
  \<^item> A register block is a device \<^verbatim>\<open>'s iodev\<close>: how a 32-bit read, a 32-bit write and
    a stall act on a device state of any type. The programs are state-passing programs
    over that state, for every device.
\<close>

unbundle bit_operations_syntax

type_synonym u8 = "8 word"
type_synonym u16 = "16 word"
type_synonym u32 = "32 word"
type_synonym u64 = "64 word"
type_synonym buf = "nat \<Rightarrow> u8"

named_theorems io_simps \<open>execution of register programs on a state\<close>
named_theorems frame_simps \<open>bytes that a buffer operation leaves alone\<close>

datatype efi_status =
    EFI_SUCCESS
  | EFI_INVALID_PARAMETER
  | EFI_UNSUPPORTED
  | EFI_BAD_BUFFER_SIZE
  | EFI_BUFFER_TOO_SMALL
  | EFI_NOT_READY
  | EFI_DEVICE_ERROR
  | EFI_WRITE_PROTECTED
  | EFI_OUT_OF_RESOURCES
  | EFI_VOLUME_FULL
  | EFI_NOT_FOUND
  | EFI_ACCESS_DENIED
  | EFI_TIMEOUT
  | EFI_NOT_STARTED
  | EFI_ALREADY_STARTED
  | EFI_SECURITY_VIOLATION
  | EFI_VOLUME_CORRUPTED
  | EFI_NO_MEDIA

definition EFI_ERROR :: "efi_status \<Rightarrow> bool" where
  "EFI_ERROR st = (st \<noteq> EFI_SUCCESS)"

subsection \<open>UINTN arithmetic that can wrap\<close>

definition usub64 :: "nat \<Rightarrow> nat \<Rightarrow> nat" where
  "usub64 a b = nat ((int a - int b) mod 2 ^ 64)"

lemma usub64_le: "b \<le> a \<Longrightarrow> a < 2 ^ 64 \<Longrightarrow> usub64 a b = a - b"
proof -
  assume le: "b \<le> a" and lt: "a < 2 ^ 64"
  have "(int a - int b) mod 2 ^ 64 = int a - int b"
    using le lt by (intro mod_pos_pos_trivial) auto
  with le show ?thesis by (simp add: usub64_def)
qed

definition align8 :: "nat \<Rightarrow> nat" where
  "align8 n = (n + 7) div 8 * 8"

lemma align8_ge: "n \<le> align8 n"
  unfolding align8_def by presburger

lemma align8_dvd: "align8 n mod 8 = 0"
  by (simp add: align8_def)

lemma align8_le: "n \<le> m \<Longrightarrow> m mod 8 = 0 \<Longrightarrow> align8 n \<le> m"
proof -
  assume le: "n \<le> m" and "m mod 8 = 0"
  then obtain k where m: "m = 8 * k" by (auto simp: mod_eq_0_iff_dvd)
  have "(n + 7) div 8 \<le> (8 * k + 7) div 8" using le m by (intro div_le_mono) simp
  then show ?thesis by (simp add: align8_def m)
qed

lemma align8_less: "align8 n < n + 8"
  unfolding align8_def by presburger

lemma align8_id: "n mod 8 = 0 \<Longrightarrow> align8 n = n"
  unfolding align8_def by presburger

subsection \<open>ASCII text\<close>

definition ascii :: "string \<Rightarrow> u8 list" where
  "ascii s = map of_char s"

subsection \<open>Buffers\<close>

definition CopyMem :: "buf \<Rightarrow> nat \<Rightarrow> u8 list \<Rightarrow> buf" where
  "CopyMem p off xs = (\<lambda>i. if off \<le> i \<and> i < off + length xs then xs ! (i - off) else p i)"

definition SetMem :: "buf \<Rightarrow> nat \<Rightarrow> nat \<Rightarrow> u8 \<Rightarrow> buf" where
  "SetMem p off n v = (\<lambda>i. if off \<le> i \<and> i < off + n then v else p i)"

definition bytes_at :: "buf \<Rightarrow> nat \<Rightarrow> nat \<Rightarrow> u8 list" where
  "bytes_at p off n = map (\<lambda>i. p (off + i)) [0..<n]"

lemma CopyMem_outside [frame_simps]:
  "i < off \<or> off + length xs \<le> i \<Longrightarrow> CopyMem p off xs i = p i"
  by (auto simp: CopyMem_def)

lemma SetMem_outside [frame_simps]: "i < off \<or> off + n \<le> i \<Longrightarrow> SetMem p off n v i = p i"
  by (auto simp: SetMem_def)

lemma SetMem_inside: "off \<le> i \<Longrightarrow> i < off + n \<Longrightarrow> SetMem p off n v i = v"
  by (auto simp: SetMem_def)

lemma length_bytes_at [simp]: "length (bytes_at p off n) = n"
  by (simp add: bytes_at_def)

lemma bytes_at_cong:
  "(\<And>i. off \<le> i \<Longrightarrow> i < off + n \<Longrightarrow> p i = q i) \<Longrightarrow> bytes_at p off n = bytes_at q off n"
  by (simp add: bytes_at_def)

lemma bytes_at_CopyMem: "bytes_at (CopyMem p off xs) off (length xs) = xs"
  by (rule nth_equalityI) (auto simp: bytes_at_def CopyMem_def)

definition Be32 :: "buf \<Rightarrow> nat \<Rightarrow> u32" where
  "Be32 p off =
     push_bit 24 (ucast (p off)) OR push_bit 16 (ucast (p (off + 1))) OR
     push_bit 8 (ucast (p (off + 2))) OR ucast (p (off + 3))"

definition Le32 :: "buf \<Rightarrow> nat \<Rightarrow> u32" where
  "Le32 p off =
     ucast (p off) OR push_bit 8 (ucast (p (off + 1))) OR
     push_bit 16 (ucast (p (off + 2))) OR push_bit 24 (ucast (p (off + 3)))"

definition PutBe32 :: "buf \<Rightarrow> nat \<Rightarrow> u32 \<Rightarrow> buf" where
  "PutBe32 p off v =
     p(off := ucast (drop_bit 24 v), off + 1 := ucast (drop_bit 16 v),
       off + 2 := ucast (drop_bit 8 v), off + 3 := ucast v)"

definition PutLe32 :: "buf \<Rightarrow> nat \<Rightarrow> u32 \<Rightarrow> buf" where
  "PutLe32 p off v =
     p(off := ucast v, off + 1 := ucast (drop_bit 8 v),
       off + 2 := ucast (drop_bit 16 v), off + 3 := ucast (drop_bit 24 v))"

lemma PutBe32_outside [frame_simps]: "i < off \<or> off + 4 \<le> i \<Longrightarrow> PutBe32 p off v i = p i"
  by (auto simp: PutBe32_def)

lemma PutLe32_outside [frame_simps]: "i < off \<or> off + 4 \<le> i \<Longrightarrow> PutLe32 p off v i = p i"
  by (auto simp: PutLe32_def)

lemma Be32_cong: "(\<And>i. off \<le> i \<Longrightarrow> i < off + 4 \<Longrightarrow> p i = q i) \<Longrightarrow> Be32 p off = Be32 q off"
  by (simp add: Be32_def)

lemma Le32_cong: "(\<And>i. off \<le> i \<Longrightarrow> i < off + 4 \<Longrightarrow> p i = q i) \<Longrightarrow> Le32 p off = Le32 q off"
  by (simp add: Le32_def)

lemma bytes_of_word32:
  "push_bit 24 (ucast (ucast (drop_bit 24 v) :: u8)) OR
   push_bit 16 (ucast (ucast (drop_bit 16 v) :: u8)) OR
   push_bit 8 (ucast (ucast (drop_bit 8 v) :: u8)) OR ucast (ucast v :: u8) = (v :: u32)"
  (is "?w = v")
proof (rule bit_word_eqI)
  fix n
  assume n: "n < LENGTH(32)"
  then consider "n < 8" | "8 \<le> n" "n < 16" | "16 \<le> n" "n < 24" | "24 \<le> n" by linarith
  then show "bit ?w n = bit v n"
    using n by cases (auto simp: bit_simps)
qed

lemma Be32_PutBe32: "Be32 (PutBe32 p off v) off = v"
  by (simp add: Be32_def PutBe32_def bytes_of_word32)

lemma Le32_PutLe32: "Le32 (PutLe32 p off v) off = v"
  using bytes_of_word32 [of v] by (simp add: Le32_def PutLe32_def ac_simps)

subsection \<open>Bit fields\<close>

lemma field_get_set:
  fixes x v :: "'w::len word"
  assumes "v AND mask w = v" and "sh + w \<le> LENGTH('w)"
  shows "drop_bit sh ((x AND NOT (push_bit sh (mask w))) OR push_bit sh v) AND mask w = v"
proof (rule bit_word_eqI)
  fix n
  assume n: "n < LENGTH('w)"
  have v: "bit v n \<longleftrightarrow> bit v n \<and> n < w"
    using assms(1) by (metis bit_and_iff bit_mask_iff)
  show "bit (drop_bit sh ((x AND NOT (push_bit sh (mask w))) OR push_bit sh v) AND mask w) n
        = bit v n"
    using assms(2) n v by (auto simp: bit_simps)
qed

lemma field_get_set_other:
  fixes x v :: "'w::len word"
  assumes "v AND mask w = v" and "sh' + w' \<le> sh \<or> sh + w \<le> sh'"
  shows "drop_bit sh' ((x AND NOT (push_bit sh (mask w))) OR push_bit sh v) AND mask w'
         = drop_bit sh' x AND mask w'"
proof (rule bit_word_eqI)
  fix n
  assume n: "n < LENGTH('w)"
  have v: "bit v k \<longrightarrow> k < w" for k
    using assms(1) by (metis bit_and_iff bit_mask_iff)
  show "bit (drop_bit sh' ((x AND NOT (push_bit sh (mask w))) OR push_bit sh v) AND mask w') n
        = bit (drop_bit sh' x AND mask w') n"
    using assms(2) n v [of "sh' + n - sh"]
    by (auto simp: bit_simps dest: bit_imp_le_length)
qed

lemma and_mask_small: "unat v < 2 ^ w \<Longrightarrow> v AND mask w = (v :: 'w::len word)"
  by (simp add: take_bit_eq_mask [symmetric] word_unat_eq_iff unsigned_take_bit_eq take_bit_nat_eq_self)

lemma unat_ucast_less: "unat v < 2 ^ LENGTH('b) \<Longrightarrow> unat (ucast (v :: 'a::len word) :: 'b::len word) = unat v"
  by (simp add: unsigned_ucast_eq take_bit_nat_eq_self)

lemma bit_single_u32:
  "k < 32 \<Longrightarrow> bit (x OR push_bit k 1 :: u32) n \<longleftrightarrow> bit x n \<or> n = k"
  "n < 32 \<Longrightarrow> bit (x AND NOT (push_bit k 1) :: u32) n \<longleftrightarrow> bit x n \<and> n \<noteq> k"
  "(x AND push_bit k 1 \<noteq> (0 :: u32)) \<longleftrightarrow> bit x k"
  by (auto simp: bit_simps) (simp_all add: bit_iff_and_push_bit_not_eq_0)

text \<open>Equations between 32-bit words built from masks and one variable, bit by bit.\<close>

lemma u32_eqI: "list_all (\<lambda>n. bit a n = bit b n) [0..<32] \<Longrightarrow> a = (b :: u32)"
  by (rule bit_word_eqI) (simp add: list_all_iff del: upt_conv_Cons)

lemmas u32_bits = bit_and_iff bit_or_iff bit_not_iff upt_rec

lemma of_nat_word_eq:
  "m < 2 ^ LENGTH('a) \<Longrightarrow> n < 2 ^ LENGTH('a) \<Longrightarrow> (of_nat m :: 'a::len word) = of_nat n \<longleftrightarrow> m = n"
  by (simp add: word_of_nat_eq_iff take_bit_nat_eq_self)

subsection \<open>State\<close>

definition gets :: "('c \<Rightarrow> 'a) \<Rightarrow> ('c, 'a) state" where
  "gets f = State (\<lambda>c. (f c, c))"

definition modify :: "('c \<Rightarrow> 'c) \<Rightarrow> ('c, unit) state" where
  "modify f = State (\<lambda>c. ((), f c))"

lemma run_gets [io_simps]: "run_state (gets f) c = (f c, c)" "run_state (modify g) c = ((), g c)"
  by (simp_all add: gets_def modify_def)

subsection \<open>Memory-mapped registers\<close>

record 's iodev =
  io_rd :: "u64 \<Rightarrow> 's \<Rightarrow> u32 \<times> 's"
  io_wr :: "u64 \<Rightarrow> u32 \<Rightarrow> 's \<Rightarrow> 's"
  io_stall :: "nat \<Rightarrow> 's \<Rightarrow> 's"

definition MmioRead32 :: "'s iodev \<Rightarrow> u64 \<Rightarrow> ('s, u32) state" where
  "MmioRead32 D a = State (io_rd D a)"

definition MmioWrite32 :: "'s iodev \<Rightarrow> u64 \<Rightarrow> u32 \<Rightarrow> ('s, unit) state" where
  "MmioWrite32 D a v = State (\<lambda>s. ((), io_wr D a v s))"

definition Stall :: "'s iodev \<Rightarrow> nat \<Rightarrow> ('s, unit) state" where
  "Stall D us = State (\<lambda>s. ((), io_stall D us s))"

definition MmioOr32 :: "'s iodev \<Rightarrow> u64 \<Rightarrow> u32 \<Rightarrow> ('s, unit) state" where
  "MmioOr32 D a v = do { x \<leftarrow> MmioRead32 D a; MmioWrite32 D a (x OR v) }"

definition MmioAnd32 :: "'s iodev \<Rightarrow> u64 \<Rightarrow> u32 \<Rightarrow> ('s, unit) state" where
  "MmioAnd32 D a v = do { x \<leftarrow> MmioRead32 D a; MmioWrite32 D a (x AND v) }"

definition MmioAndThenOr32 :: "'s iodev \<Rightarrow> u64 \<Rightarrow> u32 \<Rightarrow> u32 \<Rightarrow> ('s, unit) state" where
  "MmioAndThenOr32 D a v w = do { x \<leftarrow> MmioRead32 D a; MmioWrite32 D a ((x AND v) OR w) }"

text \<open>
  A device whose registers at the given addresses hold what was last written and whose
  reads change nothing: configuration registers, as opposed to status and FIFO registers.
\<close>

definition reg_dev :: "(u64 \<Rightarrow> u32) iodev" where
  "reg_dev = \<lparr>io_rd = (\<lambda>a s. (s a, s)), io_wr = (\<lambda>a v s. s(a := v)), io_stall = (\<lambda>us s. s)\<rparr>"

lemma reg_dev_sel [io_simps]:
  "io_rd reg_dev a s = (s a, s)" "io_wr reg_dev a v s = s(a := v)" "io_stall reg_dev us s = s"
  by (simp_all add: reg_dev_def)

lemma run_Mmio [io_simps]:
  "run_state (MmioRead32 D a) s = io_rd D a s"
  "run_state (MmioWrite32 D a v) s = ((), io_wr D a v s)"
  "run_state (Stall D us) s = ((), io_stall D us s)"
  "run_state (MmioOr32 D a v) s = (case io_rd D a s of (x, s') \<Rightarrow> ((), io_wr D a (x OR v) s'))"
  "run_state (MmioAnd32 D a v) s = (case io_rd D a s of (x, s') \<Rightarrow> ((), io_wr D a (x AND v) s'))"
  "run_state (MmioAndThenOr32 D a v w) s =
     (case io_rd D a s of (x, s') \<Rightarrow> ((), io_wr D a ((x AND v) OR w) s'))"
  by (simp_all add: MmioRead32_def MmioWrite32_def Stall_def MmioOr32_def MmioAnd32_def
      MmioAndThenOr32_def split: prod.split)

text \<open>A register program that leaves the register at an address alone.\<close>

named_theorems keeps_intro \<open>rules for programs that leave an address alone\<close>

definition keeps :: "u64 \<Rightarrow> (u64 \<Rightarrow> u32, 'a) state \<Rightarrow> bool" where
  "keeps a m = (\<forall>s. snd (run_state m s) a = s a)"

lemma keepsD: "keeps a m \<Longrightarrow> snd (run_state m s) a = s a"
  by (simp add: keeps_def)

lemma keeps_return [keeps_intro]: "keeps a (State_Monad.return x)"
  by (simp add: keeps_def)

lemma keeps_bind [keeps_intro]: "keeps a m \<Longrightarrow> (\<And>x. keeps a (f x)) \<Longrightarrow> keeps a (State_Monad.bind m f)"
  by (simp add: keeps_def case_prod_unfold)

lemma keeps_if [keeps_intro]: "(b \<Longrightarrow> keeps a m) \<Longrightarrow> (\<not> b \<Longrightarrow> keeps a n) \<Longrightarrow> keeps a (if b then m else n)"
  by simp

lemma keeps_read [keeps_intro]: "keeps a (MmioRead32 reg_dev x)"
  by (simp add: keeps_def io_simps)

lemma keeps_write [keeps_intro]: "a \<noteq> x \<Longrightarrow> keeps a (MmioWrite32 reg_dev x v)"
  by (simp add: keeps_def io_simps)

lemma keeps_rmw [keeps_intro]:
  "a \<noteq> x \<Longrightarrow> keeps a (MmioOr32 reg_dev x v)" "a \<noteq> x \<Longrightarrow> keeps a (MmioAnd32 reg_dev x v)"
  "a \<noteq> x \<Longrightarrow> keeps a (MmioAndThenOr32 reg_dev x v w)"
  by (simp_all add: keeps_def io_simps)

lemma keeps_stall [keeps_intro]: "keeps a (Stall reg_dev us)"
  by (simp add: keeps_def io_simps)

end
