(* ===== verification/Eeprom_Image.thy ===== *)
theory Eeprom_Image
  imports Rpi5_Prelude
begin

section \<open>The bootloader EEPROM image (EepromImage.c)\<close>

text \<open>
  The section chain of a boot EEPROM image: the walk (\<^verbatim>\<open>WalkSections\<close>), the lookup of a
  modifiable file (\<^verbatim>\<open>EepromFindFileIn\<close>), its replacement in place
  (\<^verbatim>\<open>EepromReplaceFileIn\<close>) and the self-update timestamp (\<^verbatim>\<open>EepromSetTimestamp\<close>).
  The image is a buffer of which only the first \<open>Size\<close> bytes belong to it.
\<close>

definition EEPROM_SECTION_MAGIC :: u32 where "EEPROM_SECTION_MAGIC = 0x55aaf00f"
definition EEPROM_SECTION_MAGIC_MASK :: u32 where "EEPROM_SECTION_MAGIC_MASK = 0xfffff00f"
definition EEPROM_FILE_MAGIC :: u32 where "EEPROM_FILE_MAGIC = 0x55aaf11f"
definition EEPROM_PAD_MAGIC :: u32 where "EEPROM_PAD_MAGIC = 0x55aafeef"
definition EEPROM_FILE_HDR_LEN :: nat where "EEPROM_FILE_HDR_LEN = 20"
definition EEPROM_FILENAME_LEN :: nat where "EEPROM_FILENAME_LEN = 12"
definition EEPROM_IMAGE_SIZE_2712 :: nat where "EEPROM_IMAGE_SIZE_2712 = 2 * 1024 * 1024"
definition EEPROM_READ_ONLY_SIZE :: nat where "EEPROM_READ_ONLY_SIZE = 64 * 1024"
definition EEPROM_PARTITION_SIZE :: nat where "EEPROM_PARTITION_SIZE = 988 * 1024"
definition EEPROM_PARTITION_A_START :: nat where
  "EEPROM_PARTITION_A_START = EEPROM_READ_ONLY_SIZE"
definition EEPROM_PARTITION_A_END :: nat where
  "EEPROM_PARTITION_A_END = EEPROM_READ_ONLY_SIZE + EEPROM_PARTITION_SIZE"
definition EEPROM_ERASE_ALIGN :: nat where "EEPROM_ERASE_ALIGN = 4096"
definition EEPROM_MAX_FILE_SIZE :: nat where
  "EEPROM_MAX_FILE_SIZE = EEPROM_ERASE_ALIGN - EEPROM_FILE_HDR_LEN"
definition EEPROM_MAX_SECTIONS :: nat where "EEPROM_MAX_SECTIONS = 64"

lemmas eeprom_consts =
  EEPROM_SECTION_MAGIC_def EEPROM_SECTION_MAGIC_MASK_def EEPROM_FILE_MAGIC_def
  EEPROM_PAD_MAGIC_def EEPROM_FILE_HDR_LEN_def EEPROM_FILENAME_LEN_def
  EEPROM_IMAGE_SIZE_2712_def EEPROM_READ_ONLY_SIZE_def EEPROM_PARTITION_SIZE_def
  EEPROM_PARTITION_A_START_def EEPROM_PARTITION_A_END_def EEPROM_ERASE_ALIGN_def
  EEPROM_MAX_FILE_SIZE_def EEPROM_MAX_SECTIONS_def

record eeprom_section =
  Magic :: u32
  Offset :: nat
  Length :: u32

record eeprom_file_loc =
  HdrOffset :: nat
  ContentOffset :: nat
  ContentLen :: nat
  NextOffset :: nat
  IsLast :: bool

subsection \<open>The section walk\<close>

text \<open>
  \<^verbatim>\<open>WalkFrom Img Size Cap Count Offset\<close> is the loop of \<^verbatim>\<open>WalkSections\<close> from its state
  \<open>(Count, Offset)\<close>: the sections it still appends, or \<open>None\<close> for the return of -1. The
  rounding to the next multiple of eight is the code's \<^verbatim>\<open>(x + 7) & ~7\<close>.
\<close>

function WalkFrom :: "buf \<Rightarrow> nat \<Rightarrow> nat \<Rightarrow> nat \<Rightarrow> nat \<Rightarrow> eeprom_section list option" where
  "WalkFrom Img Size Cap Count Off =
     (if Off + 8 \<le> Size then
        (let magic = Be32 Img Off in
         if magic = 0 \<or> magic = 0xffffffff then Some []
         else if magic AND EEPROM_SECTION_MAGIC_MASK \<noteq> EEPROM_SECTION_MAGIC then None
         else
           (let len = Be32 Img (Off + 4) in
            if unat len > Size - Off - 8 then None
            else if Count = Cap then None
            else
              (case WalkFrom Img Size Cap (Count + 1) (align8 (Off + 8 + unat len)) of
                 None \<Rightarrow> None
               | Some rest \<Rightarrow>
                   Some (\<lparr>Magic = magic, Offset = Off, Length = len\<rparr> # rest))))
      else Some [])"
  by pat_completeness auto
termination
proof (relation "measure (\<lambda>(Img, Size, Cap, Count, Off). Size - Off)")
  show "wf (measure (\<lambda>(Img, Size, Cap, Count, Off). Size - Off))" by simp
next
  fix Img :: buf and Size Cap Count Off :: nat and x xa :: u32
  assume "Off + 8 \<le> Size"
  moreover have "Off < align8 (Off + 8 + unat xa)"
    using align8_ge [of "Off + 8 + unat xa"] by linarith
  ultimately show "((Img, Size, Cap, Count + 1, align8 (Off + 8 + unat xa)),
      Img, Size, Cap, Count, Off) \<in> measure (\<lambda>(Img, Size, Cap, Count, Off). Size - Off)"
    by simp
qed

declare WalkFrom.simps [simp del]

definition WalkSections :: "buf \<Rightarrow> nat \<Rightarrow> nat \<Rightarrow> nat \<Rightarrow> eeprom_section list option" where
  "WalkSections Img Size Start Cap = WalkFrom Img Size Cap 0 Start"

subsection \<open>File lookup\<close>

text \<open>
  The C string \<open>Name\<close> is the list of its characters; reading the index after the last one
  gives the terminator.
\<close>

definition cchar :: "u8 list \<Rightarrow> nat \<Rightarrow> u8" where
  "cchar s i = (if i < length s then s ! i else 0)"

text \<open>The three loops of \<^verbatim>\<open>FileNameMatches\<close>: matching, the full-length test, zero padding.\<close>

fun MatchName :: "buf \<Rightarrow> nat \<Rightarrow> u8 list \<Rightarrow> nat \<Rightarrow> nat \<Rightarrow> nat option" where
  "MatchName p f Name Index 0 = Some Index"
| "MatchName p f Name Index (Suc n) =
     (if cchar Name Index = 0 then Some Index
      else if p (f + Index) \<noteq> cchar Name Index then None
      else MatchName p f Name (Index + 1) n)"

definition FileNameMatches :: "buf \<Rightarrow> nat \<Rightarrow> u8 list \<Rightarrow> bool" where
  "FileNameMatches p f Name =
     (case MatchName p f Name 0 EEPROM_FILENAME_LEN of
        None \<Rightarrow> False
      | Some Index \<Rightarrow>
          if Index = EEPROM_FILENAME_LEN \<and> cchar Name Index \<noteq> 0 then False
          else (\<forall>i \<in> set [Index..<EEPROM_FILENAME_LEN]. p (f + i) = 0))"

definition EepromImageValid :: "buf option \<Rightarrow> nat \<Rightarrow> bool" where
  "EepromImageValid Img Size =
     (case Img of
        None \<Rightarrow> False
      | Some p \<Rightarrow> if Size \<noteq> EEPROM_IMAGE_SIZE_2712 then False
                  else Be32 p 0 = EEPROM_SECTION_MAGIC)"

definition file_here :: "buf \<Rightarrow> nat \<Rightarrow> nat \<Rightarrow> u8 list \<Rightarrow> eeprom_section \<Rightarrow> bool" where
  "file_here Img WinStart WinEnd Name s =
     (Magic s = EEPROM_FILE_MAGIC \<and> WinStart \<le> Offset s \<and> Offset s < WinEnd \<and>
      FileNameMatches Img (Offset s + 8) Name)"

text \<open>
  The two searches over the section array: the sections before the first match, the match
  and the ones after it; then the first section after it that is no padding.
\<close>

fun FindFirst :: "('a \<Rightarrow> bool) \<Rightarrow> 'a list \<Rightarrow> ('a list \<times> 'a \<times> 'a list) option" where
  "FindFirst P [] = None"
| "FindFirst P (x # xs) =
     (if P x then Some ([], x, xs)
      else case FindFirst P xs of None \<Rightarrow> None | Some (pre, y, post) \<Rightarrow> Some (x # pre, y, post))"

fun NextReal :: "eeprom_section list \<Rightarrow> nat \<Rightarrow> nat" where
  "NextReal [] d = d"
| "NextReal (s # ss) d = (if Magic s \<noteq> EEPROM_PAD_MAGIC then Offset s else NextReal ss d)"

definition EepromFindFileIn ::
  "buf \<Rightarrow> nat \<Rightarrow> nat \<Rightarrow> nat \<Rightarrow> nat \<Rightarrow> u8 list \<Rightarrow> eeprom_file_loc option" where
  "EepromFindFileIn Img Size WalkStart WinStart WinEnd Name =
     (case WalkSections Img Size WalkStart EEPROM_MAX_SECTIONS of
        None \<Rightarrow> None
      | Some Sections \<Rightarrow>
          (case FindFirst (file_here Img WinStart WinEnd Name) Sections of
             None \<Rightarrow> None
           | Some (pre, s, post) \<Rightarrow>
               (let cap = usub64 Size EEPROM_ERASE_ALIGN;
                    cap = (if WinEnd < cap then WinEnd else cap) in
                Some \<lparr>HdrOffset = Offset s,
                      ContentOffset = Offset s + 4 + EEPROM_FILE_HDR_LEN,
                      ContentLen = (if unat (Length s) \<ge> EEPROM_FILENAME_LEN + 4
                                    then unat (Length s) - EEPROM_FILENAME_LEN - 4 else 0),
                      NextOffset = NextReal post cap,
                      IsLast = (post = [])\<rparr>)))"

subsection \<open>Replacement in place\<close>

text \<open>
  The alignment loop \<^verbatim>\<open>while ((PadStart & 7) != 0) Image[PadStart++] = 0xFF\<close> gives the
  buffer and the final \<open>PadStart\<close>.
\<close>

function AlignFill :: "buf \<Rightarrow> nat \<Rightarrow> buf \<times> nat" where
  "AlignFill p PadStart =
     (if PadStart mod 8 \<noteq> 0 then AlignFill (p(PadStart := 0xFF)) (PadStart + 1)
      else (p, PadStart))"
  by pat_completeness auto
termination
proof (relation "measure (\<lambda>(p, n). (8 - n mod 8) mod 8)", goal_cases)
  case (2 p n)
  then have "n mod 8 \<noteq> 0" and "n mod 8 < 8" by simp_all
  then have "(8 - Suc n mod 8) mod 8 < (8 - n mod 8) mod 8"
    by (auto simp: mod_Suc)
  then show ?case by simp
qed simp

declare AlignFill.simps [simp del]

definition PadHeader :: "buf \<Rightarrow> nat \<Rightarrow> nat \<Rightarrow> buf" where
  "PadHeader p PadStart PadBytes =
     PutBe32 (PutBe32 p PadStart EEPROM_PAD_MAGIC) (PadStart + 4) (of_nat (usub64 PadBytes 8))"

definition EepromReplaceFileIn ::
  "buf \<Rightarrow> nat \<Rightarrow> nat \<Rightarrow> nat \<Rightarrow> nat \<Rightarrow> u8 list \<Rightarrow> u8 list \<Rightarrow> efi_status \<times> buf" where
  "EepromReplaceFileIn Img Size WalkStart WinStart WinEnd Name Data =
     (if length Data > EEPROM_MAX_FILE_SIZE then (EFI_BAD_BUFFER_SIZE, Img)
      else
        (case EepromFindFileIn Img Size WalkStart WinStart WinEnd Name of
           None \<Rightarrow> (EFI_NOT_FOUND, Img)
         | Some Loc \<Rightarrow>
             (let End = ContentOffset Loc + length Data in
              if End > usub64 Size EEPROM_ERASE_ALIGN \<or> End > NextOffset Loc
              then (EFI_VOLUME_FULL, Img)
              else
                (let img = PutBe32 Img (HdrOffset Loc + 4)
                             (of_nat (length Data + EEPROM_FILENAME_LEN + 4));
                     img = CopyMem img (ContentOffset Loc) Data;
                     (img, PadStart) = AlignFill img End;
                     PadBytes = usub64 (NextOffset Loc) PadStart in
                 if PadBytes \<ge> 8 \<and> \<not> IsLast Loc
                 then (EFI_SUCCESS,
                       SetMem (PadHeader img PadStart PadBytes) (PadStart + 8)
                         (usub64 PadBytes 8) 0xFF)
                 else (EFI_SUCCESS, SetMem img PadStart PadBytes 0xFF)))))"

subsection \<open>The self-update timestamp\<close>

definition PutTimestamp :: "buf \<Rightarrow> nat \<Rightarrow> u32 \<Rightarrow> buf" where
  "PutTimestamp p off Timestamp = PutLe32 (PutLe32 p off (NOT Timestamp)) (off + 4) Timestamp"

definition EepromSetTimestamp :: "buf \<Rightarrow> nat \<Rightarrow> u32 \<Rightarrow> efi_status \<times> buf" where
  "EepromSetTimestamp Img Size Timestamp =
     (case EepromFindFileIn Img Size 0 0 EEPROM_READ_ONLY_SIZE (ascii ''updatetime'') of
        Some Loc \<Rightarrow>
          if ContentLen Loc < 8
          then (EFI_SUCCESS, PutLe32 (PutLe32 Img (usub64 Size 4) Timestamp)
                                     (usub64 Size 8) (NOT Timestamp))
          else
            (let img = PutTimestamp Img (ContentOffset Loc) Timestamp in
             (case EepromFindFileIn img Size 0 EEPROM_PARTITION_A_START EEPROM_PARTITION_A_END
                     (ascii ''updatetime'') of
                None \<Rightarrow> (EFI_NOT_FOUND, img)
              | Some Loc' \<Rightarrow>
                  if ContentLen Loc' < 8 then (EFI_NOT_FOUND, img)
                  else (EFI_SUCCESS, PutTimestamp img (ContentOffset Loc') Timestamp)))
      | None \<Rightarrow> (EFI_SUCCESS, PutLe32 (PutLe32 Img (usub64 Size 4) Timestamp)
                                      (usub64 Size 8) (NOT Timestamp)))"

subsection \<open>Lemmas on the searches\<close>

lemma FindFirst_SomeD:
  "FindFirst P xs = Some (pre, y, post) \<Longrightarrow> xs = pre @ y # post \<and> P y \<and> (\<forall>x \<in> set pre. \<not> P x)"
  by (induction xs arbitrary: pre) (auto split: if_splits option.splits)

lemma FindFirst_app:
  "(\<And>x. x \<in> set pre \<Longrightarrow> \<not> P x) \<Longrightarrow> P y \<Longrightarrow> FindFirst P (pre @ y # post) = Some (pre, y, post)"
  by (induction pre) auto

lemma FindFirst_None: "FindFirst P xs = None \<longleftrightarrow> (\<forall>x \<in> set xs. \<not> P x)"
  by (induction xs) (auto split: option.splits)

lemma NextReal_cases:
  "(\<exists>s \<in> set ss. Magic s \<noteq> EEPROM_PAD_MAGIC \<and> NextReal ss d = Offset s) \<or>
   (NextReal ss d = d \<and> (\<forall>s \<in> set ss. Magic s = EEPROM_PAD_MAGIC))"
  by (induction ss) auto

lemma NextReal_split:
  "\<exists>s \<in> set ss. Magic s \<noteq> EEPROM_PAD_MAGIC \<Longrightarrow>
   \<exists>pads t rest. ss = pads @ t # rest \<and> Magic t \<noteq> EEPROM_PAD_MAGIC \<and> NextReal ss d = Offset t \<and>
     (\<forall>s \<in> set pads. Magic s = EEPROM_PAD_MAGIC)"
proof (induction ss)
  case (Cons a ss)
  show ?case
  proof (cases "Magic a = EEPROM_PAD_MAGIC")
    case True
    with Cons obtain pads t rest where "ss = pads @ t # rest" "Magic t \<noteq> EEPROM_PAD_MAGIC"
      "NextReal ss d = Offset t" "\<forall>s \<in> set pads. Magic s = EEPROM_PAD_MAGIC" by auto
    with True show ?thesis by (intro exI [of _ "a # pads"] exI [of _ t] exI [of _ rest]) auto
  qed (auto intro: exI [of _ "[]"])
qed simp

lemma MatchName_cong:
  "(\<And>i. f \<le> i \<Longrightarrow> i < f + (k + n) \<Longrightarrow> p i = q i) \<Longrightarrow> MatchName p f Name k n = MatchName q f Name k n"
  by (induction n arbitrary: k) auto

lemma FileNameMatches_cong:
  "(\<And>i. f \<le> i \<Longrightarrow> i < f + 12 \<Longrightarrow> p i = q i) \<Longrightarrow> FileNameMatches p f Name = FileNameMatches q f Name"
  using MatchName_cong [of f 0 12 p q Name]
  by (auto simp: FileNameMatches_def EEPROM_FILENAME_LEN_def split: option.split)

lemma AlignFill_eq: "AlignFill p n = (SetMem p n (align8 n - n) 0xFF, align8 n)"
proof (induction p n rule: AlignFill.induct)
  case (1 p n)
  show ?case
  proof (cases "n mod 8 = 0")
    case True
    then show ?thesis by (auto simp: AlignFill.simps align8_id SetMem_def fun_eq_iff)
  next
    case False
    have "n < align8 n" using align8_ge [of n] align8_dvd [of n] False by (cases "align8 n = n") auto
    moreover from this have "align8 (n + 1) \<le> align8 n" by (intro align8_le) (auto simp: align8_dvd)
    moreover have "align8 n \<le> align8 (n + 1)" using align8_ge [of "n + 1"] by (intro align8_le) (auto simp: align8_dvd)
    ultimately have a: "align8 (n + 1) = align8 n" "n < align8 n" by simp_all
    have "SetMem (p(n := 0xFF)) (n + 1) (align8 n - (n + 1)) 0xFF = SetMem p n (align8 n - n) 0xFF"
      using a by (auto simp: SetMem_def fun_eq_iff)
    with 1 [OF False] False a show ?thesis
      by (subst AlignFill.simps) (simp add: fun_upd_def)
  qed
qed

subsection \<open>Lemmas on the section chain\<close>

text \<open>
  \<^verbatim>\<open>Chain\<close> is what the walk promises of its result: each section is read from its own
  header, lies inside the image and starts where the one before ends, rounded up.
\<close>

fun Chain :: "buf \<Rightarrow> nat \<Rightarrow> nat \<Rightarrow> eeprom_section list \<Rightarrow> bool" where
  "Chain Img Size Off [] = True"
| "Chain Img Size Off (s # ss) =
     (Offset s = Off \<and> Magic s = Be32 Img Off \<and> Length s = Be32 Img (Off + 4) \<and>
      Magic s \<noteq> 0 \<and> Magic s \<noteq> 0xffffffff \<and>
      Magic s AND EEPROM_SECTION_MAGIC_MASK = EEPROM_SECTION_MAGIC \<and>
      Off + 8 + unat (Length s) \<le> Size \<and>
      Chain Img Size (align8 (Off + 8 + unat (Length s))) ss)"

definition chain_end :: "nat \<Rightarrow> eeprom_section list \<Rightarrow> nat" where
  "chain_end Off ss = foldl (\<lambda>off s. align8 (Offset s + 8 + unat (Length s))) Off ss"

lemma chain_end_simps [simp]:
  "chain_end Off [] = Off"
  "chain_end Off (s # ss) = chain_end (align8 (Offset s + 8 + unat (Length s))) ss"
  "chain_end Off (ss @ [s]) = align8 (Offset s + 8 + unat (Length s))"
  by (simp_all add: chain_end_def)

lemma Walk_NilI:
  "Off + 8 > Size \<or> Be32 Img Off = 0 \<or> Be32 Img Off = 0xffffffff \<Longrightarrow>
   WalkFrom Img Size Cap c Off = Some []"
  by (subst WalkFrom.simps) auto

lemma Walk_step:
  "WalkFrom Img Size Cap c Off = Some (s # ss) \<longleftrightarrow>
     Offset s = Off \<and> Magic s = Be32 Img Off \<and> Length s = Be32 Img (Off + 4) \<and>
     Magic s \<noteq> 0 \<and> Magic s \<noteq> 0xffffffff \<and>
     Magic s AND EEPROM_SECTION_MAGIC_MASK = EEPROM_SECTION_MAGIC \<and>
     Off + 8 + unat (Length s) \<le> Size \<and> c \<noteq> Cap \<and>
     WalkFrom Img Size Cap (c + 1) (align8 (Off + 8 + unat (Length s))) = Some ss"
  by (cases s, subst WalkFrom.simps) (auto simp: Let_def split: option.splits)

lemma Walk_Chain:
  "WalkFrom Img Size Cap c Off = Some ss \<Longrightarrow> c \<le> Cap \<Longrightarrow>
   Chain Img Size Off ss \<and> c + length ss \<le> Cap"
proof (induction ss arbitrary: c Off)
  case (Cons s ss)
  then have "WalkFrom Img Size Cap (c + 1) (align8 (Off + 8 + unat (Length s))) = Some ss"
    and "c + 1 \<le> Cap" by (auto simp: Walk_step)
  from Cons.IH [OF this] Cons.prems(1) show ?case by (auto simp: Walk_step)
qed simp

lemma Chain_app:
  "Chain Img Size Off (pre @ ss) \<longleftrightarrow> Chain Img Size Off pre \<and> Chain Img Size (chain_end Off pre) ss"
  by (induction pre arbitrary: Off) auto

lemma Walk_app:
  "c + length pre \<le> Cap \<Longrightarrow>
   WalkFrom Img Size Cap c Off = Some (pre @ ss) \<longleftrightarrow>
     Chain Img Size Off pre \<and> WalkFrom Img Size Cap (c + length pre) (chain_end Off pre) = Some ss"
  by (induction pre arbitrary: Off c) (auto simp: Walk_step)

lemma Walk_count:
  "WalkFrom Img Size Cap c Off = Some ss \<Longrightarrow> c \<le> Cap \<Longrightarrow> c' + length ss \<le> Cap \<Longrightarrow>
   WalkFrom Img Size Cap c' Off = Some ss"
proof (induction ss arbitrary: c c' Off)
  case Nil
  then show ?case by (subst WalkFrom.simps, subst (asm) WalkFrom.simps)
      (auto simp: Let_def split: if_splits option.splits)
next
  case (Cons s ss)
  then show ?case by (auto simp: Walk_step)
qed

text \<open>Offsets along the chain grow, and after the first one they are multiples of eight.\<close>

lemma Chain_offsets:
  "Chain Img Size Off ss \<Longrightarrow> s \<in> set ss \<Longrightarrow> Off \<le> Offset s \<and> Offset s + 8 + unat (Length s) \<le> Size"
proof (induction ss arbitrary: Off)
  case (Cons a ss)
  show ?case
  proof (cases "s = a")
    case False
    with Cons have "align8 (Off + 8 + unat (Length a)) \<le> Offset s \<and>
        Offset s + 8 + unat (Length s) \<le> Size" by auto
    with align8_ge [of "Off + 8 + unat (Length a)"] show ?thesis by linarith
  qed (use Cons in auto)
qed simp

lemma Chain_sorted:
  "Chain Img Size Off ss \<Longrightarrow>
   sorted_wrt (\<lambda>s t. Offset s + 8 + unat (Length s) \<le> Offset t) ss"
proof (induction ss arbitrary: Off)
  case (Cons a ss)
  have "Offset a + 8 + unat (Length a) \<le> Offset t" if "t \<in> set ss" for t
    using Cons.prems that Chain_offsets [of Img Size _ ss t] align8_ge [of "Off + 8 + unat (Length a)"]
    by force
  with Cons show ?case by auto
qed simp

lemma Chain_aligned:
  "Chain Img Size Off ss \<Longrightarrow> Off mod 8 = 0 \<Longrightarrow> s \<in> set ss \<Longrightarrow> Offset s mod 8 = 0"
  by (induction ss arbitrary: Off) (auto simp: align8_dvd)

lemma chain_end_ge: "Chain Img Size Off ss \<Longrightarrow> Off \<le> chain_end Off ss"
proof (induction ss arbitrary: Off)
  case (Cons a ss)
  then have "align8 (Off + 8 + unat (Length a)) \<le> chain_end (align8 (Off + 8 + unat (Length a))) ss"
    by auto
  with Cons.prems align8_ge [of "Off + 8 + unat (Length a)"] show ?case by simp
qed simp

lemma Chain_end_bound: "Chain Img Size Off ss \<Longrightarrow> s \<in> set ss \<Longrightarrow> Offset s + 8 + unat (Length s) \<le> chain_end Off ss"
proof (induction ss arbitrary: Off)
  case (Cons a ss)
  then have "align8 (Off + 8 + unat (Length a)) \<le> chain_end (align8 (Off + 8 + unat (Length a))) ss"
    using chain_end_ge by auto
  with Cons align8_ge [of "Off + 8 + unat (Length a)"] show ?case by auto
qed simp

text \<open>The chain depends on the section headers only.\<close>

lemma Chain_cong:
  "(\<And>s i. s \<in> set ss \<Longrightarrow> Offset s \<le> i \<Longrightarrow> i < Offset s + 8 \<Longrightarrow> p i = q i) \<Longrightarrow>
   Chain p Size Off ss \<longleftrightarrow> Chain q Size Off ss"
proof (induction ss arbitrary: Off)
  case (Cons s ss)
  have "Offset s = Off \<Longrightarrow> Be32 p Off = Be32 q Off \<and> Be32 p (Off + 4) = Be32 q (Off + 4)"
    using Cons.prems [of s] by (auto intro!: Be32_cong)
  with Cons show ?case by auto
qed simp

lemma Walk_cong:
  "WalkFrom p Size Cap c Off = Some ss \<Longrightarrow> c \<le> Cap \<Longrightarrow>
   (\<And>i. Off \<le> i \<Longrightarrow> p i = q i) \<Longrightarrow> WalkFrom q Size Cap c Off = Some ss"
proof (induction ss arbitrary: c Off)
  case Nil
  have "Be32 p Off = Be32 q Off" "Be32 p (Off + 4) = Be32 q (Off + 4)"
    using Nil.prems(3) by (auto intro!: Be32_cong)
  with Nil.prems(1) show ?case by (subst WalkFrom.simps, subst (asm) WalkFrom.simps)
      (auto simp: Let_def split: if_splits option.splits)
next
  case (Cons s ss)
  have "Be32 p Off = Be32 q Off" "Be32 p (Off + 4) = Be32 q (Off + 4)"
    using Cons.prems(3) by (auto intro!: Be32_cong)
  moreover have "WalkFrom q Size Cap (c + 1) (align8 (Off + 8 + unat (Length s))) = Some ss"
  proof (rule Cons.IH)
    show "WalkFrom p Size Cap (c + 1) (align8 (Off + 8 + unat (Length s))) = Some ss"
      and "c + 1 \<le> Cap" using Cons.prems by (auto simp: Walk_step)
    show "p i = q i" if "align8 (Off + 8 + unat (Length s)) \<le> i" for i
      using that Cons.prems(3) [of i] align8_ge [of "Off + 8 + unat (Length s)"] by linarith
  qed
  ultimately show ?case using Cons.prems(1) by (auto simp: Walk_step)
qed

text \<open>A walk depends on the headers it reads and on the word that ends it.\<close>

lemma Walk_headers:
  "WalkFrom p Size Cap c Off = Some ss \<Longrightarrow> c \<le> Cap \<Longrightarrow>
   (\<And>s i. s \<in> set ss \<Longrightarrow> Offset s \<le> i \<Longrightarrow> i < Offset s + 8 \<Longrightarrow> p i = q i) \<Longrightarrow>
   (\<And>i. chain_end Off ss \<le> i \<Longrightarrow> i < chain_end Off ss + 4 \<Longrightarrow> p i = q i) \<Longrightarrow>
   WalkFrom q Size Cap c Off = Some ss"
proof (induction ss arbitrary: c Off)
  case Nil
  have "Be32 p Off = Be32 q Off" using Nil.prems(4) by (auto intro!: Be32_cong)
  with Nil.prems(1) show ?case by (subst WalkFrom.simps, subst (asm) WalkFrom.simps)
      (auto simp: Let_def split: if_splits option.splits)
next
  case (Cons s ss)
  have "Offset s = Off" using Cons.prems(1) by (simp add: Walk_step)
  then have "Be32 p Off = Be32 q Off" "Be32 p (Off + 4) = Be32 q (Off + 4)"
    using Cons.prems(3) [of s] by (auto intro!: Be32_cong)
  moreover have "WalkFrom q Size Cap (c + 1) (align8 (Off + 8 + unat (Length s))) = Some ss"
    using Cons.prems \<open>Offset s = Off\<close> by (intro Cons.IH) (auto simp: Walk_step)
  ultimately show ?case using Cons.prems(1) by (auto simp: Walk_step)
qed

subsection \<open>Lemmas on lookup and replacement\<close>

text \<open>
  The geometry the driver calls these routines with: an image of at least one erase
  sector and below 4 GiB, all offsets multiples of eight.
\<close>

definition geometry :: "nat \<Rightarrow> nat \<Rightarrow> nat \<Rightarrow> bool" where
  "geometry Size WalkStart WinEnd =
     (EEPROM_ERASE_ALIGN \<le> Size \<and> Size < 2 ^ 32 \<and> Size mod 8 = 0 \<and> WalkStart mod 8 = 0 \<and>
      WinEnd mod 8 = 0)"

definition window_cap :: "nat \<Rightarrow> nat \<Rightarrow> nat" where
  "window_cap Size WinEnd =
     (if WinEnd < usub64 Size EEPROM_ERASE_ALIGN then WinEnd else usub64 Size EEPROM_ERASE_ALIGN)"

definition loc_of :: "nat \<Rightarrow> nat \<Rightarrow> eeprom_section \<Rightarrow> eeprom_section list \<Rightarrow> eeprom_file_loc" where
  "loc_of Size WinEnd s post =
     \<lparr>HdrOffset = Offset s, ContentOffset = Offset s + 24,
      ContentLen = unat (Length s) - 16,
      NextOffset = NextReal post (window_cap Size WinEnd), IsLast = (post = [])\<rparr>"

lemma find_iff:
  "EepromFindFileIn Img Size ws w1 w2 Name = Some Loc \<longleftrightarrow>
     (\<exists>pre s post. WalkFrom Img Size 64 0 ws = Some (pre @ s # post) \<and>
        file_here Img w1 w2 Name s \<and> (\<forall>x \<in> set pre. \<not> file_here Img w1 w2 Name x) \<and>
        Loc = loc_of Size w2 s post)"
  (is "?L \<longleftrightarrow> ?R")
proof
  assume ?L
  then obtain ss pre s post where w: "WalkFrom Img Size 64 0 ws = Some ss"
    and f: "FindFirst (file_here Img w1 w2 Name) ss = Some (pre, s, post)"
    and l: "Loc = loc_of Size w2 s post"
    by (auto simp: EepromFindFileIn_def WalkSections_def EEPROM_MAX_SECTIONS_def loc_of_def
        window_cap_def EEPROM_FILE_HDR_LEN_def EEPROM_FILENAME_LEN_def Let_def
        split: option.splits prod.splits)
  from FindFirst_SomeD [OF f] w l show ?R by blast
next
  assume ?R
  then obtain pre s post where w: "WalkFrom Img Size 64 0 ws = Some (pre @ s # post)"
    and h: "file_here Img w1 w2 Name s" "\<And>x. x \<in> set pre \<Longrightarrow> \<not> file_here Img w1 w2 Name x"
    and l: "Loc = loc_of Size w2 s post" by blast
  from FindFirst_app [of pre "file_here Img w1 w2 Name", OF h(2) h(1)] w l show ?L
    by (simp add: EepromFindFileIn_def WalkSections_def EEPROM_MAX_SECTIONS_def loc_of_def
        window_cap_def EEPROM_FILE_HDR_LEN_def EEPROM_FILENAME_LEN_def Let_def)
qed

lemma NextReal_geometry:
  assumes "geometry Size ws w2" and "WalkFrom Img Size 64 0 ws = Some (pre @ s # post)"
  shows "NextReal post (window_cap Size w2) mod 8 = 0 \<and> NextReal post (window_cap Size w2) < Size \<and>
    window_cap Size w2 \<le> Size - 4096"
proof -
  have c: "Chain Img Size ws (pre @ s # post)" using assms(2) Walk_Chain by fastforce
  have g: "4096 \<le> Size" "Size < 2 ^ 32" "Size mod 8 = 0" "ws mod 8 = 0" "w2 mod 8 = 0"
    using assms(1) by (auto simp: geometry_def EEPROM_ERASE_ALIGN_def)
  have u: "usub64 Size EEPROM_ERASE_ALIGN = Size - 4096"
    using g by (simp add: usub64_le EEPROM_ERASE_ALIGN_def)
  have "(Size - 4096) mod 8 = 0" using g by presburger
  with g u have cap: "window_cap Size w2 mod 8 = 0" "window_cap Size w2 \<le> Size - 4096"
    "window_cap Size w2 < Size" by (auto simp: window_cap_def)
  have t: "Offset t mod 8 = 0 \<and> Offset t < Size" if "t \<in> set post" for t
    using that Chain_aligned [OF c g(4), of t] Chain_offsets [OF c, of t] by simp
  from NextReal_cases [of post "window_cap Size w2"] t cap show ?thesis by auto
qed

text \<open>The buffer a successful replacement leaves, by offset of the header and of the next section.\<close>

definition replaced :: "buf \<Rightarrow> nat \<Rightarrow> nat \<Rightarrow> bool \<Rightarrow> u8 list \<Rightarrow> buf" where
  "replaced Img H N lst Data =
     (let E = H + 24 + length Data; P = align8 E;
          img = SetMem (CopyMem (PutBe32 Img (H + 4) (of_nat (length Data + 16))) (H + 24) Data)
                  E (P - E) 0xFF
      in if N - P \<ge> 8 \<and> \<not> lst
         then SetMem (PutBe32 (PutBe32 img P EEPROM_PAD_MAGIC) (P + 4) (of_nat (N - P - 8)))
                (P + 8) (N - P - 8) 0xFF
         else SetMem img P (N - P) 0xFF)"

lemma replace_success:
  assumes "geometry Size ws w2"
    and "EepromReplaceFileIn Img Size ws w1 w2 Name Data = (EFI_SUCCESS, img')"
  obtains pre s post where "WalkFrom Img Size 64 0 ws = Some (pre @ s # post)"
    and "file_here Img w1 w2 Name s" and "\<forall>x \<in> set pre. \<not> file_here Img w1 w2 Name x"
    and "Offset s + 24 + length Data \<le> Size - 4096"
    and "align8 (Offset s + 24 + length Data) \<le> NextReal post (window_cap Size w2)"
    and "length Data \<le> 4076"
    and "img' = replaced Img (Offset s) (NextReal post (window_cap Size w2)) (post = []) Data"
proof -
  have g: "4096 \<le> Size" "Size < 2 ^ 32" using assms(1)
    by (auto simp: geometry_def EEPROM_ERASE_ALIGN_def)
  have u: "usub64 Size EEPROM_ERASE_ALIGN = Size - 4096"
    using g by (simp add: usub64_le EEPROM_ERASE_ALIGN_def)
  from assms(2) obtain Loc where f: "EepromFindFileIn Img Size ws w1 w2 Name = Some Loc"
    and d: "length Data \<le> 4076"
    by (auto simp: EepromReplaceFileIn_def EEPROM_MAX_FILE_SIZE_def EEPROM_ERASE_ALIGN_def
        EEPROM_FILE_HDR_LEN_def split: if_splits option.splits)
  from f obtain pre s post where w: "WalkFrom Img Size 64 0 ws = Some (pre @ s # post)"
    "file_here Img w1 w2 Name s" "\<forall>x \<in> set pre. \<not> file_here Img w1 w2 Name x"
    and l: "Loc = loc_of Size w2 s post" by (auto simp: find_iff)
  let ?N = "NextReal post (window_cap Size w2)" and ?E = "Offset s + 24 + length Data"
  have N: "?N mod 8 = 0" "?N < 2 ^ 32" using NextReal_geometry [OF assms(1) w(1)] g by auto
  have E: "?E \<le> Size - 4096" "?E \<le> ?N"
    using assms(2) f l u by (auto simp: EepromReplaceFileIn_def loc_of_def Let_def split: if_splits)
  have P: "align8 ?E \<le> ?N" using E(2) N(1) by (rule align8_le)
  have "\<not> length Data > EEPROM_MAX_FILE_SIZE"
    using d by (simp add: EEPROM_MAX_FILE_SIZE_def EEPROM_ERASE_ALIGN_def EEPROM_FILE_HDR_LEN_def)
  moreover have "usub64 ?N (align8 ?E) = ?N - align8 ?E"
    "usub64 (?N - align8 ?E) 8 = ?N - align8 ?E - 8" if "8 \<le> ?N - align8 ?E"
    using N P that by (simp_all add: usub64_le del: diff_diff_left)
  moreover have "usub64 ?N (align8 ?E) = ?N - align8 ?E" using N P by (simp add: usub64_le)
  ultimately have "EepromReplaceFileIn Img Size ws w1 w2 Name Data =
      (EFI_SUCCESS, replaced Img (Offset s) ?N (post = []) Data)"
    using E unfolding EepromReplaceFileIn_def f l option.case u
    by (simp add: loc_of_def Let_def AlignFill_eq replaced_def PadHeader_def
        EEPROM_FILENAME_LEN_def not_less add.commute [of 16] del: of_nat_diff diff_diff_left of_nat_add)
  then have "img' = replaced Img (Offset s) ?N (post = []) Data" using assms(2) by simp
  with that w E P d show thesis by blast
qed

lemma replaced_frame:
  assumes "align8 (H + 24 + length Data) \<le> N"
    and "i < H + 4 \<or> (H + 8 \<le> i \<and> i < H + 24) \<or> N \<le> i"
  shows "replaced Img H N lst Data i = Img i"
proof -
  define P where "P = align8 (H + 24 + length Data)"
  have P: "H + 24 + length Data \<le> P" "P \<le> N"
    using assms(1) align8_ge [of "H + 24 + length Data"] by (auto simp: P_def)
  consider "i < H + 4 \<or> (H + 8 \<le> i \<and> i < H + 24)" | "N \<le> i" "8 \<le> N - P" | "N \<le> i" "\<not> 8 \<le> N - P"
    using assms(2) by blast
  then show ?thesis
  proof cases
    case 2
    then have "P + 8 + (N - P - 8) \<le> i" "P + 8 \<le> i" by linarith+
    with P 2(1) show ?thesis
      by (simp add: replaced_def Let_def P_def [symmetric] frame_simps del: of_nat_diff)
  qed (use P in \<open>auto simp: replaced_def Let_def P_def [symmetric] frame_simps\<close>)
qed

lemma replaced_content:
  assumes "align8 (H + 24 + length Data) \<le> N"
  shows "Be32 (replaced Img H N lst Data) (H + 4) = of_nat (length Data + 16)"
    and "bytes_at (replaced Img H N lst Data) (H + 24) (length Data) = Data"
proof -
  let ?v = "of_nat (length Data + 16) :: u32"
  have "replaced Img H N lst Data i =
      CopyMem (PutBe32 Img (H + 4) ?v) (H + 24) Data i" if "i < H + 24 + length Data" for i
    using that align8_ge [of "H + 24 + length Data"]
    by (auto simp: replaced_def Let_def frame_simps)
  moreover have "CopyMem (PutBe32 Img (H + 4) ?v) (H + 24) Data i = PutBe32 Img (H + 4) ?v i"
    if "i < H + 24" for i using that by (simp add: frame_simps)
  ultimately show "Be32 (replaced Img H N lst Data) (H + 4) = ?v"
    and "bytes_at (replaced Img H N lst Data) (H + 24) (length Data) = Data"
    using Be32_cong [of "H + 4" "replaced Img H N lst Data" "PutBe32 Img (H + 4) ?v"]
      bytes_at_cong [of "H + 24" "length Data" "replaced Img H N lst Data"
        "CopyMem (PutBe32 Img (H + 4) ?v) (H + 24) Data"]
    by (auto simp: Be32_PutBe32 bytes_at_CopyMem)
qed

lemma replaced_pad:
  assumes "8 \<le> N - align8 (H + 24 + length Data)"
  defines "P \<equiv> align8 (H + 24 + length Data)"
  shows "Be32 (replaced Img H N False Data) P = EEPROM_PAD_MAGIC"
    and "Be32 (replaced Img H N False Data) (P + 4) = of_nat (N - P - 8)"
proof -
  define b where "b = SetMem (CopyMem (PutBe32 Img (H + 4) (of_nat (length Data + 16))) (H + 24) Data)
     (H + 24 + length Data) (P - (H + 24 + length Data)) 0xFF"
  have "replaced Img H N False Data i =
      PutBe32 (PutBe32 b P EEPROM_PAD_MAGIC) (P + 4) (of_nat (N - P - 8)) i" if "i < P + 8" for i
    using that assms by (simp add: replaced_def Let_def frame_simps b_def)
  then have "Be32 (replaced Img H N False Data) P = Be32 (PutBe32 b P EEPROM_PAD_MAGIC) P"
    and "Be32 (replaced Img H N False Data) (P + 4) =
      Be32 (PutBe32 (PutBe32 b P EEPROM_PAD_MAGIC) (P + 4) (of_nat (N - P - 8))) (P + 4)"
    by (auto intro!: Be32_cong simp: frame_simps)
  then show "Be32 (replaced Img H N False Data) P = EEPROM_PAD_MAGIC"
    and "Be32 (replaced Img H N False Data) (P + 4) = of_nat (N - P - 8)"
    by (simp_all add: Be32_PutBe32)
qed

text \<open>Bytes before the file and its name keep every lookup before it as it was.\<close>

lemma file_here_cong:
  "(\<And>i. Offset s + 8 \<le> i \<Longrightarrow> i < Offset s + 20 \<Longrightarrow> p i = q i) \<Longrightarrow>
   file_here p w1 w2 Name s = file_here q w1 w2 Name s"
  using FileNameMatches_cong [of "Offset s + 8" p q Name] by (simp add: file_here_def)

lemma FileNameMatches_head:
  "FileNameMatches p f Name \<Longrightarrow> p f = cchar Name 0"
  by (auto simp: FileNameMatches_def EEPROM_FILENAME_LEN_def numeral_eq_Suc upt_rec
      split: if_splits option.splits)

lemma Be32_high_byte: "p f = ucast (drop_bit 24 (Be32 p f))"
proof (rule bit_word_eqI)
  fix n
  assume "n < LENGTH(8)"
  then show "bit (p f) n = bit (ucast (drop_bit 24 (Be32 p f)) :: u8) n"
    by (auto simp: Be32_def bit_simps dest: bit_imp_le_length)
qed

text \<open>
  A section before the file can only change its match through the length field of the
  file's header, which no name can cover that does not start with the magic's first byte.
\<close>

lemma file_here_before:
  assumes fr: "\<And>i. i < H + 4 \<or> (H + 8 \<le> i \<and> i < H + 24) \<Longrightarrow> img' i = Img i"
    and x: "Offset x + 8 \<le> H" "Offset x mod 8 = 0" "H mod 8 = 0"
    and m: "Be32 Img H = EEPROM_FILE_MAGIC" and nm: "cchar Name 0 \<noteq> 0x55"
    and nf: "\<not> file_here Img w1 w2 Name x"
  shows "\<not> file_here img' w1 w2 Name x"
proof (cases "Offset x + 8 = H")
  case True
  have "img' H = 0x55"
    using fr [of H] Be32_high_byte [of Img H] m by (simp add: EEPROM_FILE_MAGIC_def)
  then show ?thesis
    using FileNameMatches_head [of img' H Name] nm True by (auto simp: file_here_def)
next
  case False
  with x have "Offset x + 16 \<le> H" by presburger
  then have "file_here img' w1 w2 Name x = file_here Img w1 w2 Name x"
    using fr by (intro file_here_cong) auto
  with nf show ?thesis by simp
qed

lemma walk_keeps_tail:
  assumes w: "WalkFrom Img Size 64 0 ws = Some (pre @ t # rest)"
    and fr: "\<And>i. Offset t \<le> i \<Longrightarrow> img' i = Img i" and few: "c' + Suc (length rest) \<le> 64"
  shows "WalkFrom img' Size 64 c' (Offset t) = Some (t # rest)"
proof -
  have len: "length pre + length (t # rest) \<le> 64" using Walk_Chain [OF w] by simp
  have "WalkFrom Img Size 64 (length pre) (chain_end ws pre) = Some (t # rest)"
    using w Walk_app [of 0 pre 64 Img Size ws "t # rest"] len by simp
  moreover from this have "chain_end ws pre = Offset t" by (simp add: Walk_step)
  ultimately have "WalkFrom Img Size 64 (length pre) (Offset t) = Some (t # rest)" by simp
  then have "WalkFrom img' Size 64 (length pre) (Offset t) = Some (t # rest)"
    by (rule Walk_cong) (use len fr in auto)
  then show ?thesis by (rule Walk_count) (use len few in auto)
qed

lemma walk_keeps_prefix:
  assumes c: "Chain Img Size ws (pre @ s # post)" and fr: "\<And>i. i < Offset s \<Longrightarrow> img' i = Img i"
  shows "Chain img' Size ws pre"
proof -
  have "Offset x + 8 \<le> Offset s" if "x \<in> set pre" for x
    using Chain_sorted [OF c] that by (auto simp: sorted_wrt_append)
  then have "Chain Img Size ws pre = Chain img' Size ws pre"
    using fr by (intro Chain_cong) fastforce
  with c show ?thesis by (simp add: Chain_app)
qed

text \<open>After the new content comes either the next section at once or one pad section.\<close>

lemma replaced_gap:
  assumes t: "Offset t + 8 \<le> Size" "Offset t mod 8 = 0" "Size < 2 ^ 32"
    and P: "align8 (H + 24 + length Data) \<le> Offset t" and few: "c + 1 < Cap"
    and tail: "\<And>c'. c' \<in> {c, c + 1} \<Longrightarrow>
      WalkFrom (replaced Img H (Offset t) False Data) Size Cap c' (Offset t) = Some (t # rest)"
  shows "\<exists>pad. length pad \<le> 1 \<and> (\<forall>x \<in> set pad. Magic x = EEPROM_PAD_MAGIC) \<and>
    WalkFrom (replaced Img H (Offset t) False Data) Size Cap c (align8 (H + 24 + length Data)) =
      Some (pad @ t # rest)"
proof (cases "8 \<le> Offset t - align8 (H + 24 + length Data)")
  case True
  define P where "P = align8 (H + 24 + length Data)"
  let ?q = "\<lparr>Magic = EEPROM_PAD_MAGIC, Offset = P, Length = of_nat (Offset t - P - 8)\<rparr>"
  have b: "Be32 (replaced Img H (Offset t) False Data) P = EEPROM_PAD_MAGIC"
    "Be32 (replaced Img H (Offset t) False Data) (P + 4) = of_nat (Offset t - P - 8)"
    using replaced_pad [OF True, of Img] by (simp_all add: P_def)
  have un: "unat (of_nat (Offset t - P - 8) :: u32) = Offset t - P - 8"
    using t by (simp add: unat_of_nat del: of_nat_diff)
  have nx: "align8 (P + 8 + (Offset t - P - 8)) = Offset t"
    using True t(2) by (simp add: align8_id P_def)
  have "WalkFrom (replaced Img H (Offset t) False Data) Size Cap c P = Some (?q # t # rest)"
    by (subst Walk_step) (use b un nx tail [of "c + 1"] True t few in
      \<open>auto simp: EEPROM_PAD_MAGIC_def EEPROM_SECTION_MAGIC_MASK_def EEPROM_SECTION_MAGIC_def
        P_def simp del: of_nat_diff\<close>)
  then show ?thesis by (intro exI [of _ "[?q]"]) (simp add: P_def)
next
  case False
  with P t(2) align8_dvd [of "H + 24 + length Data"]
  have "align8 (H + 24 + length Data) = Offset t" by presburger
  then show ?thesis using tail [of c] by (intro exI [of _ "[]"]) simp
qed

lemma replaced_walk:
  assumes g: "geometry Size ws w2" and d: "length Data \<le> 4076"
    and w: "WalkFrom Img Size 64 0 ws = Some (pre @ s # pads @ t # rest)"
    and m: "Magic s = EEPROM_FILE_MAGIC" and P: "align8 (Offset s + 24 + length Data) \<le> Offset t"
    and few: "length pre + length rest + 3 \<le> 64"
  defines "img' \<equiv> replaced Img (Offset s) (Offset t) False Data"
    and "s' \<equiv> s\<lparr>Length := of_nat (length Data + 16)\<rparr>"
  shows "\<exists>pad. WalkFrom img' Size 64 0 ws = Some (pre @ s' # pad @ t # rest) \<and> length pad \<le> 1 \<and>
    (\<forall>x \<in> set pad. Magic x = EEPROM_PAD_MAGIC)"
proof -
  have gg: "Size < 2 ^ 32" "ws mod 8 = 0" using g by (auto simp: geometry_def)
  have c: "Chain Img Size ws (pre @ s # pads @ t # rest)" using Walk_Chain [OF w] by simp
  have fr: "img' i = Img i" if "i < Offset s + 4 \<or> Offset t \<le> i" for i
    unfolding img'_def by (rule replaced_frame [OF P]) (use that in auto)
  have t: "Offset t + 8 \<le> Size" "Offset t mod 8 = 0"
    using Chain_offsets [OF c, of t] Chain_aligned [OF c gg(2), of t] by auto
  have u: "Offset s + 8 + unat (Length s') = Offset s + 24 + length Data"
    using d by (simp add: s'_def unat_of_nat del: of_nat_add)
  have tail: "WalkFrom img' Size 64 c' (Offset t) = Some (t # rest)"
    if "c' \<in> {length pre + 1, length pre + 1 + 1}" for c'
    by (rule walk_keeps_tail [of Img Size ws "pre @ s # pads"]) (use w fr few that in auto)
  have "\<exists>pad. length pad \<le> 1 \<and> (\<forall>x \<in> set pad. Magic x = EEPROM_PAD_MAGIC) \<and>
    WalkFrom (replaced Img (Offset s) (Offset t) False Data) Size 64 (length pre + 1)
      (align8 (Offset s + 24 + length Data)) = Some (pad @ t # rest)"
    using few by (intro replaced_gap [OF t gg(1) P]) (auto intro: tail [unfolded img'_def])
  then obtain pad where pad: "length pad \<le> 1" "\<forall>x \<in> set pad. Magic x = EEPROM_PAD_MAGIC"
    and wp: "WalkFrom img' Size 64 (length pre + 1) (align8 (Offset s + 24 + length Data)) =
      Some (pad @ t # rest)" unfolding img'_def by blast
  have lk: "chain_end ws pre = Offset s" "Be32 img' (Offset s) = EEPROM_FILE_MAGIC"
    "Be32 img' (Offset s + 4) = of_nat (length Data + 16)"
    using c m replaced_content(1) [OF P] Be32_cong [of "Offset s" img' Img] fr
    by (auto simp: Chain_app img'_def)
  have "WalkFrom img' Size 64 (length pre) (Offset s) = Some (s' # pad @ t # rest)"
    by (subst Walk_step, subst u, subst u)
       (use lk wp m t P few align8_ge [of "Offset s + 24 + length Data"] in
        \<open>auto simp: s'_def EEPROM_FILE_MAGIC_def EEPROM_SECTION_MAGIC_MASK_def
          EEPROM_SECTION_MAGIC_def simp del: of_nat_add\<close>)
  moreover have "Chain img' Size ws pre" using walk_keeps_prefix [OF c] fr by simp
  ultimately have "WalkFrom img' Size 64 0 ws = Some (pre @ s' # pad @ t # rest)"
    using few lk(1) Walk_app [of 0 pre 64 img' Size ws "s' # pad @ t # rest"] by simp
  with pad show ?thesis by blast
qed

lemma NextReal_pads: "\<forall>x \<in> set pad. Magic x = EEPROM_PAD_MAGIC \<Longrightarrow> NextReal (pad @ ss) d = NextReal ss d"
  by (induction pad) auto

subsection \<open>A small image\<close>

text \<open>
  The image the witnesses run on: a plain section, then \<open>bootconf.txt\<close> and \<open>updatetime\<close>
  with eight content bytes each, then erased flash.
\<close>

definition demo_section :: "nat \<Rightarrow> u32 \<Rightarrow> nat \<Rightarrow> u8 list \<Rightarrow> buf \<Rightarrow> buf" where
  "demo_section off magic len body p =
     CopyMem (PutBe32 (PutBe32 p off magic) (off + 4) (of_nat len)) (off + 8) body"

definition demo_image :: buf where
  "demo_image = demo_section 0 EEPROM_SECTION_MAGIC 8 []
     (demo_section 16 EEPROM_FILE_MAGIC 24 (ascii ''bootconf.txt'' @ replicate 12 1)
     (demo_section 48 EEPROM_FILE_MAGIC 24 (ascii ''updatetime'' @ replicate 14 0) (\<lambda>_. 0xFF)))"

definition demo_sections :: "eeprom_section list" where
  "demo_sections =
     [\<lparr>Magic = EEPROM_SECTION_MAGIC, Offset = 0, Length = 8\<rparr>,
      \<lparr>Magic = EEPROM_FILE_MAGIC, Offset = 16, Length = 24\<rparr>,
      \<lparr>Magic = EEPROM_FILE_MAGIC, Offset = 48, Length = 24\<rparr>]"

lemma demo_walk: "WalkSections demo_image 8192 0 EEPROM_MAX_SECTIONS = Some demo_sections"
  by code_simp

lemma demo_find: "EepromFindFileIn demo_image 8192 0 0 4096 (ascii ''bootconf.txt'') =
    Some \<lparr>HdrOffset = 16, ContentOffset = 40, ContentLen = 8, NextOffset = 48, IsLast = False\<rparr>"
  by code_simp

lemma demo_replace: "fst (EepromReplaceFileIn demo_image 8192 0 0 4096 (ascii ''bootconf.txt'') [1, 2, 3]) =
    EFI_SUCCESS"
  by code_simp

lemma demo_names:
  "FileNameMatches demo_image 56 (ascii ''updatetime'')"
  "\<not> FileNameMatches demo_image 24 (ascii ''updatetime'')"
  by code_simp+

lemma demo_walk_stamped:
  "WalkSections (PutTimestamp demo_image 72 7) 8192 0 EEPROM_MAX_SECTIONS = Some demo_sections"
  by code_simp

lemma demo_geometry: "geometry 8192 0 4096"
  by (simp add: geometry_def EEPROM_ERASE_ALIGN_def)

subsection \<open>Properties\<close>

text \<open>
  C10: The section walk never leaves the image and never overlaps: a walk that does not
  report corruption returns at most \<open>Cap\<close> sections, each read from its own header with a
  section magic, each with its content inside \<open>[Start, Size)\<close>, in increasing order with
  every section ending before the next one starts.
\<close>

theorem walk_sections_wf:
  assumes "WalkSections Img Size Start Cap = Some ss"
  shows "length ss \<le> Cap \<and> sorted_wrt (\<lambda>s t. Offset s + 8 + unat (Length s) \<le> Offset t) ss \<and>
    (\<forall>s \<in> set ss. Start \<le> Offset s \<and> Offset s + 8 + unat (Length s) \<le> Size \<and>
       Magic s = Be32 Img (Offset s) \<and> Length s = Be32 Img (Offset s + 4) \<and>
       Magic s AND EEPROM_SECTION_MAGIC_MASK = EEPROM_SECTION_MAGIC)"
proof -
  have c: "Chain Img Size Start ss" "length ss \<le> Cap"
    using assms Walk_Chain [of Img Size Cap 0 Start ss] by (auto simp: WalkSections_def)
  have "Magic s = Be32 Img (Offset s) \<and> Length s = Be32 Img (Offset s + 4) \<and>
      Magic s AND EEPROM_SECTION_MAGIC_MASK = EEPROM_SECTION_MAGIC" if "s \<in> set ss" for s
    using c(1) that by (induction ss arbitrary: Start) auto
  with c Chain_sorted [OF c(1)] Chain_offsets [OF c(1)] show ?thesis by blast
qed

theorem walk_sections_wf_witness:
  "WalkSections demo_image 8192 0 EEPROM_MAX_SECTIONS = Some demo_sections \<and>
   length demo_sections \<le> EEPROM_MAX_SECTIONS \<and>
   sorted_wrt (\<lambda>s t. Offset s + 8 + unat (Length s) \<le> Offset t) demo_sections"
  using walk_sections_wf [OF demo_walk] demo_walk by blast

text \<open>
  C5: Replacing a file writes nothing it should not. An error status leaves every byte of
  the image as it was. Success means the file was found and the content fits before both
  the next section and the scratch sector; then only bytes of the length field and from the
  content on to the next section (or to the window's cap) change, so the magic, the name,
  the four opaque bytes, everything before and everything after stay, and the content area
  holds the new data.
\<close>

theorem replace_file_frame:
  assumes "geometry Size ws w2"
  shows "case EepromReplaceFileIn Img Size ws w1 w2 Name Data of (st, img') \<Rightarrow>
    if st = EFI_SUCCESS then
      (\<exists>Loc. EepromFindFileIn Img Size ws w1 w2 Name = Some Loc \<and>
        ContentOffset Loc + length Data \<le> min (NextOffset Loc) (Size - EEPROM_ERASE_ALIGN) \<and>
        bytes_at img' (ContentOffset Loc) (length Data) = Data \<and>
        Be32 img' (HdrOffset Loc + 4) = of_nat (length Data + 16) \<and>
        (\<forall>i. img' i \<noteq> Img i \<longrightarrow>
           (HdrOffset Loc + 4 \<le> i \<and> i < HdrOffset Loc + 8) \<or>
           (ContentOffset Loc \<le> i \<and> i < NextOffset Loc)))
    else img' = Img \<and> st \<in> {EFI_BAD_BUFFER_SIZE, EFI_NOT_FOUND, EFI_VOLUME_FULL}"
proof (cases "EepromReplaceFileIn Img Size ws w1 w2 Name Data")
  case (Pair st img')
  show ?thesis
  proof (cases "st = EFI_SUCCESS")
    case True
    from replace_success [OF assms Pair [unfolded True]] obtain pre s post where
      f: "WalkFrom Img Size 64 0 ws = Some (pre @ s # post)" "file_here Img w1 w2 Name s"
      "\<forall>x \<in> set pre. \<not> file_here Img w1 w2 Name x"
      and E: "Offset s + 24 + length Data \<le> Size - 4096"
      and P: "align8 (Offset s + 24 + length Data) \<le> NextReal post (window_cap Size w2)"
      and i': "img' = replaced Img (Offset s) (NextReal post (window_cap Size w2)) (post = []) Data"
      by metis
    have "EepromFindFileIn Img Size ws w1 w2 Name = Some (loc_of Size w2 s post)"
      using f by (auto simp: find_iff)
    moreover have "img' i = Img i" if "\<not> (Offset s + 4 \<le> i \<and> i < Offset s + 8)"
      "\<not> (Offset s + 24 \<le> i \<and> i < NextReal post (window_cap Size w2))" for i
      unfolding i' by (rule replaced_frame [OF P]) (use that in auto)
    ultimately show ?thesis
      using True Pair E P align8_ge [of "Offset s + 24 + length Data"] replaced_content [OF P]
      by (intro case_prodI2 exI [of _ "loc_of Size w2 s post"])
         (auto simp: loc_of_def i' EEPROM_ERASE_ALIGN_def simp del: of_nat_add)
  next
    case False
    with Pair show ?thesis
      by (auto simp: EepromReplaceFileIn_def Let_def split: if_splits option.splits prod.splits)
  qed
qed

theorem replace_file_frame_witness:
  "geometry 8192 0 4096 \<and>
   (\<exists>Loc. EepromFindFileIn demo_image 8192 0 0 4096 (ascii ''bootconf.txt'') = Some Loc \<and>
      bytes_at (snd (EepromReplaceFileIn demo_image 8192 0 0 4096 (ascii ''bootconf.txt'') [1, 2, 3]))
        (ContentOffset Loc) 3 = [1, 2, 3])"
  using replace_file_frame [OF demo_geometry, of demo_image 0 "ascii ''bootconf.txt''" "[1, 2, 3]"]
    demo_replace demo_geometry
  by (auto simp: numeral_3_eq_3 split: prod.splits)

text \<open>
  C1: Writing a file and reading it back: after a successful replacement, if a section
  other than padding follows the file (the layout of every release image) and the chain is
  not already at its cap, the same lookup finds the file in the new image at the same
  place, with exactly the new content and length, and with the same room behind it. The
  name must not start with the first byte of a section magic.
\<close>

theorem replace_then_find:
  assumes g: "geometry Size ws w2"
    and r: "EepromReplaceFileIn Img Size ws w1 w2 Name Data = (EFI_SUCCESS, img')"
    and f: "EepromFindFileIn Img Size ws w1 w2 Name = Some Loc"
    and w: "WalkSections Img Size ws EEPROM_MAX_SECTIONS = Some ss"
    and real: "\<exists>t \<in> set ss. HdrOffset Loc < Offset t \<and> Magic t \<noteq> EEPROM_PAD_MAGIC"
    and few: "length ss < EEPROM_MAX_SECTIONS" and nm: "cchar Name 0 \<noteq> 0x55"
  shows "EepromFindFileIn img' Size ws w1 w2 Name =
      Some (Loc\<lparr>ContentLen := length Data, IsLast := False\<rparr>) \<and>
    bytes_at img' (ContentOffset Loc) (length Data) = Data"
proof -
  from replace_success [OF g r] obtain pre s post where
    w0: "WalkFrom Img Size 64 0 ws = Some (pre @ s # post)" and h: "file_here Img w1 w2 Name s"
    and np: "\<forall>x \<in> set pre. \<not> file_here Img w1 w2 Name x"
    and P: "align8 (Offset s + 24 + length Data) \<le> NextReal post (window_cap Size w2)"
    and d: "length Data \<le> 4076"
    and i': "img' = replaced Img (Offset s) (NextReal post (window_cap Size w2)) (post = []) Data"
    by metis
  have ss: "ss = pre @ s # post" using w w0 by (simp add: WalkSections_def EEPROM_MAX_SECTIONS_def)
  have "EepromFindFileIn Img Size ws w1 w2 Name = Some (loc_of Size w2 s post)"
    using w0 h np unfolding find_iff by blast
  with f have Loc: "Loc = loc_of Size w2 s post" by simp
  have c: "Chain Img Size ws (pre @ s # post)" using Walk_Chain [OF w0] by simp
  have "x \<in> set post" if "x \<in> set ss" "Offset s < Offset x" for x
    using Chain_sorted [OF c] that ss by (force simp: sorted_wrt_append)
  with real Loc have "\<exists>t \<in> set post. Magic t \<noteq> EEPROM_PAD_MAGIC" by (auto simp: loc_of_def)
  from NextReal_split [OF this, of "window_cap Size w2"] obtain pads t rest where
    post: "post = pads @ t # rest" "Magic t \<noteq> EEPROM_PAD_MAGIC"
    and N: "NextReal post (window_cap Size w2) = Offset t" by blast
  have ws8: "ws mod 8 = 0" using g by (simp add: geometry_def)
  have m: "Magic s = EEPROM_FILE_MAGIC" using h by (simp add: file_here_def)
  have lim: "length pre + length rest + 3 \<le> 64" using few ss post by (simp add: EEPROM_MAX_SECTIONS_def)
  have img': "img' = replaced Img (Offset s) (Offset t) False Data" using i' N post by simp
  obtain pad where wk: "WalkFrom img' Size 64 0 ws =
      Some (pre @ s\<lparr>Length := of_nat (length Data + 16)\<rparr> # pad @ t # rest)"
    and pad: "\<forall>x \<in> set pad. Magic x = EEPROM_PAD_MAGIC"
    using replaced_walk [OF g d w0 [unfolded post(1)] m P [unfolded N] lim] unfolding img' by blast
  have fr: "img' i = Img i" if "i < Offset s + 4 \<or> (Offset s + 8 \<le> i \<and> i < Offset s + 24)" for i
    unfolding img' by (rule replaced_frame [OF P [unfolded N]]) (use that in auto)
  have "\<not> file_here img' w1 w2 Name x" if x: "x \<in> set pre" for x
  proof (rule file_here_before [of "Offset s" img' Img])
    show "Offset x + 8 \<le> Offset s" using Chain_sorted [OF c] x by (force simp: sorted_wrt_append)
    show "Offset x mod 8 = 0" "Offset s mod 8 = 0" using Chain_aligned [OF c ws8] x by auto
    show "Be32 Img (Offset s) = EEPROM_FILE_MAGIC" using c m by (simp add: Chain_app)
  qed (use fr np nm x in auto)
  moreover have "file_here img' w1 w2 Name (s\<lparr>Length := of_nat (length Data + 16)\<rparr>)"
    using h fr FileNameMatches_cong [of "Offset s + 8" img' Img Name] by (simp add: file_here_def)
  moreover have "loc_of Size w2 (s\<lparr>Length := of_nat (length Data + 16)\<rparr>) (pad @ t # rest) =
      Loc\<lparr>ContentLen := length Data, IsLast := False\<rparr>"
    using d pad post N Loc
    by (simp add: loc_of_def NextReal_pads unat_of_nat del: of_nat_add)
  ultimately have "EepromFindFileIn img' Size ws w1 w2 Name =
      Some (Loc\<lparr>ContentLen := length Data, IsLast := False\<rparr>)"
    using wk unfolding find_iff by metis
  with replaced_content(2) [OF P [unfolded N]] show ?thesis by (simp add: img' Loc loc_of_def)
qed

theorem replace_then_find_witness:
  "EepromFindFileIn (snd (EepromReplaceFileIn demo_image 8192 0 0 4096 (ascii ''bootconf.txt'') [1, 2, 3]))
     8192 0 0 4096 (ascii ''bootconf.txt'') =
   Some \<lparr>HdrOffset = 16, ContentOffset = 40, ContentLen = 3, NextOffset = 48, IsLast = False\<rparr>"
proof -
  have r: "EepromReplaceFileIn demo_image 8192 0 0 4096 (ascii ''bootconf.txt'') [1, 2, 3] =
    (EFI_SUCCESS, snd (EepromReplaceFileIn demo_image 8192 0 0 4096 (ascii ''bootconf.txt'') [1, 2, 3]))"
    using demo_replace by (metis prod.collapse)
  have n: "cchar (ascii ''bootconf.txt'') 0 \<noteq> 0x55" by code_simp
  show ?thesis
    using replace_then_find [OF demo_geometry r demo_find demo_walk _ _ n]
    by (simp add: demo_sections_def EEPROM_MAX_SECTIONS_def EEPROM_FILE_MAGIC_def EEPROM_PAD_MAGIC_def)
qed

text \<open>
  The self-update timestamp touches only its own words. With a usable read-only copy of
  \<open>updatetime\<close> only the first eight content bytes of that copy and of the partition copy
  change, and the partition copy then holds the complement followed by the timestamp; if the
  partition copy is missing, only the read-only copy was written. With no usable read-only
  copy only the last eight bytes of the image change, to complement and timestamp.
\<close>

theorem set_timestamp_frame:
  assumes "8 \<le> Size" "Size < 2 ^ 32"
  shows "case EepromSetTimestamp Img Size ts of (st, img') \<Rightarrow>
    (case EepromFindFileIn Img Size 0 0 EEPROM_READ_ONLY_SIZE (ascii ''updatetime'') of
       Some Loc \<Rightarrow>
         if ContentLen Loc < 8 then
           st = EFI_SUCCESS \<and> (\<forall>i. i < Size - 8 \<or> Size \<le> i \<longrightarrow> img' i = Img i) \<and>
           Le32 img' (Size - 8) = NOT ts \<and> Le32 img' (Size - 4) = ts
         else
           (st = EFI_NOT_FOUND \<and> img' = PutTimestamp Img (ContentOffset Loc) ts \<or>
            st = EFI_SUCCESS \<and>
            (\<exists>Loc'. EepromFindFileIn (PutTimestamp Img (ContentOffset Loc) ts) Size 0
                EEPROM_PARTITION_A_START EEPROM_PARTITION_A_END (ascii ''updatetime'') = Some Loc' \<and>
               8 \<le> ContentLen Loc' \<and>
               Le32 img' (ContentOffset Loc') = NOT ts \<and> Le32 img' (ContentOffset Loc' + 4) = ts \<and>
               (\<forall>i. \<not> (ContentOffset Loc \<le> i \<and> i < ContentOffset Loc + 8) \<and>
                    \<not> (ContentOffset Loc' \<le> i \<and> i < ContentOffset Loc' + 8) \<longrightarrow> img' i = Img i)))
     | None \<Rightarrow>
         st = EFI_SUCCESS \<and> (\<forall>i. i < Size - 8 \<or> Size \<le> i \<longrightarrow> img' i = Img i) \<and>
         Le32 img' (Size - 8) = NOT ts \<and> Le32 img' (Size - 4) = ts)"
proof -
  have put: "Le32 (PutTimestamp p off ts) off = NOT ts" "Le32 (PutTimestamp p off ts) (off + 4) = ts"
    "(\<And>i. \<not> (off \<le> i \<and> i < off + 8) \<Longrightarrow> PutTimestamp p off ts i = p i)" for p off
  proof -
    have "Le32 (PutTimestamp p off ts) off = Le32 (PutLe32 p off (NOT ts)) off"
      unfolding PutTimestamp_def by (rule Le32_cong) (simp add: frame_simps)
    then show "Le32 (PutTimestamp p off ts) off = NOT ts" by (simp add: Le32_PutLe32)
  qed (auto simp: PutTimestamp_def Le32_PutLe32 frame_simps)
  define old where "old = PutLe32 (PutLe32 Img (usub64 Size 4) ts) (usub64 Size 8) (NOT ts)"
  have u: "usub64 Size 4 = Size - 4" "usub64 Size 8 = Size - 8"
    using assms by (simp_all add: usub64_le)
  have "Le32 old (Size - 4) = Le32 (PutLe32 Img (usub64 Size 4) ts) (Size - 4)"
    unfolding old_def u by (rule Le32_cong) (use assms in \<open>auto simp: frame_simps\<close>)
  then have old: "Le32 old (Size - 8) = NOT ts" "Le32 old (Size - 4) = ts"
    "\<forall>i. i < Size - 8 \<or> Size \<le> i \<longrightarrow> old i = Img i"
  proof -
    have "old i = Img i" if "i < Size - 8 \<or> Size \<le> i" for i
    proof -
      have "i < Size - 4 \<or> Size - 4 + 4 \<le> i" "i < Size - 8 \<or> Size - 8 + 4 \<le> i"
        using that assms by linarith+
      then show ?thesis by (simp add: old_def u frame_simps)
    qed
    then show "\<forall>i. i < Size - 8 \<or> Size \<le> i \<longrightarrow> old i = Img i" by blast
  qed (simp_all add: old_def u Le32_PutLe32)
  show ?thesis
    using put old
    by (auto simp: EepromSetTimestamp_def Let_def old_def [symmetric] split: option.splits)
qed

theorem set_timestamp_frame_witness:
  "fst (EepromSetTimestamp demo_image 8192 7) = EFI_NOT_FOUND \<and>
   snd (EepromSetTimestamp demo_image 8192 7) = PutTimestamp demo_image 72 7"
proof -
  have f: "EepromFindFileIn demo_image 8192 0 0 EEPROM_READ_ONLY_SIZE (ascii ''updatetime'') =
    Some \<lparr>HdrOffset = 48, ContentOffset = 72, ContentLen = 8, NextOffset = 4096, IsLast = True\<rparr>"
    by (simp add: EepromFindFileIn_def demo_walk [unfolded EEPROM_MAX_SECTIONS_def] demo_sections_def file_here_def demo_names
        eeprom_consts usub64_def)
  have "EepromFindFileIn (PutTimestamp demo_image 72 7) 8192 0 EEPROM_PARTITION_A_START
      EEPROM_PARTITION_A_END (ascii ''updatetime'') = None"
    by (simp add: EepromFindFileIn_def demo_walk_stamped [unfolded EEPROM_MAX_SECTIONS_def]
        demo_sections_def file_here_def eeprom_consts)
  with f have s: "fst (EepromSetTimestamp demo_image 8192 7) = EFI_NOT_FOUND"
    by (simp add: EepromSetTimestamp_def)
  show ?thesis using set_timestamp_frame [of 8192 demo_image 7] s f
    by (auto split: prod.splits)
qed

end
