(* ===== verification/Blcfg_Values.thy ===== *)
theory Blcfg_Values
  imports Rpi5_Prelude
begin

section \<open>Bootloader config text (BlcfgValues.c)\<close>

text \<open>
  Parsing the managed values out of \<^verbatim>\<open>key=value\<close> text, canonicalizing user edits and
  rebuilding the text. A text \<^verbatim>\<open>CONST CHAR8 *Text\<close> of length \<open>Len\<close> is the list of its
  \<open>Len\<close> bytes, a C string the list of its bytes before the terminator; the output buffer
  of a builder is the list of the bytes written so far, so its length is \<open>OutPos\<close>.
  Characters are written as their codes: newline 10, carriage return 13, tab 9, space 32,
  \<open>=\<close> 61, \<open>0\<close> 48, \<open>9\<close> 57, \<open>A\<close> 65, \<open>F\<close> 70, \<open>X\<close> 88, \<open>a\<close> 97, \<open>f\<close> 102, \<open>x\<close> 120.
\<close>

record blcfg_values =
  BootOrder :: "u8 list"
  BootUart :: u8
  PowerOffOnHalt :: u8
  WakeOnGpio :: u8
  PsuMaxCurrent :: u16

record blcfg_data =
  DBootOrder :: "u16 list"
  DBootUart :: u8
  DPowerOffOnHalt :: u8
  DWakeOnGpio :: u8
  DPsuMaxCurrent :: u16

datatype bl_key = BlKeyBootOrder | BlKeyBootUart | BlKeyPowerOffOnHalt | BlKeyWakeOnGpio
  | BlKeyPsuMaxCurrent

fun mBlKeyNames :: "bl_key \<Rightarrow> u8 list" where
  "mBlKeyNames BlKeyBootOrder = ascii ''BOOT_ORDER''"
| "mBlKeyNames BlKeyBootUart = ascii ''BOOT_UART''"
| "mBlKeyNames BlKeyPowerOffOnHalt = ascii ''POWER_OFF_ON_HALT''"
| "mBlKeyNames BlKeyWakeOnGpio = ascii ''WAKE_ON_GPIO''"
| "mBlKeyNames BlKeyPsuMaxCurrent = ascii ''PSU_MAX_CURRENT''"

definition bl_keys :: "bl_key list" where
  "bl_keys = [BlKeyBootOrder, BlKeyBootUart, BlKeyPowerOffOnHalt, BlKeyWakeOnGpio,
     BlKeyPsuMaxCurrent]"

definition BL_BOOT_ORDER_DEFAULT :: "u8 list" where
  "BL_BOOT_ORDER_DEFAULT = ascii ''0xf41''"

subsection \<open>Scanning lines\<close>

text \<open>The inner loop \<^verbatim>\<open>for (LineEnd = Pos; LineEnd < Len && Text[LineEnd] != '\n'; LineEnd++)\<close>.\<close>

function LineEndFrom :: "u8 list \<Rightarrow> nat \<Rightarrow> nat" where
  "LineEndFrom Text LineEnd =
     (if LineEnd < length Text \<and> Text ! LineEnd \<noteq> 10 then LineEndFrom Text (LineEnd + 1)
      else LineEnd)"
  by pat_completeness auto
termination
  by (relation "measure (\<lambda>(Text, LineEnd). length Text - LineEnd)") auto

declare LineEndFrom.simps [simp del]

definition KeyAt :: "u8 list \<Rightarrow> nat \<Rightarrow> nat \<Rightarrow> u8 list \<Rightarrow> bool" where
  "KeyAt Text Pos LineEnd Key =
     (LineEnd - Pos > length Key \<and> take (length Key) (drop Pos Text) = Key \<and>
      Text ! (Pos + length Key) = 61)"

definition ValueAt :: "u8 list \<Rightarrow> nat \<Rightarrow> nat \<Rightarrow> nat \<Rightarrow> u8 list" where
  "ValueAt Text Pos LineEnd KeyLen =
     (let ValEnd = (if LineEnd > Pos + KeyLen + 1 \<and> Text ! (LineEnd - 1) = 13
                    then LineEnd - 1 else LineEnd)
      in take (ValEnd - (Pos + KeyLen + 1)) (drop (Pos + KeyLen + 1) Text))"

lemma LineEndFrom_ge: "p \<le> LineEndFrom t p"
  by (induction t p rule: LineEndFrom.induct) (subst LineEndFrom.simps, auto)

function GetValueLoop :: "u8 list \<Rightarrow> u8 list \<Rightarrow> nat \<Rightarrow> u8 list option \<Rightarrow> u8 list option" where
  "GetValueLoop Text Key Pos Found =
     (if Pos < length Text then
        (let LineEnd = LineEndFrom Text Pos in
         GetValueLoop Text Key (LineEnd + 1)
           (if KeyAt Text Pos LineEnd Key then Some (ValueAt Text Pos LineEnd (length Key))
            else Found))
      else Found)"
  by pat_completeness auto
termination
  by (relation "measure (\<lambda>(Text, Key, Pos, Found). length Text - Pos)")
     (auto simp: less_Suc_eq_le LineEndFrom_ge intro!: diff_less_mono2)

declare GetValueLoop.simps [simp del]

definition BlTextGetValue :: "u8 list \<Rightarrow> u8 list \<Rightarrow> u8 list option" where
  "BlTextGetValue Text Key = GetValueLoop Text Key 0 None"

subsection \<open>Field parsers\<close>

definition blank :: "u8 \<Rightarrow> bool" where
  "blank c = (c = 32 \<or> c = 9)"

text \<open>The digit loop: upper case to lower case, then the digit test.\<close>

fun HexDigits :: "u8 list \<Rightarrow> u8 list option" where
  "HexDigits [] = Some []"
| "HexDigits (c # cs) =
     (let C = (if c \<ge> 65 \<and> c \<le> 70 then c - 65 + 97 else c) in
      if \<not> ((C \<ge> 48 \<and> C \<le> 57) \<or> (C \<ge> 97 \<and> C \<le> 102)) then None
      else case HexDigits cs of None \<Rightarrow> None | Some ds \<Rightarrow> Some (C # ds))"

definition ParseBootOrder :: "u8 list \<Rightarrow> u8 list option" where
  "ParseBootOrder Str =
     (let s = dropWhile blank Str;
          s = rev (dropWhile blank (rev s));
          s = (if length s > 2 \<and> s ! 0 = 48 \<and> (s ! 1 = 120 \<or> s ! 1 = 88) then drop 2 s else s)
      in if s = [] \<or> length s > 8 then None
         else case HexDigits s of None \<Rightarrow> None | Some ds \<Rightarrow> Some (48 # 120 # ds))"

fun DecimalLoop :: "u8 list \<Rightarrow> nat \<Rightarrow> nat option" where
  "DecimalLoop [] Value = Some Value"
| "DecimalLoop (c # cs) Value =
     (if c < 48 \<or> c > 57 \<or> Value > 0xFFFFFF then None
      else DecimalLoop cs (Value * 10 + unat (c - 48)))"

definition ParseDecimal :: "u8 list \<Rightarrow> nat option" where
  "ParseDecimal Str = (if Str = [] then None else DecimalLoop Str 0)"

definition SetDefaults :: blcfg_values where
  "SetDefaults = \<lparr>BootOrder = BL_BOOT_ORDER_DEFAULT, BootUart = 0, PowerOffOnHalt = 0,
     WakeOnGpio = 1, PsuMaxCurrent = 0\<rparr>"

text \<open>A key's value run through a field parser; \<open>None\<close> leaves the default.\<close>

definition TextField :: "u8 list \<Rightarrow> bl_key \<Rightarrow> (u8 list \<Rightarrow> 'a option) \<Rightarrow> 'a option" where
  "TextField Text Key f = Option.bind (BlTextGetValue Text (mBlKeyNames Key)) f"

definition flag :: "nat \<Rightarrow> u8" where
  "flag Number = (if Number \<noteq> 0 then 1 else 0)"

definition SnapPsu :: "u16 \<Rightarrow> nat \<Rightarrow> u16" where
  "SnapPsu old Number =
     (if Number \<ge> 4000 then 5000 else if Number \<ge> 1500 then 3000 else old)"

definition BlValuesFromText :: "u8 list \<Rightarrow> blcfg_values" where
  "BlValuesFromText Text =
     (let v = SetDefaults;
          v = (case TextField Text BlKeyBootOrder ParseBootOrder of
                 Some ord \<Rightarrow> v\<lparr>BootOrder := ord\<rparr> | None \<Rightarrow> v);
          v = (case TextField Text BlKeyBootUart ParseDecimal of
                 Some n \<Rightarrow> v\<lparr>BootUart := flag n\<rparr> | None \<Rightarrow> v);
          v = (case TextField Text BlKeyPowerOffOnHalt ParseDecimal of
                 Some n \<Rightarrow> v\<lparr>PowerOffOnHalt := flag n\<rparr> | None \<Rightarrow> v);
          v = (case TextField Text BlKeyWakeOnGpio ParseDecimal of
                 Some n \<Rightarrow> v\<lparr>WakeOnGpio := flag n\<rparr> | None \<Rightarrow> v)
      in (case TextField Text BlKeyPsuMaxCurrent ParseDecimal of
            Some n \<Rightarrow> v\<lparr>PsuMaxCurrent := SnapPsu (PsuMaxCurrent v) n\<rparr> | None \<Rightarrow> v))"

subsection \<open>Varstore data\<close>

fun AsciiFrom :: "u16 list \<Rightarrow> nat \<Rightarrow> nat \<Rightarrow> u8 list option" where
  "AsciiFrom d Index 0 = Some []"
| "AsciiFrom d Index (Suc n) =
     (if d ! Index = 0 then Some []
      else if d ! Index > 0x7F then None
      else map_option (\<lambda>cs. ucast (d ! Index) # cs) (AsciiFrom d (Index + 1) n))"

definition BlValuesFromData :: "blcfg_data \<Rightarrow> blcfg_values option" where
  "BlValuesFromData Data =
     (case AsciiFrom (DBootOrder Data) 0 11 of
        None \<Rightarrow> None
      | Some Ascii \<Rightarrow>
          (case ParseBootOrder Ascii of
             None \<Rightarrow> None
           | Some ord \<Rightarrow>
               if DPsuMaxCurrent Data \<noteq> 0 \<and> DPsuMaxCurrent Data \<noteq> 3000 \<and> DPsuMaxCurrent Data \<noteq> 5000
               then None
               else Some (SetDefaults\<lparr>BootOrder := ord,
                      BootUart := (if DBootUart Data \<noteq> 0 then 1 else 0),
                      PowerOffOnHalt := (if DPowerOffOnHalt Data \<noteq> 0 then 1 else 0),
                      WakeOnGpio := (if DWakeOnGpio Data \<noteq> 0 then 1 else 0),
                      PsuMaxCurrent := DPsuMaxCurrent Data\<rparr>)))"

definition BlValuesToData :: "blcfg_values \<Rightarrow> blcfg_data" where
  "BlValuesToData Values =
     \<lparr>DBootOrder = map ucast (BootOrder Values) @ replicate (12 - length (BootOrder Values)) 0,
      DBootUart = BootUart Values, DPowerOffOnHalt = PowerOffOnHalt Values,
      DWakeOnGpio = WakeOnGpio Values, DPsuMaxCurrent = PsuMaxCurrent Values\<rparr>"

definition BlValuesEqual :: "blcfg_values \<Rightarrow> blcfg_values \<Rightarrow> bool" where
  "BlValuesEqual A B =
     (BootOrder A = BootOrder B \<and> BootUart A = BootUart B \<and>
      PowerOffOnHalt A = PowerOffOnHalt B \<and> WakeOnGpio A = WakeOnGpio B \<and>
      PsuMaxCurrent A = PsuMaxCurrent B)"

subsection \<open>Rebuilding the text\<close>

definition PsuDigits :: "nat \<Rightarrow> u8 list" where
  "PsuDigits Number =
     (let hd = (if Number \<ge> 1000 then [of_nat (48 + Number div 1000)] else []);
          n = (if Number \<ge> 1000 then Number mod 1000 else Number)
      in hd @ [of_nat (48 + n div 100), of_nat (48 + n div 10 mod 10), of_nat (48 + n mod 10)])"

fun FormatValue :: "bl_key \<Rightarrow> blcfg_values \<Rightarrow> u8 list option" where
  "FormatValue BlKeyBootOrder v = Some (BootOrder v)"
| "FormatValue BlKeyBootUart v = Some [48 + BootUart v]"
| "FormatValue BlKeyPowerOffOnHalt v = Some [48 + PowerOffOnHalt v]"
| "FormatValue BlKeyWakeOnGpio v = Some [48 + WakeOnGpio v]"
| "FormatValue BlKeyPsuMaxCurrent v =
     (if PsuMaxCurrent v = 0 then None else Some (PsuDigits (unat (PsuMaxCurrent v))))"

text \<open>The bytes written to \<open>Line\<close>; the empty list is the return of 0.\<close>

definition FormatKeyLine :: "bl_key \<Rightarrow> blcfg_values \<Rightarrow> nat \<Rightarrow> u8 list" where
  "FormatKeyLine Key Values Cap =
     (case FormatValue Key Values of
        None \<Rightarrow> []
      | Some Value \<Rightarrow>
          if length (mBlKeyNames Key) + 1 + length Value + 1 > Cap then []
          else mBlKeyNames Key @ 61 # Value @ [10])"

fun AppendWanted :: "bl_key \<Rightarrow> blcfg_values \<Rightarrow> bool" where
  "AppendWanted BlKeyBootOrder v = (BootOrder v \<noteq> BL_BOOT_ORDER_DEFAULT)"
| "AppendWanted BlKeyBootUart v = (BootUart v \<noteq> 0)"
| "AppendWanted BlKeyPowerOffOnHalt v = (PowerOffOnHalt v \<noteq> 0)"
| "AppendWanted BlKeyWakeOnGpio v = (WakeOnGpio v \<noteq> 1)"
| "AppendWanted BlKeyPsuMaxCurrent v = (PsuMaxCurrent v \<noteq> 0)"

definition MatchKey :: "u8 list \<Rightarrow> nat \<Rightarrow> nat \<Rightarrow> bl_key option" where
  "MatchKey Orig Pos LineEnd = find (\<lambda>Key. KeyAt Orig Pos LineEnd (mBlKeyNames Key)) bl_keys"

type_synonym build_state = "u8 list \<times> (bl_key \<Rightarrow> bool)"

function BuildLoop ::
  "u8 list \<Rightarrow> blcfg_values \<Rightarrow> nat \<Rightarrow> nat \<Rightarrow> build_state \<Rightarrow> efi_status + build_state" where
  "BuildLoop Orig Values OutCap Pos (Out, Seen) =
     (if Pos < length Orig then
        (let LineEnd = LineEndFrom Orig Pos; LineLen = LineEnd - Pos in
         case MatchKey Orig Pos LineEnd of
           None \<Rightarrow>
             if length Out + LineLen + 1 > OutCap then Inl EFI_BUFFER_TOO_SMALL
             else BuildLoop Orig Values OutCap (LineEnd + 1)
                    (Out @ take LineLen (drop Pos Orig) @
                       (if LineEnd < length Orig then [10] else []), Seen)
         | Some Match \<Rightarrow>
             if Seen Match then BuildLoop Orig Values OutCap (LineEnd + 1) (Out, Seen)
             else if length Out + 64 > OutCap then Inl EFI_BUFFER_TOO_SMALL
             else BuildLoop Orig Values OutCap (LineEnd + 1)
                    (Out @ FormatKeyLine Match Values (OutCap - length Out), Seen(Match := True)))
      else Inr (Out, Seen))"
  by pat_completeness auto
termination
  by (relation "measure (\<lambda>(Orig, Values, OutCap, Pos, st). length Orig - Pos)")
     (auto simp: less_Suc_eq_le LineEndFrom_ge intro!: diff_less_mono2)

declare BuildLoop.simps [simp del]

fun AppendLoop ::
  "blcfg_values \<Rightarrow> nat \<Rightarrow> bl_key list \<Rightarrow> build_state \<Rightarrow> efi_status + u8 list" where
  "AppendLoop Values OutCap [] (Out, Seen) = Inr Out"
| "AppendLoop Values OutCap (Key # ks) (Out, Seen) =
     (if Seen Key \<or> \<not> AppendWanted Key Values then AppendLoop Values OutCap ks (Out, Seen)
      else if length Out + 64 > OutCap then Inl EFI_BUFFER_TOO_SMALL
      else AppendLoop Values OutCap ks
             (Out @ FormatKeyLine Key Values (OutCap - length Out), Seen))"

definition BlBuildNewConfigText ::
  "u8 list \<Rightarrow> blcfg_values \<Rightarrow> nat \<Rightarrow> efi_status + u8 list" where
  "BlBuildNewConfigText Orig Values OutCap =
     (case BuildLoop Orig Values OutCap 0 ([], \<lambda>_. False) of
        Inl e \<Rightarrow> Inl e
      | Inr (Out, Seen) \<Rightarrow>
          if Out \<noteq> [] \<and> last Out \<noteq> 10 then
            if length Out + 1 > OutCap then Inl EFI_BUFFER_TOO_SMALL
            else AppendLoop Values OutCap bl_keys (Out @ [10], Seen)
          else AppendLoop Values OutCap bl_keys (Out, Seen))"

subsection \<open>The text as lines\<close>

text \<open>
  The specification side: a text is the list of its lines, and every scan of the code over
  positions is a recursion over that list.
\<close>

definition not_nl :: "u8 \<Rightarrow> bool" where
  "not_nl c = (c \<noteq> 10)"

function text_lines :: "u8 list \<Rightarrow> u8 list list" where
  "text_lines t = (if t = [] then []
     else takeWhile not_nl t # text_lines (drop 1 (dropWhile not_nl t)))"
  by pat_completeness auto
termination
proof (relation "measure length", goal_cases)
  case (2 t)
  then have "length (dropWhile not_nl t) \<le> length t" "0 < length t"
    by (auto simp: length_dropWhile_le)
  then have "length (dropWhile not_nl t) - 1 < length t" by linarith
  then show ?case by simp
qed simp

declare text_lines.simps [simp del]

definition key_line :: "u8 list \<Rightarrow> u8 list \<Rightarrow> bool" where
  "key_line Key l = (length l > length Key \<and> take (length Key) l = Key \<and> l ! length Key = 61)"

definition value_of :: "u8 list \<Rightarrow> u8 list \<Rightarrow> u8 list" where
  "value_of Key l =
     (let v = drop (length Key + 1) l in if v \<noteq> [] \<and> last v = 13 then butlast v else v)"

fun last_value :: "u8 list \<Rightarrow> u8 list list \<Rightarrow> u8 list option \<Rightarrow> u8 list option" where
  "last_value Key [] acc = acc"
| "last_value Key (l # ls) acc =
     last_value Key ls (if key_line Key l then Some (value_of Key l) else acc)"

lemma text_lines_Nil [simp]: "text_lines [] = []"
  by (simp add: text_lines.simps)

lemma LineEndFrom_eq:
  "p \<le> length t \<Longrightarrow> LineEndFrom t p = p + length (takeWhile not_nl (drop p t))"
proof (induction t p rule: LineEndFrom.induct)
  case (1 t p)
  show ?case
  proof (cases "p < length t \<and> t ! p \<noteq> 10")
    case True
    then have d: "drop p t = t ! p # drop (Suc p) t" by (simp add: Cons_nth_drop_Suc)
    from True have "not_nl (t ! p)" by (simp add: not_nl_def)
    with True 1 show ?thesis by (subst LineEndFrom.simps) (simp add: d)
  next
    case False
    with "1.prems" have "takeWhile not_nl (drop p t) = []"
      by (cases "p < length t") (auto simp: not_nl_def Cons_nth_drop_Suc [symmetric])
    with False show ?thesis by (subst LineEndFrom.simps) auto
  qed
qed

lemma line_split:
  assumes "p < length t"
  defines "r \<equiv> drop p t" and "le \<equiv> LineEndFrom t p"
  shows "le - p = length (takeWhile not_nl r)" and "take (le - p) r = takeWhile not_nl r"
    and "drop (le + 1) t = drop 1 (dropWhile not_nl r)"
    and "le < length t \<longleftrightarrow> dropWhile not_nl r \<noteq> []"
    and "le \<le> length t"
proof -
  have le: "le = p + length (takeWhile not_nl r)"
    using assms by (simp add: LineEndFrom_eq)
  then show "le - p = length (takeWhile not_nl r)" "take (le - p) r = takeWhile not_nl r"
    by (simp_all add: takeWhile_eq_take [symmetric])
  have dw: "drop le t = dropWhile not_nl r"
    using le by (simp add: r_def dropWhile_eq_drop add.commute)
  show "drop (le + 1) t = drop 1 (dropWhile not_nl r)"
    using dw [symmetric] by simp
  show "le < length t \<longleftrightarrow> dropWhile not_nl r \<noteq> []" using dw [symmetric] by auto
  have "length (takeWhile not_nl r) \<le> length r" by (rule length_takeWhile_le)
  with le assms(1) show "le \<le> length t" by (simp add: r_def)
qed

lemma KeyAt_line:
  assumes "p < length t"
  shows "KeyAt t p (LineEndFrom t p) Key = key_line Key (takeWhile not_nl (drop p t))"
proof -
  let ?l = "takeWhile not_nl (drop p t)" and ?n = "length Key"
  have ls: "LineEndFrom t p - p = length ?l" "take (length ?l) (drop p t) = ?l"
    using line_split [OF assms] by simp_all
  have "take ?n (drop p t) = take ?n ?l \<and> t ! (p + ?n) = ?l ! ?n" if n: "?n < length ?l"
  proof -
    have "take ?n (take (length ?l) (drop p t)) = take ?n (drop p t)"
      using n by (simp add: min_def)
    moreover have "take (length ?l) (drop p t) ! ?n = t ! (p + ?n)"
      using n assms by (simp add: nth_drop [symmetric] del: nth_drop)
    ultimately show ?thesis using ls(2) by simp
  qed
  then show ?thesis by (auto simp: KeyAt_def key_line_def ls)
qed

lemma ValueAt_line:
  assumes p: "p < length t" and k: "key_line Key (takeWhile not_nl (drop p t))"
  shows "ValueAt t p (LineEndFrom t p) (length Key) = value_of Key (takeWhile not_nl (drop p t))"
proof -
  let ?l = "takeWhile not_nl (drop p t)" and ?n = "length Key"
  have le: "LineEndFrom t p = p + length ?l" using p by (simp add: LineEndFrom_eq)
  have lt: "length ?l \<le> length t - p" using length_takeWhile_le [of not_nl "drop p t"] by simp
  have nth: "t ! (p + i) = ?l ! i" if "i < length ?l" for i
    using that takeWhile_nth [of i not_nl "drop p t"] lt by simp
  have tk: "take (m - (p + ?n + 1)) (drop (p + ?n + 1) t) = take (m - (p + ?n + 1)) (drop (?n + 1) ?l)"
    if "m \<le> p + length ?l" for m
  proof (rule nth_equalityI)
    fix i assume "i < length (take (m - (p + ?n + 1)) (drop (p + ?n + 1) t))"
    with that have i: "i < m - (p + ?n + 1)" "?n + 1 + i < length ?l" by auto
    with nth [of "?n + 1 + i"] lt show "take (m - (p + ?n + 1)) (drop (p + ?n + 1) t) ! i =
        take (m - (p + ?n + 1)) (drop (?n + 1) ?l) ! i"
      by (simp add: add.assoc [symmetric])
  qed (use that lt in auto)
  have lst: "t ! (LineEndFrom t p - 1) = last (drop (?n + 1) ?l)" if "?n + 1 < length ?l"
  proof -
    have "last (drop (?n + 1) ?l) = last ?l" using that by (rule last_drop)
    also have "\<dots> = ?l ! (length ?l - 1)" using that by (intro last_conv_nth) auto
    also have "\<dots> = t ! (LineEndFrom t p - 1)" using that nth [of "length ?l - 1"] by (simp add: le)
    finally show ?thesis by simp
  qed
  have n: "?n < length ?l" using k by (simp add: key_line_def)
  show ?thesis
  proof (cases "?n + 1 < length ?l \<and> last (drop (?n + 1) ?l) = 13")
    case True
    then have "ValueAt t p (LineEndFrom t p) ?n =
        take (p + length ?l - 1 - (p + ?n + 1)) (drop (p + ?n + 1) t)"
      using lst by (simp add: ValueAt_def le)
    also have "\<dots> = butlast (drop (?n + 1) ?l)"
      by (subst tk) (simp_all add: butlast_conv_take algebra_simps)
    finally show ?thesis using True by (simp add: value_of_def)
  next
    case False
    then have "ValueAt t p (LineEndFrom t p) ?n =
        take (p + length ?l - (p + ?n + 1)) (drop (p + ?n + 1) t)"
      using lst by (auto simp: ValueAt_def le)
    also have "\<dots> = drop (?n + 1) ?l" by (subst tk) simp_all
    finally show ?thesis using False by (auto simp: value_of_def Let_def)
  qed
qed

lemma GetValueLoop_lines:
  "GetValueLoop t Key p acc = last_value Key (text_lines (drop p t)) acc"
proof (induction t Key p acc rule: GetValueLoop.induct)
  case (1 t Key p acc)
  show ?case
  proof (cases "p < length t")
    case True
    then have "text_lines (drop p t) = takeWhile not_nl (drop p t) #
        text_lines (drop (LineEndFrom t p + 1) t)"
      using line_split(3) [OF True] by (subst text_lines.simps) simp
    with True "1.IH" [OF True refl] show ?thesis
      by (subst GetValueLoop.simps) (simp add: Let_def KeyAt_line ValueAt_line)
  next
    case False
    then show ?thesis by (simp add: GetValueLoop.simps)
  qed
qed

lemma BlTextGetValue_lines:
  "BlTextGetValue t Key = last_value Key (text_lines t) None"
  by (simp add: BlTextGetValue_def GetValueLoop_lines)

lemma last_value_app: "last_value Key (xs @ ys) acc = last_value Key ys (last_value Key xs acc)"
  by (induction xs arbitrary: acc) auto

lemma last_value_none: "(\<And>l. l \<in> set ls \<Longrightarrow> \<not> key_line Key l) \<Longrightarrow> last_value Key ls acc = acc"
  by (induction ls) auto

lemma last_value_last:
  assumes "key_line Key l" and "\<And>x. x \<in> set ys \<Longrightarrow> \<not> key_line Key x"
  shows "last_value Key (xs @ l # ys) acc = Some (value_of Key l)"
  using assms by (simp add: last_value_app last_value_none)

subsection \<open>Lines of a text under construction\<close>

definition terminated :: "u8 list \<Rightarrow> bool" where
  "terminated t = (t = [] \<or> last t = 10)"

definition plain :: "u8 list \<Rightarrow> bool" where
  "plain l = (\<forall>c \<in> set l. c \<noteq> 10)"

lemma plain_takeWhile: "plain (takeWhile not_nl t)"
  by (auto simp: plain_def not_nl_def dest: set_takeWhileD)

lemma takeWhile_plain: "plain l \<Longrightarrow> takeWhile not_nl (l @ 10 # r) = l"
  "plain l \<Longrightarrow> dropWhile not_nl (l @ 10 # r) = 10 # r"
  "plain l \<Longrightarrow> takeWhile not_nl l = l" "plain l \<Longrightarrow> dropWhile not_nl l = []"
  by (simp_all add: plain_def not_nl_def takeWhile_tail)

lemma text_lines_cons: "plain l \<Longrightarrow> text_lines (l @ 10 # r) = l # text_lines r"
  by (subst text_lines.simps) (simp add: takeWhile_plain)

lemma text_lines_single: "plain l \<Longrightarrow> l \<noteq> [] \<Longrightarrow> text_lines l = [l]"
  by (subst text_lines.simps) (simp add: takeWhile_plain)

lemma text_lines_app: "terminated t \<Longrightarrow> text_lines (t @ r) = text_lines t @ text_lines r"
proof (induction t rule: text_lines.induct)
  case (1 t)
  show ?case
  proof (cases "t = []")
    case False
    let ?l = "takeWhile not_nl t" and ?d = "dropWhile not_nl t"
    have "10 \<in> set t"
      using "1.prems" False last_in_set [of t] by (auto simp: terminated_def)
    then have "?d \<noteq> []" by (auto simp: not_nl_def dropWhile_eq_Nil_conv)
    then obtain d where d: "?d = 10 # d"
      using hd_dropWhile [of not_nl t] by (cases ?d) (auto simp: not_nl_def)
    then have t: "t = ?l @ 10 # d" by (metis takeWhile_dropWhile_id)
    have "terminated d" using "1.prems" by (subst (asm) t) (auto simp: terminated_def split: if_splits)
    with "1.IH" [OF False] d have IH: "text_lines (d @ r) = text_lines d @ text_lines r" by simp
    have "text_lines (t @ r) = text_lines (?l @ 10 # (d @ r))" by (subst t) simp
    also have "\<dots> = text_lines (?l @ 10 # d) @ text_lines r"
      using IH text_lines_cons [OF plain_takeWhile] by simp
    finally show ?thesis using t by simp
  qed simp
qed

lemma text_lines_plain: "l \<in> set (text_lines t) \<Longrightarrow> plain l"
proof (induction t rule: text_lines.induct)
  case (1 t)
  then show ?case by (subst (asm) text_lines.simps) (auto simp: plain_takeWhile split: if_splits)
qed

lemma terminated_app: "terminated t \<Longrightarrow> terminated r \<Longrightarrow> terminated (t @ r)"
  by (cases "r = []") (auto simp: terminated_def)

lemma terminated_nl: "terminated (t @ [10])"
  by (simp add: terminated_def)

lemma text_lines_unterminated:
  assumes "t \<noteq> []" and "last t \<noteq> 10"
  shows "text_lines (t @ [10]) = text_lines t"
  using assms
proof (induction t rule: text_lines.induct)
  case (1 t)
  let ?l = "takeWhile not_nl t" and ?d = "dropWhile not_nl t"
  show ?case
  proof (cases "?d = []")
    case True
    then have "plain t" by (simp add: plain_def not_nl_def dropWhile_eq_Nil_conv)
    then show ?thesis
      using 1 text_lines_cons [of t "[]"] by (simp add: text_lines_single)
  next
    case False
    then obtain d where d: "?d = 10 # d"
      using hd_dropWhile [of not_nl t] by (cases ?d) (auto simp: not_nl_def)
    then have t: "t = ?l @ 10 # d" by (metis takeWhile_dropWhile_id)
    have ld: "d \<noteq> []" "last d \<noteq> 10" using 1(3) by (subst (asm) t, simp split: if_splits)+
    with "1.IH" 1 d have IH: "text_lines (d @ [10]) = text_lines d" by simp
    have "text_lines (t @ [10]) = text_lines (?l @ 10 # (d @ [10]))" by (subst t) simp
    also have "\<dots> = text_lines (?l @ 10 # d)"
      using IH text_lines_cons [OF plain_takeWhile] by simp
    finally show ?thesis using t by simp
  qed
qed

subsection \<open>The rebuilt text, line by line\<close>

definition line_key :: "u8 list \<Rightarrow> bl_key option" where
  "line_key l = find (\<lambda>k. key_line (mBlKeyNames k) l) bl_keys"

definition key_lines :: "blcfg_values \<Rightarrow> bl_key \<Rightarrow> u8 list list" where
  "key_lines v k = (case FormatValue k v of None \<Rightarrow> [] | Some x \<Rightarrow> [mBlKeyNames k @ 61 # x])"

fun rewrite_lines :: "blcfg_values \<Rightarrow> (bl_key \<Rightarrow> bool) \<Rightarrow> u8 list list \<Rightarrow> u8 list list" where
  "rewrite_lines v seen [] = []"
| "rewrite_lines v seen (l # ls) =
     (case line_key l of
        None \<Rightarrow> l # rewrite_lines v seen ls
      | Some k \<Rightarrow> if seen k then rewrite_lines v seen ls
                  else key_lines v k @ rewrite_lines v (seen(k := True)) ls)"

definition seen_after :: "(bl_key \<Rightarrow> bool) \<Rightarrow> u8 list list \<Rightarrow> bl_key \<Rightarrow> bool" where
  "seen_after seen ls k = (seen k \<or> (\<exists>l \<in> set ls. line_key l = Some k))"

lemma MatchKey_line:
  "p < length t \<Longrightarrow> MatchKey t p (LineEndFrom t p) = line_key (takeWhile not_nl (drop p t))"
  by (simp add: MatchKey_def line_key_def KeyAt_line)

text \<open>
  The values the driver rebuilds from: a canonical boot order, two-valued flags and one of
  the three supply settings. \<^verbatim>\<open>BlValuesFromText\<close> and \<^verbatim>\<open>BlValuesFromData\<close> produce no others.
\<close>

definition hex_lower :: "u8 \<Rightarrow> bool" where
  "hex_lower c = ((48 \<le> c \<and> c \<le> 57) \<or> (97 \<le> c \<and> c \<le> 102))"

definition valid_boot_order :: "u8 list \<Rightarrow> bool" where
  "valid_boot_order ord =
     (take 2 ord = [48, 120] \<and> 3 \<le> length ord \<and> length ord \<le> 10 \<and> list_all hex_lower (drop 2 ord))"

definition valid_values :: "blcfg_values \<Rightarrow> bool" where
  "valid_values v =
     (valid_boot_order (BootOrder v) \<and> BootUart v \<in> {0, 1} \<and> PowerOffOnHalt v \<in> {0, 1} \<and>
      WakeOnGpio v \<in> {0, 1} \<and> PsuMaxCurrent v \<in> {0, 3000, 5000})"

lemma hex_lower_range: "hex_lower c \<Longrightarrow> c \<noteq> 10 \<and> c \<noteq> 13 \<and> c \<noteq> 32 \<and> c \<noteq> 9 \<and> c \<noteq> 120 \<and> c \<noteq> 88"
  by (auto simp: hex_lower_def)

lemma key_names_plain: "plain (mBlKeyNames k)"
  by (cases k) (simp_all add: plain_def ascii_def)

lemma key_names_length: "length (mBlKeyNames k) \<le> 17" "mBlKeyNames k \<noteq> []"
  by (cases k; simp add: ascii_def)+

lemma flag_digit_plain: "x \<in> {0, 1} \<Longrightarrow> 48 + x \<noteq> (10 :: u8)"
  by auto

lemma psu_digits: "PsuDigits 3000 = ascii ''3000''" "PsuDigits 5000 = ascii ''5000''"
  by (simp_all add: PsuDigits_def ascii_def)

lemma valid_boot_order_plain: "valid_boot_order ord \<Longrightarrow> plain ord"
proof -
  assume v: "valid_boot_order ord"
  have "set ord = set (take 2 ord) \<union> set (drop 2 ord)"
    by (metis append_take_drop_id set_append)
  moreover have "\<forall>c \<in> set (drop 2 ord). c \<noteq> 10"
    using v hex_lower_range by (auto simp: valid_boot_order_def list_all_iff)
  ultimately show ?thesis using v by (auto simp: plain_def valid_boot_order_def)
qed

lemma FormatValue_shape:
  assumes "valid_values v" and "FormatValue k v = Some x"
  shows "plain x" and "length x \<le> 10"
proof -
  have "plain x \<and> length x \<le> 10"
  proof (cases k)
    case BlKeyBootOrder
    with assms valid_boot_order_plain [of "BootOrder v"] show ?thesis
      by (auto simp: valid_values_def valid_boot_order_def)
  next
    case BlKeyPsuMaxCurrent
    with assms have "x = PsuDigits 3000 \<or> x = PsuDigits 5000"
      by (auto simp: valid_values_def split: if_splits)
    then show ?thesis by (auto simp: psu_digits plain_def ascii_def)
  qed (use assms in \<open>auto simp: valid_values_def plain_def\<close>)
  then show "plain x" "length x \<le> 10" by simp_all
qed

lemma FormatKeyLine_lines:
  assumes "valid_values v" and "64 \<le> cap"
  shows "FormatKeyLine k v cap = concat (map (\<lambda>l. l @ [10]) (key_lines v k))"
    and "\<forall>l \<in> set (key_lines v k). plain l"
proof -
  show "FormatKeyLine k v cap = concat (map (\<lambda>l. l @ [10]) (key_lines v k))"
    using assms FormatValue_shape [OF assms(1), of k] key_names_length(1) [of k]
    by (fastforce simp: FormatKeyLine_def key_lines_def split: option.splits)
  show "\<forall>l \<in> set (key_lines v k). plain l"
  proof (cases "FormatValue k v")
    case (Some x)
    with FormatValue_shape(1) [OF assms(1) Some] key_names_plain [of k] show ?thesis
      by (auto simp: key_lines_def plain_def)
  qed (simp add: key_lines_def)
qed

lemma FormatKeyLine_length: "length (FormatKeyLine k v cap) \<le> cap"
  by (auto simp: FormatKeyLine_def split: option.splits)

lemma lines_concat: 
  "(\<And>l. l \<in> set ls \<Longrightarrow> plain l) \<Longrightarrow> text_lines (concat (map (\<lambda>l. l @ [10]) ls)) = ls"
  by (induction ls) (simp_all add: text_lines_cons)

lemma terminated_concat: "terminated (concat (map (\<lambda>l. l @ [10 :: u8]) ls))"
  by (induction ls) (auto simp: terminated_def)

lemma FormatKeyLine_append:
  assumes "valid_values v" and "64 \<le> cap" and "terminated Out"
  shows "terminated (Out @ FormatKeyLine k v cap)"
    and "text_lines (Out @ FormatKeyLine k v cap) = text_lines Out @ key_lines v k"
  using FormatKeyLine_lines [OF assms(1,2), of k] assms(3)
  by (simp_all add: terminated_app terminated_concat text_lines_app lines_concat)

lemma lines_at:
  assumes "p < length t"
  shows "text_lines (drop p t) = takeWhile not_nl (drop p t) #
           text_lines (drop (LineEndFrom t p + 1) t)"
  using line_split(3) [OF assms] assms by (subst text_lines.simps) simp

lemma verbatim_line:
  assumes p: "p < length t" and le: "LineEndFrom t p < length t" and o: "terminated Out"
  defines "Out' \<equiv> Out @ take (LineEndFrom t p - p) (drop p t) @ [10]"
  shows "terminated Out'" and "text_lines Out' = text_lines Out @ [takeWhile not_nl (drop p t)]"
proof -
  show "terminated Out'" by (simp add: Out'_def terminated_def)
  have "take (LineEndFrom t p - p) (drop p t) = takeWhile not_nl (drop p t)"
    using line_split(2) [OF p] by simp
  then show "text_lines Out' = text_lines Out @ [takeWhile not_nl (drop p t)]"
    using o by (simp add: Out'_def text_lines_app text_lines_cons plain_takeWhile)
qed

lemma last_line:
  assumes p: "p < length t" and le: "\<not> LineEndFrom t p < length t"
  shows "text_lines (drop (LineEndFrom t p + 1) t) = []"
    and "text_lines (take (LineEndFrom t p - p) (drop p t)) = [takeWhile not_nl (drop p t)]"
proof -
  show "text_lines (drop (LineEndFrom t p + 1) t) = []" using le by simp
  have dw: "dropWhile not_nl (drop p t) = []" using line_split(4) [OF p] le by simp
  have e: "takeWhile not_nl (drop p t) = drop p t"
    by (metis append_Nil2 dw takeWhile_dropWhile_id)
  have "plain (drop p t)" using plain_takeWhile [of "drop p t"] unfolding e .
  with p have "text_lines (drop p t) = [drop p t]" by (intro text_lines_single) simp_all
  moreover have "take (LineEndFrom t p - p) (drop p t) = takeWhile not_nl (drop p t)"
    using line_split(2) [OF p] by simp
  ultimately show "text_lines (take (LineEndFrom t p - p) (drop p t)) =
      [takeWhile not_nl (drop p t)]" unfolding e by metis
qed

lemma seen_after_Cons:
  "line_key l = None \<Longrightarrow> seen_after Seen (l # ls) = seen_after Seen ls"
  "line_key l = Some k \<Longrightarrow> seen_after Seen (l # ls) = seen_after (Seen(k := True)) ls"
  "seen_after Seen [] = Seen"
  by (auto simp: seen_after_def fun_eq_iff)

lemma BuildLoop_lines:
  assumes "valid_values v"
  shows "BuildLoop t v cap p (Out, Seen) = Inr (Out', Seen') \<Longrightarrow> terminated Out \<Longrightarrow>
    text_lines Out' = text_lines Out @ rewrite_lines v Seen (text_lines (drop p t)) \<and>
    Seen' = seen_after Seen (text_lines (drop p t))"
  using assms
proof (induction t v cap p "(Out, Seen)" arbitrary: Out Seen rule: BuildLoop.induct)
  case (1 t v cap p Out Seen)
  let ?le = "LineEndFrom t p" and ?l = "takeWhile not_nl (drop p t)"
  note run = "1.prems"(1) [unfolded BuildLoop.simps [of t v cap p Out Seen] Let_def]
  show ?case
  proof (cases "p < length t")
    case True
    note mk = MatchKey_line [OF True] and ll = lines_at [OF True]
    show ?thesis
    proof (cases "line_key ?l")
      case None
      note IH = "1.hyps"(1) [OF True refl refl]
      show ?thesis
      proof (cases "?le < length t")
        case le: True
        show ?thesis
          using run IH verbatim_line [OF True le "1.prems"(2)] "1.prems"(3) True le None mk ll
          by (simp add: seen_after_Cons split: if_splits)
      next
        case le: False
        have "BuildLoop t v cap (?le + 1) (Out @ take (?le - p) (drop p t), Seen) =
            Inr (Out @ take (?le - p) (drop p t), Seen)"
          using le by (simp add: BuildLoop.simps)
        with run True None mk le have "Out' = Out @ take (?le - p) (drop p t)" "Seen' = Seen"
          by (auto split: if_splits)
        with last_line [OF True le] None ll "1.prems"(2) show ?thesis
          by (simp add: seen_after_Cons text_lines_app)
      qed
    next
      case (Some k)
      show ?thesis
      proof (cases "Seen k")
        case sk: True
        then have "Seen(k := True) = Seen" by (simp add: fun_upd_idem)
        with run 1(2) [OF True refl refl] Some mk ll True sk "1.prems" show ?thesis
          by (simp add: seen_after_Cons)
      next
        case sk: False
        have cap: "64 \<le> cap - length Out" using run Some mk sk True by (auto split: if_splits)
        note app = FormatKeyLine_append [OF "1.prems"(3) cap "1.prems"(2)]
        show ?thesis
          using run 1(3) [OF True refl refl _ sk] Some mk ll True sk "1.prems" app
          by (simp add: seen_after_Cons split: if_splits)
      qed
    qed
  next
    case False
    with run show ?thesis by (simp add: seen_after_Cons)
  qed
qed

lemma AppendLoop_lines:
  assumes "valid_values v"
  shows "AppendLoop v cap ks (Out, Seen) = Inr Out' \<Longrightarrow> terminated Out \<Longrightarrow>
    text_lines Out' = text_lines Out @
      concat (map (key_lines v) (filter (\<lambda>k. \<not> Seen k \<and> AppendWanted k v) ks))"
proof (induction ks arbitrary: Out)
  case (Cons k ks)
  show ?case
  proof (cases "Seen k \<or> \<not> AppendWanted k v")
    case False
    then have cap: "64 \<le> cap - length Out" using Cons.prems by (auto split: if_splits)
    from False Cons.IH Cons.prems FormatKeyLine_append [OF assms cap Cons.prems(2), of k]
    show ?thesis by (simp split: if_splits)
  qed (use Cons in auto)
qed simp

definition build_lines :: "blcfg_values \<Rightarrow> u8 list list \<Rightarrow> u8 list list" where
  "build_lines v ls =
     rewrite_lines v (\<lambda>_. False) ls @
     concat (map (key_lines v)
       (filter (\<lambda>k. \<not> seen_after (\<lambda>_. False) ls k \<and> AppendWanted k v) bl_keys))"

lemma build_text_lines:
  assumes v: "valid_values v" and r: "BlBuildNewConfigText t v cap = Inr out"
  shows "text_lines out = build_lines v (text_lines t)"
proof -
  from r obtain o1 seen where b: "BuildLoop t v cap 0 ([], \<lambda>_. False) = Inr (o1, seen)"
    by (auto simp: BlBuildNewConfigText_def split: sum.splits)
  have l: "text_lines o1 = rewrite_lines v (\<lambda>_. False) (text_lines t)"
    "seen = seen_after (\<lambda>_. False) (text_lines t)"
    using BuildLoop_lines [OF v b] by (simp_all add: terminated_def)
  show ?thesis
  proof (cases "terminated o1")
    case True
    then have "AppendLoop v cap bl_keys (o1, seen) = Inr out"
      using r b by (auto simp: BlBuildNewConfigText_def terminated_def split: if_splits)
    from AppendLoop_lines [OF v this True] l show ?thesis by (simp add: build_lines_def)
  next
    case False
    then have "AppendLoop v cap bl_keys (o1 @ [10], seen) = Inr out"
      using r b by (auto simp: BlBuildNewConfigText_def terminated_def split: if_splits)
    from AppendLoop_lines [OF v this terminated_nl] l False show ?thesis
      by (simp add: build_lines_def terminated_def text_lines_unterminated)
  qed
qed

subsection \<open>What a reader of the rebuilt text sees\<close>

lemma key_line_iff: "key_line K l \<longleftrightarrow> (\<exists>r. l = K @ 61 # r)"
proof
  assume k: "key_line K l"
  with id_take_nth_drop [of "length K" l] have "l = K @ 61 # drop (Suc (length K)) l"
    by (metis key_line_def)
  then show "\<exists>r. l = K @ 61 # r" by blast
qed (auto simp: key_line_def)

lemma key_names_eq: "61 \<notin> set (mBlKeyNames k)" "mBlKeyNames k = mBlKeyNames j \<longleftrightarrow> k = j"
  by (cases k; cases j; simp add: ascii_def)+

lemma key_line_unique:
  assumes "key_line (mBlKeyNames k) l" and "key_line (mBlKeyNames j) l"
  shows "k = j"
proof -
  have "takeWhile (\<lambda>c. c \<noteq> 61) l = mBlKeyNames i" if "key_line (mBlKeyNames i) l" for i
    using that key_names_eq(1) [of i] by (auto simp: key_line_iff takeWhile_tail)
  with assms key_names_eq(2) [of k j] show ?thesis by metis
qed

lemma line_key_iff: "line_key l = Some k \<longleftrightarrow> key_line (mBlKeyNames k) l"
proof
  assume "line_key l = Some k"
  then show "key_line (mBlKeyNames k) l" by (auto simp: line_key_def find_Some_iff)
next
  assume k: "key_line (mBlKeyNames k) l"
  have "k \<in> set bl_keys" by (cases k) (simp_all add: bl_keys_def)
  with k have "line_key l \<noteq> None" by (auto simp: line_key_def find_None_iff)
  then obtain j where "line_key l = Some j" by auto
  with k key_line_unique show "line_key l = Some k"
    by (metis (mono_tags, lifting) find_Some_iff line_key_def)
qed

lemma key_lines_key: "l \<in> set (key_lines v k) \<Longrightarrow> line_key l = Some k"
  by (auto simp: key_lines_def line_key_iff key_line_iff split: option.splits)

lemma filter_key_lines:
  "filter (\<lambda>l. line_key l = Some k) (key_lines v j) = (if j = k then key_lines v k else [])"
  "filter (\<lambda>l. line_key l = None) (key_lines v j) = []"
  using key_lines_key [of _ v j] by (auto simp: filter_empty_conv filter_id_conv)

lemma rewrite_lines_key:
  "filter (\<lambda>l. line_key l = Some k) (rewrite_lines v seen ls) =
     (if \<not> seen k \<and> seen_after seen ls k then key_lines v k else [])"
  by (induction ls arbitrary: seen)
     (auto simp: seen_after_Cons filter_key_lines seen_after_def split: option.splits)

lemma rewrite_lines_other:
  "filter (\<lambda>l. line_key l = None) (rewrite_lines v seen ls) = filter (\<lambda>l. line_key l = None) ls"
  by (induction ls arbitrary: seen) (auto simp: filter_key_lines split: option.splits)

lemma appended_key:
  "distinct ks \<Longrightarrow> filter (\<lambda>l. line_key l = Some k) (concat (map (key_lines v) (filter P ks))) =
     (if k \<in> set ks \<and> P k then key_lines v k else [])"
  by (induction ks) (auto simp: filter_key_lines)

lemma build_lines_key:
  "filter (\<lambda>l. line_key l = Some k) (build_lines v ls) =
     (if seen_after (\<lambda>_. False) ls k \<or> AppendWanted k v then key_lines v k else [])"
proof -
  have "distinct bl_keys" "k \<in> set bl_keys" by (cases k; simp add: bl_keys_def)+
  then show ?thesis by (simp add: build_lines_def rewrite_lines_key appended_key)
qed

lemma build_lines_other:
  "filter (\<lambda>l. line_key l = None) (build_lines v ls) = filter (\<lambda>l. line_key l = None) ls"
proof -
  have "filter (\<lambda>l. line_key l = None) (concat (map (key_lines v) ks)) = []" for ks
    by (induction ks) (simp_all add: filter_key_lines)
  then show ?thesis by (simp add: build_lines_def rewrite_lines_other)
qed

lemma last_value_filter:
  "last_value K ls acc = (case filter (key_line K) ls of [] \<Rightarrow> acc
     | x # xs \<Rightarrow> Some (value_of K (last (x # xs))))"
  by (induction ls arbitrary: acc) (auto split: list.splits)

lemma get_value_filter:
  "BlTextGetValue t K = (case filter (key_line K) (text_lines t) of [] \<Rightarrow> None
     | x # xs \<Rightarrow> Some (value_of K (last (x # xs))))"
  by (simp add: BlTextGetValue_lines last_value_filter)

lemma value_of_key_line: "x = [] \<or> last x \<noteq> 13 \<Longrightarrow> value_of K (K @ 61 # x) = x"
  by (auto simp: value_of_def)

lemma valid_boot_orderE:
  assumes "valid_boot_order ord"
  obtains ds where "ord = 48 # 120 # ds" and "list_all hex_lower ds" and "ds \<noteq> []"
    and "length ds \<le> 8"
proof
  let ?ds = "drop 2 ord"
  have "ord = take 2 ord @ ?ds" by simp
  with assms show "ord = 48 # 120 # ?ds" by (simp add: valid_boot_order_def)
qed (use assms in \<open>auto simp: valid_boot_order_def\<close>)

lemma hex_lower_small: "hex_lower c \<Longrightarrow> \<not> (c \<ge> 65 \<and> c \<le> 70)"
  by (auto simp: hex_lower_def word_le_nat_alt)

lemma HexDigits_lower: "list_all hex_lower ds \<Longrightarrow> HexDigits ds = Some ds"
proof (induction ds)
  case (Cons c cs)
  then have "hex_lower c" by simp
  with Cons hex_lower_small [of c] show ?case by (auto simp: Let_def hex_lower_def)
qed simp

lemma HexDigits_result:
  "HexDigits cs = Some ds \<Longrightarrow> list_all hex_lower ds \<and> length ds = length cs"
proof (induction cs arbitrary: ds)
  case (Cons c cs)
  then show ?case by (auto simp: Let_def hex_lower_def split: if_splits option.splits)
qed simp

lemma ParseBootOrder_valid: "ParseBootOrder s = Some ord \<Longrightarrow> valid_boot_order ord"
  using HexDigits_result
  by (fastforce simp: ParseBootOrder_def Let_def valid_boot_order_def Suc_le_eq
      split: if_splits option.splits)

lemma ParseBootOrder_canonical:
  assumes "valid_boot_order ord"
  shows "ParseBootOrder ord = Some ord"
proof -
  from assms obtain ds where o: "ord = 48 # 120 # ds" and h: "list_all hex_lower ds"
    and n: "ds \<noteq> []" "length ds \<le> 8" by (rule valid_boot_orderE)
  have "hex_lower (last ds)" using h n by (simp add: list_all_iff)
  then have "\<not> blank (last ds)" using hex_lower_range by (auto simp: blank_def)
  then have "dropWhile blank (rev ord) = rev ord"
    using n by (cases ds rule: rev_cases) (simp_all add: o)
  moreover have "dropWhile blank ord = ord" by (simp add: o blank_def)
  ultimately show ?thesis using n h by (simp add: ParseBootOrder_def o HexDigits_lower)
qed

lemma ParseDecimal_values:
  "x \<in> {0, 1} \<Longrightarrow> ParseDecimal [48 + x] = Some (unat x)"
  "ParseDecimal (PsuDigits 3000) = Some 3000" "ParseDecimal (PsuDigits 5000) = Some 5000"
  by (auto simp: ParseDecimal_def psu_digits ascii_def)

lemma FormatValue_value:
  assumes "valid_values v" and "FormatValue k v = Some x"
  shows "value_of K (K @ 61 # x) = x"
proof (rule value_of_key_line)
  show "x = [] \<or> last x \<noteq> 13"
  proof (cases k)
    case BlKeyBootOrder
    with assms have x: "valid_boot_order x" by (simp add: valid_values_def)
    then obtain ds where "x = 48 # 120 # ds" "list_all hex_lower ds" "ds \<noteq> []"
      by (rule valid_boot_orderE)
    then have "hex_lower (last x)" by (simp add: list_all_iff)
    with hex_lower_range show ?thesis by blast
  next
    case BlKeyPsuMaxCurrent
    with assms have "x = PsuDigits 3000 \<or> x = PsuDigits 5000"
      by (auto simp: valid_values_def split: if_splits)
    then show ?thesis by (auto simp: psu_digits ascii_def)
  qed (use assms in \<open>auto simp: valid_values_def\<close>)
qed

lemma TextField_built:
  assumes "valid_values v" and "BlBuildNewConfigText t v cap = Inr out"
  shows "TextField out k f =
    (if seen_after (\<lambda>_. False) (text_lines t) k \<or> AppendWanted k v
     then Option.bind (FormatValue k v) f else None)"
proof -
  have "filter (key_line (mBlKeyNames k)) (text_lines out) =
      filter (\<lambda>l. line_key l = Some k) (text_lines out)"
    by (simp add: line_key_iff)
  also have "\<dots> = (if seen_after (\<lambda>_. False) (text_lines t) k \<or> AppendWanted k v
      then key_lines v k else [])"
    by (simp add: build_text_lines [OF assms] build_lines_key)
  finally show ?thesis
    using FormatValue_value [OF assms(1), of k]
    by (auto simp: TextField_def get_value_filter key_lines_def split: option.splits)
qed

lemma BlValuesFromText_fields:
  "BootOrder (BlValuesFromText t) =
     (case TextField t BlKeyBootOrder ParseBootOrder of Some x \<Rightarrow> x | None \<Rightarrow> BL_BOOT_ORDER_DEFAULT)"
  "BootUart (BlValuesFromText t) =
     (case TextField t BlKeyBootUart ParseDecimal of Some n \<Rightarrow> flag n | None \<Rightarrow> 0)"
  "PowerOffOnHalt (BlValuesFromText t) =
     (case TextField t BlKeyPowerOffOnHalt ParseDecimal of Some n \<Rightarrow> flag n | None \<Rightarrow> 0)"
  "WakeOnGpio (BlValuesFromText t) =
     (case TextField t BlKeyWakeOnGpio ParseDecimal of Some n \<Rightarrow> flag n | None \<Rightarrow> 1)"
  "PsuMaxCurrent (BlValuesFromText t) =
     (case TextField t BlKeyPsuMaxCurrent ParseDecimal of Some n \<Rightarrow> SnapPsu 0 n | None \<Rightarrow> 0)"
  by (simp_all add: BlValuesFromText_def SetDefaults_def Let_def split: option.split)

lemma build_values:
  assumes v: "valid_values v" and r: "BlBuildNewConfigText t v cap = Inr out"
  shows "BlValuesFromText out = v"
proof -
  note fields = TextField_built [OF v r] BlValuesFromText_fields
  have ord: "ParseBootOrder (BootOrder v) = Some (BootOrder v)"
    using v by (simp add: valid_values_def ParseBootOrder_canonical)
  have "BootOrder (BlValuesFromText out) = BootOrder v" by (simp add: fields ord)
  moreover have "BootUart (BlValuesFromText out) = BootUart v"
    using v by (auto simp: fields valid_values_def ParseDecimal_values flag_def ParseDecimal_def)
  moreover have "PowerOffOnHalt (BlValuesFromText out) = PowerOffOnHalt v"
    using v by (auto simp: fields valid_values_def ParseDecimal_def flag_def)
  moreover have "WakeOnGpio (BlValuesFromText out) = WakeOnGpio v"
    using v by (auto simp: fields valid_values_def ParseDecimal_def flag_def)
  moreover have "PsuMaxCurrent (BlValuesFromText out) = PsuMaxCurrent v"
    using v by (auto simp: fields valid_values_def ParseDecimal_values SnapPsu_def)
  ultimately show ?thesis by simp
qed

subsection \<open>Capacity\<close>

definition unseen :: "(bl_key \<Rightarrow> bool) \<Rightarrow> nat" where
  "unseen Seen = length (filter (\<lambda>k. \<not> Seen k) bl_keys)"

lemma unseen_mark: "\<not> Seen k \<Longrightarrow> unseen Seen = Suc (unseen (Seen(k := True)))"
  by (cases k) (simp_all add: unseen_def bl_keys_def)

lemma unseen_init: "unseen (\<lambda>_. False) = 5"
  by (simp add: unseen_def bl_keys_def)

lemma FormatKeyLine_short:
  assumes "valid_values v"
  shows "length (FormatKeyLine k v cap) \<le> 29"
  using FormatValue_shape [OF assms, of k] key_names_length(1) [of k]
  by (auto simp: FormatKeyLine_def split: option.splits)

lemma BuildLoop_fits:
  assumes "valid_values v" and "length t + 211 \<le> cap"
  shows "length Out + 29 * unseen Seen \<le> min p (length t + 1) + 145 \<Longrightarrow>
    \<exists>Out' Seen'. BuildLoop t v cap p (Out, Seen) = Inr (Out', Seen') \<and>
      length Out' + 29 * unseen Seen' \<le> length t + 146"
  using assms
proof (induction t v cap p "(Out, Seen)" arbitrary: Out Seen rule: BuildLoop.induct)
  case (1 t v cap p Out Seen)
  let ?le = "LineEndFrom t p"
  show ?case
  proof (cases "p < length t")
    case True
    have le: "p \<le> ?le" "?le \<le> length t" using LineEndFrom_ge line_split(5) [OF True] by auto
    then have min: "min (?le + 1) (length t + 1) = ?le + 1" by simp
    show ?thesis
    proof (cases "MatchKey t p ?le")
      case None
      note IH = "1.hyps"(1) [OF True refl refl None]
      have "length Out + (?le - p) + 1 \<le> cap" using 1 True le by simp
      then show ?thesis
        using IH [OF _ _ "1.prems"(2,3)] "1.prems"(1) True None le unfolding min
        by (subst BuildLoop.simps) (auto simp: Let_def not_less)
    next
      case (Some k)
      show ?thesis
      proof (cases "Seen k")
        case sk: True
        then show ?thesis
          using 1(2) [OF True refl refl Some sk _ "1.prems"(2,3)] "1.prems"(1) True Some le
          unfolding min by (subst BuildLoop.simps) (auto simp: Let_def)
      next
        case sk: False
        have c: "\<not> length Out + 64 > cap" using 1 True by simp
        note len = FormatKeyLine_short [OF "1.prems"(2), of k "cap - length Out"]
        show ?thesis
          using 1(3) [OF True refl refl Some sk c _ "1.prems"(2,3)] "1.prems"(1) True Some le
            unseen_mark [of Seen k] sk c len
          unfolding min by (subst BuildLoop.simps) (auto simp: Let_def)
      qed
    qed
  next
    case False
    then show ?thesis using 1 by (auto simp: BuildLoop.simps)
  qed
qed

lemma AppendLoop_fits:
  assumes "valid_values v"
  shows "length Out + 29 * length (filter (\<lambda>k. \<not> Seen k) ks) + 64 \<le> cap \<Longrightarrow>
    \<exists>out. AppendLoop v cap ks (Out, Seen) = Inr out"
proof (induction ks arbitrary: Out)
  case (Cons k ks)
  then show ?case
    using FormatKeyLine_short [OF assms, of k "cap - length Out"] by (cases "Seen k") auto
qed simp

lemma AppendLoop_cap: "AppendLoop v cap ks (Out, Seen) = Inr out \<Longrightarrow> length Out \<le> cap \<Longrightarrow>
    length out \<le> cap"
proof (induction ks arbitrary: Out)
  case (Cons k ks)
  then show ?case
    using FormatKeyLine_length [of k v "cap - length Out"]
    by (fastforce split: if_splits)
qed simp

lemma BuildLoop_cap:
  "BuildLoop t v cap p (Out, Seen) = Inr (Out', Seen') \<Longrightarrow> length Out \<le> cap \<Longrightarrow> length Out' \<le> cap"
proof (induction t v cap p "(Out, Seen)" arbitrary: Out Seen rule: BuildLoop.induct)
  case (1 t v cap p Out Seen)
  let ?le = "LineEndFrom t p"
  note run = "1.prems"(1) [unfolded BuildLoop.simps [of t v cap p Out Seen] Let_def]
  show ?case
  proof (cases "p < length t")
    case True
    show ?thesis
    proof (cases "MatchKey t p ?le")
      case None
      with run True 1(1) [OF True refl refl None] line_split(5) [OF True] LineEndFrom_ge [of p t]
      show ?thesis by (simp split: if_splits)
    next
      case (Some k)
      with run True 1(2,3) [OF True refl refl Some] "1.prems"(2)
        FormatKeyLine_length [of k v "cap - length Out"]
      show ?thesis by (simp split: if_splits)
    qed
  next
    case False
    with run "1.prems"(2) show ?thesis by simp
  qed
qed

subsection \<open>The contract of the config text\<close>

definition demo_text :: "u8 list" where
  "demo_text = ascii ''[all]'' @ [10] @ ascii ''BOOT_UART=0'' @ [10] @ ascii ''#x'' @ [10] @
     ascii ''BOOT_UART=1'' @ [13, 10] @ ascii ''NET=1''"

definition demo_values :: blcfg_values where
  "demo_values = SetDefaults\<lparr>BootOrder := ascii ''0xf6'', PsuMaxCurrent := 5000\<rparr>"

lemma demo_values_valid: "valid_values demo_values"
  by (simp add: demo_values_def SetDefaults_def valid_values_def valid_boot_order_def ascii_def
      hex_lower_def)

lemma demo_text_length: "length demo_text = 39"
  by (simp add: demo_text_def ascii_def)

text \<open>looking a key up in the text returns the value of the LAST line that carries the key,
  without a trailing carriage return, and nothing if no line carries it; the position
  scanning of the code is the line-by-line reading of the text.\<close>

theorem get_value_last_line:
  "BlTextGetValue t K = (case filter (key_line K) (text_lines t) of [] \<Rightarrow> None
     | x # xs \<Rightarrow> Some (value_of K (last (x # xs))))"
  by (rule get_value_filter)

lemma text_values_valid: "valid_values (BlValuesFromText t)"
proof -
  have "TextField t k f = Some x \<Longrightarrow> \<exists>y. f y = Some x" for k and f :: "u8 list \<Rightarrow> 'b option" and x
    by (auto simp: TextField_def bind_eq_Some_conv)
  then have "valid_boot_order (BootOrder (BlValuesFromText t))"
    using ParseBootOrder_valid
    by (fastforce simp: BlValuesFromText_fields BL_BOOT_ORDER_DEFAULT_def valid_boot_order_def
        ascii_def hex_lower_def split: option.splits)
  then show ?thesis
    by (auto simp: valid_values_def BlValuesFromText_fields flag_def SnapPsu_def split: option.splits)
qed

text \<open>C40: parsing any text gives values the setup form can represent: a canonical lower case
  boot order, two-valued flags and one of the three supply settings.\<close>

theorem from_text_valid: "valid_values (BlValuesFromText t)"
  by (rule text_values_valid)

text \<open>C3: a text rebuilt with the values \<open>v\<close> parses back to exactly \<open>v\<close>, whatever the
  original text held: duplicates, carriage returns, missing keys and an unterminated
  last line included.\<close>

theorem build_then_parse:
  assumes "valid_values v" and "BlBuildNewConfigText t v cap = Inr out"
  shows "BlValuesFromText out = v"
  using assms by (rule build_values)

lemma build_succeeds:
  assumes "valid_values v" and "length t + 211 \<le> cap"
  shows "\<exists>out. BlBuildNewConfigText t v cap = Inr out"
proof -
  from BuildLoop_fits [OF assms, of "[]" "\<lambda>_. False" 0]
  obtain o1 seen where b: "BuildLoop t v cap 0 ([], \<lambda>_. False) = Inr (o1, seen)"
    and n: "length o1 + 29 * unseen seen \<le> length t + 146"
    by (auto simp: unseen_init)
  have "\<exists>out. AppendLoop v cap bl_keys (o1 @ x, seen) = Inr out" if "length x \<le> 1" for x
    using n that assms(2)
    by (intro AppendLoop_fits [OF assms(1)]) (simp add: unseen_def)
  from this [of "[]"] this [of "[10]"] n assms(2) show ?thesis
    by (auto simp: BlBuildNewConfigText_def b)
qed

theorem build_then_parse_witness:
  "\<exists>out. BlBuildNewConfigText demo_text demo_values 250 = Inr out \<and>
     BlValuesFromText out = demo_values"
  using build_succeeds [OF demo_values_valid, of demo_text 250]
    build_then_parse [OF demo_values_valid, of demo_text 250]
  by (auto simp: demo_text_length)

text \<open>C14: rebuilding keeps every unmanaged line, comments and section headers included, in
  its order, leaves at most one line per managed key and never writes more than
  \<open>OutCap\<close> bytes.\<close>

theorem build_keeps_unmanaged:
  assumes "valid_values v" and "BlBuildNewConfigText t v cap = Inr out"
  shows "filter (\<lambda>l. line_key l = None) (text_lines out) =
         filter (\<lambda>l. line_key l = None) (text_lines t) \<and>
         length (filter (\<lambda>l. line_key l = Some k) (text_lines out)) \<le> 1 \<and> length out \<le> cap"
proof (intro conjI)
  show "filter (\<lambda>l. line_key l = None) (text_lines out) =
      filter (\<lambda>l. line_key l = None) (text_lines t)"
    by (simp add: build_text_lines [OF assms] build_lines_other)
  show "length (filter (\<lambda>l. line_key l = Some k) (text_lines out)) \<le> 1"
    by (simp add: build_text_lines [OF assms] build_lines_key key_lines_def split: option.splits)
  show "length out \<le> cap"
    using assms(2) AppendLoop_cap [of v cap bl_keys _ _ out] BuildLoop_cap [of t v cap 0 "[]"]
    by (force simp: BlBuildNewConfigText_def split: sum.splits if_splits)
qed

theorem build_keeps_unmanaged_witness:
  "\<exists>out. BlBuildNewConfigText demo_text demo_values 250 = Inr out \<and>
     filter (\<lambda>l. line_key l = None) (text_lines out) =
     [ascii ''[all]'', ascii ''#x'', ascii ''NET=1''] \<and> length out \<le> 250"
proof -
  obtain out where o: "BlBuildNewConfigText demo_text demo_values 250 = Inr out"
    using build_succeeds [OF demo_values_valid, of demo_text 250] by (auto simp: demo_text_length)
  have "filter (\<lambda>l. line_key l = None) (text_lines demo_text) =
      [ascii ''[all]'', ascii ''#x'', ascii ''NET=1'']"
    by code_simp
  with o build_keeps_unmanaged [OF demo_values_valid o, of BlKeyBootUart] show ?thesis by auto
qed

text \<open>with 211 bytes to spare over the original text the rebuild never reports a full
  buffer, for any original text.\<close>

theorem build_fits:
  assumes "valid_values v" and "length t + 211 \<le> cap"
  shows "\<exists>out. BlBuildNewConfigText t v cap = Inr out"
  using assms by (rule build_succeeds)

theorem build_fits_witness: "\<exists>out. BlBuildNewConfigText demo_text demo_values 250 = Inr out"
  by (rule build_fits [OF demo_values_valid]) (simp add: demo_text_length)

lemma AsciiFrom_list:
  assumes "\<forall>c \<in> set cs. 0 < c \<and> c \<le> 0x7F" and "length cs < n"
  shows "AsciiFrom (ds @ map ucast cs @ 0 # r) (length ds) n = Some cs"
  using assms
proof (induction cs arbitrary: ds n)
  case Nil
  then show ?case by (cases n) auto
next
  case (Cons c cs)
  then obtain m where n: "n = Suc m" "length cs < m" by (cases n) auto
  have c: "ucast c \<noteq> (0 :: u16)" "\<not> (ucast c :: u16) > 0x7F"
  proof -
    have "unat c < 2 ^ 16" using unsigned_less [where w = c and ?'b = 8 and ?'a = nat] by simp
    then have "unat (ucast c :: u16) = unat c" by (simp add: unsigned_ucast_eq take_bit_nat_eq_self)
    then show "ucast c \<noteq> (0 :: u16)" "\<not> (ucast c :: u16) > 0x7F"
      using Cons.prems
      by (auto simp: word_le_nat_alt word_less_nat_alt word_unat_eq_iff simp del: unsigned_eq_0_iff)
  qed
  have "AsciiFrom ((ds @ [ucast c]) @ map ucast cs @ 0 # r) (length (ds @ [ucast c])) m = Some cs"
    using Cons.prems n by (intro Cons.IH) auto
  moreover have "ucast (ucast c :: u16) = c" by (rule bit_word_eqI) (simp add: bit_simps)
  ultimately show ?case using c by (simp add: n nth_append)
qed

text \<open>The setup form's data round trips: valid values stored into the varstore read back
  unchanged, whatever the boot order's length.\<close>

theorem data_round_trip:
  assumes "valid_values v"
  shows "BlValuesFromData (BlValuesToData v) = Some v"
proof -
  have o: "valid_boot_order (BootOrder v)" using assms by (simp add: valid_values_def)
  then obtain ds where d: "BootOrder v = 48 # 120 # ds" "list_all hex_lower ds" "length ds \<le> 8"
    by (rule valid_boot_orderE)
  have "\<forall>c \<in> set (BootOrder v). 0 < c \<and> c \<le> 0x7F"
    using d by (auto simp: list_all_iff hex_lower_def word_le_nat_alt word_less_nat_alt)
  moreover have "replicate (12 - length (BootOrder v)) (0 :: u16) =
      0 # replicate (11 - length (BootOrder v)) 0"
    using d by (simp add: replicate_Suc [symmetric] Suc_diff_le del: replicate_Suc)
  ultimately have "AsciiFrom (DBootOrder (BlValuesToData v)) 0 11 = Some (BootOrder v)"
    using AsciiFrom_list [of "BootOrder v" 11 "[]"] d by (simp add: BlValuesToData_def)
  then show ?thesis
    using assms ParseBootOrder_canonical [OF o]
    by (auto simp: BlValuesFromData_def BlValuesToData_def valid_values_def SetDefaults_def
        intro!: blcfg_values.equality)
qed

theorem data_round_trip_witness:
  "BlValuesFromData (BlValuesToData demo_values) = Some demo_values"
  by (rule data_round_trip [OF demo_values_valid])

end
