(* ===== verification/Sha256_Hash.thy ===== *)
theory Sha256_Hash
  imports Rpi5_Prelude
begin

section \<open>SHA-256 of the staged image (Sha256.c)\<close>

text \<open>
  The block function with its message schedule and round loop, and the hash of a whole
  buffer with the padding tail built on the stack. \<open>St\<close> is the list of its eight words,
  \<open>W\<close> the list of the words computed so far; the stack array \<open>Tail\<close> is a byte buffer whose
  initial contents are an argument, since the code leaves part of it unset. The standard's
  functions (FIPS 180-4) are the specification: rotations, the recursive schedule and the
  padded message as one list.
\<close>

definition mK :: "u32 list" where
  "mK = concat
    [[0x428a2f98, 0x71374491, 0xb5c0fbcf, 0xe9b5dba5,
      0x3956c25b, 0x59f111f1, 0x923f82a4, 0xab1c5ed5],
     [0xd807aa98, 0x12835b01, 0x243185be, 0x550c7dc3,
      0x72be5d74, 0x80deb1fe, 0x9bdc06a7, 0xc19bf174],
     [0xe49b69c1, 0xefbe4786, 0x0fc19dc6, 0x240ca1cc,
      0x2de92c6f, 0x4a7484aa, 0x5cb0a9dc, 0x76f988da],
     [0x983e5152, 0xa831c66d, 0xb00327c8, 0xbf597fc7,
      0xc6e00bf3, 0xd5a79147, 0x06ca6351, 0x14292967],
     [0x27b70a85, 0x2e1b2138, 0x4d2c6dfc, 0x53380d13,
      0x650a7354, 0x766a0abb, 0x81c2c92e, 0x92722c85],
     [0xa2bfe8a1, 0xa81a664b, 0xc24b8b70, 0xc76c51a3,
      0xd192e819, 0xd6990624, 0xf40e3585, 0x106aa070],
     [0x19a4c116, 0x1e376c08, 0x2748774c, 0x34b0bcb5,
      0x391c0cb3, 0x4ed8aa4a, 0x5b9cca4f, 0x682e6ff3],
     [0x748f82ee, 0x78a5636f, 0x84c87814, 0x8cc70208,
      0x90befffa, 0xa4506ceb, 0xbef9a3f7, 0xc67178f2]]"

definition ROTR :: "u32 \<Rightarrow> nat \<Rightarrow> u32" where
  "ROTR x n = drop_bit n x OR push_bit (32 - n) x"

subsection \<open>One block\<close>

definition BlockWord :: "buf \<Rightarrow> nat \<Rightarrow> nat \<Rightarrow> u32" where
  "BlockWord p off I =
     push_bit 24 (ucast (p (off + I * 4))) OR push_bit 16 (ucast (p (off + I * 4 + 1))) OR
     push_bit 8 (ucast (p (off + I * 4 + 2))) OR ucast (p (off + I * 4 + 3))"

definition ScheduleStep :: "u32 list \<Rightarrow> nat \<Rightarrow> u32 list" where
  "ScheduleStep W I =
     (let T1 = ROTR (W ! (I - 15)) 7 XOR ROTR (W ! (I - 15)) 18 XOR drop_bit 3 (W ! (I - 15));
          T2 = ROTR (W ! (I - 2)) 17 XOR ROTR (W ! (I - 2)) 19 XOR drop_bit 10 (W ! (I - 2))
      in W @ [W ! (I - 16) + T1 + W ! (I - 7) + T2])"

definition Schedule :: "buf \<Rightarrow> nat \<Rightarrow> u32 list" where
  "Schedule p off = foldl ScheduleStep (map (BlockWord p off) [0..<16]) [16..<64]"

record sha_vars =
  vA :: u32
  vB :: u32
  vC :: u32
  vD :: u32
  vE :: u32
  vF :: u32
  vG :: u32
  vH :: u32

definition Round :: "u32 list \<Rightarrow> sha_vars \<Rightarrow> nat \<Rightarrow> sha_vars" where
  "Round W r I =
     (let T1 = vH r + (ROTR (vE r) 6 XOR ROTR (vE r) 11 XOR ROTR (vE r) 25) +
            ((vE r AND vF r) XOR (NOT (vE r) AND vG r)) + mK ! I + W ! I;
          T2 = (ROTR (vA r) 2 XOR ROTR (vA r) 13 XOR ROTR (vA r) 22) +
            ((vA r AND vB r) XOR (vA r AND vC r) XOR (vB r AND vC r))
      in \<lparr>vA = T1 + T2, vB = vA r, vC = vB r, vD = vC r, vE = vD r + T1, vF = vE r,
          vG = vF r, vH = vG r\<rparr>)"

definition Sha256Block :: "u32 list \<Rightarrow> buf \<Rightarrow> nat \<Rightarrow> u32 list" where
  "Sha256Block St p off =
     (let W = Schedule p off;
          r = foldl (Round W) \<lparr>vA = St ! 0, vB = St ! 1, vC = St ! 2, vD = St ! 3,
                vE = St ! 4, vF = St ! 5, vG = St ! 6, vH = St ! 7\<rparr> [0..<64]
      in [St ! 0 + vA r, St ! 1 + vB r, St ! 2 + vC r, St ! 3 + vD r,
          St ! 4 + vE r, St ! 5 + vF r, St ! 6 + vG r, St ! 7 + vH r])"

subsection \<open>The whole buffer\<close>

text \<open>The loop over whole blocks: the state, the offset of \<open>Data\<close> and \<open>Remain\<close> at its end.\<close>

function Blocks :: "buf \<Rightarrow> u32 list \<Rightarrow> nat \<Rightarrow> nat \<Rightarrow> u32 list \<times> nat \<times> nat" where
  "Blocks Data St off Remain =
     (if Remain \<ge> 64 then Blocks Data (Sha256Block St Data off) (off + 64) (Remain - 64)
      else (St, off, Remain))"
  by pat_completeness auto
termination by (relation "measure (\<lambda>(D, S, off, Remain). Remain)") auto

declare Blocks.simps [simp del]

definition TailBytes :: "buf \<Rightarrow> buf \<Rightarrow> nat \<Rightarrow> nat \<Rightarrow> nat \<Rightarrow> buf \<times> nat" where
  "TailBytes Tail Data off Remain Len =
     (let Tail = CopyMem Tail 0 (bytes_at Data off Remain);
          Tail = Tail(Remain := 0x80);
          TailLen = (if Remain < 56 then 64 else 128);
          Tail = SetMem Tail (Remain + 1) (TailLen - 8 - (Remain + 1)) 0;
          BitLen = (of_nat Len :: u64) * 8;
          Tail = foldl (\<lambda>T I. T(TailLen - 1 - I := ucast (drop_bit (8 * I) BitLen))) Tail [0..<8]
      in (Tail, TailLen))"

definition WordBytes :: "u32 \<Rightarrow> u8 list" where
  "WordBytes w = [ucast (drop_bit 24 w), ucast (drop_bit 16 w), ucast (drop_bit 8 w), ucast w]"

definition sha_init :: "u32 list" where
  "sha_init = [0x6a09e667, 0xbb67ae85, 0x3c6ef372, 0xa54ff53a,
     0x510e527f, 0x9b05688c, 0x1f83d9ab, 0x5be0cd19]"

definition BlSha256 :: "buf \<Rightarrow> buf \<Rightarrow> nat \<Rightarrow> u8 list" where
  "BlSha256 Stack Data Len =
     (let (St, off, Remain) = Blocks Data sha_init 0 Len;
          (Tail, TailLen) = TailBytes Stack Data off Remain Len;
          St = Sha256Block St Tail 0;
          St = (if TailLen = 128 then Sha256Block St Tail 64 else St)
      in concat (map (\<lambda>I. WordBytes (St ! I)) [0..<8]))"

subsection \<open>The standard\<close>

definition small0 :: "u32 \<Rightarrow> u32" where
  "small0 x = word_rotr 7 x XOR word_rotr 18 x XOR drop_bit 3 x"

definition small1 :: "u32 \<Rightarrow> u32" where
  "small1 x = word_rotr 17 x XOR word_rotr 19 x XOR drop_bit 10 x"

definition big0 :: "u32 \<Rightarrow> u32" where
  "big0 x = word_rotr 2 x XOR word_rotr 13 x XOR word_rotr 22 x"

definition big1 :: "u32 \<Rightarrow> u32" where
  "big1 x = word_rotr 6 x XOR word_rotr 11 x XOR word_rotr 25 x"

definition Ch :: "u32 \<Rightarrow> u32 \<Rightarrow> u32 \<Rightarrow> u32" where
  "Ch x y z = (x AND y) XOR (NOT x AND z)"

definition Maj :: "u32 \<Rightarrow> u32 \<Rightarrow> u32 \<Rightarrow> u32" where
  "Maj x y z = (x AND y) XOR (x AND z) XOR (y AND z)"

definition be_word :: "u8 list \<Rightarrow> u32" where
  "be_word bs = foldl (\<lambda>w b. push_bit 8 w OR ucast b) 0 bs"

fun msg_word :: "u8 list \<Rightarrow> nat \<Rightarrow> u32" where
  "msg_word M t =
     (if t < 16 then be_word (take 4 (drop (4 * t) M))
      else small1 (msg_word M (t - 2)) + msg_word M (t - 7) + small0 (msg_word M (t - 15)) +
           msg_word M (t - 16))"

declare msg_word.simps [simp del]

definition fips_round :: "u8 list \<Rightarrow> u32 list \<Rightarrow> nat \<Rightarrow> u32 list" where
  "fips_round M s t =
     (let T1 = s ! 7 + big1 (s ! 4) + Ch (s ! 4) (s ! 5) (s ! 6) + mK ! t + msg_word M t;
          T2 = big0 (s ! 0) + Maj (s ! 0) (s ! 1) (s ! 2)
      in [T1 + T2, s ! 0, s ! 1, s ! 2, s ! 3 + T1, s ! 4, s ! 5, s ! 6])"

definition fips_block :: "u32 list \<Rightarrow> u8 list \<Rightarrow> u32 list" where
  "fips_block s M = map2 (+) s (foldl (fips_round M) s [0..<64])"

definition be_bytes64 :: "u64 \<Rightarrow> u8 list" where
  "be_bytes64 w = map (\<lambda>i. ucast (drop_bit (56 - 8 * i) w)) [0..<8]"

definition fips_pad :: "u8 list \<Rightarrow> u8 list" where
  "fips_pad M = M @ 0x80 # replicate ((119 - length M mod 64) mod 64) 0 @
     be_bytes64 (of_nat (8 * length M))"

function fips_hash :: "u32 list \<Rightarrow> u8 list \<Rightarrow> u32 list" where
  "fips_hash s M = (if length M < 64 then s else fips_hash (fips_block s (take 64 M)) (drop 64 M))"
  by pat_completeness auto
termination by (relation "measure (\<lambda>(s, M). length M)") auto

declare fips_hash.simps [simp del]

definition sha256 :: "u8 list \<Rightarrow> u8 list" where
  "sha256 M = concat (map WordBytes (fips_hash sha_init (fips_pad M)))"

subsection \<open>The code computes the standard's functions\<close>

lemma ROTR_rotr: "0 < n \<Longrightarrow> n < 32 \<Longrightarrow> ROTR x n = word_rotr n x"
proof (rule bit_word_eqI)
  fix i assume n: "0 < n" "n < 32" and i: "i < LENGTH(32)"
  show "bit (ROTR x n) i = bit (word_rotr n x) i"
  proof (cases "i + n < 32")
    case True
    with n i show ?thesis by (auto simp: ROTR_def bit_simps add.commute)
  next
    case False
    with n i have "(i + n) mod 32 = i - (32 - n)" by (simp add: mod_if)
    with n i False show ?thesis
      by (auto simp: ROTR_def bit_simps add.commute dest: bit_imp_le_length)
  qed
qed

lemma be_word4:
  "be_word [a, b, c, d] = push_bit 24 (ucast a) OR push_bit 16 (ucast b) OR
     push_bit 8 (ucast c) OR ucast d"
  by (simp add: be_word_def push_bit_or ac_simps)

lemma BlockWord_msg:
  assumes "I < 16"
  shows "BlockWord p off I = msg_word (bytes_at p off 64) I"
proof -
  have "take 4 (drop (4 * I) (bytes_at p off 64)) =
      [p (off + I * 4), p (off + I * 4 + 1), p (off + I * 4 + 2), p (off + I * 4 + 3)]"
    using assms by (intro nth_equalityI)
      (auto simp: bytes_at_def less_Suc_eq numeral_eq_Suc algebra_simps)
  with assms show ?thesis by (subst msg_word.simps) (simp add: be_word4 BlockWord_def)
qed

lemma Schedule_msg:
  "Schedule p off = map (msg_word (bytes_at p off 64)) [0..<64]"
proof -
  let ?M = "bytes_at p off 64"
  have "foldl ScheduleStep (map (BlockWord p off) [0..<16]) [16..<16 + k] =
      map (msg_word ?M) [0..<16 + k]" for k
  proof (induction k)
    case 0
    show ?case by (simp add: BlockWord_msg)
  next
    case (Suc k)
    have step: "ScheduleStep (map (msg_word ?M) [0..<16 + k]) (16 + k) =
        map (msg_word ?M) [0..<16 + k] @ [msg_word ?M (16 + k)]"
      by (subst msg_word.simps [of _ "16 + k"])
        (simp add: ScheduleStep_def Let_def small0_def small1_def ROTR_rotr algebra_simps)
    have upt: "[i..<16 + Suc k] = [i..<16 + k] @ [16 + k]" if "i \<le> 16" for i
      using that by (metis add_Suc_right trans_le_add1 upt_Suc_append)
    show ?case
      using Suc step
      by (simp only: upt [OF order.refl] upt [OF le0] foldl_append foldl.simps map_append list.map)
  qed
  from this [of 48] show ?thesis by (simp add: Schedule_def)
qed

definition vars_list :: "sha_vars \<Rightarrow> u32 list" where
  "vars_list r = [vA r, vB r, vC r, vD r, vE r, vF r, vG r, vH r]"

lemma Round_fips:
  assumes "W ! I = msg_word M I"
  shows "vars_list (Round W r I) = fips_round M (vars_list r) I"
  using assms
  by (simp add: vars_list_def Round_def fips_round_def Let_def big0_def big1_def Ch_def Maj_def
      ROTR_rotr)

lemma Rounds_fips:
  "n \<le> 64 \<Longrightarrow> vars_list (foldl (Round (map (msg_word M) [0..<64])) r [0..<n]) =
     foldl (fips_round M) (vars_list r) [0..<n]"
  by (induction n) (simp_all add: Round_fips del: upt_conv_Cons)

lemma Sha256Block_fips:
  assumes "length St = 8"
  shows "Sha256Block St p off = fips_block St (bytes_at p off 64)"
proof -
  from assms obtain a b c d e f g h where s: "St = [a, b, c, d, e, f, g, h]"
    by (auto simp: numeral_eq_Suc length_Suc_conv)
  let ?r = "\<lparr>vA = a, vB = b, vC = c, vD = d, vE = e, vF = f, vG = g, vH = h\<rparr>"
  let ?M = "bytes_at p off 64"
  have "vars_list ?r = St" by (simp add: vars_list_def s)
  with Rounds_fips [of 64 ?M ?r]
  have "foldl (fips_round ?M) St [0..<64] =
      vars_list (foldl (Round (map (msg_word ?M) [0..<64])) ?r [0..<64])" by simp
  then show ?thesis
    by (simp add: Sha256Block_def fips_block_def Schedule_msg Let_def vars_list_def s)
qed

lemma length_fips_block: "length s = 8 \<Longrightarrow> length (fips_block s M) = 8"
proof -
  have "length (foldl (fips_round M) s ts) = 8" if "length s = 8" for ts s
    using that by (induction ts arbitrary: s) (simp_all add: fips_round_def Let_def)
  then show "length s = 8 \<Longrightarrow> length (fips_block s M) = 8" by (simp add: fips_block_def)
qed

lemma fips_hash_block:
  "length B = 64 \<Longrightarrow> fips_hash s (B @ X) = fips_hash (fips_block s B) X"
  by (subst fips_hash.simps) simp

lemma bytes_at_split: "n \<le> m \<Longrightarrow> bytes_at p off m = bytes_at p off n @ bytes_at p (off + n) (m - n)"
proof (rule nth_equalityI)
  fix i assume "n \<le> m" "i < length (bytes_at p off m)"
  then show "bytes_at p off m ! i = (bytes_at p off n @ bytes_at p (off + n) (m - n)) ! i"
    by (cases "i < n") (auto simp: bytes_at_def nth_append)
qed (simp add: bytes_at_def)

lemma Blocks_hash:
  assumes "length St = 8" and "Blocks Data St off Remain = (St', off', r)"
  shows "r = Remain mod 64 \<and> length St' = 8 \<and>
    (\<forall>X. fips_hash St (bytes_at Data off Remain @ X) = fips_hash St' (bytes_at Data off' r @ X))"
  using assms
proof (induction Data St off Remain rule: Blocks.induct)
  case (1 Data St off Remain)
  show ?case
  proof (cases "64 \<le> Remain")
    case True
    have "Blocks Data (Sha256Block St Data off) (off + 64) (Remain - 64) = (St', off', r)"
      using 1(3) True by (subst (asm) Blocks.simps) simp
    with 1(1) [OF True] 1(2) have IH: "r = (Remain - 64) mod 64" "length St' = 8"
      "\<And>X. fips_hash (Sha256Block St Data off) (bytes_at Data (off + 64) (Remain - 64) @ X) =
         fips_hash St' (bytes_at Data off' r @ X)"
      by (simp_all add: Sha256Block_fips length_fips_block)
    have "fips_hash St (bytes_at Data off Remain @ X) = fips_hash St' (bytes_at Data off' r @ X)" for X
      using IH(3) [of X] 1(2) True
      by (simp add: bytes_at_split [OF True] fips_hash_block Sha256Block_fips)
    with IH True show ?thesis by (simp add: le_mod_geq)
  next
    case False
    with 1(2,3) show ?thesis by (subst (asm) Blocks.simps) auto
  qed
qed

lemma fold_store_rev:
  "k \<le> n \<Longrightarrow> foldl (\<lambda>T I. T(n - 1 - I := f I)) T [0..<k] i =
     (if n - k \<le> i \<and> i < n then f (n - 1 - i) else (T i :: 'b))"
proof (induction k)
  case (Suc k)
  then have "n - 1 - (n - 1 - k) = k" and "n - 1 - k = n - Suc k" by auto
  with Suc show ?case by auto
qed auto

definition pad_tail :: "nat \<Rightarrow> nat \<Rightarrow> u8 list" where
  "pad_tail r Len = 0x80 # replicate ((119 - r) mod 64) 0 @ be_bytes64 (of_nat (8 * Len))"

lemma TailBytes_pad:
  assumes r: "r < 64" and t: "TailBytes Tail Data off r Len = (T, n)"
  shows "n = (if r < 56 then 64 else 128)" and "bytes_at T 0 n = bytes_at Data off r @ pad_tail r Len"
proof -
  show n: "n = (if r < 56 then 64 else 128)"
    using t by (auto simp: TailBytes_def Let_def)
  have k: "(119 - r) mod 64 = n - 9 - r" using r by (auto simp: n mod_if)
  let ?B = "(of_nat Len :: u64) * 8"
  have eq: "T = foldl (\<lambda>T I. T(n - 1 - I := ucast (drop_bit (8 * I) ?B)))
      (SetMem ((CopyMem Tail 0 (bytes_at Data off r))(r := 0x80)) (r + 1) (n - 8 - (r + 1)) 0) [0..<8]"
    using t unfolding n by (simp only: TailBytes_def Let_def prod.inject)
  have n8: "8 \<le> n" "r < n - 8" using n r by auto
  have T: "T i = (if n - 8 \<le> i \<and> i < n then ucast (drop_bit (8 * (n - 1 - i)) ?B)
      else if r < i \<and> i < n - 8 then 0 else if i = r then 0x80
      else if i < r then Data (off + i) else Tail i)" for i
    using n8 unfolding eq fold_store_rev [OF n8(1)]
    by (auto simp: SetMem_def CopyMem_def bytes_at_def)
  show "bytes_at T 0 n = bytes_at Data off r @ pad_tail r Len"
  proof (rule nth_equalityI)
    show "length (bytes_at T 0 n) = length (bytes_at Data off r @ pad_tail r Len)"
      using r by (simp add: pad_tail_def be_bytes64_def k) (simp add: n)
  next
    fix i assume "i < length (bytes_at T 0 n)"
    then have i: "i < n" by simp
    have B: "?B = of_nat (8 * Len)" by simp
    consider "i < r" | "i = r" | "r < i" "i < n - 8" | "n - 8 \<le> i" "r < i"
      using r n by (cases "r < 56") (auto, linarith+)
    then show "bytes_at T 0 n ! i = (bytes_at Data off r @ pad_tail r Len) ! i"
    proof cases
      case 4
      then have e: "i - r - 1 - (n - 9 - r) = i - (n - 8)" "i - (n - 8) < 8"
        "8 * (n - 1 - i) = 56 - 8 * (i - (n - 8))" "\<not> i - r - 1 < n - 9 - r"
        using i r n by auto
      have "(bytes_at Data off r @ pad_tail r Len) ! i = be_bytes64 (of_nat (8 * Len)) ! (i - (n - 8))"
        using 4 e by (simp add: nth_append pad_tail_def k nth_Cons')
      also have "\<dots> = ucast (drop_bit (8 * (n - 1 - i)) ?B)"
        using e(2) unfolding e(3) B be_bytes64_def by (simp only: nth_map_upt) simp
      also have "\<dots> = bytes_at T 0 n ! i" using 4 i by (simp add: bytes_at_def T)
      finally show ?thesis by simp
    qed (use i r n in \<open>auto simp: bytes_at_def T nth_append pad_tail_def k nth_Cons'\<close>)
  qed
qed

lemma hash_tail:
  assumes "length s = 8" and "n = 64 \<or> n = 128"
  shows "fips_hash s (bytes_at T 0 n) =
    (if n = 128 then Sha256Block (Sha256Block s T 0) T 64 else Sha256Block s T 0)"
proof -
  have one: "fips_hash u (bytes_at T k 64) = Sha256Block u T k" if "length u = 8" for u k
    using fips_hash_block [of "bytes_at T k 64" u "[]"] that
    by (simp add: Sha256Block_fips fips_hash.simps [of _ "[]"])
  have "fips_hash s (bytes_at T 0 128) = fips_hash (Sha256Block s T 0) (bytes_at T 64 64)"
    using bytes_at_split [of 64 128 T 0] assms(1)
    by (simp add: fips_hash_block Sha256Block_fips)
  with one assms show ?thesis by (auto simp: Sha256Block_fips length_fips_block)
qed

lemma length_fips_hash: "length s = 8 \<Longrightarrow> length (fips_hash s M) = 8"
proof (induction s M rule: fips_hash.induct)
  case (1 s M)
  then show ?case by (subst fips_hash.simps) (simp add: length_fips_block)
qed

lemma BlSha256_sha256: "BlSha256 Stack Data Len = sha256 (bytes_at Data 0 Len)"
proof -
  obtain St off r where b: "Blocks Data sha_init 0 Len = (St, off, r)" by (metis prod_cases3)
  have B: "r = Len mod 64" "length St = 8"
    "\<And>X. fips_hash sha_init (bytes_at Data 0 Len @ X) = fips_hash St (bytes_at Data off r @ X)"
    using Blocks_hash [OF _ b] by (simp_all add: sha_init_def)
  obtain T n where t: "TailBytes Stack Data off r Len = (T, n)" by fastforce
  have r: "r < 64" using B(1) by simp
  note pad = TailBytes_pad [OF r t]
  have "fips_hash sha_init (fips_pad (bytes_at Data 0 Len)) = fips_hash St (bytes_at T 0 n)"
    using B by (simp add: fips_pad_def pad(2) pad_tail_def)
  also have "\<dots> = (if n = 128 then Sha256Block (Sha256Block St T 0) T 64 else Sha256Block St T 0)"
    using hash_tail [OF B(2), of n T] pad(1) by auto
  finally have h: "fips_hash sha_init (fips_pad (bytes_at Data 0 Len)) = \<dots>" .
  have words: "concat (map (\<lambda>I. WordBytes (X ! I)) [0..<8]) = concat (map WordBytes X)"
    if "length X = 8" for X
    using that map_nth [of X] map_map [of WordBytes "(!) X" "[0..<8]"] by (simp add: comp_def)
  show ?thesis
    unfolding BlSha256_def b t Let_def prod.case sha256_def h [symmetric]
    by (intro words length_fips_hash) (simp add: sha_init_def)
qed

text \<open>C7: for every buffer and length, and whatever the stack array held, the digest is the
  SHA-256 of the bytes as the standard defines it: rotations, recursive schedule, padding to
  a multiple of 64 bytes with the 64-bit length, and the big-endian words of the state.\<close>

theorem sha256_correct: "BlSha256 Stack Data Len = sha256 (bytes_at Data 0 Len)"
  by (rule BlSha256_sha256)

lemma fips_pad_blocks: "length (fips_pad M) mod 64 = 0"
proof -
  define q r where "q = length M div 64" and "r = length M mod 64"
  have M: "length M = 64 * q + r" "r < 64" by (simp_all add: q_def r_def)
  have "(119 - r) mod 64 = (if r < 56 then 55 - r else 119 - r)"
    using M(2) le_mod_geq [of 64 "119 - r"] by (cases "r < 56") (simp_all add: mod_less)
  then have "r + (119 - r) mod 64 = (if r < 56 then 55 else 119)"
    using M(2) by (auto split: if_splits)
  then have "length (fips_pad M) = 64 * q + (if r < 56 then 64 else 128)"
    by (simp add: fips_pad_def be_bytes64_def r_def [symmetric]) (use M in simp)
  then show ?thesis by simp
qed

end
