(* ===== verification/Gpio_Fields.thy ===== *)
theory Gpio_Fields
  imports Rpi5_Prelude
begin

section \<open>Register banks and the bit fields of pins\<close>

text \<open>
  Two interfaces. \<^verbatim>\<open>mmio_regs\<close> is what a driver assumes of a configuration register block: a
  read returns what the register holds and changes nothing, a write replaces one register.
  \<^verbatim>\<open>pin_fields\<close> is a family of bit fields, one per pin, packed into such registers: each field
  lies inside its register and no two overlap. Setting a field is the code's read, mask, or,
  write; the lemmas say that it reads back and that every other field keeps its value. The
  GPIO libraries interpret \<^verbatim>\<open>pin_fields\<close> on their own pin tables.
\<close>

locale mmio_regs =
  fixes D :: "'s iodev" and val :: "'s \<Rightarrow> u64 \<Rightarrow> u32"
  assumes rd: "io_rd D a s = (val s a, s)"
    and wr: "val (io_wr D a v s) = (val s)(a := v)"
begin

lemma val_update:
  "val (snd (run_state (MmioAndThenOr32 D a m v) s)) = (val s)(a := (val s a AND m) OR v)"
  by (simp add: run_Mmio rd wr)

end

interpretation reg_bank: mmio_regs reg_dev "\<lambda>s. s"
  by unfold_locales (simp_all add: io_simps)

definition field :: "nat \<Rightarrow> nat \<Rightarrow> u32 \<Rightarrow> u32" where
  "field sh w x = drop_bit sh x AND mask w"

definition SetField :: "'s iodev \<Rightarrow> u64 \<Rightarrow> nat \<Rightarrow> nat \<Rightarrow> u32 \<Rightarrow> ('s, unit) state" where
  "SetField D a sh w v = MmioAndThenOr32 D a (NOT (push_bit sh (mask w))) (push_bit sh v)"

locale pin_fields = mmio_regs D val
  for D :: "'s iodev" and val :: "'s \<Rightarrow> u64 \<Rightarrow> u32" +
  fixes reg :: "'p \<Rightarrow> u64" and sh :: "'p \<Rightarrow> nat" and w :: nat and ok :: "'p \<Rightarrow> bool"
  assumes fits: "ok p \<Longrightarrow> sh p + w \<le> 32"
    and apart: "ok p \<Longrightarrow> ok q \<Longrightarrow> p \<noteq> q \<Longrightarrow> reg p = reg q \<Longrightarrow> sh p + w \<le> sh q \<or> sh q + w \<le> sh p"
begin

lemma set_other_reg:
  "a \<noteq> reg p \<Longrightarrow> val (snd (run_state (SetField D (reg p) (sh p) w v) s)) a = val s a"
  by (simp add: SetField_def val_update)

lemma set_get:
  assumes "ok p" and "v AND mask w = v"
  shows "field (sh p) w (val (snd (run_state (SetField D (reg p) (sh p) w v) s)) (reg p)) = v"
  using field_get_set [OF assms(2)] fits [OF assms(1)]
  by (simp add: field_def SetField_def val_update)

lemma set_get_other:
  assumes "ok p" and "ok q" and "p \<noteq> q" and "v AND mask w = v"
  shows "field (sh q) w (val (snd (run_state (SetField D (reg p) (sh p) w v) s)) (reg q)) =
         field (sh q) w (val s (reg q))"
proof (cases "reg p = reg q")
  case True
  with apart [OF assms(1-3)]
  have "sh q + w \<le> sh p \<or> sh p + w \<le> sh q" by auto
  then show ?thesis
    using field_get_set_other [OF assms(4), of "sh q" w "sh p" "val s (reg q)"] True
    by (simp add: field_def SetField_def val_update)
next
  case False
  then show ?thesis by (simp add: SetField_def val_update)
qed

lemma set_twice:
  assumes "ok p" and "v AND mask w = v"
  shows "field (sh p) w (val (snd (run_state (do { SetField D (reg p) (sh p) w u;
           SetField D (reg p) (sh p) w v }) s)) (reg p)) = v"
  using set_get [OF assms, of "snd (run_state (SetField D (reg p) (sh p) w u) s)"]
  by (simp add: run_state_bind case_prod_unfold)

end

end
