(* ===== verification/Rp1_Gpio.thy ===== *)
theory Rp1_Gpio
  imports Gpio_Fields
begin

section \<open>RP1 GPIO banks (Rp1GpioLib.c)\<close>

text \<open>
  The stateless helpers for the 54 RP1 pins: pin location, pad and function setup, pulls,
  direction, level. \<^verbatim>\<open>Base\<close> is the \<^verbatim>\<open>PeripheralBase\<close> argument; the \<^verbatim>\<open>ASSERT\<close>s of the code check
  the arguments in debug builds only and have no branch here. Offsets follow the file: the
  three banks sit at +0, +0x4000 and +0x8000 of the IO, RIO and PADS windows, and the RIO
  window has set and clear aliases at +0x2000 and +0x3000.
\<close>

definition RP1_CLOCKS_MAIN_BASE :: u64 where "RP1_CLOCKS_MAIN_BASE = 0x18000"
definition RP1_PWM1_BASE :: u64 where "RP1_PWM1_BASE = 0x9c000"
definition RP1_IO_BANK0_BASE :: u64 where "RP1_IO_BANK0_BASE = 0xd0000"
definition RP1_SYS_RIO0_BASE :: u64 where "RP1_SYS_RIO0_BASE = 0xe0000"
definition RP1_PADS_BANK0_BASE :: u64 where "RP1_PADS_BANK0_BASE = 0xf0000"

definition RP1_GPIO_COUNT :: nat where "RP1_GPIO_COUNT = 54"
definition RP1_GPIO_FUNC_ALT0 :: u32 where "RP1_GPIO_FUNC_ALT0 = 0"
definition RP1_GPIO_FUNC_RIO :: u32 where "RP1_GPIO_FUNC_RIO = 5"

datatype rp1_gpio_pull = Rp1GpioPullNone | Rp1GpioPullDown | Rp1GpioPullUp

definition Rp1GpioLocatePin :: "nat \<Rightarrow> u64 \<times> nat" where
  "Rp1GpioLocatePin Pin =
     (if Pin < 28 then (0, Pin)
      else if Pin < 34 then (0x4000, Pin - 28)
      else (0x8000, Pin - 34))"

definition RP1_IO_CTRL_OFFSET :: "nat \<Rightarrow> u64" where
  "RP1_IO_CTRL_OFFSET Pin = of_nat (Pin * 8 + 4)"

definition RP1_PADS_PIN_OFFSET :: "nat \<Rightarrow> u64" where
  "RP1_PADS_PIN_OFFSET Pin = of_nat (0x4 + Pin * 4)"

definition PadReg :: "u64 \<Rightarrow> nat \<Rightarrow> u64" where
  "PadReg Base Pin = (case Rp1GpioLocatePin Pin of (Bank, LocalPin) \<Rightarrow>
     Base + RP1_PADS_BANK0_BASE + Bank + RP1_PADS_PIN_OFFSET LocalPin)"

definition CtrlReg :: "u64 \<Rightarrow> nat \<Rightarrow> u64" where
  "CtrlReg Base Pin = (case Rp1GpioLocatePin Pin of (Bank, LocalPin) \<Rightarrow>
     Base + RP1_IO_BANK0_BASE + Bank + RP1_IO_CTRL_OFFSET LocalPin)"

definition RioBank :: "u64 \<Rightarrow> nat \<Rightarrow> u64" where
  "RioBank Base Pin = Base + RP1_SYS_RIO0_BASE + fst (Rp1GpioLocatePin Pin)"

definition RP1_PADS_IN_ENABLE :: u32 where "RP1_PADS_IN_ENABLE = 0x40"
definition RP1_PADS_OUT_DISABLE :: u32 where "RP1_PADS_OUT_DISABLE = 0x80"
definition RP1_PADS_PULL_DOWN :: u32 where "RP1_PADS_PULL_DOWN = 0x4"
definition RP1_PADS_PULL_UP :: u32 where "RP1_PADS_PULL_UP = 0x8"
definition RP1_IO_CTRL_FUNCSEL_MASK :: u32 where "RP1_IO_CTRL_FUNCSEL_MASK = 0x1f"
definition RP1_IO_CTRL_OUTOVER_MASK :: u32 where "RP1_IO_CTRL_OUTOVER_MASK = 0x3000"
definition RP1_IO_CTRL_OEOVER_MASK :: u32 where "RP1_IO_CTRL_OEOVER_MASK = 0xc000"
definition RP1_RIO_OUT_OFFSET :: u64 where "RP1_RIO_OUT_OFFSET = 0"
definition RP1_RIO_OE_OFFSET :: u64 where "RP1_RIO_OE_OFFSET = 4"
definition RP1_RIO_IN_OFFSET :: u64 where "RP1_RIO_IN_OFFSET = 8"
definition RP1_ATOMIC_SET_OFFSET :: u64 where "RP1_ATOMIC_SET_OFFSET = 0x2000"
definition RP1_ATOMIC_CLR_OFFSET :: u64 where "RP1_ATOMIC_CLR_OFFSET = 0x3000"

definition Rp1GpioSetFunction :: "'s iodev \<Rightarrow> u64 \<Rightarrow> nat \<Rightarrow> u32 \<Rightarrow> ('s, unit) state" where
  "Rp1GpioSetFunction D Base Pin Function = do {
     Value \<leftarrow> MmioRead32 D (PadReg Base Pin);
     MmioWrite32 D (PadReg Base Pin) ((Value OR RP1_PADS_IN_ENABLE) AND NOT RP1_PADS_OUT_DISABLE);
     Value \<leftarrow> MmioRead32 D (CtrlReg Base Pin);
     MmioWrite32 D (CtrlReg Base Pin)
       ((Value AND NOT (RP1_IO_CTRL_FUNCSEL_MASK OR RP1_IO_CTRL_OUTOVER_MASK OR
                        RP1_IO_CTRL_OEOVER_MASK)) OR
        (Function AND RP1_IO_CTRL_FUNCSEL_MASK))
   }"

fun rp1_pull_bits :: "rp1_gpio_pull \<Rightarrow> u32" where
  "rp1_pull_bits Rp1GpioPullDown = RP1_PADS_PULL_DOWN"
| "rp1_pull_bits Rp1GpioPullUp = RP1_PADS_PULL_UP"
| "rp1_pull_bits Rp1GpioPullNone = 0"

definition Rp1GpioSetPull :: "'s iodev \<Rightarrow> u64 \<Rightarrow> nat \<Rightarrow> rp1_gpio_pull \<Rightarrow> ('s, unit) state" where
  "Rp1GpioSetPull D Base Pin Pull = do {
     Value \<leftarrow> MmioRead32 D (PadReg Base Pin);
     MmioWrite32 D (PadReg Base Pin)
       ((Value AND NOT (RP1_PADS_PULL_UP OR RP1_PADS_PULL_DOWN)) OR rp1_pull_bits Pull)
   }"

definition pin_bit :: "nat \<Rightarrow> u32" where
  "pin_bit Pin = push_bit (snd (Rp1GpioLocatePin Pin)) 1"

definition Rp1GpioSetDirection :: "'s iodev \<Rightarrow> u64 \<Rightarrow> nat \<Rightarrow> bool \<Rightarrow> ('s, unit) state" where
  "Rp1GpioSetDirection D Base Pin Output = do {
     MmioWrite32 D (RioBank Base Pin + RP1_RIO_OE_OFFSET +
         (if Output then RP1_ATOMIC_SET_OFFSET else RP1_ATOMIC_CLR_OFFSET)) (pin_bit Pin);
     Rp1GpioSetFunction D Base Pin RP1_GPIO_FUNC_RIO
   }"

definition Rp1GpioRead :: "'s iodev \<Rightarrow> u64 \<Rightarrow> nat \<Rightarrow> ('s, bool) state" where
  "Rp1GpioRead D Base Pin = do {
     Value \<leftarrow> MmioRead32 D (RioBank Base Pin + RP1_RIO_IN_OFFSET);
     State_Monad.return (Value AND pin_bit Pin \<noteq> 0)
   }"

definition Rp1GpioWrite :: "'s iodev \<Rightarrow> u64 \<Rightarrow> nat \<Rightarrow> bool \<Rightarrow> ('s, unit) state" where
  "Rp1GpioWrite D Base Pin Value =
     MmioWrite32 D (RioBank Base Pin + RP1_RIO_OUT_OFFSET +
       (if Value then RP1_ATOMIC_SET_OFFSET else RP1_ATOMIC_CLR_OFFSET)) (pin_bit Pin)"

subsection \<open>Pin registers\<close>

definition pad_off :: "nat \<Rightarrow> nat" where
  "pad_off Pin = (if Pin < 28 then 0xf0004 + 4 * Pin
     else if Pin < 34 then 0xf4004 + 4 * (Pin - 28) else 0xf8004 + 4 * (Pin - 34))"

definition ctrl_off :: "nat \<Rightarrow> nat" where
  "ctrl_off Pin = (if Pin < 28 then 0xd0004 + 8 * Pin
     else if Pin < 34 then 0xd4004 + 8 * (Pin - 28) else 0xd8004 + 8 * (Pin - 34))"

lemma PadReg_off: "PadReg Base Pin = Base + of_nat (pad_off Pin)"
  by (simp add: PadReg_def Rp1GpioLocatePin_def RP1_PADS_BANK0_BASE_def RP1_PADS_PIN_OFFSET_def
      pad_off_def)

lemma CtrlReg_off: "CtrlReg Base Pin = Base + of_nat (ctrl_off Pin)"
  by (simp add: CtrlReg_def Rp1GpioLocatePin_def RP1_IO_BANK0_BASE_def RP1_IO_CTRL_OFFSET_def
      ctrl_off_def)

lemma pin_offs: "p < 54 \<Longrightarrow> pad_off p < 0xf9000 \<and> 0xf0000 \<le> pad_off p"
  "p < 54 \<Longrightarrow> ctrl_off p < 0xd9000" "p < 54 \<Longrightarrow> q < 54 \<Longrightarrow> pad_off p = pad_off q \<longleftrightarrow> p = q"
  by (auto simp: pad_off_def ctrl_off_def split: if_splits)

lemma pin_regs_distinct:
  assumes "p < RP1_GPIO_COUNT" and "q < RP1_GPIO_COUNT"
  shows "PadReg Base p = PadReg Base q \<longleftrightarrow> p = q" and "CtrlReg Base p = CtrlReg Base q \<longleftrightarrow> p = q"
    and "PadReg Base p \<noteq> CtrlReg Base q"
proof -
  have pq: "p < 54" "q < 54" using assms by (simp_all add: RP1_GPIO_COUNT_def)
  show "PadReg Base p = PadReg Base q \<longleftrightarrow> p = q"
    using pin_offs [OF pq(1)] pin_offs [OF pq(2)] pin_offs(3) [OF pq]
    by (simp add: PadReg_off of_nat_word_eq)
  have "ctrl_off p = ctrl_off q \<longleftrightarrow> p = q"
    using pq by (auto simp: ctrl_off_def split: if_splits)
  then show "CtrlReg Base p = CtrlReg Base q \<longleftrightarrow> p = q"
    using pin_offs(2) [OF pq(1)] pin_offs(2) [OF pq(2)] by (simp add: CtrlReg_off of_nat_word_eq)
  show "PadReg Base p \<noteq> CtrlReg Base q"
    using pin_offs [OF pq(1)] pin_offs(2) [OF pq(2)] by (simp add: PadReg_off CtrlReg_off of_nat_word_eq)
qed

subsection \<open>Pulls as pin fields\<close>

fun pull_value :: "rp1_gpio_pull \<Rightarrow> u32" where
  "pull_value Rp1GpioPullNone = 0"
| "pull_value Rp1GpioPullDown = 1"
| "pull_value Rp1GpioPullUp = 2"

lemma Rp1GpioSetPull_field: "Rp1GpioSetPull D Base p pl = SetField D (PadReg Base p) 2 2 (pull_value pl)"
  by (cases pl)
     (simp_all add: Rp1GpioSetPull_def SetField_def MmioAndThenOr32_def RP1_PADS_PULL_UP_def
       RP1_PADS_PULL_DOWN_def numeral_eq_Suc mask_Suc_rec)

interpretation rp1_pull: pin_fields reg_dev "\<lambda>s. s" "PadReg Base" "\<lambda>_. 2" 2 "\<lambda>p. p < RP1_GPIO_COUNT"
  for Base
  by unfold_locales (auto simp: pin_regs_distinct(1))

subsection \<open>The atomic aliases of the RIO windows\<close>

text \<open>
  What the library relies on in the hardware: a write to the set (clear) alias of an output
  or output-enable register sets (clears) the bits of the mask there and touches no other
  register.
\<close>

definition rio_reg :: "u64 \<Rightarrow> u64 \<Rightarrow> u64 \<Rightarrow> u64" where
  "rio_reg Base bank off = Base + RP1_SYS_RIO0_BASE + bank + off"

definition out_bit :: "u64 \<Rightarrow> (u64 \<Rightarrow> u32) \<Rightarrow> nat \<Rightarrow> bool" where
  "out_bit Base r p = bit (r (RioBank Base p + RP1_RIO_OUT_OFFSET)) (snd (Rp1GpioLocatePin p))"

locale rio_regs =
  fixes D :: "'s iodev" and val :: "'s \<Rightarrow> u64 \<Rightarrow> u32" and Base :: u64
  assumes set_alias: "bank \<in> {0, 0x4000, 0x8000} \<Longrightarrow> off \<in> {RP1_RIO_OUT_OFFSET, RP1_RIO_OE_OFFSET} \<Longrightarrow>
      val (io_wr D (rio_reg Base bank off + RP1_ATOMIC_SET_OFFSET) m s) =
      (val s)(rio_reg Base bank off := val s (rio_reg Base bank off) OR m)"
    and clr_alias: "bank \<in> {0, 0x4000, 0x8000} \<Longrightarrow> off \<in> {RP1_RIO_OUT_OFFSET, RP1_RIO_OE_OFFSET} \<Longrightarrow>
      val (io_wr D (rio_reg Base bank off + RP1_ATOMIC_CLR_OFFSET) m s) =
      (val s)(rio_reg Base bank off := val s (rio_reg Base bank off) AND NOT m)"
begin

lemma write_out_bit:
  assumes "p < RP1_GPIO_COUNT" and "q < RP1_GPIO_COUNT"
  shows "out_bit Base (val (snd (run_state (Rp1GpioWrite D Base p v) s))) q =
         (if q = p then v else out_bit Base (val s) q)"
proof -
  let ?bank = "\<lambda>p. fst (Rp1GpioLocatePin p)" and ?loc = "\<lambda>p. snd (Rp1GpioLocatePin p)"
  have bank: "?bank r \<in> {0, 0x4000, 0x8000}" "?loc r < 28" if "r < RP1_GPIO_COUNT" for r
    using that by (auto simp: Rp1GpioLocatePin_def RP1_GPIO_COUNT_def)
  have loc: "?bank p = ?bank q \<and> ?loc p = ?loc q \<longleftrightarrow> q = p"
    using assms by (auto simp: Rp1GpioLocatePin_def RP1_GPIO_COUNT_def)
  have reg: "RioBank Base r + RP1_RIO_OUT_OFFSET = rio_reg Base (?bank r) RP1_RIO_OUT_OFFSET" for r
    by (simp add: RioBank_def rio_reg_def)
  have eq: "rio_reg Base (?bank p) RP1_RIO_OUT_OFFSET = rio_reg Base (?bank q) RP1_RIO_OUT_OFFSET
      \<longleftrightarrow> ?bank p = ?bank q"
    by (simp add: rio_reg_def)
  have lt: "?loc p < 32" "?loc q < 32" using bank(2) assms by fastforce+
  have wr: "val (snd (run_state (Rp1GpioWrite D Base p v) s)) =
      (val s)(rio_reg Base (?bank p) RP1_RIO_OUT_OFFSET :=
        (if v then val s (rio_reg Base (?bank p) RP1_RIO_OUT_OFFSET) OR push_bit (?loc p) 1
         else val s (rio_reg Base (?bank p) RP1_RIO_OUT_OFFSET) AND NOT (push_bit (?loc p) 1)))"
    using set_alias [OF bank(1) [OF assms(1)], of RP1_RIO_OUT_OFFSET]
      clr_alias [OF bank(1) [OF assms(1)], of RP1_RIO_OUT_OFFSET]
    by (simp add: Rp1GpioWrite_def run_Mmio reg pin_bit_def)
  show ?thesis
  proof (cases "?bank p = ?bank q")
    case True
    with loc have kq: "?loc q = ?loc p \<longleftrightarrow> q = p" by metis
    have x: "rio_reg Base (?bank p) RP1_RIO_OUT_OFFSET = rio_reg Base (?bank q) RP1_RIO_OUT_OFFSET"
      using True by simp
    show ?thesis
      unfolding out_bit_def wr reg x fun_upd_same
      by (cases v) (simp_all only: if_True if_False bit_single_u32(1) [OF lt(1)]
          bit_single_u32(2) [OF lt(2)] kq, auto)
  next
    case False
    then have "q \<noteq> p" by auto
    with False eq show ?thesis unfolding out_bit_def wr reg by simp
  qed
qed

end

text \<open>A register file that decodes the aliases by address bits 13:12, as the datasheet has them.\<close>

definition rio_write :: "u64 \<Rightarrow> u64 \<Rightarrow> u32 \<Rightarrow> (u64 \<Rightarrow> u32) \<Rightarrow> u64 \<Rightarrow> u32" where
  "rio_write Base a m s =
     (let off = a - (Base + RP1_SYS_RIO0_BASE); sel = off AND 0x3000; r = a - sel in
      if off < 0xC000 \<and> sel = RP1_ATOMIC_SET_OFFSET then s(r := s r OR m)
      else if off < 0xC000 \<and> sel = RP1_ATOMIC_CLR_OFFSET then s(r := s r AND NOT m)
      else s(a := m))"

definition rio_dev :: "u64 \<Rightarrow> (u64 \<Rightarrow> u32) iodev" where
  "rio_dev Base = \<lparr>io_rd = (\<lambda>a s. (s a, s)), io_wr = rio_write Base, io_stall = (\<lambda>us s. s)\<rparr>"

interpretation rio: rio_regs "rio_dev Base" "\<lambda>s. s" Base for Base
proof unfold_locales
  fix bank off :: u64 and m :: u32 and s
  assume b: "bank \<in> {0, 0x4000, 0x8000}" and o: "off \<in> {RP1_RIO_OUT_OFFSET, RP1_RIO_OE_OFFSET}"
  have d: "rio_reg Base bank off + x - (Base + RP1_SYS_RIO0_BASE) = bank + off + x" for x
    by (simp add: rio_reg_def)
  show "io_wr (rio_dev Base) (rio_reg Base bank off + RP1_ATOMIC_SET_OFFSET) m s =
      s(rio_reg Base bank off := s (rio_reg Base bank off) OR m)"
    using b o unfolding rio_dev_def rio_write_def d Let_def iodev.simps
    by (auto simp: RP1_ATOMIC_SET_OFFSET_def RP1_RIO_OUT_OFFSET_def RP1_RIO_OE_OFFSET_def)
  show "io_wr (rio_dev Base) (rio_reg Base bank off + RP1_ATOMIC_CLR_OFFSET) m s =
      s(rio_reg Base bank off := s (rio_reg Base bank off) AND NOT m)"
    using b o unfolding rio_dev_def rio_write_def d Let_def iodev.simps
    by (auto simp: RP1_ATOMIC_SET_OFFSET_def RP1_ATOMIC_CLR_OFFSET_def RP1_RIO_OUT_OFFSET_def
        RP1_RIO_OE_OFFSET_def)
qed

subsection \<open>The mux sequence\<close>

lemma mux_words:
  fixes x f :: u32
  shows "((x AND NOT (0x1f OR 0x3000 OR 0xc000)) OR (f AND 0x1f)) AND 0x1f = f AND 0x1f"
    and "((x AND NOT (0x1f OR 0x3000 OR 0xc000)) OR (f AND 0x1f)) AND 0xf000 = 0"
    and "((x AND NOT (0x1f OR 0x3000 OR 0xc000)) OR (f AND 0x1f)) AND NOT 0xf01f = x AND NOT 0xf01f"
    and "((x OR 0x40) AND NOT 0x80) AND 0xc0 = 0x40"
    and "((x OR 0x40) AND NOT 0x80) AND NOT 0xc0 = x AND NOT 0xc0"
    and "field 2 2 ((x OR 0x40) AND NOT 0x80) = field 2 2 x"
  by (rule u32_eqI, simp add: u32_bits field_def bit_drop_bit_eq bit_mask_iff)+

lemma function_field: "unat f < 32 \<Longrightarrow> f AND 0x1f = (f :: u32)"
proof -
  assume "unat f < 32"
  then have "f AND mask 5 = f" by (intro and_mask_small) simp
  moreover have "(0x1f :: u32) = mask 5" by (simp add: numeral_eq_Suc mask_Suc_rec)
  ultimately show ?thesis by metis
qed

lemma pull_pad:
  fixes x :: u32 and pl
  defines "y \<equiv> (((x OR 0x40) AND NOT 0x80) AND NOT (push_bit 2 (mask 2))) OR push_bit 2 (pull_value pl)"
  shows "y AND 0xc0 = 0x40" and "y AND NOT 0xcc = x AND NOT 0xcc"
  unfolding y_def
  by (rule u32_eqI, cases pl; simp add: u32_bits bit_push_bit_iff bit_mask_iff)+

lemma SetFunction_state:
  assumes "p < RP1_GPIO_COUNT"
  shows "snd (run_state (Rp1GpioSetFunction reg_dev Base p f) s) =
    s(PadReg Base p := (s (PadReg Base p) OR 0x40) AND NOT 0x80,
      CtrlReg Base p := (s (CtrlReg Base p) AND NOT (0x1f OR 0x3000 OR 0xc000)) OR (f AND 0x1f))"
  using pin_regs_distinct(3) [OF assms assms, of Base]
  by (simp add: Rp1GpioSetFunction_def run_state_bind io_simps RP1_PADS_IN_ENABLE_def
      RP1_PADS_OUT_DISABLE_def RP1_IO_CTRL_FUNCSEL_MASK_def RP1_IO_CTRL_OUTOVER_MASK_def
      RP1_IO_CTRL_OEOVER_MASK_def fun_upd_def)

text \<open>routing a pin to a function and setting its pull, the bring-up sequence of every RP1
  client, leaves the pin with that function, with its output and output-enable overrides at
  peripheral control, its input buffer on, its output enabled and the chosen pull; the other
  bits of its two registers and every other address, the registers of all other pins
  included, keep their values.\<close>

theorem rp1_pin_setup:
  fixes s :: "u64 \<Rightarrow> u32" and Base pl
  assumes "p < RP1_GPIO_COUNT" and "unat f < 32"
  defines "s' \<equiv> snd (run_state (do { Rp1GpioSetFunction reg_dev Base p f; Rp1GpioSetPull reg_dev Base p pl }) s)"
  shows "s' (CtrlReg Base p) AND 0x1f = f \<and> s' (CtrlReg Base p) AND 0xf000 = 0 \<and>
    s' (CtrlReg Base p) AND NOT 0xf01f = s (CtrlReg Base p) AND NOT 0xf01f \<and>
    s' (PadReg Base p) AND 0xc0 = 0x40 \<and> field 2 2 (s' (PadReg Base p)) = pull_value pl \<and>
    s' (PadReg Base p) AND NOT 0xcc = s (PadReg Base p) AND NOT 0xcc \<and>
    (\<forall>a. a \<noteq> PadReg Base p \<longrightarrow> a \<noteq> CtrlReg Base p \<longrightarrow> s' a = s a) \<and>
    (\<forall>q. q < RP1_GPIO_COUNT \<longrightarrow> q \<noteq> p \<longrightarrow>
      s' (PadReg Base q) = s (PadReg Base q) \<and> s' (CtrlReg Base q) = s (CtrlReg Base q))"
proof -
  let ?s1 = "snd (run_state (Rp1GpioSetFunction reg_dev Base p f) s)"
  note s1 = SetFunction_state [OF assms(1), of Base f s]
  have s': "s' = snd (run_state (SetField reg_dev (PadReg Base p) 2 2 (pull_value pl)) ?s1)"
    by (simp add: s'_def run_state_bind Rp1GpioSetPull_field case_prod_unfold)
  have pad: "s' (PadReg Base p) = (?s1 (PadReg Base p) AND NOT (push_bit 2 (mask 2))) OR
      push_bit 2 (pull_value pl)"
    using reg_bank.val_update by (simp add: s' SetField_def)
  have ne: "PadReg Base p \<noteq> CtrlReg Base p" using assms(1) by (simp add: pin_regs_distinct)
  have other: "s' a = s a" if "a \<noteq> PadReg Base p" "a \<noteq> CtrlReg Base p" for a
    using that rp1_pull.set_other_reg [of a Base p] by (simp add: s' s1)
  have ctrl: "s' (CtrlReg Base p) = ?s1 (CtrlReg Base p)"
    using ne rp1_pull.set_other_reg [of "CtrlReg Base p" Base p] by (simp add: s')
  have "field 2 2 (s' (PadReg Base p)) = pull_value pl"
    using rp1_pull.set_get [OF assms(1), of "pull_value pl" Base ?s1] unfolding s'
    by (cases pl) (simp_all add: and_mask_small)
  moreover have "s' (PadReg Base p) AND 0xc0 = 0x40"
    "s' (PadReg Base p) AND NOT 0xcc = s (PadReg Base p) AND NOT 0xcc"
    using pull_pad [of "s (PadReg Base p)" pl] ne by (simp_all only: pad s1 fun_upd_apply if_False if_True simp_thms)
  moreover have "s' (CtrlReg Base p) AND 0x1f = f" "s' (CtrlReg Base p) AND 0xf000 = 0"
    "s' (CtrlReg Base p) AND NOT 0xf01f = s (CtrlReg Base p) AND NOT 0xf01f"
    by (simp_all only: ctrl s1 fun_upd_same function_field [OF assms(2)]
        mux_words(1-3) [of _ f, unfolded function_field [OF assms(2)]])
  moreover have "s' (PadReg Base q) = s (PadReg Base q)" "s' (CtrlReg Base q) = s (CtrlReg Base q)"
    if "q < RP1_GPIO_COUNT" "q \<noteq> p" for q
    using that assms(1) pin_regs_distinct [OF that(1) assms(1), of Base]
      pin_regs_distinct(3) [OF assms(1) that(1), of Base] by (simp_all add: other)
  ultimately show ?thesis using other by blast
qed

theorem rp1_pin_setup_witness:
  "snd (run_state (do { Rp1GpioSetFunction reg_dev 0 45 RP1_GPIO_FUNC_ALT0;
     Rp1GpioSetPull reg_dev 0 45 Rp1GpioPullDown }) (\<lambda>_. 0xffffffff)) (CtrlReg 0 45) AND 0x1f = 0"
  using conjunct1 [OF rp1_pin_setup [of 45 RP1_GPIO_FUNC_ALT0 0 Rp1GpioPullDown "\<lambda>_. 0xffffffff"]]
  by (simp add: RP1_GPIO_COUNT_def RP1_GPIO_FUNC_ALT0_def)

text \<open>driving a pin through the atomic aliases sets exactly that pin's output bit, in all
  three banks, on a register file that decodes the aliases.\<close>

theorem rp1_write_one_bit:
  assumes "p < RP1_GPIO_COUNT" and "q < RP1_GPIO_COUNT"
  shows "out_bit Base (snd (run_state (Rp1GpioWrite (rio_dev Base) Base p v) s)) q =
         (if q = p then v else out_bit Base s q)"
  using assms by (rule rio.write_out_bit)

theorem rp1_write_one_bit_witness:
  "out_bit 0 (snd (run_state (Rp1GpioWrite (rio_dev 0) 0 45 True) (\<lambda>_. 0))) 45"
  using rp1_write_one_bit [of 45 45 0 True "\<lambda>_. 0"] by (simp add: RP1_GPIO_COUNT_def)

end
