(* ===== verification/Bcm2712_Gpio.thy ===== *)
theory Bcm2712_Gpio
  imports Gpio_Fields
begin

section \<open>BCM2712 GPIO and pin control (Bcm2712GpioLib.c)\<close>

text \<open>
  The two GPIO controllers with their pin tables, and the eight operations. Each operation
  takes the register device; the checks \<^verbatim>\<open>GPIOLIB_ASSERT_OR_FAIL\<close> are modelled by their fail
  action, the return a release build takes. \<^verbatim>\<open>BCM2712_GIO_REG_BIT(Pin)\<close> is \<^verbatim>\<open>1 << Pin\<close> on a
  32-bit \<^verbatim>\<open>int\<close>: for pins of 32 and more the C standard leaves the value open, and the
  argument \<open>ub\<close> stands for what the compiled code computes there.
\<close>

datatype gpio_type = BCM2712_GIO | BCM2712_GIO_AON

datatype gpio_pull = BCM2712_GPIO_PIN_PULL_NONE | BCM2712_GPIO_PIN_PULL_DOWN
  | BCM2712_GPIO_PIN_PULL_UP | OtherPull nat

datatype gpio_direction = BCM2712_GPIO_PIN_OUTPUT | BCM2712_GPIO_PIN_INPUT

definition BCM2712_GPIO_ALT_COUNT :: u8 where "BCM2712_GPIO_ALT_COUNT = 9"

definition unused :: u16 where "unused = 0xFFFF"

record pinctrl_registers =
  MuxReg :: u16
  MuxBit :: nat
  CtlReg :: u16
  CtlBit :: nat

definition gio_pin :: "u16 \<Rightarrow> nat \<Rightarrow> u16 \<Rightarrow> nat \<Rightarrow> pinctrl_registers" where
  "gio_pin mr mb cr cb = \<lparr>MuxReg = mr, MuxBit = mb, CtlReg = cr, CtlBit = cb\<rparr>"

definition Bcm2712PinctrlGioRegisters :: "pinctrl_registers list" where
  "Bcm2712PinctrlGioRegisters =
    [gio_pin unused 0 unused 0, gio_pin 0 0 16 10, gio_pin 0 4 16 12,
     gio_pin 0 8 16 14, gio_pin 0 12 16 16, gio_pin unused 0 unused 0,
     gio_pin unused 0 unused 0, gio_pin unused 0 unused 0, gio_pin unused 0 unused 0,
     gio_pin unused 0 unused 0, gio_pin 0 16 16 18, gio_pin 0 20 16 20,
     gio_pin 0 24 16 22, gio_pin 0 28 16 24, gio_pin 4 0 16 26,
     gio_pin 4 4 16 28, gio_pin unused 0 unused 0, gio_pin unused 0 unused 0,
     gio_pin 4 8 20 0, gio_pin 4 12 20 2, gio_pin 4 16 20 4,
     gio_pin 4 20 20 6, gio_pin 4 24 20 8, gio_pin 4 28 20 10,
     gio_pin 8 0 20 12, gio_pin 8 4 20 14, gio_pin 8 8 20 16,
     gio_pin 8 12 20 18, gio_pin 8 16 20 20, gio_pin 8 20 20 22,
     gio_pin 8 24 20 24, gio_pin 8 28 20 26, gio_pin 12 0 20 28,
     gio_pin 12 4 24 0, gio_pin 12 8 24 2, gio_pin 12 12 24 4,
     gio_pin unused 0 24 6, gio_pin unused 0 24 8, gio_pin unused 0 24 10,
     gio_pin unused 0 24 12, gio_pin unused 0 24 14, gio_pin unused 0 24 16,
     gio_pin unused 0 24 18, gio_pin unused 0 24 20, gio_pin unused 0 24 22,
     gio_pin unused 0 24 24, gio_pin unused 0 24 26]"

definition Bcm2712PinctrlGioAonRegisters :: "pinctrl_registers list" where
  "Bcm2712PinctrlGioAonRegisters =
    [gio_pin 12 0 20 18, gio_pin 12 4 20 20, gio_pin 12 8 20 22,
     gio_pin 12 12 20 24, gio_pin 12 16 20 26, gio_pin 12 20 20 28,
     gio_pin 12 24 24 0, gio_pin unused 0 unused 0, gio_pin 12 28 24 2,
     gio_pin 16 0 24 4, gio_pin unused 0 unused 0, gio_pin unused 0 unused 0,
     gio_pin 16 4 24 6, gio_pin 16 8 24 8, gio_pin 16 12 24 10,
     gio_pin unused 0 unused 0, gio_pin unused 0 unused 0, gio_pin unused 0 unused 0,
     gio_pin unused 0 unused 0, gio_pin unused 0 unused 0, gio_pin unused 0 unused 0,
     gio_pin unused 0 unused 0, gio_pin unused 0 unused 0, gio_pin unused 0 unused 0,
     gio_pin unused 0 unused 0, gio_pin unused 0 unused 0, gio_pin unused 0 unused 0,
     gio_pin unused 0 unused 0, gio_pin unused 0 unused 0, gio_pin unused 0 unused 0,
     gio_pin unused 0 unused 0, gio_pin unused 0 unused 0, gio_pin 0 0 unused 0,
     gio_pin 0 4 unused 0, gio_pin 0 8 unused 0, gio_pin 0 12 unused 0,
     gio_pin 4 0 unused 0, gio_pin 8 0 unused 0]"

fun GioBase :: "gpio_type \<Rightarrow> u64" where
  "GioBase BCM2712_GIO = 0x107d508500"
| "GioBase BCM2712_GIO_AON = 0x107d517c00"

fun PinctrlBase :: "gpio_type \<Rightarrow> u64" where
  "PinctrlBase BCM2712_GIO = 0x107d504100"
| "PinctrlBase BCM2712_GIO_AON = 0x107d510700"

fun PinctrlRegisters :: "gpio_type \<Rightarrow> pinctrl_registers list" where
  "PinctrlRegisters BCM2712_GIO = Bcm2712PinctrlGioRegisters"
| "PinctrlRegisters BCM2712_GIO_AON = Bcm2712PinctrlGioAonRegisters"

definition PinCount :: "gpio_type \<Rightarrow> nat" where
  "PinCount t = length (PinctrlRegisters t)"

definition BCM2712_GIO_BANK_OFFSET :: "u8 \<Rightarrow> u64" where
  "BCM2712_GIO_BANK_OFFSET Pin = of_nat (unat Pin div 32 * 32)"

definition BCM2712_GIO_REG_BIT :: "(u8 \<Rightarrow> u32) \<Rightarrow> u8 \<Rightarrow> u32" where
  "BCM2712_GIO_REG_BIT ub Pin = (if unat Pin < 32 then push_bit (unat Pin) 1 else ub Pin)"

subsection \<open>Pin multiplexing and pulls\<close>

definition GpioGetFunction :: "'s iodev \<Rightarrow> gpio_type \<Rightarrow> u8 \<Rightarrow> ('s, u8) state" where
  "GpioGetFunction D Type Pin =
     (if \<not> unat Pin < PinCount Type then State_Monad.return BCM2712_GPIO_ALT_COUNT
      else
        (let Regs = PinctrlRegisters Type ! unat Pin in
         if MuxReg Regs = unused then State_Monad.return BCM2712_GPIO_ALT_COUNT
         else do {
           Value \<leftarrow> MmioRead32 D (PinctrlBase Type + ucast (MuxReg Regs));
           State_Monad.return (ucast (drop_bit (MuxBit Regs) Value AND 0xF))
         }))"

definition GpioSetFunction :: "'s iodev \<Rightarrow> gpio_type \<Rightarrow> u8 \<Rightarrow> u8 \<Rightarrow> ('s, unit) state" where
  "GpioSetFunction D Type Pin Function =
     (if \<not> unat Pin < PinCount Type then State_Monad.return ()
      else
        (let Regs = PinctrlRegisters Type ! unat Pin in
         if MuxReg Regs = unused then State_Monad.return ()
         else MmioAndThenOr32 D (PinctrlBase Type + ucast (MuxReg Regs))
                (NOT (push_bit (MuxBit Regs) 0xF)) (push_bit (MuxBit Regs) (ucast Function))))"

fun pull_code :: "gpio_pull \<Rightarrow> u32" where
  "pull_code BCM2712_GPIO_PIN_PULL_NONE = 0"
| "pull_code BCM2712_GPIO_PIN_PULL_DOWN = 1"
| "pull_code BCM2712_GPIO_PIN_PULL_UP = 2"
| "pull_code (OtherPull n) = of_nat n"

definition GpioGetPull :: "'s iodev \<Rightarrow> gpio_type \<Rightarrow> u8 \<Rightarrow> ('s, u32) state" where
  "GpioGetPull D Type Pin =
     (if \<not> unat Pin < PinCount Type then State_Monad.return (pull_code BCM2712_GPIO_PIN_PULL_NONE)
      else
        (let Regs = PinctrlRegisters Type ! unat Pin in
         if CtlReg Regs = unused then State_Monad.return (pull_code BCM2712_GPIO_PIN_PULL_NONE)
         else do {
           Value \<leftarrow> MmioRead32 D (PinctrlBase Type + ucast (CtlReg Regs));
           State_Monad.return (drop_bit (CtlBit Regs) Value AND 0x3)
         }))"

definition GpioSetPull :: "'s iodev \<Rightarrow> gpio_type \<Rightarrow> u8 \<Rightarrow> gpio_pull \<Rightarrow> ('s, unit) state" where
  "GpioSetPull D Type Pin Pull =
     (if \<not> unat Pin < PinCount Type then State_Monad.return ()
      else
        (let Regs = PinctrlRegisters Type ! unat Pin in
         if \<not> (Pull = BCM2712_GPIO_PIN_PULL_NONE \<or> Pull = BCM2712_GPIO_PIN_PULL_UP \<or>
                Pull = BCM2712_GPIO_PIN_PULL_DOWN)
         then State_Monad.return ()
         else if CtlReg Regs = unused then State_Monad.return ()
         else MmioAndThenOr32 D (PinctrlBase Type + ucast (CtlReg Regs))
                (NOT (push_bit (CtlBit Regs) 0x3)) (push_bit (CtlBit Regs) (pull_code Pull))))"

subsection \<open>Levels and directions\<close>

definition DataReg :: "gpio_type \<Rightarrow> u8 \<Rightarrow> u64" where
  "DataReg Type Pin = GioBase Type + BCM2712_GIO_BANK_OFFSET Pin + 0x4"

definition IodirReg :: "gpio_type \<Rightarrow> u8 \<Rightarrow> u64" where
  "IodirReg Type Pin = GioBase Type + BCM2712_GIO_BANK_OFFSET Pin + 0x8"

definition GpioRead :: "'s iodev \<Rightarrow> (u8 \<Rightarrow> u32) \<Rightarrow> gpio_type \<Rightarrow> u8 \<Rightarrow> ('s, bool) state" where
  "GpioRead D ub Type Pin =
     (if \<not> unat Pin < PinCount Type then State_Monad.return False
      else do {
        Value \<leftarrow> MmioRead32 D (DataReg Type Pin);
        State_Monad.return (Value AND BCM2712_GIO_REG_BIT ub Pin \<noteq> 0)
      })"

definition GpioWrite :: "'s iodev \<Rightarrow> (u8 \<Rightarrow> u32) \<Rightarrow> gpio_type \<Rightarrow> u8 \<Rightarrow> bool \<Rightarrow> ('s, unit) state" where
  "GpioWrite D ub Type Pin Value =
     (if \<not> unat Pin < PinCount Type then State_Monad.return ()
      else if Value then MmioOr32 D (DataReg Type Pin) (BCM2712_GIO_REG_BIT ub Pin)
      else MmioAnd32 D (DataReg Type Pin) (NOT (BCM2712_GIO_REG_BIT ub Pin)))"

definition GpioGetDirection ::
  "'s iodev \<Rightarrow> (u8 \<Rightarrow> u32) \<Rightarrow> gpio_type \<Rightarrow> u8 \<Rightarrow> ('s, gpio_direction) state" where
  "GpioGetDirection D ub Type Pin =
     (if \<not> unat Pin < PinCount Type then State_Monad.return BCM2712_GPIO_PIN_OUTPUT
      else do {
        Value \<leftarrow> MmioRead32 D (IodirReg Type Pin);
        State_Monad.return (if Value AND BCM2712_GIO_REG_BIT ub Pin \<noteq> 0
                then BCM2712_GPIO_PIN_INPUT else BCM2712_GPIO_PIN_OUTPUT)
      })"

text \<open>
  The check of \<^verbatim>\<open>Direction\<close> in the code is \<^verbatim>\<open>Direction != OUTPUT || Direction != INPUT\<close>, which
  holds of every value, so no direction is refused there.
\<close>

fun GpioSetDirection ::
  "'s iodev \<Rightarrow> (u8 \<Rightarrow> u32) \<Rightarrow> gpio_type \<Rightarrow> u8 \<Rightarrow> gpio_direction \<Rightarrow> ('s, unit) state" where
  "GpioSetDirection D ub Type Pin BCM2712_GPIO_PIN_INPUT =
     (if \<not> unat Pin < PinCount Type then State_Monad.return ()
      else MmioOr32 D (IodirReg Type Pin) (BCM2712_GIO_REG_BIT ub Pin))"
| "GpioSetDirection D ub Type Pin BCM2712_GPIO_PIN_OUTPUT =
     (if \<not> unat Pin < PinCount Type then State_Monad.return ()
      else MmioAnd32 D (IodirReg Type Pin) (NOT (BCM2712_GIO_REG_BIT ub Pin)))"

subsection \<open>The pin tables\<close>

lemma PinCount_values: "PinCount BCM2712_GIO = 47" "PinCount BCM2712_GIO_AON = 38"
  by (simp_all add: PinCount_def Bcm2712PinctrlGioRegisters_def Bcm2712PinctrlGioAonRegisters_def)

fun pos :: "u16 \<Rightarrow> nat \<Rightarrow> (u16 \<times> nat) list" where
  "pos r b = (if r = unused then [] else [(r, b)])"

definition mux_pos :: "gpio_type \<Rightarrow> (u16 \<times> nat) list" where
  "mux_pos t = concat (map (\<lambda>r. pos (MuxReg r) (MuxBit r)) (PinctrlRegisters t))"

definition ctl_pos :: "gpio_type \<Rightarrow> (u16 \<times> nat) list" where
  "ctl_pos t = concat (map (\<lambda>r. pos (CtlReg r) (CtlBit r)) (PinctrlRegisters t))"

lemma mux_tables:
  "distinct (mux_pos BCM2712_GIO)" "distinct (mux_pos BCM2712_GIO_AON)"
  "list_all (\<lambda>(r, b). r < 0x20 \<and> b mod 4 = 0 \<and> b \<le> 28) (mux_pos BCM2712_GIO)"
  "list_all (\<lambda>(r, b). r < 0x20 \<and> b mod 4 = 0 \<and> b \<le> 28) (mux_pos BCM2712_GIO_AON)"
  by code_simp+

lemma ctl_tables:
  "distinct (ctl_pos BCM2712_GIO)" "distinct (ctl_pos BCM2712_GIO_AON)"
  "list_all (\<lambda>(r, b). r < 0x20 \<and> b mod 2 = 0 \<and> b \<le> 30) (ctl_pos BCM2712_GIO)"
  "list_all (\<lambda>(r, b). r < 0x20 \<and> b mod 2 = 0 \<and> b \<le> 30) (ctl_pos BCM2712_GIO_AON)"
  by code_simp+

lemma mux_ctl_tables:
  "list_all (\<lambda>(r, b). \<not> List.member (map fst (ctl_pos BCM2712_GIO)) r) (mux_pos BCM2712_GIO)"
  "list_all (\<lambda>(r, b). \<not> List.member (map fst (ctl_pos BCM2712_GIO_AON)) r) (mux_pos BCM2712_GIO_AON)"
  by code_simp+

lemma mux_table: "distinct (mux_pos t)" "(r, b) \<in> set (mux_pos t) \<Longrightarrow> r < 0x20 \<and> b mod 4 = 0 \<and> b \<le> 28"
  using mux_tables by (cases t; auto simp: list_all_iff)+

lemma ctl_table: "distinct (ctl_pos t)" "(r, b) \<in> set (ctl_pos t) \<Longrightarrow> r < 0x20 \<and> b mod 2 = 0 \<and> b \<le> 30"
  using ctl_tables by (cases t; auto simp: list_all_iff)+

text \<open>Two used pins of a table whose positions are pairwise distinct have distinct positions.\<close>

lemma pos_inj:
  assumes "distinct (concat (map (\<lambda>r. pos (f r) (g r)) rs))"
    and "i < length rs" "j < length rs" "i \<noteq> j" "f (rs ! i) \<noteq> unused" "f (rs ! j) \<noteq> unused"
  shows "(f (rs ! i), g (rs ! i)) \<noteq> (f (rs ! j), g (rs ! j))"
  using assms
proof (induction rs arbitrary: i j)
  case (Cons r rs)
  have mem: "(f (rs ! k), g (rs ! k)) \<in> set (concat (map (\<lambda>r. pos (f r) (g r)) rs))"
    if "k < length rs" "f (rs ! k) \<noteq> unused" for k
    using that by (auto intro!: bexI [of _ "rs ! k"])
  show ?case
  proof (cases i)
    case 0
    then obtain k where "j = Suc k" using Cons.prems by (cases j) auto
    with 0 Cons.prems mem [of k] show ?thesis by auto
  next
    case (Suc k)
    show ?thesis
    proof (cases j)
      case 0
      with Suc Cons.prems mem [of k] show ?thesis by auto
    next
      case (Suc m)
      with \<open>i = Suc k\<close> Cons show ?thesis by auto
    qed
  qed
qed simp

subsection \<open>Both tables are families of disjoint fields\<close>

type_synonym pin = "gpio_type \<times> u8"

fun pin_regs :: "pin \<Rightarrow> pinctrl_registers" where
  "pin_regs (t, p) = PinctrlRegisters t ! unat p"

fun pin_exists :: "pin \<Rightarrow> bool" where
  "pin_exists (t, p) = (unat p < PinCount t)"

definition mux_reg :: "pin \<Rightarrow> u64" where
  "mux_reg p = PinctrlBase (fst p) + ucast (MuxReg (pin_regs p))"

definition mux_ok :: "pin \<Rightarrow> bool" where
  "mux_ok p = (pin_exists p \<and> MuxReg (pin_regs p) \<noteq> unused)"

definition ctl_reg :: "pin \<Rightarrow> u64" where
  "ctl_reg p = PinctrlBase (fst p) + ucast (CtlReg (pin_regs p))"

definition ctl_ok :: "pin \<Rightarrow> bool" where
  "ctl_ok p = (pin_exists p \<and> CtlReg (pin_regs p) \<noteq> unused)"

lemma ucast_small: "(r :: u16) < 0x20 \<Longrightarrow> (ucast r :: u64) < 0x20 \<and> unat (ucast r :: u64) = unat r"
proof -
  assume r: "r < 0x20"
  then have "unat r < 0x20" by (simp add: word_less_nat_alt)
  then have "unat (ucast r :: u64) = unat r" by (simp add: unsigned_ucast_eq take_bit_nat_eq_self)
  with r show ?thesis by (simp add: word_less_nat_alt)
qed

lemma pinctrl_addr:
  fixes r r' :: u16
  assumes "PinctrlBase t + ucast r = PinctrlBase t' + ucast r'" and "r < 0x20" and "r' < 0x20"
  shows "t = t' \<and> r = r'"
proof -
  have u: "unat (PinctrlBase t + ucast r) = unat (PinctrlBase t) + unat r" if "r < 0x20" for t and r :: u16
  proof -
    have "unat (PinctrlBase t) < 2 ^ 63" by (cases t) simp_all
    moreover have "unat r < 0x20" using that by (simp add: word_less_nat_alt)
    ultimately have "unat (PinctrlBase t) + unat (ucast r :: u64) < 2 ^ 64"
      using ucast_small [OF that] by simp
    then show ?thesis using ucast_small [OF that] by (simp add: unat_word_ariths)
  qed
  have "unat (PinctrlBase t) + unat r = unat (PinctrlBase t') + unat r'"
    using u [OF assms(2), of t] u [OF assms(3), of t'] assms(1) by simp
  moreover have "unat r < 0x20" "unat r' < 0x20" using assms by (simp_all add: word_less_nat_alt)
  ultimately show ?thesis by (cases t; cases t') (auto simp: word_unat_eq_iff)
qed

lemma pos_mem:
  assumes "i < length rs" and "f (rs ! i) \<noteq> unused"
  shows "(f (rs ! i), g (rs ! i)) \<in> set (concat (map (\<lambda>r. pos (f r) (g r)) rs))"
  using assms by (auto intro!: bexI [of _ "rs ! i"])

lemma mux_mem:
  assumes "mux_ok p"
  shows "(MuxReg (pin_regs p), MuxBit (pin_regs p)) \<in> set (mux_pos (fst p))"
proof -
  obtain t i where p: "p = (t, i)" by (metis surj_pair)
  show ?thesis
    using pos_mem [of "unat i" "PinctrlRegisters t" MuxReg MuxBit] assms
    unfolding mux_pos_def p by (simp add: mux_ok_def PinCount_def p del: set_concat)
qed

lemmas mux_range = mux_table(2) [OF mux_mem]

lemma ctl_mem:
  assumes "ctl_ok p"
  shows "(CtlReg (pin_regs p), CtlBit (pin_regs p)) \<in> set (ctl_pos (fst p))"
proof -
  obtain t i where p: "p = (t, i)" by (metis surj_pair)
  show ?thesis
    using pos_mem [of "unat i" "PinctrlRegisters t" CtlReg CtlBit] assms
    unfolding ctl_pos_def p by (simp add: ctl_ok_def PinCount_def p del: set_concat)
qed

lemmas ctl_range = ctl_table(2) [OF ctl_mem]

lemma multiples_apart: "(a :: nat) mod k = 0 \<Longrightarrow> b mod k = 0 \<Longrightarrow> a \<noteq> b \<Longrightarrow> a + k \<le> b \<or> b + k \<le> a"
proof -
  assume "a mod k = 0" "b mod k = 0" and ne: "a \<noteq> b"
  then obtain x y where "a = k * x" "b = k * y" by (auto simp: mod_eq_0_iff_dvd elim!: dvdE)
  moreover from this ne have "x + 1 \<le> y \<or> y + 1 \<le> x" by auto
  moreover have "u + 1 \<le> v \<Longrightarrow> k * u + k \<le> k * v" for u v
    using mult_le_mono2 [of "u + 1" v k] by simp
  ultimately show ?thesis by blast
qed

lemma mux_apart:
  assumes "mux_ok p" and "mux_ok q" and "p \<noteq> q" and "mux_reg p = mux_reg q"
  shows "MuxBit (pin_regs p) + 4 \<le> MuxBit (pin_regs q) \<or> MuxBit (pin_regs q) + 4 \<le> MuxBit (pin_regs p)"
proof -
  obtain t i u j where pq: "p = (t, i)" "q = (u, j)" by (metis surj_pair)
  have "fst p = fst q \<and> MuxReg (pin_regs p) = MuxReg (pin_regs q)"
    using assms(4) mux_range [OF assms(1)] mux_range [OF assms(2)]
    unfolding mux_reg_def by (intro pinctrl_addr) auto
  then have tu: "u = t" and rr: "MuxReg (pin_regs (t, i)) = MuxReg (pin_regs (t, j))" by (auto simp: pq)
  have "unat i \<noteq> unat j" using assms(3) by (simp add: pq tu word_unat_eq_iff)
  with rr have "MuxBit (pin_regs p) \<noteq> MuxBit (pin_regs q)"
    using pos_inj [OF mux_table(1) [of t, unfolded mux_pos_def], of "unat i" "unat j"] assms(1,2)
    by (auto simp: mux_ok_def PinCount_def pq tu)
  then show ?thesis
    using mux_range [OF assms(1)] mux_range [OF assms(2)] by (intro multiples_apart) auto
qed

lemma ctl_apart:
  assumes "ctl_ok p" and "ctl_ok q" and "p \<noteq> q" and "ctl_reg p = ctl_reg q"
  shows "CtlBit (pin_regs p) + 2 \<le> CtlBit (pin_regs q) \<or> CtlBit (pin_regs q) + 2 \<le> CtlBit (pin_regs p)"
proof -
  obtain t i u j where pq: "p = (t, i)" "q = (u, j)" by (metis surj_pair)
  have "fst p = fst q \<and> CtlReg (pin_regs p) = CtlReg (pin_regs q)"
    using assms(4) ctl_range [OF assms(1)] ctl_range [OF assms(2)]
    unfolding ctl_reg_def by (intro pinctrl_addr) auto
  then have tu: "u = t" and rr: "CtlReg (pin_regs (t, i)) = CtlReg (pin_regs (t, j))" by (auto simp: pq)
  have "unat i \<noteq> unat j" using assms(3) by (simp add: pq tu word_unat_eq_iff)
  with rr have "CtlBit (pin_regs p) \<noteq> CtlBit (pin_regs q)"
    using pos_inj [OF ctl_table(1) [of t, unfolded ctl_pos_def], of "unat i" "unat j"] assms(1,2)
    by (auto simp: ctl_ok_def PinCount_def pq tu)
  then show ?thesis
    using ctl_range [OF assms(1)] ctl_range [OF assms(2)] by (intro multiples_apart) auto
qed

lemma mux_ctl_apart:
  assumes "mux_ok p" and "ctl_ok q"
  shows "mux_reg p \<noteq> ctl_reg q"
proof
  assume eq: "mux_reg p = ctl_reg q"
  have "fst p = fst q \<and> MuxReg (pin_regs p) = CtlReg (pin_regs q)"
    using eq mux_range [OF assms(1)] ctl_range [OF assms(2)]
    unfolding mux_reg_def ctl_reg_def by (intro pinctrl_addr) auto
  with mux_mem [OF assms(1)] ctl_mem [OF assms(2)] show False
    using mux_ctl_tables by (cases "fst p") (force simp: list_all_iff)+
qed

interpretation mux: pin_fields reg_dev "\<lambda>s. s" mux_reg "\<lambda>p. MuxBit (pin_regs p)" 4 mux_ok
proof unfold_locales
  show "mux_ok p \<Longrightarrow> MuxBit (pin_regs p) + 4 \<le> 32" for p using mux_range [of p] by auto
qed (rule mux_apart)

interpretation ctl: pin_fields reg_dev "\<lambda>s. s" ctl_reg "\<lambda>p. CtlBit (pin_regs p)" 2 ctl_ok
proof unfold_locales
  show "ctl_ok p \<Longrightarrow> CtlBit (pin_regs p) + 2 \<le> 32" for p using ctl_range [of p] by auto
qed (rule ctl_apart)

subsection \<open>Setting and reading back\<close>

lemma GpioSetFunction_field:
  "GpioSetFunction D t p f =
    (if mux_ok (t, p) then SetField D (mux_reg (t, p)) (MuxBit (pin_regs (t, p))) 4 (ucast f)
     else State_Monad.return ())"
  by (simp add: GpioSetFunction_def mux_ok_def SetField_def mux_reg_def Let_def
      numeral_eq_Suc mask_Suc_rec)

lemma GpioGetFunction_field:
  "fst (run_state (GpioGetFunction reg_dev t p) s) =
    (if mux_ok (t, p) then ucast (field (MuxBit (pin_regs (t, p))) 4 (s (mux_reg (t, p))))
     else BCM2712_GPIO_ALT_COUNT)"
  by (simp add: GpioGetFunction_def mux_ok_def field_def mux_reg_def Let_def
      run_state_bind io_simps run_state_return numeral_eq_Suc mask_Suc_rec)

lemma GpioSetPull_field:
  "GpioSetPull D t p pl =
    (if ctl_ok (t, p) \<and> pl \<in> {BCM2712_GPIO_PIN_PULL_NONE, BCM2712_GPIO_PIN_PULL_UP,
          BCM2712_GPIO_PIN_PULL_DOWN}
     then SetField D (ctl_reg (t, p)) (CtlBit (pin_regs (t, p))) 2 (pull_code pl)
     else State_Monad.return ())"
  by (auto simp: GpioSetPull_def ctl_ok_def SetField_def ctl_reg_def Let_def
      numeral_eq_Suc mask_Suc_rec)

lemma GpioGetPull_field:
  "fst (run_state (GpioGetPull reg_dev t p) s) =
    (if ctl_ok (t, p) then field (CtlBit (pin_regs (t, p))) 2 (s (ctl_reg (t, p))) else 0)"
  by (simp add: GpioGetPull_def ctl_ok_def field_def ctl_reg_def Let_def
      run_state_bind io_simps run_state_return numeral_eq_Suc mask_Suc_rec)

lemma function_code:
  "(f :: u8) < 16 \<Longrightarrow> (ucast f :: u32) AND mask 4 = ucast f" "ucast (ucast f :: u32) = (f :: u8)"
proof -
  show "ucast (ucast f :: u32) = f" by (rule bit_word_eqI) (simp add: bit_simps)
  assume "f < 16"
  then have "unat f < 16" by (simp add: word_less_nat_alt)
  then show "(ucast f :: u32) AND mask 4 = ucast f"
    by (intro and_mask_small) (simp add: unat_ucast_less)
qed

lemma pull_mask: "pl \<in> {BCM2712_GPIO_PIN_PULL_NONE, BCM2712_GPIO_PIN_PULL_UP, BCM2712_GPIO_PIN_PULL_DOWN}
    \<Longrightarrow> pull_code pl AND mask 2 = pull_code pl"
  by (rule and_mask_small) auto

text \<open>selecting a pin's alternate function makes exactly that pin read back the function:
  every other pin of both controllers keeps its function and every pin keeps its pull. The
  code does not check \<open>Function\<close>; 15 is the largest value that stays inside the field.\<close>

theorem gpio_function_set_get:
  fixes s :: "u64 \<Rightarrow> u32"
  assumes "mux_ok (t, p)" and "f < 16"
  defines "s' \<equiv> snd (run_state (GpioSetFunction reg_dev t p f) s)"
  shows "fst (run_state (GpioGetFunction reg_dev t p) s') = f \<and>
    ((u, q) \<noteq> (t, p) \<longrightarrow>
      fst (run_state (GpioGetFunction reg_dev u q) s') = fst (run_state (GpioGetFunction reg_dev u q) s)) \<and>
    fst (run_state (GpioGetPull reg_dev u q) s') = fst (run_state (GpioGetPull reg_dev u q) s)"
proof (intro conjI impI)
  note f = function_code(1) [OF assms(2)]
  have s': "s' = snd (run_state (SetField reg_dev (mux_reg (t, p)) (MuxBit (pin_regs (t, p))) 4 (ucast f)) s)"
    using assms(1) by (simp add: s'_def GpioSetFunction_field)
  show "fst (run_state (GpioGetFunction reg_dev t p) s') = f"
    using mux.set_get [OF assms(1) f] assms(1) by (simp add: GpioGetFunction_field s' function_code)
  show "(u, q) \<noteq> (t, p) \<Longrightarrow>
      fst (run_state (GpioGetFunction reg_dev u q) s') = fst (run_state (GpioGetFunction reg_dev u q) s)"
    using mux.set_get_other [OF assms(1) _ _ f, of "(u, q)"] by (auto simp: GpioGetFunction_field s')
  show "fst (run_state (GpioGetPull reg_dev u q) s') = fst (run_state (GpioGetPull reg_dev u q) s)"
    using mux.set_other_reg [of "ctl_reg (u, q)" "(t, p)"] mux_ctl_apart [OF assms(1), of "(u, q)"]
    by (auto simp: GpioGetPull_field s')
qed

theorem gpio_function_set_get_witness:
  "fst (run_state (GpioGetFunction reg_dev BCM2712_GIO_AON 3)
     (snd (run_state (GpioSetFunction reg_dev BCM2712_GIO_AON 3 5) (\<lambda>_. 0xFFFFFFFF)))) = 5"
proof -
  have "mux_ok (BCM2712_GIO_AON, 3)" by code_simp
  from conjunct1 [OF gpio_function_set_get [OF this, of 5 "\<lambda>_. 0xFFFFFFFF"]] show ?thesis by simp
qed

text \<open>setting a pin's pull makes exactly that pin read back the pull and leaves every other
  pin's pull and every pin's function alone.\<close>

theorem gpio_pull_set_get:
  fixes s :: "u64 \<Rightarrow> u32"
  assumes "ctl_ok (t, p)"
    and "pl \<in> {BCM2712_GPIO_PIN_PULL_NONE, BCM2712_GPIO_PIN_PULL_UP, BCM2712_GPIO_PIN_PULL_DOWN}"
  defines "s' \<equiv> snd (run_state (GpioSetPull reg_dev t p pl) s)"
  shows "fst (run_state (GpioGetPull reg_dev t p) s') = pull_code pl \<and>
    ((u, q) \<noteq> (t, p) \<longrightarrow>
      fst (run_state (GpioGetPull reg_dev u q) s') = fst (run_state (GpioGetPull reg_dev u q) s)) \<and>
    fst (run_state (GpioGetFunction reg_dev u q) s') = fst (run_state (GpioGetFunction reg_dev u q) s)"
proof (intro conjI impI)
  note f = pull_mask [OF assms(2)]
  have s': "s' = snd (run_state (SetField reg_dev (ctl_reg (t, p)) (CtlBit (pin_regs (t, p))) 2 (pull_code pl)) s)"
    using assms(1,2) by (simp add: s'_def GpioSetPull_field)
  show "fst (run_state (GpioGetPull reg_dev t p) s') = pull_code pl"
    using ctl.set_get [OF assms(1) f] assms(1) by (simp add: GpioGetPull_field s')
  show "(u, q) \<noteq> (t, p) \<Longrightarrow>
      fst (run_state (GpioGetPull reg_dev u q) s') = fst (run_state (GpioGetPull reg_dev u q) s)"
    using ctl.set_get_other [OF assms(1) _ _ f, of "(u, q)"] by (auto simp: GpioGetPull_field s')
  show "fst (run_state (GpioGetFunction reg_dev u q) s') = fst (run_state (GpioGetFunction reg_dev u q) s)"
    using ctl.set_other_reg [of "mux_reg (u, q)" "(t, p)"] mux_ctl_apart [of "(u, q)", OF _ assms(1)]
    by (auto simp: GpioGetFunction_field s')
qed

theorem gpio_pull_set_get_witness:
  "fst (run_state (GpioGetPull reg_dev BCM2712_GIO 20)
     (snd (run_state (GpioSetPull reg_dev BCM2712_GIO 20 BCM2712_GPIO_PIN_PULL_UP) (\<lambda>_. 0xFFFFFFFF)))) = 2"
proof -
  have "ctl_ok (BCM2712_GIO, 20)" by code_simp
  from conjunct1 [OF gpio_pull_set_get [OF this, of BCM2712_GPIO_PIN_PULL_UP "\<lambda>_. 0xFFFFFFFF"]]
  show ?thesis by simp
qed

subsection \<open>Levels and directions of the first bank\<close>

lemma reg_bit_test:
  "unat p < 32 \<Longrightarrow> (x AND BCM2712_GIO_REG_BIT ub p \<noteq> 0) = bit x (unat p)"
  by (simp add: BCM2712_GIO_REG_BIT_def bit_iff_and_push_bit_not_eq_0)

lemma reg_bit_set:
  "unat p < 32 \<Longrightarrow> bit (x OR BCM2712_GIO_REG_BIT ub p) n = (bit x n \<or> n = unat p)"
  "unat p < 32 \<Longrightarrow> n < 32 \<Longrightarrow> bit (x AND NOT (BCM2712_GIO_REG_BIT ub p)) n = (bit x n \<and> n \<noteq> unat p)"
  by (auto simp: BCM2712_GIO_REG_BIT_def bit_simps)

lemma bank0_regs:
  "unat p < 32 \<Longrightarrow> DataReg t p = GioBase t + 4" "unat p < 32 \<Longrightarrow> IodirReg t p = GioBase t + 8"
  by (simp_all add: DataReg_def IodirReg_def BCM2712_GIO_BANK_OFFSET_def)

lemma gio_regs_distinct:
  "GioBase t + 4 \<noteq> GioBase u + 8" "GioBase t + 8 \<noteq> GioBase u + 4"
  "GioBase t = GioBase u \<longleftrightarrow> t = u"
  by (cases t; cases u; simp)+

lemma level_ops:
  assumes "unat p < 32" and "unat p < PinCount t"
  shows "fst (run_state (GpioRead reg_dev ub t p) s) = bit (s (GioBase t + 4)) (unat p)"
    and "fst (run_state (GpioGetDirection reg_dev ub t p) s) =
      (if bit (s (GioBase t + 8)) (unat p) then BCM2712_GPIO_PIN_INPUT else BCM2712_GPIO_PIN_OUTPUT)"
    and "snd (run_state (GpioWrite reg_dev ub t p v) s) = s(GioBase t + 4 :=
      (if v then s (GioBase t + 4) OR BCM2712_GIO_REG_BIT ub p
       else s (GioBase t + 4) AND NOT (BCM2712_GIO_REG_BIT ub p)))"
    and "snd (run_state (GpioSetDirection reg_dev ub t p d) s) = s(GioBase t + 8 :=
      (if d = BCM2712_GPIO_PIN_INPUT then s (GioBase t + 8) OR BCM2712_GIO_REG_BIT ub p
       else s (GioBase t + 8) AND NOT (BCM2712_GIO_REG_BIT ub p)))"
  using assms
  by (cases d; simp add: GpioRead_def GpioGetDirection_def GpioWrite_def run_state_bind
      run_state_return io_simps reg_bit_test bank0_regs)+

text \<open>for the pins of the first bank, driving a level and choosing a direction read back, and
  neither disturbs the level or the direction of any other pin of the two controllers.\<close>

theorem gpio_level_direction:
  fixes s :: "u64 \<Rightarrow> u32" and ub v d
  assumes "unat p < 32" and "unat p < PinCount t" and "unat q < 32" and "unat q < PinCount u"
  defines "s1 \<equiv> snd (run_state (GpioWrite reg_dev ub t p v) s)"
    and "s2 \<equiv> snd (run_state (GpioSetDirection reg_dev ub t p d) s)"
  shows "fst (run_state (GpioRead reg_dev ub u q) s1) =
      (if (u, q) = (t, p) then v else fst (run_state (GpioRead reg_dev ub u q) s)) \<and>
    fst (run_state (GpioGetDirection reg_dev ub u q) s1) =
      fst (run_state (GpioGetDirection reg_dev ub u q) s) \<and>
    fst (run_state (GpioGetDirection reg_dev ub u q) s2) =
      (if (u, q) = (t, p) then d else fst (run_state (GpioGetDirection reg_dev ub u q) s)) \<and>
    fst (run_state (GpioRead reg_dev ub u q) s2) = fst (run_state (GpioRead reg_dev ub u q) s)"
proof -
  have ne: "unat q = unat p \<longleftrightarrow> q = p" by (simp add: word_unat_eq_iff)
  note ops = level_ops [OF assms(1,2)] level_ops [OF assms(3,4)]
  note bits = reg_bit_set [OF assms(1)] gio_regs_distinct ne assms(3)
  show ?thesis
    unfolding s1_def s2_def ops
    by (intro conjI; cases "u = t"; cases v; cases d; simp add: bits)
qed

theorem gpio_level_direction_witness:
  "fst (run_state (GpioRead reg_dev (\<lambda>_. 0) BCM2712_GIO_AON 7)
     (snd (run_state (GpioWrite reg_dev (\<lambda>_. 0) BCM2712_GIO_AON 7 True) (\<lambda>_. 0))))"
  using conjunct1 [OF gpio_level_direction [of 7 BCM2712_GIO_AON 7 BCM2712_GIO_AON "\<lambda>_. 0" True "\<lambda>_. 0"]]
  by (simp add: PinCount_values)

end
