(* ===== verification/Active_Cooler.thy ===== *)
theory Active_Cooler
  imports Rp1_Gpio
begin

section \<open>The fan control loop (ActiveCoolerDxe.c)\<close>

text \<open>
  The driver's static variables are the record \<^verbatim>\<open>cooler\<close>; its registers are the device state
  \<open>dev\<close>, reached through \<^verbatim>\<open>on_dev\<close>. What the firmware's services answer is an argument of the
  operation that asks: \<open>Bus\<close> is the peripheral base behind \<^verbatim>\<open>RP1_BUS_PROTOCOL\<close> once it exists,
  \<open>Var\<close> the status, size and contents that \<^verbatim>\<open>GetVariable\<close> gives for the policy variable.
  Temperatures are \<^verbatim>\<open>INT32\<close> values between -112650 and 450000, written as integers; \<open>mLevel\<close>
  and \<open>mOverride\<close> are integers with -1 for none, as in the code.
\<close>

definition AVS_RO_TEMP_STATUS :: u64 where "AVS_RO_TEMP_STATUS = 0x107D542200"
definition AVS_TEMP_VALID_MASK :: u32 where "AVS_TEMP_VALID_MASK = 0x10400"
definition AVS_TEMP_RAW_MASK :: u32 where "AVS_TEMP_RAW_MASK = 0x3FF"
definition PWM_GLOBAL_CTRL :: u64 where "PWM_GLOBAL_CTRL = 0"
definition PWM_GLOBAL_SET_UPDATE :: u32 where "PWM_GLOBAL_SET_UPDATE = 0x80000000"
definition PWM_GLOBAL_CHAN_EN :: "nat \<Rightarrow> u32" where "PWM_GLOBAL_CHAN_EN c = push_bit c 1"
definition PWM_CHAN_CTRL :: "nat \<Rightarrow> u64" where "PWM_CHAN_CTRL c = of_nat (0x014 + c * 16)"
definition PWM_CHAN_RANGE :: "nat \<Rightarrow> u64" where "PWM_CHAN_RANGE c = of_nat (0x018 + c * 16)"
definition PWM_CHAN_DUTY :: "nat \<Rightarrow> u64" where "PWM_CHAN_DUTY c = of_nat (0x020 + c * 16)"
definition PWM_CHAN_CTRL_MODE :: u32 where "PWM_CHAN_CTRL_MODE = 0x1 OR 0x8 OR 0x100"
definition CLK_PWM1_CTRL :: u64 where "CLK_PWM1_CTRL = 0x084"
definition CLK_PWM1_DIV_INT :: u64 where "CLK_PWM1_DIV_INT = 0x088"
definition CLK_PWM1_DIV_FRAC :: u64 where "CLK_PWM1_DIV_FRAC = 0x08C"
definition CLK_CTRL_ENABLE :: u32 where "CLK_CTRL_ENABLE = 0x800"
definition CLK_CTRL_AUXSRC_XOSC :: u32 where "CLK_CTRL_AUXSRC_XOSC = push_bit 5 2"
definition FAN_PWM_CHANNEL :: nat where "FAN_PWM_CHANNEL = 3"
definition FAN_PWM_GPIO :: nat where "FAN_PWM_GPIO = 45"
definition FAN_PWM_RANGE_TICKS :: nat where "FAN_PWM_RANGE_TICKS = 2078"
definition FAN_HYST_MILLIC :: int where "FAN_HYST_MILLIC = 5000"

definition mFanLevels :: "(int \<times> nat) list" where
  "mFanLevels = [(0, 0), (50000, 75), (60000, 125), (67500, 175), (75000, 250)]"

definition FAN_LEVEL_COUNT :: nat where "FAN_LEVEL_COUNT = length mFanLevels"
definition FAN_LEVEL_MAX :: nat where "FAN_LEVEL_MAX = FAN_LEVEL_COUNT - 1"
definition FAN_LEVEL_SAFE :: nat where "FAN_LEVEL_SAFE = 2"
definition FAN_TRIP_MIN_C :: u8 where "FAN_TRIP_MIN_C = 30"
definition FAN_TRIP_MAX_C :: u8 where "FAN_TRIP_MAX_C = 90"

definition RPI_FAN_MODE_AUTO :: u8 where "RPI_FAN_MODE_AUTO = 0"
definition RPI_FAN_MODE_FIXED :: u8 where "RPI_FAN_MODE_FIXED = 1"
definition RPI_FAN_MODE_CUSTOM :: u8 where "RPI_FAN_MODE_CUSTOM = 2"

record fan_policy =
  Mode :: u8
  FixedLevel :: u8
  Trip1C :: u8
  Trip2C :: u8
  Trip3C :: u8
  Trip4C :: u8

definition sizeof_policy :: nat where "sizeof_policy = 6"

record 's cooler =
  mRp1Base :: u64
  mLevel :: int
  mOverride :: int
  mPolicy :: fan_policy
  mTimer :: bool
  dev :: 's

definition on_dev :: "('s, 'a) state \<Rightarrow> ('s cooler, 'a) state" where
  "on_dev m = State (\<lambda>c. case run_state m (dev c) of (a, d) \<Rightarrow> (a, c\<lparr>dev := d\<rparr>))"

lemma run_cooler [io_simps]:
  "run_state (on_dev m) c = (case run_state m (dev c) of (a, d) \<Rightarrow> (a, c\<lparr>dev := d\<rparr>))"
  by (simp add: on_dev_def)

subsection \<open>Sensor and policy\<close>

definition milli_celsius :: "u32 \<Rightarrow> int option" where
  "milli_celsius Status =
     (if Status AND AVS_TEMP_VALID_MASK \<noteq> AVS_TEMP_VALID_MASK then None
      else Some (450000 - 550 * uint (Status AND AVS_TEMP_RAW_MASK)))"

definition AvsReadMilliCelsius :: "'s iodev \<Rightarrow> ('s, int option) state" where
  "AvsReadMilliCelsius D = do {
     Status \<leftarrow> MmioRead32 D AVS_RO_TEMP_STATUS;
     State_Monad.return (milli_celsius Status)
   }"

definition default_policy :: fan_policy where
  "default_policy = \<lparr>Mode = RPI_FAN_MODE_AUTO, FixedLevel = of_nat FAN_LEVEL_SAFE,
     Trip1C = 50, Trip2C = 60, Trip3C = 68, Trip4C = 75\<rparr>"

type_synonym var_read = "efi_status \<times> nat \<times> fan_policy"

definition ReadPolicy :: "var_read \<Rightarrow> fan_policy" where
  "ReadPolicy r = (case r of (Status, Size, Var) \<Rightarrow>
     if EFI_ERROR Status \<or> Size \<noteq> sizeof_policy then default_policy
     else if Mode Var > RPI_FAN_MODE_CUSTOM then default_policy
     else if Mode Var = RPI_FAN_MODE_CUSTOM \<and>
       (Trip1C Var < FAN_TRIP_MIN_C \<or> Trip4C Var > FAN_TRIP_MAX_C \<or>
        Trip1C Var \<ge> Trip2C Var \<or> Trip2C Var \<ge> Trip3C Var \<or> Trip3C Var \<ge> Trip4C Var)
     then default_policy
     else if FixedLevel Var > of_nat FAN_LEVEL_MAX
     then Var\<lparr>FixedLevel := of_nat FAN_LEVEL_SAFE\<rparr>
     else Var)"

definition TripMilliC :: "fan_policy \<Rightarrow> nat \<Rightarrow> int" where
  "TripMilliC p Level =
     (if Mode p \<noteq> RPI_FAN_MODE_CUSTOM then fst (mFanLevels ! Level)
      else uint (if Level = 1 then Trip1C p else if Level = 2 then Trip2C p
                 else if Level = 3 then Trip3C p else Trip4C p) * 1000)"

subsection \<open>The PWM channel\<close>

definition FanPwmLatch :: "'s iodev \<Rightarrow> u64 \<Rightarrow> ('s, unit) state" where
  "FanPwmLatch D Base = do {
     v \<leftarrow> MmioRead32 D (Base + RP1_PWM1_BASE + PWM_GLOBAL_CTRL);
     MmioWrite32 D (Base + RP1_PWM1_BASE + PWM_GLOBAL_CTRL) (v OR PWM_GLOBAL_SET_UPDATE)
   }"

definition DutyTicks :: "nat \<Rightarrow> nat" where
  "DutyTicks Level = (snd (mFanLevels ! Level) * FAN_PWM_RANGE_TICKS + 127) div 255"

definition FanSetLevel :: "'s iodev \<Rightarrow> nat \<Rightarrow> ('s cooler, unit) state" where
  "FanSetLevel D Level = do {
     Base \<leftarrow> gets mRp1Base;
     on_dev (MmioWrite32 D (Base + RP1_PWM1_BASE + PWM_CHAN_DUTY FAN_PWM_CHANNEL)
               (of_nat (DutyTicks Level)));
     on_dev (FanPwmLatch D Base);
     modify (mLevel_update (\<lambda>_. int Level))
   }"

definition FanHwInit :: "'s iodev \<Rightarrow> u64 \<Rightarrow> ('s, unit) state" where
  "FanHwInit D Base = do {
     let Clk = Base + RP1_CLOCKS_MAIN_BASE;
     let Pwm = Base + RP1_PWM1_BASE;
     v \<leftarrow> MmioRead32 D (Clk + CLK_PWM1_CTRL);
     (if v AND CLK_CTRL_ENABLE = 0 then do {
        MmioWrite32 D (Clk + CLK_PWM1_DIV_INT) 1;
        MmioWrite32 D (Clk + CLK_PWM1_DIV_FRAC) 0;
        MmioWrite32 D (Clk + CLK_PWM1_CTRL) (CLK_CTRL_AUXSRC_XOSC OR CLK_CTRL_ENABLE)
      } else State_Monad.return ());
     Rp1GpioSetFunction D Base FAN_PWM_GPIO RP1_GPIO_FUNC_ALT0;
     Rp1GpioSetPull D Base FAN_PWM_GPIO Rp1GpioPullDown;
     MmioWrite32 D (Pwm + PWM_CHAN_CTRL FAN_PWM_CHANNEL) PWM_CHAN_CTRL_MODE;
     MmioWrite32 D (Pwm + PWM_CHAN_RANGE FAN_PWM_CHANNEL) (of_nat FAN_PWM_RANGE_TICKS);
     MmioWrite32 D (Pwm + PWM_CHAN_DUTY FAN_PWM_CHANNEL) 0;
     v \<leftarrow> MmioRead32 D (Pwm + PWM_GLOBAL_CTRL);
     MmioWrite32 D (Pwm + PWM_GLOBAL_CTRL) (v OR PWM_GLOBAL_CHAN_EN FAN_PWM_CHANNEL);
     FanPwmLatch D Base
   }"

subsection \<open>The poll\<close>

definition Target0 :: "fan_policy \<Rightarrow> int \<Rightarrow> nat" where
  "Target0 p MilliC =
     (case find (\<lambda>Index. MilliC \<ge> TripMilliC p Index) (rev [1..<FAN_LEVEL_COUNT]) of
        Some Index \<Rightarrow> Index | None \<Rightarrow> 0)"

definition LoopTarget :: "fan_policy \<Rightarrow> int \<Rightarrow> int \<Rightarrow> nat" where
  "LoopTarget p Level MilliC =
     (let Target = Target0 p MilliC in
      if Level \<ge> 0 \<and> Target < nat Level then
        if MilliC \<ge> TripMilliC p (nat Level) - FAN_HYST_MILLIC then nat Level
        else nat Level - 1
      else Target)"

definition FanRegulate :: "'s iodev \<Rightarrow> var_read \<Rightarrow> ('s cooler, unit) state" where
  "FanRegulate D Var = do {
     modify (mPolicy_update (\<lambda>_. ReadPolicy Var));
     c \<leftarrow> gets (\<lambda>c. c);
     if mOverride c \<ge> 0 then
       (if mLevel c \<noteq> mOverride c then FanSetLevel D (nat (mOverride c)) else State_Monad.return ())
     else if Mode (mPolicy c) = RPI_FAN_MODE_FIXED then
       (if mLevel c \<noteq> uint (FixedLevel (mPolicy c)) then FanSetLevel D (unat (FixedLevel (mPolicy c)))
        else State_Monad.return ())
     else do {
       t \<leftarrow> on_dev (AvsReadMilliCelsius D);
       (case t of
          None \<Rightarrow> if mLevel c < int FAN_LEVEL_SAFE then FanSetLevel D FAN_LEVEL_SAFE
                  else State_Monad.return ()
        | Some MilliC \<Rightarrow>
            let Target = LoopTarget (mPolicy c) (mLevel c) MilliC in
            if int Target \<noteq> mLevel c then FanSetLevel D Target else State_Monad.return ())
     }
   }"

definition FanPollTick :: "'s iodev \<Rightarrow> u64 option \<Rightarrow> var_read \<Rightarrow> ('s cooler, unit) state" where
  "FanPollTick D Bus Var = do {
     Base \<leftarrow> gets mRp1Base;
     if Base = 0 then
       (case Bus of
          None \<Rightarrow> State_Monad.return ()
        | Some PeripheralBase \<Rightarrow> do {
            modify (mRp1Base_update (\<lambda>_. PeripheralBase));
            on_dev (FanHwInit D PeripheralBase);
            FanRegulate D Var
          })
     else FanRegulate D Var
   }"

definition FanOnExitBootServices :: "'s iodev \<Rightarrow> ('s cooler, unit) state" where
  "FanOnExitBootServices D = do {
     modify (mTimer_update (\<lambda>_. False));
     c \<leftarrow> gets (\<lambda>c. c);
     if mRp1Base c \<noteq> 0 \<and> mLevel c < 1 then FanSetLevel D 1 else State_Monad.return ()
   }"

subsection \<open>The fan protocol\<close>

record fan_info =
  TemperatureMilliCelsius :: int
  TemperatureValid :: bool
  InfoLevel :: nat
  MaxLevel :: nat
  InfoDuty255 :: nat
  OverrideActive :: bool

text \<open>\<open>Info\<close> is the caller's structure, \<open>None\<close> for a null pointer; the result holds it filled in.\<close>

definition FanGetInfo ::
  "'s iodev \<Rightarrow> fan_info option \<Rightarrow> ('s cooler, efi_status \<times> fan_info option) state" where
  "FanGetInfo D Info =
     (case Info of
        None \<Rightarrow> State_Monad.return (EFI_INVALID_PARAMETER, None)
      | Some i \<Rightarrow> do {
          t \<leftarrow> on_dev (AvsReadMilliCelsius D);
          c \<leftarrow> gets (\<lambda>c. c);
          let i = i\<lparr>TemperatureValid := (t \<noteq> None),
                    TemperatureMilliCelsius := (case t of Some m \<Rightarrow> m | None \<Rightarrow> 0),
                    MaxLevel := FAN_LEVEL_MAX, OverrideActive := (mOverride c \<ge> 0)\<rparr>;
          if mRp1Base c = 0 then
            State_Monad.return (EFI_NOT_READY, Some (i\<lparr>InfoLevel := 0, InfoDuty255 := 0\<rparr>))
          else
            (let Level = (if mLevel c < 0 then 0 else nat (mLevel c)) in
             State_Monad.return (EFI_SUCCESS,
               Some (i\<lparr>InfoLevel := Level, InfoDuty255 := snd (mFanLevels ! Level)\<rparr>)))
        })"

definition FanSetOverride :: "'s iodev \<Rightarrow> u8 \<Rightarrow> ('s cooler, efi_status) state" where
  "FanSetOverride D Level =
     (if unat Level > FAN_LEVEL_MAX then State_Monad.return EFI_INVALID_PARAMETER
      else do {
        modify (mOverride_update (\<lambda>_. uint Level));
        c \<leftarrow> gets (\<lambda>c. c);
        (if mRp1Base c \<noteq> 0 \<and> mLevel c \<noteq> mOverride c then FanSetLevel D (nat (mOverride c))
         else State_Monad.return ());
        State_Monad.return EFI_SUCCESS
      })"

definition FanClearOverride :: "('s cooler, efi_status) state" where
  "FanClearOverride = do {
     modify (mOverride_update (\<lambda>_. - 1));
     State_Monad.return EFI_SUCCESS
   }"

text \<open>
  The entry point: the statuses that \<^verbatim>\<open>CreateEvent\<close>, \<^verbatim>\<open>CreateEventEx\<close> and \<^verbatim>\<open>SetTimer\<close> return are
  arguments; the result is the entry point's status and what is left behind: the timer
  event, the exit event, the armed timer and the attempt to install the protocol.
\<close>

record cooler_setup =
  PollEvent :: bool
  ExitEvent :: bool
  TimerArmed :: bool
  ProtocolTried :: bool

definition ActiveCoolerEntryPoint ::
  "efi_status \<Rightarrow> efi_status \<Rightarrow> efi_status \<Rightarrow> efi_status \<times> cooler_setup" where
  "ActiveCoolerEntryPoint CreateTimer CreateExit ArmTimer =
     (let e = \<lparr>PollEvent = False, ExitEvent = False, TimerArmed = False, ProtocolTried = False\<rparr> in
      if EFI_ERROR CreateTimer then (CreateTimer, e)
      else if EFI_ERROR CreateExit then (CreateExit, e\<lparr>PollEvent := False\<rparr>)
      else if EFI_ERROR ArmTimer then (ArmTimer, e\<lparr>PollEvent := False, ExitEvent := False\<rparr>)
      else (EFI_SUCCESS, e\<lparr>PollEvent := True, ExitEvent := True, TimerArmed := True, ProtocolTried := True\<rparr>))"

subsection \<open>What a tick does to the driver's state\<close>

definition duty_reg :: "u64 \<Rightarrow> u64" where
  "duty_reg B = B + RP1_PWM1_BASE + PWM_CHAN_DUTY FAN_PWM_CHANNEL"

definition global_reg :: "u64 \<Rightarrow> u64" where
  "global_reg B = B + RP1_PWM1_BASE + PWM_GLOBAL_CTRL"

definition commanded :: "(u64 \<Rightarrow> u32) \<Rightarrow> u64 \<Rightarrow> nat \<Rightarrow> u64 \<Rightarrow> u32" where
  "commanded d B L = d(duty_reg B := of_nat (DutyTicks L),
     global_reg B := d (global_reg B) OR PWM_GLOBAL_SET_UPDATE)"

lemma pwm_regs_distinct: "duty_reg B \<noteq> global_reg B"
  by (simp add: duty_reg_def global_reg_def PWM_CHAN_DUTY_def PWM_GLOBAL_CTRL_def FAN_PWM_CHANNEL_def)

lemma FanSetLevel_state:
  "run_state (FanSetLevel reg_dev L) c =
     ((), c\<lparr>mLevel := int L, dev := commanded (dev c) (mRp1Base c) L\<rparr>)"
  using pwm_regs_distinct [of "mRp1Base c"]
  by (simp add: FanSetLevel_def FanPwmLatch_def run_state_bind io_simps commanded_def
      duty_reg_def [symmetric] global_reg_def [symmetric])

text \<open>The specification of a tick: override, then fixed level, then the loop; a blind sensor
  never lowers the fan.\<close>

definition next_level :: "fan_policy \<Rightarrow> int \<Rightarrow> int \<Rightarrow> int option \<Rightarrow> int" where
  "next_level p ov l t =
     (if ov \<ge> 0 then ov
      else if Mode p = RPI_FAN_MODE_FIXED then uint (FixedLevel p)
      else case t of None \<Rightarrow> max l (int FAN_LEVEL_SAFE) | Some m \<Rightarrow> int (LoopTarget p l m))"

lemma nat_of_fixed: "int (unat x) = uint x"
  by simp

lemma set_if_needed:
  assumes "0 \<le> x"
  shows "run_state (if mLevel c \<noteq> x then FanSetLevel reg_dev (nat x) else State_Monad.return ()) c =
    ((), c\<lparr>mLevel := x, dev := (if x = mLevel c then dev c else commanded (dev c) (mRp1Base c) (nat x))\<rparr>)"
  using assms by (cases "x = mLevel c") (simp_all add: FanSetLevel_state run_state_return)

lemma FanRegulate_run:
  "run_state (FanRegulate reg_dev Var) c =
    (let c' = c\<lparr>mPolicy := ReadPolicy Var\<rparr>;
         x = next_level (ReadPolicy Var) (mOverride c) (mLevel c) (milli_celsius (dev c AVS_RO_TEMP_STATUS)) in
     run_state (if mLevel c' \<noteq> x then FanSetLevel reg_dev (nat x) else State_Monad.return ()) c')"
proof -
  let ?p = "ReadPolicy Var" and ?t = "milli_celsius (dev c AVS_RO_TEMP_STATUS)"
  have run: "run_state (FanRegulate reg_dev Var) c =
    run_state (if mOverride c \<ge> 0 then
       (if mLevel c \<noteq> mOverride c then FanSetLevel reg_dev (nat (mOverride c)) else State_Monad.return ())
     else if Mode ?p = RPI_FAN_MODE_FIXED then
       (if mLevel c \<noteq> uint (FixedLevel ?p) then FanSetLevel reg_dev (unat (FixedLevel ?p))
        else State_Monad.return ())
     else (case ?t of
          None \<Rightarrow> if mLevel c < int FAN_LEVEL_SAFE then FanSetLevel reg_dev FAN_LEVEL_SAFE
                  else State_Monad.return ()
        | Some MilliC \<Rightarrow>
            let Target = LoopTarget ?p (mLevel c) MilliC in
            if int Target \<noteq> mLevel c then FanSetLevel reg_dev Target else State_Monad.return ()))
      (c\<lparr>mPolicy := ?p\<rparr>)"
    by (simp add: FanRegulate_def run_state_bind run_state_return io_simps AvsReadMilliCelsius_def)
  show ?thesis
  proof (cases "mOverride c \<ge> 0 \<or> Mode ?p = RPI_FAN_MODE_FIXED")
    case True
    then show ?thesis by (auto simp: run Let_def next_level_def)
  next
    case False
    then show ?thesis
      by (cases ?t) (simp_all add: run Let_def next_level_def max_def FAN_LEVEL_SAFE_def)
  qed
qed

lemma next_level_nonneg: "0 \<le> next_level p ov l t"
  by (auto simp: next_level_def FAN_LEVEL_SAFE_def split: option.split)

lemma FanRegulate_state:
  "run_state (FanRegulate reg_dev Var) c =
    (let l = next_level (ReadPolicy Var) (mOverride c) (mLevel c) (milli_celsius (dev c AVS_RO_TEMP_STATUS)) in
     ((), c\<lparr>mPolicy := ReadPolicy Var, mLevel := l,
       dev := (if l = mLevel c then dev c else commanded (dev c) (mRp1Base c) (nat l))\<rparr>))"
  unfolding FanRegulate_run Let_def by (subst set_if_needed [OF next_level_nonneg]) simp

definition rp1_window :: "u64 \<Rightarrow> u64 \<Rightarrow> bool" where
  "rp1_window B a = (a - B < 0x400000)"

lemma HwInit_outside:
  assumes "\<not> rp1_window B a"
  shows "snd (run_state (FanHwInit reg_dev B) s) a = s a"
proof -
  have ne: "a \<noteq> B + k" if "k < 0x400000" for k
    using assms that by (auto simp: rp1_window_def)
  have n2: "a \<noteq> B + k + m" if "k + m < 0x400000" for k m
    using ne [OF that] by (simp add: add.assoc)
  have pads: "a \<noteq> PadReg B FAN_PWM_GPIO" "a \<noteq> CtrlReg B FAN_PWM_GPIO"
    unfolding PadReg_off CtrlReg_off FAN_PWM_GPIO_def by (rule ne, simp add: pad_off_def ctrl_off_def)+
  have regs: "a \<noteq> B + RP1_CLOCKS_MAIN_BASE + CLK_PWM1_DIV_INT"
    "a \<noteq> B + RP1_CLOCKS_MAIN_BASE + CLK_PWM1_DIV_FRAC" "a \<noteq> B + RP1_CLOCKS_MAIN_BASE + CLK_PWM1_CTRL"
    "a \<noteq> B + RP1_PWM1_BASE + PWM_CHAN_CTRL FAN_PWM_CHANNEL"
    "a \<noteq> B + RP1_PWM1_BASE + PWM_CHAN_RANGE FAN_PWM_CHANNEL"
    "a \<noteq> B + RP1_PWM1_BASE + PWM_CHAN_DUTY FAN_PWM_CHANNEL" "a \<noteq> B + RP1_PWM1_BASE + PWM_GLOBAL_CTRL"
    by (rule n2, simp add: RP1_CLOCKS_MAIN_BASE_def RP1_PWM1_BASE_def CLK_PWM1_DIV_INT_def
        CLK_PWM1_DIV_FRAC_def CLK_PWM1_CTRL_def PWM_CHAN_CTRL_def PWM_CHAN_RANGE_def
        PWM_CHAN_DUTY_def PWM_GLOBAL_CTRL_def FAN_PWM_CHANNEL_def)+
  show ?thesis
    unfolding FanHwInit_def Let_def FanPwmLatch_def Rp1GpioSetFunction_def Rp1GpioSetPull_def
    by (rule keepsD) (intro keeps_intro regs pads)
qed

lemma FanPollTick_state:
  "run_state (FanPollTick reg_dev Bus Var) c =
    (if mRp1Base c \<noteq> 0 then run_state (FanRegulate reg_dev Var) c
     else case Bus of None \<Rightarrow> ((), c)
       | Some B \<Rightarrow> run_state (FanRegulate reg_dev Var)
           (c\<lparr>mRp1Base := B, dev := snd (run_state (FanHwInit reg_dev B) (dev c))\<rparr>))"
  by (simp add: FanPollTick_def run_state_bind run_state_return io_simps case_prod_unfold
      split: option.split)

subsection \<open>The loop settles\<close>

definition policy_ok :: "fan_policy \<Rightarrow> bool" where
  "policy_ok p =
     (Mode p \<le> RPI_FAN_MODE_CUSTOM \<and> unat (FixedLevel p) \<le> FAN_LEVEL_MAX \<and>
      (Mode p = RPI_FAN_MODE_CUSTOM \<longrightarrow>
         FAN_TRIP_MIN_C \<le> Trip1C p \<and> Trip1C p < Trip2C p \<and> Trip2C p < Trip3C p \<and>
         Trip3C p < Trip4C p \<and> Trip4C p \<le> FAN_TRIP_MAX_C))"

lemma ReadPolicy_ok: "policy_ok (ReadPolicy r)"
  by (auto simp: policy_ok_def ReadPolicy_def default_policy_def RPI_FAN_MODE_AUTO_def
      RPI_FAN_MODE_CUSTOM_def FAN_LEVEL_SAFE_def FAN_LEVEL_MAX_def FAN_LEVEL_COUNT_def
      mFanLevels_def not_less not_le word_le_nat_alt word_less_nat_alt split: prod.split)

lemma levels_upt: "rev [1..<FAN_LEVEL_COUNT] = [4, 3, 2, 1]"
  by (simp add: FAN_LEVEL_COUNT_def mFanLevels_def upt_rec)

lemma Target0_if:
  "Target0 p m = (if m \<ge> TripMilliC p 4 then 4 else if m \<ge> TripMilliC p 3 then 3
     else if m \<ge> TripMilliC p 2 then 2 else if m \<ge> TripMilliC p 1 then 1 else 0)"
  unfolding Target0_def levels_upt by simp

lemma Target0_props:
  "Target0 p m \<le> 4" "Target0 p m > 0 \<Longrightarrow> m \<ge> TripMilliC p (Target0 p m)"
  "Target0 p m < j \<Longrightarrow> j \<le> 4 \<Longrightarrow> m < TripMilliC p j"
proof -
  show "Target0 p m \<le> 4" "Target0 p m > 0 \<Longrightarrow> m \<ge> TripMilliC p (Target0 p m)"
    by (simp_all add: Target0_if split: if_splits)
  show "Target0 p m < j \<Longrightarrow> j \<le> 4 \<Longrightarrow> m < TripMilliC p j"
  proof -
    assume j: "Target0 p m < j" "j \<le> 4"
    then consider "j = 1" | "j = 2" | "j = 3" | "j = 4" by linarith
    then show ?thesis using j(1) by cases (simp_all add: Target0_if not_le split: if_splits)
  qed
qed

definition loop :: "fan_policy \<Rightarrow> int \<Rightarrow> int \<Rightarrow> int" where
  "loop p m l = int (LoopTarget p l m)"

lemma loop_cases:
  "l \<le> int (Target0 p m) \<Longrightarrow> loop p m l = int (Target0 p m)"
  "l > int (Target0 p m) \<Longrightarrow> loop p m l =
     (if m \<ge> TripMilliC p (nat l) - FAN_HYST_MILLIC then l else l - 1)"
  by (auto simp: loop_def LoopTarget_def Let_def)

lemma loop_fix_iterate: "f l = l \<Longrightarrow> (f ^^ n) l = (l :: int)"
  by (induction n) auto

lemma loop_settles_from:
  "int (Target0 p m) \<le> l \<Longrightarrow> l \<le> int (Target0 p m) + int k \<Longrightarrow>
   loop p m ((loop p m ^^ k) l) = (loop p m ^^ k) l \<and> int (Target0 p m) \<le> (loop p m ^^ k) l \<and>
   (loop p m ^^ k) l \<le> l"
proof (induction k arbitrary: l)
  case 0
  then show ?case using loop_cases(1) [of l p m] by simp
next
  case (Suc k)
  show ?case
  proof (cases "loop p m l = l")
    case True
    then show ?thesis using loop_fix_iterate [of "loop p m" l] Suc.prems by (simp add: funpow_swap1)
  next
    case False
    then have "l > int (Target0 p m)" using Suc.prems loop_cases(1) [of l p m] by (cases "l = int (Target0 p m)") auto
    with False have "loop p m l = l - 1" by (auto simp: loop_cases(2) split: if_splits)
    moreover from this have "(loop p m ^^ Suc k) l = (loop p m ^^ k) (l - 1)"
      by (simp add: funpow_swap1)
    moreover have "int (Target0 p m) \<le> l - 1" "l - 1 \<le> int (Target0 p m) + int k"
      using Suc.prems \<open>l > int (Target0 p m)\<close> by auto
    ultimately show ?thesis using Suc.IH [of "l - 1"] by auto
  qed
qed

lemma loop_settles:
  fixes p m
  assumes "-1 \<le> l" and "l \<le> 4" and "4 \<le> n"
  defines "L \<equiv> (loop p m ^^ n) l"
  shows "loop p m L = L" and "0 \<le> L" and "L \<le> 4"
    and "0 < L \<longrightarrow> m \<ge> TripMilliC p (nat L) - FAN_HYST_MILLIC"
    and "\<forall>j. L < int j \<and> j \<le> 4 \<longrightarrow> m < TripMilliC p j"
proof -
  let ?T = "int (Target0 p m)"
  obtain k where n: "n = k + 4" using assms(3) by (metis le_add_diff_inverse2)
  let ?M = "(loop p m ^^ 4) l"
  have M: "loop p m ?M = ?M \<and> ?T \<le> ?M \<and> ?M \<le> 4"
  proof (cases "l \<le> ?T")
    case True
    then have "?M = (loop p m ^^ 3) ?T"
      using loop_cases(1) [of l p m] by (simp add: numeral_eq_Suc funpow_swap1)
    moreover have "loop p m ?T = ?T" by (simp add: loop_cases)
    ultimately have "?M = ?T" by (simp add: loop_fix_iterate)
    then show ?thesis using Target0_props(1) [of p m] by (simp add: loop_cases)
  next
    case False
    with assms(1,2) loop_settles_from [of p m l 4] show ?thesis by force
  qed
  then have L: "L = ?M" by (simp add: L_def n funpow_add loop_fix_iterate)
  with M show settled: "loop p m L = L" "0 \<le> L" "L \<le> 4" by auto
  show "0 < L \<longrightarrow> m \<ge> TripMilliC p (nat L) - FAN_HYST_MILLIC"
  proof (cases "L = ?T")
    case True
    then show ?thesis using Target0_props(2) [of p m] by (auto simp: FAN_HYST_MILLIC_def)
  next
    case False
    with M L settled(1) show ?thesis by (auto simp: loop_cases(2) split: if_splits)
  qed
  show "\<forall>j. L < int j \<and> j \<le> 4 \<longrightarrow> m < TripMilliC p j"
    using M L Target0_props(3) [of p m] by auto
qed

subsection \<open>The driver as a state machine\<close>

text \<open>
  The operations in any order, with the sensor register changing between them. \<open>B\<close> is the
  base that the bus driver publishes.
\<close>

type_synonym fan = "(u64 \<Rightarrow> u32) cooler"

definition fan_init :: "(u64 \<Rightarrow> u32) \<Rightarrow> fan" where
  "fan_init d = \<lparr>mRp1Base = 0, mLevel = - 1, mOverride = - 1,
     mPolicy = \<lparr>Mode = 0, FixedLevel = 0, Trip1C = 0, Trip2C = 0, Trip3C = 0, Trip4C = 0\<rparr>,
     mTimer = True, dev = d\<rparr>"

inductive cooler_step :: "u64 \<Rightarrow> fan \<Rightarrow> fan \<Rightarrow> bool" for B where
  Tick: "Bus \<in> {None, Some B} \<Longrightarrow> mTimer c \<Longrightarrow>
    cooler_step B c (snd (run_state (FanPollTick reg_dev Bus Var) c))"
| Override: "cooler_step B c (snd (run_state (FanSetOverride reg_dev L) c))"
| Clear: "cooler_step B c (snd (run_state FanClearOverride c))"
| Info: "cooler_step B c (snd (run_state (FanGetInfo reg_dev i) c))"
| Exit: "cooler_step B c (snd (run_state (FanOnExitBootServices reg_dev) c))"
| Sensor: "cooler_step B c (c\<lparr>dev := (dev c)(AVS_RO_TEMP_STATUS := v)\<rparr>)"

inductive cooler_reach :: "u64 \<Rightarrow> fan \<Rightarrow> bool" for B where
  Init: "cooler_reach B (fan_init d)"
| Step: "cooler_reach B c \<Longrightarrow> cooler_step B c c' \<Longrightarrow> cooler_reach B c'"

definition cooler_inv :: "u64 \<Rightarrow> fan \<Rightarrow> bool" where
  "cooler_inv B c =
     (-1 \<le> mLevel c \<and> mLevel c \<le> 4 \<and> -1 \<le> mOverride c \<and> mOverride c \<le> 4 \<and>
      mRp1Base c \<in> {0, B} \<and> (mRp1Base c = 0 \<longrightarrow> mLevel c = -1) \<and> policy_ok (mPolicy c) \<and>
      (0 \<le> mLevel c \<longrightarrow> dev c (duty_reg B) = of_nat (DutyTicks (nat (mLevel c)))))"

lemma LoopTarget_range: "-1 \<le> l \<Longrightarrow> l \<le> 4 \<Longrightarrow> LoopTarget p l m \<le> 4"
  using Target0_props(1) [of p m] by (auto simp: LoopTarget_def Let_def)

lemma next_level_range:
  assumes "policy_ok p" and "-1 \<le> l" and "l \<le> 4" and "ov \<le> 4"
  shows "0 \<le> next_level p ov l t" and "next_level p ov l t \<le> 4"
proof -
  have "unat (FixedLevel p) \<le> 4"
    using assms(1) by (simp add: policy_ok_def FAN_LEVEL_MAX_def FAN_LEVEL_COUNT_def mFanLevels_def)
  then have "int (unat (FixedLevel p)) \<le> 4" by linarith
  then have f: "uint (FixedLevel p) \<le> 4" by simp
  have m: "max l (int FAN_LEVEL_SAFE) \<le> 4" using assms(3) by (simp add: FAN_LEVEL_SAFE_def)
  have lt: "int (LoopTarget p l m) \<le> 4" for m using LoopTarget_range [OF assms(2,3), of p m] by simp
  show "next_level p ov l t \<le> 4"
    unfolding next_level_def using assms(4) f m lt by (simp split: option.split)
qed (rule next_level_nonneg)

lemma commanded_duty: "commanded d B L (duty_reg B) = of_nat (DutyTicks L)"
  using pwm_regs_distinct [of B] by (simp add: commanded_def)

lemma regulate_inv:
  assumes "cooler_inv B c" and "mRp1Base c = B" and "B \<noteq> 0"
  shows "cooler_inv B (snd (run_state (FanRegulate reg_dev Var) c))"
proof -
  define l where "l = next_level (ReadPolicy Var) (mOverride c) (mLevel c)
    (milli_celsius (dev c AVS_RO_TEMP_STATUS))"
  have "0 \<le> l" "l \<le> 4"
    using next_level_range [OF ReadPolicy_ok] assms(1) by (simp_all add: l_def cooler_inv_def)
  with assms ReadPolicy_ok [of Var] show ?thesis
    by (auto simp: FanRegulate_state Let_def l_def [symmetric] cooler_inv_def commanded_duty)
qed

lemma set_level_inv:
  assumes "cooler_inv B c" and "mRp1Base c = B" and "B \<noteq> 0" and "L \<le> 4"
  shows "cooler_inv B (snd (run_state (FanSetLevel reg_dev L) c))"
  using assms by (auto simp: FanSetLevel_state cooler_inv_def commanded_duty)

lemma tick_inv:
  assumes "cooler_inv B c" and "B \<noteq> 0" and "Bus \<in> {None, Some B}"
  shows "cooler_inv B (snd (run_state (FanPollTick reg_dev Bus Var) c))"
proof (cases "mRp1Base c = 0")
  case True
  show ?thesis
  proof (cases Bus)
    case None
    with True assms(1) show ?thesis by (simp add: FanPollTick_state)
  next
    case (Some B')
    with assms(3) have Bus: "Bus = Some B" by simp
    let ?c = "c\<lparr>mRp1Base := B, dev := snd (run_state (FanHwInit reg_dev B) (dev c))\<rparr>"
    have "cooler_inv B ?c" using assms(1,2) True by (simp add: cooler_inv_def)
    from regulate_inv [OF this _ assms(2)] show ?thesis using True by (simp add: FanPollTick_state Bus)
  qed
next
  case False
  then have "mRp1Base c = B" using assms(1) by (auto simp: cooler_inv_def)
  with False assms regulate_inv show ?thesis by (simp add: FanPollTick_state)
qed

lemma FanSetOverride_state:
  "run_state (FanSetOverride reg_dev L) c =
    (if unat L > FAN_LEVEL_MAX then (EFI_INVALID_PARAMETER, c)
     else (EFI_SUCCESS,
       if mRp1Base c \<noteq> 0 \<and> mLevel c \<noteq> uint L
       then snd (run_state (FanSetLevel reg_dev (nat (uint L))) (c\<lparr>mOverride := uint L\<rparr>))
       else c\<lparr>mOverride := uint L\<rparr>))"
  by (simp add: FanSetOverride_def run_state_bind run_state_return io_simps case_prod_unfold)

lemma level_max: "FAN_LEVEL_MAX = 4"
  by (simp add: FAN_LEVEL_MAX_def FAN_LEVEL_COUNT_def mFanLevels_def)

lemma override_inv:
  assumes "cooler_inv B c" and "B \<noteq> 0"
  shows "cooler_inv B (snd (run_state (FanSetOverride reg_dev L) c))"
proof (cases "unat L > FAN_LEVEL_MAX")
  case False
  then have "unat L \<le> 4" by (simp only: level_max not_less)
  then have "int (unat L) \<le> 4" by linarith
  then have "uint L \<le> 4" by simp
  with \<open>unat L \<le> 4\<close> have L: "uint L \<le> 4" "nat (uint L) \<le> 4" by simp_all
  have "-1 \<le> uint L" by (rule order_trans [of _ 0]) simp_all
  then have i: "cooler_inv B (c\<lparr>mOverride := uint L\<rparr>)"
    using assms(1) L by (simp add: cooler_inv_def)
  show ?thesis
  proof (cases "mRp1Base c \<noteq> 0 \<and> mLevel c \<noteq> uint L")
    case True
    then have "mRp1Base (c\<lparr>mOverride := uint L\<rparr>) = B" using assms(1) by (auto simp: cooler_inv_def)
    from set_level_inv [OF i this assms(2) L(2)] False True show ?thesis
      by (simp add: FanSetOverride_state)
  next
    case nset: False
    then show ?thesis using False i by (simp add: FanSetOverride_state if_not_P [OF nset])
  qed
qed (simp add: FanSetOverride_state assms)

lemma exit_inv:
  assumes "cooler_inv B c" and "B \<noteq> 0"
  shows "cooler_inv B (snd (run_state (FanOnExitBootServices reg_dev) c))"
proof -
  have i: "cooler_inv B (c\<lparr>mTimer := False\<rparr>)" using assms by (simp add: cooler_inv_def)
  then show ?thesis
    using set_level_inv [OF i, of 1]
    by (auto simp: FanOnExitBootServices_def run_state_bind run_state_return io_simps cooler_inv_def)
qed

lemma info_state: "snd (run_state (FanGetInfo reg_dev i) c) = c"
  by (auto simp: FanGetInfo_def run_state_bind run_state_return io_simps AvsReadMilliCelsius_def
      Let_def split: option.split)

lemma step_inv:
  assumes "B \<noteq> 0" and "\<not> rp1_window B AVS_RO_TEMP_STATUS" and "cooler_step B c c'" and "cooler_inv B c"
  shows "cooler_inv B c'"
  using assms(3)
proof (cases rule: cooler_step.cases)
  case (Sensor v)
  have "rp1_window B (duty_reg B)"
    by (simp add: rp1_window_def duty_reg_def RP1_PWM1_BASE_def PWM_CHAN_DUTY_def FAN_PWM_CHANNEL_def)
  with assms(2) have "duty_reg B \<noteq> AVS_RO_TEMP_STATUS" by auto
  with Sensor assms(4) show ?thesis by (simp add: cooler_inv_def)
next
  case Clear
  with assms(4) show ?thesis
    by (simp add: FanClearOverride_def run_state_bind run_state_return io_simps cooler_inv_def)
qed (use assms tick_inv override_inv exit_inv info_state in auto)

lemma reach_inv:
  assumes "B \<noteq> 0" and "\<not> rp1_window B AVS_RO_TEMP_STATUS" and "cooler_reach B c"
  shows "cooler_inv B c"
  using assms(3)
proof (induction rule: cooler_reach.induct)
  case (Init d)
  show ?case
    by (simp add: fan_init_def cooler_inv_def policy_ok_def RPI_FAN_MODE_CUSTOM_def)
next
  case (Step c c')
  then show ?case using step_inv [OF assms(1,2)] by blast
qed

lemma DutyTicks_bound: "L \<le> 4 \<Longrightarrow> DutyTicks L \<le> FAN_PWM_RANGE_TICKS"
proof -
  assume "L \<le> 4"
  then consider "L = 0" | "L = 1" | "L = 2" | "L = 3" | "L = 4" by linarith
  then show ?thesis
    by cases (simp_all add: DutyTicks_def mFanLevels_def FAN_PWM_RANGE_TICKS_def)
qed

subsection \<open>Properties of the loop\<close>

text \<open>C17: in every reachable state, whatever the order of ticks, protocol calls, sensor changes,
  policy variable contents and boot exit, the level is a level of the table, the duty
  register holds exactly that level's duty, which never exceeds the PWM range, nothing is
  commanded before the RP1 is there, and the policy in force is sane.\<close>

theorem fan_reachable_safe:
  assumes "B \<noteq> 0" and "\<not> rp1_window B AVS_RO_TEMP_STATUS" and "cooler_reach B c"
  shows "-1 \<le> mLevel c \<and> mLevel c \<le> int FAN_LEVEL_MAX \<and> mOverride c \<le> int FAN_LEVEL_MAX \<and>
    (mRp1Base c = 0 \<longrightarrow> mLevel c = -1) \<and> policy_ok (mPolicy c) \<and>
    (0 \<le> mLevel c \<longrightarrow> unat (dev c (duty_reg B)) = DutyTicks (nat (mLevel c)) \<and>
       unat (dev c (duty_reg B)) \<le> FAN_PWM_RANGE_TICKS)"
proof -
  have i: "cooler_inv B c" using assms by (rule reach_inv)
  have "mLevel c \<le> 4" using i by (simp add: cooler_inv_def)
  then have "nat (mLevel c) \<le> 4" by linarith
  then have "DutyTicks (nat (mLevel c)) < 2 ^ 32"
    using DutyTicks_bound [of "nat (mLevel c)"] by (simp add: FAN_PWM_RANGE_TICKS_def)
  then have "unat (of_nat (DutyTicks (nat (mLevel c))) :: u32) = DutyTicks (nat (mLevel c))"
    by (simp add: unat_of_nat)
  with i DutyTicks_bound [of "nat (mLevel c)"] show ?thesis
    by (auto simp: cooler_inv_def FAN_LEVEL_MAX_def FAN_LEVEL_COUNT_def mFanLevels_def)
qed

theorem fan_reachable_safe_witness:
  "\<exists>c. cooler_reach 0x1f00000000 c \<and> mLevel c = 4 \<and> unat (dev c (duty_reg 0x1f00000000)) = 2037"
proof -
  let ?B = "0x1f00000000 :: u64" and ?V = "(EFI_SUCCESS, 6, default_policy\<lparr>Mode := 1, FixedLevel := 4\<rparr>)"
  let ?c = "snd (run_state (FanPollTick reg_dev (Some ?B) ?V) (fan_init (\<lambda>_. 0)))"
  have r: "cooler_reach ?B ?c"
    by (rule Step [OF Init Tick]) (simp_all add: fan_init_def)
  have l: "mLevel ?c = 4"
    by (simp add: FanPollTick_state FanRegulate_state Let_def next_level_def fan_init_def ReadPolicy_def
        default_policy_def EFI_ERROR_def sizeof_policy_def RPI_FAN_MODE_CUSTOM_def RPI_FAN_MODE_FIXED_def
        level_max)
  have "\<not> rp1_window ?B AVS_RO_TEMP_STATUS"
    by (simp add: rp1_window_def AVS_RO_TEMP_STATUS_def)
  with fan_reachable_safe [of ?B ?c] r l have "unat (dev ?c (duty_reg ?B)) = DutyTicks 4" by simp
  then have "unat (dev ?c (duty_reg ?B)) = 2037" by (simp add: DutyTicks_def mFanLevels_def FAN_PWM_RANGE_TICKS_def)
  with r l show ?thesis by blast
qed

text \<open>one tick on a connected fan: a staged override is applied as it is; without one a FIXED
  policy pins its level; a blind sensor never leaves the fan below the safe level nor lowers
  it; and in the closed loop the level goes up at once to every level whose trip is reached,
  goes down by at most one, and goes down only once the temperature is more than the
  hysteresis below the current level's trip.\<close>

theorem fan_tick_level:
  fixes c :: fan and Var Bus
  assumes "cooler_inv B c" and "B \<noteq> 0" and "mRp1Base c = B"
  defines "c' \<equiv> snd (run_state (FanPollTick reg_dev Bus Var) c)" and "p \<equiv> ReadPolicy Var"
    and "t \<equiv> milli_celsius (dev c AVS_RO_TEMP_STATUS)"
  shows "(mOverride c \<ge> 0 \<longrightarrow> mLevel c' = mOverride c) \<and>
    (mOverride c < 0 \<and> Mode p = RPI_FAN_MODE_FIXED \<longrightarrow> mLevel c' = uint (FixedLevel p)) \<and>
    (mOverride c < 0 \<and> Mode p \<noteq> RPI_FAN_MODE_FIXED \<and> t = None \<longrightarrow>
       mLevel c' \<ge> int FAN_LEVEL_SAFE \<and> mLevel c' \<ge> mLevel c) \<and>
    (\<forall>m. mOverride c < 0 \<and> Mode p \<noteq> RPI_FAN_MODE_FIXED \<and> t = Some m \<longrightarrow>
       (\<forall>j \<le> FAN_LEVEL_MAX. 0 < j \<and> m \<ge> TripMilliC p j \<longrightarrow> int j \<le> mLevel c') \<and>
       mLevel c' \<ge> mLevel c - 1 \<and>
       (mLevel c' < mLevel c \<longrightarrow> m < TripMilliC p (nat (mLevel c)) - FAN_HYST_MILLIC))"
proof -
  have l: "mLevel c' = next_level p (mOverride c) (mLevel c) t"
    using assms(2,3) by (simp add: c'_def p_def t_def FanPollTick_state FanRegulate_state Let_def)
  have up: "int j \<le> int (LoopTarget p (mLevel c) m)" if "j \<le> 4" "m \<ge> TripMilliC p j" for j m
  proof -
    have "j \<le> Target0 p m" using Target0_props(3) [of p m j] that by (cases "j \<le> Target0 p m") auto
    then show ?thesis by (auto simp: LoopTarget_def Let_def)
  qed
  have down: "int (LoopTarget p (mLevel c) m) \<ge> mLevel c - 1 \<and>
      (int (LoopTarget p (mLevel c) m) < mLevel c \<longrightarrow> m < TripMilliC p (nat (mLevel c)) - FAN_HYST_MILLIC)"
    for m by (auto simp: LoopTarget_def Let_def)
  show ?thesis
    using up down by (auto simp: l next_level_def level_max max_def)
qed

theorem fan_tick_level_witness:
  "mLevel (snd (run_state (FanPollTick reg_dev None (EFI_NOT_FOUND, 0, default_policy))
     ((fan_init (\<lambda>_. 0))\<lparr>mRp1Base := 0x1f00000000, mOverride := 3\<rparr>))) = 3"
  using conjunct1 [OF fan_tick_level [of "0x1f00000000" "(fan_init (\<lambda>_. 0))\<lparr>mRp1Base := 0x1f00000000, mOverride := 3\<rparr>"
      None "(EFI_NOT_FOUND, 0, default_policy)"]]
  by (simp add: fan_init_def cooler_inv_def policy_ok_def RPI_FAN_MODE_CUSTOM_def)

lemma duty_in_window: "rp1_window B (duty_reg B)" "rp1_window B (global_reg B)"
  by (simp_all add: rp1_window_def duty_reg_def global_reg_def RP1_PWM1_BASE_def PWM_CHAN_DUTY_def
      PWM_GLOBAL_CTRL_def FAN_PWM_CHANNEL_def)

lemma ticks_level:
  fixes c :: fan and Var Bus
  assumes "mRp1Base c = B" and "B \<noteq> 0" and "\<not> rp1_window B AVS_RO_TEMP_STATUS" and "mOverride c < 0"
    and "Mode (ReadPolicy Var) \<noteq> RPI_FAN_MODE_FIXED"
    and "milli_celsius (dev c AVS_RO_TEMP_STATUS) = Some m"
  defines "c' \<equiv> \<lambda>n. ((\<lambda>c. snd (run_state (FanPollTick reg_dev Bus Var) c)) ^^ n) c"
  shows "mLevel (c' n) = (loop (ReadPolicy Var) m ^^ n) (mLevel c) \<and> mRp1Base (c' n) = B \<and>
    mOverride (c' n) = mOverride c \<and> dev (c' n) AVS_RO_TEMP_STATUS = dev c AVS_RO_TEMP_STATUS"
proof (induction n)
  case 0
  show ?case using assms(1) by (simp add: c'_def)
next
  case (Suc n)
  have "c' (Suc n) = snd (run_state (FanPollTick reg_dev Bus Var) (c' n))" by (simp add: c'_def)
  moreover have "commanded d B L AVS_RO_TEMP_STATUS = d AVS_RO_TEMP_STATUS" for d L
    using duty_in_window [of B] assms(3) by (auto simp: commanded_def)
  ultimately show ?case
    using Suc assms by (auto simp: FanPollTick_state FanRegulate_state Let_def next_level_def loop_def)
qed

text \<open>C19: under a constant temperature the closed loop settles within four ticks from any level,
  and the level it settles at is right for the temperature: no higher level's trip is
  reached, and the level's own trip is reached up to the hysteresis.\<close>

theorem fan_settles:
  fixes c :: fan and Var Bus n
  assumes "mRp1Base c = B" and "B \<noteq> 0" and "\<not> rp1_window B AVS_RO_TEMP_STATUS" and "mOverride c < 0"
    and "Mode (ReadPolicy Var) \<noteq> RPI_FAN_MODE_FIXED" and "-1 \<le> mLevel c" and "mLevel c \<le> 4"
    and "milli_celsius (dev c AVS_RO_TEMP_STATUS) = Some m" and "4 \<le> n"
  defines "c' \<equiv> \<lambda>n. ((\<lambda>c. snd (run_state (FanPollTick reg_dev Bus Var) c)) ^^ n) c"
  shows "mLevel (c' (Suc n)) = mLevel (c' n) \<and> 0 \<le> mLevel (c' n) \<and> mLevel (c' n) \<le> int FAN_LEVEL_MAX \<and>
    (0 < mLevel (c' n) \<longrightarrow> m \<ge> TripMilliC (ReadPolicy Var) (nat (mLevel (c' n))) - FAN_HYST_MILLIC) \<and>
    (\<forall>j \<le> FAN_LEVEL_MAX. mLevel (c' n) < int j \<longrightarrow> m < TripMilliC (ReadPolicy Var) j)"
proof -
  have l: "mLevel (c' k) = (loop (ReadPolicy Var) m ^^ k) (mLevel c)" for k
    using ticks_level [OF assms(1-5,8), where n = k and Bus = Bus] by (simp add: c'_def)
  from loop_settles [OF assms(6,7,9), of "ReadPolicy Var" m] show ?thesis
    by (simp add: l level_max)
qed

theorem fan_settles_witness:
  "mLevel (((\<lambda>c. snd (run_state (FanPollTick reg_dev None (EFI_NOT_FOUND, 0, default_policy)) c)) ^^ 4)
     ((fan_init (\<lambda>_. 0x10400))\<lparr>mRp1Base := 0x1f00000000\<rparr>)) = 4"
proof -
  let ?c = "(fan_init (\<lambda>_. 0x10400))\<lparr>mRp1Base := 0x1f00000000\<rparr>" and ?V = "(EFI_NOT_FOUND, 0, default_policy)"
  let ?L = "mLevel (((\<lambda>c. snd (run_state (FanPollTick reg_dev None ?V) c)) ^^ 4) ?c)"
  have pol: "ReadPolicy ?V = default_policy" by (simp add: ReadPolicy_def EFI_ERROR_def)
  have "\<not> rp1_window 0x1f00000000 AVS_RO_TEMP_STATUS"
    by (simp add: rp1_window_def AVS_RO_TEMP_STATUS_def)
  moreover have "milli_celsius (dev ?c AVS_RO_TEMP_STATUS) = Some 450000"
    by (simp add: fan_init_def milli_celsius_def AVS_TEMP_VALID_MASK_def AVS_TEMP_RAW_MASK_def)
  moreover have "Mode (ReadPolicy ?V) \<noteq> RPI_FAN_MODE_FIXED"
    unfolding pol by (simp add: default_policy_def RPI_FAN_MODE_AUTO_def RPI_FAN_MODE_FIXED_def)
  ultimately have s: "0 \<le> ?L" "?L \<le> 4" "\<forall>j \<le> 4. ?L < int j \<longrightarrow> 450000 < TripMilliC (ReadPolicy ?V) j"
    using fan_settles [of ?c "0x1f00000000" ?V 450000 4 None] by (simp_all add: fan_init_def level_max)
  have "TripMilliC (ReadPolicy ?V) 4 = 75000"
    unfolding pol by (simp add: TripMilliC_def default_policy_def RPI_FAN_MODE_AUTO_def RPI_FAN_MODE_CUSTOM_def
        mFanLevels_def)
  with spec [OF s(3), of 4] have "\<not> ?L < 4" by simp
  with s(2) show ?thesis by simp
qed

text \<open>the boot exit stops the poll and never hands over a parked fan: with the RP1 up the
  level is at least 1 afterwards, never lower than before, and the duty register holds at
  least the duty of level 1.\<close>

theorem fan_exit_floor:
  fixes c :: fan
  assumes "cooler_inv B c" and "B \<noteq> 0"
  defines "c' \<equiv> snd (run_state (FanOnExitBootServices reg_dev) c)"
  shows "\<not> mTimer c' \<and> (mRp1Base c \<noteq> 0 \<longrightarrow> 1 \<le> mLevel c' \<and> mLevel c \<le> mLevel c' \<and>
    unat (dev c' (duty_reg B)) \<ge> DutyTicks 1)"
proof -
  have i: "cooler_inv B c'" unfolding c'_def using assms(1,2) by (rule exit_inv)
  have t: "\<not> mTimer c'" and b: "mRp1Base c' = mRp1Base c"
    and l: "mRp1Base c \<noteq> 0 \<Longrightarrow> 1 \<le> mLevel c' \<and> mLevel c \<le> mLevel c'"
    by (auto simp: c'_def FanOnExitBootServices_def run_state_bind run_state_return io_simps
        FanSetLevel_state)
  have "unat (dev c' (duty_reg B)) \<ge> DutyTicks 1" if "mRp1Base c \<noteq> 0"
  proof -
    have "1 \<le> mLevel c'" "mLevel c' \<le> 4" using l [OF that] i by (simp_all add: cooler_inv_def)
    then consider "mLevel c' = 1" | "mLevel c' = 2" | "mLevel c' = 3" | "mLevel c' = 4" by linarith
    moreover have "dev c' (duty_reg B) = of_nat (DutyTicks (nat (mLevel c')))"
      using i \<open>1 \<le> mLevel c'\<close> by (simp add: cooler_inv_def)
    ultimately show ?thesis
      by cases (simp_all add: DutyTicks_def mFanLevels_def FAN_PWM_RANGE_TICKS_def)
  qed
  with t l show ?thesis by blast
qed

theorem fan_exit_floor_witness:
  "1 \<le> mLevel (snd (run_state (FanOnExitBootServices reg_dev)
     ((fan_init (\<lambda>_. 0))\<lparr>mRp1Base := 0x1f00000000\<rparr>)))"
  using fan_exit_floor [of "0x1f00000000" "(fan_init (\<lambda>_. 0))\<lparr>mRp1Base := 0x1f00000000\<rparr>"]
  by (simp add: fan_init_def cooler_inv_def policy_ok_def RPI_FAN_MODE_CUSTOM_def)

end
