(* ===== verification/Gem_Hw.thy ===== *)
theory Gem_Hw
  imports Rpi5_Prelude
begin

section \<open>The Ethernet MAC (GemHw.c)\<close>

text \<open>
  The register programs of the Cadence GEM: reset, receive filters, station address, link speed
  and the Clause 22 management interface. Register addresses are \<open>GemBase\<close> plus the offsets of
  \<^verbatim>\<open>GemHw.h\<close>; the parts of \<^verbatim>\<open>GemHw.c\<close> that use the driver's private data and the DMA rings are in
  the theory \<^verbatim>\<open>Gem_Ring\<close>.
\<close>

subsection \<open>Registers\<close>

definition GEM_NET_CTRL :: u64 where "GEM_NET_CTRL = 0x000"
definition GEM_NET_CTRL_START_TX :: u32 where "GEM_NET_CTRL_START_TX = 0x200"
definition GEM_NET_CTRL_CLR_STAT_REGS :: u32 where "GEM_NET_CTRL_CLR_STAT_REGS = 0x20"
definition GEM_NET_CTRL_MGMT_PORT_EN :: u32 where "GEM_NET_CTRL_MGMT_PORT_EN = 0x10"
definition GEM_NET_CTRL_TX_EN :: u32 where "GEM_NET_CTRL_TX_EN = 0x8"
definition GEM_NET_CTRL_RX_EN :: u32 where "GEM_NET_CTRL_RX_EN = 0x4"
definition GEM_NET_CFG :: u64 where "GEM_NET_CFG = 0x004"
definition GEM_NET_CFG_DBUS_WIDTH_32 :: u32 where "GEM_NET_CFG_DBUS_WIDTH_32 = push_bit 21 0"
definition GEM_NET_CFG_DBUS_WIDTH_64 :: u32 where "GEM_NET_CFG_DBUS_WIDTH_64 = push_bit 21 1"
definition GEM_NET_CFG_DBUS_WIDTH_128 :: u32 where "GEM_NET_CFG_DBUS_WIDTH_128 = push_bit 21 2"
definition GEM_NET_CFG_MDC_CLK_DIV_96 :: u32 where "GEM_NET_CFG_MDC_CLK_DIV_96 = push_bit 18 5"
definition GEM_NET_CFG_FCS_REMOVE :: u32 where "GEM_NET_CFG_FCS_REMOVE = 0x20000"
definition GEM_NET_CFG_PAUSE_EN :: u32 where "GEM_NET_CFG_PAUSE_EN = 0x2000"
definition GEM_NET_CFG_GIGE_EN :: u32 where "GEM_NET_CFG_GIGE_EN = 0x400"
definition GEM_NET_CFG_1536RXEN :: u32 where "GEM_NET_CFG_1536RXEN = 0x100"
definition GEM_NET_CFG_UNI_HASH_EN :: u32 where "GEM_NET_CFG_UNI_HASH_EN = 0x80"
definition GEM_NET_CFG_MULTI_HASH_EN :: u32 where "GEM_NET_CFG_MULTI_HASH_EN = 0x40"
definition GEM_NET_CFG_NO_BCAST :: u32 where "GEM_NET_CFG_NO_BCAST = 0x20"
definition GEM_NET_CFG_COPY_ALL :: u32 where "GEM_NET_CFG_COPY_ALL = 0x10"
definition GEM_NET_CFG_FULL_DUPLEX :: u32 where "GEM_NET_CFG_FULL_DUPLEX = 0x2"
definition GEM_NET_CFG_SPEED100 :: u32 where "GEM_NET_CFG_SPEED100 = 0x1"
definition GEM_NET_STAT :: u64 where "GEM_NET_STAT = 0x008"
definition GEM_NET_STAT_PHY_MGMT_IDLE :: u32 where "GEM_NET_STAT_PHY_MGMT_IDLE = 0x4"
definition GEM_USER_IO :: u64 where "GEM_USER_IO = 0x00C"
definition GEM_USER_IO_RGMII :: u32 where "GEM_USER_IO_RGMII = 0x2"
definition GEM_DMA_CFG :: u64 where "GEM_DMA_CFG = 0x010"
definition GEM_DMA_CFG_ADDR_BUS_64 :: u32 where "GEM_DMA_CFG_ADDR_BUS_64 = 0x40000000"
definition GEM_DMA_CFG_DISC_WHEN_NO_AHB :: u32 where "GEM_DMA_CFG_DISC_WHEN_NO_AHB = 0x1000000"
definition GEM_DMA_CFG_RX_BUF_SIZE :: "nat \<Rightarrow> u32" where
  "GEM_DMA_CFG_RX_BUF_SIZE sz = push_bit 16 (of_nat ((sz + 63) div 64))"
definition GEM_DMA_CFG_TX_PKTBUF_FULL :: u32 where "GEM_DMA_CFG_TX_PKTBUF_FULL = 0x400"
definition GEM_DMA_CFG_RX_PKTBUF_FULL :: u32 where "GEM_DMA_CFG_RX_PKTBUF_FULL = push_bit 8 3"
definition GEM_DMA_CFG_AHB_BURST_LEN_16 :: u32 where "GEM_DMA_CFG_AHB_BURST_LEN_16 = 16"
definition GEM_TX_STAT :: u64 where "GEM_TX_STAT = 0x014"
definition GEM_TX_STAT_UNDERRUN :: u32 where "GEM_TX_STAT_UNDERRUN = 0x40"
definition GEM_TX_STAT_COMPLETE :: u32 where "GEM_TX_STAT_COMPLETE = 0x20"
definition GEM_TX_STAT_USED_BIT_READ :: u32 where "GEM_TX_STAT_USED_BIT_READ = 0x1"
definition GEM_TX_STAT_ALL :: u32 where "GEM_TX_STAT_ALL = 0x1FF"
definition GEM_RX_QBAR :: u64 where "GEM_RX_QBAR = 0x018"
definition GEM_TX_QBAR :: u64 where "GEM_TX_QBAR = 0x01C"
definition GEM_RX_STAT :: u64 where "GEM_RX_STAT = 0x020"
definition GEM_RX_STAT_OVERRUN :: u32 where "GEM_RX_STAT_OVERRUN = 0x4"
definition GEM_RX_STAT_FRAME_RECD :: u32 where "GEM_RX_STAT_FRAME_RECD = 0x2"
definition GEM_RX_STAT_BUF_NOT_AVAIL :: u32 where "GEM_RX_STAT_BUF_NOT_AVAIL = 0x1"
definition GEM_RX_STAT_ALL :: u32 where "GEM_RX_STAT_ALL = 0xF"
definition GEM_INTR_DIS :: u64 where "GEM_INTR_DIS = 0x02C"
definition GEM_INTR_ALL :: u32 where "GEM_INTR_ALL = 0x7FFFEFF"
definition GEM_PHY_MAINT :: u64 where "GEM_PHY_MAINT = 0x034"
definition GEM_PHY_MAINT_CLAUSE_22 :: u32 where "GEM_PHY_MAINT_CLAUSE_22 = 0x40000000"
definition GEM_PHY_MAINT_OP_READ :: u32 where "GEM_PHY_MAINT_OP_READ = push_bit 28 2"
definition GEM_PHY_MAINT_OP_WRITE :: u32 where "GEM_PHY_MAINT_OP_WRITE = push_bit 28 1"
definition GEM_PHY_MAINT_PHY_ADDR_SHIFT :: nat where "GEM_PHY_MAINT_PHY_ADDR_SHIFT = 23"
definition GEM_PHY_MAINT_REG_ADDR_SHIFT :: nat where "GEM_PHY_MAINT_REG_ADDR_SHIFT = 18"
definition GEM_PHY_MAINT_MUST_10 :: u32 where "GEM_PHY_MAINT_MUST_10 = push_bit 16 2"
definition GEM_PHY_MAINT_DATA_MASK :: u32 where "GEM_PHY_MAINT_DATA_MASK = 0xFFFF"
definition GEM_AMP :: u64 where "GEM_AMP = 0x054"
definition GEM_AMP_AR2R_MAX_PIPE_MASK :: u32 where "GEM_AMP_AR2R_MAX_PIPE_MASK = 0xFF"
definition GEM_AMP_AW2W_MAX_PIPE_MASK :: u32 where "GEM_AMP_AW2W_MAX_PIPE_MASK = push_bit 8 0xFF"
definition GEM_AMP_AR2R_MAX_PIPE_SHIFT :: nat where "GEM_AMP_AR2R_MAX_PIPE_SHIFT = 0"
definition GEM_AMP_AW2W_MAX_PIPE_SHIFT :: nat where "GEM_AMP_AW2W_MAX_PIPE_SHIFT = 8"
definition GEM_AMP_AW2B_FILL :: u32 where "GEM_AMP_AW2B_FILL = 0x10000"
definition GEM_HASH_BOT :: u64 where "GEM_HASH_BOT = 0x080"
definition GEM_HASH_TOP :: u64 where "GEM_HASH_TOP = 0x084"
definition GEM_SPEC_ADDR_LOW :: "nat \<Rightarrow> u64" where "GEM_SPEC_ADDR_LOW n = of_nat (0x088 + n * 8)"
definition GEM_SPEC_ADDR_HI :: "nat \<Rightarrow> u64" where "GEM_SPEC_ADDR_HI n = of_nat (0x08C + n * 8)"
definition GEM_DESIGN_CFG1 :: u64 where "GEM_DESIGN_CFG1 = 0x280"
definition GEM_DESIGN_CFG1_DBW_MASK :: u32 where "GEM_DESIGN_CFG1_DBW_MASK = push_bit 25 7"
definition GEM_DESIGN_CFG1_DBW_64 :: u32 where "GEM_DESIGN_CFG1_DBW_64 = push_bit 25 2"
definition GEM_DESIGN_CFG1_DBW_128 :: u32 where "GEM_DESIGN_CFG1_DBW_128 = push_bit 25 4"
definition GEM_DESIGN_CFG6 :: u64 where "GEM_DESIGN_CFG6 = 0x294"
definition GEM_DESIGN_CFG6_PRIO_Q_MASK :: u32 where "GEM_DESIGN_CFG6_PRIO_Q_MASK = 0xFFFE"
definition GEM_TX_QN_BAR :: "nat \<Rightarrow> u64" where "GEM_TX_QN_BAR n = of_nat (0x440 + (n - 1) * 4)"
definition GEM_RX_QN_BAR :: "nat \<Rightarrow> u64" where "GEM_RX_QN_BAR n = of_nat (0x480 + (n - 1) * 4)"
definition GEM_TX_QBAR_HI :: u64 where "GEM_TX_QBAR_HI = 0x4C8"
definition GEM_RX_QBAR_HI :: u64 where "GEM_RX_QBAR_HI = 0x4D4"

definition GEM_RXDESC_ADDR_OWN :: u32 where "GEM_RXDESC_ADDR_OWN = 0x1"
definition GEM_RXDESC_ADDR_WRAP :: u32 where "GEM_RXDESC_ADDR_WRAP = 0x2"
definition GEM_RXDESC_CTRL_EOF :: u32 where "GEM_RXDESC_CTRL_EOF = 0x8000"
definition GEM_RXDESC_CTRL_SOF :: u32 where "GEM_RXDESC_CTRL_SOF = 0x4000"
definition GEM_RXDESC_CTRL_LENGTH_MASK :: u32 where "GEM_RXDESC_CTRL_LENGTH_MASK = 0x1FFF"
definition GEM_TXDESC_CTRL_USED :: u32 where "GEM_TXDESC_CTRL_USED = 0x80000000"
definition GEM_TXDESC_CTRL_WRAP :: u32 where "GEM_TXDESC_CTRL_WRAP = 0x40000000"
definition GEM_TXDESC_CTRL_LAST_BUF :: u32 where "GEM_TXDESC_CTRL_LAST_BUF = 0x8000"
definition GEM_TXDESC_CTRL_LENGTH_MASK :: u32 where "GEM_TXDESC_CTRL_LENGTH_MASK = 0x3FFF"

definition GEM_ETHER_ADDR_LEN :: nat where "GEM_ETHER_ADDR_LEN = 6"
definition GEM_ETHER_HEADER_SIZE :: nat where "GEM_ETHER_HEADER_SIZE = 14"
definition GEM_MAX_FRAME_SIZE :: nat where "GEM_MAX_FRAME_SIZE = 1536"
definition GEM_RX_DESC_COUNT :: nat where "GEM_RX_DESC_COUNT = 16"
definition GEM_TX_DESC_COUNT :: nat where "GEM_TX_DESC_COUNT = 8"
definition GEM_RX_BUFFER_SIZE :: nat where "GEM_RX_BUFFER_SIZE = 2048"
definition GEM_TX_BUFFER_SIZE :: nat where "GEM_TX_BUFFER_SIZE = 2048"
definition GEM_MDIO_TIMEOUT_TRIES :: nat where "GEM_MDIO_TIMEOUT_TRIES = 400"

definition EFI_SIMPLE_NETWORK_RECEIVE_UNICAST :: u32 where
  "EFI_SIMPLE_NETWORK_RECEIVE_UNICAST = 0x01"
definition EFI_SIMPLE_NETWORK_RECEIVE_MULTICAST :: u32 where
  "EFI_SIMPLE_NETWORK_RECEIVE_MULTICAST = 0x02"
definition EFI_SIMPLE_NETWORK_RECEIVE_BROADCAST :: u32 where
  "EFI_SIMPLE_NETWORK_RECEIVE_BROADCAST = 0x04"
definition EFI_SIMPLE_NETWORK_RECEIVE_PROMISCUOUS :: u32 where
  "EFI_SIMPLE_NETWORK_RECEIVE_PROMISCUOUS = 0x08"
definition EFI_SIMPLE_NETWORK_RECEIVE_PROMISCUOUS_MULTICAST :: u32 where
  "EFI_SIMPLE_NETWORK_RECEIVE_PROMISCUOUS_MULTICAST = 0x10"

subsection \<open>MAC registers\<close>

definition GemRead32 :: "'s iodev \<Rightarrow> u64 \<Rightarrow> u64 \<Rightarrow> ('s, u32) state" where
  "GemRead32 D GemBase Offset = MmioRead32 D (GemBase + Offset)"

definition GemWrite32 :: "'s iodev \<Rightarrow> u64 \<Rightarrow> u64 \<Rightarrow> u32 \<Rightarrow> ('s, unit) state" where
  "GemWrite32 D GemBase Offset Value = MmioWrite32 D (GemBase + Offset) Value"

definition bus_width :: "u32 \<Rightarrow> u32" where
  "bus_width cfg1 =
     (let w = cfg1 AND GEM_DESIGN_CFG1_DBW_MASK in
      if w = GEM_DESIGN_CFG1_DBW_64 then GEM_NET_CFG_DBUS_WIDTH_64
      else if w = GEM_DESIGN_CFG1_DBW_128 then GEM_NET_CFG_DBUS_WIDTH_128
      else GEM_NET_CFG_DBUS_WIDTH_32)"

definition GemNetCfgBase :: "'s iodev \<Rightarrow> u64 \<Rightarrow> ('s, u32) state" where
  "GemNetCfgBase D B = do {
     cfg1 \<leftarrow> GemRead32 D B GEM_DESIGN_CFG1;
     State_Monad.return (bus_width cfg1 OR GEM_NET_CFG_MDC_CLK_DIV_96)
   }"

definition GemMacReset :: "'s iodev \<Rightarrow> u64 \<Rightarrow> ('s, unit) state" where
  "GemMacReset D B = do {
     GemWrite32 D B GEM_NET_CTRL 0;
     v \<leftarrow> GemNetCfgBase D B;
     GemWrite32 D B GEM_NET_CFG v;
     GemWrite32 D B GEM_USER_IO GEM_USER_IO_RGMII;
     GemWrite32 D B GEM_NET_CTRL GEM_NET_CTRL_CLR_STAT_REGS;
     GemWrite32 D B GEM_TX_STAT GEM_TX_STAT_ALL;
     GemWrite32 D B GEM_RX_STAT GEM_RX_STAT_ALL;
     GemWrite32 D B GEM_INTR_DIS GEM_INTR_ALL;
     GemWrite32 D B GEM_HASH_BOT 0;
     GemWrite32 D B GEM_HASH_TOP 0;
     GemWrite32 D B GEM_TX_QBAR 0;
     GemWrite32 D B GEM_RX_QBAR 0;
     GemWrite32 D B GEM_TX_QBAR_HI 0;
     GemWrite32 D B GEM_RX_QBAR_HI 0;
     GemWrite32 D B GEM_NET_CTRL GEM_NET_CTRL_MGMT_PORT_EN
   }"

definition GemMacEnableTxRx :: "'s iodev \<Rightarrow> u64 \<Rightarrow> ('s, unit) state" where
  "GemMacEnableTxRx D B = MmioOr32 D (B + GEM_NET_CTRL) (GEM_NET_CTRL_RX_EN OR GEM_NET_CTRL_TX_EN)"

definition GemMacDisableTxRx :: "'s iodev \<Rightarrow> u64 \<Rightarrow> ('s, unit) state" where
  "GemMacDisableTxRx D B =
     MmioAnd32 D (B + GEM_NET_CTRL) (NOT (GEM_NET_CTRL_RX_EN OR GEM_NET_CTRL_TX_EN))"

text \<open>A MAC address is the list of its bytes, \<^verbatim>\<open>Addr[0]\<close> first.\<close>

definition mac_low :: "u8 list \<Rightarrow> u32" where
  "mac_low a = push_bit 24 (ucast (a ! 3)) OR push_bit 16 (ucast (a ! 2)) OR
     push_bit 8 (ucast (a ! 1)) OR ucast (a ! 0)"

definition mac_high :: "u8 list \<Rightarrow> u32" where
  "mac_high a = push_bit 8 (ucast (a ! 5)) OR ucast (a ! 4)"

definition GemSetMacAddress :: "'s iodev \<Rightarrow> u64 \<Rightarrow> u8 list \<Rightarrow> ('s, unit) state" where
  "GemSetMacAddress D B MacAddress = do {
     GemWrite32 D B (GEM_SPEC_ADDR_LOW 0) (mac_low MacAddress);
     GemWrite32 D B (GEM_SPEC_ADDR_HI 0) (mac_high MacAddress)
   }"

definition filter_cfg :: "u32 \<Rightarrow> u32 \<times> u32" where
  "filter_cfg Filters =
     (if Filters AND EFI_SIMPLE_NETWORK_RECEIVE_PROMISCUOUS \<noteq> 0 then (GEM_NET_CFG_COPY_ALL, 0)
      else
        (let cfg = (if Filters AND EFI_SIMPLE_NETWORK_RECEIVE_BROADCAST = 0
                    then GEM_NET_CFG_NO_BCAST else 0) in
         if Filters AND (EFI_SIMPLE_NETWORK_RECEIVE_MULTICAST OR
                         EFI_SIMPLE_NETWORK_RECEIVE_PROMISCUOUS_MULTICAST) \<noteq> 0
         then (cfg OR GEM_NET_CFG_MULTI_HASH_EN, 0xFFFFFFFF) else (cfg, 0)))"

definition GemSetReceiveFilters :: "'s iodev \<Rightarrow> u64 \<Rightarrow> u8 list \<Rightarrow> u32 \<Rightarrow> ('s, unit) state" where
  "GemSetReceiveFilters D B CurrentAddress Filters = do {
     NetCfg \<leftarrow> GemRead32 D B GEM_NET_CFG;
     let NetCfg = NetCfg AND NOT (GEM_NET_CFG_COPY_ALL OR GEM_NET_CFG_NO_BCAST OR
                                  GEM_NET_CFG_MULTI_HASH_EN OR GEM_NET_CFG_UNI_HASH_EN);
     let Hash = snd (filter_cfg Filters);
     GemWrite32 D B GEM_HASH_BOT Hash;
     GemWrite32 D B GEM_HASH_TOP Hash;
     GemWrite32 D B GEM_NET_CFG (NetCfg OR fst (filter_cfg Filters));
     (if Filters AND (EFI_SIMPLE_NETWORK_RECEIVE_UNICAST OR
                      EFI_SIMPLE_NETWORK_RECEIVE_PROMISCUOUS) \<noteq> 0
      then GemSetMacAddress D B CurrentAddress
      else do {
        GemWrite32 D B (GEM_SPEC_ADDR_LOW 0) 0;
        GemWrite32 D B (GEM_SPEC_ADDR_HI 0) 0
      })
   }"

definition GemUpdateLinkSpeed :: "'s iodev \<Rightarrow> u64 \<Rightarrow> nat \<Rightarrow> bool \<Rightarrow> ('s, unit) state" where
  "GemUpdateLinkSpeed D B SpeedMbps FullDuplex = do {
     NetCfg \<leftarrow> GemRead32 D B GEM_NET_CFG;
     let NetCfg = NetCfg AND NOT (GEM_NET_CFG_SPEED100 OR GEM_NET_CFG_GIGE_EN OR
                                  GEM_NET_CFG_FULL_DUPLEX);
     let NetCfg = (if SpeedMbps = 1000 then NetCfg OR GEM_NET_CFG_GIGE_EN
                   else if SpeedMbps = 100 then NetCfg OR GEM_NET_CFG_SPEED100 else NetCfg);
     let NetCfg = (if FullDuplex then NetCfg OR GEM_NET_CFG_FULL_DUPLEX else NetCfg);
     GemWrite32 D B GEM_NET_CFG NetCfg
   }"

definition GemConfigRegs :: "'s iodev \<Rightarrow> u64 \<Rightarrow> ('s, unit) state" where
  "GemConfigRegs D B = do {
     Amp \<leftarrow> GemRead32 D B GEM_AMP;
     GemWrite32 D B GEM_AMP
       ((Amp AND NOT (GEM_AMP_AR2R_MAX_PIPE_MASK OR GEM_AMP_AW2W_MAX_PIPE_MASK)) OR
        (push_bit GEM_AMP_AR2R_MAX_PIPE_SHIFT 8 OR push_bit GEM_AMP_AW2W_MAX_PIPE_SHIFT 8 OR
         GEM_AMP_AW2B_FILL));
     NetCfg \<leftarrow> GemNetCfgBase D B;
     GemWrite32 D B GEM_NET_CFG
       (NetCfg OR GEM_NET_CFG_FCS_REMOVE OR GEM_NET_CFG_PAUSE_EN OR GEM_NET_CFG_1536RXEN OR
        GEM_NET_CFG_FULL_DUPLEX OR GEM_NET_CFG_GIGE_EN);
     GemWrite32 D B GEM_DMA_CFG
       (GEM_DMA_CFG_ADDR_BUS_64 OR GEM_DMA_CFG_DISC_WHEN_NO_AHB OR
        GEM_DMA_CFG_RX_BUF_SIZE GEM_RX_BUFFER_SIZE OR GEM_DMA_CFG_RX_PKTBUF_FULL OR
        GEM_DMA_CFG_TX_PKTBUF_FULL OR GEM_DMA_CFG_AHB_BURST_LEN_16)
   }"

subsection \<open>MDIO\<close>

text \<open>The polling loops: \<open>n\<close> is what is left of the tries, \<open>None\<close> the timeout.\<close>

fun MdioWait :: "'s iodev \<Rightarrow> u64 \<Rightarrow> nat \<Rightarrow> ('s, bool) state" where
  "MdioWait D B 0 = State_Monad.return False"
| "MdioWait D B (Suc n) = do {
     st \<leftarrow> GemRead32 D B GEM_NET_STAT;
     (if st AND GEM_NET_STAT_PHY_MGMT_IDLE \<noteq> 0 then State_Monad.return True
      else do { Stall D 5; MdioWait D B n })
   }"

definition mdio_addr :: "u8 \<Rightarrow> u8 \<Rightarrow> u32" where
  "mdio_addr PhyAddr Reg =
     push_bit GEM_PHY_MAINT_PHY_ADDR_SHIFT (ucast (PhyAddr AND 0x1F)) OR
     push_bit GEM_PHY_MAINT_REG_ADDR_SHIFT (ucast (Reg AND 0x1F))"

definition GemMdioRead :: "'s iodev \<Rightarrow> u64 \<Rightarrow> u8 \<Rightarrow> u8 \<Rightarrow> ('s, efi_status + u16) state" where
  "GemMdioRead D B PhyAddr Reg = do {
     MmioOr32 D (B + GEM_NET_CTRL) GEM_NET_CTRL_MGMT_PORT_EN;
     GemWrite32 D B GEM_PHY_MAINT
       (GEM_PHY_MAINT_CLAUSE_22 OR GEM_PHY_MAINT_MUST_10 OR GEM_PHY_MAINT_OP_READ OR
        mdio_addr PhyAddr Reg);
     idle \<leftarrow> MdioWait D B GEM_MDIO_TIMEOUT_TRIES;
     (if idle then do {
        v \<leftarrow> GemRead32 D B GEM_PHY_MAINT;
        State_Monad.return (Inr (ucast (v AND GEM_PHY_MAINT_DATA_MASK)))
      } else State_Monad.return (Inl EFI_TIMEOUT))
   }"

definition GemMdioWrite :: "'s iodev \<Rightarrow> u64 \<Rightarrow> u8 \<Rightarrow> u8 \<Rightarrow> u16 \<Rightarrow> ('s, efi_status) state" where
  "GemMdioWrite D B PhyAddr Reg Data = do {
     MmioOr32 D (B + GEM_NET_CTRL) GEM_NET_CTRL_MGMT_PORT_EN;
     GemWrite32 D B GEM_PHY_MAINT
       (GEM_PHY_MAINT_CLAUSE_22 OR GEM_PHY_MAINT_MUST_10 OR GEM_PHY_MAINT_OP_WRITE OR
        mdio_addr PhyAddr Reg OR ucast Data);
     idle \<leftarrow> MdioWait D B GEM_MDIO_TIMEOUT_TRIES;
     State_Monad.return (if idle then EFI_SUCCESS else EFI_TIMEOUT)
   }"

subsection \<open>Filters and link speed on the register bank\<close>

lemmas gem_regs = GEM_NET_CFG_def GEM_HASH_BOT_def GEM_HASH_TOP_def GEM_SPEC_ADDR_LOW_def
  GEM_SPEC_ADDR_HI_def

lemma gem_regs_distinct:
  fixes B :: u64
  shows "distinct [B + GEM_HASH_BOT, B + GEM_HASH_TOP, B + GEM_NET_CFG, B + GEM_SPEC_ADDR_LOW 0,
    B + GEM_SPEC_ADDR_HI 0]"
  by (simp add: gem_regs)

definition speed_cfg :: "nat \<Rightarrow> bool \<Rightarrow> u32 \<Rightarrow> u32" where
  "speed_cfg Mbps fd c =
     (c AND NOT (GEM_NET_CFG_SPEED100 OR GEM_NET_CFG_GIGE_EN OR GEM_NET_CFG_FULL_DUPLEX)) OR
     (if Mbps = 1000 then GEM_NET_CFG_GIGE_EN else if Mbps = 100 then GEM_NET_CFG_SPEED100 else 0) OR
     (if fd then GEM_NET_CFG_FULL_DUPLEX else 0)"

lemma GemUpdateLinkSpeed_state:
  "run_state (GemUpdateLinkSpeed reg_dev B Mbps fd) s =
     ((), s(B + GEM_NET_CFG := speed_cfg Mbps fd (s (B + GEM_NET_CFG))))"
  by (simp add: GemUpdateLinkSpeed_def GemRead32_def GemWrite32_def run_state_bind io_simps Let_def
      speed_cfg_def or.assoc)

definition filter_mask :: u32 where
  "filter_mask = GEM_NET_CFG_COPY_ALL OR GEM_NET_CFG_NO_BCAST OR GEM_NET_CFG_MULTI_HASH_EN OR
     GEM_NET_CFG_UNI_HASH_EN"

definition unicast_on :: "u32 \<Rightarrow> bool" where
  "unicast_on f = (f AND (EFI_SIMPLE_NETWORK_RECEIVE_UNICAST OR
     EFI_SIMPLE_NETWORK_RECEIVE_PROMISCUOUS) \<noteq> 0)"

definition filtered :: "u64 \<Rightarrow> u8 list \<Rightarrow> u32 \<Rightarrow> (u64 \<Rightarrow> u32) \<Rightarrow> (u64 \<Rightarrow> u32)" where
  "filtered B mac f s = s(B + GEM_HASH_BOT := snd (filter_cfg f), B + GEM_HASH_TOP := snd (filter_cfg f),
     B + GEM_NET_CFG := (s (B + GEM_NET_CFG) AND NOT filter_mask) OR fst (filter_cfg f),
     B + GEM_SPEC_ADDR_LOW 0 := (if unicast_on f then mac_low mac else 0),
     B + GEM_SPEC_ADDR_HI 0 := (if unicast_on f then mac_high mac else 0))"

lemma GemSetReceiveFilters_state:
  "run_state (GemSetReceiveFilters reg_dev B mac f) s = ((), filtered B mac f s)"
  using gem_regs_distinct [of B]
  by (simp add: GemSetReceiveFilters_def GemSetMacAddress_def GemRead32_def GemWrite32_def
      run_state_bind io_simps Let_def filtered_def filter_mask_def unicast_on_def)

lemma filter_bits:
  fixes c f
  defines "v \<equiv> (c AND NOT filter_mask) OR fst (filter_cfg f)"
    and "pr \<equiv> f AND EFI_SIMPLE_NETWORK_RECEIVE_PROMISCUOUS \<noteq> 0"
    and "mc \<equiv> f AND (EFI_SIMPLE_NETWORK_RECEIVE_MULTICAST OR
          EFI_SIMPLE_NETWORK_RECEIVE_PROMISCUOUS_MULTICAST) \<noteq> 0"
  shows "v AND GEM_NET_CFG_COPY_ALL \<noteq> 0 \<longleftrightarrow> pr"
    and "v AND GEM_NET_CFG_NO_BCAST \<noteq> 0 \<longleftrightarrow> \<not> pr \<and> f AND EFI_SIMPLE_NETWORK_RECEIVE_BROADCAST = 0"
    and "v AND GEM_NET_CFG_MULTI_HASH_EN \<noteq> 0 \<longleftrightarrow> \<not> pr \<and> mc"
    and "v AND GEM_NET_CFG_UNI_HASH_EN = 0"
    and "v AND NOT filter_mask = c AND NOT filter_mask"
    and "snd (filter_cfg f) = (if \<not> pr \<and> mc then 0xFFFFFFFF else 0)"
proof -
  note defs = v_def filter_cfg_def filter_mask_def Let_def GEM_NET_CFG_COPY_ALL_def
    GEM_NET_CFG_NO_BCAST_def GEM_NET_CFG_MULTI_HASH_EN_def GEM_NET_CFG_UNI_HASH_EN_def
  have fst: "fst (filter_cfg f) = (if pr then GEM_NET_CFG_COPY_ALL else
      (if f AND EFI_SIMPLE_NETWORK_RECEIVE_BROADCAST = 0 then GEM_NET_CFG_NO_BCAST else 0) OR
      (if mc then GEM_NET_CFG_MULTI_HASH_EN else 0))"
    by (simp add: filter_cfg_def Let_def pr_def mc_def)
  have mask: "(c AND NOT filter_mask OR k) AND m = k AND m"
    if "m AND filter_mask = m" for m k
  proof (rule bit_word_eqI)
    fix n
    have "bit m n \<Longrightarrow> bit filter_mask n" using that by (metis bit_and_iff)
    then show "bit ((c AND NOT filter_mask OR k) AND m) n = bit (k AND m) n" by (auto simp: bit_simps)
  qed
  have v: "v AND m = fst (filter_cfg f) AND m" if "m AND filter_mask = m" for m
    unfolding v_def by (rule mask [OF that])
  have in_mask: "GEM_NET_CFG_COPY_ALL AND filter_mask = GEM_NET_CFG_COPY_ALL"
    "GEM_NET_CFG_NO_BCAST AND filter_mask = GEM_NET_CFG_NO_BCAST"
    "GEM_NET_CFG_MULTI_HASH_EN AND filter_mask = GEM_NET_CFG_MULTI_HASH_EN"
    "GEM_NET_CFG_UNI_HASH_EN AND filter_mask = GEM_NET_CFG_UNI_HASH_EN"
    by (simp_all add: defs)
  note cdefs = GEM_NET_CFG_COPY_ALL_def GEM_NET_CFG_NO_BCAST_def GEM_NET_CFG_MULTI_HASH_EN_def
    GEM_NET_CFG_UNI_HASH_EN_def
  show "v AND GEM_NET_CFG_COPY_ALL \<noteq> 0 \<longleftrightarrow> pr"
    "v AND GEM_NET_CFG_NO_BCAST \<noteq> 0 \<longleftrightarrow> \<not> pr \<and> f AND EFI_SIMPLE_NETWORK_RECEIVE_BROADCAST = 0"
    "v AND GEM_NET_CFG_MULTI_HASH_EN \<noteq> 0 \<longleftrightarrow> \<not> pr \<and> mc" "v AND GEM_NET_CFG_UNI_HASH_EN = 0"
    unfolding v [OF in_mask(1)] v [OF in_mask(2)] v [OF in_mask(3)] v [OF in_mask(4)] fst
    by (auto simp: cdefs)
  have out: "fst (filter_cfg f) AND NOT filter_mask = 0" unfolding fst by (auto simp: cdefs filter_mask_def)
  show "v AND NOT filter_mask = c AND NOT filter_mask"
  proof (rule bit_word_eqI)
    fix n
    have "\<not> bit (fst (filter_cfg f) AND NOT filter_mask) n" using out by simp
    then show "bit (v AND NOT filter_mask) n = bit (c AND NOT filter_mask) n"
      by (auto simp: v_def bit_simps)
  qed
  show "snd (filter_cfg f) = (if \<not> pr \<and> mc then 0xFFFFFFFF else 0)"
    by (simp add: filter_cfg_def Let_def pr_def mc_def)
qed

text \<open>
  Receive filters. Programming a filter setting makes the MAC copy all frames exactly when
  PROMISCUOUS is set; otherwise it rejects broadcasts exactly when BROADCAST is not set and
  accepts every multicast exactly when MULTICAST or PROMISCUOUS_MULTICAST is set (all-ones
  hash); the station address is matched exactly when UNICAST or PROMISCUOUS is set; no other
  bit of NET_CFG and no other register changes.
\<close>

theorem receive_filters_programmed:
  fixes B f mac
  defines "pr \<equiv> f AND EFI_SIMPLE_NETWORK_RECEIVE_PROMISCUOUS \<noteq> 0"
    and "mc \<equiv> f AND (EFI_SIMPLE_NETWORK_RECEIVE_MULTICAST OR
          EFI_SIMPLE_NETWORK_RECEIVE_PROMISCUOUS_MULTICAST) \<noteq> 0"
  shows "case run_state (GemSetReceiveFilters reg_dev B mac f) s of (_, s') \<Rightarrow>
     (s' (B + GEM_NET_CFG) AND GEM_NET_CFG_COPY_ALL \<noteq> 0 \<longleftrightarrow> pr) \<and>
     (s' (B + GEM_NET_CFG) AND GEM_NET_CFG_NO_BCAST \<noteq> 0 \<longleftrightarrow>
        \<not> pr \<and> f AND EFI_SIMPLE_NETWORK_RECEIVE_BROADCAST = 0) \<and>
     (s' (B + GEM_NET_CFG) AND GEM_NET_CFG_MULTI_HASH_EN \<noteq> 0 \<longleftrightarrow> \<not> pr \<and> mc) \<and>
     s' (B + GEM_HASH_BOT) = (if \<not> pr \<and> mc then 0xFFFFFFFF else 0) \<and>
     s' (B + GEM_HASH_TOP) = s' (B + GEM_HASH_BOT) \<and>
     s' (B + GEM_SPEC_ADDR_LOW 0) = (if unicast_on f then mac_low mac else 0) \<and>
     s' (B + GEM_SPEC_ADDR_HI 0) = (if unicast_on f then mac_high mac else 0) \<and>
     s' (B + GEM_NET_CFG) AND NOT filter_mask = s (B + GEM_NET_CFG) AND NOT filter_mask \<and>
     {a. s' a \<noteq> s a} \<subseteq> {B + GEM_NET_CFG, B + GEM_HASH_BOT, B + GEM_HASH_TOP,
        B + GEM_SPEC_ADDR_LOW 0, B + GEM_SPEC_ADDR_HI 0}"
proof -
  note d = gem_regs_distinct [of B]
  have nc: "filtered B mac f s (B + GEM_NET_CFG) =
      (s (B + GEM_NET_CFG) AND NOT filter_mask) OR fst (filter_cfg f)"
    and h: "filtered B mac f s (B + GEM_HASH_BOT) = snd (filter_cfg f)"
      "filtered B mac f s (B + GEM_HASH_TOP) = snd (filter_cfg f)"
    and a: "filtered B mac f s (B + GEM_SPEC_ADDR_LOW 0) = (if unicast_on f then mac_low mac else 0)"
      "filtered B mac f s (B + GEM_SPEC_ADDR_HI 0) = (if unicast_on f then mac_high mac else 0)"
    using d by (simp_all add: filtered_def)
  have frame: "{a. filtered B mac f s a \<noteq> s a} \<subseteq> {B + GEM_NET_CFG, B + GEM_HASH_BOT, B + GEM_HASH_TOP,
        B + GEM_SPEC_ADDR_LOW 0, B + GEM_SPEC_ADDR_HI 0}"
    by (auto simp: filtered_def split: if_splits)
  show ?thesis
    unfolding GemSetReceiveFilters_state prod.case nc h a pr_def mc_def
    using frame by (simp only: filter_bits simp_thms)
qed

text \<open>
  Filters and link speed do not disturb each other. Both rewrite NET_CFG by
  read-modify-write; applying a filter setting and a link change in either order gives the
  same registers, and the link change selects exactly the speed and duplex bits asked for.
\<close>

theorem filters_speed_commute:
  "run_state (do { GemSetReceiveFilters reg_dev B mac f; GemUpdateLinkSpeed reg_dev B Mbps fd }) s =
   run_state (do { GemUpdateLinkSpeed reg_dev B Mbps fd; GemSetReceiveFilters reg_dev B mac f }) s \<and>
   (case run_state (GemUpdateLinkSpeed reg_dev B Mbps fd) s of (_, s') \<Rightarrow>
      (s' (B + GEM_NET_CFG) AND GEM_NET_CFG_GIGE_EN \<noteq> 0 \<longleftrightarrow> Mbps = 1000) \<and>
      (s' (B + GEM_NET_CFG) AND GEM_NET_CFG_SPEED100 \<noteq> 0 \<longleftrightarrow> Mbps = 100) \<and>
      (s' (B + GEM_NET_CFG) AND GEM_NET_CFG_FULL_DUPLEX \<noteq> 0 \<longleftrightarrow> fd))"
proof -
  note cdefs = GEM_NET_CFG_SPEED100_def GEM_NET_CFG_GIGE_EN_def GEM_NET_CFG_FULL_DUPLEX_def
    GEM_NET_CFG_COPY_ALL_def GEM_NET_CFG_NO_BCAST_def GEM_NET_CFG_MULTI_HASH_EN_def
    GEM_NET_CFG_UNI_HASH_EN_def
  have comm: "speed_cfg Mbps fd ((c AND NOT filter_mask) OR fst (filter_cfg f)) =
      (speed_cfg Mbps fd c AND NOT filter_mask) OR fst (filter_cfg f)" for c
    by (rule u32_eqI) (simp add: speed_cfg_def filter_mask_def filter_cfg_def Let_def cdefs u32_bits)
  have swap: "(filtered B mac f s)(B + GEM_NET_CFG := speed_cfg Mbps fd (filtered B mac f s (B + GEM_NET_CFG)))
     = filtered B mac f (s(B + GEM_NET_CFG := speed_cfg Mbps fd (s (B + GEM_NET_CFG))))"
    using gem_regs_distinct [of B] comm by (auto simp: filtered_def fun_eq_iff)
  have bits: "speed_cfg Mbps fd c AND GEM_NET_CFG_GIGE_EN = (if Mbps = 1000 then GEM_NET_CFG_GIGE_EN else 0)"
    "speed_cfg Mbps fd c AND GEM_NET_CFG_SPEED100 = (if Mbps = 100 then GEM_NET_CFG_SPEED100 else 0)"
    "speed_cfg Mbps fd c AND GEM_NET_CFG_FULL_DUPLEX = (if fd then GEM_NET_CFG_FULL_DUPLEX else 0)" for c
    by (rule u32_eqI, simp add: speed_cfg_def cdefs u32_bits)+
  show ?thesis
    by (simp add: run_state_bind GemSetReceiveFilters_state GemUpdateLinkSpeed_state swap bits)
      (simp add: cdefs)
qed

end
