(* ===== verification/Gem_Ring.thy ===== *)
theory Gem_Ring
  imports Gem_Hw
begin

section \<open>DMA memory and descriptor rings (GemHw.c)\<close>

text \<open>
  The record \<^verbatim>\<open>gem\<close> is \<^verbatim>\<open>RP1_GEM_PRIVATE_DATA\<close>: its fields under their names, and behind
  them the memory that its pointers reach and that the hardware shares (descriptor rings as
  lists of descriptors, packet buffers as byte buffers), the list of live DMA allocations and
  the register state \<open>io\<close>. A pointer is an address option, \<open>None\<close> for \<open>NULL\<close>.
  \<^verbatim>\<open>MemoryFence\<close> orders accesses that the model performs in program order already. An operation
  takes the private data and returns its result with the new private data.
\<close>

record gem_desc =
  Addr :: u32
  Ctrl :: u32
  AddrHi :: u32
  Unused :: u32

datatype snp_state =
    EfiSimpleNetworkStopped
  | EfiSimpleNetworkStarted
  | EfiSimpleNetworkInitialized

record snp_mode =
  SnpState :: snp_state
  MediaHeaderSize :: nat
  MaxMCastFilterCount :: nat
  ReceiveFilterMask :: u32
  ReceiveFilterSetting :: u32
  MCastFilterCount :: u32
  MCastFilter :: "u8 list list"
  CurrentAddress :: "u8 list"
  PermanentAddress :: "u8 list"
  MediaPresent :: bool

record 's gem =
  GemBase :: u64
  SnpMode :: snp_mode
  Lock :: bool
  PhyAddr :: u8
  LinkUp :: bool
  DescBuffer :: "u64 option"
  RxRing :: "u64 option"
  TxRing :: "u64 option"
  NullRxDesc :: "u64 option"
  NullTxDesc :: "u64 option"
  RxBuffers :: "u64 option"
  TxBuffers :: "u64 option"
  RxHead :: u16
  TxProd :: u16
  TxCons :: u16
  TxUserBuffer :: "u64 option list"
  RxDesc :: "gem_desc list"
  TxDesc :: "gem_desc list"
  NullRx :: gem_desc
  NullTx :: gem_desc
  RxMem :: buf
  TxMem :: buf
  dma :: "(u64 \<times> nat) list"
  io :: 's

definition gem_io :: "('s, 'a) state \<Rightarrow> 's gem \<Rightarrow> 'a \<times> 's gem" where
  "gem_io m g = (case run_state m (io g) of (a, s) \<Rightarrow> (a, g\<lparr>io := s\<rparr>))"

definition gem_do :: "('s, 'a) state \<Rightarrow> 's gem \<Rightarrow> 's gem" where
  "gem_do m g = g\<lparr>io := snd (run_state m (io g))\<rparr>"

definition ptr :: "u64 option \<Rightarrow> u64" where
  "ptr p = (case p of None \<Rightarrow> 0 | Some a \<Rightarrow> a)"

text \<open>Outside the ring there is no descriptor that the driver owns.\<close>

definition zero_desc :: gem_desc where
  "zero_desc = \<lparr>Addr = 0, Ctrl = 0, AddrHi = 0, Unused = 0\<rparr>"

definition desc_at :: "gem_desc list \<Rightarrow> nat \<Rightarrow> gem_desc" where
  "desc_at ds i = (if i < length ds then ds ! i else zero_desc)"

subsection \<open>Allocation\<close>

text \<open>
  \<open>A k\<close> is what the \<open>k\<close>-th call of \<^verbatim>\<open>DmaAllocateBuffer\<close> answers: a status other than success,
  or the address of the new buffer. The descriptors are 16 bytes.
\<close>

definition EFI_PAGE_SIZE :: nat where "EFI_PAGE_SIZE = 4096"
definition SIZE_4GB :: nat where "SIZE_4GB = 2 ^ 32"
definition GEM_DMA_DESC_SIZE :: nat where "GEM_DMA_DESC_SIZE = 16"

definition EFI_SIZE_TO_PAGES :: "nat \<Rightarrow> nat" where
  "EFI_SIZE_TO_PAGES n = n div EFI_PAGE_SIZE + (if n mod EFI_PAGE_SIZE \<noteq> 0 then 1 else 0)"

abbreviation "RxPages \<equiv> EFI_SIZE_TO_PAGES (GEM_RX_DESC_COUNT * GEM_RX_BUFFER_SIZE)"
abbreviation "TxPages \<equiv> EFI_SIZE_TO_PAGES (GEM_TX_DESC_COUNT * GEM_TX_BUFFER_SIZE)"

definition DmaAllocated :: "u64 \<Rightarrow> nat \<Rightarrow> 's gem \<Rightarrow> 's gem" where
  "DmaAllocated a pages g = g\<lparr>dma := (a, pages) # dma g\<rparr>"

definition DmaFreeBuffer :: "nat \<Rightarrow> u64 option \<Rightarrow> 's gem \<Rightarrow> 's gem" where
  "DmaFreeBuffer pages p g = g\<lparr>dma := remove1 (ptr p, pages) (dma g)\<rparr>"

definition FreeDesc :: "'s gem \<Rightarrow> 's gem" where
  "FreeDesc g = (DmaFreeBuffer 1 (DescBuffer g) g)\<lparr>DescBuffer := None\<rparr>"

definition FreeRxBuffers :: "'s gem \<Rightarrow> 's gem" where
  "FreeRxBuffers g = FreeDesc ((DmaFreeBuffer RxPages (RxBuffers g) g)\<lparr>RxBuffers := None\<rparr>)"

definition FreeTxBuffers :: "'s gem \<Rightarrow> 's gem" where
  "FreeTxBuffers g = FreeRxBuffers ((DmaFreeBuffer TxPages (TxBuffers g) g)\<lparr>TxBuffers := None\<rparr>)"

definition GemDmaAlloc :: "(nat \<Rightarrow> efi_status + u64) \<Rightarrow> 's gem \<Rightarrow> efi_status \<times> 's gem" where
  "GemDmaAlloc A g =
     (case A 0 of
        Inl st \<Rightarrow> (st, g)
      | Inr d \<Rightarrow>
     (let g = (DmaAllocated d 1 g)\<lparr>DescBuffer := Some d\<rparr> in
      case A 1 of
        Inl st \<Rightarrow> (st, FreeDesc g)
      | Inr r \<Rightarrow>
     (let g = (DmaAllocated r RxPages g)\<lparr>RxBuffers := Some r\<rparr> in
      case A 2 of
        Inl st \<Rightarrow> (st, FreeRxBuffers g)
      | Inr t \<Rightarrow>
     (let g = (DmaAllocated t TxPages g)\<lparr>TxBuffers := Some t\<rparr> in
      if unat d \<ge> SIZE_4GB \<or>
         unat r + GEM_RX_DESC_COUNT * GEM_RX_BUFFER_SIZE > SIZE_4GB \<or>
         unat t + GEM_TX_DESC_COUNT * GEM_TX_BUFFER_SIZE > SIZE_4GB
      then (EFI_OUT_OF_RESOURCES, FreeTxBuffers g)
      else
       (let tx = d + of_nat (GEM_RX_DESC_COUNT * GEM_DMA_DESC_SIZE);
            nrx = tx + of_nat (GEM_TX_DESC_COUNT * GEM_DMA_DESC_SIZE) in
        (EFI_SUCCESS, g\<lparr>RxRing := Some d, TxRing := Some tx, NullRxDesc := Some nrx,
           NullTxDesc := Some (nrx + of_nat GEM_DMA_DESC_SIZE)\<rparr>))))))"

definition GemDmaFree :: "'s gem \<Rightarrow> 's gem" where
  "GemDmaFree g =
     (let g = (if TxBuffers g \<noteq> None
               then (DmaFreeBuffer TxPages (TxBuffers g) g)\<lparr>TxBuffers := None\<rparr> else g);
          g = (if RxBuffers g \<noteq> None
               then (DmaFreeBuffer RxPages (RxBuffers g) g)\<lparr>RxBuffers := None\<rparr> else g);
          g = (if DescBuffer g \<noteq> None
               then (DmaFreeBuffer 1 (DescBuffer g) g)\<lparr>DescBuffer := None\<rparr> else g) in
      g\<lparr>RxRing := None, TxRing := None, NullRxDesc := None, NullTxDesc := None\<rparr>)"

subsection \<open>Initialisation\<close>

definition rx_desc :: "u64 \<Rightarrow> nat \<Rightarrow> gem_desc" where
  "rx_desc RxBuf Index =
     (let BufAddr = RxBuf + of_nat (Index * GEM_RX_BUFFER_SIZE) in
      \<lparr>Addr = ucast BufAddr OR (if Index = GEM_RX_DESC_COUNT - 1 then GEM_RXDESC_ADDR_WRAP else 0),
       Ctrl = 0, AddrHi = ucast (drop_bit 32 BufAddr), Unused = 0\<rparr>)"

definition tx_desc :: "u64 \<Rightarrow> nat \<Rightarrow> gem_desc" where
  "tx_desc TxBuf Index =
     (let BufAddr = TxBuf + of_nat (Index * GEM_TX_BUFFER_SIZE) in
      \<lparr>Addr = ucast BufAddr,
       Ctrl = GEM_TXDESC_CTRL_USED OR
         (if Index = GEM_TX_DESC_COUNT - 1 then GEM_TXDESC_CTRL_WRAP else 0),
       AddrHi = ucast (drop_bit 32 BufAddr), Unused = 0\<rparr>)"

fun GemInitQueues :: "'s iodev \<Rightarrow> u64 \<Rightarrow> u32 \<Rightarrow> u64 \<Rightarrow> u64 \<Rightarrow> nat list \<Rightarrow> ('s, unit) state" where
  "GemInitQueues D B QueueMask rx tx [] = State_Monad.return ()"
| "GemInitQueues D B QueueMask rx tx (Queue # qs) =
     (if QueueMask AND push_bit Queue 1 = 0 then GemInitQueues D B QueueMask rx tx qs
      else do {
        GemWrite32 D B (GEM_RX_QN_BAR Queue) (ucast rx);
        GemWrite32 D B (GEM_TX_QN_BAR Queue) (ucast tx);
        GemInitQueues D B QueueMask rx tx qs
      })"

definition GemRingRegs :: "'s iodev \<Rightarrow> 's gem \<Rightarrow> ('s, unit) state" where
  "GemRingRegs D g = do {
     let B = GemBase g;
     GemWrite32 D B GEM_RX_QBAR (ucast (ptr (RxRing g)));
     GemWrite32 D B GEM_RX_QBAR_HI (ucast (drop_bit 32 (ptr (RxRing g))));
     GemWrite32 D B GEM_TX_QBAR (ucast (ptr (TxRing g)));
     GemWrite32 D B GEM_TX_QBAR_HI (ucast (drop_bit 32 (ptr (TxRing g))));
     cfg6 \<leftarrow> GemRead32 D B GEM_DESIGN_CFG6;
     GemInitQueues D B (cfg6 AND GEM_DESIGN_CFG6_PRIO_Q_MASK) (ptr (NullRxDesc g))
       (ptr (NullTxDesc g)) [1..<16]
   }"

definition GemInitRings :: "'s iodev \<Rightarrow> 's gem \<Rightarrow> 's gem" where
  "GemInitRings D g =
     (let g = g\<lparr>RxDesc := map (rx_desc (ptr (RxBuffers g))) [0..<GEM_RX_DESC_COUNT],
                TxDesc := map (tx_desc (ptr (TxBuffers g))) [0..<GEM_TX_DESC_COUNT],
                TxUserBuffer := replicate GEM_TX_DESC_COUNT None,
                NullRx := \<lparr>Addr = GEM_RXDESC_ADDR_OWN OR GEM_RXDESC_ADDR_WRAP, Ctrl = 0,
                           AddrHi = 0, Unused = 0\<rparr>,
                NullTx := \<lparr>Addr = 0, Ctrl = GEM_TXDESC_CTRL_USED OR GEM_TXDESC_CTRL_WRAP,
                           AddrHi = 0, Unused = 0\<rparr>\<rparr>;
          g = gem_do (GemRingRegs D g) g in
      g\<lparr>RxHead := 0, TxProd := 0, TxCons := 0\<rparr>)"

definition GemMacConfigure :: "'s iodev \<Rightarrow> 's gem \<Rightarrow> 's gem" where
  "GemMacConfigure D g =
     (let g = gem_do (GemConfigRegs D (GemBase g)) g;
          g = GemInitRings D g;
          g = gem_do (GemSetMacAddress D (GemBase g) (CurrentAddress (SnpMode g))) g in
      gem_do (GemSetReceiveFilters D (GemBase g) (CurrentAddress (SnpMode g))
                (ReceiveFilterSetting (SnpMode g))) g)"

subsection \<open>Receive\<close>

definition GemRxPending :: "'s gem \<Rightarrow> bool" where
  "GemRxPending g =
     (if RxRing g = None then False
      else Addr (desc_at (RxDesc g) (unat (RxHead g))) AND GEM_RXDESC_ADDR_OWN \<noteq> 0)"

definition rx_release :: "gem_desc \<Rightarrow> gem_desc" where
  "rx_release d = d\<lparr>Ctrl := 0, Addr := Addr d AND NOT GEM_RXDESC_ADDR_OWN\<rparr>"

definition GemRecycleRxDescriptor :: "nat \<Rightarrow> 's gem \<Rightarrow> 's gem" where
  "GemRecycleRxDescriptor Index g =
     g\<lparr>RxDesc := (RxDesc g)[Index := rx_release (desc_at (RxDesc g) Index)],
       RxHead := of_nat ((Index + 1) mod GEM_RX_DESC_COUNT)\<rparr>"

definition rx_len :: "gem_desc \<Rightarrow> nat" where
  "rx_len d = unat (Ctrl d AND GEM_RXDESC_CTRL_LENGTH_MASK)"

definition rx_bad :: "gem_desc \<Rightarrow> bool" where
  "rx_bad d =
     (Ctrl d AND (GEM_RXDESC_CTRL_SOF OR GEM_RXDESC_CTRL_EOF) \<noteq>
        (GEM_RXDESC_CTRL_SOF OR GEM_RXDESC_CTRL_EOF) \<or>
      rx_len d < GEM_ETHER_HEADER_SIZE \<or> rx_len d > GEM_RX_BUFFER_SIZE)"

definition rx_owned :: "gem_desc \<Rightarrow> bool" where
  "rx_owned d = (Addr d AND GEM_RXDESC_ADDR_OWN \<noteq> 0)"

lemma rx_release_owned [simp]: "\<not> rx_owned (rx_release d)"
proof -
  have "(Addr d AND NOT GEM_RXDESC_ADDR_OWN) AND GEM_RXDESC_ADDR_OWN = 0"
    by (rule bit_word_eqI) (auto simp: bit_simps)
  then show ?thesis by (simp add: rx_owned_def rx_release_def)
qed

lemma filter_update_shorter:
  "i < length xs \<Longrightarrow> P (xs ! i) \<Longrightarrow> \<not> P y \<Longrightarrow> length (filter P (xs[i := y])) < length (filter P xs)"
proof -
  assume i: "i < length xs" "P (xs ! i)" "\<not> P y"
  have "length (filter P xs) = length (filter P (take i xs @ xs ! i # drop (Suc i) xs))"
    using i(1) by (simp add: id_take_nth_drop [symmetric])
  with i show ?thesis by (simp add: upd_conv_take_nth_drop)
qed

text \<open>
  The result is the status, the value of \<open>*BufferSize\<close> and the bytes copied to the front of
  the caller's buffer. Every turn of the loop that drops a descriptor hands it back, so the
  loop ends: the number of descriptors the driver owns is its measure.
\<close>

function GemReceiveFrame ::
  "'s iodev \<Rightarrow> nat \<Rightarrow> 's gem \<Rightarrow> (efi_status \<times> nat \<times> u8 list) \<times> 's gem" where
  "GemReceiveFrame D BufferSize g =
     (let Index = unat (RxHead g); d = desc_at (RxDesc g) Index in
      if \<not> rx_owned d then ((EFI_NOT_READY, BufferSize, []), g)
      else if rx_bad d then GemReceiveFrame D BufferSize (GemRecycleRxDescriptor Index g)
      else if BufferSize < rx_len d then ((EFI_BUFFER_TOO_SMALL, rx_len d, []), g)
      else
        ((EFI_SUCCESS, rx_len d, bytes_at (RxMem g) (Index * GEM_RX_BUFFER_SIZE) (rx_len d)),
         gem_do (GemWrite32 D (GemBase g) GEM_RX_STAT
                   (GEM_RX_STAT_FRAME_RECD OR GEM_RX_STAT_BUF_NOT_AVAIL OR GEM_RX_STAT_OVERRUN))
           (GemRecycleRxDescriptor Index g)))"
  by pat_completeness auto
termination
proof (relation "measure (\<lambda>(D, n, g). length (filter rx_owned (RxDesc g)))")
  fix D :: "'s iodev" and BufferSize Index and g :: "'s gem" and d
  assume I: "Index = unat (RxHead g)" and d: "d = desc_at (RxDesc g) Index" "\<not> \<not> rx_owned d"
  have "Index < length (RxDesc g)"
    using d by (auto simp: desc_at_def zero_desc_def rx_owned_def split: if_splits)
  with d show "((D, BufferSize, GemRecycleRxDescriptor Index g), D, BufferSize, g)
      \<in> measure (\<lambda>(D, n, g). length (filter rx_owned (RxDesc g)))"
    by (simp add: GemRecycleRxDescriptor_def filter_update_shorter desc_at_def)
qed simp

declare GemReceiveFrame.simps [simp del]

subsection \<open>Transmit\<close>

text \<open>The caller's buffer is its address, for the recycling, and its bytes.\<close>

definition tx_ctrl :: "nat \<Rightarrow> nat \<Rightarrow> u32" where
  "tx_ctrl Index Len =
     (of_nat Len AND GEM_TXDESC_CTRL_LENGTH_MASK) OR GEM_TXDESC_CTRL_LAST_BUF OR
     (if Index = GEM_TX_DESC_COUNT - 1 then GEM_TXDESC_CTRL_WRAP else 0)"

definition tx_index :: "u16 \<Rightarrow> nat" where
  "tx_index c = unat c mod GEM_TX_DESC_COUNT"

definition GemTransmitFrame ::
  "'s iodev \<Rightarrow> u64 \<Rightarrow> buf \<Rightarrow> nat \<Rightarrow> 's gem \<Rightarrow> efi_status \<times> 's gem" where
  "GemTransmitFrame D UserBuffer Frame Len g =
     (if unat (TxProd g - TxCons g) \<ge> GEM_TX_DESC_COUNT then (EFI_NOT_READY, g)
      else
       (let Index = tx_index (TxProd g) in
        (EFI_SUCCESS,
         gem_do (MmioOr32 D (GemBase g + GEM_NET_CTRL) GEM_NET_CTRL_START_TX)
           (g\<lparr>TxMem := CopyMem (TxMem g) (Index * GEM_TX_BUFFER_SIZE) (bytes_at Frame 0 Len),
              TxDesc := (TxDesc g)[Index := (desc_at (TxDesc g) Index)\<lparr>Ctrl := tx_ctrl Index Len\<rparr>],
              TxUserBuffer := (TxUserBuffer g)[Index := Some UserBuffer],
              TxProd := TxProd g + 1\<rparr>))))"

definition GemTxPendingCompletion :: "'s gem \<Rightarrow> bool" where
  "GemTxPendingCompletion g =
     (if TxRing g = None \<or> TxCons g = TxProd g then False
      else Ctrl (desc_at (TxDesc g) (tx_index (TxCons g))) AND GEM_TXDESC_CTRL_USED \<noteq> 0)"

definition GemGetRecycledTxBuffer :: "'s iodev \<Rightarrow> 's gem \<Rightarrow> u64 option \<times> 's gem" where
  "GemGetRecycledTxBuffer D g =
     (if TxCons g = TxProd g then (None, g)
      else
       (let Index = tx_index (TxCons g); d = desc_at (TxDesc g) Index in
        if Ctrl d AND GEM_TXDESC_CTRL_USED = 0 then (None, g)
        else
         (TxUserBuffer g ! Index,
          gem_do (GemWrite32 D (GemBase g) GEM_TX_STAT
                    (GEM_TX_STAT_COMPLETE OR GEM_TX_STAT_UNDERRUN OR GEM_TX_STAT_USED_BIT_READ))
            (g\<lparr>TxUserBuffer := (TxUserBuffer g)[Index := None], TxCons := TxCons g + 1\<rparr>))))"

end
