(* ===== verification/Gem_Queue.thy ===== *)
theory Gem_Queue
  imports Gem_Ring
begin

section \<open>The rings are first-in first-out queues (GemHw.c)\<close>

text \<open>
  The contract of a packet ring between one producer and one consumer, as the locale
  \<^verbatim>\<open>frame_queue\<close>, and its two interpretations on the driver's own operations: in the transmit
  ring the driver produces and reclaims while the hardware completes, in the receive ring the
  hardware produces and the driver consumes. The abstraction of a ring is the list of the
  frames in it, oldest first. The hardware's side (complete a descriptor, deliver a frame or a
  fragment into the next free descriptor) is what the GEM manual and the comments of \<^verbatim>\<open>GemHw.c\<close>
  say of it.
\<close>

subsection \<open>The interface\<close>

datatype ('e, 'h) qop = Put 'e | Get | Hw 'h

text \<open>Running a list of operations: the elements accepted, the results handed back, the state.\<close>

fun q_run :: "('e \<Rightarrow> 'q \<Rightarrow> 'q option) \<Rightarrow> ('q \<Rightarrow> ('r \<times> 'q) option) \<Rightarrow> ('h \<Rightarrow> 'q \<Rightarrow> 'q) \<Rightarrow>
    ('e, 'h) qop list \<Rightarrow> 'q \<Rightarrow> 'e list \<times> 'r list \<times> 'q" where
  "q_run put get hw [] q = ([], [], q)"
| "q_run put get hw (Put e # ops) q =
     (case put e q of None \<Rightarrow> q_run put get hw ops q
      | Some q \<Rightarrow> (case q_run put get hw ops q of (a, r, q) \<Rightarrow> (e # a, r, q)))"
| "q_run put get hw (Get # ops) q =
     (case get q of None \<Rightarrow> q_run put get hw ops q
      | Some (x, q) \<Rightarrow> (case q_run put get hw ops q of (a, r, q) \<Rightarrow> (a, x # r, q)))"
| "q_run put get hw (Hw h # ops) q = q_run put get hw ops (hw h q)"

locale frame_queue =
  fixes inv :: "'q \<Rightarrow> bool" and abs :: "'q \<Rightarrow> 'e list" and view :: "'e \<Rightarrow> 'r" and cap :: nat
    and put :: "'e \<Rightarrow> 'q \<Rightarrow> 'q option" and get :: "'q \<Rightarrow> ('r \<times> 'q) option" and hw :: "'h \<Rightarrow> 'q \<Rightarrow> 'q"
  assumes bound: "inv q \<Longrightarrow> length (abs q) \<le> cap"
    and put: "inv q \<Longrightarrow> put e q = Some q' \<Longrightarrow> inv q' \<and> abs q' = abs q @ [e]"
    and get: "inv q \<Longrightarrow> get q = Some (r, q') \<Longrightarrow> inv q' \<and> (\<exists>e. abs q = e # abs q' \<and> view e = r)"
    and hw: "inv q \<Longrightarrow> inv (hw h q) \<and> abs (hw h q) = abs q"
begin

lemma run_split:
  "inv q \<Longrightarrow> q_run put get hw ops q = (a, r, q') \<Longrightarrow>
   inv q' \<and> (\<exists>done. abs q @ a = done @ abs q' \<and> map view done = r)"
proof (induction ops arbitrary: q a r)
  case Nil
  then show ?case by auto
next
  case (Cons x ops)
  show ?case
  proof (cases x)
    case (Put e)
    show ?thesis
    proof (cases "put e q")
      case None
      with Cons Put show ?thesis by simp
    next
      case (Some p)
      obtain a1 where "q_run put get hw ops p = (a1, r, q')" "a = e # a1"
        using Cons.prems(2) Put Some by (auto split: prod.splits)
      with Cons.IH [of p a1 r] Cons.prems(1) frame_queue.put [OF frame_queue_axioms _ Some]
      show ?thesis by auto
    qed
  next
    case Get
    show ?thesis
    proof (cases "get q")
      case None
      with Cons Get show ?thesis by simp
    next
      case (Some xp)
      obtain y p where xp: "xp = (y, p)" by force
      obtain r1 where r1: "q_run put get hw ops p = (a, r1, q')" "r = y # r1"
        using Cons.prems(2) Get Some xp by (auto split: prod.splits)
      obtain e where e: "inv p" "abs q = e # abs p" "view e = y"
        using frame_queue.get [OF frame_queue_axioms Cons.prems(1) Some [unfolded xp]] by auto
      with Cons.IH [OF e(1) r1(1)] obtain ds where "inv q'" "abs p @ a = ds @ abs q'" "map view ds = r1"
        by auto
      with e r1(2) have "inv q' \<and> abs q @ a = (e # ds) @ abs q' \<and> map view (e # ds) = r" by simp
      then show ?thesis by blast
    qed
  next
    case (Hw h)
    have "inv (hw h q)" "abs (hw h q) = abs q"
      using frame_queue.hw [OF frame_queue_axioms Cons.prems(1), of h] by auto
    with Cons.IH [of "hw h q" a r] Cons.prems(2) Hw show ?thesis by simp
  qed
qed

lemma fifo:
  assumes "inv q" and "q_run put get hw ops q = (a, r, q')"
  shows "inv q'" and "r = map view (take (length r) (abs q @ a))"
    and "abs q' = drop (length r) (abs q @ a)" and "length (abs q') \<le> cap"
proof -
  obtain ds where "inv q'" and ds: "abs q @ a = ds @ abs q'" "map view ds = r"
    using run_split [OF assms] by auto
  then show "inv q'" and "length (abs q') \<le> cap" by (auto intro: bound)
  show "r = map view (take (length r) (abs q @ a))" "abs q' = drop (length r) (abs q @ a)"
    unfolding ds(1) using ds(2) by (auto simp flip: ds(2))
qed

end

subsection \<open>The transmit ring\<close>

definition tx_count :: "'s gem \<Rightarrow> nat" where
  "tx_count g = unat (TxProd g - TxCons g)"

definition tx_slot :: "'s gem \<Rightarrow> nat \<Rightarrow> nat" where
  "tx_slot g k = (unat (TxCons g) + k) mod GEM_TX_DESC_COUNT"

definition tx_len :: "gem_desc \<Rightarrow> nat" where
  "tx_len d = unat (Ctrl d AND GEM_TXDESC_CTRL_LENGTH_MASK)"

definition tx_frame :: "'s gem \<Rightarrow> nat \<Rightarrow> u64 \<times> u8 list" where
  "tx_frame g i = (the (TxUserBuffer g ! i),
     bytes_at (TxMem g) (i * GEM_TX_BUFFER_SIZE) (tx_len (TxDesc g ! i)))"

definition tx_abs :: "'s gem \<Rightarrow> (u64 \<times> u8 list) list" where
  "tx_abs g = map (\<lambda>k. tx_frame g (tx_slot g k)) [0..<tx_count g]"

definition tx_desc_ok :: "u64 \<Rightarrow> nat \<Rightarrow> gem_desc \<Rightarrow> bool" where
  "tx_desc_ok b i d =
     (Addr d = Addr (tx_desc b i) \<and> AddrHi d = AddrHi (tx_desc b i) \<and>
      (Ctrl d AND GEM_TXDESC_CTRL_WRAP \<noteq> 0 \<longleftrightarrow> i = GEM_TX_DESC_COUNT - 1) \<and>
      tx_len d \<le> GEM_MAX_FRAME_SIZE)"

text \<open>
  At most eight frames are in flight, each with its caller's buffer; every descriptor points
  into its own bounce buffer and only the last one wraps; a descriptor that holds no frame has
  its USED bit set, so the hardware does not send it.
\<close>

definition tx_inv :: "'s gem \<Rightarrow> bool" where
  "tx_inv g =
     (length (TxDesc g) = GEM_TX_DESC_COUNT \<and> length (TxUserBuffer g) = GEM_TX_DESC_COUNT \<and>
      tx_count g \<le> GEM_TX_DESC_COUNT \<and>
      (\<forall>k<GEM_TX_DESC_COUNT.
         (k < tx_count g \<longrightarrow> TxUserBuffer g ! tx_slot g k \<noteq> None) \<and>
         (tx_count g \<le> k \<longrightarrow> Ctrl (TxDesc g ! tx_slot g k) AND GEM_TXDESC_CTRL_USED \<noteq> 0)) \<and>
      (\<forall>i<GEM_TX_DESC_COUNT. tx_desc_ok (ptr (TxBuffers g)) i (TxDesc g ! i)))"

definition GEM_TXDESC_CTRL_ERRS :: u32 where
  "GEM_TXDESC_CTRL_ERRS = 0x20000000 OR 0x8000000 OR 0x4000000"

text \<open>The hardware completes descriptor \<open>i\<close>: it sets USED and any error bits.\<close>

definition tx_complete :: "nat \<times> u32 \<Rightarrow> 's gem \<Rightarrow> 's gem" where
  "tx_complete ie g =
     (case ie of (i, e) \<Rightarrow>
       if i < length (TxDesc g) then
         g\<lparr>TxDesc := (TxDesc g)[i := (TxDesc g ! i)\<lparr>Ctrl :=
            Ctrl (TxDesc g ! i) OR GEM_TXDESC_CTRL_USED OR (e AND GEM_TXDESC_CTRL_ERRS)\<rparr>]\<rparr>
       else g)"

text \<open>The driver's side: the caller's buffer and the frame, at most the MAC's frame size.\<close>

definition tx_put :: "'s iodev \<Rightarrow> u64 \<times> u8 list \<Rightarrow> 's gem \<Rightarrow> 's gem option" where
  "tx_put D e g =
     (case e of (ub, bs) \<Rightarrow>
       if length bs > GEM_MAX_FRAME_SIZE then None
       else (case GemTransmitFrame D ub (\<lambda>i. bs ! i) (length bs) g of (st, g') \<Rightarrow>
               if st = EFI_SUCCESS then Some g' else None))"

definition tx_get :: "'s iodev \<Rightarrow> 's gem \<Rightarrow> (u64 \<times> 's gem) option" where
  "tx_get D g =
     (case GemGetRecycledTxBuffer D g of (b, g') \<Rightarrow>
        (case b of None \<Rightarrow> None | Some ub \<Rightarrow> Some (ub, g')))"

lemma tx_consts: "GEM_TX_DESC_COUNT = 8" "GEM_TX_BUFFER_SIZE = 2048" "GEM_MAX_FRAME_SIZE = 1536"
  by (simp_all add: GEM_TX_DESC_COUNT_def GEM_TX_BUFFER_SIZE_def GEM_MAX_FRAME_SIZE_def)

lemma gem_do_sel [simp]:
  "GemBase (gem_do m g) = GemBase g" "SnpMode (gem_do m g) = SnpMode g" "Lock (gem_do m g) = Lock g"
  "PhyAddr (gem_do m g) = PhyAddr g" "LinkUp (gem_do m g) = LinkUp g"
  "DescBuffer (gem_do m g) = DescBuffer g" "RxRing (gem_do m g) = RxRing g"
  "TxRing (gem_do m g) = TxRing g" "RxBuffers (gem_do m g) = RxBuffers g"
  "TxBuffers (gem_do m g) = TxBuffers g" "RxHead (gem_do m g) = RxHead g"
  "TxProd (gem_do m g) = TxProd g" "TxCons (gem_do m g) = TxCons g"
  "TxUserBuffer (gem_do m g) = TxUserBuffer g" "RxDesc (gem_do m g) = RxDesc g"
  "TxDesc (gem_do m g) = TxDesc g" "RxMem (gem_do m g) = RxMem g" "TxMem (gem_do m g) = TxMem g"
  "dma (gem_do m g) = dma g" "io (gem_do m g) = snd (run_state m (io g))"
  "NullRxDesc (gem_do m g) = NullRxDesc g" "NullTxDesc (gem_do m g) = NullTxDesc g"
  by (simp_all add: gem_do_def)

lemma unat_add_mod8: "unat (c + of_nat k :: u16) mod 8 = (unat c + k) mod 8"
proof -
  have "unat (c + of_nat k) = (unat c + k) mod 65536"
    by (simp add: unat_word_ariths unat_of_nat mod_simps)
  then show ?thesis by (simp add: mod_mod_cancel)
qed

lemma tx_prod_eq: "TxProd g = TxCons g + of_nat (tx_count g)"
  by (simp add: tx_count_def)

lemma tx_index_prod: "tx_index (TxProd g) = tx_slot g (tx_count g)"
  unfolding tx_index_def tx_slot_def by (subst tx_prod_eq) (simp add: tx_consts unat_add_mod8)

lemma tx_slot_less: "tx_slot g k < 8"
  by (simp add: tx_slot_def tx_consts)

lemma tx_slot_inj:
  assumes "k < 8" and "j < 8" shows "tx_slot g k = tx_slot g j \<longleftrightarrow> k = j"
proof -
  let ?a = "unat (TxCons g) mod 8"
  have w: "(?a + i) mod 8 = (if ?a + i < 8 then ?a + i else ?a + i - 8)" if "i < 8" for i
    using that by (simp add: mod_if [of "?a + i"])
  have "?a < 8" by simp
  then have "(?a + k) mod 8 = (?a + j) mod 8 \<longleftrightarrow> k = j"
    unfolding w [OF assms(1)] w [OF assms(2)] using assms by (auto split: if_splits)
  then show ?thesis by (simp add: tx_slot_def tx_consts mod_simps)
qed

lemma tx_inv_cases:
  assumes "tx_inv g"
  shows "length (TxDesc g) = 8" "length (TxUserBuffer g) = 8" "tx_count g \<le> 8"
    "k < tx_count g \<Longrightarrow> TxUserBuffer g ! tx_slot g k \<noteq> None"
    "tx_count g \<le> k \<Longrightarrow> k < 8 \<Longrightarrow> Ctrl (TxDesc g ! tx_slot g k) AND GEM_TXDESC_CTRL_USED \<noteq> 0"
    "i < 8 \<Longrightarrow> tx_desc_ok (ptr (TxBuffers g)) i (TxDesc g ! i)"
  using assms by (auto simp: tx_inv_def tx_consts)

lemma tx_ctrl_fields:
  assumes "len \<le> GEM_MAX_FRAME_SIZE"
  shows "unat (tx_ctrl i len AND GEM_TXDESC_CTRL_LENGTH_MASK) = len"
    and "tx_ctrl i len AND GEM_TXDESC_CTRL_WRAP \<noteq> 0 \<longleftrightarrow> i = GEM_TX_DESC_COUNT - 1"
    and "tx_ctrl i len AND GEM_TXDESC_CTRL_USED = 0"
    and "tx_ctrl i len AND GEM_TXDESC_CTRL_LAST_BUF \<noteq> 0"
proof -
  note defs = tx_ctrl_def GEM_TXDESC_CTRL_LENGTH_MASK_def GEM_TXDESC_CTRL_LAST_BUF_def
    GEM_TXDESC_CTRL_WRAP_def GEM_TXDESC_CTRL_USED_def
  have len: "len \<le> 1536" using assms by (simp add: tx_consts)
  have m: "tx_ctrl i len AND GEM_TXDESC_CTRL_LENGTH_MASK = of_nat len AND mask 14"
    unfolding defs by (rule u32_eqI) (simp add: u32_bits mask_numeral)
  have "unat (of_nat len :: u32) = len"
    using len by (simp add: unat_of_nat)
  with len show "unat (tx_ctrl i len AND GEM_TXDESC_CTRL_LENGTH_MASK) = len"
    unfolding m by (subst and_mask_small) simp_all
  have "tx_ctrl i len AND GEM_TXDESC_CTRL_WRAP =
    (if i = GEM_TX_DESC_COUNT - 1 then GEM_TXDESC_CTRL_WRAP else 0)"
    unfolding defs by (rule u32_eqI) (simp add: u32_bits)
  then show "tx_ctrl i len AND GEM_TXDESC_CTRL_WRAP \<noteq> 0 \<longleftrightarrow> i = GEM_TX_DESC_COUNT - 1"
    by (simp add: GEM_TXDESC_CTRL_WRAP_def)
  show "tx_ctrl i len AND GEM_TXDESC_CTRL_USED = 0"
    unfolding defs by (rule u32_eqI) (simp add: u32_bits)
  have "tx_ctrl i len AND GEM_TXDESC_CTRL_LAST_BUF = GEM_TXDESC_CTRL_LAST_BUF"
    unfolding defs by (rule u32_eqI) (simp add: u32_bits)
  then show "tx_ctrl i len AND GEM_TXDESC_CTRL_LAST_BUF \<noteq> 0"
    by (simp add: GEM_TXDESC_CTRL_LAST_BUF_def)
qed

lemma bytes_at_nth: "bytes_at (\<lambda>i. bs ! i) 0 (length bs) = bs"
  by (rule nth_equalityI) (simp_all add: bytes_at_def)

lemma bytes_at_CopyMem_len: "length xs = n \<Longrightarrow> bytes_at (CopyMem p off xs) off n = xs"
  using bytes_at_CopyMem [of p off xs] by simp

lemma bytes_at_CopyMem_other:
  "n \<le> 2048 \<Longrightarrow> length xs \<le> 2048 \<Longrightarrow> i \<noteq> j \<Longrightarrow>
   bytes_at (CopyMem p (i * 2048) xs) (j * 2048) n = bytes_at p (j * 2048) n"
proof -
  assume "n \<le> 2048" "length xs \<le> 2048" "i \<noteq> j"
  moreover from this have "Suc i \<le> j \<or> Suc j \<le> i" by linarith
  then have "Suc i * 2048 \<le> j * 2048 \<or> Suc j * 2048 \<le> i * 2048" by (metis mult_le_mono1)
  ultimately show ?thesis by (intro bytes_at_cong CopyMem_outside) auto
qed

lemma transmit_eq:
  assumes "tx_inv g" and "tx_count g < 8"
  defines "i \<equiv> tx_slot g (tx_count g)"
  shows "GemTransmitFrame D ub f n g = (EFI_SUCCESS,
    gem_do (MmioOr32 D (GemBase g + GEM_NET_CTRL) GEM_NET_CTRL_START_TX)
      (g\<lparr>TxMem := CopyMem (TxMem g) (i * 2048) (bytes_at f 0 n),
         TxDesc := (TxDesc g)[i := (TxDesc g ! i)\<lparr>Ctrl := tx_ctrl i n\<rparr>],
         TxUserBuffer := (TxUserBuffer g)[i := Some ub], TxProd := TxProd g + 1\<rparr>))"
  using assms(2) tx_inv_cases(1) [OF assms(1)] tx_slot_less [of g "tx_count g"]
  by (simp add: GemTransmitFrame_def Let_def tx_index_prod i_def [symmetric] desc_at_def tx_consts
      tx_count_def [symmetric])

lemma transmit_full: "8 \<le> tx_count g \<Longrightarrow> GemTransmitFrame D ub f n g = (EFI_NOT_READY, g)"
  by (simp add: GemTransmitFrame_def tx_count_def tx_consts)

lemma count_Suc: "unat (p - c :: u16) < 8 \<Longrightarrow> unat (p + 1 - c) = Suc (unat (p - c))"
proof -
  assume lt: "unat (p - c) < 8"
  have "1 + (p - c) \<noteq> 0"
  proof
    assume "1 + (p - c) = 0"
    then have "p - c = - 1" by (simp add: eq_neg_iff_add_eq_0 add.commute)
    then show False using lt by (simp add: unsigned_minus_1_eq_mask mask_numeral)
  qed
  then have "unat (1 + (p - c)) = Suc (unat (p - c))" by (rule unatSuc)
  then show ?thesis by (simp add: algebra_simps)
qed

lemma count_pred: "c \<noteq> (p :: u16) \<Longrightarrow> unat (p - (c + 1)) = unat (p - c) - 1"
proof -
  assume "c \<noteq> p"
  then have "p - c \<noteq> 0" by simp
  then have "unat (p - c - 1) = unat (p - c) - 1" by (rule unat_minus_one)
  then show ?thesis by (simp add: diff_diff_eq)
qed

lemma transmit_refines:
  assumes inv: "tx_inv g" and n: "tx_count g < 8" and len: "length bs \<le> GEM_MAX_FRAME_SIZE"
    and run: "GemTransmitFrame D ub (\<lambda>i. bs ! i) (length bs) g = (st, g')"
  shows "st = EFI_SUCCESS" and "tx_inv g'" and "tx_abs g' = tx_abs g @ [(ub, bs)]"
proof -
  define i where "i = tx_slot g (tx_count g)"
  note [simp] = tx_inv_cases(1,2) [OF inv]
  have i: "i < 8" by (simp add: i_def tx_slot_less)
  note run' = run [unfolded transmit_eq [OF inv n] bytes_at_nth, folded i_def]
  show "st = EFI_SUCCESS" using run' by simp
  have count: "tx_count g' = Suc (tx_count g)" and slot: "tx_slot g' k = tx_slot g k"
    and desc: "TxDesc g' = (TxDesc g)[i := (TxDesc g ! i)\<lparr>Ctrl := tx_ctrl i (length bs)\<rparr>]"
    and user: "TxUserBuffer g' = (TxUserBuffer g)[i := Some ub]"
    and mem: "TxMem g' = CopyMem (TxMem g) (i * 2048) bs" and base: "TxBuffers g' = TxBuffers g" for k
    using run' n count_Suc [of "TxProd g" "TxCons g"] by (auto simp: tx_count_def tx_slot_def)
  have other: "tx_slot g k \<noteq> i" if "k < 8" "k \<noteq> tx_count g" for k
    using that n tx_slot_inj [of k "tx_count g" g] by (simp add: i_def)
  note ctrl = tx_ctrl_fields [OF len, of i]
  have "tx_desc_ok (ptr (TxBuffers g')) k (TxDesc g' ! k)" if "k < 8" for k
    using tx_inv_cases(6) [OF inv that] ctrl len that
    by (cases "k = i") (simp_all add: desc base tx_desc_ok_def tx_len_def)
  moreover have "TxUserBuffer g' ! tx_slot g' k \<noteq> None" if "k < tx_count g'" for k
    using that tx_inv_cases(4) [OF inv, of k] other [of k] n i
    by (cases "k = tx_count g") (simp_all add: user slot count i_def [symmetric])
  moreover have "Ctrl (TxDesc g' ! tx_slot g' k) AND GEM_TXDESC_CTRL_USED \<noteq> 0"
    if "tx_count g' \<le> k" "k < 8" for k
    using that tx_inv_cases(5) [OF inv, of k] other [of k] by (simp add: desc slot count)
  ultimately show "tx_inv g'"
    using n by (simp add: tx_inv_def tx_consts count desc user)
  have old: "tx_frame g' (tx_slot g k) = tx_frame g (tx_slot g k)" if "k < tx_count g" for k
  proof -
    have ne: "tx_slot g k \<noteq> i" using that n other [of k] by simp
    have "tx_len (TxDesc g ! tx_slot g k) \<le> 2048"
      using tx_inv_cases(6) [OF inv, of "tx_slot g k"] tx_slot_less [of g k]
      by (simp add: tx_desc_ok_def tx_consts)
    with ne len show ?thesis
      by (simp add: tx_frame_def desc user mem tx_consts bytes_at_CopyMem_other)
  qed
  have new: "tx_frame g' i = (ub, bs)"
    using i ctrl(1) by (simp add: tx_frame_def desc user mem tx_len_def tx_consts bytes_at_CopyMem)
  have "tx_abs g' = map (\<lambda>k. tx_frame g' (tx_slot g k)) [0..<tx_count g] @ [tx_frame g' i]"
    by (simp add: tx_abs_def count slot i_def)
  then show "tx_abs g' = tx_abs g @ [(ub, bs)]" by (simp add: tx_abs_def old new)
qed

lemma recycle_refines:
  assumes inv: "tx_inv g" and get: "tx_get D g = Some (ub, g')"
  shows "tx_inv g'" and "\<exists>bs. tx_abs g = (ub, bs) # tx_abs g'"
proof -
  define i where "i = tx_slot g 0"
  note [simp] = tx_inv_cases(1,2) [OF inv]
  have i: "i < 8" by (simp add: i_def tx_slot_less)
  have idx: "tx_index (TxCons g) = i" by (simp add: tx_index_def i_def tx_slot_def)
  have ne: "TxCons g \<noteq> TxProd g" and used: "Ctrl (TxDesc g ! i) AND GEM_TXDESC_CTRL_USED \<noteq> 0"
    and ub: "TxUserBuffer g ! i = Some ub" and desc: "TxDesc g' = TxDesc g"
    and user: "TxUserBuffer g' = (TxUserBuffer g)[i := None]" and mem: "TxMem g' = TxMem g"
    and cons: "TxCons g' = TxCons g + 1" and prod: "TxProd g' = TxProd g"
    and base: "TxBuffers g' = TxBuffers g"
    using get i by (auto simp: tx_get_def GemGetRecycledTxBuffer_def Let_def idx desc_at_def
        split: if_splits option.splits)
  have pos: "0 < tx_count g" using ne by (auto simp: tx_count_def unat_gt_0)
  have count: "tx_count g' = tx_count g - 1"
    using count_pred [OF ne] by (simp add: tx_count_def cons prod)
  have slot: "tx_slot g' k = tx_slot g (Suc k)" for k
    using unat_add_mod8 [of "TxCons g" 1] by (simp add: tx_slot_def tx_consts cons) (metis add.commute mod_add_left_eq plus_1_eq_Suc add.assoc)
  have le8: "tx_count g \<le> 8" by (rule tx_inv_cases(3) [OF inv])
  have other: "tx_slot g (Suc k) \<noteq> i" if "Suc k < 8" for k
    using that tx_slot_inj [of "Suc k" 0 g] by (simp add: i_def)
  have wrap: "tx_slot g 8 = i" by (simp add: tx_slot_def i_def tx_consts)
  have "TxUserBuffer g' ! tx_slot g' k \<noteq> None" if "k < tx_count g'" for k
  proof -
    have "Suc k < tx_count g" "Suc k < 8" using that le8 by (simp_all add: count)
    with tx_inv_cases(4) [OF inv, of "Suc k"] other [of k] show ?thesis by (simp add: user slot)
  qed
  moreover have "Ctrl (TxDesc g' ! tx_slot g' k) AND GEM_TXDESC_CTRL_USED \<noteq> 0"
    if "tx_count g' \<le> k" "k < 8" for k
    using that tx_inv_cases(5) [OF inv, of "Suc k"] used wrap pos
    by (cases "k = 7") (simp_all add: desc slot count)
  ultimately show "tx_inv g'"
    using tx_inv_cases(6) [OF inv] le8 by (simp add: tx_inv_def tx_consts count desc user base)
  have "tx_frame g' (tx_slot g (Suc k)) = tx_frame g (tx_slot g (Suc k))" if "k < tx_count g'" for k
  proof -
    have "tx_slot g (Suc k) \<noteq> i" using that other [of k] le8 count by linarith
    then show ?thesis by (simp add: tx_frame_def desc user mem)
  qed
  then have "tx_abs g' = map (\<lambda>k. tx_frame g (tx_slot g (Suc k))) [0..<tx_count g - 1]"
    by (simp add: tx_abs_def slot count)
  moreover have "[0..<tx_count g] = 0 # map Suc [0..<tx_count g - 1]"
    using pos by (simp add: map_Suc_upt upt_conv_Cons)
  ultimately have "tx_abs g = tx_frame g i # tx_abs g'"
    by (simp add: tx_abs_def i_def o_def)
  then show "\<exists>bs. tx_abs g = (ub, bs) # tx_abs g'" by (simp add: tx_frame_def ub)
qed

lemma complete_ctrl:
  fixes c e
  defines "v \<equiv> c OR GEM_TXDESC_CTRL_USED OR (e AND GEM_TXDESC_CTRL_ERRS)"
  shows "v AND GEM_TXDESC_CTRL_LENGTH_MASK = c AND GEM_TXDESC_CTRL_LENGTH_MASK"
    and "v AND GEM_TXDESC_CTRL_WRAP = c AND GEM_TXDESC_CTRL_WRAP"
    and "v AND GEM_TXDESC_CTRL_USED \<noteq> 0"
proof -
  note defs = v_def GEM_TXDESC_CTRL_LENGTH_MASK_def GEM_TXDESC_CTRL_ERRS_def
    GEM_TXDESC_CTRL_WRAP_def GEM_TXDESC_CTRL_USED_def
  show "v AND GEM_TXDESC_CTRL_LENGTH_MASK = c AND GEM_TXDESC_CTRL_LENGTH_MASK"
    "v AND GEM_TXDESC_CTRL_WRAP = c AND GEM_TXDESC_CTRL_WRAP"
    unfolding defs by (rule u32_eqI, simp add: u32_bits)+
  have "v AND GEM_TXDESC_CTRL_USED = GEM_TXDESC_CTRL_USED"
    unfolding defs by (rule u32_eqI) (simp add: u32_bits)
  then show "v AND GEM_TXDESC_CTRL_USED \<noteq> 0" by (simp add: GEM_TXDESC_CTRL_USED_def)
qed

lemma complete_refines:
  assumes inv: "tx_inv g"
  shows "tx_inv (tx_complete ie g)" and "tx_abs (tx_complete ie g) = tx_abs g"
proof -
  obtain i e where ie: "ie = (i, e)" by force
  have d: "tx_len (TxDesc (tx_complete ie g) ! k) = tx_len (TxDesc g ! k)"
    "tx_desc_ok b k (TxDesc (tx_complete ie g) ! k) = tx_desc_ok b k (TxDesc g ! k)"
    "Ctrl (TxDesc g ! k) AND GEM_TXDESC_CTRL_USED \<noteq> 0 \<Longrightarrow>
       Ctrl (TxDesc (tx_complete ie g) ! k) AND GEM_TXDESC_CTRL_USED \<noteq> 0" for b k
    by (cases "k = i", simp_all add: ie tx_complete_def tx_len_def tx_desc_ok_def complete_ctrl
        split: if_splits)+
  have s: "tx_count (tx_complete ie g) = tx_count g" "tx_slot (tx_complete ie g) k = tx_slot g k"
    "TxUserBuffer (tx_complete ie g) = TxUserBuffer g" "TxMem (tx_complete ie g) = TxMem g"
    "TxBuffers (tx_complete ie g) = TxBuffers g"
    "length (TxDesc (tx_complete ie g)) = length (TxDesc g)" for k
    by (simp_all add: ie tx_complete_def tx_count_def tx_slot_def)
  show "tx_inv (tx_complete ie g)" using inv d by (simp add: tx_inv_def s)
  show "tx_abs (tx_complete ie g) = tx_abs g" by (simp add: tx_abs_def tx_frame_def s d)
qed

lemma tx_put_eq:
  assumes "tx_inv g"
  shows "tx_put D e g = None \<longleftrightarrow> length (snd e) > GEM_MAX_FRAME_SIZE \<or> length (tx_abs g) = GEM_TX_DESC_COUNT"
proof -
  obtain ub bs where e: "e = (ub, bs)" by force
  have le: "tx_count g \<le> 8" by (rule tx_inv_cases(3) [OF assms])
  show ?thesis
  proof (cases "tx_count g < 8")
    case True
    with transmit_eq [OF assms] show ?thesis by (simp add: e tx_put_def tx_abs_def tx_consts)
  next
    case False
    with le transmit_full [of g] show ?thesis by (simp add: e tx_put_def tx_abs_def tx_consts)
  qed
qed

interpretation txq: frame_queue tx_inv tx_abs fst GEM_TX_DESC_COUNT "tx_put D" "tx_get D" tx_complete
  for D :: "'s iodev"
proof
  fix q q' :: "'s gem" and e r h
  assume inv: "tx_inv q"
  show "length (tx_abs q) \<le> GEM_TX_DESC_COUNT"
    using tx_inv_cases(3) [OF inv] by (simp add: tx_abs_def tx_consts)
  show "tx_inv q' \<and> tx_abs q' = tx_abs q @ [e]" if put: "tx_put D e q = Some q'"
  proof -
    obtain ub bs where e: "e = (ub, bs)" by force
    obtain st g where run: "GemTransmitFrame D ub (\<lambda>i. bs ! i) (length bs) q = (st, g)" by force
    with put e have "length bs \<le> GEM_MAX_FRAME_SIZE" "q' = g"
      by (auto simp: tx_put_def split: if_splits)
    moreover have "tx_count q < 8"
      using put tx_put_eq [OF inv, of D e] tx_inv_cases(3) [OF inv] by (simp add: tx_abs_def tx_consts)
    ultimately show ?thesis using transmit_refines [OF inv _ _ run] e by simp
  qed
  show "tx_inv q' \<and> (\<exists>e. tx_abs q = e # tx_abs q' \<and> fst e = r)" if "tx_get D q = Some (r, q')"
    using recycle_refines [OF inv that] by auto
  show "tx_inv (tx_complete h q) \<and> tx_abs (tx_complete h q) = tx_abs q"
    using complete_refines [OF inv] by blast
qed

lemma init_rings_sel:
  "TxProd (GemInitRings D g) = 0" "TxCons (GemInitRings D g) = 0" "RxHead (GemInitRings D g) = 0"
  "TxDesc (GemInitRings D g) = map (tx_desc (ptr (TxBuffers g))) [0..<8]"
  "RxDesc (GemInitRings D g) = map (rx_desc (ptr (RxBuffers g))) [0..<16]"
  "TxUserBuffer (GemInitRings D g) = replicate 8 None"
  "TxBuffers (GemInitRings D g) = TxBuffers g" "RxBuffers (GemInitRings D g) = RxBuffers g"
  by (simp_all add: GemInitRings_def Let_def tx_consts GEM_RX_DESC_COUNT_def del: upt_Suc)

lemma init_tx: "tx_inv (GemInitRings D g)" "tx_abs (GemInitRings D g) = []"
proof -
  have c: "tx_count (GemInitRings D g) = 0" by (simp add: tx_count_def init_rings_sel)
  have d: "tx_desc_ok b i (tx_desc b i)" "Ctrl (tx_desc b i) AND GEM_TXDESC_CTRL_USED \<noteq> 0" for b i
    by (simp_all add: tx_desc_ok_def tx_desc_def Let_def tx_len_def GEM_TXDESC_CTRL_USED_def
        GEM_TXDESC_CTRL_WRAP_def GEM_TXDESC_CTRL_LENGTH_MASK_def)
  show "tx_inv (GemInitRings D g)"
    using d tx_slot_less [of "GemInitRings D g"] by (simp add: tx_inv_def tx_consts c init_rings_sel del: upt_Suc)
  show "tx_abs (GemInitRings D g) = []" by (simp add: tx_abs_def c)
qed

text \<open>
  C8: Transmit order. Starting from freshly initialised rings, under any sequence of transmit
  calls, reclaim calls and hardware completions, the buffers handed back for recycling are
  exactly the first buffers accepted, in the order of acceptance, each once; the frames still
  in the ring, read through the descriptors as the hardware reads them, are byte for byte the
  remaining accepted frames; at most eight are in flight; descriptors that hold no frame keep
  the hardware out; and a frame is refused only when it is too long or the ring is full.
\<close>

theorem tx_ring_fifo:
  "case q_run (tx_put D) (tx_get D) tx_complete ops (GemInitRings D g) of (acc, ret, g') \<Rightarrow>
     ret = map fst (take (length ret) acc) \<and> tx_abs g' = drop (length ret) acc \<and>
     length (tx_abs g') \<le> GEM_TX_DESC_COUNT \<and> tx_inv g' \<and>
     (tx_put D e g' = None \<longleftrightarrow>
        length (snd e) > GEM_MAX_FRAME_SIZE \<or> length (tx_abs g') = GEM_TX_DESC_COUNT)"
proof -
  obtain acc ret g' where run:
    "q_run (tx_put D) (tx_get D) tx_complete ops (GemInitRings D g) = (acc, ret, g')"
    by (metis prod_cases3)
  show ?thesis
    using txq.fifo [OF init_tx(1) run] tx_put_eq [of g' D e] by (simp add: run init_tx(2))
qed

subsection \<open>The receive ring\<close>

text \<open>
  The descriptors in the order the driver will look at them, each with its index. The frames
  waiting are those of the leading descriptors that the hardware has handed over; the ones
  the driver drops are not among them.
\<close>

definition rx_view :: "'s gem \<Rightarrow> (nat \<times> gem_desc) list" where
  "rx_view g = rotate (unat (RxHead g)) (zip [0..<GEM_RX_DESC_COUNT] (RxDesc g))"

definition rx_bytes :: "buf \<Rightarrow> nat \<times> gem_desc \<Rightarrow> u8 list" where
  "rx_bytes m e = bytes_at m (fst e * GEM_RX_BUFFER_SIZE) (rx_len (snd e))"

definition rx_given :: "(nat \<times> gem_desc) list \<Rightarrow> (nat \<times> gem_desc) list" where
  "rx_given v = takeWhile (\<lambda>e. rx_owned (snd e)) v"

definition rx_abs :: "'s gem \<Rightarrow> u8 list list" where
  "rx_abs g = map (rx_bytes (RxMem g)) (filter (\<lambda>e. \<not> rx_bad (snd e)) (rx_given (rx_view g)))"

definition rx_inv :: "'s gem \<Rightarrow> bool" where
  "rx_inv g =
     (length (RxDesc g) = GEM_RX_DESC_COUNT \<and> unat (RxHead g) < GEM_RX_DESC_COUNT \<and>
      (\<forall>e \<in> set (drop (length (rx_given (rx_view g))) (rx_view g)). \<not> rx_owned (snd e)))"

text \<open>
  The hardware receives into the first descriptor it still owns: it writes the bytes into that
  descriptor's buffer and hands the descriptor over with control word \<open>c\<close>; with no descriptor
  left it discards the frame.
\<close>

definition rx_deliver :: "u32 \<Rightarrow> u8 list \<Rightarrow> 's gem \<Rightarrow> 's gem option" where
  "rx_deliver c bs g =
     (case drop (length (rx_given (rx_view g))) (rx_view g) of
        [] \<Rightarrow> None
      | (i, d) # _ \<Rightarrow>
          Some (g\<lparr>RxMem := CopyMem (RxMem g) (i * GEM_RX_BUFFER_SIZE) (take GEM_RX_BUFFER_SIZE bs),
                  RxDesc := (RxDesc g)[i := d\<lparr>Ctrl := c, Addr := Addr d OR GEM_RXDESC_ADDR_OWN\<rparr>]\<rparr>))"

text \<open>A whole frame, and a fragment or runt that the driver has to drop.\<close>

definition rx_put :: "u8 list \<Rightarrow> 's gem \<Rightarrow> 's gem option" where
  "rx_put bs g =
     (if length bs < GEM_ETHER_HEADER_SIZE \<or> length bs > GEM_MAX_FRAME_SIZE then None
      else rx_deliver (GEM_RXDESC_CTRL_SOF OR GEM_RXDESC_CTRL_EOF OR of_nat (length bs)) bs g)"

definition rx_junk :: "u32 \<times> u8 list \<Rightarrow> 's gem \<Rightarrow> 's gem" where
  "rx_junk cb g =
     (case cb of (c, bs) \<Rightarrow>
       if rx_bad \<lparr>Addr = 0, Ctrl = c, AddrHi = 0, Unused = 0\<rparr>
       then (case rx_deliver c bs g of None \<Rightarrow> g | Some g' \<Rightarrow> g')
       else g)"

definition rx_get :: "'s iodev \<Rightarrow> 's gem \<Rightarrow> (u8 list \<times> 's gem) option" where
  "rx_get D g =
     (case GemReceiveFrame D GEM_RX_BUFFER_SIZE g of
        ((st, n, bs), g') \<Rightarrow> if st = EFI_SUCCESS then Some (bs, g') else None)"

lemma rx_consts: "GEM_RX_DESC_COUNT = 16" "GEM_RX_BUFFER_SIZE = 2048"
  "GEM_ETHER_HEADER_SIZE = 14"
  by (simp_all add: GEM_RX_DESC_COUNT_def GEM_RX_BUFFER_SIZE_def GEM_ETHER_HEADER_SIZE_def)

lemma rotate_update_head:
  assumes "h < length xs"
  shows "rotate (Suc h mod length xs) (xs[h := y]) = tl (rotate h xs) @ [y]"
    and "hd (rotate h xs) = xs ! h"
proof -
  let ?n = "length xs"
  have r: "rotate h xs = xs ! h # drop (Suc h) xs @ take h xs"
    using assms by (simp add: rotate_drop_take Cons_nth_drop_Suc)
  then show "hd (rotate h xs) = xs ! h" by simp
  have "rotate (Suc h mod ?n) (xs[h := y]) = rotate1 (rotate h (xs[h := y]))"
    by (metis length_list_update rotate_conv_mod rotate_Suc)
  also have "rotate h (xs[h := y]) = y # drop (Suc h) xs @ take h xs"
    using assms by (simp add: rotate_drop_take Cons_nth_drop_Suc [symmetric])
  finally show "rotate (Suc h mod ?n) (xs[h := y]) = tl (rotate h xs) @ [y]"
    by (simp add: r)
qed

lemma zip_upt_update:
  "length ds = n \<Longrightarrow> i < n \<Longrightarrow> zip [0..<n] (ds[i := d]) = (zip [0..<n] ds)[i := (i, d)]"
  by (rule nth_equalityI) (auto simp: nth_list_update)

lemma rx_view_props:
  assumes "rx_inv g"
  shows "length (rx_view g) = 16" and "distinct (map fst (rx_view g))"
    and "(i, d) \<in> set (rx_view g) \<Longrightarrow> i < 16 \<and> RxDesc g ! i = d"
    and "hd (rx_view g) = (unat (RxHead g), desc_at (RxDesc g) (unat (RxHead g)))"
proof -
  have l: "length (RxDesc g) = 16" and h: "unat (RxHead g) < 16"
    using assms by (simp_all add: rx_inv_def rx_consts)
  show "length (rx_view g) = 16" by (simp add: rx_view_def rx_consts l del: upt_Suc)
  show "distinct (map fst (rx_view g))"
    by (simp add: rx_view_def rotate_map [symmetric] rx_consts l del: upt_Suc)
  show "(i, d) \<in> set (rx_view g) \<Longrightarrow> i < 16 \<and> RxDesc g ! i = d"
    by (auto simp: rx_view_def rx_consts l set_zip simp del: upt_Suc)
  show "hd (rx_view g) = (unat (RxHead g), desc_at (RxDesc g) (unat (RxHead g)))"
    using h l rotate_update_head(2) [of "unat (RxHead g)" "zip [0..<16] (RxDesc g)"]
    by (simp add: rx_view_def rx_consts desc_at_def del: upt_Suc)
qed

lemma rx_view_recycle:
  assumes "rx_inv g"
  defines "h \<equiv> unat (RxHead g)"
  shows "rx_view (GemRecycleRxDescriptor h g) =
     tl (rx_view g) @ [(h, rx_release (desc_at (RxDesc g) h))]"
    and "length (RxDesc (GemRecycleRxDescriptor h g)) = 16"
    and "unat (RxHead (GemRecycleRxDescriptor h g)) < 16"
    and "RxMem (GemRecycleRxDescriptor h g) = RxMem g"
proof -
  have l: "length (RxDesc g) = 16" and h: "h < 16"
    using assms by (simp_all add: rx_inv_def rx_consts)
  have u: "unat (of_nat (Suc h mod 16) :: u16) = Suc h mod 16" by (simp add: unat_of_nat)
  have "rx_view (GemRecycleRxDescriptor h g) = rotate (Suc h mod 16)
      ((zip [0..<16] (RxDesc g))[h := (h, rx_release (desc_at (RxDesc g) h))])"
    using h l u by (simp add: rx_view_def GemRecycleRxDescriptor_def rx_consts zip_upt_update del: upt_Suc)
  also have "\<dots> = tl (rx_view g) @ [(h, rx_release (desc_at (RxDesc g) h))]"
    using h l rotate_update_head(1) [of h "zip [0..<16] (RxDesc g)"]
    by (simp add: rx_view_def rx_consts h_def del: upt_Suc)
  finally show "rx_view (GemRecycleRxDescriptor h g) =
     tl (rx_view g) @ [(h, rx_release (desc_at (RxDesc g) h))]" .
  show "length (RxDesc (GemRecycleRxDescriptor h g)) = 16"
    "unat (RxHead (GemRecycleRxDescriptor h g)) < 16"
    "RxMem (GemRecycleRxDescriptor h g) = RxMem g"
    using l u by (simp_all add: GemRecycleRxDescriptor_def rx_consts)
qed

lemma recycle_refines_rx:
  assumes inv: "rx_inv g" and own: "rx_owned (desc_at (RxDesc g) (unat (RxHead g)))"
  defines "h \<equiv> unat (RxHead g)" and "d \<equiv> desc_at (RxDesc g) (unat (RxHead g))"
  shows "rx_inv (GemRecycleRxDescriptor h g)"
    and "rx_abs g = (if rx_bad d then [] else [rx_bytes (RxMem g) (h, d)]) @ rx_abs (GemRecycleRxDescriptor h g)"
proof -
  obtain v where v: "rx_view g = (h, d) # v"
    using rx_view_props(1,4) [OF inv] by (cases "rx_view g") (auto simp: h_def d_def)
  note r = rx_view_recycle [OF inv, folded h_def d_def, unfolded v list.sel]
  let ?ok = "\<lambda>e. rx_owned (snd e)"
  have given: "rx_given (v @ [(h, rx_release d)]) = rx_given v"
    by (auto simp: rx_given_def takeWhile_tail)
  have given0: "rx_given ((h, d) # v) = (h, d) # rx_given v"
    using own by (simp add: rx_given_def d_def)
  have "\<forall>e \<in> set (drop (length (rx_given v)) v). \<not> ?ok e"
    using inv by (simp add: rx_inv_def v given0)
  then show "rx_inv (GemRecycleRxDescriptor h g)"
    using r(2,3) set_drop_subset [of "length (rx_given v) - length v" "[(h, rx_release d)]"]
    by (auto simp: rx_inv_def rx_consts r(1) given)
  show "rx_abs g = (if rx_bad d then [] else [rx_bytes (RxMem g) (h, d)]) @ rx_abs (GemRecycleRxDescriptor h g)"
    by (simp add: rx_abs_def v given0 r(1,4) given)
qed

lemma rx_gem_do [simp]: "rx_inv (gem_do m g) = rx_inv g" "rx_abs (gem_do m g) = rx_abs g"
  "rx_view (gem_do m g) = rx_view g"
  by (simp_all add: rx_inv_def rx_abs_def rx_view_def)

lemma rx_bytes_length: "length (rx_bytes m e) = rx_len (snd e)"
  by (simp add: rx_bytes_def bytes_at_def)

definition rx_post :: "nat \<Rightarrow> u8 list list \<Rightarrow> efi_status \<times> nat \<times> u8 list \<Rightarrow> u8 list list \<Rightarrow> bool" where
  "rx_post n fs r fs' =
     (case fs of
        [] \<Rightarrow> r = (EFI_NOT_READY, n, []) \<and> fs' = []
      | f # rest \<Rightarrow>
          if n < length f then r = (EFI_BUFFER_TOO_SMALL, length f, []) \<and> fs' = f # rest
          else r = (EFI_SUCCESS, length f, f) \<and> fs' = rest)"

lemma receive_refines:
  "rx_inv g \<Longrightarrow> GemReceiveFrame D n g = (r, g') \<Longrightarrow> rx_inv g' \<and> rx_post n (rx_abs g) r (rx_abs g')"
proof (induction D n g rule: GemReceiveFrame.induct)
  case (1 D n g)
  define h where "h = unat (RxHead g)"
  define d where "d = desc_at (RxDesc g) h"
  note run = "1.prems"(2) [unfolded GemReceiveFrame.simps [of D n g] Let_def, folded h_def, folded d_def]
  obtain v where v: "rx_view g = (h, d) # v"
    using rx_view_props(1,4) [OF "1.prems"(1)] by (cases "rx_view g") (auto simp: h_def d_def)
  show ?case
  proof (cases "rx_owned d")
    case False
    then have "rx_abs g = []" by (simp add: rx_abs_def v rx_given_def)
    with False run "1.prems"(1) show ?thesis by (auto simp: rx_post_def)
  next
    case True
    note rec = recycle_refines_rx [OF "1.prems"(1) True [unfolded d_def h_def], folded h_def, folded d_def]
    show ?thesis
    proof (cases "rx_bad d")
      case True
      have "rx_inv g' \<and> rx_post n (rx_abs (GemRecycleRxDescriptor h g)) r (rx_abs g')"
        using "1.IH" [OF h_def d_def _ _ rec(1)] True \<open>rx_owned d\<close> run by simp
      with rec(2) True show ?thesis by simp
    next
      case good: False
      have abs: "rx_abs g = rx_bytes (RxMem g) (h, d) # rx_abs (GemRecycleRxDescriptor h g)"
        using rec(2) good by simp
      show ?thesis
      proof (cases "n < rx_len d")
        case True
        with run \<open>rx_owned d\<close> good "1.prems"(1) abs show ?thesis
          by (auto simp: rx_post_def rx_bytes_length)
      next
        case False
        with run \<open>rx_owned d\<close> good rec(1) abs show ?thesis
          by (auto simp: rx_post_def rx_bytes_length) (simp add: rx_bytes_def)
      qed
    qed
  qed
qed

lemma zip_upt_map_update:
  "length ds = n \<Longrightarrow> zip [0..<n] (ds[i := d]) = map (\<lambda>(j, e). (j, if j = i then d else e)) (zip [0..<n] ds)"
  by (rule nth_equalityI) (auto simp: nth_list_update)

lemma deliver_refines:
  fixes c bs and g g' :: "'s gem"
  assumes inv: "rx_inv g" and del: "rx_deliver c bs g = Some g'"
  defines "xs \<equiv> take GEM_RX_BUFFER_SIZE bs"
    and "d0 \<equiv> \<lparr>Addr = 0, Ctrl = c, AddrHi = 0, Unused = 0\<rparr>"
  shows "rx_inv g'"
    and "rx_bad d0 \<Longrightarrow> rx_abs g' = rx_abs g"
    and "\<not> rx_bad d0 \<Longrightarrow> rx_len d0 = length bs \<Longrightarrow> rx_abs g' = rx_abs g @ [bs]"
proof -
  let ?p = "rx_given (rx_view g)"
  obtain i d rest where rest: "drop (length ?p) (rx_view g) = (i, d) # rest"
    and g': "g' = g\<lparr>RxMem := CopyMem (RxMem g) (i * 2048) xs,
      RxDesc := (RxDesc g)[i := d\<lparr>Ctrl := c, Addr := Addr d OR GEM_RXDESC_ADDR_OWN\<rparr>]\<rparr>"
    using del by (auto simp: rx_deliver_def rx_consts xs_def split: list.splits)
  define d' where "d' = d\<lparr>Ctrl := c, Addr := Addr d OR GEM_RXDESC_ADDR_OWN\<rparr>"
  have own: "rx_owned d'"
  proof -
    have "(Addr d OR GEM_RXDESC_ADDR_OWN) AND GEM_RXDESC_ADDR_OWN = GEM_RXDESC_ADDR_OWN"
      by (rule bit_word_eqI) (auto simp: bit_simps)
    then show ?thesis by (simp add: d'_def rx_owned_def GEM_RXDESC_ADDR_OWN_def)
  qed
  have bad: "rx_bad d' = rx_bad d0" "rx_len d' = rx_len d0"
    by (simp_all add: d'_def d0_def rx_bad_def rx_len_def)
  have split: "rx_view g = ?p @ (i, d) # rest"
  proof -
    have "?p = take (length ?p) (rx_view g)" unfolding rx_given_def by (rule takeWhile_eq_take)
    then show ?thesis using append_take_drop_id [of "length ?p" "rx_view g"] rest by metis
  qed
  have l: "length (RxDesc g) = 16" and h: "unat (RxHead g) < 16"
    using inv by (simp_all add: rx_inv_def rx_consts)
  have "rx_view g' = map (\<lambda>(j, e). (j, if j = i then d' else e)) (rx_view g)"
    using l by (simp add: rx_view_def g' rx_consts d'_def [symmetric] zip_upt_map_update rotate_map del: upt_Suc)
  also have "\<dots> = ?p @ (i, d') # rest"
  proof -
    have "distinct (map fst (?p @ (i, d) # rest))"
      using rx_view_props(2) [OF inv] split by simp
    then have "i \<notin> fst ` set ?p" "i \<notin> fst ` set rest" by auto
    then have "map (\<lambda>(j, e). (j, if j = i then d' else e)) ?p = ?p"
      "map (\<lambda>(j, e). (j, if j = i then d' else e)) rest = rest"
      by (force intro!: map_idI)+
    then show ?thesis by (subst split) simp
  qed
  finally have view: "rx_view g' = ?p @ (i, d') # rest" .
  have pown: "\<forall>e \<in> set ?p. rx_owned (snd e)" by (auto simp: rx_given_def dest: set_takeWhileD)
  have nown: "\<forall>e \<in> set rest. \<not> rx_owned (snd e)" using inv rest by (simp add: rx_inv_def)
  then have "takeWhile (\<lambda>e. rx_owned (snd e)) rest = []" by (cases rest) auto
  then have given: "rx_given (rx_view g') = ?p @ [(i, d')]"
    unfolding view using pown own by (simp add: rx_given_def)
  show "rx_inv g'"
  proof -
    have "drop (length (rx_given (rx_view g'))) (rx_view g') = rest"
    proof -
      have "length (rx_given (rx_view g')) = Suc (length ?p)" by (simp only: given length_append) simp
      then show ?thesis by (simp only:) (simp add: view)
    qed
    moreover have "length (RxDesc g') = 16" "unat (RxHead g') < 16" using l h by (simp_all add: g')
    ultimately show ?thesis using nown by (simp add: rx_inv_def rx_consts)
  qed
  have "rx_bytes (RxMem g') e = rx_bytes (RxMem g) e" if "e \<in> set ?p" "\<not> rx_bad (snd e)" for e
  proof -
    have "fst e \<noteq> i" using rx_view_props(2) [OF inv] that(1) by (subst (asm) split) auto
    with that(2) show ?thesis
      by (simp add: rx_bytes_def g' rx_consts xs_def bytes_at_CopyMem_other rx_bad_def)
  qed
  then have old: "map (rx_bytes (RxMem g')) (filter (\<lambda>e. \<not> rx_bad (snd e)) ?p) = rx_abs g"
    by (simp add: rx_abs_def)
  show "rx_bad d0 \<Longrightarrow> rx_abs g' = rx_abs g"
    using old by (simp add: rx_abs_def given bad)
  assume good: "\<not> rx_bad d0" and len: "rx_len d0 = length bs"
  then have "xs = bs" by (simp add: xs_def rx_bad_def rx_consts)
  then have "rx_bytes (RxMem g') (i, d') = bs"
    by (simp add: rx_bytes_def bad len g' rx_consts bytes_at_CopyMem)
  with good old show "rx_abs g' = rx_abs g @ [bs]"
    by (simp add: rx_abs_def given bad)
qed

lemma put_ctrl:
  assumes "14 \<le> n" and "n \<le> 1536"
  defines "d0 \<equiv> \<lparr>Addr = 0, Ctrl = GEM_RXDESC_CTRL_SOF OR GEM_RXDESC_CTRL_EOF OR of_nat n, AddrHi = 0, Unused = 0\<rparr>"
  shows "rx_len d0 = n" and "\<not> rx_bad d0"
proof -
  note defs = GEM_RXDESC_CTRL_SOF_def GEM_RXDESC_CTRL_EOF_def GEM_RXDESC_CTRL_LENGTH_MASK_def
  have u: "unat (of_nat n :: u32) = n" using assms(2) by (simp add: unat_of_nat)
  have "(GEM_RXDESC_CTRL_SOF OR GEM_RXDESC_CTRL_EOF OR of_nat n) AND GEM_RXDESC_CTRL_LENGTH_MASK
    = (of_nat n AND mask 13 :: u32)"
    unfolding defs by (rule u32_eqI) (simp add: u32_bits mask_numeral)
  also have "\<dots> = of_nat n" by (rule and_mask_small) (use u assms(2) in simp)
  finally show len: "rx_len d0 = n" using u by (simp add: rx_len_def d0_def)
  have "(GEM_RXDESC_CTRL_SOF OR GEM_RXDESC_CTRL_EOF OR of_nat n) AND (GEM_RXDESC_CTRL_SOF OR GEM_RXDESC_CTRL_EOF)
    = (GEM_RXDESC_CTRL_SOF OR GEM_RXDESC_CTRL_EOF :: u32)"
    unfolding defs by (rule u32_eqI) (simp add: u32_bits)
  then show "\<not> rx_bad d0" using len assms(1,2) by (simp add: rx_bad_def d0_def rx_consts)
qed

lemma rx_put_refines:
  assumes "rx_inv g" and "rx_put bs g = Some g'"
  shows "rx_inv g' \<and> rx_abs g' = rx_abs g @ [bs]"
proof -
  have len: "14 \<le> length bs" "length bs \<le> 1536"
    and del: "rx_deliver (GEM_RXDESC_CTRL_SOF OR GEM_RXDESC_CTRL_EOF OR of_nat (length bs)) bs g = Some g'"
    using assms(2) by (auto simp: rx_put_def rx_consts tx_consts split: if_splits)
  show ?thesis
    using deliver_refines [OF assms(1) del] put_ctrl [OF len] by simp
qed

lemma rx_junk_refines: "rx_inv g \<Longrightarrow> rx_inv (rx_junk cb g) \<and> rx_abs (rx_junk cb g) = rx_abs g"
  using deliver_refines(1,2) by (fastforce simp: rx_junk_def split: prod.split option.split)

lemma rx_abs_bound:
  assumes "rx_inv g" shows "length (rx_abs g) \<le> GEM_RX_DESC_COUNT"
proof -
  have "length (rx_abs g) \<le> length (rx_given (rx_view g))" by (simp add: rx_abs_def)
  also have "\<dots> \<le> length (rx_view g)" by (simp add: rx_given_def length_takeWhile_le)
  finally show ?thesis using rx_view_props(1) [OF assms] by (simp add: rx_consts)
qed

interpretation rxq: frame_queue rx_inv rx_abs "\<lambda>f. f" GEM_RX_DESC_COUNT rx_put "rx_get D" rx_junk
  for D :: "'s iodev"
proof
  fix q q' :: "'s gem" and e r h
  assume inv: "rx_inv q"
  show "length (rx_abs q) \<le> GEM_RX_DESC_COUNT" by (rule rx_abs_bound [OF inv])
  show "rx_inv q' \<and> rx_abs q' = rx_abs q @ [e]" if "rx_put e q = Some q'"
    by (rule rx_put_refines [OF inv that])
  show "rx_inv (rx_junk h q) \<and> rx_abs (rx_junk h q) = rx_abs q"
    by (rule rx_junk_refines [OF inv])
  show "rx_inv q' \<and> (\<exists>f. rx_abs q = f # rx_abs q' \<and> f = r)" if get: "rx_get D q = Some (r, q')"
  proof -
    obtain st n bs g where run: "GemReceiveFrame D GEM_RX_BUFFER_SIZE q = ((st, n, bs), g)"
      by (metis prod_cases3 surj_pair)
    with get have "st = EFI_SUCCESS" "bs = r" "g = q'" by (auto simp: rx_get_def split: if_splits)
    with receive_refines [OF inv run] show ?thesis
      by (auto simp: rx_post_def split: list.splits if_splits)
  qed
qed

lemma rx_desc_init: "b AND 3 = 0 \<Longrightarrow> \<not> rx_owned (rx_desc b i)"
proof -
  assume b: "b AND 3 = 0"
  have "\<not> bit b 0"
  proof -
    have "bit (b AND 3) 0 = bit b 0" by (simp add: bit_simps)
    then show ?thesis using b by simp
  qed
  moreover have "bit (b + of_nat (i * 2048)) 0 = bit b 0"
    by (simp add: bit_0 even_add)
  ultimately have "\<not> bit (ucast (b + of_nat (i * 2048)) :: u32) 0" by (simp add: bit_simps)
  then have "\<not> bit (Addr (rx_desc b i)) 0"
    by (simp add: rx_desc_def Let_def rx_consts GEM_RXDESC_ADDR_WRAP_def bit_simps)
  moreover have "rx_owned d = bit (Addr d) 0" for d
    using bit_single_u32(3) [of "Addr d" 0] by (simp add: rx_owned_def GEM_RXDESC_ADDR_OWN_def)
  ultimately show ?thesis by simp
qed

lemma init_rx:
  assumes "ptr (RxBuffers g) AND 3 = 0"
  shows "rx_inv (GemInitRings D g)" and "rx_abs (GemInitRings D g) = []"
proof -
  have n: "\<not> rx_owned (snd e)" if "e \<in> set (rx_view (GemInitRings D g))" for e
    using that rx_desc_init [OF assms] by (auto simp: rx_view_def init_rings_sel set_zip rx_consts simp del: upt_Suc)
  show "rx_inv (GemInitRings D g)"
    using n by (auto simp: rx_inv_def init_rings_sel rx_consts simp del: upt_Suc dest: in_set_dropD)
  have "rx_given (rx_view (GemInitRings D g)) = []"
    using n by (cases "rx_view (GemInitRings D g)") (auto simp: rx_given_def)
  then show "rx_abs (GemInitRings D g) = []" by (simp add: rx_abs_def)
qed


definition gem_with :: "'s \<Rightarrow> 's gem" where
  "gem_with s = \<lparr>GemBase = 0x1F00100000,
     SnpMode = \<lparr>SnpState = EfiSimpleNetworkStopped, MediaHeaderSize = 14, MaxMCastFilterCount = 16,
       ReceiveFilterMask = 0x1F, ReceiveFilterSetting = 0, MCastFilterCount = 0, MCastFilter = [],
       CurrentAddress = replicate 32 0, PermanentAddress = replicate 32 0, MediaPresent = False\<rparr>,
     Lock = False, PhyAddr = 1, LinkUp = False, DescBuffer = None, RxRing = None, TxRing = None,
     NullRxDesc = None, NullTxDesc = None, RxBuffers = None, TxBuffers = None, RxHead = 0,
     TxProd = 0, TxCons = 0, TxUserBuffer = [], RxDesc = [], TxDesc = [], NullRx = zero_desc,
     NullTx = zero_desc, RxMem = (\<lambda>i. 0), TxMem = (\<lambda>i. 0), dma = [], io = s\<rparr>"

definition gem0 :: "(u64 \<Rightarrow> u32) gem" where
  "gem0 = gem_with (\<lambda>a. 0)"


subsection \<open>No DMA buffer is lost\<close>

definition no_dma :: "'s gem \<Rightarrow> bool" where
  "no_dma g = (DescBuffer g = None \<and> RxBuffers g = None \<and> TxBuffers g = None \<and> RxRing g = None \<and>
     TxRing g = None \<and> NullRxDesc g = None \<and> NullTxDesc g = None)"

definition dma_ok :: "'s gem \<Rightarrow> bool" where
  "dma_ok g = (\<exists>d r t. DescBuffer g = Some d \<and> RxBuffers g = Some r \<and> TxBuffers g = Some t \<and>
     RxRing g = Some d \<and> TxRing g = Some (d + 256) \<and> NullRxDesc g = Some (d + 384) \<and>
     NullTxDesc g = Some (d + 400) \<and> unat d < SIZE_4GB \<and> unat r + 32768 \<le> SIZE_4GB \<and>
     unat t + 16384 \<le> SIZE_4GB)"

lemma pages: "EFI_SIZE_TO_PAGES 32768 = 8" "EFI_SIZE_TO_PAGES 16384 = 4"
  by (simp_all add: EFI_SIZE_TO_PAGES_def EFI_PAGE_SIZE_def)

lemma dma_fail:
  assumes "no_dma g" and "GemDmaAlloc A g = (st, g')" and "st \<noteq> EFI_SUCCESS"
  shows "g' = g"
  using assms
  by (auto simp: GemDmaAlloc_def Let_def FreeTxBuffers_def FreeRxBuffers_def FreeDesc_def
      DmaFreeBuffer_def DmaAllocated_def ptr_def no_dma_def split: sum.splits if_splits)

lemma dma_succeed:
  assumes "no_dma g" and "GemDmaAlloc A g = (EFI_SUCCESS, g')" and "\<forall>k. A k \<noteq> Inl EFI_SUCCESS"
  shows "dma_ok g' \<and> GemDmaFree g' = g"
proof -
  obtain d r t where A: "A 0 = Inr d" "A 1 = Inr r" "A 2 = Inr t"
    using assms(2,3) by (auto simp: GemDmaAlloc_def Let_def split: sum.splits)
  have g': "g' = g\<lparr>dma := (t, 4) # (r, 8) # (d, 1) # dma g, DescBuffer := Some d, RxBuffers := Some r,
      TxBuffers := Some t, RxRing := Some d, TxRing := Some (d + 256), NullRxDesc := Some (d + 384),
      NullTxDesc := Some (d + 400)\<rparr>" and lim: "unat d < SIZE_4GB" "unat r + 32768 \<le> SIZE_4GB"
      "unat t + 16384 \<le> SIZE_4GB"
    using assms(2) A by (auto simp: GemDmaAlloc_def Let_def DmaAllocated_def pages rx_consts tx_consts
        GEM_DMA_DESC_SIZE_def ac_simps split: if_splits)
  have "dma_ok g'" using lim by (auto simp: dma_ok_def g')
  moreover have "GemDmaFree g' = g"
    using assms(1) by (simp add: g' GemDmaFree_def Let_def DmaFreeBuffer_def ptr_def pages rx_consts tx_consts no_dma_def)
  ultimately show ?thesis ..
qed

text \<open>
  No DMA buffer leaks. Whatever the three allocations answer, a failing \<^verbatim>\<open>GemDmaAlloc\<close>
  leaves the private data and the list of live allocations exactly as they were; a successful
  one leaves rings and buffers below 4 GiB, laid out inside the descriptor page, and
  \<^verbatim>\<open>GemDmaFree\<close> undoes it exactly.
\<close>

theorem dma_no_leak:
  assumes "no_dma g" and "\<forall>k. A k \<noteq> Inl EFI_SUCCESS"
  shows "case GemDmaAlloc A g of (st, g') \<Rightarrow>
    if st = EFI_SUCCESS then dma_ok g' \<and> GemDmaFree g' = g else g' = g"
proof -
  obtain st g' where run: "GemDmaAlloc A g = (st, g')" by force
  then show ?thesis using dma_fail [OF assms(1) run] dma_succeed [OF assms(1) _ assms(2), of g'] by auto
qed

theorem dma_no_leak_witness:
  "case GemDmaAlloc (\<lambda>k. if k = 2 then Inl EFI_OUT_OF_RESOURCES else Inr 0x10000) gem0 of (st, g') \<Rightarrow>
    if st = EFI_SUCCESS then dma_ok g' \<and> GemDmaFree g' = gem0 else g' = gem0"
  by (rule dma_no_leak) (simp_all add: no_dma_def gem0_def gem_with_def)

end
