(* ===== verification/Gem_Phy.thy ===== *)
theory Gem_Phy
  imports Gem_Queue Rp1_Gpio
begin

section \<open>The Ethernet PHY (Phy.c)\<close>

text \<open>
  Detection, reset, delay configuration, autonegotiation and link tracking of the PHY over the
  MDIO operations of \<^verbatim>\<open>GemHw.c\<close>. The answer of \<^verbatim>\<open>LocateProtocol\<close> and \<^verbatim>\<open>GetPeripheralBase\<close> is
  the argument \<open>Rp1Bus\<close> (\<open>None\<close> when the protocol is missing), the PCD is \<open>PcdAddr\<close>. Register
  reads that only feed \<^verbatim>\<open>DEBUG\<close> output are not modelled. The locale \<^verbatim>\<open>mdio_port\<close> says what the
  PHY code relies on in the MAC's operations; it is interpreted on a model of the management
  interface with a latency, on which \<^verbatim>\<open>GemMdioRead\<close> and \<^verbatim>\<open>GemMdioWrite\<close> are run.
\<close>

definition PHY_RESET_GPIO :: nat where "PHY_RESET_GPIO = 32"
definition PHY_RESET_ASSERT_US :: nat where "PHY_RESET_ASSERT_US = 5000"
definition PHY_RESET_SETTLE_US :: nat where "PHY_RESET_SETTLE_US = 15000"
definition PHY_BMCR :: u8 where "PHY_BMCR = 0x00"
definition PHY_BMCR_RESET :: u16 where "PHY_BMCR_RESET = 0x8000"
definition PHY_BMCR_ANE :: u16 where "PHY_BMCR_ANE = 0x1000"
definition PHY_BMCR_RESTART_AN :: u16 where "PHY_BMCR_RESTART_AN = 0x200"
definition PHY_BMSR :: u8 where "PHY_BMSR = 0x01"
definition PHY_BMSR_ANEG_COMPLETE :: u16 where "PHY_BMSR_ANEG_COMPLETE = 0x20"
definition PHY_BMSR_LINK_STATUS :: u16 where "PHY_BMSR_LINK_STATUS = 0x4"
definition PHY_IDR1 :: u8 where "PHY_IDR1 = 0x02"
definition PHY_IDR2 :: u8 where "PHY_IDR2 = 0x03"
definition PHY_ANAR :: u8 where "PHY_ANAR = 0x04"
definition PHY_ANAR_100BASETX_FDX :: u16 where "PHY_ANAR_100BASETX_FDX = 0x100"
definition PHY_ANAR_100BASETX :: u16 where "PHY_ANAR_100BASETX = 0x80"
definition PHY_ANAR_10BASET_FDX :: u16 where "PHY_ANAR_10BASET_FDX = 0x40"
definition PHY_ANAR_10BASET :: u16 where "PHY_ANAR_10BASET = 0x20"
definition PHY_ANLPAR :: u8 where "PHY_ANLPAR = 0x05"
definition PHY_GBCR :: u8 where "PHY_GBCR = 0x09"
definition PHY_GBCR_1000BASET_FDX :: u16 where "PHY_GBCR_1000BASET_FDX = 0x200"
definition PHY_GBCR_1000BASET :: u16 where "PHY_GBCR_1000BASET = 0x100"
definition PHY_GBSR :: u8 where "PHY_GBSR = 0x0A"
definition PHY_BCM_AUXCTL :: u8 where "PHY_BCM_AUXCTL = 0x18"
definition PHY_BCM_AUXCTL_SHD_MISC :: u16 where "PHY_BCM_AUXCTL_SHD_MISC = 0x0007"
definition PHY_BCM_AUXCTL_MISC_WREN :: u16 where "PHY_BCM_AUXCTL_MISC_WREN = 0x8000"
definition PHY_BCM_AUXCTL_MISC_RGMII_SKEW :: u16 where "PHY_BCM_AUXCTL_MISC_RGMII_SKEW = 0x0100"
definition PHY_BCM_SHD :: u8 where "PHY_BCM_SHD = 0x1C"
definition PHY_BCM_SHD_WRITE :: u16 where "PHY_BCM_SHD_WRITE = 0x8000"
definition PHY_BCM_SHD_CLK_CTL :: u16 where "PHY_BCM_SHD_CLK_CTL = 0x03"
definition PHY_BCM_SHD_CLK_CTL_GTXCLK_EN :: u16 where "PHY_BCM_SHD_CLK_CTL_GTXCLK_EN = 0x200"
definition PHY_ID1_BCM54XX :: u16 where "PHY_ID1_BCM54XX = 0x600D"
definition PHY_RESET_TIMEOUT :: nat where "PHY_RESET_TIMEOUT = 500"

subsection \<open>Operations\<close>

definition mdio_read :: "'s iodev \<Rightarrow> u8 \<Rightarrow> u8 \<Rightarrow> ('s gem, efi_status + u16) state" where
  "mdio_read D Phy Reg = State (\<lambda>g. gem_io (GemMdioRead D (GemBase g) Phy Reg) g)"

definition PhyRead :: "'s iodev \<Rightarrow> u8 \<Rightarrow> ('s gem, efi_status + u16) state" where
  "PhyRead D Reg = State (\<lambda>g. gem_io (GemMdioRead D (GemBase g) (PhyAddr g) Reg) g)"

definition PhyWrite :: "'s iodev \<Rightarrow> u8 \<Rightarrow> u16 \<Rightarrow> ('s gem, efi_status) state" where
  "PhyWrite D Reg Data = State (\<lambda>g. gem_io (GemMdioWrite D (GemBase g) (PhyAddr g) Reg Data) g)"

text \<open>The early returns \<^verbatim>\<open>if (EFI_ERROR (Status)) return Status;\<close>.\<close>

definition unless_error :: "efi_status \<Rightarrow> ('c, efi_status) state \<Rightarrow> ('c, efi_status) state" where
  "unless_error st m = (if EFI_ERROR st then State_Monad.return st else m)"

definition on_value :: "efi_status + 'a \<Rightarrow> ('a \<Rightarrow> ('c, efi_status) state) \<Rightarrow> ('c, efi_status) state" where
  "on_value r f = (case r of Inl st \<Rightarrow> State_Monad.return st | Inr v \<Rightarrow> f v)"

definition Rp1GemPhyHwReset :: "'s iodev \<Rightarrow> u64 option \<Rightarrow> 's gem \<Rightarrow> 's gem" where
  "Rp1GemPhyHwReset D Rp1Bus g =
     (case Rp1Bus of
        None \<Rightarrow> g
      | Some PeripheralBase \<Rightarrow>
          gem_do (do {
            Rp1GpioWrite D PeripheralBase PHY_RESET_GPIO False;
            Rp1GpioSetDirection D PeripheralBase PHY_RESET_GPIO True;
            Stall D PHY_RESET_ASSERT_US;
            Rp1GpioWrite D PeripheralBase PHY_RESET_GPIO True;
            Stall D PHY_RESET_SETTLE_US
          }) g)"

text \<open>The scan: \<open>n\<close> tries are left. After the last one the 32 addresses are read once more for
  the log.\<close>

fun PhyDump :: "'s iodev \<Rightarrow> u8 list \<Rightarrow> ('s gem, efi_status) state" where
  "PhyDump D [] = State_Monad.return EFI_NOT_FOUND"
| "PhyDump D (a # as) = do { _ \<leftarrow> mdio_read D a PHY_IDR1; PhyDump D as }"

definition id_valid :: "u16 \<Rightarrow> u16 \<Rightarrow> bool" where
  "id_valid Id1 Id2 = (Id1 \<noteq> 0xFFFF \<and> Id2 \<noteq> 0xFFFF \<and> (Id1 \<noteq> 0 \<or> Id2 \<noteq> 0))"

fun PhyScan :: "'s iodev \<Rightarrow> nat \<Rightarrow> u8 \<Rightarrow> ('s gem, efi_status) state" where
  "PhyScan D 0 Phy = PhyDump D (map of_nat [0..<32])"
| "PhyScan D (Suc n) Phy = do {
     r1 \<leftarrow> mdio_read D Phy PHY_IDR1;
     (case r1 of
        Inl _ \<Rightarrow> PhyScan D n ((Phy + 1) AND 0x1F)
      | Inr Id1 \<Rightarrow> do {
          r2 \<leftarrow> mdio_read D Phy PHY_IDR2;
          (case r2 of
             Inl _ \<Rightarrow> PhyScan D n ((Phy + 1) AND 0x1F)
           | Inr Id2 \<Rightarrow>
               if id_valid Id1 Id2 then do {
                 modify (\<lambda>g. g\<lparr>PhyAddr := Phy\<rparr>);
                 State_Monad.return EFI_SUCCESS
               }
               else PhyScan D n ((Phy + 1) AND 0x1F))
        })
   }"

definition Rp1GemPhyDetect :: "'s iodev \<Rightarrow> u64 option \<Rightarrow> u8 \<Rightarrow> ('s gem, efi_status) state" where
  "Rp1GemPhyDetect D Rp1Bus PcdAddr = do {
     modify (Rp1GemPhyHwReset D Rp1Bus);
     PhyScan D 32 (PcdAddr AND 0x1F)
   }"

fun PhyResetWait :: "'s iodev \<Rightarrow> nat \<Rightarrow> ('s gem, efi_status) state" where
  "PhyResetWait D 0 = State_Monad.return EFI_TIMEOUT"
| "PhyResetWait D (Suc n) = do {
     r \<leftarrow> PhyRead D PHY_BMCR;
     on_value r (\<lambda>Data.
       if Data AND PHY_BMCR_RESET = 0 then State_Monad.return EFI_SUCCESS
       else do { modify (gem_do (Stall D 1000)); PhyResetWait D n })
   }"

definition Rp1GemPhyReset :: "'s iodev \<Rightarrow> ('s gem, efi_status) state" where
  "Rp1GemPhyReset D = do {
     st \<leftarrow> PhyWrite D PHY_BMCR PHY_BMCR_RESET;
     unless_error st (PhyResetWait D PHY_RESET_TIMEOUT)
   }"

definition AUXCTL_SELECT :: u16 where
  "AUXCTL_SELECT = push_bit 12 PHY_BCM_AUXCTL_SHD_MISC OR PHY_BCM_AUXCTL_SHD_MISC"

definition Rp1GemPhyConfigRgmiiDelays :: "'s iodev \<Rightarrow> ('s gem, efi_status) state" where
  "Rp1GemPhyConfigRgmiiDelays D = do {
     r \<leftarrow> PhyRead D PHY_IDR1;
     on_value r (\<lambda>Id1. if Id1 \<noteq> PHY_ID1_BCM54XX then State_Monad.return EFI_SUCCESS else do {
     st \<leftarrow> PhyWrite D PHY_BCM_AUXCTL AUXCTL_SELECT;
     unless_error st (do {
     r \<leftarrow> PhyRead D PHY_BCM_AUXCTL;
     on_value r (\<lambda>Value. do {
     st \<leftarrow> PhyWrite D PHY_BCM_AUXCTL (PHY_BCM_AUXCTL_SHD_MISC OR
        (Value OR PHY_BCM_AUXCTL_MISC_WREN OR PHY_BCM_AUXCTL_MISC_RGMII_SKEW));
     unless_error st (do {
     st \<leftarrow> PhyWrite D PHY_BCM_SHD (push_bit 10 PHY_BCM_SHD_CLK_CTL);
     unless_error st (do {
     r \<leftarrow> PhyRead D PHY_BCM_SHD;
     on_value r (\<lambda>Value. do {
     st \<leftarrow> PhyWrite D PHY_BCM_SHD (PHY_BCM_SHD_WRITE OR push_bit 10 PHY_BCM_SHD_CLK_CTL OR
        ((Value AND 0x3FF) OR PHY_BCM_SHD_CLK_CTL_GTXCLK_EN));
     unless_error st (do {
     _ \<leftarrow> PhyWrite D PHY_BCM_AUXCTL AUXCTL_SELECT;
     _ \<leftarrow> PhyRead D PHY_BCM_AUXCTL;
     _ \<leftarrow> PhyWrite D PHY_BCM_SHD (push_bit 10 PHY_BCM_SHD_CLK_CTL);
     _ \<leftarrow> PhyRead D PHY_BCM_SHD;
     State_Monad.return EFI_SUCCESS })})})})})})})
   }"

definition Rp1GemPhyAutoNegotiate :: "'s iodev \<Rightarrow> ('s gem, efi_status) state" where
  "Rp1GemPhyAutoNegotiate D = do {
     r \<leftarrow> PhyRead D PHY_ANAR;
     on_value r (\<lambda>Anar. do {
     st \<leftarrow> PhyWrite D PHY_ANAR (Anar OR (PHY_ANAR_100BASETX_FDX OR PHY_ANAR_100BASETX OR
        PHY_ANAR_10BASET_FDX OR PHY_ANAR_10BASET));
     unless_error st (do {
     r \<leftarrow> PhyRead D PHY_GBCR;
     on_value r (\<lambda>Gbcr. do {
     st \<leftarrow> PhyWrite D PHY_GBCR ((Gbcr OR PHY_GBCR_1000BASET_FDX) AND NOT PHY_GBCR_1000BASET);
     unless_error st (do {
     r \<leftarrow> PhyRead D PHY_BMCR;
     on_value r (\<lambda>Bmcr. PhyWrite D PHY_BMCR (Bmcr OR (PHY_BMCR_ANE OR PHY_BMCR_RESTART_AN))) })})})})
   }"

definition Rp1GemPhyInit :: "'s iodev \<Rightarrow> u64 option \<Rightarrow> u8 \<Rightarrow> ('s gem, efi_status) state" where
  "Rp1GemPhyInit D Rp1Bus PcdAddr = do {
     modify (\<lambda>g. g\<lparr>LinkUp := False\<rparr>);
     st \<leftarrow> Rp1GemPhyDetect D Rp1Bus PcdAddr;
     unless_error st (do {
     st \<leftarrow> Rp1GemPhyReset D;
     unless_error st (do {
     st \<leftarrow> Rp1GemPhyConfigRgmiiDelays D;
     unless_error st (Rp1GemPhyAutoNegotiate D) })})
   }"

definition link_config :: "u16 \<Rightarrow> u16 \<Rightarrow> u16 \<Rightarrow> u16 \<Rightarrow> nat \<times> bool" where
  "link_config Gbcr Gbsr Anar Anlpar =
     (let Gb = drop_bit 2 Gbsr AND Gbcr; An = Anlpar AND Anar in
      if Gb AND (PHY_GBCR_1000BASET_FDX OR PHY_GBCR_1000BASET) \<noteq> 0
      then (1000, Gb AND PHY_GBCR_1000BASET_FDX \<noteq> 0)
      else if An AND (PHY_ANAR_100BASETX_FDX OR PHY_ANAR_100BASETX) \<noteq> 0
      then (100, An AND PHY_ANAR_100BASETX_FDX \<noteq> 0)
      else (10, An AND PHY_ANAR_10BASET_FDX \<noteq> 0))"

definition Rp1GemPhyGetConfig :: "'s iodev \<Rightarrow> ('s gem, efi_status + (nat \<times> bool)) state" where
  "Rp1GemPhyGetConfig D = do {
     r \<leftarrow> PhyRead D PHY_GBCR;
     (case r of Inl st \<Rightarrow> State_Monad.return (Inl st) | Inr Gbcr \<Rightarrow> do {
     r \<leftarrow> PhyRead D PHY_GBSR;
     (case r of Inl st \<Rightarrow> State_Monad.return (Inl st) | Inr Gbsr \<Rightarrow> do {
     r \<leftarrow> PhyRead D PHY_ANAR;
     (case r of Inl st \<Rightarrow> State_Monad.return (Inl st) | Inr Anar \<Rightarrow> do {
     r \<leftarrow> PhyRead D PHY_ANLPAR;
     (case r of Inl st \<Rightarrow> State_Monad.return (Inl st) | Inr Anlpar \<Rightarrow>
     State_Monad.return (Inr (link_config Gbcr Gbsr Anar Anlpar))) })})})
   }"

definition bmsr_up :: "u16 \<Rightarrow> bool" where
  "bmsr_up Bmsr = (Bmsr AND PHY_BMSR_LINK_STATUS \<noteq> 0 \<and> Bmsr AND PHY_BMSR_ANEG_COMPLETE \<noteq> 0)"

definition Rp1GemPhyUpdateConfig :: "'s iodev \<Rightarrow> ('s gem, efi_status) state" where
  "Rp1GemPhyUpdateConfig D = do {
     r \<leftarrow> PhyRead D PHY_BMSR;
     on_value r (\<lambda>Bmsr. do {
       let Up = bmsr_up Bmsr;
       g \<leftarrow> gets (\<lambda>g. g);
       (if LinkUp g \<noteq> Up then
          (if Up then do {
             c \<leftarrow> Rp1GemPhyGetConfig D;
             on_value c (\<lambda>(SpeedMbps, FullDuplex). do {
               modify (\<lambda>g. gem_do (GemUpdateLinkSpeed D (GemBase g) SpeedMbps FullDuplex) g);
               modify (\<lambda>g. g\<lparr>LinkUp := Up\<rparr>);
               State_Monad.return EFI_SUCCESS
             })
           } else do {
             modify (\<lambda>g. g\<lparr>LinkUp := Up\<rparr>);
             State_Monad.return EFI_NOT_READY
           })
        else State_Monad.return (if Up then EFI_SUCCESS else EFI_NOT_READY))
     })
   }"

subsection \<open>What the PHY code relies on\<close>

text \<open>
  \<open>phys s a r\<close> is what register \<open>r\<close> of the PHY at address \<open>a\<close> reads; a write acts on the PHYs
  as \<open>W\<close> says, a stall as \<open>T\<close> says. The MAC's operations reach the PHY registers and leave the
  link configuration alone, and the link update reaches only that.
\<close>

type_synonym phy_regs = "u8 \<Rightarrow> u8 \<Rightarrow> u16"

definition rd_io :: "'s iodev \<Rightarrow> u64 \<Rightarrow> u8 \<Rightarrow> u8 \<Rightarrow> 's \<Rightarrow> 's" where
  "rd_io D B a r s = snd (run_state (GemMdioRead D B a r) s)"

definition wr_io :: "'s iodev \<Rightarrow> u64 \<Rightarrow> u8 \<Rightarrow> u8 \<Rightarrow> u16 \<Rightarrow> 's \<Rightarrow> 's" where
  "wr_io D B a r v s = snd (run_state (GemMdioWrite D B a r v) s)"

definition answers :: "phy_regs \<Rightarrow> u8 \<Rightarrow> bool" where
  "answers p a = id_valid (p (a AND 0x1F) PHY_IDR1) (p (a AND 0x1F) PHY_IDR2)"

text \<open>The order in which the addresses are tried.\<close>

primrec scan_order :: "nat \<Rightarrow> u8 \<Rightarrow> u8 list" where
  "scan_order 0 a = []"
| "scan_order (Suc n) a = a # scan_order n ((a + 1) AND 0x1F)"

text \<open>The modes that both ends advertise, best first, and what the registers then select.\<close>

definition gb_mode :: "u16 \<Rightarrow> u16 \<Rightarrow> u16 \<Rightarrow> bool" where
  "gb_mode Gbcr Gbsr m = (Gbcr AND m \<noteq> 0 \<and> Gbsr AND push_bit 2 m \<noteq> 0)"

definition an_mode :: "u16 \<Rightarrow> u16 \<Rightarrow> u16 \<Rightarrow> bool" where
  "an_mode Anar Anlpar m = (Anar AND m \<noteq> 0 \<and> Anlpar AND m \<noteq> 0)"

definition common_modes :: "phy_regs \<Rightarrow> u8 \<Rightarrow> (nat \<times> bool) list" where
  "common_modes p a =
     (if gb_mode (p a PHY_GBCR) (p a PHY_GBSR) PHY_GBCR_1000BASET_FDX then [(1000, True)] else []) @
     (if gb_mode (p a PHY_GBCR) (p a PHY_GBSR) PHY_GBCR_1000BASET then [(1000, False)] else []) @
     (if an_mode (p a PHY_ANAR) (p a PHY_ANLPAR) PHY_ANAR_100BASETX_FDX then [(100, True)] else []) @
     (if an_mode (p a PHY_ANAR) (p a PHY_ANLPAR) PHY_ANAR_100BASETX then [(100, False)] else []) @
     (if an_mode (p a PHY_ANAR) (p a PHY_ANLPAR) PHY_ANAR_10BASET_FDX then [(10, True)] else []) @
     [(10, False)]"

definition phy_up :: "phy_regs \<Rightarrow> u8 \<Rightarrow> bool" where
  "phy_up p a = (p a PHY_BMSR AND PHY_BMSR_LINK_STATUS \<noteq> 0 \<and> p a PHY_BMSR AND PHY_BMSR_ANEG_COMPLETE \<noteq> 0)"

lemma link_config_best:
  "link_config (p a PHY_GBCR) (p a PHY_GBSR) (p a PHY_ANAR) (p a PHY_ANLPAR) = hd (common_modes p a)"
proof -
  have bits: "(x AND push_bit k 1 \<noteq> (0 :: u16)) = bit x k" for x k
    by (simp add: bit_iff_and_push_bit_not_eq_0)
  have two: "x AND (push_bit j 1 OR push_bit k 1) \<noteq> (0 :: u16) \<longleftrightarrow> bit x j \<or> bit x k" for x j k
    using bits [of x j] bits [of x k] by (simp add: bit.conj_disj_distrib or_eq_0_iff)
  note one = bits [of _ 9, simplified] bits [of _ 8, simplified] bits [of _ 7, simplified]
    bits [of _ 6, simplified] bits [of _ 5, simplified] bits [of _ 11, simplified] bits [of _ 10, simplified]
  note pair = two [of _ 9 8, simplified] two [of _ 8 7, simplified]
  show ?thesis
    by (simp add: link_config_def Let_def common_modes_def gb_mode_def an_mode_def
        PHY_GBCR_1000BASET_FDX_def PHY_GBCR_1000BASET_def PHY_ANAR_100BASETX_FDX_def
        PHY_ANAR_100BASETX_def PHY_ANAR_10BASET_FDX_def one pair bit_simps conj_commute [of "bit (p a PHY_GBSR) n" for n]
        conj_commute [of "bit (p a PHY_ANLPAR) n" for n])
qed

locale mdio_port =
  fixes D :: "'s iodev" and B :: u64 and phys :: "'s \<Rightarrow> phy_regs" and netcfg :: "'s \<Rightarrow> u32"
    and W :: "u8 \<Rightarrow> u8 \<Rightarrow> u16 \<Rightarrow> phy_regs \<Rightarrow> phy_regs" and T :: "nat \<Rightarrow> phy_regs \<Rightarrow> phy_regs"
  assumes rdl: "fst (run_state (GemMdioRead D B a r) s) = Inr (phys s (a AND 0x1F) (r AND 0x1F))"
      "phys (snd (run_state (GemMdioRead D B a r) s)) = phys s"
      "netcfg (snd (run_state (GemMdioRead D B a r) s)) = netcfg s"
    and wrt: "fst (run_state (GemMdioWrite D B a r v) s) = EFI_SUCCESS"
      "phys (snd (run_state (GemMdioWrite D B a r v) s)) = W (a AND 0x1F) (r AND 0x1F) v (phys s)"
      "netcfg (snd (run_state (GemMdioWrite D B a r v) s)) = netcfg s"
    and speed: "phys (snd (run_state (GemUpdateLinkSpeed D B m fd) s)) = phys s"
      "netcfg (snd (run_state (GemUpdateLinkSpeed D B m fd) s)) = speed_cfg m fd (netcfg s)"
    and stall: "phys (io_stall D us s) = T us (phys s)"
begin

lemma rd_io [simp]: "phys (rd_io D B a r s) = phys s" "netcfg (rd_io D B a r s) = netcfg s"
  by (simp_all add: rd_io_def rdl)

lemma run_mdio_read: "GemBase g = B \<Longrightarrow> run_state (mdio_read D a r) g =
    (Inr (phys (io g) (a AND 0x1F) (r AND 0x1F)), g\<lparr>io := rd_io D B a r (io g)\<rparr>)"
  by (simp add: mdio_read_def gem_io_def case_prod_unfold rdl rd_io_def)

lemma run_PhyRead: "GemBase g = B \<Longrightarrow> run_state (PhyRead D r) g =
    (Inr (phys (io g) (PhyAddr g AND 0x1F) (r AND 0x1F)), g\<lparr>io := rd_io D B (PhyAddr g) r (io g)\<rparr>)"
  by (simp add: PhyRead_def gem_io_def case_prod_unfold rdl rd_io_def)

lemma run_PhyDump: "GemBase g = B \<Longrightarrow>
    \<exists>s'. run_state (PhyDump D as) g = (EFI_NOT_FOUND, g\<lparr>io := s'\<rparr>) \<and> phys s' = phys (io g)"
proof (induction "as" arbitrary: g)
  case Nil
  then show ?case by (auto simp: run_state_return intro: exI [of _ "io g"])
next
  case (Cons a as)
  then show ?case
    using Cons.IH [of "g\<lparr>io := rd_io D B a PHY_IDR1 (io g)\<rparr>"] by (auto simp: run_state_bind run_mdio_read)
qed

lemma run_PhyScan: "GemBase g = B \<Longrightarrow>
    \<exists>s'. run_state (PhyScan D n a) g =
        (case find (answers (phys (io g))) (scan_order n a) of
           None \<Rightarrow> (EFI_NOT_FOUND, g\<lparr>io := s'\<rparr>)
         | Some p \<Rightarrow> (EFI_SUCCESS, g\<lparr>PhyAddr := p, io := s'\<rparr>)) \<and> phys s' = phys (io g)"
proof (induction n arbitrary: a g)
  case 0
  then show ?case using run_PhyDump by simp
next
  case (Suc n)
  let ?g = "g\<lparr>io := rd_io D B a PHY_IDR2 (rd_io D B a PHY_IDR1 (io g))\<rparr>"
  have valid: "answers (phys (io g)) a = id_valid (phys (io g) (a AND 0x1F) (PHY_IDR1 AND 0x1F))
     (phys (io g) (a AND 0x1F) (PHY_IDR2 AND 0x1F))"
    by (simp add: answers_def PHY_IDR1_def PHY_IDR2_def)
  show ?case
  proof (cases "answers (phys (io g)) a")
    case True
    with Suc.prems have "run_state (PhyScan D (Suc n) a) g = (EFI_SUCCESS, ?g\<lparr>PhyAddr := a\<rparr>)"
      by (simp add: run_state_bind run_mdio_read run_state_return io_simps valid [symmetric])
    with True show ?thesis by (intro exI [of _ "io ?g"]) simp
  next
    case False
    obtain s' where "run_state (PhyScan D n ((a + 1) AND 0x1F)) ?g =
        (case find (answers (phys (io g))) (scan_order n ((a + 1) AND 0x1F)) of
           None \<Rightarrow> (EFI_NOT_FOUND, ?g\<lparr>io := s'\<rparr>)
         | Some p \<Rightarrow> (EFI_SUCCESS, ?g\<lparr>PhyAddr := p, io := s'\<rparr>))" "phys s' = phys (io g)"
      using Suc.IH [of ?g "(a + 1) AND 0x1F"] Suc.prems by auto
    with False Suc.prems show ?thesis
      by (intro exI [of _ s'])
        (simp add: run_state_bind run_mdio_read valid [symmetric] split: option.split)
  qed
qed

lemma run_PhyWrite: "GemBase g = B \<Longrightarrow> run_state (PhyWrite D r v) g =
    (EFI_SUCCESS, g\<lparr>io := wr_io D B (PhyAddr g) r v (io g)\<rparr>)"
  by (simp add: PhyWrite_def gem_io_def case_prod_unfold wrt wr_io_def)

lemma wr_io [simp]: "phys (wr_io D B a r v s) = W (a AND 0x1F) (r AND 0x1F) v (phys s)"
  "netcfg (wr_io D B a r v s) = netcfg s"
  by (simp_all add: wr_io_def wrt)

lemma run_GetConfig:
  assumes "GemBase g = B"
  shows "run_state (Rp1GemPhyGetConfig D) g =
    (Inr (hd (common_modes (phys (io g)) (PhyAddr g AND 0x1F))),
     g\<lparr>io := rd_io D B (PhyAddr g) PHY_ANLPAR (rd_io D B (PhyAddr g) PHY_ANAR
       (rd_io D B (PhyAddr g) PHY_GBSR (rd_io D B (PhyAddr g) PHY_GBCR (io g))))\<rparr>)"
  using assms link_config_best [of "phys (io g)" "PhyAddr g AND 0x1F"]
  by (simp add: Rp1GemPhyGetConfig_def run_state_bind run_PhyRead run_state_return)
    (simp add: PHY_GBCR_def PHY_GBSR_def PHY_ANAR_def PHY_ANLPAR_def)

lemma run_UpdateConfig:
  fixes g :: "'s gem"
  assumes "GemBase g = B"
  defines "p \<equiv> phys (io g)" and "a \<equiv> PhyAddr g AND 0x1F"
  shows "\<exists>s'. run_state (Rp1GemPhyUpdateConfig D) g =
      (if phy_up p a then EFI_SUCCESS else EFI_NOT_READY, g\<lparr>LinkUp := phy_up p a, io := s'\<rparr>) \<and>
    phys s' = p \<and>
    netcfg s' = (if phy_up p a \<and> \<not> LinkUp g
      then speed_cfg (fst (hd (common_modes p a))) (snd (hd (common_modes p a))) (netcfg (io g))
      else netcfg (io g))"
proof -
  have b: "bmsr_up (p a (PHY_BMSR AND 0x1F)) = phy_up p a"
    by (simp add: bmsr_up_def phy_up_def PHY_BMSR_def)
  show ?thesis
  proof (cases "phy_up p a \<and> \<not> LinkUp g")
    case True
    define m where "m = hd (common_modes p a)"
    let ?g = "g\<lparr>io := rd_io D B (PhyAddr g) PHY_BMSR (io g)\<rparr>"
    from True assms have "\<exists>s1. run_state (Rp1GemPhyUpdateConfig D) g = (EFI_SUCCESS,
        (gem_do (GemUpdateLinkSpeed D B (fst m) (snd m)) (g\<lparr>io := s1\<rparr>))\<lparr>LinkUp := True\<rparr>) \<and>
        phys s1 = p \<and> netcfg s1 = netcfg (io g)"
      by (simp add: Rp1GemPhyUpdateConfig_def run_state_bind run_PhyRead on_value_def b [unfolded p_def a_def]
          Let_def io_simps run_GetConfig run_state_return case_prod_unfold m_def)
        (rule exI, rule conjI, rule refl, simp)
    then obtain s1 where "run_state (Rp1GemPhyUpdateConfig D) g = (EFI_SUCCESS,
        (gem_do (GemUpdateLinkSpeed D B (fst m) (snd m)) (g\<lparr>io := s1\<rparr>))\<lparr>LinkUp := True\<rparr>)"
        "phys s1 = p" "netcfg s1 = netcfg (io g)" by auto
    then have "run_state (Rp1GemPhyUpdateConfig D) g = (EFI_SUCCESS, g\<lparr>LinkUp := True,
          io := snd (run_state (GemUpdateLinkSpeed D B (fst m) (snd m)) s1)\<rparr>)"
        "phys (snd (run_state (GemUpdateLinkSpeed D B (fst m) (snd m)) s1)) = p"
        "netcfg (snd (run_state (GemUpdateLinkSpeed D B (fst m) (snd m)) s1)) =
           speed_cfg (fst m) (snd m) (netcfg (io g))"
      by (simp_all only: gem_do_def speed) simp
    with True show ?thesis
      by (intro exI [of _ "snd (run_state (GemUpdateLinkSpeed D B (fst m) (snd m)) s1)"])
        (simp add: m_def)
  next
    case False
    let ?s = "rd_io D B (PhyAddr g) PHY_BMSR (io g)"
    have same: "g\<lparr>LinkUp := LinkUp g, io := s'\<rparr> = g\<lparr>io := s'\<rparr>" for s' by (cases g) simp
    have "run_state (Rp1GemPhyUpdateConfig D) g =
        (if phy_up p a then EFI_SUCCESS else EFI_NOT_READY, g\<lparr>LinkUp := phy_up p a, io := ?s\<rparr>)"
    proof (cases "LinkUp g = phy_up p a")
      case True
      have e: "g\<lparr>LinkUp := phy_up p a, io := ?s\<rparr> = g\<lparr>io := ?s\<rparr>"
        using same [of ?s] unfolding True .
      show ?thesis unfolding e using assms(1) True
        by (simp add: Rp1GemPhyUpdateConfig_def run_state_bind run_PhyRead on_value_def
            b [unfolded p_def a_def] Let_def io_simps run_state_return p_def a_def)
    next
      case ne: False
      with False assms(1) show ?thesis
        by (simp add: Rp1GemPhyUpdateConfig_def run_state_bind run_PhyRead on_value_def
            b [unfolded p_def a_def] Let_def io_simps run_state_return p_def a_def)
    qed
    with False show ?thesis by (intro exI [of _ ?s]) (auto simp: p_def)
  qed
qed

end

subsection \<open>The management interface\<close>

text \<open>
  The model on which the MDIO operations are run: a write to the PHY maintenance register
  starts an operation when the management port is enabled; \<^verbatim>\<open>NET_STAT\<close> reports idle after
  \<open>lat\<close> unsuccessful polls, and a read leaves its data in the low half of the maintenance
  register. \<open>W\<close> is what a write does to the PHYs, \<open>T\<close> what time does; every other register
  holds what was written.
\<close>

record mdio_hw =
  mac :: "u64 \<Rightarrow> u32"
  phy_file :: phy_regs
  busy :: nat

definition mdio_start :: "(u8 \<Rightarrow> u8 \<Rightarrow> u16 \<Rightarrow> phy_regs \<Rightarrow> phy_regs) \<Rightarrow> u64 \<Rightarrow> nat \<Rightarrow> u32 \<Rightarrow> mdio_hw \<Rightarrow> mdio_hw" where
  "mdio_start W B lat v s =
     (let a = ucast (drop_bit 23 v AND 0x1F); r = ucast (drop_bit 18 v AND 0x1F) in
      if mac s (B + GEM_NET_CTRL) AND GEM_NET_CTRL_MGMT_PORT_EN = 0 then s
      else if v AND GEM_PHY_MAINT_OP_READ \<noteq> 0
      then s\<lparr>mac := (mac s)(B + GEM_PHY_MAINT := (v AND 0xFFFF0000) OR ucast (phy_file s a r)), busy := lat\<rparr>
      else s\<lparr>mac := (mac s)(B + GEM_PHY_MAINT := v), phy_file := W a r (ucast v) (phy_file s), busy := lat\<rparr>)"

definition mdio_dev ::
  "(u8 \<Rightarrow> u8 \<Rightarrow> u16 \<Rightarrow> phy_regs \<Rightarrow> phy_regs) \<Rightarrow> (nat \<Rightarrow> phy_regs \<Rightarrow> phy_regs) \<Rightarrow> u64 \<Rightarrow> nat \<Rightarrow> mdio_hw iodev" where
  "mdio_dev W T B lat =
     \<lparr>io_rd = (\<lambda>a s. if a = B + GEM_NET_STAT
        then (if busy s = 0 then GEM_NET_STAT_PHY_MGMT_IDLE else 0, s\<lparr>busy := busy s - 1\<rparr>)
        else (mac s a, s)),
      io_wr = (\<lambda>a v s. if a = B + GEM_PHY_MAINT then mdio_start W B lat v s
        else s\<lparr>mac := (mac s)(a := v)\<rparr>),
      io_stall = (\<lambda>us s. s\<lparr>phy_file := T us (phy_file s)\<rparr>)\<rparr>"

lemma mdio_dev_sel:
  "io_rd (mdio_dev W T B lat) a s = (if a = B + GEM_NET_STAT
     then (if busy s = 0 then GEM_NET_STAT_PHY_MGMT_IDLE else 0, s\<lparr>busy := busy s - 1\<rparr>) else (mac s a, s))"
  "io_wr (mdio_dev W T B lat) a v s =
     (if a = B + GEM_PHY_MAINT then mdio_start W B lat v s else s\<lparr>mac := (mac s)(a := v)\<rparr>)"
  "io_stall (mdio_dev W T B lat) us s = s\<lparr>phy_file := T us (phy_file s)\<rparr>"
  by (simp_all add: mdio_dev_def)

lemma MdioWait_run:
  assumes "\<And>p. T 5 p = p"
  shows "run_state (MdioWait (mdio_dev W T B lat) B n) s = (busy s < n, s\<lparr>busy := busy s - n\<rparr>)"
proof (induction n arbitrary: s)
  case 0
  then show ?case by (simp add: run_state_return)
next
  case (Suc n)
  show ?case
  proof (cases "busy s")
    case 0
    then show ?thesis
      by (simp add: run_state_bind run_state_return GemRead32_def io_simps mdio_dev_sel GEM_NET_STAT_PHY_MGMT_IDLE_def)
  next
    case (Suc k)
    then show ?thesis
      by (simp add: run_state_bind GemRead32_def io_simps mdio_dev_sel Suc.IH assms)
  qed
qed

lemma mdio_regs: "GEM_PHY_MAINT \<noteq> GEM_NET_STAT" "GEM_NET_CTRL \<noteq> GEM_NET_STAT"
  "GEM_NET_CTRL \<noteq> GEM_PHY_MAINT" "GEM_NET_CFG \<noteq> GEM_PHY_MAINT"
  "GEM_NET_CFG \<noteq> GEM_NET_STAT" "GEM_NET_CFG \<noteq> GEM_NET_CTRL"
  by (simp_all add: GEM_PHY_MAINT_def GEM_NET_STAT_def GEM_NET_CTRL_def GEM_NET_CFG_def)

lemmas maint_defs = GEM_PHY_MAINT_CLAUSE_22_def GEM_PHY_MAINT_MUST_10_def GEM_PHY_MAINT_OP_READ_def
  GEM_PHY_MAINT_OP_WRITE_def mdio_addr_def GEM_PHY_MAINT_PHY_ADDR_SHIFT_def
  GEM_PHY_MAINT_REG_ADDR_SHIFT_def GEM_PHY_MAINT_DATA_MASK_def

lemma bit_u8_out: "8 \<le> n \<Longrightarrow> \<not> bit (a :: u8) n" "16 \<le> n \<Longrightarrow> \<not> bit (w :: u16) n"
  using bit_imp_le_length [of a n] bit_imp_le_length [of w n] by auto

lemma u8_eqI: "list_all (\<lambda>n. bit a n = bit b n) [0..<8] \<Longrightarrow> a = (b :: u8)"
  by (rule bit_word_eqI) (simp add: list_all_iff del: upt_conv_Cons)

lemma u16_eqI: "list_all (\<lambda>n. bit a n = bit b n) [0..<16] \<Longrightarrow> a = (b :: u16)"
  by (rule bit_word_eqI) (simp add: list_all_iff del: upt_conv_Cons)

lemma maint_fields:
  fixes a r :: u8 and d :: u16
  defines "rd \<equiv> GEM_PHY_MAINT_CLAUSE_22 OR GEM_PHY_MAINT_MUST_10 OR GEM_PHY_MAINT_OP_READ OR mdio_addr a r"
    and "wr \<equiv> GEM_PHY_MAINT_CLAUSE_22 OR GEM_PHY_MAINT_MUST_10 OR GEM_PHY_MAINT_OP_WRITE OR mdio_addr a r OR ucast d"
  shows "ucast (drop_bit 23 rd AND 0x1F) = a AND 0x1F" "ucast (drop_bit 18 rd AND 0x1F) = r AND 0x1F"
    "rd AND GEM_PHY_MAINT_OP_READ \<noteq> 0"
    "ucast (drop_bit 23 wr AND 0x1F) = a AND 0x1F" "ucast (drop_bit 18 wr AND 0x1F) = r AND 0x1F"
    "wr AND GEM_PHY_MAINT_OP_READ = 0" "ucast wr = d"
    "(ucast (((rd AND 0xFFFF0000) OR ucast d) AND GEM_PHY_MAINT_DATA_MASK) :: u16) = d"
proof -
  note b = rd_def wr_def maint_defs bit_and_iff bit_or_iff bit_push_bit_iff bit_drop_bit_eq
    bit_unsigned_iff upt_rec bit_u8_out
  show "ucast (drop_bit 23 rd AND 0x1F) = a AND 0x1F" "ucast (drop_bit 18 rd AND 0x1F) = r AND 0x1F"
    "ucast (drop_bit 23 wr AND 0x1F) = a AND 0x1F" "ucast (drop_bit 18 wr AND 0x1F) = r AND 0x1F"
    by (rule u8_eqI, simp add: b)+
  show "ucast wr = d" "(ucast (((rd AND 0xFFFF0000) OR ucast d) AND GEM_PHY_MAINT_DATA_MASK) :: u16) = d"
    by (rule u16_eqI, simp add: b)+
  show "wr AND GEM_PHY_MAINT_OP_READ = 0" by (rule u32_eqI) (simp add: b)
  have "rd AND GEM_PHY_MAINT_OP_READ = GEM_PHY_MAINT_OP_READ" by (rule u32_eqI) (simp add: b)
  then show "rd AND GEM_PHY_MAINT_OP_READ \<noteq> 0" by (simp add: GEM_PHY_MAINT_OP_READ_def)
qed

lemma mpe_set: "GEM_NET_CTRL_MGMT_PORT_EN \<noteq> 0"
  by (simp add: GEM_NET_CTRL_MGMT_PORT_EN_def)

lemma GemMdioRead_dev:
  assumes "\<And>p. T 5 p = p"
  shows "run_state (GemMdioRead (mdio_dev W T B lat) B a r) s =
    (if lat < 400 then Inr (phy_file s (a AND 0x1F) (r AND 0x1F)) else Inl EFI_TIMEOUT,
     s\<lparr>mac := (mac s)(B + GEM_NET_CTRL := mac s (B + GEM_NET_CTRL) OR GEM_NET_CTRL_MGMT_PORT_EN,
         B + GEM_PHY_MAINT := ((GEM_PHY_MAINT_CLAUSE_22 OR GEM_PHY_MAINT_MUST_10 OR
           GEM_PHY_MAINT_OP_READ OR mdio_addr a r) AND 0xFFFF0000) OR
           ucast (phy_file s (a AND 0x1F) (r AND 0x1F))),
       busy := lat - 400\<rparr>)"
proof -
  define rd where "rd = (GEM_PHY_MAINT_CLAUSE_22 OR GEM_PHY_MAINT_MUST_10 OR GEM_PHY_MAINT_OP_READ OR mdio_addr a r :: u32)"
  note f = maint_fields(1-3,8) [of a r, folded rd_def]
  show ?thesis
    unfolding GemMdioRead_def rd_def [symmetric]
    by (simp add: run_state_bind run_state_return GemWrite32_def GemRead32_def io_simps mdio_dev_sel mdio_regs
        mdio_start_def Let_def f mpe_set MdioWait_run [of T, OF assms] GEM_MDIO_TIMEOUT_TRIES_def)
qed

lemma GemMdioWrite_dev:
  assumes "\<And>p. T 5 p = p"
  shows "run_state (GemMdioWrite (mdio_dev W T B lat) B a r v) s =
    (if lat < 400 then EFI_SUCCESS else EFI_TIMEOUT,
     s\<lparr>mac := (mac s)(B + GEM_NET_CTRL := mac s (B + GEM_NET_CTRL) OR GEM_NET_CTRL_MGMT_PORT_EN,
         B + GEM_PHY_MAINT := GEM_PHY_MAINT_CLAUSE_22 OR GEM_PHY_MAINT_MUST_10 OR
           GEM_PHY_MAINT_OP_WRITE OR mdio_addr a r OR ucast v),
       phy_file := W (a AND 0x1F) (r AND 0x1F) v (phy_file s), busy := lat - 400\<rparr>)"
proof -
  define wr where "wr = (GEM_PHY_MAINT_CLAUSE_22 OR GEM_PHY_MAINT_MUST_10 OR GEM_PHY_MAINT_OP_WRITE OR mdio_addr a r OR ucast v :: u32)"
  note f = maint_fields(4-7) [of a r v, folded wr_def]
  show ?thesis
    unfolding GemMdioWrite_def wr_def [symmetric]
    by (simp add: run_state_bind run_state_return GemWrite32_def GemRead32_def io_simps mdio_dev_sel mdio_regs
        mdio_start_def Let_def f mpe_set MdioWait_run [of T, OF assms] GEM_MDIO_TIMEOUT_TRIES_def)
qed

definition net_cfg :: "u64 \<Rightarrow> mdio_hw \<Rightarrow> u32" where
  "net_cfg B s = mac s (B + GEM_NET_CFG)"

lemma mdio_dev_port:
  assumes "lat < 400" and "\<And>p. T 5 p = p"
  shows "mdio_port (mdio_dev W T B lat) B phy_file (net_cfg B) W T"
proof unfold_locales
  fix a r v m fd s us
  show "fst (run_state (GemMdioRead (mdio_dev W T B lat) B a r) s) = Inr (phy_file s (a AND 0x1F) (r AND 0x1F))"
    "phy_file (snd (run_state (GemMdioRead (mdio_dev W T B lat) B a r) s)) = phy_file s"
    "net_cfg B (snd (run_state (GemMdioRead (mdio_dev W T B lat) B a r) s)) = net_cfg B s"
    using assms(1) by (simp_all add: GemMdioRead_dev [of T, OF assms(2)] net_cfg_def mdio_regs)
  show "fst (run_state (GemMdioWrite (mdio_dev W T B lat) B a r v) s) = EFI_SUCCESS"
    "phy_file (snd (run_state (GemMdioWrite (mdio_dev W T B lat) B a r v) s)) =
       W (a AND 0x1F) (r AND 0x1F) v (phy_file s)"
    "net_cfg B (snd (run_state (GemMdioWrite (mdio_dev W T B lat) B a r v) s)) = net_cfg B s"
    using assms(1) by (simp_all add: GemMdioWrite_dev [of T, OF assms(2)] net_cfg_def mdio_regs)
  show "phy_file (snd (run_state (GemUpdateLinkSpeed (mdio_dev W T B lat) B m fd) s)) = phy_file s"
    "net_cfg B (snd (run_state (GemUpdateLinkSpeed (mdio_dev W T B lat) B m fd) s)) =
       speed_cfg m fd (net_cfg B s)"
    by (simp_all add: GemUpdateLinkSpeed_def run_state_bind GemRead32_def GemWrite32_def io_simps
        mdio_dev_sel mdio_regs net_cfg_def Let_def speed_cfg_def or.assoc)
  show "phy_file (io_stall (mdio_dev W T B lat) us s) = T us (phy_file s)"
    by (simp add: mdio_dev_sel)
qed

text \<open>PHYs that change only on the scale of milliseconds, on a management port of any latency
  below the driver's limit of 400 polls.\<close>

definition slow :: "(nat \<Rightarrow> phy_regs \<Rightarrow> phy_regs) \<Rightarrow> nat \<Rightarrow> phy_regs \<Rightarrow> phy_regs" where
  "slow T us p = (if us < 1000 then p else T us p)"

interpretation port: mdio_port "mdio_dev W (slow T) B (lat mod 400)" B phy_file "net_cfg B" W "slow T"
  for W T B lat
  by (rule mdio_dev_port) (simp_all add: slow_def)

text \<open>
  C33: The management interface. On a management port that goes idle after \<open>lat\<close> polls, a read
  returns the register of the PHY addressed (five bits of address and register number) and
  changes no PHY, a write changes exactly as the PHY reacts, and with 400 polls or more both
  return \<^verbatim>\<open>EFI_TIMEOUT\<close> after finitely many steps; of the MAC only NET_CTRL and the maintenance
  register change.
\<close>

theorem mdio_transfer:
  assumes "\<And>p. T 5 p = p"
  shows "(case run_state (GemMdioRead (mdio_dev W T B lat) B a r) s of (x, s') \<Rightarrow>
       x = (if lat < 400 then Inr (phy_file s (a AND 0x1F) (r AND 0x1F)) else Inl EFI_TIMEOUT) \<and>
       phy_file s' = phy_file s \<and>
       {q. mac s' q \<noteq> mac s q} \<subseteq> {B + GEM_NET_CTRL, B + GEM_PHY_MAINT}) \<and>
     (case run_state (GemMdioWrite (mdio_dev W T B lat) B a r v) s of (st, s') \<Rightarrow>
       st = (if lat < 400 then EFI_SUCCESS else EFI_TIMEOUT) \<and>
       phy_file s' = W (a AND 0x1F) (r AND 0x1F) v (phy_file s) \<and>
       {q. mac s' q \<noteq> mac s q} \<subseteq> {B + GEM_NET_CTRL, B + GEM_PHY_MAINT})"
  unfolding GemMdioRead_dev [of T, OF assms] GemMdioWrite_dev [of T, OF assms] by auto

definition store_phy :: "u8 \<Rightarrow> u8 \<Rightarrow> u16 \<Rightarrow> phy_regs \<Rightarrow> phy_regs" where
  "store_phy a r v p = p(a := (p a)(r := v))"

definition mdio0 :: mdio_hw where
  "mdio0 = \<lparr>mac = (\<lambda>a. 0), phy_file = (\<lambda>a r. if a = 3 then 0x1234 else 0xFFFF), busy = 0\<rparr>"

theorem mdio_transfer_witness:
  "fst (run_state (GemMdioRead (mdio_dev store_phy (\<lambda>us p. p) 0 7) 0 3 2) mdio0) = Inr 0x1234 \<and>
   fst (run_state (GemMdioWrite (mdio_dev store_phy (\<lambda>us p. p) 0 7) 0 3 2 5) mdio0) = EFI_SUCCESS"
  using mdio_transfer [where T = "\<lambda>us p. p" and lat = 7 and a = 3 and r = 2 and s = mdio0 and
      W = store_phy and B = 0 and v = 5]
  by (simp add: case_prod_unfold mdio0_def)

subsection \<open>Detection, link tracking and autonegotiation\<close>

lemma and_31: "x AND 0x1F = (take_bit n x :: u8)" if "n = 5"
  using that by (simp add: take_bit_eq_mask mask_numeral)

lemma take_bit_shift:
  fixes x y :: "'a::len word"
  shows "take_bit n (take_bit n x + y) = take_bit n (x + y)"
    and "take_bit n (x + take_bit n y) = take_bit n (x + y)"
proof -
  have a: "take_bit k (take_bit k i + j) = take_bit k (i + j)" "take_bit k (i + take_bit k j) = take_bit k (i + j)"
    for i j :: int and k
    using take_bit_add [of k i j] take_bit_add [of k "take_bit k i" j] take_bit_add [of k i "take_bit k j"]
    by simp_all
  show "take_bit n (take_bit n x + y) = take_bit n (x + y)"
    "take_bit n (x + take_bit n y) = take_bit n (x + y)"
    by (transfer, simp only: a)+
qed

lemma scan_order_from:
  "k < m \<Longrightarrow> (a + of_nat k) AND 0x1F \<in> set (scan_order m (a AND 0x1F))"
proof (induction m arbitrary: a k)
  case (Suc m)
  show ?case
  proof (cases k)
    case (Suc j)
    have "((a AND 0x1F) + 1) AND 0x1F = (a + 1) AND 0x1F"
      unfolding and_31 [OF refl] by (rule take_bit_shift)
    with Suc Suc.IH [of j "a + 1"] Suc.prems show ?thesis by (simp add: add.assoc)
  qed simp
qed simp

lemma in_scan_order: "b AND 0x1F \<in> set (scan_order 32 (a AND 0x1F))"
proof -
  let ?k = "unat ((b - a) AND 0x1F)"
  have "(b - a) AND 0x1F \<le> 0x1F" by (rule word_and_le1)
  then have "?k < 32" by (simp add: word_le_nat_alt)
  from scan_order_from [OF this, of a] have "(a + ((b - a) AND 0x1F)) AND 0x1F \<in> set (scan_order 32 (a AND 0x1F))"
    by simp
  moreover have "(a + ((b - a) AND 0x1F)) AND 0x1F = b AND 0x1F"
    unfolding and_31 [OF refl] take_bit_shift by simp
  ultimately show ?thesis by simp
qed

lemma answers_mask: "answers p (a AND 0x1F) = answers p a"
  by (simp add: answers_def)

lemma find_scan:
  "find (answers p) (scan_order 32 (a AND 0x1F)) = None \<longleftrightarrow> (\<forall>b. \<not> answers p b)"
  using in_scan_order [of _ a] by (auto simp: find_None_iff) (metis answers_mask)

text \<open>
  Detection. After the reset pulse the driver finds a PHY exactly when some address
  answers with a valid identifier, and takes the first one from the configured address
  upwards, wrapping at 32; otherwise it returns \<^verbatim>\<open>EFI_NOT_FOUND\<close> and keeps the address.
\<close>

theorem phy_detect_first:
  assumes "lat < 400" and "\<And>p. T 5 p = p" and "GemBase g = B"
  shows "let D = mdio_dev W T B lat; p = phy_file (io (Rp1GemPhyHwReset D Rp1Bus g)) in
    case run_state (Rp1GemPhyDetect D Rp1Bus PcdAddr) g of (st, g') \<Rightarrow>
      (st = EFI_SUCCESS \<longleftrightarrow> (\<exists>a. answers p a)) \<and>
      (case find (answers p) (scan_order 32 (PcdAddr AND 0x1F)) of
         None \<Rightarrow> st = EFI_NOT_FOUND \<and> PhyAddr g' = PhyAddr g
       | Some a \<Rightarrow> st = EFI_SUCCESS \<and> PhyAddr g' = a \<and> answers p a)"
proof -
  define D where "D = mdio_dev W T B lat"
  define g1 where "g1 = Rp1GemPhyHwReset D Rp1Bus g"
  have g1: "GemBase g1 = B" "PhyAddr g1 = PhyAddr g"
    using assms(3) by (simp_all add: g1_def Rp1GemPhyHwReset_def split: option.split)
  note scan = mdio_port.run_PhyScan [OF mdio_dev_port [of lat T W B, OF assms(1,2)], folded D_def, OF g1(1)]
  have found: "find P xs = Some x \<Longrightarrow> P x" for P :: "u8 \<Rightarrow> bool" and xs x
    by (auto simp: find_Some_iff)
  have "run_state (Rp1GemPhyDetect D Rp1Bus PcdAddr) g = run_state (PhyScan D 32 (PcdAddr AND 0x1F)) g1"
    by (simp add: Rp1GemPhyDetect_def run_state_bind io_simps g1_def)
  then show ?thesis
    using scan [of 32 "PcdAddr AND 0x1F"] find_scan [of "phy_file (io g1)" PcdAddr] g1(2)
    unfolding Let_def D_def [symmetric] g1_def [symmetric]
    by (auto simp: case_prod_unfold dest: found split: option.splits)
qed

theorem phy_detect_first_witness:
  "case run_state (Rp1GemPhyDetect (mdio_dev store_phy (\<lambda>us p. p) 0x1F00100000 7) None 1) (gem_with mdio0)
     of (st, g') \<Rightarrow> st = EFI_SUCCESS \<and> answers (phy_file mdio0) (PhyAddr g')"
proof -
  have ans: "answers (phy_file mdio0) 3" by (simp add: answers_def id_valid_def mdio0_def)
  then show ?thesis
    using phy_detect_first [where lat = 7 and T = "\<lambda>us p. p" and g = "gem_with mdio0" and
      B = "0x1F00100000" and W = store_phy and Rp1Bus = None and PcdAddr = 1]
    by (auto simp: gem_with_def Let_def Rp1GemPhyHwReset_def find_scan split: option.splits prod.splits)
qed

text \<open>
  Link tracking. A poll of a reachable PHY returns success exactly when the PHY reports the
  link up and autonegotiation complete, and records that; on a transition to up, and only
  then, the MAC is set to the best mode that both ends advertise (1000 before 100 before 10,
  full before half duplex), and nothing else of the private data or the PHYs changes.
\<close>

theorem phy_tracks_link:
  fixes g :: "mdio_hw gem"
  assumes "lat < 400" and "\<And>p. T 5 p = p" and "GemBase g = B"
  defines "p \<equiv> phy_file (io g)" and "a \<equiv> PhyAddr g AND 0x1F"
  shows "case run_state (Rp1GemPhyUpdateConfig (mdio_dev W T B lat)) g of (st, g') \<Rightarrow>
    st = (if phy_up p a then EFI_SUCCESS else EFI_NOT_READY) \<and>
    g' = g\<lparr>LinkUp := phy_up p a, io := io g'\<rparr> \<and> phy_file (io g') = p \<and>
    net_cfg B (io g') =
      (if phy_up p a \<and> \<not> LinkUp g
       then case hd (common_modes p a) of (Mbps, fd) \<Rightarrow> speed_cfg Mbps fd (net_cfg B (io g))
       else net_cfg B (io g))"
proof -
  obtain s' where "run_state (Rp1GemPhyUpdateConfig (mdio_dev W T B lat)) g =
      (if phy_up p a then EFI_SUCCESS else EFI_NOT_READY, g\<lparr>LinkUp := phy_up p a, io := s'\<rparr>)"
    "phy_file s' = p" "net_cfg B s' = (if phy_up p a \<and> \<not> LinkUp g
      then speed_cfg (fst (hd (common_modes p a))) (snd (hd (common_modes p a))) (net_cfg B (io g))
      else net_cfg B (io g))"
    using mdio_port.run_UpdateConfig [OF mdio_dev_port [of lat T W B, OF assms(1,2)] assms(3)]
    unfolding p_def a_def by blast
  then show ?thesis by (simp add: case_prod_unfold)
qed

theorem phy_tracks_link_witness:
  "case run_state (Rp1GemPhyUpdateConfig (mdio_dev store_phy (\<lambda>us p. p) 0x1F00100000 7))
     ((gem_with mdio0)\<lparr>PhyAddr := 9\<rparr>) of (st, g') \<Rightarrow> st = EFI_SUCCESS \<and> LinkUp g'"
proof -
  have "phy_up (phy_file mdio0) (9 AND 0x1F)"
    by (simp add: phy_up_def mdio0_def PHY_BMSR_LINK_STATUS_def PHY_BMSR_ANEG_COMPLETE_def)
  then have "case run_state (Rp1GemPhyUpdateConfig (mdio_dev store_phy (\<lambda>us p. p) 0x1F00100000 7))
      ((gem_with mdio0)\<lparr>PhyAddr := 9\<rparr>) of (st, g') \<Rightarrow> st = EFI_SUCCESS \<and>
        g' = ((gem_with mdio0)\<lparr>PhyAddr := 9\<rparr>)\<lparr>LinkUp := True, io := io g'\<rparr>"
    using phy_tracks_link [where lat = 7 and T = "\<lambda>us p. p" and g = "(gem_with mdio0)\<lparr>PhyAddr := 9\<rparr>"
      and B = "0x1F00100000" and W = store_phy] by (auto simp: gem_with_def)
  then show ?thesis by (auto dest: arg_cong [where f = LinkUp])
qed

end
