(* ===== verification/Gem_Snp.thy ===== *)
theory Gem_Snp
  imports Gem_Phy
begin

section \<open>The Simple Network Protocol (Snp.c)\<close>

text \<open>
  Every protocol function of \<^verbatim>\<open>Snp.c\<close> on the private data of \<^verbatim>\<open>Gem_Ring\<close>. \<open>This\<close> is an
  option, \<open>None\<close> for a null pointer; \<^verbatim>\<open>snp_call\<close> is the check and the step from the protocol
  to the private data. Optional pointer arguments are options, output pointers are flags that
  say whether the caller passed one. The lock is the flag \<open>Lock\<close>: a handler that finds it held
  has interrupted another one. \<open>Bus\<close> and \<open>Pcd\<close> are the answers that \<^verbatim>\<open>Rp1GemPhyInit\<close> needs.
  The statistics that \<^verbatim>\<open>GetStatus\<close> reads for its log line are not modelled.
\<close>

definition GEM_LINK_TIMEOUT_MS :: nat where "GEM_LINK_TIMEOUT_MS = 5000"
definition EFI_SIMPLE_NETWORK_RECEIVE_INTERRUPT :: u32 where
  "EFI_SIMPLE_NETWORK_RECEIVE_INTERRUPT = 0x01"
definition EFI_SIMPLE_NETWORK_TRANSMIT_INTERRUPT :: u32 where
  "EFI_SIMPLE_NETWORK_TRANSMIT_INTERRUPT = 0x02"

definition snp_call :: "'r \<Rightarrow> ('s gem \<Rightarrow> 'r \<times> 's gem) \<Rightarrow> 's gem option \<Rightarrow> 'r \<times> 's gem option" where
  "snp_call bad f This =
     (case This of None \<Rightarrow> (bad, None) | Some g \<Rightarrow> (case f g of (r, g') \<Rightarrow> (r, Some g')))"

definition mode :: "(snp_mode \<Rightarrow> snp_mode) \<Rightarrow> 's gem \<Rightarrow> 's gem" where
  "mode f g = g\<lparr>SnpMode := f (SnpMode g)\<rparr>"

text \<open>The state checks that open most handlers.\<close>

definition if_initialized :: "(efi_status \<Rightarrow> 'r) \<Rightarrow> ('s gem \<Rightarrow> 'r \<times> 's gem) \<Rightarrow> 's gem \<Rightarrow> 'r \<times> 's gem" where
  "if_initialized fail f g =
     (if SnpState (SnpMode g) = EfiSimpleNetworkStopped then (fail EFI_NOT_STARTED, g)
      else if SnpState (SnpMode g) \<noteq> EfiSimpleNetworkInitialized then (fail EFI_DEVICE_ERROR, g)
      else f g)"

subsection \<open>Life cycle\<close>

definition Rp1GemSnpStart :: "'s gem option \<Rightarrow> efi_status \<times> 's gem option" where
  "Rp1GemSnpStart = snp_call EFI_INVALID_PARAMETER (\<lambda>g.
     if SnpState (SnpMode g) = EfiSimpleNetworkStarted then (EFI_ALREADY_STARTED, g)
     else if SnpState (SnpMode g) \<noteq> EfiSimpleNetworkStopped then (EFI_DEVICE_ERROR, g)
     else (EFI_SUCCESS, mode (\<lambda>m. m\<lparr>SnpState := EfiSimpleNetworkStarted\<rparr>) g))"

definition Rp1GemSnpStop :: "'s iodev \<Rightarrow> 's gem option \<Rightarrow> efi_status \<times> 's gem option" where
  "Rp1GemSnpStop D = snp_call EFI_INVALID_PARAMETER (\<lambda>g.
     if SnpState (SnpMode g) = EfiSimpleNetworkStopped then (EFI_NOT_STARTED, g)
     else if SnpState (SnpMode g) \<noteq> EfiSimpleNetworkStarted then (EFI_DEVICE_ERROR, g)
     else (EFI_SUCCESS, mode (\<lambda>m. m\<lparr>SnpState := EfiSimpleNetworkStopped\<rparr>)
             (gem_do (GemMacDisableTxRx D (GemBase g)) g)))"

definition Rp1GemSnpInitialize ::
  "'s iodev \<Rightarrow> u64 option \<Rightarrow> u8 \<Rightarrow> 's gem option \<Rightarrow> efi_status \<times> 's gem option" where
  "Rp1GemSnpInitialize D Bus Pcd = snp_call EFI_INVALID_PARAMETER (\<lambda>g.
     if SnpState (SnpMode g) = EfiSimpleNetworkStopped then (EFI_NOT_STARTED, g)
     else if SnpState (SnpMode g) \<noteq> EfiSimpleNetworkStarted then (EFI_DEVICE_ERROR, g)
     else
      (let g = GemMacConfigure D (gem_do (GemMacReset D (GemBase g)) g) in
       case run_state (Rp1GemPhyInit D Bus Pcd) g of (st, g) \<Rightarrow>
         if EFI_ERROR st then (st, g)
         else (EFI_SUCCESS,
           mode (\<lambda>m. m\<lparr>MediaPresent := False, SnpState := EfiSimpleNetworkInitialized\<rparr>)
             (gem_do (GemMacEnableTxRx D (GemBase g)) g))))"

definition Rp1GemSnpReset ::
  "'s iodev \<Rightarrow> u64 option \<Rightarrow> u8 \<Rightarrow> 's gem option \<Rightarrow> efi_status \<times> 's gem option" where
  "Rp1GemSnpReset D Bus Pcd = snp_call EFI_INVALID_PARAMETER (if_initialized (\<lambda>st. st) (\<lambda>g.
     case run_state (Rp1GemPhyInit D Bus Pcd) g of (st, g) \<Rightarrow>
       if EFI_ERROR st then (st, g) else (EFI_SUCCESS, mode (\<lambda>m. m\<lparr>MediaPresent := False\<rparr>) g)))"

definition Rp1GemSnpShutdown :: "'s iodev \<Rightarrow> 's gem option \<Rightarrow> efi_status \<times> 's gem option" where
  "Rp1GemSnpShutdown D = snp_call EFI_INVALID_PARAMETER (if_initialized (\<lambda>st. st) (\<lambda>g.
     (EFI_SUCCESS, mode (\<lambda>m. m\<lparr>MediaPresent := False, SnpState := EfiSimpleNetworkStarted\<rparr>)
        (gem_do (GemMacReset D (GemBase g)) (gem_do (GemMacDisableTxRx D (GemBase g)) g)))))"

subsection \<open>Filters and addresses\<close>

text \<open>
  The multicast list is an array of \<^verbatim>\<open>MAX_MCAST_FILTER_CNT\<close> addresses. The copy loop writes
  \<open>MCastFilterCnt\<close> of them whatever the array holds: the outcome \<open>None\<close> of the handler is a
  copy that reads through a null pointer or leaves one of the two arrays.
\<close>

definition copy_mcast :: "nat \<Rightarrow> u8 list list option \<Rightarrow> u8 list list \<Rightarrow> u8 list list option" where
  "copy_mcast cnt new old =
     (if cnt = 0 then Some old
      else case new of
        None \<Rightarrow> None
      | Some xs \<Rightarrow> if cnt \<le> length xs \<and> cnt \<le> length old then Some (take cnt xs @ drop cnt old) else None)"

definition Rp1GemSnpReceiveFilters ::
  "'s iodev \<Rightarrow> u32 \<Rightarrow> u32 \<Rightarrow> bool \<Rightarrow> nat \<Rightarrow> u8 list list option \<Rightarrow> 's gem option \<Rightarrow>
     (efi_status \<times> 's gem option) option" where
  "Rp1GemSnpReceiveFilters D Enable Disable ResetMCastFilter MCastFilterCnt NewFilter This =
     (case This of
        None \<Rightarrow> Some (EFI_INVALID_PARAMETER, None)
      | Some g \<Rightarrow>
     (let m = SnpMode g in
      if (Enable OR Disable) AND NOT (ReceiveFilterMask m) \<noteq> 0
      then Some (EFI_INVALID_PARAMETER, This)
      else if \<not> ResetMCastFilter \<and>
              Enable AND NOT Disable AND EFI_SIMPLE_NETWORK_RECEIVE_MULTICAST \<noteq> 0 \<and>
              (MCastFilterCnt > MaxMCastFilterCount m \<or> (MCastFilterCnt \<noteq> 0 \<and> NewFilter = None))
      then Some (EFI_INVALID_PARAMETER, This)
      else if SnpState m = EfiSimpleNetworkStopped then Some (EFI_NOT_STARTED, This)
      else if SnpState m \<noteq> EfiSimpleNetworkInitialized then Some (EFI_DEVICE_ERROR, This)
      else
       (let Setting = (ReceiveFilterSetting m OR Enable) AND NOT Disable;
            done = (\<lambda>m'. let g' = gem_do (GemSetReceiveFilters D (GemBase g) (CurrentAddress m') Setting)
                                   (g\<lparr>SnpMode := m'\<rparr>) in
                         Some (EFI_SUCCESS, Some (mode (\<lambda>m. m\<lparr>ReceiveFilterSetting := Setting\<rparr>) g'))) in
        if ResetMCastFilter
        then done (m\<lparr>MCastFilterCount := 0,
                    MCastFilter := map (\<lambda>x. map (\<lambda>b. 0) x) (MCastFilter m)\<rparr>)
        else if Setting AND EFI_SIMPLE_NETWORK_RECEIVE_MULTICAST \<noteq> 0
        then (case copy_mcast MCastFilterCnt NewFilter (MCastFilter m) of
                None \<Rightarrow> None
              | Some xs \<Rightarrow> done (m\<lparr>MCastFilterCount := of_nat MCastFilterCnt, MCastFilter := xs\<rparr>))
        else done m)))"

definition Rp1GemSnpStationAddress ::
  "'s iodev \<Rightarrow> bool \<Rightarrow> u8 list option \<Rightarrow> 's gem option \<Rightarrow> efi_status \<times> 's gem option" where
  "Rp1GemSnpStationAddress D Reset New = snp_call EFI_INVALID_PARAMETER (\<lambda>g.
     if \<not> Reset \<and> New = None then (EFI_INVALID_PARAMETER, g)
     else if_initialized (\<lambda>st. st) (\<lambda>g.
       let g = mode (\<lambda>m. m\<lparr>CurrentAddress := (if Reset then PermanentAddress m else the New)\<rparr>) g in
       (EFI_SUCCESS, gem_do (GemSetMacAddress D (GemBase g) (CurrentAddress (SnpMode g))) g)) g)"

definition Rp1GemSnpStatistics :: "'s gem option \<Rightarrow> efi_status \<times> 's gem option" where
  "Rp1GemSnpStatistics This = (EFI_UNSUPPORTED, This)"

definition Rp1GemSnpNvData :: "'s gem option \<Rightarrow> efi_status \<times> 's gem option" where
  "Rp1GemSnpNvData This = (EFI_UNSUPPORTED, This)"

text \<open>The second component is what is left in \<open>*MAC\<close>, \<open>None\<close> when it is not written.\<close>

definition pad_mac :: "u8 list \<Rightarrow> u8 list" where
  "pad_mac a = a @ replicate (32 - length a) 0"

definition Rp1GemSnpMCastIpToMac ::
  "bool \<Rightarrow> u8 list option \<Rightarrow> bool \<Rightarrow> 's gem option \<Rightarrow> (efi_status \<times> u8 list option) \<times> 's gem option" where
  "Rp1GemSnpMCastIpToMac IPv6 IP MacPtr =
     snp_call (EFI_INVALID_PARAMETER, None) (\<lambda>g.
       case IP of
         None \<Rightarrow> ((EFI_INVALID_PARAMETER, None), g)
       | Some ip \<Rightarrow>
           if \<not> MacPtr then ((EFI_INVALID_PARAMETER, None), g)
           else if_initialized (\<lambda>st. (st, None)) (\<lambda>g.
             (if IPv6 then
                (if ip ! 0 \<noteq> 0xFF then (EFI_INVALID_PARAMETER, Some (pad_mac []))
                 else (EFI_SUCCESS, Some (pad_mac [0x33, 0x33, ip ! 12, ip ! 13, ip ! 14, ip ! 15])))
              else
                (if ip ! 0 AND 0xF0 \<noteq> 0xE0 then (EFI_INVALID_PARAMETER, Some (pad_mac []))
                 else (EFI_SUCCESS,
                       Some (pad_mac [0x01, 0x00, 0x5E, ip ! 1 AND 0x7F, ip ! 2, ip ! 3]))), g)) g)"

subsection \<open>Status, transmit, receive\<close>

definition Rp1GemSnpGetStatus ::
  "'s iodev \<Rightarrow> bool \<Rightarrow> bool \<Rightarrow> 's gem option \<Rightarrow>
     (efi_status \<times> u32 option \<times> u64 option option) \<times> 's gem option" where
  "Rp1GemSnpGetStatus D WantInt WantTx =
     snp_call (EFI_INVALID_PARAMETER, None, None) (if_initialized (\<lambda>st. (st, None, None)) (\<lambda>g.
       if Lock g then ((EFI_ACCESS_DENIED, None, None), g)
       else
        (case run_state (Rp1GemPhyUpdateConfig D) (g\<lparr>Lock := True\<rparr>) of (st, g) \<Rightarrow>
         let g = mode (\<lambda>m. m\<lparr>MediaPresent := \<not> EFI_ERROR st\<rparr>) g in
         case (if WantTx then (case GemGetRecycledTxBuffer D g of (b, g) \<Rightarrow> (Some b, g))
               else (None, g)) of (TxBuf, g) \<Rightarrow>
         let Pending = (if GemRxPending g then EFI_SIMPLE_NETWORK_RECEIVE_INTERRUPT else 0) OR
                     (if GemTxPendingCompletion g then EFI_SIMPLE_NETWORK_TRANSMIT_INTERRUPT else 0) in
         ((EFI_SUCCESS, if WantInt then Some Pending else None, TxBuf), g\<lparr>Lock := False\<rparr>))))"

text \<open>The wait for a link: \<open>st\<close> is the status of the last poll, \<open>n\<close> polls are left.\<close>

fun SnpWaitLink :: "'s iodev \<Rightarrow> efi_status \<Rightarrow> nat \<Rightarrow> ('s gem, efi_status) state" where
  "SnpWaitLink D st 0 = State_Monad.return st"
| "SnpWaitLink D st (Suc n) = do {
     st \<leftarrow> Rp1GemPhyUpdateConfig D;
     (if \<not> EFI_ERROR st then State_Monad.return st
      else do { modify (gem_do (Stall D 10000)); SnpWaitLink D st n })
   }"

definition eth_header :: "u8 list \<Rightarrow> u8 list \<Rightarrow> u16 \<Rightarrow> u8 list" where
  "eth_header Dest Src Proto = take 6 Dest @ take 6 Src @
     [ucast (drop_bit 8 Proto AND 0xFF), ucast (Proto AND 0xFF)]"

text \<open>\<open>Buffer\<close> is the address and the bytes of the caller's packet; the bytes are handed back as
  the function leaves them.\<close>

definition Rp1GemSnpTransmit ::
  "'s iodev \<Rightarrow> nat \<Rightarrow> nat \<Rightarrow> (u64 \<times> buf) option \<Rightarrow> u8 list option \<Rightarrow> u8 list option \<Rightarrow> u16 option \<Rightarrow>
     's gem option \<Rightarrow> (efi_status \<times> (u64 \<times> buf) option) \<times> 's gem option" where
  "Rp1GemSnpTransmit D HeaderSize BufferSize Buffer SrcAddr DestAddr Protocol =
     snp_call (EFI_INVALID_PARAMETER, Buffer) (\<lambda>g.
      case Buffer of None \<Rightarrow> ((EFI_INVALID_PARAMETER, None), g)
      | Some (addr, Frame) \<Rightarrow> if_initialized (\<lambda>st. (st, Buffer)) (\<lambda>g.
       if HeaderSize \<noteq> 0 \<and> HeaderSize \<noteq> MediaHeaderSize (SnpMode g)
       then ((EFI_INVALID_PARAMETER, Buffer), g)
       else if HeaderSize \<noteq> 0 \<and> (DestAddr = None \<or> Protocol = None)
       then ((EFI_INVALID_PARAMETER, Buffer), g)
       else if BufferSize < MediaHeaderSize (SnpMode g) then ((EFI_BUFFER_TOO_SMALL, Buffer), g)
       else if BufferSize > GEM_MAX_FRAME_SIZE then ((EFI_INVALID_PARAMETER, Buffer), g)
       else
        (case (if MediaPresent (SnpMode g) then (EFI_SUCCESS, g)
               else (case run_state (SnpWaitLink D EFI_NOT_READY (GEM_LINK_TIMEOUT_MS div 10)) g of
                       (st, g) \<Rightarrow> if EFI_ERROR st then (EFI_NOT_READY, g)
                                 else (EFI_SUCCESS, mode (\<lambda>m. m\<lparr>MediaPresent := True\<rparr>) g))) of
           (st, g) \<Rightarrow>
           if EFI_ERROR st then ((EFI_NOT_READY, Buffer), g)
           else
            (let Src = (case SrcAddr of None \<Rightarrow> CurrentAddress (SnpMode g) | Some a \<Rightarrow> a);
                 Frame = (if HeaderSize \<noteq> 0
                          then CopyMem Frame 0 (eth_header (the DestAddr) Src (the Protocol)) else Frame);
                 Buffer = Some (addr, Frame) in
             if Lock g then ((EFI_ACCESS_DENIED, Buffer), g)
             else (case GemTransmitFrame D addr Frame BufferSize (g\<lparr>Lock := True\<rparr>) of
                     (st, g) \<Rightarrow> ((st, Buffer), g\<lparr>Lock := False\<rparr>))))) g)"

record snp_packet =
  PktSize :: nat
  PktData :: "u8 list"
  PktDest :: "u8 list"
  PktSrc :: "u8 list"
  PktProtocol :: u16
  PktHeaderSize :: nat

text \<open>
  The outcome is the status, the value of \<open>*BufferSize\<close> and, on success, the packet with the
  header fields that the function stores through those of its pointers that are not null.
\<close>

definition Rp1GemSnpReceive ::
  "'s iodev \<Rightarrow> nat option \<Rightarrow> bool \<Rightarrow> 's gem option \<Rightarrow>
     (efi_status \<times> nat option \<times> snp_packet option) \<times> 's gem option" where
  "Rp1GemSnpReceive D BufferSize BufferPtr =
     snp_call (EFI_INVALID_PARAMETER, BufferSize, None) (\<lambda>g.
      case BufferSize of None \<Rightarrow> ((EFI_INVALID_PARAMETER, None, None), g)
      | Some n \<Rightarrow>
       if \<not> BufferPtr then ((EFI_INVALID_PARAMETER, Some n, None), g)
       else if_initialized (\<lambda>st. (st, Some n, None)) (\<lambda>g.
         if Lock g then ((EFI_ACCESS_DENIED, Some n, None), g)
         else
          (case GemReceiveFrame D n (g\<lparr>Lock := True\<rparr>) of ((st, n, Frame), g) \<Rightarrow>
            if EFI_ERROR st then ((st, Some n, None), g\<lparr>Lock := False\<rparr>)
            else
             ((EFI_SUCCESS, Some n, Some
                \<lparr>PktSize = n, PktData = Frame, PktDest = pad_mac (take 6 Frame),
                 PktSrc = pad_mac (take 6 (drop 6 Frame)),
                 PktProtocol = push_bit 8 (ucast (Frame ! 12)) OR ucast (Frame ! 13),
                 PktHeaderSize = MediaHeaderSize (SnpMode g)\<rparr>), g\<lparr>Lock := False\<rparr>))) g)"

text \<open>Whether the event is signalled.\<close>

definition Rp1GemWaitForPacketNotify :: "'s gem option \<Rightarrow> bool" where
  "Rp1GemWaitForPacketNotify Context =
     (case Context of None \<Rightarrow> False
      | Some g \<Rightarrow> if SnpState (SnpMode g) \<noteq> EfiSimpleNetworkInitialized then False else GemRxPending g)"

subsection \<open>What the PHY code leaves alone\<close>

text \<open>The private data without the fields that the PHY code uses.\<close>

definition core :: "'s gem \<Rightarrow> unit gem" where
  "core g = \<lparr>GemBase = GemBase g, SnpMode = SnpMode g, Lock = Lock g, PhyAddr = 0, LinkUp = False,
     DescBuffer = DescBuffer g, RxRing = RxRing g, TxRing = TxRing g, NullRxDesc = NullRxDesc g,
     NullTxDesc = NullTxDesc g, RxBuffers = RxBuffers g, TxBuffers = TxBuffers g, RxHead = RxHead g,
     TxProd = TxProd g, TxCons = TxCons g, TxUserBuffer = TxUserBuffer g, RxDesc = RxDesc g,
     TxDesc = TxDesc g, NullRx = NullRx g, NullTx = NullTx g, RxMem = RxMem g, TxMem = TxMem g,
     dma = dma g, io = ()\<rparr>"

named_theorems core_intro \<open>programs that only change what the PHY code uses\<close>

definition keeps_core :: "('s gem, 'a) state \<Rightarrow> bool" where
  "keeps_core m = (\<forall>g. core (snd (run_state m g)) = core g)"

lemma keeps_core_return [core_intro]: "keeps_core (State_Monad.return x)"
  by (simp add: keeps_core_def run_state_return)

lemma keeps_core_bind [core_intro]:
  "keeps_core m \<Longrightarrow> (\<And>x. keeps_core (f x)) \<Longrightarrow> keeps_core (State_Monad.bind m f)"
  by (simp add: keeps_core_def run_state_bind case_prod_unfold)

lemma keeps_core_cases [core_intro]:
  "(b \<Longrightarrow> keeps_core m) \<Longrightarrow> (\<not> b \<Longrightarrow> keeps_core n) \<Longrightarrow> keeps_core (if b then m else n)"
  "(\<And>x. keeps_core (f x)) \<Longrightarrow> (\<And>x. keeps_core (h x)) \<Longrightarrow> keeps_core (case r of Inl x \<Rightarrow> f x | Inr x \<Rightarrow> h x)"
  "(\<And>x y. keeps_core (k x y)) \<Longrightarrow> keeps_core (case p of (x, y) \<Rightarrow> k x y)"
  by (simp_all split: sum.split prod.split)

lemma keeps_core_steps [core_intro]:
  "keeps_core (mdio_read D a r)" "keeps_core (PhyRead D r)" "keeps_core (PhyWrite D r v)"
  "keeps_core (gets h)" "keeps_core (modify (\<lambda>g. gem_do (m g) g))" "keeps_core (modify (gem_do n))"
  "keeps_core (modify (\<lambda>g. g\<lparr>PhyAddr := a\<rparr>))" "keeps_core (modify (\<lambda>g. g\<lparr>LinkUp := b\<rparr>))"
  "keeps_core (modify (Rp1GemPhyHwReset D Bus))"
  by (simp_all add: keeps_core_def mdio_read_def PhyRead_def PhyWrite_def gem_io_def io_simps core_def
      case_prod_unfold gem_do_def Rp1GemPhyHwReset_def split: option.split)

lemma keeps_core_dump [core_intro]: "keeps_core (PhyDump D as)"
  by (induction "as") (auto intro!: core_intro)

lemma keeps_core_scan [core_intro]: "keeps_core (PhyScan D n a)"
  by (induction n arbitrary: a) (auto intro!: core_intro)

lemma keeps_core_wait [core_intro]: "keeps_core (PhyResetWait D n)"
  by (induction n) (auto simp: on_value_def intro!: core_intro)

lemma keeps_core_init [core_intro]: "keeps_core (Rp1GemPhyInit D Bus Pcd)"
  unfolding Rp1GemPhyInit_def Rp1GemPhyDetect_def Rp1GemPhyReset_def Rp1GemPhyConfigRgmiiDelays_def
    Rp1GemPhyAutoNegotiate_def on_value_def unless_error_def
  by (intro core_intro)

lemma keeps_core_update [core_intro]: "keeps_core (Rp1GemPhyUpdateConfig D)"
  unfolding Rp1GemPhyUpdateConfig_def Rp1GemPhyGetConfig_def on_value_def Let_def
  by (intro core_intro)

lemma keeps_core_link [core_intro]: "keeps_core (SnpWaitLink D st n)"
  by (induction n arbitrary: st) (auto intro!: core_intro)

lemma coreD:
  assumes "core g = core g'"
  shows "GemBase g = GemBase g'" "SnpMode g = SnpMode g'" "Lock g = Lock g'" "TxProd g = TxProd g'"
    "TxCons g = TxCons g'" "RxHead g = RxHead g'" "TxUserBuffer g = TxUserBuffer g'"
    "RxDesc g = RxDesc g'" "TxDesc g = TxDesc g'" "RxMem g = RxMem g'" "TxMem g = TxMem g'"
    "RxBuffers g = RxBuffers g'" "TxBuffers g = TxBuffers g'"
  using assms by (simp_all add: core_def)

lemma keeps_coreD: "keeps_core m \<Longrightarrow> run_state m g = (x, g') \<Longrightarrow> core g' = core g"
  by (metis keeps_core_def snd_conv)

text \<open>The rings see neither the mode structure nor the lock nor the registers.\<close>

lemma rings_core:
  assumes "core g = core g'"
  shows "tx_inv g = tx_inv g'" "tx_abs g = tx_abs g'" "rx_inv g = rx_inv g'" "rx_abs g = rx_abs g'"
  using coreD [OF assms]
  by (simp_all add: tx_inv_def tx_abs_def tx_frame_def tx_slot_def tx_count_def rx_inv_def rx_abs_def
      rx_view_def)

lemma rings_other [simp]:
  "tx_inv (mode f g) = tx_inv g" "tx_abs (mode f g) = tx_abs g"
  "rx_inv (mode f g) = rx_inv g" "rx_abs (mode f g) = rx_abs g"
  "tx_inv (g\<lparr>Lock := b\<rparr>) = tx_inv g" "tx_abs (g\<lparr>Lock := b\<rparr>) = tx_abs g"
  "rx_inv (g\<lparr>Lock := b\<rparr>) = rx_inv g" "rx_abs (g\<lparr>Lock := b\<rparr>) = rx_abs g"
  "tx_inv (g\<lparr>SnpMode := m\<rparr>) = tx_inv g" "rx_inv (g\<lparr>SnpMode := m\<rparr>) = rx_inv g"
  "tx_inv (gem_do n g) = tx_inv g" "tx_abs (gem_do n g) = tx_abs g"
  "tx_inv (g\<lparr>io := i\<rparr>) = tx_inv g" "rx_inv (g\<lparr>io := i\<rparr>) = rx_inv g"
  by (simp_all add: mode_def tx_inv_def tx_abs_def tx_frame_def tx_slot_def tx_count_def rx_inv_def
      rx_abs_def rx_view_def)

lemma mode_sel [simp]:
  "SnpMode (mode f g) = f (SnpMode g)" "Lock (mode f g) = Lock g" "GemBase (mode f g) = GemBase g"
  "RxBuffers (mode f g) = RxBuffers g" "io (mode f g) = io g"
  by (simp_all add: mode_def)

subsection \<open>The driver and the hardware as a transition system\<close>

text \<open>
  One step is one protocol call, or one action of the hardware: it completes a transmit
  descriptor, delivers a frame or a fragment, or changes its registers in any way.
\<close>

inductive snp_step :: "'s iodev \<Rightarrow> u64 option \<Rightarrow> u8 \<Rightarrow> 's gem \<Rightarrow> 's gem \<Rightarrow> bool" for D Bus Pcd where
  StartStep: "Rp1GemSnpStart (Some g) = (st, Some g') \<Longrightarrow> snp_step D Bus Pcd g g'"
| StopStep: "Rp1GemSnpStop D (Some g) = (st, Some g') \<Longrightarrow> snp_step D Bus Pcd g g'"
| InitializeStep: "Rp1GemSnpInitialize D Bus Pcd (Some g) = (st, Some g') \<Longrightarrow> snp_step D Bus Pcd g g'"
| ResetStep: "Rp1GemSnpReset D Bus Pcd (Some g) = (st, Some g') \<Longrightarrow> snp_step D Bus Pcd g g'"
| ShutdownStep: "Rp1GemSnpShutdown D (Some g) = (st, Some g') \<Longrightarrow> snp_step D Bus Pcd g g'"
| FiltersStep: "Rp1GemSnpReceiveFilters D e d r n l (Some g) = Some (st, Some g') \<Longrightarrow> snp_step D Bus Pcd g g'"
| StationStep: "Rp1GemSnpStationAddress D rs a (Some g) = (st, Some g') \<Longrightarrow> snp_step D Bus Pcd g g'"
| StatusStep: "Rp1GemSnpGetStatus D i t (Some g) = (r, Some g') \<Longrightarrow> snp_step D Bus Pcd g g'"
| TransmitStep: "Rp1GemSnpTransmit D h n b sa da p (Some g) = (r, Some g') \<Longrightarrow> snp_step D Bus Pcd g g'"
| ReceiveStep: "Rp1GemSnpReceive D n' bp (Some g) = (r', Some g') \<Longrightarrow> snp_step D Bus Pcd g g'"
| CompleteStep: "snp_step D Bus Pcd g (tx_complete ie g)"
| DeliverStep: "rx_put bs g = Some g' \<Longrightarrow> snp_step D Bus Pcd g g'"
| JunkStep: "snp_step D Bus Pcd g (rx_junk cb g)"

inductive snp_reach :: "'s iodev \<Rightarrow> u64 option \<Rightarrow> u8 \<Rightarrow> 's gem \<Rightarrow> 's gem \<Rightarrow> bool" for D Bus Pcd g0 where
  SnpInit: "snp_reach D Bus Pcd g0 g0"
| SnpStep: "snp_reach D Bus Pcd g0 g \<Longrightarrow> snp_step D Bus Pcd g g' \<Longrightarrow> snp_reach D Bus Pcd g0 g'"

text \<open>The state in which the driver binding leaves the private data.\<close>

definition snp_fresh :: "'s gem \<Rightarrow> bool" where
  "snp_fresh g = (SnpState (SnpMode g) = EfiSimpleNetworkStopped \<and> \<not> Lock g \<and>
     ptr (RxBuffers g) AND 3 = 0)"

definition snp_inv :: "'s gem \<Rightarrow> bool" where
  "snp_inv g = (\<not> Lock g \<and> ptr (RxBuffers g) AND 3 = 0 \<and>
     (SnpState (SnpMode g) = EfiSimpleNetworkInitialized \<longrightarrow> tx_inv g \<and> rx_inv g))"

lemma configure_rings:
  assumes "ptr (RxBuffers g) AND 3 = 0"
  shows "tx_inv (GemMacConfigure D g)" "rx_inv (GemMacConfigure D g)" "tx_abs (GemMacConfigure D g) = []"
    "rx_abs (GemMacConfigure D g) = []" "RxBuffers (GemMacConfigure D g) = RxBuffers g"
    "SnpMode (GemMacConfigure D g) = SnpMode g" "Lock (GemMacConfigure D g) = Lock g"
    "GemBase (GemMacConfigure D g) = GemBase g"
  using assms by (simp_all add: GemMacConfigure_def Let_def init_tx init_rx init_rings_sel)
    (simp_all add: GemInitRings_def Let_def)

lemma inv_initialize:
  assumes inv: "snp_inv g" and run: "Rp1GemSnpInitialize D Bus Pcd (Some g) = (st, Some g')"
  shows "snp_inv g'"
proof -
  let ?g = "GemMacConfigure D (gem_do (GemMacReset D (GemBase g)) g)"
  obtain s p where phy: "run_state (Rp1GemPhyInit D Bus Pcd) ?g = (s, p)" by force
  have c: "core p = core ?g" by (rule keeps_coreD [OF keeps_core_init phy])
  have al: "ptr (RxBuffers (gem_do (GemMacReset D (GemBase g)) g)) AND 3 = 0"
    using inv by (simp add: snp_inv_def)
  have "snp_inv p" and "tx_inv p" and "rx_inv p"
    using configure_rings [OF al] rings_core [OF c] coreD [OF c] inv by (simp_all add: snp_inv_def)
  then show ?thesis
    using run inv phy
    by (auto simp: Rp1GemSnpInitialize_def snp_call_def Let_def snp_inv_def split: if_splits)
qed

lemma inv_reset:
  assumes inv: "snp_inv g" and run: "Rp1GemSnpReset D Bus Pcd (Some g) = (st, Some g')"
  shows "snp_inv g'"
proof -
  obtain s p where phy: "run_state (Rp1GemPhyInit D Bus Pcd) g = (s, p)" by force
  have c: "core p = core g" by (rule keeps_coreD [OF keeps_core_init phy])
  have "snp_inv p" using rings_core [OF c] coreD [OF c] inv by (simp add: snp_inv_def)
  then show ?thesis
    using run inv phy
    by (auto simp: Rp1GemSnpReset_def snp_call_def if_initialized_def snp_inv_def split: if_splits)
qed

lemma inv_simple:
  assumes "snp_inv g"
  shows "Rp1GemSnpStart (Some g) = (st, Some g') \<Longrightarrow> snp_inv g'"
    and "Rp1GemSnpStop D (Some g) = (st, Some g') \<Longrightarrow> snp_inv g'"
    and "Rp1GemSnpShutdown D (Some g) = (st, Some g') \<Longrightarrow> snp_inv g'"
    and "Rp1GemSnpStationAddress D rs a (Some g) = (st, Some g') \<Longrightarrow> snp_inv g'"
    and "Rp1GemSnpReceiveFilters D e d r n l (Some g) = Some (st, Some g') \<Longrightarrow> snp_inv g'"
  using assms
  by (auto simp: Rp1GemSnpStart_def Rp1GemSnpStop_def Rp1GemSnpShutdown_def Rp1GemSnpStationAddress_def
      Rp1GemSnpReceiveFilters_def snp_call_def if_initialized_def Let_def snp_inv_def
      split: if_splits option.splits)

lemma inv_get_tx:
  assumes "snp_inv g" and "SnpState (SnpMode g) = EfiSimpleNetworkInitialized"
    and get: "GemGetRecycledTxBuffer D g = (b, g')"
  shows "tx_inv g'" and "rx_inv g'" and "SnpMode g' = SnpMode g" and "RxBuffers g' = RxBuffers g"
    and "Lock g' = Lock g"
proof -
  have inv: "tx_inv g" "rx_inv g" using assms(1,2) by (simp_all add: snp_inv_def)
  show other: "rx_inv g'" "SnpMode g' = SnpMode g" "RxBuffers g' = RxBuffers g" "Lock g' = Lock g"
    using get inv(2) by (auto simp: GemGetRecycledTxBuffer_def Let_def rx_inv_def rx_view_def split: if_splits)
  show "tx_inv g'"
  proof (cases b)
    case (Some ub)
    then have "tx_get D g = Some (ub, g')" using get by (simp add: tx_get_def)
    then show ?thesis by (rule recycle_refines(1) [OF inv(1)])
  next
    case None
    have "TxUserBuffer g ! tx_index (TxCons g) \<noteq> None" if "TxCons g \<noteq> TxProd g"
      using tx_inv_cases(4) [OF inv(1), of 0] that
      by (simp add: tx_count_def unat_gt_0 tx_index_def tx_slot_def)
    with None get have "g' = g" by (auto simp: GemGetRecycledTxBuffer_def Let_def split: if_splits)
    with inv(1) show ?thesis by simp
  qed
qed

lemma inv_status:
  assumes inv: "snp_inv g" and run: "Rp1GemSnpGetStatus D i t (Some g) = (r, Some g')"
  shows "snp_inv g'"
proof (cases "SnpState (SnpMode g) = EfiSimpleNetworkInitialized")
  case False
  with run inv show ?thesis by (auto simp: Rp1GemSnpGetStatus_def snp_call_def if_initialized_def split: if_splits)
next
  case True
  obtain st p where upd: "run_state (Rp1GemPhyUpdateConfig D) (g\<lparr>Lock := True\<rparr>) = (st, p)" by force
  define q where "q = mode (\<lambda>m. m\<lparr>MediaPresent := \<not> EFI_ERROR st\<rparr>) p"
  have c: "core p = core (g\<lparr>Lock := True\<rparr>)" by (rule keeps_coreD [OF keeps_core_update upd])
  have q: "tx_inv q" "rx_inv q" "SnpState (SnpMode q) = EfiSimpleNetworkInitialized"
    "RxBuffers q = RxBuffers g"
    using rings_core [OF c] coreD [OF c] inv True by (simp_all add: q_def snp_inv_def)
  have "snp_inv (q\<lparr>Lock := False\<rparr>)" using q inv by (simp add: snp_inv_def)
  obtain b x where x: "(if t then (case GemGetRecycledTxBuffer D q of (b, g) \<Rightarrow> (Some b, g)) else (None, q)) = (b, x)"
    by force
  have "tx_inv x \<and> rx_inv x \<and> RxBuffers x = RxBuffers g"
  proof (cases t)
    case False
    with x q show ?thesis by simp
  next
    case tr: True
    obtain b' where get: "GemGetRecycledTxBuffer D q = (b', x)" using x tr by (auto split: prod.splits)
    have "GemGetRecycledTxBuffer D (q\<lparr>Lock := False\<rparr>) = (b', x\<lparr>Lock := False\<rparr>)"
      using get by (auto simp: GemGetRecycledTxBuffer_def Let_def gem_do_def split: if_splits)
    from inv_get_tx [OF \<open>snp_inv (q\<lparr>Lock := False\<rparr>)\<close> _ this] q show ?thesis by simp
  qed
  moreover have "g' = x\<lparr>Lock := False\<rparr>"
    using run True inv upd x
    by (auto simp: Rp1GemSnpGetStatus_def snp_call_def if_initialized_def q_def Let_def snp_inv_def
        split: if_splits prod.splits)
  ultimately show ?thesis using inv by (simp add: snp_inv_def)
qed

lemma transmit_bytes:
  "GemTransmitFrame D ub f n g = GemTransmitFrame D ub (\<lambda>i. bytes_at f 0 n ! i) (length (bytes_at f 0 n)) g"
proof -
  have len: "length (bytes_at f 0 n) = n" by (simp add: bytes_at_def)
  have "bytes_at (\<lambda>i. bytes_at f 0 n ! i) 0 n = bytes_at f 0 n"
    using bytes_at_nth [of "bytes_at f 0 n"] by (simp only: len)
  then show ?thesis unfolding GemTransmitFrame_def by (simp only: len)
qed

lemma transmit_frame_cases:
  assumes inv: "tx_inv g" and len: "n \<le> GEM_MAX_FRAME_SIZE" and run: "GemTransmitFrame D ub f n g = (st, g')"
  shows "st = EFI_SUCCESS \<and> tx_inv g' \<and> tx_abs g' = tx_abs g @ [(ub, bytes_at f 0 n)] \<and>
           length (tx_abs g) < GEM_TX_DESC_COUNT \<or>
         st = EFI_NOT_READY \<and> g' = g \<and> length (tx_abs g) = GEM_TX_DESC_COUNT"
proof (cases "tx_count g < 8")
  case True
  have "length (bytes_at f 0 n) \<le> GEM_MAX_FRAME_SIZE" using len by (simp add: bytes_at_def)
  from transmit_refines [OF inv True this run [unfolded transmit_bytes [of D ub f n]]] True
  show ?thesis by (simp add: tx_abs_def tx_consts)
next
  case False
  with run transmit_full [of g] tx_inv_cases(3) [OF inv] show ?thesis by (simp add: tx_abs_def tx_consts)
qed

lemma transmit_frame_other:
  assumes "GemTransmitFrame D ub f n g = (st, g')"
  shows "SnpMode g' = SnpMode g" "RxBuffers g' = RxBuffers g" "rx_inv g' = rx_inv g" "rx_abs g' = rx_abs g"
    "Lock g' = Lock g"
  using assms by (auto simp: GemTransmitFrame_def Let_def rx_inv_def rx_view_def rx_abs_def split: if_splits)

text \<open>What a call of Transmit comes to: the packet as the function leaves it in the caller's
  buffer, and the state before the frame is queued.\<close>

definition tx_packet :: "nat \<Rightarrow> u8 list option \<Rightarrow> u8 list option \<Rightarrow> u16 option \<Rightarrow> 's gem \<Rightarrow> buf \<Rightarrow> buf" where
  "tx_packet HeaderSize SrcAddr DestAddr Protocol g Frame =
     (if HeaderSize = 0 then Frame
      else CopyMem Frame 0 (eth_header (the DestAddr)
        (case SrcAddr of None \<Rightarrow> CurrentAddress (SnpMode g) | Some a \<Rightarrow> a) (the Protocol)))"

lemma transmit_spec:
  assumes inv: "snp_inv g"
    and run: "Rp1GemSnpTransmit D h n (Some (ub, f)) sa da pr (Some g) = ((st, b), Some g')"
  shows "snp_inv g' \<and> rx_abs g' = rx_abs g \<and>
    (if st = EFI_SUCCESS
     then SnpState (SnpMode g) = EfiSimpleNetworkInitialized \<and> n \<le> GEM_MAX_FRAME_SIZE \<and>
       (h = 0 \<or> h = MediaHeaderSize (SnpMode g) \<and> da \<noteq> None \<and> pr \<noteq> None) \<and>
       tx_abs g' = tx_abs g @ [(ub, bytes_at (tx_packet h sa da pr g f) 0 n)] \<and>
       length (tx_abs g) < GEM_TX_DESC_COUNT
     else tx_abs g' = tx_abs g)"
proof -
  define w where "w = (if MediaPresent (SnpMode g) then (EFI_SUCCESS, g)
    else (case run_state (SnpWaitLink D EFI_NOT_READY (GEM_LINK_TIMEOUT_MS div 10)) g of
       (st, g) \<Rightarrow> if EFI_ERROR st then (EFI_NOT_READY, g)
                 else (EFI_SUCCESS, mode (\<lambda>m. m\<lparr>MediaPresent := True\<rparr>) g)))"
  obtain sw p where w: "w = (sw, p)" by force
  obtain sl q where link: "run_state (SnpWaitLink D EFI_NOT_READY (GEM_LINK_TIMEOUT_MS div 10)) g = (sl, q)"
    by force
  have c: "core q = core g" by (rule keeps_coreD [OF keeps_core_link link])
  have p: "snp_inv p" "tx_abs p = tx_abs g" "rx_abs p = rx_abs g" "\<not> Lock p"
    "SnpState (SnpMode p) = SnpState (SnpMode g)" "CurrentAddress (SnpMode p) = CurrentAddress (SnpMode g)"
    "tx_inv p = tx_inv g" "rx_inv p = rx_inv g"
    using w link rings_core [OF c] coreD [OF c] inv by (auto simp: w_def snp_inv_def split: if_splits)
  show ?thesis
  proof (cases "SnpState (SnpMode g) = EfiSimpleNetworkInitialized \<and> n \<le> GEM_MAX_FRAME_SIZE \<and>
      (h = 0 \<or> h = MediaHeaderSize (SnpMode g) \<and> da \<noteq> None \<and> pr \<noteq> None) \<and>
      \<not> n < MediaHeaderSize (SnpMode g) \<and> \<not> EFI_ERROR sw")
    case False
    then have "st \<noteq> EFI_SUCCESS \<and> (g' = g \<or> g' = p)"
      using run by (auto simp: Rp1GemSnpTransmit_def snp_call_def if_initialized_def w_def [symmetric] w
          split: if_splits)
    then show ?thesis using inv p by auto
  next
    case True
    let ?f = "tx_packet h sa da pr g f"
    obtain st' x where tr: "GemTransmitFrame D ub ?f n (p\<lparr>Lock := True\<rparr>) = (st', x)" by force
    have ok: "tx_inv (p\<lparr>Lock := True\<rparr>)" "n \<le> GEM_MAX_FRAME_SIZE" using inv p True by (simp_all add: snp_inv_def)
    have res: "st = st' \<and> g' = x\<lparr>Lock := False\<rparr>"
    proof -
      have eq: "tx_packet h sa da pr g f = tx_packet h sa da pr p f"
        by (simp add: tx_packet_def p(6) split: option.split)
      have h: "h \<noteq> 0 \<Longrightarrow> h = MediaHeaderSize (SnpMode g) \<and> da \<noteq> None \<and> pr \<noteq> None" using True by blast
      show ?thesis
        using run True p(4) tr h unfolding eq
        by (simp add: Rp1GemSnpTransmit_def snp_call_def if_initialized_def w_def [symmetric] w Let_def
            tx_packet_def split: prod.splits if_splits)
    qed
    have "SnpMode x = SnpMode p" "RxBuffers x = RxBuffers p" "rx_inv x = rx_inv p" "rx_abs x = rx_abs p"
      using transmit_frame_other [OF tr] by simp_all
    with transmit_frame_cases [OF ok tr] res p True show ?thesis
      by (auto simp: snp_inv_def)
  qed
qed

lemma receive_frame_other:
  "GemReceiveFrame D n g = (r, g') \<Longrightarrow> SnpMode g' = SnpMode g \<and> RxBuffers g' = RxBuffers g \<and>
     Lock g' = Lock g \<and> tx_inv g' = tx_inv g \<and> tx_abs g' = tx_abs g"
proof (induction D n g rule: GemReceiveFrame.induct)
  case (1 D n g)
  have rec: "SnpMode (GemRecycleRxDescriptor i g) = SnpMode g" "Lock (GemRecycleRxDescriptor i g) = Lock g"
    "RxBuffers (GemRecycleRxDescriptor i g) = RxBuffers g"
    "tx_inv (GemRecycleRxDescriptor i g) = tx_inv g" "tx_abs (GemRecycleRxDescriptor i g) = tx_abs g" for i
    by (simp_all add: GemRecycleRxDescriptor_def tx_inv_def tx_abs_def tx_frame_def tx_slot_def tx_count_def)
  define h where "h = unat (RxHead g)"
  define d where "d = desc_at (RxDesc g) h"
  note run = "1.prems" [unfolded GemReceiveFrame.simps [of D n g] Let_def, folded h_def, folded d_def]
  show ?case
  proof (cases "rx_owned d \<and> rx_bad d")
    case True
    then show ?thesis using "1.IH" [OF h_def d_def] run rec by simp
  next
    case False
    then show ?thesis using run rec by (auto split: if_splits)
  qed
qed

lemma receive_spec:
  assumes inv: "snp_inv g" and run: "Rp1GemSnpReceive D (Some n) True (Some g) = ((st, m, pk), Some g')"
    and up: "SnpState (SnpMode g) = EfiSimpleNetworkInitialized"
  shows "snp_inv g' \<and> tx_abs g' = tx_abs g \<and>
    (case rx_abs g of
       [] \<Rightarrow> st = EFI_NOT_READY \<and> pk = None \<and> rx_abs g' = []
     | f # fs \<Rightarrow>
        if n < length f
        then st = EFI_BUFFER_TOO_SMALL \<and> m = Some (length f) \<and> pk = None \<and> rx_abs g' = f # fs
        else st = EFI_SUCCESS \<and> m = Some (length f) \<and> rx_abs g' = fs \<and>
          pk = Some \<lparr>PktSize = length f, PktData = f, PktDest = pad_mac (take 6 f),
            PktSrc = pad_mac (take 6 (drop 6 f)),
            PktProtocol = push_bit 8 (ucast (f ! 12)) OR ucast (f ! 13),
            PktHeaderSize = MediaHeaderSize (SnpMode g)\<rparr>)"
proof -
  obtain s k fr x where rx: "GemReceiveFrame D n (g\<lparr>Lock := True\<rparr>) = ((s, k, fr), x)" by (metis prod_cases3 surj_pair)
  have i: "rx_inv (g\<lparr>Lock := True\<rparr>)" using inv up by (simp add: snp_inv_def)
  note post = receive_refines [OF i rx]
  note other = receive_frame_other [OF rx]
  have "\<not> Lock g" using inv by (simp add: snp_inv_def)
  then have res: "g' = x\<lparr>Lock := False\<rparr> \<and> st = s \<and> m = Some k \<and> pk = (if EFI_ERROR s then None else
      Some \<lparr>PktSize = k, PktData = fr, PktDest = pad_mac (take 6 fr), PktSrc = pad_mac (take 6 (drop 6 fr)),
        PktProtocol = push_bit 8 (ucast (fr ! 12)) OR ucast (fr ! 13),
        PktHeaderSize = MediaHeaderSize (SnpMode g)\<rparr>)"
    using run up rx other
    by (auto simp: Rp1GemSnpReceive_def snp_call_def if_initialized_def EFI_ERROR_def split: if_splits)
  have "snp_inv g'" using res post other inv up by (simp add: snp_inv_def)
  with res post other show ?thesis
    by (auto simp: rx_post_def EFI_ERROR_def split: list.splits if_splits)
qed

lemma inv_receive:
  assumes inv: "snp_inv g" and run: "Rp1GemSnpReceive D n bp (Some g) = (r, Some g')"
  shows "snp_inv g'"
proof (cases "SnpState (SnpMode g) = EfiSimpleNetworkInitialized \<and> n \<noteq> None \<and> bp")
  case True
  then show ?thesis using receive_spec [OF inv, of D "the n"] run by (cases r) auto
next
  case False
  with run inv show ?thesis
    by (auto simp: Rp1GemSnpReceive_def snp_call_def if_initialized_def split: if_splits option.splits)
qed

lemma inv_transmit:
  assumes inv: "snp_inv g" and run: "Rp1GemSnpTransmit D h n b sa da p (Some g) = (r, Some g')"
  shows "snp_inv g'"
proof (cases b)
  case (Some ub)
  then show ?thesis using transmit_spec [OF inv, of D h n "fst ub" "snd ub"] run by (cases r) auto
next
  case None
  with run inv show ?thesis by (auto simp: Rp1GemSnpTransmit_def snp_call_def)
qed

lemma inv_hardware:
  assumes "snp_inv g"
  shows "snp_inv (tx_complete ie g)" and "rx_put bs g = Some g' \<Longrightarrow> snp_inv g'" and "snp_inv (rx_junk cb g)"
proof -
  have t: "SnpMode (tx_complete ie g) = SnpMode g" "RxBuffers (tx_complete ie g) = RxBuffers g"
    "Lock (tx_complete ie g) = Lock g" "rx_inv (tx_complete ie g) = rx_inv g"
    by (simp_all add: tx_complete_def rx_inv_def rx_view_def split: prod.split)
  show "snp_inv (tx_complete ie g)"
    using assms t complete_refines(1) [of g ie] by (simp add: snp_inv_def)
  have d: "SnpMode g' = SnpMode g \<and> RxBuffers g' = RxBuffers g \<and> Lock g' = Lock g \<and> tx_inv g' = tx_inv g"
    if "rx_deliver c xs g = Some g'" for c xs and g' :: "'a gem"
    using that by (auto simp: rx_deliver_def tx_inv_def tx_slot_def tx_count_def split: list.splits)
  show "rx_put bs g = Some g' \<Longrightarrow> snp_inv g'"
    using assms d rx_put_refines [of g bs g'] by (auto simp: snp_inv_def rx_put_def split: if_splits)
  show "snp_inv (rx_junk cb g)"
    using assms d rx_junk_refines [of g cb] by (fastforce simp: snp_inv_def rx_junk_def split: prod.split option.splits)
qed

lemma inv_step: "snp_step D Bus Pcd g g' \<Longrightarrow> snp_inv g \<Longrightarrow> snp_inv g'"
  by (induction rule: snp_step.induct)
    (blast intro: inv_simple inv_initialize inv_reset inv_status inv_transmit inv_receive inv_hardware)+

lemma inv_reach: "snp_reach D Bus Pcd g0 g \<Longrightarrow> snp_fresh g0 \<Longrightarrow> snp_inv g"
proof (induction rule: snp_reach.induct)
  case SnpInit
  then show ?case by (simp add: snp_fresh_def snp_inv_def)
next
  case (SnpStep g g')
  then show ?case using inv_step by blast
qed

subsection \<open>The receiver and the transmitter are off unless the interface is initialised\<close>

definition trx :: "u32 \<Rightarrow> u32" where
  "trx v = v AND (GEM_NET_CTRL_RX_EN OR GEM_NET_CTRL_TX_EN)"

lemma trx_simps [simp]:
  "trx (v OR GEM_NET_CTRL_MGMT_PORT_EN) = trx v" "trx (v OR GEM_NET_CTRL_START_TX) = trx v"
  "trx (v AND NOT (GEM_NET_CTRL_RX_EN OR GEM_NET_CTRL_TX_EN)) = 0" "trx 0 = 0"
  "trx GEM_NET_CTRL_MGMT_PORT_EN = 0"
  "trx (v OR (GEM_NET_CTRL_RX_EN OR GEM_NET_CTRL_TX_EN)) = GEM_NET_CTRL_RX_EN OR GEM_NET_CTRL_TX_EN"
  unfolding trx_def GEM_NET_CTRL_MGMT_PORT_EN_def GEM_NET_CTRL_START_TX_def GEM_NET_CTRL_RX_EN_def
    GEM_NET_CTRL_TX_EN_def
  by (rule u32_eqI, simp add: u32_bits)+

text \<open>
  NET_CTRL is a plain register: what the driver relies on to know the state of the two enable
  bits. \<open>ctrl\<close> is its content.
\<close>

named_theorems quiet_intro \<open>register programs that keep the enable bits\<close>

locale ctrl_reg =
  fixes D :: "'s iodev" and B :: u64 and ctrl :: "'s \<Rightarrow> u32"
  assumes rd_val: "fst (io_rd D (B + GEM_NET_CTRL) s) = ctrl s"
    and rd_keep: "ctrl (snd (io_rd D a s)) = ctrl s"
    and wr_val: "ctrl (io_wr D (B + GEM_NET_CTRL) v s) = v"
    and wr_keep: "a \<noteq> B + GEM_NET_CTRL \<Longrightarrow> ctrl (io_wr D a v s) = ctrl s"
    and st_keep: "ctrl (io_stall D us s) = ctrl s"
begin

lemma or_val: "ctrl (snd (run_state (MmioOr32 D (B + GEM_NET_CTRL) v) s)) = ctrl s OR v"
  "ctrl (snd (run_state (MmioAnd32 D (B + GEM_NET_CTRL) v) s)) = ctrl s AND v"
  by (simp_all add: io_simps case_prod_unfold rd_val wr_val)

end

definition quiet :: "('s \<Rightarrow> u32) \<Rightarrow> ('s, 'a) state \<Rightarrow> bool" where
  "quiet ctrl m = (\<forall>s. trx (ctrl (snd (run_state m s))) = trx (ctrl s))"

lemma quiet_return [quiet_intro]: "quiet c (State_Monad.return x)"
  by (simp add: quiet_def run_state_return)

lemma quiet_bind [quiet_intro]:
  "quiet c m \<Longrightarrow> (\<And>x. quiet c (f x)) \<Longrightarrow> quiet c (State_Monad.bind m f)"
  by (simp add: quiet_def run_state_bind case_prod_unfold)

lemma quiet_if [quiet_intro]: "(b \<Longrightarrow> quiet c m) \<Longrightarrow> (\<not> b \<Longrightarrow> quiet c n) \<Longrightarrow> quiet c (if b then m else n)"
  by simp

context ctrl_reg begin

lemma quiet_steps:
  "quiet ctrl (MmioRead32 D a)" "a \<noteq> B + GEM_NET_CTRL \<Longrightarrow> quiet ctrl (MmioWrite32 D a v)"
  "quiet ctrl (Stall D us)" "quiet ctrl (GemRead32 D B off)"
  "off \<noteq> GEM_NET_CTRL \<Longrightarrow> quiet ctrl (GemWrite32 D B off v)"
  "quiet ctrl (MmioOr32 D (B + GEM_NET_CTRL) GEM_NET_CTRL_MGMT_PORT_EN)"
  "quiet ctrl (MmioOr32 D (B + GEM_NET_CTRL) GEM_NET_CTRL_START_TX)"
  by (simp_all add: quiet_def io_simps rd_keep wr_keep st_keep rd_val wr_val case_prod_unfold
      GemRead32_def GemWrite32_def)

lemma quiet_mdio: "quiet ctrl (GemMdioRead D B a r)" "quiet ctrl (GemMdioWrite D B a r v)"
proof -
  have "quiet ctrl (MdioWait D B n)" for n
    by (induction n) (auto intro!: quiet_intro quiet_steps)
  moreover have "GEM_PHY_MAINT \<noteq> GEM_NET_CTRL" by (rule mdio_regs(3) [symmetric])
  ultimately show "quiet ctrl (GemMdioRead D B a r)" "quiet ctrl (GemMdioWrite D B a r v)"
    unfolding GemMdioRead_def GemMdioWrite_def by (auto intro!: quiet_intro quiet_steps)
qed

lemma quiet_mac:
  "quiet ctrl (GemSetMacAddress D B m)" "quiet ctrl (GemSetReceiveFilters D B m f)"
  "quiet ctrl (GemUpdateLinkSpeed D B sp fd)" "quiet ctrl (GemConfigRegs D B)"
proof -
  have ne: "GEM_HASH_BOT \<noteq> GEM_NET_CTRL" "GEM_HASH_TOP \<noteq> GEM_NET_CTRL" "GEM_NET_CFG \<noteq> GEM_NET_CTRL"
    "GEM_SPEC_ADDR_LOW 0 \<noteq> GEM_NET_CTRL" "GEM_SPEC_ADDR_HI 0 \<noteq> GEM_NET_CTRL" "GEM_AMP \<noteq> GEM_NET_CTRL"
    "GEM_DMA_CFG \<noteq> GEM_NET_CTRL"
    by (simp_all add: gem_regs GEM_NET_CTRL_def GEM_AMP_def GEM_DMA_CFG_def)
  show "quiet ctrl (GemSetMacAddress D B m)" "quiet ctrl (GemSetReceiveFilters D B m f)"
    "quiet ctrl (GemUpdateLinkSpeed D B sp fd)" "quiet ctrl (GemConfigRegs D B)"
    unfolding GemSetMacAddress_def GemSetReceiveFilters_def GemUpdateLinkSpeed_def GemConfigRegs_def
      GemNetCfgBase_def Let_def
    by (intro quiet_intro quiet_steps ne)+
qed

lemma quiet_queues: "quiet ctrl (GemInitQueues D B m rx tx qs)" if "\<forall>q \<in> set qs. q < 16"
  using that
proof (induction qs)
  case (Cons q qs)
  have w: "(of_nat m :: u64) \<noteq> 0" if "0 < m" "m < 2000" for m
    using that of_nat_word_eq [where 'a = 64, of m 0] by simp
  have q: "q < 16" using Cons.prems by simp
  have "GEM_RX_QN_BAR q \<noteq> GEM_NET_CTRL" "GEM_TX_QN_BAR q \<noteq> GEM_NET_CTRL"
    unfolding GEM_RX_QN_BAR_def GEM_TX_QN_BAR_def GEM_NET_CTRL_def using q by (intro w; linarith)+
  with Cons show ?case by (auto intro!: quiet_intro quiet_steps)
qed (auto intro: quiet_intro)

lemma quiet_rings: "quiet ctrl (GemRingRegs D g)" if "GemBase g = B"
proof -
  have ne: "GEM_RX_QBAR \<noteq> GEM_NET_CTRL" "GEM_RX_QBAR_HI \<noteq> GEM_NET_CTRL" "GEM_TX_QBAR \<noteq> GEM_NET_CTRL"
    "GEM_TX_QBAR_HI \<noteq> GEM_NET_CTRL"
    by (simp_all add: GEM_RX_QBAR_def GEM_RX_QBAR_HI_def GEM_TX_QBAR_def GEM_TX_QBAR_HI_def GEM_NET_CTRL_def)
  show ?thesis unfolding GemRingRegs_def that Let_def
    by (intro quiet_intro quiet_steps ne quiet_queues) simp
qed

lemma reset_off: "ctrl (snd (run_state (GemMacReset D B) s)) = GEM_NET_CTRL_MGMT_PORT_EN"
  by (simp add: GemMacReset_def run_state_bind case_prod_unfold GemWrite32_def io_simps wr_val)

end

text \<open>Programs on the private data that keep the enable bits.\<close>

definition gquiet :: "u64 \<Rightarrow> ('s \<Rightarrow> u32) \<Rightarrow> ('s gem, 'a) state \<Rightarrow> bool" where
  "gquiet B c m = (\<forall>g. GemBase g = B \<longrightarrow> GemBase (snd (run_state m g)) = B \<and>
     trx (c (io (snd (run_state m g)))) = trx (c (io g)))"

lemma gquiet_rules [quiet_intro]:
  "gquiet B c (State_Monad.return x)"
  "gquiet B c m \<Longrightarrow> (\<And>x. gquiet B c (f x)) \<Longrightarrow> gquiet B c (State_Monad.bind m f)"
  "(b \<Longrightarrow> gquiet B c k) \<Longrightarrow> (\<not> b \<Longrightarrow> gquiet B c n) \<Longrightarrow> gquiet B c (if b then k else n)"
  "(\<And>x. gquiet B c (p x)) \<Longrightarrow> (\<And>x. gquiet B c (q x)) \<Longrightarrow> gquiet B c (case r of Inl x \<Rightarrow> p x | Inr x \<Rightarrow> q x)"
  "(\<And>x y. gquiet B c (u x y)) \<Longrightarrow> gquiet B c (case w of (x, y) \<Rightarrow> u x y)"
  "gquiet B c (gets h)" "gquiet B c (modify (\<lambda>g. g\<lparr>PhyAddr := a\<rparr>))" "gquiet B c (modify (\<lambda>g. g\<lparr>LinkUp := b'\<rparr>))"
  by (simp_all add: gquiet_def run_state_return run_state_bind case_prod_unfold io_simps split: sum.split)

lemma gquiet_do: "(\<And>g. GemBase g = B \<Longrightarrow> quiet c (m g)) \<Longrightarrow> gquiet B c (modify (\<lambda>g. gem_do (m g) g))"
  by (simp add: gquiet_def quiet_def io_simps)

text \<open>The reset line of the PHY is a register of another block: the peripheral base of the RP1 is
  0x100000 below the MAC.\<close>

definition rp1_below :: "u64 \<Rightarrow> u64 option \<Rightarrow> bool" where
  "rp1_below B Bus = (case Bus of None \<Rightarrow> True | Some P \<Rightarrow> B = P + 0x100000)"

context ctrl_reg begin

lemma gquiet_phy:
  "gquiet B ctrl (mdio_read D a r)" "gquiet B ctrl (PhyRead D r)" "gquiet B ctrl (PhyWrite D r v)"
  using quiet_mdio by (simp_all add: gquiet_def quiet_def mdio_read_def PhyRead_def PhyWrite_def gem_io_def
      case_prod_unfold)

lemma gquiet_reset: "gquiet B ctrl (modify (Rp1GemPhyHwReset D Bus))" if "rp1_below B Bus"
proof (cases Bus)
  case None
  then show ?thesis by (simp add: gquiet_def io_simps Rp1GemPhyHwReset_def)
next
  case (Some P)
  have B: "B = P + 0x100000" using that Some by (simp add: rp1_below_def)
  have ne: "P + k \<noteq> B + GEM_NET_CTRL" if "k < 0x100000" for k
    using that unfolding B GEM_NET_CTRL_def by auto
  have regs: "PadReg P 32 \<noteq> B + GEM_NET_CTRL" "CtrlReg P 32 \<noteq> B + GEM_NET_CTRL"
    "RioBank P 32 + k \<noteq> B + GEM_NET_CTRL" if "k < 0x4000" for k
  proof -
    show "PadReg P 32 \<noteq> B + GEM_NET_CTRL" "CtrlReg P 32 \<noteq> B + GEM_NET_CTRL"
      unfolding PadReg_off CtrlReg_off by (rule ne, simp add: pad_off_def ctrl_off_def)+
    have eq: "RioBank P 32 + k = P + (0xe4000 + k)"
      by (simp add: RioBank_def RP1_SYS_RIO0_BASE_def Rp1GpioLocatePin_def)
    have "0xe4000 + k < 0x100000"
    proof -
      have "unat k < 0x4000" using that by (simp add: word_less_nat_alt)
      then have "unat (0xe4000 + k) = 0xe4000 + unat k" by (simp add: unat_word_ariths)
      with \<open>unat k < 0x4000\<close> show ?thesis by (simp add: word_less_nat_alt)
    qed
    then show "RioBank P 32 + k \<noteq> B + GEM_NET_CTRL" unfolding eq by (rule ne)
  qed
  have rio: "RioBank P 32 + i + j \<noteq> B + GEM_NET_CTRL" if "i + j < 0x4000" for i j
    using regs(3) [OF that] by (simp add: add.assoc)
  have "quiet ctrl (Rp1GpioWrite D P 32 v)" "quiet ctrl (Rp1GpioSetDirection D P 32 True)" for v
  proof -
    have a: "RioBank P 32 + RP1_RIO_OUT_OFFSET + (if v then RP1_ATOMIC_SET_OFFSET else RP1_ATOMIC_CLR_OFFSET)
        \<noteq> B + GEM_NET_CTRL" "RioBank P 32 + RP1_RIO_OE_OFFSET + (if v then RP1_ATOMIC_SET_OFFSET
          else RP1_ATOMIC_CLR_OFFSET) \<noteq> B + GEM_NET_CTRL" for v
      by (rule rio, simp add: RP1_RIO_OUT_OFFSET_def RP1_RIO_OE_OFFSET_def RP1_ATOMIC_SET_OFFSET_def
          RP1_ATOMIC_CLR_OFFSET_def)+
    show "quiet ctrl (Rp1GpioWrite D P 32 v)" "quiet ctrl (Rp1GpioSetDirection D P 32 True)"
      unfolding Rp1GpioWrite_def Rp1GpioSetDirection_def Rp1GpioSetFunction_def
      by (intro quiet_intro quiet_steps regs(1,2) [of 0] a [of v] a [of True]; simp)+
  qed
  then have "quiet ctrl (do {
      Rp1GpioWrite D P PHY_RESET_GPIO False; Rp1GpioSetDirection D P PHY_RESET_GPIO True;
      Stall D PHY_RESET_ASSERT_US; Rp1GpioWrite D P PHY_RESET_GPIO True; Stall D PHY_RESET_SETTLE_US })"
    unfolding PHY_RESET_GPIO_def by (intro quiet_intro quiet_steps)
  then show ?thesis by (simp add: Some gquiet_def quiet_def io_simps Rp1GemPhyHwReset_def)
qed

end

definition off_inv :: "u64 \<Rightarrow> ('s \<Rightarrow> u32) \<Rightarrow> 's gem \<Rightarrow> bool" where
  "off_inv B c g = (GemBase g = B \<and> trx (c (io g)) =
     (if SnpState (SnpMode g) = EfiSimpleNetworkInitialized
      then GEM_NET_CTRL_RX_EN OR GEM_NET_CTRL_TX_EN else 0))"

text \<open>Same base, same enable bits, same state.\<close>

definition same_off :: "('s \<Rightarrow> u32) \<Rightarrow> 's gem \<Rightarrow> 's gem \<Rightarrow> bool" where
  "same_off c g g' = (GemBase g' = GemBase g \<and> trx (c (io g')) = trx (c (io g)) \<and>
     SnpState (SnpMode g') = SnpState (SnpMode g))"

lemma same_off_inv: "same_off c g g' \<Longrightarrow> off_inv B c g \<Longrightarrow> off_inv B c g'"
  by (simp add: same_off_def off_inv_def)

lemma same_off_trans: "same_off c g g' \<Longrightarrow> same_off c g' g'' \<Longrightarrow> same_off c g g''"
  by (simp add: same_off_def)

lemma same_off_refl: "same_off c g g"
  by (simp add: same_off_def)

lemma same_off_other:
  "(\<And>m. SnpState (f m) = SnpState m) \<Longrightarrow> same_off c g (mode f g)"
  "same_off c g (g\<lparr>Lock := l\<rparr>)" "same_off c (g\<lparr>Lock := l\<rparr>) g" "same_off c g (GemRecycleRxDescriptor i g)"
  "quiet c m \<Longrightarrow> same_off c g (gem_do m g)"
  by (simp_all add: same_off_def quiet_def GemRecycleRxDescriptor_def)

context ctrl_reg begin

lemma gquiet_phy_ops:
  "rp1_below B Bus \<Longrightarrow> gquiet B ctrl (Rp1GemPhyInit D Bus Pcd)"
  "gquiet B ctrl (Rp1GemPhyUpdateConfig D)" "gquiet B ctrl (SnpWaitLink D st n)"
proof -
  have st: "gquiet B ctrl (modify (gem_do (Stall D us)))" for us
    using gquiet_do [of B ctrl "\<lambda>g. Stall D us"] quiet_steps(3) by simp
  have sp: "gquiet B ctrl (modify (\<lambda>g. gem_do (GemUpdateLinkSpeed D (GemBase g) m fd) g))" for m fd
    by (rule gquiet_do) (use quiet_mac(3) in blast)
  have dump: "gquiet B ctrl (PhyDump D as)" for "as"
    by (induction "as") (auto intro!: quiet_intro gquiet_phy)
  have scan: "gquiet B ctrl (PhyScan D k a)" for k a
    by (induction k arbitrary: a) (auto intro!: quiet_intro gquiet_phy dump)
  have wait: "gquiet B ctrl (PhyResetWait D k)" for k
    by (induction k) (auto simp: on_value_def intro!: quiet_intro gquiet_phy st)
  show "gquiet B ctrl (Rp1GemPhyInit D Bus Pcd)" if "rp1_below B Bus"
    unfolding Rp1GemPhyInit_def Rp1GemPhyDetect_def Rp1GemPhyReset_def Rp1GemPhyConfigRgmiiDelays_def
      Rp1GemPhyAutoNegotiate_def on_value_def unless_error_def
    by (intro quiet_intro gquiet_phy gquiet_reset [OF that] scan wait)
  show upd: "gquiet B ctrl (Rp1GemPhyUpdateConfig D)"
    unfolding Rp1GemPhyUpdateConfig_def Rp1GemPhyGetConfig_def on_value_def Let_def
    by (intro quiet_intro gquiet_phy sp)
  show "gquiet B ctrl (SnpWaitLink D st n)"
    by (induction n arbitrary: st) (auto intro!: quiet_intro upd st)
qed

lemma same_off_run:
  assumes "gquiet B ctrl m" and "keeps_core m" and "GemBase g = B" and "run_state m g = (x, g')"
  shows "same_off ctrl g g'"
proof -
  have "core g' = core g" by (rule keeps_coreD [OF assms(2,4)])
  moreover have "GemBase (snd (run_state m g)) = B \<and> trx (ctrl (io (snd (run_state m g)))) = trx (ctrl (io g))"
    using assms(1,3) by (simp only: gquiet_def)
  ultimately show ?thesis using assms(3,4) coreD(2) [of g' g] by (simp add: same_off_def)
qed

lemma same_off_rings:
  assumes "GemBase g = B"
  shows "GemTransmitFrame D ub f n g = (st, g') \<Longrightarrow> same_off ctrl g g'"
    and "GemGetRecycledTxBuffer D g = (b, g') \<Longrightarrow> same_off ctrl g g'"
  using quiet_steps(7) quiet_steps(5) [of GEM_TX_STAT] assms
  by (auto simp: GemTransmitFrame_def GemGetRecycledTxBuffer_def Let_def same_off_def quiet_def
      GEM_TX_STAT_def GEM_NET_CTRL_def split: if_splits)

lemma same_off_receive:
  "E = D \<Longrightarrow> GemReceiveFrame E n g = (r, g') \<Longrightarrow> GemBase g = B \<Longrightarrow> same_off ctrl g g'"
proof (induction E n g rule: GemReceiveFrame.induct)
  case (1 E n g)
  define h where "h = unat (RxHead g)"
  define d where "d = desc_at (RxDesc g) h"
  note run = "1.prems"(2) [unfolded GemReceiveFrame.simps [of E n g] Let_def, folded h_def, folded d_def]
  have rec: "same_off ctrl g (GemRecycleRxDescriptor h g)" by (rule same_off_other)
  have base: "GemBase (GemRecycleRxDescriptor h g) = B"
    using "1.prems"(3) by (simp add: GemRecycleRxDescriptor_def)
  have "GEM_RX_STAT \<noteq> GEM_NET_CTRL" by (simp add: GEM_RX_STAT_def GEM_NET_CTRL_def)
  note w = same_off_other(5) [OF quiet_steps(5) [OF this]]
  show ?case
  proof (cases "rx_owned d \<and> rx_bad d")
    case True
    then have "same_off ctrl (GemRecycleRxDescriptor h g) g'"
      using "1.IH" [OF h_def d_def] run base "1.prems"(1) by simp
    with rec show ?thesis by (rule same_off_trans)
  next
    case False
    then show ?thesis
      using run same_off_refl same_off_trans [OF rec w] "1.prems"(1,3) by (auto split: if_splits)
  qed
qed

lemma same_off_configure:
  assumes "GemBase g = B" shows "same_off ctrl g (GemMacConfigure D g)"
proof -
  have d: "GemBase g = B \<Longrightarrow> quiet ctrl (m B) \<Longrightarrow> same_off ctrl g (gem_do (m (GemBase g)) g)" for m g
    using same_off_other(5) by simp
  have r: "GemBase g = B \<Longrightarrow> same_off ctrl g (GemInitRings D g)" for g
    using quiet_rings by (simp add: same_off_def GemInitRings_def Let_def quiet_def)
  note a = d [of _ "GemConfigRegs D", OF _ quiet_mac(4)]
    and m = d [of _ "\<lambda>b. GemSetMacAddress D b x" for x, OF _ quiet_mac(1)]
    and f = d [of _ "\<lambda>b. GemSetReceiveFilters D b x y" for x y, OF _ quiet_mac(2)]
  have base: "same_off ctrl g g' \<Longrightarrow> GemBase g = B \<Longrightarrow> GemBase g' = B" for g g'
    by (simp add: same_off_def)
  have step: "GemBase g' = B \<and> same_off ctrl g g'" if "same_off ctrl h g'" "GemBase h = B \<and> same_off ctrl g h" for h g'
    using that base same_off_trans by blast
  define g1 where "g1 = gem_do (GemConfigRegs D (GemBase g)) g"
  define g2 where "g2 = GemInitRings D g1"
  define g3 where "g3 = gem_do (GemSetMacAddress D (GemBase g2) (CurrentAddress (SnpMode g2))) g2"
  have "GemBase g1 = B \<and> same_off ctrl g g1"
    using a [OF assms] base [OF a [OF assms] assms] by (simp only: g1_def simp_thms)
  then have "GemBase g2 = B \<and> same_off ctrl g g2" using step [OF r] by (simp only: g2_def simp_thms)
  then have "GemBase g3 = B \<and> same_off ctrl g g3" using step [OF m] unfolding g3_def by blast
  then have "same_off ctrl g (gem_do (GemSetReceiveFilters D (GemBase g3) (CurrentAddress (SnpMode g3))
      (ReceiveFilterSetting (SnpMode g3))) g3)" using step [OF f] by blast
  then show ?thesis by (simp only: GemMacConfigure_def Let_def g1_def g2_def g3_def)
qed

lemma off_life_cycle:
  assumes inv: "off_inv B ctrl g" and bus: "rp1_below B Bus"
  shows "Rp1GemSnpStart (Some g) = (st, Some g') \<Longrightarrow> off_inv B ctrl g'"
    and "Rp1GemSnpStop D (Some g) = (st, Some g') \<Longrightarrow> off_inv B ctrl g'"
    and "Rp1GemSnpShutdown D (Some g) = (st, Some g') \<Longrightarrow> off_inv B ctrl g'"
    and "Rp1GemSnpReset D Bus Pcd (Some g) = (st, Some g') \<Longrightarrow> off_inv B ctrl g'"
    and "Rp1GemSnpInitialize D Bus Pcd (Some g) = (st, Some g') \<Longrightarrow> off_inv B ctrl g'"
proof -
  have base: "GemBase g = B" using inv by (simp add: off_inv_def)
  have disable: "trx (ctrl (snd (run_state (GemMacDisableTxRx D (GemBase g)) s))) = 0" for s
    unfolding GemMacDisableTxRx_def base or_val by (rule trx_simps(3))
  have enable: "trx (ctrl (snd (run_state (GemMacEnableTxRx D B) s))) = GEM_NET_CTRL_RX_EN OR GEM_NET_CTRL_TX_EN" for s
    unfolding GemMacEnableTxRx_def or_val by simp
  show "Rp1GemSnpStart (Some g) = (st, Some g') \<Longrightarrow> off_inv B ctrl g'"
    using inv by (auto simp: Rp1GemSnpStart_def snp_call_def off_inv_def split: if_splits)
  show "Rp1GemSnpStop D (Some g) = (st, Some g') \<Longrightarrow> off_inv B ctrl g'"
    using inv by (auto simp: Rp1GemSnpStop_def snp_call_def off_inv_def disable split: if_splits)
  show "Rp1GemSnpShutdown D (Some g) = (st, Some g') \<Longrightarrow> off_inv B ctrl g'"
    using inv by (auto simp: Rp1GemSnpShutdown_def if_initialized_def snp_call_def off_inv_def
        reset_off [folded base] split: if_splits)
  obtain s p where phy: "run_state (Rp1GemPhyInit D Bus Pcd) g = (s, p)" by force
  have "same_off ctrl g p" by (rule same_off_run [OF gquiet_phy_ops(1) [OF bus] keeps_core_init base phy])
  then have "off_inv B ctrl p" using inv by (rule same_off_inv)
  then show "Rp1GemSnpReset D Bus Pcd (Some g) = (st, Some g') \<Longrightarrow> off_inv B ctrl g'"
    using inv phy by (auto simp: Rp1GemSnpReset_def if_initialized_def snp_call_def off_inv_def split: if_splits)
  show "off_inv B ctrl g'" if run: "Rp1GemSnpInitialize D Bus Pcd (Some g) = (st, Some g')"
  proof (cases "SnpState (SnpMode g) = EfiSimpleNetworkStarted")
    case False
    with run inv show ?thesis by (auto simp: Rp1GemSnpInitialize_def snp_call_def split: if_splits)
  next
    case True
    let ?r = "gem_do (GemMacReset D (GemBase g)) g"
    let ?c = "GemMacConfigure D ?r"
    have "same_off ctrl ?r ?c" using base by (intro same_off_configure) simp
    then have "off_inv B ctrl ?c"
      using True base by (simp add: off_inv_def same_off_def reset_off)
    obtain s p where phy: "run_state (Rp1GemPhyInit D Bus Pcd) ?c = (s, p)" by force
    have cp: "same_off ctrl ?c p"
      by (rule same_off_run [OF gquiet_phy_ops(1) [OF bus] keeps_core_init _ phy])
        (use \<open>off_inv B ctrl ?c\<close> in \<open>simp add: off_inv_def\<close>)
    have "SnpState (SnpMode p) = EfiSimpleNetworkStarted"
      using cp \<open>same_off ctrl ?r ?c\<close> True by (simp add: same_off_def)
    with same_off_inv [OF cp \<open>off_inv B ctrl ?c\<close>] show ?thesis
      using run True phy enable
      by (auto simp: Rp1GemSnpInitialize_def snp_call_def Let_def off_inv_def split: if_splits)
  qed
qed

lemma same_off_data:
  assumes base: "GemBase g = B" and run: "Rp1GemSnpTransmit D h n b sa da pr (Some g) = (r, Some g')"
  shows "same_off ctrl g g'"
proof -
  obtain sl q where link: "run_state (SnpWaitLink D EFI_NOT_READY (GEM_LINK_TIMEOUT_MS div 10)) g = (sl, q)"
    by force
  have q: "same_off ctrl g q" by (rule same_off_run [OF gquiet_phy_ops(3) keeps_core_link base link])
  have q': "same_off ctrl g (mode (\<lambda>m. m\<lparr>MediaPresent := True\<rparr>) q)"
    by (rule same_off_trans [OF q same_off_other(1)]) simp
  have tr: "same_off ctrl g (x\<lparr>Lock := False\<rparr>)"
    if "same_off ctrl g p" "GemTransmitFrame D ub f n (p\<lparr>Lock := True\<rparr>) = (st, x)" for p ub f st x
  proof -
    have "GemBase (p\<lparr>Lock := True\<rparr>) = B" using that(1) base by (simp add: same_off_def)
    from same_off_rings(1) [OF this that(2)] that(1) show ?thesis by (simp add: same_off_def)
  qed
  show ?thesis
    using run link q q' tr [OF same_off_refl] tr [OF q'] same_off_refl
    by (cases b) (auto simp: Rp1GemSnpTransmit_def snp_call_def if_initialized_def Let_def EFI_ERROR_def
        split: if_splits prod.splits)
qed

lemma same_off_status:
  assumes base: "GemBase g = B" and run: "Rp1GemSnpGetStatus D i t (Some g) = (r, Some g')"
  shows "same_off ctrl g g'"
proof -
  obtain sl q where upd: "run_state (Rp1GemPhyUpdateConfig D) (g\<lparr>Lock := True\<rparr>) = (sl, q)" by force
  define p where "p = mode (\<lambda>m. m\<lparr>MediaPresent := \<not> EFI_ERROR sl\<rparr>) q"
  have "same_off ctrl (g\<lparr>Lock := True\<rparr>) q"
    by (rule same_off_run [OF gquiet_phy_ops(2) keeps_core_update _ upd]) (use base in simp)
  then have p: "same_off ctrl g p" by (simp add: same_off_def p_def)
  then have pb: "GemBase p = B" using base by (simp add: same_off_def)
  have get: "same_off ctrl g (x\<lparr>Lock := False\<rparr>)" if "GemGetRecycledTxBuffer D p = (b, x)" for b x
    using same_off_trans [OF p same_off_rings(2) [OF pb that]] by (simp add: same_off_def)
  have "same_off ctrl g (p\<lparr>Lock := False\<rparr>)" using p by (simp add: same_off_def)
  then show ?thesis
    using run upd get same_off_refl
    by (auto simp: Rp1GemSnpGetStatus_def snp_call_def if_initialized_def Let_def p_def [symmetric]
        split: if_splits prod.splits)
qed

lemma same_off_packet:
  assumes base: "GemBase g = B" and run: "Rp1GemSnpReceive D n bp (Some g) = (r, Some g')"
  shows "same_off ctrl g g'"
proof -
  have rx: "same_off ctrl g (x\<lparr>Lock := False\<rparr>)" if "GemReceiveFrame D k (g\<lparr>Lock := True\<rparr>) = (y, x)" for k y x
    using same_off_receive [OF refl that] base by (simp add: same_off_def)
  show ?thesis
    using run rx same_off_refl
    by (auto simp: Rp1GemSnpReceive_def snp_call_def if_initialized_def split: if_splits prod.splits option.splits)
qed

lemma same_off_address:
  assumes base: "GemBase g = B"
  shows "Rp1GemSnpStationAddress D rs a (Some g) = (st, Some g') \<Longrightarrow> same_off ctrl g g'"
    and "Rp1GemSnpReceiveFilters D e d r n l (Some g) = Some (st, Some g') \<Longrightarrow> same_off ctrl g g'"
  using quiet_mac(1,2) base
  by (auto simp: Rp1GemSnpStationAddress_def Rp1GemSnpReceiveFilters_def snp_call_def if_initialized_def
      Let_def same_off_def quiet_def split: if_splits option.splits)

lemma off_step:
  "snp_step D Bus Pcd g g' \<Longrightarrow> rp1_below B Bus \<Longrightarrow> off_inv B ctrl g \<Longrightarrow> off_inv B ctrl g'"
proof (cases rule: snp_step.cases [of D Bus Pcd g g'], assumption)
  assume inv: "off_inv B ctrl g" and bus: "rp1_below B Bus"
  then have base: "GemBase g = B" by (simp add: off_inv_def)
  have hw: "same_off ctrl g (tx_complete ie g)" "rx_deliver c bs g = Some g' \<Longrightarrow> same_off ctrl g g'" for ie c bs g'
    by (auto simp: tx_complete_def rx_deliver_def same_off_def split: prod.splits list.splits)
  show "off_inv B ctrl g'" if "rx_put bs g = Some g'" for bs
    using that hw(2) inv by (auto simp: rx_put_def intro: same_off_inv split: if_splits)
  show "off_inv B ctrl g'" if "g' = rx_junk cb g" for cb
    using that hw(2) inv by (auto simp: rx_junk_def intro: same_off_inv split: prod.splits option.splits)
  show "off_inv B ctrl g'" if "g' = tx_complete ie g" for ie
    using that hw(1) inv by (blast intro: same_off_inv)
qed (blast intro: off_life_cycle same_off_inv [OF same_off_data] same_off_inv [OF same_off_status]
    same_off_inv [OF same_off_packet] same_off_inv [OF same_off_address(1)]
    same_off_inv [OF same_off_address(2)] off_inv_def [THEN iffD1, THEN conjunct1])+

end

interpretation nc: ctrl_reg "mdio_dev W T B lat" B "\<lambda>s. mac s (B + GEM_NET_CTRL)"
  for W T B lat
  by unfold_locales
    (simp_all add: mdio_dev_sel mdio_regs mdio_start_def Let_def)

subsection \<open>What the protocol guarantees\<close>

text \<open>
  C15: The rings in every reachable state. From the state in which the driver binding leaves the
  private data, under any sequence of protocol calls (failing ones included) and hardware
  actions and whatever the device answers, the lock is free between calls, and while the
  interface is initialised both rings satisfy their invariants.
\<close>

theorem snp_reachable_rings:
  assumes "snp_fresh g0" and "snp_reach D Bus Pcd g0 g"
  shows "\<not> Lock g \<and> (SnpState (SnpMode g) = EfiSimpleNetworkInitialized \<longrightarrow> tx_inv g \<and> rx_inv g)"
  using inv_reach [OF assms(2,1)] by (simp add: snp_inv_def)

definition snp_gem :: "mdio_hw gem" where
  "snp_gem = (gem_with mdio0)\<lparr>RxBuffers := Some 0x10000, TxBuffers := Some 0x20000, RxRing := Some 0x8000,
     TxRing := Some 0x8100\<rparr>"

lemma snp_gem_started:
  "snp_reach D None 1 snp_gem (mode (\<lambda>m. m\<lparr>SnpState := EfiSimpleNetworkStarted\<rparr>) snp_gem)"
  by (rule SnpStep [OF SnpInit StartStep [of snp_gem EFI_SUCCESS]])
    (simp add: Rp1GemSnpStart_def snp_call_def snp_gem_def gem_with_def)

lemma snp_gem_fresh: "snp_fresh snp_gem"
  by (simp add: snp_fresh_def snp_gem_def gem_with_def ptr_def)

theorem snp_reachable_rings_witness:
  "\<not> Lock (mode (\<lambda>m. m\<lparr>SnpState := EfiSimpleNetworkStarted\<rparr>) snp_gem)"
  using snp_reachable_rings [OF snp_gem_fresh snp_gem_started [of "mdio_dev store_phy (\<lambda>us p. p) 0 7"]] by simp

text \<open>
  Quiet unless initialised. With NET_CTRL a plain register of the MAC and the RP1 peripheral
  base 1 MiB below it, in every reachable state the receiver and the transmitter are enabled
  exactly when the interface is initialised: also after a failed Initialize, after Stop and
  Shutdown, and whatever the PHY does.
\<close>

theorem snp_quiet_unless_initialized:
  assumes "snp_reach (mdio_dev W T B lat) Bus Pcd g0 g" and "rp1_below B Bus" and "GemBase g0 = B"
    and "SnpState (SnpMode g0) = EfiSimpleNetworkStopped" and "trx (mac (io g0) (B + GEM_NET_CTRL)) = 0"
  shows "trx (mac (io g) (B + GEM_NET_CTRL)) =
    (if SnpState (SnpMode g) = EfiSimpleNetworkInitialized
     then GEM_NET_CTRL_RX_EN OR GEM_NET_CTRL_TX_EN else 0)"
proof -
  have "off_inv B (\<lambda>s. mac s (B + GEM_NET_CTRL)) g"
    using assms(1)
  proof (induction rule: snp_reach.induct)
    case SnpInit
    then show ?case using assms(3-5) by (simp add: off_inv_def)
  next
    case (SnpStep g g')
    then show ?case using nc.off_step [OF _ assms(2)] by blast
  qed
  then show ?thesis by (simp add: off_inv_def)
qed

theorem snp_quiet_unless_initialized_witness:
  "trx (mac (io (mode (\<lambda>m. m\<lparr>SnpState := EfiSimpleNetworkStarted\<rparr>) snp_gem)) (0x1F00100000 + GEM_NET_CTRL)) = 0"
  using snp_quiet_unless_initialized [OF snp_gem_started, of "0x1F00100000"]
  by (simp add: rp1_below_def snp_gem_def gem_with_def mdio0_def)

definition ready_gem :: "(u64 \<Rightarrow> u32) gem" where
  "ready_gem = mode (\<lambda>m. m\<lparr>SnpState := EfiSimpleNetworkInitialized, MediaPresent := True\<rparr>)
     (GemInitRings reg_dev (gem0\<lparr>RxBuffers := Some 0x10000, TxBuffers := Some 0x20000\<rparr>))"

lemma ready_gem: "snp_inv ready_gem" "SnpState (SnpMode ready_gem) = EfiSimpleNetworkInitialized"
  "rx_abs ready_gem = []" "tx_abs ready_gem = []" "MediaPresent (SnpMode ready_gem)" "\<not> Lock ready_gem"
  "MediaHeaderSize (SnpMode ready_gem) = 14" "tx_count ready_gem = 0"
proof -
  let ?g = "gem0\<lparr>RxBuffers := Some 0x10000, TxBuffers := Some 0x20000\<rparr>"
  have al: "ptr (RxBuffers ?g) AND 3 = 0" by (simp add: ptr_def)
  have l: "Lock (GemInitRings reg_dev ?g) = Lock ?g" "SnpMode (GemInitRings reg_dev ?g) = SnpMode ?g"
    by (simp_all add: GemInitRings_def Let_def)
  show "snp_inv ready_gem" "\<not> Lock ready_gem" "MediaHeaderSize (SnpMode ready_gem) = 14"
    "SnpState (SnpMode ready_gem) = EfiSimpleNetworkInitialized" "MediaPresent (SnpMode ready_gem)"
    using init_tx [of reg_dev ?g] init_rx [OF al, of reg_dev] l
    by (simp_all add: ready_gem_def snp_inv_def init_rings_sel ptr_def gem0_def gem_with_def)
  show "rx_abs ready_gem = []" "tx_abs ready_gem = []"
    using init_tx(2) [of reg_dev ?g] init_rx(2) [OF al, of reg_dev] by (simp_all add: ready_gem_def)
  show "tx_count ready_gem = 0"
    by (simp add: ready_gem_def tx_count_def mode_def init_rings_sel)
qed

text \<open>
  Transmit. In a state with the driver's invariant (every reachable state has it) a Transmit
  call that succeeds puts exactly one frame at the end of the transmit queue: the caller's
  buffer with destination, source and protocol filled in when a header was asked for, never
  longer than the MAC's frame size. A call that fails queues nothing. Either way the
  invariant holds again and the receive queue is untouched.
\<close>

theorem snp_transmit_queues:
  assumes "snp_inv g"
  shows "case Rp1GemSnpTransmit D h n (Some (ub, f)) sa da pr (Some g) of
      ((st, b), None) \<Rightarrow> False
    | ((st, b), Some g') \<Rightarrow> snp_inv g' \<and> rx_abs g' = rx_abs g \<and>
        (if st = EFI_SUCCESS
         then n \<le> GEM_MAX_FRAME_SIZE \<and>
           tx_abs g' = tx_abs g @ [(ub, bytes_at (tx_packet h sa da pr g f) 0 n)] \<and>
           length (tx_abs g) < GEM_TX_DESC_COUNT
         else tx_abs g' = tx_abs g)"
proof -
  have "\<exists>st b g'. Rp1GemSnpTransmit D h n (Some (ub, f)) sa da pr (Some g) = ((st, b), Some g')"
    by (auto simp: Rp1GemSnpTransmit_def snp_call_def split: prod.split)
  then obtain st b g' where run: "Rp1GemSnpTransmit D h n (Some (ub, f)) sa da pr (Some g) = ((st, b), Some g')"
    by blast
  show ?thesis using transmit_spec [OF assms run] by (simp add: run)
qed

theorem snp_transmit_queues_witness:
  "case Rp1GemSnpTransmit reg_dev 14 60 (Some (0x5000, \<lambda>i. 0)) None (Some (replicate 32 0xFF)) (Some 0x806)
     (Some ready_gem) of ((st, b), None) \<Rightarrow> False
   | ((st, b), Some g') \<Rightarrow> st = EFI_SUCCESS \<and> length (tx_abs g') = 1"
proof -
  let ?p = "tx_packet 14 None (Some (replicate 32 0xFF)) (Some 0x806) ready_gem (\<lambda>i. 0)"
  have "tx_count (ready_gem\<lparr>Lock := True\<rparr>) = 0" using ready_gem(8) by (simp add: tx_count_def)
  moreover have "tx_inv (ready_gem\<lparr>Lock := True\<rparr>)" using ready_gem(1,2) by (simp add: snp_inv_def)
  ultimately have "fst (GemTransmitFrame reg_dev 0x5000 ?p 60 (ready_gem\<lparr>Lock := True\<rparr>)) = EFI_SUCCESS"
    using transmit_eq [of "ready_gem\<lparr>Lock := True\<rparr>"] by simp
  then have "fst (fst (Rp1GemSnpTransmit reg_dev 14 60 (Some (0x5000, \<lambda>i. 0)) None (Some (replicate 32 0xFF))
      (Some 0x806) (Some ready_gem))) = EFI_SUCCESS"
    using ready_gem by (simp add: Rp1GemSnpTransmit_def snp_call_def if_initialized_def tx_consts
        EFI_ERROR_def Let_def tx_packet_def case_prod_unfold)
  then show ?thesis
    using snp_transmit_queues [OF ready_gem(1), where D = reg_dev and h = 14 and n = 60 and ub = "0x5000"
        and f = "\<lambda>i. 0" and sa = None and da = "Some (replicate 32 0xFF)" and pr = "Some 0x806"]
    by (auto simp: ready_gem split: prod.splits option.splits)
qed

text \<open>
  Receive. In an initialised state with the driver's invariant a Receive call hands over the
  oldest frame of the receive queue with its length, addresses and protocol, removes it, and
  leaves the transmit queue alone; with too small a buffer it reports the length and keeps the
  frame; with no frame it reports \<^verbatim>\<open>EFI_NOT_READY\<close>.
\<close>

theorem snp_receive_takes_oldest:
  assumes "snp_inv g" and "SnpState (SnpMode g) = EfiSimpleNetworkInitialized"
  shows "case Rp1GemSnpReceive D (Some n) True (Some g) of
      ((st, m, pk), None) \<Rightarrow> False
    | ((st, m, pk), Some g') \<Rightarrow> snp_inv g' \<and> tx_abs g' = tx_abs g \<and>
        (case rx_abs g of
           [] \<Rightarrow> st = EFI_NOT_READY \<and> pk = None \<and> rx_abs g' = []
         | f # fs \<Rightarrow>
            if n < length f
            then st = EFI_BUFFER_TOO_SMALL \<and> m = Some (length f) \<and> pk = None \<and> rx_abs g' = f # fs
            else st = EFI_SUCCESS \<and> m = Some (length f) \<and> rx_abs g' = fs \<and>
              pk = Some \<lparr>PktSize = length f, PktData = f, PktDest = pad_mac (take 6 f),
                PktSrc = pad_mac (take 6 (drop 6 f)),
                PktProtocol = push_bit 8 (ucast (f ! 12)) OR ucast (f ! 13),
                PktHeaderSize = MediaHeaderSize (SnpMode g)\<rparr>)"
proof -
  have "\<exists>st m pk g'. Rp1GemSnpReceive D (Some n) True (Some g) = ((st, m, pk), Some g')"
    by (auto simp: Rp1GemSnpReceive_def snp_call_def split: prod.split)
  then obtain st m pk g' where run: "Rp1GemSnpReceive D (Some n) True (Some g) = ((st, m, pk), Some g')"
    by blast
  show ?thesis
    using receive_spec [OF assms(1) run assms(2)] by (simp add: run)
qed

theorem snp_receive_takes_oldest_witness:
  "case Rp1GemSnpReceive reg_dev (Some 2048) True (Some ready_gem) of
     ((st, m, pk), None) \<Rightarrow> False
   | ((st, m, pk), Some g') \<Rightarrow> st = EFI_NOT_READY \<and> snp_inv g'"
  using snp_receive_takes_oldest [OF ready_gem(1,2), where D = reg_dev and n = 2048]
  by (auto simp: ready_gem split: prod.splits option.splits)

text \<open>
  Calls in the wrong state. While the interface is not initialised, every call that needs it
  returns \<^verbatim>\<open>EFI_NOT_STARTED\<close> or \<^verbatim>\<open>EFI_DEVICE_ERROR\<close>, as the state tells, and changes nothing;
  Start and Stop are refused outside their states the same way, and a null \<open>This\<close> is
  \<^verbatim>\<open>EFI_INVALID_PARAMETER\<close>.
\<close>

theorem snp_wrong_state:
  assumes "SnpState (SnpMode g) \<noteq> EfiSimpleNetworkInitialized"
  defines "e \<equiv> if SnpState (SnpMode g) = EfiSimpleNetworkStopped then EFI_NOT_STARTED else EFI_DEVICE_ERROR"
  shows "Rp1GemSnpReset D Bus Pcd (Some g) = (e, Some g) \<and> Rp1GemSnpShutdown D (Some g) = (e, Some g) \<and>
    Rp1GemSnpStationAddress D True a (Some g) = (e, Some g) \<and>
    Rp1GemSnpGetStatus D i t (Some g) = ((e, None, None), Some g) \<and>
    Rp1GemSnpTransmit D h n (Some b) sa da pr (Some g) = ((e, Some b), Some g) \<and>
    Rp1GemSnpReceive D (Some n) True (Some g) = ((e, Some n, None), Some g) \<and>
    Rp1GemSnpMCastIpToMac v6 (Some ip) True (Some g) = ((e, None), Some g) \<and>
    Rp1GemSnpReceiveFilters D 0 0 r k l (Some g) = Some (e, Some g) \<and>
    \<not> Rp1GemWaitForPacketNotify (Some g) \<and>
    (if SnpState (SnpMode g) = EfiSimpleNetworkStopped
     then Rp1GemSnpStop D (Some g) = (EFI_NOT_STARTED, Some g) \<and>
       Rp1GemSnpInitialize D Bus Pcd (Some g) = (EFI_NOT_STARTED, Some g)
     else Rp1GemSnpStart (Some g) = (EFI_ALREADY_STARTED, Some g)) \<and>
    fst (Rp1GemSnpStart None :: efi_status \<times> 's gem option) = EFI_INVALID_PARAMETER"
  using assms(1) unfolding e_def
  by (cases "SnpState (SnpMode g)")
    (simp_all add: Rp1GemSnpReset_def Rp1GemSnpShutdown_def Rp1GemSnpStationAddress_def
      Rp1GemSnpGetStatus_def Rp1GemSnpTransmit_def Rp1GemSnpReceive_def Rp1GemSnpMCastIpToMac_def
      Rp1GemSnpReceiveFilters_def Rp1GemWaitForPacketNotify_def Rp1GemSnpStop_def
      Rp1GemSnpInitialize_def Rp1GemSnpStart_def snp_call_def if_initialized_def Let_def case_prod_unfold)

theorem snp_wrong_state_witness:
  "Rp1GemSnpReset reg_dev None 1 (Some gem0) = (EFI_NOT_STARTED, Some gem0)"
proof -
  have "SnpState (SnpMode gem0) = EfiSimpleNetworkStopped" by (simp add: gem0_def gem_with_def)
  then show ?thesis using conjunct1 [OF snp_wrong_state [where g = gem0 and D = reg_dev and Bus = None and Pcd = 1]]
    by simp
qed

text \<open>
  The multicast list is copied unchecked. With a list argument as long as its count, the copy
  into the mode structure leaves its sixteen entries, or reads a null list, exactly when
  multicast reception is on already and this call neither enables nor disables it: the length
  check looks at the bits being enabled, the copy at the resulting setting.
\<close>

theorem snp_filter_copy_unchecked:
  fixes g :: "'s gem" and e d :: u32
  assumes "SnpState (SnpMode g) = EfiSimpleNetworkInitialized"
    and "length (MCastFilter (SnpMode g)) = MaxMCastFilterCount (SnpMode g)"
    and "case l of None \<Rightarrow> True | Some xs \<Rightarrow> k \<le> length xs"
    and "(e OR d) AND NOT (ReceiveFilterMask (SnpMode g)) = 0"
  defines "MC \<equiv> EFI_SIMPLE_NETWORK_RECEIVE_MULTICAST"
  shows "Rp1GemSnpReceiveFilters D e d r k l (Some g) = None \<longleftrightarrow>
    \<not> r \<and> ReceiveFilterSetting (SnpMode g) AND MC \<noteq> 0 \<and> e AND MC = 0 \<and> d AND MC = 0 \<and>
    (k > MaxMCastFilterCount (SnpMode g) \<or> (k \<noteq> 0 \<and> l = None))"
proof -
  have mc: "(x AND MC \<noteq> 0) = bit x 1" for x :: u32
    using bit_single_u32(3) [of x 1] by (simp add: MC_def EFI_SIMPLE_NETWORK_RECEIVE_MULTICAST_def)
  have mc0: "(x AND MC = 0) = (\<not> bit x 1)" for x :: u32
    using mc [of x] by blast
  have en: "(e AND NOT d AND MC \<noteq> 0) = (bit e 1 \<and> \<not> bit d 1)"
    using mc [of "e AND NOT d"] by (simp add: bit_simps and.assoc)
  have se: "(((ReceiveFilterSetting (SnpMode g) OR e) AND NOT d) AND MC \<noteq> 0) =
      ((bit (ReceiveFilterSetting (SnpMode g)) 1 \<or> bit e 1) \<and> \<not> bit d 1)"
    using mc [of "(ReceiveFilterSetting (SnpMode g) OR e) AND NOT d"] by (simp add: bit_simps)
  have cp: "copy_mcast k l (MCastFilter (SnpMode g)) = None \<longleftrightarrow>
      k > MaxMCastFilterCount (SnpMode g) \<or> (k \<noteq> 0 \<and> l = None)"
    using assms(2,3) by (auto simp: copy_mcast_def not_le split: option.splits)
  have "Rp1GemSnpReceiveFilters D e d r k l (Some g) = None \<longleftrightarrow>
      \<not> (\<not> r \<and> e AND NOT d AND MC \<noteq> 0 \<and> (k > MaxMCastFilterCount (SnpMode g) \<or> (k \<noteq> 0 \<and> l = None))) \<and>
      \<not> r \<and> ((ReceiveFilterSetting (SnpMode g) OR e) AND NOT d) AND MC \<noteq> 0 \<and>
      copy_mcast k l (MCastFilter (SnpMode g)) = None"
    unfolding Rp1GemSnpReceiveFilters_def Let_def MC_def [symmetric] using assms(1,4)
    by (simp split: option.split)
  then show ?thesis unfolding en se cp mc mc0
    by (auto simp: bit_or_iff bit_and_iff bit_not_iff)
qed

theorem snp_filter_copy_unchecked_witness:
  "Rp1GemSnpReceiveFilters reg_dev 0 0 False 17 (Some (replicate 17 (replicate 32 0)))
     (Some (mode (\<lambda>m. m\<lparr>ReceiveFilterSetting := 2, MCastFilter := replicate 16 (replicate 32 0)\<rparr>) ready_gem)) = None"
proof -
  let ?g = "mode (\<lambda>m. m\<lparr>ReceiveFilterSetting := 2, MCastFilter := replicate 16 (replicate 32 0)\<rparr>) ready_gem"
  have "SnpState (SnpMode ?g) = EfiSimpleNetworkInitialized" "MaxMCastFilterCount (SnpMode ?g) = 16"
    using ready_gem(2) by (simp_all add: ready_gem_def GemInitRings_def Let_def gem0_def gem_with_def)
  then show ?thesis
    using snp_filter_copy_unchecked [where g = ?g and l = "Some (replicate 17 (replicate 32 0))" and k = 17
        and e = 0 and d = 0 and D = reg_dev and r = False]
    by (simp add: EFI_SIMPLE_NETWORK_RECEIVE_MULTICAST_def)
qed

text \<open>
  A new station address is matched whatever the filters say. After the filters were programmed
  without UNICAST and PROMISCUOUS the MAC matches no station address; setting a station
  address then programs the match register and so receives unicast frames again.
\<close>

theorem snp_station_ignores_filter:
  assumes "SnpState (SnpMode g) = EfiSimpleNetworkInitialized" and "\<not> unicast_on f"
  shows "let B = GemBase g; g1 = gem_do (GemSetReceiveFilters reg_dev B ma f) g in
    io g1 (B + GEM_SPEC_ADDR_LOW 0) = 0 \<and> io g1 (B + GEM_SPEC_ADDR_HI 0) = 0 \<and>
    (case Rp1GemSnpStationAddress reg_dev False (Some a) (Some g1) of
       (st, None) \<Rightarrow> False
     | (st, Some g2) \<Rightarrow> st = EFI_SUCCESS \<and> io g2 (B + GEM_SPEC_ADDR_LOW 0) = mac_low a \<and>
         io g2 (B + GEM_SPEC_ADDR_HI 0) = mac_high a)"
  using assms gem_regs_distinct [of "GemBase g"]
  by (simp add: Let_def GemSetReceiveFilters_state filtered_def Rp1GemSnpStationAddress_def snp_call_def
      if_initialized_def GemSetMacAddress_def GemWrite32_def run_state_bind io_simps)

theorem snp_station_ignores_filter_witness:
  "case Rp1GemSnpStationAddress reg_dev False (Some (replicate 32 0xAB))
     (Some (gem_do (GemSetReceiveFilters reg_dev (GemBase ready_gem) [] 0) ready_gem)) of
     (st, None) \<Rightarrow> False | (st, Some g2) \<Rightarrow> st = EFI_SUCCESS"
  using snp_station_ignores_filter [OF ready_gem(2), where f = 0 and ma = "[]" and a = "replicate 32 0xAB"]
  by (auto simp: unicast_on_def Let_def split: option.splits prod.splits)

end
