(* ===== verification/Pci_Segment.thy ===== *)
theory Pci_Segment
  imports Rpi5_Prelude
begin

section \<open>PCI configuration access (PciSegmentLib.c)\<close>

text \<open>
  The library reaches the configuration space of three PCIe segments. The root port's registers
  are at the base of the segment's register block; every other function is seen through the
  4 KiB window \<^verbatim>\<open>CFG_DATA\<close>, which \<^verbatim>\<open>CFG_INDEX\<close> moves to a bus, device and function. Register
  accesses of 1, 2 and 4 bytes are those of a device \<^verbatim>\<open>'s memdev\<close>; the lock is part of the
  state. The bit-field functions of \<^verbatim>\<open>BaseLib\<close> are arguments. \<^verbatim>\<open>ASSERT\<close>s are not modelled: the
  definitions are those of a build that compiles them out.

  The locale \<^verbatim>\<open>cfg_port\<close> says what the library relies on in the hardware: a root port and a
  window on the function last selected. It is interpreted on \<^verbatim>\<open>pci_dev\<close>, the three register
  blocks in a physical address space.
\<close>

record 's memdev =
  md_rd :: "nat \<Rightarrow> u64 \<Rightarrow> 's \<Rightarrow> u32 \<times> 's"
  md_wr :: "nat \<Rightarrow> u64 \<Rightarrow> u32 \<Rightarrow> 's \<Rightarrow> 's"

record 's pciseg =
  SegLock :: bool
  SegIo :: 's

datatype PCI_CFG_WIDTH = PciCfgWidthUint8 | PciCfgWidthUint16 | PciCfgWidthUint32

definition BCM2712_BRCMSTB_PCIE0_BASE :: u64 where "BCM2712_BRCMSTB_PCIE0_BASE = 0x1000100000"
definition BCM2712_BRCMSTB_PCIE1_BASE :: u64 where "BCM2712_BRCMSTB_PCIE1_BASE = 0x1000110000"
definition BCM2712_BRCMSTB_PCIE2_BASE :: u64 where "BCM2712_BRCMSTB_PCIE2_BASE = 0x1000120000"
definition PCIE_EXT_CFG_DATA :: u64 where "PCIE_EXT_CFG_DATA = 0x8000"
definition PCIE_EXT_CFG_INDEX :: u64 where "PCIE_EXT_CFG_INDEX = 0x9000"
definition PCI_INVALID_ADDRESS :: u64 where "PCI_INVALID_ADDRESS = 0xffffffff"

definition mPcieRcBaseAddresses :: "u64 list" where
  "mPcieRcBaseAddresses =
     [BCM2712_BRCMSTB_PCIE0_BASE, BCM2712_BRCMSTB_PCIE1_BASE, BCM2712_BRCMSTB_PCIE2_BASE]"

definition GET_SEG_NUM :: "u64 \<Rightarrow> u64" where "GET_SEG_NUM A = drop_bit 32 A AND 0xFFFF"
definition GET_BUS_NUM :: "u64 \<Rightarrow> u64" where "GET_BUS_NUM A = drop_bit 20 A AND 0xFF"
definition GET_DEV_NUM :: "u64 \<Rightarrow> u64" where "GET_DEV_NUM A = drop_bit 15 A AND 0x1F"
definition GET_FUN_NUM :: "u64 \<Rightarrow> u64" where "GET_FUN_NUM A = drop_bit 12 A AND 0x07"
definition GET_REG_NUM :: "u64 \<Rightarrow> u64" where "GET_REG_NUM A = A AND 0xFFF"
definition GET_BUS_DEV_FUN :: "u64 \<Rightarrow> u64" where "GET_BUS_DEV_FUN A = A AND 0xFFFFF000"

subsection \<open>Register access and the lock\<close>

definition MmioRead :: "'s memdev \<Rightarrow> nat \<Rightarrow> u64 \<Rightarrow> ('s pciseg, u32) state" where
  "MmioRead D n a = State (\<lambda>g. case md_rd D n a (SegIo g) of (v, s) \<Rightarrow> (v, g\<lparr>SegIo := s\<rparr>))"

definition MmioWrite :: "'s memdev \<Rightarrow> nat \<Rightarrow> u64 \<Rightarrow> u32 \<Rightarrow> ('s pciseg, unit) state" where
  "MmioWrite D n a v = modify (\<lambda>g. g\<lparr>SegIo := md_wr D n a v (SegIo g)\<rparr>)"

definition AcquireLock :: "('s pciseg, unit) state" where
  "AcquireLock = modify (\<lambda>g. g\<lparr>SegLock := True\<rparr>)"

definition ReleaseLock :: "('s pciseg, unit) state" where
  "ReleaseLock = modify (\<lambda>g. g\<lparr>SegLock := False\<rparr>)"

subsection \<open>The workers\<close>

definition PciSegmentLibGetConfigBase :: "'s memdev \<Rightarrow> u64 \<Rightarrow> ('s pciseg, u64) state" where
  "PciSegmentLibGetConfigBase D Address =
     (let Segment = unat (GET_SEG_NUM Address) in
      if Segment \<ge> length mPcieRcBaseAddresses then State_Monad.return PCI_INVALID_ADDRESS
      else
       (let Base = mPcieRcBaseAddresses ! Segment;
            Bus = GET_BUS_NUM Address;
            Device = GET_DEV_NUM Address;
            Function = GET_FUN_NUM Address in
        if Bus = 0 \<and> (Device > 0 \<or> Function > 0) then State_Monad.return PCI_INVALID_ADDRESS
        else if Bus = 1 \<and> Device > 0 then State_Monad.return PCI_INVALID_ADDRESS
        else if Bus > 0 then do {
          MmioWrite D 4 (Base + PCIE_EXT_CFG_INDEX) (ucast (GET_BUS_DEV_FUN Address));
          State_Monad.return (Base + PCIE_EXT_CFG_DATA + GET_REG_NUM Address)
        }
        else State_Monad.return (Base + GET_REG_NUM Address)))"

definition width_bytes :: "PCI_CFG_WIDTH \<Rightarrow> nat" where
  "width_bytes w = (case w of PciCfgWidthUint8 \<Rightarrow> 1 | PciCfgWidthUint16 \<Rightarrow> 2 | PciCfgWidthUint32 \<Rightarrow> 4)"

definition PciSegmentLibReadWorker :: "'s memdev \<Rightarrow> u64 \<Rightarrow> PCI_CFG_WIDTH \<Rightarrow> ('s pciseg, u32) state" where
  "PciSegmentLibReadWorker D Address Width = do {
     AcquireLock;
     Base \<leftarrow> PciSegmentLibGetConfigBase D Address;
     (if Base = PCI_INVALID_ADDRESS then do { ReleaseLock; State_Monad.return (ucast Base) }
      else do {
        Ret \<leftarrow> MmioRead D (width_bytes Width) Base;
        ReleaseLock;
        State_Monad.return Ret
      })
   }"

definition PciSegmentLibWriteWorker ::
  "'s memdev \<Rightarrow> u64 \<Rightarrow> PCI_CFG_WIDTH \<Rightarrow> u32 \<Rightarrow> ('s pciseg, u32) state" where
  "PciSegmentLibWriteWorker D Address Width Data = do {
     AcquireLock;
     Base \<leftarrow> PciSegmentLibGetConfigBase D Address;
     MmioWrite D (width_bytes Width) Base Data;
     ReleaseLock;
     State_Monad.return Data
   }"

subsection \<open>Reads, writes and read-modify-writes\<close>

definition PciSegmentRead8 :: "'s memdev \<Rightarrow> u64 \<Rightarrow> ('s pciseg, u8) state" where
  "PciSegmentRead8 D A = do { v \<leftarrow> PciSegmentLibReadWorker D A PciCfgWidthUint8; State_Monad.return (ucast v) }"

definition PciSegmentRead16 :: "'s memdev \<Rightarrow> u64 \<Rightarrow> ('s pciseg, u16) state" where
  "PciSegmentRead16 D A = do { v \<leftarrow> PciSegmentLibReadWorker D A PciCfgWidthUint16; State_Monad.return (ucast v) }"

definition PciSegmentRead32 :: "'s memdev \<Rightarrow> u64 \<Rightarrow> ('s pciseg, u32) state" where
  "PciSegmentRead32 D A = PciSegmentLibReadWorker D A PciCfgWidthUint32"

definition PciSegmentWrite8 :: "'s memdev \<Rightarrow> u64 \<Rightarrow> u8 \<Rightarrow> ('s pciseg, u8) state" where
  "PciSegmentWrite8 D A Value = do {
     v \<leftarrow> PciSegmentLibWriteWorker D A PciCfgWidthUint8 (ucast Value); State_Monad.return (ucast v) }"

definition PciSegmentWrite16 :: "'s memdev \<Rightarrow> u64 \<Rightarrow> u16 \<Rightarrow> ('s pciseg, u16) state" where
  "PciSegmentWrite16 D A Value = do {
     v \<leftarrow> PciSegmentLibWriteWorker D A PciCfgWidthUint16 (ucast Value); State_Monad.return (ucast v) }"

definition PciSegmentWrite32 :: "'s memdev \<Rightarrow> u64 \<Rightarrow> u32 \<Rightarrow> ('s pciseg, u32) state" where
  "PciSegmentWrite32 D A Value = PciSegmentLibWriteWorker D A PciCfgWidthUint32 Value"

definition rmw8 :: "'s memdev \<Rightarrow> u64 \<Rightarrow> (u8 \<Rightarrow> u8) \<Rightarrow> ('s pciseg, u8) state" where
  "rmw8 D A f = do { x \<leftarrow> PciSegmentRead8 D A; PciSegmentWrite8 D A (f x) }"

definition rmw16 :: "'s memdev \<Rightarrow> u64 \<Rightarrow> (u16 \<Rightarrow> u16) \<Rightarrow> ('s pciseg, u16) state" where
  "rmw16 D A f = do { x \<leftarrow> PciSegmentRead16 D A; PciSegmentWrite16 D A (f x) }"

definition rmw32 :: "'s memdev \<Rightarrow> u64 \<Rightarrow> (u32 \<Rightarrow> u32) \<Rightarrow> ('s pciseg, u32) state" where
  "rmw32 D A f = do { x \<leftarrow> PciSegmentRead32 D A; PciSegmentWrite32 D A (f x) }"

definition PciSegmentOr8 ::
  "'s memdev \<Rightarrow> u64 \<Rightarrow> u8 \<Rightarrow> ('s pciseg, u8) state" where
  "PciSegmentOr8 D A OrData = rmw8 D A (\<lambda>x. x OR OrData)"

definition PciSegmentAnd8 ::
  "'s memdev \<Rightarrow> u64 \<Rightarrow> u8 \<Rightarrow> ('s pciseg, u8) state" where
  "PciSegmentAnd8 D A AndData = rmw8 D A (\<lambda>x. x AND AndData)"

definition PciSegmentAndThenOr8 ::
  "'s memdev \<Rightarrow> u64 \<Rightarrow> u8 \<Rightarrow> u8 \<Rightarrow> ('s pciseg, u8) state" where
  "PciSegmentAndThenOr8 D A AndData OrData = rmw8 D A (\<lambda>x. (x AND AndData) OR OrData)"

definition PciSegmentBitFieldRead8 ::
  "'s memdev \<Rightarrow> (u8 \<Rightarrow> nat \<Rightarrow> nat \<Rightarrow> u8) \<Rightarrow> u64 \<Rightarrow> nat \<Rightarrow> nat \<Rightarrow> ('s pciseg, u8) state" where
  "PciSegmentBitFieldRead8 D BF A StartBit EndBit = do {
     x \<leftarrow> PciSegmentRead8 D A; State_Monad.return (BF x StartBit EndBit) }"

definition PciSegmentBitFieldWrite8 ::
  "'s memdev \<Rightarrow> (u8 \<Rightarrow> nat \<Rightarrow> nat \<Rightarrow> u8 \<Rightarrow> u8) \<Rightarrow> u64 \<Rightarrow> nat \<Rightarrow> nat \<Rightarrow> u8 \<Rightarrow> ('s pciseg, u8) state" where
  "PciSegmentBitFieldWrite8 D BF A StartBit EndBit Value = rmw8 D A (\<lambda>x. BF x StartBit EndBit Value)"

definition PciSegmentBitFieldOr8 ::
  "'s memdev \<Rightarrow> (u8 \<Rightarrow> nat \<Rightarrow> nat \<Rightarrow> u8 \<Rightarrow> u8) \<Rightarrow> u64 \<Rightarrow> nat \<Rightarrow> nat \<Rightarrow> u8 \<Rightarrow> ('s pciseg, u8) state" where
  "PciSegmentBitFieldOr8 D BF A StartBit EndBit OrData = rmw8 D A (\<lambda>x. BF x StartBit EndBit OrData)"

definition PciSegmentBitFieldAnd8 ::
  "'s memdev \<Rightarrow> (u8 \<Rightarrow> nat \<Rightarrow> nat \<Rightarrow> u8 \<Rightarrow> u8) \<Rightarrow> u64 \<Rightarrow> nat \<Rightarrow> nat \<Rightarrow> u8 \<Rightarrow> ('s pciseg, u8) state" where
  "PciSegmentBitFieldAnd8 D BF A StartBit EndBit AndData = rmw8 D A (\<lambda>x. BF x StartBit EndBit AndData)"

definition PciSegmentBitFieldAndThenOr8 ::
  "'s memdev \<Rightarrow> (u8 \<Rightarrow> nat \<Rightarrow> nat \<Rightarrow> u8 \<Rightarrow> u8 \<Rightarrow> u8) \<Rightarrow> u64 \<Rightarrow> nat \<Rightarrow> nat \<Rightarrow> u8 \<Rightarrow> u8 \<Rightarrow> ('s pciseg, u8) state" where
  "PciSegmentBitFieldAndThenOr8 D BF A StartBit EndBit AndData OrData = rmw8 D A (\<lambda>x. BF x StartBit EndBit AndData OrData)"

definition PciSegmentOr16 ::
  "'s memdev \<Rightarrow> u64 \<Rightarrow> u16 \<Rightarrow> ('s pciseg, u16) state" where
  "PciSegmentOr16 D A OrData = rmw16 D A (\<lambda>x. x OR OrData)"

definition PciSegmentAnd16 ::
  "'s memdev \<Rightarrow> u64 \<Rightarrow> u16 \<Rightarrow> ('s pciseg, u16) state" where
  "PciSegmentAnd16 D A AndData = rmw16 D A (\<lambda>x. x AND AndData)"

definition PciSegmentAndThenOr16 ::
  "'s memdev \<Rightarrow> u64 \<Rightarrow> u16 \<Rightarrow> u16 \<Rightarrow> ('s pciseg, u16) state" where
  "PciSegmentAndThenOr16 D A AndData OrData = rmw16 D A (\<lambda>x. (x AND AndData) OR OrData)"

definition PciSegmentBitFieldRead16 ::
  "'s memdev \<Rightarrow> (u16 \<Rightarrow> nat \<Rightarrow> nat \<Rightarrow> u16) \<Rightarrow> u64 \<Rightarrow> nat \<Rightarrow> nat \<Rightarrow> ('s pciseg, u16) state" where
  "PciSegmentBitFieldRead16 D BF A StartBit EndBit = do {
     x \<leftarrow> PciSegmentRead16 D A; State_Monad.return (BF x StartBit EndBit) }"

definition PciSegmentBitFieldWrite16 ::
  "'s memdev \<Rightarrow> (u16 \<Rightarrow> nat \<Rightarrow> nat \<Rightarrow> u16 \<Rightarrow> u16) \<Rightarrow> u64 \<Rightarrow> nat \<Rightarrow> nat \<Rightarrow> u16 \<Rightarrow> ('s pciseg, u16) state" where
  "PciSegmentBitFieldWrite16 D BF A StartBit EndBit Value = rmw16 D A (\<lambda>x. BF x StartBit EndBit Value)"

definition PciSegmentBitFieldOr16 ::
  "'s memdev \<Rightarrow> (u16 \<Rightarrow> nat \<Rightarrow> nat \<Rightarrow> u16 \<Rightarrow> u16) \<Rightarrow> u64 \<Rightarrow> nat \<Rightarrow> nat \<Rightarrow> u16 \<Rightarrow> ('s pciseg, u16) state" where
  "PciSegmentBitFieldOr16 D BF A StartBit EndBit OrData = rmw16 D A (\<lambda>x. BF x StartBit EndBit OrData)"

definition PciSegmentBitFieldAnd16 ::
  "'s memdev \<Rightarrow> (u16 \<Rightarrow> nat \<Rightarrow> nat \<Rightarrow> u16 \<Rightarrow> u16) \<Rightarrow> u64 \<Rightarrow> nat \<Rightarrow> nat \<Rightarrow> u16 \<Rightarrow> ('s pciseg, u16) state" where
  "PciSegmentBitFieldAnd16 D BF A StartBit EndBit AndData = rmw16 D A (\<lambda>x. BF x StartBit EndBit AndData)"

definition PciSegmentBitFieldAndThenOr16 ::
  "'s memdev \<Rightarrow> (u16 \<Rightarrow> nat \<Rightarrow> nat \<Rightarrow> u16 \<Rightarrow> u16 \<Rightarrow> u16) \<Rightarrow> u64 \<Rightarrow> nat \<Rightarrow> nat \<Rightarrow> u16 \<Rightarrow> u16 \<Rightarrow> ('s pciseg, u16) state" where
  "PciSegmentBitFieldAndThenOr16 D BF A StartBit EndBit AndData OrData = rmw16 D A (\<lambda>x. BF x StartBit EndBit AndData OrData)"

definition PciSegmentOr32 ::
  "'s memdev \<Rightarrow> u64 \<Rightarrow> u32 \<Rightarrow> ('s pciseg, u32) state" where
  "PciSegmentOr32 D A OrData = rmw32 D A (\<lambda>x. x OR OrData)"

definition PciSegmentAnd32 ::
  "'s memdev \<Rightarrow> u64 \<Rightarrow> u32 \<Rightarrow> ('s pciseg, u32) state" where
  "PciSegmentAnd32 D A AndData = rmw32 D A (\<lambda>x. x AND AndData)"

definition PciSegmentAndThenOr32 ::
  "'s memdev \<Rightarrow> u64 \<Rightarrow> u32 \<Rightarrow> u32 \<Rightarrow> ('s pciseg, u32) state" where
  "PciSegmentAndThenOr32 D A AndData OrData = rmw32 D A (\<lambda>x. (x AND AndData) OR OrData)"

definition PciSegmentBitFieldRead32 ::
  "'s memdev \<Rightarrow> (u32 \<Rightarrow> nat \<Rightarrow> nat \<Rightarrow> u32) \<Rightarrow> u64 \<Rightarrow> nat \<Rightarrow> nat \<Rightarrow> ('s pciseg, u32) state" where
  "PciSegmentBitFieldRead32 D BF A StartBit EndBit = do {
     x \<leftarrow> PciSegmentRead32 D A; State_Monad.return (BF x StartBit EndBit) }"

definition PciSegmentBitFieldWrite32 ::
  "'s memdev \<Rightarrow> (u32 \<Rightarrow> nat \<Rightarrow> nat \<Rightarrow> u32 \<Rightarrow> u32) \<Rightarrow> u64 \<Rightarrow> nat \<Rightarrow> nat \<Rightarrow> u32 \<Rightarrow> ('s pciseg, u32) state" where
  "PciSegmentBitFieldWrite32 D BF A StartBit EndBit Value = rmw32 D A (\<lambda>x. BF x StartBit EndBit Value)"

definition PciSegmentBitFieldOr32 ::
  "'s memdev \<Rightarrow> (u32 \<Rightarrow> nat \<Rightarrow> nat \<Rightarrow> u32 \<Rightarrow> u32) \<Rightarrow> u64 \<Rightarrow> nat \<Rightarrow> nat \<Rightarrow> u32 \<Rightarrow> ('s pciseg, u32) state" where
  "PciSegmentBitFieldOr32 D BF A StartBit EndBit OrData = rmw32 D A (\<lambda>x. BF x StartBit EndBit OrData)"

definition PciSegmentBitFieldAnd32 ::
  "'s memdev \<Rightarrow> (u32 \<Rightarrow> nat \<Rightarrow> nat \<Rightarrow> u32 \<Rightarrow> u32) \<Rightarrow> u64 \<Rightarrow> nat \<Rightarrow> nat \<Rightarrow> u32 \<Rightarrow> ('s pciseg, u32) state" where
  "PciSegmentBitFieldAnd32 D BF A StartBit EndBit AndData = rmw32 D A (\<lambda>x. BF x StartBit EndBit AndData)"

definition PciSegmentBitFieldAndThenOr32 ::
  "'s memdev \<Rightarrow> (u32 \<Rightarrow> nat \<Rightarrow> nat \<Rightarrow> u32 \<Rightarrow> u32 \<Rightarrow> u32) \<Rightarrow> u64 \<Rightarrow> nat \<Rightarrow> nat \<Rightarrow> u32 \<Rightarrow> u32 \<Rightarrow> ('s pciseg, u32) state" where
  "PciSegmentBitFieldAndThenOr32 D BF A StartBit EndBit AndData OrData = rmw32 D A (\<lambda>x. BF x StartBit EndBit AndData OrData)"

subsection \<open>Buffers\<close>

text \<open>
  A read hands back the bytes it stores, in order; a write takes the bytes of the buffer. A
  16- or 32-bit value goes to and from an unaligned buffer in the processor's little-endian
  order. The dword loop runs on the number of bytes left.
\<close>

definition le_bytes :: "nat \<Rightarrow> u32 \<Rightarrow> u8 list" where
  "le_bytes n v = map (\<lambda>i. ucast (drop_bit (8 * i) v)) [0..<n]"

definition le_word :: "nat \<Rightarrow> buf \<Rightarrow> nat \<Rightarrow> u32" where
  "le_word n p off =
     (if n = 1 then ucast (p off)
      else if n = 2 then ucast (p off) OR push_bit 8 (ucast (p (off + 1)))
      else Le32 p off)"

fun ReadDwords :: "'s memdev \<Rightarrow> u64 \<Rightarrow> nat \<Rightarrow> ('s pciseg, u8 list \<times> u64 \<times> nat) state" where
  "ReadDwords D StartAddress Size =
     (if Size \<ge> 4 then do {
        v \<leftarrow> PciSegmentRead32 D StartAddress;
        (bs, A, n) \<leftarrow> ReadDwords D (StartAddress + 4) (Size - 4);
        State_Monad.return (le_bytes 4 v @ bs, A, n)
      }
      else State_Monad.return ([], StartAddress, Size))"

declare ReadDwords.simps [simp del]

definition ReadWord :: "'s memdev \<Rightarrow> bool \<Rightarrow> u64 \<Rightarrow> nat \<Rightarrow> ('s pciseg, u8 list \<times> u64 \<times> nat) state" where
  "ReadWord D c StartAddress Size =
     (if c then do {
        v \<leftarrow> PciSegmentRead16 D StartAddress;
        State_Monad.return (le_bytes 2 (ucast v), StartAddress + 2, Size - 2)
      }
      else State_Monad.return ([], StartAddress, Size))"

definition ReadByte :: "'s memdev \<Rightarrow> bool \<Rightarrow> u64 \<Rightarrow> nat \<Rightarrow> ('s pciseg, u8 list \<times> u64 \<times> nat) state" where
  "ReadByte D c StartAddress Size =
     (if c then do {
        v \<leftarrow> PciSegmentRead8 D StartAddress;
        State_Monad.return ([v], StartAddress + 1, Size - 1)
      }
      else State_Monad.return ([], StartAddress, Size))"

definition PciSegmentReadBuffer :: "'s memdev \<Rightarrow> u64 \<Rightarrow> nat \<Rightarrow> ('s pciseg, nat \<times> u8 list) state" where
  "PciSegmentReadBuffer D StartAddress Size =
     (if Size = 0 then State_Monad.return (Size, [])
      else do {
        (b1, A, n) \<leftarrow> ReadByte D (StartAddress AND 1 \<noteq> 0) StartAddress Size;
        (b2, A, n) \<leftarrow> ReadWord D (n \<ge> 2 \<and> A AND 2 \<noteq> 0) A n;
        (b3, A, n) \<leftarrow> ReadDwords D A n;
        (b4, A, n) \<leftarrow> ReadWord D (n \<ge> 2) A n;
        (b5, A, n) \<leftarrow> ReadByte D (n \<ge> 1) A n;
        State_Monad.return (Size, b1 @ b2 @ b3 @ b4 @ b5)
      })"

text \<open>The write functions carry the position in the buffer, as the C code moves its pointer.\<close>

fun WriteDwords :: "'s memdev \<Rightarrow> buf \<Rightarrow> u64 \<Rightarrow> nat \<Rightarrow> nat \<Rightarrow> ('s pciseg, u64 \<times> nat \<times> nat) state" where
  "WriteDwords D Buffer StartAddress Size off =
     (if Size \<ge> 4 then do {
        _ \<leftarrow> PciSegmentWrite32 D StartAddress (le_word 4 Buffer off);
        WriteDwords D Buffer (StartAddress + 4) (Size - 4) (off + 4)
      }
      else State_Monad.return (StartAddress, Size, off))"

declare WriteDwords.simps [simp del]

definition WriteWord :: "'s memdev \<Rightarrow> bool \<Rightarrow> buf \<Rightarrow> u64 \<Rightarrow> nat \<Rightarrow> nat \<Rightarrow> ('s pciseg, u64 \<times> nat \<times> nat) state" where
  "WriteWord D c Buffer StartAddress Size off =
     (if c then do {
        _ \<leftarrow> PciSegmentWrite16 D StartAddress (ucast (le_word 2 Buffer off));
        State_Monad.return (StartAddress + 2, Size - 2, off + 2)
      }
      else State_Monad.return (StartAddress, Size, off))"

definition WriteByte :: "'s memdev \<Rightarrow> bool \<Rightarrow> buf \<Rightarrow> u64 \<Rightarrow> nat \<Rightarrow> nat \<Rightarrow> ('s pciseg, u64 \<times> nat \<times> nat) state" where
  "WriteByte D c Buffer StartAddress Size off =
     (if c then do {
        _ \<leftarrow> PciSegmentWrite8 D StartAddress (Buffer off);
        State_Monad.return (StartAddress + 1, Size - 1, off + 1)
      }
      else State_Monad.return (StartAddress, Size, off))"

definition PciSegmentWriteBuffer :: "'s memdev \<Rightarrow> u64 \<Rightarrow> nat \<Rightarrow> buf \<Rightarrow> ('s pciseg, nat) state" where
  "PciSegmentWriteBuffer D StartAddress Size Buffer =
     (if Size = 0 then State_Monad.return 0
      else do {
        (A, n, off) \<leftarrow> WriteByte D (StartAddress AND 1 \<noteq> 0) Buffer StartAddress Size 0;
        (A, n, off) \<leftarrow> WriteWord D (n \<ge> 2 \<and> A AND 2 \<noteq> 0) Buffer A n off;
        (A, n, off) \<leftarrow> WriteDwords D Buffer A n off;
        (A, n, off) \<leftarrow> WriteWord D (n \<ge> 2) Buffer A n off;
        (A, n, off) \<leftarrow> WriteByte D (n \<ge> 1) Buffer A n off;
        State_Monad.return Size
      })"

subsection \<open>Addresses\<close>

text \<open>The function that an address names: its segment and the value of \<^verbatim>\<open>CFG_INDEX\<close> for it (0 for
  the root port), \<open>None\<close> when no such function can exist.\<close>

definition cfg_fun :: "u64 \<Rightarrow> (nat \<times> u32) option" where
  "cfg_fun A =
     (if unat (GET_SEG_NUM A) \<ge> 3 then None
      else if GET_BUS_NUM A = 0
      then (if GET_DEV_NUM A = 0 \<and> GET_FUN_NUM A = 0 then Some (unat (GET_SEG_NUM A), 0) else None)
      else if GET_BUS_NUM A = 1 \<and> GET_DEV_NUM A \<noteq> 0 then None
      else Some (unat (GET_SEG_NUM A), ucast (GET_BUS_DEV_FUN A)))"

definition cfg_reg :: "u64 \<Rightarrow> nat" where
  "cfg_reg A = unat (GET_REG_NUM A)"

lemma cfg_reg_mod: "cfg_reg A = unat A mod 4096"
proof -
  have m: "(0xFFF :: u64) = mask 12" by (simp add: mask_eq_exp_minus_1)
  show ?thesis
    unfolding cfg_reg_def GET_REG_NUM_def m take_bit_eq_mask [symmetric] unsigned_take_bit_eq
    unfolding take_bit_eq_mod by simp
qed

lemma cfg_reg_less: "cfg_reg A < 4096"
  by (simp add: cfg_reg_mod)

lemma upper_add:
  assumes "cfg_reg A + k < 4096"
  shows "drop_bit 12 (A + of_nat k) = drop_bit 12 A" and "cfg_reg (A + of_nat k) = cfg_reg A + k"
proof -
  have lt: "unat A < 2 ^ 64" using unsigned_less [of A] by simp
  have k: "unat (of_nat k :: u64) = k" using assms by (simp add: unat_of_nat take_bit_nat_eq_self)
  define q where "q = unat A div 4096"
  have ua: "unat A = 4096 * q + cfg_reg A" by (simp add: q_def cfg_reg_mod)
  have sm: "unat A + k < 2 ^ 64"
  proof -
    have "q < 2 ^ 52" using lt by (simp add: q_def)
    then show ?thesis using assms ua by simp
  qed
  have un: "unat (A + of_nat k) = 4096 * q + (cfg_reg A + k)"
    using sm by (simp add: unat_word_ariths k ua)
  show "cfg_reg (A + of_nat k) = cfg_reg A + k"
    using assms by (simp add: cfg_reg_mod [of "A + of_nat k"] un)
  have dv: "unat (drop_bit 12 X) = unat X div 4096" for X :: u64
  proof -
    have "unat X < 2 ^ 64" using unsigned_less [of X] by simp
    then have "take_bit 64 (unat X) = unat X" by (rule take_bit_nat_eq_self)
    then show ?thesis by (simp add: unsigned_drop_bit_eq) (simp add: drop_bit_eq_div)
  qed
  have "unat (drop_bit 12 (A + of_nat k)) = unat (drop_bit 12 A)"
    unfolding dv un ua using assms by simp
  then show "drop_bit 12 (A + of_nat k) = drop_bit 12 A" by (simp add: word_unat_eq_iff)
qed

lemma cfg_fun_upper: "drop_bit 12 A = drop_bit 12 B \<Longrightarrow> cfg_fun A = cfg_fun B"
proof -
  assume eq: "drop_bit 12 A = drop_bit 12 B"
  have d: "drop_bit 32 A = drop_bit 32 B" "drop_bit 20 A = drop_bit 20 B" "drop_bit 15 A = drop_bit 15 B"
    using arg_cong [OF eq, of "drop_bit 20"] arg_cong [OF eq, of "drop_bit 8"]
      arg_cong [OF eq, of "drop_bit 3"] by simp_all
  have m: "(0xFFFFF000 :: u64) = push_bit 12 (mask 20)"
    by (simp add: mask_eq_exp_minus_1 push_bit_eq_mult)
  have w: "GET_BUS_DEV_FUN X = push_bit 12 (drop_bit 12 X AND mask 20)" for X
    unfolding GET_BUS_DEV_FUN_def m by (rule bit_word_eqI) (auto simp: bit_simps)
  show ?thesis
    by (simp add: cfg_fun_def GET_SEG_NUM_def GET_BUS_NUM_def GET_DEV_NUM_def GET_FUN_NUM_def w d eq)
qed

text \<open>\<open>n\<close> bytes from \<open>A\<close> on lie in the configuration space of one function, from \<open>off\<close> on.\<close>

definition span :: "u64 \<Rightarrow> nat \<Rightarrow> nat \<times> u32 \<Rightarrow> nat \<Rightarrow> bool" where
  "span A n f off = (off + n \<le> 4096 \<and> (n > 0 \<longrightarrow> cfg_fun A = Some f \<and> cfg_reg A = off))"

lemma span_step: "span A n f off \<Longrightarrow> k \<le> n \<Longrightarrow> span (A + of_nat k) (n - k) f (off + k)"
  using upper_add [of A k] cfg_fun_upper [of "A + of_nat k" A]
  by (cases "k < n") (auto simp: span_def)

subsection \<open>The hardware as the library relies on it\<close>

definition put :: "(nat \<Rightarrow> u32 \<Rightarrow> buf) \<Rightarrow> nat \<times> u32 \<Rightarrow> nat \<Rightarrow> u8 list \<Rightarrow> (nat \<Rightarrow> u32 \<Rightarrow> buf)" where
  "put sp f off xs = sp(fst f := (sp (fst f))(snd f := CopyMem (sp (fst f) (snd f)) off xs))"

lemma put_get: "put sp f off xs (fst f) (snd f) = CopyMem (sp (fst f) (snd f)) off xs"
  by (simp add: put_def)

lemma CopyMem_append: "CopyMem (CopyMem p off xs) (off + length xs) ys = CopyMem p off (xs @ ys)"
  by (auto simp: CopyMem_def fun_eq_iff nth_append)

lemma put_append: "put (put sp f off xs) f (off + length xs) ys = put sp f off (xs @ ys)"
  by (simp add: put_def CopyMem_append)

lemma put_Nil: "put sp f off [] = sp"
  by (auto simp: put_def CopyMem_def fun_eq_iff)

lemma bytes_at_add: "bytes_at p off (k + l) = bytes_at p off k @ bytes_at p (off + k) l"
  by (rule nth_equalityI) (auto simp: bytes_at_def nth_append)

lemma ucast_byte:
  "(ucast (ucast (v :: u8) :: u32) :: u8) = v" "(ucast (ucast (w :: u16) :: u32) :: u16) = w"
  by (auto intro!: bit_word_eqI simp: bit_simps)

lemma byte_high: "8 \<le> n \<Longrightarrow> \<not> bit (b :: u8) n"
  using bit_imp_le_length [of b n] by auto

lemma bit_u8: "bit (b :: u8) n \<Longrightarrow> n < 8"
  using bit_imp_le_length [of b n] by simp

lemma upt_widths: "[0..<1] = [0 :: nat]" "[0..<2] = [0, 1 :: nat]" "[0..<4] = [0, 1, 2, 3 :: nat]"
  by (simp_all add: upt_rec)

lemma le_bytes_widths:
  "le_bytes 1 v = [ucast v]" "le_bytes 2 v = [ucast v, ucast (drop_bit 8 v)]"
  "le_bytes 4 v = [ucast v, ucast (drop_bit 8 v), ucast (drop_bit 16 v), ucast (drop_bit 24 v)]"
  by (simp_all add: le_bytes_def upt_widths)

lemma bytes_at_widths:
  "bytes_at p off 1 = [p off]" "bytes_at p off 2 = [p off, p (off + 1)]"
  "bytes_at p off 4 = [p off, p (off + 1), p (off + 2), p (off + 3)]"
  by (simp_all add: bytes_at_def upt_widths)

lemma le_word_bytes:
  "n \<in> {1, 2, 4} \<Longrightarrow> le_bytes n (le_word n p off) = bytes_at p off n"
  by (auto simp: le_bytes_widths le_bytes_widths(1) [simplified] bytes_at_widths(1) [simplified]
      bytes_at_widths le_word_def Le32_def intro!: bit_word_eqI)
    (auto simp: bit_simps byte_high)

locale cfg_port =
  fixes D :: "'s memdev" and space :: "'s \<Rightarrow> nat \<Rightarrow> u32 \<Rightarrow> buf" and sel :: "'s \<Rightarrow> nat \<Rightarrow> u32"
  assumes select: "i < 3 \<Longrightarrow> s' = md_wr D 4 (mPcieRcBaseAddresses ! i + PCIE_EXT_CFG_INDEX) v s \<Longrightarrow>
      space s' = space s \<and> sel s' i = v"
    and root_rd: "i < 3 \<Longrightarrow> n \<in> {1, 2, 4} \<Longrightarrow> off + n \<le> 4096 \<Longrightarrow>
      md_rd D n (mPcieRcBaseAddresses ! i + of_nat off) s = (le_word n (space s i 0) off, s)"
    and root_wr: "i < 3 \<Longrightarrow> n \<in> {1, 2, 4} \<Longrightarrow> off + n \<le> 4096 \<Longrightarrow>
      space (md_wr D n (mPcieRcBaseAddresses ! i + of_nat off) v s) = put (space s) (i, 0) off (le_bytes n v)"
    and window_rd: "i < 3 \<Longrightarrow> n \<in> {1, 2, 4} \<Longrightarrow> off + n \<le> 4096 \<Longrightarrow>
      md_rd D n (mPcieRcBaseAddresses ! i + PCIE_EXT_CFG_DATA + of_nat off) s =
        (le_word n (space s i (sel s i)) off, s)"
    and window_wr: "i < 3 \<Longrightarrow> n \<in> {1, 2, 4} \<Longrightarrow> off + n \<le> 4096 \<Longrightarrow>
      space (md_wr D n (mPcieRcBaseAddresses ! i + PCIE_EXT_CFG_DATA + of_nat off) v s) =
        put (space s) (i, sel s i) off (le_bytes n v)"
begin

lemma bases: "length mPcieRcBaseAddresses = 3"
  by (simp add: mPcieRcBaseAddresses_def)

lemma valid_base:
  assumes "i < 3" and "r < 4096"
  shows "mPcieRcBaseAddresses ! i + of_nat r \<noteq> PCI_INVALID_ADDRESS"
    "mPcieRcBaseAddresses ! i + PCIE_EXT_CFG_DATA + of_nat r \<noteq> PCI_INVALID_ADDRESS"
proof -
  have "unat (of_nat r :: u64) < 4096" using assms(2) by (simp add: unat_of_nat take_bit_nat_eq_self)
  moreover have "i = 0 \<or> i = 1 \<or> i = 2" using assms(1) by auto
  ultimately show "mPcieRcBaseAddresses ! i + of_nat r \<noteq> PCI_INVALID_ADDRESS"
    "mPcieRcBaseAddresses ! i + PCIE_EXT_CFG_DATA + of_nat r \<noteq> PCI_INVALID_ADDRESS"
    by (auto simp: mPcieRcBaseAddresses_def BCM2712_BRCMSTB_PCIE0_BASE_def BCM2712_BRCMSTB_PCIE1_BASE_def
        BCM2712_BRCMSTB_PCIE2_BASE_def PCIE_EXT_CFG_DATA_def PCI_INVALID_ADDRESS_def
        word_unat_eq_iff unat_word_ariths)
qed

lemma reg_word: "GET_REG_NUM A = of_nat (cfg_reg A)"
  by (simp add: cfg_reg_def)

text \<open>One access: the window or the root port, at the function and offset that the address names.\<close>

lemma config_base:
  assumes "cfg_fun A = Some f" and "n \<in> {1, 2, 4}" and "cfg_reg A + n \<le> 4096"
  shows "\<exists>b g'. run_state (PciSegmentLibGetConfigBase D A) g = (b, g') \<and> b \<noteq> PCI_INVALID_ADDRESS \<and>
    space (SegIo g') = space (SegIo g) \<and> SegLock g' = SegLock g \<and>
    (\<forall>s. space s = space (SegIo g') \<and> sel s = sel (SegIo g') \<longrightarrow>
       md_rd D n b s = (le_word n (space s (fst f) (snd f)) (cfg_reg A), s) \<and>
       space (md_wr D n b v s) = put (space s) f (cfg_reg A) (le_bytes n v))"
proof -
  define i where "i = unat (GET_SEG_NUM A)"
  have i: "i < 3" using assms(1) by (auto simp: cfg_fun_def i_def split: if_splits)
  note vb = valid_base [OF i cfg_reg_less [of A]]
  show ?thesis
  proof (cases "GET_BUS_NUM A = 0")
    case True
    then have f: "f = (i, 0)" and z: "GET_DEV_NUM A = 0" "GET_FUN_NUM A = 0"
      using assms(1) by (auto simp: cfg_fun_def i_def split: if_splits)
    have run: "run_state (PciSegmentLibGetConfigBase D A) g = (mPcieRcBaseAddresses ! i + of_nat (cfg_reg A), g)"
      using True z i by (simp add: PciSegmentLibGetConfigBase_def Let_def i_def [symmetric] reg_word bases)
    show ?thesis
      using run vb root_rd [OF i assms(2,3)] root_wr [OF i assms(2,3)] by (simp add: f)
  next
    case False
    then have f: "f = (i, ucast (GET_BUS_DEV_FUN A))" and z: "\<not> (GET_BUS_NUM A = 1 \<and> GET_DEV_NUM A > 0)"
      using assms(1) by (auto simp: cfg_fun_def i_def word_gt_0 split: if_splits)
    define s' where "s' = md_wr D 4 (mPcieRcBaseAddresses ! i + PCIE_EXT_CFG_INDEX) (ucast (GET_BUS_DEV_FUN A)) (SegIo g)"
    have run: "run_state (PciSegmentLibGetConfigBase D A) g =
        (mPcieRcBaseAddresses ! i + PCIE_EXT_CFG_DATA + of_nat (cfg_reg A), g\<lparr>SegIo := s'\<rparr>)"
      using False z i by (auto simp: PciSegmentLibGetConfigBase_def Let_def i_def [symmetric] reg_word bases
          MmioWrite_def run_state_bind io_simps s'_def word_gt_0)
    show ?thesis
      using run vb select [OF i s'_def] window_rd [OF i assms(2,3)] window_wr [OF i assms(2,3)]
      by (auto simp: f)
  qed
qed

lemma read_worker:
  assumes "cfg_fun A = Some f" and "cfg_reg A + width_bytes w \<le> 4096"
  shows "\<exists>g'. run_state (PciSegmentLibReadWorker D A w) g =
      (le_word (width_bytes w) (space (SegIo g) (fst f) (snd f)) (cfg_reg A), g') \<and>
    space (SegIo g') = space (SegIo g) \<and> \<not> SegLock g'"
proof -
  have n: "width_bytes w \<in> {1, 2, 4}" by (cases w) (simp_all add: width_bytes_def)
  obtain b g' where *: "run_state (PciSegmentLibGetConfigBase D A) (g\<lparr>SegLock := True\<rparr>) = (b, g')"
    "b \<noteq> PCI_INVALID_ADDRESS" "space (SegIo g') = space (SegIo g)"
    "md_rd D (width_bytes w) b (SegIo g') =
      (le_word (width_bytes w) (space (SegIo g') (fst f) (snd f)) (cfg_reg A), SegIo g')"
    using config_base [OF assms(1) n assms(2), of "g\<lparr>SegLock := True\<rparr>"] by fastforce
  show ?thesis
    using * by (simp add: PciSegmentLibReadWorker_def AcquireLock_def ReleaseLock_def MmioRead_def
        run_state_bind io_simps)
qed

lemma write_worker:
  assumes "cfg_fun A = Some f" and "cfg_reg A + width_bytes w \<le> 4096"
  shows "\<exists>g'. run_state (PciSegmentLibWriteWorker D A w v) g = (v, g') \<and>
    space (SegIo g') = put (space (SegIo g)) f (cfg_reg A) (le_bytes (width_bytes w) v) \<and> \<not> SegLock g'"
proof -
  have n: "width_bytes w \<in> {1, 2, 4}" by (cases w) (simp_all add: width_bytes_def)
  obtain b g' where *: "run_state (PciSegmentLibGetConfigBase D A) (g\<lparr>SegLock := True\<rparr>) = (b, g')"
    "space (SegIo g') = space (SegIo g)"
    "space (md_wr D (width_bytes w) b v (SegIo g')) = put (space (SegIo g')) f (cfg_reg A) (le_bytes (width_bytes w) v)"
    using config_base [OF assms(1) n assms(2), of "g\<lparr>SegLock := True\<rparr>"] by fastforce
  show ?thesis
    using * by (simp add: PciSegmentLibWriteWorker_def AcquireLock_def ReleaseLock_def MmioWrite_def
        run_state_bind io_simps)
qed

text \<open>The six access functions. Reading moves the window and nothing else.\<close>

abbreviation at :: "'s pciseg \<Rightarrow> nat \<times> u32 \<Rightarrow> buf" where
  "at g f \<equiv> space (SegIo g) (fst f) (snd f)"

lemma read8:
  assumes "span A 1 f off"
  shows "\<exists>g'. run_state (PciSegmentRead8 D A) g = (at g f off, g') \<and> space (SegIo g') = space (SegIo g) \<and> \<not> SegLock g'"
  using read_worker [of A f PciCfgWidthUint8 g] assms
  by (auto simp: PciSegmentRead8_def run_state_bind span_def width_bytes_def le_word_def ucast_byte)

lemma read16:
  assumes "span A 2 f off"
  shows "\<exists>g'. run_state (PciSegmentRead16 D A) g = (ucast (le_word 2 (at g f) off), g') \<and>
    space (SegIo g') = space (SegIo g) \<and> \<not> SegLock g'"
  using read_worker [of A f PciCfgWidthUint16 g] assms
  by (auto simp: PciSegmentRead16_def run_state_bind span_def width_bytes_def)

lemma read32:
  assumes "span A 4 f off"
  shows "\<exists>g'. run_state (PciSegmentRead32 D A) g = (le_word 4 (at g f) off, g') \<and>
    space (SegIo g') = space (SegIo g) \<and> \<not> SegLock g'"
  using read_worker [of A f PciCfgWidthUint32 g] assms
  by (auto simp: PciSegmentRead32_def span_def width_bytes_def)

lemma write8:
  assumes "span A 1 f off"
  shows "\<exists>g'. run_state (PciSegmentWrite8 D A v) g = (v, g') \<and>
    space (SegIo g') = put (space (SegIo g)) f off [v] \<and> \<not> SegLock g'"
  using write_worker [of A f PciCfgWidthUint8 "ucast v" g] assms le_bytes_widths(1) [simplified]
  by (auto simp: PciSegmentWrite8_def run_state_bind span_def width_bytes_def ucast_byte)

lemma write16:
  assumes "span A 2 f off"
  shows "\<exists>g'. run_state (PciSegmentWrite16 D A v) g = (v, g') \<and>
    space (SegIo g') = put (space (SegIo g)) f off (le_bytes 2 (ucast v)) \<and> \<not> SegLock g'"
  using write_worker [of A f PciCfgWidthUint16 "ucast v" g] assms
  by (auto simp: PciSegmentWrite16_def run_state_bind span_def width_bytes_def ucast_byte)

lemma write32:
  assumes "span A 4 f off"
  shows "\<exists>g'. run_state (PciSegmentWrite32 D A v) g = (v, g') \<and>
    space (SegIo g') = put (space (SegIo g)) f off (le_bytes 4 v) \<and> \<not> SegLock g'"
  using write_worker [of A f PciCfgWidthUint32 v g] assms
  by (auto simp: PciSegmentWrite32_def span_def width_bytes_def)

text \<open>A piece of a buffer read: \<open>k\<close> of the \<open>n\<close> bytes left.\<close>

definition reads ::
  "('s pciseg, u8 list \<times> u64 \<times> nat) state \<Rightarrow> nat \<Rightarrow> u64 \<Rightarrow> nat \<Rightarrow> nat \<times> u32 \<Rightarrow> nat \<Rightarrow> bool" where
  "reads m k A n f off = (k \<le> n \<and> (\<forall>g. \<exists>g'. space (SegIo g') = space (SegIo g) \<and> (SegLock g' \<longrightarrow> SegLock g) \<and>
     run_state m g = ((bytes_at (at g f) off k, A + of_nat k, n - k), g')))"

lemma bytes_at_0: "bytes_at p off 0 = []"
  by (simp add: bytes_at_def)

lemma reads_none: "reads (State_Monad.return ([], A, n)) 0 A n f off"
  by (auto simp: reads_def bytes_at_0)

lemma reads_byte:
  assumes "span A n f off" and "c \<longrightarrow> n \<ge> 1"
  shows "reads (ReadByte D c A n) (if c then 1 else 0) A n f off"
proof (cases c)
  case True
  with assms have "span A 1 f off" by (auto simp: span_def)
  from read8 [OF this] show ?thesis
    using True assms bytes_at_widths(1) [simplified]
    by (force simp: reads_def ReadByte_def run_state_bind)
qed (use reads_none in \<open>simp add: ReadByte_def\<close>)

lemma word_bytes:
  "le_bytes 2 (ucast (ucast (le_word 2 p off) :: u16)) = bytes_at p off 2"
proof -
  have "ucast (ucast (le_word 2 p off) :: u16) = le_word 2 p off"
    by (rule bit_word_eqI) (auto simp: le_word_def bit_simps dest: bit_u8)
  then show ?thesis using le_word_bytes [of 2] by simp
qed

lemma reads_word:
  assumes "span A n f off" and "c \<longrightarrow> n \<ge> 2"
  shows "reads (ReadWord D c A n) (if c then 2 else 0) A n f off"
proof (cases c)
  case True
  with assms have "span A 2 f off" by (auto simp: span_def)
  from read16 [OF this] show ?thesis
    using True assms by (force simp: reads_def ReadWord_def run_state_bind word_bytes)
qed (use reads_none in \<open>simp add: ReadWord_def\<close>)

lemma reads_dwords:
  "E = D \<Longrightarrow> span A n f off \<Longrightarrow> reads (ReadDwords E A n) (n div 4 * 4) A n f off"
proof (induction E A n arbitrary: off rule: ReadDwords.induct)
  case (1 E A n)
  show ?case
  proof (cases "n \<ge> 4")
    case True
    have sp: "span A 4 f off" using "1.prems"(2) True by (auto simp: span_def)
    have nx: "span (A + 4) (n - 4) f (off + 4)" using span_step [OF "1.prems"(2) True] by simp
    have ih: "reads (ReadDwords D (A + 4) (n - 4)) ((n - 4) div 4 * 4) (A + 4) (n - 4) f (off + 4)"
      using "1.IH" [OF True "1.prems"(1) nx] "1.prems"(1) by simp
    have q: "n div 4 * 4 = 4 + (n - 4) div 4 * 4" using True by (simp add: le_div_geq)
    have *: "\<exists>g'. space (SegIo g') = space (SegIo g) \<and> (SegLock g' \<longrightarrow> SegLock g) \<and>
      run_state (ReadDwords D A n) g = ((bytes_at (at g f) off (n div 4 * 4), A + of_nat (n div 4 * 4),
        n - n div 4 * 4), g')" for g
    proof -
      obtain g1 where g1: "run_state (PciSegmentRead32 D A) g = (le_word 4 (at g f) off, g1)"
        "space (SegIo g1) = space (SegIo g)" "\<not> SegLock g1"
        using read32 [OF sp] by blast
      obtain g2 where g2: "space (SegIo g2) = space (SegIo g1)" "SegLock g2 \<longrightarrow> SegLock g1"
        "run_state (ReadDwords D (A + 4) (n - 4)) g1 = ((bytes_at (at g1 f) (off + 4) ((n - 4) div 4 * 4),
          A + 4 + of_nat ((n - 4) div 4 * 4), n - 4 - (n - 4) div 4 * 4), g2)"
        using ih unfolding reads_def by blast
      have "run_state (ReadDwords D A n) g = ((bytes_at (at g f) off 4 @
          bytes_at (at g f) (off + 4) ((n - 4) div 4 * 4), A + 4 + of_nat ((n - 4) div 4 * 4),
          n - 4 - (n - 4) div 4 * 4), g2)"
        using True g1 g2 le_word_bytes [of 4] by (simp add: ReadDwords.simps [of D A n] run_state_bind)
      then show ?thesis using g1 g2 by (auto simp: q bytes_at_add [symmetric] add.assoc)
    qed
    then show ?thesis using "1.prems"(1) by (simp add: reads_def)
  next
    case False
    then have "ReadDwords E A n = State_Monad.return ([], A, n)" by (simp add: ReadDwords.simps)
    then show ?thesis using False by (simp add: reads_none)
  qed
qed

lemma readsE:
  assumes "reads m k A n f off"
  obtains g' where "space (SegIo g') = space (SegIo g)" "SegLock g' \<longrightarrow> SegLock g"
    "run_state m g = ((bytes_at (at g f) off k, A + of_nat k, n - k), g')"
  using assms by (auto simp: reads_def)

lemma read_buffer:
  assumes "span A n f off"
  shows "\<exists>g'. run_state (PciSegmentReadBuffer D A n) g = ((n, bytes_at (at g f) off n), g') \<and>
    space (SegIo g') = space (SegIo g) \<and> (SegLock g' \<longrightarrow> SegLock g)"
proof (cases "n = 0")
  case True
  then show ?thesis by (simp add: PciSegmentReadBuffer_def bytes_at_0)
next
  case False
  define k1 where "k1 = (if A AND 1 \<noteq> 0 then 1 else 0 :: nat)"
  define A1 n1 o1 where "A1 = A + of_nat k1" and "n1 = n - k1" and "o1 = off + k1"
  define k2 where "k2 = (if n1 \<ge> 2 \<and> A1 AND 2 \<noteq> 0 then 2 else 0 :: nat)"
  define A2 n2 o2 where "A2 = A1 + of_nat k2" and "n2 = n1 - k2" and "o2 = o1 + k2"
  define k3 where "k3 = n2 div 4 * 4"
  define A3 n3 o3 where "A3 = A2 + of_nat k3" and "n3 = n2 - k3" and "o3 = o2 + k3"
  define k4 where "k4 = (if n3 \<ge> 2 then 2 else 0 :: nat)"
  define A4 n4 o4 where "A4 = A3 + of_nat k4" and "n4 = n3 - k4" and "o4 = o3 + k4"
  define k5 where "k5 = (if n4 \<ge> 1 then 1 else 0 :: nat)"
  have le: "k1 \<le> n" "k2 \<le> n1" "k3 \<le> n2" "k4 \<le> n3" "k5 \<le> n4"
    using False by (auto simp: k1_def k2_def k3_def k4_def k5_def)
  have "n3 < 4" by (simp add: n3_def k3_def)
  then have "n4 < 2" by (auto simp: n4_def k4_def)
  then have all: "n4 = k5" by (auto simp: k5_def)
  have s1: "span A1 n1 f o1" unfolding A1_def n1_def o1_def using span_step [OF assms le(1)] .
  have s2: "span A2 n2 f o2" unfolding A2_def n2_def o2_def using span_step [OF s1 le(2)] .
  have s3: "span A3 n3 f o3" unfolding A3_def n3_def o3_def using span_step [OF s2 le(3)] .
  have s4: "span A4 n4 f o4" unfolding A4_def n4_def o4_def using span_step [OF s3 le(4)] .
  obtain g1 where g1: "space (SegIo g1) = space (SegIo g)" "SegLock g1 \<longrightarrow> SegLock g"
    "run_state (ReadByte D (A AND 1 \<noteq> 0) A n) g = ((bytes_at (at g f) off k1, A1, n1), g1)"
    using reads_byte [OF assms, of "A AND 1 \<noteq> 0"] False unfolding k1_def A1_def n1_def by (auto elim: readsE)
  obtain g2 where g2: "space (SegIo g2) = space (SegIo g1)" "SegLock g2 \<longrightarrow> SegLock g1"
    "run_state (ReadWord D (n1 \<ge> 2 \<and> A1 AND 2 \<noteq> 0) A1 n1) g1 = ((bytes_at (at g1 f) o1 k2, A2, n2), g2)"
    using reads_word [OF s1, of "n1 \<ge> 2 \<and> A1 AND 2 \<noteq> 0"] unfolding k2_def A2_def n2_def by (auto elim: readsE)
  have r3: "reads (ReadDwords D A2 n2) k3 A2 n2 f o2" unfolding k3_def by (rule reads_dwords [OF refl s2])
  obtain g3 where g3: "space (SegIo g3) = space (SegIo g2)" "SegLock g3 \<longrightarrow> SegLock g2"
    "run_state (ReadDwords D A2 n2) g2 = ((bytes_at (at g2 f) o2 k3, A3, n3), g3)"
    using readsE [OF r3, of g2, folded A3_def n3_def] by blast
  obtain g4 where g4: "space (SegIo g4) = space (SegIo g3)" "SegLock g4 \<longrightarrow> SegLock g3"
    "run_state (ReadWord D (n3 \<ge> 2) A3 n3) g3 = ((bytes_at (at g3 f) o3 k4, A4, n4), g4)"
    using reads_word [OF s3, of "n3 \<ge> 2"] unfolding k4_def A4_def n4_def by (auto elim: readsE)
  obtain g5 r where g5: "space (SegIo g5) = space (SegIo g4)" "SegLock g5 \<longrightarrow> SegLock g4"
    "run_state (ReadByte D (n4 \<ge> 1) A4 n4) g4 = ((bytes_at (at g4 f) o4 k5, r), g5)"
    using readsE [OF reads_byte [OF s4, of "n4 \<ge> 1", folded k5_def], of g4] by blast
  have n: "n = k1 + (k2 + (k3 + (k4 + k5)))"
    using le all by (simp add: n1_def n2_def n3_def n4_def)
  have "bytes_at p off k1 @ bytes_at p o1 k2 @ bytes_at p o2 k3 @ bytes_at p o3 k4 @ bytes_at p o4 k5 =
      bytes_at p off n" for p
    unfolding n by (simp only: bytes_at_add o1_def o2_def o3_def o4_def)
  then have "run_state (PciSegmentReadBuffer D A n) g = ((n, bytes_at (at g f) off n), g5)"
    using False g1 g2 g3 g4 g5
    by (simp add: PciSegmentReadBuffer_def run_state_bind case_prod_unfold)
  then show ?thesis using g1 g2 g3 g4 g5 by auto
qed

text \<open>A piece of a buffer write, likewise.\<close>

definition writes ::
  "('s pciseg, u64 \<times> nat \<times> nat) state \<Rightarrow> nat \<Rightarrow> buf \<Rightarrow> u64 \<Rightarrow> nat \<Rightarrow> nat \<Rightarrow> nat \<times> u32 \<Rightarrow> nat \<Rightarrow> bool" where
  "writes m k B A n b f off = (k \<le> n \<and> (\<forall>g. \<exists>g'. (SegLock g' \<longrightarrow> SegLock g) \<and>
     space (SegIo g') = put (space (SegIo g)) f off (bytes_at B b k) \<and>
     run_state m g = ((A + of_nat k, n - k, b + k), g')))"

lemma writesE:
  assumes "writes m k B A n b f off"
  obtains g' where "SegLock g' \<longrightarrow> SegLock g"
    "space (SegIo g') = put (space (SegIo g)) f off (bytes_at B b k)"
    "run_state m g = ((A + of_nat k, n - k, b + k), g')"
  using assms by (auto simp: writes_def)

lemma writes_none: "writes (State_Monad.return (A, n, b)) 0 B A n b f off"
  by (auto simp: writes_def bytes_at_0 put_Nil)

lemma writes_byte:
  assumes "span A n f off" and "c \<longrightarrow> n \<ge> 1"
  shows "writes (WriteByte D c B A n b) (if c then 1 else 0) B A n b f off"
proof (cases c)
  case True
  with assms have sp: "span A 1 f off" by (auto simp: span_def)
  have "\<exists>g'. run_state (WriteByte D c B A n b) g = ((A + of_nat 1, n - 1, b + 1), g') \<and>
      space (SegIo g') = put (space (SegIo g)) f off (bytes_at B b 1) \<and> \<not> SegLock g'" for g
    using write8 [OF sp, of "B b" g] True bytes_at_widths(1) [of B b] by (auto simp: WriteByte_def run_state_bind)
  then show ?thesis using True assms(2) unfolding writes_def if_P [OF True] by blast
qed (use writes_none in \<open>simp add: WriteByte_def\<close>)

lemma writes_word:
  assumes "span A n f off" and "c \<longrightarrow> n \<ge> 2"
  shows "writes (WriteWord D c B A n b) (if c then 2 else 0) B A n b f off"
proof (cases c)
  case True
  with assms have sp: "span A 2 f off" by (auto simp: span_def)
  have "\<exists>g'. run_state (WriteWord D c B A n b) g = ((A + of_nat 2, n - 2, b + 2), g') \<and>
      space (SegIo g') = put (space (SegIo g)) f off (bytes_at B b 2) \<and> \<not> SegLock g'" for g
    using write16 [OF sp, of "ucast (le_word 2 B b)" g] True word_bytes [of B b] by (auto simp: WriteWord_def run_state_bind)
  then show ?thesis using True assms(2) unfolding writes_def if_P [OF True] by blast
qed (use writes_none in \<open>simp add: WriteWord_def\<close>)

lemma put_bytes_at: "put (put sp f off (bytes_at B b k)) f (off + k) (bytes_at B (b + k) l) =
    put sp f off (bytes_at B b (k + l))"
  using put_append [of sp f off "bytes_at B b k"] by (simp add: bytes_at_add)

lemma writes_dwords:
  "E = D \<Longrightarrow> span A n f off \<Longrightarrow> writes (WriteDwords E B A n b) (n div 4 * 4) B A n b f off"
proof (induction E B A n b arbitrary: off rule: WriteDwords.induct)
  case (1 E B A n b)
  show ?case
  proof (cases "n \<ge> 4")
    case True
    have sp: "span A 4 f off" using "1.prems"(2) True by (auto simp: span_def)
    have nx: "span (A + 4) (n - 4) f (off + 4)" using span_step [OF "1.prems"(2) True] by simp
    have ih: "writes (WriteDwords D B (A + 4) (n - 4) (b + 4)) ((n - 4) div 4 * 4) B (A + 4) (n - 4) (b + 4) f (off + 4)"
      using "1.IH" [OF True "1.prems"(1) nx] "1.prems"(1) by simp
    have q: "n div 4 * 4 = 4 + (n - 4) div 4 * 4" using True by (simp add: le_div_geq)
    have *: "\<exists>g'. (SegLock g' \<longrightarrow> SegLock g) \<and>
      space (SegIo g') = put (space (SegIo g)) f off (bytes_at B b (n div 4 * 4)) \<and>
      run_state (WriteDwords D B A n b) g = ((A + of_nat (n div 4 * 4), n - n div 4 * 4, b + n div 4 * 4), g')" for g
    proof -
      obtain g1 where g1: "run_state (PciSegmentWrite32 D A (le_word 4 B b)) g = (le_word 4 B b, g1)"
        "space (SegIo g1) = put (space (SegIo g)) f off (bytes_at B b 4)" "\<not> SegLock g1"
        using write32 [OF sp, of "le_word 4 B b" g] le_word_bytes [of 4 B b] by auto
      obtain g2 where g2: "SegLock g2 \<longrightarrow> SegLock g1"
        "space (SegIo g2) = put (space (SegIo g1)) f (off + 4) (bytes_at B (b + 4) ((n - 4) div 4 * 4))"
        "run_state (WriteDwords D B (A + 4) (n - 4) (b + 4)) g1 = ((A + 4 + of_nat ((n - 4) div 4 * 4),
          n - 4 - (n - 4) div 4 * 4, b + 4 + (n - 4) div 4 * 4), g2)"
        using writesE [OF ih, of g1] by blast
      have "run_state (WriteDwords D B A n b) g = ((A + 4 + of_nat ((n - 4) div 4 * 4),
          n - 4 - (n - 4) div 4 * 4, b + 4 + (n - 4) div 4 * 4), g2)"
        using True g1 g2 by (simp add: WriteDwords.simps [of D B A n b] run_state_bind)
      then show ?thesis using g1 g2 by (auto simp: q put_bytes_at add.assoc)
    qed
    then show ?thesis using "1.prems"(1) by (simp add: writes_def)
  next
    case False
    then have "WriteDwords E B A n b = State_Monad.return (A, n, b)" by (simp add: WriteDwords.simps)
    then show ?thesis using False by (simp add: writes_none)
  qed
qed

lemma write_buffer:
  assumes "span A n f off"
  shows "\<exists>g'. run_state (PciSegmentWriteBuffer D A n B) g = (n, g') \<and>
    space (SegIo g') = put (space (SegIo g)) f off (bytes_at B 0 n) \<and> (SegLock g' \<longrightarrow> SegLock g)"
proof (cases "n = 0")
  case True
  then show ?thesis by (simp add: PciSegmentWriteBuffer_def bytes_at_0 put_Nil)
next
  case False
  define k1 where "k1 = (if A AND 1 \<noteq> 0 then 1 else 0 :: nat)"
  define A1 n1 where "A1 = A + of_nat k1" and "n1 = n - k1"
  define k2 where "k2 = (if n1 \<ge> 2 \<and> A1 AND 2 \<noteq> 0 then 2 else 0 :: nat)"
  define A2 n2 where "A2 = A1 + of_nat k2" and "n2 = n1 - k2"
  define k3 where "k3 = n2 div 4 * 4"
  define A3 n3 where "A3 = A2 + of_nat k3" and "n3 = n2 - k3"
  define k4 where "k4 = (if n3 \<ge> 2 then 2 else 0 :: nat)"
  define A4 n4 where "A4 = A3 + of_nat k4" and "n4 = n3 - k4"
  define k5 where "k5 = (if n4 \<ge> 1 then 1 else 0 :: nat)"
  have le: "k1 \<le> n" "k2 \<le> n1" "k3 \<le> n2" "k4 \<le> n3" "k5 \<le> n4"
    using False by (auto simp: k1_def k2_def k3_def k4_def k5_def)
  have "n3 < 4" by (simp add: n3_def k3_def)
  then have "n4 < 2" by (auto simp: n4_def k4_def)
  then have all: "n4 = k5" by (auto simp: k5_def)
  have s1: "span A1 n1 f (off + k1)" unfolding A1_def n1_def using span_step [OF assms le(1)] .
  have s2: "span A2 n2 f (off + k1 + k2)" unfolding A2_def n2_def using span_step [OF s1 le(2)] .
  have s3: "span A3 n3 f (off + k1 + k2 + k3)" unfolding A3_def n3_def using span_step [OF s2 le(3)] .
  have s4: "span A4 n4 f (off + k1 + k2 + k3 + k4)" unfolding A4_def n4_def using span_step [OF s3 le(4)] .
  have w1: "writes (WriteByte D (A AND 1 \<noteq> 0) B A n 0) k1 B A n 0 f off"
    unfolding k1_def using False by (intro writes_byte [OF assms]) simp
  have w2: "writes (WriteWord D (n1 \<ge> 2 \<and> A1 AND 2 \<noteq> 0) B A1 n1 k1) k2 B A1 n1 k1 f (off + k1)"
    unfolding k2_def by (intro writes_word [OF s1]) simp
  have w3: "writes (WriteDwords D B A2 n2 (k1 + k2)) k3 B A2 n2 (k1 + k2) f (off + k1 + k2)"
    unfolding k3_def by (rule writes_dwords [OF refl s2])
  have w4: "writes (WriteWord D (n3 \<ge> 2) B A3 n3 (k1 + k2 + k3)) k4 B A3 n3 (k1 + k2 + k3) f (off + k1 + k2 + k3)"
    unfolding k4_def by (intro writes_word [OF s3]) simp
  have w5: "writes (WriteByte D (n4 \<ge> 1) B A4 n4 (k1 + k2 + k3 + k4)) k5 B A4 n4 (k1 + k2 + k3 + k4) f
      (off + k1 + k2 + k3 + k4)"
    unfolding k5_def by (intro writes_byte [OF s4]) simp
  obtain g1 where g1: "SegLock g1 \<longrightarrow> SegLock g" "space (SegIo g1) = put (space (SegIo g)) f off (bytes_at B 0 k1)"
    "run_state (WriteByte D (A AND 1 \<noteq> 0) B A n 0) g = ((A1, n1, k1), g1)"
    using writesE [OF w1, of g, folded A1_def n1_def] by auto
  obtain g2 where g2: "SegLock g2 \<longrightarrow> SegLock g1"
    "space (SegIo g2) = put (space (SegIo g1)) f (off + k1) (bytes_at B k1 k2)"
    "run_state (WriteWord D (n1 \<ge> 2 \<and> A1 AND 2 \<noteq> 0) B A1 n1 k1) g1 = ((A2, n2, k1 + k2), g2)"
    using writesE [OF w2, of g1, folded A2_def n2_def] by blast
  obtain g3 where g3: "SegLock g3 \<longrightarrow> SegLock g2"
    "space (SegIo g3) = put (space (SegIo g2)) f (off + k1 + k2) (bytes_at B (k1 + k2) k3)"
    "run_state (WriteDwords D B A2 n2 (k1 + k2)) g2 = ((A3, n3, k1 + k2 + k3), g3)"
    using writesE [OF w3, of g2, folded A3_def n3_def] by blast
  obtain g4 where g4: "SegLock g4 \<longrightarrow> SegLock g3"
    "space (SegIo g4) = put (space (SegIo g3)) f (off + k1 + k2 + k3) (bytes_at B (k1 + k2 + k3) k4)"
    "run_state (WriteWord D (n3 \<ge> 2) B A3 n3 (k1 + k2 + k3)) g3 = ((A4, n4, k1 + k2 + k3 + k4), g4)"
    using writesE [OF w4, of g3, folded A4_def n4_def] by blast
  obtain g5 r where g5: "SegLock g5 \<longrightarrow> SegLock g4"
    "space (SegIo g5) = put (space (SegIo g4)) f (off + k1 + k2 + k3 + k4) (bytes_at B (k1 + k2 + k3 + k4) k5)"
    "run_state (WriteByte D (n4 \<ge> 1) B A4 n4 (k1 + k2 + k3 + k4)) g4 = (r, g5)"
    using writesE [OF w5, of g4] by blast
  have n: "n = k1 + k2 + k3 + k4 + k5"
    using le all by (simp add: n1_def n2_def n3_def n4_def)
  have "run_state (PciSegmentWriteBuffer D A n B) g = (n, g5)"
    using False g1(3) g2(3) g3(3) g4(3) g5(3)
    by (simp add: PciSegmentWriteBuffer_def run_state_bind case_prod_unfold)
  moreover have "space (SegIo g5) = put (space (SegIo g)) f off (bytes_at B 0 n)"
    unfolding g5(2) g4(2) g3(2) g2(2) g1(2)
    using put_bytes_at [of _ f off B 0 k1 k2] put_bytes_at [of _ f off B 0 "k1 + k2" k3]
      put_bytes_at [of _ f off B 0 "k1 + k2 + k3" k4] put_bytes_at [of _ f off B 0 "k1 + k2 + k3 + k4" k5]
    by (simp add: n ac_simps)
  ultimately show ?thesis using g1 g2 g3 g4 g5 by auto
qed

end

subsection \<open>The register blocks in the physical address space\<close>

text \<open>
  Three PCIe register blocks of 64 KiB in a physical memory: each holds the root port's
  configuration space, the index register and the window on the function it selects; every
  other address is plain memory.
\<close>

record pci_hw =
  hw_index :: "nat \<Rightarrow> u32"
  hw_space :: "nat \<Rightarrow> u32 \<Rightarrow> buf"
  hw_mem :: "u64 \<Rightarrow> u8"

definition block_of :: "u64 \<Rightarrow> nat option" where
  "block_of a = find (\<lambda>i. unat (a - mPcieRcBaseAddresses ! i) < 0x10000) [0, 1, 2]"

definition pci_loc :: "pci_hw \<Rightarrow> u64 \<Rightarrow> (nat \<times> u32 \<times> nat) option" where
  "pci_loc h a =
     (case block_of a of
        None \<Rightarrow> None
      | Some i \<Rightarrow>
         (let off = unat (a - mPcieRcBaseAddresses ! i) in
          if off < 4096 then Some (i, 0, off)
          else if 0x8000 \<le> off \<and> off < 0x9000 then Some (i, hw_index h i, off - 0x8000)
          else None))"

definition get_byte :: "pci_hw \<Rightarrow> u64 \<Rightarrow> u8" where
  "get_byte h a = (case pci_loc h a of Some (i, b, off) \<Rightarrow> hw_space h i b off | None \<Rightarrow> hw_mem h a)"

definition put_byte :: "u64 \<Rightarrow> u8 \<Rightarrow> pci_hw \<Rightarrow> pci_hw" where
  "put_byte a x h =
     (case pci_loc h a of
        Some (i, b, off) \<Rightarrow> h\<lparr>hw_space := put (hw_space h) (i, b) off [x]\<rparr>
      | None \<Rightarrow> h\<lparr>hw_mem := (hw_mem h)(a := x)\<rparr>)"

fun put_bytes :: "u64 \<Rightarrow> u8 list \<Rightarrow> pci_hw \<Rightarrow> pci_hw" where
  "put_bytes a [] h = h"
| "put_bytes a (x # xs) h = put_bytes (a + 1) xs (put_byte a x h)"

definition index_of :: "u64 \<Rightarrow> nat option" where
  "index_of a = find (\<lambda>i. a = mPcieRcBaseAddresses ! i + PCIE_EXT_CFG_INDEX) [0, 1, 2]"

definition pci_dev :: "pci_hw memdev" where
  "pci_dev =
     \<lparr>md_rd = (\<lambda>n a h. (le_word n (\<lambda>k. get_byte h (a + of_nat k)) 0, h)),
      md_wr = (\<lambda>n a v h.
        case (if n = 4 then index_of a else None) of
          Some i \<Rightarrow> h\<lparr>hw_index := (hw_index h)(i := v)\<rparr>
        | None \<Rightarrow> put_bytes a (le_bytes n v) h)\<rparr>"

lemmas pci_bases = mPcieRcBaseAddresses_def BCM2712_BRCMSTB_PCIE0_BASE_def
  BCM2712_BRCMSTB_PCIE1_BASE_def BCM2712_BRCMSTB_PCIE2_BASE_def PCIE_EXT_CFG_DATA_def
  PCIE_EXT_CFG_INDEX_def

lemma below3: "(i :: nat) < 3 \<longleftrightarrow> i = 0 \<or> i = 1 \<or> i = 2"
  by auto

lemma u64_diff:
  fixes a b :: u64
  assumes "unat b \<le> unat a"
  shows "unat (a - b) = unat a - unat b"
  using assms by (simp add: unat_sub word_le_nat_alt)

lemma block_of_base:
  assumes "i < 3" and "r < 0x10000"
  shows "block_of (mPcieRcBaseAddresses ! i + of_nat r) = Some i"
    "unat (mPcieRcBaseAddresses ! i + of_nat r - mPcieRcBaseAddresses ! i) = r"
proof -
  have r: "unat (of_nat r :: u64) = r" using assms(2) by (simp add: unat_of_nat take_bit_nat_eq_self)
  then show "unat (mPcieRcBaseAddresses ! i + of_nat r - mPcieRcBaseAddresses ! i) = r" by simp
  have u: "unat (mPcieRcBaseAddresses ! j + of_nat r) = unat (mPcieRcBaseAddresses ! j) + r" if "j < 3" for j
    using that assms(2) r by (auto simp: below3 pci_bases unat_word_ariths)
  have b: "unat (mPcieRcBaseAddresses ! 0) = 0x1000100000" "unat (mPcieRcBaseAddresses ! 1) = 0x1000110000"
    "unat (mPcieRcBaseAddresses ! 2) = 0x1000120000"
    by (simp_all add: pci_bases)
  have less: "\<not> unat (mPcieRcBaseAddresses ! i + of_nat r - mPcieRcBaseAddresses ! j) < 0x10000"
    if "j < i" for j
  proof -
    have j: "j < 3" using that assms(1) by simp
    have "unat (mPcieRcBaseAddresses ! j) + 0x10000 \<le> unat (mPcieRcBaseAddresses ! i)"
    proof -
      have "i = 1 \<and> j = 0 \<or> i = 2 \<and> j = 0 \<or> i = 2 \<and> j = 1" using that assms(1) by linarith
      then show ?thesis using b by auto
    qed
    then show ?thesis using u [OF assms(1)] by (simp add: u64_diff)
  qed
  show "block_of (mPcieRcBaseAddresses ! i + of_nat r) = Some i"
    using assms less [of 0] less [of 1] r by (auto simp: below3 block_of_def)
qed

lemma loc_root: "i < 3 \<Longrightarrow> off < 4096 \<Longrightarrow> pci_loc h (mPcieRcBaseAddresses ! i + of_nat off) = Some (i, 0, off)"
  using block_of_base [of i off] by (simp add: pci_loc_def Let_def)

lemma window_addr: "a + PCIE_EXT_CFG_DATA + of_nat off = a + of_nat (0x8000 + off)"
  by (simp add: PCIE_EXT_CFG_DATA_def)

lemma loc_window: "i < 3 \<Longrightarrow> off < 4096 \<Longrightarrow>
  pci_loc h (mPcieRcBaseAddresses ! i + PCIE_EXT_CFG_DATA + of_nat off) = Some (i, hw_index h i, off)"
  unfolding window_addr using block_of_base [where i = i and r = "0x8000 + off"] by (simp add: pci_loc_def Let_def)

lemma not_index: "pci_loc h a = Some x \<Longrightarrow> index_of a = None"
proof -
  have "pci_loc h (mPcieRcBaseAddresses ! i + PCIE_EXT_CFG_INDEX) = None" if "i < 3" for i
    using block_of_base [OF that, of "0x9000"] by (simp add: pci_loc_def Let_def PCIE_EXT_CFG_INDEX_def)
  then show "pci_loc h a = Some x \<Longrightarrow> index_of a = None"
    by (auto simp: index_of_def split: if_splits)
qed

lemma put_bytes_loc:
  assumes "\<And>k h'. k < length xs \<Longrightarrow> hw_index h' = hw_index h \<Longrightarrow>
    pci_loc h' (a + of_nat k) = Some (fst f, snd f, off + k)"
  shows "put_bytes a xs h = h\<lparr>hw_space := put (hw_space h) f off xs\<rparr>"
  using assms
proof (induction xs arbitrary: a off h)
  case Nil
  then show ?case by (simp add: put_Nil)
next
  case (Cons x xs)
  have b: "put_byte a x h = h\<lparr>hw_space := put (hw_space h) f off [x]\<rparr>"
    using Cons.prems [where k = 0 and h' = h] by (simp add: put_byte_def)
  have "put_bytes (a + 1) xs (put_byte a x h) =
      (put_byte a x h)\<lparr>hw_space := put (hw_space (put_byte a x h)) f (off + 1) xs\<rparr>"
  proof (rule Cons.IH)
    fix k and h' :: pci_hw
    assume "k < length xs" and "hw_index h' = hw_index (put_byte a x h)"
    then show "pci_loc h' (a + 1 + of_nat k) = Some (fst f, snd f, off + 1 + k)"
      using Cons.prems [where k = "Suc k" and h' = h'] by (simp add: b add.assoc)
  qed
  then show ?case using put_append [of "hw_space h" f off "[x]" xs] by (simp add: b)
qed

lemma get_bytes_loc:
  assumes "n \<in> {1, 2, 4}" and "\<And>k. k < n \<Longrightarrow> pci_loc h (a + of_nat k) = Some (fst f, snd f, off + k)"
  shows "le_word n (\<lambda>k. get_byte h (a + of_nat k)) 0 = le_word n (hw_space h (fst f) (snd f)) off"
  using assms(1) assms(2) [of 0] assms(2) [of 1] assms(2) [of 2] assms(2) [of 3]
  by (auto simp: le_word_def Le32_def get_byte_def)

lemma length_le_bytes [simp]: "length (le_bytes n v) = n"
  by (simp add: le_bytes_def)

interpretation ecam: cfg_port pci_dev hw_space hw_index
proof
  fix i n off and v :: u32 and s s' :: pci_hw
  assume i: "(i :: nat) < 3"
  show "hw_space s' = hw_space s \<and> hw_index s' i = v"
    if "s' = md_wr pci_dev 4 (mPcieRcBaseAddresses ! i + PCIE_EXT_CFG_INDEX) v s"
  proof -
    have "index_of (mPcieRcBaseAddresses ! i + PCIE_EXT_CFG_INDEX) = Some i"
      using i by (auto simp: below3 index_of_def pci_bases)
    then show ?thesis using that by (simp add: pci_dev_def)
  qed
  assume n: "n \<in> {1, 2, 4 :: nat}" and off: "off + n \<le> 4096"
  have root: "pci_loc h (mPcieRcBaseAddresses ! i + of_nat off + of_nat k) = Some (i, 0, off + k)"
    if "k < n" for k h
    using loc_root [OF i, of "off + k" h] that off by (simp add: add.assoc)
  have win: "pci_loc h (mPcieRcBaseAddresses ! i + PCIE_EXT_CFG_DATA + of_nat off + of_nat k) =
      Some (i, hw_index h i, off + k)" if "k < n" for k h
    using loc_window [OF i, of "off + k" h] that off by (simp add: add.assoc)
  have n0: "0 < n" using n by auto
  show "md_rd pci_dev n (mPcieRcBaseAddresses ! i + of_nat off) s = (le_word n (hw_space s i 0) off, s)"
    using get_bytes_loc [OF n, of s _ "(i, 0)" off, simplified fst_conv snd_conv, OF root]
    by (simp add: pci_dev_def)
  show "md_rd pci_dev n (mPcieRcBaseAddresses ! i + PCIE_EXT_CFG_DATA + of_nat off) s =
      (le_word n (hw_space s i (hw_index s i)) off, s)"
    using get_bytes_loc [OF n, of s _ "(i, hw_index s i)" off, simplified fst_conv snd_conv, OF win]
    by (simp add: pci_dev_def)
  show "hw_space (md_wr pci_dev n (mPcieRcBaseAddresses ! i + of_nat off) v s) =
      put (hw_space s) (i, 0) off (le_bytes n v)"
    using put_bytes_loc [of "le_bytes n v" s _ "(i, 0)" off, simplified fst_conv snd_conv length_le_bytes, OF root]
      not_index [OF root [of 0]] n0 by (cases "n = 4") (simp_all add: pci_dev_def)
  show "hw_space (md_wr pci_dev n (mPcieRcBaseAddresses ! i + PCIE_EXT_CFG_DATA + of_nat off) v s) =
      put (hw_space s) (i, hw_index s i) off (le_bytes n v)"
    using put_bytes_loc [of "le_bytes n v" s "mPcieRcBaseAddresses ! i + PCIE_EXT_CFG_DATA + of_nat off"
        "(i, hw_index s i)" off, simplified fst_conv snd_conv length_le_bytes] win
      not_index [OF win [of 0]] n0 by (cases "n = 4") (simp_all add: pci_dev_def)
qed

lemma config_invalid:
  assumes "cfg_fun A = None"
  shows "run_state (PciSegmentLibGetConfigBase D A) g = (PCI_INVALID_ADDRESS, g)"
  using assms
  by (auto simp: PciSegmentLibGetConfigBase_def cfg_fun_def Let_def mPcieRcBaseAddresses_def word_gt_0 split: if_splits)

subsection \<open>What the accesses do\<close>


definition pci0 :: "pci_hw pciseg" where
  "pci0 = \<lparr>SegLock = False, SegIo = \<lparr>hw_index = (\<lambda>i. 0), hw_space = (\<lambda>i b k. of_nat k), hw_mem = (\<lambda>a. 0)\<rparr>\<rparr>"


text \<open>
  Read-modify-write. At every width, an and-then-or of a function that can exist returns the
  modified value and replaces exactly the bytes it addresses, in little-endian order, whatever
  the window pointed to before.
\<close>

theorem pci_and_then_or_exact:
  fixes g :: "pci_hw pciseg"
  assumes "cfg_fun A = Some f" and "cfg_reg A + 4 \<le> 4096"
  defines "sp \<equiv> hw_space (SegIo g)"
  defines "old \<equiv> \<lambda>n. le_word n (sp (fst f) (snd f)) (cfg_reg A)"
  shows "(case run_state (PciSegmentAndThenOr8 pci_dev A a8 o8) g of (v, g') \<Rightarrow>
       v = (ucast (old 1) AND a8) OR o8 \<and> hw_space (SegIo g') = put sp f (cfg_reg A) [v]) \<and>
     (case run_state (PciSegmentAndThenOr16 pci_dev A a16 o16) g of (v, g') \<Rightarrow>
       v = (ucast (old 2) AND a16) OR o16 \<and> hw_space (SegIo g') = put sp f (cfg_reg A) (le_bytes 2 (ucast v))) \<and>
     (case run_state (PciSegmentAndThenOr32 pci_dev A a32 o32) g of (v, g') \<Rightarrow>
       v = (old 4 AND a32) OR o32 \<and> hw_space (SegIo g') = put sp f (cfg_reg A) (le_bytes 4 v))"
proof -
  have sp: "span A n f (cfg_reg A)" if "n \<le> 4" for n using assms(1,2) that by (simp add: span_def)
  have o1: "ucast (old 1) = sp (fst f) (snd f) (cfg_reg A)"
    by (simp add: old_def le_word_def ucast_byte)
  have "\<exists>g'. run_state (PciSegmentAndThenOr8 pci_dev A a8 o8) g = ((ucast (old 1) AND a8) OR o8, g') \<and>
      hw_space (SegIo g') = put sp f (cfg_reg A) [(ucast (old 1) AND a8) OR o8]"
    using ecam.read8 [OF sp [of 1], of g] ecam.write8 [OF sp [of 1], of "(ucast (old 1) AND a8) OR o8"]
    unfolding PciSegmentAndThenOr8_def rmw8_def o1 sp_def by (fastforce simp: run_state_bind)
  moreover have "\<exists>g'. run_state (PciSegmentAndThenOr16 pci_dev A a16 o16) g = ((ucast (old 2) AND a16) OR o16, g') \<and>
      hw_space (SegIo g') = put sp f (cfg_reg A) (le_bytes 2 (ucast ((ucast (old 2) AND a16) OR o16)))"
    using ecam.read16 [OF sp [of 2], of g] ecam.write16 [OF sp [of 2], of "(ucast (old 2) AND a16) OR o16"]
    unfolding PciSegmentAndThenOr16_def rmw16_def old_def sp_def by (fastforce simp: run_state_bind)
  moreover have "\<exists>g'. run_state (PciSegmentAndThenOr32 pci_dev A a32 o32) g = ((old 4 AND a32) OR o32, g') \<and>
      hw_space (SegIo g') = put sp f (cfg_reg A) (le_bytes 4 ((old 4 AND a32) OR o32))"
    using ecam.read32 [OF sp [of 4], of g] ecam.write32 [OF sp [of 4], of "(old 4 AND a32) OR o32"]
    unfolding PciSegmentAndThenOr32_def rmw32_def old_def sp_def by (fastforce simp: run_state_bind)
  ultimately show ?thesis by auto
qed

theorem pci_and_then_or_exact_witness:
  "fst (run_state (PciSegmentAndThenOr16 pci_dev 0x200000004 0xFF00 0x0001) pci0) = 0x0501"
proof -
  have "cfg_fun 0x200000004 = Some (2, 0)" "cfg_reg 0x200000004 = 4"
    by (simp_all add: cfg_fun_def GET_SEG_NUM_def GET_BUS_NUM_def GET_DEV_NUM_def GET_FUN_NUM_def cfg_reg_mod)
  then show ?thesis
    using pci_and_then_or_exact [where A = "0x200000004" and g = pci0 and f = "(2, 0)" and ?a16.0 = "0xFF00" and ?o16.0 = 1]
    by (simp add: pci0_def case_prod_unfold le_word_def)
qed

text \<open>
  Functions that cannot exist. An address on an unknown segment, with a device or function on
  the root bus or a second device on bus 1: every read returns all ones and touches no
  register. A write is not refused: it goes to physical address \<^verbatim>\<open>0xFFFFFFFF\<close>, the value that
  marks the address as invalid, whatever the machine has there.
\<close>

theorem pci_absent_function:
  assumes "cfg_fun A = None"
  shows "run_state (PciSegmentRead8 D A) g = (0xFF, g\<lparr>SegLock := False\<rparr>) \<and>
    run_state (PciSegmentRead16 D A) g = (0xFFFF, g\<lparr>SegLock := False\<rparr>) \<and>
    run_state (PciSegmentRead32 D A) g = (0xFFFFFFFF, g\<lparr>SegLock := False\<rparr>) \<and>
    run_state (PciSegmentWrite8 D A v8) g =
      (v8, g\<lparr>SegLock := False, SegIo := md_wr D 1 0xFFFFFFFF (ucast v8) (SegIo g)\<rparr>) \<and>
    run_state (PciSegmentWrite16 D A v16) g =
      (v16, g\<lparr>SegLock := False, SegIo := md_wr D 2 0xFFFFFFFF (ucast v16) (SegIo g)\<rparr>) \<and>
    run_state (PciSegmentWrite32 D A v32) g =
      (v32, g\<lparr>SegLock := False, SegIo := md_wr D 4 0xFFFFFFFF v32 (SegIo g)\<rparr>)"
  by (simp add: PciSegmentRead8_def PciSegmentRead16_def PciSegmentRead32_def PciSegmentWrite8_def
      PciSegmentWrite16_def PciSegmentWrite32_def PciSegmentLibReadWorker_def PciSegmentLibWriteWorker_def
      AcquireLock_def ReleaseLock_def MmioWrite_def run_state_bind io_simps config_invalid [OF assms]
      width_bytes_def ucast_byte)
    (simp add: PCI_INVALID_ADDRESS_def)

theorem pci_absent_function_witness:
  "hw_mem (SegIo (snd (run_state (PciSegmentWrite8 pci_dev 0x108000 0x5A) pci0))) 0xFFFFFFFF = 0x5A"
proof -
  have "cfg_fun 0x108000 = None"
    by (simp add: cfg_fun_def GET_SEG_NUM_def GET_BUS_NUM_def GET_DEV_NUM_def GET_FUN_NUM_def)
  then have "SegIo (snd (run_state (PciSegmentWrite8 pci_dev 0x108000 0x5A) pci0)) =
      md_wr pci_dev 1 0xFFFFFFFF 0x5A (SegIo pci0)"
    using pci_absent_function [where A = "0x108000" and D = pci_dev and g = pci0 and ?v8.0 = "0x5A"] by simp
  then show ?thesis
    by (simp add: pci_dev_def le_bytes_widths(1) [simplified] put_byte_def pci_loc_def block_of_def pci_bases)
qed

end
