(* ===== verification/Pci_Host.thy ===== *)
theory Pci_Host
  imports Gpio_Fields
begin

section \<open>The PCIe root complexes and host bridge (Bcm2712PciHostBridge.c, Bcm2712PciHostBridgeLib.c)\<close>

text \<open>
  Bring-up of a PCIe root complex as a register program, and the table of root bridges that the
  library hands to the PCI host bridge driver. 32-bit registers are those of a device
  \<^verbatim>\<open>'s iodev\<close>, the one 16-bit access is that of an \<^verbatim>\<open>'s iodev16\<close>. \<^verbatim>\<open>HighBitSet64\<close> of \<^verbatim>\<open>BaseLib\<close> is
  the argument \<open>HBS\<close>, the platform protocol is the argument \<open>Plat\<close> (\<open>None\<close> when it is missing)
  and the pool allocator answers its \<open>k\<close>-th request by \<open>A k\<close>. Reads that only feed \<^verbatim>\<open>DEBUG\<close>
  output (the link status, the resource conflict report) are not modelled.
\<close>

record 's iodev16 =
  io_rd16 :: "u64 \<Rightarrow> 's \<Rightarrow> u16 \<times> 's"
  io_wr16 :: "u64 \<Rightarrow> u16 \<Rightarrow> 's \<Rightarrow> 's"

definition MmioAndThenOr16 :: "'s iodev16 \<Rightarrow> u64 \<Rightarrow> u16 \<Rightarrow> u16 \<Rightarrow> ('s, unit) state" where
  "MmioAndThenOr16 E a m v =
     State (\<lambda>s. case io_rd16 E a s of (x, s) \<Rightarrow> ((), io_wr16 E a ((x AND m) OR v) s))"

record pcie_window =
  CpuBase :: u64
  BusBase :: u64
  WinSize :: u64

record pcie_settings =
  Enabled :: bool
  MaxLinkSpeed :: u8
  AspmSupportL0s :: bool
  AspmSupportL1 :: bool
  RcbMatchMps :: bool
  VdmToQosMap :: u32

record pcie_rc =
  Base :: u64
  Inbound :: pcie_window
  Mem32 :: pcie_window
  Mem64 :: pcie_window
  Settings :: pcie_settings

subsection \<open>Registers\<close>

definition BRCM_PCIE_CAP_REGS :: u64 where
  "BRCM_PCIE_CAP_REGS = 0x00ac"
definition PCIE_LINK_CAPABILITIES :: u64 where
  "PCIE_LINK_CAPABILITIES = 0xc"
definition PCIE_LINK_CAPABILITIES_SUPPORTED_LINK_SPEED_MASK :: u32 where
  "PCIE_LINK_CAPABILITIES_SUPPORTED_LINK_SPEED_MASK = 0xf"
definition PCIE_LINK_CONTROL_2 :: u64 where
  "PCIE_LINK_CONTROL_2 = 0x30"
definition PCIE_LINK_CONTROL_2_TARGET_LINK_SPEED_MASK :: u16 where
  "PCIE_LINK_CONTROL_2_TARGET_LINK_SPEED_MASK = 0xf"
definition PCIE_RC_CFG_VENDOR_VENDOR_SPECIFIC_REG1 :: u64 where
  "PCIE_RC_CFG_VENDOR_VENDOR_SPECIFIC_REG1 = 0x0188"
definition PCIE_RC_CFG_VENDOR_VENDOR_SPECIFIC_REG1_ENDIAN_MODE_BAR2_SHIFT :: nat where
  "PCIE_RC_CFG_VENDOR_VENDOR_SPECIFIC_REG1_ENDIAN_MODE_BAR2_SHIFT = 2"
definition PCIE_RC_CFG_VENDOR_VENDOR_SPECIFIC_REG1_ENDIAN_MODE_BAR2_MASK :: u32 where
  "PCIE_RC_CFG_VENDOR_VENDOR_SPECIFIC_REG1_ENDIAN_MODE_BAR2_MASK = push_bit 2 0x3"
definition PCIE_RC_CFG_VENDOR_SPCIFIC_REG1_LITTLE_ENDIAN :: u32 where
  "PCIE_RC_CFG_VENDOR_SPCIFIC_REG1_LITTLE_ENDIAN = 0x0"
definition PCIE_RC_CFG_PRIV1_ID_VAL3 :: u64 where
  "PCIE_RC_CFG_PRIV1_ID_VAL3 = 0x043c"
definition PCIE_RC_CFG_PRIV1_ID_VAL3_CLASS_CODE_MASK :: u32 where
  "PCIE_RC_CFG_PRIV1_ID_VAL3_CLASS_CODE_MASK = 0xffffff"
definition PCIE_RC_CFG_PRIV1_LINK_CAPABILITY :: u64 where
  "PCIE_RC_CFG_PRIV1_LINK_CAPABILITY = 0x04dc"
definition PCIE_RC_CFG_PRIV1_LINK_CAPABILITY_ASPM_SUPPORT_SHIFT :: nat where
  "PCIE_RC_CFG_PRIV1_LINK_CAPABILITY_ASPM_SUPPORT_SHIFT = 10"
definition PCIE_RC_CFG_PRIV1_LINK_CAPABILITY_ASPM_SUPPORT_MASK :: u32 where
  "PCIE_RC_CFG_PRIV1_LINK_CAPABILITY_ASPM_SUPPORT_MASK = push_bit 10 0x3"
definition PCIE_LINK_STATE_L0S :: u32 where
  "PCIE_LINK_STATE_L0S = 0x1"
definition PCIE_LINK_STATE_L1 :: u32 where
  "PCIE_LINK_STATE_L1 = 0x2"
definition PCIE_RC_TL_VDM_CTL0 :: u64 where
  "PCIE_RC_TL_VDM_CTL0 = 0x0a20"
definition PCIE_RC_TL_VDM_CTL0_VDM_ENABLED_MASK :: u32 where
  "PCIE_RC_TL_VDM_CTL0_VDM_ENABLED_MASK = 0x10000"
definition PCIE_RC_TL_VDM_CTL0_VDM_IGNORETAG_MASK :: u32 where
  "PCIE_RC_TL_VDM_CTL0_VDM_IGNORETAG_MASK = 0x20000"
definition PCIE_RC_TL_VDM_CTL0_VDM_IGNOREVNDRID_MASK :: u32 where
  "PCIE_RC_TL_VDM_CTL0_VDM_IGNOREVNDRID_MASK = 0x40000"
definition PCIE_RC_TL_VDM_CTL1 :: u64 where
  "PCIE_RC_TL_VDM_CTL1 = 0x0a0c"
definition PCIE_RC_DL_MDIO_ADDR :: u64 where
  "PCIE_RC_DL_MDIO_ADDR = 0x1100"
definition PCIE_RC_DL_MDIO_CMD_SHIFT :: nat where
  "PCIE_RC_DL_MDIO_CMD_SHIFT = 20"
definition PCIE_RC_DL_MDIO_CMD_READ :: u32 where
  "PCIE_RC_DL_MDIO_CMD_READ = 0x1"
definition PCIE_RC_DL_MDIO_CMD_WRITE :: u32 where
  "PCIE_RC_DL_MDIO_CMD_WRITE = 0x0"
definition PCIE_RC_DL_MDIO_PORT_SHIFT :: nat where
  "PCIE_RC_DL_MDIO_PORT_SHIFT = 16"
definition PCIE_RC_DL_MDIO_REGAD_SHIFT :: nat where
  "PCIE_RC_DL_MDIO_REGAD_SHIFT = 0"
definition PCIE_RC_DL_MDIO_WR_DATA :: u64 where
  "PCIE_RC_DL_MDIO_WR_DATA = 0x1104"
definition PCIE_RC_DL_MDIO_RD_DATA :: u64 where
  "PCIE_RC_DL_MDIO_RD_DATA = 0x1108"
definition PCIE_RC_DL_MDIO_DATA_SHIFT :: nat where
  "PCIE_RC_DL_MDIO_DATA_SHIFT = 0"
definition PCIE_RC_DL_MDIO_DATA_MASK :: u32 where
  "PCIE_RC_DL_MDIO_DATA_MASK = push_bit 0 0x7fffffff"
definition PCIE_RC_DL_MDIO_DATA_DONE_MASK :: u32 where
  "PCIE_RC_DL_MDIO_DATA_DONE_MASK = 0x80000000"
definition PCIE_RC_PL_PHY_CTL_15 :: u64 where
  "PCIE_RC_PL_PHY_CTL_15 = 0x184c"
definition PCIE_RC_PL_PHY_CTL_15_PM_CLK_PERIOD_MASK :: u32 where
  "PCIE_RC_PL_PHY_CTL_15_PM_CLK_PERIOD_MASK = 0xff"
definition PCIE_MISC_MISC_CTRL :: u64 where
  "PCIE_MISC_MISC_CTRL = 0x4008"
definition PCIE_MISC_MISC_CTRL_PCIE_RCB_MPS_MODE_MASK :: u32 where
  "PCIE_MISC_MISC_CTRL_PCIE_RCB_MPS_MODE_MASK = 0x400"
definition PCIE_MISC_MISC_CTRL_SCB_ACCESS_EN_MASK :: u32 where
  "PCIE_MISC_MISC_CTRL_SCB_ACCESS_EN_MASK = 0x1000"
definition PCIE_MISC_MISC_CTRL_CFG_READ_UR_MODE_MASK :: u32 where
  "PCIE_MISC_MISC_CTRL_CFG_READ_UR_MODE_MASK = 0x2000"
definition PCIE_MISC_MISC_CTRL_MAX_BURST_SIZE_SHIFT :: nat where
  "PCIE_MISC_MISC_CTRL_MAX_BURST_SIZE_SHIFT = 20"
definition PCIE_MISC_MISC_CTRL_MAX_BURST_SIZE_MASK :: u32 where
  "PCIE_MISC_MISC_CTRL_MAX_BURST_SIZE_MASK = push_bit 20 0x3"
definition PCIE_MISC_MISC_CTRL_MAX_BURST_SIZE_128 :: u32 where
  "PCIE_MISC_MISC_CTRL_MAX_BURST_SIZE_128 = 1"
definition PCIE_MISC_MISC_CTRL_SCB0_SIZE_SHIFT :: nat where
  "PCIE_MISC_MISC_CTRL_SCB0_SIZE_SHIFT = 27"
definition PCIE_MISC_MISC_CTRL_SCB0_SIZE_MASK :: u32 where
  "PCIE_MISC_MISC_CTRL_SCB0_SIZE_MASK = push_bit 27 0x1f"
definition PCIE_MISC_CPU_2_PCIE_MEM_WIN0_LO :: u64 where
  "PCIE_MISC_CPU_2_PCIE_MEM_WIN0_LO = 0x400c"
definition PCIE_MISC_CPU_2_PCIE_MEM_WIN0_HI :: u64 where
  "PCIE_MISC_CPU_2_PCIE_MEM_WIN0_HI = 0x4010"
definition PCIE_MISC_RC_BAR1_CONFIG_LO :: u64 where
  "PCIE_MISC_RC_BAR1_CONFIG_LO = 0x402c"
definition PCIE_MISC_RC_BAR2_CONFIG_LO :: u64 where
  "PCIE_MISC_RC_BAR2_CONFIG_LO = 0x4034"
definition PCIE_MISC_RC_BAR2_CONFIG_HI :: u64 where
  "PCIE_MISC_RC_BAR2_CONFIG_HI = 0x4038"
definition PCIE_MISC_RC_BAR3_CONFIG_LO :: u64 where
  "PCIE_MISC_RC_BAR3_CONFIG_LO = 0x403c"
definition PCIE_MISC_RC_CONFIG_RETRY_TIMEOUT :: u64 where
  "PCIE_MISC_RC_CONFIG_RETRY_TIMEOUT = 0x405c"
definition PCIE_MISC_PCIE_CTRL :: u64 where
  "PCIE_MISC_PCIE_CTRL = 0x4064"
definition PCIE_MISC_PCIE_CTRL_PCIE_PERSTB_MASK :: u32 where
  "PCIE_MISC_PCIE_CTRL_PCIE_PERSTB_MASK = 0x4"
definition PCIE_MISC_PCIE_STATUS :: u64 where
  "PCIE_MISC_PCIE_STATUS = 0x4068"
definition PCIE_MISC_PCIE_STATUS_PCIE_DL_ACTIVE_MASK :: u32 where
  "PCIE_MISC_PCIE_STATUS_PCIE_DL_ACTIVE_MASK = 0x20"
definition PCIE_MISC_PCIE_STATUS_PCIE_PHYLINKUP_MASK :: u32 where
  "PCIE_MISC_PCIE_STATUS_PCIE_PHYLINKUP_MASK = 0x10"
definition PCIE_MISC_CPU_2_PCIE_MEM_WIN0_BASE_LIMIT :: u64 where
  "PCIE_MISC_CPU_2_PCIE_MEM_WIN0_BASE_LIMIT = 0x4070"
definition PCIE_MISC_CPU_2_PCIE_MEM_WIN_BASE_LIMIT_MASK_BITS :: nat where
  "PCIE_MISC_CPU_2_PCIE_MEM_WIN_BASE_LIMIT_MASK_BITS = 12"
definition PCIE_MISC_CPU_2_PCIE_MEM_WIN_BASE_LIMIT_LIMIT_SHIFT :: nat where
  "PCIE_MISC_CPU_2_PCIE_MEM_WIN_BASE_LIMIT_LIMIT_SHIFT = 20"
definition PCIE_MISC_CPU_2_PCIE_MEM_WIN_BASE_LIMIT_LIMIT_MASK :: u32 where
  "PCIE_MISC_CPU_2_PCIE_MEM_WIN_BASE_LIMIT_LIMIT_MASK = push_bit 20 0xfff"
definition PCIE_MISC_CPU_2_PCIE_MEM_WIN_BASE_LIMIT_BASE_SHIFT :: nat where
  "PCIE_MISC_CPU_2_PCIE_MEM_WIN_BASE_LIMIT_BASE_SHIFT = 4"
definition PCIE_MISC_CPU_2_PCIE_MEM_WIN_BASE_LIMIT_BASE_MASK :: u32 where
  "PCIE_MISC_CPU_2_PCIE_MEM_WIN_BASE_LIMIT_BASE_MASK = push_bit 4 0xfff"
definition PCIE_MISC_CPU_2_PCIE_MEM_WIN0_BASE_HI :: u64 where
  "PCIE_MISC_CPU_2_PCIE_MEM_WIN0_BASE_HI = 0x4080"
definition PCIE_MISC_CPU_2_PCIE_MEM_WIN_BASE_HI_BASE_MASK :: u32 where
  "PCIE_MISC_CPU_2_PCIE_MEM_WIN_BASE_HI_BASE_MASK = 0xff"
definition PCIE_MISC_CPU_2_PCIE_MEM_WIN0_LIMIT_HI :: u64 where
  "PCIE_MISC_CPU_2_PCIE_MEM_WIN0_LIMIT_HI = 0x4084"
definition PCIE_MISC_CPU_2_PCIE_MEM_WIN_LIMIT_HI_LIMIT_MASK :: u32 where
  "PCIE_MISC_CPU_2_PCIE_MEM_WIN_LIMIT_HI_LIMIT_MASK = 0xff"
definition PCIE_MISC_HARD_PCIE_HARD_DEBUG :: u64 where
  "PCIE_MISC_HARD_PCIE_HARD_DEBUG = 0x4304"
definition PCIE_MISC_HARD_PCIE_HARD_DEBUG_CLKREQ_DEBUG_ENABLE_MASK :: u32 where
  "PCIE_MISC_HARD_PCIE_HARD_DEBUG_CLKREQ_DEBUG_ENABLE_MASK = 0x2"
definition PCIE_MISC_HARD_PCIE_HARD_DEBUG_SERDES_IDDQ_MASK :: u32 where
  "PCIE_MISC_HARD_PCIE_HARD_DEBUG_SERDES_IDDQ_MASK = 0x08000000"
definition PCIE_MISC_HARD_PCIE_HARD_DEBUG_CLKREQ_L1SS_ENABLE_MASK :: u32 where
  "PCIE_MISC_HARD_PCIE_HARD_DEBUG_CLKREQ_L1SS_ENABLE_MASK = 0x00200000"
definition PCIE_MISC_CTRL_1 :: u64 where
  "PCIE_MISC_CTRL_1 = 0x40A0"
definition PCIE_MISC_CTRL_1_EN_VDM_QOS_CONTROL_MASK :: u32 where
  "PCIE_MISC_CTRL_1_EN_VDM_QOS_CONTROL_MASK = 0x20"
definition PCIE_MISC_UBUS_CTRL :: u64 where
  "PCIE_MISC_UBUS_CTRL = 0x40a4"
definition PCIE_MISC_UBUS_CTRL_UBUS_PCIE_REPLY_ERR_DIS_MASK :: u32 where
  "PCIE_MISC_UBUS_CTRL_UBUS_PCIE_REPLY_ERR_DIS_MASK = 0x2000"
definition PCIE_MISC_UBUS_CTRL_UBUS_PCIE_REPLY_DECERR_DIS_MASK :: u32 where
  "PCIE_MISC_UBUS_CTRL_UBUS_PCIE_REPLY_DECERR_DIS_MASK = 0x80000"
definition PCIE_MISC_UBUS_TIMEOUT :: u64 where
  "PCIE_MISC_UBUS_TIMEOUT = 0x40A8"
definition PCIE_MISC_UBUS_BAR2_CONFIG_REMAP_LO :: u64 where
  "PCIE_MISC_UBUS_BAR2_CONFIG_REMAP_LO = 0x40b4"
definition PCIE_MISC_UBUS_BAR2_CONFIG_REMAP_HI :: u64 where
  "PCIE_MISC_UBUS_BAR2_CONFIG_REMAP_HI = 0x40b8"
definition PCIE_MISC_RC_BAR4_CONFIG_LO :: u64 where
  "PCIE_MISC_RC_BAR4_CONFIG_LO = 0x40d4"
definition PCIE_MISC_RC_BAR4_CONFIG_HI :: u64 where
  "PCIE_MISC_RC_BAR4_CONFIG_HI = 0x40d8"
definition PCIE_MISC_RC_BAR_CONFIG_LO_SIZE_MASK :: u32 where
  "PCIE_MISC_RC_BAR_CONFIG_LO_SIZE_MASK = 0x1f"
definition PCIE_MISC_UBUS_BAR_CONFIG_REMAP_ENABLE :: u32 where
  "PCIE_MISC_UBUS_BAR_CONFIG_REMAP_ENABLE = 0x1"
definition PCIE_MISC_UBUS_BAR_CONFIG_REMAP_LO_MASK :: u32 where
  "PCIE_MISC_UBUS_BAR_CONFIG_REMAP_LO_MASK = 0xfffff000"
definition PCIE_MISC_UBUS_BAR_CONFIG_REMAP_HI_MASK :: u32 where
  "PCIE_MISC_UBUS_BAR_CONFIG_REMAP_HI_MASK = 0xff"
definition PCIE_MISC_UBUS_BAR4_CONFIG_REMAP_LO :: u64 where
  "PCIE_MISC_UBUS_BAR4_CONFIG_REMAP_LO = 0x410c"
definition PCIE_MISC_UBUS_BAR4_CONFIG_REMAP_HI :: u64 where
  "PCIE_MISC_UBUS_BAR4_CONFIG_REMAP_HI = 0x4110"
definition PCIE_MISC_VDM_PRIORITY_TO_QOS_MAP_HI :: u64 where
  "PCIE_MISC_VDM_PRIORITY_TO_QOS_MAP_HI = 0x4164"
definition PCIE_MISC_VDM_PRIORITY_TO_QOS_MAP_LO :: u64 where
  "PCIE_MISC_VDM_PRIORITY_TO_QOS_MAP_LO = 0x4168"
definition PCIE_MISC_AXI_INTF_CTRL :: u64 where
  "PCIE_MISC_AXI_INTF_CTRL = 0x416C"
definition AXI_EN_RCLK_QOS_ARRAY_FIX :: u32 where
  "AXI_EN_RCLK_QOS_ARRAY_FIX = 0x2000"
definition AXI_EN_QOS_UPDATE_TIMING_FIX :: u32 where
  "AXI_EN_QOS_UPDATE_TIMING_FIX = 0x1000"
definition AXI_DIS_QOS_GATING_IN_MASTER :: u32 where
  "AXI_DIS_QOS_GATING_IN_MASTER = 0x800"
definition AXI_REQFIFO_EN_QOS_PROPAGATION :: u32 where
  "AXI_REQFIFO_EN_QOS_PROPAGATION = 0x80"
definition AXI_MASTER_MAX_OUTSTANDING_REQUESTS_MASK :: u32 where
  "AXI_MASTER_MAX_OUTSTANDING_REQUESTS_MASK = 0x3F"
definition PCIE_MISC_AXI_READ_ERROR_DATA :: u64 where
  "PCIE_MISC_AXI_READ_ERROR_DATA = 0x4170"
definition PCIE_INTR2_CPU_BASE :: u64 where
  "PCIE_INTR2_CPU_BASE = 0x4400"
definition PCIE_INTR2_CPU_MASK_SET :: u64 where
  "PCIE_INTR2_CPU_MASK_SET = 0x10"
definition PCIE_INTR2_CPU_MASK_CLR :: u64 where
  "PCIE_INTR2_CPU_MASK_CLR = 0x14"
definition MDIO_PHY_SET_ADDR_OFFSET :: u8 where
  "MDIO_PHY_SET_ADDR_OFFSET = 0x1f"

definition PCIE_RC_DL_MDIO_PACKET :: "u32 \<Rightarrow> u32 \<Rightarrow> u32 \<Rightarrow> u32" where
  "PCIE_RC_DL_MDIO_PACKET Port Reg Cmd =
     push_bit PCIE_RC_DL_MDIO_PORT_SHIFT Port OR push_bit PCIE_RC_DL_MDIO_REGAD_SHIFT Reg OR
     push_bit PCIE_RC_DL_MDIO_CMD_SHIFT Cmd"

definition PCIE_MEM_WIN_LO :: "nat \<Rightarrow> u64" where
  "PCIE_MEM_WIN_LO Idx = PCIE_MISC_CPU_2_PCIE_MEM_WIN0_LO + of_nat (Idx * 8)"
definition PCIE_MEM_WIN_HI :: "nat \<Rightarrow> u64" where
  "PCIE_MEM_WIN_HI Idx = PCIE_MISC_CPU_2_PCIE_MEM_WIN0_HI + of_nat (Idx * 8)"
definition PCIE_MEM_WIN_BASE_LIMIT :: "nat \<Rightarrow> u64" where
  "PCIE_MEM_WIN_BASE_LIMIT Idx = PCIE_MISC_CPU_2_PCIE_MEM_WIN0_BASE_LIMIT + of_nat (Idx * 4)"
definition PCIE_MEM_WIN_BASE_HI :: "nat \<Rightarrow> u64" where
  "PCIE_MEM_WIN_BASE_HI Idx = PCIE_MISC_CPU_2_PCIE_MEM_WIN0_BASE_HI + of_nat (Idx * 8)"
definition PCIE_MEM_WIN_LIMIT_HI :: "nat \<Rightarrow> u64" where
  "PCIE_MEM_WIN_LIMIT_HI Idx = PCIE_MISC_CPU_2_PCIE_MEM_WIN0_LIMIT_HI + of_nat (Idx * 8)"

definition PCIE_IB_WIN_LO :: "nat \<Rightarrow> u64" where
  "PCIE_IB_WIN_LO Idx = (if Idx = 0 then PCIE_MISC_RC_BAR2_CONFIG_LO
     else PCIE_MISC_RC_BAR4_CONFIG_LO + of_nat ((Idx - 1) * 8))"
definition PCIE_IB_WIN_HI :: "nat \<Rightarrow> u64" where
  "PCIE_IB_WIN_HI Idx = (if Idx = 0 then PCIE_MISC_RC_BAR2_CONFIG_HI
     else PCIE_MISC_RC_BAR4_CONFIG_HI + of_nat ((Idx - 1) * 8))"
definition PCIE_IB_WIN_REMAP_LO :: "nat \<Rightarrow> u64" where
  "PCIE_IB_WIN_REMAP_LO Idx = (if Idx = 0 then PCIE_MISC_UBUS_BAR2_CONFIG_REMAP_LO
     else PCIE_MISC_UBUS_BAR4_CONFIG_REMAP_LO + of_nat ((Idx - 1) * 8))"
definition PCIE_IB_WIN_REMAP_HI :: "nat \<Rightarrow> u64" where
  "PCIE_IB_WIN_REMAP_HI Idx = (if Idx = 0 then PCIE_MISC_UBUS_BAR2_CONFIG_REMAP_HI
     else PCIE_MISC_UBUS_BAR4_CONFIG_REMAP_HI + of_nat ((Idx - 1) * 8))"

subsection \<open>The SerDes PHY behind its own MDIO port\<close>

fun PhyReadWait :: "'s iodev \<Rightarrow> pcie_rc \<Rightarrow> nat \<Rightarrow> ('s, efi_status + u16) state" where
  "PhyReadWait D P 0 = State_Monad.return (Inl EFI_TIMEOUT)"
| "PhyReadWait D P (Suc n) = do {
     Data \<leftarrow> MmioRead32 D (Base P + PCIE_RC_DL_MDIO_RD_DATA);
     (if Data AND PCIE_RC_DL_MDIO_DATA_DONE_MASK \<noteq> 0
      then State_Monad.return (Inr (ucast (drop_bit PCIE_RC_DL_MDIO_DATA_SHIFT
             (Data AND PCIE_RC_DL_MDIO_DATA_MASK))))
      else do { Stall D 10; PhyReadWait D P n })
   }"

definition PciePhyRead :: "'s iodev \<Rightarrow> pcie_rc \<Rightarrow> u8 \<Rightarrow> ('s, efi_status + u16) state" where
  "PciePhyRead D P Register = do {
     MmioWrite32 D (Base P + PCIE_RC_DL_MDIO_ADDR)
       (PCIE_RC_DL_MDIO_PACKET 0 (ucast Register) PCIE_RC_DL_MDIO_CMD_READ);
     _ \<leftarrow> MmioRead32 D (Base P + PCIE_RC_DL_MDIO_ADDR);
     PhyReadWait D P 10
   }"

fun PhyWriteWait :: "'s iodev \<Rightarrow> pcie_rc \<Rightarrow> nat \<Rightarrow> ('s, efi_status) state" where
  "PhyWriteWait D P 0 = State_Monad.return EFI_TIMEOUT"
| "PhyWriteWait D P (Suc n) = do {
     Data \<leftarrow> MmioRead32 D (Base P + PCIE_RC_DL_MDIO_WR_DATA);
     (if Data AND PCIE_RC_DL_MDIO_DATA_DONE_MASK = 0 then State_Monad.return EFI_SUCCESS
      else do { Stall D 10; PhyWriteWait D P n })
   }"

definition PciePhyWrite :: "'s iodev \<Rightarrow> pcie_rc \<Rightarrow> u8 \<Rightarrow> u16 \<Rightarrow> ('s, efi_status) state" where
  "PciePhyWrite D P Register Value = do {
     MmioWrite32 D (Base P + PCIE_RC_DL_MDIO_ADDR)
       (PCIE_RC_DL_MDIO_PACKET 0 (ucast Register) PCIE_RC_DL_MDIO_CMD_WRITE);
     _ \<leftarrow> MmioRead32 D (Base P + PCIE_RC_DL_MDIO_ADDR);
     MmioWrite32 D (Base P + PCIE_RC_DL_MDIO_WR_DATA) (PCIE_RC_DL_MDIO_DATA_DONE_MASK OR ucast Value);
     PhyWriteWait D P 10
   }"

definition PcieSetupPhy :: "'s iodev \<Rightarrow> pcie_rc \<Rightarrow> ('s, unit) state" where
  "PcieSetupPhy D P = do {
     MmioAnd32 D (Base P + PCIE_MISC_HARD_PCIE_HARD_DEBUG)
       (NOT PCIE_MISC_HARD_PCIE_HARD_DEBUG_SERDES_IDDQ_MASK);
     Stall D 100;
     _ \<leftarrow> PciePhyWrite D P MDIO_PHY_SET_ADDR_OFFSET 0x1600;
     _ \<leftarrow> PciePhyWrite D P 0x16 0x50b9;
     _ \<leftarrow> PciePhyWrite D P 0x17 0xbda1;
     _ \<leftarrow> PciePhyWrite D P 0x18 0x0094;
     _ \<leftarrow> PciePhyWrite D P 0x19 0x97b4;
     _ \<leftarrow> PciePhyWrite D P 0x1b 0x5030;
     _ \<leftarrow> PciePhyWrite D P 0x1c 0x5030;
     _ \<leftarrow> PciePhyWrite D P 0x1e 0x0007;
     Stall D 100;
     MmioAndThenOr32 D (Base P + PCIE_RC_PL_PHY_CTL_15)
       (NOT PCIE_RC_PL_PHY_CTL_15_PM_CLK_PERIOD_MASK) 18
   }"

subsection \<open>Address windows\<close>

definition PcieEncodeInboundSize :: "(u64 \<Rightarrow> nat) \<Rightarrow> u64 \<Rightarrow> nat" where
  "PcieEncodeInboundSize HBS Size =
     (let Log2Size = HBS Size in
      if Log2Size \<ge> 12 \<and> Log2Size \<le> 15 then (Log2Size - 12) + 0x1c
      else if Log2Size \<ge> 16 \<and> Log2Size \<le> 36 then Log2Size - 15
      else 0)"

definition PcieSetupInboundWindow ::
  "(u64 \<Rightarrow> nat) \<Rightarrow> 's iodev \<Rightarrow> pcie_rc \<Rightarrow> nat \<Rightarrow> u64 \<Rightarrow> u64 \<Rightarrow> u64 \<Rightarrow> ('s, unit) state" where
  "PcieSetupInboundWindow HBS D P Index Cpu Bus Size = do {
     let InboundSize = (of_nat (PcieEncodeInboundSize HBS Size) :: u32);
     MmioWrite32 D (Base P + PCIE_IB_WIN_LO Index)
       ((ucast Bus AND NOT PCIE_MISC_RC_BAR_CONFIG_LO_SIZE_MASK) OR InboundSize);
     MmioWrite32 D (Base P + PCIE_IB_WIN_HI Index) (ucast (drop_bit 32 Bus));
     MmioWrite32 D (Base P + PCIE_IB_WIN_REMAP_LO Index)
       ((ucast Cpu AND PCIE_MISC_UBUS_BAR_CONFIG_REMAP_LO_MASK) OR PCIE_MISC_UBUS_BAR_CONFIG_REMAP_ENABLE);
     MmioWrite32 D (Base P + PCIE_IB_WIN_REMAP_HI Index)
       (ucast (drop_bit 32 Cpu) AND PCIE_MISC_UBUS_BAR_CONFIG_REMAP_HI_MASK);
     (if Index = 0
      then MmioAndThenOr32 D (Base P + PCIE_MISC_MISC_CTRL) (NOT PCIE_MISC_MISC_CTRL_SCB0_SIZE_MASK)
             (push_bit PCIE_MISC_MISC_CTRL_SCB0_SIZE_SHIFT InboundSize)
      else State_Monad.return ())
   }"

definition PcieSetupOutboundWindow ::
  "'s iodev \<Rightarrow> pcie_rc \<Rightarrow> nat \<Rightarrow> u64 \<Rightarrow> u64 \<Rightarrow> u64 \<Rightarrow> ('s, unit) state" where
  "PcieSetupOutboundWindow D P Index Cpu Bus Size = do {
     let CpuBaseMB = Cpu div 0x100000;
     let CpuLimitMB = (Cpu + Size - 1) div 0x100000;
     MmioAndThenOr32 D (Base P + PCIE_MEM_WIN_BASE_LIMIT Index)
       (NOT (PCIE_MISC_CPU_2_PCIE_MEM_WIN_BASE_LIMIT_BASE_MASK OR
             PCIE_MISC_CPU_2_PCIE_MEM_WIN_BASE_LIMIT_LIMIT_MASK))
       (ucast (push_bit PCIE_MISC_CPU_2_PCIE_MEM_WIN_BASE_LIMIT_BASE_SHIFT CpuBaseMB OR
               push_bit PCIE_MISC_CPU_2_PCIE_MEM_WIN_BASE_LIMIT_LIMIT_SHIFT CpuLimitMB));
     MmioAndThenOr32 D (Base P + PCIE_MEM_WIN_BASE_HI Index)
       (NOT PCIE_MISC_CPU_2_PCIE_MEM_WIN_BASE_HI_BASE_MASK)
       (ucast (drop_bit PCIE_MISC_CPU_2_PCIE_MEM_WIN_BASE_LIMIT_MASK_BITS CpuBaseMB));
     MmioAndThenOr32 D (Base P + PCIE_MEM_WIN_LIMIT_HI Index)
       (NOT PCIE_MISC_CPU_2_PCIE_MEM_WIN_LIMIT_HI_LIMIT_MASK)
       (ucast (drop_bit PCIE_MISC_CPU_2_PCIE_MEM_WIN_BASE_LIMIT_MASK_BITS CpuLimitMB));
     MmioWrite32 D (Base P + PCIE_MEM_WIN_LO Index) (ucast Bus);
     MmioWrite32 D (Base P + PCIE_MEM_WIN_HI Index) (ucast (drop_bit 32 Bus))
   }"

subsection \<open>Quality of service, power states, link speed, reset and link\<close>

definition PcieSetupAxiQosPriority :: "'s iodev \<Rightarrow> pcie_rc \<Rightarrow> ('s, unit) state" where
  "PcieSetupAxiQosPriority D P = do {
     MmioAndThenOr32 D (Base P + PCIE_MISC_AXI_INTF_CTRL) (NOT AXI_REQFIFO_EN_QOS_PROPAGATION)
       (AXI_EN_RCLK_QOS_ARRAY_FIX OR AXI_EN_QOS_UPDATE_TIMING_FIX OR AXI_DIS_QOS_GATING_IN_MASTER);
     axi \<leftarrow> MmioRead32 D (Base P + PCIE_MISC_AXI_INTF_CTRL);
     (if axi AND AXI_EN_QOS_UPDATE_TIMING_FIX = 0
      then MmioAndThenOr32 D (Base P + PCIE_MISC_AXI_INTF_CTRL)
             (NOT AXI_MASTER_MAX_OUTSTANDING_REQUESTS_MASK) 15
      else State_Monad.return ());
     (if VdmToQosMap (Settings P) = 0
      then MmioAnd32 D (Base P + PCIE_MISC_CTRL_1) (NOT PCIE_MISC_CTRL_1_EN_VDM_QOS_CONTROL_MASK)
      else do {
        MmioOr32 D (Base P + PCIE_MISC_CTRL_1) PCIE_MISC_CTRL_1_EN_VDM_QOS_CONTROL_MASK;
        MmioWrite32 D (Base P + PCIE_MISC_VDM_PRIORITY_TO_QOS_MAP_LO) (VdmToQosMap (Settings P));
        MmioWrite32 D (Base P + PCIE_MISC_VDM_PRIORITY_TO_QOS_MAP_HI) (VdmToQosMap (Settings P));
        MmioWrite32 D (Base P + PCIE_RC_TL_VDM_CTL1) 0;
        MmioOr32 D (Base P + PCIE_RC_TL_VDM_CTL0)
          (PCIE_RC_TL_VDM_CTL0_VDM_ENABLED_MASK OR PCIE_RC_TL_VDM_CTL0_VDM_IGNORETAG_MASK OR
           PCIE_RC_TL_VDM_CTL0_VDM_IGNOREVNDRID_MASK)
      })
   }"

definition PcieSetupAspm :: "'s iodev \<Rightarrow> pcie_rc \<Rightarrow> ('s, unit) state" where
  "PcieSetupAspm D P = do {
     Data \<leftarrow> MmioRead32 D (Base P + PCIE_MISC_HARD_PCIE_HARD_DEBUG);
     MmioWrite32 D (Base P + PCIE_MISC_HARD_PCIE_HARD_DEBUG)
       ((Data AND NOT PCIE_MISC_HARD_PCIE_HARD_DEBUG_CLKREQ_DEBUG_ENABLE_MASK AND
         NOT PCIE_MISC_HARD_PCIE_HARD_DEBUG_CLKREQ_L1SS_ENABLE_MASK) OR
        PCIE_MISC_HARD_PCIE_HARD_DEBUG_CLKREQ_DEBUG_ENABLE_MASK);
     let AspmCaps = (if AspmSupportL0s (Settings P) then PCIE_LINK_STATE_L0S else 0) OR
                    (if AspmSupportL1 (Settings P) then PCIE_LINK_STATE_L1 else 0);
     MmioAndThenOr32 D (Base P + PCIE_RC_CFG_PRIV1_LINK_CAPABILITY)
       (NOT PCIE_RC_CFG_PRIV1_LINK_CAPABILITY_ASPM_SUPPORT_MASK)
       (push_bit PCIE_RC_CFG_PRIV1_LINK_CAPABILITY_ASPM_SUPPORT_SHIFT AspmCaps)
   }"

definition PcieSetupLinkSpeed :: "'s iodev \<Rightarrow> 's iodev16 \<Rightarrow> pcie_rc \<Rightarrow> u8 \<Rightarrow> ('s, unit) state" where
  "PcieSetupLinkSpeed D E P Speed =
     (if Speed = 0 then State_Monad.return ()
      else do {
        MmioAndThenOr16 E (Base P + BRCM_PCIE_CAP_REGS + PCIE_LINK_CONTROL_2)
          (NOT PCIE_LINK_CONTROL_2_TARGET_LINK_SPEED_MASK) (ucast Speed);
        MmioAndThenOr32 D (Base P + BRCM_PCIE_CAP_REGS + PCIE_LINK_CAPABILITIES)
          (NOT PCIE_LINK_CAPABILITIES_SUPPORTED_LINK_SPEED_MASK) (ucast Speed)
      })"

definition PcieAssertPerst :: "'s iodev \<Rightarrow> pcie_rc \<Rightarrow> bool \<Rightarrow> ('s, unit) state" where
  "PcieAssertPerst D P Value =
     MmioAndThenOr32 D (Base P + PCIE_MISC_PCIE_CTRL) (NOT PCIE_MISC_PCIE_CTRL_PCIE_PERSTB_MASK)
       (if Value then 0 else PCIE_MISC_PCIE_CTRL_PCIE_PERSTB_MASK)"

definition PcieIsLinkUp :: "'s iodev \<Rightarrow> pcie_rc \<Rightarrow> ('s, bool) state" where
  "PcieIsLinkUp D P = do {
     Status \<leftarrow> MmioRead32 D (Base P + PCIE_MISC_PCIE_STATUS);
     State_Monad.return (Status AND (PCIE_MISC_PCIE_STATUS_PCIE_DL_ACTIVE_MASK OR
                                     PCIE_MISC_PCIE_STATUS_PCIE_PHYLINKUP_MASK) \<noteq> 0)
   }"

fun LinkWait :: "'s iodev \<Rightarrow> pcie_rc \<Rightarrow> nat \<Rightarrow> ('s, efi_status) state" where
  "LinkWait D P 0 = State_Monad.return EFI_TIMEOUT"
| "LinkWait D P (Suc n) = do {
     up \<leftarrow> PcieIsLinkUp D P;
     (if up then State_Monad.return EFI_SUCCESS else do { Stall D 5000; LinkWait D P n })
   }"

definition PcieWaitForLinkUp :: "'s iodev \<Rightarrow> pcie_rc \<Rightarrow> ('s, efi_status) state" where
  "PcieWaitForLinkUp D P = LinkWait D P 20"

subsection \<open>Bring-up\<close>

text \<open>
  The value that \<^verbatim>\<open>PcieInitRc\<close> ors into \<^verbatim>\<open>MISC_CTRL\<close>. In C the conditional binds weaker than
  \<open>|\<close>: everything before the question mark is its condition.
\<close>

definition misc_ctrl_or :: "bool \<Rightarrow> u32" where
  "misc_ctrl_or Rcb =
     (if (push_bit PCIE_MISC_MISC_CTRL_MAX_BURST_SIZE_SHIFT PCIE_MISC_MISC_CTRL_MAX_BURST_SIZE_128 OR
          PCIE_MISC_MISC_CTRL_SCB_ACCESS_EN_MASK OR PCIE_MISC_MISC_CTRL_CFG_READ_UR_MODE_MASK OR
          (if Rcb then 1 else 0)) \<noteq> 0
      then PCIE_MISC_MISC_CTRL_PCIE_RCB_MPS_MODE_MASK else 0)"

definition PCI_CLASS_BRIDGE :: u32 where "PCI_CLASS_BRIDGE = 0x06"
definition PCI_CLASS_BRIDGE_P2P :: u32 where "PCI_CLASS_BRIDGE_P2P = 0x04"

definition RcSetupBus :: "'s iodev \<Rightarrow> pcie_rc \<Rightarrow> ('s, unit) state" where
  "RcSetupBus D P = do {
     PcieAssertPerst D P True;
     Stall D 100;
     PcieSetupPhy D P;
     MmioAndThenOr32 D (Base P + PCIE_MISC_MISC_CTRL) (NOT PCIE_MISC_MISC_CTRL_MAX_BURST_SIZE_MASK)
       (misc_ctrl_or (RcbMatchMps (Settings P)));
     MmioOr32 D (Base P + PCIE_MISC_UBUS_CTRL)
       (PCIE_MISC_UBUS_CTRL_UBUS_PCIE_REPLY_ERR_DIS_MASK OR
        PCIE_MISC_UBUS_CTRL_UBUS_PCIE_REPLY_DECERR_DIS_MASK);
     MmioWrite32 D (Base P + PCIE_MISC_AXI_READ_ERROR_DATA) 0xffffffff;
     MmioWrite32 D (Base P + PCIE_MISC_UBUS_TIMEOUT) 0xb2d0000;
     MmioWrite32 D (Base P + PCIE_MISC_RC_CONFIG_RETRY_TIMEOUT) 0xaba0000;
     PcieSetupAxiQosPriority D P;
     MmioAnd32 D (Base P + PCIE_MISC_RC_BAR1_CONFIG_LO) (NOT PCIE_MISC_RC_BAR_CONFIG_LO_SIZE_MASK);
     MmioAnd32 D (Base P + PCIE_MISC_RC_BAR3_CONFIG_LO) (NOT PCIE_MISC_RC_BAR_CONFIG_LO_SIZE_MASK)
   }"

definition RcSetupWindows :: "(u64 \<Rightarrow> nat) \<Rightarrow> 's iodev \<Rightarrow> pcie_rc \<Rightarrow> ('s, unit) state" where
  "RcSetupWindows HBS D P = do {
     PcieSetupInboundWindow HBS D P 0 (CpuBase (Inbound P)) (BusBase (Inbound P)) (WinSize (Inbound P));
     PcieSetupOutboundWindow D P 0 (CpuBase (Mem32 P)) (BusBase (Mem32 P)) (WinSize (Mem32 P));
     PcieSetupOutboundWindow D P 1 (CpuBase (Mem64 P)) (BusBase (Mem64 P)) (WinSize (Mem64 P))
   }"

definition RcStart :: "'s iodev \<Rightarrow> 's iodev16 \<Rightarrow> pcie_rc \<Rightarrow> ('s, unit) state" where
  "RcStart D E P = do {
     MmioWrite32 D (Base P + PCIE_INTR2_CPU_BASE + PCIE_INTR2_CPU_MASK_CLR) 0xffffffff;
     MmioWrite32 D (Base P + PCIE_INTR2_CPU_BASE + PCIE_INTR2_CPU_MASK_SET) 0xffffffff;
     MmioAndThenOr32 D (Base P + PCIE_RC_CFG_PRIV1_ID_VAL3) (NOT PCIE_RC_CFG_PRIV1_ID_VAL3_CLASS_CODE_MASK)
       (push_bit 8 (push_bit 8 PCI_CLASS_BRIDGE OR PCI_CLASS_BRIDGE_P2P));
     MmioAndThenOr32 D (Base P + PCIE_RC_CFG_VENDOR_VENDOR_SPECIFIC_REG1)
       (NOT PCIE_RC_CFG_VENDOR_VENDOR_SPECIFIC_REG1_ENDIAN_MODE_BAR2_MASK)
       (push_bit PCIE_RC_CFG_VENDOR_VENDOR_SPECIFIC_REG1_ENDIAN_MODE_BAR2_SHIFT
          PCIE_RC_CFG_VENDOR_SPCIFIC_REG1_LITTLE_ENDIAN);
     PcieSetupLinkSpeed D E P (MaxLinkSpeed (Settings P));
     PcieSetupAspm D P;
     PcieAssertPerst D P False;
     Stall D 100000
   }"

definition PcieInitRc :: "(u64 \<Rightarrow> nat) \<Rightarrow> 's iodev \<Rightarrow> 's iodev16 \<Rightarrow> pcie_rc \<Rightarrow> ('s, efi_status) state" where
  "PcieInitRc HBS D E P = do {
     RcSetupBus D P;
     RcSetupWindows HBS D P;
     RcStart D E P;
     _ \<leftarrow> PcieWaitForLinkUp D P;
     State_Monad.return EFI_SUCCESS
   }"

subsection \<open>The root bridges (Bcm2712PciHostBridgeLib.c)\<close>

record root_bridge =
  Segment :: nat
  BusLimit :: nat
  DmaAbove4G :: bool
  IoBase :: u64
  IoLimit :: u64
  IoTranslation :: u64
  MemBase :: u64
  MemLimit :: u64
  MemTranslation :: u64
  Mem4GBase :: u64
  Mem4GLimit :: u64
  Mem4GTranslation :: u64
  DevicePath :: "nat \<times> nat"

record 's pci_host =
  mPcieRcs :: "pcie_rc list"
  allocs :: nat
  pool :: "nat list"
  HostIo :: 's

definition PCI_MAX_BUS :: nat where "PCI_MAX_BUS = 0xFF"
definition MAX_UINT64 :: u64 where "MAX_UINT64 = 0xFFFFFFFFFFFFFFFF"

text \<open>An allocation takes the next answer of the allocator; a block is named by its number.\<close>

definition AllocatePool :: "(nat \<Rightarrow> bool) \<Rightarrow> ('s pci_host, nat option) state" where
  "AllocatePool A = State (\<lambda>h.
     if A (allocs h) then (Some (allocs h), h\<lparr>allocs := allocs h + 1, pool := allocs h # pool h\<rparr>)
     else (None, h\<lparr>allocs := allocs h + 1\<rparr>))"

definition FreePool :: "nat \<Rightarrow> ('s pci_host, unit) state" where
  "FreePool p = modify (\<lambda>h. h\<lparr>pool := remove1 p (pool h)\<rparr>)"

definition rc_at :: "pcie_rc list \<Rightarrow> nat \<Rightarrow> pcie_rc" where
  "rc_at rcs i = rcs ! i"

definition rc0 :: "u64 \<Rightarrow> u64 \<Rightarrow> u64 \<Rightarrow> pcie_rc" where
  "rc0 b mem mem64 =
     \<lparr>Base = b, Inbound = \<lparr>CpuBase = 0, BusBase = 0, WinSize = 0\<rparr>,
      Mem32 = \<lparr>CpuBase = mem, BusBase = 0, WinSize = 0\<rparr>,
      Mem64 = \<lparr>CpuBase = mem64, BusBase = mem64, WinSize = 0x300000000\<rparr>,
      Settings = \<lparr>Enabled = False, MaxLinkSpeed = 0, AspmSupportL0s = False, AspmSupportL1 = False,
        RcbMatchMps = False, VdmToQosMap = 0\<rparr>\<rparr>"

definition pcie_rcs0 :: "pcie_rc list" where
  "pcie_rcs0 = [rc0 0x1000100000 0x1700000000 0x1400000000, rc0 0x1000110000 0x1b00000000 0x1800000000,
     rc0 0x1000120000 0x1f00000000 0x1c00000000]"

record pcie_platform =
  Mem32BusBase :: u64
  Mem32Size :: u64
  PlatSettings :: "pcie_settings list"

definition rc_configured :: "pcie_platform \<Rightarrow> nat \<Rightarrow> pcie_rc \<Rightarrow> pcie_rc" where
  "rc_configured Plat Seg rc =
     rc\<lparr>Inbound := \<lparr>CpuBase = 0, BusBase = 0, WinSize = 0x1000000000\<rparr>,
        Mem32 := (Mem32 rc)\<lparr>BusBase := Mem32BusBase Plat, WinSize := Mem32Size Plat\<rparr>,
        Settings := PlatSettings Plat ! Seg\<rparr>"

definition root_bridge_of :: "nat \<Rightarrow> pcie_rc \<Rightarrow> nat \<Rightarrow> root_bridge" where
  "root_bridge_of Seg rc dp =
     \<lparr>Segment = Seg, BusLimit = PCI_MAX_BUS, DmaAbove4G = False,
      IoBase = 0, IoLimit = 0 + 0x10000 - 1,
      IoTranslation = MAX_UINT64 - (CpuBase (Mem32 rc) + WinSize (Mem32 rc)) + 1,
      MemBase = BusBase (Mem32 rc), MemLimit = BusBase (Mem32 rc) + WinSize (Mem32 rc) - 1,
      MemTranslation = MAX_UINT64 - (CpuBase (Mem32 rc) - BusBase (Mem32 rc)) + 1,
      Mem4GBase = BusBase (Mem64 rc), Mem4GLimit = BusBase (Mem64 rc) + WinSize (Mem64 rc) - 1,
      Mem4GTranslation = MAX_UINT64 - (CpuBase (Mem64 rc) - BusBase (Mem64 rc)) + 1,
      DevicePath = (dp, Seg)\<rparr>"

definition host_io :: "('s, 'a) state \<Rightarrow> ('s pci_host, 'a) state" where
  "host_io m = State (\<lambda>h. case run_state m (HostIo h) of (x, s) \<Rightarrow> (x, h\<lparr>HostIo := s\<rparr>))"

fun FreeDevicePaths :: "root_bridge list \<Rightarrow> ('s pci_host, unit) state" where
  "FreeDevicePaths [] = State_Monad.return ()"
| "FreeDevicePaths (b # bs) = do { FreePool (fst (DevicePath b)); FreeDevicePaths bs }"

text \<open>\<open>Bridges\<close> is the array: the block it lives in and its filled entries.\<close>

definition PciHostBridgeFreeRootBridges :: "(nat \<times> root_bridge list) option \<Rightarrow> ('s pci_host, unit) state" where
  "PciHostBridgeFreeRootBridges Bridges =
     (case Bridges of None \<Rightarrow> State_Monad.return ()
      | Some (p, bs) \<Rightarrow> do { FreeDevicePaths bs; FreePool p })"

fun RootBridgeLoop ::
  "(nat \<Rightarrow> bool) \<Rightarrow> (u64 \<Rightarrow> nat) \<Rightarrow> 's iodev \<Rightarrow> 's iodev16 \<Rightarrow> pcie_platform \<Rightarrow> nat \<Rightarrow> nat list \<Rightarrow>
     root_bridge list \<Rightarrow> ('s pci_host, root_bridge list option) state" where
  "RootBridgeLoop A HBS D E Plat p [] bs = State_Monad.return (Some bs)"
| "RootBridgeLoop A HBS D E Plat p (Seg # segs) bs =
     (if \<not> Enabled (PlatSettings Plat ! Seg) then RootBridgeLoop A HBS D E Plat p segs bs
      else do {
        modify (\<lambda>h. h\<lparr>mPcieRcs := (mPcieRcs h)[Seg := rc_configured Plat Seg (rc_at (mPcieRcs h) Seg)]\<rparr>);
        rcs \<leftarrow> gets mPcieRcs;
        Status \<leftarrow> host_io (PcieInitRc HBS D E (rc_at rcs Seg));
        (if EFI_ERROR Status then RootBridgeLoop A HBS D E Plat p segs bs
         else do {
           dp \<leftarrow> AllocatePool A;
           (case dp of
              None \<Rightarrow> do { PciHostBridgeFreeRootBridges (Some (p, bs)); State_Monad.return None }
            | Some d \<Rightarrow>
                RootBridgeLoop A HBS D E Plat p segs (bs @ [root_bridge_of Seg (rc_at rcs Seg) d]))
         })
      })"

definition PciHostBridgeGetRootBridges ::
  "(nat \<Rightarrow> bool) \<Rightarrow> (u64 \<Rightarrow> nat) \<Rightarrow> 's iodev \<Rightarrow> 's iodev16 \<Rightarrow> pcie_platform option \<Rightarrow>
     ('s pci_host, (nat \<times> root_bridge list) option \<times> nat) state" where
  "PciHostBridgeGetRootBridges A HBS D E Plat =
     (case Plat of
        None \<Rightarrow> State_Monad.return (None, 0)
      | Some pl \<Rightarrow> do {
          rcs \<leftarrow> gets mPcieRcs;
          block \<leftarrow> AllocatePool A;
          (case block of
             None \<Rightarrow> State_Monad.return (None, 0)
           | Some p \<Rightarrow> do {
               r \<leftarrow> RootBridgeLoop A HBS D E pl p [0..<length rcs] [];
               (case r of
                  None \<Rightarrow> State_Monad.return (None, 0)
                | Some [] \<Rightarrow> do { FreePool p; State_Monad.return (None, 0) }
                | Some bs \<Rightarrow> State_Monad.return (Some (p, bs), length bs))
             })
        })"

subsection \<open>What an outbound window decodes to\<close>

definition WindowBaseMB :: "(u64 \<Rightarrow> u32) \<Rightarrow> pcie_rc \<Rightarrow> nat \<Rightarrow> u64" where
  "WindowBaseMB s P i = ucast (field 4 12 (s (Base P + PCIE_MEM_WIN_BASE_LIMIT i))) OR
     push_bit 12 (ucast (s (Base P + PCIE_MEM_WIN_BASE_HI i) AND 0xFF))"

definition WindowLimitMB :: "(u64 \<Rightarrow> u32) \<Rightarrow> pcie_rc \<Rightarrow> nat \<Rightarrow> u64" where
  "WindowLimitMB s P i = ucast (field 20 12 (s (Base P + PCIE_MEM_WIN_BASE_LIMIT i))) OR
     push_bit 12 (ucast (s (Base P + PCIE_MEM_WIN_LIMIT_HI i) AND 0xFF))"

definition WindowBus :: "(u64 \<Rightarrow> u32) \<Rightarrow> pcie_rc \<Rightarrow> nat \<Rightarrow> u64" where
  "WindowBus s P i = ucast (s (Base P + PCIE_MEM_WIN_LO i)) OR
     push_bit 32 (ucast (s (Base P + PCIE_MEM_WIN_HI i)))"

definition base_limit_reg :: "u64 \<Rightarrow> u64 \<Rightarrow> u32 \<Rightarrow> u32" where
  "base_limit_reg b l old = (old AND NOT (push_bit 4 0xfff OR push_bit 20 0xfff)) OR
     ucast (push_bit 4 b OR push_bit 20 l)"

definition hi_reg :: "u64 \<Rightarrow> u32 \<Rightarrow> u32" where
  "hi_reg b old = (old AND NOT 0xff) OR ucast (drop_bit 12 b)"

definition outbound :: "pcie_rc \<Rightarrow> nat \<Rightarrow> u64 \<Rightarrow> u64 \<Rightarrow> u64 \<Rightarrow> (u64 \<Rightarrow> u32) \<Rightarrow> (u64 \<Rightarrow> u32)" where
  "outbound P i Cpu Bus Size s =
     (let b = Cpu div 0x100000; l = (Cpu + Size - 1) div 0x100000; B = Base P in
      s(B + PCIE_MEM_WIN_BASE_LIMIT i := base_limit_reg b l (s (B + PCIE_MEM_WIN_BASE_LIMIT i)),
        B + PCIE_MEM_WIN_BASE_HI i := hi_reg b (s (B + PCIE_MEM_WIN_BASE_HI i)),
        B + PCIE_MEM_WIN_LIMIT_HI i := hi_reg l (s (B + PCIE_MEM_WIN_LIMIT_HI i)),
        B + PCIE_MEM_WIN_LO i := ucast Bus, B + PCIE_MEM_WIN_HI i := ucast (drop_bit 32 Bus)))"

lemmas win_regs = PCIE_MEM_WIN_LO_def PCIE_MEM_WIN_HI_def PCIE_MEM_WIN_BASE_LIMIT_def
  PCIE_MEM_WIN_BASE_HI_def PCIE_MEM_WIN_LIMIT_HI_def PCIE_MISC_CPU_2_PCIE_MEM_WIN0_LO_def
  PCIE_MISC_CPU_2_PCIE_MEM_WIN0_HI_def PCIE_MISC_CPU_2_PCIE_MEM_WIN0_BASE_LIMIT_def
  PCIE_MISC_CPU_2_PCIE_MEM_WIN0_BASE_HI_def PCIE_MISC_CPU_2_PCIE_MEM_WIN0_LIMIT_HI_def

lemma win_distinct:
  "distinct (concat (map (\<lambda>i. [PCIE_MEM_WIN_BASE_LIMIT i, PCIE_MEM_WIN_BASE_HI i, PCIE_MEM_WIN_LIMIT_HI i,
     PCIE_MEM_WIN_LO i, PCIE_MEM_WIN_HI i]) [0, 1]))"
  by (simp add: win_regs)

lemma outbound_run:
  assumes "i < 2"
  shows "run_state (PcieSetupOutboundWindow reg_dev P i Cpu Bus Size) s = ((), outbound P i Cpu Bus Size s)"
proof -
  have "i = 0 \<or> i = 1" using assms by auto
  then show ?thesis
    using win_distinct
    by (auto simp: PcieSetupOutboundWindow_def run_state_bind io_simps outbound_def Let_def base_limit_reg_def
        hi_reg_def PCIE_MISC_CPU_2_PCIE_MEM_WIN_BASE_LIMIT_BASE_MASK_def
        PCIE_MISC_CPU_2_PCIE_MEM_WIN_BASE_LIMIT_LIMIT_MASK_def PCIE_MISC_CPU_2_PCIE_MEM_WIN_BASE_LIMIT_BASE_SHIFT_def
        PCIE_MISC_CPU_2_PCIE_MEM_WIN_BASE_LIMIT_LIMIT_SHIFT_def PCIE_MISC_CPU_2_PCIE_MEM_WIN_BASE_HI_BASE_MASK_def
        PCIE_MISC_CPU_2_PCIE_MEM_WIN_LIMIT_HI_LIMIT_MASK_def PCIE_MISC_CPU_2_PCIE_MEM_WIN_BASE_LIMIT_MASK_BITS_def)
qed

lemma div_MB: "(x :: u64) div 0x100000 = drop_bit 20 x"
  by (simp add: drop_bit_eq_div)

lemma field_base_limit:
  fixes b l :: u64
  shows "field 4 12 (base_limit_reg b l old) = ucast (take_bit 12 b)"
    and "field 20 12 (base_limit_reg b l old) = ucast (take_bit 12 (l OR drop_bit 16 b))"
proof -
  have m: "(0xfff :: u32) = mask 12" by (simp add: mask_eq_exp_minus_1)
  show "field 4 12 (base_limit_reg b l old) = ucast (take_bit 12 b)"
    unfolding field_def base_limit_reg_def m by (rule bit_word_eqI) (auto simp: bit_simps)
  show "field 20 12 (base_limit_reg b l old) = ucast (take_bit 12 (l OR drop_bit 16 b))"
    unfolding field_def base_limit_reg_def m by (rule bit_word_eqI) (auto simp: bit_simps)
qed

lemma hi_field: "ucast (hi_reg b old AND 0xFF) = take_bit 8 (drop_bit 12 b)"
proof -
  have m: "(0xff :: u32) = mask 8" by (simp add: mask_eq_exp_minus_1)
  show ?thesis unfolding hi_reg_def m by (rule bit_word_eqI) (auto simp: bit_simps)
qed

lemma take_20: "take_bit 12 x OR push_bit 12 (take_bit 8 (drop_bit 12 x)) = take_bit 20 (x :: u64)"
  by (rule bit_word_eqI) (auto simp: bit_simps)

lemma pcie_window_decode:
  assumes "i < 2"
  shows "WindowBaseMB (outbound P i Cpu Bus Size s) P i = take_bit 20 (drop_bit 20 Cpu)"
    and "WindowLimitMB (outbound P i Cpu Bus Size s) P i =
      take_bit 20 (drop_bit 20 (Cpu + Size - 1)) OR take_bit 12 (drop_bit 36 Cpu)"
    and "WindowBus (outbound P i Cpu Bus Size s) P i = Bus"
proof -
  have i: "i = 0 \<or> i = 1" using assms by auto
  have regs: "outbound P i Cpu Bus Size s (Base P + PCIE_MEM_WIN_BASE_LIMIT i) =
      base_limit_reg (drop_bit 20 Cpu) (drop_bit 20 (Cpu + Size - 1)) (s (Base P + PCIE_MEM_WIN_BASE_LIMIT i))"
    "outbound P i Cpu Bus Size s (Base P + PCIE_MEM_WIN_BASE_HI i) =
      hi_reg (drop_bit 20 Cpu) (s (Base P + PCIE_MEM_WIN_BASE_HI i))"
    "outbound P i Cpu Bus Size s (Base P + PCIE_MEM_WIN_LIMIT_HI i) =
      hi_reg (drop_bit 20 (Cpu + Size - 1)) (s (Base P + PCIE_MEM_WIN_LIMIT_HI i))"
    "outbound P i Cpu Bus Size s (Base P + PCIE_MEM_WIN_LO i) = ucast Bus"
    "outbound P i Cpu Bus Size s (Base P + PCIE_MEM_WIN_HI i) = ucast (drop_bit 32 Bus)"
    using win_distinct i by (auto simp: outbound_def Let_def div_MB)
  have uc: "(ucast (ucast (take_bit 12 x) :: u32) :: u64) = take_bit 12 x" for x :: u64
    by (rule bit_word_eqI) (auto simp: bit_simps)
  show "WindowBaseMB (outbound P i Cpu Bus Size s) P i = take_bit 20 (drop_bit 20 Cpu)"
    unfolding WindowBaseMB_def regs field_base_limit hi_field uc by (rule take_20)
  have lim: "take_bit 12 (l OR drop_bit 16 b) OR push_bit 12 (take_bit 8 (drop_bit 12 l)) =
      take_bit 20 l OR take_bit 12 (drop_bit 16 b)" for l b :: u64
    by (rule bit_word_eqI) (auto simp: bit_simps)
  show "WindowLimitMB (outbound P i Cpu Bus Size s) P i =
      take_bit 20 (drop_bit 20 (Cpu + Size - 1)) OR take_bit 12 (drop_bit 36 Cpu)"
    unfolding WindowLimitMB_def regs field_base_limit hi_field uc
    using lim [of "drop_bit 20 (Cpu + Size - 1)" "drop_bit 20 Cpu"] by simp
  show "WindowBus (outbound P i Cpu Bus Size s) P i = Bus"
    unfolding WindowBus_def regs by (rule bit_word_eqI) (auto simp: bit_simps)
qed

text \<open>
  Outbound windows. Programming a window makes it start at the megabyte of the CPU base
  address (40 bits) and translate to the bus base address. Its limit is the megabyte of the
  last address, except that the base is not masked to its field: bits 36 and up of the CPU
  base address are ored into the limit. The window is right when the limit has those bits
  anyway, as for the windows of all three root complexes, and too long otherwise.
\<close>

theorem pcie_outbound_window:
  assumes "i < 2"
  shows "case run_state (PcieSetupOutboundWindow reg_dev P i Cpu Bus Size) s of (_, s') \<Rightarrow>
    WindowBaseMB s' P i = take_bit 20 (drop_bit 20 Cpu) \<and>
    WindowLimitMB s' P i =
      take_bit 20 (drop_bit 20 (Cpu + Size - 1)) OR take_bit 12 (drop_bit 36 Cpu) \<and>
    WindowBus s' P i = Bus \<and>
    (\<forall>rc \<in> set pcie_rcs0. WindowLimitMB (outbound P i (CpuBase (Mem64 rc)) (BusBase (Mem64 rc)) (WinSize (Mem64 rc)) s) P i =
       take_bit 20 (drop_bit 20 (CpuBase (Mem64 rc) + WinSize (Mem64 rc) - 1)))"
  unfolding outbound_run [OF assms] prod.case pcie_window_decode [OF assms]
  by (simp add: pcie_rcs0_def rc0_def)

theorem pcie_outbound_window_witness:
  "case run_state (PcieSetupOutboundWindow reg_dev (pcie_rcs0 ! 2) 0 0x1f00000000 0x80000000 0x100000) (\<lambda>a. 0)
   of (_, s') \<Rightarrow> WindowBaseMB s' (pcie_rcs0 ! 2) 0 = 0x1f000 \<and> WindowLimitMB s' (pcie_rcs0 ! 2) 0 = 0x1f001"
  using pcie_outbound_window [where i = 0 and P = "pcie_rcs0 ! 2" and Cpu = "0x1f00000000" and
      Bus = "0x80000000" and Size = "0x100000" and s = "\<lambda>a. 0"]
  by auto

subsection \<open>The whole bring-up on a register bank\<close>

text \<open>The 16-bit view of the same register bank.\<close>

definition reg16_dev :: "(u64 \<Rightarrow> u32) iodev16" where
  "reg16_dev =
     \<lparr>io_rd16 = (\<lambda>a s. (ucast (drop_bit (if bit a 1 then 16 else 0) (s (a AND NOT 3))), s)),
      io_wr16 = (\<lambda>a v s. s(a AND NOT 3 :=
        if bit a 1 then (s (a AND NOT 3) AND 0xFFFF) OR push_bit 16 (ucast v)
        else (s (a AND NOT 3) AND NOT 0xFFFF) OR ucast v))\<rparr>"

lemma keeps_rmw16 [keeps_intro]: "a \<noteq> x AND NOT 3 \<Longrightarrow> keeps a (MmioAndThenOr16 reg16_dev x m v)"
  by (simp add: keeps_def MmioAndThenOr16_def reg16_dev_def)

lemma keeps_PhyWriteWait: "E = reg_dev \<Longrightarrow> keeps a (PhyWriteWait E P n)"
  by (induction E P n rule: PhyWriteWait.induct) (auto intro!: keeps_intro)

lemma keeps_LinkWait: "E = reg_dev \<Longrightarrow> keeps a (LinkWait E P n)"
  by (induction E P n rule: LinkWait.induct) (auto simp: PcieIsLinkUp_def intro!: keeps_intro)

definition misc_ctrl :: "(u64 \<Rightarrow> nat) \<Rightarrow> pcie_rc \<Rightarrow> u32 \<Rightarrow> u32" where
  "misc_ctrl HBS P old =
     (((old AND NOT PCIE_MISC_MISC_CTRL_MAX_BURST_SIZE_MASK) OR misc_ctrl_or (RcbMatchMps (Settings P)))
        AND NOT PCIE_MISC_MISC_CTRL_SCB0_SIZE_MASK) OR
     push_bit PCIE_MISC_MISC_CTRL_SCB0_SIZE_SHIFT (of_nat (PcieEncodeInboundSize HBS (WinSize (Inbound P))))"

text \<open>The registers of the bring-up, as offsets into the block.\<close>

lemmas rc_offsets = win_regs PCIE_RC_DL_MDIO_ADDR_def PCIE_RC_DL_MDIO_WR_DATA_def
  PCIE_RC_PL_PHY_CTL_15_def PCIE_MISC_HARD_PCIE_HARD_DEBUG_def PCIE_MISC_MISC_CTRL_def
  PCIE_MISC_UBUS_CTRL_def PCIE_MISC_AXI_READ_ERROR_DATA_def PCIE_MISC_UBUS_TIMEOUT_def
  PCIE_MISC_RC_CONFIG_RETRY_TIMEOUT_def PCIE_MISC_AXI_INTF_CTRL_def PCIE_MISC_CTRL_1_def
  PCIE_MISC_VDM_PRIORITY_TO_QOS_MAP_LO_def PCIE_MISC_VDM_PRIORITY_TO_QOS_MAP_HI_def
  PCIE_RC_TL_VDM_CTL1_def PCIE_RC_TL_VDM_CTL0_def PCIE_MISC_RC_BAR1_CONFIG_LO_def
  PCIE_MISC_RC_BAR3_CONFIG_LO_def PCIE_IB_WIN_LO_def PCIE_IB_WIN_HI_def PCIE_IB_WIN_REMAP_LO_def
  PCIE_IB_WIN_REMAP_HI_def PCIE_MISC_RC_BAR2_CONFIG_LO_def PCIE_MISC_RC_BAR2_CONFIG_HI_def
  PCIE_MISC_UBUS_BAR2_CONFIG_REMAP_LO_def PCIE_MISC_UBUS_BAR2_CONFIG_REMAP_HI_def
  PCIE_INTR2_CPU_BASE_def PCIE_INTR2_CPU_MASK_CLR_def PCIE_INTR2_CPU_MASK_SET_def
  PCIE_RC_CFG_PRIV1_ID_VAL3_def PCIE_RC_CFG_VENDOR_VENDOR_SPECIFIC_REG1_def BRCM_PCIE_CAP_REGS_def
  PCIE_LINK_CONTROL_2_def PCIE_LINK_CAPABILITIES_def PCIE_RC_CFG_PRIV1_LINK_CAPABILITY_def
  PCIE_MISC_PCIE_CTRL_def

text \<open>The registers that only one step of the bring-up writes.\<close>

definition win_offsets :: "u64 list" where
  "win_offsets = [0x400c, 0x4010, 0x4014, 0x4018, 0x4070, 0x4074, 0x4080, 0x4084, 0x4088, 0x408c]"

lemma keeps_PhyWrite: "a \<noteq> Base P + PCIE_RC_DL_MDIO_ADDR \<Longrightarrow> a \<noteq> Base P + PCIE_RC_DL_MDIO_WR_DATA \<Longrightarrow>
  keeps a (PciePhyWrite reg_dev P r v)"
  unfolding PciePhyWrite_def by (intro keeps_intro keeps_PhyWriteWait refl) auto

lemma keeps_SetupPhy:
  assumes "x \<in> set (0x4008 # 0x4064 # win_offsets)"
  shows "keeps (Base P + x) (PcieSetupPhy reg_dev P)"
  using assms unfolding PcieSetupPhy_def
  by (intro keeps_intro keeps_PhyWrite) (auto simp: rc_offsets win_offsets_def)

lemma keeps_Qos:
  assumes "x \<in> set (0x4008 # 0x4064 # win_offsets)"
  shows "keeps (Base P + x) (PcieSetupAxiQosPriority reg_dev P)"
  using assms unfolding PcieSetupAxiQosPriority_def
  by (intro keeps_intro) (auto simp: rc_offsets win_offsets_def)

lemma keeps_Bus:
  assumes "x \<in> set win_offsets"
  shows "keeps (Base P + x) (RcSetupBus reg_dev P)"
proof -
  have x: "x \<in> set (0x4008 # 0x4064 # win_offsets)" using assms by simp
  show ?thesis
    using assms unfolding RcSetupBus_def PcieAssertPerst_def
    by (intro keeps_intro keeps_SetupPhy keeps_Qos x) (auto simp: rc_offsets win_offsets_def)
qed

lemma and_not_id: "x AND m = 0 \<Longrightarrow> x AND NOT m = (x :: u64)"
  by (auto simp: bit_eq_iff bit_simps)

lemma align_and:
  fixes b :: u64
  assumes "b AND 0xFFF = 0"
  shows "(b + 0xdc) AND NOT 3 = b + 0xdc"
proof -
  have "b AND 0xdc = (b AND 0xFFF) AND 0xdc" "b AND 3 = (b AND 0xFFF) AND 3" by (simp_all add: and.assoc)
  then have d: "b AND 0xdc = 0" "b AND 3 = 0" using assms by simp_all
  have "b + 0xdc = b OR 0xdc" using d(1) by (rule disjunctive_add_eq_or)
  moreover have "(b OR 0xdc) AND NOT 3 = b OR 0xdc"
    using d(2) by (intro and_not_id) (simp add: bit.conj_disj_distrib2)
  ultimately show ?thesis by simp
qed

lemma keeps_Start:
  assumes "x \<in> set (0x4008 # win_offsets)" and "Base P AND 0xFFF = 0"
  shows "keeps (Base P + x) (RcStart reg_dev reg16_dev P)"
  using assms(1) align_and [OF assms(2)]
  unfolding RcStart_def PcieSetupLinkSpeed_def PcieSetupAspm_def PcieAssertPerst_def Let_def
  by (intro keeps_intro) (auto simp: rc_offsets win_offsets_def add.assoc)

lemma keeps_Inbound:
  assumes "x \<in> set win_offsets"
  shows "keeps (Base P + x) (PcieSetupInboundWindow HBS reg_dev P 0 c b n)"
  using assms unfolding PcieSetupInboundWindow_def Let_def
  by (intro keeps_intro) (auto simp: rc_offsets win_offsets_def)

text \<open>The value that a program leaves in the register at an address, as a function of the old value.\<close>

definition leaves :: "u64 \<Rightarrow> (u32 \<Rightarrow> u32) \<Rightarrow> (u64 \<Rightarrow> u32, 'a) state \<Rightarrow> bool" where
  "leaves a f m = (\<forall>s. snd (run_state m s) a = f (s a))"

lemma leaves_keeps: "keeps a m = leaves a (\<lambda>x. x) m"
  by (simp add: leaves_def keeps_def)

lemma leaves_bind: "leaves a f m \<Longrightarrow> (\<And>x. leaves a h (n x)) \<Longrightarrow> leaves a (\<lambda>v. h (f v)) (State_Monad.bind m n)"
  by (simp add: leaves_def case_prod_unfold)

lemma leaves_after: "keeps a m \<Longrightarrow> (\<And>x. leaves a h (n x)) \<Longrightarrow> leaves a h (State_Monad.bind m n)"
  using leaves_bind [of a "\<lambda>x. x" m h n] by (simp add: leaves_keeps)

lemma leaves_before: "leaves a f m \<Longrightarrow> (\<And>x. keeps a (n x)) \<Longrightarrow> leaves a f (State_Monad.bind m n)"
  using leaves_bind [of a f m "\<lambda>x. x" n] by (simp add: leaves_keeps)

lemma leaves_rmw: "leaves a (\<lambda>x. (x AND m) OR v) (MmioAndThenOr32 reg_dev a m v)"
  by (simp add: leaves_def io_simps)

lemma leaves_Bus:
  "leaves (Base P + PCIE_MISC_MISC_CTRL)
     (\<lambda>x. (x AND NOT PCIE_MISC_MISC_CTRL_MAX_BURST_SIZE_MASK) OR misc_ctrl_or (RcbMatchMps (Settings P)))
     (RcSetupBus reg_dev P)"
proof -
  have x: "(0x4008 :: u64) \<in> set (0x4008 # 0x4064 # win_offsets)" by simp
  note k = keeps_SetupPhy [OF x, of P] keeps_Qos [OF x, of P]
  show ?thesis
    unfolding RcSetupBus_def
    apply (rule leaves_after)
     apply (simp add: PcieAssertPerst_def)
     apply (intro keeps_intro, simp add: rc_offsets)
    apply (rule leaves_after, intro keeps_intro)
    apply (rule leaves_after, use k(1) in \<open>simp add: PCIE_MISC_MISC_CTRL_def\<close>)
    apply (rule leaves_before [OF leaves_rmw])
    using k(2) by (intro keeps_intro) (auto simp: rc_offsets)
qed

lemma leaves_Inbound:
  "leaves (Base P + PCIE_MISC_MISC_CTRL)
     (\<lambda>x. (x AND NOT PCIE_MISC_MISC_CTRL_SCB0_SIZE_MASK) OR
        push_bit PCIE_MISC_MISC_CTRL_SCB0_SIZE_SHIFT (of_nat (PcieEncodeInboundSize HBS n)))
     (PcieSetupInboundWindow HBS reg_dev P 0 c b n)"
  unfolding PcieSetupInboundWindow_def Let_def if_P [OF refl]
  by (intro leaves_after leaves_rmw keeps_intro) (auto simp: rc_offsets)

lemma keeps_Outbound_misc:
  assumes "i < 2"
  shows "keeps (Base P + PCIE_MISC_MISC_CTRL) (PcieSetupOutboundWindow reg_dev P i c b n)"
proof -
  have "i = 0 \<or> i = 1" using assms by auto
  then show ?thesis
    unfolding PcieSetupOutboundWindow_def Let_def by (intro keeps_intro) (auto simp: rc_offsets)
qed

lemma leaves_InitRc:
  assumes "Base P AND 0xFFF = 0"
  shows "leaves (Base P + PCIE_MISC_MISC_CTRL) (misc_ctrl HBS P) (PcieInitRc HBS reg_dev reg16_dev P)"
proof -
  have w: "leaves (Base P + PCIE_MISC_MISC_CTRL)
     (\<lambda>x. (x AND NOT PCIE_MISC_MISC_CTRL_SCB0_SIZE_MASK) OR
        push_bit PCIE_MISC_MISC_CTRL_SCB0_SIZE_SHIFT (of_nat (PcieEncodeInboundSize HBS (WinSize (Inbound P)))))
     (RcSetupWindows HBS reg_dev P)"
    unfolding RcSetupWindows_def
    by (rule leaves_before [OF leaves_Inbound]) (intro keeps_intro keeps_Outbound_misc, simp_all)
  have k: "keeps (Base P + PCIE_MISC_MISC_CTRL) (RcStart reg_dev reg16_dev P)"
    using keeps_Start [OF _ assms, of "0x4008"] by (simp add: PCIE_MISC_MISC_CTRL_def)
  have "leaves (Base P + PCIE_MISC_MISC_CTRL)
     (\<lambda>x. (((x AND NOT PCIE_MISC_MISC_CTRL_MAX_BURST_SIZE_MASK) OR misc_ctrl_or (RcbMatchMps (Settings P)))
        AND NOT PCIE_MISC_MISC_CTRL_SCB0_SIZE_MASK) OR
     push_bit PCIE_MISC_MISC_CTRL_SCB0_SIZE_SHIFT (of_nat (PcieEncodeInboundSize HBS (WinSize (Inbound P)))))
     (PcieInitRc HBS reg_dev reg16_dev P)"
    unfolding PcieInitRc_def
    by (rule leaves_bind [OF leaves_Bus], rule leaves_before [OF w])
      (intro keeps_intro k, auto simp: PcieWaitForLinkUp_def intro: keeps_LinkWait keeps_intro)
  then show ?thesis by (simp add: misc_ctrl_def [abs_def])
qed

lemma misc_ctrl_bits:
  "misc_ctrl HBS P x AND PCIE_MISC_MISC_CTRL_PCIE_RCB_MPS_MODE_MASK \<noteq> 0"
  "misc_ctrl HBS P x AND PCIE_MISC_MISC_CTRL_MAX_BURST_SIZE_MASK = 0"
  "misc_ctrl HBS P x AND PCIE_MISC_MISC_CTRL_SCB_ACCESS_EN_MASK = x AND PCIE_MISC_MISC_CTRL_SCB_ACCESS_EN_MASK"
  "misc_ctrl HBS P x AND PCIE_MISC_MISC_CTRL_CFG_READ_UR_MODE_MASK = x AND PCIE_MISC_MISC_CTRL_CFG_READ_UR_MODE_MASK"
proof -
  have o: "misc_ctrl_or b = 0x400" for b
    by (simp add: misc_ctrl_or_def PCIE_MISC_MISC_CTRL_MAX_BURST_SIZE_SHIFT_def
        PCIE_MISC_MISC_CTRL_MAX_BURST_SIZE_128_def PCIE_MISC_MISC_CTRL_SCB_ACCESS_EN_MASK_def
        PCIE_MISC_MISC_CTRL_CFG_READ_UR_MODE_MASK_def PCIE_MISC_MISC_CTRL_PCIE_RCB_MPS_MODE_MASK_def)
  note m = misc_ctrl_def o PCIE_MISC_MISC_CTRL_MAX_BURST_SIZE_MASK_def PCIE_MISC_MISC_CTRL_SCB0_SIZE_MASK_def
    PCIE_MISC_MISC_CTRL_SCB0_SIZE_SHIFT_def PCIE_MISC_MISC_CTRL_PCIE_RCB_MPS_MODE_MASK_def
    PCIE_MISC_MISC_CTRL_SCB_ACCESS_EN_MASK_def PCIE_MISC_MISC_CTRL_CFG_READ_UR_MODE_MASK_def
  have "misc_ctrl HBS P x AND 0x400 = 0x400"
    by (rule u32_eqI) (simp add: m u32_bits bit_push_bit_iff)
  then show "misc_ctrl HBS P x AND PCIE_MISC_MISC_CTRL_PCIE_RCB_MPS_MODE_MASK \<noteq> 0"
    by (simp add: PCIE_MISC_MISC_CTRL_PCIE_RCB_MPS_MODE_MASK_def)
  show "misc_ctrl HBS P x AND PCIE_MISC_MISC_CTRL_MAX_BURST_SIZE_MASK = 0"
    by (rule u32_eqI) (simp add: m u32_bits bit_push_bit_iff)
  show "misc_ctrl HBS P x AND PCIE_MISC_MISC_CTRL_SCB_ACCESS_EN_MASK = x AND PCIE_MISC_MISC_CTRL_SCB_ACCESS_EN_MASK"
    by (rule u32_eqI) (simp add: m u32_bits bit_push_bit_iff)
  show "misc_ctrl HBS P x AND PCIE_MISC_MISC_CTRL_CFG_READ_UR_MODE_MASK = x AND PCIE_MISC_MISC_CTRL_CFG_READ_UR_MODE_MASK"
    by (rule u32_eqI) (simp add: m u32_bits bit_push_bit_iff)
qed

definition same_windows :: "pcie_rc \<Rightarrow> (u64 \<Rightarrow> u32) \<Rightarrow> (u64 \<Rightarrow> u32) \<Rightarrow> bool" where
  "same_windows P s t = (\<forall>x \<in> set win_offsets. s (Base P + x) = t (Base P + x))"

lemma same_keeps: "(\<And>x. x \<in> set win_offsets \<Longrightarrow> keeps (Base P + x) m) \<Longrightarrow> same_windows P (snd (run_state m s)) s"
  by (simp add: same_windows_def keeps_def)

lemma same_trans: "same_windows P s t \<Longrightarrow> same_windows P t u \<Longrightarrow> same_windows P s u"
  by (simp add: same_windows_def)

lemma win_in: "i < 2 \<Longrightarrow> {PCIE_MEM_WIN_BASE_LIMIT i, PCIE_MEM_WIN_BASE_HI i, PCIE_MEM_WIN_LIMIT_HI i,
  PCIE_MEM_WIN_LO i, PCIE_MEM_WIN_HI i} \<subseteq> set win_offsets"
  unfolding less_2_cases_iff by (auto simp: win_offsets_def win_regs)

lemma same_outbound:
  assumes "same_windows P s t" and "i < 2"
  shows "same_windows P (outbound P i c b n s) (outbound P i c b n t)"
proof -
  have "outbound P i c b n s a = outbound P i c b n t a" if "s a = t a" for a
    using assms(1) win_in [OF assms(2)] that by (simp add: same_windows_def outbound_def Let_def fun_upd_apply)
  then show ?thesis using assms(1) by (simp add: same_windows_def)
qed

lemma window_cong:
  assumes "same_windows P s t" and "i < 2"
  shows "WindowBaseMB s P i = WindowBaseMB t P i" "WindowLimitMB s P i = WindowLimitMB t P i"
    "WindowBus s P i = WindowBus t P i"
  using assms(1) win_in [OF assms(2)]
  by (simp_all add: same_windows_def WindowBaseMB_def WindowLimitMB_def WindowBus_def)

lemma window_other:
  "WindowBaseMB (outbound P 1 c b n s) P 0 = WindowBaseMB s P 0"
  "WindowBus (outbound P 1 c b n s) P 0 = WindowBus s P 0"
  using win_distinct by (simp_all add: outbound_def Let_def WindowBaseMB_def WindowBus_def)

lemma windows_InitRc:
  assumes "Base P AND 0xFFF = 0"
  shows "same_windows P (snd (run_state (PcieInitRc HBS reg_dev reg16_dev P) s))
    (outbound P 1 (CpuBase (Mem64 P)) (BusBase (Mem64 P)) (WinSize (Mem64 P))
      (outbound P 0 (CpuBase (Mem32 P)) (BusBase (Mem32 P)) (WinSize (Mem32 P)) s))"
proof -
  define s1 where "s1 = snd (run_state (RcSetupBus reg_dev P) s)"
  define s2 where "s2 = snd (run_state (PcieSetupInboundWindow HBS reg_dev P 0 (CpuBase (Inbound P))
    (BusBase (Inbound P)) (WinSize (Inbound P))) s1)"
  define s3 where "s3 = outbound P 1 (CpuBase (Mem64 P)) (BusBase (Mem64 P)) (WinSize (Mem64 P))
      (outbound P 0 (CpuBase (Mem32 P)) (BusBase (Mem32 P)) (WinSize (Mem32 P)) s2)"
  define s4 where "s4 = snd (run_state (RcStart reg_dev reg16_dev P) s3)"
  have run: "snd (run_state (PcieInitRc HBS reg_dev reg16_dev P) s) =
      snd (run_state (PcieWaitForLinkUp reg_dev P) s4)"
    by (simp add: PcieInitRc_def RcSetupWindows_def run_state_bind case_prod_unfold outbound_run s4_def s3_def
        s2_def s1_def)
  have "same_windows P s1 s" unfolding s1_def by (intro same_keeps keeps_Bus)
  moreover have "same_windows P s2 s1" unfolding s2_def by (intro same_keeps keeps_Inbound)
  ultimately have "same_windows P s2 s" by (blast intro: same_trans)
  then have "same_windows P s3 (outbound P 1 (CpuBase (Mem64 P)) (BusBase (Mem64 P)) (WinSize (Mem64 P))
      (outbound P 0 (CpuBase (Mem32 P)) (BusBase (Mem32 P)) (WinSize (Mem32 P)) s))"
    unfolding s3_def by (intro same_outbound) simp_all
  moreover have "same_windows P s4 s3" unfolding s4_def by (intro same_keeps keeps_Start [OF _ assms]) simp
  moreover have "same_windows P (snd (run_state (PcieWaitForLinkUp reg_dev P) s4)) s4"
    unfolding PcieWaitForLinkUp_def by (intro same_keeps keeps_LinkWait) simp
  ultimately show ?thesis unfolding run by (blast intro: same_trans)
qed



subsection \<open>The root bridge table\<close>

lemma run_InitRc: "fst (run_state (PcieInitRc HBS D E P) s) = EFI_SUCCESS"
  by (auto simp: PcieInitRc_def run_state_bind split: prod.split)

lemma run_host_io:
  "run_state (host_io m) h = (fst (run_state m (HostIo h)), h\<lparr>HostIo := snd (run_state m (HostIo h))\<rparr>)"
  by (simp add: host_io_def case_prod_unfold)

definition dp_of :: "root_bridge \<Rightarrow> nat" where
  "dp_of b = fst (DevicePath b)"

lemma run_FreePaths:
  "run_state (FreeDevicePaths bs) h = ((), h\<lparr>pool := fold (\<lambda>b. remove1 (dp_of b)) bs (pool h)\<rparr>)"
  by (induction bs arbitrary: h) (simp_all add: run_state_bind FreePool_def io_simps dp_of_def)

lemma remove1_rev:
  "distinct ds \<Longrightarrow> fold remove1 ds (rev ds @ xs) = xs"
proof (induction ds arbitrary: xs)
  case (Cons d ds)
  then have "remove1 d (rev ds @ [d] @ xs) = rev ds @ xs" by (simp add: remove1_append)
  then show ?case using Cons by simp
qed simp

text \<open>The blocks that live during the loop: those of the entries so far, the array, and what was
  there before; entries describe enabled segments in order.\<close>

definition bridges_ok :: "nat \<Rightarrow> nat list \<Rightarrow> root_bridge list \<Rightarrow> 's pci_host \<Rightarrow> bool" where
  "bridges_ok p old bs h =
     (pool h = rev (map dp_of bs) @ p # old \<and> distinct (map dp_of bs) \<and> p \<notin> set (map dp_of bs) \<and>
      (\<forall>d \<in> set (map dp_of bs). d < allocs h) \<and> p < allocs h)"

lemma run_Free:
  assumes "bridges_ok p old bs h"
  shows "run_state (PciHostBridgeFreeRootBridges (Some (p, bs))) h = ((), h\<lparr>pool := old\<rparr>)"
proof -
  have "fold remove1 (map dp_of bs) (rev (map dp_of bs) @ p # old) = p # old"
    using assms by (intro remove1_rev) (simp add: bridges_ok_def)
  then have "fold (\<lambda>b. remove1 (dp_of b)) bs (pool h) = p # old"
    using assms by (simp add: bridges_ok_def fold_map comp_def)
  then show ?thesis
    by (simp add: PciHostBridgeFreeRootBridges_def run_state_bind run_FreePaths FreePool_def io_simps)
qed

definition cpu_addr :: "u64 \<Rightarrow> u64 \<Rightarrow> u64" where
  "cpu_addr bus translation = bus - translation"

definition describes :: "pcie_platform \<Rightarrow> pcie_rc list \<Rightarrow> root_bridge \<Rightarrow> bool" where
  "describes Plat rcs b =
     (let rc = rcs ! Segment b in
      Segment b = snd (DevicePath b) \<and> cpu_addr (MemBase b) (MemTranslation b) = CpuBase (Mem32 rc) \<and>
      MemBase b = Mem32BusBase Plat \<and> MemLimit b = Mem32BusBase Plat + Mem32Size Plat - 1 \<and>
      cpu_addr (Mem4GBase b) (Mem4GTranslation b) = CpuBase (Mem64 rc) \<and>
      Mem4GBase b = BusBase (Mem64 rc) \<and> Mem4GLimit b = BusBase (Mem64 rc) + WinSize (Mem64 rc) - 1 \<and>
      cpu_addr (IoBase b) (IoTranslation b) = CpuBase (Mem32 rc) + Mem32Size Plat)"

lemma neg_translation: "MAX_UINT64 - x + 1 = - x"
  by (simp add: MAX_UINT64_def)

definition same_rc :: "pcie_rc \<Rightarrow> pcie_rc \<Rightarrow> bool" where
  "same_rc a b = (CpuBase (Mem32 a) = CpuBase (Mem32 b) \<and> Mem64 a = Mem64 b)"

lemma describes_bridge:
  "same_rc (rcs ! Seg) rc \<Longrightarrow> describes Plat rcs (root_bridge_of Seg (rc_configured Plat Seg rc) d)"
  by (simp add: same_rc_def describes_def root_bridge_of_def rc_configured_def cpu_addr_def neg_translation Let_def)

lemma run_Loop:
  assumes "run_state (RootBridgeLoop A HBS D E Plat p segs bs) h = (r, h')"
    and "bridges_ok p old bs h" and "list_all2 same_rc rcs (mPcieRcs h)" and "set segs \<subseteq> {..<length rcs}"
    and "list_all (describes Plat rcs) bs"
  shows "case r of
      None \<Rightarrow> pool h' = old
    | Some bs' \<Rightarrow> bridges_ok p old bs' h' \<and> list_all (describes Plat rcs) bs' \<and>
        map Segment bs' = map Segment bs @ filter (\<lambda>i. Enabled (PlatSettings Plat ! i)) segs"
  using assms
proof (induction segs arbitrary: bs h)
  case Nil
  then show ?case by auto
next
  case (Cons Seg segs)
  have lt: "Seg < length rcs" "Seg < length (mPcieRcs h)" and segs: "set segs \<subseteq> {..<length rcs}"
    using Cons.prems(3,4) by (auto dest: list_all2_lengthD)
  have sr: "same_rc (rcs ! Seg) (mPcieRcs h ! Seg)"
    using Cons.prems(3) lt(1) by (simp add: list_all2_conv_all_nth)
  show ?case
  proof (cases "Enabled (PlatSettings Plat ! Seg)")
    case False
    then show ?thesis
      using Cons.IH [OF _ Cons.prems(2,3) segs Cons.prems(5)] Cons.prems(1) by (simp split: option.splits)
  next
    case True
    define rc where "rc = rc_configured Plat Seg (mPcieRcs h ! Seg)"
    define h1 where "h1 = h\<lparr>mPcieRcs := (mPcieRcs h)[Seg := rc],
      HostIo := snd (run_state (PcieInitRc HBS D E rc) (HostIo h))\<rparr>"
    have srs: "list_all2 same_rc rcs (mPcieRcs h1)"
      using Cons.prems(3) sr lt by (simp add: h1_def list_all2_conv_all_nth nth_list_update rc_def
          rc_configured_def same_rc_def)
    have ok1: "bridges_ok p old bs h1" using Cons.prems(2) by (simp add: h1_def bridges_ok_def)
    have ok2: "bridges_ok p old bs (h1\<lparr>allocs := allocs h1 + 1\<rparr>)" using ok1 by (auto simp: bridges_ok_def)
    have run: "run_state (RootBridgeLoop A HBS D E Plat p (Seg # segs) bs) h =
        (if A (allocs h1)
         then run_state (RootBridgeLoop A HBS D E Plat p segs (bs @ [root_bridge_of Seg rc (allocs h1)]))
                (h1\<lparr>allocs := allocs h1 + 1, pool := allocs h1 # pool h1\<rparr>)
         else (None, (h1\<lparr>allocs := allocs h1 + 1, pool := old\<rparr>)))"
      using True lt(2) run_Free [OF ok2]
      by (simp add: run_state_bind io_simps run_host_io run_InitRc EFI_ERROR_def AllocatePool_def rc_at_def
          h1_def rc_def case_prod_unfold)
    show ?thesis
    proof (cases "A (allocs h1)")
      case False
      then show ?thesis using run Cons.prems(1) by auto
    next
      case alloc: True
      let ?b = "root_bridge_of Seg rc (allocs h1)"
      let ?h = "h1\<lparr>allocs := allocs h1 + 1, pool := allocs h1 # pool h1\<rparr>"
      have d: "dp_of ?b = allocs h1" "Segment ?b = Seg" by (simp_all add: dp_of_def root_bridge_of_def)
      have "bridges_ok p old (bs @ [?b]) ?h"
        using ok1 d(1) by (auto simp: bridges_ok_def)
      moreover have "list_all (describes Plat rcs) (bs @ [?b])"
        using Cons.prems(5) describes_bridge [OF sr] by (simp add: rc_def)
      ultimately show ?thesis
        using Cons.IH [of "bs @ [?b]" ?h] run alloc Cons.prems(1) srs segs True d(2)
        by (simp split: option.splits)
    qed
  qed
qed

text \<open>
  The root bridges. Whatever the allocator answers: on success the result lists exactly the
  enabled segments, in order, each with the bus ranges of the platform and of the table, and
  the translations take every bus base to the CPU base of its window; freeing it gives back
  exactly what was allocated. On failure the count is 0 and nothing stays allocated.
\<close>

theorem root_bridges_table:
  "case run_state (PciHostBridgeGetRootBridges A HBS D E (Some Plat)) h of
      ((None, n), h') \<Rightarrow> n = 0 \<and> pool h' = pool h
    | ((Some (p, bs), n), h') \<Rightarrow>
        n = length bs \<and> n > 0 \<and>
        map Segment bs = filter (\<lambda>i. Enabled (PlatSettings Plat ! i)) [0..<length (mPcieRcs h)] \<and>
        list_all (describes Plat (mPcieRcs h)) bs \<and>
        pool (snd (run_state (PciHostBridgeFreeRootBridges (Some (p, bs))) h')) = pool h"
proof (cases "A (allocs h)")
  case False
  then show ?thesis
    by (simp add: PciHostBridgeGetRootBridges_def run_state_bind io_simps AllocatePool_def)
next
  case True
  let ?h = "h\<lparr>allocs := allocs h + 1, pool := allocs h # pool h\<rparr>"
  let ?segs = "[0..<length (mPcieRcs h)]"
  obtain r h' where loop: "run_state (RootBridgeLoop A HBS D E Plat (allocs h) ?segs []) ?h = (r, h')"
    by (metis surj_pair)
  have ok: "bridges_ok (allocs h) (pool h) [] ?h" by (simp add: bridges_ok_def)
  have rr: "list_all2 same_rc (mPcieRcs h) (mPcieRcs ?h)"
    by (simp add: list_all2_conv_all_nth same_rc_def)
  have "set ?segs \<subseteq> {..<length (mPcieRcs h)}" "list_all (describes Plat (mPcieRcs h)) []" by auto
  note L = run_Loop [OF loop ok rr this]
  have run: "run_state (PciHostBridgeGetRootBridges A HBS D E (Some Plat)) h =
      (case r of None \<Rightarrow> ((None, 0), h')
       | Some bs \<Rightarrow> if bs = [] then ((None, 0), h'\<lparr>pool := remove1 (allocs h) (pool h')\<rparr>)
                    else ((Some (allocs h, bs), length bs), h'))"
    using True loop
    by (auto simp: PciHostBridgeGetRootBridges_def run_state_bind io_simps AllocatePool_def FreePool_def
        split: option.split list.split)
  show ?thesis
  proof (cases r)
    case None
    then show ?thesis using run L by auto
  next
    case (Some bs)
    with L have b: "bridges_ok (allocs h) (pool h) bs h'" "list_all (describes Plat (mPcieRcs h)) bs"
      "map Segment bs = filter (\<lambda>i. Enabled (PlatSettings Plat ! i)) ?segs" by auto
    show ?thesis
    proof (cases "bs = []")
      case True
      then show ?thesis using run Some b(1) by (auto simp: bridges_ok_def)
    next
      case False
      then show ?thesis using run Some b run_Free [OF b(1)] by simp
    qed
  qed
qed

theorem root_bridges_table_witness:
  "let h = \<lparr>mPcieRcs = pcie_rcs0, allocs = 0, pool = [], HostIo = (\<lambda>a. 0)\<rparr>;
       on = \<lparr>Enabled = True, MaxLinkSpeed = 2, AspmSupportL0s = False, AspmSupportL1 = True, RcbMatchMps = False,
         VdmToQosMap = 0\<rparr>;
       Plat = \<lparr>Mem32BusBase = 0x80000000, Mem32Size = 0x7ffffffc, PlatSettings = [on\<lparr>Enabled := False\<rparr>, on, on]\<rparr> in
   case run_state (PciHostBridgeGetRootBridges (\<lambda>k. True) (\<lambda>x. 36) reg_dev reg16_dev (Some Plat)) h of
     ((None, n), h') \<Rightarrow> n = 0
   | ((Some (p, bs), n), h') \<Rightarrow> map Segment bs = [1, 2]"
proof -
  let ?h = "\<lparr>mPcieRcs = pcie_rcs0, allocs = 0, pool = [], HostIo = (\<lambda>a. 0) :: u64 \<Rightarrow> u32\<rparr>"
  let ?on = "\<lparr>Enabled = True, MaxLinkSpeed = 2, AspmSupportL0s = False, AspmSupportL1 = True, RcbMatchMps = False,
    VdmToQosMap = 0\<rparr>"
  let ?P = "\<lparr>Mem32BusBase = 0x80000000, Mem32Size = 0x7ffffffc, PlatSettings = [?on\<lparr>Enabled := False\<rparr>, ?on, ?on]\<rparr>"
  have "[0..<length (mPcieRcs ?h)] = [0, 1, 2]" by (simp add: pcie_rcs0_def upt_rec)
  then have "filter (\<lambda>i. Enabled (PlatSettings ?P ! i)) [0..<length (mPcieRcs ?h)] = [1, 2]" by simp
  then show ?thesis
    using root_bridges_table [where h = ?h and A = "\<lambda>k. True" and HBS = "\<lambda>x. 36" and D = reg_dev and
        E = reg16_dev and Plat = ?P]
    unfolding Let_def by (auto split: prod.splits option.splits)
qed

end
