(* ===== verification/Fdt_Reg.thy ===== *)
theory Fdt_Reg
  imports Rpi5_Prelude
begin

section \<open>Addresses in the device tree (BootloaderConfigDxe.c)\<close>

text \<open>
  \<^verbatim>\<open>ReadCells\<close> and \<^verbatim>\<open>BlGetTranslatedRegAddress\<close>: a node's first \<open>reg\<close> entry, carried through the
  \<open>ranges\<close> of every bus above it. The device-tree library is a record of its functions: node
  offsets are integers, negative for an error, and a property is its bytes.

  The walk to the root ends only if the library's parent offsets lead there, so it is a partial
  function: \<open>None\<close> stands for not returning, \<open>Some None\<close> for \<open>FALSE\<close>. The second half states what
  the walk computes for a tree whose properties encode given tables.
\<close>

record fdt_lib =
  FdtCheckHeader :: int
  FdtParentOffset :: "int \<Rightarrow> int"
  FdtAddressCells :: "int \<Rightarrow> int"
  FdtSizeCells :: "int \<Rightarrow> int"
  FdtGetProp :: "int \<Rightarrow> string \<Rightarrow> u8 list option"
  FdtNodeOffsetByCompatible :: "string \<Rightarrow> int"
  FdtNodeOffsetByPhandle :: "u32 \<Rightarrow> int"
  FdtPathOffset :: "string \<Rightarrow> int"

definition fdt_cell :: "u8 list \<Rightarrow> nat \<Rightarrow> u32" where
  "fdt_cell bs i = Be32 (\<lambda>k. bs ! k) (4 * i)"

definition ReadCells :: "u8 list \<Rightarrow> int \<Rightarrow> u64" where
  "ReadCells Cell Count = foldl (\<lambda>v i. push_bit 32 v OR ucast (fdt_cell Cell i)) 0 [0..<nat Count]"

text \<open>
  The search for the first matching entry of \<open>ranges\<close>. An entry has at least two cells where
  the code calls it, so the case of an empty entry is never reached.
\<close>

function RangeMatch :: "int \<Rightarrow> int \<Rightarrow> int \<Rightarrow> u8 list \<Rightarrow> u64 \<Rightarrow> u64 option" where
  "RangeMatch ac pc sc Cell Addr =
     (let n = nat ((ac + pc + sc) * 4) in
      if n = 0 \<or> length Cell < n then None
      else
       (let ChildStart = ReadCells Cell ac;
            ParentStart = ReadCells (drop (nat (4 * ac)) Cell) pc;
            RangeSize = ReadCells (drop (nat (4 * (ac + pc))) Cell) sc in
        if Addr \<ge> ChildStart \<and> Addr - ChildStart < RangeSize
        then Some (ParentStart + (Addr - ChildStart))
        else RangeMatch ac pc sc (drop n Cell) Addr))"
  by pat_completeness auto
termination
  by (relation "measure (\<lambda>(ac, pc, sc, Cell, Addr). length Cell)") auto

declare RangeMatch.simps [simp del]

definition BusRanges :: "fdt_lib \<Rightarrow> int \<Rightarrow> int \<Rightarrow> int \<Rightarrow> int \<Rightarrow> u64 \<Rightarrow> u64 option" where
  "BusRanges F Bus ac pc sc Addr =
     (case FdtGetProp F Bus ''ranges'' of
        None \<Rightarrow> Some Addr
      | Some Cell \<Rightarrow> if length Cell > 0 then RangeMatch ac pc sc Cell Addr else Some Addr)"

partial_function (option) BusWalk :: "fdt_lib \<Rightarrow> int \<Rightarrow> int \<Rightarrow> int \<Rightarrow> u64 \<Rightarrow> u64 option option" where
  "BusWalk F Bus ac sc Addr =
     (if Bus > 0 then
        (let BusParent = FdtParentOffset F Bus; pc = FdtAddressCells F BusParent in
         if BusParent < 0 then Some None
         else if pc < 1 \<or> pc > 2 then Some None
         else
          (case BusRanges F Bus ac pc sc Addr of
             None \<Rightarrow> Some None
           | Some Addr \<Rightarrow>
               (let sc = FdtSizeCells F BusParent in
                if sc < 0 \<or> sc > 2 then Some None else BusWalk F BusParent pc sc Addr)))
      else Some (Some Addr))"

definition BlGetTranslatedRegAddress :: "fdt_lib \<Rightarrow> int \<Rightarrow> (u64 \<times> u64) option option" where
  "BlGetTranslatedRegAddress F NodeOffset =
     (let Bus = FdtParentOffset F NodeOffset; ac = FdtAddressCells F Bus; sc = FdtSizeCells F Bus in
      if Bus < 0 then Some None
      else if ac < 1 \<or> ac > 2 \<or> sc < 0 \<or> sc > 2 then Some None
      else
       (case FdtGetProp F NodeOffset ''reg'' of
          None \<Rightarrow> Some None
        | Some Cell \<Rightarrow>
            if length Cell < nat ((ac + sc) * 4) then Some None
            else map_option (map_option (\<lambda>a. (a, ReadCells (drop (nat (4 * ac)) Cell) sc)))
                   (BusWalk F Bus ac sc (ReadCells Cell ac))))"

text \<open>A chain of parents that only goes down, as in every flattened tree, ends the walk.\<close>

definition parents_descend :: "fdt_lib \<Rightarrow> bool" where
  "parents_descend F = (\<forall>n > 0. FdtParentOffset F n < n)"

lemma BusWalk_returns:
  assumes "parents_descend F"
  shows "\<exists>r. BusWalk F Bus ac sc Addr = Some r"
proof (induction "nat Bus" arbitrary: Bus ac sc Addr rule: less_induct)
  case less
  show ?case
  proof (cases "Bus > 0")
    case True
    then have "FdtParentOffset F Bus < Bus" using assms by (simp add: parents_descend_def)
    then have "\<exists>r. BusWalk F (FdtParentOffset F Bus) ac' sc' Addr' = Some r" for ac' sc' Addr'
      using True by (intro less) simp
    then show ?thesis by (subst BusWalk.simps) (simp add: Let_def split: option.split)
  qed (subst BusWalk.simps, simp)
qed

lemma BlGetTranslatedRegAddress_returns:
  assumes "parents_descend F"
  shows "\<exists>r. BlGetTranslatedRegAddress F Node = Some r"
proof -
  obtain f :: "int \<Rightarrow> int \<Rightarrow> int \<Rightarrow> u64 \<Rightarrow> u64 option" where "BusWalk F Bus ac sc a = Some (f Bus ac sc a)" for Bus ac sc a
    using BusWalk_returns [OF assms] by metis
  then show ?thesis
    by (simp add: BlGetTranslatedRegAddress_def Let_def split: option.split)
qed

subsection \<open>Encoded cells\<close>

definition be_bytes :: "u32 \<Rightarrow> u8 list" where
  "be_bytes v = [ucast (drop_bit 24 v), ucast (drop_bit 16 v), ucast (drop_bit 8 v), ucast v]"

definition enc_cells :: "int \<Rightarrow> u64 \<Rightarrow> u8 list" where
  "enc_cells n v = (if n = 2 then be_bytes (ucast (drop_bit 32 v)) @ be_bytes (ucast v)
                    else if n = 1 then be_bytes (ucast v) else [])"

definition fits :: "int \<Rightarrow> u64 \<Rightarrow> bool" where
  "fits n v = (n = 2 \<or> n = 1 \<and> v < 0x100000000 \<or> n = 0 \<and> v = 0)"

lemma length_enc_cells: "0 \<le> n \<Longrightarrow> n \<le> 2 \<Longrightarrow> length (enc_cells n v) = nat (4 * n)"
  by (auto simp: enc_cells_def be_bytes_def)

lemma fdt_cell_be: "fdt_cell (be_bytes v @ r) 0 = v" "fdt_cell (be_bytes w @ be_bytes v @ r) 1 = v"
  using bytes_of_word32 [of v] by (simp_all add: fdt_cell_def be_bytes_def Be32_def)

lemma ReadCells_enc:
  assumes "fits n v"
  shows "ReadCells (enc_cells n v @ r) n = v"
proof -
  have two: "push_bit 32 (ucast (ucast (drop_bit 32 v) :: u32)) OR ucast (ucast v :: u32) = v"
    by (rule bit_word_eqI) (auto simp: bit_simps)
  have one: "ucast (ucast v :: u32) = v" if "v < 0x100000000"
    using that by (intro word_unat_eq_iff [THEN iffD2])
      (simp add: word_less_nat_alt unsigned_ucast_eq unsigned_take_bit_eq take_bit_nat_eq_self)
  consider "n = 2" | "n = 1" "v < 0x100000000" | "n = 0" "v = 0"
    using assms by (auto simp: fits_def)
  then show ?thesis
    by cases (use two one in \<open>simp_all add: ReadCells_def enc_cells_def fdt_cell_be upt_rec fdt_cell_be(2) [simplified]\<close>)
qed

subsection \<open>What the walk computes\<close>

text \<open>
  A bus as data: its \<open>ranges\<close> table of child address, parent address and size (empty for a bus that maps one to
  one), and the cell counts of its own children and of its parent. \<^verbatim>\<open>bus_chain\<close> says that the tree
  above a node consists of these buses up to the root, with the tables encoded in the properties.
\<close>

type_synonym range_table = "(u64 \<times> u64 \<times> u64) list"

definition enc_range :: "int \<Rightarrow> int \<Rightarrow> int \<Rightarrow> u64 \<times> u64 \<times> u64 \<Rightarrow> u8 list" where
  "enc_range ac pc sc = (\<lambda>(c, p, n). enc_cells ac c @ enc_cells pc p @ enc_cells sc n)"

definition range_fits :: "int \<Rightarrow> int \<Rightarrow> int \<Rightarrow> u64 \<times> u64 \<times> u64 \<Rightarrow> bool" where
  "range_fits ac pc sc = (\<lambda>(c, p, n). fits ac c \<and> fits pc p \<and> fits sc n)"

fun bus_chain :: "fdt_lib \<Rightarrow> int \<Rightarrow> int \<Rightarrow> int \<Rightarrow> range_table list \<Rightarrow> bool" where
  "bus_chain F Bus ac sc [] = (Bus = 0)"
| "bus_chain F Bus ac sc (t # ts) =
     (let P = FdtParentOffset F Bus; pc = FdtAddressCells F P; sc' = FdtSizeCells F P in
      Bus > 0 \<and> P \<ge> 0 \<and> pc \<in> {1, 2} \<and> sc' \<in> {0, 1, 2} \<and> list_all (range_fits ac pc sc) t \<and>
      FdtGetProp F Bus ''ranges'' = Some (concat (map (enc_range ac pc sc) t)) \<and>
      bus_chain F P pc sc' ts)"

fun map_range :: "range_table \<Rightarrow> u64 \<Rightarrow> u64 option" where
  "map_range [] a = None"
| "map_range ((c, p, n) # t) a = (if c \<le> a \<and> a - c < n then Some (p + (a - c)) else map_range t a)"

fun to_root :: "range_table list \<Rightarrow> u64 \<Rightarrow> u64 option" where
  "to_root [] a = Some a"
| "to_root (t # ts) a =
     (if t = [] then to_root ts a
      else case map_range t a of None \<Rightarrow> None | Some a' \<Rightarrow> to_root ts a')"

lemma length_enc_range:
  "ac \<in> {1, 2} \<Longrightarrow> pc \<in> {1, 2} \<Longrightarrow> sc \<in> {0, 1, 2} \<Longrightarrow> length (enc_range ac pc sc e) = nat ((ac + pc + sc) * 4)"
  by (cases e) (auto simp: enc_range_def length_enc_cells)

lemma drop_enc:
  "0 \<le> n \<Longrightarrow> n \<le> 2 \<Longrightarrow> drop (nat (4 * n)) (enc_cells n v @ r) = r"
  by (simp add: length_enc_cells)

lemma RangeMatch_table:
  assumes "ac \<in> {1, 2}" "pc \<in> {1, 2}" "sc \<in> {0, 1, 2}" "list_all (range_fits ac pc sc) t"
  shows "RangeMatch ac pc sc (concat (map (enc_range ac pc sc) t)) a = map_range t a"
  using assms(4)
proof (induction t)
  case Nil
  then show ?case by (subst RangeMatch.simps) (use assms in auto)
next
  case (Cons e t)
  obtain c p n where e: "e = (c, p, n)" by (cases e)
  have f: "fits ac c" "fits pc p" "fits sc n" using Cons.prems by (simp_all add: e range_fits_def)
  let ?r = "concat (map (enc_range ac pc sc) t)"
  have len: "length (enc_range ac pc sc e) = nat ((ac + pc + sc) * 4)" by (rule length_enc_range [OF assms(1-3)])
  have dr: "drop (nat (4 * ac)) (enc_range ac pc sc e @ ?r) = enc_cells pc p @ enc_cells sc n @ ?r"
    using assms(1) by (auto simp: e enc_range_def length_enc_cells)
  have "nat (4 * (ac + pc)) = nat (4 * pc) + nat (4 * ac)" using assms(1,2) by auto
  then have "drop (nat (4 * (ac + pc))) (enc_range ac pc sc e @ ?r) =
      drop (nat (4 * pc)) (drop (nat (4 * ac)) (enc_range ac pc sc e @ ?r))" by (simp only: drop_drop)
  also have "\<dots> = enc_cells sc n @ ?r" unfolding dr by (rule drop_enc) (use assms(2) in auto)
  finally have dr2: "drop (nat (4 * (ac + pc))) (enc_range ac pc sc e @ ?r) = enc_cells sc n @ ?r" .
  define Cell where "Cell = enc_range ac pc sc e @ ?r"
  have rd: "ReadCells Cell ac = c" "ReadCells (drop (nat (4 * ac)) Cell) pc = p"
    "ReadCells (drop (nat (4 * (ac + pc))) Cell) sc = n"
    unfolding Cell_def dr dr2 using f by (simp_all add: ReadCells_enc) (simp add: e enc_range_def ReadCells_enc)
  have step: "\<not> (nat ((ac + pc + sc) * 4) = 0 \<or> length Cell < nat ((ac + pc + sc) * 4))"
    "drop (nat ((ac + pc + sc) * 4)) Cell = ?r"
    using len assms(1-3) by (auto simp: Cell_def)
  have "list_all (range_fits ac pc sc) t" using Cons.prems by simp
  note IH = Cons.IH [OF this]
  have "concat (map (enc_range ac pc sc) (e # t)) = Cell" by (simp add: Cell_def)
  moreover have "RangeMatch ac pc sc Cell a = map_range (e # t) a"
    by (subst RangeMatch.simps) (simp only: Let_def rd step IH if_False e map_range.simps)
  ultimately show ?case by simp
qed

lemma BusWalk_chain:
  "bus_chain F Bus ac sc ts \<Longrightarrow> ac \<in> {1, 2} \<Longrightarrow> sc \<in> {0, 1, 2} \<Longrightarrow> BusWalk F Bus ac sc a = Some (to_root ts a)"
proof (induction ts arbitrary: Bus ac sc a)
  case Nil
  then show ?case by (subst BusWalk.simps) simp
next
  case (Cons t ts)
  define P pc sc' where "P = FdtParentOffset F Bus" and "pc = FdtAddressCells F P" and "sc' = FdtSizeCells F P"
  have c: "Bus > 0" "P \<ge> 0" "pc \<in> {1, 2}" "sc' \<in> {0, 1, 2}" "list_all (range_fits ac pc sc) t"
    "FdtGetProp F Bus ''ranges'' = Some (concat (map (enc_range ac pc sc) t))" "bus_chain F P pc sc' ts"
    using Cons.prems(1) by (simp_all add: P_def pc_def sc'_def Let_def)
  have rng: "BusRanges F Bus ac pc sc a = (if t = [] then Some a else map_range t a)"
  proof (cases t)
    case (Cons e t')
    have "length (enc_range ac pc sc e) > 0"
      using length_enc_range [OF Cons.prems(2) c(3) Cons.prems(3)] Cons.prems(2) c(3) Cons.prems(3) by auto
    then show ?thesis
      using RangeMatch_table [OF Cons.prems(2) c(3) Cons.prems(3) c(5)] c(6) Cons by (simp add: BusRanges_def)
  qed (simp add: BusRanges_def c(6))
  have nb: "\<not> P < 0" "\<not> (pc < 1 \<or> pc > 2)" "\<not> (sc' < 0 \<or> sc' > 2)" using c by auto
  have IH: "BusWalk F P pc sc' a' = Some (to_root ts a')" for a' using Cons.IH [OF c(7,3,4)] .
  show ?case
    by (subst BusWalk.simps)
      (use c(1) nb rng IH in \<open>auto simp: Let_def P_def [symmetric] pc_def [symmetric] sc'_def [symmetric] split: option.split\<close>)
qed

text \<open>
  C30: A register address is read through the device tree exactly. When the buses above a node encode
  the range tables \<open>ts\<close> and the node's \<open>reg\<close> encodes address \<open>a\<close> and size \<open>n\<close>, the result is \<open>a\<close>
  carried through the first matching entry of each table in turn, with \<open>n\<close> unchanged, and failure
  exactly if some table has no matching entry; the walk always returns.
\<close>

theorem reg_address_translated:
  assumes "P = FdtParentOffset F Node" "P \<ge> 0" "ac = FdtAddressCells F P" "sc = FdtSizeCells F P"
    and "ac \<in> {1, 2}" "sc \<in> {0, 1, 2}" "fits ac a" "fits sc n"
    and "FdtGetProp F Node ''reg'' = Some (enc_cells ac a @ enc_cells sc n @ rest)"
    and "bus_chain F P ac sc ts"
  shows "BlGetTranslatedRegAddress F Node = Some (map_option (\<lambda>a'. (a', n)) (to_root ts a))"
proof -
  have "length (enc_cells ac a @ enc_cells sc n @ rest) \<ge> nat ((ac + sc) * 4)"
    using assms(5,6) by (auto simp: length_enc_cells)
  moreover have "drop (nat (4 * ac)) (enc_cells ac a @ enc_cells sc n @ rest) = enc_cells sc n @ rest"
    by (rule drop_enc) (use assms(5) in auto)
  ultimately show ?thesis
    using assms BusWalk_chain [OF assms(10,5,6)] ReadCells_enc [OF assms(7)] ReadCells_enc [OF assms(8)]
    by (auto simp: BlGetTranslatedRegAddress_def Let_def not_less)
qed

text \<open>The tree of the witnesses: the boot SPI behind the SoC bus of a BCM2712.\<close>

definition demo_fdt :: fdt_lib where
  "demo_fdt =
     \<lparr>FdtCheckHeader = 0,
      FdtParentOffset = (\<lambda>n. if n = 200 then 100 else if n = 100 then 0 else -1),
      FdtAddressCells = (\<lambda>n. if n = 100 then 1 else 2), FdtSizeCells = (\<lambda>n. 1),
      FdtGetProp = (\<lambda>n p. if n = 200 \<and> p = ''reg'' then Some (enc_cells 1 0x7d004000 @ enc_cells 1 0x200)
                          else if n = 100 \<and> p = ''ranges'' then Some (enc_range 1 2 1 (0, 0x1000000000, 0x80000000))
                          else None),
      FdtNodeOffsetByCompatible = (\<lambda>c. if c = ''brcm,bcm2835-spi'' then 200 else -1),
      FdtNodeOffsetByPhandle = (\<lambda>h. -1), FdtPathOffset = (\<lambda>p. -1)\<rparr>"

theorem reg_address_translated_witness:
  "BlGetTranslatedRegAddress demo_fdt 200 = Some (Some (0x107d004000, 0x200))"
proof -
  have "BlGetTranslatedRegAddress demo_fdt 200 =
      Some (map_option (\<lambda>a'. (a', 0x200)) (to_root [[(0, 0x1000000000, 0x80000000)]] 0x7d004000))"
    by (rule reg_address_translated [where P = 100 and ac = 1 and sc = 1 and rest = "[]"])
      (simp_all add: demo_fdt_def fits_def range_fits_def)
  then show ?thesis by simp
qed

text \<open>
  The walk up the device tree always ends, whatever the properties hold, if the library's
  parent offsets lead towards the root as those of a flattened tree do.
\<close>

theorem reg_address_returns:
  assumes "parents_descend F"
  shows "\<exists>r. BlGetTranslatedRegAddress F Node = Some r"
  using assms by (rule BlGetTranslatedRegAddress_returns)

theorem reg_address_returns_witness: "\<exists>r. BlGetTranslatedRegAddress demo_fdt 7 = Some r"
  by (rule reg_address_returns) (simp add: parents_descend_def demo_fdt_def)

end
