(* ===== verification/Spi_Flash.thy ===== *)
theory Spi_Flash
  imports Fdt_Reg
begin

section \<open>The boot EEPROM behind the SPI controller (Bcm2712SpiFlash.c)\<close>

text \<open>
  The polled reader of the boot flash: pin multiplexing, chip select, the full-duplex transfer
  loop, the JEDEC probe and the read of an image with both pin encodings. The programs run on
  any register device; \<^verbatim>\<open>Bcm2712BootSpiLocate\<close> reads the device tree with
  the operations of \<^verbatim>\<open>Fdt_Reg\<close>. The transfer loop is a function with a termination proof: every
  turn receives a byte or counts towards the stall limit.

  The second half is a model of the hardware (controller with transmit and receive FIFO and any
  latency up to the stall limit, chip-select line, pin multiplexer, serial flash) on which the
  programs are run.
\<close>

record boot_spi =
  SpiBase :: u64
  CsBankBase :: u64
  CsMask :: u32
  CsPin :: u32
  CsActiveLow :: bool
  PinctrlBase :: u64
  IsD0 :: bool

record boot_spi_result =
  JedecId :: "u8 list"
  UsedD0 :: bool
  Muxed :: bool

definition SPI_REG_CS :: u64 where "SPI_REG_CS = 0x00"
definition SPI_REG_FIFO :: u64 where "SPI_REG_FIFO = 0x04"
definition SPI_REG_CLK :: u64 where "SPI_REG_CLK = 0x08"
definition SPI_CS_CLEAR_TX :: u32 where "SPI_CS_CLEAR_TX = 0x10"
definition SPI_CS_CLEAR_RX :: u32 where "SPI_CS_CLEAR_RX = 0x20"
definition SPI_CS_TA :: u32 where "SPI_CS_TA = 0x80"
definition SPI_CS_DONE :: u32 where "SPI_CS_DONE = 0x10000"
definition SPI_CS_RXD :: u32 where "SPI_CS_RXD = 0x20000"
definition SPI_CS_TXD :: u32 where "SPI_CS_TXD = 0x40000"
definition SPI_CLK_DIVIDER :: u32 where "SPI_CLK_DIVIDER = 64"
definition GIO_BANK_SIZE :: u64 where "GIO_BANK_SIZE = 0x20"
definition GIO_REG_DATA :: u64 where "GIO_REG_DATA = 0x04"
definition GIO_REG_IODIR :: u64 where "GIO_REG_IODIR = 0x08"
definition GPIO_ACTIVE_LOW_FLAG :: u32 where "GPIO_ACTIVE_LOW_FLAG = 0x1"
definition SPI_STALL_LIMIT :: nat where "SPI_STALL_LIMIT = 10000000"
definition FLASH_CMD_RDID :: u8 where "FLASH_CMD_RDID = 0x9F"
definition FLASH_CMD_READ :: u8 where "FLASH_CMD_READ = 0x03"
definition BCM2712_BOOT_SPI_BASE :: u64 where "BCM2712_BOOT_SPI_BASE = 0x107d004000"
definition BCM2712_BOOT_CS_GIO_BASE :: u64 where "BCM2712_BOOT_CS_GIO_BASE = 0x107d508500"
definition BCM2712_BOOT_CS_PIN :: u32 where "BCM2712_BOOT_CS_PIN = 1"

definition mMuxC0 :: "(nat \<times> u32) list" where
  "mMuxC0 = [(4, 0), (8, 6), (12, 5), (16, 6)]"

definition mMuxD0 :: "(nat \<times> u32) list" where
  "mMuxD0 = [(0, 0), (4, 7), (8, 6), (12, 6)]"

subsection \<open>Finding the controller in the device tree\<close>

definition spi_default :: boot_spi where
  "spi_default =
     \<lparr>SpiBase = BCM2712_BOOT_SPI_BASE,
      CsBankBase = BCM2712_BOOT_CS_GIO_BASE + ucast (BCM2712_BOOT_CS_PIN div 32) * GIO_BANK_SIZE,
      CsMask = push_bit (unat (BCM2712_BOOT_CS_PIN mod 32)) 1, CsPin = BCM2712_BOOT_CS_PIN,
      CsActiveLow = True, PinctrlBase = 0, IsD0 = False\<rparr>"

text \<open>The address of a node that may be missing: \<open>Node >= 0 && BlGetTranslatedRegAddress (...)\<close>.\<close>

definition node_reg :: "fdt_lib \<Rightarrow> int \<Rightarrow> (u64 \<times> u64) option option" where
  "node_reg F Node = (if Node \<ge> 0 then BlGetTranslatedRegAddress F Node else Some None)"

definition spi_cs_gpios :: "fdt_lib \<Rightarrow> int \<Rightarrow> boot_spi \<Rightarrow> boot_spi option" where
  "spi_cs_gpios F Node Spi =
     (case FdtGetProp F Node ''cs-gpios'' of
        None \<Rightarrow> Some Spi
      | Some Prop \<Rightarrow>
          if length Prop < 3 * 4 then Some Spi
          else
           (let Phandle = fdt_cell Prop 0; Pin = fdt_cell Prop 1; Flags = fdt_cell Prop 2 in
            case node_reg F (FdtNodeOffsetByPhandle F Phandle) of
              None \<Rightarrow> None
            | Some None \<Rightarrow> Some Spi
            | Some (Some (Address, Size)) \<Rightarrow>
                Some (Spi\<lparr>CsBankBase := Address + ucast (Pin div 32) * GIO_BANK_SIZE,
                    CsMask := push_bit (unat (Pin mod 32)) 1, CsPin := Pin,
                    CsActiveLow := Flags AND GPIO_ACTIVE_LOW_FLAG \<noteq> 0\<rparr>)))"

definition spi_pinctrl :: "fdt_lib \<Rightarrow> boot_spi \<Rightarrow> boot_spi option" where
  "spi_pinctrl F Spi =
     (let d0 = FdtNodeOffsetByCompatible F ''brcm,bcm2712d0-pinctrl'';
          c0 = FdtNodeOffsetByCompatible F ''brcm,bcm2712c0-pinctrl'';
          Node = (if d0 \<ge> 0 then d0
                  else if c0 < 0 then FdtNodeOffsetByCompatible F ''brcm,bcm2712-pinctrl'' else c0);
          Spi = (if d0 \<ge> 0 then Spi\<lparr>IsD0 := True\<rparr> else Spi) in
      case node_reg F Node of
        None \<Rightarrow> None
      | Some None \<Rightarrow> Some Spi
      | Some (Some (Address, Size)) \<Rightarrow> Some (Spi\<lparr>PinctrlBase := Address\<rparr>))"

definition Bcm2712BootSpiLocate :: "fdt_lib \<Rightarrow> (efi_status \<times> boot_spi) option" where
  "Bcm2712BootSpiLocate F =
     (let Node = FdtNodeOffsetByCompatible F ''brcm,bcm2835-spi'';
          found = (if Node < 0 then Some spi_default
                   else (case BlGetTranslatedRegAddress F Node of
                           None \<Rightarrow> None
                         | Some None \<Rightarrow> Some spi_default
                         | Some (Some (Address, Size)) \<Rightarrow>
                             spi_cs_gpios F Node (spi_default\<lparr>SpiBase := Address\<rparr>))) in
      case found of
        None \<Rightarrow> None
      | Some Spi \<Rightarrow> map_option (\<lambda>Spi. (EFI_SUCCESS, Spi)) (spi_pinctrl F Spi))"

text \<open>
  The search ends on every descending tree, always with \<open>EFI_SUCCESS\<close>, and a tree without a boot
  SPI node leaves the fixed addresses of the chip.
\<close>

lemma node_reg_returns: "parents_descend F \<Longrightarrow> \<exists>r. node_reg F n = Some r"
  using BlGetTranslatedRegAddress_returns [of F n] by (simp add: node_reg_def)

lemma spi_pinctrl_frame:
  "spi_pinctrl F S = Some S' \<Longrightarrow> SpiBase S' = SpiBase S \<and> CsBankBase S' = CsBankBase S \<and> CsMask S' = CsMask S \<and>
    CsPin S' = CsPin S \<and> CsActiveLow S' = CsActiveLow S"
  unfolding spi_pinctrl_def Let_def
  by (cases "FdtNodeOffsetByCompatible F ''brcm,bcm2712d0-pinctrl'' \<ge> 0") (auto split: option.splits)

lemma spi_pinctrl_returns: "parents_descend F \<Longrightarrow> \<exists>S'. spi_pinctrl F S = Some S'"
proof -
  assume "parents_descend F"
  then obtain r where "node_reg F (if FdtNodeOffsetByCompatible F ''brcm,bcm2712d0-pinctrl'' \<ge> 0
      then FdtNodeOffsetByCompatible F ''brcm,bcm2712d0-pinctrl''
      else if FdtNodeOffsetByCompatible F ''brcm,bcm2712c0-pinctrl'' < 0
      then FdtNodeOffsetByCompatible F ''brcm,bcm2712-pinctrl''
      else FdtNodeOffsetByCompatible F ''brcm,bcm2712c0-pinctrl'') = Some r"
    using node_reg_returns by blast
  then show ?thesis by (simp only: spi_pinctrl_def Let_def option.case) (auto split: option.split)
qed

lemma locate_fallback:
  assumes "FdtNodeOffsetByCompatible F ''brcm,bcm2835-spi'' < 0" "parents_descend F"
  shows "\<exists>Spi. Bcm2712BootSpiLocate F = Some (EFI_SUCCESS, Spi) \<and> SpiBase Spi = BCM2712_BOOT_SPI_BASE \<and>
    CsBankBase Spi = BCM2712_BOOT_CS_GIO_BASE \<and> CsMask Spi = 2 \<and> CsPin Spi = 1 \<and> CsActiveLow Spi"
proof -
  obtain S' where S': "spi_pinctrl F spi_default = Some S'" using spi_pinctrl_returns [OF assms(2)] by blast
  have "Bcm2712BootSpiLocate F = Some (EFI_SUCCESS, S')"
    using assms(1) S' by (simp only: Bcm2712BootSpiLocate_def Let_def if_True option.case option.map)
  then show ?thesis
    using spi_pinctrl_frame [OF S'] by (simp add: spi_default_def BCM2712_BOOT_CS_PIN_def)
qed

subsection \<open>Pins and chip select\<close>

definition mux_put :: "nat \<Rightarrow> u32 \<Rightarrow> u32 \<Rightarrow> u32" where
  "mux_put Shift Fsel Value = (Value AND NOT (push_bit Shift 0xF)) OR push_bit Shift Fsel"

fun MuxValue :: "boot_spi \<Rightarrow> nat \<Rightarrow> (nat \<times> u32) list \<Rightarrow> u32 \<Rightarrow> u32" where
  "MuxValue Spi Index [] Value = Value"
| "MuxValue Spi Index ((Shift, Fsel) # fs) Value =
     (if Index = 0 \<and> CsPin Spi \<noteq> 1 then MuxValue Spi (Index + 1) fs Value
      else MuxValue Spi (Index + 1) fs (mux_put Shift Fsel Value))"

definition SpiMuxPins :: "'s iodev \<Rightarrow> boot_spi \<Rightarrow> ('s, u32) state" where
  "SpiMuxPins D Spi = do {
     Original \<leftarrow> MmioRead32 D (PinctrlBase Spi);
     let Value = MuxValue Spi 0 (if IsD0 Spi then mMuxD0 else mMuxC0) Original;
     (if Value \<noteq> Original then MmioWrite32 D (PinctrlBase Spi) Value else State_Monad.return ());
     State_Monad.return Original
   }"

definition SpiCsSet :: "'s iodev \<Rightarrow> boot_spi \<Rightarrow> bool \<Rightarrow> ('s, unit) state" where
  "SpiCsSet D Spi Assert =
     (let High = (if Assert then \<not> CsActiveLow Spi else CsActiveLow Spi) in
      if High then MmioOr32 D (CsBankBase Spi + GIO_REG_DATA) (CsMask Spi)
      else MmioAnd32 D (CsBankBase Spi + GIO_REG_DATA) (NOT (CsMask Spi)))"

definition SpiIdle :: "'s iodev \<Rightarrow> boot_spi \<Rightarrow> ('s, unit) state" where
  "SpiIdle D Spi = do {
     SpiCsSet D Spi False;
     MmioAnd32 D (CsBankBase Spi + GIO_REG_IODIR) (NOT (CsMask Spi));
     MmioWrite32 D (SpiBase Spi + SPI_REG_CS) (SPI_CS_CLEAR_RX OR SPI_CS_CLEAR_TX);
     MmioWrite32 D (SpiBase Spi + SPI_REG_CLK) SPI_CLK_DIVIDER
   }"

subsection \<open>Transfers\<close>

text \<open>
  The main loop over the positions \<open>Sent\<close> and \<open>Received\<close>, the stall counter \<open>Idle\<close> and the bytes stored in
  \<open>Rx\<close> so far; the result tells whether the loop ran to the end.
\<close>

function (sequential) XferLoop ::
  "'s iodev \<Rightarrow> boot_spi \<Rightarrow> u8 list \<Rightarrow> nat \<Rightarrow> nat \<Rightarrow> nat \<Rightarrow> nat \<Rightarrow> u8 list \<Rightarrow> 's \<Rightarrow> (bool \<times> u8 list) \<times> 's" where
  "XferLoop D Spi Tx Tot Sent Received Idle Rx s =
     (if Received < Tot then
        (case io_rd D (SpiBase Spi + SPI_REG_CS) s of (Status, s) \<Rightarrow>
           (let send = Status AND SPI_CS_TXD \<noteq> 0 \<and> Sent < Tot;
                s = (if send then io_wr D (SpiBase Spi + SPI_REG_FIFO)
                                    (if Sent < length Tx then ucast (Tx ! Sent) else 0) s else s);
                Sent = (if send then Sent + 1 else Sent) in
            if Status AND SPI_CS_RXD \<noteq> 0
            then (case io_rd D (SpiBase Spi + SPI_REG_FIFO) s of (v, s) \<Rightarrow>
                    XferLoop D Spi Tx Tot Sent (Received + 1) 0
                      (if Received \<ge> length Tx then Rx @ [ucast v] else Rx) s)
            else if Idle + 1 > SPI_STALL_LIMIT then ((False, Rx), s)
            else XferLoop D Spi Tx Tot Sent Received (Idle + 1) Rx s))
      else ((True, Rx), s))"
  by pat_completeness auto
termination
  by (relation "measures [\<lambda>(D, Spi, Tx, Tot, Sent, Received, Idle, Rx, s). Tot - Received,
       \<lambda>(D, Spi, Tx, Tot, Sent, Received, Idle, Rx, s). SPI_STALL_LIMIT - Idle]") auto

declare XferLoop.simps [simp del]

function DoneWait :: "'s iodev \<Rightarrow> boot_spi \<Rightarrow> nat \<Rightarrow> 's \<Rightarrow> 's" where
  "DoneWait D Spi Idle s =
     (case io_rd D (SpiBase Spi + SPI_REG_CS) s of (v, s) \<Rightarrow>
        if v AND SPI_CS_DONE = 0
        then (if Idle + 1 > SPI_STALL_LIMIT then s else DoneWait D Spi (Idle + 1) s)
        else s)"
  by pat_completeness auto
termination
  by (relation "measure (\<lambda>(D, Spi, Idle, s). SPI_STALL_LIMIT - Idle)") auto

declare DoneWait.simps [simp del]

definition SpiXfer :: "'s iodev \<Rightarrow> boot_spi \<Rightarrow> u8 list \<Rightarrow> nat \<Rightarrow> ('s, efi_status \<times> u8 list) state" where
  "SpiXfer D Spi Tx RxLen = do {
     MmioWrite32 D (SpiBase Spi + SPI_REG_CS) (SPI_CS_TA OR SPI_CS_CLEAR_RX OR SPI_CS_CLEAR_TX);
     (ok, Rx) \<leftarrow> State (XferLoop D Spi Tx (length Tx + RxLen) 0 0 0 []);
     (if ok then do {
        modify (DoneWait D Spi 0);
        MmioWrite32 D (SpiBase Spi + SPI_REG_CS) (SPI_CS_CLEAR_RX OR SPI_CS_CLEAR_TX);
        State_Monad.return (EFI_SUCCESS, Rx)
      }
      else do {
        MmioWrite32 D (SpiBase Spi + SPI_REG_CS) (SPI_CS_CLEAR_RX OR SPI_CS_CLEAR_TX);
        State_Monad.return (EFI_TIMEOUT, Rx)
      })
   }"

text \<open>The three bytes of \<open>Id\<close> are zeroed before the transfer stores what it receives.\<close>

definition store_id :: "u8 list \<Rightarrow> u8 list" where
  "store_id rx = take 3 (rx @ [0, 0, 0])"

fun ProbeLoop :: "'s iodev \<Rightarrow> boot_spi \<Rightarrow> nat \<Rightarrow> u8 list \<Rightarrow> ('s, efi_status \<times> u8 list) state" where
  "ProbeLoop D Spi 0 jid = State_Monad.return (EFI_DEVICE_ERROR, jid)"
| "ProbeLoop D Spi (Suc n) jid = do {
     SpiCsSet D Spi True;
     (Status, rx) \<leftarrow> SpiXfer D Spi [FLASH_CMD_RDID] 3;
     SpiCsSet D Spi False;
     let jid = store_id rx;
     (if \<not> EFI_ERROR Status \<and> jid \<noteq> [0, 0, 0] \<and> jid \<noteq> [0xFF, 0xFF, 0xFF]
      then State_Monad.return (EFI_SUCCESS, jid)
      else do { Stall D 10000; ProbeLoop D Spi n jid })
   }"

definition SpiProbeJedec :: "'s iodev \<Rightarrow> boot_spi \<Rightarrow> u8 list \<Rightarrow> ('s, efi_status \<times> u8 list) state" where
  "SpiProbeJedec D Spi jid = ProbeLoop D Spi 2 jid"

subsection \<open>Reading the image\<close>

record spi_attempt =
  at_status :: efi_status
  at_work :: boot_spi
  at_mux :: u32
  at_muxed :: bool
  at_id :: "u8 list"

fun AttemptLoop :: "'s iodev \<Rightarrow> boot_spi \<Rightarrow> nat list \<Rightarrow> spi_attempt \<Rightarrow> ('s, spi_attempt) state" where
  "AttemptLoop D Spi [] t = State_Monad.return t"
| "AttemptLoop D Spi (Attempt # as) t = do {
     let Work = (at_work t)\<lparr>IsD0 := (if Attempt = 0 then IsD0 Spi else \<not> IsD0 Spi)\<rparr>;
     (mux, muxed) \<leftarrow> (if PinctrlBase Work \<noteq> 0
                       then do { m \<leftarrow> SpiMuxPins D Work; State_Monad.return (m, True) }
                       else State_Monad.return (at_mux t, False));
     SpiIdle D Work;
     (Status, jid) \<leftarrow> SpiProbeJedec D Work (at_id t);
     (if \<not> EFI_ERROR Status
      then State_Monad.return \<lparr>at_status = Status, at_work = Work, at_mux = mux, at_muxed = muxed, at_id = jid\<rparr>
      else if muxed
      then do {
        MmioWrite32 D (PinctrlBase Work) mux;
        AttemptLoop D Spi as \<lparr>at_status = Status, at_work = Work, at_mux = mux, at_muxed = False, at_id = jid\<rparr>
      }
      else State_Monad.return \<lparr>at_status = Status, at_work = Work, at_mux = mux, at_muxed = muxed, at_id = jid\<rparr>)
   }"

definition Bcm2712BootSpiReadImage ::
  "'s iodev \<Rightarrow> boot_spi \<Rightarrow> nat \<Rightarrow> ('s, efi_status \<times> u8 list \<times> boot_spi_result) state" where
  "Bcm2712BootSpiReadImage D Spi Len = do {
     t \<leftarrow> AttemptLoop D Spi [0, 1]
            \<lparr>at_status = EFI_DEVICE_ERROR, at_work = Spi, at_mux = 0, at_muxed = False, at_id = [0, 0, 0]\<rparr>;
     let Result = \<lparr>JedecId = at_id t, UsedD0 = IsD0 (at_work t), Muxed = at_muxed t\<rparr>;
     (if EFI_ERROR (at_status t) then State_Monad.return (EFI_DEVICE_ERROR, [], Result)
      else do {
        SpiCsSet D (at_work t) True;
        (Status, Buffer) \<leftarrow> SpiXfer D (at_work t) [FLASH_CMD_READ, 0, 0, 0] Len;
        SpiCsSet D (at_work t) False;
        (if at_muxed t then MmioWrite32 D (PinctrlBase (at_work t)) (at_mux t)
         else State_Monad.return ());
        State_Monad.return (Status, Buffer, Result)
      })
   }"

subsection \<open>The hardware\<close>

text \<open>
  A controller that moves one byte between the FIFOs and the bus at every \<open>lat + 1\<close>-th read of
  its status, a chip-select pin, the pin multiplexer of a C0 or D0 chip (\<open>d0\<close>) and a serial
  flash with the given memory and identification. A flash that is not selected, or not
  connected because the multiplexer is set for the other stepping, leaves the line high.
\<close>

record spi_hw =
  tx_fifo :: "u8 list"
  rx_fifo :: "u8 list"
  busy :: nat
  hist :: "u8 list"
  gio_data :: u32
  gio_dir :: u32
  mux_reg :: u32
  clk_reg :: u32

definition flash_resp :: "(nat \<Rightarrow> u8) \<Rightarrow> u8 list \<Rightarrow> u8 list \<Rightarrow> u8" where
  "flash_resp mem jid seen =
     (if seen = [] then 0xFF
      else if hd seen = 0x9F then (if length seen \<le> length jid then jid ! (length seen - 1) else 0)
      else if hd seen = 0x03 \<and> length seen \<ge> 4
      then mem (unat (seen ! 1) * 65536 + unat (seen ! 2) * 256 + unat (seen ! 3) + (length seen - 4))
      else 0xFF)"

definition mux_ok :: "boot_spi \<Rightarrow> bool \<Rightarrow> u32 \<Rightarrow> bool" where
  "mux_ok S d0 m = (MuxValue S 0 (if d0 then mMuxD0 else mMuxC0) m = m)"

definition selected :: "boot_spi \<Rightarrow> u32 \<Rightarrow> bool" where
  "selected S v = (if CsActiveLow S then v AND CsMask S = 0 else v AND CsMask S \<noteq> 0)"

definition reply :: "boot_spi \<Rightarrow> bool \<Rightarrow> (nat \<Rightarrow> u8) \<Rightarrow> u8 list \<Rightarrow> spi_hw \<Rightarrow> u8 list \<Rightarrow> u8" where
  "reply S d0 mem jid h seen =
     (if selected S (gio_data h) \<and> mux_ok S d0 (mux_reg h) then flash_resp mem jid seen else 0xFF)"

definition spi_tick :: "boot_spi \<Rightarrow> bool \<Rightarrow> nat \<Rightarrow> (nat \<Rightarrow> u8) \<Rightarrow> u8 list \<Rightarrow> spi_hw \<Rightarrow> spi_hw" where
  "spi_tick S d0 lat mem jid h =
     (case tx_fifo h of
        [] \<Rightarrow> h
      | b # bs \<Rightarrow>
          if busy h = 0
          then h\<lparr>tx_fifo := bs, rx_fifo := rx_fifo h @ [reply S d0 mem jid h (hist h)],
                 hist := hist h @ [b], busy := lat\<rparr>
          else h\<lparr>busy := busy h - 1\<rparr>)"

definition spi_status :: "spi_hw \<Rightarrow> u32" where
  "spi_status h = (if length (tx_fifo h) < 16 then SPI_CS_TXD else 0) OR
     (if rx_fifo h \<noteq> [] then SPI_CS_RXD else 0) OR (if tx_fifo h = [] then SPI_CS_DONE else 0)"

definition spi_rd :: "boot_spi \<Rightarrow> bool \<Rightarrow> nat \<Rightarrow> (nat \<Rightarrow> u8) \<Rightarrow> u8 list \<Rightarrow> u64 \<Rightarrow> spi_hw \<Rightarrow> u32 \<times> spi_hw" where
  "spi_rd S d0 lat mem jid a h =
     (if a = SpiBase S + SPI_REG_CS
      then (let h = spi_tick S d0 lat mem jid h in (spi_status h, h))
      else if a = SpiBase S + SPI_REG_FIFO
      then (case rx_fifo h of [] \<Rightarrow> (0, h) | b # bs \<Rightarrow> (ucast b, h\<lparr>rx_fifo := bs\<rparr>))
      else if a = CsBankBase S + GIO_REG_DATA then (gio_data h, h)
      else if a = CsBankBase S + GIO_REG_IODIR then (gio_dir h, h)
      else if a = PinctrlBase S then (mux_reg h, h)
      else (0, h))"

definition spi_wr :: "boot_spi \<Rightarrow> u64 \<Rightarrow> u32 \<Rightarrow> spi_hw \<Rightarrow> spi_hw" where
  "spi_wr S a v h =
     (if a = SpiBase S + SPI_REG_CS
      then (let h = (if v AND SPI_CS_CLEAR_TX \<noteq> 0 then h\<lparr>tx_fifo := []\<rparr> else h) in
            if v AND SPI_CS_CLEAR_RX \<noteq> 0 then h\<lparr>rx_fifo := []\<rparr> else h)
      else if a = SpiBase S + SPI_REG_FIFO then h\<lparr>tx_fifo := tx_fifo h @ [ucast v]\<rparr>
      else if a = SpiBase S + SPI_REG_CLK then h\<lparr>clk_reg := v\<rparr>
      else if a = CsBankBase S + GIO_REG_DATA
      then h\<lparr>gio_data := v, hist := (if selected S v then hist h else [])\<rparr>
      else if a = CsBankBase S + GIO_REG_IODIR then h\<lparr>gio_dir := v\<rparr>
      else if a = PinctrlBase S then h\<lparr>mux_reg := v\<rparr>
      else h)"

definition spi_dev :: "boot_spi \<Rightarrow> bool \<Rightarrow> nat \<Rightarrow> (nat \<Rightarrow> u8) \<Rightarrow> u8 list \<Rightarrow> spi_hw iodev" where
  "spi_dev S d0 lat mem jid =
     \<lparr>io_rd = spi_rd S d0 lat mem jid, io_wr = spi_wr S, io_stall = (\<lambda>us h. h)\<rparr>"

definition spi_wired :: "boot_spi \<Rightarrow> bool" where
  "spi_wired S = (PinctrlBase S \<noteq> 0 \<and> CsMask S \<noteq> 0 \<and>
     distinct [SpiBase S + SPI_REG_CS, SpiBase S + SPI_REG_FIFO, SpiBase S + SPI_REG_CLK,
       CsBankBase S + GIO_REG_DATA, CsBankBase S + GIO_REG_IODIR, PinctrlBase S])"

lemmas spi_regs = SPI_REG_CS_def SPI_REG_FIFO_def SPI_REG_CLK_def GIO_REG_DATA_def GIO_REG_IODIR_def

lemma spi_dev_sel:
  "io_rd (spi_dev S d0 lat mem jid) = spi_rd S d0 lat mem jid" "io_wr (spi_dev S d0 lat mem jid) = spi_wr S"
  "io_stall (spi_dev S d0 lat mem jid) us h = h"
  by (simp_all add: spi_dev_def)

lemma status_bits:
  "spi_status h AND SPI_CS_TXD \<noteq> 0 \<longleftrightarrow> length (tx_fifo h) < 16"
  "spi_status h AND SPI_CS_RXD \<noteq> 0 \<longleftrightarrow> rx_fifo h \<noteq> []"
  "spi_status h AND SPI_CS_DONE = 0 \<longleftrightarrow> tx_fifo h \<noteq> []"
  by (simp_all add: spi_status_def SPI_CS_TXD_def SPI_CS_RXD_def SPI_CS_DONE_def)

lemma read_status: "spi_rd S d0 lat mem jid (SpiBase S + SPI_REG_CS) h =
    (spi_status (spi_tick S d0 lat mem jid h), spi_tick S d0 lat mem jid h)"
  by (simp add: spi_rd_def Let_def)

lemma fifo_access:
  "spi_wr S (SpiBase S + SPI_REG_FIFO) v h = h\<lparr>tx_fifo := tx_fifo h @ [ucast v]\<rparr>"
  "spi_rd S d0 lat mem jid (SpiBase S + SPI_REG_FIFO) h =
     (case rx_fifo h of [] \<Rightarrow> (0, h) | b # bs \<Rightarrow> (ucast b, h\<lparr>rx_fifo := bs\<rparr>))"
  by (simp_all add: spi_wr_def spi_rd_def spi_regs)

subsection \<open>A transfer\<close>

text \<open>How many more turns of the loop pass before the next byte can be received.\<close>

definition wait_for :: "nat \<Rightarrow> spi_hw \<Rightarrow> nat" where
  "wait_for lat h = (if rx_fifo h \<noteq> [] then 0 else if tx_fifo h \<noteq> [] then busy h else lat + 1)"

text \<open>The loop invariant: \<open>out\<close> is what goes out, \<open>k\<close> bytes of it are on the bus already, the
  FIFOs hold what is before and behind that point.\<close>

definition xfer_inv ::
  "nat \<Rightarrow> (u8 list \<Rightarrow> u8) \<Rightarrow> u8 list \<Rightarrow> nat \<Rightarrow> nat \<Rightarrow> nat \<Rightarrow> nat \<Rightarrow> u8 list \<Rightarrow> spi_hw \<Rightarrow> bool" where
  "xfer_inv lat R out T Sent Received Idle Rx h =
     (\<exists>k. hist h = take k out \<and> tx_fifo h = drop k (take Sent out) \<and>
        rx_fifo h = map (\<lambda>i. R (take i out)) [Received..<k] \<and> Received \<le> k \<and> k \<le> Sent \<and> Sent \<le> length out \<and>
        busy h \<le> lat \<and> Rx = map (\<lambda>i. R (take i out)) [T..<Received] \<and> Idle + wait_for lat h \<le> lat + 1)"

definition same_pins :: "spi_hw \<Rightarrow> spi_hw \<Rightarrow> bool" where
  "same_pins h h' = (gio_data h' = gio_data h \<and> mux_reg h' = mux_reg h \<and> gio_dir h' = gio_dir h \<and>
     clk_reg h' = clk_reg h)"

lemma spi_tick_inv:
  assumes "xfer_inv lat (reply S d0 mem jid h) out T Sent Received Idle Rx h"
  defines "h' \<equiv> spi_tick S d0 lat mem jid h"
  shows "same_pins h h'"
    and "\<exists>k. hist h' = take k out \<and> tx_fifo h' = drop k (take Sent out) \<and>
      rx_fifo h' = map (\<lambda>i. reply S d0 mem jid h (take i out)) [Received..<k] \<and> Received \<le> k \<and> k \<le> Sent \<and>
      Sent \<le> length out \<and> busy h' \<le> lat"
    and "rx_fifo h' = [] \<Longrightarrow> tx_fifo h \<noteq> [] \<Longrightarrow> Idle + 1 + wait_for lat h' \<le> lat + 1 \<and> tx_fifo h' \<noteq> []"
proof -
  obtain k where k: "hist h = take k out" "tx_fifo h = drop k (take Sent out)"
    "rx_fifo h = map (\<lambda>i. reply S d0 mem jid h (take i out)) [Received..<k]" "Received \<le> k" "k \<le> Sent"
    "Sent \<le> length out" "busy h \<le> lat" "Idle + wait_for lat h \<le> lat + 1"
    using assms(1) by (auto simp: xfer_inv_def)
  show "same_pins h h'"
    by (simp add: h'_def spi_tick_def same_pins_def split: list.split)
  show "\<exists>k. hist h' = take k out \<and> tx_fifo h' = drop k (take Sent out) \<and>
      rx_fifo h' = map (\<lambda>i. reply S d0 mem jid h (take i out)) [Received..<k] \<and> Received \<le> k \<and> k \<le> Sent \<and>
      Sent \<le> length out \<and> busy h' \<le> lat"
  proof (cases "tx_fifo h \<noteq> [] \<and> busy h = 0")
    case True
    then have lt: "k < Sent" using k(2,6) by auto
    then have tx: "tx_fifo h = out ! k # drop (Suc k) (take Sent out)"
      using k(2,6) by (simp add: Cons_nth_drop_Suc [symmetric])
    show ?thesis
      using True tx k lt by (intro exI [of _ "Suc k"])
        (simp add: h'_def spi_tick_def take_Suc_conv_app_nth)
  next
    case False
    then show ?thesis
      using k by (intro exI [of _ k]) (auto simp: h'_def spi_tick_def split: list.split)
  qed
  show "Idle + 1 + wait_for lat h' \<le> lat + 1 \<and> tx_fifo h' \<noteq> []" if "rx_fifo h' = []" "tx_fifo h \<noteq> []"
    using that k(8) by (auto simp: h'_def spi_tick_def wait_for_def split: list.splits if_splits)
qed

lemma reply_same_pins: "same_pins h h' \<Longrightarrow> reply S d0 mem jid h' = reply S d0 mem jid h"
  by (simp add: same_pins_def reply_def fun_eq_iff)

lemma same_pins_upd [simp]:
  "same_pins h (h'\<lparr>tx_fifo := xs\<rparr>) = same_pins h h'" "same_pins h (h'\<lparr>rx_fifo := xs\<rparr>) = same_pins h h'"
  by (simp_all add: same_pins_def)

lemma same_pins_trans: "same_pins h h' \<Longrightarrow> same_pins h' h'' \<Longrightarrow> same_pins h h''"
  by (simp add: same_pins_def)

text \<open>The part of a turn before the receive: status read and, if there is room, the next byte sent.\<close>

definition turn_sends :: "boot_spi \<Rightarrow> bool \<Rightarrow> nat \<Rightarrow> (nat \<Rightarrow> u8) \<Rightarrow> u8 list \<Rightarrow> u8 list \<Rightarrow> nat \<Rightarrow> spi_hw \<Rightarrow> nat \<times> spi_hw" where
  "turn_sends S d0 lat mem jid out Sent h =
     (let h' = spi_tick S d0 lat mem jid h in
      if length (tx_fifo h') < 16 \<and> Sent < length out
      then (Suc Sent, h'\<lparr>tx_fifo := tx_fifo h' @ [out ! Sent]\<rparr>) else (Sent, h'))"

lemma turn_inv:
  assumes inv: "xfer_inv lat R out T Sent Received Idle Rx h" and R: "reply S d0 mem jid h = R"
    and more: "Received < length out"
  defines "h' \<equiv> snd (turn_sends S d0 lat mem jid out Sent h)"
    and "n \<equiv> fst (turn_sends S d0 lat mem jid out Sent h)"
  shows "same_pins h h'"
    and "\<exists>k. hist h' = take k out \<and> tx_fifo h' = drop k (take n out) \<and>
      rx_fifo h' = map (\<lambda>i. R (take i out)) [Received..<k] \<and> Received \<le> k \<and> k \<le> n \<and>
      n \<le> length out \<and> busy h' \<le> lat"
    and "rx_fifo h' = [] \<Longrightarrow> Idle + 1 + wait_for lat h' \<le> lat + 1"
proof -
  note inv' = inv [folded R]
  let ?t = "spi_tick S d0 lat mem jid h"
  have pins: "same_pins h ?t" by (rule spi_tick_inv(1) [OF inv'])
  then show "same_pins h h'" by (simp add: h'_def turn_sends_def Let_def)
  obtain k where k: "hist ?t = take k out" "tx_fifo ?t = drop k (take Sent out)"
    "rx_fifo ?t = map (\<lambda>i. R (take i out)) [Received..<k]" "Received \<le> k" "k \<le> Sent"
    "Sent \<le> length out" "busy ?t \<le> lat"
    using spi_tick_inv(2) [OF inv'] unfolding R by blast
  have snoc: "drop k (take Sent out) @ [out ! Sent] = drop k (take (Suc Sent) out)" if "Sent < length out"
    using that k(5) by (simp add: take_Suc_conv_app_nth)
  show "\<exists>k. hist h' = take k out \<and> tx_fifo h' = drop k (take n out) \<and>
      rx_fifo h' = map (\<lambda>i. R (take i out)) [Received..<k] \<and> Received \<le> k \<and> k \<le> n \<and>
      n \<le> length out \<and> busy h' \<le> lat"
    by (rule exI [of _ k]) (use k snoc in \<open>auto simp: h'_def n_def turn_sends_def Let_def\<close>)
  show "Idle + 1 + wait_for lat h' \<le> lat + 1" if rx: "rx_fifo h' = []"
  proof (cases "tx_fifo h = []")
    case False
    have "rx_fifo ?t = []" using rx by (simp add: h'_def turn_sends_def Let_def split: if_splits)
    from spi_tick_inv(3) [OF inv' this False] show ?thesis
      by (auto simp: h'_def turn_sends_def Let_def wait_for_def split: if_splits)
  next
    case True
    then have t: "?t = h" by (simp add: spi_tick_def)
    have rx': "rx_fifo h = []" using rx by (simp add: h'_def turn_sends_def Let_def t split: if_splits)
    have eq: "Sent = Received" "Idle = 0"
      using inv True rx' by (auto simp: xfer_inv_def wait_for_def)
    then show ?thesis using more True rx' k(7)
      by (simp add: h'_def turn_sends_def Let_def t wait_for_def)
  qed
qed

lemma XferLoop_turn:
  assumes "length Tx + RxLen = Tot" "out = Tx @ replicate RxLen 0" "Received < Tot"
    and ts: "turn_sends S d0 lat mem jid out Sent h = (n, h')"
  shows "XferLoop (spi_dev S d0 lat mem jid) S Tx Tot Sent Received Idle Rx h =
    (case rx_fifo h' of
       b # bs \<Rightarrow> XferLoop (spi_dev S d0 lat mem jid) S Tx Tot n (Received + 1) 0
                  (if Received \<ge> length Tx then Rx @ [b] else Rx) (h'\<lparr>rx_fifo := bs\<rparr>)
     | [] \<Rightarrow> if Idle + 1 > SPI_STALL_LIMIT then ((False, Rx), h')
            else XferLoop (spi_dev S d0 lat mem jid) S Tx Tot n Received (Idle + 1) Rx h')"
proof -
  have len: "length out = Tot" using assms by simp
  have id: "ucast (ucast b :: u32) = b" for b :: u8
    by (rule bit_word_eqI) (simp add: bit_simps)
  have byte: "ucast (if i < length Tx then ucast (Tx ! i) else (0::u32)) = out ! i" if "i < Tot" for i
    using that assms(1,2) by (auto simp: nth_append id)
  let ?t = "spi_tick S d0 lat mem jid h"
  have eq: "n = (if length (tx_fifo ?t) < 16 \<and> Sent < Tot then Suc Sent else Sent)"
    "h' = (if length (tx_fifo ?t) < 16 \<and> Sent < Tot then ?t\<lparr>tx_fifo := tx_fifo ?t @ [out ! Sent]\<rparr> else ?t)"
    using ts by (auto simp: turn_sends_def Let_def len split: if_splits)
  show ?thesis
  proof (cases "length (tx_fifo ?t) < 16 \<and> Sent < Tot")
    case True
    then have "n = Suc Sent" "h' = ?t\<lparr>tx_fifo := tx_fifo ?t @ [out ! Sent]\<rparr>" by (simp_all add: eq)
    then show ?thesis
      using True byte [of Sent] assms(3)
      by (subst XferLoop.simps) (simp add: spi_dev_sel read_status status_bits fifo_access id split: list.split)
  next
    case False
    then have "n = Sent" "h' = ?t" by (simp_all only: eq if_False)
    then show ?thesis
      using False assms(3)
      by (subst XferLoop.simps) (auto simp add: spi_dev_sel read_status status_bits fifo_access id split: list.split)
  qed
qed

text \<open>The loop runs to its end and hands over what the bus answered at the positions \<open>[T..<Tot]\<close>.\<close>

lemma XferLoop_ends:
  assumes "length Tx + RxLen = Tot" "out = Tx @ replicate RxLen 0" "lat + 1 \<le> SPI_STALL_LIMIT"
  shows "xfer_inv lat (reply S d0 mem jid h) out (length Tx) Sent Received Idle Rx h \<Longrightarrow> Received \<le> Tot \<Longrightarrow>
    \<exists>h'. XferLoop (spi_dev S d0 lat mem jid) S Tx Tot Sent Received Idle Rx h =
        ((True, map (\<lambda>i. reply S d0 mem jid h (take i out)) [length Tx..<Tot]), h') \<and>
      same_pins h h' \<and> hist h' = out \<and> tx_fifo h' = [] \<and> busy h' \<le> lat"
proof (induction "(Tot - Received) * (lat + 3) + (lat + 2 - Idle)"
    arbitrary: Sent Received Idle Rx h rule: less_induct)
  case less
  let ?R = "reply S d0 mem jid h"
  have len: "length out = Tot" using assms(1,2) by simp
  note inv = less.prems(1)
  show ?case
  proof (cases "Received = Tot")
    case True
    then show ?thesis
      using inv len by (subst XferLoop.simps) (auto simp: xfer_inv_def same_pins_def)
  next
    case False
    then have lt: "Received < Tot" using less.prems(2) by simp
    obtain n h' where ts: "turn_sends S d0 lat mem jid out Sent h = (n, h')" by fastforce
    note turn = turn_inv [OF inv refl, unfolded len, OF lt, unfolded ts, simplified fst_conv snd_conv]
    have pins: "same_pins h h'" by (rule turn(1))
    obtain k where k: "hist h' = take k out" "tx_fifo h' = drop k (take n out)"
      "rx_fifo h' = map (\<lambda>i. ?R (take i out)) [Received..<k]" "Received \<le> k" "k \<le> n" "n \<le> Tot" "busy h' \<le> lat"
      using turn(2) by blast
    have Rx: "Rx = map (\<lambda>i. ?R (take i out)) [length Tx..<Received]" using inv by (auto simp: xfer_inv_def)
    show ?thesis
    proof (cases "rx_fifo h'")
      case Nil
      have idle: "Idle + 1 + wait_for lat h' \<le> lat + 1" using turn(3) Nil by simp
      have nxt: "xfer_inv lat ?R out (length Tx) n Received (Idle + 1) Rx h'"
        using k idle Rx len by (auto simp: xfer_inv_def)
      have step: "XferLoop (spi_dev S d0 lat mem jid) S Tx Tot Sent Received Idle Rx h =
          XferLoop (spi_dev S d0 lat mem jid) S Tx Tot n Received (Idle + 1) Rx h'"
        using XferLoop_turn [OF assms(1,2) lt ts] Nil idle assms(3) by simp
      have dec: "(Tot - Received) * (lat + 3) + (lat + 2 - (Idle + 1)) < (Tot - Received) * (lat + 3) + (lat + 2 - Idle)"
        using idle by simp
      show ?thesis
        using less.hyps [OF dec nxt [folded reply_same_pins [OF pins]] less.prems(2)] pins
        unfolding step reply_same_pins [OF pins] by (blast intro: same_pins_trans)
    next
      case (Cons b bs)
      let ?h = "h'\<lparr>rx_fifo := bs\<rparr>"
      have pins': "same_pins h ?h" using pins by simp
      have "Received < k" using k(3) Cons by (cases "Received < k") auto
      then have b: "b = ?R (take Received out)" "bs = map (\<lambda>i. ?R (take i out)) [Suc Received..<k]"
        using k(3) Cons by (auto simp: upt_conv_Cons)
      let ?Rx = "if Received \<ge> length Tx then Rx @ [b] else Rx"
      have nxt: "xfer_inv lat ?R out (length Tx) n (Received + 1) 0 ?Rx ?h"
        using k \<open>Received < k\<close> Rx len b by (auto simp: xfer_inv_def wait_for_def upt_Suc)
      have step: "XferLoop (spi_dev S d0 lat mem jid) S Tx Tot Sent Received Idle Rx h =
          XferLoop (spi_dev S d0 lat mem jid) S Tx Tot n (Received + 1) 0 ?Rx ?h"
        using XferLoop_turn [OF assms(1,2) lt ts] Cons by simp
      obtain d where d: "Tot - Received = Suc d" "Tot - (Received + 1) = d" using lt by (metis Suc_diff_Suc Suc_eq_plus1)
      have dec: "(Tot - (Received + 1)) * (lat + 3) + (lat + 2 - 0) < (Tot - Received) * (lat + 3) + (lat + 2 - Idle)"
        unfolding d by simp
      have le: "Received + 1 \<le> Tot" using lt by simp
      show ?thesis
        using less.hyps [OF dec nxt [folded reply_same_pins [OF pins']] le] pins'
        unfolding step reply_same_pins [OF pins'] by (blast intro: same_pins_trans)
    qed
  qed
qed

text \<open>Between transfers: nothing in the FIFOs, the byte timer within its latency.\<close>

definition spi_quiet :: "nat \<Rightarrow> spi_hw \<Rightarrow> bool" where
  "spi_quiet lat h = (tx_fifo h = [] \<and> rx_fifo h = [] \<and> busy h \<le> lat)"

lemma distinct_neq:
  assumes "distinct [a, b, c, d, e, f]"
  shows "b \<noteq> a" "c \<noteq> a" "c \<noteq> b" "d \<noteq> a" "d \<noteq> b" "d \<noteq> c" "e \<noteq> a" "e \<noteq> b" "e \<noteq> c" "e \<noteq> d"
    "f \<noteq> a" "f \<noteq> b" "f \<noteq> c" "f \<noteq> d" "f \<noteq> e"
  using assms by auto

lemmas wired_neq = distinct_neq [OF spi_wired_def [THEN iffD1, THEN conjunct2, THEN conjunct2]]

lemma spi_wr_regs:
  assumes "spi_wired S"
  shows "spi_wr S (SpiBase S + SPI_REG_CS) v h =
      h\<lparr>tx_fifo := if v AND SPI_CS_CLEAR_TX \<noteq> 0 then [] else tx_fifo h,
        rx_fifo := if v AND SPI_CS_CLEAR_RX \<noteq> 0 then [] else rx_fifo h\<rparr>"
    and "spi_wr S (SpiBase S + SPI_REG_CLK) v h = h\<lparr>clk_reg := v\<rparr>"
    and "spi_wr S (CsBankBase S + GIO_REG_DATA) v h =
      h\<lparr>gio_data := v, hist := if selected S v then hist h else []\<rparr>"
    and "spi_wr S (CsBankBase S + GIO_REG_IODIR) v h = h\<lparr>gio_dir := v\<rparr>"
    and "spi_wr S (PinctrlBase S) v h = h\<lparr>mux_reg := v\<rparr>"
    and "spi_rd S d0 lat mem jid (CsBankBase S + GIO_REG_DATA) h = (gio_data h, h)"
    and "spi_rd S d0 lat mem jid (CsBankBase S + GIO_REG_IODIR) h = (gio_dir h, h)"
    and "spi_rd S d0 lat mem jid (PinctrlBase S) h = (mux_reg h, h)"
  by (simp_all only: spi_wr_def spi_rd_def wired_neq [OF assms] Let_def refl if_True if_False) simp_all

lemma clear_bits:
  "(SPI_CS_TA OR SPI_CS_CLEAR_RX OR SPI_CS_CLEAR_TX) AND SPI_CS_CLEAR_TX \<noteq> 0"
  "(SPI_CS_TA OR SPI_CS_CLEAR_RX OR SPI_CS_CLEAR_TX) AND SPI_CS_CLEAR_RX \<noteq> 0"
  "(SPI_CS_CLEAR_RX OR SPI_CS_CLEAR_TX) AND SPI_CS_CLEAR_TX \<noteq> 0"
  "(SPI_CS_CLEAR_RX OR SPI_CS_CLEAR_TX) AND SPI_CS_CLEAR_RX \<noteq> 0"
  "SPI_CS_CLEAR_TX \<noteq> 0" "SPI_CS_CLEAR_RX \<noteq> 0"
  by (simp_all add: SPI_CS_TA_def SPI_CS_CLEAR_RX_def SPI_CS_CLEAR_TX_def)

lemma DoneWait_quiet:
  assumes "tx_fifo h = []" shows "DoneWait (spi_dev S d0 lat mem jid) S Idle h = h"
  using assms by (subst DoneWait.simps) (simp add: spi_dev_sel read_status status_bits spi_tick_def)

lemma SpiXfer_exact:
  fixes Tx :: "u8 list" and RxLen :: nat
  assumes wired: "spi_wired S" and lat: "lat + 1 \<le> SPI_STALL_LIMIT"
    and h: "hist h = []" "busy h \<le> lat"
  defines "out \<equiv> Tx @ replicate RxLen 0"
  shows "\<exists>h'. run_state (SpiXfer (spi_dev S d0 lat mem jid) S Tx RxLen) h =
      ((EFI_SUCCESS, map (\<lambda>i. reply S d0 mem jid h (take i out)) [length Tx..<length Tx + RxLen]), h') \<and>
    same_pins h h' \<and> spi_quiet lat h'"
proof -
  let ?h = "h\<lparr>tx_fifo := [], rx_fifo := []\<rparr>"
  have "xfer_inv lat (reply S d0 mem jid ?h) out (length Tx) 0 0 0 [] ?h"
    using h by (auto simp: xfer_inv_def wait_for_def)
  from XferLoop_ends [OF refl out_def [THEN meta_eq_to_obj_eq] lat this]
  obtain h' where loop: "XferLoop (spi_dev S d0 lat mem jid) S Tx (length Tx + RxLen) 0 0 0 [] ?h =
      ((True, map (\<lambda>i. reply S d0 mem jid ?h (take i out)) [length Tx..<length Tx + RxLen]), h')"
    and h': "same_pins ?h h'" "tx_fifo h' = []" "busy h' \<le> lat"
    by auto
  have R: "reply S d0 mem jid ?h = reply S d0 mem jid h" by (rule reply_same_pins) (simp add: same_pins_def)
  show ?thesis
    using loop h'
    by (simp add: SpiXfer_def io_simps spi_dev_sel spi_wr_regs [OF wired] clear_bits DoneWait_quiet R spi_quiet_def
        same_pins_def)
qed

lemma SpiCsSet_run:
  assumes "spi_wired S"
  shows "\<exists>v. run_state (SpiCsSet (spi_dev S d0 lat mem jid) S b) h =
     ((), h\<lparr>gio_data := v, hist := if b then hist h else []\<rparr>) \<and> selected S v = b"
proof -
  have sel: "selected S (x AND NOT (CsMask S)) = CsActiveLow S" "selected S (x OR CsMask S) = (\<not> CsActiveLow S)" for x
    using assms by (auto simp: selected_def spi_wired_def bit.conj_disj_distrib2 ac_simps)
  show ?thesis
    by (rule exI [of _ "if b = CsActiveLow S then gio_data h AND NOT (CsMask S) else gio_data h OR CsMask S"])
      (simp add: SpiCsSet_def io_simps spi_dev_sel spi_wr_regs [OF assms] sel)
qed

text \<open>A session: select, transfer, deselect, then whatever comes next.\<close>

lemma spi_session:
  fixes d0 :: bool and mem :: "nat \<Rightarrow> u8" and jid :: "u8 list"
  assumes wired: "spi_wired S" and lat: "lat + 1 \<le> SPI_STALL_LIMIT" and h: "hist h = []" "busy h \<le> lat"
  defines "D \<equiv> spi_dev S d0 lat mem jid"
  shows "\<exists>h'. run_state (do { SpiCsSet D S True; (st, rx) \<leftarrow> SpiXfer D S Tx RxLen; SpiCsSet D S False; k st rx }) h =
      run_state (k EFI_SUCCESS (map (\<lambda>i. if mux_ok S d0 (mux_reg h)
         then flash_resp mem jid (take i (Tx @ replicate RxLen 0)) else 0xFF) [length Tx..<length Tx + RxLen])) h' \<and>
    mux_reg h' = mux_reg h \<and> spi_quiet lat h' \<and> hist h' = [] \<and> \<not> selected S (gio_data h')"
proof -
  obtain v where v: "run_state (SpiCsSet D S True) h = ((), h\<lparr>gio_data := v\<rparr>)" "selected S v"
    using SpiCsSet_run [OF wired, of d0 lat mem jid True h] by (auto simp: D_def)
  obtain h1 where h1: "run_state (SpiXfer D S Tx RxLen) (h\<lparr>gio_data := v\<rparr>) =
      ((EFI_SUCCESS, map (\<lambda>i. reply S d0 mem jid (h\<lparr>gio_data := v\<rparr>) (take i (Tx @ replicate RxLen 0)))
         [length Tx..<length Tx + RxLen]), h1)" "same_pins (h\<lparr>gio_data := v\<rparr>) h1" "spi_quiet lat h1"
    using SpiXfer_exact [OF wired lat, of "h\<lparr>gio_data := v\<rparr>" d0 mem jid Tx RxLen] h by (auto simp: D_def)
  obtain w where w: "run_state (SpiCsSet D S False) h1 = ((), h1\<lparr>gio_data := w, hist := []\<rparr>)" "\<not> selected S w"
    using SpiCsSet_run [OF wired, of d0 lat mem jid False h1] by (auto simp: D_def)
  show ?thesis
    using h1(2,3) v(2)
    by (intro exI [of _ "h1\<lparr>gio_data := w, hist := []\<rparr>"])
      (simp add: io_simps v(1) h1(1) w same_pins_def spi_quiet_def reply_def del: take_append)
qed

subsection \<open>The pin multiplexer\<close>

lemma mux_field_bit:
  assumes "f AND 0xF = f"
  shows "bit (mux_put s f v) n = (if s \<le> n \<and> n < s + 4 then n < 32 \<and> bit f (n - s) else bit v n)"
proof -
  have 15: "(0xF::u32) = mask 4" by (simp add: mask_eq_exp_minus_1)
  have "\<not> bit f k" if "4 \<le> k" for k
    using that by (subst assms [symmetric]) (simp add: 15 bit_simps)
  then show ?thesis
    using bit_imp_le_length [of v n] by (auto simp: mux_put_def 15 bit_simps)
qed

lemma MuxValue_stepping [simp]: "MuxValue (S\<lparr>IsD0 := b\<rparr>) i fs v = MuxValue S i fs v"
  by (induction fs arbitrary: i v) auto

lemma MuxValue_idem:
  "MuxValue S 0 (if d0 then mMuxD0 else mMuxC0) (MuxValue S 0 (if d0 then mMuxD0 else mMuxC0) v) =
   MuxValue S 0 (if d0 then mMuxD0 else mMuxC0) v"
  by (cases d0; cases "CsPin S = 1"; rule bit_word_eqI) (simp_all add: mMuxC0_def mMuxD0_def mux_field_bit)

text \<open>The two encodings differ in the field at bit 12, so that the wrong one is never taken for set.\<close>

lemma MuxValue_bit12: "bit (MuxValue S 0 (if d0 then mMuxD0 else mMuxC0) v) 12 = (\<not> d0)"
  by (cases "CsPin S = 1") (simp_all add: mMuxC0_def mMuxD0_def mux_field_bit)

lemma mux_ok_stepping: "mux_ok S d0 (MuxValue S 0 (if e then mMuxD0 else mMuxC0) v) = (e = d0)"
proof
  assume "mux_ok S d0 (MuxValue S 0 (if e then mMuxD0 else mMuxC0) v)"
  then show "e = d0"
    unfolding mux_ok_def using MuxValue_bit12 [of S d0] MuxValue_bit12 [of S e v] by metis
qed (simp add: mux_ok_def MuxValue_idem)

lemma spi_dev_stepping [simp]: "spi_dev (S\<lparr>IsD0 := b\<rparr>) d0 lat mem jid = spi_dev S d0 lat mem jid"
  by (simp add: spi_dev_def spi_rd_def spi_wr_def fun_eq_iff spi_tick_def reply_def selected_def mux_ok_def
      split: list.split)

lemma spi_wired_stepping [simp]: "spi_wired (S\<lparr>IsD0 := b\<rparr>) = spi_wired S"
  by (simp add: spi_wired_def)

lemma mux_ok_isd0 [simp]: "mux_ok (S\<lparr>IsD0 := b\<rparr>) = mux_ok S"
  by (simp add: mux_ok_def fun_eq_iff)

lemma run_if: "run_state (if b then m else m') s = (if b then run_state m s else run_state m' s)"
  by simp

lemma selected_stepping [simp]: "selected (S\<lparr>IsD0 := b\<rparr>) v = selected S v"
  by (simp add: selected_def)

lemma SpiMuxPins_run:
  assumes "spi_wired S"
  shows "run_state (SpiMuxPins (spi_dev S d0 lat mem jid) S) h =
    (mux_reg h, h\<lparr>mux_reg := MuxValue S 0 (if IsD0 S then mMuxD0 else mMuxC0) (mux_reg h)\<rparr>)"
  by (cases "IsD0 S")
    (simp_all add: SpiMuxPins_def Let_def run_if io_simps spi_dev_sel spi_wr_regs [OF assms])

lemma SpiIdle_run:
  assumes "spi_wired S" "busy h \<le> lat"
  shows "\<exists>h'. run_state (SpiIdle (spi_dev S d0 lat mem jid) S) h = ((), h') \<and>
    mux_reg h' = mux_reg h \<and> hist h' = [] \<and> spi_quiet lat h' \<and> clk_reg h' = SPI_CLK_DIVIDER"
proof -
  obtain w where "run_state (SpiCsSet (spi_dev S d0 lat mem jid) S False) h =
      ((), h\<lparr>gio_data := w, hist := []\<rparr>)"
    using SpiCsSet_run [OF assms(1), of d0 lat mem jid False h] by auto
  then show ?thesis
    using assms(2) by (simp add: SpiIdle_def io_simps spi_dev_sel spi_wr_regs [OF assms(1)] clear_bits spi_quiet_def)
qed

subsection \<open>The probe\<close>

definition usable_id :: "u8 list \<Rightarrow> bool" where
  "usable_id jid = (length jid = 3 \<and> jid \<noteq> [0, 0, 0] \<and> jid \<noteq> [0xFF, 0xFF, 0xFF])"

lemma id_answer:
  assumes "length jid = 3"
  shows "map (\<lambda>i. flash_resp mem jid (take i ([FLASH_CMD_RDID] @ replicate 3 0))) [length [FLASH_CMD_RDID]..<length [FLASH_CMD_RDID] + 3] = jid"
proof -
  obtain a b c where "jid = [a, b, c]" using assms by (auto simp: length_Suc_conv numeral_3_eq_3)
  then show ?thesis
    by (simp add: flash_resp_def FLASH_CMD_RDID_def upt_rec numeral_3_eq_3)
qed

lemma probe_turn:
  fixes d0 :: bool and mem :: "nat \<Rightarrow> u8" and jid :: "u8 list"
  assumes wired: "spi_wired S" and lat: "lat + 1 \<le> SPI_STALL_LIMIT" and h: "hist h = []" "busy h \<le> lat"
    and jid: "usable_id jid"
  defines "D \<equiv> spi_dev S d0 lat mem jid"
  shows "\<exists>h'. run_state (ProbeLoop D S (Suc n) x) h =
      run_state (if mux_ok S d0 (mux_reg h) then State_Monad.return (EFI_SUCCESS, jid)
                 else do { Stall D 10000; ProbeLoop D S n [0xFF, 0xFF, 0xFF] }) h' \<and>
    mux_reg h' = mux_reg h \<and> spi_quiet lat h' \<and> hist h' = []"
proof -
  have jid3: "length jid = 3" using jid by (simp add: usable_id_def)
  let ?rx = "map (\<lambda>i. if mux_ok S d0 (mux_reg h) then flash_resp mem jid (take i ([FLASH_CMD_RDID] @ replicate 3 0))
       else 0xFF) [length [FLASH_CMD_RDID]..<length [FLASH_CMD_RDID] + 3]"
  have id: "store_id ?rx = (if mux_ok S d0 (mux_reg h) then jid else [0xFF, 0xFF, 0xFF])"
    using id_answer [OF jid3, of mem] jid3
    by (auto simp: store_id_def upt_rec numeral_3_eq_3 simp del: replicate.simps)
  let ?k = "\<lambda>st rx. let jid = store_id rx in
      (if \<not> EFI_ERROR st \<and> jid \<noteq> [0, 0, 0] \<and> jid \<noteq> [0xFF, 0xFF, 0xFF]
       then State_Monad.return (EFI_SUCCESS, jid) else do { Stall D 10000; ProbeLoop D S n jid })"
  have "?k EFI_SUCCESS ?rx = (if mux_ok S d0 (mux_reg h) then State_Monad.return (EFI_SUCCESS, jid)
      else do { Stall D 10000; ProbeLoop D S n [0xFF, 0xFF, 0xFF] })"
    unfolding id Let_def using jid by (auto simp: EFI_ERROR_def usable_id_def)
  then show ?thesis
    using spi_session [where k = ?k and Tx = "[FLASH_CMD_RDID]" and RxLen = 3, OF wired lat h, of d0 mem jid]
    by (simp only: ProbeLoop.simps D_def) blast
qed

lemma probe_result:
  fixes d0 :: bool and mem :: "nat \<Rightarrow> u8" and jid :: "u8 list"
  assumes wired: "spi_wired S" and lat: "lat + 1 \<le> SPI_STALL_LIMIT" and h: "hist h = []" "busy h \<le> lat"
    and jid: "usable_id jid"
  shows "\<exists>h'. run_state (SpiProbeJedec (spi_dev S d0 lat mem jid) S x) h =
      (if mux_ok S d0 (mux_reg h) then (EFI_SUCCESS, jid) else (EFI_DEVICE_ERROR, [0xFF, 0xFF, 0xFF]), h') \<and>
    mux_reg h' = mux_reg h \<and> spi_quiet lat h' \<and> hist h' = []"
proof -
  let ?D = "spi_dev S d0 lat mem jid"
  obtain h1 where h1: "run_state (ProbeLoop ?D S (Suc (Suc 0)) x) h =
      run_state (if mux_ok S d0 (mux_reg h) then State_Monad.return (EFI_SUCCESS, jid)
                 else do { Stall ?D 10000; ProbeLoop ?D S (Suc 0) [0xFF, 0xFF, 0xFF] }) h1"
    "mux_reg h1 = mux_reg h" "spi_quiet lat h1" "hist h1 = []"
    using probe_turn [OF wired lat h jid, of d0 mem "Suc 0" x] by blast
  have b1: "busy h1 \<le> lat" using h1(3) by (simp add: spi_quiet_def)
  obtain h2 where h2: "run_state (ProbeLoop ?D S (Suc 0) [0xFF, 0xFF, 0xFF]) h1 =
      run_state (if mux_ok S d0 (mux_reg h1) then State_Monad.return (EFI_SUCCESS, jid)
                 else do { Stall ?D 10000; ProbeLoop ?D S 0 [0xFF, 0xFF, 0xFF] }) h2"
    "mux_reg h2 = mux_reg h1" "spi_quiet lat h2" "hist h2 = []"
    using probe_turn [OF wired lat h1(4) b1 jid, of d0 mem 0 "[0xFF, 0xFF, 0xFF]"] by blast
  show ?thesis
  proof (cases "mux_ok S d0 (mux_reg h)")
    case True
    then have "run_state (ProbeLoop ?D S (Suc (Suc 0)) x) h = ((EFI_SUCCESS, jid), h1)"
      using h1(1) by (simp add: io_simps del: ProbeLoop.simps)
    then show ?thesis
      using h1(2-4) True by (simp only: SpiProbeJedec_def numeral_2_eq_2) auto
  next
    case False
    then have "run_state (ProbeLoop ?D S (Suc 0) [0xFF, 0xFF, 0xFF]) h1 = ((EFI_DEVICE_ERROR, [0xFF, 0xFF, 0xFF]), h2)"
      using h2(1) by (simp add: h1(2) io_simps spi_dev_sel)
    then have "run_state (ProbeLoop ?D S (Suc (Suc 0)) x) h = ((EFI_DEVICE_ERROR, [0xFF, 0xFF, 0xFF]), h2)"
      using h1(1) False by (simp add: io_simps spi_dev_sel del: ProbeLoop.simps)
    then show ?thesis
      using h2(2-4) h1(2) False by (simp only: SpiProbeJedec_def numeral_2_eq_2) auto
  qed
qed

subsection \<open>The image\<close>

lemma attempt_probe:
  fixes d0 :: bool and mem :: "nat \<Rightarrow> u8" and jid :: "u8 list"
  assumes wired: "spi_wired S" and lat: "lat + 1 \<le> SPI_STALL_LIMIT" and h: "busy h \<le> lat" and jid: "usable_id jid"
  defines "D \<equiv> spi_dev S d0 lat mem jid"
  shows "\<exists>h'. run_state (do { m \<leftarrow> SpiMuxPins D S; SpiIdle D S; SpiProbeJedec D S x }) h =
      (if IsD0 S = d0 then (EFI_SUCCESS, jid) else (EFI_DEVICE_ERROR, [0xFF, 0xFF, 0xFF]), h') \<and>
    spi_quiet lat h' \<and> hist h' = [] \<and> (IsD0 S = d0 \<longrightarrow> mux_ok S d0 (mux_reg h'))"
proof -
  let ?m = "MuxValue S 0 (if IsD0 S then mMuxD0 else mMuxC0) (mux_reg h)"
  let ?h = "h\<lparr>mux_reg := ?m\<rparr>"
  have ok: "mux_ok S d0 ?m = (IsD0 S = d0)" by (rule mux_ok_stepping)
  have "busy ?h \<le> lat" using h by simp
  from SpiIdle_run [OF wired this, of d0 mem jid] obtain h1 where
    h1: "run_state (SpiIdle D S) ?h = ((), h1)" "mux_reg h1 = ?m" "hist h1 = []" "spi_quiet lat h1"
    by (auto simp: D_def)
  have "busy h1 \<le> lat" using h1(4) by (simp add: spi_quiet_def)
  from probe_result [OF wired lat h1(3) this jid, of d0 mem x] obtain h2 where
    h2: "run_state (SpiProbeJedec D S x) h1 =
      (if IsD0 S = d0 then (EFI_SUCCESS, jid) else (EFI_DEVICE_ERROR, [0xFF, 0xFF, 0xFF]), h2)"
    "mux_reg h2 = ?m" "spi_quiet lat h2" "hist h2 = []"
    unfolding h1(2) ok D_def by blast
  have mux: "run_state (SpiMuxPins D S) h = (mux_reg h, ?h)"
    unfolding D_def by (rule SpiMuxPins_run [OF wired])
  have "run_state (do { m \<leftarrow> SpiMuxPins D S; SpiIdle D S; SpiProbeJedec D S x }) h =
      (if IsD0 S = d0 then (EFI_SUCCESS, jid) else (EFI_DEVICE_ERROR, [0xFF, 0xFF, 0xFF]), h2)"
    by (simp only: run_state_bind mux h1(1) h2(1) prod.case)
  moreover have "IsD0 S = d0 \<longrightarrow> mux_ok S d0 (mux_reg h2)"
    unfolding h2(2) ok by simp
  ultimately show ?thesis
    using h2(3,4) by blast
qed

text \<open>One turn of the loop over the two encodings.\<close>

lemma attempt_turn:
  fixes d0 :: bool and mem :: "nat \<Rightarrow> u8" and jid :: "u8 list" and a :: nat and e :: bool
  assumes t: "at_work t = S\<lparr>IsD0 := b\<rparr>" and e: "e = (if a = 0 then IsD0 S else \<not> IsD0 S)" and wired: "spi_wired S" and lat: "lat + 1 \<le> SPI_STALL_LIMIT" and h: "busy h \<le> lat" and jid: "usable_id jid"
  defines "D \<equiv> spi_dev S d0 lat mem jid"
    and "W \<equiv> S\<lparr>IsD0 := e\<rparr>"
  shows "\<exists>h'. run_state (AttemptLoop D S (a # as) t) h =
      (if e = d0
       then (\<lparr>at_status = EFI_SUCCESS, at_work = W, at_mux = mux_reg h, at_muxed = True, at_id = jid\<rparr>, h')
       else run_state (AttemptLoop D S as \<lparr>at_status = EFI_DEVICE_ERROR, at_work = W, at_mux = mux_reg h,
              at_muxed = False, at_id = [0xFF, 0xFF, 0xFF]\<rparr>) h') \<and>
    spi_quiet lat h' \<and> hist h' = [] \<and>
    (if e = d0 then mux_ok S d0 (mux_reg h') else mux_reg h' = mux_reg h)"
proof -
  have wiredW: "spi_wired W" using wired by (simp add: W_def)
  have Wt: "(at_work t)\<lparr>IsD0 := (if a = 0 then IsD0 S else \<not> IsD0 S)\<rparr> = W" by (simp add: t e W_def)
  have D: "D = spi_dev W d0 lat mem jid" by (simp add: D_def W_def)
  have pin: "PinctrlBase W \<noteq> 0" using wiredW by (simp add: spi_wired_def)
  define m where "m = MuxValue W 0 (if IsD0 W then mMuxD0 else mMuxC0) (mux_reg h)"
  have mux: "run_state (SpiMuxPins D W) h =
      (mux_reg h, h\<lparr>mux_reg := m\<rparr>)"
    unfolding D m_def by (rule SpiMuxPins_run [OF wiredW])
  obtain h1 where h1: "run_state (do { m \<leftarrow> SpiMuxPins D W; SpiIdle D W; SpiProbeJedec D W (at_id t) }) h =
      (if IsD0 W = d0 then (EFI_SUCCESS, jid) else (EFI_DEVICE_ERROR, [0xFF, 0xFF, 0xFF]), h1)"
    "spi_quiet lat h1" "hist h1 = []" "IsD0 W = d0 \<longrightarrow> mux_ok S d0 (mux_reg h1)"
    using attempt_probe [OF wiredW lat h jid, of d0 mem "at_id t"] by (auto simp: D W_def)
  obtain h2 where idle: "run_state (SpiIdle D W)
      (h\<lparr>mux_reg := m\<rparr>) = ((), h2)"
    using SpiIdle_run [OF wiredW, of "h\<lparr>mux_reg := m\<rparr>" lat d0 mem jid] h by (auto simp: D)
  have probe: "run_state (SpiProbeJedec D W (at_id t)) h2 =
      (if IsD0 W = d0 then (EFI_SUCCESS, jid) else (EFI_DEVICE_ERROR, [0xFF, 0xFF, 0xFF]), h1)"
    using h1(1) by (simp only: run_state_bind mux idle prod.case)
  have restored: "io_wr D (PinctrlBase W) v h1 = h1\<lparr>mux_reg := v\<rparr>" for v
    by (simp add: D spi_dev_sel spi_wr_regs [OF wiredW])
  have eW: "IsD0 W = e" by (simp add: W_def)
  show ?thesis
  proof (cases "e = d0")
    case True
    then show ?thesis
      using h1(2-4)
      by (intro exI [of _ h1]) (simp add: Wt eW Let_def pin io_simps mux idle probe EFI_ERROR_def)
  next
    case False
    then show ?thesis
      using h1(2,3)
      by (intro exI [of _ "h1\<lparr>mux_reg := mux_reg h\<rparr>"])
        (simp add: Wt eW Let_def pin io_simps mux idle probe restored EFI_ERROR_def spi_quiet_def)
  qed
qed

lemma attempts_end:
  fixes d0 :: bool and mem :: "nat \<Rightarrow> u8" and jid :: "u8 list"
  assumes t: "at_work t = S" and wired: "spi_wired S" and lat: "lat + 1 \<le> SPI_STALL_LIMIT" and h: "busy h \<le> lat" and jid: "usable_id jid"
  defines "D \<equiv> spi_dev S d0 lat mem jid"
  shows "\<exists>h'. run_state (AttemptLoop D S [0, 1] t) h =
      (\<lparr>at_status = EFI_SUCCESS, at_work = S\<lparr>IsD0 := d0\<rparr>, at_mux = mux_reg h, at_muxed = True, at_id = jid\<rparr>, h') \<and>
    spi_quiet lat h' \<and> hist h' = [] \<and> mux_ok S d0 (mux_reg h')"
proof -
  have start: "at_work t = S\<lparr>IsD0 := IsD0 S\<rparr>" and e0: "IsD0 S = (if (0::nat) = 0 then IsD0 S else \<not> IsD0 S)"
    by (simp_all add: t)
  obtain h1 where h1: "run_state (AttemptLoop D S [0, 1] t) h =
      (if IsD0 S = d0
       then (\<lparr>at_status = EFI_SUCCESS, at_work = S\<lparr>IsD0 := IsD0 S\<rparr>, at_mux = mux_reg h, at_muxed = True, at_id = jid\<rparr>, h1)
       else run_state (AttemptLoop D S [1] \<lparr>at_status = EFI_DEVICE_ERROR, at_work = S\<lparr>IsD0 := IsD0 S\<rparr>,
              at_mux = mux_reg h, at_muxed = False, at_id = [0xFF, 0xFF, 0xFF]\<rparr>) h1)"
    "spi_quiet lat h1" "hist h1 = []" "if IsD0 S = d0 then mux_ok S d0 (mux_reg h1) else mux_reg h1 = mux_reg h"
    using attempt_turn [where a = 0 and as = "[1]" and ?d0.0 = d0 and mem = mem, OF start e0 wired lat h jid]
    unfolding D_def by blast
  show ?thesis
  proof (cases "IsD0 S = d0")
    case True
    then show ?thesis using h1 by (intro exI [of _ h1]) simp
  next
    case False
    have e1: "d0 = (if (1::nat) = 0 then IsD0 S else \<not> IsD0 S)" using False by auto
    have busy: "busy h1 \<le> lat" using h1(2) by (simp add: spi_quiet_def)
    let ?t = "\<lparr>at_status = EFI_DEVICE_ERROR, at_work = S\<lparr>IsD0 := IsD0 S\<rparr>, at_mux = mux_reg h, at_muxed = False,
        at_id = [0xFF, 0xFF, 0xFF]\<rparr> :: spi_attempt"
    have mid: "at_work ?t = S\<lparr>IsD0 := IsD0 S\<rparr>" by simp
    obtain h2 where
      "run_state (AttemptLoop D S [1] \<lparr>at_status = EFI_DEVICE_ERROR, at_work = S\<lparr>IsD0 := IsD0 S\<rparr>,
          at_mux = mux_reg h, at_muxed = False, at_id = [0xFF, 0xFF, 0xFF]\<rparr>) h1 =
       (\<lparr>at_status = EFI_SUCCESS, at_work = S\<lparr>IsD0 := d0\<rparr>, at_mux = mux_reg h1, at_muxed = True, at_id = jid\<rparr>, h2)"
      "spi_quiet lat h2" "hist h2 = []" "mux_ok S d0 (mux_reg h2)"
      using attempt_turn [where a = 1 and as = "[]" and ?d0.0 = d0 and mem = mem, OF mid e1 wired lat busy jid]
      by (auto simp: D_def AttemptLoop.simps(1) simp del: AttemptLoop.simps(2))
    then show ?thesis using h1(1,4) False by (intro exI [of _ h2]) simp
  qed
qed

lemma image_answer:
  "map (\<lambda>i. flash_resp mem jid (take i ([FLASH_CMD_READ, 0, 0, 0] @ replicate Len 0)))
     [length [FLASH_CMD_READ, 0, 0, 0]..<length [FLASH_CMD_READ, 0, 0, 0] + Len] = map mem [0..<Len]"
proof (rule nth_equalityI, goal_cases)
  case (2 k)
  then have k: "k < Len" by (simp only: length_map length_upt diff_add_inverse)
  then have "take (4 + k) ([FLASH_CMD_READ, 0, 0, 0] @ replicate Len 0) = [FLASH_CMD_READ, 0, 0, 0] @ replicate k 0"
    by (simp only: take_append) (simp add: min_def)
  then show ?case using k
    by (simp add: flash_resp_def FLASH_CMD_READ_def del: take_append upt_Suc)
qed (simp del: upt_Suc)

lemma spi_read_exact:
  assumes "spi_wired S" "lat + 1 \<le> SPI_STALL_LIMIT" "busy h \<le> lat" "usable_id jid"
  shows "\<exists>h'. run_state (Bcm2712BootSpiReadImage (spi_dev S d0 lat mem jid) S Len) h =
      ((EFI_SUCCESS, map mem [0..<Len], \<lparr>JedecId = jid, UsedD0 = d0, Muxed = True\<rparr>), h') \<and>
    mux_reg h' = mux_reg h \<and> \<not> selected S (gio_data h')"
proof -
  let ?D = "spi_dev S d0 lat mem jid" and ?W = "S\<lparr>IsD0 := d0\<rparr>"
  have wired: "spi_wired ?W" using assms(1) by simp
  obtain h1 where h1: "run_state (AttemptLoop ?D S [0, 1]
        \<lparr>at_status = EFI_DEVICE_ERROR, at_work = S, at_mux = 0, at_muxed = False, at_id = [0, 0, 0]\<rparr>) h =
      (\<lparr>at_status = EFI_SUCCESS, at_work = ?W, at_mux = mux_reg h, at_muxed = True, at_id = jid\<rparr>, h1)"
    "spi_quiet lat h1" "hist h1 = []" "mux_ok S d0 (mux_reg h1)"
    using attempts_end [OF _ assms, of "\<lparr>at_status = EFI_DEVICE_ERROR, at_work = S, at_mux = 0, at_muxed = False,
        at_id = [0, 0, 0]\<rparr>" d0 mem] by (auto simp del: AttemptLoop.simps)
  let ?k = "\<lambda>st rx. do { MmioWrite32 ?D (PinctrlBase ?W) (mux_reg h);
      State_Monad.return (st, rx, \<lparr>JedecId = jid, UsedD0 = d0, Muxed = True\<rparr>) }"
  have busy: "busy h1 \<le> lat" using h1(2) by (simp add: spi_quiet_def)
  obtain h2 where h2: "run_state (do { SpiCsSet ?D ?W True; (st, rx) \<leftarrow> SpiXfer ?D ?W [FLASH_CMD_READ, 0, 0, 0] Len;
        SpiCsSet ?D ?W False; ?k st rx }) h1 = run_state (?k EFI_SUCCESS (map mem [0..<Len])) h2"
    "\<not> selected ?W (gio_data h2)"
    using spi_session [where k = ?k and Tx = "[FLASH_CMD_READ, 0, 0, 0]" and RxLen = Len,
        OF wired assms(2) h1(3) busy, of d0 mem jid] h1(4) image_answer [of mem jid Len]
    by (auto simp del: take_append)
  have "run_state (Bcm2712BootSpiReadImage ?D S Len) h = run_state (?k EFI_SUCCESS (map mem [0..<Len])) h2"
    using h2(1) by (simp add: Bcm2712BootSpiReadImage_def io_simps h1(1) [unfolded One_nat_def] EFI_ERROR_def prod.case_distrib del: AttemptLoop.simps)
  then show ?thesis
    using h2(2) by (simp add: io_simps spi_dev_sel spi_wr_regs [OF assms(1)])
qed

text \<open>
  C20: a boot-flash read returns the image. Whatever stepping the device tree claims and whatever
  latency below the stall limit the controller has, the read finds the right pin encoding within
  its two attempts, returns exactly the first \<open>Len\<close> bytes of the flash and its identification,
  reports the encoding that worked, leaves the flash deselected and puts the pin multiplexer back
  to the value it found.
\<close>

theorem boot_spi_read_exact:
  assumes "spi_wired S" "lat + 1 \<le> SPI_STALL_LIMIT" "busy h \<le> lat" "usable_id jid"
  shows "\<exists>h'. run_state (Bcm2712BootSpiReadImage (spi_dev S d0 lat mem jid) S Len) h =
      ((EFI_SUCCESS, map mem [0..<Len], \<lparr>JedecId = jid, UsedD0 = d0, Muxed = True\<rparr>), h') \<and>
    mux_reg h' = mux_reg h \<and> \<not> selected S (gio_data h')"
  by (rule spi_read_exact [OF assms])

lemma boot_spi_read_exact_witness:
  defines "S \<equiv> spi_default\<lparr>PinctrlBase := 0x107d504100\<rparr>"
    and "h \<equiv> \<lparr>tx_fifo = [], rx_fifo = [], busy = 0, hist = [], gio_data = 0, gio_dir = 0, mux_reg = 0, clk_reg = 0\<rparr>"
  shows "\<exists>h'. run_state (Bcm2712BootSpiReadImage (spi_dev S True 20 (\<lambda>a. of_nat a) [0xEF, 0x60, 0x15]) S 524288) h =
      ((EFI_SUCCESS, map (\<lambda>a. of_nat a) [0..<524288], \<lparr>JedecId = [0xEF, 0x60, 0x15], UsedD0 = True, Muxed = True\<rparr>), h') \<and>
    mux_reg h' = mux_reg h \<and> \<not> selected S (gio_data h')"
proof (rule boot_spi_read_exact)
  show "spi_wired S"
    by (simp add: S_def spi_wired_def spi_default_def spi_regs BCM2712_BOOT_SPI_BASE_def BCM2712_BOOT_CS_GIO_BASE_def
        BCM2712_BOOT_CS_PIN_def GIO_BANK_SIZE_def)
qed (simp_all add: SPI_STALL_LIMIT_def h_def usable_id_def)

subsection \<open>A controller that never answers\<close>

lemma XferLoop_dead:
  assumes dead: "\<And>s. fst (io_rd D (SpiBase S + SPI_REG_CS) s) AND SPI_CS_RXD = 0"
  shows "Received < Tot \<Longrightarrow> Idle \<le> SPI_STALL_LIMIT \<Longrightarrow>
    \<exists>s'. XferLoop D S Tx Tot Sent Received Idle Rx s = ((False, Rx), s')"
proof (induction "SPI_STALL_LIMIT - Idle" arbitrary: Idle Sent s)
  case 0
  obtain v s' where io: "io_rd D (SpiBase S + SPI_REG_CS) s = (v, s')" by fastforce
  then have "v AND SPI_CS_RXD = 0" using dead [of s] by simp
  then show ?case using 0 by (subst XferLoop.simps) (simp add: io Let_def)
next
  case (Suc n)
  obtain v s' where io: "io_rd D (SpiBase S + SPI_REG_CS) s = (v, s')" by fastforce
  then have "v AND SPI_CS_RXD = 0" using dead [of s] by simp
  moreover have "n = SPI_STALL_LIMIT - (Idle + 1)" "Idle + 1 \<le> SPI_STALL_LIMIT" using Suc.hyps(2) by simp_all
  note Suc.hyps(1) [OF this(1) Suc.prems(1) this(2)]
  ultimately show ?case using Suc.prems Suc.hyps(2)
    by (subst XferLoop.simps) (simp add: io Let_def del: XferLoop.simps)
qed

lemma SpiXfer_dead:
  assumes dead: "\<And>s. fst (io_rd D (SpiBase S + SPI_REG_CS) s) AND SPI_CS_RXD = 0" and "0 < length Tx + RxLen"
  shows "\<exists>s'. run_state (SpiXfer D S Tx RxLen) s = ((EFI_TIMEOUT, []), s')"
proof -
  obtain s' where "XferLoop D S Tx (length Tx + RxLen) 0 0 0 []
      (io_wr D (SpiBase S + SPI_REG_CS) (SPI_CS_TA OR SPI_CS_CLEAR_RX OR SPI_CS_CLEAR_TX) s) = ((False, []), s')"
    using XferLoop_dead [where D = D and S = S, OF dead assms(2), of 0] by fastforce
  then show ?thesis by (simp add: SpiXfer_def io_simps)
qed

lemma Probe_dead:
  assumes dead: "\<And>s. fst (io_rd D (SpiBase S + SPI_REG_CS) s) AND SPI_CS_RXD = 0"
  shows "\<exists>s'. run_state (ProbeLoop D S n x) s = ((EFI_DEVICE_ERROR, if n = 0 then x else [0, 0, 0]), s')"
proof (induction n arbitrary: x s)
  case (Suc n)
  obtain u s1 where s1: "run_state (SpiCsSet D S True) s = (u, s1)" by (rule prod.exhaust)
  have "0 < length [FLASH_CMD_RDID] + 3" by simp
  from SpiXfer_dead [where D = D and S = S, OF dead this] obtain s2 where
    s2: "run_state (SpiXfer D S [FLASH_CMD_RDID] 3) s1 = ((EFI_TIMEOUT, []), s2)" by blast
  obtain w s3 where s3: "run_state (SpiCsSet D S False) s2 = (w, s3)" by (rule prod.exhaust)
  obtain s4 where "run_state (ProbeLoop D S n [0, 0, 0]) (io_stall D 10000 s3) = ((EFI_DEVICE_ERROR, [0, 0, 0]), s4)"
    using Suc.IH [of "[0, 0, 0]" "io_stall D 10000 s3"] by auto
  then show ?case
    by (simp add: s1 s2 s3 io_simps store_id_def)
qed simp

text \<open>
  a controller that never receives anything is reported. Whatever else the hardware does,
  both attempts time out within the stall limit: the caller gets \<open>EFI_DEVICE_ERROR\<close>, no data, an
  all-zero identification and no claim that the pins are still switched.
\<close>

theorem boot_spi_dead_controller:
  assumes dead: "\<And>s. fst (io_rd D (SpiBase S + SPI_REG_CS) s) AND SPI_CS_RXD = 0"
  shows "fst (run_state (Bcm2712BootSpiReadImage D S Len) s) =
    (EFI_DEVICE_ERROR, [],
     \<lparr>JedecId = [0, 0, 0], UsedD0 = (if PinctrlBase S = 0 then IsD0 S else \<not> IsD0 S), Muxed = False\<rparr>)"
proof -
  have probe: "\<exists>s'. run_state (SpiProbeJedec D (S\<lparr>IsD0 := e\<rparr>) x) s = ((EFI_DEVICE_ERROR, [0, 0, 0]), s')" for e x s
    using Probe_dead [of D "S\<lparr>IsD0 := e\<rparr>" 2 x s] dead by (simp add: SpiProbeJedec_def del: ProbeLoop.simps)
  have turn: "\<exists>s' m. run_state (AttemptLoop D S (a # as) t) s =
      (if PinctrlBase S = 0
       then (t\<lparr>at_status := EFI_DEVICE_ERROR, at_work := S\<lparr>IsD0 := e\<rparr>, at_muxed := False, at_id := [0, 0, 0]\<rparr>, s')
       else run_state (AttemptLoop D S as (t\<lparr>at_status := EFI_DEVICE_ERROR, at_work := S\<lparr>IsD0 := e\<rparr>,
              at_mux := m, at_muxed := False, at_id := [0, 0, 0]\<rparr>)) s')"
    if t: "at_work t = S\<lparr>IsD0 := b\<rparr>" and e: "e = (if a = 0 then IsD0 S else \<not> IsD0 S)" for a as t e b s
  proof -
    let ?W = "S\<lparr>IsD0 := e\<rparr>"
    have W: "(at_work t)\<lparr>IsD0 := (if a = 0 then IsD0 S else \<not> IsD0 S)\<rparr> = ?W" by (simp add: t e)
    have all: "t\<lparr>at_status := st, at_work := w, at_mux := x, at_muxed := y, at_id := z\<rparr> =
        \<lparr>at_status = st, at_work = w, at_mux = x, at_muxed = y, at_id = z\<rparr>" for st w x y z
      by (cases t) simp
    obtain m s1 where mux: "run_state (SpiMuxPins D ?W) s = (m, s1)" by fastforce
    let ?s = "if PinctrlBase S = 0 then s else s1"
    obtain u s2 where idle: "run_state (SpiIdle D ?W) ?s = (u, s2)" by (rule prod.exhaust)
    obtain s3 where probe: "run_state (SpiProbeJedec D ?W (at_id t)) s2 = ((EFI_DEVICE_ERROR, [0, 0, 0]), s3)"
      using probe by blast
    show ?thesis
    proof (cases "PinctrlBase S = 0")
      case True
      then show ?thesis using mux idle probe
        by (simp add: W Let_def EFI_ERROR_def)
    next
      case False
      then show ?thesis using mux idle probe
        by (intro exI [of _ "io_wr D (PinctrlBase S) m s3"] exI [of _ m])
          (simp add: all W Let_def EFI_ERROR_def io_simps)
    qed
  qed
  let ?t = "\<lparr>at_status = EFI_DEVICE_ERROR, at_work = S, at_mux = 0, at_muxed = False, at_id = [0, 0, 0]\<rparr>"
  have "\<exists>m s'. run_state (AttemptLoop D S [0, 1] ?t) s =
    (\<lparr>at_status = EFI_DEVICE_ERROR, at_work = S\<lparr>IsD0 := (if PinctrlBase S = 0 then IsD0 S else \<not> IsD0 S)\<rparr>,
      at_mux = m, at_muxed = False, at_id = [0, 0, 0]\<rparr>, s')"
  proof (cases "PinctrlBase S = 0")
    case True
    then show ?thesis
      using turn [of ?t "IsD0 S" "IsD0 S" 0 "[1]" s] by (auto simp del: AttemptLoop.simps)
  next
    case False
    obtain s1 m where 1: "run_state (AttemptLoop D S [0, 1] ?t) s = run_state (AttemptLoop D S [1]
        (?t\<lparr>at_work := S\<lparr>IsD0 := IsD0 S\<rparr>, at_mux := m\<rparr>)) s1"
      using turn [of ?t "IsD0 S" "IsD0 S" 0 "[1]" s] False by (auto simp del: AttemptLoop.simps)
    then show ?thesis
      using turn [of "?t\<lparr>at_work := S\<lparr>IsD0 := IsD0 S\<rparr>, at_mux := m\<rparr>" "IsD0 S" "\<not> IsD0 S" 1 "[]" s1] False
      by (auto simp: AttemptLoop.simps(1) simp del: AttemptLoop.simps(2))
  qed
  then obtain m s' where "run_state (AttemptLoop D S [0, 1] ?t) s =
    (\<lparr>at_status = EFI_DEVICE_ERROR, at_work = S\<lparr>IsD0 := (if PinctrlBase S = 0 then IsD0 S else \<not> IsD0 S)\<rparr>,
      at_mux = m, at_muxed = False, at_id = [0, 0, 0]\<rparr>, s')" by blast
  then show ?thesis
    by (simp add: Bcm2712BootSpiReadImage_def EFI_ERROR_def del: AttemptLoop.simps)
qed

lemma boot_spi_dead_controller_witness:
  "fst (run_state (Bcm2712BootSpiReadImage \<lparr>io_rd = (\<lambda>a s. (0, s)), io_wr = (\<lambda>a v s. s), io_stall = (\<lambda>us s. s)\<rparr>
      (spi_default\<lparr>PinctrlBase := 0x107d504100\<rparr>) 524288) ()) =
    (EFI_DEVICE_ERROR, [], \<lparr>JedecId = [0, 0, 0], UsedD0 = True, Muxed = False\<rparr>)"
  by (subst boot_spi_dead_controller) (simp_all add: spi_default_def)

end
