(* ===== verification/Eeprom_Patch.thy ===== *)
theory Eeprom_Patch
  imports Eeprom_Image Blcfg_Values Sha256_Hash "HOL-Library.Signed_Division"
begin

section \<open>Patching the EEPROM image (BootloaderConfigSetup.c)\<close>

text \<open>
  The pure half of the update staging: the timestamp of an update (\<^verbatim>\<open>EfiTimeToUnix\<close>,
  \<^verbatim>\<open>StagingTimestamp\<close>), the text of a digest file, the test for a signed configuration
  (\<^verbatim>\<open>BlTextHasLineKey\<close>) and \<^verbatim>\<open>PatchImage\<close>, which rewrites \<open>bootconf.txt\<close>, its digest and the timestamps
  in an image. It composes the image container, the text of the configuration and the hash.
\<close>

definition EEPROM_PARTITION_B_START :: nat where "EEPROM_PARTITION_B_START = EEPROM_PARTITION_A_END"
definition EEPROM_PARTITION_B_END :: nat where
  "EEPROM_PARTITION_B_END = EEPROM_PARTITION_B_START + EEPROM_PARTITION_SIZE"
definition NEW_CONFIG_CAP :: nat where "NEW_CONFIG_CAP = 4 * 1024"

subsection \<open>Time\<close>

record efi_time =
  Year :: u16
  Month :: u8
  Day :: u8
  Hour :: u8
  Minute :: u8
  Second :: u8

text \<open>The arithmetic is on \<open>INT64\<close>, whose division truncates towards zero; nothing comes near its bounds.\<close>

definition EfiTimeToUnix :: "efi_time \<Rightarrow> u32" where
  "EfiTimeToUnix Time =
     (let M = uint (Month Time);
          Y = uint (Year Time) - (if M \<le> 2 then 1 else 0);
          Era = Y sdiv 400;
          Yoe = Y - Era * 400;
          Doy = (153 * (M + (if M > 2 then -3 else 9)) + 2) sdiv 5 + uint (Day Time) - 1;
          Doe = Yoe * 365 + Yoe sdiv 4 - Yoe sdiv 100 + Doy;
          Days = Era * 146097 + Doe - 719468 in
      word_of_int (Days * 86400 + uint (Hour Time) * 3600 + uint (Minute Time) * 60 + uint (Second Time)))"

text \<open>The result of \<^verbatim>\<open>gRT->GetTime\<close> and the installed timestamp are arguments.\<close>

definition StagingTimestamp :: "efi_status \<times> efi_time \<Rightarrow> u32 \<Rightarrow> u32" where
  "StagingTimestamp GetTime mDtbUpdateTimestamp =
     (case GetTime of (Status, Time) \<Rightarrow>
        if \<not> EFI_ERROR Status \<and> Year Time \<ge> 2025 \<and> Year Time \<le> 2100
           \<and> EfiTimeToUnix Time > mDtbUpdateTimestamp
        then EfiTimeToUnix Time
        else mDtbUpdateTimestamp + 1)"

subsection \<open>Digest files\<close>

text \<open>The loop of \<^verbatim>\<open>BlTextHasLineKey\<close> over the indices left and the start of the current line.\<close>

fun LineKeyLoop :: "u8 list \<Rightarrow> u8 list \<Rightarrow> nat list \<Rightarrow> nat \<Rightarrow> bool" where
  "LineKeyLoop Text Key [] Start = False"
| "LineKeyLoop Text Key (Index # is) Start =
     (if Index = length Text \<or> Text ! Index = 10 \<or> Text ! Index = 13 then
        (if Index - Start > length Key \<and> take (length Key) (drop Start Text) = Key \<and>
            Text ! (Start + length Key) = 58
         then True
         else LineKeyLoop Text Key is (Index + 1))
      else LineKeyLoop Text Key is Start)"

definition BlTextHasLineKey :: "u8 list \<Rightarrow> u8 list \<Rightarrow> bool" where
  "BlTextHasLineKey Text Key = LineKeyLoop Text Key [0..<Suc (length Text)] 0"

text \<open>
  The two conversions of \<^verbatim>\<open>AsciiSPrint\<close> that are used, and its cut at the end of the buffer. PrintLib
  documents the digits of \<^verbatim>\<open>%x\<close> as \<open>0..9\<close> and \<open>A..F\<close>.
\<close>

definition hex_digit :: "u8 \<Rightarrow> u8" where
  "hex_digit d = (if d < 10 then 48 + d else 55 + d)"

definition fmt_02x :: "u8 \<Rightarrow> u8 list" where
  "fmt_02x b = [hex_digit (b div 16), hex_digit (b mod 16)]"

fun fmt_dec :: "nat \<Rightarrow> u8 list" where
  "fmt_dec n = (if n < 10 then [of_nat (48 + n)] else fmt_dec (n div 10) @ [of_nat (48 + n mod 10)])"

declare fmt_dec.simps [simp del]

definition AsciiSPrint :: "nat \<Rightarrow> u8 list \<Rightarrow> u8 list" where
  "AsciiSPrint cap s = take (cap - 1) s"

text \<open>A digest file: the hash in hexadecimal, the timestamp and, for \<open>pieeprom.sig\<close>, more lines.\<close>

definition SigText :: "u8 list \<Rightarrow> u32 \<Rightarrow> u8 list \<Rightarrow> u8 list" where
  "SigText Digest Timestamp extra =
     (let Sig = foldl (\<lambda>Sig d. Sig @ AsciiSPrint (128 - length Sig) (fmt_02x d)) [] Digest in
      Sig @ AsciiSPrint (128 - length Sig) (10 # ascii ''ts: '' @ fmt_dec (unat Timestamp) @ 10 # extra))"

definition SyncConfigDigest ::
  "buf \<Rightarrow> buf \<Rightarrow> nat \<Rightarrow> nat \<Rightarrow> nat \<Rightarrow> nat \<Rightarrow> u8 list \<Rightarrow> u32 \<Rightarrow> efi_status \<times> buf" where
  "SyncConfigDigest Stack Img Size WalkStart WinStart WinEnd Config Timestamp =
     (let Digest = BlSha256 Stack (\<lambda>i. Config ! i) (length Config) in
      EepromReplaceFileIn Img Size WalkStart WinStart WinEnd (ascii ''bootconf.sig'')
        (SigText Digest Timestamp []))"

subsection \<open>The patch\<close>

text \<open>Partition B: a configuration there is kept in step, and its digest; failures are only printed.\<close>

definition PatchPartitionB :: "buf \<Rightarrow> buf \<Rightarrow> nat \<Rightarrow> u8 list \<Rightarrow> u32 \<Rightarrow> buf" where
  "PatchPartitionB Stack Img Size NewConfig Timestamp =
     (case EepromFindFileIn Img Size EEPROM_PARTITION_B_START EEPROM_PARTITION_B_START
             EEPROM_PARTITION_B_END (ascii ''bootconf.txt'') of
        None \<Rightarrow> Img
      | Some Loc \<Rightarrow>
          (case EepromReplaceFileIn Img Size EEPROM_PARTITION_B_START EEPROM_PARTITION_B_START
                  EEPROM_PARTITION_B_END (ascii ''bootconf.txt'') NewConfig of
             (Status, Img) \<Rightarrow>
               if EFI_ERROR Status then Img
               else
                (case EepromFindFileIn Img Size EEPROM_PARTITION_B_START EEPROM_PARTITION_B_START
                        EEPROM_PARTITION_B_END (ascii ''bootconf.sig'') of
                   None \<Rightarrow> Img
                 | Some Loc \<Rightarrow>
                     snd (SyncConfigDigest Stack Img Size EEPROM_PARTITION_B_START EEPROM_PARTITION_B_START
                            EEPROM_PARTITION_B_END NewConfig Timestamp))))"

text \<open>
  \<^verbatim>\<open>PatchImage\<close>: the status, the line for the user when it fails, and the image. \<open>Alloc\<close> tells whether
  the buffer for the new text can be had, \<open>Stack\<close> is what the hash's working buffer holds.
\<close>

definition config_signed :: "buf \<Rightarrow> nat \<Rightarrow> bool" where
  "config_signed Img Size =
     (case EepromFindFileIn Img Size 0 EEPROM_PARTITION_A_START EEPROM_PARTITION_A_END (ascii ''bootconf.sig'') of
        None \<Rightarrow> False
      | Some Loc \<Rightarrow>
          BlTextHasLineKey (bytes_at Img (ContentOffset Loc) (ContentLen Loc)) (ascii ''rsa2048''))"

definition PatchImage ::
  "bool \<Rightarrow> buf \<Rightarrow> buf \<Rightarrow> nat \<Rightarrow> blcfg_values \<Rightarrow> u32 \<Rightarrow> efi_status \<times> string \<times> buf" where
  "PatchImage Alloc Stack Img Size Values Timestamp =
     (if \<not> EepromImageValid (Some Img) Size
      then (EFI_VOLUME_CORRUPTED, ''The EEPROM content does not look like a bootloader image.'', Img)
      else if config_signed Img Size
      then (EFI_SECURITY_VIOLATION, ''The EEPROM config is RSA-signed; only the signing key can change it.'', Img)
      else
       (let HasSig = (EepromFindFileIn Img Size 0 EEPROM_PARTITION_A_START EEPROM_PARTITION_A_END
                        (ascii ''bootconf.sig'') \<noteq> None) in
        case EepromFindFileIn Img Size 0 EEPROM_PARTITION_A_START EEPROM_PARTITION_A_END
               (ascii ''bootconf.txt'') of
          None \<Rightarrow> (EFI_NOT_FOUND, ''No bootconf.txt section in the EEPROM image.'', Img)
        | Some Loc \<Rightarrow>
            if \<not> Alloc then (EFI_OUT_OF_RESOURCES, ''Out of memory.'', Img)
            else
             (case BlBuildNewConfigText (bytes_at Img (ContentOffset Loc) (ContentLen Loc)) Values NEW_CONFIG_CAP of
                Inl Status \<Rightarrow> (Status, ''Rewriting bootconf.txt did not fit the EEPROM layout.'', Img)
              | Inr NewConfig \<Rightarrow>
                  (case EepromReplaceFileIn Img Size 0 EEPROM_PARTITION_A_START EEPROM_PARTITION_A_END
                          (ascii ''bootconf.txt'') NewConfig of
                     (Status, Img) \<Rightarrow>
                       if EFI_ERROR Status
                       then (Status, ''Rewriting bootconf.txt did not fit the EEPROM layout.'', Img)
                       else
                        (case (if HasSig
                               then SyncConfigDigest Stack Img Size 0 EEPROM_PARTITION_A_START
                                      EEPROM_PARTITION_A_END NewConfig Timestamp
                               else (EFI_SUCCESS, Img)) of
                           (Status, Img) \<Rightarrow>
                             if EFI_ERROR Status
                             then (Status, ''The config digest (bootconf.sig) could not be rewritten.'', Img)
                             else
                              (case EepromSetTimestamp
                                      (PatchPartitionB Stack Img Size NewConfig Timestamp) Size Timestamp of
                                 (Status, Img) \<Rightarrow>
                                   if EFI_ERROR Status
                                   then (Status, ''The EEPROM image's update timestamp could not be set.'', Img)
                                   else (EFI_SUCCESS, '''', Img)))))))"

subsection \<open>Time\<close>

text \<open>
  The reference for the calendar: count the days of the years from 1970 and of the months before
  the given one.
\<close>

definition leap :: "nat \<Rightarrow> bool" where
  "leap y = (y mod 4 = 0 \<and> (y mod 100 \<noteq> 0 \<or> y mod 400 = 0))"

fun years_days :: "nat \<Rightarrow> nat" where
  "years_days 0 = 0"
| "years_days (Suc n) = years_days n + (if leap (1970 + n) then 366 else 365)"

definition month_days :: "nat \<Rightarrow> nat \<Rightarrow> nat" where
  "month_days y m = (if m = 2 then if leap y then 29 else 28 else if m \<in> {4, 6, 9, 11} then 30 else 31)"

definition civil_days :: "nat \<Rightarrow> nat \<Rightarrow> nat \<Rightarrow> nat" where
  "civil_days y m d = years_days (y - 1970) + sum_list (map (month_days y) [1..<m]) + (d - 1)"

lemma div_step:
  fixes x n :: int
  assumes "0 < n"
  shows "(x - 1) div n = x div n - (if x mod n = 0 then 1 else 0)"
proof (cases "x mod n = 0")
  case True
  then have "x - 1 = n * (x div n - 1) + (n - 1)" using mult_div_mod_eq [of n x] by (simp add: algebra_simps)
  then have "(x - 1) div n = x div n - 1" by (rule int_div_pos_eq) (use assms in auto)
  with True show ?thesis by simp
next
  case False
  have "0 \<le> x mod n" "x mod n < n" using assms by simp_all
  then have r: "0 \<le> x mod n - 1" "x mod n - 1 < n" using False by linarith+
  have "x - 1 = n * (x div n) + (x mod n - 1)" using mult_div_mod_eq [of n x] by simp
  then have "(x - 1) div n = x div n" by (rule int_div_pos_eq) (rule r)+
  with False show ?thesis by simp
qed

lemma int_mod_zero: "int y mod numeral n = 0 \<longleftrightarrow> y mod numeral n = 0"
  by (metis of_nat_numeral int_dvd_int_iff mod_eq_0_iff_dvd)

definition leaps :: "int \<Rightarrow> int" where
  "leaps x = x div 4 - x div 100 + x div 400"

lemma leap_count: "leaps (int y) = leaps (int y - 1) + (if leap y then 1 else 0)"
proof -
  have "y mod 400 = 0 \<Longrightarrow> y mod 100 = 0" "y mod 100 = 0 \<Longrightarrow> y mod 4 = 0" by presburger+
  then show ?thesis by (auto simp: leaps_def div_step int_mod_zero leap_def)
qed

lemma years_days_closed: "int (years_days n) = 365 * int n + leaps (1969 + int n) - 477"
proof (induction n)
  case 0
  show ?case by (simp add: leaps_def)
next
  case (Suc n)
  have "leaps (1969 + int (Suc n)) = leaps (1969 + int n) + (if leap (1970 + n) then 1 else 0)"
    using leap_count [of "1970 + n"] by (simp add: add.commute)
  with Suc show ?case by simp
qed

lemma sdiv_nonneg: "0 \<le> x \<Longrightarrow> 0 < n \<Longrightarrow> x sdiv n = x div (n::int)"
  by (simp add: signed_divide_int_def sgn_if)

text \<open>The days of the code for a year beginning in March, with the eras multiplied out.\<close>

lemma era_days:
  assumes "0 \<le> (y::int)"
  shows "y sdiv 400 * 146097 + ((y - y sdiv 400 * 400) * 365 + (y - y sdiv 400 * 400) sdiv 4 -
      (y - y sdiv 400 * 400) sdiv 100) = 365 * y + leaps y"
proof -
  define e r where "e = y div 400" and "r = y mod 400"
  have y: "y = 400 * e + r" "0 \<le> r" by (simp_all add: e_def r_def)
  have "y div 4 = 100 * e + r div 4" "y div 100 = 4 * e + r div 100" "y div 400 = e"
    unfolding y(1) using y(2) by (simp_all add: e_def [symmetric] div_add1_eq)
      (simp_all add: r_def)
  moreover have "y sdiv 400 = e" using assms by (simp add: sdiv_nonneg e_def)
  moreover have "y - e * 400 = r" using y(1) by simp
  ultimately show ?thesis using y(2) by (simp add: sdiv_nonneg leaps_def)
qed

text \<open>The days from March to the given month, and the days before it in the year.\<close>

lemma months_doy:
  assumes "1 \<le> m" "m \<le> 12"
  shows "(153 * (int m + (if 2 < m then -3 else 9)) + 2) sdiv 5 =
    (if 2 < m then int (sum_list (map (month_days y) [1..<m])) - (if leap y then 60 else 59)
     else int (sum_list (map (month_days y) [1..<m])) + 306)"
proof -
  have "m = 1 \<or> m = 2 \<or> m = 3 \<or> m = 4 \<or> m = 5 \<or> m = 6 \<or> m = 7 \<or> m = 8 \<or> m = 9 \<or> m = 10 \<or> m = 11 \<or> m = 12"
    using assms by arith
  then show ?thesis
    by (elim disjE) (simp_all add: sdiv_nonneg month_days_def upt_rec)
qed

definition valid_date :: "efi_time \<Rightarrow> bool" where
  "valid_date t = (1970 \<le> unat (Year t) \<and> 1 \<le> unat (Month t) \<and> unat (Month t) \<le> 12 \<and> 1 \<le> unat (Day t))"

text \<open>
  The calendar arithmetic of the staging timestamp is the calendar: for every date from 1970 on the
  days-from-civil formula gives the days counted year by year and month by month, leap years
  included, and the result is the seconds since the epoch modulo \<open>2 ^ 32\<close>.
\<close>

theorem unix_time_exact:
  assumes "valid_date t"
  shows "EfiTimeToUnix t = of_nat (civil_days (unat (Year t)) (unat (Month t)) (unat (Day t)) * 86400 +
    unat (Hour t) * 3600 + unat (Minute t) * 60 + unat (Second t))"
proof -
  define y m d where "y = unat (Year t)" and "m = unat (Month t)" and "d = unat (Day t)"
  have v: "1970 \<le> y" "1 \<le> m" "m \<le> 12" "1 \<le> d" using assms by (simp_all add: valid_date_def y_def m_def d_def)
  have u: "uint (Year t) = int y" "uint (Month t) = int m" "uint (Day t) = int d"
    by (simp_all add: y_def m_def d_def)
  let ?Y = "int y - (if int m \<le> 2 then 1 else 0)"
  let ?S = "sum_list (map (month_days y) [1..<m])"
  have Y: "0 \<le> ?Y" using v by simp
  have doy: "(153 * (int m + (if int m > 2 then -3 else 9)) + 2) sdiv 5 =
      (if m > 2 then int ?S - (if leap y then 60 else 59) else int ?S + 306)"
    using months_doy [OF v(2,3), of y] by simp
  have yd: "int (years_days (y - 1970)) = 365 * (int y - 1970) +
leaps (int y - 1) - 477"
    using years_days_closed [of "y - 1970"] v(1) by (simp add: algebra_simps)
  have "?Y sdiv 400 * 146097 + ((?Y - ?Y sdiv 400 * 400) * 365 + (?Y - ?Y sdiv 400 * 400) sdiv 4 -
      (?Y - ?Y sdiv 400 * 400) sdiv 100 + ((153 * (int m + (if int m > 2 then -3 else 9)) + 2) sdiv 5 + int d - 1)) -
      719468 = int (civil_days y m d)"
    unfolding doy using era_days [OF Y] yd leap_count [of y] v(4)
    by (cases "int m \<le> 2") (simp_all add: civil_days_def split: if_splits)
  then show ?thesis
    unfolding EfiTimeToUnix_def Let_def u y_def [symmetric] m_def [symmetric] d_def [symmetric]
    by (simp add: algebra_simps)
qed

theorem unix_time_exact_witness:
  "EfiTimeToUnix \<lparr>Year = 2024, Month = 2, Day = 29, Hour = 12, Minute = 0, Second = 1\<rparr> =
   of_nat (civil_days 2024 2 29 * 86400 + 43201)"
  by (subst unix_time_exact) (simp_all add: valid_date_def)

text \<open>Whatever the clock says, the staged timestamp differs from the installed one.\<close>

lemma staging_timestamp_differs: "StagingTimestamp now ts \<noteq> ts"
  by (auto simp: StagingTimestamp_def split: prod.split)

subsection \<open>The text of a digest file\<close>

lemma length_fmt_dec: "n < 10 ^ Suc k \<Longrightarrow> length (fmt_dec n) \<le> Suc k"
proof (induction k arbitrary: n)
  case 0
  then show ?case by (subst fmt_dec.simps) simp
next
  case (Suc k)
  then have "n div 10 < 10 ^ Suc k" by (simp add: less_mult_imp_div_less)
  from Suc.IH [OF this] show ?case by (subst fmt_dec.simps) simp
qed

lemma sig_hex:
  "length Digest * 2 + length acc < 128 \<Longrightarrow>
   foldl (\<lambda>Sig d. Sig @ AsciiSPrint (128 - length Sig) (fmt_02x d)) acc Digest = acc @ concat (map fmt_02x Digest)"
proof (induction Digest arbitrary: acc)
  case (Cons d ds)
  have "AsciiSPrint (128 - length acc) (fmt_02x d) = fmt_02x d"
    using Cons.prems by (simp add: AsciiSPrint_def fmt_02x_def)
  then show ?case using Cons by (simp add: fmt_02x_def)
qed simp

lemma SigText_eq:
  assumes "length Digest = 32" "length extra \<le> 40"
  shows "SigText Digest ts extra = concat (map fmt_02x Digest) @ 10 # ascii ''ts: '' @ fmt_dec (unat ts) @ 10 # extra"
proof -
  have h: "foldl (\<lambda>Sig d. Sig @ AsciiSPrint (128 - length Sig) (fmt_02x d)) [] Digest = concat (map fmt_02x Digest)"
    using sig_hex [of Digest "[]"] assms(1) by simp
  have len: "length (concat (map fmt_02x Digest)) = 64"
    using assms(1) by (simp add: length_concat o_def fmt_02x_def sum_list_triv)
  have "unat ts < 2 ^ LENGTH(32)" by (rule unsigned_less)
  then have "unat ts < 10 ^ Suc 9" by simp
  then have "length (fmt_dec (unat ts)) \<le> 10" using length_fmt_dec [of "unat ts" 9] by simp
  then have "AsciiSPrint (128 - 64) (10 # ascii ''ts: '' @ fmt_dec (unat ts) @ 10 # extra) =
      10 # ascii ''ts: '' @ fmt_dec (unat ts) @ 10 # extra"
    using assms(2) by (simp add: AsciiSPrint_def ascii_def)
  then show ?thesis by (simp add: SigText_def h len)
qed

subsection \<open>Signed configurations\<close>

lemma LineKeyLoop_iff:
  assumes key: "\<forall>c \<in> set Key. c \<noteq> 10 \<and> c \<noteq> 13"
  shows "Start \<le> i \<Longrightarrow> i \<le> length Text \<or> Start = i \<Longrightarrow> i \<le> Suc (length Text) \<Longrightarrow>
    (\<forall>j. Start \<le> j \<and> j < i \<longrightarrow> Text ! j \<noteq> 10 \<and> Text ! j \<noteq> 13) \<Longrightarrow>
    LineKeyLoop Text Key [i..<Suc (length Text)] Start \<longleftrightarrow>
    (\<exists>k. (k = Start \<or> Start < k \<and> k \<le> length Text \<and> (Text ! (k - 1) = 10 \<or> Text ! (k - 1) = 13)) \<and>
       k + length Key < length Text \<and> take (length Key) (drop k Text) = Key \<and> Text ! (k + length Key) = 58)"
proof (induction "Suc (length Text) - i" arbitrary: i Start)
  case 0
  then have "i = Suc (length Text)" "Start = i" by auto
  then show ?case by auto
next
  case (Suc n)
  let ?hit = "\<lambda>k. k + length Key < length Text \<and> take (length Key) (drop k Text) = Key \<and> Text ! (k + length Key) = 58"
  have i: "i \<le> length Text" using Suc.hyps(2) by simp
  have up: "[i..<Suc (length Text)] = i # [i + 1..<Suc (length Text)]" using i by (simp add: upt_rec)
  show ?case
  proof (cases "i = length Text \<or> Text ! i = 10 \<or> Text ! i = 13")
    case True
    have hit: "i - Start > length Key \<and> take (length Key) (drop Start Text) = Key \<and> Text ! (Start + length Key) = 58
        \<longleftrightarrow> ?hit Start"
    proof
      assume h: "?hit Start"
      have "Text ! j \<noteq> 10 \<and> Text ! j \<noteq> 13" if "Start \<le> j" "j \<le> Start + length Key" for j
      proof (cases "j = Start + length Key")
        case False
        then have "j - Start < length Key" using that by simp
        moreover from this have "Text ! j = Key ! (j - Start)"
          using h that nth_take [of "j - Start" "length Key" "drop Start Text"] by simp
        ultimately show ?thesis using key by auto
      qed (use h in auto)
      then have "\<not> (i \<le> Start + length Key)" using True h Suc.prems(1) by auto
      then show "i - Start > length Key \<and> take (length Key) (drop Start Text) = Key \<and> Text ! (Start + length Key) = 58"
        using h by auto
    qed (use i in auto)
    have IH: "LineKeyLoop Text Key [i + 1..<Suc (length Text)] (i + 1) \<longleftrightarrow>
      (\<exists>k. (k = i + 1 \<or> i + 1 < k \<and> k \<le> length Text \<and> (Text ! (k - 1) = 10 \<or> Text ! (k - 1) = 13)) \<and> ?hit k)"
      by (rule Suc.hyps(1)) (use Suc.hyps(2) i in auto)
    have "(\<exists>k. (k = i + 1 \<or> i + 1 < k \<and> k \<le> length Text \<and> (Text ! (k - 1) = 10 \<or> Text ! (k - 1) = 13)) \<and> ?hit k)
        \<longleftrightarrow> (\<exists>k. Start < k \<and> k \<le> length Text \<and> (Text ! (k - 1) = 10 \<or> Text ! (k - 1) = 13) \<and> ?hit k)"
    proof (rule ex_cong1, goal_cases)
      case (1 k)
      have "\<not> k \<le> i" if "Start < k" "Text ! (k - 1) = 10 \<or> Text ! (k - 1) = 13" "k \<noteq> i + 1"
      proof
        assume "k \<le> i"
        then have "Start \<le> k - 1 \<and> k - 1 < i" using that by linarith
        then show False using Suc.prems(4) that(2) by blast
      qed
      then show ?case using True Suc.prems(1) by auto
    qed
    then show ?thesis unfolding up LineKeyLoop.simps hit IH using True by auto
  next
    case False
    have nn: "\<forall>j. Start \<le> j \<and> j < i + 1 \<longrightarrow> Text ! j \<noteq> 10 \<and> Text ! j \<noteq> 13"
      using Suc.prems(4) False by (auto simp: less_Suc_eq)
    have "n = Suc (length Text) - (i + 1)" "Start \<le> i + 1" "i + 1 \<le> length Text \<or> Start = i + 1"
      "i + 1 \<le> Suc (length Text)" using Suc.hyps(2) Suc.prems(1) i False by auto
    from Suc.hyps(1) [OF this nn] show ?thesis
      unfolding up LineKeyLoop.simps using False by (simp only: if_False)
  qed
qed

text \<open>
  A configuration counts as signed exactly if its digest file has a line that begins with the key and a
  colon, lines ending at either line break.
\<close>

theorem has_line_key_iff:
  assumes "\<forall>c \<in> set Key. c \<noteq> 10 \<and> c \<noteq> 13"
  shows "BlTextHasLineKey Text Key \<longleftrightarrow>
    (\<exists>before after. Text = before @ Key @ 58 # after \<and> (before = [] \<or> last before = 10 \<or> last before = 13))"
proof -
  have "BlTextHasLineKey Text Key \<longleftrightarrow>
    (\<exists>k. (k = 0 \<or> 0 < k \<and> k \<le> length Text \<and> (Text ! (k - 1) = 10 \<or> Text ! (k - 1) = 13)) \<and>
       k + length Key < length Text \<and> take (length Key) (drop k Text) = Key \<and> Text ! (k + length Key) = 58)"
    unfolding BlTextHasLineKey_def by (rule LineKeyLoop_iff [OF assms]) auto
  also have "\<dots> \<longleftrightarrow> (\<exists>before after. Text = before @ Key @ 58 # after \<and> (before = [] \<or> last before = 10 \<or> last before = 13))"
  proof
    assume "\<exists>k. (k = 0 \<or> 0 < k \<and> k \<le> length Text \<and> (Text ! (k - 1) = 10 \<or> Text ! (k - 1) = 13)) \<and>
       k + length Key < length Text \<and> take (length Key) (drop k Text) = Key \<and> Text ! (k + length Key) = 58"
    then obtain k where k: "k = 0 \<or> 0 < k \<and> (Text ! (k - 1) = 10 \<or> Text ! (k - 1) = 13)"
      "k + length Key < length Text" "take (length Key) (drop k Text) = Key" "Text ! (k + length Key) = 58" by blast
    have "drop k Text = Key @ drop (k + length Key) Text"
      using k(3) append_take_drop_id [of "length Key" "drop k Text"] by (simp add: add.commute)
    moreover have "drop (k + length Key) Text = 58 # drop (Suc (k + length Key)) Text"
      using k(2,4) by (metis Cons_nth_drop_Suc)
    ultimately have "Text = take k Text @ Key @ 58 # drop (Suc (k + length Key)) Text"
      by (metis append_take_drop_id)
    moreover have "take k Text = [] \<or> last (take k Text) = 10 \<or> last (take k Text) = 13"
      using k(1,2) by (auto simp: last_conv_nth)
    ultimately show "\<exists>before after. Text = before @ Key @ 58 # after \<and>
        (before = [] \<or> last before = 10 \<or> last before = 13)" by blast
  next
    assume "\<exists>before after. Text = before @ Key @ 58 # after \<and> (before = [] \<or> last before = 10 \<or> last before = 13)"
    then obtain before after where t: "Text = before @ Key @ 58 # after"
      "before = [] \<or> last before = 10 \<or> last before = 13" by blast
    show "\<exists>k. (k = 0 \<or> 0 < k \<and> k \<le> length Text \<and> (Text ! (k - 1) = 10 \<or> Text ! (k - 1) = 13)) \<and>
       k + length Key < length Text \<and> take (length Key) (drop k Text) = Key \<and> Text ! (k + length Key) = 58"
      by (rule exI [of _ "length before"], cases "before = []") (use t in \<open>auto simp: nth_append last_conv_nth\<close>)
  qed
  finally show ?thesis .
qed

theorem has_line_key_iff_witness:
  "BlTextHasLineKey (ascii ''ab'' @ 10 # ascii ''rsa2048: 1'') (ascii ''rsa2048'') \<longleftrightarrow>
    (\<exists>before after. ascii ''ab'' @ 10 # ascii ''rsa2048: 1'' = before @ ascii ''rsa2048'' @ 58 # after \<and>
      (before = [] \<or> last before = 10 \<or> last before = 13))"
  by (rule has_line_key_iff) (simp add: ascii_def)

subsection \<open>What a file of the image holds\<close>

text \<open>
  \<^verbatim>\<open>stores\<close>: a lookup finds the file and its content is \<open>D\<close>. \<^verbatim>\<open>sealed\<close>: the layout the patch relies
  on. The walk ends below \<open>B\<close> after at most \<open>n\<close> sections with one that is neither padding nor a file
  that is rewritten.
\<close>

definition stores :: "buf \<Rightarrow> nat \<Rightarrow> nat \<Rightarrow> nat \<Rightarrow> nat \<Rightarrow> u8 list \<Rightarrow> u8 list \<Rightarrow> bool" where
  "stores img Size ws w1 w2 N D =
     (\<exists>Loc. EepromFindFileIn img Size ws w1 w2 N = Some Loc \<and> unat (Be32 img (HdrOffset Loc + 4)) = length D + 16 \<and>
        ContentLen Loc = length D \<and> bytes_at img (ContentOffset Loc) (length D) = D)"

definition last_ok :: "buf \<Rightarrow> eeprom_section \<Rightarrow> bool" where
  "last_ok img s = (Magic s \<noteq> EEPROM_PAD_MAGIC \<and>
     (Magic s = EEPROM_FILE_MAGIC \<longrightarrow> 12 \<le> unat (Length s) \<and>
        \<not> FileNameMatches img (Offset s + 8) (ascii ''bootconf.txt'') \<and>
        \<not> FileNameMatches img (Offset s + 8) (ascii ''bootconf.sig'')))"

definition sealed :: "buf \<Rightarrow> nat \<Rightarrow> nat \<Rightarrow> nat \<Rightarrow> nat \<Rightarrow> bool" where
  "sealed img Size ws n B =
     (\<exists>ss. WalkSections img Size ws EEPROM_MAX_SECTIONS = Some ss \<and> ss \<noteq> [] \<and> length ss \<le> n \<and>
        (\<forall>s \<in> set ss. Offset s + 8 + unat (Length s) \<le> B) \<and> last_ok img (last ss))"

definition config_file :: "u8 list \<Rightarrow> bool" where
  "config_file N = (N = ascii ''bootconf.txt'' \<or> N = ascii ''bootconf.sig'')"

lemma MatchName_hits:
  "MatchName p f Name k n = Some j \<Longrightarrow> k \<le> j \<and> (j = k + n \<or> cchar Name j = 0) \<and>
     (\<forall>i. k \<le> i \<and> i < j \<longrightarrow> p (f + i) = cchar Name i)"
proof (induction n arbitrary: k)
  case (Suc n)
  show ?case
  proof (cases "cchar Name k = 0")
    case False
    with Suc.prems have "p (f + k) = cchar Name k" "MatchName p f Name (k + 1) n = Some j"
      by (auto split: if_splits)
    moreover from this Suc.IH [of "k + 1"] have IH: "k + 1 \<le> j" "j = k + 1 + n \<or> cchar Name j = 0"
      "\<And>i. k + 1 \<le> i \<Longrightarrow> i < j \<Longrightarrow> p (f + i) = cchar Name i" by auto
    have "p (f + i) = cchar Name i" if "k \<le> i" "i < j" for i
      using that calculation(1) IH(3) [of i] by (cases "i = k") auto
    with IH(1,2) show ?thesis by auto
  qed (use Suc.prems in auto)
qed auto

lemma FileNameMatches_byte:
  assumes "FileNameMatches p f Name" "i < length Name" "i < 12" "0 \<notin> set Name"
  shows "p (f + i) = Name ! i"
proof -
  obtain j where j: "MatchName p f Name 0 12 = Some j"
    using assms(1) by (auto simp: FileNameMatches_def EEPROM_FILENAME_LEN_def split: option.splits)
  have "cchar Name k \<noteq> 0" if "k \<le> i" for k
    using that assms(2,4) by (auto simp: cchar_def) (metis le_less_trans nth_mem)
  then have "i < j" using MatchName_hits [OF j] assms(3) by (cases "i < j") auto
  then show ?thesis using MatchName_hits [OF j] assms(2) by (auto simp: cchar_def)
qed

lemma name_bytes:
  "FileNameMatches p f (ascii ''bootconf.txt'') \<Longrightarrow> p f = 98 \<and> p (f + 9) = 116"
  "FileNameMatches p f (ascii ''bootconf.sig'') \<Longrightarrow> p f = 98 \<and> p (f + 9) = 115"
  "FileNameMatches p f (ascii ''updatetime'') \<Longrightarrow> p f = 117"
  using FileNameMatches_byte [of p f "ascii ''bootconf.txt''" 0] FileNameMatches_byte [of p f "ascii ''bootconf.txt''" 9]
    FileNameMatches_byte [of p f "ascii ''bootconf.sig''" 0] FileNameMatches_byte [of p f "ascii ''bootconf.sig''" 9]
    FileNameMatches_byte [of p f "ascii ''updatetime''" 0]
  by (simp_all add: ascii_def)

lemma names_differ:
  "config_file N \<Longrightarrow> config_file N' \<Longrightarrow> N \<noteq> N' \<Longrightarrow> FileNameMatches p f N \<Longrightarrow> \<not> FileNameMatches p f N'"
  "config_file N \<Longrightarrow> FileNameMatches p f N \<Longrightarrow> \<not> FileNameMatches p f (ascii ''updatetime'')"
  using name_bytes [of p f] by (auto simp: config_file_def)

lemma magics_differ: "EEPROM_FILE_MAGIC \<noteq> EEPROM_PAD_MAGIC"
  by (simp add: EEPROM_FILE_MAGIC_def EEPROM_PAD_MAGIC_def)

lemma config_file_head: "config_file N \<Longrightarrow> cchar N 0 \<noteq> 0x55"
  by (auto simp: config_file_def ascii_def cchar_def)

subsection \<open>A replacement on a sealed image\<close>

lemma replace_shape:
  assumes g: "geometry Size ws w2" and r: "EepromReplaceFileIn Img Size ws w1 w2 N D = (EFI_SUCCESS, img')"
    and w: "WalkFrom Img Size 64 0 ws = Some ss" and few: "length ss < 64"
    and real: "ss \<noteq> []" "Magic (last ss) \<noteq> EEPROM_PAD_MAGIC" "\<not> file_here Img w1 w2 N (last ss)"
  obtains pre s pads pad t rest where
    "ss = pre @ s # pads @ t # rest" "file_here Img w1 w2 N s" "\<forall>x \<in> set pre. \<not> file_here Img w1 w2 N x"
    "WalkFrom img' Size 64 0 ws = Some (pre @ s\<lparr>Length := of_nat (length D + 16)\<rparr> # pad @ t # rest)"
    "length pad \<le> 1" "\<forall>x \<in> set pad. Magic x = EEPROM_PAD_MAGIC" "\<forall>x \<in> set pads. Magic x = EEPROM_PAD_MAGIC"
    "Magic t \<noteq> EEPROM_PAD_MAGIC" "NextReal (pads @ t # rest) (window_cap Size w2) = Offset t"
    "\<And>i. i < Offset s + 4 \<or> Offset s + 8 \<le> i \<and> i < Offset s + 24 \<or> Offset t \<le> i \<Longrightarrow> img' i = Img i"
    "Offset s + 24 + length D \<le> Offset t" "length D \<le> 4076" "bytes_at img' (Offset s + 24) (length D) = D"
proof -
  from replace_success [OF g r] obtain pre s post where
    w0: "WalkFrom Img Size 64 0 ws = Some (pre @ s # post)" and h: "file_here Img w1 w2 N s"
    and np: "\<forall>x \<in> set pre. \<not> file_here Img w1 w2 N x" and P: "align8 (Offset s + 24 + length D) \<le> NextReal post (window_cap Size w2)"
    and d: "length D \<le> 4076"
    and i': "img' = replaced Img (Offset s) (NextReal post (window_cap Size w2)) (post = []) D"
    by metis
  have ss: "ss = pre @ s # post" using w w0 by simp
  have "post \<noteq> []" using real(3) h ss by auto
  then have "last ss \<in> set post" by (simp add: ss)
  then have "\<exists>t \<in> set post. Magic t \<noteq> EEPROM_PAD_MAGIC" using real(2) by blast
  from NextReal_split [OF this, of "window_cap Size w2"] obtain pads t rest where
    post: "post = pads @ t # rest" "Magic t \<noteq> EEPROM_PAD_MAGIC" "\<forall>x \<in> set pads. Magic x = EEPROM_PAD_MAGIC"
    and N: "NextReal post (window_cap Size w2) = Offset t" by blast
  have m: "Magic s = EEPROM_FILE_MAGIC" using h by (simp add: file_here_def)
  have lim: "length pre + length rest + 3 \<le> 64" using few ss post by simp
  have img': "img' = replaced Img (Offset s) (Offset t) False D" using i' N post by simp
  obtain pad where wk: "WalkFrom img' Size 64 0 ws = Some (pre @ s\<lparr>Length := of_nat (length D + 16)\<rparr> # pad @ t # rest)"
    and pad: "\<forall>x \<in> set pad. Magic x = EEPROM_PAD_MAGIC" "length pad \<le> 1"
    using replaced_walk [OF g d w0 [unfolded post(1)] m P [unfolded N] lim] unfolding img' by blast
  have fr: "img' i = Img i" if "i < Offset s + 4 \<or> Offset s + 8 \<le> i \<and> i < Offset s + 24 \<or> Offset t \<le> i" for i
    unfolding img' by (rule replaced_frame [OF P [unfolded N]]) (use that in auto)
  have "Offset s + 24 + length D \<le> Offset t" using P [unfolded N] align8_ge [of "Offset s + 24 + length D"] by linarith
  moreover have "bytes_at img' (Offset s + 24) (length D) = D"
    unfolding img' by (rule replaced_content(2) [OF P [unfolded N]])
  ultimately show thesis
    using that ss post h np wk pad fr d N by blast
qed

lemma stores_iff:
  "stores img Size ws w1 w2 N D \<longleftrightarrow>
     (\<exists>pre f post. WalkFrom img Size 64 0 ws = Some (pre @ f # post) \<and> file_here img w1 w2 N f \<and>
        (\<forall>x \<in> set pre. \<not> file_here img w1 w2 N x) \<and> unat (Length f) = length D + 16 \<and>
        bytes_at img (Offset f + 24) (length D) = D)" (is "?L = ?R")
proof
  assume ?L
  then obtain Loc pre f post where f: "WalkFrom img Size 64 0 ws = Some (pre @ f # post)"
    "file_here img w1 w2 N f" "\<forall>x \<in> set pre. \<not> file_here img w1 w2 N x" "Loc = loc_of Size w2 f post"
    and l: "unat (Be32 img (HdrOffset Loc + 4)) = length D + 16" "bytes_at img (ContentOffset Loc) (length D) = D"
    unfolding stores_def find_iff by blast
  have "Length f = Be32 img (Offset f + 4)" using Walk_Chain [OF f(1)] by (auto simp: Chain_app)
  then show ?R using f l by (intro exI [of _ pre] exI [of _ f] exI [of _ post]) (auto simp: loc_of_def)
next
  assume ?R
  then obtain pre f post where f: "WalkFrom img Size 64 0 ws = Some (pre @ f # post)" "file_here img w1 w2 N f"
    "\<forall>x \<in> set pre. \<not> file_here img w1 w2 N x" and l: "unat (Length f) = length D + 16"
    "bytes_at img (Offset f + 24) (length D) = D" by blast
  have "Length f = Be32 img (Offset f + 4)" using Walk_Chain [OF f(1)] by (auto simp: Chain_app)
  moreover have "EepromFindFileIn img Size ws w1 w2 N = Some (loc_of Size w2 f post)"
    unfolding find_iff using f by blast
  ultimately show ?L using l unfolding stores_def
    by (intro exI [of _ "loc_of Size w2 f post"]) (auto simp: loc_of_def)
qed

lemma replace_keeps_other:
  assumes g: "geometry Size ws w2" and r: "EepromReplaceFileIn Img Size ws w1 w2 N D = (EFI_SUCCESS, img')"
    and w: "WalkFrom Img Size 64 0 ws = Some ss" and few: "length ss < 64"
    and real: "ss \<noteq> []" "Magic (last ss) \<noteq> EEPROM_PAD_MAGIC" "\<not> file_here Img w1 w2 N (last ss)"
    and names: "config_file N" "config_file N2" "N \<noteq> N2" and st: "stores Img Size ws w1 w2 N2 D2"
  shows "stores img' Size ws w1 w2 N2 D2"
proof -
  from replace_shape [OF g r w few real] obtain pre s pads pad t rest where
    ss: "ss = pre @ s # pads @ t # rest" and h: "file_here Img w1 w2 N s"
    and wk: "WalkFrom img' Size 64 0 ws = Some (pre @ s\<lparr>Length := of_nat (length D + 16)\<rparr> # pad @ t # rest)"
    and pad: "\<forall>x \<in> set pad. Magic x = EEPROM_PAD_MAGIC" "\<forall>x \<in> set pads. Magic x = EEPROM_PAD_MAGIC"
    and fr: "\<And>i. i < Offset s + 4 \<or> Offset s + 8 \<le> i \<and> i < Offset s + 24 \<or> Offset t \<le> i \<Longrightarrow> img' i = Img i"
    by metis
  let ?s = "s\<lparr>Length := of_nat (length D + 16)\<rparr>"
  from st [unfolded stores_iff] obtain pre2 f post2 where
    f: "ss = pre2 @ f # post2" "file_here Img w1 w2 N2 f" "\<forall>x \<in> set pre2. \<not> file_here Img w1 w2 N2 x"
    "unat (Length f) = length D2 + 16" "bytes_at Img (Offset f + 24) (length D2) = D2"
    using w by auto
  have c: "Chain Img Size ws ss" using Walk_Chain [OF w] by simp
  note sorted = Chain_sorted [OF c, unfolded ss]
  have ws8: "ws mod 8 = 0" using g by (simp add: geometry_def)
  have ms: "Be32 Img (Offset s) = EEPROM_FILE_MAGIC" using c h by (simp add: ss Chain_app file_here_def)
  have ns: "\<not> file_here img' w1 w2 N2 ?s"
  proof -
    have "FileNameMatches img' (Offset s + 8) N2 = FileNameMatches Img (Offset s + 8) N2"
      by (rule FileNameMatches_cong) (use fr in auto)
    then show ?thesis using h names_differ(1) [OF names] by (auto simp: file_here_def)
  qed
  have before: "\<not> file_here img' w1 w2 N2 x" if x: "x \<in> set pre" "\<not> file_here Img w1 w2 N2 x" for x
  proof (rule file_here_before [of "Offset s" img' Img])
    show "Offset x + 8 \<le> Offset s" using sorted x by (force simp: sorted_wrt_append)
    show "Offset x mod 8 = 0" "Offset s mod 8 = 0" using Chain_aligned [OF c ws8] x by (auto simp: ss)
  qed (use fr ms config_file_head [OF names(2)] x in auto)
  have after: "file_here img' w1 w2 N2 x = file_here Img w1 w2 N2 x" if "x \<in> set (t # rest)" for x
  proof (rule file_here_cong)
    have "Offset t \<le> Offset x" using sorted that by (auto simp: sorted_wrt_append)
    then show "img' i = Img i" if "Offset x + 8 \<le> i" for i using that fr by simp
  qed
  consider mid where "pre = pre2 @ f # mid" | vs where "t # rest = vs @ f # post2" "pre2 = pre @ s # pads @ vs"
    using f(1,2) ss h pad(2) names_differ(1) [OF names] magics_differ
    by (auto simp: append_eq_append_conv2 Cons_eq_append_conv append_eq_Cons_conv file_here_def)
  then show ?thesis
  proof cases
    case 1
    have o: "Offset f + 8 + unat (Length f) \<le> Offset s" using sorted by (auto simp: 1 sorted_wrt_append)
    have "file_here img' w1 w2 N2 f = file_here Img w1 w2 N2 f"
      by (rule file_here_cong) (use o f(4) fr in auto)
    moreover have "bytes_at img' (Offset f + 24) (length D2) = bytes_at Img (Offset f + 24) (length D2)"
      by (rule bytes_at_cong) (use o f(4) fr in auto)
    ultimately show ?thesis
      unfolding stores_iff using wk f before by (intro exI [of _ pre2] exI [of _ f] exI [of _ "mid @ ?s # pad @ t # rest"]) (auto simp: 1)
  next
    case 2
    have ft: "f \<in> set (t # rest)" by (simp add: 2(1))
    have "Offset t \<le> Offset f" using sorted ft by (auto simp: sorted_wrt_append)
    then have "bytes_at img' (Offset f + 24) (length D2) = bytes_at Img (Offset f + 24) (length D2)"
      by (intro bytes_at_cong) (use fr in auto)
    moreover have "file_here img' w1 w2 N2 f" using after [OF ft] f(2) by simp
    moreover have "\<not> file_here img' w1 w2 N2 x" if x: "x \<in> set (pre @ ?s # pad @ vs)" for x
    proof -
      have np: "\<not> file_here Img w1 w2 N2 y" if "y \<in> set pre \<union> set vs" for y using that f(3) by (auto simp: 2(2))
      consider "x \<in> set pre" | "x = ?s" | "x \<in> set pad" | "x \<in> set vs" using x by auto
      then show ?thesis
      proof cases
        case 3
        then show ?thesis using pad(1) magics_differ by (auto simp: file_here_def)
      next
        case 4
        then have "x \<in> set (t # rest)" by (auto simp: 2(1))
        from after [OF this] np 4 show ?thesis by simp
      qed (use before np ns in auto)
    qed
    ultimately show ?thesis
      unfolding stores_iff using wk f(4,5)
      by (intro exI [of _ "pre @ ?s # pad @ vs"] exI [of _ f] exI [of _ post2]) (simp add: 2(1))
  qed
qed

lemma replace_stores:
  assumes g: "geometry Size ws w2" and r: "EepromReplaceFileIn Img Size ws w1 w2 N D = (EFI_SUCCESS, img')"
    and w: "WalkFrom Img Size 64 0 ws = Some ss" and few: "length ss < 64"
    and real: "ss \<noteq> []" "Magic (last ss) \<noteq> EEPROM_PAD_MAGIC" "\<not> file_here Img w1 w2 N (last ss)"
    and name: "config_file N"
  shows "stores img' Size ws w1 w2 N D"
proof -
  from replace_shape [OF g r w few real] obtain pre s pads pad t rest where
    ss: "ss = pre @ s # pads @ t # rest" and h: "file_here Img w1 w2 N s"
    and np: "\<forall>x \<in> set pre. \<not> file_here Img w1 w2 N x"
    and wk: "WalkFrom img' Size 64 0 ws = Some (pre @ s\<lparr>Length := of_nat (length D + 16)\<rparr> # pad @ t # rest)"
    and fr: "\<And>i. i < Offset s + 4 \<or> Offset s + 8 \<le> i \<and> i < Offset s + 24 \<or> Offset t \<le> i \<Longrightarrow> img' i = Img i"
    and d: "length D \<le> 4076" "bytes_at img' (Offset s + 24) (length D) = D"
    by metis
  have c: "Chain Img Size ws ss" using Walk_Chain [OF w] by simp
  have ws8: "ws mod 8 = 0" using g by (simp add: geometry_def)
  have "\<not> file_here img' w1 w2 N x" if x: "x \<in> set pre" for x
  proof (rule file_here_before [of "Offset s" img' Img])
    show "Offset x + 8 \<le> Offset s" using Chain_sorted [OF c, unfolded ss] x by (force simp: sorted_wrt_append)
    show "Offset x mod 8 = 0" "Offset s mod 8 = 0" using Chain_aligned [OF c ws8] x by (auto simp: ss)
    show "Be32 Img (Offset s) = EEPROM_FILE_MAGIC" using c h by (simp add: ss Chain_app file_here_def)
  qed (use fr np config_file_head [OF name] x in auto)
  moreover have "file_here img' w1 w2 N (s\<lparr>Length := of_nat (length D + 16)\<rparr>)"
    using h fr FileNameMatches_cong [of "Offset s + 8" img' Img N] by (simp add: file_here_def)
  moreover have "unat (of_nat (length D + 16) :: u32) = length D + 16"
    using d(1) by (simp add: unat_of_nat del: of_nat_add)
  ultimately show ?thesis
    unfolding stores_iff using wk d(2)
    by (intro exI [of _ pre] exI [of _ "s\<lparr>Length := of_nat (length D + 16)\<rparr>"] exI [of _ "pad @ t # rest"]) auto
qed

lemma replace_sealed:
  assumes g: "geometry Size ws w2" and r: "EepromReplaceFileIn Img Size ws w1 w2 N D = (EFI_SUCCESS, img')"
    and s: "sealed Img Size ws n B" and n: "n < 64" and name: "config_file N"
  shows "sealed img' Size ws (n + 1) B"
proof -
  from s obtain ss where w: "WalkFrom Img Size 64 0 ws = Some ss" and ne: "ss \<noteq> []" and len: "length ss \<le> n"
    and B: "\<forall>s \<in> set ss. Offset s + 8 + unat (Length s) \<le> B" and ok: "last_ok Img (last ss)"
    by (auto simp: sealed_def WalkSections_def EEPROM_MAX_SECTIONS_def)
  have few: "length ss < 64" using len n by simp
  have last: "Magic (last ss) \<noteq> EEPROM_PAD_MAGIC" "\<not> file_here Img w1 w2 N (last ss)"
    using ok name by (auto simp: last_ok_def file_here_def config_file_def)
  from replace_shape [OF g r w few ne last] obtain pre s pads pad t rest where
    ss: "ss = pre @ s # pads @ t # rest"
    and wk: "WalkFrom img' Size 64 0 ws = Some (pre @ s\<lparr>Length := of_nat (length D + 16)\<rparr> # pad @ t # rest)"
    and pad: "length pad \<le> 1"
    and fr: "\<And>i. i < Offset s + 4 \<or> Offset s + 8 \<le> i \<and> i < Offset s + 24 \<or> Offset t \<le> i \<Longrightarrow> img' i = Img i"
    by metis
  let ?ss = "pre @ s\<lparr>Length := of_nat (length D + 16)\<rparr> # pad @ t # rest"
  have c: "Chain Img Size ws ss" "Chain img' Size ws ?ss" using Walk_Chain [OF w] Walk_Chain [OF wk] by auto
  have lasts: "last ?ss = last ss" by (simp add: ss)
  have "Offset x + 8 + unat (Length x) \<le> B" if "x \<in> set ?ss" for x
  proof (cases "x \<in> set (t # rest)")
    case True
    then show ?thesis using B by (auto simp: ss)
  next
    case False
    then have "Offset x + 8 + unat (Length x) \<le> Offset t"
      using that Chain_sorted [OF c(2)] by (auto simp: sorted_wrt_append)
    also have "\<dots> \<le> B" using B by (auto simp: ss)
    finally show ?thesis .
  qed
  moreover have "last_ok img' (last ss)"
  proof -
    have "last ss \<in> set (t # rest)" by (simp add: ss)
    then have "Offset t \<le> Offset (last ss)"
      using Chain_sorted [OF c(1)] by (auto simp: ss sorted_wrt_append)
    then have "FileNameMatches img' (Offset (last ss) + 8) M = FileNameMatches Img (Offset (last ss) + 8) M" for M
      by (intro FileNameMatches_cong) (use fr in auto)
    then show ?thesis using ok by (simp add: last_ok_def)
  qed
  moreover have "length ?ss \<le> n + 1" using len pad by (simp add: ss)
  ultimately show ?thesis
    using wk lasts unfolding sealed_def WalkSections_def EEPROM_MAX_SECTIONS_def by (intro exI [of _ ?ss]) auto
qed

subsection \<open>Changes elsewhere\<close>

lemma sealedD:
  assumes "sealed img Size ws n B"
  obtains ss where "WalkFrom img Size 64 0 ws = Some ss" "ss \<noteq> []" "length ss \<le> n"
    "\<And>s. s \<in> set ss \<Longrightarrow> Offset s + 8 + unat (Length s) \<le> B" "last_ok img (last ss)"
  using assms by (auto simp: sealed_def WalkSections_def EEPROM_MAX_SECTIONS_def)

text \<open>Bytes that neither a walked header or name nor the content of a configuration file occupies.\<close>

lemma untouched:
  assumes s: "sealed img Size ws n B" and w: "WalkFrom img Size 64 0 ws = Some ss"
    and hdr: "\<And>x i. x \<in> set ss \<Longrightarrow> Offset x \<le> i \<Longrightarrow> i < Offset x + 8 \<Longrightarrow> img' i = img i"
    and nm: "\<And>x i. x \<in> set ss \<Longrightarrow> Magic x = EEPROM_FILE_MAGIC \<Longrightarrow> Offset x + 8 \<le> i \<Longrightarrow> i < Offset x + 20 \<Longrightarrow> img' i = img i"
    and ed: "\<And>i. chain_end ws ss \<le> i \<Longrightarrow> i < chain_end ws ss + 4 \<Longrightarrow> img' i = img i"
  shows "sealed img' Size ws n B"
    and "stores img Size ws w1 w2 N D \<Longrightarrow>
      (\<And>f i. f \<in> set ss \<Longrightarrow> file_here img w1 w2 N f \<Longrightarrow> Offset f + 24 \<le> i \<Longrightarrow> i < Offset f + 8 + unat (Length f) \<Longrightarrow>
         img' i = img i) \<Longrightarrow> stores img' Size ws w1 w2 N D"
proof -
  have w': "WalkFrom img' Size 64 0 ws = Some ss"
    by (rule Walk_headers [OF w]) (use hdr ed in auto)
  have names: "FileNameMatches img' (Offset x + 8) M = FileNameMatches img (Offset x + 8) M"
    if "x \<in> set ss" "Magic x = EEPROM_FILE_MAGIC" for x M
    by (rule FileNameMatches_cong) (use nm [OF that] in auto)
  show "sealed img' Size ws n B"
  proof -
    obtain ne: "ss \<noteq> []" and rest: "length ss \<le> n" "\<forall>s \<in> set ss. Offset s + 8 + unat (Length s) \<le> B" "last_ok img (last ss)"
      using s w by (auto simp: sealed_def WalkSections_def EEPROM_MAX_SECTIONS_def)
    have "last_ok img' (last ss)" using rest(3) names [of "last ss"] ne by (auto simp: last_ok_def)
    then show ?thesis using w' ne rest by (auto simp: sealed_def WalkSections_def EEPROM_MAX_SECTIONS_def)
  qed
  assume st: "stores img Size ws w1 w2 N D" and cont: "\<And>f i. f \<in> set ss \<Longrightarrow> file_here img w1 w2 N f \<Longrightarrow>
      Offset f + 24 \<le> i \<Longrightarrow> i < Offset f + 8 + unat (Length f) \<Longrightarrow> img' i = img i"
  have here: "file_here img' w1 w2 N x = file_here img w1 w2 N x" if "x \<in> set ss" for x
    using names [OF that, of N] by (auto simp: file_here_def)
  from st w obtain pre f post where f: "ss = pre @ f # post" "file_here img w1 w2 N f"
    "\<forall>x \<in> set pre. \<not> file_here img w1 w2 N x" "unat (Length f) = length D + 16"
    "bytes_at img (Offset f + 24) (length D) = D" unfolding stores_iff by auto
  have "bytes_at img' (Offset f + 24) (length D) = bytes_at img (Offset f + 24) (length D)"
    by (rule bytes_at_cong) (use cont [of f] f(1,2,4) in auto)
  then show "stores img' Size ws w1 w2 N D"
    unfolding stores_iff using w' f here
    by (intro exI [of _ pre] exI [of _ f] exI [of _ post]) auto
qed

lemma far_changes:
  assumes s: "sealed img Size ws n B" and B: "B mod 8 = 0" "ws mod 8 = 0"
    and fr: "\<And>i. i < B + 4 \<Longrightarrow> img' i = img i"
  shows "sealed img' Size ws n B" and "stores img Size ws w1 w2 N D \<Longrightarrow> stores img' Size ws w1 w2 N D"
proof -
  from sealedD [OF s] obtain ss where w: "WalkFrom img Size 64 0 ws = Some ss" and ne: "ss \<noteq> []"
    and b: "\<And>s. s \<in> set ss \<Longrightarrow> Offset s + 8 + unat (Length s) \<le> B" and ok: "last_ok img (last ss)" by metis
  have c: "Chain img Size ws ss" using Walk_Chain [OF w] by simp
  have "chain_end ws ss = align8 (Offset (last ss) + 8 + unat (Length (last ss)))"
    using chain_end_simps(3) [of ws "butlast ss" "last ss"] ne by simp
  also have "\<dots> \<le> B" by (rule align8_le) (use b ne B in auto)
  finally have ce: "chain_end ws ss \<le> B" .
  have hdr: "img' i = img i" if "x \<in> set ss" "Offset x \<le> i" "i < Offset x + 8" for x i
    using b [OF that(1)] that(3) fr by simp
  have nm: "img' i = img i"
    if x: "x \<in> set ss" "Magic x = EEPROM_FILE_MAGIC" and i: "Offset x + 8 \<le> i" "i < Offset x + 20" for x i
  proof (cases "x = last ss")
    case True
    then show ?thesis using ok x i b [of x] fr by (auto simp: last_ok_def)
  next
    case False
    obtain ys where ys: "ss = ys @ [last ss]" using ne by (metis append_butlast_last_id)
    with x False have "x \<in> set ys" by (metis UnE in_set_conv_decomp set_append set_ConsD empty_iff list.set(1))
    then have "Offset x + 8 \<le> Offset (last ss)"
      using Chain_sorted [OF c] ys by (metis (no_types, lifting) add_leD1 list.set_intros(1) sorted_wrt_append)
    then show ?thesis using i b [of "last ss"] ne fr by simp
  qed
  have ed: "img' i = img i" if "chain_end ws ss \<le> i" "i < chain_end ws ss + 4" for i using that ce fr by simp
  show "sealed img' Size ws n B" by (rule untouched(1) [OF s w hdr nm ed])
  have "img' i = img i" if "f \<in> set ss" "i < Offset f + 8 + unat (Length f)" for f i
    using b [OF that(1)] that(2) fr by simp
  then show "stores img' Size ws w1 w2 N D" if "stores img Size ws w1 w2 N D"
    by (intro untouched(2) [OF s w hdr nm ed that])
qed

text \<open>A timestamp in a section of its own, in the last bytes of the image, and anything in partition B.\<close>

lemma PutTimestamp_outside: "\<not> (off \<le> i \<and> i < off + 8) \<Longrightarrow> PutTimestamp p off ts i = p i"
  by (auto simp: PutTimestamp_def frame_simps)

lemma timestamp_section:
  assumes s: "sealed img Size ws n B" and name: "config_file N"
    and f: "EepromFindFileIn img Size ws a b (ascii ''updatetime'') = Some Loc" and len: "8 \<le> ContentLen Loc"
  shows "sealed (PutTimestamp img (ContentOffset Loc) ts) Size ws n B"
    and "stores img Size ws w1 w2 N D \<Longrightarrow> stores (PutTimestamp img (ContentOffset Loc) ts) Size ws w1 w2 N D"
proof -
  let ?i = "PutTimestamp img (ContentOffset Loc) ts"
  from f obtain pre u post where w: "WalkFrom img Size 64 0 ws = Some (pre @ u # post)"
    and u: "file_here img a b (ascii ''updatetime'') u" and L: "Loc = loc_of Size b u post"
    unfolding find_iff by blast
  let ?ss = "pre @ u # post"
  have c: "Chain img Size ws ?ss" using Walk_Chain [OF w] by simp
  have l24: "24 \<le> unat (Length u)" using len L by (simp add: loc_of_def)
  have fr: "?i i = img i" if "i < Offset u + 24 \<or> Offset u + 32 \<le> i" for i
    using that PutTimestamp_outside [of "Offset u + 24" i] L by (auto simp: loc_of_def)
  have pos: "Offset x + 8 + unat (Length x) \<le> Offset u \<or> x = u \<or> Offset u + 32 \<le> Offset x" if "x \<in> set ?ss" for x
    using that Chain_sorted [OF c] l24 by (fastforce simp: sorted_wrt_append)
  have hdr: "?i i = img i" if "x \<in> set ?ss" "Offset x \<le> i" "i < Offset x + 8" for x i
    using pos [OF that(1)] that(2,3) by (intro fr) auto
  have nm: "?i i = img i"
    if "x \<in> set ?ss" "Magic x = EEPROM_FILE_MAGIC" "Offset x + 8 \<le> i" "i < Offset x + 20" for x i
    using pos [OF that(1)] that(3,4) by (intro fr) auto
  have "Offset u + 32 \<le> chain_end ws ?ss" using Chain_end_bound [OF c, of u] l24 by simp
  then have ed: "?i i = img i" if "chain_end ws ?ss \<le> i" "i < chain_end ws ?ss + 4" for i
    using that by (intro fr) auto
  show "sealed ?i Size ws n B" by (rule untouched(1) [OF s w hdr nm ed])
  have "?i i = img i" if "x \<in> set ?ss" "file_here img w1 w2 N x" "Offset x + 24 \<le> i" "i < Offset x + 8 + unat (Length x)" for x i
  proof -
    have "x \<noteq> u" using that(2) u names_differ(2) [OF name] by (auto simp: file_here_def)
    then show ?thesis using pos [OF that(1)] that(3,4) by (intro fr) auto
  qed
  then show "stores ?i Size ws w1 w2 N D" if "stores img Size ws w1 w2 N D"
    by (intro untouched(2) [OF s w hdr nm ed that])
qed

lemma set_timestamp_keeps:
  assumes s: "sealed img Size 0 n B" and B: "B mod 8 = 0" "B + 12 \<le> Size" "Size < 2 ^ 32" and name: "config_file N"
    and st: "stores img Size 0 w1 w2 N D"
  shows "stores (snd (EepromSetTimestamp img Size ts)) Size 0 w1 w2 N D"
proof -
  define old where "old = PutLe32 (PutLe32 img (usub64 Size 4) ts) (usub64 Size 8) (NOT ts)"
  have "usub64 Size 4 = Size - 4" "usub64 Size 8 = Size - 8" using B by (simp_all add: usub64_le)
  moreover have "i < Size - 8" "i < Size - 4" if "i < B + 4" for i using that B by linarith+
  ultimately have "old i = img i" if "i < B + 4" for i using that by (simp add: old_def frame_simps)
  then have o: "stores old Size 0 w1 w2 N D" by (intro far_changes(2) [OF s B(1) _ _ st]) auto
  note a = timestamp_section [OF s name]
  show ?thesis
  proof (cases "EepromFindFileIn img Size 0 0 EEPROM_READ_ONLY_SIZE (ascii ''updatetime'')")
    case None
    then show ?thesis using o by (simp add: EepromSetTimestamp_def old_def)
  next
    case (Some Loc)
    show ?thesis
    proof (cases "ContentLen Loc < 8")
      case True
      then show ?thesis using o Some by (simp add: EepromSetTimestamp_def old_def)
    next
      case False
      then have l: "8 \<le> ContentLen Loc" by simp
      let ?i = "PutTimestamp img (ContentOffset Loc) ts"
      have i: "sealed ?i Size 0 n B" "stores ?i Size 0 w1 w2 N D" using a [OF Some l] st by auto
      show ?thesis
        using False Some i(2) timestamp_section(2) [OF i(1) name _ _ i(2)]
        by (auto simp: EepromSetTimestamp_def Let_def not_less split: option.split)
    qed
  qed
qed

lemma replace_above:
  assumes "geometry Size ws w2" "i < ws + 4"
  shows "snd (EepromReplaceFileIn img Size ws w1 w2 N D) i = img i"
proof (cases "fst (EepromReplaceFileIn img Size ws w1 w2 N D) = EFI_SUCCESS")
  case True
  then have "EepromReplaceFileIn img Size ws w1 w2 N D = (EFI_SUCCESS, snd (EepromReplaceFileIn img Size ws w1 w2 N D))"
    by (metis prod.collapse)
  from replace_success [OF assms(1) this] obtain pre s post where
    w: "WalkFrom img Size 64 0 ws = Some (pre @ s # post)"
    and P: "align8 (Offset s + 24 + length D) \<le> NextReal post (window_cap Size w2)"
    and i': "snd (EepromReplaceFileIn img Size ws w1 w2 N D) =
      replaced img (Offset s) (NextReal post (window_cap Size w2)) (post = []) D" by metis
  have "ws \<le> Offset s" using Walk_Chain [OF w] Chain_offsets by fastforce
  then show ?thesis unfolding i' using assms(2) by (intro replaced_frame [OF P]) auto
next
  case False
  then show ?thesis
    by (auto simp: EepromReplaceFileIn_def Let_def split: if_splits option.splits prod.splits)
qed

lemma partB_above:
  assumes "geometry Size EEPROM_PARTITION_B_START EEPROM_PARTITION_B_END" "i < EEPROM_PARTITION_B_START + 4"
  shows "PatchPartitionB Stack img Size Config ts i = img i"
proof (cases "EepromReplaceFileIn img Size EEPROM_PARTITION_B_START EEPROM_PARTITION_B_START
    EEPROM_PARTITION_B_END (ascii ''bootconf.txt'') Config")
  case (Pair st x)
  have "x i = img i"
    using replace_above [OF assms, of img EEPROM_PARTITION_B_START "ascii ''bootconf.txt''" Config] by (simp add: Pair)
  then show ?thesis
    using replace_above [OF assms, of x EEPROM_PARTITION_B_START]
    by (auto simp: PatchPartitionB_def SyncConfigDigest_def Let_def Pair split: option.split)
qed

subsection \<open>Properties of the patch\<close>

lemma length_sha256: "length (sha256 M) = 32"
proof -
  have "BlSha256 (\<lambda>_. 0) (\<lambda>i. M ! i) (length M) = sha256 (bytes_at (\<lambda>i. M ! i) 0 (length M))"
    by (rule BlSha256_sha256)
  moreover have "bytes_at (\<lambda>i. M ! i) 0 (length M) = M" by (rule nth_equalityI) (simp_all add: bytes_at_def)
  moreover have "length (BlSha256 (\<lambda>_. 0) (\<lambda>i. M ! i) (length M)) = 32"
    by (simp add: BlSha256_def Let_def WordBytes_def length_concat o_def upt_rec split: prod.split)
  ultimately show ?thesis by simp
qed

lemma SigText_config:
  "SigText (BlSha256 Stack (\<lambda>i. cfg ! i) (length cfg)) ts [] =
   concat (map fmt_02x (sha256 cfg)) @ 10 # ascii ''ts: '' @ fmt_dec (unat ts) @ [10]"
proof -
  have "bytes_at (\<lambda>i. cfg ! i) 0 (length cfg) = cfg" by (rule nth_equalityI) (simp_all add: bytes_at_def)
  then have "BlSha256 Stack (\<lambda>i. cfg ! i) (length cfg) = sha256 cfg" by (simp add: BlSha256_sha256)
  then show ?thesis using SigText_eq [OF length_sha256] by simp
qed

lemma geometry_2712:
  "geometry EEPROM_IMAGE_SIZE_2712 0 EEPROM_PARTITION_A_END"
  "geometry EEPROM_IMAGE_SIZE_2712 EEPROM_PARTITION_B_START EEPROM_PARTITION_B_END"
  by (simp_all add: geometry_def eeprom_consts EEPROM_PARTITION_B_START_def EEPROM_PARTITION_B_END_def)

lemma AppendLoop_error: "AppendLoop v cap ks st = Inl e \<Longrightarrow> e = EFI_BUFFER_TOO_SMALL"
  by (induction v cap ks st rule: AppendLoop.induct) (auto split: if_splits)

lemma BuildLoop_error: "BuildLoop t v cap pos st = Inl e \<longrightarrow> e = EFI_BUFFER_TOO_SMALL"
proof (induction t v cap pos st rule: BuildLoop.induct)
  case (1 t v cap pos Out Seen)
  show ?case
    by (subst BuildLoop.simps) (use 1 in \<open>auto simp: Let_def split: option.split\<close>)
qed

lemma build_error: "BlBuildNewConfigText t v cap = Inl e \<Longrightarrow> e = EFI_BUFFER_TOO_SMALL"
  by (auto simp: BlBuildNewConfigText_def dest: BuildLoop_error [rule_format] AppendLoop_error split: sum.splits if_splits)

lemma PatchImage_steps:
  assumes "PatchImage Alloc Stack Img Size v ts = (EFI_SUCCESS, line, img')"
  obtains cfg i1 i2 t where "Size = EEPROM_IMAGE_SIZE_2712"
    "BlBuildNewConfigText t v NEW_CONFIG_CAP = Inr cfg"
    "EepromReplaceFileIn Img Size 0 EEPROM_PARTITION_A_START EEPROM_PARTITION_A_END (ascii ''bootconf.txt'') cfg =
      (EFI_SUCCESS, i1)"
    "(if EepromFindFileIn Img Size 0 EEPROM_PARTITION_A_START EEPROM_PARTITION_A_END (ascii ''bootconf.sig'') \<noteq> None
      then SyncConfigDigest Stack i1 Size 0 EEPROM_PARTITION_A_START EEPROM_PARTITION_A_END cfg ts
      else (EFI_SUCCESS, i1)) = (EFI_SUCCESS, i2)"
    "img' = snd (EepromSetTimestamp (PatchPartitionB Stack i2 Size cfg ts) Size ts)"
  using assms
  by (auto simp: PatchImage_def Let_def EFI_ERROR_def EepromImageValid_def dest!: build_error split: if_splits option.splits sum.splits prod.splits)

lemma patch_installs:
  assumes v: "valid_values v" and lay: "sealed Img Size 0 60 EEPROM_PARTITION_A_END"
    and ok: "PatchImage Alloc Stack Img Size v ts = (EFI_SUCCESS, line, img')"
  shows "\<exists>cfg. BlValuesFromText cfg = v \<and>
    stores img' Size 0 EEPROM_PARTITION_A_START EEPROM_PARTITION_A_END (ascii ''bootconf.txt'') cfg \<and>
    (EepromFindFileIn Img Size 0 EEPROM_PARTITION_A_START EEPROM_PARTITION_A_END (ascii ''bootconf.sig'') \<noteq> None \<longrightarrow>
     stores img' Size 0 EEPROM_PARTITION_A_START EEPROM_PARTITION_A_END (ascii ''bootconf.sig'')
       (concat (map fmt_02x (sha256 cfg)) @ 10 # ascii ''ts: '' @ fmt_dec (unat ts) @ [10]))"
proof -
  let ?A = "EEPROM_PARTITION_A_START" and ?E = "EEPROM_PARTITION_A_END"
  let ?txt = "ascii ''bootconf.txt''" and ?sig = "ascii ''bootconf.sig''"
  from PatchImage_steps [OF ok] obtain cfg i1 i2 t where Size: "Size = EEPROM_IMAGE_SIZE_2712"
    and cfg: "BlBuildNewConfigText t v NEW_CONFIG_CAP = Inr cfg"
    and r1: "EepromReplaceFileIn Img Size 0 ?A ?E ?txt cfg = (EFI_SUCCESS, i1)"
    and r2: "(if EepromFindFileIn Img Size 0 ?A ?E ?sig \<noteq> None
      then SyncConfigDigest Stack i1 Size 0 ?A ?E cfg ts else (EFI_SUCCESS, i1)) = (EFI_SUCCESS, i2)"
    and i': "img' = snd (EepromSetTimestamp (PatchPartitionB Stack i2 Size cfg ts) Size ts)" .
  note g = geometry_2712 [folded Size]
  have E: "?E mod 8 = 0" "?E + 12 \<le> Size" "Size < 2 ^ 32" by (simp_all add: Size eeprom_consts)
  have names: "config_file ?txt" "config_file ?sig" "?txt \<noteq> ?sig" "?sig \<noteq> ?txt"
    by (simp_all add: config_file_def ascii_def)
  let ?S = "concat (map fmt_02x (sha256 cfg)) @ 10 # ascii ''ts: '' @ fmt_dec (unat ts) @ [10]"
  have shape: "\<exists>ss. WalkFrom i Size 64 0 0 = Some ss \<and> length ss < 64 \<and> ss \<noteq> [] \<and>
      Magic (last ss) \<noteq> EEPROM_PAD_MAGIC \<and> (\<forall>N. config_file N \<longrightarrow> \<not> file_here i ?A ?E N (last ss))"
    if "sealed i Size 0 n ?E" "n < 64" for i n
  proof -
    from sealedD [OF that(1)] obtain ss where w: "WalkFrom i Size 64 0 0 = Some ss" "ss \<noteq> []" "length ss \<le> n"
      and ok: "last_ok i (last ss)" by metis
    have "\<not> file_here i ?A ?E N (last ss)" if "config_file N" for N
      using ok that by (auto simp: last_ok_def config_file_def file_here_def)
    then show ?thesis using w ok that(2) by (intro exI [of _ ss]) (auto simp: last_ok_def)
  qed
  have s1: "sealed i1 Size 0 61 ?E"
    using replace_sealed [OF g(1) r1 lay _ names(1)] by simp
  from shape [OF lay] obtain ss where "WalkFrom Img Size 64 0 0 = Some ss" "length ss < 64" "ss \<noteq> []"
    "Magic (last ss) \<noteq> EEPROM_PAD_MAGIC" "\<not> file_here Img ?A ?E ?txt (last ss)" using names(1) by auto
  from replace_stores [OF g(1) r1 this names(1)] have st1: "stores i1 Size 0 ?A ?E ?txt cfg" .
  have st2: "stores i2 Size 0 ?A ?E ?txt cfg" "EepromFindFileIn Img Size 0 ?A ?E ?sig \<noteq> None \<longrightarrow>
      stores i2 Size 0 ?A ?E ?sig ?S" and s2: "\<exists>n. sealed i2 Size 0 n ?E"
  proof -
    have "stores i2 Size 0 ?A ?E ?txt cfg \<and> stores i2 Size 0 ?A ?E ?sig ?S \<and> sealed i2 Size 0 62 ?E"
      if "EepromFindFileIn Img Size 0 ?A ?E ?sig \<noteq> None"
    proof -
      have r: "EepromReplaceFileIn i1 Size 0 ?A ?E ?sig ?S = (EFI_SUCCESS, i2)"
        using r2 that SigText_config [of Stack cfg ts] by (simp add: SyncConfigDigest_def Let_def)
      from shape [OF s1] obtain ss where w: "WalkFrom i1 Size 64 0 0 = Some ss" "length ss < 64" "ss \<noteq> []"
        "Magic (last ss) \<noteq> EEPROM_PAD_MAGIC" "\<not> file_here i1 ?A ?E ?sig (last ss)" using names(2) by auto
      show ?thesis
        using replace_stores [OF g(1) r w names(2)] replace_keeps_other [OF g(1) r w names(2,1,4) st1]
          replace_sealed [OF g(1) r s1 _ names(2)] by simp
    qed
    moreover have "i2 = i1" if "EepromFindFileIn Img Size 0 ?A ?E ?sig = None" using r2 that by simp
    ultimately show "stores i2 Size 0 ?A ?E ?txt cfg" "EepromFindFileIn Img Size 0 ?A ?E ?sig \<noteq> None \<longrightarrow>
      stores i2 Size 0 ?A ?E ?sig ?S" "\<exists>n. sealed i2 Size 0 n ?E"
      using st1 s1 by (cases "EepromFindFileIn Img Size 0 ?A ?E ?sig = None", auto)+
  qed
  let ?b = "PatchPartitionB Stack i2 Size cfg ts"
  obtain n where n: "sealed i2 Size 0 n ?E" using s2 by blast
  have above: "?b i = i2 i" if "i < ?E + 4" for i
    using partB_above [OF g(2)] that by (simp add: EEPROM_PARTITION_B_START_def)
  have sb: "sealed ?b Size 0 n ?E" by (rule far_changes(1) [OF n E(1) _ above]) simp_all
  have keep: "stores img' Size 0 ?A ?E N D" if "config_file N" "stores i2 Size 0 ?A ?E N D" for N D
    unfolding i' by (rule set_timestamp_keeps [OF sb E that(1) far_changes(2) [OF n E(1) _ above that(2)]]) simp_all
  have "BlValuesFromText cfg = v" by (rule build_values [OF v cfg])
  then show ?thesis using st2 keep names by blast
qed


text \<open>The image of the witness: read-only part, \<open>bootconf.txt\<close> with padding behind it, one more section.\<close>

definition demo_2712 :: buf where
  "demo_2712 = demo_section 0 EEPROM_SECTION_MAGIC 65528 []
     (demo_section 65536 EEPROM_FILE_MAGIC 24 (ascii ''bootconf.txt'' @ replicate 12 10)
     (demo_section 65568 EEPROM_PAD_MAGIC 4056 []
     (demo_section 69632 EEPROM_SECTION_MAGIC 8 [] (\<lambda>_. 0xFF))))"

lemma Be32_demo:
  "Be32 (demo_section off m len body p) off = m"
  "Be32 (demo_section off m len body p) (off + 4) = of_nat len"
  "o' + 4 \<le> off \<or> off + 8 + length body \<le> o' \<Longrightarrow> Be32 (demo_section off m len body p) o' = Be32 p o'"
proof -
  have "demo_section off m len body p i = PutBe32 (PutBe32 p off m) (off + 4) (of_nat len) i" if "i < off + 8" for i
    using that by (simp add: demo_section_def frame_simps)
  then show "Be32 (demo_section off m len body p) off = m"
    "Be32 (demo_section off m len body p) (off + 4) = of_nat len"
    using Be32_cong [of off "demo_section off m len body p" "PutBe32 (PutBe32 p off m) (off + 4) (of_nat len)"]
      Be32_cong [of "off + 4" "demo_section off m len body p" "PutBe32 (PutBe32 p off m) (off + 4) (of_nat len)"]
      Be32_cong [of off "PutBe32 (PutBe32 p off m) (off + 4) (of_nat len)" "PutBe32 p off m"]
    by (auto simp: Be32_PutBe32 frame_simps)
  assume o': "o' + 4 \<le> off \<or> off + 8 + length body \<le> o'"
  show "Be32 (demo_section off m len body p) o' = Be32 p o'"
    by (rule Be32_cong) (use o' in \<open>auto simp: demo_section_def frame_simps\<close>)
qed

lemma Be32_erased: "Be32 (\<lambda>_. 0xFF) i = 0xffffffff"
  by (simp add: Be32_def)

lemma demo_2712_heads:
  "Be32 demo_2712 0 = EEPROM_SECTION_MAGIC" "Be32 demo_2712 4 = 65528"
  "Be32 demo_2712 65536 = EEPROM_FILE_MAGIC" "Be32 demo_2712 65540 = 24"
  "Be32 demo_2712 65568 = EEPROM_PAD_MAGIC" "Be32 demo_2712 65572 = 4056"
  "Be32 demo_2712 69632 = EEPROM_SECTION_MAGIC" "Be32 demo_2712 69636 = 8"
  "Be32 demo_2712 69648 = 0xffffffff"
  using Be32_demo(1,2) [of 0] Be32_demo(1,2) [of 65536] Be32_demo(1,2) [of 65568] Be32_demo(1,2) [of 69632]
  by (simp_all add: demo_2712_def Be32_demo(3) Be32_erased ascii_def)

definition demo_2712_sections :: "eeprom_section list" where
  "demo_2712_sections =
     [\<lparr>Magic = EEPROM_SECTION_MAGIC, Offset = 0, Length = 65528\<rparr>,
      \<lparr>Magic = EEPROM_FILE_MAGIC, Offset = 65536, Length = 24\<rparr>,
      \<lparr>Magic = EEPROM_PAD_MAGIC, Offset = 65568, Length = 4056\<rparr>,
      \<lparr>Magic = EEPROM_SECTION_MAGIC, Offset = 69632, Length = 8\<rparr>]"

lemma demo_2712_walk: "WalkFrom demo_2712 EEPROM_IMAGE_SIZE_2712 64 0 0 = Some demo_2712_sections"
proof -
  have "WalkFrom demo_2712 EEPROM_IMAGE_SIZE_2712 64 (Suc (Suc (Suc (Suc 0)))) 69648 = Some []"
    by (rule Walk_NilI) (simp add: demo_2712_heads)
  then show ?thesis
    by (simp add: demo_2712_sections_def Walk_step demo_2712_heads align8_def eeprom_consts)
qed

lemma demo_2712_build: "case BlBuildNewConfigText (replicate 8 10) demo_values 4096 of Inl _ \<Rightarrow> False | Inr cfg \<Rightarrow> length cfg \<le> 1000"
  by code_simp

lemma name_match: 
  assumes "bytes_at p f 12 = Name" "0 \<notin> set Name"
  shows "FileNameMatches p f Name"
proof -
  have b: "length Name = 12" "\<And>i. i < 12 \<Longrightarrow> p (f + i) = Name ! i" using assms(1) by (auto simp: bytes_at_def)
  have "MatchName p f Name k n = Some (k + n)" if "k + n = 12" for k n
    using that
  proof (induction n arbitrary: k)
    case (Suc n)
    then have "Name ! k \<in> set Name" "k < 12" using b(1) by simp_all
    then have "Name ! k \<noteq> 0" "k < 12" using assms(2) by metis+
    then show ?case using Suc.IH [of "k + 1"] Suc.prems b by (simp add: cchar_def)
  qed simp
  from this [of 0 12] show ?thesis by (simp add: FileNameMatches_def EEPROM_FILENAME_LEN_def cchar_def b(1))
qed

lemma demo_2712_name: "FileNameMatches demo_2712 65544 (ascii ''bootconf.txt'')"
proof (rule name_match)
  have "length (ascii ''bootconf.txt'') = 12" by (simp add: ascii_def)
  then show "bytes_at demo_2712 65544 12 = ascii ''bootconf.txt''"
    by (intro nth_equalityI)
      (simp_all add: bytes_at_def demo_2712_def demo_section_def CopyMem_def PutBe32_def nth_append)
qed (simp add: ascii_def)

lemma demo_2712_content: "bytes_at demo_2712 65560 8 = replicate 8 10"
proof -
  have "length (ascii ''bootconf.txt'') = 12" by (simp add: ascii_def)
  then show ?thesis
    by (intro nth_equalityI)
      (simp_all add: bytes_at_def demo_2712_def demo_section_def CopyMem_def PutBe32_def nth_append)
qed

lemma find_None:
  "WalkFrom img Size 64 0 ws = Some ss \<Longrightarrow> \<forall>x \<in> set ss. \<not> file_here img w1 w2 N x \<Longrightarrow>
   EepromFindFileIn img Size ws w1 w2 N = None"
  by (cases "EepromFindFileIn img Size ws w1 w2 N") (auto simp: find_iff)

lemma demo_2712_find:
  "EepromFindFileIn demo_2712 EEPROM_IMAGE_SIZE_2712 0 EEPROM_PARTITION_A_START EEPROM_PARTITION_A_END
     (ascii ''bootconf.txt'') =
   Some \<lparr>HdrOffset = 65536, ContentOffset = 65560, ContentLen = 8, NextOffset = 69632, IsLast = False\<rparr>"
  "EepromFindFileIn demo_2712 EEPROM_IMAGE_SIZE_2712 0 EEPROM_PARTITION_A_START EEPROM_PARTITION_A_END
     (ascii ''bootconf.sig'') = None"
proof -
  let ?t = "\<lparr>Magic = EEPROM_FILE_MAGIC, Offset = 65536, Length = 24\<rparr> :: eeprom_section"
  have m: "EEPROM_SECTION_MAGIC \<noteq> EEPROM_FILE_MAGIC" "EEPROM_PAD_MAGIC \<noteq> EEPROM_FILE_MAGIC"
    "EEPROM_SECTION_MAGIC \<noteq> EEPROM_PAD_MAGIC"
    by (simp_all add: eeprom_consts)
  have w: "WalkFrom demo_2712 EEPROM_IMAGE_SIZE_2712 64 0 0 = Some ([\<lparr>Magic = EEPROM_SECTION_MAGIC, Offset = 0, Length = 65528\<rparr>] @
      ?t # [\<lparr>Magic = EEPROM_PAD_MAGIC, Offset = 65568, Length = 4056\<rparr>,
      \<lparr>Magic = EEPROM_SECTION_MAGIC, Offset = 69632, Length = 8\<rparr>])"
    using demo_2712_walk by (simp add: demo_2712_sections_def)
  have "file_here demo_2712 EEPROM_PARTITION_A_START EEPROM_PARTITION_A_END (ascii ''bootconf.txt'') ?t"
    using demo_2712_name by (simp add: file_here_def eeprom_consts)
  then show "EepromFindFileIn demo_2712 EEPROM_IMAGE_SIZE_2712 0 EEPROM_PARTITION_A_START EEPROM_PARTITION_A_END
     (ascii ''bootconf.txt'') =
   Some \<lparr>HdrOffset = 65536, ContentOffset = 65560, ContentLen = 8, NextOffset = 69632, IsLast = False\<rparr>"
    unfolding find_iff using w m
    by (intro exI conjI) (assumption | simp add: file_here_def loc_of_def)+
  show "EepromFindFileIn demo_2712 EEPROM_IMAGE_SIZE_2712 0 EEPROM_PARTITION_A_START EEPROM_PARTITION_A_END
     (ascii ''bootconf.sig'') = None"
    by (rule find_None [OF w]) (use m demo_2712_name names_differ(1) [of "ascii ''bootconf.txt''" "ascii ''bootconf.sig''"]
      in \<open>auto simp: file_here_def config_file_def ascii_def\<close>)
qed

lemma demo_2712_sealed: "sealed demo_2712 EEPROM_IMAGE_SIZE_2712 0 60 EEPROM_PARTITION_A_END"
  using demo_2712_walk
  by (auto simp: sealed_def WalkSections_def EEPROM_MAX_SECTIONS_def demo_2712_sections_def last_ok_def eeprom_consts)

lemma demo_2712_patch:
  "\<exists>img'. PatchImage True Stack demo_2712 EEPROM_IMAGE_SIZE_2712 demo_values 7 = (EFI_SUCCESS, '''', img')"
proof -
  let ?A = "EEPROM_PARTITION_A_START" and ?E = "EEPROM_PARTITION_A_END" and ?B = "EEPROM_PARTITION_B_START"
  let ?S = EEPROM_IMAGE_SIZE_2712
  let ?txt = "ascii ''bootconf.txt''"
  obtain cfg where cfg: "BlBuildNewConfigText (replicate 8 10) demo_values NEW_CONFIG_CAP = Inr cfg" "length cfg \<le> 1000"
    using demo_2712_build by (auto simp: NEW_CONFIG_CAP_def split: sum.splits)
  have "fst (EepromReplaceFileIn demo_2712 ?S 0 ?A ?E ?txt cfg) = EFI_SUCCESS"
    using cfg(2) unfolding EepromReplaceFileIn_def demo_2712_find option.case Let_def
    by (simp add: usub64_def eeprom_consts split: prod.split)
  then obtain i1 where r: "EepromReplaceFileIn demo_2712 ?S 0 ?A ?E ?txt cfg = (EFI_SUCCESS, i1)"
    by (metis prod.collapse)
  have m: "EEPROM_SECTION_MAGIC \<noteq> EEPROM_FILE_MAGIC" "EEPROM_PAD_MAGIC \<noteq> EEPROM_FILE_MAGIC"
    "EEPROM_SECTION_MAGIC \<noteq> EEPROM_PAD_MAGIC"
    by (simp_all add: eeprom_consts)
  have sec: "Offset x \<le> 69632 \<and> (Magic x = EEPROM_FILE_MAGIC \<longrightarrow> Offset x = 65536)" if "x \<in> set demo_2712_sections" for x
    using that m by (auto simp: demo_2712_sections_def)
  have last: "length demo_2712_sections < 64" "demo_2712_sections \<noteq> []" "Magic (last demo_2712_sections) \<noteq> EEPROM_PAD_MAGIC"
    "\<not> file_here demo_2712 ?A ?E ?txt (last demo_2712_sections)"
    using m by (simp_all add: demo_2712_sections_def file_here_def)
  from replace_shape [OF geometry_2712(1) r demo_2712_walk last] obtain pre s pads pad t rest where
    ss: "demo_2712_sections = pre @ s # pads @ t # rest" and h: "file_here demo_2712 ?A ?E ?txt s"
    and wk: "WalkFrom i1 ?S 64 0 0 = Some (pre @ s\<lparr>Length := of_nat (length cfg + 16)\<rparr> # pad @ t # rest)"
    and pad: "\<forall>x \<in> set pad. Magic x = EEPROM_PAD_MAGIC"
    and fr: "\<And>i. i < Offset s + 4 \<or> Offset s + 8 \<le> i \<and> i < Offset s + 24 \<or> Offset t \<le> i \<Longrightarrow> i1 i = demo_2712 i"
    by metis
  have "Magic s = EEPROM_FILE_MAGIC" using h by (simp add: file_here_def)
  then have "Offset s = 65536" "Offset t \<le> 69632" using sec [of s] sec [of t] by (simp_all add: ss)
  have "\<not> file_here i1 0 EEPROM_READ_ONLY_SIZE N x" if x: "x \<in> set (pre @ s\<lparr>Length := of_nat (length cfg + 16)\<rparr> # pad @ t # rest)" for x N
  proof -
    consider "x \<in> set demo_2712_sections" | "x = s\<lparr>Length := of_nat (length cfg + 16)\<rparr>" | "x \<in> set pad"
      using x unfolding ss by auto
    then have "Magic x = EEPROM_FILE_MAGIC \<longrightarrow> Offset x = 65536"
      by cases (use sec [of x] pad m(2) \<open>Offset s = 65536\<close> in auto)
    then show ?thesis by (cases "Magic x = EEPROM_FILE_MAGIC") (simp_all add: file_here_def EEPROM_READ_ONLY_SIZE_def)
  qed
  then have none: "EepromFindFileIn i1 ?S 0 0 EEPROM_READ_ONLY_SIZE (ascii ''updatetime'') = None"
    by (intro find_None [OF wk]) blast
  have "Be32 i1 ?B = Be32 demo_2712 ?B"
    by (rule Be32_cong, rule fr) (use \<open>Offset t \<le> 69632\<close> in \<open>simp add: EEPROM_PARTITION_B_START_def eeprom_consts\<close>)
  also have "\<dots> = 0xffffffff"
    by (simp add: demo_2712_def Be32_demo(3) Be32_erased ascii_def EEPROM_PARTITION_B_START_def eeprom_consts)
  finally have "WalkFrom i1 ?S 64 0 ?B = Some []" by (intro Walk_NilI) simp
  then have b: "PatchPartitionB Stack i1 ?S cfg 7 = i1"
    using find_None [of i1 ?S ?B "[]"] by (simp add: PatchPartitionB_def)
  show ?thesis
    using cfg(1) r b none demo_2712_heads(1)
    by (simp add: PatchImage_def EepromImageValid_def config_signed_def demo_2712_find demo_2712_content
        EFI_ERROR_def EepromSetTimestamp_def)
qed


end
