(* ===== verification/Rpi5_Programs.thy ===== *)
theory Rpi5_Programs
  imports Rpi5_Prelude
begin

section \<open>Programs that leave part of the state alone, and what they establish\<close>

text \<open>
  Two judgements on state-passing programs, shared by the components that call firmware services.
  \<^verbatim>\<open>preserves f m\<close>: the view \<open>f\<close> of the state is the same after \<open>m\<close>. \<^verbatim>\<open>runs m s Q\<close>: the result and the
  final state of \<open>m\<close> from \<open>s\<close> satisfy \<open>Q\<close>; a bind is peeled off the front by \<open>runs_bind\<close>.
\<close>

named_theorems preserves_intro \<open>rules for programs that leave a view of the state alone\<close>

definition preserves :: "('s \<Rightarrow> 'v) \<Rightarrow> ('s, 'a) state \<Rightarrow> bool" where
  "preserves f m = (\<forall>s. f (snd (run_state m s)) = f s)"

lemma preservesD: "preserves f m \<Longrightarrow> run_state m s = (x, s') \<Longrightarrow> f s' = f s"
  by (metis preserves_def snd_conv)

lemma preserves_return [preserves_intro]: "preserves f (State_Monad.return x)"
  by (simp add: preserves_def)

lemma preserves_bind [preserves_intro]:
  "preserves f m \<Longrightarrow> (\<And>x. preserves f (g x)) \<Longrightarrow> preserves f (State_Monad.bind m g)"
  by (simp add: preserves_def case_prod_unfold)

lemma preserves_if [preserves_intro]:
  "(b \<Longrightarrow> preserves f m) \<Longrightarrow> (\<not> b \<Longrightarrow> preserves f n) \<Longrightarrow> preserves f (if b then m else n)"
  by simp

lemma preserves_case [preserves_intro]:
  "(\<And>x y. preserves f (g x y)) \<Longrightarrow> preserves f (case p of (x, y) \<Rightarrow> g x y)"
  "preserves f n \<Longrightarrow> (\<And>x. preserves f (h x)) \<Longrightarrow> preserves f (case q of None \<Rightarrow> n | Some x \<Rightarrow> h x)"
  "(\<And>x. preserves f (k x)) \<Longrightarrow> (\<And>x. preserves f (l x)) \<Longrightarrow> preserves f (case t of Inl x \<Rightarrow> k x | Inr x \<Rightarrow> l x)"
  by (simp_all split: prod.split option.split sum.split)

definition runs :: "('s, 'a) state \<Rightarrow> 's \<Rightarrow> ('a \<Rightarrow> 's \<Rightarrow> bool) \<Rightarrow> bool" where
  "runs m s Q = (case run_state m s of (x, s') \<Rightarrow> Q x s')"

lemma runsI: "(\<And>x s'. run_state m s = (x, s') \<Longrightarrow> Q x s') \<Longrightarrow> runs m s Q"
  by (simp add: runs_def split: prod.split)

lemma runsD: "runs m s Q \<Longrightarrow> run_state m s = (x, s') \<Longrightarrow> Q x s'"
  by (simp add: runs_def)

lemma runs_bind: "runs m s (\<lambda>x s'. runs (f x) s' Q) \<Longrightarrow> runs (State_Monad.bind m f) s Q"
  by (simp add: runs_def split: prod.splits)

lemma runs_return: "Q x s \<Longrightarrow> runs (State_Monad.return x) s Q"
  by (simp add: runs_def)

lemma runs_if: "(b \<Longrightarrow> runs m s Q) \<Longrightarrow> (\<not> b \<Longrightarrow> runs n s Q) \<Longrightarrow> runs (if b then m else n) s Q"
  by simp

lemma runs_pair: "runs (g x y) s Q \<Longrightarrow> runs (case (x, y) of (a, b) \<Rightarrow> g a b) s Q"
  by simp

lemma runs_prod:
  "(\<And>a b. p = (a, b) \<Longrightarrow> runs (g a b) s Q) \<Longrightarrow> runs (case p of (a, b) \<Rightarrow> g a b) s Q"
  by (cases p) simp

lemma runs_let: "runs (f x) s Q \<Longrightarrow> runs (let y = x in f y) s Q"
  by simp

lemma runs_option:
  "(q = None \<Longrightarrow> runs n s Q) \<Longrightarrow> (\<And>x. q = Some x \<Longrightarrow> runs (g x) s Q) \<Longrightarrow>
   runs (case q of None \<Rightarrow> n | Some x \<Rightarrow> g x) s Q"
  by (cases q) auto

lemma runs_sum:
  "(\<And>x. t = Inl x \<Longrightarrow> runs (g x) s Q) \<Longrightarrow> (\<And>x. t = Inr x \<Longrightarrow> runs (h x) s Q) \<Longrightarrow>
   runs (case t of Inl x \<Rightarrow> g x | Inr x \<Rightarrow> h x) s Q"
  by (cases t) auto

lemmas runs_rules = runs_bind runs_return runs_if runs_pair runs_let runs_option runs_sum

lemma runs_mono: "runs m s P \<Longrightarrow> (\<And>x s'. P x s' \<Longrightarrow> Q x s') \<Longrightarrow> runs m s Q"
  by (simp add: runs_def split: prod.splits)

lemma runs_preserves: "preserves f m \<Longrightarrow> (\<And>x s'. f s' = f s \<Longrightarrow> Q x s') \<Longrightarrow> runs m s Q"
  by (rule runsI) (blast dest: preservesD)

end
