(* ===== verification/Boot_Services.thy ===== *)
theory Boot_Services
  imports Rpi5_Programs Blcfg_Values Eeprom_Patch Spi_Flash
begin

section \<open>The firmware services the bootloader configuration driver calls\<close>

text \<open>
  Files, variables, time, the form browser and the popups are services of the UEFI core, not
  code of this repository: \<^verbatim>\<open>boot_svc\<close> is the record of the functions the driver calls, over any
  state \<open>'s\<close> and any type \<open>'h\<close> of file handles. \<^verbatim>\<open>svc_ok\<close> states their documented behaviour as the
  driver relies on it, through a view \<^verbatim>\<open>boot_view\<close> of the state: the files of every volume and the
  variables. Creating, writing and deleting files and setting variables may fail at any time.

  The driver's own types follow: the state it caches at entry (\<^verbatim>\<open>bl_globals\<close>) and the packed layout
  of the \<^verbatim>\<open>RPI_BLCFG_DATA\<close> variable.
\<close>

subsection \<open>The calls\<close>

datatype file_mode = FILE_READ | FILE_READ_WRITE | FILE_CREATE

record ('s, 'h) boot_svc =
  LocateHandleBuffer :: "('s, efi_status \<times> nat list) state"
  HandleProtocol :: "nat \<Rightarrow> ('s, efi_status) state"
  OpenVolume :: "nat \<Rightarrow> ('s, efi_status \<times> 'h) state"
  FileOpen :: "'h \<Rightarrow> string \<Rightarrow> file_mode \<Rightarrow> ('s, efi_status \<times> 'h) state"
  FileDelete :: "'h \<Rightarrow> ('s, efi_status) state"
  FileWrite :: "'h \<Rightarrow> u8 list \<Rightarrow> ('s, efi_status \<times> nat) state"
  FileFlush :: "'h \<Rightarrow> ('s, efi_status) state"
  FileClose :: "'h \<Rightarrow> ('s, efi_status) state"
  GetVariable :: "string \<Rightarrow> string \<Rightarrow> nat \<Rightarrow> ('s, efi_status \<times> u8 list) state"
  SetVariable :: "string \<Rightarrow> string \<Rightarrow> u32 \<Rightarrow> u8 list \<Rightarrow> ('s, efi_status) state"
  GetTime :: "('s, efi_status \<times> efi_time) state"
  HiiGetBrowserData :: "string \<Rightarrow> string \<Rightarrow> nat \<Rightarrow> ('s, u8 list option) state"
  CreatePopUp :: "bool \<Rightarrow> u8 list list \<Rightarrow> ('s, unit) state"
  BsStall :: "nat \<Rightarrow> ('s, unit) state"
  ResetSystem :: "('s, unit) state"

definition EFI_VARIABLE_NON_VOLATILE :: u32 where "EFI_VARIABLE_NON_VOLATILE = 1"
definition EFI_VARIABLE_BOOTSERVICE_ACCESS :: u32 where "EFI_VARIABLE_BOOTSERVICE_ACCESS = 2"
definition EFI_VARIABLE_RUNTIME_ACCESS :: u32 where "EFI_VARIABLE_RUNTIME_ACCESS = 4"

subsection \<open>The driver's cached state and its variables\<close>

definition RPI_BLCFG_FORMSET_GUID :: string where
  "RPI_BLCFG_FORMSET_GUID = ''8f3a5c12-6b4d-4e2a-9d07-4baa1c8633f5''"

definition RPI_BLCFG_VARIABLE_NAME :: string where "RPI_BLCFG_VARIABLE_NAME = ''BlCfg''"
definition RPI_BLCFG_STAGED_VARIABLE_NAME :: string where "RPI_BLCFG_STAGED_VARIABLE_NAME = ''BlCfgStaged''"

record bl_globals =
  mFdt :: "fdt_lib option"
  mBlconfigRaw :: "u8 list option"
  mBlconfigTextLen :: nat
  mCurrentValues :: blcfg_values
  mDtbUpdateTimestamp :: u32
  mDtbHasTimestamp :: bool
  mPublished :: bool

definition blconfig_text :: "bl_globals \<Rightarrow> u8 list" where
  "blconfig_text G = (case mBlconfigRaw G of None \<Rightarrow> [] | Some Raw \<Rightarrow> take (mBlconfigTextLen G) Raw)"

definition le16 :: "u16 \<Rightarrow> u8 list" where
  "le16 w = [ucast w, ucast (drop_bit 8 w)]"

definition Le16 :: "u8 list \<Rightarrow> nat \<Rightarrow> u16" where
  "Le16 bs i = ucast (bs ! i) OR push_bit 8 (ucast (bs ! (i + 1)))"

definition BLCFG_DATA_SIZE :: nat where "BLCFG_DATA_SIZE = 29"

definition data_bytes :: "blcfg_data \<Rightarrow> u8 list" where
  "data_bytes d = concat (map le16 (DBootOrder d)) @ [DBootUart d, DPowerOffOnHalt d, DWakeOnGpio d] @
     le16 (DPsuMaxCurrent d)"

definition data_of :: "u8 list \<Rightarrow> blcfg_data" where
  "data_of bs = \<lparr>DBootOrder = map (\<lambda>i. Le16 bs (2 * i)) [0..<12], DBootUart = bs ! 24,
     DPowerOffOnHalt = bs ! 25, DWakeOnGpio = bs ! 26, DPsuMaxCurrent = Le16 bs 27\<rparr>"

lemma Le16_le16: "Le16 (le16 w) 0 = w"
  by (rule bit_word_eqI) (auto simp: Le16_def le16_def bit_simps dest: bit_imp_le_length)

lemma Le16_app: "Le16 (xs @ le16 w @ ys) (length xs) = w"
  using Le16_le16 [of w] by (simp add: Le16_def nth_append le16_def)

lemma length_le16 [simp]: "length (concat (map le16 ws)) = 2 * length ws"
  by (induction ws) (simp_all add: le16_def)

lemma Le16_words:
  assumes "i < length ws"
  shows "Le16 (concat (map le16 ws) @ ys) (2 * i) = ws ! i"
proof -
  have "concat (map le16 ws) = concat (map le16 (take i ws)) @ le16 (ws ! i) @ concat (map le16 (drop (Suc i) ws))"
    by (subst id_take_nth_drop [OF assms]) simp
  moreover have "length (concat (map le16 (take i ws))) = 2 * i" using assms by simp
  ultimately show ?thesis by (metis Le16_app append.assoc)
qed

lemma data_of_bytes:
  assumes "length (DBootOrder d) = 12"
  shows "data_of (data_bytes d) = d" and "length (data_bytes d) = BLCFG_DATA_SIZE"
proof -
  show "length (data_bytes d) = BLCFG_DATA_SIZE"
    using assms by (simp add: data_bytes_def BLCFG_DATA_SIZE_def le16_def)
  let ?rest = "[DBootUart d, DPowerOffOnHalt d, DWakeOnGpio d] @ le16 (DPsuMaxCurrent d)"
  have "Le16 (data_bytes d) (2 * i) = DBootOrder d ! i" if "i < 12" for i
    unfolding data_bytes_def using that assms by (intro Le16_words) simp
  then have "map (\<lambda>i. Le16 (data_bytes d) (2 * i)) [0..<12] = DBootOrder d"
    by (intro nth_equalityI) (simp_all add: assms)
  moreover have "Le16 (data_bytes d) 27 = DPsuMaxCurrent d"
    using Le16_app [of "concat (map le16 (DBootOrder d)) @ [DBootUart d, DPowerOffOnHalt d, DWakeOnGpio d]"
        "DPsuMaxCurrent d" "[]"] assms by (simp add: data_bytes_def)
  ultimately show "data_of (data_bytes d) = d"
    by (simp add: data_of_def data_bytes_def nth_append assms)
qed

subsection \<open>What the services promise\<close>

record ('s, 'h) boot_view =
  Files :: "'s \<Rightarrow> nat \<Rightarrow> string \<Rightarrow> u8 list option"
  Vars :: "'s \<Rightarrow> string \<Rightarrow> string \<Rightarrow> (u32 \<times> u8 list) option"
  Volumes :: "'s \<Rightarrow> nat list"
  Mounts :: "nat \<Rightarrow> bool"
  PathOf :: "'h \<Rightarrow> nat \<times> string"
  PosOf :: "'s \<Rightarrow> 'h \<Rightarrow> nat"

definition disk :: "('s, 'h) boot_view \<Rightarrow> 's \<Rightarrow>
  (nat \<Rightarrow> string \<Rightarrow> u8 list option) \<times> (string \<Rightarrow> string \<Rightarrow> (u32 \<times> u8 list) option) \<times> nat list" where
  "disk V s = (Files V s, Vars V s, Volumes V s)"

definition put_at :: "('k \<Rightarrow> 'n \<Rightarrow> 'a) \<Rightarrow> 'k \<times> 'n \<Rightarrow> 'a \<Rightarrow> 'k \<Rightarrow> 'n \<Rightarrow> 'a" where
  "put_at f p x = (\<lambda>v n. if (v, n) = p then x else f v n)"

text \<open>The calls that only look, or only talk to the user.\<close>

definition quiet_calls :: "('s, 'h) boot_svc \<Rightarrow> ('s, 'h) boot_view \<Rightarrow> bool" where
  "quiet_calls S V =
     (preserves (disk V) (LocateHandleBuffer S) \<and> (\<forall>v. preserves (disk V) (HandleProtocol S v)) \<and>
      (\<forall>v. preserves (disk V) (OpenVolume S v)) \<and> (\<forall>h. preserves (disk V) (FileFlush S h)) \<and>
      (\<forall>h. preserves (disk V) (FileClose S h)) \<and> (\<forall>n g k. preserves (disk V) (GetVariable S n g k)) \<and>
      preserves (disk V) (GetTime S) \<and> (\<forall>g n k. preserves (disk V) (HiiGetBrowserData S g n k)) \<and>
      (\<forall>w ls. preserves (disk V) (CreatePopUp S w ls)) \<and> (\<forall>k. preserves (disk V) (BsStall S k)) \<and>
      preserves (disk V) (ResetSystem S))"

text \<open>Volumes: every handle found has the protocol, and a volume that mounts opens on its root.\<close>

definition volume_calls :: "('s, 'h) boot_svc \<Rightarrow> ('s, 'h) boot_view \<Rightarrow> bool" where
  "volume_calls S V =
     ((\<forall>s st vs s'. run_state (LocateHandleBuffer S) s = ((st, vs), s') \<longrightarrow> \<not> EFI_ERROR st \<longrightarrow> vs = Volumes V s) \<and>
      (\<forall>v s st s'. run_state (HandleProtocol S v) s = (st, s') \<longrightarrow> \<not> EFI_ERROR st) \<and>
      (\<forall>v s st h s'. run_state (OpenVolume S v) s = ((st, h), s') \<longrightarrow>
         (\<not> EFI_ERROR st \<longleftrightarrow> Mounts V v) \<and> (\<not> EFI_ERROR st \<longrightarrow> fst (PathOf V h) = v)))"

text \<open>
  Files. Opening for reading succeeds exactly on the files there are; a handle names the file it
  was opened on and starts at its beginning. Only the file behind the handle changes.
\<close>

definition file_calls :: "('s, 'h) boot_svc \<Rightarrow> ('s, 'h) boot_view \<Rightarrow> bool" where
  "file_calls S V =
     ((\<forall>d n m s st h s'. run_state (FileOpen S d n m) s = ((st, h), s') \<longrightarrow>
         Vars V s' = Vars V s \<and> Volumes V s' = Volumes V s \<and>
         (\<not> EFI_ERROR st \<longrightarrow> PathOf V h = (fst (PathOf V d), n) \<and> PosOf V s' h = 0) \<and>
         (m = FILE_READ \<longrightarrow> (\<not> EFI_ERROR st \<longleftrightarrow> Files V s (fst (PathOf V d)) n \<noteq> None)) \<and>
         (m = FILE_READ_WRITE \<longrightarrow> \<not> EFI_ERROR st \<longrightarrow> Files V s (fst (PathOf V d)) n \<noteq> None) \<and>
         Files V s' = (if m = FILE_CREATE \<and> \<not> EFI_ERROR st \<and> Files V s (fst (PathOf V d)) n = None
                       then put_at (Files V s) (fst (PathOf V d), n) (Some []) else Files V s)) \<and>
      (\<forall>h s st s'. run_state (FileDelete S h) s = (st, s') \<longrightarrow>
         Vars V s' = Vars V s \<and> Volumes V s' = Volumes V s \<and>
         Files V s' = (if EFI_ERROR st then Files V s else put_at (Files V s) (PathOf V h) None)) \<and>
      (\<forall>h bs s st k s'. run_state (FileWrite S h bs) s = ((st, k), s') \<longrightarrow>
         Vars V s' = Vars V s \<and> Volumes V s' = Volumes V s \<and>
         (\<exists>x. Files V s' = put_at (Files V s) (PathOf V h) (Some x) \<and>
           (\<not> EFI_ERROR st \<longrightarrow> k = length bs \<longrightarrow> PosOf V s h = 0 \<longrightarrow>
              (\<forall>old. Files V s (fst (PathOf V h)) (snd (PathOf V h)) = Some old \<longrightarrow>
                 x = bs @ drop (length bs) old)))))"

text \<open>Variables: what is read is what is stored; no attributes or no data delete a variable.\<close>

definition var_calls :: "('s, 'h) boot_svc \<Rightarrow> ('s, 'h) boot_view \<Rightarrow> bool" where
  "var_calls S V =
     ((\<forall>n g k s st bs s'. run_state (GetVariable S n g k) s = ((st, bs), s') \<longrightarrow>
         (case Vars V s n g of
            None \<Rightarrow> EFI_ERROR st
          | Some (a, d) \<Rightarrow> if length d \<le> k then st = EFI_SUCCESS \<and> bs = d else EFI_ERROR st)) \<and>
      (\<forall>n g a bs s st s'. run_state (SetVariable S n g a bs) s = (st, s') \<longrightarrow>
         Files V s' = Files V s \<and> Volumes V s' = Volumes V s \<and>
         Vars V s' = (if EFI_ERROR st then Vars V s
                      else put_at (Vars V s) (n, g) (if a = 0 \<or> bs = [] then None else Some (a, bs)))))"

definition svc_ok :: "('s, 'h) boot_svc \<Rightarrow> ('s, 'h) boot_view \<Rightarrow> bool" where
  "svc_ok S V = (quiet_calls S V \<and> volume_calls S V \<and> file_calls S V \<and> var_calls S V)"

text \<open>Deleting a file that is there works: the medium is not write protected.\<close>

definition deletes_work :: "('s, 'h) boot_svc \<Rightarrow> ('s, 'h) boot_view \<Rightarrow> bool" where
  "deletes_work S V =
     ((\<forall>d n s st h s'. run_state (FileOpen S d n FILE_READ_WRITE) s = ((st, h), s') \<longrightarrow>
         Files V s (fst (PathOf V d)) n \<noteq> None \<longrightarrow> \<not> EFI_ERROR st) \<and>
      (\<forall>h s st s'. run_state (FileDelete S h) s = (st, s') \<longrightarrow> \<not> EFI_ERROR st))"

definition io_quiet :: "('s \<Rightarrow> 'v) \<Rightarrow> 's iodev \<Rightarrow> bool" where
  "io_quiet f D =
     ((\<forall>a. preserves f (MmioRead32 D a)) \<and> (\<forall>a v. preserves f (MmioWrite32 D a v)) \<and>
      (\<forall>k. preserves f (Stall D k)))"

subsection \<open>The promises as rules\<close>

lemma disk_iff:
  "disk V s' = disk V s \<longleftrightarrow> Files V s' = Files V s \<and> Vars V s' = Vars V s \<and> Volumes V s' = Volumes V s"
  by (auto simp: disk_def)

lemma put_at_same [simp]: "put_at f (v, n) (f v n) = f"
  by (rule ext)+ (simp add: put_at_def)

lemma put_at_put_at [simp]: "put_at (put_at f p x) p y = put_at f p y"
  by (rule ext)+ (simp add: put_at_def)

lemma put_at_self [simp]: "put_at f (v, n) x v n = x"
  by (simp add: put_at_def)

lemma put_at_swap3: "p \<noteq> q \<Longrightarrow> put_at (put_at (put_at f p x) q y) p z = put_at (put_at f p z) q y"
  by (rule ext)+ (auto simp: put_at_def)

lemma put_at_unchanged: "n \<noteq> m \<Longrightarrow> put_at (put_at f (v, n) x) (v, m) (f v m) = put_at f (v, n) x"
  by (rule ext)+ (auto simp: put_at_def)

lemma put_at_apply: "put_at f p x v n = (if (v, n) = p then x else f v n)"
  by (simp add: put_at_def)

lemma svc_quiet [preserves_intro]:
  assumes "svc_ok S V"
  shows "preserves (disk V) (LocateHandleBuffer S)" "preserves (disk V) (HandleProtocol S v)"
    "preserves (disk V) (OpenVolume S v)" "preserves (disk V) (FileFlush S h)"
    "preserves (disk V) (FileClose S h)" "preserves (disk V) (GetVariable S n g k)"
    "preserves (disk V) (GetTime S)" "preserves (disk V) (HiiGetBrowserData S g n k)"
    "preserves (disk V) (CreatePopUp S w ls)" "preserves (disk V) (BsStall S j)"
    "preserves (disk V) (ResetSystem S)"
  using assms by (simp_all add: svc_ok_def quiet_calls_def)

lemma runs_LocateHandleBuffer:
  assumes "svc_ok S V"
    and "\<And>st vs s'. disk V s' = disk V s \<Longrightarrow> \<not> EFI_ERROR st \<Longrightarrow> Q (st, Volumes V s) s'"
    and "\<And>st vs s'. disk V s' = disk V s \<Longrightarrow> EFI_ERROR st \<Longrightarrow> Q (st, vs) s'"
  shows "runs (LocateHandleBuffer S) s Q"
proof (rule runsI)
  fix r s' assume r: "run_state (LocateHandleBuffer S) s = (r, s')"
  have q: "disk V s' = disk V s" using preservesD [OF svc_quiet(1) [OF assms(1)] r] .
  obtain st vs where "r = (st, vs)" by (cases r)
  moreover have "\<not> EFI_ERROR st \<longrightarrow> vs = Volumes V s"
    using assms(1) r \<open>r = (st, vs)\<close> by (auto simp: svc_ok_def volume_calls_def)
  ultimately show "Q r s'" using assms(2,3) [OF q] by (cases "EFI_ERROR st") auto
qed

lemma runs_HandleProtocol:
  assumes "svc_ok S V" and "\<And>st s'. disk V s' = disk V s \<Longrightarrow> \<not> EFI_ERROR st \<Longrightarrow> Q st s'"
  shows "runs (HandleProtocol S v) s Q"
proof (rule runsI)
  fix st s' assume r: "run_state (HandleProtocol S v) s = (st, s')"
  have "\<not> EFI_ERROR st" using assms(1) r unfolding svc_ok_def volume_calls_def by blast
  then show "Q st s'" using assms(2) preservesD [OF svc_quiet(2) [OF assms(1)] r] by blast
qed

lemma runs_OpenVolume:
  assumes "svc_ok S V"
    and "\<And>st h s'. disk V s' = disk V s \<Longrightarrow> \<not> EFI_ERROR st \<longleftrightarrow> Mounts V v \<Longrightarrow>
           (Mounts V v \<Longrightarrow> fst (PathOf V h) = v) \<Longrightarrow> Q (st, h) s'"
  shows "runs (OpenVolume S v) s Q"
proof (rule runsI)
  fix r s' assume r: "run_state (OpenVolume S v) s = (r, s')"
  obtain st h where [simp]: "r = (st, h)" by (cases r)
  have "(\<not> EFI_ERROR st \<longleftrightarrow> Mounts V v) \<and> (\<not> EFI_ERROR st \<longrightarrow> fst (PathOf V h) = v)"
    using assms(1) r unfolding svc_ok_def volume_calls_def \<open>r = (st, h)\<close> by blast
  then show "Q r s'" using assms(2) preservesD [OF svc_quiet(3) [OF assms(1)] r] by simp
qed

lemma runs_FileOpen:
  assumes "svc_ok S V"
    and "\<And>st h s'. Vars V s' = Vars V s \<Longrightarrow> Volumes V s' = Volumes V s \<Longrightarrow>
      (\<not> EFI_ERROR st \<Longrightarrow> PathOf V h = (fst (PathOf V d), n) \<and> PosOf V s' h = 0) \<Longrightarrow>
      (m = FILE_READ \<Longrightarrow> \<not> EFI_ERROR st \<longleftrightarrow> Files V s (fst (PathOf V d)) n \<noteq> None) \<Longrightarrow>
      (m = FILE_READ_WRITE \<Longrightarrow> \<not> EFI_ERROR st \<Longrightarrow> Files V s (fst (PathOf V d)) n \<noteq> None) \<Longrightarrow>
      (m = FILE_READ_WRITE \<Longrightarrow> deletes_work S V \<Longrightarrow> Files V s (fst (PathOf V d)) n \<noteq> None \<Longrightarrow> \<not> EFI_ERROR st) \<Longrightarrow>
      Files V s' = (if m = FILE_CREATE \<and> \<not> EFI_ERROR st \<and> Files V s (fst (PathOf V d)) n = None
                    then put_at (Files V s) (fst (PathOf V d), n) (Some []) else Files V s) \<Longrightarrow> Q (st, h) s'"
  shows "runs (FileOpen S d n m) s Q"
proof (rule runsI)
  fix r s' assume r: "run_state (FileOpen S d n m) s = (r, s')"
  obtain st h where [simp]: "r = (st, h)" by (cases r)
  have f: "run_state (FileOpen S d n m) s = ((st, h), s')" using r by simp
  note law = assms(1) [unfolded svc_ok_def file_calls_def, THEN conjunct2, THEN conjunct2, THEN conjunct1,
      THEN conjunct1, rule_format, OF f]
  have "m = FILE_READ_WRITE \<Longrightarrow> deletes_work S V \<Longrightarrow> Files V s (fst (PathOf V d)) n \<noteq> None \<Longrightarrow> \<not> EFI_ERROR st"
    using f unfolding deletes_work_def by blast
  then show "Q r s'" using assms(2) law by simp
qed

lemma runs_FileDelete:
  assumes "svc_ok S V"
    and "\<And>st s'. Vars V s' = Vars V s \<Longrightarrow> Volumes V s' = Volumes V s \<Longrightarrow>
      (deletes_work S V \<Longrightarrow> \<not> EFI_ERROR st) \<Longrightarrow>
      Files V s' = (if EFI_ERROR st then Files V s else put_at (Files V s) (PathOf V h) None) \<Longrightarrow> Q st s'"
  shows "runs (FileDelete S h) s Q"
proof (rule runsI)
  fix st s' assume r: "run_state (FileDelete S h) s = (st, s')"
  have "deletes_work S V \<Longrightarrow> \<not> EFI_ERROR st" using r unfolding deletes_work_def by blast
  moreover have "Vars V s' = Vars V s \<and> Volumes V s' = Volumes V s \<and>
      Files V s' = (if EFI_ERROR st then Files V s else put_at (Files V s) (PathOf V h) None)"
    using assms(1) r unfolding svc_ok_def file_calls_def by blast
  ultimately show "Q st s'" using assms(2) by blast
qed

lemma runs_FileWrite:
  assumes "svc_ok S V"
    and "\<And>st k x s'. Vars V s' = Vars V s \<Longrightarrow> Volumes V s' = Volumes V s \<Longrightarrow>
      Files V s' = put_at (Files V s) (PathOf V h) (Some x) \<Longrightarrow>
      (\<And>old. \<not> EFI_ERROR st \<Longrightarrow> k = length bs \<Longrightarrow> PosOf V s h = 0 \<Longrightarrow>
         Files V s (fst (PathOf V h)) (snd (PathOf V h)) = Some old \<Longrightarrow> x = bs @ drop (length bs) old) \<Longrightarrow> Q (st, k) s'"
  shows "runs (FileWrite S h bs) s Q"
proof (rule runsI)
  fix r s' assume r: "run_state (FileWrite S h bs) s = (r, s')"
  obtain st k where [simp]: "r = (st, k)" by (cases r)
  obtain x where "Vars V s' = Vars V s" "Volumes V s' = Volumes V s"
    "Files V s' = put_at (Files V s) (PathOf V h) (Some x)"
    "\<not> EFI_ERROR st \<longrightarrow> k = length bs \<longrightarrow> PosOf V s h = 0 \<longrightarrow>
       (\<forall>old. Files V s (fst (PathOf V h)) (snd (PathOf V h)) = Some old \<longrightarrow> x = bs @ drop (length bs) old)"
    using assms(1) [unfolded svc_ok_def file_calls_def, THEN conjunct2, THEN conjunct2, THEN conjunct1,
      THEN conjunct2, THEN conjunct2, THEN spec, THEN spec, THEN spec, THEN spec, THEN spec, THEN spec, THEN mp,
      OF r [unfolded \<open>r = (st, k)\<close>]] by (elim conjE exE) (rule that)
  then show "Q r s'" using assms(2) by simp
qed

lemma runs_GetVariable:
  assumes "svc_ok S V"
    and "\<And>a d s'. disk V s' = disk V s \<Longrightarrow> Vars V s n g = Some (a, d) \<Longrightarrow> length d \<le> k \<Longrightarrow> Q (EFI_SUCCESS, d) s'"
    and "\<And>st d s'. disk V s' = disk V s \<Longrightarrow> EFI_ERROR st \<Longrightarrow>
      (case Vars V s n g of None \<Rightarrow> True | Some (a, d) \<Rightarrow> length d > k) \<Longrightarrow> Q (st, d) s'"
  shows "runs (GetVariable S n g k) s Q"
proof (rule runsI)
  fix r s' assume r: "run_state (GetVariable S n g k) s = (r, s')"
  obtain st bs where [simp]: "r = (st, bs)" by (cases r)
  have "case Vars V s n g of None \<Rightarrow> EFI_ERROR st
      | Some (a, d) \<Rightarrow> if length d \<le> k then st = EFI_SUCCESS \<and> bs = d else EFI_ERROR st"
    using assms(1) r unfolding svc_ok_def var_calls_def \<open>r = (st, bs)\<close> by blast
  then show "Q r s'"
    using assms(2,3) [OF preservesD [OF svc_quiet(6) [OF assms(1)] r]]
    by (auto split: option.splits prod.splits if_splits)
qed

lemma runs_SetVariable:
  assumes "svc_ok S V"
    and "\<And>st s'. Files V s' = Files V s \<Longrightarrow> Volumes V s' = Volumes V s \<Longrightarrow>
      Vars V s' = (if EFI_ERROR st then Vars V s
                   else put_at (Vars V s) (n, g) (if a = 0 \<or> bs = [] then None else Some (a, bs))) \<Longrightarrow> Q st s'"
  shows "runs (SetVariable S n g a bs) s Q"
proof (rule runsI)
  fix st s' assume r: "run_state (SetVariable S n g a bs) s = (st, s')"
  have "Files V s' = Files V s \<and> Volumes V s' = Volumes V s \<and>
      Vars V s' = (if EFI_ERROR st then Vars V s
                   else put_at (Vars V s) (n, g) (if a = 0 \<or> bs = [] then None else Some (a, bs)))"
    using assms(1) r unfolding svc_ok_def var_calls_def by blast
  then show "Q st s'" using assms(2) by blast
qed

end
