(* ===== verification/Boot_Ram.thy ===== *)
theory Boot_Ram
  imports Boot_Services
begin

section \<open>Services that keep their promises: volumes and variables in memory\<close>

text \<open>
  A concrete instance of \<^verbatim>\<open>boot_svc\<close> for which \<^verbatim>\<open>svc_ok\<close> is proved: files and variables are maps in
  the second component of the state. The first component belongs to the SPI hardware, whose device
  is lifted to the pair. The witnesses of the staging theorems run on it.
\<close>

record ram_disk =
  rfiles :: "nat \<Rightarrow> string \<Rightarrow> u8 list option"
  rvars :: "string \<Rightarrow> string \<Rightarrow> (u32 \<times> u8 list) option"

type_synonym ram_path = "nat \<times> string"

definition ram_open :: "ram_path \<Rightarrow> string \<Rightarrow> file_mode \<Rightarrow> 'a \<times> ram_disk \<Rightarrow> (efi_status \<times> ram_path) \<times> ('a \<times> ram_disk)" where
  "ram_open d n m s =
     (case rfiles (snd s) (fst d) n of
        Some _ \<Rightarrow> ((EFI_SUCCESS, (fst d, n)), s)
      | None \<Rightarrow> if m = FILE_CREATE
                then ((EFI_SUCCESS, (fst d, n)),
                      (fst s, (snd s)\<lparr>rfiles := put_at (rfiles (snd s)) (fst d, n) (Some [])\<rparr>))
                else ((EFI_NOT_FOUND, d), s))"

definition ram_put :: "ram_path \<Rightarrow> u8 list option \<Rightarrow> 'a \<times> ram_disk \<Rightarrow> 'a \<times> ram_disk" where
  "ram_put p x s = (fst s, (snd s)\<lparr>rfiles := put_at (rfiles (snd s)) p x\<rparr>)"

definition ram_old :: "ram_path \<Rightarrow> 'a \<times> ram_disk \<Rightarrow> u8 list" where
  "ram_old p s = (case rfiles (snd s) (fst p) (snd p) of None \<Rightarrow> [] | Some bs \<Rightarrow> bs)"

definition ram_svc :: "u8 list option \<Rightarrow> ('a \<times> ram_disk, ram_path) boot_svc" where
  "ram_svc form =
     \<lparr>LocateHandleBuffer = State_Monad.return (EFI_SUCCESS, [0, 1]),
      HandleProtocol = (\<lambda>v. State_Monad.return EFI_SUCCESS),
      OpenVolume = (\<lambda>v. State_Monad.return (EFI_SUCCESS, (v, ''''))),
      FileOpen = (\<lambda>d n m. State (ram_open d n m)),
      FileDelete = (\<lambda>h. State (\<lambda>s. (EFI_SUCCESS, ram_put h None s))),
      FileWrite = (\<lambda>h bs. State (\<lambda>s. ((EFI_SUCCESS, length bs),
                     ram_put h (Some (bs @ drop (length bs) (ram_old h s))) s))),
      FileFlush = (\<lambda>h. State_Monad.return EFI_SUCCESS),
      FileClose = (\<lambda>h. State_Monad.return EFI_SUCCESS),
      GetVariable = (\<lambda>n g k. State (\<lambda>s.
        ((case rvars (snd s) n g of
            None \<Rightarrow> (EFI_NOT_FOUND, [])
          | Some (a, d) \<Rightarrow> if length d \<le> k then (EFI_SUCCESS, d) else (EFI_BUFFER_TOO_SMALL, [])), s))),
      SetVariable = (\<lambda>n g a bs. State (\<lambda>s. (EFI_SUCCESS,
        (fst s, (snd s)\<lparr>rvars := put_at (rvars (snd s)) (n, g) (if a = 0 \<or> bs = [] then None else Some (a, bs))\<rparr>)))),
      GetTime = State_Monad.return (EFI_NOT_FOUND, \<lparr>Year = 0, Month = 0, Day = 0, Hour = 0, Minute = 0, Second = 0\<rparr>),
      HiiGetBrowserData = (\<lambda>g n k. State_Monad.return form),
      CreatePopUp = (\<lambda>w ls. State_Monad.return ()),
      BsStall = (\<lambda>k. State_Monad.return ()),
      ResetSystem = State_Monad.return ()\<rparr>"

definition ram_view :: "('a \<times> ram_disk, ram_path) boot_view" where
  "ram_view =
     \<lparr>Files = (\<lambda>s. rfiles (snd s)), Vars = (\<lambda>s. rvars (snd s)), Volumes = (\<lambda>s. [0, 1]), Mounts = (\<lambda>v. True),
      PathOf = (\<lambda>h. h), PosOf = (\<lambda>s h. 0)\<rparr>"

lemma ram_quiet: "quiet_calls (ram_svc form) ram_view"
  by (simp add: quiet_calls_def ram_svc_def ram_view_def preserves_def disk_def)

lemma ram_files: "file_calls (ram_svc form) ram_view"
  by (auto simp: file_calls_def ram_svc_def ram_view_def ram_open_def ram_put_def ram_old_def EFI_ERROR_def
      split: option.splits if_splits)

lemma ram_volumes: "volume_calls (ram_svc form) ram_view"
  by (auto simp: volume_calls_def ram_svc_def ram_view_def EFI_ERROR_def)

lemma ram_variables: "var_calls (ram_svc form) ram_view"
  by (auto simp: var_calls_def ram_svc_def ram_view_def EFI_ERROR_def split: option.splits)

lemma ram_ok: "svc_ok (ram_svc form) ram_view"
  by (simp add: svc_ok_def ram_quiet ram_files ram_volumes ram_variables)

lemma ram_deletes: "deletes_work (ram_svc form) ram_view"
  by (auto simp: deletes_work_def ram_svc_def ram_view_def ram_open_def EFI_ERROR_def split: option.splits)

subsection \<open>A device beside the disk\<close>

definition lift_dev :: "'a iodev \<Rightarrow> ('a \<times> 'b) iodev" where
  "lift_dev D =
     \<lparr>io_rd = (\<lambda>a s. case io_rd D a (fst s) of (v, h) \<Rightarrow> (v, (h, snd s))),
      io_wr = (\<lambda>a v s. (io_wr D a v (fst s), snd s)), io_stall = (\<lambda>k s. (io_stall D k (fst s), snd s))\<rparr>"

lemma lift_dev_quiet:
  assumes "\<And>s s'. snd s' = snd s \<Longrightarrow> f s' = f s"
  shows "io_quiet f (lift_dev D)"
  unfolding io_quiet_def preserves_def
  by (intro conjI allI; rule assms) (simp_all add: io_simps lift_dev_def split: prod.split)

text \<open>A program over the lifted device is the program over the device, beside the disk.\<close>

definition lifts :: "('a, 'x) state \<Rightarrow> ('a \<times> 'b, 'x) state \<Rightarrow> bool" where
  "lifts m m' = (\<forall>h t. run_state m' (h, t) = (case run_state m h of (x, h') \<Rightarrow> (x, (h', t))))"

named_theorems lifts_intro \<open>rules for programs over a lifted device\<close>

lemma liftsD: "lifts m m' \<Longrightarrow> run_state m h = (x, h') \<Longrightarrow> run_state m' (h, t) = (x, (h', t))"
  by (simp add: lifts_def)

lemma lifts_return [lifts_intro]: "lifts (State_Monad.return x) (State_Monad.return x)"
  by (simp add: lifts_def)

lemma lifts_bind [lifts_intro]:
  "lifts m m' \<Longrightarrow> (\<And>x. lifts (g x) (g' x)) \<Longrightarrow> lifts (State_Monad.bind m g) (State_Monad.bind m' g')"
  by (simp add: lifts_def split: prod.split)

lemma lifts_if [lifts_intro]:
  "(b \<Longrightarrow> lifts m m') \<Longrightarrow> (\<not> b \<Longrightarrow> lifts n n') \<Longrightarrow> lifts (if b then m else n) (if b then m' else n')"
  by simp

lemma lifts_prod [lifts_intro]:
  "(\<And>x y. lifts (g x y) (g' x y)) \<Longrightarrow> lifts (case p of (x, y) \<Rightarrow> g x y) (case p of (x, y) \<Rightarrow> g' x y)"
  by (cases p) simp

lemma lifts_let [lifts_intro]: "lifts (f x) (f' x) \<Longrightarrow> lifts (let y = x in f y) (let y = x in f' y)"
  by simp

lemma lifts_mmio [lifts_intro]:
  "lifts (MmioRead32 D a) (MmioRead32 (lift_dev D) a)" "lifts (MmioWrite32 D a v) (MmioWrite32 (lift_dev D) a v)"
  "lifts (Stall D k) (Stall (lift_dev D) k)" "lifts (MmioOr32 D a v) (MmioOr32 (lift_dev D) a v)"
  "lifts (MmioAnd32 D a v) (MmioAnd32 (lift_dev D) a v)"
  by (auto simp: lifts_def io_simps lift_dev_def split: prod.split)

lemma lift_rd: "io_rd D a h = (v, h') \<Longrightarrow> io_rd (lift_dev D) a (h, t) = (v, (h', t))"
  by (simp add: lift_dev_def)

lemma lift_wr: "io_wr (lift_dev D) a v (h, t) = (io_wr D a v h, t)"
  by (simp add: lift_dev_def)

lemma XferLoop_lift:
  "XferLoop (lift_dev D) Spi Tx Tot Sent Received Idle Rx (h, t) =
     (case XferLoop D Spi Tx Tot Sent Received Idle Rx h of (r, h') \<Rightarrow> (r, (h', t)))"
proof (induction "(Tot - Received) * (SPI_STALL_LIMIT + 1) + (SPI_STALL_LIMIT - Idle)"
    arbitrary: Sent Received Idle Rx h rule: less_induct)
  case less
  obtain st h1 where io: "io_rd D (SpiBase Spi + SPI_REG_CS) h = (st, h1)" by fastforce
  let ?send = "st AND SPI_CS_TXD \<noteq> 0 \<and> Sent < Tot"
  define w :: u32 where "w = (if Sent < length Tx then ucast (Tx ! Sent) else 0)"
  define h2 where h2: "h2 = (if ?send then io_wr D (SpiBase Spi + SPI_REG_FIFO) w h1 else h1)"
  obtain v h3 where io2: "io_rd D (SpiBase Spi + SPI_REG_FIFO) h2 = (v, h3)" by fastforce
  have l2: "(if ?send then io_wr (lift_dev D) (SpiBase Spi + SPI_REG_FIFO) w (h1, t) else (h1, t)) = (h2, t)"
    by (simp add: h2 lift_wr)
  show ?case
  proof (cases "Received < Tot")
    case False
    then show ?thesis by (subst (1 2) XferLoop.simps) simp
  next
    case True
    let ?S = "if ?send then Sent + 1 else Sent" and ?R = "if Received \<ge> length Tx then Rx @ [ucast v] else Rx"
    have step: "XferLoop D Spi Tx Tot Sent Received Idle Rx h =
       (if st AND SPI_CS_RXD \<noteq> 0 then XferLoop D Spi Tx Tot ?S (Received + 1) 0 ?R h3
        else if Idle + 1 > SPI_STALL_LIMIT then ((False, Rx), h2)
        else XferLoop D Spi Tx Tot ?S Received (Idle + 1) Rx h2)"
      using True by (subst XferLoop.simps)
        (simp only: io Let_def prod.case if_True w_def [symmetric] h2 [symmetric] io2)
    have stepl: "XferLoop (lift_dev D) Spi Tx Tot Sent Received Idle Rx (h, t) =
       (if st AND SPI_CS_RXD \<noteq> 0 then XferLoop (lift_dev D) Spi Tx Tot ?S (Received + 1) 0 ?R (h3, t)
        else if Idle + 1 > SPI_STALL_LIMIT then ((False, Rx), (h2, t))
        else XferLoop (lift_dev D) Spi Tx Tot ?S Received (Idle + 1) Rx (h2, t))"
      using True by (subst XferLoop.simps)
        (simp only: lift_rd [OF io] Let_def prod.case if_True w_def [symmetric] l2 lift_rd [OF io2])
    have "(Tot - (Received + 1)) * (SPI_STALL_LIMIT + 1) + (SPI_STALL_LIMIT - 0) <
        (Tot - Received) * (SPI_STALL_LIMIT + 1) + (SPI_STALL_LIMIT - Idle)"
      using True by (simp add: Suc_diff_Suc [symmetric] flip: Suc_eq_plus1)
    note IH1 = less [OF this, of ?S ?R h3]
    have "(Tot - Received) * (SPI_STALL_LIMIT + 1) + (SPI_STALL_LIMIT - (Idle + 1)) <
        (Tot - Received) * (SPI_STALL_LIMIT + 1) + (SPI_STALL_LIMIT - Idle)" if "\<not> Idle + 1 > SPI_STALL_LIMIT"
      using that by simp
    note IH2 = less [OF this, of ?S Rx h2]
    show ?thesis
      unfolding step stepl using IH1 IH2 by (cases "st AND SPI_CS_RXD \<noteq> 0"; cases "Idle + 1 > SPI_STALL_LIMIT") simp_all
  qed
qed

lemma DoneWait_lift: "DoneWait (lift_dev D) Spi Idle (h, t) = (DoneWait D Spi Idle h, t)"
proof (induction D Spi Idle h rule: DoneWait.induct)
  case (1 D Spi Idle h)
  obtain v h1 where io: "io_rd D (SpiBase Spi + SPI_REG_CS) h = (v, h1)" by fastforce
  then show ?case
    using 1 [OF io [symmetric]] by (subst (1 2) DoneWait.simps) (simp add: lift_rd [OF io])
qed

lemma lifts_spi [lifts_intro]:
  "lifts (SpiCsSet D Spi a) (SpiCsSet (lift_dev D) Spi a)" "lifts (SpiXfer D Spi Tx n) (SpiXfer (lift_dev D) Spi Tx n)"
  "lifts (SpiMuxPins D Spi) (SpiMuxPins (lift_dev D) Spi)" "lifts (SpiIdle D Spi) (SpiIdle (lift_dev D) Spi)"
proof -
  have "lifts (State (XferLoop D Spi Tx (length Tx + n) 0 0 0 [])) (State (XferLoop (lift_dev D) Spi Tx (length Tx + n) 0 0 0 []))"
    "lifts (modify (DoneWait D Spi 0)) (modify (DoneWait (lift_dev D) Spi 0))"
    by (simp_all add: lifts_def XferLoop_lift DoneWait_lift io_simps)
  then show "lifts (SpiXfer D Spi Tx n) (SpiXfer (lift_dev D) Spi Tx n)"
    unfolding SpiXfer_def by (intro lifts_intro)
  show cs: "lifts (SpiCsSet D Spi a) (SpiCsSet (lift_dev D) Spi a)" for a
    unfolding SpiCsSet_def by (intro lifts_intro)
  show "lifts (SpiMuxPins D Spi) (SpiMuxPins (lift_dev D) Spi)"
    unfolding SpiMuxPins_def by (intro lifts_intro)
  show "lifts (SpiIdle D Spi) (SpiIdle (lift_dev D) Spi)"
    unfolding SpiIdle_def by (intro lifts_intro cs)
qed

lemma lifts_probe [lifts_intro]: "lifts (SpiProbeJedec D Spi jid) (SpiProbeJedec (lift_dev D) Spi jid)"
proof -
  have "lifts (ProbeLoop D Spi n jid) (ProbeLoop (lift_dev D) Spi n jid)" for n
    by (induction n arbitrary: jid) (auto intro!: lifts_intro simp: Let_def)
  then show ?thesis by (simp add: SpiProbeJedec_def)
qed

lemma lifts_attempt [lifts_intro]: "lifts (AttemptLoop D Spi as r) (AttemptLoop (lift_dev D) Spi as r)"
  by (induction as arbitrary: r) (auto intro!: lifts_intro simp: Let_def)

lemma lifts_image: "lifts (Bcm2712BootSpiReadImage D Spi n) (Bcm2712BootSpiReadImage (lift_dev D) Spi n)"
  unfolding Bcm2712BootSpiReadImage_def by (intro lifts_intro)

text \<open>A device tree in which the locator finds the pin controller of a D0 chip below the root.\<close>

definition ram_fdt :: fdt_lib where
  "ram_fdt =
     \<lparr>FdtCheckHeader = 0, FdtParentOffset = (\<lambda>n. if n = 300 then 0 else -1), FdtAddressCells = (\<lambda>n. 2),
      FdtSizeCells = (\<lambda>n. 1), FdtGetProp = (\<lambda>n p. Some (enc_cells 2 0x107d504100 @ enc_cells 1 0x30)),
      FdtNodeOffsetByCompatible = (\<lambda>c. if c = ''brcm,bcm2712d0-pinctrl'' then 300 else -1),
      FdtNodeOffsetByPhandle = (\<lambda>h. -1), FdtPathOffset = (\<lambda>p. -1)\<rparr>"

definition ram_spi :: boot_spi where
  "ram_spi = spi_default\<lparr>IsD0 := True, PinctrlBase := 0x107d504100\<rparr>"

lemma ram_locate: "Bcm2712BootSpiLocate ram_fdt = Some (EFI_SUCCESS, ram_spi)"
proof -
  have "BlGetTranslatedRegAddress ram_fdt 300 = Some (Some (0x107d504100, 0x30))"
    by (simp add: BlGetTranslatedRegAddress_def ram_fdt_def Let_def BusWalk.simps length_enc_cells ReadCells_enc
        ReadCells_enc [where r = "[]", simplified] fits_def drop_enc)
  then have "spi_pinctrl ram_fdt spi_default = Some ram_spi"
    by (simp add: spi_pinctrl_def Let_def node_reg_def ram_spi_def) (simp add: ram_fdt_def)
  then show ?thesis
    by (simp add: Bcm2712BootSpiLocate_def Let_def) (simp add: ram_fdt_def)
qed

lemma ram_wired: "spi_wired ram_spi"
  by (simp add: ram_spi_def spi_wired_def spi_default_def spi_regs BCM2712_BOOT_SPI_BASE_def BCM2712_BOOT_CS_GIO_BASE_def
      BCM2712_BOOT_CS_PIN_def GIO_BANK_SIZE_def)

end
