(* ===== verification/Boot_Stage.thy ===== *)
theory Boot_Stage
  imports Boot_Ram
begin

section \<open>The setup page and the staging of EEPROM updates (BootloaderConfigSetup.c)\<close>

text \<open>
  \<^verbatim>\<open>StageUpdate\<close> and what it calls: the boot volume, replacing and deleting a file on it, the staged
  pair \<^verbatim>\<open>pieeprom.upd\<close>, \<^verbatim>\<open>pieeprom.sig\<close> and the marker variable; the clean-up of the next boot; the
  configuration access protocol of the page. The programs run over any state with the services
  of \<^verbatim>\<open>Boot_Services\<close> and an SPI controller \<open>D\<close>.

  \<open>Alloc\<close> and \<open>AllocCfg\<close> tell whether the pool has room for the image and the new text, \<open>Pool\<close> is
  what a fresh allocation holds, \<open>Stack\<close> what an uninitialised local buffer holds.
\<close>

subsection \<open>Volumes and files\<close>

definition STAGED_UPDATE_FILE :: string where "STAGED_UPDATE_FILE = ''pieeprom.upd''"
definition STAGED_SIG_FILE :: string where "STAGED_SIG_FILE = ''pieeprom.sig''"

definition PopupWait :: "('s, 'h) boot_svc \<Rightarrow> u8 list list \<Rightarrow> ('s, unit) state" where
  "PopupWait S Lines = CreatePopUp S True Lines"

definition PopupInfo :: "('s, 'h) boot_svc \<Rightarrow> u8 list \<Rightarrow> ('s, unit) state" where
  "PopupInfo S Line1 = CreatePopUp S False [Line1]"

definition VolumeScore :: "('s, 'h) boot_svc \<Rightarrow> 'h \<Rightarrow> ('s, nat) state" where
  "VolumeScore S Candidate = do {
     (Status, f) \<leftarrow> FileOpen S Candidate ''armstub8-2712.bin'' FILE_READ;
     (if \<not> EFI_ERROR Status then do { FileClose S f; State_Monad.return 2 }
      else do {
        (Status, f) \<leftarrow> FileOpen S Candidate ''config.txt'' FILE_READ;
        (if \<not> EFI_ERROR Status then do { FileClose S f; State_Monad.return 1 } else State_Monad.return 0)
      })
   }"

fun VolumeLoop :: "('s, 'h) boot_svc \<Rightarrow> nat list \<Rightarrow> 'h option \<Rightarrow> nat \<Rightarrow> ('s, 'h option) state" where
  "VolumeLoop S [] Best BestScore = State_Monad.return Best"
| "VolumeLoop S (H # Handles) Best BestScore = do {
     Status \<leftarrow> HandleProtocol S H;
     (if EFI_ERROR Status then VolumeLoop S Handles Best BestScore
      else do {
        (Status, Candidate) \<leftarrow> OpenVolume S H;
        (if EFI_ERROR Status then VolumeLoop S Handles Best BestScore
         else do {
           Score \<leftarrow> VolumeScore S Candidate;
           (if Score > BestScore then do {
              (case Best of None \<Rightarrow> State_Monad.return EFI_SUCCESS | Some b \<Rightarrow> FileClose S b);
              (if Score = 2 then State_Monad.return (Some Candidate)
               else VolumeLoop S Handles (Some Candidate) Score)
            }
            else do { FileClose S Candidate; VolumeLoop S Handles Best BestScore })
         })
      })
   }"

definition OpenBootVolume :: "('s, 'h) boot_svc \<Rightarrow> ('s, efi_status + 'h) state" where
  "OpenBootVolume S = do {
     (Status, Handles) \<leftarrow> LocateHandleBuffer S;
     (if EFI_ERROR Status then State_Monad.return (Inl Status)
      else do {
        Best \<leftarrow> VolumeLoop S Handles None 0;
        State_Monad.return (case Best of None \<Rightarrow> Inl EFI_NOT_FOUND | Some Root \<Rightarrow> Inr Root)
      })
   }"

definition DeleteFileIfPresent :: "('s, 'h) boot_svc \<Rightarrow> 'h \<Rightarrow> string \<Rightarrow> ('s, unit) state" where
  "DeleteFileIfPresent S Root Name = do {
     (Status, f) \<leftarrow> FileOpen S Root Name FILE_READ_WRITE;
     (if \<not> EFI_ERROR Status then do { FileDelete S f; State_Monad.return () } else State_Monad.return ())
   }"

definition ReplaceFileContent :: "('s, 'h) boot_svc \<Rightarrow> 'h \<Rightarrow> string \<Rightarrow> u8 list \<Rightarrow> ('s, efi_status) state" where
  "ReplaceFileContent S Root Name Data = do {
     DeleteFileIfPresent S Root Name;
     (Status, f) \<leftarrow> FileOpen S Root Name FILE_CREATE;
     (if EFI_ERROR Status then State_Monad.return Status
      else do {
        (Status, WriteLen) \<leftarrow> FileWrite S f Data;
        let Status = (if \<not> EFI_ERROR Status \<and> WriteLen \<noteq> length Data then EFI_DEVICE_ERROR else Status);
        Status \<leftarrow> (if \<not> EFI_ERROR Status then FileFlush S f else State_Monad.return Status);
        FileClose S f;
        (if EFI_ERROR Status then DeleteFileIfPresent S Root Name else State_Monad.return ());
        State_Monad.return Status
      })
   }"

subsection \<open>Staging\<close>

fun ZeroLoop :: "u8 list \<Rightarrow> bool \<Rightarrow> bool" where
  "ZeroLoop [] SawDigit = SawDigit"
| "ZeroLoop (c # cs) SawDigit =
     (if c = 32 \<or> c = 9 then ZeroLoop cs SawDigit
      else if c \<noteq> 48 then False
      else ZeroLoop cs True)"

definition ValueIsZero :: "u8 list \<Rightarrow> bool" where
  "ValueIsZero Val = ZeroLoop Val False"

fun fmt_hex :: "nat \<Rightarrow> u8 list" where
  "fmt_hex n = (if n < 16 then [hex_digit (of_nat n)] else fmt_hex (n div 16) @ [hex_digit (of_nat (n mod 16))])"

declare fmt_hex.simps [simp del]

definition DiagLine1 :: "boot_spi_result \<Rightarrow> u8 list" where
  "DiagLine1 R = take 79 (ascii ''No answer: JEDEC '' @ fmt_02x (JedecId R ! 0) @ 32 # fmt_02x (JedecId R ! 1) @
     32 # fmt_02x (JedecId R ! 2) @ ascii '', '' @ ascii (if UsedD0 R then ''D0'' else ''C0'') @ ascii '' mux '' @
     ascii (if Muxed R then ''applied'' else ''unavailable''))"

definition DiagLine2 :: "boot_spi \<Rightarrow> u8 list" where
  "DiagLine2 Spi = take 79 (ascii ''SPI '' @ fmt_hex (unat (SpiBase Spi)) @ ascii '' CS '' @
     fmt_hex (unat (CsBankBase Spi)) @ ascii ''/'' @ fmt_hex (unat (CsMask Spi)) @ ascii '' pinctrl '' @
     fmt_hex (unat (PinctrlBase Spi)))"

text \<open>
  How the action ends: it returned after a popup, or it asked for the reset, which does not return.
  \<open>Hangs\<close> stands for a device tree whose parent links go round in a circle.
\<close>

datatype stage_end = Returned | ResetIssued | Hangs

definition Refuse :: "('s, 'h) boot_svc \<Rightarrow> u8 list list \<Rightarrow> ('s, stage_end) state" where
  "Refuse S Lines = do { PopupWait S Lines; State_Monad.return Returned }"

text \<open>From the image on: hash, files, marker and reset.\<close>

definition StageFiles :: "('s, 'h) boot_svc \<Rightarrow> 'h \<Rightarrow> u8 list \<Rightarrow> u8 list \<Rightarrow> ('s, efi_status) state" where
  "StageFiles S Root Img Sig = do {
     Status \<leftarrow> ReplaceFileContent S Root STAGED_UPDATE_FILE Img;
     Status \<leftarrow> (if \<not> EFI_ERROR Status then do {
                  Status \<leftarrow> ReplaceFileContent S Root STAGED_SIG_FILE Sig;
                  (if EFI_ERROR Status then DeleteFileIfPresent S Root STAGED_UPDATE_FILE
                   else State_Monad.return ());
                  State_Monad.return Status
                }
                else State_Monad.return Status);
     FileClose S Root;
     State_Monad.return Status
   }"

definition StageImage ::
  "('s, 'h) boot_svc \<Rightarrow> buf \<Rightarrow> buf \<Rightarrow> blcfg_values \<Rightarrow> u32 \<Rightarrow> ('s, stage_end) state" where
  "StageImage S Stack Img NewValues Timestamp = do {
     let Digest = BlSha256 Stack Img EEPROM_IMAGE_SIZE_2712;
     let Sig = SigText Digest Timestamp (ascii ''target-soc: 2712'' @ [10]);
     PopupInfo S (ascii ''Writing pieeprom.upd to the boot partition...'');
     r \<leftarrow> OpenBootVolume S;
     (case r of
        Inl _ \<Rightarrow> Refuse S [ascii ''No boot volume with armstub8-2712.bin or config.txt found.'']
      | Inr Root \<Rightarrow> do {
          Status \<leftarrow> StageFiles S Root (bytes_at Img 0 EEPROM_IMAGE_SIZE_2712) Sig;
          (if EFI_ERROR Status
           then Refuse S [ascii ''Writing the update files to the boot partition failed.'']
           else do {
             SetVariable S RPI_BLCFG_STAGED_VARIABLE_NAME RPI_BLCFG_FORMSET_GUID
               (EFI_VARIABLE_NON_VOLATILE OR EFI_VARIABLE_BOOTSERVICE_ACCESS)
               (data_bytes (BlValuesToData NewValues));
             PopupInfo S (ascii ''EEPROM update staged - rebooting to apply...'');
             BsStall S 2000000;
             ResetSystem S;
             State_Monad.return ResetIssued
           })
        })
   }"

text \<open>The image: read over SPI, then patched.\<close>

definition StageRead ::
  "('s, 'h) boot_svc \<Rightarrow> 's iodev \<Rightarrow> bl_globals \<Rightarrow> bool \<Rightarrow> buf \<Rightarrow> buf \<Rightarrow> boot_spi \<Rightarrow> blcfg_values \<Rightarrow> ('s, stage_end) state"
where
  "StageRead S D G AllocCfg Pool Stack Spi NewValues = do {
     PopupInfo S (ascii ''Reading the 2 MiB boot EEPROM over SPI...'');
     (Status, Buffer, SpiResult) \<leftarrow> Bcm2712BootSpiReadImage D Spi EEPROM_IMAGE_SIZE_2712;
     (if EFI_ERROR Status then Refuse S [DiagLine1 SpiResult, DiagLine2 Spi]
      else do {
        now \<leftarrow> GetTime S;
        let Timestamp = StagingTimestamp now (mDtbUpdateTimestamp G);
        (case PatchImage AllocCfg Stack (CopyMem Pool 0 Buffer) EEPROM_IMAGE_SIZE_2712 NewValues Timestamp of
           (Status, FailLine, Img) \<Rightarrow>
             if EFI_ERROR Status then Refuse S [ascii FailLine]
             else StageImage S Stack Img NewValues Timestamp)
      })
   }"

definition StageUpdate ::
  "('s, 'h) boot_svc \<Rightarrow> 's iodev \<Rightarrow> bl_globals \<Rightarrow> bool \<Rightarrow> bool \<Rightarrow> buf \<Rightarrow> buf \<Rightarrow> ('s, stage_end) state" where
  "StageUpdate S D G Alloc AllocCfg Pool Stack = do {
     form \<leftarrow> HiiGetBrowserData S RPI_BLCFG_FORMSET_GUID RPI_BLCFG_VARIABLE_NAME BLCFG_DATA_SIZE;
     (case form of
        None \<Rightarrow> Refuse S [ascii ''Could not read the edited settings from the form.'']
      | Some Edited \<Rightarrow>
     (case BlValuesFromData (data_of Edited) of
        None \<Rightarrow> Refuse S [ascii ''BOOT_ORDER must be 1-8 hex digits, e.g. 0xf461.'',
                  ascii ''See the Raspberry Pi bootloader documentation for the codes.'']
      | Some NewValues \<Rightarrow>
     if BlValuesEqual NewValues (mCurrentValues G)
     then Refuse S [ascii ''No pending changes - the EEPROM already matches.'']
     else if mBlconfigRaw G = None
     then Refuse S [ascii ''The firmware provided no bootloader config (blconfig).'']
     else if (case BlTextGetValue (blconfig_text G) (ascii ''ENABLE_SELF_UPDATE'') of
                None \<Rightarrow> False | Some Val \<Rightarrow> ValueIsZero Val)
     then Refuse S [ascii ''ENABLE_SELF_UPDATE=0 is set: the bootloader would ignore'',
            ascii ''a staged update. Use recovery.bin from another machine.'']
     else
     (case mFdt G of
        None \<Rightarrow> Refuse S [ascii ''No device tree; cannot locate the boot SPI.'']
      | Some Fdt \<Rightarrow>
     (case Bcm2712BootSpiLocate Fdt of
        None \<Rightarrow> State_Monad.return Hangs
      | Some (Status, Spi) \<Rightarrow>
          if EFI_ERROR Status then Refuse S [ascii ''Could not determine the boot SPI controller.'']
          else if \<not> Alloc then Refuse S [ascii ''Out of memory for the 2 MiB EEPROM image.'']
          else StageRead S D G AllocCfg Pool Stack Spi NewValues))))
   }"

subsection \<open>The next boot\<close>

definition BlStagedMarkerCleanup :: "('s, 'h) boot_svc \<Rightarrow> bl_globals \<Rightarrow> ('s, unit) state" where
  "BlStagedMarkerCleanup S G = do {
     (Status, StagedData) \<leftarrow> GetVariable S RPI_BLCFG_STAGED_VARIABLE_NAME RPI_BLCFG_FORMSET_GUID BLCFG_DATA_SIZE;
     (if EFI_ERROR Status then State_Monad.return ()
      else do {
        let Applied = (length StagedData = BLCFG_DATA_SIZE \<and>
                       (case BlValuesFromData (data_of StagedData) of
                          None \<Rightarrow> False | Some Staged \<Rightarrow> BlValuesEqual Staged (mCurrentValues G)));
        (if Applied then do {
           r \<leftarrow> OpenBootVolume S;
           (case r of
              Inl _ \<Rightarrow> State_Monad.return ()
            | Inr Root \<Rightarrow> do {
                DeleteFileIfPresent S Root STAGED_UPDATE_FILE;
                DeleteFileIfPresent S Root STAGED_SIG_FILE;
                FileClose S Root;
                State_Monad.return ()
              })
         }
         else State_Monad.return ());
        SetVariable S RPI_BLCFG_STAGED_VARIABLE_NAME RPI_BLCFG_FORMSET_GUID 0 [];
        State_Monad.return ()
      })
   }"

subsection \<open>What the file programs establish\<close>

definition volume_score :: "('s, 'h) boot_view \<Rightarrow> 's \<Rightarrow> nat \<Rightarrow> nat" where
  "volume_score V s v = (if Files V s v ''armstub8-2712.bin'' \<noteq> None then 2
     else if Files V s v ''config.txt'' \<noteq> None then 1 else 0)"

text \<open>
  The boot volume: the first that carries the firmware, else the first with a configuration.
  \<open>b\<close> is the one with a configuration that was seen before.
\<close>

definition best_from :: "('s, 'h) boot_view \<Rightarrow> 's \<Rightarrow> nat list \<Rightarrow> nat option \<Rightarrow> nat option" where
  "best_from V s vs b =
     (case find (\<lambda>v. Mounts V v \<and> volume_score V s v = 2) vs of
        Some v \<Rightarrow> Some v
      | None \<Rightarrow> (case b of
                   Some v \<Rightarrow> Some v
                 | None \<Rightarrow> find (\<lambda>v. Mounts V v \<and> volume_score V s v = 1) vs))"

definition best_volume :: "('s, 'h) boot_view \<Rightarrow> 's \<Rightarrow> nat option" where
  "best_volume V s = best_from V s (Volumes V s) None"

lemma disk_score: "disk V s' = disk V s \<Longrightarrow> volume_score V s' v = volume_score V s v"
  by (simp add: disk_iff volume_score_def)

lemma disk_best: "disk V s' = disk V s \<Longrightarrow> best_from V s' vs b = best_from V s vs b"
  by (simp only: best_from_def disk_score [of V s' s])

lemma best_from_Cons:
  "best_from V s (v # vs) b =
     (if \<not> Mounts V v then best_from V s vs b
      else if volume_score V s v = 2 then Some v
      else if volume_score V s v = 1 \<and> b = None then best_from V s vs (Some v)
      else best_from V s vs b)"
  by (auto simp: best_from_def split: option.split)

lemma runs_VolumeScore:
  assumes "svc_ok S V" and "disk V s = disk V s0"
    and "\<And>s'. disk V s' = disk V s0 \<Longrightarrow> Q (volume_score V s0 (fst (PathOf V d))) s'"
  shows "runs (VolumeScore S d) s Q"
  unfolding VolumeScore_def
  by (intro runs_rules runs_FileOpen [OF assms(1)] runs_preserves [OF svc_quiet(5) [OF assms(1)]])
    (use assms(2,3) in \<open>simp_all add: volume_score_def disk_iff\<close>)

definition best_so_far :: "('s, 'h) boot_view \<Rightarrow> 'h option \<Rightarrow> nat \<Rightarrow> bool" where
  "best_so_far V Best k = (k = (case Best of None \<Rightarrow> 0 | Some _ \<Rightarrow> 1))"

lemma runs_VolumeLoop:
  assumes ok: "svc_ok S V" and "best_so_far V Best k" and "disk V s = disk V s0"
  shows "runs (VolumeLoop S vs Best k) s (\<lambda>r s'. disk V s' = disk V s0 \<and>
    map_option (\<lambda>h. fst (PathOf V h)) r = best_from V s0 vs (map_option (\<lambda>h. fst (PathOf V h)) Best))"
  using assms(2,3)
proof (induction vs arbitrary: Best k s)
  case Nil
  then show ?case by (auto intro!: runs_return simp: best_from_def split: option.splits)
next
  case (Cons v vs)
  note close = runs_preserves [OF svc_quiet(5) [OF ok]]
  note rules = runs_rules runs_HandleProtocol [OF ok] runs_OpenVolume [OF ok] runs_VolumeScore [OF ok, where ?s0.0 = s0] close
  have s2: "volume_score V s0 v = 0 \<or> volume_score V s0 v = 1 \<or> volume_score V s0 v = 2"
    by (simp add: volume_score_def)
  have one: "disk V t = disk V s0 \<Longrightarrow> fst (PathOf V h) = v \<Longrightarrow> runs (VolumeLoop S vs (Some h) (Suc 0)) t (\<lambda>r s'.
      disk V s' = disk V s0 \<and> map_option (\<lambda>h. fst (PathOf V h)) r = best_from V s0 vs (Some v))" for t h
    using Cons.IH [of "Some h" 1 t] by (simp add: best_so_far_def)
  note same = Cons.IH [OF Cons.prems(1)]
  show ?case
    unfolding VolumeLoop.simps
    by (cases Best; intro rules)
      (use Cons.prems s2 same one in
        \<open>auto simp: best_from_Cons best_so_far_def simp del: map_option_eq_Some\<close>)
qed

text \<open>The search finds the boot volume or fails, and changes nothing.\<close>

lemma runs_OpenBootVolume:
  assumes ok: "svc_ok S V" and d0: "disk V s = disk V s0"
    and "\<And>root s'. disk V s' = disk V s0 \<Longrightarrow> best_volume V s0 = Some (fst (PathOf V root)) \<Longrightarrow> Q (Inr root) s'"
    and "\<And>st s'. disk V s' = disk V s0 \<Longrightarrow> Q (Inl st) s'"
  shows "runs (OpenBootVolume S) s Q"
  unfolding OpenBootVolume_def
proof (intro runs_bind runs_LocateHandleBuffer [OF ok] runs_pair runs_if runs_return)
  fix st s1 assume "disk V s1 = disk V s"
  then have d: "disk V s1 = disk V s0" and vols: "Volumes V s = Volumes V s0" using d0 by (simp_all add: disk_iff)
  show "runs (VolumeLoop S (Volumes V s) None 0) s1
      (\<lambda>x s'. runs (State_Monad.return (case x of None \<Rightarrow> Inl EFI_NOT_FOUND | Some Root \<Rightarrow> Inr Root)) s' Q)"
    by (rule runs_mono [OF runs_VolumeLoop [OF ok _ d]])
      (use assms(3,4) in \<open>auto simp: best_so_far_def best_volume_def vols intro!: runs_return split: option.splits\<close>)
qed (use assms(4) d0 in auto)

lemma runs_DeleteFileIfPresent:
  assumes ok: "svc_ok S V"
    and "\<And>s'. Vars V s' = Vars V s \<Longrightarrow> Volumes V s' = Volumes V s \<Longrightarrow>
      Files V s' = put_at (Files V s) (fst (PathOf V d), n) None \<or>
      \<not> deletes_work S V \<and> Files V s' = Files V s \<Longrightarrow> Q () s'"
  shows "runs (DeleteFileIfPresent S d n) s Q"
  unfolding DeleteFileIfPresent_def
  apply (intro runs_rules runs_FileOpen [OF ok] runs_FileDelete [OF ok])
   apply (rule assms(2); simp)
   apply blast
  subgoal for st h s'
    by (cases "Files V s (fst (PathOf V d)) n = None"; rule assms(2))
      (use put_at_same [of "Files V s" "fst (PathOf V d)" n] in \<open>auto simp del: put_at_same\<close>)
  done

lemma runs_ReplaceFileContent:
  assumes ok: "svc_ok S V" and del: "deletes_work S V"
    and "\<And>st x s'. Vars V s' = Vars V s \<Longrightarrow> Volumes V s' = Volumes V s \<Longrightarrow>
      Files V s' = put_at (Files V s) (fst (PathOf V d), n) x \<Longrightarrow>
      (if EFI_ERROR st then x = None else x = Some bs) \<Longrightarrow> Q st s'"
  shows "runs (ReplaceFileContent S d n bs) s Q"
  unfolding ReplaceFileContent_def
  apply (intro runs_rules runs_DeleteFileIfPresent [OF ok] runs_FileOpen [OF ok] runs_FileWrite [OF ok]
      runs_preserves [OF svc_quiet(4) [OF ok]] runs_preserves [OF svc_quiet(5) [OF ok]])
  subgoal by (rule assms(3) [where x = None]) (simp_all add: del)
  subgoal by (rule assms(3) [where x = None]) (simp_all add: del disk_iff)
  subgoal by (rule assms(3) [where x = "Some bs"]) (auto simp: del disk_iff EFI_ERROR_def split: if_splits)
  subgoal by (rule assms(3) [where x = None]) (simp_all add: del disk_iff)
  subgoal by (rule assms(3) [where x = "Some bs"]) (auto simp: del disk_iff EFI_ERROR_def split: if_splits)
  done

lemma staged_names: "STAGED_UPDATE_FILE \<noteq> STAGED_SIG_FILE" "STAGED_SIG_FILE \<noteq> STAGED_UPDATE_FILE"
  by (simp_all add: STAGED_UPDATE_FILE_def STAGED_SIG_FILE_def)

lemma runs_StageFiles:
  assumes ok: "svc_ok S V" and del: "deletes_work S V"
    and "\<And>st x s'. Vars V s' = Vars V s \<Longrightarrow> Volumes V s' = Volumes V s \<Longrightarrow>
      Files V s' = put_at (put_at (Files V s) (fst (PathOf V d), STAGED_UPDATE_FILE) (if EFI_ERROR st then None else Some img))
        (fst (PathOf V d), STAGED_SIG_FILE) x \<Longrightarrow>
      (\<not> EFI_ERROR st \<Longrightarrow> x = Some sig) \<Longrightarrow> Q st s'"
  shows "runs (StageFiles S d img sig) s Q"
  unfolding StageFiles_def
  apply (intro runs_rules runs_ReplaceFileContent [OF ok del] runs_DeleteFileIfPresent [OF ok]
      runs_preserves [OF svc_quiet(5) [OF ok]])
  subgoal by (rule assms(3) [where x = None]) (simp_all add: del disk_iff put_at_swap3 staged_names)
  subgoal by (rule assms(3) [where x = "Some sig"]) (simp_all add: del disk_iff)
  subgoal by (rule assms(3) [where x = "Files V s (fst (PathOf V d)) STAGED_SIG_FILE"])
      (simp_all add: del disk_iff put_at_unchanged staged_names)
  done

subsection \<open>The action\<close>

text \<open>Reading the flash touches nothing that register accesses do not touch.\<close>

lemma preserves_io [preserves_intro]:
  assumes "io_quiet f D"
  shows "preserves f (MmioRead32 D a)" "preserves f (MmioWrite32 D a v)" "preserves f (Stall D k)"
    "preserves f (MmioOr32 D a v)" "preserves f (MmioAnd32 D a v)"
  using assms by (auto simp: io_quiet_def MmioOr32_def MmioAnd32_def intro!: preserves_bind)

lemma io_quiet_rd: "io_quiet f D \<Longrightarrow> io_rd D a s = (v, s') \<Longrightarrow> f s' = f s"
  by (metis io_quiet_def preservesD run_Mmio(1))

lemma io_quiet_wr: "io_quiet f D \<Longrightarrow> f (io_wr D a v s) = f s"
  by (metis io_quiet_def preservesD run_Mmio(2))

lemma XferLoop_quiet:
  assumes q: "io_quiet f D"
  shows "f (snd (XferLoop D Spi Tx Tot Sent Received Idle Rx s)) = f s"
proof (induction "(Tot - Received) * (SPI_STALL_LIMIT + 1) + (SPI_STALL_LIMIT - Idle)"
    arbitrary: Sent Received Idle Rx s rule: less_induct)
  case less
  obtain st s1 where io: "io_rd D (SpiBase Spi + SPI_REG_CS) s = (st, s1)" by fastforce
  let ?send = "st AND SPI_CS_TXD \<noteq> 0 \<and> Sent < Tot"
  define s2 where s2: "s2 = (if ?send then io_wr D (SpiBase Spi + SPI_REG_FIFO) (if Sent < length Tx then ucast (Tx ! Sent) else 0) s1 else s1)"
  obtain v s3 where io2: "io_rd D (SpiBase Spi + SPI_REG_FIFO) s2 = (v, s3)" by fastforce
  have f1: "f s1 = f s" using io_quiet_rd [OF q io] .
  have f2: "f s2 = f s" using f1 io_quiet_wr [OF q] by (simp add: s2)
  have f3: "f s3 = f s" using io_quiet_rd [OF q io2] f2 by simp
  show ?case
  proof (cases "Received < Tot")
    case False
    then show ?thesis by (subst XferLoop.simps) simp
  next
    case True
    have "(Tot - (Received + 1)) * (SPI_STALL_LIMIT + 1) + (SPI_STALL_LIMIT - 0) <
        (Tot - Received) * (SPI_STALL_LIMIT + 1) + (SPI_STALL_LIMIT - Idle)"
      using True by (simp add: Suc_diff_Suc [symmetric] flip: Suc_eq_plus1)
    note IH1 = less [OF this, of _ _ s3]
    have "(Tot - Received) * (SPI_STALL_LIMIT + 1) + (SPI_STALL_LIMIT - (Idle + 1)) <
        (Tot - Received) * (SPI_STALL_LIMIT + 1) + (SPI_STALL_LIMIT - Idle)" if "Idle + 1 \<le> SPI_STALL_LIMIT"
      using that by simp
    note IH2 = less [OF this, of _ _ s2]
    have "XferLoop D Spi Tx Tot Sent Received Idle Rx s =
       (if st AND SPI_CS_RXD \<noteq> 0
        then XferLoop D Spi Tx Tot (if ?send then Sent + 1 else Sent) (Received + 1) 0
               (if Received \<ge> length Tx then Rx @ [ucast v] else Rx) s3
        else if Idle + 1 > SPI_STALL_LIMIT then ((False, Rx), s2)
        else XferLoop D Spi Tx Tot (if ?send then Sent + 1 else Sent) Received (Idle + 1) Rx s2)"
      using True by (subst XferLoop.simps) (simp only: io Let_def prod.case if_True s2 [symmetric] io2)
    then show ?thesis using IH1 IH2 f2 f3 by simp
  qed
qed

lemma DoneWait_quiet': "io_quiet f D \<Longrightarrow> f (DoneWait D Spi Idle s) = f s"
proof (induction D Spi Idle s rule: DoneWait.induct)
  case (1 D Spi Idle s)
  show ?case
    apply (subst DoneWait.simps)
    using 1 by (auto dest: io_quiet_rd split: prod.split)
qed

lemma preserves_spi [preserves_intro]:
  assumes q: "io_quiet f D"
  shows "preserves f (SpiCsSet D Spi a)" "preserves f (SpiXfer D Spi Tx n)" "preserves f (SpiMuxPins D Spi)"
    "preserves f (SpiIdle D Spi)"
proof -
  have "preserves f (State (XferLoop D Spi Tx (length Tx + n) 0 0 0 []))" "preserves f (modify (DoneWait D Spi 0))"
    using XferLoop_quiet [OF q] DoneWait_quiet' [OF q] by (simp_all add: preserves_def io_simps)
  then show "preserves f (SpiCsSet D Spi a)" "preserves f (SpiXfer D Spi Tx n)" "preserves f (SpiMuxPins D Spi)"
    "preserves f (SpiIdle D Spi)"
    by (auto simp: SpiCsSet_def SpiXfer_def SpiMuxPins_def SpiIdle_def Let_def
        intro!: preserves_intro preserves_io [OF q] split: prod.split)
qed

lemma ProbeLoop_quiet: "io_quiet f D \<Longrightarrow> preserves f (ProbeLoop D Spi n jid)"
  by (induction n arbitrary: jid)
    (auto simp: Let_def intro!: preserves_intro split: prod.split)

lemma SpiProbeJedec_quiet [preserves_intro]: "io_quiet f D \<Longrightarrow> preserves f (SpiProbeJedec D Spi jid)"
  by (simp add: SpiProbeJedec_def ProbeLoop_quiet)

lemma AttemptLoop_quiet: "io_quiet f D \<Longrightarrow> preserves f (AttemptLoop D Spi as t)"
  by (induction as arbitrary: t)
    (auto simp: Let_def intro!: preserves_intro split: prod.split)

lemma ReadImage_quiet [preserves_intro]: "io_quiet f D \<Longrightarrow> preserves f (Bcm2712BootSpiReadImage D Spi n)"
  by (auto simp: Bcm2712BootSpiReadImage_def Let_def intro!: preserves_intro AttemptLoop_quiet split: prod.split)

text \<open>
  What a staged update is: the pair of files on the boot volume, nothing else on any volume, and
  at most the marker among the variables.
\<close>

definition sig_text :: "buf \<Rightarrow> u32 \<Rightarrow> u8 list" where
  "sig_text img ts = concat (map fmt_02x (sha256 (bytes_at img 0 EEPROM_IMAGE_SIZE_2712))) @
     10 # ascii ''ts: '' @ fmt_dec (unat ts) @ 10 # ascii ''target-soc: 2712'' @ [10]"

definition staged_pair :: "('s, 'h) boot_view \<Rightarrow> 's \<Rightarrow> 's \<Rightarrow> nat \<Rightarrow> buf \<Rightarrow> u32 \<Rightarrow> bool" where
  "staged_pair V s s' vol img ts =
     (Files V s' = put_at (put_at (Files V s) (vol, STAGED_UPDATE_FILE) (Some (bytes_at img 0 EEPROM_IMAGE_SIZE_2712)))
        (vol, STAGED_SIG_FILE) (Some (sig_text img ts)))"

definition marker :: "blcfg_values \<Rightarrow> u32 \<times> u8 list" where
  "marker v = (EFI_VARIABLE_NON_VOLATILE OR EFI_VARIABLE_BOOTSERVICE_ACCESS, data_bytes (BlValuesToData v))"

definition marker_set :: "('s, 'h) boot_view \<Rightarrow> 's \<Rightarrow> 's \<Rightarrow> blcfg_values \<Rightarrow> bool" where
  "marker_set V s s' v =
     (Vars V s' = Vars V s \<or>
      Vars V s' = put_at (Vars V s) (RPI_BLCFG_STAGED_VARIABLE_NAME, RPI_BLCFG_FORMSET_GUID) (Some (marker v)))"

text \<open>What a refused update leaves: no variable written, no image without the other half.\<close>

definition refused :: "('s, 'h) boot_view \<Rightarrow> 's \<Rightarrow> 's \<Rightarrow> bool" where
  "refused V s s' =
     (Vars V s' = Vars V s \<and>
      (Files V s' = Files V s \<or>
       (\<exists>vol x. best_volume V s = Some vol \<and>
          Files V s' = put_at (put_at (Files V s) (vol, STAGED_UPDATE_FILE) None) (vol, STAGED_SIG_FILE) x)))"

lemma runs_Refuse:
  "svc_ok S V \<Longrightarrow> (\<And>s'. disk V s' = disk V s \<Longrightarrow> Q Returned s') \<Longrightarrow> runs (Refuse S Lines) s Q"
  unfolding Refuse_def PopupWait_def by (intro runs_rules runs_preserves [OF svc_quiet(9)]) auto

lemma SigText_image:
  "SigText (BlSha256 Stack img EEPROM_IMAGE_SIZE_2712) ts (ascii ''target-soc: 2712'' @ [10]) = sig_text img ts"
  by (subst SigText_eq) (simp_all add: BlSha256_sha256 length_sha256 sig_text_def ascii_def)

lemma data_bytes_nonempty: "data_bytes d \<noteq> []"
  by (simp add: data_bytes_def)

lemma staged_attrs: "EFI_VARIABLE_NON_VOLATILE OR EFI_VARIABLE_BOOTSERVICE_ACCESS \<noteq> 0"
  by (simp add: EFI_VARIABLE_NON_VOLATILE_def EFI_VARIABLE_BOOTSERVICE_ACCESS_def)

lemma runs_StageImage:
  assumes ok: "svc_ok S V" and del: "deletes_work S V" and d: "disk V s = disk V s0"
  shows "runs (StageImage S Stack img v ts) s (\<lambda>e s'.
    (e = ResetIssued \<longrightarrow> (\<exists>vol. best_volume V s0 = Some vol \<and> staged_pair V s0 s' vol img ts \<and> marker_set V s0 s' v)) \<and>
    (e = Returned \<longrightarrow> refused V s0 s'))"
  unfolding StageImage_def PopupInfo_def SigText_image Let_def
proof (intro runs_rules runs_preserves [OF svc_quiet(9) [OF ok]] runs_OpenBootVolume [OF ok, where ?s0.0 = s0]
    runs_StageFiles [OF ok del] runs_Refuse [OF ok] runs_SetVariable [OF ok] runs_preserves [OF svc_quiet(10) [OF ok]]
    runs_preserves [OF svc_quiet(11) [OF ok]])
qed (use d in \<open>auto simp: disk_iff refused_def staged_pair_def marker_set_def marker_def data_bytes_nonempty staged_attrs\<close>)

definition flash_read :: "'s iodev \<Rightarrow> boot_spi \<Rightarrow> u8 list \<Rightarrow> bool" where
  "flash_read D Spi bs =
     (\<exists>s1 s2 R. run_state (Bcm2712BootSpiReadImage D Spi EEPROM_IMAGE_SIZE_2712) s1 = ((EFI_SUCCESS, bs, R), s2))"

definition patched_from ::
  "'s iodev \<Rightarrow> bl_globals \<Rightarrow> bool \<Rightarrow> buf \<Rightarrow> buf \<Rightarrow> boot_spi \<Rightarrow> blcfg_values \<Rightarrow> u8 list \<Rightarrow> u32 \<Rightarrow> buf \<Rightarrow> bool" where
  "patched_from D G AllocCfg Pool Stack Spi v bs ts img =
     (flash_read D Spi bs \<and> ts \<noteq> mDtbUpdateTimestamp G \<and>
      (\<exists>line. PatchImage AllocCfg Stack (CopyMem Pool 0 bs) EEPROM_IMAGE_SIZE_2712 v ts = (EFI_SUCCESS, line, img)))"

lemma runs_known:
  "preserves f m \<Longrightarrow> (\<And>x s'. run_state m s = (x, s') \<Longrightarrow> f s' = f s \<Longrightarrow> Q x s') \<Longrightarrow> runs m s Q"
  by (rule runsI) (blast dest: preservesD)

lemma runs_StageRead:
  assumes ok: "svc_ok S V" and del: "deletes_work S V" and io: "io_quiet (disk V) D" and d: "disk V s = disk V s0"
  shows "runs (StageRead S D G AllocCfg Pool Stack Spi v) s (\<lambda>e s'.
    (e = ResetIssued \<longrightarrow> (\<exists>bs ts img vol. patched_from D G AllocCfg Pool Stack Spi v bs ts img \<and>
       best_volume V s0 = Some vol \<and> staged_pair V s0 s' vol img ts \<and> marker_set V s0 s' v)) \<and>
    (e = Returned \<longrightarrow> refused V s0 s'))" (is "runs _ _ ?Q")
  unfolding StageRead_def PopupInfo_def
proof (intro runs_bind runs_preserves [OF svc_quiet(9) [OF ok]] runs_preserves [OF svc_quiet(7) [OF ok]] runs_let
    runs_known [OF ReadImage_quiet [OF io]])
  fix s1 r s2
  assume d1: "disk V s1 = disk V s" and r: "run_state (Bcm2712BootSpiReadImage D Spi EEPROM_IMAGE_SIZE_2712) s1 = (r, s2)"
    and d2: "disk V s2 = disk V s1"
  obtain st bs R where r': "r = (st, bs, R)" by (cases r)
  have "runs (case PatchImage AllocCfg Stack (CopyMem Pool 0 bs) EEPROM_IMAGE_SIZE_2712 v
            (StagingTimestamp now (mDtbUpdateTimestamp G)) of
          (Status, FailLine, Img) \<Rightarrow>
            if EFI_ERROR Status then Refuse S [ascii FailLine]
            else StageImage S Stack Img v (StagingTimestamp now (mDtbUpdateTimestamp G))) s3 ?Q"
    if now: "disk V s3 = disk V s2" and ne: "\<not> EFI_ERROR st" for now s3
  proof -
    let ?ts = "StagingTimestamp now (mDtbUpdateTimestamp G)"
    obtain pst line img where p: "PatchImage AllocCfg Stack (CopyMem Pool 0 bs) EEPROM_IMAGE_SIZE_2712 v ?ts =
        (pst, line, img)" by (metis prod_cases3)
    have d3: "disk V s3 = disk V s0" using now d2 d1 d by simp
    have pf: "patched_from D G AllocCfg Pool Stack Spi v bs ?ts img" if "\<not> EFI_ERROR pst"
      using r r' ne p that staging_timestamp_differs by (auto simp: patched_from_def flash_read_def EFI_ERROR_def)
    show ?thesis
      unfolding p prod.case
      by (intro runs_if runs_Refuse [OF ok] runs_mono [OF runs_StageImage [OF ok del d3]])
        (use d3 pf in \<open>auto simp: refused_def disk_iff\<close>)
  qed
  then show "runs (case r of (Status, Buffer, SpiResult) \<Rightarrow>
       if EFI_ERROR Status then Refuse S [DiagLine1 SpiResult, DiagLine2 Spi]
       else GetTime S \<bind> (\<lambda>now. let Timestamp = StagingTimestamp now (mDtbUpdateTimestamp G) in
         case PatchImage AllocCfg Stack (CopyMem Pool 0 Buffer) EEPROM_IMAGE_SIZE_2712 v Timestamp of
           (Status, FailLine, Img) \<Rightarrow> if EFI_ERROR Status then Refuse S [ascii FailLine]
              else StageImage S Stack Img v Timestamp)) s2 ?Q"
    unfolding r' prod.case Let_def
    using d d1 d2 by (intro runs_if runs_Refuse [OF ok] runs_bind runs_preserves [OF svc_quiet(7) [OF ok]])
      (auto simp: refused_def disk_iff)
qed

lemma form_values_valid: "BlValuesFromData d = Some v \<Longrightarrow> valid_values v"
  by (auto simp: BlValuesFromData_def SetDefaults_def valid_values_def dest: ParseBootOrder_valid
      split: option.splits if_splits)

lemma case_option_ex: "(case q of None \<Rightarrow> False | Some x \<Rightarrow> P x) \<longleftrightarrow> (\<exists>x. q = Some x \<and> P x)"
  by (cases q) auto

text \<open>The action as a whole, from the form to the reset.\<close>

lemma runs_StageUpdate:
  assumes ok: "svc_ok S V" and del: "deletes_work S V" and io: "io_quiet (disk V) D"
  shows "runs (StageUpdate S D G Alloc AllocCfg Pool Stack) s (\<lambda>e s'.
    (e = ResetIssued \<longrightarrow> (\<exists>form v Fdt Spi bs ts img vol.
       BlValuesFromData (data_of form) = Some v \<and> \<not> BlValuesEqual v (mCurrentValues G) \<and>
       \<not> (\<exists>Val. BlTextGetValue (blconfig_text G) (ascii ''ENABLE_SELF_UPDATE'') = Some Val \<and> ValueIsZero Val) \<and>
       mFdt G = Some Fdt \<and> Bcm2712BootSpiLocate Fdt = Some (EFI_SUCCESS, Spi) \<and>
       patched_from D G AllocCfg Pool Stack Spi v bs ts img \<and>
       best_volume V s = Some vol \<and> staged_pair V s s' vol img ts \<and> marker_set V s s' v)) \<and>
    (e = Returned \<longrightarrow> refused V s s'))"
  unfolding StageUpdate_def
  apply (intro runs_bind runs_if runs_option runs_prod runs_return runs_preserves [OF svc_quiet(8) [OF ok]]
      runs_Refuse [OF ok] runs_mono [OF runs_StageRead [OF ok del io, where ?s0.0 = s]])
             apply (simp_all add: refused_def disk_iff EFI_ERROR_def case_option_ex)
  apply blast
  done



subsection \<open>The clean-up\<close>

lemma to_data_12: "valid_values v \<Longrightarrow> length (DBootOrder (BlValuesToData v)) = 12"
  by (auto simp: valid_values_def valid_boot_order_def BlValuesToData_def)

lemma runs_Cleanup:
  assumes ok: "svc_ok S V" and del: "deletes_work S V" and v: "valid_values v"
    and m: "Vars V s RPI_BLCFG_STAGED_VARIABLE_NAME RPI_BLCFG_FORMSET_GUID = Some (marker v)"
  shows "runs (BlStagedMarkerCleanup S G) s (\<lambda>_ s'.
    (Vars V s' = Vars V s \<or>
     Vars V s' = put_at (Vars V s) (RPI_BLCFG_STAGED_VARIABLE_NAME, RPI_BLCFG_FORMSET_GUID) None) \<and>
    (Files V s' = Files V s \<or> BlValuesEqual v (mCurrentValues G) \<and>
       (\<exists>vol. best_volume V s = Some vol \<and>
          Files V s' = put_at (put_at (Files V s) (vol, STAGED_UPDATE_FILE) None) (vol, STAGED_SIG_FILE) None)))"
proof -
  note t = to_data_12 [OF v]
  note d = data_of_bytes [OF t] data_round_trip [OF v]
  show ?thesis
    unfolding BlStagedMarkerCleanup_def
    apply (intro runs_rules runs_GetVariable [OF ok] runs_OpenBootVolume [OF ok, where ?s0.0 = s]
        runs_DeleteFileIfPresent [OF ok] runs_SetVariable [OF ok] runs_preserves [OF svc_quiet(5) [OF ok]])
    by (simp_all add: m marker_def d disk_iff del)
qed

text \<open>
  C24: The boot after a staged update. When the marker holds the values \<open>v\<close> that were staged, the clean-up deletes the
  staged pair from the boot volume only if the running configuration equals \<open>v\<close>, which means the
  bootloader has applied the update; it touches no other file, and the only variable it
  writes is the marker, which it clears.
\<close>

theorem staged_cleanup:
  assumes "svc_ok S V" "deletes_work S V" "valid_values v"
    and "Vars V s RPI_BLCFG_STAGED_VARIABLE_NAME RPI_BLCFG_FORMSET_GUID = Some (marker v)"
    and "run_state (BlStagedMarkerCleanup S G) s = ((), s')"
  shows "(Vars V s' = Vars V s \<or>
     Vars V s' = put_at (Vars V s) (RPI_BLCFG_STAGED_VARIABLE_NAME, RPI_BLCFG_FORMSET_GUID) None) \<and>
    (Files V s' = Files V s \<or> BlValuesEqual v (mCurrentValues G) \<and>
       (\<exists>vol. best_volume V s = Some vol \<and>
          Files V s' = put_at (put_at (Files V s) (vol, STAGED_UPDATE_FILE) None) (vol, STAGED_SIG_FILE) None))"
  using runs_Cleanup [OF assms(1-4), THEN runsD, OF assms(5)] .

subsection \<open>The whole cycle on concrete services\<close>

definition ram_globals :: bl_globals where
  "ram_globals = \<lparr>mFdt = Some ram_fdt, mBlconfigRaw = Some [], mBlconfigTextLen = 0, mCurrentValues = SetDefaults,
     mDtbUpdateTimestamp = 6, mDtbHasTimestamp = True, mPublished = False\<rparr>"

definition ram_hw :: spi_hw where
  "ram_hw = \<lparr>tx_fifo = [], rx_fifo = [], busy = 0, hist = [], gio_data = 0, gio_dir = 0, mux_reg = 0, clk_reg = 0\<rparr>"

definition ram_start :: ram_disk where
  "ram_start = \<lparr>rfiles = (\<lambda>v n. if v = 1 \<and> n = ''config.txt'' then Some [] else None), rvars = (\<lambda>n g. None)\<rparr>"

abbreviation ram_dev :: "(spi_hw \<times> ram_disk) iodev" where
  "ram_dev \<equiv> lift_dev (spi_dev ram_spi True 20 demo_2712 [0xEF, 0x60, 0x15])"

lemma ram_read:
  "\<exists>h' R. run_state (Bcm2712BootSpiReadImage ram_dev ram_spi EEPROM_IMAGE_SIZE_2712) (ram_hw, t) =
     ((EFI_SUCCESS, map demo_2712 [0..<EEPROM_IMAGE_SIZE_2712], R), (h', t))"
  using spi_read_exact [OF ram_wired, of 20 ram_hw "[0xEF, 0x60, 0x15]" True demo_2712 EEPROM_IMAGE_SIZE_2712]
    liftsD [OF lifts_image, of "spi_dev ram_spi True 20 demo_2712 [0xEF, 0x60, 0x15]"]
  by (fastforce simp: SPI_STALL_LIMIT_def ram_hw_def usable_id_def)

lemma ram_image: "CopyMem demo_2712 0 (map demo_2712 [0..<n]) = demo_2712"
  by (rule ext) (simp add: CopyMem_def)

lemma ram_run:
  "run_state (FileOpen (ram_svc form) d n m) s = ram_open d n m s"
  "run_state (FileDelete (ram_svc form) h) s = (EFI_SUCCESS, ram_put h None s)"
  "run_state (FileWrite (ram_svc form) h bs) s =
     ((EFI_SUCCESS, length bs), ram_put h (Some (bs @ drop (length bs) (ram_old h s))) s)"
  by (simp_all add: ram_svc_def)

lemma ram_quiet_calls:
  "LocateHandleBuffer (ram_svc form) = State_Monad.return (EFI_SUCCESS, [0, 1])"
  "HandleProtocol (ram_svc form) v = State_Monad.return EFI_SUCCESS"
  "OpenVolume (ram_svc form) v = State_Monad.return (EFI_SUCCESS, (v, ''''))"
  "FileFlush (ram_svc form) h = State_Monad.return EFI_SUCCESS"
  "FileClose (ram_svc form) h = State_Monad.return EFI_SUCCESS"
  "CreatePopUp (ram_svc form) w ls = State_Monad.return ()"
  "BsStall (ram_svc form) k = State_Monad.return ()" "ResetSystem (ram_svc form) = State_Monad.return ()"
  "HiiGetBrowserData (ram_svc form) g n k = State_Monad.return form"
  "GetTime (ram_svc form) =
     State_Monad.return (EFI_NOT_FOUND, \<lparr>Year = 0, Month = 0, Day = 0, Hour = 0, Minute = 0, Second = 0\<rparr>)"
  by (simp_all add: ram_svc_def)

lemma ram_replace: "\<exists>s'. run_state (ReplaceFileContent (ram_svc form) d n bs) s = (EFI_SUCCESS, s')"
  by (auto simp: ReplaceFileContent_def DeleteFileIfPresent_def ram_run ram_quiet_calls ram_open_def EFI_ERROR_def
      Let_def split: option.split prod.split)

lemma ram_boot: "\<exists>root. run_state (OpenBootVolume (ram_svc form)) (h, ram_start) = (Inr root, (h, ram_start))"
  by (simp add: OpenBootVolume_def VolumeScore_def ram_run ram_quiet_calls ram_open_def EFI_ERROR_def ram_start_def)

lemma ram_stage_files: "\<exists>s'. run_state (StageFiles (ram_svc form) root bs sig) s = (EFI_SUCCESS, s')"
proof -
  obtain s1 where r1: "run_state (ReplaceFileContent (ram_svc form) root STAGED_UPDATE_FILE bs) s = (EFI_SUCCESS, s1)"
    using ram_replace by blast
  obtain s2 where r2: "run_state (ReplaceFileContent (ram_svc form) root STAGED_SIG_FILE sig) s1 = (EFI_SUCCESS, s2)"
    using ram_replace by blast
  show ?thesis by (simp add: StageFiles_def r1 r2 EFI_ERROR_def ram_quiet_calls)
qed

lemma ram_stages:
  "\<exists>s'. run_state (StageUpdate (ram_svc (Some (data_bytes (BlValuesToData demo_values)))) ram_dev ram_globals True True
     demo_2712 (\<lambda>_. 0)) (ram_hw, ram_start) = (ResetIssued, s')"
proof -
  let ?S = "ram_svc (Some (data_bytes (BlValuesToData demo_values)))"
  note t = to_data_12 [OF demo_values_valid]
  have form: "BlValuesFromData (data_of (data_bytes (BlValuesToData demo_values))) = Some demo_values"
    by (simp add: data_of_bytes [OF t] data_round_trip [OF demo_values_valid])
  have diff: "\<not> BlValuesEqual demo_values SetDefaults"
    by (simp add: BlValuesEqual_def demo_values_def SetDefaults_def)
  have notext: "BlTextGetValue (blconfig_text ram_globals) K = None" for K
    by (simp add: BlTextGetValue_lines blconfig_text_def ram_globals_def text_lines_Nil)
  obtain h' R where rd: "run_state (Bcm2712BootSpiReadImage ram_dev ram_spi EEPROM_IMAGE_SIZE_2712) (ram_hw, ram_start) =
     ((EFI_SUCCESS, map demo_2712 [0..<EEPROM_IMAGE_SIZE_2712], R), (h', ram_start))" using ram_read by blast
  obtain img where p: "PatchImage True (\<lambda>_. 0) demo_2712 EEPROM_IMAGE_SIZE_2712 demo_values 7 = (EFI_SUCCESS, '''', img)"
    using demo_2712_patch by blast
  obtain root where boot: "run_state (OpenBootVolume ?S) (h', ram_start) = (Inr root, (h', ram_start))"
    by (rule exE [OF ram_boot])
  have ts: "StagingTimestamp (EFI_NOT_FOUND, T) 6 = 7" for T
    by (simp add: StagingTimestamp_def EFI_ERROR_def)
  obtain s1 where files: "run_state (StageFiles ?S root (bytes_at img 0 EEPROM_IMAGE_SIZE_2712) (sig_text img 7)) (h', ram_start) =
      (EFI_SUCCESS, s1)" by (rule exE [OF ram_stage_files])
  have image: "\<exists>s'. run_state (StageImage ?S (\<lambda>_. 0) img demo_values 7) (h', ram_start) = (ResetIssued, s')"
    unfolding StageImage_def Let_def SigText_image
    by (simp add: PopupInfo_def ram_quiet_calls boot files EFI_ERROR_def split: prod.split)
  have "\<exists>s'. run_state (StageRead ?S ram_dev ram_globals True demo_2712 (\<lambda>_. 0) ram_spi demo_values) (ram_hw, ram_start) =
      (ResetIssued, s')"
    unfolding StageRead_def
    using image by (simp add: PopupInfo_def ram_quiet_calls rd EFI_ERROR_def ram_globals_def ts ram_image p)
  then show ?thesis
    unfolding StageUpdate_def
    by (simp add: ram_quiet_calls form notext) (simp add: ram_globals_def diff ram_locate EFI_ERROR_def)
qed



text \<open>The clean-up after the update: the pair is on volume 1 and the marker holds the values in force.\<close>

definition ram_staged :: ram_disk where
  "ram_staged = \<lparr>rfiles = (\<lambda>v n. if v = 1 \<and> n \<in> {''config.txt'', ''pieeprom.upd'', ''pieeprom.sig''} then Some [1] else None),
     rvars = (\<lambda>n g. if (n, g) = (RPI_BLCFG_STAGED_VARIABLE_NAME, RPI_BLCFG_FORMSET_GUID) then Some (marker demo_values) else None)\<rparr>"

theorem staged_cleanup_witness:
  "\<exists>s'. run_state (BlStagedMarkerCleanup (ram_svc None) (ram_globals\<lparr>mCurrentValues := demo_values\<rparr>)) (ram_hw, ram_staged) = ((), s') \<and>
     Files ram_view s' 1 ''config.txt'' = Some [1]"
proof -
  obtain u s' where r0: "run_state (BlStagedMarkerCleanup (ram_svc None) (ram_globals\<lparr>mCurrentValues := demo_values\<rparr>))
      (ram_hw, ram_staged) = (u, s')" by (rule prod.exhaust)
  then have r: "run_state (BlStagedMarkerCleanup (ram_svc None) (ram_globals\<lparr>mCurrentValues := demo_values\<rparr>))
      (ram_hw, ram_staged) = ((), s')" by simp
  have m: "Vars ram_view (ram_hw, ram_staged) RPI_BLCFG_STAGED_VARIABLE_NAME RPI_BLCFG_FORMSET_GUID = Some (marker demo_values)"
    by (simp add: ram_view_def ram_staged_def)
  have "Files ram_view (ram_hw, ram_staged) 1 ''config.txt'' = Some [1]"
    by (simp add: ram_view_def ram_staged_def)
  then show ?thesis
    using staged_cleanup [OF ram_ok ram_deletes demo_values_valid m r] r
    by (auto simp: put_at_def STAGED_UPDATE_FILE_def STAGED_SIG_FILE_def)
qed

end
