(* ===== verification/Boot_Page.thy ===== *)
theory Boot_Page
  imports Boot_Stage
begin

section \<open>The setup page's configuration access (BootloaderConfigSetup.c)\<close>

text \<open>
  \<^verbatim>\<open>BlExtractConfig\<close>, \<^verbatim>\<open>BlRouteConfig\<close>, \<^verbatim>\<open>BlCallback\<close> and \<^verbatim>\<open>BlInstallHiiPage\<close>. The HII database's
  conversions between a configuration string and a block are functions of \<^verbatim>\<open>hii_svc\<close>. \<open>*Progress\<close> points
  into the caller's string, so it is an offset, null, or not written.
\<close>

record 's hii_svc =
  HiiIsConfigHdrMatch :: "string \<Rightarrow> string \<Rightarrow> string \<Rightarrow> bool"
  HiiConstructConfigHdr :: "string option"
  AllocateRequest :: bool
  BlockToConfig :: "string \<Rightarrow> u8 list \<Rightarrow> efi_status \<times> string \<times> nat"
  ConfigToBlock :: "string \<Rightarrow> u8 list \<Rightarrow> efi_status \<times> u8 list \<times> nat"
  InstallProtocols :: "('s, efi_status) state"
  UninstallProtocols :: "('s, efi_status) state"
  HiiAddPackages :: "('s, bool) state"

datatype progress = ProgressUnset | ProgressNull | ProgressAt nat

definition progress_start :: "string option \<Rightarrow> progress" where
  "progress_start Request = (case Request of None \<Rightarrow> ProgressNull | Some _ \<Rightarrow> ProgressAt 0)"

fun StrStr :: "string \<Rightarrow> string \<Rightarrow> bool" where
  "StrStr [] Search = (Search = [])"
| "StrStr (c # cs) Search = (take (length Search) (c # cs) = Search \<or> StrStr cs Search)"

text \<open>The data of the page: the variable when it is whole, else the running values.\<close>

definition PageData :: "('s, 'h) boot_svc \<Rightarrow> bl_globals \<Rightarrow> ('s, u8 list) state" where
  "PageData S G = do {
     (Status, Data) \<leftarrow> GetVariable S RPI_BLCFG_VARIABLE_NAME RPI_BLCFG_FORMSET_GUID BLCFG_DATA_SIZE;
     State_Monad.return (if EFI_ERROR Status \<or> length Data \<noteq> BLCFG_DATA_SIZE
                         then data_bytes (BlValuesToData (mCurrentValues G)) else Data)
   }"

definition fmt_016X :: "nat \<Rightarrow> string" where
  "fmt_016X n = map (\<lambda>b. char_of (unat b)) (replicate (16 - length (fmt_hex n)) 48 @ fmt_hex n)"

text \<open>\<^verbatim>\<open>UnicodeSPrint\<close> into \<open>RequestSize\<close> bytes keeps room for the terminator.\<close>

definition FullRequest :: "string \<Rightarrow> string" where
  "FullRequest Hdr =
     (let RequestSize = (length Hdr + 32) * 2 in
      take (RequestSize div 2 - 1) (Hdr @ ''&OFFSET=0&WIDTH='' @ fmt_016X BLCFG_DATA_SIZE))"

definition BlExtractConfig ::
  "('s, 'h) boot_svc \<Rightarrow> 's hii_svc \<Rightarrow> bl_globals \<Rightarrow> bool \<Rightarrow> bool \<Rightarrow> string option \<Rightarrow>
   ('s, efi_status \<times> progress \<times> string option) state" where
  "BlExtractConfig S H G HasProgress HasResults Request =
     (if \<not> HasProgress \<or> \<not> HasResults then State_Monad.return (EFI_INVALID_PARAMETER, ProgressUnset, None)
      else if (case Request of None \<Rightarrow> False
               | Some r \<Rightarrow> \<not> HiiIsConfigHdrMatch H r RPI_BLCFG_FORMSET_GUID RPI_BLCFG_VARIABLE_NAME)
      then State_Monad.return (EFI_NOT_FOUND, progress_start Request, None)
      else do {
        Data \<leftarrow> PageData S G;
        (case Request of
           Some r \<Rightarrow>
             if StrStr r ''OFFSET''
             then State_Monad.return (case BlockToConfig H r Data of (Status, res, p) \<Rightarrow> (Status, ProgressAt p, Some res))
             else State_Monad.return
               (case HiiConstructConfigHdr H of
                  None \<Rightarrow> (EFI_OUT_OF_RESOURCES, progress_start Request, None)
                | Some Hdr \<Rightarrow>
                    if \<not> AllocateRequest H then (EFI_OUT_OF_RESOURCES, progress_start Request, None)
                    else (case BlockToConfig H (FullRequest Hdr) Data of
                            (Status, res, p) \<Rightarrow> (Status, ProgressAt (length r), Some res)))
         | None \<Rightarrow> State_Monad.return
             (case HiiConstructConfigHdr H of
                None \<Rightarrow> (EFI_OUT_OF_RESOURCES, ProgressNull, None)
              | Some Hdr \<Rightarrow>
                  if \<not> AllocateRequest H then (EFI_OUT_OF_RESOURCES, ProgressNull, None)
                  else (case BlockToConfig H (FullRequest Hdr) Data of
                          (Status, res, p) \<Rightarrow> (Status, ProgressNull, Some res))))
      })"

definition BlRouteConfig ::
  "('s, 'h) boot_svc \<Rightarrow> 's hii_svc \<Rightarrow> bl_globals \<Rightarrow> bool \<Rightarrow> string option \<Rightarrow> ('s, efi_status \<times> progress) state" where
  "BlRouteConfig S H G HasProgress Configuration =
     (if \<not> HasProgress then State_Monad.return (EFI_INVALID_PARAMETER, ProgressUnset)
      else (case Configuration of
        None \<Rightarrow> State_Monad.return (EFI_INVALID_PARAMETER, ProgressNull)
      | Some c \<Rightarrow>
          if \<not> HiiIsConfigHdrMatch H c RPI_BLCFG_FORMSET_GUID RPI_BLCFG_VARIABLE_NAME
          then State_Monad.return (EFI_NOT_FOUND, ProgressAt 0)
          else do {
            Data \<leftarrow> PageData S G;
            (case ConfigToBlock H c Data of
               (Status, Block, p) \<Rightarrow>
                 if EFI_ERROR Status then State_Monad.return (Status, ProgressAt p)
                 else do {
                   Status \<leftarrow> SetVariable S RPI_BLCFG_VARIABLE_NAME RPI_BLCFG_FORMSET_GUID
                     (EFI_VARIABLE_NON_VOLATILE OR EFI_VARIABLE_BOOTSERVICE_ACCESS OR EFI_VARIABLE_RUNTIME_ACCESS) Block;
                   State_Monad.return (Status, ProgressAt p)
                 })
          }))"

definition RPI_BLCFG_KEY_STAGE :: u16 where "RPI_BLCFG_KEY_STAGE = 0x1000"
definition EFI_BROWSER_ACTION_CHANGING :: nat where "EFI_BROWSER_ACTION_CHANGING = 0"
definition EFI_BROWSER_ACTION_CHANGED :: nat where "EFI_BROWSER_ACTION_CHANGED = 1"

text \<open>\<open>None\<close>: the action reset the machine or hangs, so the callback does not return.\<close>

definition BlCallback ::
  "('s, stage_end) state \<Rightarrow> nat \<Rightarrow> u16 \<Rightarrow> ('s, efi_status option) state" where
  "BlCallback Stage Action QuestionId =
     (if QuestionId \<noteq> RPI_BLCFG_KEY_STAGE then State_Monad.return (Some EFI_UNSUPPORTED)
      else if Action = EFI_BROWSER_ACTION_CHANGING then State_Monad.return (Some EFI_SUCCESS)
      else if Action \<noteq> EFI_BROWSER_ACTION_CHANGED then State_Monad.return (Some EFI_UNSUPPORTED)
      else do {
        e \<leftarrow> Stage;
        State_Monad.return (if e = Returned then Some EFI_SUCCESS else None)
      })"

definition BlInstallHiiPage :: "'s hii_svc \<Rightarrow> ('s, efi_status) state" where
  "BlInstallHiiPage H = do {
     Status \<leftarrow> InstallProtocols H;
     (if EFI_ERROR Status then State_Monad.return Status
      else do {
        ok \<leftarrow> HiiAddPackages H;
        (if \<not> ok then do { UninstallProtocols H; State_Monad.return EFI_OUT_OF_RESOURCES }
         else State_Monad.return EFI_SUCCESS)
      })
   }"

text \<open>
  The request for the whole store. Without a request of the caller's own the page asks for its store with a
  string it builds itself; the buffer for it is one character short, so the last digit of the width
  is cut off and the request names one byte of the 29, whatever the header.
\<close>

theorem full_request_truncated:
  assumes "HiiConstructConfigHdr H = Some Hdr" "AllocateRequest H" "run_state (PageData S G) s = (Data, s')"
    and "BlockToConfig H (Hdr @ ''&OFFSET=0&WIDTH=000000000000001'') Data = (st, res, p)"
  shows "run_state (BlExtractConfig S H G True True None) s = ((st, ProgressNull, Some res), s')"
proof -
  have "fmt_016X BLCFG_DATA_SIZE = ''000000000000001D''"
    by code_simp
  then have "FullRequest Hdr = Hdr @ ''&OFFSET=0&WIDTH=000000000000001''"
    by (simp add: FullRequest_def)
  then show ?thesis using assms by (simp add: BlExtractConfig_def)
qed

theorem full_request_truncated_witness:
  "run_state (BlExtractConfig (ram_svc None)
       \<lparr>HiiIsConfigHdrMatch = (\<lambda>r g n. True), HiiConstructConfigHdr = Some ''GUID=1&NAME=2&PATH=3'', AllocateRequest = True,
        BlockToConfig = (\<lambda>r d. (EFI_SUCCESS, r, length r)), ConfigToBlock = (\<lambda>c d. (EFI_SUCCESS, d, 0)),
        InstallProtocols = State_Monad.return EFI_SUCCESS, UninstallProtocols = State_Monad.return EFI_SUCCESS,
        HiiAddPackages = State_Monad.return True\<rparr> ram_globals True True None) (ram_hw, ram_start) =
     ((EFI_SUCCESS, ProgressNull, Some ''GUID=1&NAME=2&PATH=3&OFFSET=0&WIDTH=000000000000001''), (ram_hw, ram_start))"
proof (rule full_request_truncated [where Hdr = "''GUID=1&NAME=2&PATH=3''" and p = 51])
  show "run_state (PageData (ram_svc None) ram_globals) (ram_hw, ram_start) =
      (data_bytes (BlValuesToData SetDefaults), (ram_hw, ram_start))"
    by (simp add: PageData_def ram_svc_def ram_start_def ram_globals_def EFI_ERROR_def)
qed simp_all

text \<open>
  Routing a configuration writes the page's variable only, with the block the HII database made of
  it, or nothing when the conversion fails.
\<close>

lemma route_writes_block:
  assumes "svc_ok S V" and "run_state (BlRouteConfig S H G HasProgress c) s = ((st, p), s')"
  shows "Files V s' = Files V s \<and>
    (Vars V s' = Vars V s \<or> \<not> EFI_ERROR st \<and> (\<exists>x. Vars V s' =
       put_at (Vars V s) (RPI_BLCFG_VARIABLE_NAME, RPI_BLCFG_FORMSET_GUID) x))"
proof -
  have "runs (BlRouteConfig S H G HasProgress c) s (\<lambda>r s'. Files V s' = Files V s \<and>
    (Vars V s' = Vars V s \<or> \<not> EFI_ERROR (fst r) \<and> (\<exists>x. Vars V s' =
       put_at (Vars V s) (RPI_BLCFG_VARIABLE_NAME, RPI_BLCFG_FORMSET_GUID) x)))"
    unfolding BlRouteConfig_def PageData_def
    by (intro runs_bind runs_if runs_option runs_prod runs_return runs_GetVariable [OF assms(1)]
        runs_SetVariable [OF assms(1)]) (auto simp: disk_iff)
  then show ?thesis using assms(2) by (auto dest: runsD)
qed

end
