(* ===== verification/Boot_Config.thy ===== *)
theory Boot_Config
  imports Boot_Page
begin

section \<open>The driver's entry and the BMC mirror (BootloaderConfigDxe.c)\<close>

text \<open>
  \<^verbatim>\<open>LoadBlconfig\<close> caches the configuration text and its timestamp from the device tree at entry,
  \<^verbatim>\<open>SyncSetupVariable\<close> seeds the setup page's variable, and at ReadyToBoot the text is published for
  the BMC behind a timestamp gate. The device tree is \<open>Dtb\<close> (\<open>None\<close> for a null base address), the memory
  of the carve-out is \<open>Region\<close>, and \<open>Alloc\<close> tells whether the pool can supply a buffer.
\<close>

definition BLCONFIG_VAR_MAX_LEN :: nat where "BLCONFIG_VAR_MAX_LEN = 8 * 1024"
definition BLCONFIG_REGION_MAX :: nat where "BLCONFIG_REGION_MAX = 64 * 1024"
definition BL_VAR_ATTRIBUTES :: u32 where
  "BL_VAR_ATTRIBUTES = EFI_VARIABLE_NON_VOLATILE OR EFI_VARIABLE_BOOTSERVICE_ACCESS OR EFI_VARIABLE_RUNTIME_ACCESS"

definition BMC_VENDOR_GUID :: string where "BMC_VENDOR_GUID = ''gRpiBmcBootloaderVendorGuid''"
definition BMC_VAR_BOOTLOADER_CONFIG :: string where "BMC_VAR_BOOTLOADER_CONFIG = ''BootloaderConfig''"
definition BMC_VAR_BOOTLOADER_TIMESTAMP :: string where
  "BMC_VAR_BOOTLOADER_TIMESTAMP = ''BootloaderUpdateTimestamp''"

definition bl_reset :: "blcfg_values \<Rightarrow> bl_globals" where
  "bl_reset v = \<lparr>mFdt = None, mBlconfigRaw = None, mBlconfigTextLen = 0, mCurrentValues = v,
     mDtbUpdateTimestamp = 0, mDtbHasTimestamp = False, mPublished = False\<rparr>"

definition FindBlconfigNode :: "fdt_lib \<Rightarrow> int" where
  "FindBlconfigNode Fdt =
     (let Node = FdtNodeOffsetByCompatible Fdt ''raspberrypi,bootloader-config'' in
      if Node \<ge> 0 then Node else FdtPathOffset Fdt ''blconfig'')"

text \<open>The text ends at the first NUL or erased byte.\<close>

fun TextEnd :: "u8 list \<Rightarrow> nat \<Rightarrow> nat" where
  "TextEnd [] Index = Index"
| "TextEnd (b # bs) Index = (if b = 0 \<or> b = 0xFF then Index else TextEnd bs (Index + 1))"

definition read_timestamp :: "fdt_lib \<Rightarrow> bl_globals \<Rightarrow> bl_globals" where
  "read_timestamp Fdt G =
     (let Node = FdtPathOffset Fdt ''/chosen/bootloader'' in
      if Node \<ge> 0
      then (case FdtGetProp Fdt Node ''update-timestamp'' of
              None \<Rightarrow> G
            | Some Prop \<Rightarrow> if length Prop = 4
                           then G\<lparr>mDtbUpdateTimestamp := fdt_cell Prop 0, mDtbHasTimestamp := True\<rparr> else G)
      else G)"

definition copy_region :: "(nat \<Rightarrow> bool) \<Rightarrow> (u64 \<Rightarrow> u8) \<Rightarrow> u64 \<Rightarrow> u64 \<Rightarrow> bl_globals \<Rightarrow> bl_globals" where
  "copy_region Alloc Region RegionAddress RegionSize G =
     (if RegionAddress = 0 \<or> RegionSize = 0 \<or> unat RegionSize \<ge> BLCONFIG_REGION_MAX then G
      else
       (let DataLen = min (unat RegionSize) BLCONFIG_VAR_MAX_LEN in
        if \<not> Alloc DataLen then G
        else
         (let Raw = map (\<lambda>Index. Region (RegionAddress + of_nat Index)) [0..<DataLen] in
          G\<lparr>mBlconfigRaw := Some Raw, mBlconfigTextLen := TextEnd Raw 0\<rparr>)))"

text \<open>\<open>None\<close>: the walk up the device tree does not return.\<close>

definition LoadBlconfig :: "(nat \<Rightarrow> bool) \<Rightarrow> (u64 \<Rightarrow> u8) \<Rightarrow> fdt_lib option \<Rightarrow> bl_globals \<Rightarrow> bl_globals option" where
  "LoadBlconfig Alloc Region Dtb G =
     (case Dtb of
        None \<Rightarrow> Some (G\<lparr>mFdt := None\<rparr>)
      | Some Fdt \<Rightarrow>
          if FdtCheckHeader Fdt \<noteq> 0 then Some (G\<lparr>mFdt := None\<rparr>)
          else
           (let G = read_timestamp Fdt (G\<lparr>mFdt := Some Fdt\<rparr>); Node = FindBlconfigNode Fdt in
            if Node < 0 then Some G
            else (case BlGetTranslatedRegAddress Fdt Node of
                    None \<Rightarrow> None
                  | Some None \<Rightarrow> Some G
                  | Some (Some (RegionAddress, RegionSize)) \<Rightarrow>
                      Some (copy_region Alloc Region RegionAddress RegionSize G))))"

definition SyncSetupVariable :: "('s, 'h) boot_svc \<Rightarrow> bl_globals \<Rightarrow> ('s, unit) state" where
  "SyncSetupVariable S G = do {
     let Data = data_bytes (BlValuesToData (mCurrentValues G));
     (Status, Existing) \<leftarrow> GetVariable S RPI_BLCFG_VARIABLE_NAME RPI_BLCFG_FORMSET_GUID BLCFG_DATA_SIZE;
     (if \<not> EFI_ERROR Status \<and> length Existing = BLCFG_DATA_SIZE \<and> Existing = Data then State_Monad.return ()
      else do {
        SetVariable S RPI_BLCFG_VARIABLE_NAME RPI_BLCFG_FORMSET_GUID BL_VAR_ATTRIBUTES Data;
        State_Monad.return ()
      })
   }"

definition le32_bytes :: "u32 \<Rightarrow> u8 list" where
  "le32_bytes w = [ucast w, ucast (drop_bit 8 w), ucast (drop_bit 16 w), ucast (drop_bit 24 w)]"

definition u32_of :: "u8 list \<Rightarrow> u32" where
  "u32_of bs = Le32 (\<lambda>i. bs ! i) 0"

text \<open>The publication behind the gate.\<close>

definition BlPublish :: "('s, 'h) boot_svc \<Rightarrow> bl_globals \<Rightarrow> ('s, unit) state" where
  "BlPublish S G =
     (if \<not> mDtbHasTimestamp G then State_Monad.return ()
      else do {
        (Status, Stored) \<leftarrow> GetVariable S BMC_VAR_BOOTLOADER_TIMESTAMP BMC_VENDOR_GUID 4;
        (if \<not> EFI_ERROR Status \<and> length Stored = 4 \<and> u32_of Stored \<ge> mDtbUpdateTimestamp G
         then State_Monad.return ()
         else (case mBlconfigRaw G of
             None \<Rightarrow> State_Monad.return ()
           | Some Raw \<Rightarrow> do {
               Status \<leftarrow> SetVariable S BMC_VAR_BOOTLOADER_CONFIG BMC_VENDOR_GUID BL_VAR_ATTRIBUTES Raw;
               (if EFI_ERROR Status then State_Monad.return ()
                else do {
                  SetVariable S BMC_VAR_BOOTLOADER_TIMESTAMP BMC_VENDOR_GUID BL_VAR_ATTRIBUTES
                    (le32_bytes (mDtbUpdateTimestamp G));
                  State_Monad.return ()
                })
             }))
      })"

definition BootloaderConfigOnReadyToBoot ::
  "('s, 'h) boot_svc \<Rightarrow> ('s, efi_status) state \<Rightarrow> bl_globals \<Rightarrow> ('s, bl_globals) state" where
  "BootloaderConfigOnReadyToBoot S CloseEvent G =
     (if mPublished G then State_Monad.return G
      else do {
        let G = G\<lparr>mPublished := True\<rparr>;
        CloseEvent;
        BlStagedMarkerCleanup S G;
        BlPublish S G;
        State_Monad.return G
      })"

text \<open>The entry point: everything after \<^verbatim>\<open>LoadBlconfig\<close>, whose result is \<open>G\<close>.\<close>

definition BootloaderConfigEntryPoint ::
  "('s, 'h) boot_svc \<Rightarrow> 's hii_svc \<Rightarrow> ('s, efi_status) state \<Rightarrow> bl_globals \<Rightarrow> ('s, efi_status \<times> bl_globals) state" where
  "BootloaderConfigEntryPoint S H CreateReadyToBoot G = do {
     let G = G\<lparr>mCurrentValues := BlValuesFromText (blconfig_text G)\<rparr>;
     SyncSetupVariable S G;
     BlInstallHiiPage H;
     Status \<leftarrow> CreateReadyToBoot;
     State_Monad.return (Status, G)
   }"

subsection \<open>Loading\<close>

lemma TextEnd_takeWhile: "TextEnd bs k = k + length (takeWhile (\<lambda>b. b \<noteq> 0 \<and> b \<noteq> 0xFF) bs)"
  by (induction bs arbitrary: k) auto

lemma take_TextEnd: "take (TextEnd bs 0) bs = takeWhile (\<lambda>b. b \<noteq> 0 \<and> b \<noteq> 0xFF) bs"
  by (simp only: TextEnd_takeWhile add_0 takeWhile_eq_take [symmetric])

lemma copy_region_cases:
  "copy_region Alloc Region a n G = G \<or>
   (\<exists>Raw. copy_region Alloc Region a n G = G\<lparr>mBlconfigRaw := Some Raw, mBlconfigTextLen := TextEnd Raw 0\<rparr> \<and>
     0 < unat n \<and> unat n < BLCONFIG_REGION_MAX \<and>
     Raw = map (\<lambda>i. Region (a + of_nat i)) [0..<min (unat n) BLCONFIG_VAR_MAX_LEN])"
proof (cases "copy_region Alloc Region a n G = G")
  case False
  then have "a \<noteq> 0" "n \<noteq> 0" "unat n < BLCONFIG_REGION_MAX" "Alloc (min (unat n) BLCONFIG_VAR_MAX_LEN)"
    by (auto simp: copy_region_def Let_def split: if_splits)
  then show ?thesis by (auto simp: copy_region_def Let_def unat_gt_0)
qed simp

lemma read_timestamp_raw:
  "mBlconfigRaw (read_timestamp F G) = mBlconfigRaw G" "mBlconfigTextLen (read_timestamp F G) = mBlconfigTextLen G"
  by (auto simp: read_timestamp_def Let_def split: option.split)

text \<open>
  What the driver caches at entry. Loading returns on every tree whose parents lead to the root; when a text
  is cached it is the start of the translated region, at least one and at most 8 KiB of a region
  below 64 KiB, and the text every consumer sees is its longest prefix without NUL and erased
  bytes.
\<close>

theorem load_blconfig_text:
  assumes "parents_descend Fdt"
  shows "\<exists>G. LoadBlconfig Alloc Region (Some Fdt) (bl_reset v) = Some G \<and>
    (case mBlconfigRaw G of
       None \<Rightarrow> blconfig_text G = []
     | Some Raw \<Rightarrow> 0 < length Raw \<and> length Raw \<le> 8192 \<and>
         blconfig_text G = takeWhile (\<lambda>b. b \<noteq> 0 \<and> b \<noteq> 0xFF) Raw \<and>
         (\<exists>a n. BlGetTranslatedRegAddress Fdt (FindBlconfigNode Fdt) = Some (Some (a, n)) \<and> unat n < 65536 \<and>
            length Raw = min (unat n) 8192 \<and> (\<forall>i<length Raw. Raw ! i = Region (a + of_nat i))))"
proof -
  obtain r where r: "BlGetTranslatedRegAddress Fdt (FindBlconfigNode Fdt) = Some r"
    using BlGetTranslatedRegAddress_returns [OF assms] by blast
  let ?G = "read_timestamp Fdt ((bl_reset v)\<lparr>mFdt := Some Fdt\<rparr>)"
  have none: "mBlconfigRaw ?G = None" by (simp add: read_timestamp_raw bl_reset_def)
  show ?thesis
  proof (cases "FdtCheckHeader Fdt = 0 \<and> FindBlconfigNode Fdt \<ge> 0 \<and> r \<noteq> None")
    case False
    then show ?thesis
      using r none by (auto simp: LoadBlconfig_def Let_def blconfig_text_def bl_reset_def split: option.split)
  next
    case True
    then obtain a n where an: "r = Some (a, n)" by auto
    have L: "LoadBlconfig Alloc Region (Some Fdt) (bl_reset v) = Some (copy_region Alloc Region a n ?G)"
      using True r an by (simp add: LoadBlconfig_def Let_def)
    from copy_region_cases [of Alloc Region a n ?G] show ?thesis
    proof (elim disjE exE conjE)
      assume "copy_region Alloc Region a n ?G = ?G"
      then show ?thesis using L none by (simp add: blconfig_text_def)
    next
      fix Raw
      assume c: "copy_region Alloc Region a n ?G = ?G\<lparr>mBlconfigRaw := Some Raw, mBlconfigTextLen := TextEnd Raw 0\<rparr>"
        "0 < unat n" "unat n < BLCONFIG_REGION_MAX"
        "Raw = map (\<lambda>i. Region (a + of_nat i)) [0..<min (unat n) BLCONFIG_VAR_MAX_LEN]"
      then have "length Raw = min (unat n) 8192" by (simp add: BLCONFIG_VAR_MAX_LEN_def)
      then show ?thesis
        using L c r an by (auto simp: blconfig_text_def take_TextEnd BLCONFIG_REGION_MAX_def)
    qed
  qed
qed

subsection \<open>The BMC mirror\<close>

lemma u32_of_le32: "u32_of (le32_bytes w) = w"
  using bytes_of_word32 [of w] by (simp add: u32_of_def le32_bytes_def Le32_def numeral_2_eq_2 numeral_3_eq_3 ac_simps)

abbreviation stored_stamp :: "('s, 'h) boot_view \<Rightarrow> 's \<Rightarrow> (u32 \<times> u8 list) option" where
  "stored_stamp V s \<equiv> Vars V s BMC_VAR_BOOTLOADER_TIMESTAMP BMC_VENDOR_GUID"

abbreviation stored_config :: "('s, 'h) boot_view \<Rightarrow> 's \<Rightarrow> (u32 \<times> u8 list) option" where
  "stored_config V s \<equiv> Vars V s BMC_VAR_BOOTLOADER_CONFIG BMC_VENDOR_GUID"

lemma bmc_names:
  "BMC_VAR_BOOTLOADER_TIMESTAMP \<noteq> BMC_VAR_BOOTLOADER_CONFIG" "BMC_VAR_BOOTLOADER_CONFIG \<noteq> BMC_VAR_BOOTLOADER_TIMESTAMP"
  "BMC_VENDOR_GUID \<noteq> RPI_BLCFG_FORMSET_GUID"
  by (simp_all add: BMC_VAR_BOOTLOADER_TIMESTAMP_def BMC_VAR_BOOTLOADER_CONFIG_def BMC_VENDOR_GUID_def
      RPI_BLCFG_FORMSET_GUID_def)

text \<open>The clean-up of the staging half leaves the two variables alone.\<close>

definition bmc_vars :: "('s, 'h) boot_view \<Rightarrow> 's \<Rightarrow> (u32 \<times> u8 list) option \<times> (u32 \<times> u8 list) option" where
  "bmc_vars V s = (stored_stamp V s, stored_config V s)"

lemma disk_bmc: "preserves (disk V) m \<Longrightarrow> preserves (bmc_vars V) m"
  by (auto simp: preserves_def disk_iff bmc_vars_def)

lemma cleanup_bmc:
  assumes ok: "svc_ok S V"
  shows "preserves (bmc_vars V) (BlStagedMarkerCleanup S G)"
proof -
  have del: "runs (DeleteFileIfPresent S d n) s (\<lambda>_ s'. bmc_vars V s' = bmc_vars V s)" for d n s
    by (rule runs_DeleteFileIfPresent [OF ok]) (simp add: bmc_vars_def)
  have "runs (BlStagedMarkerCleanup S G) s (\<lambda>_ s'. bmc_vars V s' = bmc_vars V s)" for s
    unfolding BlStagedMarkerCleanup_def
    by (intro runs_rules runs_GetVariable [OF ok] runs_OpenBootVolume [OF ok refl] runs_DeleteFileIfPresent [OF ok]
        runs_SetVariable [OF ok] runs_preserves [OF svc_quiet(5) [OF ok]])
      (auto simp: bmc_vars_def disk_iff put_at_def bmc_names)
  then show ?thesis unfolding preserves_def runs_def by (metis (mono_tags, lifting) case_prod_unfold)
qed

text \<open>One publication, by the cases of the gate.\<close>

definition gate_closed :: "('s, 'h) boot_view \<Rightarrow> 's \<Rightarrow> u32 \<Rightarrow> bool" where
  "gate_closed V s ts = (\<exists>a bs. stored_stamp V s = Some (a, bs) \<and> length bs = 4 \<and> u32_of bs \<ge> ts)"

definition published :: "('s, 'h) boot_view \<Rightarrow> 's \<Rightarrow> u32 \<Rightarrow> u8 list \<Rightarrow> bool" where
  "published V s ts Raw = (stored_stamp V s = Some (BL_VAR_ATTRIBUTES, le32_bytes ts) \<and>
     stored_config V s = Some (BL_VAR_ATTRIBUTES, Raw))"

definition sets_work :: "('s, 'h) boot_svc \<Rightarrow> bool" where
  "sets_work S = (\<forall>n g a bs s st s'. run_state (SetVariable S n g a bs) s = (st, s') \<longrightarrow> \<not> EFI_ERROR st)"

lemma runs_known_set:
  assumes "svc_ok S V" "sets_work S"
    and "\<And>s'. Vars V s' = put_at (Vars V s) (n, g) (if a = 0 \<or> bs = [] then None else Some (a, bs)) \<Longrightarrow> Q EFI_SUCCESS s'"
  shows "runs (SetVariable S n g a bs) s Q"
proof (rule runsI)
  fix st s' assume r: "run_state (SetVariable S n g a bs) s = (st, s')"
  have "st = EFI_SUCCESS" using assms(2) r unfolding sets_work_def EFI_ERROR_def by blast
  with r show "Q st s'"
    using runsD [OF runs_SetVariable [OF assms(1), where Q = "\<lambda>st s'. Vars V s' = (if EFI_ERROR st then Vars V s
      else put_at (Vars V s) (n, g) (if a = 0 \<or> bs = [] then None else Some (a, bs)))"] r] assms(3)
    by (simp add: EFI_ERROR_def)
qed

lemma bl_attrs: "BL_VAR_ATTRIBUTES \<noteq> 0" "le32_bytes w \<noteq> []"
  by (simp_all add: BL_VAR_ATTRIBUTES_def EFI_VARIABLE_NON_VOLATILE_def EFI_VARIABLE_BOOTSERVICE_ACCESS_def
      EFI_VARIABLE_RUNTIME_ACCESS_def le32_bytes_def)

lemma runs_BlPublish:
  assumes ok: "svc_ok S V" and raw: "\<forall>Raw. mBlconfigRaw G = Some Raw \<longrightarrow> Raw \<noteq> []"
  shows "runs (BlPublish S G) s (\<lambda>_ s'.
    bmc_vars V s' = bmc_vars V s \<or>
    mDtbHasTimestamp G \<and> \<not> gate_closed V s (mDtbUpdateTimestamp G) \<and>
    (\<exists>Raw. mBlconfigRaw G = Some Raw \<and>
      (published V s' (mDtbUpdateTimestamp G) Raw \<or>
       stored_stamp V s' = stored_stamp V s \<and> stored_config V s' = Some (BL_VAR_ATTRIBUTES, Raw))))"
  unfolding BlPublish_def
  apply (intro runs_rules runs_GetVariable [OF ok] runs_SetVariable [OF ok])
  apply (auto simp: bmc_vars_def disk_iff put_at_def bmc_names bl_attrs raw published_def gate_closed_def EFI_ERROR_def)
  done

text \<open>
  The machine over many boots: the flashed configuration and its timestamp, and the state of the
  services. A boot may fail to load the text; flashing raises the timestamp; anything else that
  happens leaves the two variables alone.
\<close>

inductive mirror_reach :: "('s, 'h) boot_svc \<Rightarrow> ('s, 'h) boot_view \<Rightarrow> ('s, efi_status) state \<Rightarrow>
  u32 \<Rightarrow> u8 list \<Rightarrow> 's \<Rightarrow> bool" for S V CloseEvent where
  fresh: "stored_stamp V s = None \<Longrightarrow> raw \<noteq> [] \<Longrightarrow> mirror_reach S V CloseEvent ts raw s"
| boot: "mirror_reach S V CloseEvent ts raw s \<Longrightarrow> mDtbUpdateTimestamp G = ts \<Longrightarrow>
    mBlconfigRaw G = None \<or> mBlconfigRaw G = Some raw \<Longrightarrow>
    run_state (BootloaderConfigOnReadyToBoot S CloseEvent G) s = (G', s') \<Longrightarrow> mirror_reach S V CloseEvent ts raw s'"
| flash: "mirror_reach S V CloseEvent ts raw s \<Longrightarrow> ts < ts' \<Longrightarrow> raw' \<noteq> [] \<Longrightarrow> mirror_reach S V CloseEvent ts' raw' s"
| other: "mirror_reach S V CloseEvent ts raw s \<Longrightarrow> bmc_vars V s' = bmc_vars V s \<Longrightarrow> mirror_reach S V CloseEvent ts raw s'"

definition mirror_inv :: "('s, 'h) boot_view \<Rightarrow> u32 \<Rightarrow> u8 list \<Rightarrow> 's \<Rightarrow> bool" where
  "mirror_inv V ts raw s \<longleftrightarrow> raw \<noteq> [] \<and>
     (\<forall>a bs. stored_stamp V s = Some (a, bs) \<longrightarrow> length bs = 4 \<and> u32_of bs \<le> ts \<and>
        (u32_of bs = ts \<longrightarrow> stored_config V s = Some (BL_VAR_ATTRIBUTES, raw)))"

lemma runs_ReadyToBoot:
  assumes ok: "svc_ok S V" and close: "preserves (disk V) CloseEvent"
    and raw: "\<forall>Raw. mBlconfigRaw G = Some Raw \<longrightarrow> Raw \<noteq> []"
  shows "runs (BootloaderConfigOnReadyToBoot S CloseEvent G) s (\<lambda>G' s'.
    G' = G\<lparr>mPublished := True\<rparr> \<and>
    (bmc_vars V s' = bmc_vars V s \<or>
     mDtbHasTimestamp G \<and> \<not> gate_closed V s (mDtbUpdateTimestamp G) \<and>
     (\<exists>Raw. mBlconfigRaw G = Some Raw \<and>
       (published V s' (mDtbUpdateTimestamp G) Raw \<or>
        stored_stamp V s' = stored_stamp V s \<and> stored_config V s' = Some (BL_VAR_ATTRIBUTES, Raw)))))"
proof -
  have raw': "\<forall>Raw. mBlconfigRaw (G\<lparr>mPublished := True\<rparr>) = Some Raw \<longrightarrow> Raw \<noteq> []" using raw by simp
  show ?thesis
    unfolding BootloaderConfigOnReadyToBoot_def
    by (intro runs_rules runs_preserves [OF disk_bmc [OF close]] runs_preserves [OF cleanup_bmc [OF ok]]
        runs_mono [OF runs_BlPublish [OF ok raw']])
      (auto simp: bmc_vars_def gate_closed_def)
qed

lemma mirror_step:
  assumes ok: "svc_ok S V" and close: "preserves (disk V) CloseEvent" and inv: "mirror_inv V ts raw s"
    and G: "mDtbUpdateTimestamp G = ts" "mBlconfigRaw G = None \<or> mBlconfigRaw G = Some raw"
    and run: "run_state (BootloaderConfigOnReadyToBoot S CloseEvent G) s = (G', s')"
  shows "mirror_inv V ts raw s'"
proof -
  have ne: "\<forall>Raw. mBlconfigRaw G = Some Raw \<longrightarrow> Raw \<noteq> []" using inv G(2) by (auto simp: mirror_inv_def)
  note r = runs_ReadyToBoot [OF ok close ne, THEN runsD, OF run, THEN conjunct2, unfolded G(1)]
  from r consider "bmc_vars V s' = bmc_vars V s" | "published V s' ts raw"
    | "\<not> gate_closed V s ts" "stored_stamp V s' = stored_stamp V s"
    using G(2) by fastforce
  then show ?thesis
  proof cases
    case 1
    then show ?thesis using inv by (simp add: mirror_inv_def bmc_vars_def)
  next
    case 2
    then show ?thesis using inv u32_of_le32 [of ts] by (auto simp: mirror_inv_def published_def le32_bytes_def)
  next
    case 3
    then show ?thesis using inv by (auto simp: mirror_inv_def gate_closed_def)
  qed
qed

text \<open>
  C12: The mirror never lies. In every state reachable by boots, failed or successful variable writes, EEPROM
  updates with a later timestamp and anything else that leaves the two variables alone: the
  published timestamp never exceeds that of the flashed configuration, and when they are equal
  the published configuration is the flashed one, byte for byte.
\<close>

theorem mirror_consistent:
  assumes "svc_ok S V" "preserves (disk V) CloseEvent" "mirror_reach S V CloseEvent ts raw s"
    and "stored_stamp V s = Some (a, bs)"
  shows "length bs = 4 \<and> u32_of bs \<le> ts \<and> (u32_of bs = ts \<longrightarrow> stored_config V s = Some (BL_VAR_ATTRIBUTES, raw))"
proof -
  from assms(3) have "mirror_inv V ts raw s"
  proof (induction rule: mirror_reach.induct)
    case (boot ts raw s G G' s')
    from boot.hyps(2-4) show ?case by (rule mirror_step [OF assms(1,2) boot.IH])
  next
    case (flash ts raw s ts' raw')
    have "u32_of bs < ts'" if "stored_stamp V s = Some (a, bs)" for a bs
      using flash that by (auto simp: mirror_inv_def)
    then show ?case using flash by (fastforce simp: mirror_inv_def)
  qed (simp_all add: mirror_inv_def bmc_vars_def)
  then show ?thesis using assms(4) by (simp add: mirror_inv_def)
qed

text \<open>
  C28: One boot is enough. When variable writes work and a new configuration has been flashed, the next
  ReadyToBoot publishes it with its timestamp; every later boot finds the gate closed and leaves
  the two variables as they are, and so does a second signal of the same boot.
\<close>

theorem mirror_one_boot:
  assumes "svc_ok S V" "preserves (disk V) CloseEvent" "sets_work S"
    and "mBlconfigRaw G = Some raw" "raw \<noteq> []" "mDtbHasTimestamp G" "\<not> mPublished G"
    and "\<not> gate_closed V s (mDtbUpdateTimestamp G)"
    and "run_state (BootloaderConfigOnReadyToBoot S CloseEvent G) s = (G1, s1)"
    and "mDtbUpdateTimestamp G2 = mDtbUpdateTimestamp G" "mBlconfigRaw G2 = Some raw"
    and "run_state (BootloaderConfigOnReadyToBoot S CloseEvent G2) s1 = (G3, s2)"
  shows "published V s1 (mDtbUpdateTimestamp G) raw \<and> bmc_vars V s2 = bmc_vars V s1 \<and>
    run_state (BootloaderConfigOnReadyToBoot S CloseEvent G1) s1 = (G1, s1)"
proof -
  let ?G = "G\<lparr>mPublished := True\<rparr>" and ?ts = "mDtbUpdateTimestamp G"
  have pub: "runs (BlPublish S ?G) t (\<lambda>_ t'. published V t' ?ts raw)" if "bmc_vars V t = bmc_vars V s" for t
  proof -
    have "\<forall>a d. stored_stamp V t = Some (a, d) \<longrightarrow> length d = 4 \<longrightarrow> \<not> ?ts \<le> u32_of d"
      using assms(8) that by (auto simp: gate_closed_def bmc_vars_def)
    then show ?thesis
      unfolding BlPublish_def
      by (intro runs_rules runs_GetVariable [OF assms(1)] runs_known_set [OF assms(1,3)])
        (use assms(4-7) in \<open>auto simp: published_def disk_iff put_at_def bmc_names bl_attrs EFI_ERROR_def\<close>)
  qed
  have "runs (BootloaderConfigOnReadyToBoot S CloseEvent G) s (\<lambda>G' s'. G' = ?G \<and> published V s' ?ts raw)"
    unfolding BootloaderConfigOnReadyToBoot_def
    by (intro runs_rules runs_preserves [OF disk_bmc [OF assms(2)]] runs_preserves [OF cleanup_bmc [OF assms(1)]]
        runs_mono [OF pub]) (use assms(7) in \<open>simp_all add: runs_return\<close>)
  then have p: "G1 = ?G" "published V s1 ?ts raw" using assms(9) by (auto dest: runsD)
  then have "gate_closed V s1 ?ts"
    using u32_of_le32 [of ?ts] by (auto simp: gate_closed_def published_def le32_bytes_def)
  moreover have "\<forall>Raw. mBlconfigRaw G2 = Some Raw \<longrightarrow> Raw \<noteq> []" using assms(5,11) by simp
  note runs_ReadyToBoot [OF assms(1,2) this, THEN runsD, OF assms(12)]
  ultimately show ?thesis using p assms(10) by (auto simp: BootloaderConfigOnReadyToBoot_def)
qed

text \<open>The setup page opens on the running configuration.\<close>

definition hii_quiet :: "('s \<Rightarrow> 'v) \<Rightarrow> 's hii_svc \<Rightarrow> bool" where
  "hii_quiet f H = (preserves f (InstallProtocols H) \<and> preserves f (UninstallProtocols H) \<and> preserves f (HiiAddPackages H))"

lemma install_quiet: "hii_quiet f H \<Longrightarrow> preserves f (BlInstallHiiPage H)"
  by (auto simp: BlInstallHiiPage_def hii_quiet_def intro!: preserves_intro)

text \<open>
  The setup page mirrors the bootloader. After the entry point, the cached values are those of the loaded
  text and, if variable writes work, the page's variable decodes to exactly them whatever it held
  before; staging an unedited form is then refused because nothing differs.
\<close>

theorem page_shows_running:
  assumes "svc_ok S V" "sets_work S" "hii_quiet (disk V) H" "preserves (disk V) Create"
    and "run_state (BootloaderConfigEntryPoint S H Create G) s = ((st, G'), s')"
  shows "mCurrentValues G' = BlValuesFromText (blconfig_text G) \<and>
    (\<exists>a bs. Vars V s' RPI_BLCFG_VARIABLE_NAME RPI_BLCFG_FORMSET_GUID = Some (a, bs) \<and>
       BlValuesFromData (data_of bs) = Some (mCurrentValues G'))"
proof -
  let ?v = "BlValuesFromText (blconfig_text G)"
  have valid: "valid_values ?v" by (rule text_values_valid)
  note d = data_of_bytes [OF to_data_12 [OF valid]] data_round_trip [OF valid]
  have "runs (BootloaderConfigEntryPoint S H Create G) s (\<lambda>(st, G') s'. mCurrentValues G' = ?v \<and>
    (\<exists>a bs. Vars V s' RPI_BLCFG_VARIABLE_NAME RPI_BLCFG_FORMSET_GUID = Some (a, bs) \<and>
       BlValuesFromData (data_of bs) = Some (mCurrentValues G')))"
    unfolding BootloaderConfigEntryPoint_def SyncSetupVariable_def
    by (intro runs_rules runs_GetVariable [OF assms(1)] runs_known_set [OF assms(1,2)]
        runs_preserves [OF install_quiet [OF assms(3)]] runs_preserves [OF assms(4)])
      (auto simp: disk_iff d bl_attrs data_bytes_nonempty)
  then show ?thesis using assms(5) by (auto dest: runsD)
qed

subsection \<open>On concrete services\<close>

definition load_fdt :: fdt_lib where
  "load_fdt = ram_fdt\<lparr>FdtNodeOffsetByCompatible := (\<lambda>c. if c = ''raspberrypi,bootloader-config'' then 300 else -1)\<rparr>"

theorem load_blconfig_text_witness:
  "\<exists>G. LoadBlconfig (\<lambda>n. True) (\<lambda>a. ucast a) (Some load_fdt) (bl_reset SetDefaults) = Some G \<and>
    (case mBlconfigRaw G of
       None \<Rightarrow> blconfig_text G = []
     | Some Raw \<Rightarrow> 0 < length Raw \<and> length Raw \<le> 8192 \<and>
         blconfig_text G = takeWhile (\<lambda>b. b \<noteq> 0 \<and> b \<noteq> 0xFF) Raw \<and>
         (\<exists>a n. BlGetTranslatedRegAddress load_fdt (FindBlconfigNode load_fdt) = Some (Some (a, n)) \<and> unat n < 65536 \<and>
            length Raw = min (unat n) 8192 \<and> (\<forall>i<length Raw. Raw ! i = ucast (a + of_nat i))))"
  by (rule load_blconfig_text) (simp add: parents_descend_def load_fdt_def ram_fdt_def)

definition ram_boot_globals :: bl_globals where
  "ram_boot_globals = ram_globals\<lparr>mBlconfigRaw := Some [65]\<rparr>"

definition ram_published :: "spi_hw \<times> ram_disk" where
  "ram_published = (ram_hw, ram_start\<lparr>rvars :=
     put_at (put_at (\<lambda>n g. None) (BMC_VAR_BOOTLOADER_CONFIG, BMC_VENDOR_GUID) (Some (BL_VAR_ATTRIBUTES, [65])))
       (BMC_VAR_BOOTLOADER_TIMESTAMP, BMC_VENDOR_GUID) (Some (BL_VAR_ATTRIBUTES, le32_bytes 6))\<rparr>)"

lemma ram_vars:
  "run_state (GetVariable (ram_svc form) n g k) s =
     ((case rvars (snd s) n g of
         None \<Rightarrow> (EFI_NOT_FOUND, [])
       | Some (a, d) \<Rightarrow> if length d \<le> k then (EFI_SUCCESS, d) else (EFI_BUFFER_TOO_SMALL, [])), s)"
  "run_state (SetVariable (ram_svc form) n g a bs) s = (EFI_SUCCESS,
     (fst s, (snd s)\<lparr>rvars := put_at (rvars (snd s)) (n, g) (if a = 0 \<or> bs = [] then None else Some (a, bs))\<rparr>))"
  by (simp_all add: ram_svc_def)

lemma ram_sets: "sets_work (ram_svc form)"
  by (simp add: sets_work_def ram_vars EFI_ERROR_def)

lemma ram_ready:
  "run_state (BootloaderConfigOnReadyToBoot (ram_svc None) (State_Monad.return EFI_SUCCESS) ram_boot_globals) (ram_hw, ram_start) =
     (ram_boot_globals\<lparr>mPublished := True\<rparr>, ram_published)"
  by (simp add: BootloaderConfigOnReadyToBoot_def BlStagedMarkerCleanup_def BlPublish_def ram_vars ram_boot_globals_def
      ram_globals_def ram_start_def EFI_ERROR_def ram_published_def bl_attrs Let_def)

theorem mirror_consistent_witness:
  "stored_config ram_view ram_published = Some (BL_VAR_ATTRIBUTES, [65])"
proof -
  have r0: "mirror_reach (ram_svc None) ram_view (State_Monad.return EFI_SUCCESS) 6 [65] (ram_hw, ram_start)"
    by (rule mirror_reach.fresh) (simp_all add: ram_view_def ram_start_def)
  have r: "mirror_reach (ram_svc None) ram_view (State_Monad.return EFI_SUCCESS) 6 [65] ram_published"
    by (rule mirror_reach.boot [OF r0 _ _ ram_ready]) (simp_all add: ram_boot_globals_def ram_globals_def)
  have "stored_stamp ram_view ram_published = Some (BL_VAR_ATTRIBUTES, le32_bytes 6)"
    by (simp add: ram_view_def ram_published_def)
  from mirror_consistent [OF ram_ok preserves_return r this] show ?thesis by (simp add: u32_of_le32)
qed

theorem mirror_one_boot_witness:
  "\<exists>G3 s2. run_state (BootloaderConfigOnReadyToBoot (ram_svc None) (State_Monad.return EFI_SUCCESS) ram_boot_globals) ram_published =
     (G3, s2) \<and> bmc_vars ram_view s2 = bmc_vars ram_view ram_published"
proof -
  obtain G3 s2 where r2: "run_state (BootloaderConfigOnReadyToBoot (ram_svc None) (State_Monad.return EFI_SUCCESS)
      ram_boot_globals) ram_published = (G3, s2)" by (rule prod.exhaust)
  have "bmc_vars ram_view s2 = bmc_vars ram_view ram_published"
    using mirror_one_boot [OF ram_ok preserves_return ram_sets _ _ _ _ _ ram_ready _ _ r2, where raw = "[65]"]
    by (simp add: ram_boot_globals_def ram_globals_def gate_closed_def ram_view_def ram_start_def)
  with r2 show ?thesis by blast
qed

theorem page_shows_running_witness:
  "\<exists>a bs (s' :: spi_hw \<times> ram_disk). Vars ram_view s' RPI_BLCFG_VARIABLE_NAME RPI_BLCFG_FORMSET_GUID = Some (a, bs) \<and>
     BlValuesFromData (data_of bs) = Some (BlValuesFromText (blconfig_text ram_globals))"
proof -
  let ?H = "\<lparr>HiiIsConfigHdrMatch = (\<lambda>r g n. True), HiiConstructConfigHdr = None, AllocateRequest = True,
        BlockToConfig = (\<lambda>r d. (EFI_SUCCESS, r, length r)), ConfigToBlock = (\<lambda>c d. (EFI_SUCCESS, d, 0)),
        InstallProtocols = State_Monad.return EFI_SUCCESS, UninstallProtocols = State_Monad.return EFI_SUCCESS,
        HiiAddPackages = State_Monad.return True\<rparr> :: (spi_hw \<times> ram_disk) hii_svc"
  obtain r s' where "run_state (BootloaderConfigEntryPoint (ram_svc None) ?H (State_Monad.return EFI_SUCCESS) ram_globals)
      (ram_hw, ram_start) = (r, s')" by (rule prod.exhaust)
  then obtain st G' where r: "run_state (BootloaderConfigEntryPoint (ram_svc None) ?H (State_Monad.return EFI_SUCCESS) ram_globals)
      (ram_hw, ram_start) = ((st, G'), s')" by (cases r) auto
  have "hii_quiet (disk ram_view) ?H" by (simp add: hii_quiet_def preserves_return)
  from page_shows_running [OF ram_ok ram_sets this preserves_return r] show ?thesis
    by (elim conjE exE) (intro exI conjI, simp_all)
qed

end
