(* ===== verification/Board_Info.thy ===== *)
theory Board_Info
  imports Fdt_Reg
begin

section \<open>Board identity (BoardInfoLib, BoardRevisionHelperLib, FdtPlatformLib)\<close>

text \<open>
  The revision code and the serial number come from the \<open>/system\<close> node of the firmware's device
  tree; everything else about the board is decoded from the fields of the revision code. A
  \<open>switch\<close> over constants that return strings is an association list, its keys the case labels.

  The lemmas decode the new-style revision codes: which fields a name depends on, and that the
  device tree named for a board is one of the SoC its model family is built on.
\<close>

subsection \<open>From the device tree\<close>

definition FdtPlatformGetBase :: "fdt_lib \<Rightarrow> fdt_lib option" where
  "FdtPlatformGetBase Fdt = (if FdtCheckHeader Fdt \<noteq> 0 then None else Some Fdt)"

definition BoardInfoGetRevisionCode :: "fdt_lib \<Rightarrow> efi_status + u32" where
  "BoardInfoGetRevisionCode Dtb =
     (case FdtPlatformGetBase Dtb of
        None \<Rightarrow> Inl EFI_NOT_FOUND
      | Some Fdt \<Rightarrow>
         (let Node = FdtPathOffset Fdt ''/system'' in
          if Node < 0 then Inl EFI_NOT_FOUND
          else (case FdtGetProp Fdt Node ''linux,revision'' of
                  None \<Rightarrow> Inl EFI_NOT_FOUND
                | Some Cells \<Rightarrow>
                    if length Cells \<noteq> 4 then Inl EFI_BAD_BUFFER_SIZE
                    else Inr (fdt_cell Cells 0))))"

definition BoardInfoGetSerialNumber :: "fdt_lib \<Rightarrow> efi_status + u64" where
  "BoardInfoGetSerialNumber Dtb =
     (case FdtPlatformGetBase Dtb of
        None \<Rightarrow> Inl EFI_NOT_FOUND
      | Some Fdt \<Rightarrow>
         (let Node = FdtPathOffset Fdt ''/system'' in
          if Node < 0 then Inl EFI_NOT_FOUND
          else (case FdtGetProp Fdt Node ''linux,serial'' of
                  None \<Rightarrow> Inl EFI_NOT_FOUND
                | Some Cells \<Rightarrow>
                    if length Cells \<noteq> 8 then Inl EFI_BAD_BUFFER_SIZE
                    else Inr (ReadCells Cells 2))))"

subsection \<open>The fields of the revision code\<close>

definition RPI_MEMORY_SIZE :: "u32 \<Rightarrow> u32" where "RPI_MEMORY_SIZE Rev = drop_bit 20 Rev AND 0x07"
definition RPI_MANUFACTURER :: "u32 \<Rightarrow> u32" where "RPI_MANUFACTURER Rev = drop_bit 16 Rev AND 0x0F"
definition RPI_PROCESSOR :: "u32 \<Rightarrow> u32" where "RPI_PROCESSOR Rev = drop_bit 12 Rev AND 0x0F"
definition RPI_TYPE :: "u32 \<Rightarrow> u32" where "RPI_TYPE Rev = drop_bit 4 Rev AND 0xFF"
definition RPI_REVISION :: "u32 \<Rightarrow> u32" where "RPI_REVISION Rev = Rev AND 0x0F"

definition SIZE_256MB :: u64 where "SIZE_256MB = 0x10000000"

definition BoardRevisionGetMemorySize :: "u32 \<Rightarrow> u64" where
  "BoardRevisionGetMemorySize RevisionCode =
     (if RevisionCode \<noteq> 0 then push_bit (unat (RPI_MEMORY_SIZE RevisionCode)) (SIZE_256MB * 1)
      else SIZE_256MB)"

definition type_family :: "u32 \<Rightarrow> u32" where
  "type_family t =
     (if t \<in> {0x00, 0x01, 0x02, 0x03, 0x06, 0x09, 0x0C} then 1
      else if t = 0x04 then 2
      else if t \<in> {0x08, 0x0A, 0x0D, 0x0E, 0x10} then 3
      else if t \<in> {0x11, 0x13, 0x14} then 4
      else if t \<in> {0x17, 0x18, 0x19, 0x1A} then 5
      else 0)"

definition BoardRevisionGetModelFamily :: "u32 \<Rightarrow> u32" where
  "BoardRevisionGetModelFamily RevisionCode =
     (if RevisionCode \<noteq> 0 then type_family (RPI_TYPE RevisionCode) else 0)"

definition model_names :: "(u32 \<times> string) list" where
  "model_names =
    [(0x00, ''Raspberry Pi Model A''), (0x01, ''Raspberry Pi Model B''), (0x02, ''Raspberry Pi Model A+''),
     (0x03, ''Raspberry Pi Model B+''), (0x04, ''Raspberry Pi 2 Model B''),
     (0x06, ''Raspberry Pi Compute Module 1''), (0x08, ''Raspberry Pi 3 Model B''), (0x09, ''Raspberry Pi Zero''),
     (0x0A, ''Raspberry Pi Compute Module 3''), (0x0C, ''Raspberry Pi Zero W''),
     (0x0D, ''Raspberry Pi 3 Model B+''), (0x0E, ''Raspberry Pi 3 Model A+''),
     (0x10, ''Raspberry Pi Compute Module 3+''), (0x11, ''Raspberry Pi 4 Model B''), (0x13, ''Raspberry Pi 400''),
     (0x14, ''Raspberry Pi Compute Module 4''), (0x17, ''Raspberry Pi 5 Model B''),
     (0x18, ''Raspberry Pi Compute Module 5''), (0x19, ''Raspberry Pi 500''),
     (0x1A, ''Raspberry Pi Compute Module 5 Lite'')]"

definition BoardRevisionGetModelName :: "u32 \<Rightarrow> string" where
  "BoardRevisionGetModelName RevisionCode =
     (if RevisionCode \<noteq> 0
      then (case map_of model_names (RPI_TYPE RevisionCode) of
              Some Name \<Rightarrow> Name | None \<Rightarrow> ''Unknown Raspberry Pi Model'')
      else ''Unknown Raspberry Pi Model'')"

definition mFdtNamesRpi5B :: "string list" where
  "mFdtNamesRpi5B = [''bcm2712-rpi-5-b.dtb'', ''bcm2712-d-rpi-5-b.dtb'']"

definition BOARD_VARIANT_FROM_REVISION :: nat where "BOARD_VARIANT_FROM_REVISION = 2 ^ 64 - 1"

definition FdtNameByVariant :: "string list \<Rightarrow> u32 \<Rightarrow> nat \<Rightarrow> string" where
  "FdtNameByVariant Names RevisionCode Variant =
     (let Variant = (if Variant = BOARD_VARIANT_FROM_REVISION then unat (RPI_REVISION RevisionCode) else Variant);
          Variant = (if Variant \<ge> length Names then 0 else Variant) in
      Names ! Variant)"

definition fdt_names :: "(u32 \<times> string) list" where
  "fdt_names =
    [(0x00, ''bcm2835-rpi-a.dtb''), (0x01, ''bcm2835-rpi-b.dtb''), (0x02, ''bcm2835-rpi-a-plus.dtb''),
     (0x03, ''bcm2835-rpi-b-plus.dtb''), (0x04, ''bcm2836-rpi-2-b.dtb''), (0x06, ''bcm2835-rpi-cm.dtb''),
     (0x08, ''bcm2837-rpi-3-b.dtb''), (0x09, ''bcm2835-rpi-zero.dtb''), (0x0A, ''bcm2837-rpi-cm3.dtb''),
     (0x0C, ''bcm2835-rpi-zero-w.dtb''), (0x0D, ''bcm2837-rpi-3-b-plus.dtb''), (0x0E, ''bcm2837-rpi-3-a-plus.dtb''),
     (0x10, ''bcm2837-rpi-cm3.dtb''), (0x11, ''bcm2711-rpi-4-b.dtb''), (0x12, ''bcm2837-rpi-zero-2-w.dtb''),
     (0x13, ''bcm2711-rpi-400.dtb''), (0x14, ''bcm2711-rpi-cm4.dtb''), (0x18, ''bcm2712-rpi-cm5-cm5io.dtb''),
     (0x19, ''bcm2712-rpi-500.dtb''), (0x1A, ''bcm2712-rpi-cm5l-cm5io.dtb'')]"

definition BoardRevisionGetFdtName :: "u32 \<Rightarrow> nat \<Rightarrow> string option" where
  "BoardRevisionGetFdtName RevisionCode Variant =
     (if RevisionCode = 0 \<or> \<not> bit RevisionCode 23 then None
      else if RPI_TYPE RevisionCode = 0x17
      then Some (FdtNameByVariant mFdtNamesRpi5B RevisionCode Variant)
      else map_of fdt_names (RPI_TYPE RevisionCode))"

definition BoardRevisionGetManufacturerName :: "u32 \<Rightarrow> string" where
  "BoardRevisionGetManufacturerName RevisionCode =
     (let m = RPI_MANUFACTURER RevisionCode in
      if RevisionCode \<noteq> 0 then
        (if m = 0x00 then ''Sony UK''
         else if m = 0x01 then ''Egoman''
         else if m = 0x02 \<or> m = 0x04 then ''Embest''
         else if m = 0x03 then ''Sony Japan''
         else if m = 0x05 then ''Stadium''
         else ''Unknown Manufacturer'')
      else ''Unknown Manufacturer'')"

definition BoardRevisionGetProcessorName :: "u32 \<Rightarrow> string" where
  "BoardRevisionGetProcessorName RevisionCode =
     (let p = RPI_PROCESSOR RevisionCode in
      if RevisionCode \<noteq> 0 then
        (if p = 0x00 then ''BCM2835 (ARM11)''
         else if p = 0x01 then ''BCM2836 (Arm Cortex-A7)''
         else if p = 0x02 then ''BCM2837 (Arm Cortex-A53)''
         else if p = 0x03 then ''BCM2711 (Arm Cortex-A72)''
         else if p = 0x04 then ''BCM2712 (Arm Cortex-A76)''
         else ''Unknown CPU Model'')
      else ''Unknown CPU Model'')"

subsection \<open>Decoding\<close>

definition family_soc :: "u32 \<Rightarrow> string" where
  "family_soc f = (if f = 1 then ''bcm2835'' else if f = 2 then ''bcm2836'' else if f = 3 then ''bcm2837''
     else if f = 4 then ''bcm2711'' else ''bcm2712'')"

lemma variant_names: "FdtNameByVariant mFdtNamesRpi5B r v \<in> {''bcm2712-rpi-5-b.dtb'', ''bcm2712-d-rpi-5-b.dtb''}"
proof -
  have "[a, b] ! k \<in> {a, b}" if "k < 2" for a b :: string and k :: nat
    using that by (auto simp: less_Suc_eq numeral_2_eq_2)
  then show ?thesis by (simp add: FdtNameByVariant_def mFdtNamesRpi5B_def Let_def)
qed

definition types :: "u32 list" where
  "types = [0x00, 0x01, 0x02, 0x03, 0x06, 0x09, 0x0C, 0x04, 0x08, 0x0A, 0x0D, 0x0E, 0x10, 0x11, 0x13, 0x14,
     0x17, 0x18, 0x19, 0x1A]"

lemma type_known: "type_family t \<noteq> 0 \<longleftrightarrow> t \<in> set types"
  unfolding type_family_def types_def by simp

lemma named_types: "set (map fst fdt_names) \<union> {0x17} = set types \<union> {0x12}"
  unfolding fdt_names_def types_def by auto

lemma types_named:
  "list_all (\<lambda>t. t = 0x17 \<or> (case map_of fdt_names t of None \<Rightarrow> False | Some n \<Rightarrow> take 7 n = family_soc (type_family t))) types"
  by code_simp

lemma family_5: "type_family 0x17 = 5" "take 7 ''bcm2712-rpi-5-b.dtb'' = family_soc 5"
  "take 7 ''bcm2712-d-rpi-5-b.dtb'' = family_soc 5"
  by (simp_all add: type_family_def family_soc_def)

text \<open>
  The device tree that is named for a board. For every new-style revision code of a known
  model family a tree is named whatever variant is asked for, and its file name starts with the
  SoC of that family; old-style codes and codes of unknown types name none. The one exception is type
  \<open>0x12\<close>, which has a tree and no family.
\<close>

theorem fdt_name_matches_family:
  "BoardRevisionGetFdtName Rev Variant = None \<and> (\<not> bit Rev 23 \<or> BoardRevisionGetModelFamily Rev = 0) \<or>
   (\<exists>n. BoardRevisionGetFdtName Rev Variant = Some n \<and> bit Rev 23 \<and>
      (BoardRevisionGetModelFamily Rev \<noteq> 0 \<and> take 7 n = family_soc (BoardRevisionGetModelFamily Rev) \<or>
       RPI_TYPE Rev = 0x12))"
proof (cases "bit Rev 23")
  case False
  then show ?thesis by (simp add: BoardRevisionGetFdtName_def)
next
  case True
  let ?t = "RPI_TYPE Rev" and ?f = "BoardRevisionGetModelFamily Rev"
  have nz: "Rev \<noteq> 0" and f: "?f = type_family ?t" using True by (auto simp: BoardRevisionGetModelFamily_def)
  consider (two) "?t = 0x17" | (known) "?t \<in> set types" "?t \<noteq> 0x17" | (other) "?t \<notin> set types" by blast
  then show ?thesis
  proof cases
    case two
    with True nz f variant_names [of Rev Variant] family_5 show ?thesis
      by (auto simp: BoardRevisionGetFdtName_def)
  next
    case known
    then obtain n where "map_of fdt_names ?t = Some n" "take 7 n = family_soc (type_family ?t)"
      using types_named by (auto simp: list_all_iff split: option.splits)
    with known True nz f type_known [of ?t] show ?thesis by (simp add: BoardRevisionGetFdtName_def)
  next
    case other
    have "?t = 0x12 \<or> ?t \<notin> fst ` set fdt_names" using named_types other by auto
    then have "?t = 0x12 \<and> map_of fdt_names ?t \<noteq> None \<or> map_of fdt_names ?t = None"
      by (auto simp: map_of_eq_None_iff)
    moreover have "?t \<noteq> 0x17" using other by (auto simp: types_def)
    ultimately show ?thesis
      using True nz f type_known [of ?t] other by (auto simp: BoardRevisionGetFdtName_def)
  qed
qed

lemma memory_size_exact:
  "unat (BoardRevisionGetMemorySize Rev) = 256 * 2 ^ 20 * (if Rev = 0 then 1 else 2 ^ unat (RPI_MEMORY_SIZE Rev))"
  "unat (RPI_MEMORY_SIZE Rev) < 8"
proof -
  have m: "RPI_MEMORY_SIZE Rev = take_bit 3 (drop_bit 20 Rev)"
    by (simp add: RPI_MEMORY_SIZE_def take_bit_eq_mask mask_eq_exp_minus_1)
  show lt: "unat (RPI_MEMORY_SIZE Rev) < 8"
    by (simp add: m unsigned_take_bit_eq take_bit_nat_less_exp [of 3, simplified])
  have "list_all (\<lambda>k. unat (push_bit k SIZE_256MB) = 256 * 2 ^ 20 * 2 ^ k) [0..<8]"
    by (simp add: SIZE_256MB_def upt_rec)
  then have "unat (push_bit k SIZE_256MB) = 256 * 2 ^ 20 * 2 ^ k" if "k < 8" for k
    using that by (simp only: list_all_iff set_upt atLeastLessThan_iff) auto
  then show "unat (BoardRevisionGetMemorySize Rev) =
      256 * 2 ^ 20 * (if Rev = 0 then 1 else 2 ^ unat (RPI_MEMORY_SIZE Rev))"
    using lt by (auto simp: BoardRevisionGetMemorySize_def SIZE_256MB_def)
qed

theorem fdt_name_matches_family_witness:
  "\<exists>n. BoardRevisionGetFdtName 0xD04171 BOARD_VARIANT_FROM_REVISION = Some n \<and> take 7 n = ''bcm2712''"
proof -
  have "\<not> \<not> bit (0xD04171 :: u32) 23" "RPI_TYPE 0xD04171 = 0x17" "BoardRevisionGetModelFamily 0xD04171 = 5"
    by (simp_all add: RPI_TYPE_def BoardRevisionGetModelFamily_def type_family_def bit_numeral_rec)
  with fdt_name_matches_family [of "0xD04171" BOARD_VARIANT_FROM_REVISION] show ?thesis
    by (auto simp: family_soc_def)
qed

end
