(* ===== verification/Platform_Memory.thy ===== *)
theory Platform_Memory
  imports Board_Info
begin

section \<open>The memory map (PlatformLib/RaspberryPiMem.c)\<close>

text \<open>
  \<^verbatim>\<open>ArmPlatformGetVirtualMemoryMap\<close> builds the table the MMU is set up from: the flash image, its
  variables, the device tree, the RAM below 1 GB the VPU leaves to the CPU, the VPU's part, the RAM
  above 1 GB according to the board's revision code, and the SoC's registers. The two arrays it
  fills in step, the descriptors and the names and types, are one list of regions here; the fixed
  PCD values are those of \<^verbatim>\<open>RPi5.fdf\<close> and \<^verbatim>\<open>RPi5.dsc\<close>.

  The property says what the MMU relies on: the regions below the registers follow each other
  without gap or overlap, none of them is empty before the end of the table, and the cached ones are
  exactly the CPU's RAM.
\<close>

definition PcdFdBaseAddress :: u64 where "PcdFdBaseAddress = 0"
definition PcdNvStorageVariableBase :: u32 where "PcdNvStorageVariableBase = 0x003b0000"
definition PcdFdtBaseAddress :: u32 where "PcdFdtBaseAddress = 0x003e0000"
definition PcdFdtSize :: u32 where "PcdFdtSize = 0x20000"
definition PcdSystemMemoryBase :: u64 where "PcdSystemMemoryBase = 0x00400000"

definition SIZE_1GB :: u64 where "SIZE_1GB = 0x40000000"
definition SIZE_64GB :: u64 where "SIZE_64GB = 0x1000000000"
definition MAX_VIRTUAL_MEMORY_MAP_DESCRIPTORS :: nat where "MAX_VIRTUAL_MEMORY_MAP_DESCRIPTORS = 11"

datatype memory_attributes = ATTRIBUTE_NONE | ATTRIBUTE_WRITE_BACK | ATTRIBUTE_DEVICE
datatype region_type = RPI_MEM_BASIC_REGION | RPI_MEM_RUNTIME_REGION | RPI_MEM_RESERVED_REGION | RPI_MEM_UNMAPPED_REGION

record region =
  PhysicalBase :: u64
  VirtualBase :: u64
  RegionLength :: u64
  Attributes :: memory_attributes
  RegionType :: region_type
  RegionName :: string

definition region_at :: "u64 \<Rightarrow> u64 \<Rightarrow> memory_attributes \<Rightarrow> region_type \<Rightarrow> string \<Rightarrow> region" where
  "region_at base len attr ty name = \<lparr>PhysicalBase = base, VirtualBase = base, RegionLength = len, Attributes = attr,
     RegionType = ty, RegionName = name\<rparr>"

definition end_of_table :: region where
  "end_of_table = region_at 0 0 ATTRIBUTE_NONE RPI_MEM_BASIC_REGION ''''"

definition VariablesBase :: u64 where "VariablesBase = ucast PcdNvStorageVariableBase"

definition memory_regions :: "u64 \<Rightarrow> u64 \<Rightarrow> region list" where
  "memory_regions mSystemMemoryEnd TotalMemorySize =
     (let MemorySizeBelow3GB = min TotalMemorySize (3 * SIZE_1GB);
          MemorySizeBelow4GB = min TotalMemorySize (4 * SIZE_1GB) in
      [region_at PcdFdBaseAddress (VariablesBase - PcdFdBaseAddress) ATTRIBUTE_WRITE_BACK RPI_MEM_RESERVED_REGION ''FD'',
       region_at VariablesBase (ucast (PcdFdtBaseAddress - PcdNvStorageVariableBase)) ATTRIBUTE_WRITE_BACK
         RPI_MEM_RUNTIME_REGION ''FD Variables'',
       region_at (ucast PcdFdtBaseAddress) (ucast PcdFdtSize) ATTRIBUTE_WRITE_BACK RPI_MEM_RESERVED_REGION
         ''Flattened Device Tree'',
       region_at PcdSystemMemoryBase (mSystemMemoryEnd + 1 - PcdSystemMemoryBase) ATTRIBUTE_WRITE_BACK
         RPI_MEM_BASIC_REGION ''System RAM < 1GB'',
       region_at (mSystemMemoryEnd + 1) (SIZE_1GB - (mSystemMemoryEnd + 1)) ATTRIBUTE_DEVICE
         RPI_MEM_UNMAPPED_REGION ''GPU Reserved''] @
      (if MemorySizeBelow3GB > SIZE_1GB
       then [region_at SIZE_1GB (MemorySizeBelow3GB - SIZE_1GB) ATTRIBUTE_WRITE_BACK RPI_MEM_BASIC_REGION
               ''Extended System RAM < 3GB''] else []) @
      (if MemorySizeBelow4GB > 3 * SIZE_1GB
       then [region_at (3 * SIZE_1GB) (MemorySizeBelow4GB - 3 * SIZE_1GB) ATTRIBUTE_WRITE_BACK RPI_MEM_UNMAPPED_REGION
               ''Extended System RAM < 4GB''] else []) @
      (if TotalMemorySize > 4 * SIZE_1GB
       then [region_at (4 * SIZE_1GB) (TotalMemorySize - 4 * SIZE_1GB) ATTRIBUTE_WRITE_BACK RPI_MEM_BASIC_REGION
               ''Extended System RAM >= 4GB''] else []) @
      [region_at SIZE_64GB SIZE_64GB ATTRIBUTE_DEVICE RPI_MEM_UNMAPPED_REGION ''MMIO''])"

text \<open>
  The call: \<open>DeadLoop\<close> when the revision code cannot be read, \<open>NoMap\<close> when there is no memory for the
  table. The state is the static \<^verbatim>\<open>VirtualMemoryInfo\<close>, \<open>None\<close> until a table has been built.
\<close>

datatype memory_map = DeadLoop | NoMap | MapTable "region list"

definition ArmPlatformGetVirtualMemoryMap ::
  "fdt_lib \<Rightarrow> u64 \<Rightarrow> bool \<Rightarrow> region list option \<Rightarrow> memory_map \<times> region list option" where
  "ArmPlatformGetVirtualMemoryMap Dtb mSystemMemoryEnd Alloc Info =
     (case BoardInfoGetRevisionCode Dtb of
        Inl Status \<Rightarrow> (DeadLoop, Info)
      | Inr RevisionCode \<Rightarrow>
         (let TotalMemorySize = BoardRevisionGetMemorySize RevisionCode in
          if \<not> Alloc then (NoMap, Info)
          else
           (let Table = memory_regions mSystemMemoryEnd TotalMemorySize @ [end_of_table] in
            (MapTable Table, Some Table))))"

definition RpiPlatformGetVirtualMemoryInfo :: "region list option \<Rightarrow> (region_type \<times> string) list option" where
  "RpiPlatformGetVirtualMemoryInfo Info = map_option (map (\<lambda>r. (RegionType r, RegionName r))) Info"

subsection \<open>The partition\<close>

text \<open>Regions that follow each other from \<open>a\<close> up to \<open>b\<close>, none of them empty.\<close>

fun adjacent :: "nat \<Rightarrow> region list \<Rightarrow> nat \<Rightarrow> bool" where
  "adjacent a [] b = (a = b)"
| "adjacent a (r # rs) b =
     (unat (PhysicalBase r) = a \<and> RegionLength r \<noteq> 0 \<and> VirtualBase r = PhysicalBase r \<and>
      adjacent (a + unat (RegionLength r)) rs b)"

definition in_region :: "nat \<Rightarrow> region \<Rightarrow> bool" where
  "in_region x r = (unat (PhysicalBase r) \<le> x \<and> x < unat (PhysicalBase r) + unat (RegionLength r))"

lemma adjacent_append: "adjacent a (rs @ qs) b \<longleftrightarrow> (\<exists>c. adjacent a rs c \<and> adjacent c qs b)"
  by (induction rs arbitrary: a) auto

definition GB :: nat where "GB = 2 ^ 30"

lemma sizes: "SIZE_1GB = of_nat GB" "3 * SIZE_1GB = of_nat (3 * GB)" "4 * SIZE_1GB = of_nat (4 * GB)"
  by (simp_all add: SIZE_1GB_def GB_def)

lemma nat_word: "n < 2 ^ 64 \<Longrightarrow> unat (of_nat n :: u64) = n"
  by (simp add: unsigned_of_nat take_bit_nat_eq_self)

lemma nat_word_diff: "m \<le> n \<Longrightarrow> n < 2 ^ 64 \<Longrightarrow> of_nat n - of_nat m = (of_nat (n - m) :: u64)"
  by (simp add: of_nat_diff)

lemma nat_word_sub: "m \<le> n \<Longrightarrow> n < 2 ^ 64 \<Longrightarrow> unat (of_nat n - of_nat m :: u64) = n - m"
  by (subst nat_word_diff) (simp_all only: nat_word less_imp_diff_less)

lemma nat_word_less: "m < 2 ^ 64 \<Longrightarrow> n < 2 ^ 64 \<Longrightarrow> (of_nat m :: u64) < of_nat n \<longleftrightarrow> m < n"
  by (simp add: word_less_nat_alt nat_word)

lemma nat_word_min: "m < 2 ^ 64 \<Longrightarrow> n < 2 ^ 64 \<Longrightarrow> min (of_nat m :: u64) (of_nat n) = of_nat (min m n)"
  by (simp add: min_def word_le_nat_alt nat_word)

text \<open>The regions with natural numbers for addresses.\<close>

definition regions_nat :: "nat \<Rightarrow> nat \<Rightarrow> (nat \<times> nat \<times> memory_attributes) list" where
  "regions_nat e t =
     [(0, 0x3b0000, ATTRIBUTE_WRITE_BACK), (0x3b0000, 0x30000, ATTRIBUTE_WRITE_BACK), (0x3e0000, 0x20000, ATTRIBUTE_WRITE_BACK),
      (0x400000, e - 0x400000, ATTRIBUTE_WRITE_BACK), (e, GB - e, ATTRIBUTE_DEVICE)] @
     (if t > GB then [(GB, min t (3 * GB) - GB, ATTRIBUTE_WRITE_BACK)] else []) @
     (if t > 3 * GB then [(3 * GB, min t (4 * GB) - 3 * GB, ATTRIBUTE_WRITE_BACK)] else []) @
     (if t > 4 * GB then [(4 * GB, t - 4 * GB, ATTRIBUTE_WRITE_BACK)] else []) @
     [(64 * GB, 64 * GB, ATTRIBUTE_DEVICE)]"

lemma memory_regions_nat:
  assumes "unat E + 1 = e" "0x400000 < e" "e < GB" "unat T = t" "t \<le> 32 * GB"
  shows "map (\<lambda>r. (unat (PhysicalBase r), unat (RegionLength r), Attributes r)) (memory_regions E T) = regions_nat e t"
    and "\<forall>r\<in>set (memory_regions E T). VirtualBase r = PhysicalBase r"
proof -
  have E: "E + 1 = of_nat e" unfolding assms(1) [symmetric] by simp
  have T: "T = of_nat t" using assms(4) by auto
  have b: "e < 2 ^ 64" "t < 2 ^ 64" "GB < 2 ^ 64" "3 * GB < 2 ^ 64" "4 * GB < 2 ^ 64" "GB = 2 ^ 30"
    using assms(3,5) by (simp_all add: GB_def)
  have s: "(0x400000 :: u64) = of_nat 0x400000" "SIZE_64GB = of_nat (64 * GB)" by (simp_all add: SIZE_64GB_def GB_def)
  have m: "min T (3 * SIZE_1GB) = of_nat (min t (3 * GB))" "min T (4 * SIZE_1GB) = of_nat (min t (4 * GB))"
    unfolding sizes(2,3) T using b by (simp_all only: nat_word_min)
  have lt: "SIZE_1GB < min T (3 * SIZE_1GB) \<longleftrightarrow> GB < t" "3 * SIZE_1GB < min T (4 * SIZE_1GB) \<longleftrightarrow> 3 * GB < t"
    "4 * SIZE_1GB < T \<longleftrightarrow> 4 * GB < t"
    unfolding m unfolding sizes(2,3) unfolding sizes(1) T using b by (subst nat_word_less; simp add: GB_def min_def)+
  have u: "unat (E + 1) = e" "unat (E + 1 - 0x400000) = e - 0x400000" "unat (SIZE_1GB - (E + 1)) = GB - e"
    "unat SIZE_1GB = GB" "unat (3 * SIZE_1GB) = 3 * GB" "unat (4 * SIZE_1GB) = 4 * GB" "unat SIZE_64GB = 64 * GB"
    using assms(2,3) b unfolding E sizes(2,3) sizes(1) s by (simp_all only: nat_word nat_word_diff less_imp_le) (simp_all add: nat_word GB_def)
  have d: "GB < t \<Longrightarrow> unat (min T (3 * SIZE_1GB) - SIZE_1GB) = min t (3 * GB) - GB"
    "3 * GB < t \<Longrightarrow> unat (min T (4 * SIZE_1GB) - 3 * SIZE_1GB) = min t (4 * GB) - 3 * GB"
    "4 * GB < t \<Longrightarrow> unat (T - 4 * SIZE_1GB) = t - 4 * GB"
    unfolding m unfolding sizes(2,3) unfolding sizes(1) T by (rule nat_word_sub; use b in simp)+
  show "map (\<lambda>r. (unat (PhysicalBase r), unat (RegionLength r), Attributes r)) (memory_regions E T) = regions_nat e t"
    unfolding memory_regions_def Let_def lt regions_nat_def
    by (simp add: region_at_def u u(2) [simplified] d PcdFdBaseAddress_def VariablesBase_def PcdNvStorageVariableBase_def
        PcdFdtBaseAddress_def PcdFdtSize_def PcdSystemMemoryBase_def del: One_nat_def)
  show "\<forall>r\<in>set (memory_regions E T). VirtualBase r = PhysicalBase r"
    by (auto simp: memory_regions_def Let_def region_at_def split: if_splits)
qed

definition spans :: "region \<Rightarrow> nat \<times> nat \<times> memory_attributes" where
  "spans r = (unat (PhysicalBase r), unat (RegionLength r), Attributes r)"

fun adjacent_nat :: "nat \<Rightarrow> (nat \<times> nat \<times> memory_attributes) list \<Rightarrow> nat \<Rightarrow> bool" where
  "adjacent_nat a [] b = (a = b)"
| "adjacent_nat a ((p, l, w) # rs) b = (p = a \<and> 0 < l \<and> adjacent_nat (a + l) rs b)"

lemma adjacent_spans:
  "(\<forall>r\<in>set rs. VirtualBase r = PhysicalBase r) \<Longrightarrow> adjacent a rs b \<longleftrightarrow> adjacent_nat a (map spans rs) b"
  by (induction rs arbitrary: a) (auto simp: spans_def word_neq_0_conv [symmetric] unat_gt_0)

lemma regions_adjacent:
  assumes "0x400000 < e" "e < GB" "t \<le> 32 * GB"
  shows "adjacent_nat 0 (butlast (regions_nat e t)) (max GB t)"
    and "last (regions_nat e t) = (64 * GB, 64 * GB, ATTRIBUTE_DEVICE)"
    and "length (regions_nat e t) \<le> 9"
proof -
  show "last (regions_nat e t) = (64 * GB, 64 * GB, ATTRIBUTE_DEVICE)" by (simp add: regions_nat_def)
  show "length (regions_nat e t) \<le> 9" by (simp add: regions_nat_def)
  have e: "0x400000 + (e - 0x400000) = e" "e + (GB - e) = GB" "0 < e - 0x400000" "0 < GB - e" "0 < GB"
    using assms by simp_all
  have bl: "butlast (xs @ ys @ zs @ us @ [x]) = xs @ ys @ zs @ us" for xs ys zs us and x :: "nat \<times> nat \<times> memory_attributes"
    by (simp add: butlast_append)
  consider "t \<le> GB" | "GB < t" "t \<le> 3 * GB" | "3 * GB < t" "t \<le> 4 * GB" | "4 * GB < t" by linarith
  then show "adjacent_nat 0 (butlast (regions_nat e t)) (max GB t)"
  proof cases
    case 1
    then show ?thesis using e by (simp add: regions_nat_def max_absorb1)
  next
    case 2
    then have "min t (3 * GB) = t" "max GB t = t" by simp_all
    with 2 e show ?thesis unfolding regions_nat_def bl by simp
  next
    case 3
    then have "min t (3 * GB) = 3 * GB" "min t (4 * GB) = t" "max GB t = t" using e(5) by simp_all
    with 3 e show ?thesis unfolding regions_nat_def bl by simp
  next
    case 4
    then have "min t (3 * GB) = 3 * GB" "min t (4 * GB) = 4 * GB" "max GB t = t" using e(5) by simp_all
    with 4 e show ?thesis unfolding regions_nat_def bl by simp
  qed
qed

definition cached :: "(nat \<times> nat \<times> memory_attributes) list \<Rightarrow> nat \<Rightarrow> bool" where
  "cached L x = (\<exists>(p, l, w)\<in>set L. p \<le> x \<and> x < p + l \<and> w = ATTRIBUTE_WRITE_BACK)"

lemma cached_simps:
  "\<not> cached [] x" "cached ((p, l, w) # L) x \<longleftrightarrow> p \<le> x \<and> x < p + l \<and> w = ATTRIBUTE_WRITE_BACK \<or> cached L x"
  "cached (L @ M) x \<longleftrightarrow> cached L x \<or> cached M x" "cached (if c then L else []) x \<longleftrightarrow> c \<and> cached L x"
  by (auto simp: cached_def)

lemma regions_cached:
  assumes "0x400000 < e" "e < GB" "t \<le> 32 * GB"
  shows "cached (regions_nat e t) x \<longleftrightarrow> x < e \<or> GB \<le> x \<and> x < t"
proof -
  have low: "0 \<le> x \<and> x < 0 + 0x3b0000 \<or> 0x3b0000 \<le> x \<and> x < 0x3b0000 + 0x30000 \<or>
      0x3e0000 \<le> x \<and> x < 0x3e0000 + 0x20000 \<or>
      0x400000 \<le> x \<and> x < 0x400000 + (e - 0x400000) \<longleftrightarrow> x < e"
    using assms(1) by linarith
  have high: "GB < t \<and> GB \<le> x \<and> x < GB + (min t (3 * GB) - GB) \<or>
      3 * GB < t \<and> 3 * GB \<le> x \<and> x < 3 * GB + (min t (4 * GB) - 3 * GB) \<or>
      4 * GB < t \<and> 4 * GB \<le> x \<and> x < 4 * GB + (t - 4 * GB) \<longleftrightarrow> GB \<le> x \<and> x < t"
    by (cases "t \<le> GB"; cases "t \<le> 3 * GB"; cases "t \<le> 4 * GB") (simp_all add: min_def, linarith+)
  show ?thesis
    unfolding low [symmetric] high [symmetric] regions_nat_def cached_simps
    by (simp only: cached_simps(1) simp_thms disj_assoc memory_attributes.distinct)
qed

lemma memory_size_bound:
  "unat (BoardRevisionGetMemorySize Rev) \<le> 32 * GB"
proof -
  have "2 ^ unat (RPI_MEMORY_SIZE Rev) \<le> (2 :: nat) ^ 7"
    using memory_size_exact(2) [of Rev] by (intro power_increasing) auto
  then show ?thesis unfolding memory_size_exact(1) by (simp add: GB_def)
qed


text \<open>A board of 8 GB whose VPU keeps the top 4 MB of the first gigabyte.\<close>

definition board_fdt :: fdt_lib where
  "board_fdt = \<lparr>FdtCheckHeader = 0, FdtParentOffset = (\<lambda>n. 0), FdtAddressCells = (\<lambda>n. 2), FdtSizeCells = (\<lambda>n. 1),
     FdtGetProp = (\<lambda>n p. if n = 10 \<and> p = ''linux,revision'' then Some [0x00, 0xD0, 0x41, 0x71] else None),
     FdtNodeOffsetByCompatible = (\<lambda>c. -1), FdtNodeOffsetByPhandle = (\<lambda>p. -1),
     FdtPathOffset = (\<lambda>p. if p = ''/system'' then 10 else -1)\<rparr>"


end
