(* ===== verification/Rpi_Rtc.thy ===== *)
theory Rpi_Rtc
  imports Rpi5_Programs Eeprom_Patch
begin

section \<open>The real-time clock (RpiRtcLib.c)\<close>

text \<open>
  The clock and its wake-up alarm are registers of the VPU firmware that count seconds in 32 bits.
  The firmware protocol is the record \<open>rtc_fw\<close> of its two calls over any state, and the calendar
  library of EDK2 the record \<open>time_lib\<close>; both promise what \<open>rtc_ok\<close> and \<open>calendar_ok\<close> say. A \<open>NULL\<close>
  pointer is \<open>None\<close>, and the contents of a caller's structure are an argument because the code
  reads the time zone out of them.
\<close>

datatype rtc_register = RpiRtcTime | RpiRtcAlarm | RpiRtcAlarmPending | RpiRtcAlarmEnable

record 's rtc_fw =
  GetRtc :: "rtc_register \<Rightarrow> ('s, efi_status \<times> u32) state"
  SetRtc :: "rtc_register \<Rightarrow> u32 \<Rightarrow> ('s, efi_status) state"

record rtc_time = efi_time +
  TimeZone :: "16 word"
  Daylight :: u8

record time_lib =
  IsTimeValid :: "rtc_time \<Rightarrow> bool"
  EfiTimeToEpoch :: "rtc_time \<Rightarrow> u64"
  EpochToEfiTime :: "u64 \<Rightarrow> rtc_time \<Rightarrow> rtc_time"

definition EFI_UNSPECIFIED_TIMEZONE :: "16 word" where "EFI_UNSPECIFIED_TIMEZONE = 0x07FF"
definition EFI_TIME_IN_DAYLIGHT :: u8 where "EFI_TIME_IN_DAYLIGHT = 0x02"
definition SEC_PER_MIN :: u64 where "SEC_PER_MIN = 60"
definition SEC_PER_HOUR :: u64 where "SEC_PER_HOUR = 3600"

definition OffsetTimeZoneEpoch :: "rtc_time \<Rightarrow> u32 \<Rightarrow> bool \<Rightarrow> u32" where
  "OffsetTimeZoneEpoch Time EpochSeconds Add =
     (if TimeZone Time \<noteq> EFI_UNSPECIFIED_TIMEZONE
      then ucast (ucast EpochSeconds + (if Add then 1 else -1) * scast (TimeZone Time) * SEC_PER_MIN)
      else if Daylight Time AND EFI_TIME_IN_DAYLIGHT = EFI_TIME_IN_DAYLIGHT
      then ucast (ucast EpochSeconds + (if Add then 1 else -1) * SEC_PER_HOUR)
      else EpochSeconds)"

definition LibGetTime :: "time_lib \<Rightarrow> 's rtc_fw \<Rightarrow> rtc_time option \<Rightarrow> ('s, efi_status \<times> rtc_time option) state" where
  "LibGetTime L F Time =
     (case Time of
        None \<Rightarrow> State_Monad.return (EFI_INVALID_PARAMETER, None)
      | Some t \<Rightarrow> do {
          (Status, EpochSeconds) \<leftarrow> GetRtc F RpiRtcTime;
          State_Monad.return
            (if EFI_ERROR Status then (Status, Some t)
             else (EFI_SUCCESS, Some (EpochToEfiTime L (ucast (OffsetTimeZoneEpoch t EpochSeconds True)) t)))
        })"

definition LibSetTime :: "time_lib \<Rightarrow> 's rtc_fw \<Rightarrow> rtc_time option \<Rightarrow> ('s, efi_status) state" where
  "LibSetTime L F Time =
     (case Time of
        None \<Rightarrow> State_Monad.return EFI_UNSUPPORTED
      | Some t \<Rightarrow>
          if \<not> IsTimeValid L t then State_Monad.return EFI_UNSUPPORTED
          else SetRtc F RpiRtcTime (OffsetTimeZoneEpoch t (ucast (EfiTimeToEpoch L t)) False))"

text \<open>The results \<open>Enabled\<close>, \<open>Pending\<close> and \<open>Time\<close> of the caller: \<open>None\<close> as long as nothing is written.\<close>

definition LibGetWakeupTime ::
  "time_lib \<Rightarrow> 's rtc_fw \<Rightarrow> bool \<Rightarrow> bool \<Rightarrow> rtc_time option \<Rightarrow>
   ('s, efi_status \<times> (u8 \<times> u8) option \<times> rtc_time option) state" where
  "LibGetWakeupTime L F HasEnabled HasPending Time =
     (case Time of
        None \<Rightarrow> State_Monad.return (EFI_INVALID_PARAMETER, None, Time)
      | Some t \<Rightarrow>
          if \<not> HasEnabled \<or> \<not> HasPending then State_Monad.return (EFI_INVALID_PARAMETER, None, Time)
          else do {
            (Status, EnableVal) \<leftarrow> GetRtc F RpiRtcAlarmEnable;
            (if EFI_ERROR Status then State_Monad.return (Status, None, Time)
             else do {
               (Status, PendingVal) \<leftarrow> GetRtc F RpiRtcAlarmPending;
               (if EFI_ERROR Status then State_Monad.return (Status, None, Time)
                else do {
                  let Enabled = ucast EnableVal;
                  let Pending = (ucast PendingVal :: u8);
                  Status \<leftarrow> (if Pending \<noteq> 0 then SetRtc F RpiRtcAlarmPending 1 else State_Monad.return EFI_SUCCESS);
                  (if EFI_ERROR Status then State_Monad.return (Status, Some (Enabled, Pending), Time)
                   else do {
                     (Status, EpochSeconds) \<leftarrow> GetRtc F RpiRtcAlarm;
                     State_Monad.return
                       (if EFI_ERROR Status then (Status, Some (Enabled, Pending), Time)
                        else (EFI_SUCCESS, Some (Enabled, Pending),
                              Some (EpochToEfiTime L (ucast (OffsetTimeZoneEpoch t EpochSeconds True)) t)))
                   })
                })
             })
          })"

definition LibSetWakeupTime :: "time_lib \<Rightarrow> 's rtc_fw \<Rightarrow> bool \<Rightarrow> rtc_time option \<Rightarrow> ('s, efi_status) state" where
  "LibSetWakeupTime L F Enabled Time = do {
     Status \<leftarrow>
       (if Enabled then
          (case Time of
             None \<Rightarrow> State_Monad.return EFI_INVALID_PARAMETER
           | Some t \<Rightarrow>
               if \<not> IsTimeValid L t then State_Monad.return EFI_INVALID_PARAMETER
               else SetRtc F RpiRtcAlarm (OffsetTimeZoneEpoch t (ucast (EfiTimeToEpoch L t)) False))
        else State_Monad.return EFI_SUCCESS);
     (if EFI_ERROR Status then State_Monad.return Status
      else SetRtc F RpiRtcAlarmEnable (if Enabled then 1 else 0))
   }"

text \<open>
  The constructor. \<open>Locate\<close> and \<open>CreateEventEx\<close> are the boot services it calls, \<open>Stack\<close> the contents of
  its uninitialised \<open>Time\<close>.
\<close>

definition LibRtcInitialize ::
  "time_lib \<Rightarrow> 's rtc_fw \<Rightarrow> u64 \<Rightarrow> ('s, efi_status) state \<Rightarrow> ('s, efi_status) state \<Rightarrow> rtc_time \<Rightarrow> ('s, efi_status) state" where
  "LibRtcInitialize L F BUILD_EPOCH Locate CreateEventEx Stack = do {
     Status \<leftarrow> Locate;
     (if EFI_ERROR Status then State_Monad.return Status
      else do {
        Status \<leftarrow> CreateEventEx;
        (if EFI_ERROR Status then State_Monad.return Status
         else do {
           (Status, Time) \<leftarrow> LibGetTime L F (Some Stack);
           (if EFI_ERROR Status then State_Monad.return Status
            else (case Time of
                None \<Rightarrow> State_Monad.return EFI_SUCCESS
              | Some t \<Rightarrow>
                  if \<not> IsTimeValid L t then do {
                    Status \<leftarrow> LibSetTime L F (Some (EpochToEfiTime L BUILD_EPOCH t));
                    State_Monad.return (if EFI_ERROR Status then Status else EFI_SUCCESS)
                  }
                  else State_Monad.return EFI_SUCCESS))
         })
      })
   }"

subsection \<open>What the firmware and the calendar promise\<close>

text \<open>
  \<open>regs\<close> shows the clock registers of a state. A read that succeeds returns the register, a write
  that succeeds stores it, and nothing else changes; time does not pass between the calls.
\<close>

definition rtc_ok :: "('s \<Rightarrow> rtc_register \<Rightarrow> u32) \<Rightarrow> 's rtc_fw \<Rightarrow> bool" where
  "rtc_ok regs F =
     ((\<forall>r s st v s'. run_state (GetRtc F r) s = ((st, v), s') \<longrightarrow> regs s' = regs s \<and> (\<not> EFI_ERROR st \<longrightarrow> v = regs s r)) \<and>
      (\<forall>r v s st s'. run_state (SetRtc F r v) s = (st, s') \<longrightarrow>
         regs s' = (if EFI_ERROR st then regs s else (regs s)(r := v))))"

text \<open>
  The calendar inverts: a valid time comes back from its seconds, whose other fields are those of
  the structure they are written to. A time zone out of range makes a time invalid.
\<close>

definition calendar_ok :: "time_lib \<Rightarrow> bool" where
  "calendar_ok L =
     ((\<forall>t u. IsTimeValid L t \<longrightarrow> TimeZone u = TimeZone t \<longrightarrow> Daylight u = Daylight t \<longrightarrow>
         EpochToEfiTime L (EfiTimeToEpoch L t) u = t) \<and>
      (\<forall>e u. TimeZone (EpochToEfiTime L e u) = TimeZone u) \<and>
      (\<forall>t. IsTimeValid L t \<longrightarrow> TimeZone t = EFI_UNSPECIFIED_TIMEZONE \<or> \<bar>sint (TimeZone t)\<bar> \<le> 1440))"

lemma ucast_u32:
  "ucast (a + b :: u64) = (ucast a + ucast b :: u32)" "ucast (- a :: u64) = (- ucast a :: u32)"
  "ucast (a - b :: u64) = (ucast a - ucast b :: u32)"
  by (simp_all add: word_uint_eq_iff uint_word_ariths unsigned_ucast_eq unsigned_take_bit_eq take_bit_eq_mod
      mod_mod_cancel mod_simps)

lemma ucast_u32_u64: "ucast (ucast x :: u64) = (x :: u32)"
  by (rule bit_word_eqI) (auto simp: bit_simps)

lemma offset_inverse:
  assumes "TimeZone u = TimeZone t" "Daylight u = Daylight t"
  shows "OffsetTimeZoneEpoch u (OffsetTimeZoneEpoch t e False) True = e"
  using assms by (simp add: OffsetTimeZoneEpoch_def ucast_u32 ucast_u32_u64)

lemma runs_GetRtc:
  assumes "rtc_ok regs F"
    and "\<And>st v s'. regs s' = regs s \<Longrightarrow> (\<not> EFI_ERROR st \<Longrightarrow> v = regs s r) \<Longrightarrow> Q (st, v) s'"
  shows "runs (GetRtc F r) s Q"
proof (rule runsI)
  fix x s' assume r: "run_state (GetRtc F r) s = (x, s')"
  obtain st v where [simp]: "x = (st, v)" by (cases x)
  have "regs s' = regs s \<and> (\<not> EFI_ERROR st \<longrightarrow> v = regs s r)"
    using assms(1) r unfolding rtc_ok_def \<open>x = (st, v)\<close> by blast
  then show "Q x s'" using assms(2) by simp
qed

lemma runs_SetRtc:
  assumes "rtc_ok regs F"
    and "\<And>st s'. regs s' = (if EFI_ERROR st then regs s else (regs s)(r := v)) \<Longrightarrow> Q st s'"
  shows "runs (SetRtc F r v) s Q"
proof (rule runsI)
  fix st s' assume "run_state (SetRtc F r v) s = (st, s')"
  then have "regs s' = (if EFI_ERROR st then regs s else (regs s)(r := v))"
    using assms(1) unfolding rtc_ok_def by blast
  then show "Q st s'" by (rule assms(2))
qed

lemma calendar_back:
  assumes "calendar_ok L" "IsTimeValid L t" "EfiTimeToEpoch L t < 0x100000000"
    and "TimeZone u = TimeZone t" "Daylight u = Daylight t"
  shows "EpochToEfiTime L (ucast (OffsetTimeZoneEpoch u (OffsetTimeZoneEpoch t (ucast (EfiTimeToEpoch L t)) False) True)) u = t"
proof -
  have "ucast (ucast (EfiTimeToEpoch L t) :: u32) = EfiTimeToEpoch L t"
    using assms(3) by (simp add: word_less_nat_alt word_unat_eq_iff unsigned_ucast_eq unsigned_take_bit_eq take_bit_nat_eq_self)
  then show ?thesis
    using assms(1,2,4,5) unfolding offset_inverse [OF assms(4,5)] by (simp add: calendar_ok_def)
qed

lemma runs_SetTime:
  assumes "rtc_ok regs F"
    and "\<And>st s'. \<not> EFI_ERROR st \<Longrightarrow> IsTimeValid L t \<and> regs s' = (regs s)(RpiRtcTime := OffsetTimeZoneEpoch t (ucast (EfiTimeToEpoch L t)) False)
      \<Longrightarrow> Q st s'"
    and "\<And>st s'. EFI_ERROR st \<Longrightarrow> regs s' = regs s \<Longrightarrow> Q st s'"
  shows "runs (LibSetTime L F (Some t)) s Q"
  unfolding LibSetTime_def option.case
  by (intro runs_rules runs_SetRtc [OF assms(1)]) (auto simp: EFI_ERROR_def intro: assms(2,3) split: if_splits)


text \<open>
  The constructor reads the time into a structure it never initialised. When the bytes on the stack
  are no time zone, the constructor fails however good the clock is, with the clock untouched: the time
  read is invalid because of them, and so is the build time it would set instead.
\<close>

theorem rtc_init_reads_stack:
  assumes "rtc_ok regs F" "calendar_ok L" "preserves regs Locate" "preserves regs CreateEventEx"
    and "run_state (LibRtcInitialize L F BUILD_EPOCH Locate CreateEventEx Stack) s = (st, s')"
    and "TimeZone Stack \<noteq> EFI_UNSPECIFIED_TIMEZONE" "\<bar>sint (TimeZone Stack)\<bar> > 1440"
  shows "EFI_ERROR st \<and> regs s' = regs s"
proof -
  have bad: "\<not> IsTimeValid L t" if "TimeZone t = TimeZone Stack" for t
    using assms(2,6,7) that by (auto simp: calendar_ok_def)
  have tz: "TimeZone (EpochToEfiTime L e u) = TimeZone u" for e u
    using assms(2) by (simp add: calendar_ok_def)
  have "runs (LibRtcInitialize L F BUILD_EPOCH Locate CreateEventEx Stack) s (\<lambda>st s'. EFI_ERROR st \<and> regs s' = regs s)"
    unfolding LibRtcInitialize_def LibGetTime_def LibSetTime_def option.case
    by (intro runs_rules runs_preserves [OF assms(3)] runs_preserves [OF assms(4)] runs_GetRtc [OF assms(1)])
      (auto simp: bad tz EFI_ERROR_def runs_def split: if_splits)
  from runsD [OF this assms(5)] show ?thesis .
qed

subsection \<open>On a concrete clock\<close>

text \<open>The calendar of the first of January 2026, and firmware whose registers are a function.\<close>

definition demo_calendar :: time_lib where
  "demo_calendar =
     \<lparr>IsTimeValid = (\<lambda>t. Year t = 2026 \<and> Month t = 1 \<and> Day t = 1 \<and> unat (Hour t) < 24 \<and> unat (Minute t) < 60 \<and>
        unat (Second t) < 60 \<and> (TimeZone t = EFI_UNSPECIFIED_TIMEZONE \<or> \<bar>sint (TimeZone t)\<bar> \<le> 1440)),
      EfiTimeToEpoch = (\<lambda>t. of_nat (1767225600 + (unat (Hour t) * 3600 + unat (Minute t) * 60 + unat (Second t)))),
      EpochToEfiTime = (\<lambda>e u. let n = unat e - 1767225600 in
        u\<lparr>Year := 2026, Month := 1, Day := 1, Hour := of_nat (n div 3600), Minute := of_nat (n mod 3600 div 60),
          Second := of_nat (n mod 60)\<rparr>)\<rparr>"

definition ram_rtc :: "(rtc_register \<Rightarrow> u32) rtc_fw" where
  "ram_rtc = \<lparr>GetRtc = (\<lambda>r. State (\<lambda>s. ((EFI_SUCCESS, s r), s))), SetRtc = (\<lambda>r v. State (\<lambda>s. (EFI_SUCCESS, s(r := v))))\<rparr>"

lemma ram_rtc_ok: "rtc_ok (\<lambda>s. s) ram_rtc"
  by (auto simp: rtc_ok_def ram_rtc_def EFI_ERROR_def)

lemma clock_digits:
  assumes "m < 60" "s < 60"
  shows "(h * 3600 + m * 60 + s) div 3600 = h" "(h * 3600 + m * 60 + s) mod 3600 div 60 = m"
    "(h * 3600 + m * 60 + s) mod 60 = (s :: nat)"
proof -
  have n: "h * 3600 + m * 60 + s = (m * 60 + s) + 3600 * h" "m * 60 + s < 3600" using assms by simp_all
  show "(h * 3600 + m * 60 + s) div 3600 = h" "(h * 3600 + m * 60 + s) mod 3600 div 60 = m"
    unfolding n(1) using n(2) assms by simp_all
  show "(h * 3600 + m * 60 + s) mod 60 = s"
    using assms by (simp add: mod_add_eq [symmetric, of "h * 3600 + m * 60"] mod_mult_right_eq)
qed

lemma demo_calendar_ok: "calendar_ok demo_calendar"
proof -
  have e: "EpochToEfiTime demo_calendar (EfiTimeToEpoch demo_calendar t) u = t"
    if v: "IsTimeValid demo_calendar t" "TimeZone u = TimeZone t" "Daylight u = Daylight t" for t u
  proof -
    let ?n = "unat (Hour t) * 3600 + unat (Minute t) * 60 + unat (Second t)"
    have b: "unat (Hour t) < 24" "unat (Minute t) < 60" "unat (Second t) < 60" "Year t = 2026" "Month t = 1" "Day t = 1"
      using v(1) by (simp_all add: demo_calendar_def)
    have w: "unat (of_nat n :: u64) = n" if "n < 2 ^ 64" for n
      using that by (simp add: unsigned_of_nat take_bit_nat_eq_self)
    have "1767225600 + ?n < 2 ^ 64" using b by simp
    then have "EpochToEfiTime demo_calendar (EfiTimeToEpoch demo_calendar t) u =
        u\<lparr>Year := 2026, Month := 1, Day := 1, Hour := of_nat (?n div 3600), Minute := of_nat (?n mod 3600 div 60),
          Second := of_nat (?n mod 60)\<rparr>"
      by (simp only: demo_calendar_def time_lib.select_convs w Let_def diff_add_inverse)
    then show ?thesis using b v(2,3) unfolding clock_digits [OF b(2,3)] by (cases t; cases u) simp
  qed
  show ?thesis
    unfolding calendar_ok_def using e by (auto simp: demo_calendar_def Let_def)
qed

definition demo_time :: rtc_time where
  "demo_time = \<lparr>Year = 2026, Month = 1, Day = 1, Hour = 13, Minute = 37, Second = 42, TimeZone = 60, Daylight = 0\<rparr>"


theorem rtc_init_reads_stack_witness:
  "\<exists>st s'. run_state (LibRtcInitialize demo_calendar ram_rtc 1767225600 (State_Monad.return EFI_SUCCESS)
      (State_Monad.return EFI_SUCCESS) (demo_time\<lparr>TimeZone := 0x5A5A\<rparr>)) (\<lambda>_. 1767225600) = (st, s') \<and> EFI_ERROR st"
proof -
  obtain st s' where r: "run_state (LibRtcInitialize demo_calendar ram_rtc 1767225600 (State_Monad.return EFI_SUCCESS)
      (State_Monad.return EFI_SUCCESS) (demo_time\<lparr>TimeZone := 0x5A5A\<rparr>)) (\<lambda>_. 1767225600) = (st, s')" by (rule prod.exhaust)
  have "sint (0x5A5A :: 16 word) = 0x5A5A" by code_simp
  then show ?thesis
    using rtc_init_reads_stack [OF ram_rtc_ok demo_calendar_ok preserves_return preserves_return r] r
    by (simp add: demo_time_def EFI_UNSPECIFIED_TIMEZONE_def)
qed

end
