(* ===== verification/Power_Button.thy ===== *)
theory Power_Button
  imports Boot_Config Platform_Memory
begin

section \<open>The power button (PowerButtonDxe.c)\<close>

text \<open>
  The driver finds the button and its GPIO bank in the device tree, arms the bank's edge detection, and
  samples the latched edge and the level from a 50 ms timer; the first press asks for power-off or reset.
  \<open>pb_svc\<close> are the boot services it calls, \<open>fdt_nodes\<close> the iterators of the device tree library
  beside those of \<^verbatim>\<open>fdt_lib\<close>; its own copies of \<^verbatim>\<open>ReadCells\<close> and of the address translation are
  those of \<^verbatim>\<open>Fdt_Reg\<close>, word for word.

  The second half adds the GPIO bank of \<^verbatim>\<open>gpio-brcmstb\<close> as the driver's comments describe it, and
  the reachable states of driver and bank.
\<close>

definition GIO_BANK_SIZE :: u32 where "GIO_BANK_SIZE = 0x20"
definition GIO_REG_EC :: u64 where "GIO_REG_EC = 0x0c"
definition GIO_REG_EI :: u64 where "GIO_REG_EI = 0x10"
definition GIO_REG_MASK :: u64 where "GIO_REG_MASK = 0x14"
definition GIO_REG_STAT :: u64 where "GIO_REG_STAT = 0x1c"
definition BLCONFIG_STAGE_MAX :: nat where "BLCONFIG_STAGE_MAX = 8 * 1024"

record pb_globals =
  mBankBase :: u64
  mBitMask :: u32
  mActiveLow :: bool
  mPowerOffOnHalt :: bool
  mTriggered :: bool

record fdt_nodes =
  FdtNextCompatible :: "int \<Rightarrow> string \<Rightarrow> int"
  FdtFirstSubnode :: "int \<Rightarrow> int"
  FdtNextSubnode :: "int \<Rightarrow> int"

record 's pb_svc =
  PbCreateEvent :: "('s, efi_status) state"
  PbSetTimer :: "bool \<Rightarrow> ('s, efi_status) state"
  PbCloseEvent :: "('s, efi_status) state"
  PbResetSystem :: "bool \<Rightarrow> ('s, unit) state"

subsection \<open>The configuration text\<close>

definition GetTranslatedRegAddress :: "fdt_lib \<Rightarrow> int \<Rightarrow> (u64 \<times> u64) option option" where
  "GetTranslatedRegAddress = BlGetTranslatedRegAddress"

definition PbFindBlconfigNode :: "fdt_lib \<Rightarrow> int" where
  "PbFindBlconfigNode Fdt =
     (let Node = FdtNodeOffsetByCompatible Fdt ''raspberrypi,bootloader-config'' in
      if Node \<ge> 0 then Node else FdtPathOffset Fdt ''blconfig'')"

definition HaltKey :: "u8 list" where "HaltKey = ascii ''POWER_OFF_ON_HALT=''"

text \<open>The scan from \<open>Pos\<close> on, on the rest of the data.\<close>

function HaltScan :: "u8 list \<Rightarrow> bool" where
  "HaltScan Data =
     (if Data = [] \<or> hd Data = 0 then False
      else if length Data > length HaltKey \<and> take (length HaltKey) Data = HaltKey
      then Data ! length HaltKey = 49
      else
       (let r = dropWhile (\<lambda>b. b \<noteq> 0 \<and> b \<noteq> 10) Data in
        HaltScan (if r \<noteq> [] \<and> hd r = 10 then tl r else r)))"
  by pat_completeness auto
termination
proof (relation "measure length", goal_cases)
  case (2 Data r)
  then obtain b bs where d: "Data = b # bs" "b \<noteq> 0" by (cases Data) auto
  have "length (dropWhile (\<lambda>b. b \<noteq> 0 \<and> b \<noteq> 10) bs) \<le> length bs" by (rule length_dropWhile_le)
  then show ?case using 2 d by auto
qed simp

declare HaltScan.simps [simp del]

definition ReadPowerOffOnHalt :: "(nat \<Rightarrow> bool) \<Rightarrow> (u64 \<Rightarrow> u8) \<Rightarrow> fdt_lib \<Rightarrow> bool option" where
  "ReadPowerOffOnHalt Alloc Region Fdt =
     (let Node = PbFindBlconfigNode Fdt in
      if Node < 0 then Some False
      else (case GetTranslatedRegAddress Fdt Node of
              None \<Rightarrow> None
            | Some None \<Rightarrow> Some False
            | Some (Some (RegionAddress, RegionSize)) \<Rightarrow>
                if RegionAddress = 0 \<or> RegionSize = 0 \<or> unat RegionSize \<ge> BLCONFIG_REGION_MAX then Some False
                else
                 (let DataLen = min (unat RegionSize) BLCONFIG_STAGE_MAX in
                  if \<not> Alloc DataLen then Some False
                  else Some (HaltScan (map (\<lambda>Index. Region (RegionAddress + of_nat Index)) [0..<DataLen])))))"

subsection \<open>The button in the device tree\<close>

definition label_is :: "fdt_lib \<Rightarrow> int \<Rightarrow> string \<Rightarrow> bool" where
  "label_is Fdt Node s =
     (case FdtGetProp Fdt Node ''label'' of None \<Rightarrow> False | Some Label \<Rightarrow> takeWhile (\<lambda>b. b \<noteq> 0) Label = ascii s)"

text \<open>From a button's node to its specifier: controller, line and flags.\<close>

definition ButtonSpec :: "fdt_lib \<Rightarrow> int \<Rightarrow> (int \<times> u32 \<times> u32) option" where
  "ButtonSpec Fdt Button =
     (case FdtGetProp Fdt Button ''gpios'' of
        None \<Rightarrow> None
      | Some Gpios \<Rightarrow>
          if length Gpios < 8 then None
          else
           (let Controller = FdtNodeOffsetByPhandle Fdt (fdt_cell Gpios 0) in
            if Controller < 0 then None
            else (case FdtGetProp Fdt Controller ''#gpio-cells'' of
                    None \<Rightarrow> None
                  | Some Prop \<Rightarrow>
                      if length Prop \<noteq> 4 then None
                      else
                       (let GpioCells = sint (fdt_cell Prop 0) in
                        if GpioCells < 1 \<or> GpioCells > 3 \<or> int (length Gpios) < (1 + GpioCells) * 4 then None
                        else Some (Controller, fdt_cell Gpios 1,
                                   if GpioCells \<ge> 2 then fdt_cell Gpios (nat GpioCells) else 0)))))"

text \<open>The first button of a \<open>gpio-keys\<close> node, and of all of them; \<open>None\<close> when the iteration does not end.\<close>

partial_function (option) SubnodeLoop :: "fdt_lib \<Rightarrow> fdt_nodes \<Rightarrow> int \<Rightarrow> int option option" where
  "SubnodeLoop Fdt N Button =
     (if Button \<ge> 0
      then (if label_is Fdt Button ''pwr_button'' then Some (Some Button)
            else SubnodeLoop Fdt N (FdtNextSubnode N Button))
      else Some None)"

partial_function (option) KeysLoop :: "fdt_lib \<Rightarrow> fdt_nodes \<Rightarrow> int \<Rightarrow> (int \<times> u32 \<times> u32) option option" where
  "KeysLoop Fdt N Keys =
     (if Keys \<ge> 0
      then (case SubnodeLoop Fdt N (FdtFirstSubnode N Keys) of
              None \<Rightarrow> None
            | Some (Some Button) \<Rightarrow> Some (ButtonSpec Fdt Button)
            | Some None \<Rightarrow> KeysLoop Fdt N (FdtNextCompatible N Keys ''gpio-keys''))
      else Some None)"

definition FindPowerButton :: "fdt_lib \<Rightarrow> fdt_nodes \<Rightarrow> (int \<times> u32 \<times> u32) option option" where
  "FindPowerButton Fdt N = KeysLoop Fdt N (FdtNextCompatible N (-1) ''gpio-keys'')"

text \<open>Bank and bit of a line, by the widths of the banks.\<close>

fun BankLoop :: "u32 list \<Rightarrow> u32 \<Rightarrow> u32 \<Rightarrow> (u32 \<times> u32) option" where
  "BankLoop [] Line Bank = None"
| "BankLoop (Width # Widths) Line Bank =
     (if Line < Width then Some (Bank, Line) else BankLoop Widths (Line - Width) (Bank + 1))"

definition BankOf :: "fdt_lib \<Rightarrow> int \<Rightarrow> u32 \<Rightarrow> (u32 \<times> u32) option" where
  "BankOf Fdt Controller GpioNumber =
     (case FdtGetProp Fdt Controller ''brcm,gpio-bank-widths'' of
        Some Widths \<Rightarrow>
          if length Widths \<ge> 4 then BankLoop (map (fdt_cell Widths) [0..<length Widths div 4]) GpioNumber 0
          else Some (GpioNumber div 32, GpioNumber mod 32)
      | None \<Rightarrow> Some (GpioNumber div 32, GpioNumber mod 32))"

subsection \<open>The poll and the entry point\<close>

definition PowerButtonPoll :: "'s iodev \<Rightarrow> 's pb_svc \<Rightarrow> pb_globals \<Rightarrow> ('s, pb_globals) state" where
  "PowerButtonPoll D S G =
     (if mTriggered G then State_Monad.return G
      else do {
        Stat \<leftarrow> MmioRead32 D (mBankBase G + GIO_REG_STAT);
        Pressed \<leftarrow>
          (if Stat AND mBitMask G \<noteq> 0
           then do { MmioWrite32 D (mBankBase G + GIO_REG_STAT) (mBitMask G); State_Monad.return True }
           else do {
             Data \<leftarrow> MmioRead32 D (mBankBase G + GIO_REG_DATA);
             State_Monad.return (if mActiveLow G then Data AND mBitMask G = 0 else Data AND mBitMask G \<noteq> 0)
           });
        (if \<not> Pressed then State_Monad.return G
         else do {
           PbSetTimer S False;
           PbResetSystem S (mPowerOffOnHalt G);
           State_Monad.return (G\<lparr>mTriggered := True\<rparr>)
         })
      })"

definition ArmButton :: "'s iodev \<Rightarrow> pb_globals \<Rightarrow> ('s, unit) state" where
  "ArmButton D G = do {
     MmioOr32 D (mBankBase G + GIO_REG_IODIR) (mBitMask G);
     (if mActiveLow G then MmioAnd32 D (mBankBase G + GIO_REG_EC) (NOT (mBitMask G))
      else MmioOr32 D (mBankBase G + GIO_REG_EC) (mBitMask G));
     MmioAnd32 D (mBankBase G + GIO_REG_EI) (NOT (mBitMask G));
     MmioOr32 D (mBankBase G + GIO_REG_MASK) (mBitMask G);
     MmioWrite32 D (mBankBase G + GIO_REG_STAT) (mBitMask G)
   }"

text \<open>The globals the entry point computes from the tree, before it touches the hardware.\<close>

definition ButtonGlobals ::
  "(nat \<Rightarrow> bool) \<Rightarrow> (u64 \<Rightarrow> u8) \<Rightarrow> fdt_lib option \<Rightarrow> fdt_nodes \<Rightarrow> pb_globals option option" where
  "ButtonGlobals Alloc Region Dtb N =
     (case Dtb of
        None \<Rightarrow> Some None
      | Some Fdt \<Rightarrow>
          if FdtCheckHeader Fdt \<noteq> 0 then Some None
          else (case FindPowerButton Fdt N of
              None \<Rightarrow> None
            | Some None \<Rightarrow> Some None
            | Some (Some (Controller, GpioNumber, Flags)) \<Rightarrow>
               (case GetTranslatedRegAddress Fdt Controller of
                  None \<Rightarrow> None
                | Some None \<Rightarrow> Some None
                | Some (Some (GioBase, GioSize)) \<Rightarrow>
                   (case BankOf Fdt Controller GpioNumber of
                      None \<Rightarrow> Some None
                    | Some (Bank, Line) \<Rightarrow>
                        map_option (\<lambda>halt. Some
                          \<lparr>mBankBase = GioBase + ucast (Bank * GIO_BANK_SIZE), mBitMask = push_bit (unat Line) 1,
                           mActiveLow = bit Flags 0, mPowerOffOnHalt = halt, mTriggered = False\<rparr>)
                         (ReadPowerOffOnHalt Alloc Region Fdt)))))"

definition PowerButtonEntryPoint :: "'s iodev \<Rightarrow> 's pb_svc \<Rightarrow> pb_globals option \<Rightarrow> ('s, efi_status) state" where
  "PowerButtonEntryPoint D S Globals =
     (case Globals of
        None \<Rightarrow> State_Monad.return EFI_NOT_FOUND
      | Some G \<Rightarrow> do {
          ArmButton D G;
          Status \<leftarrow> PbCreateEvent S;
          (if EFI_ERROR Status then State_Monad.return Status
           else do {
             Status \<leftarrow> PbSetTimer S True;
             (if EFI_ERROR Status then do { PbCloseEvent S; State_Monad.return Status }
              else State_Monad.return EFI_SUCCESS)
           })
        })"

subsection \<open>The flag in the text\<close>

lemma halt_key: "0 \<notin> set HaltKey" "10 \<notin> set HaltKey" "length HaltKey = 18" "HaltKey \<noteq> []"
  by (simp_all add: HaltKey_def ascii_def of_char_def)

lemma dropWhile_both:
  "takeWhile (\<lambda>b. b \<noteq> 0) (let r = dropWhile (\<lambda>b. b \<noteq> 0 \<and> b \<noteq> 10) d in if r \<noteq> [] \<and> hd r = 10 then tl r else r) =
     drop 1 (dropWhile not_nl (takeWhile (\<lambda>b. b \<noteq> 0) d))"
  by (induction d) (auto simp: not_nl_def)

lemma takeWhile_both: "takeWhile not_nl (takeWhile (\<lambda>b. b \<noteq> 0) d) = takeWhile (\<lambda>b. b \<noteq> 0 \<and> b \<noteq> 10) d"
  by (induction d) (auto simp: not_nl_def)

lemma prefix_line:
  assumes "\<forall>c\<in>set k. P c"
  shows "take (length k) (takeWhile P d) = k \<longleftrightarrow> take (length k) d = k"
  using assms
proof (induction k arbitrary: d)
  case (Cons c k)
  then show ?case by (cases d) auto
qed simp

lemma line_nth:
  assumes "\<forall>c\<in>set k. P c" "take (length k) d = k" "length k < length d"
  shows "length k < length (takeWhile P d) \<longleftrightarrow> P (d ! length k)"
    and "P (d ! length k) \<Longrightarrow> takeWhile P d ! length k = d ! length k"
  using assms
proof (induction k arbitrary: d)
  case Nil
  { case 1 then show ?case by (cases d) auto }
  { case 2 then show ?case by (cases d) auto }
next
  case (Cons c k)
  { case 1 then show ?case using Cons.IH by (cases d) auto }
  { case 2 then show ?case using Cons.IH by (cases d) auto }
qed

text \<open>
  The press action. The driver's scan of the configuration region decides exactly by the first
  line of the text, up to the first NUL, that starts with the key: power-off when the next character is a one. Later lines
  of the key do not count, whereas the setup page takes the last one.
\<close>

theorem halt_flag_first_line:
  "HaltScan Data =
     (case find (\<lambda>l. take (length HaltKey) l = HaltKey) (text_lines (takeWhile (\<lambda>b. b \<noteq> 0) Data)) of
        None \<Rightarrow> False
      | Some l \<Rightarrow> length HaltKey < length l \<and> l ! length HaltKey = 49)"
proof (induction Data rule: HaltScan.induct)
  case (1 d)
  let ?K = "length HaltKey" and ?t = "takeWhile (\<lambda>b. b \<noteq> 0) d" and ?P = "\<lambda>b :: u8. b \<noteq> 0 \<and> b \<noteq> 10"
  let ?l = "takeWhile ?P d"
  have P: "\<forall>c\<in>set HaltKey. ?P c" using halt_key(1,2) by (metis (no_types))
  show ?case
  proof (cases "d = [] \<or> hd d = 0")
    case True
    then have "?t = []" by (cases d) auto
    with True show ?thesis by (subst HaltScan.simps) simp
  next
    case False
    then have "?t \<noteq> []" by (cases d) auto
    then have lines: "text_lines ?t = ?l # text_lines (drop 1 (dropWhile not_nl ?t))"
      by (subst text_lines.simps) (simp add: takeWhile_both)
    show ?thesis
    proof (cases "take ?K d = HaltKey")
      case True
      then have head: "take ?K ?l = HaltKey" using prefix_line [OF P] by blast
      show ?thesis
      proof (cases "?K < length d")
        case long: True
        then have "HaltScan d = (d ! ?K = 49)" using True False by (subst HaltScan.simps) simp
        then show ?thesis
          using line_nth [OF P True long] by (auto simp: lines head)
      next
        case short: False
        then have "d = HaltKey" using True by simp
        moreover have "HaltScan HaltKey = False"
          using P by (subst HaltScan.simps) (simp add: HaltScan.simps [of "[]"] dropWhile_eq_Nil_conv [THEN iffD2, OF P])
        ultimately have "\<not> HaltScan d" by simp
        moreover have "\<not> ?K < length ?l" using short length_takeWhile_le [of ?P d] by linarith
        ultimately show ?thesis using head lines by simp
      qed
    next
      case no: False
      then have head: "take ?K ?l \<noteq> HaltKey" using prefix_line [OF P] by blast
      have "HaltScan d = HaltScan (let r = dropWhile ?P d in if r \<noteq> [] \<and> hd r = 10 then tl r else r)"
        using no False by (subst HaltScan.simps) (simp add: Let_def)
      also have "\<dots> = (case find (\<lambda>l. take ?K l = HaltKey) (text_lines (drop 1 (dropWhile not_nl ?t))) of
          None \<Rightarrow> False | Some l \<Rightarrow> ?K < length l \<and> l ! ?K = 49)"
        using 1 no False unfolding dropWhile_both [symmetric] by (simp add: Let_def)
      finally show ?thesis using head by (simp add: lines)
    qed
  qed
qed

subsection \<open>Bank and bit\<close>

text \<open>
  The line's bank and bit: counting the lines of the banks in order, the line is bit \<open>o\<close> of
  bank \<open>i\<close>; there is none beyond the last bank.
\<close>

lemma BankLoop_iff:
  assumes "sum_list (map unat Widths) < 2 ^ 32"
  shows "BankLoop Widths Line Bank = Some (B, off) \<longleftrightarrow>
    (\<exists>i<length Widths. B = Bank + of_nat i \<and> unat off < unat (Widths ! i) \<and>
       unat Line = sum_list (map unat (take i Widths)) + unat off)"
  using assms
proof (induction Widths arbitrary: Line Bank)
  case (Cons w ws)
  show ?case
  proof (cases "Line < w")
    case True
    then have "BankLoop (w # ws) Line Bank = Some (B, off) \<longleftrightarrow> B = Bank \<and> off = Line" by auto
    moreover have "unat Line < unat w" using True by (simp add: word_less_nat_alt)
    ultimately show ?thesis
      by (auto simp: word_unat_eq_iff less_Suc_eq_0_disj intro!: exI [of _ "0 :: nat"])
  next
    case False
    then have u: "unat (Line - w) = unat Line - unat w" "unat w \<le> unat Line"
      by (simp_all add: not_less unat_sub word_le_nat_alt)
    have "sum_list (map unat ws) < 2 ^ 32" using Cons.prems by simp
    from Cons.IH [OF this, of "Line - w" "Bank + 1"]
    have IH: "BankLoop (w # ws) Line Bank = Some (B, off) \<longleftrightarrow>
        (\<exists>i<length ws. B = Bank + 1 + of_nat i \<and> unat off < unat (ws ! i) \<and>
           unat (Line - w) = sum_list (map unat (take i ws)) + unat off)"
      using False by simp
    have ex: "(\<exists>i<Suc n. Q i) \<longleftrightarrow> Q 0 \<or> (\<exists>i<n. Q (Suc i))" for n and Q :: "nat \<Rightarrow> bool"
      by (auto simp: less_Suc_eq_0_disj)
    have eq: "unat (Line - w) = k \<longleftrightarrow> unat Line = unat w + k" for k
      using u by linarith
    show ?thesis
      unfolding IH eq length_Cons ex using u(2) by (auto simp: add.assoc)
  qed
qed simp

text \<open>
  The line's bank and bit. Counting the lines of the banks in order, the line is bit \<open>o\<close> of
  bank \<open>i\<close>, and a line beyond the last bank has none.
\<close>

theorem button_bank_exact:
  assumes "FdtGetProp Fdt Controller ''brcm,gpio-bank-widths'' = Some Widths" "4 \<le> length Widths"
    and "ws = map (fdt_cell Widths) [0..<length Widths div 4]" "sum_list (map unat ws) < 2 ^ 32"
  shows "BankOf Fdt Controller Line = Some (B, off) \<longleftrightarrow>
    (\<exists>i<length ws. B = of_nat i \<and> unat off < unat (ws ! i) \<and>
       unat Line = sum_list (map unat (take i ws)) + unat off)"
  using BankLoop_iff [OF assms(4), of Line 0 B off] assms(1-3) by (simp add: BankOf_def)

subsection \<open>The bank of GPIO lines\<close>

record gio_hw =
  hlevel :: u32
  hdir :: u32
  hec :: u32
  hei :: u32
  hmask :: u32
  hstat :: u32
  htimer :: bool
  hresets :: "bool list"

definition gio_dev :: "u64 \<Rightarrow> gio_hw iodev" where
  "gio_dev B =
     \<lparr>io_rd = (\<lambda>a s. (if a = B + GIO_REG_STAT then hstat s else if a = B + GIO_REG_DATA then hlevel s
                else if a = B + GIO_REG_IODIR then hdir s else if a = B + GIO_REG_EC then hec s
                else if a = B + GIO_REG_EI then hei s else if a = B + GIO_REG_MASK then hmask s else 0, s)),
      io_wr = (\<lambda>a v s. if a = B + GIO_REG_STAT then s\<lparr>hstat := hstat s AND NOT v\<rparr>
                else if a = B + GIO_REG_IODIR then s\<lparr>hdir := v\<rparr> else if a = B + GIO_REG_EC then s\<lparr>hec := v\<rparr>
                else if a = B + GIO_REG_EI then s\<lparr>hei := v\<rparr> else if a = B + GIO_REG_MASK then s\<lparr>hmask := v\<rparr> else s),
      io_stall = (\<lambda>us s. s)\<rparr>"

text \<open>The lines change: with the mask set, \<^verbatim>\<open>STAT\<close> latches both edges or the configured one.\<close>

definition set_lines :: "u32 \<Rightarrow> gio_hw \<Rightarrow> gio_hw" where
  "set_lines L s =
     (let rise = L AND NOT (hlevel s); fall = hlevel s AND NOT L;
          edge = (hei s AND (rise OR fall)) OR (NOT (hei s) AND ((hec s AND rise) OR (NOT (hec s) AND fall))) in
      s\<lparr>hlevel := L, hstat := hstat s OR (hmask s AND edge)\<rparr>)"

text \<open>Boot services whose calls may fail; the timer and the resets that were asked for are recorded.\<close>

definition gio_svc :: "efi_status \<Rightarrow> (bool \<Rightarrow> efi_status) \<Rightarrow> gio_hw pb_svc" where
  "gio_svc c t =
     \<lparr>PbCreateEvent = State_Monad.return c,
      PbSetTimer = (\<lambda>on. State (\<lambda>s. (t on, if EFI_ERROR (t on) then s else s\<lparr>htimer := on\<rparr>))),
      PbCloseEvent = State_Monad.return EFI_SUCCESS,
      PbResetSystem = (\<lambda>halt. State (\<lambda>s. ((), s\<lparr>hresets := hresets s @ [halt]\<rparr>)))\<rparr>"

definition pressed :: "pb_globals \<Rightarrow> u32 \<Rightarrow> bool" where
  "pressed G L = (if mActiveLow G then L AND mBitMask G = 0 else L AND mBitMask G \<noteq> 0)"

text \<open>
  Driver and bank from the entry point on; the flag remembers whether the button went down since. The
  poll may come at any time, even after the timer was cancelled.
\<close>

inductive button_reach :: "efi_status \<Rightarrow> (bool \<Rightarrow> efi_status) \<Rightarrow> pb_globals \<Rightarrow> pb_globals \<Rightarrow> gio_hw \<Rightarrow> bool \<Rightarrow> bool"
  for c t G0 where
  armed: "hresets h = [] \<Longrightarrow> run_state (PowerButtonEntryPoint (gio_dev (mBankBase G0)) (gio_svc c t) (Some G0)) h = (EFI_SUCCESS, h') \<Longrightarrow>
    button_reach c t G0 G0 h' False"
| lines: "button_reach c t G0 G h d \<Longrightarrow>
    button_reach c t G0 G (set_lines L h) (d \<or> \<not> pressed G0 (hlevel h) \<and> pressed G0 L)"
| poll: "button_reach c t G0 G h d \<Longrightarrow>
    run_state (PowerButtonPoll (gio_dev (mBankBase G0)) (gio_svc c t) G) h = (G', h') \<Longrightarrow> button_reach c t G0 G' h' d"

lemma gio_sel [io_simps]:
  "io_rd (gio_dev B) (B + GIO_REG_STAT) s = (hstat s, s)" "io_rd (gio_dev B) (B + GIO_REG_DATA) s = (hlevel s, s)"
  "io_rd (gio_dev B) (B + GIO_REG_IODIR) s = (hdir s, s)" "io_rd (gio_dev B) (B + GIO_REG_EC) s = (hec s, s)"
  "io_rd (gio_dev B) (B + GIO_REG_EI) s = (hei s, s)" "io_rd (gio_dev B) (B + GIO_REG_MASK) s = (hmask s, s)"
  "io_wr (gio_dev B) (B + GIO_REG_STAT) v s = s\<lparr>hstat := hstat s AND NOT v\<rparr>"
  "io_wr (gio_dev B) (B + GIO_REG_IODIR) v s = s\<lparr>hdir := v\<rparr>" "io_wr (gio_dev B) (B + GIO_REG_EC) v s = s\<lparr>hec := v\<rparr>"
  "io_wr (gio_dev B) (B + GIO_REG_EI) v s = s\<lparr>hei := v\<rparr>" "io_wr (gio_dev B) (B + GIO_REG_MASK) v s = s\<lparr>hmask := v\<rparr>"
  by (simp_all add: gio_dev_def GIO_REG_STAT_def GIO_REG_DATA_def GIO_REG_IODIR_def GIO_REG_EC_def GIO_REG_EI_def GIO_REG_MASK_def)

lemma run_ArmButton:
  "run_state (ArmButton (gio_dev (mBankBase G)) G) h =
     ((), h\<lparr>hdir := hdir h OR mBitMask G,
            hec := if mActiveLow G then hec h AND NOT (mBitMask G) else hec h OR mBitMask G,
            hei := hei h AND NOT (mBitMask G), hmask := hmask h OR mBitMask G, hstat := hstat h AND NOT (mBitMask G)\<rparr>)"
  by (simp add: ArmButton_def io_simps)

definition button_inv :: "pb_globals \<Rightarrow> nat \<Rightarrow> pb_globals \<Rightarrow> gio_hw \<Rightarrow> bool \<Rightarrow> bool" where
  "button_inv G0 k G h d =
     (G = G0\<lparr>mTriggered := mTriggered G\<rparr> \<and> bit (hmask h) k \<and> \<not> bit (hei h) k \<and> (bit (hec h) k \<longleftrightarrow> \<not> mActiveLow G0) \<and>
      (if mTriggered G then hresets h = [mPowerOffOnHalt G0] else hresets h = [] \<and> (bit (hstat h) k \<longleftrightarrow> d)))"

lemma run_PowerButtonPoll:
  assumes "\<not> mTriggered G"
  shows "run_state (PowerButtonPoll (gio_dev (mBankBase G)) (gio_svc c t) G) h =
    (let edge = hstat h AND mBitMask G \<noteq> 0; h1 = (if edge then h\<lparr>hstat := hstat h AND NOT (mBitMask G)\<rparr> else h);
         h2 = (if EFI_ERROR (t False) then h1 else h1\<lparr>htimer := False\<rparr>) in
     if edge \<or> pressed G (hlevel h) then (G\<lparr>mTriggered := True\<rparr>, h2\<lparr>hresets := hresets h @ [mPowerOffOnHalt G]\<rparr>)
     else (G, h))"
  using assms by (simp add: PowerButtonPoll_def io_simps gio_svc_def pressed_def Let_def)

lemma poll_inv:
  assumes "mBitMask G0 = push_bit k 1" "button_inv G0 k G h d"
    and "run_state (PowerButtonPoll (gio_dev (mBankBase G0)) (gio_svc c t) G) h = (G', h')"
  shows "button_inv G0 k G' h' d \<and> (mTriggered G' \<longleftrightarrow> mTriggered G \<or> d \<or> pressed G0 (hlevel h))"
proof (cases "mTriggered G")
  case True
  then show ?thesis using assms(2,3) by (simp add: PowerButtonPoll_def)
next
  case False
  have G: "G = G0\<lparr>mTriggered := False\<rparr>" using assms(2) False by (simp add: button_inv_def)
  have base: "mBankBase G0 = mBankBase G" by (simp add: G)
  have d: "hstat h AND push_bit k 1 \<noteq> 0 \<longleftrightarrow> d"
    using assms(2) False bit_single_u32(3) [of "hstat h" k] by (simp add: button_inv_def)
  have p: "pressed G L = pressed G0 L" for L by (simp add: G pressed_def)
  show ?thesis
    using assms(2,3) False unfolding base run_PowerButtonPoll [OF False] Let_def p
    by (auto simp: button_inv_def G assms(1) d [simplified] split: if_splits)
qed

lemma lines_inv:
  assumes "mBitMask G0 = push_bit k 1" "k < 32" "button_inv G0 k G h d"
  shows "button_inv G0 k G (set_lines L h) (d \<or> \<not> pressed G0 (hlevel h) \<and> pressed G0 L)"
proof -
  have p: "pressed G0 x \<longleftrightarrow> (bit x k \<longleftrightarrow> \<not> mActiveLow G0)" for x
    using bit_single_u32(3) [of x k] by (auto simp: pressed_def assms(1))
  show ?thesis
    using assms(2,3) unfolding p by (auto simp: button_inv_def set_lines_def Let_def bit_simps)
qed

lemma reach_inv_button:
  assumes "button_reach c t G0 G h d" "mBitMask G0 = push_bit k 1" "k < 32" "\<not> mTriggered G0"
  shows "button_inv G0 k G h d"
  using assms(1)
proof induction
  case (armed h h')
  then have "h' = (snd (run_state (ArmButton (gio_dev (mBankBase G0)) G0) h))\<lparr>htimer := True\<rparr>"
    by (auto simp: PowerButtonEntryPoint_def gio_svc_def EFI_ERROR_def split: prod.splits if_splits)
  then show ?case
    using armed(1) assms(2-4) by (auto simp: run_ArmButton button_inv_def bit_simps)
next
  case (lines G h d L)
  show ?case by (rule lines_inv [OF assms(2,3) lines.IH])
next
  case (poll G h d G' h')
  show ?case using poll_inv [OF assms(2) poll.IH poll.hyps(2)] by blast
qed

text \<open>
  C26: One press, one action. In every state the armed driver can reach, whatever the other lines of the bank
  do and however short the press is: nothing has been asked for before the press, the first poll
  after the button went down, or while it is held, asks for the action the configuration names, and no poll ever
  asks again, even if the timer could not be cancelled.
\<close>

theorem button_acts_once:
  assumes "button_reach c t G0 G h down" "mBitMask G0 = push_bit k 1" "k < 32" "\<not> mTriggered G0"
    and "run_state (PowerButtonPoll (gio_dev (mBankBase G0)) (gio_svc c t) G) h = (G', h')"
  shows "hresets h = (if mTriggered G then [mPowerOffOnHalt G0] else []) \<and>
    hresets h' = (if mTriggered G \<or> down \<or> pressed G0 (hlevel h) then [mPowerOffOnHalt G0] else [])"
  using poll_inv [OF assms(2) reach_inv_button [OF assms(1-4)] assms(5)] reach_inv_button [OF assms(1-4)]
  by (auto simp: button_inv_def split: if_splits)

definition demo_button :: pb_globals where
  "demo_button = \<lparr>mBankBase = 0x107d517c00, mBitMask = push_bit 20 1, mActiveLow = True, mPowerOffOnHalt = True,
     mTriggered = False\<rparr>"

theorem button_acts_once_witness:
  "\<exists>h G' h'. button_reach EFI_SUCCESS (\<lambda>_. EFI_SUCCESS) demo_button demo_button h True \<and> hlevel h = NOT 0 \<and>
     run_state (PowerButtonPoll (gio_dev (mBankBase demo_button)) (gio_svc EFI_SUCCESS (\<lambda>_. EFI_SUCCESS)) demo_button) h =
       (G', h') \<and> hresets h' = [True]"
proof -
  let ?R = "button_reach EFI_SUCCESS (\<lambda>_. EFI_SUCCESS) demo_button"
  let ?h = "\<lparr>hlevel = NOT 0, hdir = 0, hec = 0, hei = 0, hmask = 0, hstat = 0, htimer = False, hresets = []\<rparr>"
  obtain h0 where e: "run_state (PowerButtonEntryPoint (gio_dev (mBankBase demo_button))
      (gio_svc EFI_SUCCESS (\<lambda>_. EFI_SUCCESS)) (Some demo_button)) ?h = (EFI_SUCCESS, h0)"
    and l: "hlevel h0 = NOT 0"
    by (simp add: PowerButtonEntryPoint_def run_ArmButton gio_svc_def EFI_ERROR_def)
  have r0: "?R demo_button h0 False" by (rule button_reach.armed [OF _ e]) simp
  have r1: "?R demo_button (set_lines (NOT (push_bit 20 1)) h0) True"
    using button_reach.lines [OF r0, of "NOT (push_bit 20 1)"] by (simp add: l pressed_def demo_button_def)
  have r2: "?R demo_button (set_lines (NOT 0) (set_lines (NOT (push_bit 20 1)) h0)) True"
    using button_reach.lines [OF r1, of "NOT 0"] by simp
  obtain G' h' where p: "run_state (PowerButtonPoll (gio_dev (mBankBase demo_button))
      (gio_svc EFI_SUCCESS (\<lambda>_. EFI_SUCCESS)) demo_button) (set_lines (NOT 0) (set_lines (NOT (push_bit 20 1)) h0)) = (G', h')"
    by (rule prod.exhaust)
  have "hresets h' = [True]"
    using button_acts_once [OF r2 _ _ _ p, of 20] by (simp add: demo_button_def)
  then show ?thesis using r2 p by (intro exI conjI) (auto simp: set_lines_def Let_def)
qed

theorem button_bank_exact_witness:
  "BankOf (board_fdt\<lparr>FdtGetProp := (\<lambda>n p. Some [0, 0, 0, 32, 0, 0, 0, 22])\<rparr>) 5 37 = Some (1, 5)"
proof -
  let ?W = "[0, 0, 0, 32, 0, 0, 0, 22] :: u8 list"
  have w: "[32, 22] = map (fdt_cell ?W) [0..<length ?W div 4]" and l: "4 \<le> length ?W"
    by code_simp+
  show ?thesis
    by (subst button_bank_exact [OF _ l w]) (auto intro!: exI [of _ "1 :: nat"])
qed

end
