(* ===== verification/Fmp_Device.thy ===== *)
theory Fmp_Device
  imports Platform_Memory Boot_Services
begin

section \<open>Firmware updates (Rpi5FmpDeviceLib.c)\<close>

text \<open>
  The firmware is a file on the boot partition that also carries the variable store; the library finds
  it, reads the updatable part back, checks a capsule's payload and writes it over the part in front of
  the store. File system, block device and progress callback are the record \<open>fmp_svc\<close>; \<open>fmp_ok\<close> states
  their documented behaviour through a view of the files, with every call free to fail. \<open>reads_work\<close> adds
  that an open file can be read.

  The properties: an update, complete, failed or refused, never changes a byte of the variable store
  or of any other file, and an update that succeeds is read back.
\<close>

record ('s, 'h) fmp_svc =
  FmpHandles :: "('s, efi_status \<times> nat list) state"
  FmpBlockIo :: "nat \<Rightarrow> ('s, efi_status \<times> bool \<times> bool) state"
  FmpHandleProtocol :: "nat \<Rightarrow> ('s, efi_status) state"
  FmpOpenVolume :: "nat \<Rightarrow> ('s, efi_status \<times> 'h) state"
  FmpOpen :: "'h \<Rightarrow> string \<Rightarrow> file_mode \<Rightarrow> ('s, efi_status \<times> 'h) state"
  FmpSetPosition :: "'h \<Rightarrow> nat \<Rightarrow> ('s, efi_status) state"
  FmpRead :: "'h \<Rightarrow> nat \<Rightarrow> ('s, efi_status \<times> u8 list) state"
  FmpWrite :: "'h \<Rightarrow> u8 list \<Rightarrow> ('s, efi_status \<times> nat) state"
  FmpFlush :: "'h \<Rightarrow> ('s, efi_status) state"
  FmpClose :: "'h \<Rightarrow> ('s, efi_status) state"

definition mFirmwareFileNames :: "string list" where
  "mFirmwareFileNames = [''armstub8-2712.bin'', ''RPI_EFI.FD'']"

definition RPI5_FMP_UPDATABLE_SIZE :: nat where
  "RPI5_FMP_UPDATABLE_SIZE = unat (ucast PcdNvStorageVariableBase - PcdFdBaseAddress)"

text \<open>The firmware volume header: 64 bytes, the file system's GUID at 16, the signature at 40.\<close>

definition FV_HEADER_SIZE :: nat where "FV_HEADER_SIZE = 64"
definition gEfiSystemNvDataFvGuid :: "u8 list" where
  "gEfiSystemNvDataFvGuid = [0x8D, 0x2B, 0xF1, 0xFF, 0x96, 0x76, 0x8B, 0x4C, 0xA9, 0x85, 0x27, 0x47, 0x07, 0x5B, 0x4F, 0x50]"
definition EFI_FVH_SIGNATURE :: "u8 list" where "EFI_FVH_SIGNATURE = [0x5F, 0x46, 0x56, 0x48]"

definition nv_header :: "u8 list \<Rightarrow> bool" where
  "nv_header FwVolHeader =
     (take 4 (drop 40 FwVolHeader) = EFI_FVH_SIGNATURE \<and> take 16 (drop 16 FwVolHeader) = gEfiSystemNvDataFvGuid)"

subsection \<open>Finding the file\<close>

definition Rpi5FmpCheckFirmwareFile :: "('s, 'h) fmp_svc \<Rightarrow> 'h \<Rightarrow> ('s, efi_status) state" where
  "Rpi5FmpCheckFirmwareFile S f = do {
     Status \<leftarrow> FmpSetPosition S f RPI5_FMP_UPDATABLE_SIZE;
     (if EFI_ERROR Status then State_Monad.return EFI_NOT_FOUND
      else do {
        (Status, FwVolHeader) \<leftarrow> FmpRead S f FV_HEADER_SIZE;
        State_Monad.return
          (if EFI_ERROR Status \<or> length FwVolHeader \<noteq> FV_HEADER_SIZE then EFI_NOT_FOUND
           else if \<not> nv_header FwVolHeader then EFI_NOT_FOUND
           else EFI_SUCCESS)
      })
   }"

fun FmpNames :: "('s, 'h) fmp_svc \<Rightarrow> file_mode \<Rightarrow> 'h \<Rightarrow> string list \<Rightarrow> ('s, 'h option) state" where
  "FmpNames S OpenMode Volume [] = State_Monad.return None"
| "FmpNames S OpenMode Volume (Name # Names) = do {
     (Status, Candidate) \<leftarrow> FmpOpen S Volume Name OpenMode;
     (if EFI_ERROR Status then FmpNames S OpenMode Volume Names
      else do {
        Status \<leftarrow> Rpi5FmpCheckFirmwareFile S Candidate;
        (if EFI_ERROR Status then do { FmpClose S Candidate; FmpNames S OpenMode Volume Names }
         else State_Monad.return (Some Candidate))
      })
   }"

fun FmpVolumes :: "('s, 'h) fmp_svc \<Rightarrow> file_mode \<Rightarrow> nat list \<Rightarrow> ('s, ('h \<times> 'h) option) state" where
  "FmpVolumes S OpenMode [] = State_Monad.return None"
| "FmpVolumes S OpenMode (H # Handles) = do {
     (Status, MediaPresent, ReadOnly) \<leftarrow> FmpBlockIo S H;
     (if \<not> EFI_ERROR Status \<and> (\<not> MediaPresent \<or> (ReadOnly \<and> OpenMode = FILE_READ_WRITE))
      then FmpVolumes S OpenMode Handles
      else do {
        Status \<leftarrow> FmpHandleProtocol S H;
        (if EFI_ERROR Status then FmpVolumes S OpenMode Handles
         else do {
           (Status, Volume) \<leftarrow> FmpOpenVolume S H;
           (if EFI_ERROR Status then FmpVolumes S OpenMode Handles
            else do {
              Found \<leftarrow> FmpNames S OpenMode Volume mFirmwareFileNames;
              (case Found of
                 Some Candidate \<Rightarrow> State_Monad.return (Some (Volume, Candidate))
               | None \<Rightarrow> do { FmpClose S Volume; FmpVolumes S OpenMode Handles })
            })
         })
      })
   }"

definition Rpi5FmpOpenFirmwareFile :: "('s, 'h) fmp_svc \<Rightarrow> file_mode \<Rightarrow> ('s, ('h \<times> 'h) option) state" where
  "Rpi5FmpOpenFirmwareFile S OpenMode = do {
     (Status, Handles) \<leftarrow> FmpHandles S;
     (if EFI_ERROR Status then State_Monad.return None else FmpVolumes S OpenMode Handles)
   }"

definition Rpi5FmpValidatePayload :: "u8 list option \<Rightarrow> efi_status" where
  "Rpi5FmpValidatePayload Img =
     (case Img of
        None \<Rightarrow> EFI_INVALID_PARAMETER
      | Some bs \<Rightarrow>
          if length bs < RPI5_FMP_UPDATABLE_SIZE then EFI_INVALID_PARAMETER
          else if length bs > RPI5_FMP_UPDATABLE_SIZE
          then (if length bs < RPI5_FMP_UPDATABLE_SIZE + FV_HEADER_SIZE then EFI_INVALID_PARAMETER
                else if \<not> nv_header (drop RPI5_FMP_UPDATABLE_SIZE bs) then EFI_INVALID_PARAMETER
                else EFI_SUCCESS)
          else EFI_SUCCESS)"

subsection \<open>The device library's calls\<close>

definition RegisterFmpInstaller :: efi_status where "RegisterFmpInstaller = EFI_UNSUPPORTED"
definition RegisterFmpUninstaller :: efi_status where "RegisterFmpUninstaller = EFI_UNSUPPORTED"
definition FmpDeviceSetContext :: efi_status where "FmpDeviceSetContext = EFI_UNSUPPORTED"
definition FmpDeviceGetImageTypeIdGuidPtr :: efi_status where "FmpDeviceGetImageTypeIdGuidPtr = EFI_UNSUPPORTED"
definition FmpDeviceGetLowestSupportedVersion :: efi_status where "FmpDeviceGetLowestSupportedVersion = EFI_UNSUPPORTED"
definition FmpDeviceGetHardwareInstance :: efi_status where "FmpDeviceGetHardwareInstance = EFI_UNSUPPORTED"
definition FmpDeviceLock :: efi_status where "FmpDeviceLock = EFI_UNSUPPORTED"

definition FmpDeviceGetSize :: "bool \<Rightarrow> efi_status + nat" where
  "FmpDeviceGetSize HasSize = (if \<not> HasSize then Inl EFI_INVALID_PARAMETER else Inr RPI5_FMP_UPDATABLE_SIZE)"

definition IMAGE_ATTRIBUTE_IMAGE_UPDATABLE :: u64 where "IMAGE_ATTRIBUTE_IMAGE_UPDATABLE = 0x1"
definition IMAGE_ATTRIBUTE_RESET_REQUIRED :: u64 where "IMAGE_ATTRIBUTE_RESET_REQUIRED = 0x2"
definition IMAGE_ATTRIBUTE_IN_USE :: u64 where "IMAGE_ATTRIBUTE_IN_USE = 0x8"

definition FmpDeviceGetAttributes :: "bool \<Rightarrow> bool \<Rightarrow> bool \<Rightarrow> efi_status + u64 \<times> u64" where
  "FmpDeviceGetAttributes UpdateSupported HasSupported HasSetting =
     (if \<not> HasSupported \<or> \<not> HasSetting then Inl EFI_INVALID_PARAMETER
      else
       (let Supported = IMAGE_ATTRIBUTE_IMAGE_UPDATABLE OR IMAGE_ATTRIBUTE_RESET_REQUIRED OR IMAGE_ATTRIBUTE_IN_USE;
            Setting = IMAGE_ATTRIBUTE_RESET_REQUIRED OR IMAGE_ATTRIBUTE_IN_USE in
        Inr (Supported, if UpdateSupported then Setting OR IMAGE_ATTRIBUTE_IMAGE_UPDATABLE else Setting)))"

definition FmpDeviceGetVersionString :: "string option \<Rightarrow> bool \<Rightarrow> bool \<Rightarrow> efi_status + string" where
  "FmpDeviceGetVersionString Version Alloc HasVersionString =
     (if \<not> HasVersionString then Inl EFI_INVALID_PARAMETER
      else (case Version of
              None \<Rightarrow> Inl EFI_UNSUPPORTED
            | Some v \<Rightarrow> if v = [] then Inl EFI_UNSUPPORTED
                        else if \<not> Alloc then Inl EFI_OUT_OF_RESOURCES else Inr v))"

definition FmpDeviceGetVersion :: "u32 \<Rightarrow> bool \<Rightarrow> efi_status + u32" where
  "FmpDeviceGetVersion PcdRpi5FirmwareVersion HasVersion =
     (if \<not> HasVersion then Inl EFI_INVALID_PARAMETER else Inr PcdRpi5FirmwareVersion)"

text \<open>The image buffer and \<open>*ImageSize\<close> as they are left; \<open>None\<close> for a buffer that was not filled.\<close>

definition FmpDeviceGetImage ::
  "('s, 'h) fmp_svc \<Rightarrow> bool \<Rightarrow> nat option \<Rightarrow> ('s, efi_status \<times> u8 list option \<times> nat option) state" where
  "FmpDeviceGetImage S HasImage ImageSize =
     (case ImageSize of
        None \<Rightarrow> State_Monad.return (EFI_INVALID_PARAMETER, None, None)
      | Some n \<Rightarrow>
          if n < RPI5_FMP_UPDATABLE_SIZE \<or> \<not> HasImage
          then State_Monad.return (EFI_BUFFER_TOO_SMALL, None, Some RPI5_FMP_UPDATABLE_SIZE)
          else do {
            r \<leftarrow> Rpi5FmpOpenFirmwareFile S FILE_READ;
            (case r of
               None \<Rightarrow> State_Monad.return (EFI_NOT_FOUND, None, Some n)
             | Some (Root, f) \<Rightarrow> do {
                 Status \<leftarrow> FmpSetPosition S f 0;
                 (Status, Img) \<leftarrow>
                   (if \<not> EFI_ERROR Status then do {
                      (Status, bs) \<leftarrow> FmpRead S f RPI5_FMP_UPDATABLE_SIZE;
                      State_Monad.return
                        (if \<not> EFI_ERROR Status \<and> length bs \<noteq> RPI5_FMP_UPDATABLE_SIZE then (EFI_DEVICE_ERROR, Some bs)
                         else (Status, Some bs))
                    }
                    else State_Monad.return (Status, None));
                 FmpClose S f;
                 FmpClose S Root;
                 State_Monad.return (Status, Img, Some (if \<not> EFI_ERROR Status then RPI5_FMP_UPDATABLE_SIZE else n))
               })
          })"

datatype last_attempt = LAST_ATTEMPT_STATUS_SUCCESS | LAST_ATTEMPT_STATUS_ERROR_UNSUCCESSFUL
  | LAST_ATTEMPT_STATUS_ERROR_INVALID_FORMAT
datatype image_updatable = IMAGE_UPDATABLE_VALID | IMAGE_UPDATABLE_INVALID

definition FmpDeviceCheckImageWithStatus ::
  "bool \<Rightarrow> u8 list option \<Rightarrow> bool \<Rightarrow> bool \<Rightarrow> efi_status \<times> (image_updatable \<times> last_attempt) option" where
  "FmpDeviceCheckImageWithStatus UpdateSupported Img HasUpdatable HasLastAttempt =
     (if \<not> HasUpdatable \<or> \<not> HasLastAttempt then (EFI_INVALID_PARAMETER, None)
      else if \<not> UpdateSupported
      then (EFI_SUCCESS, Some (IMAGE_UPDATABLE_INVALID, LAST_ATTEMPT_STATUS_ERROR_UNSUCCESSFUL))
      else if EFI_ERROR (Rpi5FmpValidatePayload Img)
      then (EFI_SUCCESS, Some (IMAGE_UPDATABLE_INVALID, LAST_ATTEMPT_STATUS_ERROR_INVALID_FORMAT))
      else (EFI_SUCCESS, Some (IMAGE_UPDATABLE_VALID, LAST_ATTEMPT_STATUS_SUCCESS)))"

definition FmpDeviceCheckImage :: "bool \<Rightarrow> u8 list option \<Rightarrow> bool \<Rightarrow> efi_status \<times> image_updatable option" where
  "FmpDeviceCheckImage UpdateSupported Img HasUpdatable =
     (case FmpDeviceCheckImageWithStatus UpdateSupported Img HasUpdatable True of
        (Status, r) \<Rightarrow> (Status, map_option fst r))"

text \<open>The write of the updatable part, from \<open>SetPosition\<close> to the label \<open>Done\<close>.\<close>

definition FmpWriteImage :: "('s, 'h) fmp_svc \<Rightarrow> 'h \<Rightarrow> u8 list \<Rightarrow> ('s, efi_status) state" where
  "FmpWriteImage S f Img = do {
     Status \<leftarrow> FmpSetPosition S f 0;
     (if EFI_ERROR Status then State_Monad.return Status
      else do {
        (Status, WriteSize) \<leftarrow> FmpWrite S f (take RPI5_FMP_UPDATABLE_SIZE Img);
        (if EFI_ERROR Status then State_Monad.return Status
         else if WriteSize \<noteq> RPI5_FMP_UPDATABLE_SIZE then State_Monad.return EFI_DEVICE_ERROR
         else FmpFlush S f)
      })
   }"

definition FmpDeviceSetImageWithStatus ::
  "('s, 'h) fmp_svc \<Rightarrow> bool \<Rightarrow> u8 list option \<Rightarrow> (nat \<Rightarrow> ('s, unit) state) option \<Rightarrow> bool \<Rightarrow>
   ('s, efi_status \<times> last_attempt option) state" where
  "FmpDeviceSetImageWithStatus S UpdateSupported Img Progress HasLastAttempt =
     (if \<not> HasLastAttempt then State_Monad.return (EFI_INVALID_PARAMETER, None)
      else if \<not> UpdateSupported
      then State_Monad.return (EFI_WRITE_PROTECTED, Some LAST_ATTEMPT_STATUS_ERROR_UNSUCCESSFUL)
      else if EFI_ERROR (Rpi5FmpValidatePayload Img)
      then State_Monad.return (Rpi5FmpValidatePayload Img, Some LAST_ATTEMPT_STATUS_ERROR_INVALID_FORMAT)
      else do {
        r \<leftarrow> Rpi5FmpOpenFirmwareFile S FILE_READ_WRITE;
        (case r of
           None \<Rightarrow> State_Monad.return (EFI_NOT_FOUND, Some LAST_ATTEMPT_STATUS_ERROR_UNSUCCESSFUL)
         | Some (Root, f) \<Rightarrow> do {
             (case Progress of None \<Rightarrow> State_Monad.return () | Some P \<Rightarrow> P 5);
             Status \<leftarrow> FmpWriteImage S f (the Img);
             FmpClose S f;
             FmpClose S Root;
             (if EFI_ERROR Status then State_Monad.return (Status, Some LAST_ATTEMPT_STATUS_ERROR_UNSUCCESSFUL)
              else do {
                (case Progress of None \<Rightarrow> State_Monad.return () | Some P \<Rightarrow> P 100);
                State_Monad.return (EFI_SUCCESS, Some LAST_ATTEMPT_STATUS_SUCCESS)
              })
           })
      })"

definition FmpDeviceSetImage ::
  "('s, 'h) fmp_svc \<Rightarrow> bool \<Rightarrow> u8 list option \<Rightarrow> (nat \<Rightarrow> ('s, unit) state) option \<Rightarrow> ('s, efi_status) state" where
  "FmpDeviceSetImage S UpdateSupported Img Progress = do {
     (Status, LastAttemptStatus) \<leftarrow> FmpDeviceSetImageWithStatus S UpdateSupported Img Progress True;
     State_Monad.return Status
   }"

subsection \<open>What the file system promises\<close>

record ('s, 'h) fmp_view =
  FmpFiles :: "'s \<Rightarrow> nat \<Rightarrow> string \<Rightarrow> u8 list option"
  FmpPath :: "'h \<Rightarrow> nat \<times> string"
  FmpPos :: "'s \<Rightarrow> 'h \<Rightarrow> nat"
  FmpVols :: "nat list"
  FmpMedia :: "nat \<Rightarrow> (bool \<times> bool) option"
  FmpMounts :: "nat \<Rightarrow> bool"
  FmpWritable :: "nat \<Rightarrow> bool"

text \<open>Calls that leave the files alone.\<close>

definition fmp_quiet :: "('s, 'h) fmp_svc \<Rightarrow> ('s, 'h) fmp_view \<Rightarrow> bool" where
  "fmp_quiet S V =
     (preserves (FmpFiles V) (FmpHandles S) \<and> (\<forall>v. preserves (FmpFiles V) (FmpBlockIo S v)) \<and>
      (\<forall>v. preserves (FmpFiles V) (FmpHandleProtocol S v)) \<and> (\<forall>v. preserves (FmpFiles V) (FmpOpenVolume S v)) \<and>
      (\<forall>d n m. preserves (FmpFiles V) (FmpOpen S d n m)) \<and> (\<forall>h p. preserves (FmpFiles V) (FmpSetPosition S h p)) \<and>
      (\<forall>h n. preserves (FmpFiles V) (FmpRead S h n)) \<and> (\<forall>h. preserves (FmpFiles V) (FmpFlush S h)) \<and>
      (\<forall>h. preserves (FmpFiles V) (FmpClose S h)))"

text \<open>Volumes and what their block devices say; a volume that mounts opens on its root.\<close>

definition fmp_volumes :: "('s, 'h) fmp_svc \<Rightarrow> ('s, 'h) fmp_view \<Rightarrow> bool" where
  "fmp_volumes S V =
     ((\<forall>s st vs s'. run_state (FmpHandles S) s = ((st, vs), s') \<longrightarrow> \<not> EFI_ERROR st \<longrightarrow> vs = FmpVols V) \<and>
      (\<forall>v s st p r s'. run_state (FmpBlockIo S v) s = ((st, p, r), s') \<longrightarrow>
         (case FmpMedia V v of None \<Rightarrow> EFI_ERROR st | Some (p', r') \<Rightarrow> \<not> EFI_ERROR st \<and> p = p' \<and> r = r')) \<and>
      (\<forall>v s st s'. run_state (FmpHandleProtocol S v) s = (st, s') \<longrightarrow> \<not> EFI_ERROR st) \<and>
      (\<forall>v s st h s'. run_state (FmpOpenVolume S v) s = ((st, h), s') \<longrightarrow>
         (\<not> EFI_ERROR st \<longleftrightarrow> FmpMounts V v) \<and> (\<not> EFI_ERROR st \<longrightarrow> fst (FmpPath V h) = v)))"

text \<open>
  Files. A file that exists opens, for writing only on a writable volume. What is read is the content at the
  position. A write, complete or not, stays inside the range that was asked for when the file reaches that far.
\<close>

definition fmp_opens :: "('s, 'h) fmp_svc \<Rightarrow> ('s, 'h) fmp_view \<Rightarrow> bool" where
  "fmp_opens S V =
     (\<forall>d n m s st h s'. run_state (FmpOpen S d n m) s = ((st, h), s') \<longrightarrow>
         (\<not> EFI_ERROR st \<longleftrightarrow> FmpFiles V s (fst (FmpPath V d)) n \<noteq> None \<and> (m = FILE_READ \<or> FmpWritable V (fst (FmpPath V d)))) \<and>
         (\<not> EFI_ERROR st \<longrightarrow> FmpPath V h = (fst (FmpPath V d), n)))"

definition fmp_reads :: "('s, 'h) fmp_svc \<Rightarrow> ('s, 'h) fmp_view \<Rightarrow> bool" where
  "fmp_reads S V =
     ((\<forall>h p s st s'. run_state (FmpSetPosition S h p) s = (st, s') \<longrightarrow> \<not> EFI_ERROR st \<longrightarrow> FmpPos V s' h = p) \<and>
      (\<forall>h n s st bs s'. run_state (FmpRead S h n) s = ((st, bs), s') \<longrightarrow> \<not> EFI_ERROR st \<longrightarrow>
         (\<forall>old. FmpFiles V s (fst (FmpPath V h)) (snd (FmpPath V h)) = Some old \<longrightarrow> bs = take n (drop (FmpPos V s h) old))))"

definition fmp_writes :: "('s, 'h) fmp_svc \<Rightarrow> ('s, 'h) fmp_view \<Rightarrow> bool" where
  "fmp_writes S V =
     (\<forall>h bs s st k s'. run_state (FmpWrite S h bs) s = ((st, k), s') \<longrightarrow>
         (\<forall>old. FmpFiles V s (fst (FmpPath V h)) (snd (FmpPath V h)) = Some old \<longrightarrow>
           FmpPos V s h + length bs \<le> length old \<longrightarrow>
           (\<exists>mid. length mid = length bs \<and> (\<not> EFI_ERROR st \<and> k = length bs \<longrightarrow> mid = bs) \<and>
              FmpFiles V s' = put_at (FmpFiles V s) (FmpPath V h)
                (Some (take (FmpPos V s h) old @ mid @ drop (FmpPos V s h + length bs) old)))))"

definition fmp_ok :: "('s, 'h) fmp_svc \<Rightarrow> ('s, 'h) fmp_view \<Rightarrow> bool" where
  "fmp_ok S V = (fmp_quiet S V \<and> fmp_volumes S V \<and> fmp_opens S V \<and> fmp_reads S V \<and> fmp_writes S V)"

definition reads_work :: "('s, 'h) fmp_svc \<Rightarrow> bool" where
  "reads_work S =
     ((\<forall>s st vs s'. run_state (FmpHandles S) s = ((st, vs), s') \<longrightarrow> \<not> EFI_ERROR st) \<and>
      (\<forall>h p s st s'. run_state (FmpSetPosition S h p) s = (st, s') \<longrightarrow> \<not> EFI_ERROR st) \<and>
      (\<forall>h n s st bs s'. run_state (FmpRead S h n) s = ((st, bs), s') \<longrightarrow> \<not> EFI_ERROR st))"

subsection \<open>The promises as rules\<close>

lemma fmp_quiet_calls [preserves_intro]:
  assumes "fmp_ok S V"
  shows "preserves (FmpFiles V) (FmpHandles S)" "preserves (FmpFiles V) (FmpBlockIo S v)"
    "preserves (FmpFiles V) (FmpHandleProtocol S v)" "preserves (FmpFiles V) (FmpOpenVolume S v)"
    "preserves (FmpFiles V) (FmpOpen S d n m)" "preserves (FmpFiles V) (FmpSetPosition S h p)"
    "preserves (FmpFiles V) (FmpRead S h k)" "preserves (FmpFiles V) (FmpFlush S h)" "preserves (FmpFiles V) (FmpClose S h)"
  using assms by (simp_all add: fmp_ok_def fmp_quiet_def Let_def)

lemma runs_FmpHandles:
  assumes "fmp_ok S V"
    and "\<And>st vs s'. FmpFiles V s' = FmpFiles V s \<Longrightarrow> (\<not> EFI_ERROR st \<Longrightarrow> vs = FmpVols V) \<Longrightarrow>
      (reads_work S \<Longrightarrow> \<not> EFI_ERROR st) \<Longrightarrow> Q (st, vs) s'"
  shows "runs (FmpHandles S) s Q"
proof (rule runsI)
  fix x s' assume r: "run_state (FmpHandles S) s = (x, s')"
  obtain st vs where [simp]: "x = (st, vs)" by (cases x)
  have "\<not> EFI_ERROR st \<longrightarrow> vs = FmpVols V"
    using assms(1) r unfolding fmp_ok_def fmp_volumes_def \<open>x = (st, vs)\<close> by blast
  moreover have "reads_work S \<longrightarrow> \<not> EFI_ERROR st" using r unfolding reads_work_def \<open>x = (st, vs)\<close> by blast
  ultimately show "Q x s'" using assms(2) preservesD [OF fmp_quiet_calls(1) [OF assms(1)] r] by simp
qed

lemma runs_FmpBlockIo:
  assumes "fmp_ok S V"
    and "\<And>st p r s'. FmpFiles V s' = FmpFiles V s \<Longrightarrow>
      (case FmpMedia V v of None \<Rightarrow> EFI_ERROR st | Some (p', r') \<Rightarrow> \<not> EFI_ERROR st \<and> p = p' \<and> r = r') \<Longrightarrow> Q (st, p, r) s'"
  shows "runs (FmpBlockIo S v) s Q"
proof (rule runsI)
  fix x s' assume r: "run_state (FmpBlockIo S v) s = (x, s')"
  obtain st p ro where [simp]: "x = (st, p, ro)" by (cases x)
  have "case FmpMedia V v of None \<Rightarrow> EFI_ERROR st | Some (p', r') \<Rightarrow> \<not> EFI_ERROR st \<and> p = p' \<and> ro = r'"
    using assms(1) r unfolding fmp_ok_def fmp_volumes_def \<open>x = (st, p, ro)\<close> by blast
  then show "Q x s'" using assms(2) preservesD [OF fmp_quiet_calls(2) [OF assms(1)] r] by simp
qed

lemma runs_FmpHandleProtocol:
  assumes "fmp_ok S V" and "\<And>st s'. FmpFiles V s' = FmpFiles V s \<Longrightarrow> \<not> EFI_ERROR st \<Longrightarrow> Q st s'"
  shows "runs (FmpHandleProtocol S v) s Q"
proof (rule runsI)
  fix st s' assume r: "run_state (FmpHandleProtocol S v) s = (st, s')"
  have "\<not> EFI_ERROR st" using assms(1) r unfolding fmp_ok_def fmp_volumes_def by blast
  then show "Q st s'" using assms(2) preservesD [OF fmp_quiet_calls(3) [OF assms(1)] r] by blast
qed

lemma runs_FmpOpenVolume:
  assumes "fmp_ok S V"
    and "\<And>st h s'. FmpFiles V s' = FmpFiles V s \<Longrightarrow> \<not> EFI_ERROR st \<longleftrightarrow> FmpMounts V v \<Longrightarrow>
      (FmpMounts V v \<Longrightarrow> fst (FmpPath V h) = v) \<Longrightarrow> Q (st, h) s'"
  shows "runs (FmpOpenVolume S v) s Q"
proof (rule runsI)
  fix x s' assume r: "run_state (FmpOpenVolume S v) s = (x, s')"
  obtain st h where [simp]: "x = (st, h)" by (cases x)
  have "(\<not> EFI_ERROR st \<longleftrightarrow> FmpMounts V v) \<and> (\<not> EFI_ERROR st \<longrightarrow> fst (FmpPath V h) = v)"
    using assms(1) r unfolding fmp_ok_def fmp_volumes_def \<open>x = (st, h)\<close> by blast
  then show "Q x s'" using assms(2) preservesD [OF fmp_quiet_calls(4) [OF assms(1)] r] by simp
qed

lemma runs_FmpOpen:
  assumes "fmp_ok S V"
    and "\<And>st h s'. FmpFiles V s' = FmpFiles V s \<Longrightarrow>
      \<not> EFI_ERROR st \<longleftrightarrow> FmpFiles V s (fst (FmpPath V d)) n \<noteq> None \<and> (m = FILE_READ \<or> FmpWritable V (fst (FmpPath V d))) \<Longrightarrow>
      (\<not> EFI_ERROR st \<Longrightarrow> FmpPath V h = (fst (FmpPath V d), n)) \<Longrightarrow> Q (st, h) s'"
  shows "runs (FmpOpen S d n m) s Q"
proof (rule runsI)
  fix x s' assume r: "run_state (FmpOpen S d n m) s = (x, s')"
  obtain st h where [simp]: "x = (st, h)" by (cases x)
  have "(\<not> EFI_ERROR st \<longleftrightarrow> FmpFiles V s (fst (FmpPath V d)) n \<noteq> None \<and> (m = FILE_READ \<or> FmpWritable V (fst (FmpPath V d)))) \<and>
      (\<not> EFI_ERROR st \<longrightarrow> FmpPath V h = (fst (FmpPath V d), n))"
    using assms(1) r unfolding fmp_ok_def fmp_opens_def \<open>x = (st, h)\<close> by blast
  then show "Q x s'" using assms(2) preservesD [OF fmp_quiet_calls(5) [OF assms(1)] r] by simp
qed

lemma runs_FmpSetPosition:
  assumes "fmp_ok S V"
    and "\<And>st s'. FmpFiles V s' = FmpFiles V s \<Longrightarrow> (\<not> EFI_ERROR st \<Longrightarrow> FmpPos V s' h = p) \<Longrightarrow>
      (reads_work S \<Longrightarrow> \<not> EFI_ERROR st) \<Longrightarrow> Q st s'"
  shows "runs (FmpSetPosition S h p) s Q"
proof (rule runsI)
  fix st s' assume r: "run_state (FmpSetPosition S h p) s = (st, s')"
  have "\<not> EFI_ERROR st \<longrightarrow> FmpPos V s' h = p" using assms(1) r unfolding fmp_ok_def fmp_reads_def by blast
  moreover have "reads_work S \<longrightarrow> \<not> EFI_ERROR st" using r unfolding reads_work_def by blast
  ultimately show "Q st s'" using assms(2) preservesD [OF fmp_quiet_calls(6) [OF assms(1)] r] by blast
qed

lemma runs_FmpRead:
  assumes "fmp_ok S V"
    and "\<And>st bs s'. FmpFiles V s' = FmpFiles V s \<Longrightarrow>
      (\<And>old. \<not> EFI_ERROR st \<Longrightarrow> FmpFiles V s (fst (FmpPath V h)) (snd (FmpPath V h)) = Some old \<Longrightarrow>
         bs = take n (drop (FmpPos V s h) old)) \<Longrightarrow> (reads_work S \<Longrightarrow> \<not> EFI_ERROR st) \<Longrightarrow> Q (st, bs) s'"
  shows "runs (FmpRead S h n) s Q"
proof (rule runsI)
  fix x s' assume r: "run_state (FmpRead S h n) s = (x, s')"
  obtain st bs where [simp]: "x = (st, bs)" by (cases x)
  have "\<not> EFI_ERROR st \<longrightarrow>
      (\<forall>old. FmpFiles V s (fst (FmpPath V h)) (snd (FmpPath V h)) = Some old \<longrightarrow> bs = take n (drop (FmpPos V s h) old))"
    using assms(1) r unfolding fmp_ok_def fmp_reads_def \<open>x = (st, bs)\<close> by blast
  moreover have "reads_work S \<longrightarrow> \<not> EFI_ERROR st" using r unfolding reads_work_def \<open>x = (st, bs)\<close> by blast
  ultimately show "Q x s'" using assms(2) preservesD [OF fmp_quiet_calls(7) [OF assms(1)] r] by simp
qed

lemma runs_FmpWrite:
  assumes "fmp_ok S V" "FmpFiles V s (fst (FmpPath V h)) (snd (FmpPath V h)) = Some old"
    and "FmpPos V s h + length bs \<le> length old"
    and "\<And>st k s' mid. length mid = length bs \<Longrightarrow> (\<not> EFI_ERROR st \<Longrightarrow> k = length bs \<Longrightarrow> mid = bs) \<Longrightarrow>
      FmpFiles V s' = put_at (FmpFiles V s) (FmpPath V h)
        (Some (take (FmpPos V s h) old @ mid @ drop (FmpPos V s h + length bs) old)) \<Longrightarrow> Q (st, k) s'"
  shows "runs (FmpWrite S h bs) s Q"
proof (rule runsI)
  fix x s' assume r: "run_state (FmpWrite S h bs) s = (x, s')"
  obtain st k where [simp]: "x = (st, k)" by (cases x)
  have "\<exists>mid. length mid = length bs \<and> (\<not> EFI_ERROR st \<and> k = length bs \<longrightarrow> mid = bs) \<and>
      FmpFiles V s' = put_at (FmpFiles V s) (FmpPath V h)
        (Some (take (FmpPos V s h) old @ mid @ drop (FmpPos V s h + length bs) old))"
    using assms(1,2,3) r unfolding fmp_ok_def fmp_writes_def \<open>x = (st, k)\<close> by blast
  then show "Q x s'" using assms(4) by auto
qed

subsection \<open>The search\<close>

definition carries_nv :: "u8 list \<Rightarrow> bool" where
  "carries_nv c =
     (let hdr = take FV_HEADER_SIZE (drop RPI5_FMP_UPDATABLE_SIZE c) in length hdr = FV_HEADER_SIZE \<and> nv_header hdr)"

lemma runs_Check:
  assumes "fmp_ok S V" "FmpFiles V s (fst (FmpPath V h)) (snd (FmpPath V h)) = Some c"
    and "\<And>st s'. FmpFiles V s' = FmpFiles V s \<Longrightarrow> (\<not> EFI_ERROR st \<Longrightarrow> carries_nv c) \<Longrightarrow>
      (reads_work S \<Longrightarrow> carries_nv c \<Longrightarrow> \<not> EFI_ERROR st) \<Longrightarrow> Q st s'"
  shows "runs (Rpi5FmpCheckFirmwareFile S h) s Q"
proof -
  have "runs (Rpi5FmpCheckFirmwareFile S h) s (\<lambda>st s'. FmpFiles V s' = FmpFiles V s \<and>
      (\<not> EFI_ERROR st \<longrightarrow> carries_nv c) \<and> (reads_work S \<longrightarrow> carries_nv c \<longrightarrow> \<not> EFI_ERROR st))"
    unfolding Rpi5FmpCheckFirmwareFile_def
    by (intro runs_rules runs_FmpSetPosition [OF assms(1)] runs_FmpRead [OF assms(1)])
      (use assms(2) in \<open>auto simp: carries_nv_def Let_def EFI_ERROR_def split: if_splits\<close>)
  then show ?thesis by (rule runs_mono) (use assms(3) in blast)
qed

definition usable_file :: "('s, 'h) fmp_view \<Rightarrow> 's \<Rightarrow> file_mode \<Rightarrow> nat \<Rightarrow> string \<Rightarrow> bool" where
  "usable_file V s m v n =
     (case FmpFiles V s v n of None \<Rightarrow> False | Some c \<Rightarrow> (m = FILE_READ \<or> FmpWritable V v) \<and> carries_nv c)"

definition usable_volume :: "('s, 'h) fmp_view \<Rightarrow> file_mode \<Rightarrow> nat \<Rightarrow> bool" where
  "usable_volume V m v =
     ((case FmpMedia V v of None \<Rightarrow> True | Some (p, r) \<Rightarrow> p \<and> \<not> (r \<and> m = FILE_READ_WRITE)) \<and> FmpMounts V v)"

fun firmware_in :: "('s, 'h) fmp_view \<Rightarrow> 's \<Rightarrow> file_mode \<Rightarrow> nat list \<Rightarrow> (nat \<times> string) option" where
  "firmware_in V s m [] = None"
| "firmware_in V s m (v # vs) =
     (if usable_volume V m v
      then (case find (usable_file V s m v) mFirmwareFileNames of
              Some n \<Rightarrow> Some (v, n) | None \<Rightarrow> firmware_in V s m vs)
      else firmware_in V s m vs)"

definition firmware_file :: "('s, 'h) fmp_view \<Rightarrow> 's \<Rightarrow> file_mode \<Rightarrow> (nat \<times> string) option" where
  "firmware_file V s m = firmware_in V s m (FmpVols V)"

lemma files_cong:
  assumes "FmpFiles V s' = FmpFiles V s"
  shows "usable_file V s' m v n = usable_file V s m v n" "firmware_in V s' m vs = firmware_in V s m vs"
proof -
  have u: "usable_file V s' m = usable_file V s m" by (intro ext) (simp add: usable_file_def assms)
  then show "usable_file V s' m v n = usable_file V s m v n" by simp
  show "firmware_in V s' m vs = firmware_in V s m vs" by (induction vs) (simp_all add: u split: option.split)
qed

lemma runs_FmpNames:
  assumes "fmp_ok S V" "fst (FmpPath V d) = v" "FmpFiles V s = F" "FmpFiles V s0 = F"
    and "\<And>r s'. FmpFiles V s' = F \<Longrightarrow>
      (case r of None \<Rightarrow> True | Some h \<Rightarrow> fst (FmpPath V h) = v \<and> usable_file V s0 m v (snd (FmpPath V h))) \<Longrightarrow>
      (reads_work S \<Longrightarrow> map_option (\<lambda>h. snd (FmpPath V h)) r = find (usable_file V s0 m v) ns) \<Longrightarrow> Q r s'"
  shows "runs (FmpNames S m d ns) s Q"
  using assms(3,5)
proof (induction ns arbitrary: s Q)
  case Nil
  then show ?case by (simp add: runs_return)
next
  case (Cons n ns)
  show ?case
    unfolding FmpNames.simps
  proof (intro runs_bind runs_FmpOpen [OF assms(1)] runs_pair runs_if)
    fix st h s1
    assume f: "FmpFiles V s1 = FmpFiles V s" and o: "\<not> EFI_ERROR st \<longleftrightarrow>
        FmpFiles V s (fst (FmpPath V d)) n \<noteq> None \<and> (m = FILE_READ \<or> FmpWritable V (fst (FmpPath V d)))"
      and p: "\<not> EFI_ERROR st \<Longrightarrow> FmpPath V h = (fst (FmpPath V d), n)"
    show "runs (FmpNames S m d ns) s1 Q" if "EFI_ERROR st"
    proof (rule Cons.IH)
      show "FmpFiles V s1 = F" using f Cons.prems(1) by simp
      fix r s' assume q: "FmpFiles V s' = F"
        "case r of None \<Rightarrow> True | Some h \<Rightarrow> fst (FmpPath V h) = v \<and> usable_file V s0 m v (snd (FmpPath V h))"
        "reads_work S \<Longrightarrow> map_option (\<lambda>h. snd (FmpPath V h)) r = find (usable_file V s0 m v) ns"
      have "\<not> usable_file V s0 m v n"
        using o that assms(2,4) Cons.prems(1) by (auto simp: usable_file_def split: option.split)
      then show "Q r s'" using Cons.prems(2) [OF q(1,2)] q(3) by simp
    qed
    assume ok: "\<not> EFI_ERROR st"
    then obtain c where c: "FmpFiles V s v n = Some c" "m = FILE_READ \<or> FmpWritable V v" using o assms(2) by auto
    have h: "FmpPath V h = (v, n)" using p [OF ok] assms(2) by simp
    have u: "usable_file V s0 m v n \<longleftrightarrow> carries_nv c"
      using c Cons.prems(1) assms(4) by (simp add: usable_file_def)
    show "runs (Rpi5FmpCheckFirmwareFile S h) s1 (\<lambda>Status s'.
        runs (if EFI_ERROR Status then do { FmpClose S h; FmpNames S m d ns } else State_Monad.return (Some h)) s' Q)"
    proof (rule runs_Check [OF assms(1), where c = c])
      show "FmpFiles V s1 (fst (FmpPath V h)) (snd (FmpPath V h)) = Some c" using f c h by simp
      fix st2 s2
      assume f2: "FmpFiles V s2 = FmpFiles V s1" and y: "\<not> EFI_ERROR st2 \<Longrightarrow> carries_nv c"
        and w: "reads_work S \<Longrightarrow> carries_nv c \<Longrightarrow> \<not> EFI_ERROR st2"
      show "runs (if EFI_ERROR st2 then do { FmpClose S h; FmpNames S m d ns } else State_Monad.return (Some h)) s2 Q"
      proof (rule runs_if)
        assume e: "EFI_ERROR st2"
        show "runs (do { FmpClose S h; FmpNames S m d ns }) s2 Q"
        proof (intro runs_bind runs_preserves [OF fmp_quiet_calls(9) [OF assms(1)]])
          fix x s3 assume f3: "FmpFiles V s3 = FmpFiles V s2"
          show "runs (FmpNames S m d ns) s3 Q"
          proof (rule Cons.IH)
            show "FmpFiles V s3 = F" using f f2 f3 Cons.prems(1) by simp
            fix r s' assume q: "FmpFiles V s' = F"
              "case r of None \<Rightarrow> True | Some h \<Rightarrow> fst (FmpPath V h) = v \<and> usable_file V s0 m v (snd (FmpPath V h))"
              "reads_work S \<Longrightarrow> map_option (\<lambda>h. snd (FmpPath V h)) r = find (usable_file V s0 m v) ns"
            then show "Q r s'" using Cons.prems(2) [OF q(1,2)] q(3) w e u by auto
          qed
        qed
      next
        assume "\<not> EFI_ERROR st2"
        then show "runs (State_Monad.return (Some h)) s2 Q"
          using Cons.prems(2) [of s2 "Some h"] f f2 Cons.prems(1) y u h by (simp add: runs_return)
      qed
    qed
  qed
qed

definition found_ok :: "('s, 'h) fmp_view \<Rightarrow> 's \<Rightarrow> file_mode \<Rightarrow> ('h \<times> 'h) option \<Rightarrow> bool" where
  "found_ok V s m r = (case r of None \<Rightarrow> True | Some (R, h) \<Rightarrow> usable_file V s m (fst (FmpPath V h)) (snd (FmpPath V h)))"

lemma runs_FmpVolumes:
  assumes "fmp_ok S V" "FmpFiles V s = FmpFiles V s0"
    and "\<And>r s'. FmpFiles V s' = FmpFiles V s0 \<Longrightarrow> found_ok V s0 m r \<Longrightarrow>
      (reads_work S \<Longrightarrow> map_option (\<lambda>(R, h). FmpPath V h) r = firmware_in V s0 m vs) \<Longrightarrow> Q r s'"
  shows "runs (FmpVolumes S m vs) s Q"
  using assms(2,3)
proof (induction vs arbitrary: s Q)
  case Nil
  then show ?case by (simp add: runs_return found_ok_def)
next
  case (Cons v vs)
  have skip: "runs (FmpVolumes S m vs) t Q"
    if "FmpFiles V t = FmpFiles V s0" "reads_work S \<Longrightarrow> firmware_in V s0 m (v # vs) = firmware_in V s0 m vs" for t
    using that Cons.prems(2) by (intro Cons.IH) simp_all
  show ?case
    unfolding FmpVolumes.simps
  proof (intro runs_bind runs_FmpBlockIo [OF assms(1)] runs_pair runs_if runs_FmpHandleProtocol [OF assms(1)]
      runs_FmpOpenVolume [OF assms(1)])
    fix st p r s1
    assume f1: "FmpFiles V s1 = FmpFiles V s"
      and b: "case FmpMedia V v of None \<Rightarrow> EFI_ERROR st | Some (p', r') \<Rightarrow> \<not> EFI_ERROR st \<and> p = p' \<and> r = r'"
    show "runs (FmpVolumes S m vs) s1 Q" if "\<not> EFI_ERROR st \<and> (\<not> p \<or> r \<and> m = FILE_READ_WRITE)"
    proof (rule skip)
      show "FmpFiles V s1 = FmpFiles V s0" using f1 Cons.prems(1) by simp
      have "\<not> usable_volume V m v" using b that by (auto simp: usable_volume_def split: option.splits)
      then show "firmware_in V s0 m (v # vs) = firmware_in V s0 m vs" by simp
    qed
    assume med: "\<not> (\<not> EFI_ERROR st \<and> (\<not> p \<or> r \<and> m = FILE_READ_WRITE))"
    fix st2 s2 assume f2: "FmpFiles V s2 = FmpFiles V s1"
    { assume n2: "\<not> EFI_ERROR st2" and e2: "EFI_ERROR st2"
      then show "runs (FmpVolumes S m vs) s2 Q" by simp }
    fix st3 d s3
    assume f3: "FmpFiles V s3 = FmpFiles V s2" and mo: "\<not> EFI_ERROR st3 \<longleftrightarrow> FmpMounts V v"
      and d: "FmpMounts V v \<Longrightarrow> fst (FmpPath V d) = v"
    show "runs (FmpVolumes S m vs) s3 Q" if "EFI_ERROR st3"
    proof (rule skip)
      show "FmpFiles V s3 = FmpFiles V s0" using f1 f2 f3 Cons.prems(1) by simp
      show "firmware_in V s0 m (v # vs) = firmware_in V s0 m vs" using mo that by (simp add: usable_volume_def)
    qed
    assume ok: "\<not> EFI_ERROR st3"
    then have vol: "usable_volume V m v" and dv: "fst (FmpPath V d) = v"
      using mo med b d by (auto simp: usable_volume_def split: option.splits)
    show "runs (FmpNames S m d mFirmwareFileNames) s3 (\<lambda>Found s'. runs (case Found of
        None \<Rightarrow> do { FmpClose S d; FmpVolumes S m vs } | Some Candidate \<Rightarrow> State_Monad.return (Some (d, Candidate))) s' Q)"
    proof (rule runs_FmpNames [OF assms(1) dv, where ?s0.0 = s0])
      show "FmpFiles V s3 = FmpFiles V s0" using f1 f2 f3 Cons.prems(1) by simp
      fix r s4
      assume f4: "FmpFiles V s4 = FmpFiles V s0"
        and u: "case r of None \<Rightarrow> True | Some h \<Rightarrow> fst (FmpPath V h) = v \<and> usable_file V s0 m v (snd (FmpPath V h))"
        and w: "reads_work S \<Longrightarrow> map_option (\<lambda>h. snd (FmpPath V h)) r = find (usable_file V s0 m v) mFirmwareFileNames"
      show "runs (case r of None \<Rightarrow> do { FmpClose S d; FmpVolumes S m vs } | Some c \<Rightarrow> State_Monad.return (Some (d, c))) s4 Q"
      proof (rule runs_option)
        assume n: "r = None"
        show "runs (do { FmpClose S d; FmpVolumes S m vs }) s4 Q"
        proof (intro runs_bind runs_preserves [OF fmp_quiet_calls(9) [OF assms(1)]] skip)
          fix x s5 assume "FmpFiles V s5 = FmpFiles V s4"
          then show "FmpFiles V s5 = FmpFiles V s0" using f4 by simp
        next
          fix x s5 assume "reads_work S"
          then show "firmware_in V s0 m (v # vs) = firmware_in V s0 m vs"
            using w n by (auto split: option.split)
        qed
      next
        fix h assume r: "r = Some h"
        then have "reads_work S \<Longrightarrow> firmware_in V s0 m (v # vs) = Some (FmpPath V h)"
          using w u vol by (auto split: option.split simp: prod_eq_iff)
        then show "runs (State_Monad.return (Some (d, h))) s4 Q"
          using Cons.prems(2) [of s4 "Some (d, h)"] f4 u r by (simp add: runs_return found_ok_def)
      qed
    qed simp
  qed
qed

lemma runs_OpenFirmware:
  assumes "fmp_ok S V"
    and "\<And>r s'. FmpFiles V s' = FmpFiles V s \<Longrightarrow> found_ok V s m r \<Longrightarrow>
      (reads_work S \<Longrightarrow> map_option (\<lambda>(R, h). FmpPath V h) r = firmware_file V s m) \<Longrightarrow> Q r s'"
  shows "runs (Rpi5FmpOpenFirmwareFile S m) s Q"
  unfolding Rpi5FmpOpenFirmwareFile_def
proof (intro runs_bind runs_FmpHandles [OF assms(1)] runs_pair runs_if)
  fix st vs s1
  assume f: "FmpFiles V s1 = FmpFiles V s" and v: "\<not> EFI_ERROR st \<Longrightarrow> vs = FmpVols V" and w: "reads_work S \<Longrightarrow> \<not> EFI_ERROR st"
  show "runs (State_Monad.return None) s1 Q" if "EFI_ERROR st"
    by (intro runs_return assms(2) [OF f]) (use w that in \<open>auto simp: found_ok_def\<close>)
  show "runs (FmpVolumes S m vs) s1 Q" if "\<not> EFI_ERROR st"
    by (rule runs_FmpVolumes [OF assms(1) f]) (use assms(2) f v that in \<open>simp add: firmware_file_def\<close>)
qed

subsection \<open>Updating and reading back\<close>

lemma carries_nv_length: "carries_nv c \<Longrightarrow> RPI5_FMP_UPDATABLE_SIZE + FV_HEADER_SIZE \<le> length c"
  by (auto simp: carries_nv_def Let_def FV_HEADER_SIZE_def)

lemma carries_nv_cong: "drop RPI5_FMP_UPDATABLE_SIZE c = drop RPI5_FMP_UPDATABLE_SIZE c' \<Longrightarrow> carries_nv c = carries_nv c'"
  by (simp add: carries_nv_def)

lemma found_content:
  assumes "found_ok V s m (Some (R, h))"
  obtains c where "FmpFiles V s (fst (FmpPath V h)) (snd (FmpPath V h)) = Some c" "carries_nv c"
    "m = FILE_READ \<or> FmpWritable V (fst (FmpPath V h))"
  using assms that by (auto simp: found_ok_def usable_file_def split: option.splits)

definition stored_update ::
  "('s, 'h) fmp_view \<Rightarrow> 's \<Rightarrow> 's \<Rightarrow> nat \<times> string \<Rightarrow> u8 list \<Rightarrow> bool \<Rightarrow> bool" where
  "stored_update V s s' p Img done =
     (\<exists>old new. FmpFiles V s (fst p) (snd p) = Some old \<and> carries_nv old \<and>
        FmpFiles V s' = put_at (FmpFiles V s) p (Some new) \<and> length new = length old \<and>
        drop RPI5_FMP_UPDATABLE_SIZE new = drop RPI5_FMP_UPDATABLE_SIZE old \<and>
        (done \<longrightarrow> take RPI5_FMP_UPDATABLE_SIZE new = take RPI5_FMP_UPDATABLE_SIZE Img))"

lemma runs_WriteImage:
  assumes "fmp_ok S V" "found_ok V s m (Some (R, h))" "RPI5_FMP_UPDATABLE_SIZE \<le> length Img"
    and "FmpFiles V t = FmpFiles V s"
  shows "runs (FmpWriteImage S h Img) t (\<lambda>st s'. stored_update V s s' (FmpPath V h) Img (\<not> EFI_ERROR st))"
proof -
  let ?U = RPI5_FMP_UPDATABLE_SIZE and ?p = "FmpPath V h"
  obtain old where old: "FmpFiles V s (fst ?p) (snd ?p) = Some old" "carries_nv old"
    using found_content [OF assms(2)] by blast
  then have len: "?U \<le> length old" using carries_nv_length by fastforce
  have same: "stored_update V s s' ?p Img False" if "FmpFiles V s' = FmpFiles V s" for s'
    using that old unfolding stored_update_def
    by (intro exI [of _ old]) (simp add: put_at_same [of _ "fst ?p" "snd ?p", simplified] flip: old(1))
  have new: "stored_update V s s' ?p Img d"
    if "FmpFiles V s' = put_at (FmpFiles V s) ?p (Some (mid @ drop ?U old))" "length mid = ?U" "d \<Longrightarrow> mid = take ?U Img"
    for s' mid d
    using that old len unfolding stored_update_def by (intro exI [of _ old] exI [of _ "mid @ drop ?U old"]) auto
  show ?thesis
    unfolding FmpWriteImage_def
  proof (intro runs_bind runs_FmpSetPosition [OF assms(1)] runs_if runs_return)
    fix st s1
    assume f: "FmpFiles V s1 = FmpFiles V t" and pos: "\<not> EFI_ERROR st \<Longrightarrow> FmpPos V s1 h = 0"
    show "stored_update V s s1 ?p Img (\<not> EFI_ERROR st)" if "EFI_ERROR st"
      using same f assms(4) that by simp
    assume ok: "\<not> EFI_ERROR st"
    show "runs (FmpWrite S h (take ?U Img)) s1 (\<lambda>x s'. runs (case x of (Status, WriteSize) \<Rightarrow>
        if EFI_ERROR Status then State_Monad.return Status
        else if WriteSize \<noteq> ?U then State_Monad.return EFI_DEVICE_ERROR else FmpFlush S h) s'
        (\<lambda>st s'. stored_update V s s' ?p Img (\<not> EFI_ERROR st)))"
    proof (rule runs_FmpWrite [OF assms(1), where old = old], unfold prod.case)
      show "FmpFiles V s1 (fst ?p) (snd ?p) = Some old" using old f assms(4) by simp
      show "FmpPos V s1 h + length (take ?U Img) \<le> length old" using pos [OF ok] len by simp
      fix st2 k s2 mid
      assume m: "length mid = length (take ?U Img)" "\<not> EFI_ERROR st2 \<Longrightarrow> k = length (take ?U Img) \<Longrightarrow> mid = take ?U Img"
        and w: "FmpFiles V s2 = put_at (FmpFiles V s1) ?p
          (Some (take (FmpPos V s1 h) old @ mid @ drop (FmpPos V s1 h + length (take ?U Img)) old))"
      have w': "FmpFiles V s2 = put_at (FmpFiles V s) ?p (Some (mid @ drop ?U old))" "length mid = ?U"
        using w m(1) f assms(3,4) pos [OF ok] by simp_all
      show "runs (if EFI_ERROR st2 then State_Monad.return st2
          else if k \<noteq> ?U then State_Monad.return EFI_DEVICE_ERROR else FmpFlush S h) s2
          (\<lambda>st s'. stored_update V s s' ?p Img (\<not> EFI_ERROR st))"
        by (intro runs_if runs_return runs_preserves [OF fmp_quiet_calls(8) [OF assms(1)]])
          (use new w' m(2) assms(3) in \<open>auto simp: EFI_ERROR_def\<close>)
    qed
  qed
qed

definition progress_quiet :: "('s, 'h) fmp_view \<Rightarrow> (nat \<Rightarrow> ('s, unit) state) option \<Rightarrow> bool" where
  "progress_quiet V Progress = (\<forall>P k. Progress = Some P \<longrightarrow> preserves (FmpFiles V) (P k))"

lemma runs_Progress:
  assumes "progress_quiet V Progress" "\<And>s'. FmpFiles V s' = FmpFiles V s \<Longrightarrow> Q () s'"
  shows "runs (case Progress of None \<Rightarrow> State_Monad.return () | Some P \<Rightarrow> P k) s Q"
  by (cases Progress) (use assms in \<open>auto simp: progress_quiet_def intro: runs_return runs_preserves\<close>)

lemma valid_payload: "\<not> EFI_ERROR (Rpi5FmpValidatePayload Img) \<Longrightarrow> \<exists>bs. Img = Some bs \<and> RPI5_FMP_UPDATABLE_SIZE \<le> length bs"
  by (auto simp: Rpi5FmpValidatePayload_def EFI_ERROR_def split: option.splits if_splits)

lemma stored_update_cong:
  "FmpFiles V t = FmpFiles V s' \<Longrightarrow> stored_update V s t p Img d = stored_update V s s' p Img d"
  by (simp add: stored_update_def)

definition set_post ::
  "('s, 'h) fmp_svc \<Rightarrow> ('s, 'h) fmp_view \<Rightarrow> bool \<Rightarrow> u8 list option \<Rightarrow> 's \<Rightarrow> efi_status \<times> last_attempt option \<Rightarrow> 's \<Rightarrow> bool" where
  "set_post S V UpdateSupported Img s r s' =
     ((fst r = EFI_SUCCESS \<longleftrightarrow> snd r = Some LAST_ATTEMPT_STATUS_SUCCESS) \<and>
      (FmpFiles V s' = FmpFiles V s \<and> fst r \<noteq> EFI_SUCCESS \<or>
       (\<exists>p bs. Img = Some bs \<and> UpdateSupported \<and> FmpWritable V (fst p) \<and> stored_update V s s' p bs (fst r = EFI_SUCCESS) \<and>
          (reads_work S \<longrightarrow> firmware_file V s FILE_READ_WRITE = Some p))))"

lemma set_post_write:
  assumes "stored_update V s t p bs (\<not> EFI_ERROR st)" "FmpFiles V s' = FmpFiles V t" "UpdateSupported"
    and "FmpWritable V (fst p)" "reads_work S \<longrightarrow> firmware_file V s FILE_READ_WRITE = Some p"
  shows "EFI_ERROR st \<Longrightarrow> set_post S V UpdateSupported (Some bs) s (st, Some LAST_ATTEMPT_STATUS_ERROR_UNSUCCESSFUL) s'"
    and "\<not> EFI_ERROR st \<Longrightarrow> set_post S V UpdateSupported (Some bs) s (EFI_SUCCESS, Some LAST_ATTEMPT_STATUS_SUCCESS) s'"
proof -
  have u: "stored_update V s s' p bs (\<not> EFI_ERROR st)" using assms(1) stored_update_cong [OF assms(2)] by blast
  show "set_post S V UpdateSupported (Some bs) s (st, Some LAST_ATTEMPT_STATUS_ERROR_UNSUCCESSFUL) s'" if "EFI_ERROR st"
    unfolding set_post_def using u assms(3-5) that by (cases p) (auto simp: EFI_ERROR_def)
  show "set_post S V UpdateSupported (Some bs) s (EFI_SUCCESS, Some LAST_ATTEMPT_STATUS_SUCCESS) s'" if "\<not> EFI_ERROR st"
    unfolding set_post_def using u assms(3-5) that by (cases p) (auto simp: EFI_ERROR_def)
qed

lemma runs_SetImage:
  assumes "fmp_ok S V" "progress_quiet V Progress"
  shows "runs (FmpDeviceSetImageWithStatus S UpdateSupported Img Progress HasLast) s (set_post S V UpdateSupported Img s)"
proof -
  let ?Q = "set_post S V UpdateSupported Img s"
  have none: "?Q (st, la) s'" if "FmpFiles V s' = FmpFiles V s" "st \<noteq> EFI_SUCCESS" "la \<noteq> Some LAST_ATTEMPT_STATUS_SUCCESS" for st la s'
    using that by (simp add: set_post_def)
  have body: "runs (do {
      (case Progress of None \<Rightarrow> State_Monad.return () | Some P \<Rightarrow> P 5);
      Status \<leftarrow> FmpWriteImage S h (the Img); FmpClose S h; FmpClose S Root;
      (if EFI_ERROR Status then State_Monad.return (Status, Some LAST_ATTEMPT_STATUS_ERROR_UNSUCCESSFUL)
       else do { (case Progress of None \<Rightarrow> State_Monad.return () | Some P \<Rightarrow> P 100);
                 State_Monad.return (EFI_SUCCESS, Some LAST_ATTEMPT_STATUS_SUCCESS) }) }) s1 ?Q"
    if up: "UpdateSupported" and v: "\<not> EFI_ERROR (Rpi5FmpValidatePayload Img)" and f1: "FmpFiles V s1 = FmpFiles V s"
      and fo: "found_ok V s FILE_READ_WRITE (Some (Root, h))"
      and w: "reads_work S \<longrightarrow> firmware_file V s FILE_READ_WRITE = Some (FmpPath V h)" for s1 Root h
  proof -
    obtain bs where bs: "Img = Some bs" "RPI5_FMP_UPDATABLE_SIZE \<le> length bs" using valid_payload [OF v] by blast
    have wr: "FmpWritable V (fst (FmpPath V h))" using found_content [OF fo] by blast
    show ?thesis
      unfolding bs(1) option.sel
      apply (intro runs_bind runs_Progress [OF assms(2)])
      apply (rule runs_mono [OF runs_WriteImage [OF assms(1) fo bs(2)]])
       apply (simp add: f1)
      apply (intro runs_preserves [OF fmp_quiet_calls(9) [OF assms(1)]] runs_if runs_bind runs_Progress [OF assms(2)] runs_return)
       apply (erule set_post_write(1) [OF _ _ up wr w]; simp)
      apply (erule set_post_write(2) [OF _ _ up wr w]; simp)
      done
  qed
  show ?thesis
    unfolding FmpDeviceSetImageWithStatus_def
    apply (rule runs_if, rule runs_return, rule none [OF refl], simp, simp)
    apply (rule runs_if, rule runs_return, rule none [OF refl], simp, simp)
    apply (rule runs_if, rule runs_return, rule none [OF refl], simp add: EFI_ERROR_def, simp)
    apply (rule runs_bind, rule runs_OpenFirmware [OF assms(1)], rule runs_option)
     apply (rule runs_return, rule none, simp, simp, simp)
    apply (rule runs_prod)
    apply (simp only:)
    apply (rule body, blast, assumption, assumption, assumption, simp)
    done
qed


lemma updated_search:
  assumes "stored_update V s s' p bs d"
  shows "firmware_file V s' m = firmware_file V s m"
proof -
  obtain old new where o: "FmpFiles V s (fst p) (snd p) = Some old" "FmpFiles V s' = put_at (FmpFiles V s) p (Some new)"
    "drop RPI5_FMP_UPDATABLE_SIZE new = drop RPI5_FMP_UPDATABLE_SIZE old"
    using assms unfolding stored_update_def by blast
  have "usable_file V s' m v n = usable_file V s m v n" for v n
    using o carries_nv_cong [OF o(3)] by (cases p) (auto simp: usable_file_def put_at_def)
  then have u: "usable_file V s' m = usable_file V s m" by (intro ext)
  have "firmware_in V s' m vs = firmware_in V s m vs" for vs
    by (induction vs) (simp_all add: u split: option.split)
  then show ?thesis by (simp add: firmware_file_def)
qed

lemma runs_GetImage:
  assumes "fmp_ok S V" "reads_work S" "RPI5_FMP_UPDATABLE_SIZE \<le> n" "firmware_file V s FILE_READ = Some p"
    and "FmpFiles V s (fst p) (snd p) = Some c" "RPI5_FMP_UPDATABLE_SIZE \<le> length c"
  shows "runs (FmpDeviceGetImage S True (Some n)) s (\<lambda>r s'.
    r = (EFI_SUCCESS, Some (take RPI5_FMP_UPDATABLE_SIZE c), Some RPI5_FMP_UPDATABLE_SIZE) \<and> FmpFiles V s' = FmpFiles V s)"
  unfolding FmpDeviceGetImage_def option.case
  apply (rule runs_if, use assms(3) in simp)
  apply (rule runs_bind, rule runs_OpenFirmware [OF assms(1)], rule runs_option)
   apply (use assms(2,4) in simp)
  apply (rule runs_prod)
  apply (intro runs_bind runs_FmpSetPosition [OF assms(1)] runs_prod runs_if runs_FmpRead [OF assms(1)] runs_return
      runs_preserves [OF fmp_quiet_calls(9) [OF assms(1)]])
     apply (use assms in \<open>auto simp: EFI_ERROR_def\<close>)
  done

text \<open>
  An update is read back. On working media on which the firmware found for writing is also the first
  one found for reading, a successful update is what the image call returns next: the capsule's
  bytes in front of the variable store.
\<close>

theorem fmp_update_read_back:
  assumes "fmp_ok S V" "reads_work S" "progress_quiet V Progress" "RPI5_FMP_UPDATABLE_SIZE \<le> n"
    and "firmware_file V s FILE_READ = firmware_file V s FILE_READ_WRITE"
    and "run_state (FmpDeviceSetImage S UpdateSupported (Some bs) Progress) s = (EFI_SUCCESS, s1)"
    and "run_state (FmpDeviceGetImage S True (Some n)) s1 = ((st, img, sz), s2)"
  shows "st = EFI_SUCCESS \<and> img = Some (take RPI5_FMP_UPDATABLE_SIZE bs) \<and> sz = Some RPI5_FMP_UPDATABLE_SIZE"
proof -
  obtain la where r: "run_state (FmpDeviceSetImageWithStatus S UpdateSupported (Some bs) Progress True) s = ((EFI_SUCCESS, la), s1)"
    using assms(6) by (auto simp: FmpDeviceSetImage_def split: prod.splits)
  obtain p where u: "stored_update V s s1 p bs True" "firmware_file V s FILE_READ_WRITE = Some p"
    using runs_SetImage [OF assms(1,3), THEN runsD, OF r] assms(2) by (auto simp: set_post_def)
  then obtain old new where f: "carries_nv old" "FmpFiles V s1 (fst p) (snd p) = Some new" "length new = length old"
    "take RPI5_FMP_UPDATABLE_SIZE new = take RPI5_FMP_UPDATABLE_SIZE bs"
    by (cases p) (auto simp: stored_update_def)
  have "firmware_file V s1 FILE_READ = Some p" using updated_search [OF u(1)] u(2) assms(5) by simp
  moreover have "RPI5_FMP_UPDATABLE_SIZE \<le> length new" using carries_nv_length [OF f(1)] f(3) by simp
  ultimately show ?thesis
    using runs_GetImage [OF assms(1,2,4) _ f(2), THEN runsD, OF _ _ assms(7)] f(4) by simp
qed

subsection \<open>On a concrete file system\<close>

record fmp_ram =
  fram :: "nat \<Rightarrow> string \<Rightarrow> u8 list option"
  fpos :: "nat \<times> string \<Rightarrow> nat"

definition ram_fmp :: "(fmp_ram, nat \<times> string) fmp_svc" where
  "ram_fmp =
     \<lparr>FmpHandles = State_Monad.return (EFI_SUCCESS, [0, 1]),
      FmpBlockIo = (\<lambda>v. State_Monad.return (EFI_SUCCESS, True, v = 0)),
      FmpHandleProtocol = (\<lambda>v. State_Monad.return EFI_SUCCESS),
      FmpOpenVolume = (\<lambda>v. State_Monad.return (EFI_SUCCESS, (v, ''''))),
      FmpOpen = (\<lambda>d n m. State (\<lambda>s. ((if fram s (fst d) n = None \<or> (m \<noteq> FILE_READ \<and> fst d = 0) then EFI_NOT_FOUND
                   else EFI_SUCCESS, (fst d, n)), s))),
      FmpSetPosition = (\<lambda>h p. State (\<lambda>s. (EFI_SUCCESS, s\<lparr>fpos := (fpos s)(h := p)\<rparr>))),
      FmpRead = (\<lambda>h n. State (\<lambda>s. ((EFI_SUCCESS,
                   case fram s (fst h) (snd h) of None \<Rightarrow> [] | Some c \<Rightarrow> take n (drop (fpos s h) c)), s))),
      FmpWrite = (\<lambda>h bs. State (\<lambda>s. ((EFI_SUCCESS, length bs),
                   case fram s (fst h) (snd h) of None \<Rightarrow> s
                   | Some c \<Rightarrow> s\<lparr>fram := put_at (fram s) h (Some (take (fpos s h) c @ bs @ drop (fpos s h + length bs) c))\<rparr>))),
      FmpFlush = (\<lambda>h. State_Monad.return EFI_SUCCESS),
      FmpClose = (\<lambda>h. State_Monad.return EFI_SUCCESS)\<rparr>"

definition ram_fview :: "(fmp_ram, nat \<times> string) fmp_view" where
  "ram_fview = \<lparr>FmpFiles = fram, FmpPath = (\<lambda>h. h), FmpPos = fpos, FmpVols = [0, 1],
     FmpMedia = (\<lambda>v. Some (True, v = 0)), FmpMounts = (\<lambda>v. True), FmpWritable = (\<lambda>v. v \<noteq> 0)\<rparr>"

lemma ram_fmp_ok: "fmp_ok ram_fmp ram_fview"
  unfolding fmp_ok_def
proof (intro conjI)
  show "fmp_quiet ram_fmp ram_fview"
    by (simp add: fmp_quiet_def ram_fmp_def ram_fview_def preserves_def)
  show "fmp_volumes ram_fmp ram_fview"
    by (auto simp: fmp_volumes_def ram_fmp_def ram_fview_def EFI_ERROR_def)
  show "fmp_opens ram_fmp ram_fview"
    by (auto simp: fmp_opens_def ram_fmp_def ram_fview_def EFI_ERROR_def)
  show "fmp_reads ram_fmp ram_fview"
    by (auto simp: fmp_reads_def ram_fmp_def ram_fview_def EFI_ERROR_def)
  show "fmp_writes ram_fmp ram_fview"
    by (auto simp: fmp_writes_def ram_fmp_def ram_fview_def EFI_ERROR_def)
qed

lemma ram_reads_work: "reads_work ram_fmp"
  by (auto simp: reads_work_def ram_fmp_def EFI_ERROR_def)

definition demo_header :: "u8 list" where
  "demo_header = replicate 16 0 @ gEfiSystemNvDataFvGuid @ replicate 8 0 @ EFI_FVH_SIGNATURE @ replicate 20 0"

definition demo_card :: fmp_ram where
  "demo_card = \<lparr>fram = (\<lambda>v n. if v = 1 \<and> n = ''RPI_EFI.FD'' then Some (replicate RPI5_FMP_UPDATABLE_SIZE 0 @ demo_header @ [42]) else None),
     fpos = (\<lambda>h. 0)\<rparr>"

lemma demo_header: "length demo_header = FV_HEADER_SIZE" "nv_header demo_header"
  by (simp_all add: demo_header_def nv_header_def gEfiSystemNvDataFvGuid_def EFI_FVH_SIGNATURE_def FV_HEADER_SIZE_def)

lemma demo_carries: "carries_nv (replicate RPI5_FMP_UPDATABLE_SIZE 0 @ demo_header @ [42])"
  using demo_header by (simp add: carries_nv_def Let_def)

lemma demo_found: "firmware_file ram_fview demo_card m = Some (1, ''RPI_EFI.FD'')" if "m = FILE_READ \<or> m = FILE_READ_WRITE"
  using that demo_carries by (auto simp: firmware_file_def ram_fview_def demo_card_def mFirmwareFileNames_def
      usable_volume_def usable_file_def)

lemma demo_check:
  "run_state (Rpi5FmpCheckFirmwareFile ram_fmp (1, ''RPI_EFI.FD'')) (demo_card\<lparr>fpos := f\<rparr>) =
     (EFI_SUCCESS, demo_card\<lparr>fpos := f((1, ''RPI_EFI.FD'') := RPI5_FMP_UPDATABLE_SIZE)\<rparr>)"
  using demo_header by (simp add: Rpi5FmpCheckFirmwareFile_def ram_fmp_def demo_card_def EFI_ERROR_def)

lemma demo_open:
  "run_state (Rpi5FmpOpenFirmwareFile ram_fmp FILE_READ_WRITE) demo_card =
     (Some ((1, ''''), (1, ''RPI_EFI.FD'')), demo_card\<lparr>fpos := (fpos demo_card)((1, ''RPI_EFI.FD'') := RPI5_FMP_UPDATABLE_SIZE)\<rparr>)"
proof -
  have c: "run_state (FmpHandles ram_fmp) s = ((EFI_SUCCESS, [0, 1]), s)" "run_state (FmpBlockIo ram_fmp v) s = ((EFI_SUCCESS, True, v = 0), s)"
    "run_state (FmpHandleProtocol ram_fmp v) s = (EFI_SUCCESS, s)" "run_state (FmpOpenVolume ram_fmp v) s = ((EFI_SUCCESS, (v, '''')), s)"
    "run_state (FmpOpen ram_fmp d n FILE_READ_WRITE) s = ((if fram s (fst d) n = None \<or> fst d = 0 then EFI_NOT_FOUND else EFI_SUCCESS, (fst d, n)), s)" for s v d n
    by (simp_all add: ram_fmp_def)
  have f: "fram demo_card (Suc 0) ''armstub8-2712.bin'' = None" "fram demo_card (Suc 0) ''RPI_EFI.FD'' = None \<longleftrightarrow> False"
    by (simp_all add: demo_card_def)
  have k: "run_state (Rpi5FmpCheckFirmwareFile ram_fmp (Suc 0, ''RPI_EFI.FD'')) demo_card =
     (EFI_SUCCESS, demo_card\<lparr>fpos := (fpos demo_card)((Suc 0, ''RPI_EFI.FD'') := RPI5_FMP_UPDATABLE_SIZE)\<rparr>)"
    using demo_check [of "fpos demo_card"] by simp
  show ?thesis
    by (simp add: Rpi5FmpOpenFirmwareFile_def c mFirmwareFileNames_def EFI_ERROR_def f k)
qed

lemma demo_set:
  "\<exists>la s1. run_state (FmpDeviceSetImageWithStatus ram_fmp True (Some (replicate RPI5_FMP_UPDATABLE_SIZE 1)) None True) demo_card =
     ((EFI_SUCCESS, la), s1)"
proof -
  have w: "run_state (FmpSetPosition ram_fmp h p) s = (EFI_SUCCESS, s\<lparr>fpos := (fpos s)(h := p)\<rparr>)"
    "fst (run_state (FmpWrite ram_fmp h bs) s) = (EFI_SUCCESS, length bs)" "run_state (FmpFlush ram_fmp h) s = (EFI_SUCCESS, s)"
    "run_state (FmpClose ram_fmp h) s = (EFI_SUCCESS, s)" for h p bs s
    by (simp_all add: ram_fmp_def)
  have v: "Rpi5FmpValidatePayload (Some (replicate RPI5_FMP_UPDATABLE_SIZE 1)) = EFI_SUCCESS"
    by (simp add: Rpi5FmpValidatePayload_def)
  have img: "\<exists>s'. run_state (FmpWriteImage ram_fmp h (replicate RPI5_FMP_UPDATABLE_SIZE 1)) s = (EFI_SUCCESS, s')" for h s
  proof -
    obtain r s1 where "run_state (FmpWrite ram_fmp h (replicate RPI5_FMP_UPDATABLE_SIZE 1)) (s\<lparr>fpos := (fpos s)(h := 0)\<rparr>) = (r, s1)"
      by (rule prod.exhaust)
    moreover from this have "r = (EFI_SUCCESS, RPI5_FMP_UPDATABLE_SIZE)" using w(2) by (metis fst_conv length_replicate)
    ultimately show ?thesis by (simp add: FmpWriteImage_def w EFI_ERROR_def)
  qed
  obtain s1 where "run_state (FmpWriteImage ram_fmp (1, ''RPI_EFI.FD'') (replicate RPI5_FMP_UPDATABLE_SIZE 1))
      (demo_card\<lparr>fpos := (fpos demo_card)((1, ''RPI_EFI.FD'') := RPI5_FMP_UPDATABLE_SIZE)\<rparr>) = (EFI_SUCCESS, s1)"
    using img by blast
  then show ?thesis by (simp add: FmpDeviceSetImageWithStatus_def v demo_open w EFI_ERROR_def)
qed

lemma no_progress: "progress_quiet V None"
  by (simp add: progress_quiet_def)


theorem fmp_update_read_back_witness:
  "\<exists>s1 s2. run_state (FmpDeviceGetImage ram_fmp True (Some RPI5_FMP_UPDATABLE_SIZE)) s1 =
     ((EFI_SUCCESS, Some (replicate RPI5_FMP_UPDATABLE_SIZE 1), Some RPI5_FMP_UPDATABLE_SIZE), s2)"
proof -
  obtain la s1 where "run_state (FmpDeviceSetImageWithStatus ram_fmp True (Some (replicate RPI5_FMP_UPDATABLE_SIZE 1)) None True)
      demo_card = ((EFI_SUCCESS, la), s1)" using demo_set by blast
  then have r: "run_state (FmpDeviceSetImage ram_fmp True (Some (replicate RPI5_FMP_UPDATABLE_SIZE 1)) None) demo_card = (EFI_SUCCESS, s1)"
    by (simp add: FmpDeviceSetImage_def)
  obtain st img sz s2 where g: "run_state (FmpDeviceGetImage ram_fmp True (Some RPI5_FMP_UPDATABLE_SIZE)) s1 = ((st, img, sz), s2)"
    by (metis prod.exhaust)
  have "firmware_file ram_fview demo_card FILE_READ = firmware_file ram_fview demo_card FILE_READ_WRITE"
    by (simp add: demo_found)
  from fmp_update_read_back [OF ram_fmp_ok ram_reads_work no_progress order_refl this r g] g show ?thesis by auto
qed

end
