(* ===== verification/Json_Text.thy ===== *)
theory Json_Text
  imports Eeprom_Patch
begin

section \<open>JSON text\<close>

text \<open>
  What goes over the Redfish host interface: JSON values, their text without blanks, and a reader of
  that text. The reader is the specification of the bodies the firmware sends: a body is right when the reader
  gives back the object it is meant to be (\<^verbatim>\<open>read_json_render\<close> is the round trip that all bodies share).
  The firmware's own reader is EDK2's JsonLib; the model of the driver uses it through the object it
  returns. Text is a list of bytes.
\<close>

datatype json =
    JNull
  | JBool bool
  | JInt int
  | JStr "u8 list"
  | JArr "json list"
  | JObj "(u8 list \<times> json) list"

subsection \<open>The printer\<close>

definition esc :: "u8 \<Rightarrow> u8 list" where
  "esc c = (if c = 34 \<or> c = 92 then [92, c] else [c])"

definition render_str :: "u8 list \<Rightarrow> u8 list" where
  "render_str s = 34 # concat (map esc s) @ [34]"

definition render_int :: "int \<Rightarrow> u8 list" where
  "render_int i = (if i < 0 then 45 # fmt_dec (nat (- i)) else fmt_dec (nat i))"

text \<open>The elements of an array or the members of an object, separated by commas.\<close>

fun commas :: "u8 list list \<Rightarrow> u8 list" where
  "commas [] = []"
| "commas [x] = x"
| "commas (x # y # ys) = x @ 44 # commas (y # ys)"

fun render :: "json \<Rightarrow> u8 list" where
  "render JNull = ascii ''null''"
| "render (JBool b) = ascii (if b then ''true'' else ''false'')"
| "render (JInt i) = render_int i"
| "render (JStr s) = render_str s"
| "render (JArr js) = 91 # commas (map render js) @ [93]"
| "render (JObj ms) = 123 # commas (map (\<lambda>m. render_str (fst m) @ 58 # render (snd m)) ms) @ [125]"

definition member :: "u8 list \<times> json \<Rightarrow> u8 list" where
  "member m = render_str (fst m) @ 58 # render (snd m)"

lemma render_obj: "render (JObj ms) = 123 # commas (map member ms) @ [125]"
proof -
  have "member = (\<lambda>m. render_str (fst m) @ 58 # render (snd m))" by (rule ext) (simp add: member_def)
  then show ?thesis by simp
qed

declare render.simps(6) [simp del]

subsection \<open>The reader\<close>

fun scan_str :: "u8 list \<Rightarrow> (u8 list \<times> u8 list) option" where
  "scan_str [] = None"
| "scan_str (c # cs) =
     (if c = 34 then Some ([], cs)
      else if c = 92
      then (case cs of
              [] \<Rightarrow> None
            | d # ds \<Rightarrow> if d = 34 \<or> d = 92 then map_option (\<lambda>(s, r). (d # s, r)) (scan_str ds) else None)
      else if c < 32 then None
      else map_option (\<lambda>(s, r). (c # s, r)) (scan_str cs))"

definition digit :: "u8 \<Rightarrow> bool" where
  "digit c = (48 \<le> c \<and> c \<le> 57)"

definition dec_value :: "u8 list \<Rightarrow> nat" where
  "dec_value ds = foldl (\<lambda>n d. n * 10 + unat (d - 48)) 0 ds"

definition scan_nat :: "u8 list \<Rightarrow> (nat \<times> u8 list) option" where
  "scan_nat s = (let ds = takeWhile digit s in if ds = [] then None else Some (dec_value ds, dropWhile digit s))"

definition scan_word :: "string \<Rightarrow> u8 list \<Rightarrow> u8 list option" where
  "scan_word w s = (if take (length w) s = ascii w then Some (drop (length w) s) else None)"

fun read_value :: "nat \<Rightarrow> u8 list \<Rightarrow> (json \<times> u8 list) option"
  and read_elems :: "nat \<Rightarrow> u8 list \<Rightarrow> (json list \<times> u8 list) option"
  and read_members :: "nat \<Rightarrow> u8 list \<Rightarrow> ((u8 list \<times> json) list \<times> u8 list) option" where
  "read_value 0 s = None"
| "read_value (Suc n) s =
     (case s of
        [] \<Rightarrow> None
      | c # cs \<Rightarrow>
          if c = 34 then map_option (\<lambda>(t, r). (JStr t, r)) (scan_str cs)
          else if c = 91 then
            (if take 1 cs = [93] then Some (JArr [], drop 1 cs) else map_option (\<lambda>(js, r). (JArr js, r)) (read_elems n cs))
          else if c = 123 then
            (if take 1 cs = [125] then Some (JObj [], drop 1 cs) else map_option (\<lambda>(ms, r). (JObj ms, r)) (read_members n cs))
          else if c = 45 then map_option (\<lambda>(k, r). (JInt (- int k), r)) (scan_nat cs)
          else if digit c then map_option (\<lambda>(k, r). (JInt (int k), r)) (scan_nat s)
          else if c = 110 then map_option (Pair JNull) (scan_word ''null'' s)
          else if c = 116 then map_option (Pair (JBool True)) (scan_word ''true'' s)
          else map_option (Pair (JBool False)) (scan_word ''false'' s))"
| "read_elems 0 s = None"
| "read_elems (Suc n) s =
     (case read_value n s of
        None \<Rightarrow> None
      | Some (j, r) \<Rightarrow>
          if take 1 r = [44] then map_option (\<lambda>(js, q). (j # js, q)) (read_elems n (drop 1 r))
          else if take 1 r = [93] then Some ([j], drop 1 r) else None)"
| "read_members 0 s = None"
| "read_members (Suc n) s =
     (if take 1 s \<noteq> [34] then None
      else case scan_str (drop 1 s) of
        None \<Rightarrow> None
      | Some (k, r) \<Rightarrow>
          if take 1 r \<noteq> [58] then None
          else case read_value n (drop 1 r) of
            None \<Rightarrow> None
          | Some (j, q) \<Rightarrow>
              if take 1 q = [44] then map_option (\<lambda>(ms, p). ((k, j) # ms, p)) (read_members n (drop 1 q))
              else if take 1 q = [125] then Some ([(k, j)], drop 1 q) else None)"

definition read_json :: "u8 list \<Rightarrow> json option" where
  "read_json s = (case read_value (length s) s of Some (j, []) \<Rightarrow> Some j | _ \<Rightarrow> None)"

subsection \<open>Reading what was printed\<close>

definition text_ok :: "u8 list \<Rightarrow> bool" where
  "text_ok s = (\<forall>c\<in>set s. 32 \<le> c)"

fun json_ok :: "json \<Rightarrow> bool" where
  "json_ok (JStr s) = text_ok s"
| "json_ok (JArr js) = (\<forall>j\<in>set js. json_ok j)"
| "json_ok (JObj ms) = (\<forall>m\<in>set ms. text_ok (fst m) \<and> json_ok (snd m))"
| "json_ok _ = True"

lemma scan_str_render: "text_ok s \<Longrightarrow> scan_str (concat (map esc s) @ 34 # r) = Some (s, r)"
  by (induction s) (auto simp: esc_def text_ok_def not_less)

lemma fmt_dec_digits: "\<forall>c\<in>set (fmt_dec n). digit c" "fmt_dec n \<noteq> []"
proof (induction n rule: fmt_dec.induct)
  case (1 n)
  have d: "digit (of_nat (48 + k))" if "k < 10" for k
    using that by (auto simp: digit_def word_le_nat_alt unat_word_ariths unat_of_nat)
  { case 1 then show ?case using "1.IH" d [of n] d [of "n mod 10"] by (subst fmt_dec.simps) (auto simp del: of_nat_add)
  next case 2 then show ?case by (subst fmt_dec.simps) simp }
qed

lemma dec_value_snoc: "dec_value (ds @ [d]) = dec_value ds * 10 + unat (d - 48)"
  by (simp add: dec_value_def)

lemma dec_value_fmt: "dec_value (fmt_dec n) = n"
proof (induction n rule: fmt_dec.induct)
  case (1 n)
  have d: "unat ((of_nat (48 + k) :: u8) - 48) = k" if "k < 10" for k
    using that by (simp add: unat_of_nat)
  show ?case
  proof (cases "n < 10")
    case True
    then show ?thesis using d [of n] by (subst fmt_dec.simps) (simp add: dec_value_def del: of_nat_add)
  next
    case False
    then show ?thesis using 1 d [of "n mod 10"] by (subst fmt_dec.simps) (simp add: dec_value_snoc del: of_nat_add)
  qed
qed

definition stops :: "u8 list \<Rightarrow> bool" where
  "stops r = (r = [] \<or> \<not> digit (hd r))"

lemma scan_nat_fmt: "stops r \<Longrightarrow> scan_nat (fmt_dec n @ r) = Some (n, r)"
proof -
  assume r: "stops r"
  have "takeWhile digit (fmt_dec n @ r) = fmt_dec n" "dropWhile digit (fmt_dec n @ r) = r"
    using fmt_dec_digits [of n] r by (cases r; simp add: stops_def takeWhile_append2 dropWhile_append2)+
  then show ?thesis using fmt_dec_digits(2) by (simp add: scan_nat_def dec_value_fmt)
qed

lemma digits_head: "digit c \<Longrightarrow> c \<noteq> 34 \<and> c \<noteq> 91 \<and> c \<noteq> 123 \<and> c \<noteq> 45 \<and> c \<noteq> 110 \<and> c \<noteq> 116"
  by (auto simp: digit_def)

lemma scan_nat_head: "scan_nat (fmt_dec n @ r) = Some p \<Longrightarrow> \<exists>c cs. fmt_dec n @ r = c # cs \<and> digit c"
  using fmt_dec_digits [of n] by (cases "fmt_dec n") auto

lemma read_int:
  assumes "stops r"
  shows "read_value (Suc n) (render_int i @ r) = Some (JInt i, r)"
proof (cases "i < 0")
  case True
  then show ?thesis using scan_nat_fmt [OF assms, of "nat (- i)"] by (simp add: render_int_def)
next
  case False
  obtain c cs where c: "fmt_dec (nat i) @ r = c # cs" "digit c"
    using scan_nat_head [OF scan_nat_fmt [OF assms, of "nat i"]] by blast
  with False digits_head [OF c(2)] scan_nat_fmt [OF assms, of "nat i"] show ?thesis
    by (simp add: render_int_def)
qed

lemma commas_length: "xs \<noteq> [] \<Longrightarrow> length xs \<le> Suc (length (commas xs))"
  by (induction xs rule: commas.induct) auto

lemma render_nonempty: "render j \<noteq> []"
  by (cases j) (simp_all add: ascii_def render_int_def fmt_dec_digits(2) render_str_def render_obj)

text \<open>The reader needs no more steps than there are characters.\<close>

lemma commas_Cons: "ys \<noteq> [] \<Longrightarrow> commas (x # ys) = x @ 44 # commas ys"
  by (cases ys) auto

lemma render_first: "take 1 (render j @ r) \<noteq> [93]" "take 1 (render_str k @ r) = [34]"
proof -
  show "take 1 (render_str k @ r) = [34]" by (simp add: render_str_def)
  have d: "take 1 (fmt_dec n @ r) \<noteq> [93]" for n
    using fmt_dec_digits [of n] by (cases "fmt_dec n") (auto simp: digit_def)
  show "take 1 (render j @ r) \<noteq> [93]"
    using d by (cases j) (auto simp: ascii_def render_int_def render_str_def render_obj)
qed

lemma read_render_all:
  "(\<forall>j r. json_ok j \<longrightarrow> stops r \<longrightarrow> length (render j) \<le> n \<longrightarrow> read_value n (render j @ r) = Some (j, r)) \<and>
   (\<forall>js r. js \<noteq> [] \<longrightarrow> (\<forall>j\<in>set js. json_ok j) \<longrightarrow> Suc (length (commas (map render js))) \<le> n \<longrightarrow>
      read_elems n (commas (map render js) @ 93 # r) = Some (js, r)) \<and>
   (\<forall>ms r. ms \<noteq> [] \<longrightarrow> (\<forall>m\<in>set ms. text_ok (fst m) \<and> json_ok (snd m)) \<longrightarrow> Suc (length (commas (map member ms))) \<le> n \<longrightarrow>
      read_members n (commas (map member ms) @ 125 # r) = Some (ms, r))"
proof (induction n)
  case 0
  then show ?case using render_nonempty by auto
next
  case (Suc n)
  note E = Suc.IH [THEN conjunct2, THEN conjunct1, rule_format]
  note M = Suc.IH [THEN conjunct2, THEN conjunct2, rule_format]
  note V = Suc.IH [THEN conjunct1, rule_format]
  have stop: "stops (44 # r)" "stops (93 # r)" "stops (125 # r)" for r by (simp_all add: stops_def digit_def)
  have v: "read_value (Suc n) (render j @ r) = Some (j, r)"
    if "json_ok j" "stops r" "length (render j) \<le> Suc n" for j r
  proof (cases j)
    case (JInt i)
    then show ?thesis using read_int [OF that(2)] by simp
  next
    case (JStr s)
    then show ?thesis using that(1) scan_str_render [of s r] by (simp add: render_str_def)
  next
    case (JArr js)
    show ?thesis
    proof (cases "js = []")
      case False
      then obtain k ks where k: "js = k # ks" by (cases js) auto
      have "take 1 (commas (map render js) @ 93 # r) \<noteq> [93]"
        using render_first(1) [of k] by (cases ks) (auto simp: k)
      then show ?thesis using that JArr False E [of js r] by simp
    qed (use JArr in simp)
  next
    case (JObj ms)
    show ?thesis
    proof (cases "ms = []")
      case False
      then obtain k ks where k: "ms = k # ks" by (cases ms) auto
      have "take 1 (commas (map member ms) @ 125 # r) \<noteq> [125]"
        using render_first(2) [of "fst k"] by (cases ks) (auto simp: k member_def)
      then show ?thesis using that JObj False M [of ms r] by (simp add: render_obj)
    qed (use JObj in \<open>simp add: render_obj\<close>)
  qed (auto simp: ascii_def scan_word_def digit_def of_char_def)
  have e: "read_elems (Suc n) (commas (map render js) @ 93 # r) = Some (js, r)"
    if "js \<noteq> []" "\<forall>j\<in>set js. json_ok j" "Suc (length (commas (map render js))) \<le> Suc n" for js r
  proof (cases js)
    case (Cons k ks)
    show ?thesis
    proof (cases "ks = []")
      case True
      then show ?thesis using that Cons V [of k "93 # r"] stop by simp
    next
      case False
      with that Cons have "read_value n (render k @ 44 # commas (map render ks) @ 93 # r) =
          Some (k, 44 # commas (map render ks) @ 93 # r)"
        by (intro V stop) (simp_all add: commas_Cons)
      then show ?thesis using that Cons False E [of ks r] by (simp add: commas_Cons)
    qed
  qed (use that in simp)
  have m: "read_members (Suc n) (commas (map member ms) @ 125 # r) = Some (ms, r)"
    if "ms \<noteq> []" "\<forall>m\<in>set ms. text_ok (fst m) \<and> json_ok (snd m)" "Suc (length (commas (map member ms))) \<le> Suc n" for ms r
  proof (cases ms)
    case (Cons k ks)
    then have s: "scan_str (concat (map esc (fst k)) @ 34 # q) = Some (fst k, q)" for q
      using that(2) scan_str_render by simp
    show ?thesis
    proof (cases "ks = []")
      case True
      have "read_value n (render (snd k) @ 125 # r) = Some (snd k, 125 # r)"
        using that Cons True by (intro V stop) (auto simp: member_def)
      then show ?thesis using Cons True s by (simp add: member_def render_str_def)
    next
      case False
      have "read_value n (render (snd k) @ 44 # commas (map member ks) @ 125 # r) =
          Some (snd k, 44 # commas (map member ks) @ 125 # r)"
        using that Cons False by (intro V stop) (auto simp: member_def commas_Cons)
      then show ?thesis using that Cons False s M [of ks r] by (simp add: member_def render_str_def commas_Cons)
    qed
  qed (use that in simp)
  from v e m show ?case by blast
qed

lemma read_json_render: "json_ok j \<Longrightarrow> read_json (render j) = Some j"
  using read_render_all [of "length (render j)", THEN conjunct1, rule_format, of j "[]"]
  by (simp add: read_json_def stops_def)

end
