(* ===== verification/Redfish_Inventory.thy ===== *)
theory Redfish_Inventory
  imports Json_Text
begin

section \<open>The inventory the host reports (RpiRedfishInventory.c)\<close>

text \<open>
  What the host tells the BMC about itself: identity, processors and memory from the SMBIOS tables,
  drives from the disk protocols, and the JSON bodies that carry them.

  The records \<^verbatim>\<open>GetNext\<close> enumerates are a list, \<open>None\<close> when the SMBIOS protocol is not there. A record has
  its formatted area by offset (the offsets are those of the SMBIOS specification) and the bytes that follow
  it up to the double NUL. A fixed-size character field is the text it holds, without the
  terminator. \<^verbatim>\<open>Max\<close> and the allocation of a body are arguments; the checks for null pointers, which no caller
  passes, are not modelled.
\<close>

definition RPI_REDFISH_STR_MAX :: nat where "RPI_REDFISH_STR_MAX = 64"
definition RPI_REDFISH_JSON_MAX :: nat where "RPI_REDFISH_JSON_MAX = 1024"
definition RPI_REDFISH_MEMORY_MAX :: nat where "RPI_REDFISH_MEMORY_MAX = 8"
definition RPI_REDFISH_PROCESSOR_MAX :: nat where "RPI_REDFISH_PROCESSOR_MAX = 4"
definition RPI_REDFISH_DRIVE_MAX :: nat where "RPI_REDFISH_DRIVE_MAX = 8"
definition RPI_REDFISH_BOOT_PROGRESS :: "u8 list" where
  "RPI_REDFISH_BOOT_PROGRESS = ascii ''SystemHardwareInitializationComplete''"

record smbios =
  SmType :: u8
  SmLength :: u8
  SmBytes :: "nat \<Rightarrow> u8"
  SmStrings :: "u8 list"

definition SmWord :: "smbios \<Rightarrow> nat \<Rightarrow> u16" where
  "SmWord r off = ucast (SmBytes r off) OR push_bit 8 (ucast (SmBytes r (off + 1)))"

definition SmDword :: "smbios \<Rightarrow> nat \<Rightarrow> u32" where
  "SmDword r off = Le32 (SmBytes r) off"

subsection \<open>SMBIOS strings\<close>

function SmbiosWalk :: "u8 list \<Rightarrow> u8 \<Rightarrow> u8 \<Rightarrow> u8 list option" where
  "SmbiosWalk Walker Current Idx =
     (if Walker = [] \<or> hd Walker = 0 then None
      else if Current = Idx then Some (takeWhile (\<lambda>c. c \<noteq> 0) Walker)
      else SmbiosWalk (drop (length (takeWhile (\<lambda>c. c \<noteq> 0) Walker) + 1) Walker) (Current + 1) Idx)"
  by pat_completeness auto
termination by (relation "measure (\<lambda>(W, c, i). length W)") auto

declare SmbiosWalk.simps [simp del]

definition SmbiosGetString :: "smbios \<Rightarrow> u8 \<Rightarrow> u8 list option" where
  "SmbiosGetString Header Idx = (if Idx = 0 then None else SmbiosWalk (SmStrings Header) 1 Idx)"

definition CopyInventoryString :: "u8 list \<Rightarrow> nat \<Rightarrow> u8 list option \<Rightarrow> u8 list" where
  "CopyInventoryString Dest DestSize Source =
     (if DestSize = 0 then Dest
      else (case Source of
              None \<Rightarrow> []
            | Some s \<Rightarrow> take (if length s \<ge> DestSize then DestSize - 1 else length s) s))"

text \<open>A string field of a record, copied into a field of 64 bytes that was zeroed.\<close>

definition inv_string :: "smbios \<Rightarrow> nat \<Rightarrow> u8 list" where
  "inv_string r off = CopyInventoryString [] RPI_REDFISH_STR_MAX (SmbiosGetString r (SmBytes r off))"

definition RenderSmbiosUuid :: "(nat \<Rightarrow> u8) \<Rightarrow> u8 list option" where
  "RenderSmbiosUuid Uuid =
     (let Or = foldl (\<lambda>o' i. o' OR Uuid i) 0 [0..<16];
          And = foldl (\<lambda>a i. a AND Uuid i) 0xFF [0..<16] in
      if Or = 0 \<or> And = 0xFF then None
      else Some (AsciiSPrint 37
        (concat (map (\<lambda>i. fmt_02x (Uuid i)) [3, 2, 1, 0]) @ [45] @ concat (map (\<lambda>i. fmt_02x (Uuid i)) [5, 4]) @ [45] @
         concat (map (\<lambda>i. fmt_02x (Uuid i)) [7, 6]) @ [45] @ concat (map (\<lambda>i. fmt_02x (Uuid i)) [8, 9]) @ [45] @
         concat (map (\<lambda>i. fmt_02x (Uuid i)) [10, 11, 12, 13, 14, 15]))))"

subsection \<open>Identity\<close>

record host_inventory =
  IBiosVersion :: "u8 list"
  IManufacturer :: "u8 list"
  IModel :: "u8 list"
  ISerialNumber :: "u8 list"
  IUuid :: "u8 list"
  IUuidValid :: bool

definition empty_inventory :: host_inventory where
  "empty_inventory = \<lparr>IBiosVersion = [], IManufacturer = [], IModel = [], ISerialNumber = [], IUuid = [], IUuidValid = False\<rparr>"

definition InventoryStep :: "host_inventory \<Rightarrow> smbios \<Rightarrow> host_inventory" where
  "InventoryStep I r =
     (if SmType r = 0 then I\<lparr>IBiosVersion := inv_string r 5\<rparr>
      else if SmType r = 1
      then (let I = I\<lparr>IManufacturer := inv_string r 4, IModel := inv_string r 5, ISerialNumber := inv_string r 7\<rparr> in
            case RenderSmbiosUuid (\<lambda>i. SmBytes r (8 + i)) of
              None \<Rightarrow> I\<lparr>IUuidValid := False\<rparr>
            | Some t \<Rightarrow> I\<lparr>IUuid := t, IUuidValid := True\<rparr>)
      else I)"

definition RpiRedfishCollectInventory :: "smbios list option \<Rightarrow> efi_status \<times> host_inventory" where
  "RpiRedfishCollectInventory Smbios =
     (case Smbios of
        None \<Rightarrow> (EFI_NOT_FOUND, empty_inventory)
      | Some rs \<Rightarrow> (EFI_SUCCESS, foldl InventoryStep empty_inventory rs))"

subsection \<open>Memory\<close>

definition RedfishMemoryDeviceType :: "u8 \<Rightarrow> u8 list option" where
  "RedfishMemoryDeviceType t =
     map_of [(0x0F, ascii ''SDRAM''), (0x12, ascii ''DDR''), (0x13, ascii ''DDR2''), (0x18, ascii ''DDR3''),
       (0x1A, ascii ''DDR4''), (0x1B, ascii ''LPDDR_SDRAM''), (0x1C, ascii ''LPDDR2_SDRAM''),
       (0x1D, ascii ''LPDDR3_SDRAM''), (0x1E, ascii ''LPDDR4_SDRAM'')] t"

definition RedfishBaseModuleType :: "u8 \<Rightarrow> u8 list option" where
  "RedfishBaseModuleType f =
     map_of [(0x0D, ascii ''SO_DIMM''), (0x09, ascii ''UDIMM''), (0x0C, ascii ''RDIMM''), (0x0F, ascii ''LRDIMM'')] f"

definition RedfishMemoryCapacityMiB :: "smbios \<Rightarrow> u32" where
  "RedfishMemoryCapacityMiB r =
     (let Sz = SmWord r 0x0C in
      if Sz = 0 \<or> Sz = 0xFFFF then 0
      else if Sz = 0x7FFF then (if unat (SmLength r) < 0x1C + 4 then 0 else SmDword r 0x1C AND 0x7FFFFFFF)
      else if bit Sz 15 then ucast (Sz AND 0x7FFF) div 1024
      else ucast Sz)"

record memory_module =
  MDeviceLocator :: "u8 list"
  MBankLocator :: "u8 list"
  MManufacturer :: "u8 list"
  MSerialNumber :: "u8 list"
  MPartNumber :: "u8 list"
  MDeviceType :: "u8 list option"
  MBaseModuleType :: "u8 list option"
  MCapacityMiB :: u32
  MOperatingSpeedMhz :: u32
  MRatedSpeedMhz :: u32
  MDataWidthBits :: u16
  MBusWidthBits :: u16

definition MemoryModule :: "smbios \<Rightarrow> memory_module" where
  "MemoryModule r =
     (let Configured = (if unat (SmLength r) \<ge> 0x20 + 2 then ucast (SmWord r 0x20) else 0) in
      \<lparr>MDeviceLocator = inv_string r 0x10, MBankLocator = inv_string r 0x11, MManufacturer = inv_string r 0x17,
       MSerialNumber = inv_string r 0x18, MPartNumber = inv_string r 0x1A,
       MDeviceType = RedfishMemoryDeviceType (SmBytes r 0x12), MBaseModuleType = RedfishBaseModuleType (SmBytes r 0x0E),
       MCapacityMiB = RedfishMemoryCapacityMiB r,
       MOperatingSpeedMhz = (if Configured = 0 then ucast (SmWord r 0x15) else Configured),
       MRatedSpeedMhz = ucast (SmWord r 0x15), MDataWidthBits = SmWord r 0x0A, MBusWidthBits = SmWord r 0x08\<rparr>)"

fun MemoryLoop :: "nat \<Rightarrow> smbios list \<Rightarrow> memory_module list \<Rightarrow> memory_module list" where
  "MemoryLoop Cap [] Modules = Modules"
| "MemoryLoop Cap (r # rs) Modules =
     (if SmType r \<noteq> 17 then MemoryLoop Cap rs Modules
      else if length Modules \<ge> Cap then Modules
      else if RedfishMemoryCapacityMiB r = 0 then MemoryLoop Cap rs Modules
      else MemoryLoop Cap rs (Modules @ [MemoryModule r]))"

definition RpiRedfishCollectMemory :: "smbios list option \<Rightarrow> nat \<Rightarrow> efi_status + memory_module list" where
  "RpiRedfishCollectMemory Smbios Cap =
     (if Cap = 0 then Inl EFI_INVALID_PARAMETER
      else (case Smbios of None \<Rightarrow> Inl EFI_NOT_FOUND | Some rs \<Rightarrow> Inr (MemoryLoop Cap rs [])))"

subsection \<open>Processors\<close>

definition RedfishProcessorType :: "u8 \<Rightarrow> u8 list option" where
  "RedfishProcessorType t = map_of [(3, ascii ''CPU''), (5, ascii ''DSP''), (6, ascii ''GPU'')] t"

definition ProcessorCount :: "u8 \<Rightarrow> u16 \<Rightarrow> bool \<Rightarrow> u32" where
  "ProcessorCount Narrow Wide WideValid = (if Narrow = 0xFF \<and> WideValid then ucast Wide else ucast Narrow)"

record processor =
  PSocket :: "u8 list"
  PManufacturer :: "u8 list"
  PModel :: "u8 list"
  PSerialNumber :: "u8 list"
  PPartNumber :: "u8 list"
  PIdRegisters :: "u8 list"
  PProcessorType :: "u8 list option"
  PMaxSpeedMhz :: u32
  POperatingSpeedMhz :: u32
  PTotalCores :: u32
  PTotalEnabledCores :: u32
  PTotalThreads :: u32
  PEnabled :: bool

definition fmt_016x :: "(nat \<Rightarrow> u8) \<Rightarrow> u8 list" where
  "fmt_016x b = concat (map (\<lambda>i. fmt_02x (b i)) [7, 6, 5, 4, 3, 2, 1, 0])"

definition ProcessorOf :: "smbios \<Rightarrow> processor" where
  "ProcessorOf r =
     (let Regs = (\<lambda>i. SmBytes r (8 + i));
          HasParts = unat (SmLength r) \<ge> 0x22 + 1;
          HasCounts = unat (SmLength r) \<ge> 0x25 + 1;
          HasWideCounts = unat (SmLength r) \<ge> 0x2E + 2 in
      \<lparr>PSocket = inv_string r 4, PManufacturer = inv_string r 7, PModel = inv_string r 0x10,
       PSerialNumber = (if HasParts then inv_string r 0x20 else []),
       PPartNumber = (if HasParts then inv_string r 0x22 else []),
       PIdRegisters = (if \<exists>i\<in>set [0..<8]. Regs i \<noteq> 0 then AsciiSPrint 19 (ascii ''0x'' @ fmt_016x Regs) else []),
       PProcessorType = RedfishProcessorType (SmBytes r 5),
       PMaxSpeedMhz = ucast (SmWord r 0x14), POperatingSpeedMhz = ucast (SmWord r 0x16),
       PTotalCores = (if HasCounts then ProcessorCount (SmBytes r 0x23) (SmWord r 0x2A) HasWideCounts else 0),
       PTotalEnabledCores = (if HasCounts then ProcessorCount (SmBytes r 0x24) (SmWord r 0x2C) HasWideCounts else 0),
       PTotalThreads = (if HasCounts then ProcessorCount (SmBytes r 0x25) (SmWord r 0x2E) HasWideCounts else 0),
       PEnabled = (SmBytes r 0x18 AND 7 = 1)\<rparr>)"

fun ProcessorLoop :: "nat \<Rightarrow> smbios list \<Rightarrow> processor list \<Rightarrow> processor list" where
  "ProcessorLoop Cap [] Ps = Ps"
| "ProcessorLoop Cap (r # rs) Ps =
     (if SmType r \<noteq> 4 then ProcessorLoop Cap rs Ps
      else if length Ps \<ge> Cap then Ps
      else if SmBytes r 0x18 AND 0x40 = 0 then ProcessorLoop Cap rs Ps
      else ProcessorLoop Cap rs (Ps @ [ProcessorOf r]))"

definition RpiRedfishCollectProcessors :: "smbios list option \<Rightarrow> nat \<Rightarrow> efi_status + processor list" where
  "RpiRedfishCollectProcessors Smbios Cap =
     (if Cap = 0 then Inl EFI_INVALID_PARAMETER
      else (case Smbios of None \<Rightarrow> Inl EFI_NOT_FOUND | Some rs \<Rightarrow> Inr (ProcessorLoop Cap rs [])))"

subsection \<open>Drives\<close>

text \<open>Fixed-width identify strings: ATA swaps the bytes of each word, both pad with blanks.\<close>

definition CopyIdentifyString :: "u8 list \<Rightarrow> nat \<Rightarrow> u8 list \<Rightarrow> bool \<Rightarrow> u8 list" where
  "CopyIdentifyString Dest DestSize Source SwapPairs =
     (if DestSize = 0 then Dest
      else
       (let Len = (if length Source \<ge> DestSize then DestSize - 1 else length Source);
            cs = map (\<lambda>i. Source ! (if SwapPairs then i XOR 1 else i)) [0..<Len];
            cs = rev (dropWhile (\<lambda>c. c \<le> 32) (rev cs));
            cs = dropWhile (\<lambda>c. c = 32) cs in
        takeWhile (\<lambda>c. c \<noteq> 0) cs))"

record drive =
  DModel :: "u8 list"
  DSerialNumber :: "u8 list"
  DRevision :: "u8 list"
  DProtocol :: "u8 list"
  DMediaType :: "u8 list option"
  DCapacityBytes :: u64

definition empty_drive :: drive where
  "empty_drive = \<lparr>DModel = [], DSerialNumber = [], DRevision = [], DProtocol = [], DMediaType = None, DCapacityBytes = 0\<rparr>"

text \<open>
  The protocols on a handle: the interface of its DiskInfo, the four calls that reach the NVMe controller and
  the identify data it sends, the answer of an ATA disk, and the media of its block device.
\<close>

datatype disk_interface = NvmeInterface | AhciInterface | IdeInterface | OtherInterface

record nvme_calls =
  NvDevicePath :: efi_status
  NvLocate :: efi_status
  NvProtocol :: efi_status
  NvPassThru :: efi_status
  NvMn :: "u8 list"
  NvSn :: "u8 list"
  NvFr :: "u8 list"

record ata_calls =
  AtaIdentify :: efi_status
  AtaModelName :: "u8 list"
  AtaSerialNo :: "u8 list"
  AtaFirmwareVer :: "u8 list"
  AtaRotationRate :: u16

record disk_handle =
  HdDiskInfo :: "disk_interface option"
  HdNvme :: nvme_calls
  HdAta :: ata_calls
  HdBlockIo :: "(bool \<times> u64 \<times> u32) option"

definition CollectNvmeDrive :: "nvme_calls \<Rightarrow> drive \<Rightarrow> efi_status \<times> drive" where
  "CollectNvmeDrive N d =
     (if EFI_ERROR (NvDevicePath N) then (NvDevicePath N, d)
      else if EFI_ERROR (NvLocate N) then (NvLocate N, d)
      else if EFI_ERROR (NvProtocol N) then (NvProtocol N, d)
      else if EFI_ERROR (NvPassThru N) then (NvPassThru N, d)
      else (EFI_SUCCESS,
            d\<lparr>DModel := CopyIdentifyString (DModel d) RPI_REDFISH_STR_MAX (NvMn N) False,
              DSerialNumber := CopyIdentifyString (DSerialNumber d) RPI_REDFISH_STR_MAX (NvSn N) False,
              DRevision := CopyIdentifyString (DRevision d) RPI_REDFISH_STR_MAX (NvFr N) False,
              DProtocol := ascii ''NVMe'', DMediaType := Some (ascii ''SSD'')\<rparr>))"

definition CollectAtaDrive :: "ata_calls \<Rightarrow> drive \<Rightarrow> efi_status \<times> drive" where
  "CollectAtaDrive A d =
     (if EFI_ERROR (AtaIdentify A) then (AtaIdentify A, d)
      else
       (let d = d\<lparr>DModel := CopyIdentifyString (DModel d) RPI_REDFISH_STR_MAX (AtaModelName A) True,
              DSerialNumber := CopyIdentifyString (DSerialNumber d) RPI_REDFISH_STR_MAX (AtaSerialNo A) True,
              DRevision := CopyIdentifyString (DRevision d) RPI_REDFISH_STR_MAX (AtaFirmwareVer A) True,
              DProtocol := ascii ''SATA''\<rparr> in
        (EFI_SUCCESS,
         if AtaRotationRate A = 1 then d\<lparr>DMediaType := Some (ascii ''SSD'')\<rparr>
         else if 0x0401 \<le> AtaRotationRate A \<and> AtaRotationRate A \<le> 0xFFFE then d\<lparr>DMediaType := Some (ascii ''HDD'')\<rparr>
         else d)))"

text \<open>The identity of the drive behind a handle, and with its capacity.\<close>

definition DriveIdentity :: "disk_handle \<Rightarrow> (efi_status \<times> drive) option" where
  "DriveIdentity h =
     (case HdDiskInfo h of
        None \<Rightarrow> None
      | Some NvmeInterface \<Rightarrow> Some (CollectNvmeDrive (HdNvme h) empty_drive)
      | Some AhciInterface \<Rightarrow> Some (CollectAtaDrive (HdAta h) empty_drive)
      | Some IdeInterface \<Rightarrow> Some (CollectAtaDrive (HdAta h) empty_drive)
      | Some OtherInterface \<Rightarrow> None)"

definition DriveCapacity :: "disk_handle \<Rightarrow> drive \<Rightarrow> drive" where
  "DriveCapacity h d =
     (case HdBlockIo h of
        Some (True, LastBlock, BlockSize) \<Rightarrow> d\<lparr>DCapacityBytes := (LastBlock + 1) * ucast BlockSize\<rparr>
      | _ \<Rightarrow> d)"

fun DriveLoop :: "nat \<Rightarrow> disk_handle list \<Rightarrow> drive list \<Rightarrow> drive list" where
  "DriveLoop Cap [] Drives = Drives"
| "DriveLoop Cap (h # hs) Drives =
     (if length Drives \<ge> Cap then Drives
      else (case DriveIdentity h of
              None \<Rightarrow> DriveLoop Cap hs Drives
            | Some (Status, d) \<Rightarrow>
                if EFI_ERROR Status \<or> DModel d = [] \<and> DSerialNumber d = [] then DriveLoop Cap hs Drives
                else if \<exists>e\<in>set Drives. DSerialNumber e = DSerialNumber d \<and> DModel e = DModel d
                then DriveLoop Cap hs Drives
                else DriveLoop Cap hs (Drives @ [DriveCapacity h d])))"

definition RpiRedfishCollectDrives :: "disk_handle list option \<Rightarrow> nat \<Rightarrow> efi_status + drive list" where
  "RpiRedfishCollectDrives Handles Cap =
     (if Cap = 0 then Inl EFI_INVALID_PARAMETER
      else (case Handles of None \<Rightarrow> Inr [] | Some hs \<Rightarrow> Inr (DriveLoop Cap hs [])))"

subsection \<open>What is collected\<close>

text \<open>A field that fits its 64 bytes with the terminator.\<close>

definition field_ok :: "u8 list \<Rightarrow> bool" where
  "field_ok s = (length s < 64 \<and> 0 \<notin> set s)"

lemma SmbiosWalk_no_nul: "SmbiosWalk W c i = Some s \<Longrightarrow> 0 \<notin> set s"
  by (induction W c i rule: SmbiosWalk.induct)
    (subst (asm) (2) SmbiosWalk.simps, auto split: if_splits dest: set_takeWhileD)

lemma inv_string_ok: "field_ok (inv_string r off)"
  by (auto simp: field_ok_def inv_string_def CopyInventoryString_def RPI_REDFISH_STR_MAX_def SmbiosGetString_def
      split: option.splits if_splits dest: in_set_takeD SmbiosWalk_no_nul)

lemma identify_string_ok: "field_ok (CopyIdentifyString [] RPI_REDFISH_STR_MAX s b)"
proof -
  have l: "length (takeWhile P (dropWhile Q (rev (dropWhile R (rev cs))))) \<le> length cs" for P Q R and cs :: "u8 list"
    using length_takeWhile_le [of P "dropWhile Q (rev (dropWhile R (rev cs)))"]
      length_dropWhile_le [of Q "rev (dropWhile R (rev cs))"] length_dropWhile_le [of R "rev cs"] by simp
  have "length (CopyIdentifyString [] RPI_REDFISH_STR_MAX s b) \<le> (if length s \<ge> 64 then 63 else length s)"
    unfolding CopyIdentifyString_def Let_def RPI_REDFISH_STR_MAX_def
    by (simp, intro conjI impI; (rule order_trans [OF l])?, simp)
  moreover have "0 \<notin> set (CopyIdentifyString [] RPI_REDFISH_STR_MAX s b)"
    by (auto simp: CopyIdentifyString_def Let_def dest: set_takeWhileD)
  ultimately show ?thesis by (simp add: field_ok_def split: if_splits)
qed

text \<open>Every record is reported at most once, in the order of the table, and only the populated ones.\<close>

lemma MemoryLoop_take:
  "length Modules \<le> Cap \<Longrightarrow>
   MemoryLoop Cap rs Modules =
     take Cap (Modules @ map MemoryModule (filter (\<lambda>r. SmType r = 17 \<and> RedfishMemoryCapacityMiB r \<noteq> 0) rs))"
  by (induction Cap rs Modules rule: MemoryLoop.induct) auto

lemma ProcessorLoop_take:
  "length Ps \<le> Cap \<Longrightarrow>
   ProcessorLoop Cap rs Ps =
     take Cap (Ps @ map ProcessorOf (filter (\<lambda>r. SmType r = 4 \<and> SmBytes r 0x18 AND 0x40 \<noteq> 0) rs))"
  by (induction Cap rs Ps rule: ProcessorLoop.induct) auto

text \<open>The drives the handles identify, and what the loop keeps of them.\<close>

definition drive_key :: "drive \<Rightarrow> u8 list \<times> u8 list" where
  "drive_key d = (DSerialNumber d, DModel d)"

definition handle_key :: "disk_handle \<Rightarrow> (u8 list \<times> u8 list) option" where
  "handle_key h =
     (case DriveIdentity h of
        Some (EFI_SUCCESS, d) \<Rightarrow> if drive_key d = ([], []) then None else Some (drive_key d)
      | _ \<Rightarrow> None)"

lemma drive_key_capacity [simp]: "drive_key (DriveCapacity h d) = drive_key d"
  by (auto simp: drive_key_def DriveCapacity_def split: option.split bool.split)

lemma handle_key_identity:
  "handle_key h = (case DriveIdentity h of None \<Rightarrow> None
     | Some (st, d) \<Rightarrow> if EFI_ERROR st \<or> DModel d = [] \<and> DSerialNumber d = [] then None else Some (drive_key d))"
  by (auto simp: handle_key_def drive_key_def EFI_ERROR_def split: option.split prod.split efi_status.split)

definition drives_post :: "nat \<Rightarrow> disk_handle list \<Rightarrow> drive list \<Rightarrow> drive list \<Rightarrow> bool" where
  "drives_post Cap hs Drives R =
     (distinct (map drive_key R) \<and> length R \<le> Cap \<and>
      (\<exists>new. R = Drives @ new \<and> (\<forall>e\<in>set new. Some (drive_key e) \<in> handle_key ` set hs)) \<and>
      (length R = Cap \<or> (\<forall>h\<in>set hs. \<forall>k. handle_key h = Some k \<longrightarrow> k \<in> drive_key ` set R)))"

text \<open>One handle: the loop stops, skips it, or appends the drive it identifies.\<close>

lemma DriveLoop_Cons:
  "DriveLoop Cap (h # hs) Drives =
     (if length Drives \<ge> Cap then Drives
      else (case handle_key h of
              None \<Rightarrow> DriveLoop Cap hs Drives
            | Some k \<Rightarrow>
                if k \<in> drive_key ` set Drives then DriveLoop Cap hs Drives
                else DriveLoop Cap hs (Drives @ [DriveCapacity h (snd (the (DriveIdentity h)))])))"
proof (cases "DriveIdentity h")
  case (Some p)
  obtain st d where p: "p = (st, d)" by (cases p)
  have "(\<exists>e\<in>set Drives. DSerialNumber e = DSerialNumber d \<and> DModel e = DModel d) \<longleftrightarrow> drive_key d \<in> drive_key ` set Drives"
    unfolding drive_key_def image_iff by (simp, metis)
  then show ?thesis using Some p by (simp add: handle_key_identity)
qed (simp add: handle_key_identity)

lemma handle_key_drive: "handle_key h = Some k \<Longrightarrow> drive_key (snd (the (DriveIdentity h))) = k"
  by (auto simp: handle_key_identity split: option.splits prod.splits if_splits)

lemma DriveLoop_keys:
  "distinct (map drive_key Drives) \<Longrightarrow> length Drives \<le> Cap \<Longrightarrow> drives_post Cap hs Drives (DriveLoop Cap hs Drives)"
proof (induction hs arbitrary: Drives)
  case Nil
  then show ?case by (simp add: drives_post_def)
next
  case (Cons h hs)
  consider (full) "length Drives = Cap"
    | (skip) "length Drives < Cap" "DriveLoop Cap (h # hs) Drives = DriveLoop Cap hs Drives"
        "\<And>k. handle_key h = Some k \<Longrightarrow> k \<in> drive_key ` set Drives"
    | (new) k where "length Drives < Cap" "handle_key h = Some k" "k \<notin> drive_key ` set Drives"
        "DriveLoop Cap (h # hs) Drives = DriveLoop Cap hs (Drives @ [DriveCapacity h (snd (the (DriveIdentity h)))])"
  proof (cases "length Drives = Cap")
    case False
    with Cons.prems have l: "length Drives < Cap" by simp
    show ?thesis
    proof (cases "handle_key h")
      case None
      with l show ?thesis by (intro skip) (simp_all add: DriveLoop_Cons del: DriveLoop.simps)
    next
      case (Some k)
      with l show ?thesis
        by (cases "k \<in> drive_key ` set Drives")
          ((intro skip; simp add: DriveLoop_Cons del: DriveLoop.simps), (intro new [of k]; simp add: DriveLoop_Cons del: DriveLoop.simps))
    qed
  qed (rule full)
  then show ?case
  proof cases
    case full
    then show ?thesis using Cons.prems by (simp add: DriveLoop_Cons drives_post_def del: DriveLoop.simps)
  next
    case skip
    from Cons.IH [OF Cons.prems] skip(3) show ?thesis unfolding skip(2) by (auto simp: drives_post_def)
  next
    case (new k)
    let ?d = "DriveCapacity h (snd (the (DriveIdentity h)))"
    have k: "drive_key ?d = k" using handle_key_drive [OF new(2)] by simp
    have "drives_post Cap hs (Drives @ [?d]) (DriveLoop Cap hs (Drives @ [?d]))"
      using new(1,3) Cons.prems k by (intro Cons.IH) auto
    then show ?thesis unfolding new(4) using k new(2) by (auto simp: drives_post_def)
  qed
qed

text \<open>
  C31: Every drive is reported once. Whatever the handles, however many namespaces a controller has, no two
  drives of the report agree in serial number and model, there are no more than asked for, each is one a handle
  identifies, and when there was room every drive that identifies itself is there. USB storage
  and unidentified disks are never reported.
\<close>

theorem drives_reported_once:
  assumes "RpiRedfishCollectDrives (Some hs) Cap = Inr ds"
  shows "distinct (map drive_key ds) \<and> length ds \<le> Cap \<and> Some ` drive_key ` set ds \<subseteq> handle_key ` set hs \<and>
    (length ds < Cap \<longrightarrow> Some ` drive_key ` set ds = {k. k \<in> handle_key ` set hs \<and> k \<noteq> None})"
proof -
  from assms have ds: "ds = DriveLoop Cap hs []" by (simp add: RpiRedfishCollectDrives_def split: if_splits)
  have keys: "distinct (map drive_key ds)" "length ds \<le> Cap" "Some ` drive_key ` set ds \<subseteq> handle_key ` set hs"
    "length ds = Cap \<or> (\<forall>h\<in>set hs. \<forall>k. handle_key h = Some k \<longrightarrow> k \<in> drive_key ` set ds)"
    using DriveLoop_keys [of "[]" Cap hs] unfolding ds drives_post_def by auto
  moreover have "Some ` drive_key ` set ds = {k. k \<in> handle_key ` set hs \<and> k \<noteq> None}" if "length ds < Cap"
  proof
    show "{k. k \<in> handle_key ` set hs \<and> k \<noteq> None} \<subseteq> Some ` drive_key ` set ds" using keys(4) that by fastforce
  qed (use keys(3) in auto)
  ultimately show ?thesis by blast
qed

definition demo_nvme :: "u8 list \<Rightarrow> disk_handle" where
  "demo_nvme sn = \<lparr>HdDiskInfo = Some NvmeInterface,
     HdNvme = \<lparr>NvDevicePath = EFI_SUCCESS, NvLocate = EFI_SUCCESS, NvProtocol = EFI_SUCCESS, NvPassThru = EFI_SUCCESS,
       NvMn = ascii ''  SSD 970  '', NvSn = sn, NvFr = ascii ''1.0''\<rparr>,
     HdAta = \<lparr>AtaIdentify = EFI_NOT_FOUND, AtaModelName = [], AtaSerialNo = [], AtaFirmwareVer = [], AtaRotationRate = 0\<rparr>,
     HdBlockIo = Some (True, 99, 512)\<rparr>"

theorem drives_reported_once_witness:
  "\<exists>ds. RpiRedfishCollectDrives (Some [demo_nvme [65], demo_nvme [65], demo_nvme [66]]) 8 = Inr ds \<and>
     distinct (map drive_key ds) \<and> drive_key ` set ds = {([65], ascii ''SSD 970''), ([66], ascii ''SSD 970'')}"
proof -
  have k: "handle_key (demo_nvme [65]) = Some ([65], ascii ''SSD 970'')" "handle_key (demo_nvme [66]) = Some ([66], ascii ''SSD 970'')"
    by code_simp+
  define ds where "ds = DriveLoop 8 [demo_nvme [65], demo_nvme [65], demo_nvme [66]] []"
  have "length (DriveLoop 8 [demo_nvme [65], demo_nvme [65], demo_nvme [66]] []) = 2" by code_simp
  then have ds: "RpiRedfishCollectDrives (Some [demo_nvme [65], demo_nvme [65], demo_nvme [66]]) 8 = Inr ds" "length ds = 2"
    by (simp_all add: RpiRedfishCollectDrives_def ds_def)
  note r = drives_reported_once [OF ds(1)]
  from r have "distinct (map drive_key ds)" by blast
  moreover from r have "length ds < 8 \<longrightarrow>
    Some ` drive_key ` set ds = {k. k \<in> handle_key ` set [demo_nvme [65], demo_nvme [65], demo_nvme [66]] \<and> k \<noteq> None}" by blast
  then have "Some ` drive_key ` set ds = {k. k \<in> handle_key ` set [demo_nvme [65], demo_nvme [65], demo_nvme [66]] \<and> k \<noteq> None}"
    by (rule mp) (unfold ds(2), simp)
  moreover have "{k. k \<in> handle_key ` set [demo_nvme [65], demo_nvme [65], demo_nvme [66]] \<and> k \<noteq> None} =
      Some ` {([65], ascii ''SSD 970''), ([66], ascii ''SSD 970'')}" by (auto simp: k)
  ultimately have eq: "Some ` drive_key ` set ds = Some ` {([65], ascii ''SSD 970''), ([66], ascii ''SSD 970'')}" and d: "distinct (map drive_key ds)"
    by (simp only:)+
  show ?thesis by (rule exI [of _ ds], intro conjI, rule ds(1), rule d, rule inj_image_eq_iff [OF inj_Some, THEN iffD1, OF eq])
qed

end
