(* ===== verification/Redfish_Bodies.thy ===== *)
theory Redfish_Bodies
  imports Redfish_Inventory
begin

section \<open>The JSON bodies the host sends\<close>

text \<open>
  The builders of the Redfish bodies. They write text into a buffer of 1024 bytes with \<^verbatim>\<open>AsciiStrCatS\<close>, which
  appends the whole string or, when it does not fit, nothing. The lemmas show each body to be the text of one JSON
  object whenever that text fits; \<^verbatim>\<open>fields\<close> describes a body as the list of its members.
\<close>

subsection \<open>Appending (RpiRedfishInventory.c)\<close>

definition AsciiStrCatS :: "u8 list \<Rightarrow> nat \<Rightarrow> u8 list \<Rightarrow> u8 list" where
  "AsciiStrCatS Dest DestMax Source = (if length Dest + length Source < DestMax then Dest @ Source else Dest)"

fun EscapeLoop :: "u8 list \<Rightarrow> u8 list \<Rightarrow> u8 list" where
  "EscapeLoop [] Escaped = Escaped"
| "EscapeLoop (c # cs) Escaped =
     (if length Escaped < 2 * RPI_REDFISH_STR_MAX - 2
      then EscapeLoop cs (Escaped @ (if c = 34 \<or> c = 92 then [92, c] else if c < 0x20 then [32] else [c]))
      else Escaped)"

definition AppendJsonString :: "u8 list \<Rightarrow> nat \<Rightarrow> u8 list \<Rightarrow> u8 list \<Rightarrow> u8 list" where
  "AppendJsonString Json JsonSize Nam Val =
     (if Val = [] then Json
      else
       (let Json = AsciiStrCatS Json JsonSize (ascii '',\"'');
            Json = AsciiStrCatS Json JsonSize Nam;
            Json = AsciiStrCatS Json JsonSize (ascii ''\":\"'');
            Json = AsciiStrCatS Json JsonSize (EscapeLoop Val []) in
        AsciiStrCatS Json JsonSize (ascii ''\"'')))"

definition fmt_d :: "u32 \<Rightarrow> u8 list" where
  "fmt_d v = (if sint v < 0 then 45 # fmt_dec (nat (- sint v)) else fmt_dec (nat (sint v)))"

definition AppendJsonNumber :: "u8 list \<Rightarrow> nat \<Rightarrow> u8 list \<Rightarrow> u32 \<Rightarrow> u8 list" where
  "AppendJsonNumber Json JsonSize Nam Val =
     (if Val = 0 then Json
      else AsciiStrCatS Json JsonSize (AsciiSPrint 32 (ascii '',\"'' @ Nam @ ascii ''\":'' @ fmt_d Val)))"

subsection \<open>The five bodies\<close>

definition RpiRedfishBuildSystemPatch :: "bool \<Rightarrow> host_inventory \<Rightarrow> efi_status + u8 list" where
  "RpiRedfishBuildSystemPatch Alloc I =
     (if \<not> Alloc then Inl EFI_OUT_OF_RESOURCES
      else
       (let Body = AsciiSPrint RPI_REDFISH_JSON_MAX
              (ascii ''{\"BootProgress\":{\"LastState\":\"'' @ RPI_REDFISH_BOOT_PROGRESS @ ascii ''\"}'');
            Body = AppendJsonString Body RPI_REDFISH_JSON_MAX (ascii ''BiosVersion'') (IBiosVersion I);
            Body = AppendJsonString Body RPI_REDFISH_JSON_MAX (ascii ''Manufacturer'') (IManufacturer I);
            Body = AppendJsonString Body RPI_REDFISH_JSON_MAX (ascii ''Model'') (IModel I);
            Body = AppendJsonString Body RPI_REDFISH_JSON_MAX (ascii ''SerialNumber'') (ISerialNumber I);
            Body = (if IUuidValid I then AppendJsonString Body RPI_REDFISH_JSON_MAX (ascii ''UUID'') (IUuid I) else Body) in
        Inr (AsciiStrCatS Body RPI_REDFISH_JSON_MAX (ascii ''}''))))"

definition RpiRedfishBuildMemoryPost :: "bool \<Rightarrow> memory_module \<Rightarrow> efi_status + u8 list" where
  "RpiRedfishBuildMemoryPost Alloc M =
     (if \<not> Alloc then Inl EFI_OUT_OF_RESOURCES
      else
       (let Body = AsciiSPrint RPI_REDFISH_JSON_MAX (ascii ''{\"@odata.type\":\"#Memory.v1_7_1.Memory\"'' @
              ascii '',\"Status\":{\"State\":\"Enabled\",\"Health\":\"OK\"}'' @ ascii '',\"MemoryType\":\"DRAM\"'');
            Body = AppendJsonString Body RPI_REDFISH_JSON_MAX (ascii ''DeviceLocator'') (MDeviceLocator M);
            Body = AppendJsonString Body RPI_REDFISH_JSON_MAX (ascii ''Name'') (MDeviceLocator M);
            Body = AppendJsonString Body RPI_REDFISH_JSON_MAX (ascii ''Manufacturer'') (MManufacturer M);
            Body = AppendJsonString Body RPI_REDFISH_JSON_MAX (ascii ''SerialNumber'') (MSerialNumber M);
            Body = AppendJsonString Body RPI_REDFISH_JSON_MAX (ascii ''PartNumber'') (MPartNumber M);
            Body = (case MDeviceType M of None \<Rightarrow> Body
                    | Some t \<Rightarrow> AppendJsonString Body RPI_REDFISH_JSON_MAX (ascii ''MemoryDeviceType'') t);
            Body = (case MBaseModuleType M of None \<Rightarrow> Body
                    | Some t \<Rightarrow> AppendJsonString Body RPI_REDFISH_JSON_MAX (ascii ''BaseModuleType'') t);
            Body = AppendJsonNumber Body RPI_REDFISH_JSON_MAX (ascii ''CapacityMiB'') (MCapacityMiB M);
            Body = AppendJsonNumber Body RPI_REDFISH_JSON_MAX (ascii ''OperatingSpeedMhz'') (MOperatingSpeedMhz M);
            Body = AppendJsonNumber Body RPI_REDFISH_JSON_MAX (ascii ''DataWidthBits'') (ucast (MDataWidthBits M));
            Body = AppendJsonNumber Body RPI_REDFISH_JSON_MAX (ascii ''BusWidthBits'') (ucast (MBusWidthBits M));
            Body = (if MRatedSpeedMhz M \<noteq> 0
                    then AsciiStrCatS Body RPI_REDFISH_JSON_MAX
                      (AsciiSPrint 48 (ascii '',\"AllowedSpeedsMHz\":['' @ fmt_d (MRatedSpeedMhz M) @ ascii '']''))
                    else Body) in
        Inr (AsciiStrCatS Body RPI_REDFISH_JSON_MAX (ascii ''}''))))"

definition RpiRedfishBuildProcessorPost :: "bool \<Rightarrow> processor \<Rightarrow> efi_status + u8 list" where
  "RpiRedfishBuildProcessorPost Alloc P =
     (if \<not> Alloc then Inl EFI_OUT_OF_RESOURCES
      else
       (let Body = AsciiSPrint RPI_REDFISH_JSON_MAX (ascii ''{\"@odata.type\":\"#Processor.v1_16_0.Processor\"'' @
              ascii '',\"Status\":{\"State\":\"'' @ ascii (if PEnabled P then ''Enabled'' else ''Disabled'') @
              ascii ''\",\"Health\":\"OK\"}'' @ ascii '',\"ProcessorArchitecture\":\"ARM\"'' @
              ascii '',\"InstructionSet\":\"ARM-A64\"'');
            Body = (case PProcessorType P of None \<Rightarrow> Body
                    | Some t \<Rightarrow> AppendJsonString Body RPI_REDFISH_JSON_MAX (ascii ''ProcessorType'') t);
            Body = AppendJsonString Body RPI_REDFISH_JSON_MAX (ascii ''Socket'') (PSocket P);
            Body = AppendJsonString Body RPI_REDFISH_JSON_MAX (ascii ''Name'') (PSocket P);
            Body = AppendJsonString Body RPI_REDFISH_JSON_MAX (ascii ''Manufacturer'') (PManufacturer P);
            Body = AppendJsonString Body RPI_REDFISH_JSON_MAX (ascii ''Model'') (PModel P);
            Body = AppendJsonString Body RPI_REDFISH_JSON_MAX (ascii ''SerialNumber'') (PSerialNumber P);
            Body = AppendJsonString Body RPI_REDFISH_JSON_MAX (ascii ''PartNumber'') (PPartNumber P);
            Body = AppendJsonNumber Body RPI_REDFISH_JSON_MAX (ascii ''MaxSpeedMHz'') (PMaxSpeedMhz P);
            Body = AppendJsonNumber Body RPI_REDFISH_JSON_MAX (ascii ''OperatingSpeedMHz'') (POperatingSpeedMhz P);
            Body = AppendJsonNumber Body RPI_REDFISH_JSON_MAX (ascii ''TotalCores'') (PTotalCores P);
            Body = AppendJsonNumber Body RPI_REDFISH_JSON_MAX (ascii ''TotalEnabledCores'') (PTotalEnabledCores P);
            Body = AppendJsonNumber Body RPI_REDFISH_JSON_MAX (ascii ''TotalThreads'') (PTotalThreads P);
            Body = (if PIdRegisters P \<noteq> []
                    then AsciiStrCatS Body RPI_REDFISH_JSON_MAX
                      (AsciiSPrint 80 (ascii '',\"ProcessorId\":{\"IdentificationRegisters\":\"'' @ PIdRegisters P @ ascii ''\"}''))
                    else Body) in
        Inr (AsciiStrCatS Body RPI_REDFISH_JSON_MAX (ascii ''}''))))"

definition fmt_ld :: "u64 \<Rightarrow> u8 list" where
  "fmt_ld v = (if sint v < 0 then 45 # fmt_dec (nat (- sint v)) else fmt_dec (nat (sint v)))"

definition RpiRedfishBuildDrivePost :: "bool \<Rightarrow> drive \<Rightarrow> efi_status + u8 list" where
  "RpiRedfishBuildDrivePost Alloc d =
     (if \<not> Alloc then Inl EFI_OUT_OF_RESOURCES
      else
       (let Body = AsciiSPrint RPI_REDFISH_JSON_MAX (ascii ''{\"@odata.type\":\"#Drive.v1_4_0.Drive\"'' @
              ascii '',\"Status\":{\"State\":\"Enabled\",\"Health\":\"OK\"}'');
            Body = AppendJsonString Body RPI_REDFISH_JSON_MAX (ascii ''Name'') (DModel d);
            Body = AppendJsonString Body RPI_REDFISH_JSON_MAX (ascii ''Model'') (DModel d);
            Body = AppendJsonString Body RPI_REDFISH_JSON_MAX (ascii ''SerialNumber'') (DSerialNumber d);
            Body = AppendJsonString Body RPI_REDFISH_JSON_MAX (ascii ''Revision'') (DRevision d);
            Body = AppendJsonString Body RPI_REDFISH_JSON_MAX (ascii ''Protocol'') (DProtocol d);
            Body = (case DMediaType d of None \<Rightarrow> Body
                    | Some t \<Rightarrow> AppendJsonString Body RPI_REDFISH_JSON_MAX (ascii ''MediaType'') t);
            Body = (if DCapacityBytes d \<noteq> 0
                    then AsciiStrCatS Body RPI_REDFISH_JSON_MAX
                      (AsciiSPrint 48 (ascii '',\"CapacityBytes\":'' @ fmt_ld (DCapacityBytes d)))
                    else Body) in
        Inr (AsciiStrCatS Body RPI_REDFISH_JSON_MAX (ascii ''}''))))"

subsection \<open>Bodies as lists of fields\<close>

text \<open>
  A body under construction is an object that is still open. Control characters are sent as blanks, empty strings and
  zeros are left out, and numbers are printed as signed.
\<close>

definition open_obj :: "(u8 list \<times> json) list \<Rightarrow> u8 list" where
  "open_obj ms = 123 # commas (map member ms)"

definition clean :: "u8 list \<Rightarrow> u8 list" where
  "clean s = map (\<lambda>c. if c < 0x20 then 32 else c) s"

definition str_field :: "string \<Rightarrow> u8 list \<Rightarrow> (u8 list \<times> json) list" where
  "str_field n v = (if v = [] then [] else [(ascii n, JStr (clean v))])"

definition num_field :: "string \<Rightarrow> u32 \<Rightarrow> (u8 list \<times> json) list" where
  "num_field n v = (if v = 0 then [] else [(ascii n, JInt (sint v))])"

lemma open_obj_render: "open_obj ms @ [125] = render (JObj ms)"
  by (simp add: open_obj_def render_obj)

lemma commas_snoc: "xs \<noteq> [] \<Longrightarrow> commas (xs @ [y]) = commas xs @ 44 # y"
  by (induction xs rule: commas.induct) auto

lemma open_obj_snoc: "ms \<noteq> [] \<Longrightarrow> open_obj (ms @ [m]) = open_obj ms @ 44 # member m"
  by (simp add: open_obj_def commas_snoc)

lemma open_obj_mono: "length (open_obj ms) \<le> length (open_obj (ms @ ns))"
proof (induction ns rule: rev_induct)
  case (snoc n ns)
  have "length (open_obj xs) \<le> length (open_obj (xs @ [n]))" for xs
    using open_obj_snoc [of xs n] by (cases xs) (simp_all add: open_obj_def)
  from order_trans [OF snoc this [of "ms @ ns"]] show ?case by simp
qed simp

lemma EscapeLoop_all: "length E + 2 * length s \<le> 127 \<Longrightarrow> EscapeLoop s E = E @ concat (map esc (clean s))"
proof (induction s arbitrary: E)
  case (Cons c s)
  then have "length E < 2 * RPI_REDFISH_STR_MAX - 2" by (simp add: RPI_REDFISH_STR_MAX_def)
  then show ?case using Cons by (auto simp: esc_def clean_def)
qed (simp add: clean_def)

text \<open>One member: a string, a number, or text of a fixed shape.\<close>

datatype field = FStr string "u8 list" | FNum string u32 | FRaw "u8 list \<times> json"

fun append_field :: "u8 list \<Rightarrow> field \<Rightarrow> u8 list" where
  "append_field Body (FStr n v) = AppendJsonString Body RPI_REDFISH_JSON_MAX (ascii n) v"
| "append_field Body (FNum n v) = AppendJsonNumber Body RPI_REDFISH_JSON_MAX (ascii n) v"
| "append_field Body (FRaw m) = AsciiStrCatS Body RPI_REDFISH_JSON_MAX (44 # member m)"

fun field_members :: "field \<Rightarrow> (u8 list \<times> json) list" where
  "field_members (FStr n v) = str_field n v"
| "field_members (FNum n v) = num_field n v"
| "field_members (FRaw m) = [m]"

definition plain_text :: "u8 list \<Rightarrow> bool" where
  "plain_text s = (34 \<notin> set s \<and> 92 \<notin> set s)"

fun field_wf :: "field \<Rightarrow> bool" where
  "field_wf (FStr n v) = (plain_text (ascii n) \<and> text_ok (ascii n) \<and> field_ok v)"
| "field_wf (FNum n v) = (plain_text (ascii n) \<and> text_ok (ascii n) \<and> length n \<le> 17 \<and> v < 2 ^ 31)"
| "field_wf (FRaw m) = (text_ok (fst m) \<and> json_ok (snd m))"

lemma esc_plain: "plain_text s \<Longrightarrow> concat (map esc s) = s"
  by (induction s) (auto simp: plain_text_def esc_def)

lemma length_ascii [simp]: "length (ascii s) = length s"
  by (simp add: ascii_def)

lemma separators: "ascii '',\"'' = [44, 34]" "ascii ''\":\"'' = [34, 58, 34]" "ascii ''\"'' = [34]" "ascii ''\":'' = [34, 58]"
  by (simp_all add: ascii_def)

lemma member_str: "plain_text k \<Longrightarrow> member (k, JStr s) = 34 # k @ [34, 58, 34] @ concat (map esc s) @ [34]"
  by (simp add: member_def render_str_def esc_plain)

lemma member_int: "plain_text k \<Longrightarrow> member (k, JInt i) = 34 # k @ [34, 58] @ render_int i"
  by (simp add: member_def render_str_def esc_plain)

lemma fmt_d_render: "fmt_d v = render_int (sint v)" "fmt_ld w = render_int (sint w)"
  by (simp_all add: fmt_d_def fmt_ld_def render_int_def)

lemma length_fmt_d: "v < 2 ^ 31 \<Longrightarrow> length (fmt_d v) \<le> 10"
proof -
  assume "v < 2 ^ 31"
  then have u: "unat v < 2 ^ 31" by (simp add: word_less_nat_alt)
  have "uint v < 2 ^ 31" using \<open>v < 2 ^ 31\<close> by (simp add: word_less_def)
  then have "sint v = uint v" using signed_take_bit_int_eq_self [of 31 "uint v"] uint_ge_0 [of v] by (simp add: sint_uint)
  then show ?thesis using length_fmt_dec [of "unat v" 9] u by (simp add: fmt_d_def)
qed

lemma append_field:
  assumes "ms \<noteq> []" "field_wf f" "length (open_obj (ms @ field_members f)) < RPI_REDFISH_JSON_MAX"
  shows "append_field (open_obj ms) f = open_obj (ms @ field_members f)"
proof (cases f)
  case (FStr n v)
  show ?thesis
  proof (cases "v = []")
    case False
    have e: "EscapeLoop v [] = concat (map esc (clean v))"
      using assms(2) FStr EscapeLoop_all [of "[]" v] by (simp add: field_ok_def)
    have "open_obj (ms @ field_members f) = open_obj ms @ ascii '',\"'' @ ascii n @ ascii ''\":\"'' @ EscapeLoop v [] @ ascii ''\"''"
      using False assms(1,2) FStr
      by (simp add: str_field_def open_obj_snoc member_str e separators)
    then show ?thesis using False assms(3) FStr
      by (simp add: AppendJsonString_def AsciiStrCatS_def separators)
  qed (use FStr in \<open>simp add: AppendJsonString_def str_field_def\<close>)
next
  case (FNum n v)
  show ?thesis
  proof (cases "v = 0")
    case False
    have "length (ascii '',\"'' @ ascii n @ ascii ''\":'' @ fmt_d v) \<le> 31"
      using assms(2) FNum length_fmt_d [of v] by (simp add: separators)
    then have "AsciiSPrint 32 (ascii '',\"'' @ ascii n @ ascii ''\":'' @ fmt_d v) = ascii '',\"'' @ ascii n @ ascii ''\":'' @ fmt_d v"
      by (simp only: AsciiSPrint_def take_all_iff)
    moreover have "open_obj (ms @ field_members f) = open_obj ms @ ascii '',\"'' @ ascii n @ ascii ''\":'' @ fmt_d v"
      using False assms(1,2) FNum
      by (simp add: num_field_def open_obj_snoc member_int fmt_d_render separators)
    ultimately show ?thesis using False assms(3) FNum by (simp add: AppendJsonNumber_def AsciiStrCatS_def)
  qed (use FNum in \<open>simp add: AppendJsonNumber_def num_field_def\<close>)
next
  case (FRaw m)
  then show ?thesis using assms by (simp add: open_obj_snoc AsciiStrCatS_def)
qed

definition members_of :: "field list \<Rightarrow> (u8 list \<times> json) list" where
  "members_of fs = concat (map field_members fs)"

lemma append_fields:
  assumes "ms \<noteq> []" "\<forall>f\<in>set fs. field_wf f" "length (open_obj (ms @ members_of fs)) < RPI_REDFISH_JSON_MAX"
  shows "foldl append_field (open_obj ms) fs = open_obj (ms @ members_of fs)"
  using assms
proof (induction fs arbitrary: ms)
  case (Cons f fs)
  have "length (open_obj (ms @ field_members f)) < RPI_REDFISH_JSON_MAX"
    using open_obj_mono [of "ms @ field_members f" "members_of fs"] Cons.prems(3) by (simp add: members_of_def)
  with Cons show ?case by (simp add: append_field members_of_def)
qed (simp add: members_of_def)

text \<open>How long a field can get, when nothing in it needs escaping.\<close>

fun field_cost :: "field \<Rightarrow> nat" where
  "field_cost (FStr n v) = length n + 69"
| "field_cost (FNum n v) = length n + 14"
| "field_cost (FRaw m) = length (member m) + 1"

fun field_plain :: "field \<Rightarrow> bool" where
  "field_plain (FStr n v) = plain_text v"
| "field_plain _ = True"

lemma plain_clean: "plain_text v \<Longrightarrow> plain_text (clean v)"
  by (auto simp: plain_text_def clean_def)

lemma length_field:
  assumes "ms \<noteq> []" "field_wf f" "field_plain f"
  shows "length (open_obj (ms @ field_members f)) \<le> length (open_obj ms) + field_cost f"
proof (cases f)
  case (FStr n v)
  then show ?thesis using assms plain_clean [of v]
    by (simp add: str_field_def open_obj_snoc member_str esc_plain field_ok_def) (simp add: clean_def)
next
  case (FNum n v)
  then show ?thesis using assms length_fmt_d [of v]
    by (simp add: num_field_def open_obj_snoc member_int fmt_d_render)
qed (use assms in \<open>simp add: open_obj_snoc\<close>)

lemma length_fields:
  assumes "ms \<noteq> []" "\<forall>f\<in>set fs. field_wf f \<and> field_plain f"
  shows "length (open_obj (ms @ members_of fs)) \<le> length (open_obj ms) + sum_list (map field_cost fs)"
  using assms
proof (induction fs arbitrary: ms)
  case (Cons f fs)
  have "length (open_obj (ms @ field_members f)) \<le> length (open_obj ms) + field_cost f"
    using Cons.prems by (intro length_field) auto
  with Cons.IH [of "ms @ field_members f"] Cons.prems show ?case by (simp add: members_of_def)
qed (simp add: members_of_def)

subsection \<open>The objects\<close>

definition status_enabled :: "bool \<Rightarrow> u8 list \<times> json" where
  "status_enabled b = (ascii ''Status'', JObj [(ascii ''State'', JStr (ascii (if b then ''Enabled'' else ''Disabled''))),
     (ascii ''Health'', JStr (ascii ''OK''))])"

definition odata :: "string \<Rightarrow> u8 list \<times> json" where
  "odata t = (ascii ''@odata.type'', JStr (ascii t))"

definition opt_field :: "string \<Rightarrow> u8 list option \<Rightarrow> field list" where
  "opt_field n v = (case v of None \<Rightarrow> [] | Some t \<Rightarrow> [FStr n t])"

definition system_base :: "(u8 list \<times> json) list" where
  "system_base = [(ascii ''BootProgress'', JObj [(ascii ''LastState'', JStr RPI_REDFISH_BOOT_PROGRESS)])]"

definition system_fields :: "host_inventory \<Rightarrow> field list" where
  "system_fields I = [FStr ''BiosVersion'' (IBiosVersion I), FStr ''Manufacturer'' (IManufacturer I),
     FStr ''Model'' (IModel I), FStr ''SerialNumber'' (ISerialNumber I)] @ (if IUuidValid I then [FStr ''UUID'' (IUuid I)] else [])"

definition memory_base :: "(u8 list \<times> json) list" where
  "memory_base = [odata ''#Memory.v1_7_1.Memory'', status_enabled True, (ascii ''MemoryType'', JStr (ascii ''DRAM''))]"

definition memory_fields :: "memory_module \<Rightarrow> field list" where
  "memory_fields M = [FStr ''DeviceLocator'' (MDeviceLocator M), FStr ''Name'' (MDeviceLocator M),
     FStr ''Manufacturer'' (MManufacturer M), FStr ''SerialNumber'' (MSerialNumber M), FStr ''PartNumber'' (MPartNumber M)] @
     opt_field ''MemoryDeviceType'' (MDeviceType M) @ opt_field ''BaseModuleType'' (MBaseModuleType M) @
     [FNum ''CapacityMiB'' (MCapacityMiB M), FNum ''OperatingSpeedMhz'' (MOperatingSpeedMhz M),
      FNum ''DataWidthBits'' (ucast (MDataWidthBits M)), FNum ''BusWidthBits'' (ucast (MBusWidthBits M))] @
     (if MRatedSpeedMhz M = 0 then [] else [FRaw (ascii ''AllowedSpeedsMHz'', JArr [JInt (sint (MRatedSpeedMhz M))])])"

definition processor_base :: "processor \<Rightarrow> (u8 list \<times> json) list" where
  "processor_base P = [odata ''#Processor.v1_16_0.Processor'', status_enabled (PEnabled P),
     (ascii ''ProcessorArchitecture'', JStr (ascii ''ARM'')), (ascii ''InstructionSet'', JStr (ascii ''ARM-A64''))]"

definition processor_fields :: "processor \<Rightarrow> field list" where
  "processor_fields P = opt_field ''ProcessorType'' (PProcessorType P) @
     [FStr ''Socket'' (PSocket P), FStr ''Name'' (PSocket P), FStr ''Manufacturer'' (PManufacturer P),
      FStr ''Model'' (PModel P), FStr ''SerialNumber'' (PSerialNumber P), FStr ''PartNumber'' (PPartNumber P),
      FNum ''MaxSpeedMHz'' (PMaxSpeedMhz P), FNum ''OperatingSpeedMHz'' (POperatingSpeedMhz P),
      FNum ''TotalCores'' (PTotalCores P), FNum ''TotalEnabledCores'' (PTotalEnabledCores P),
      FNum ''TotalThreads'' (PTotalThreads P)] @
     (if PIdRegisters P = [] then []
      else [FRaw (ascii ''ProcessorId'', JObj [(ascii ''IdentificationRegisters'', JStr (PIdRegisters P))])])"

definition drive_base :: "(u8 list \<times> json) list" where
  "drive_base = [odata ''#Drive.v1_4_0.Drive'', status_enabled True]"

definition drive_fields :: "drive \<Rightarrow> field list" where
  "drive_fields d = [FStr ''Name'' (DModel d), FStr ''Model'' (DModel d), FStr ''SerialNumber'' (DSerialNumber d),
     FStr ''Revision'' (DRevision d), FStr ''Protocol'' (DProtocol d)] @ opt_field ''MediaType'' (DMediaType d) @
     (if DCapacityBytes d = 0 then [] else [FRaw (ascii ''CapacityBytes'', JInt (sint (DCapacityBytes d)))])"

definition body_object :: "(u8 list \<times> json) list \<Rightarrow> field list \<Rightarrow> json" where
  "body_object base fs = JObj (base @ members_of fs)"

definition close_body :: "u8 list \<Rightarrow> u8 list" where
  "close_body Body = AsciiStrCatS Body RPI_REDFISH_JSON_MAX [125]"

lemma closing: "ascii ''}'' = [125]"
  by (simp add: ascii_def)

lemma system_open:
  "AsciiSPrint RPI_REDFISH_JSON_MAX (ascii ''{\"BootProgress\":{\"LastState\":\"'' @ RPI_REDFISH_BOOT_PROGRESS @ ascii ''\"}'') =
     open_obj system_base" "length (open_obj system_base) \<le> 70"
  by code_simp+

lemma memory_open:
  "AsciiSPrint RPI_REDFISH_JSON_MAX (ascii ''{\"@odata.type\":\"#Memory.v1_7_1.Memory\"'' @
     ascii '',\"Status\":{\"State\":\"Enabled\",\"Health\":\"OK\"}'' @ ascii '',\"MemoryType\":\"DRAM\"'') = open_obj memory_base"
  "length (open_obj memory_base) \<le> 110"
  by code_simp+

lemma processor_open_cases:
  "\<forall>b. AsciiSPrint RPI_REDFISH_JSON_MAX (ascii ''{\"@odata.type\":\"#Processor.v1_16_0.Processor\"'' @
     ascii '',\"Status\":{\"State\":\"'' @ ascii (if b then ''Enabled'' else ''Disabled'') @
     ascii ''\",\"Health\":\"OK\"}'' @ ascii '',\"ProcessorArchitecture\":\"ARM\"'' @ ascii '',\"InstructionSet\":\"ARM-A64\"'') =
   open_obj [odata ''#Processor.v1_16_0.Processor'', status_enabled b,
     (ascii ''ProcessorArchitecture'', JStr (ascii ''ARM'')), (ascii ''InstructionSet'', JStr (ascii ''ARM-A64''))]"
  "\<forall>b. length (open_obj [odata ''#Processor.v1_16_0.Processor'', status_enabled b,
     (ascii ''ProcessorArchitecture'', JStr (ascii ''ARM'')), (ascii ''InstructionSet'', JStr (ascii ''ARM-A64''))]) \<le> 180"
  by code_simp+

lemma drive_open:
  "AsciiSPrint RPI_REDFISH_JSON_MAX (ascii ''{\"@odata.type\":\"#Drive.v1_4_0.Drive\"'' @
     ascii '',\"Status\":{\"State\":\"Enabled\",\"Health\":\"OK\"}'') = open_obj drive_base"
  "length (open_obj drive_base) \<le> 110"
  by code_simp+

lemma build_body:
  assumes "Body = open_obj base" "base \<noteq> []" "\<forall>f\<in>set fs. field_wf f" "length (render (body_object base fs)) < RPI_REDFISH_JSON_MAX"
  shows "close_body (foldl append_field Body fs) = render (body_object base fs)"
proof -
  have r: "render (body_object base fs) = open_obj (base @ members_of fs) @ [125]"
    by (simp add: body_object_def open_obj_render)
  then have "foldl append_field Body fs = open_obj (base @ members_of fs)"
    unfolding assms(1) using assms(2-4) by (intro append_fields) simp_all
  then show ?thesis using assms(4) r by (simp add: close_body_def AsciiStrCatS_def)
qed

lemma system_body: "RpiRedfishBuildSystemPatch True I = Inr (close_body (foldl append_field (open_obj system_base) (system_fields I)))"
  by (simp add: RpiRedfishBuildSystemPatch_def system_open(1) system_fields_def close_body_def closing Let_def)

lemma speeds_field:
  assumes "v < 2 ^ 31"
  shows "AsciiSPrint 48 (ascii '',\"AllowedSpeedsMHz\":['' @ fmt_d v @ ascii '']'') = 44 # member (ascii ''AllowedSpeedsMHz'', JArr [JInt (sint v)])"
proof -
  have h: "ascii '',\"AllowedSpeedsMHz\":['' @ fmt_d v @ ascii '']'' = 44 # member (ascii ''AllowedSpeedsMHz'', JArr [JInt (sint v)])"
    by (simp add: member_def render_str_def fmt_d_render ascii_def esc_def)
  have "length (ascii '',\"AllowedSpeedsMHz\":['' @ fmt_d v @ ascii '']'') \<le> 47" using length_fmt_d [OF assms] by simp
  then show ?thesis by (simp add: AsciiSPrint_def h)
qed

lemma memory_body:
  assumes "MRatedSpeedMhz M < 2 ^ 31"
  shows "RpiRedfishBuildMemoryPost True M = Inr (close_body (foldl append_field (open_obj memory_base) (memory_fields M)))"
  unfolding RpiRedfishBuildMemoryPost_def memory_open(1) speeds_field [OF assms]
  by (simp add: memory_fields_def opt_field_def close_body_def closing Let_def split: option.split)

lemma id_field:
  assumes "plain_text s" "length s \<le> 18"
  shows "AsciiSPrint 80 (ascii '',\"ProcessorId\":{\"IdentificationRegisters\":\"'' @ s @ ascii ''\"}'') =
    44 # member (ascii ''ProcessorId'', JObj [(ascii ''IdentificationRegisters'', JStr s)])"
proof -
  have h: "ascii '',\"ProcessorId\":{\"IdentificationRegisters\":\"'' @ s @ ascii ''\"}'' =
      44 # member (ascii ''ProcessorId'', JObj [(ascii ''IdentificationRegisters'', JStr s)])"
    by (simp add: member_def render_obj render_str_def esc_plain [OF assms(1)] ascii_def esc_def)
  have "length (ascii '',\"ProcessorId\":{\"IdentificationRegisters\":\"'' @ s @ ascii ''\"}'') \<le> 79" using assms(2) by simp
  then show ?thesis by (simp add: AsciiSPrint_def h)
qed

lemma processor_body:
  assumes "plain_text (PIdRegisters P)" "length (PIdRegisters P) \<le> 18"
  shows "RpiRedfishBuildProcessorPost True P = Inr (close_body (foldl append_field (open_obj (processor_base P)) (processor_fields P)))"
  unfolding RpiRedfishBuildProcessorPost_def processor_open_cases(1) [THEN spec] id_field [OF assms]
  by (simp add: processor_base_def processor_fields_def opt_field_def close_body_def closing Let_def split: option.split)

lemma length_fmt_ld: "length (fmt_ld v) \<le> 20"
proof -
  have b: "- (2 ^ 63) \<le> sint v" "sint v < 2 ^ 63" using sint_range_size [of v] by (simp_all add: word_size)
  have d: "length (fmt_dec n) \<le> 19" if "n \<le> 2 ^ 63" for n
    using length_fmt_dec [of n 18] that by simp
  have "length (fmt_dec (nat (sint v))) \<le> 19" "length (fmt_dec (nat (- sint v))) \<le> 19"
    using b by (auto intro!: d)
  then show ?thesis by (simp add: fmt_ld_def)
qed

lemma capacity_field:
  "AsciiSPrint 48 (ascii '',\"CapacityBytes\":'' @ fmt_ld v) = 44 # member (ascii ''CapacityBytes'', JInt (sint v))"
proof -
  have h: "ascii '',\"CapacityBytes\":'' @ fmt_ld v = 44 # member (ascii ''CapacityBytes'', JInt (sint v))"
    by (simp add: member_def render_str_def fmt_d_render ascii_def esc_def)
  have "length (ascii '',\"CapacityBytes\":'' @ fmt_ld v) \<le> 47" using length_fmt_ld [of v] by simp
  then show ?thesis by (simp add: AsciiSPrint_def h)
qed

lemma drive_body: "RpiRedfishBuildDrivePost True d = Inr (close_body (foldl append_field (open_obj drive_base) (drive_fields d)))"
  unfolding RpiRedfishBuildDrivePost_def drive_open(1) capacity_field
  by (simp add: drive_fields_def opt_field_def close_body_def closing Let_def split: option.split)

subsection \<open>What is collected fits\<close>

lemma members_ok: "\<forall>f\<in>set fs. field_wf f \<Longrightarrow> \<forall>m\<in>set (members_of fs). text_ok (fst m) \<and> json_ok (snd m)"
proof -
  have "\<forall>m\<in>set (field_members f). text_ok (fst m) \<and> json_ok (snd m)" if "field_wf f" for f
    using that by (cases f) (auto simp: str_field_def num_field_def text_ok_def clean_def)
  then show "\<forall>f\<in>set fs. field_wf f \<Longrightarrow> ?thesis" by (auto simp: members_of_def)
qed

lemma read_body:
  assumes "base \<noteq> []" "json_ok (JObj base)" "\<forall>f\<in>set fs. field_wf f \<and> field_plain f"
    and "length (open_obj base) + sum_list (map field_cost fs) < 1023"
  shows "read_json (close_body (foldl append_field (open_obj base) fs)) = Some (body_object base fs)"
proof -
  have "length (render (body_object base fs)) < RPI_REDFISH_JSON_MAX"
    using length_fields [OF assms(1,3)] assms(4)
    by (simp add: body_object_def open_obj_render [symmetric] RPI_REDFISH_JSON_MAX_def)
  then have "close_body (foldl append_field (open_obj base) fs) = render (body_object base fs)"
    using assms(1,3) by (intro build_body) auto
  moreover have "json_ok (body_object base fs)"
    using assms(2,3) members_ok [of fs] by (auto simp: body_object_def)
  ultimately show ?thesis by (simp add: read_json_render)
qed

lemma names_ok [simp]:
  "plain_text (ascii ''BiosVersion'')" "text_ok (ascii ''BiosVersion'')"
  "plain_text (ascii ''Manufacturer'')" "text_ok (ascii ''Manufacturer'')"
  "plain_text (ascii ''Model'')" "text_ok (ascii ''Model'')"
  "plain_text (ascii ''SerialNumber'')" "text_ok (ascii ''SerialNumber'')"
  "plain_text (ascii ''UUID'')" "text_ok (ascii ''UUID'')"
  "plain_text (ascii ''DeviceLocator'')" "text_ok (ascii ''DeviceLocator'')"
  "plain_text (ascii ''Name'')" "text_ok (ascii ''Name'')"
  "plain_text (ascii ''PartNumber'')" "text_ok (ascii ''PartNumber'')"
  "plain_text (ascii ''MemoryDeviceType'')" "text_ok (ascii ''MemoryDeviceType'')"
  "plain_text (ascii ''BaseModuleType'')" "text_ok (ascii ''BaseModuleType'')"
  "plain_text (ascii ''CapacityMiB'')" "text_ok (ascii ''CapacityMiB'')"
  "plain_text (ascii ''OperatingSpeedMhz'')" "text_ok (ascii ''OperatingSpeedMhz'')"
  "plain_text (ascii ''DataWidthBits'')" "text_ok (ascii ''DataWidthBits'')"
  "plain_text (ascii ''BusWidthBits'')" "text_ok (ascii ''BusWidthBits'')"
  "plain_text (ascii ''AllowedSpeedsMHz'')" "text_ok (ascii ''AllowedSpeedsMHz'')"
  "plain_text (ascii ''ProcessorType'')" "text_ok (ascii ''ProcessorType'')"
  "plain_text (ascii ''Socket'')" "text_ok (ascii ''Socket'')"
  "plain_text (ascii ''MaxSpeedMHz'')" "text_ok (ascii ''MaxSpeedMHz'')"
  "plain_text (ascii ''OperatingSpeedMHz'')" "text_ok (ascii ''OperatingSpeedMHz'')"
  "plain_text (ascii ''TotalCores'')" "text_ok (ascii ''TotalCores'')"
  "plain_text (ascii ''TotalEnabledCores'')" "text_ok (ascii ''TotalEnabledCores'')"
  "plain_text (ascii ''TotalThreads'')" "text_ok (ascii ''TotalThreads'')"
  "plain_text (ascii ''ProcessorId'')" "text_ok (ascii ''ProcessorId'')"
  "plain_text (ascii ''IdentificationRegisters'')" "text_ok (ascii ''IdentificationRegisters'')"
  "plain_text (ascii ''Revision'')" "text_ok (ascii ''Revision'')"
  "plain_text (ascii ''Protocol'')" "text_ok (ascii ''Protocol'')"
  "plain_text (ascii ''MediaType'')" "text_ok (ascii ''MediaType'')"
  "plain_text (ascii ''CapacityBytes'')" "text_ok (ascii ''CapacityBytes'')"
  by code_simp+

lemma opt_field_wf:
  "plain_text (ascii n) \<Longrightarrow> text_ok (ascii n) \<Longrightarrow> (\<And>t. v = Some t \<Longrightarrow> field_ok t) \<Longrightarrow> \<forall>f\<in>set (opt_field n v). field_wf f"
  by (auto simp: opt_field_def split: option.splits)

lemma table_strings: "map_of t k = Some s \<Longrightarrow> \<forall>p\<in>set t. P (snd p) \<Longrightarrow> P s"
  using map_of_SomeD by fastforce

lemma enum_strings_ok:
  "RedfishMemoryDeviceType t = Some s \<Longrightarrow> field_ok s" "RedfishBaseModuleType f = Some s \<Longrightarrow> field_ok s"
  "RedfishProcessorType p = Some s \<Longrightarrow> field_ok s"
  unfolding RedfishMemoryDeviceType_def RedfishBaseModuleType_def RedfishProcessorType_def
  by (erule table_strings; code_simp)+

lemma opt_cost: "sum_list (map field_cost (opt_field n v)) \<le> length n + 69"
  by (simp add: opt_field_def split: option.split)

lemma raw_costs:
  fixes v :: u32 and w :: u64
  shows "v < 2 ^ 31 \<Longrightarrow> field_cost (FRaw (ascii ''AllowedSpeedsMHz'', JArr [JInt (sint v)])) \<le> 33"
  "field_cost (FRaw (ascii ''CapacityBytes'', JInt (sint w))) \<le> 40"
  "plain_text s \<Longrightarrow> length s \<le> 18 \<Longrightarrow> field_cost (FRaw (ascii ''ProcessorId'', JObj [(ascii ''IdentificationRegisters'', JStr s)])) \<le> 70"
  using length_fmt_d [of v] length_fmt_ld [of w]
  by (simp_all add: member_def render_str_def esc_plain fmt_d_render [symmetric] render_obj)

lemma bases_ok: "json_ok (JObj system_base)" "json_ok (JObj memory_base)" "json_ok (JObj drive_base)"
  by code_simp+

lemma processor_base_ok: "json_ok (JObj (processor_base P))" "length (open_obj (processor_base P)) \<le> 180"
proof -
  have "\<forall>b. json_ok (JObj [odata ''#Processor.v1_16_0.Processor'', status_enabled b,
     (ascii ''ProcessorArchitecture'', JStr (ascii ''ARM'')), (ascii ''InstructionSet'', JStr (ascii ''ARM-A64''))])" by code_simp
  then show "json_ok (JObj (processor_base P))" unfolding processor_base_def by (rule spec)
  show "length (open_obj (processor_base P)) \<le> 180" unfolding processor_base_def using processor_open_cases(2) by (rule spec)
qed

lemma ucast_fits: "(ucast (w :: u16) :: u32) < 2 ^ 31" "(ucast (b :: u8) :: u32) < 2 ^ 31"
proof -
  have "unat w < 2 ^ 16" "unat b < 2 ^ 8" using unsigned_less [of w] unsigned_less [of b] by simp_all
  then have "unat (ucast w :: u32) < 2 ^ 31" "unat (ucast b :: u32) < 2 ^ 31"
    by (simp_all add: unsigned_ucast_eq take_bit_nat_eq_self)
  then show "(ucast w :: u32) < 2 ^ 31" "(ucast b :: u32) < 2 ^ 31" by (simp_all add: word_less_nat_alt)
qed

lemma capacity_small: "RedfishMemoryCapacityMiB r < 2 ^ 31"
proof -
  have "v AND 0x7FFFFFFF < 2 ^ 31" for v :: u32
    using word_and_le1 [of v "0x7FFFFFFF"] by (simp add: word_le_nat_alt word_less_nat_alt)
  moreover have "(ucast (w :: u16) :: u32) div 1024 < 2 ^ 31" for w
    using ucast_fits(1) [of w] div_le_dividend [of "unat (ucast w :: u32)" 1024] by (simp add: word_less_nat_alt unat_div)
  ultimately show ?thesis
    using ucast_fits(1) [of "SmWord r 12"] by (simp add: RedfishMemoryCapacityMiB_def Let_def)
qed

definition plain_fields :: "field list \<Rightarrow> bool" where
  "plain_fields fs = (\<forall>f\<in>set fs. field_plain f)"

text \<open>A builder's answer is text that reads as this object.\<close>

definition sends :: "efi_status + u8 list \<Rightarrow> json \<Rightarrow> bool" where
  "sends r j = (\<exists>b. r = Inr b \<and> read_json b = Some j)"

lemma nibbles: "unat (b div 16) < 16" "unat (b mod 16) < 16" for b :: u8
proof -
  have "unat b < 2 ^ 8" using unsigned_less [of b] by simp
  then show "unat (b div 16) < 16" "unat (b mod 16) < 16" by (simp_all add: unat_div unat_mod)
qed

lemma sends_memory:
  assumes "plain_fields (memory_fields (MemoryModule r))"
  shows "sends (RpiRedfishBuildMemoryPost True (MemoryModule r)) (body_object memory_base (memory_fields (MemoryModule r)))"
proof -
  let ?M = "MemoryModule r"
  have small: "MRatedSpeedMhz ?M < 2 ^ 31" "MCapacityMiB ?M < 2 ^ 31" "MOperatingSpeedMhz ?M < 2 ^ 31"
    using capacity_small by (simp_all add: MemoryModule_def Let_def ucast_fits [simplified])
  have strs: "field_ok (MDeviceLocator ?M)" "field_ok (MManufacturer ?M)" "field_ok (MSerialNumber ?M)" "field_ok (MPartNumber ?M)"
    "MDeviceType ?M = Some t \<Longrightarrow> field_ok t" "MBaseModuleType ?M = Some t \<Longrightarrow> field_ok t" for t
    using enum_strings_ok by (simp_all add: MemoryModule_def Let_def inv_string_ok)
  have wf: "\<forall>f\<in>set (memory_fields ?M). field_wf f"
    using strs(1-4) small ucast_fits opt_field_wf [of "''MemoryDeviceType''" "MDeviceType ?M", OF _ _ strs(5)]
      opt_field_wf [of "''BaseModuleType''" "MBaseModuleType ?M", OF _ _ strs(6)]
    by (auto simp: memory_fields_def)
  have "sum_list (map field_cost (memory_fields ?M)) \<le> 800"
    using opt_cost [of "''MemoryDeviceType''" "MDeviceType ?M"] opt_cost [of "''BaseModuleType''" "MBaseModuleType ?M"]
      raw_costs(1) [OF small(1)] by (simp add: memory_fields_def del: field_cost.simps(3))
  then show ?thesis
    using wf assms memory_open(2) bases_ok(2) small(1)
    unfolding sends_def by (intro exI [of _ "close_body (foldl append_field (open_obj memory_base) (memory_fields ?M))"] conjI
        memory_body read_body) (auto simp: memory_base_def plain_fields_def)
qed

lemma sends_processor:
  assumes "plain_fields (processor_fields (ProcessorOf r))"
  shows "sends (RpiRedfishBuildProcessorPost True (ProcessorOf r))
    (body_object (processor_base (ProcessorOf r)) (processor_fields (ProcessorOf r)))"
proof -
  let ?P = "ProcessorOf r"
  have small: "PMaxSpeedMhz ?P < 2 ^ 31" "POperatingSpeedMhz ?P < 2 ^ 31" "PTotalCores ?P < 2 ^ 31"
    "PTotalEnabledCores ?P < 2 ^ 31" "PTotalThreads ?P < 2 ^ 31"
    by (simp_all add: ProcessorOf_def Let_def ucast_fits [simplified] ProcessorCount_def)
  have fe: "field_ok []" by (simp add: field_ok_def)
  have strs: "field_ok (PSocket ?P)" "field_ok (PManufacturer ?P)" "field_ok (PModel ?P)" "field_ok (PSerialNumber ?P)"
    "field_ok (PPartNumber ?P)" "PProcessorType ?P = Some t \<Longrightarrow> field_ok t" for t
    using enum_strings_ok fe by (simp_all add: ProcessorOf_def Let_def inv_string_ok)
  have hex: "48 \<le> hex_digit (b div 16) \<and> hex_digit (b div 16) \<le> 70 \<and> 48 \<le> hex_digit (b mod 16) \<and> hex_digit (b mod 16) \<le> 70" for b :: u8
  proof -
    have "48 \<le> hex_digit d \<and> hex_digit d \<le> 70" if "unat d < 16" for d
      using that by (auto simp: hex_digit_def word_le_nat_alt word_less_nat_alt unat_word_ariths)
    with nibbles show ?thesis by blast
  qed
  have id: "plain_text (PIdRegisters ?P)" "length (PIdRegisters ?P) \<le> 18" "text_ok (PIdRegisters ?P)"
  proof -
    let ?t = "ascii ''0x'' @ fmt_016x (\<lambda>i. SmBytes r (8 + i))"
    have l: "length ?t = 18" by (simp add: fmt_016x_def fmt_02x_def)
    have "\<forall>c\<in>set ?t. 48 \<le> c \<and> c \<le> 70 \<or> c = 120"
      using hex by (auto simp: fmt_016x_def fmt_02x_def ascii_def of_char_def)
    moreover have "c \<noteq> 34 \<and> c \<noteq> 92 \<and> 32 \<le> c" if "48 \<le> c \<and> c \<le> 70 \<or> c = 120" for c :: u8
      using that by (auto simp: word_le_nat_alt)
    ultimately have "plain_text ?t \<and> text_ok ?t" unfolding plain_text_def text_ok_def by blast
    moreover have "PIdRegisters ?P = [] \<or> PIdRegisters ?P = ?t" using l by (auto simp: ProcessorOf_def Let_def AsciiSPrint_def)
    ultimately show "plain_text (PIdRegisters ?P)" "length (PIdRegisters ?P) \<le> 18" "text_ok (PIdRegisters ?P)"
      using l by (auto simp: plain_text_def text_ok_def)
  qed
  have wf: "\<forall>f\<in>set (processor_fields ?P). field_wf f"
    using strs(1-5) small id(3) opt_field_wf [of "''ProcessorType''" "PProcessorType ?P", OF _ _ strs(6)]
    by (auto simp: processor_fields_def)
  have "sum_list (map field_cost (processor_fields ?P)) \<le> 800"
    using opt_cost [of "''ProcessorType''" "PProcessorType ?P"] raw_costs(3) [OF id(1,2)]
    by (simp add: processor_fields_def del: field_cost.simps(3))
  then show ?thesis
    using wf assms processor_base_ok [of ?P] id(1,2)
    unfolding sends_def by (intro exI [of _ "close_body (foldl append_field (open_obj (processor_base ?P)) (processor_fields ?P))"]
        conjI processor_body read_body) (auto simp: processor_base_def plain_fields_def)
qed

lemma drive_strings:
  assumes "DriveIdentity h = Some (EFI_SUCCESS, d)"
  shows "field_ok (DModel d)" "field_ok (DSerialNumber d)" "field_ok (DRevision d)" "field_ok (DProtocol d)"
    "DMediaType d = Some t \<Longrightarrow> field_ok t"
proof -
  have names: "field_ok (ascii ''NVMe'')" "field_ok (ascii ''SATA'')" "field_ok (ascii ''SSD'')" "field_ok (ascii ''HDD'')"
    by code_simp+
  show "field_ok (DModel d)" "field_ok (DSerialNumber d)" "field_ok (DRevision d)" "field_ok (DProtocol d)"
    "DMediaType d = Some t \<Longrightarrow> field_ok t"
    using assms names identify_string_ok
    by (auto simp: DriveIdentity_def CollectNvmeDrive_def CollectAtaDrive_def empty_drive_def Let_def EFI_ERROR_def
        split: option.splits disk_interface.splits if_splits)
qed

lemma drive_of_loop: "d \<in> set (DriveLoop Cap hs Ds) \<Longrightarrow> d \<in> set Ds \<or> (\<exists>h e. DriveIdentity h = Some (EFI_SUCCESS, e) \<and> d = DriveCapacity h e)"
proof (induction hs arbitrary: Ds)
  case (Cons h hs)
  then show ?case
    by (auto simp: EFI_ERROR_def split: if_splits option.splits prod.splits) (metis Un_iff empty_iff empty_set list.set(2) set_append insertE)+
qed simp

lemma sends_drive:
  assumes "DriveIdentity h = Some (EFI_SUCCESS, e)" "d = DriveCapacity h e" "plain_fields (drive_fields d)"
  shows "sends (RpiRedfishBuildDrivePost True d) (body_object drive_base (drive_fields d))"
proof -
  have same: "DModel d = DModel e" "DSerialNumber d = DSerialNumber e" "DRevision d = DRevision e" "DProtocol d = DProtocol e"
    "DMediaType d = DMediaType e"
    unfolding assms(2) by (auto simp: DriveCapacity_def split: option.split bool.split)
  have wf: "\<forall>f\<in>set (drive_fields d). field_wf f"
    using drive_strings(1-4) [OF assms(1)] opt_field_wf [of "''MediaType''" "DMediaType d"] drive_strings(5) [OF assms(1)]
    by (auto simp: drive_fields_def same)
  have "sum_list (map field_cost (drive_fields d)) \<le> 800"
    using opt_cost [of "''MediaType''" "DMediaType d"] raw_costs(2) [of "DCapacityBytes d"]
    by (simp add: drive_fields_def del: field_cost.simps(3))
  then show ?thesis
    using wf assms(3) drive_open(2) bases_ok(3)
    unfolding sends_def by (intro exI [of _ "close_body (foldl append_field (open_obj drive_base) (drive_fields d))"]
        conjI drive_body read_body) (auto simp: drive_base_def plain_fields_def)
qed

definition identity_ok :: "host_inventory \<Rightarrow> bool" where
  "identity_ok I = (field_ok (IBiosVersion I) \<and> field_ok (IManufacturer I) \<and> field_ok (IModel I) \<and>
     field_ok (ISerialNumber I) \<and> field_ok (IUuid I))"

lemma uuid_field:
  assumes "RenderSmbiosUuid U = Some t"
  shows "field_ok t"
proof -
  have nz: "hex_digit b \<noteq> 0" if "unat b < 16" for b
    using that by (auto simp: hex_digit_def word_less_nat_alt word_unat_eq_iff unat_word_ariths)
  with nibbles have "0 \<notin> set (fmt_02x b)" for b by (simp add: fmt_02x_def)
  with assms show ?thesis
    by (auto simp: RenderSmbiosUuid_def Let_def AsciiSPrint_def field_ok_def fmt_02x_def split: if_splits)
qed

lemma collected_identity: "identity_ok (snd (RpiRedfishCollectInventory S))"
proof -
  have "identity_ok I \<Longrightarrow> identity_ok (foldl InventoryStep I rs)" for I rs
  proof (induction rs arbitrary: I)
    case (Cons r rs)
    have "identity_ok (InventoryStep I r)"
      using Cons.prems uuid_field
      by (auto simp: InventoryStep_def Let_def identity_ok_def inv_string_ok split: option.split)
    then show ?case using Cons.IH by simp
  qed simp
  moreover have "identity_ok empty_inventory" by (simp add: identity_ok_def empty_inventory_def field_ok_def)
  ultimately show ?thesis by (simp add: RpiRedfishCollectInventory_def split: option.split)
qed

lemma sends_system:
  assumes "identity_ok I" "plain_fields (system_fields I)"
  shows "sends (RpiRedfishBuildSystemPatch True I) (body_object system_base (system_fields I))"
proof -
  have wf: "\<forall>f\<in>set (system_fields I). field_wf f" using assms(1) by (auto simp: system_fields_def identity_ok_def)
  have "sum_list (map field_cost (system_fields I)) \<le> 800" by (simp add: system_fields_def)
  then show ?thesis
    using wf assms(2) system_open(2) bases_ok(1)
    unfolding sends_def system_body by (intro exI [of _ "close_body (foldl append_field (open_obj system_base) (system_fields I))"]
        conjI refl read_body) (auto simp: system_base_def plain_fields_def)
qed


text \<open>A board with one processor record, whose strings are \<open>s\<close>.\<close>

definition demo_processor_record :: "u8 list \<Rightarrow> smbios" where
  "demo_processor_record s = \<lparr>SmType = 4, SmLength = 0x30,
     SmBytes = (\<lambda>i. if i \<in> {4, 7, 0x10, 0x20, 0x22} then 1 else if i = 5 then 3 else if i = 0x18 then 0x41
       else if i = 0x14 then 0x60 else if i = 0x15 then 9 else if i \<in> {0x23, 0x24, 0x25} then 4 else 0),
     SmStrings = s @ [0, 0]\<rparr>"


text \<open>What is read ends where the reader says: a text that starts like an object ends with its brace.\<close>

definition ends_in :: "u8 list \<Rightarrow> u8 list \<Rightarrow> bool" where
  "ends_in s r = (\<exists>p. s = p @ r)"

lemma ends_in_refl: "ends_in s s" and ends_in_drop: "ends_in s (drop k s)" and ends_in_Cons: "ends_in s r \<Longrightarrow> ends_in (c # s) r"
  and ends_in_trans: "ends_in s r \<Longrightarrow> ends_in r q \<Longrightarrow> ends_in s q"
  unfolding ends_in_def by (metis append_Nil, metis append_take_drop_id, metis append_Cons, metis append_assoc)

lemma ends_in_tl: "ends_in s (c # r) \<Longrightarrow> ends_in s r"
  by (rule ends_in_trans, assumption) (intro ends_in_Cons ends_in_refl)

lemma take1: "take 1 q = [c] \<Longrightarrow> q = c # drop 1 q"
  by (cases q) auto

lemma scan_str_ends: "scan_str s = Some (t, r) \<Longrightarrow> ends_in s r"
  by (induction s arbitrary: t rule: scan_str.induct)
    (auto split: if_splits list.splits intro: ends_in_Cons ends_in_refl)

lemma scan_nat_ends: "scan_nat s = Some (k, r) \<Longrightarrow> ends_in s r"
  unfolding ends_in_def scan_nat_def Let_def by (metis option.distinct(1) option.inject prod.inject takeWhile_dropWhile_id)

lemma scan_word_ends: "scan_word w s = Some r \<Longrightarrow> ends_in s r"
  by (auto simp: scan_word_def split: if_splits intro: ends_in_drop)

lemma read_suffix:
  "(\<forall>s j r. read_value n s = Some (j, r) \<longrightarrow> ends_in s r) \<and>
   (\<forall>s js r. read_elems n s = Some (js, r) \<longrightarrow> ends_in s r) \<and>
   (\<forall>s ms r. read_members n s = Some (ms, r) \<longrightarrow> ends_in s (125 # r))"
proof (induction n)
  case (Suc n)
  note V = Suc.IH [THEN conjunct1, rule_format] and E = Suc.IH [THEN conjunct2, THEN conjunct1, rule_format]
    and M = Suc.IH [THEN conjunct2, THEN conjunct2, rule_format]
  have "ends_in s r" if "read_value (Suc n) s = Some (j, r)" for s j r
    using that by (cases s)
      (auto split: if_splits intro: ends_in_Cons ends_in_drop scan_str_ends scan_nat_ends scan_word_ends E ends_in_tl M)
  moreover have "ends_in s r" if "read_elems (Suc n) s = Some (js, r)" for s js r
  proof -
    from that obtain j q where q: "read_value n s = Some (j, q)" by (auto split: option.splits)
    have "ends_in q r" using that q E [of "drop 1 q"] ends_in_drop [of q 1]
      by (auto split: if_splits intro: ends_in_trans)
    with V [OF q] show ?thesis by (rule ends_in_trans)
  qed
  moreover have "ends_in s (125 # r)" if "read_members (Suc n) s = Some (ms, r)" for s ms r
  proof -
    from that obtain k t j q where t: "take 1 s = [34]" "scan_str (drop 1 s) = Some (k, t)" "take 1 t = [58]"
      "read_value n (drop 1 t) = Some (j, q)" by (auto split: option.splits if_splits)
    have "ends_in q (125 # r)" using that t M [of "drop 1 q"] ends_in_drop [of q 1] take1 [of q 125] ends_in_refl [of q]
      by (auto split: if_splits intro: ends_in_trans)
    with ends_in_drop scan_str_ends [OF t(2)] ends_in_drop V [OF t(4)] show ?thesis by (metis ends_in_trans)
  qed
  ultimately show ?case by blast
qed simp

lemma length_strings:
  assumes "ms \<noteq> []" "\<forall>(n, v)\<in>set nv. plain_text (ascii n) \<and> v \<noteq> []"
  shows "length (open_obj (ms @ members_of (map (\<lambda>(n, v). FStr n v) nv))) =
    length (open_obj ms) + sum_list (map (\<lambda>(n, v). length n + 6 + length (concat (map esc (clean v)))) nv)"
  using assms
proof (induction nv arbitrary: ms)
  case (Cons p nv)
  obtain n v where p: "p = (n, v)" by (cases p)
  then have "length (open_obj (ms @ str_field n v)) = length (open_obj ms) + length n + 6 + length (concat (map esc (clean v)))"
    using Cons.prems by (simp add: str_field_def open_obj_snoc member_str)
  moreover have "ms @ str_field n v \<noteq> []" using Cons.prems by simp
  ultimately show ?case using Cons.IH [of "ms @ str_field n v"] Cons.prems p by (simp add: members_of_def)
qed (simp add: members_of_def)

lemma read_json_brace:
  assumes "read_json (123 # s) = Some j"
  shows "last (123 # s) = 125"
proof -
  from assms have r: "read_value (Suc (length s)) (123 # s) = Some (j, [])"
    by (auto simp: read_json_def split: option.splits list.splits prod.splits)
  show ?thesis
  proof (cases "take 1 s = [125]")
    case True
    with r have "s = [125]" using take1 [OF True] by simp
    then show ?thesis by simp
  next
    case False
    with r obtain ms where "read_members (length s) s = Some (ms, [])" by auto
    then have "ends_in s [125]" using read_suffix [of "length s"] by blast
    then show ?thesis by (auto simp: ends_in_def)
  qed
qed

text \<open>
  C38: The exception is real. With a processor like this board's whose strings are 63 quotes, which SMBIOS allows and
  the escaping doubles, the text reaches the end of the buffer and the closing brace is dropped: what is sent is no
  JSON.
\<close>

theorem quoted_body_is_cut:
  "RpiRedfishCollectProcessors (Some [demo_processor_record (replicate 63 34)]) 4 =
     Inr [ProcessorOf (demo_processor_record (replicate 63 34))] \<and>
   (\<exists>b. RpiRedfishBuildProcessorPost True (ProcessorOf (demo_processor_record (replicate 63 34))) = Inr b \<and> read_json b = None)"
proof
  let ?r = "demo_processor_record (replicate 63 34)" let ?q = "replicate 63 (34 :: u8)"
  show "RpiRedfishCollectProcessors (Some [?r]) 4 = Inr [ProcessorOf ?r]"
    by (simp add: RpiRedfishCollectProcessors_def demo_processor_record_def)
  have q: "inv_string ?r off = ?q" if "off \<in> {4, 7, 0x10, 0x20, 0x22}" for off
  proof -
    have "takeWhile (\<lambda>c. c \<noteq> 0) (?q @ [0, 0]) = ?q" by (subst takeWhile_append2) auto
    then have "SmbiosWalk (?q @ [0, 0]) 1 1 = Some ?q" by (subst SmbiosWalk.simps) simp
    then show ?thesis using that
      by (auto simp: inv_string_def SmbiosGetString_def CopyInventoryString_def demo_processor_record_def RPI_REDFISH_STR_MAX_def)
  qed
  define P where "P = ProcessorOf ?r"
  have P: "PSocket P = ?q" "PManufacturer P = ?q" "PModel P = ?q" "PSerialNumber P = ?q" "PPartNumber P = ?q"
    "PIdRegisters P = []" "PProcessorType P = Some (ascii ''CPU'')" "PMaxSpeedMhz P = 2400" "POperatingSpeedMhz P = 0"
    "PTotalCores P = 4" "PTotalEnabledCores P = 4" "PTotalThreads P = 4" "PEnabled P"
    unfolding P_def using q
    by (simp_all add: ProcessorOf_def Let_def) (simp_all add: demo_processor_record_def RedfishProcessorType_def SmWord_def ProcessorCount_def)
  let ?fs = "[FStr ''ProcessorType'' (ascii ''CPU''), FStr ''Socket'' ?q, FStr ''Name'' ?q, FStr ''Manufacturer'' ?q,
      FStr ''Model'' ?q, FStr ''SerialNumber'' ?q, FStr ''PartNumber'' ?q]"
  let ?nums = "[FNum ''MaxSpeedMHz'' 2400, FNum ''OperatingSpeedMHz'' 0, FNum ''TotalCores'' 4, FNum ''TotalEnabledCores'' 4, FNum ''TotalThreads'' 4]"
  let ?B = "open_obj (processor_base P @ members_of ?fs)"
  have e: "length (concat (map esc (clean ?q))) = 126" "length (concat (map esc (clean (ascii ''CPU'')))) = 3"
    by code_simp+
  have "length (open_obj [odata ''#Processor.v1_16_0.Processor'', status_enabled True,
     (ascii ''ProcessorArchitecture'', JStr (ascii ''ARM'')), (ascii ''InstructionSet'', JStr (ascii ''ARM-A64''))]) = 145"
    by code_simp
  then have "length (open_obj (processor_base P)) = 145" using P by (simp add: processor_base_def)
  then have len: "length ?B = 1008"
    using length_strings [of "processor_base P" "[(''ProcessorType'', ascii ''CPU''), (''Socket'', ?q), (''Name'', ?q),
      (''Manufacturer'', ?q), (''Model'', ?q), (''SerialNumber'', ?q), (''PartNumber'', ?q)]"]
    by (simp add: e processor_base_def) (simp add: ascii_def)
  have "foldl append_field (open_obj (processor_base P)) ?fs = ?B"
  proof (rule append_fields)
    have "field_ok (ascii ''CPU'')" by code_simp
    moreover have "field_ok ?q" by (simp add: field_ok_def)
    ultimately show "\<forall>f\<in>set ?fs. field_wf f" by simp
  qed (simp_all only: len, simp_all add: processor_base_def RPI_REDFISH_JSON_MAX_def)
  then have "RpiRedfishBuildProcessorPost True P = Inr (close_body (foldl append_field ?B ?nums))"
    using processor_body [of P] P by (simp add: processor_fields_def opt_field_def plain_text_def)
  moreover have "close_body (foldl append_field ?B ?nums) = ?B @ ascii '',\"TotalCores\":4''"
  proof -
    have t: "AsciiSPrint 32 (ascii '',\"'' @ ascii ''MaxSpeedMHz'' @ ascii ''\":'' @ fmt_d 2400) = ascii '',\"MaxSpeedMHz\":2400''"
      "AsciiSPrint 32 (ascii '',\"'' @ ascii ''TotalCores'' @ ascii ''\":'' @ fmt_d 4) = ascii '',\"TotalCores\":4''"
      "AsciiSPrint 32 (ascii '',\"'' @ ascii ''TotalEnabledCores'' @ ascii ''\":'' @ fmt_d 4) = ascii '',\"TotalEnabledCores\":4''"
      "AsciiSPrint 32 (ascii '',\"'' @ ascii ''TotalThreads'' @ ascii ''\":'' @ fmt_d 4) = ascii '',\"TotalThreads\":4''"
      by code_simp+
    show ?thesis
      by (simp add: AppendJsonNumber_def t AsciiStrCatS_def len RPI_REDFISH_JSON_MAX_def close_body_def)
  qed
  moreover have "read_json (?B @ ascii '',\"TotalCores\":4'') = None"
  proof (rule ccontr)
    assume "read_json (?B @ ascii '',\"TotalCores\":4'') \<noteq> None"
    then obtain j where "read_json (123 # commas (map member (processor_base P @ members_of ?fs)) @ ascii '',\"TotalCores\":4'') = Some j"
      by (auto simp: open_obj_def)
    from read_json_brace [OF this] show False by (simp add: ascii_def of_char_def)
  qed
  ultimately show "\<exists>b. RpiRedfishBuildProcessorPost True (ProcessorOf ?r) = Inr b \<and> read_json b = None"
    unfolding P_def by simp
qed

end
