(* ===== verification/Redfish_Firmware.thy ===== *)
theory Redfish_Firmware
  imports Redfish_Bodies
begin

section \<open>The firmware inventory (RpiRedfishFirmware.c)\<close>

text \<open>
  The firmware images the platform can update, as the Firmware Management Protocols describe them, and the JSON
  body that reports one. An instance of the protocol is the list of its answers; the allocation of its
  descriptor buffer is one of them. A UCS-2 string is the list of its characters, \<open>None\<close> for a null pointer.
\<close>

record efi_guid =
  Data1 :: u32
  Data2 :: u16
  Data3 :: u16
  Data4 :: "u8 list"

record image_descriptor =
  ImageTypeId :: efi_guid
  ImageIdName :: "u16 list option"
  Version :: u32
  VersionName :: "u16 list option"
  AttributesSetting :: u64
  LowestSupportedImageVersion :: u32
  LastAttemptVersion :: u32
  LastAttemptStatus :: u32

record fmp_instance =
  FiHandleProtocol :: efi_status
  FiSizeQuery :: efi_status
  FiAlloc :: bool
  FiGetImageInfo :: efi_status
  FiDescriptorVersion :: u32
  FiDescriptors :: "image_descriptor list"

definition RPI_REDFISH_FIRMWARE_MAX :: nat where "RPI_REDFISH_FIRMWARE_MAX = 4"
definition RPI_REDFISH_FIRMWARE_INVENTORY_ID :: "u8 list" where "RPI_REDFISH_FIRMWARE_INVENTORY_ID = ascii ''BiosFirmware''"

definition fmt_04x :: "u16 \<Rightarrow> u8 list" where
  "fmt_04x w = fmt_02x (ucast (drop_bit 8 w)) @ fmt_02x (ucast w)"

definition fmt_08x :: "u32 \<Rightarrow> u8 list" where
  "fmt_08x w = fmt_04x (ucast (drop_bit 16 w)) @ fmt_04x (ucast w)"

definition RenderGuid :: "efi_guid \<Rightarrow> nat \<Rightarrow> u8 list" where
  "RenderGuid G BufferSize = AsciiSPrint BufferSize
     (fmt_08x (Data1 G) @ [45] @ fmt_04x (Data2 G) @ [45] @ fmt_04x (Data3 G) @ [45] @
      concat (map (\<lambda>i. fmt_02x (Data4 G ! i)) [0, 1]) @ [45] @ concat (map (\<lambda>i. fmt_02x (Data4 G ! i)) [2, 3, 4, 5, 6, 7]))"

definition CopyDescriptorString :: "u16 list option \<Rightarrow> nat \<Rightarrow> u8 list" where
  "CopyDescriptorString Source DestSize =
     (case Source of
        None \<Rightarrow> []
      | Some s \<Rightarrow> map (\<lambda>c. if c < 0x80 then ucast c else 63) (take (DestSize - 1) (takeWhile (\<lambda>c. c \<noteq> 0) s)))"

record firmware_image =
  FwImageTypeId :: "u8 list"
  FwName :: "u8 list"
  FwVersion :: "u8 list"
  FwVersionNumber :: u32
  FwLowestSupportedVersion :: u32
  FwLastAttemptVersion :: u32
  FwLastAttemptStatus :: u32
  FwLastAttemptValid :: bool
  FwUpdateable :: bool

definition FirmwareImage :: "u32 \<Rightarrow> image_descriptor \<Rightarrow> firmware_image" where
  "FirmwareImage DescriptorVersion d =
     \<lparr>FwImageTypeId = RenderGuid (ImageTypeId d) 37,
      FwName = CopyDescriptorString (ImageIdName d) RPI_REDFISH_STR_MAX,
      FwVersion = CopyDescriptorString (VersionName d) RPI_REDFISH_STR_MAX,
      FwVersionNumber = Version d, FwLowestSupportedVersion = LowestSupportedImageVersion d,
      FwLastAttemptVersion = (if DescriptorVersion \<ge> 3 then LastAttemptVersion d else 0),
      FwLastAttemptStatus = (if DescriptorVersion \<ge> 3 then LastAttemptStatus d else 0),
      FwLastAttemptValid = (DescriptorVersion \<ge> 3),
      FwUpdateable = (AttributesSetting d AND 1 \<noteq> 0)\<rparr>"

fun DescriptorLoop :: "nat \<Rightarrow> u32 \<Rightarrow> image_descriptor list \<Rightarrow> firmware_image list \<Rightarrow> firmware_image list" where
  "DescriptorLoop Cap DescriptorVersion [] Images = Images"
| "DescriptorLoop Cap DescriptorVersion (d # ds) Images =
     (if length Images < Cap then DescriptorLoop Cap DescriptorVersion ds (Images @ [FirmwareImage DescriptorVersion d])
      else Images)"

fun FirmwareLoop :: "nat \<Rightarrow> fmp_instance list \<Rightarrow> firmware_image list \<Rightarrow> firmware_image list" where
  "FirmwareLoop Cap [] Images = Images"
| "FirmwareLoop Cap (f # fs) Images =
     (if length Images < Cap
      then (if EFI_ERROR (FiHandleProtocol f) \<or> FiSizeQuery f \<noteq> EFI_BUFFER_TOO_SMALL \<or> \<not> FiAlloc f \<or>
              EFI_ERROR (FiGetImageInfo f)
            then FirmwareLoop Cap fs Images
            else FirmwareLoop Cap fs (DescriptorLoop Cap (FiDescriptorVersion f) (FiDescriptors f) Images))
      else Images)"

definition RpiRedfishCollectFirmware :: "fmp_instance list option \<Rightarrow> nat \<Rightarrow> efi_status + firmware_image list" where
  "RpiRedfishCollectFirmware Handles Cap =
     (case Handles of None \<Rightarrow> Inl EFI_NOT_FOUND | Some fs \<Rightarrow> Inr (FirmwareLoop Cap fs []))"

definition RpiRedfishBuildFirmwareInventoryPatch :: "bool \<Rightarrow> firmware_image \<Rightarrow> efi_status + u8 list" where
  "RpiRedfishBuildFirmwareInventoryPatch Alloc F =
     (if \<not> Alloc then Inl EFI_OUT_OF_RESOURCES
      else
       (let Body = AsciiSPrint 1024 (ascii ''{\"@odata.type\":\"#SoftwareInventory.v1_2_3.SoftwareInventory\",'' @
              ascii ''\"Id\":\"'' @ RPI_REDFISH_FIRMWARE_INVENTORY_ID @ ascii ''\",\"Name\":\"'' @
              (if FwName F \<noteq> [] then FwName F else ascii ''Raspberry Pi 5 UEFI Firmware'') @ ascii ''\",\"Version\":\"'' @
              (if FwVersion F \<noteq> [] then FwVersion F else ascii ''unknown'') @ ascii ''\",\"SoftwareId\":\"'' @
              FwImageTypeId F @ ascii ''\",\"Updateable\":'' @ ascii (if FwUpdateable F then ''true'' else ''false'') @
              ascii '',\"Status\":{\"State\":\"Enabled\",\"Health\":\"OK\"}'');
            Body = Body @ AsciiSPrint (1024 - length Body) (ascii '',\"Oem\":{\"PiBmc\":{\"FirmwareVersion\":'' @
              fmt_dec (unat (FwVersionNumber F)) @ ascii '',\"LowestSupportedVersion\":'' @ fmt_dec (unat (FwLowestSupportedVersion F)));
            Body = (if FwLastAttemptValid F
                    then Body @ AsciiSPrint (1024 - length Body) (ascii '',\"LastAttemptVersion\":'' @
                      fmt_dec (unat (FwLastAttemptVersion F)) @ ascii '',\"LastAttemptStatus\":'' @ fmt_dec (unat (FwLastAttemptStatus F)))
                    else Body) in
        Inr (Body @ AsciiSPrint (1024 - length Body) (ascii ''}}}''))))"

subsection \<open>What is reported\<close>

definition firmware_object :: "firmware_image \<Rightarrow> json" where
  "firmware_object F = JObj
     [odata ''#SoftwareInventory.v1_2_3.SoftwareInventory'', (ascii ''Id'', JStr (ascii ''BiosFirmware'')),
      (ascii ''Name'', JStr (if FwName F \<noteq> [] then FwName F else ascii ''Raspberry Pi 5 UEFI Firmware'')),
      (ascii ''Version'', JStr (if FwVersion F \<noteq> [] then FwVersion F else ascii ''unknown'')),
      (ascii ''SoftwareId'', JStr (FwImageTypeId F)), (ascii ''Updateable'', JBool (FwUpdateable F)), status_enabled True,
      (ascii ''Oem'', JObj [(ascii ''PiBmc'', JObj
        ([(ascii ''FirmwareVersion'', JInt (uint (FwVersionNumber F))),
          (ascii ''LowestSupportedVersion'', JInt (uint (FwLowestSupportedVersion F)))] @
         (if FwLastAttemptValid F
          then [(ascii ''LastAttemptVersion'', JInt (uint (FwLastAttemptVersion F))),
                (ascii ''LastAttemptStatus'', JInt (uint (FwLastAttemptStatus F)))] else [])))])]"

lemma FirmwareLoop_images:
  "f \<in> set (FirmwareLoop Cap fs Is) \<Longrightarrow> f \<in> set Is \<or> (\<exists>v d. f = FirmwareImage v d)"
proof (induction Cap fs Is rule: FirmwareLoop.induct)
  case (2 Cap g fs Is)
  have "x \<in> set (DescriptorLoop Cap v ds Js) \<Longrightarrow> x \<in> set Js \<or> (\<exists>v d. x = FirmwareImage v d)" for x v ds Js
    by (induction Cap v ds Js rule: DescriptorLoop.induct) (auto split: if_splits)
  with 2 show ?case by (auto split: if_splits)
qed simp

lemma FirmwareLoop_bound: "length Is \<le> Cap \<Longrightarrow> length (FirmwareLoop Cap fs Is) \<le> Cap"
proof (induction Cap fs Is rule: FirmwareLoop.induct)
  case (2 Cap g fs Is)
  have "length Js \<le> Cap \<Longrightarrow> length (DescriptorLoop Cap v ds Js) \<le> Cap" for v ds Js
    by (induction Cap v ds Js rule: DescriptorLoop.induct) auto
  with 2 show ?case by auto
qed simp

lemma list_all_take: "list_all P xs \<Longrightarrow> list_all P (take n xs)"
  by (auto simp: list_all_iff dest: in_set_takeD)

lemma guid_text: "plain_text (RenderGuid G 37)" "text_ok (RenderGuid G 37)" "length (RenderGuid G 37) \<le> 36"
proof -
  define ok where "ok c \<longleftrightarrow> 45 \<le> c \<and> c \<le> 70" for c :: u8
  have d: "ok (hex_digit k)" if "unat k < 16" for k
    using that by (auto simp: ok_def hex_digit_def word_le_nat_alt word_less_nat_alt unat_word_ariths)
  have x: "list_all ok (fmt_02x b)" for b using d nibbles [of b] by (simp add: fmt_02x_def)
  have "ok 45" by (simp add: ok_def)
  with x have "list_all ok (RenderGuid G 37)"
    by (simp add: RenderGuid_def AsciiSPrint_def fmt_08x_def fmt_04x_def list_all_take)
  then have "45 \<le> c \<and> c \<le> 70" if "c \<in> set (RenderGuid G 37)" for c
    using that by (auto simp: list_all_iff ok_def)
  then show "plain_text (RenderGuid G 37)" "text_ok (RenderGuid G 37)"
    by (force simp: plain_text_def text_ok_def word_le_nat_alt)+
  show "length (RenderGuid G 37) \<le> 36" by (simp add: RenderGuid_def AsciiSPrint_def)
qed

lemma descriptor_length: "length (CopyDescriptorString s RPI_REDFISH_STR_MAX) < 64"
  by (auto simp: CopyDescriptorString_def RPI_REDFISH_STR_MAX_def split: option.splits)

lemma unsigned_dec: "fmt_dec (unat v) = render_int (uint v)" "length (fmt_dec (unat (v :: u32))) \<le> 10"
proof -
  show "fmt_dec (unat v) = render_int (uint v)" by (simp add: render_int_def)
  have "unat v < 2 ^ 32" using unsigned_less [of v] by simp
  then show "length (fmt_dec (unat v)) \<le> 10" using length_fmt_dec [of "unat v" 9] by simp
qed

lemma key_text: "plain_text k \<Longrightarrow> member (k, j) = 34 # k @ [34, 58] @ render j"
  by (simp add: member_def render_str_def esc_plain)

lemma firmware_keys [simp]:
  "plain_text (ascii ''@odata.type'')" "plain_text (ascii ''Id'')" "plain_text (ascii ''Version'')"
  "plain_text (ascii ''SoftwareId'')" "plain_text (ascii ''Updateable'')" "plain_text (ascii ''Oem'')" "plain_text (ascii ''PiBmc'')"
  "plain_text (ascii ''FirmwareVersion'')" "plain_text (ascii ''LowestSupportedVersion'')"
  "plain_text (ascii ''LastAttemptVersion'')" "plain_text (ascii ''LastAttemptStatus'')" "plain_text (ascii ''BiosFirmware'')"
  "text_ok (ascii ''@odata.type'')" "text_ok (ascii ''Id'')" "text_ok (ascii ''Version'')"
  "text_ok (ascii ''SoftwareId'')" "text_ok (ascii ''Updateable'')" "text_ok (ascii ''Oem'')" "text_ok (ascii ''PiBmc'')"
  "text_ok (ascii ''FirmwareVersion'')" "text_ok (ascii ''LowestSupportedVersion'')"
  "text_ok (ascii ''LastAttemptVersion'')" "text_ok (ascii ''LastAttemptStatus'')" "text_ok (ascii ''BiosFirmware'')"
  by code_simp+

lemma cut_none: "length s < n \<Longrightarrow> AsciiSPrint n s = s"
  by (simp add: AsciiSPrint_def)

definition fw_name :: "firmware_image \<Rightarrow> u8 list" where
  "fw_name F = (if FwName F \<noteq> [] then FwName F else ascii ''Raspberry Pi 5 UEFI Firmware'')"

definition fw_version :: "firmware_image \<Rightarrow> u8 list" where
  "fw_version F = (if FwVersion F \<noteq> [] then FwVersion F else ascii ''unknown'')"

lemma firmware_head:
  assumes "plain_text (fw_name F)" "plain_text (fw_version F)" "plain_text (FwImageTypeId F)"
  shows "ascii ''{\"@odata.type\":\"#SoftwareInventory.v1_2_3.SoftwareInventory\",'' @
      ascii ''\"Id\":\"'' @ RPI_REDFISH_FIRMWARE_INVENTORY_ID @ ascii ''\",\"Name\":\"'' @ fw_name F @ ascii ''\",\"Version\":\"'' @
      fw_version F @ ascii ''\",\"SoftwareId\":\"'' @ FwImageTypeId F @ ascii ''\",\"Updateable\":'' @
      ascii (if FwUpdateable F then ''true'' else ''false'') @ ascii '',\"Status\":{\"State\":\"Enabled\",\"Health\":\"OK\"}'' =
    open_obj [odata ''#SoftwareInventory.v1_2_3.SoftwareInventory'', (ascii ''Id'', JStr (ascii ''BiosFirmware'')),
      (ascii ''Name'', JStr (fw_name F)), (ascii ''Version'', JStr (fw_version F)),
      (ascii ''SoftwareId'', JStr (FwImageTypeId F)), (ascii ''Updateable'', JBool (FwUpdateable F)), status_enabled True]"
proof -
  have o: "member (odata ''#SoftwareInventory.v1_2_3.SoftwareInventory'') = ascii ''\"@odata.type\":\"#SoftwareInventory.v1_2_3.SoftwareInventory\"''"
    "member (status_enabled True) = ascii ''\"Status\":{\"State\":\"Enabled\",\"Health\":\"OK\"}''" by code_simp+
  show ?thesis
    unfolding open_obj_def list.map commas.simps o
    by (simp add: key_text render_str_def esc_plain assms RPI_REDFISH_FIRMWARE_INVENTORY_ID_def) (simp add: ascii_def)
qed

definition oem_member :: "firmware_image \<Rightarrow> u8 list \<times> json" where
  "oem_member F = (ascii ''Oem'', JObj [(ascii ''PiBmc'', JObj
     ([(ascii ''FirmwareVersion'', JInt (uint (FwVersionNumber F))),
       (ascii ''LowestSupportedVersion'', JInt (uint (FwLowestSupportedVersion F)))] @
      (if FwLastAttemptValid F
       then [(ascii ''LastAttemptVersion'', JInt (uint (FwLastAttemptVersion F))),
             (ascii ''LastAttemptStatus'', JInt (uint (FwLastAttemptStatus F)))] else [])))])"

lemma oem_text:
  "44 # member (oem_member F) =
     (ascii '',\"Oem\":{\"PiBmc\":{\"FirmwareVersion\":'' @ fmt_dec (unat (FwVersionNumber F)) @
      ascii '',\"LowestSupportedVersion\":'' @ fmt_dec (unat (FwLowestSupportedVersion F))) @
     (if FwLastAttemptValid F then ascii '',\"LastAttemptVersion\":'' @ fmt_dec (unat (FwLastAttemptVersion F)) @
        ascii '',\"LastAttemptStatus\":'' @ fmt_dec (unat (FwLastAttemptStatus F)) else []) @ ascii ''}}''"
  by (simp add: oem_member_def key_text render_obj unsigned_dec(1)) (simp add: ascii_def)

lemma sends_firmware:
  assumes "plain_text (FwName F)" "plain_text (FwVersion F)" "text_ok (FwName F)" "text_ok (FwVersion F)"
    and "length (FwName F) < 64" "length (FwVersion F) < 64"
    and guid: "plain_text (FwImageTypeId F)" "text_ok (FwImageTypeId F)" "length (FwImageTypeId F) \<le> 36"
  shows "sends (RpiRedfishBuildFirmwareInventoryPatch True F) (firmware_object F)"
proof -
  have nm: "plain_text (fw_name F)" "text_ok (fw_name F)" "length (fw_name F) < 64"
    "plain_text (fw_version F)" "text_ok (fw_version F)" "length (fw_version F) < 64"
  proof -
    have "plain_text (ascii ''Raspberry Pi 5 UEFI Firmware'')" "text_ok (ascii ''Raspberry Pi 5 UEFI Firmware'')"
      "plain_text (ascii ''unknown'')" "text_ok (ascii ''unknown'')" by code_simp+
    then show "plain_text (fw_name F)" "text_ok (fw_name F)" "length (fw_name F) < 64"
      "plain_text (fw_version F)" "text_ok (fw_version F)" "length (fw_version F) < 64"
      using assms by (simp_all add: fw_name_def fw_version_def)
  qed
  let ?ms = "[odata ''#SoftwareInventory.v1_2_3.SoftwareInventory'', (ascii ''Id'', JStr (ascii ''BiosFirmware'')),
      (ascii ''Name'', JStr (fw_name F)), (ascii ''Version'', JStr (fw_version F)),
      (ascii ''SoftwareId'', JStr (FwImageTypeId F)), (ascii ''Updateable'', JBool (FwUpdateable F)), status_enabled True]"
  let ?a = "ascii '',\"Oem\":{\"PiBmc\":{\"FirmwareVersion\":'' @ fmt_dec (unat (FwVersionNumber F)) @
      ascii '',\"LowestSupportedVersion\":'' @ fmt_dec (unat (FwLowestSupportedVersion F))"
  let ?b = "ascii '',\"LastAttemptVersion\":'' @ fmt_dec (unat (FwLastAttemptVersion F)) @
      ascii '',\"LastAttemptStatus\":'' @ fmt_dec (unat (FwLastAttemptStatus F))"
  have l: "length (open_obj ?ms) \<le> 400"
    unfolding firmware_head [OF nm(1,4) guid(1), symmetric] using nm guid(3)
    by (simp add: RPI_REDFISH_FIRMWARE_INVENTORY_ID_def)
  have la: "length ?a \<le> 100" "length ?b \<le> 100"
    using unsigned_dec(2) [of "FwVersionNumber F"] unsigned_dec(2) [of "FwLowestSupportedVersion F"]
      unsigned_dec(2) [of "FwLastAttemptVersion F"] unsigned_dec(2) [of "FwLastAttemptStatus F"] by simp_all
  have "RpiRedfishBuildFirmwareInventoryPatch True F =
      Inr (open_obj ?ms @ ?a @ (if FwLastAttemptValid F then ?b else []) @ ascii ''}}}'')"
    using l la firmware_head [OF nm(1,4) guid(1)]
    by (simp add: RpiRedfishBuildFirmwareInventoryPatch_def fw_name_def [symmetric] fw_version_def [symmetric] cut_none Let_def)
  also have "open_obj ?ms @ ?a @ (if FwLastAttemptValid F then ?b else []) @ ascii ''}}}'' = open_obj (?ms @ [oem_member F]) @ [125]"
    using oem_text [of F] by (subst open_obj_snoc) (simp_all add: ascii_def)
  also have "\<dots> = render (firmware_object F)"
    unfolding open_obj_render firmware_object_def oem_member_def fw_name_def fw_version_def by simp
  finally have "RpiRedfishBuildFirmwareInventoryPatch True F = Inr (render (firmware_object F))" .
  moreover have "json_ok (firmware_object F)"
  proof -
    have "json_ok (snd (odata ''#SoftwareInventory.v1_2_3.SoftwareInventory''))" "text_ok (fst (odata ''#SoftwareInventory.v1_2_3.SoftwareInventory''))"
      "json_ok (snd (status_enabled True))" "text_ok (fst (status_enabled True))" by code_simp+
    then show ?thesis using nm guid by (auto simp: firmware_object_def fw_name_def [symmetric] fw_version_def [symmetric])
  qed
  ultimately show ?thesis by (auto simp: sends_def read_json_render)
qed

text \<open>Every firmware image collected from the firmware-management instances, at most as many
  as the caller has room for, is sent as the software inventory resource that states it, when the
  names its driver reports hold no quote, backslash or control character.\<close>

theorem firmware_body_reads:
  assumes "RpiRedfishCollectFirmware Handles Cap = Inr Fs"
  shows "length Fs \<le> Cap \<and>
    (\<forall>F\<in>set Fs. plain_text (FwName F) \<and> text_ok (FwName F) \<and> plain_text (FwVersion F) \<and> text_ok (FwVersion F) \<longrightarrow>
       sends (RpiRedfishBuildFirmwareInventoryPatch True F) (firmware_object F))"
proof -
  from assms obtain fs where fs: "Fs = FirmwareLoop Cap fs []"
    by (auto simp: RpiRedfishCollectFirmware_def split: option.splits)
  then have "length Fs \<le> Cap" using FirmwareLoop_bound [of "[]" Cap fs] by simp
  moreover have "sends (RpiRedfishBuildFirmwareInventoryPatch True F) (firmware_object F)"
    if F: "F \<in> set Fs" and n: "plain_text (FwName F)" "text_ok (FwName F)" "plain_text (FwVersion F)" "text_ok (FwVersion F)" for F
  proof -
    from F fs obtain v d where "F = FirmwareImage v d" using FirmwareLoop_images by fastforce
    then show ?thesis using n by (intro sends_firmware) (simp_all add: FirmwareImage_def guid_text descriptor_length)
  qed
  ultimately show ?thesis by blast
qed

definition w_descriptor :: image_descriptor where
  "w_descriptor = \<lparr>ImageTypeId = \<lparr>Data1 = 0x12345678, Data2 = 0x9ABC, Data3 = 0xDEF0, Data4 = [1, 2, 3, 4, 5, 6, 7, 8]\<rparr>,
     ImageIdName = Some [0x50, 0x69], Version = 7, VersionName = Some [0x37], AttributesSetting = 1,
     LowestSupportedImageVersion = 1, LastAttemptVersion = 7, LastAttemptStatus = 0\<rparr>"

definition w_fmp :: fmp_instance where
  "w_fmp = \<lparr>FiHandleProtocol = EFI_SUCCESS, FiSizeQuery = EFI_BUFFER_TOO_SMALL, FiAlloc = True, FiGetImageInfo = EFI_SUCCESS,
     FiDescriptorVersion = 3, FiDescriptors = [w_descriptor]\<rparr>"

theorem firmware_body_reads_witness:
  "RpiRedfishCollectFirmware (Some [w_fmp]) 4 = Inr [FirmwareImage 3 w_descriptor] \<and>
   sends (RpiRedfishBuildFirmwareInventoryPatch True (FirmwareImage 3 w_descriptor)) (firmware_object (FirmwareImage 3 w_descriptor))"
proof -
  have c: "RpiRedfishCollectFirmware (Some [w_fmp]) 4 = Inr [FirmwareImage 3 w_descriptor]"
    by (simp add: RpiRedfishCollectFirmware_def w_fmp_def EFI_ERROR_def)
  have "plain_text (FwName (FirmwareImage 3 w_descriptor))" "text_ok (FwName (FirmwareImage 3 w_descriptor))"
    "plain_text (FwVersion (FirmwareImage 3 w_descriptor))" "text_ok (FwVersion (FirmwareImage 3 w_descriptor))"
    by code_simp+
  with firmware_body_reads [OF c] c show ?thesis by simp
qed

end
