(* ===== verification/Redfish_Sync.thy ===== *)
theory Redfish_Sync
  imports Redfish_Firmware Active_Cooler Rpi5_Programs Boot_Services
begin

unbundle bit_operations_syntax

section \<open>The exchange with the board management controller (RpiRedfishSyncDxe.c)\<close>

text \<open>
  The driver talks to the BMC over REST, to the boot manager, to the variable store and to the fan. Every
  such call is an event of a history, the newest first, and what the call answers is a function of the history
  up to and including it: the record \<^verbatim>\<open>sync_env\<close> is an arbitrary environment, the BMC, the boot manager and the
  firmware together. The driver's static variables and the history are the record \<^verbatim>\<open>sync_state\<close>.
  The ready-to-boot event may be signalled during any call; its handler only sets the latch.

  An operation that may end in a cold reset returns \<open>None\<close> when it does, since \<^verbatim>\<open>ResetSystem\<close> does not come back
  and a dead loop follows it. Releasing a response or a body has no effect that the program can see and is left out.
\<close>

subsection \<open>Constants\<close>

definition RPI_REDFISH_SERVICE_ROOT_URI :: string where "RPI_REDFISH_SERVICE_ROOT_URI = ''/redfish/v1/''"
definition RPI_REDFISH_SYSTEM_URI :: string where "RPI_REDFISH_SYSTEM_URI = ''/redfish/v1/Systems/1''"
definition RPI_REDFISH_MEMORY_URI :: string where "RPI_REDFISH_MEMORY_URI = ''/redfish/v1/Systems/1/Memory''"
definition RPI_REDFISH_PROCESSORS_URI :: string where "RPI_REDFISH_PROCESSORS_URI = ''/redfish/v1/Systems/1/Processors''"
definition RPI_REDFISH_DRIVES_URI :: string where "RPI_REDFISH_DRIVES_URI = ''/redfish/v1/Systems/1/Storage/1/Drives''"
definition RPI_REDFISH_THERMAL_URI :: string where "RPI_REDFISH_THERMAL_URI = ''/redfish/v1/Chassis/1/Thermal''"
definition RPI_REDFISH_FIRMWARE_INVENTORY_URI :: string where
  "RPI_REDFISH_FIRMWARE_INVENTORY_URI = ''/redfish/v1/UpdateService/FirmwareInventory/BiosFirmware''"
definition RPI_REDFISH_MEDIA_RETRIES :: nat where "RPI_REDFISH_MEDIA_RETRIES = 8"
definition RPI_REDFISH_MEDIA_RETRY_STALL :: nat where "RPI_REDFISH_MEDIA_RETRY_STALL = 2000000"

definition MESSAGING_DEVICE_PATH :: u8 where "MESSAGING_DEVICE_PATH = 3"
definition MEDIA_DEVICE_PATH :: u8 where "MEDIA_DEVICE_PATH = 4"
definition MEDIA_HARDDRIVE_DP :: u8 where "MEDIA_HARDDRIVE_DP = 1"
definition MSG_ATAPI_DP :: u8 where "MSG_ATAPI_DP = 1"
definition MSG_SCSI_DP :: u8 where "MSG_SCSI_DP = 2"
definition MSG_USB_DP :: u8 where "MSG_USB_DP = 5"
definition MSG_MAC_ADDR_DP :: u8 where "MSG_MAC_ADDR_DP = 11"
definition MSG_SATA_DP :: u8 where "MSG_SATA_DP = 18"
definition MSG_NVME_NAMESPACE_DP :: u8 where "MSG_NVME_NAMESPACE_DP = 23"
definition MSG_UFS_DP :: u8 where "MSG_UFS_DP = 25"
definition MSG_SD_DP :: u8 where "MSG_SD_DP = 26"
definition MSG_EMMC_DP :: u8 where "MSG_EMMC_DP = 29"
definition LOAD_OPTION_CATEGORY :: u32 where "LOAD_OPTION_CATEGORY = 0x1F00"
definition LOAD_OPTION_CATEGORY_APP :: u32 where "LOAD_OPTION_CATEGORY_APP = 0x100"

subsection \<open>State and environment\<close>

datatype boot_class = NetworkClass | ConnectAllClass
datatype sync_variable = BootNextVar | ContinuousMarkVar

text \<open>A variable is set to a 16-bit number or, with \<open>None\<close>, to no data, which deletes it.\<close>

datatype sync_event =
    CreateServiceCall
  | RestGet string
  | RestPatch string "u8 list"
  | RestPost string "u8 list"
  | StallFor nat
  | LocateFan
  | FanGetInfoCall
  | FanSetOverrideCall u8
  | FanClearOverrideCall
  | GetLoadOptions
  | LocatePolicy
  | ConnectDeviceClass boot_class
  | RefreshAllBootOption
  | QueryVariable sync_variable
  | SetVariable sync_variable u32 "u16 option"
  | ResetCold
  | InstallSettled
  | CreateReadyToBootEvent
  | InstallConfigHandler

type_synonym history = "sync_event list"

record boot_option =
  OptionNumber :: nat
  OptAttributes :: u32
  FilePath :: "(u8 \<times> u8) list option"

text \<open>A response: the payload, if there is one, and in it the JSON value, if there is one.\<close>

type_synonym payload = "json option option"

record sync_env =
  EnvCreated :: "history \<Rightarrow> bool"
  EnvRest :: "history \<Rightarrow> efi_status \<times> payload"
  EnvStatus :: "history \<Rightarrow> efi_status"
  EnvOptions :: "history \<Rightarrow> boot_option list"
  EnvFanInfo :: "history \<Rightarrow> efi_status \<times> fan_info"
  EnvReadyToBoot :: "history \<Rightarrow> bool"
  EnvAlloc :: "history \<Rightarrow> bool"
  EnvSmbios :: "history \<Rightarrow> smbios list option"
  EnvDisks :: "history \<Rightarrow> disk_handle list option"
  EnvFmp :: "history \<Rightarrow> fmp_instance list option"
  JsonValueIsObject :: "json \<Rightarrow> bool"
  JsonObjectGetValue :: "json \<Rightarrow> string \<Rightarrow> json option"
  JsonValueGetAsciiString :: "json \<Rightarrow> u8 list option"
  JsonValueInteger :: "json \<Rightarrow> int option"

record sync_state =
  mSyncDone :: bool
  mSettled :: bool
  mReadyToBoot :: bool
  History :: history

definition OnReadyToBoot :: "sync_state \<Rightarrow> sync_state" where
  "OnReadyToBoot s = s\<lparr>mReadyToBoot := True\<rparr>"

definition call :: "sync_env \<Rightarrow> sync_event \<Rightarrow> (history \<Rightarrow> 'a) \<Rightarrow> (sync_state, 'a) state" where
  "call E e answer = State (\<lambda>s.
     let h = e # History s;
         s = s\<lparr>History := h\<rparr> in
     (answer h, if EnvReadyToBoot E h then OnReadyToBoot s else s))"

definition SignalSyncSettled :: "sync_env \<Rightarrow> (sync_state, unit) state" where
  "SignalSyncSettled E = do {
     s \<leftarrow> gets (\<lambda>s. s);
     if mSettled s then State_Monad.return ()
     else do {
       modify (mSettled_update (\<lambda>_. True));
       Status \<leftarrow> call E InstallSettled (EnvStatus E);
       State_Monad.return ()
     }
   }"

subsection \<open>Matching a boot option\<close>

definition OptionHasNode :: "boot_option \<Rightarrow> u8 \<Rightarrow> u8 \<Rightarrow> bool" where
  "OptionHasNode o' Ty SubType =
     (case FilePath o' of None \<Rightarrow> False | Some ns \<Rightarrow> list_ex (\<lambda>n. fst n = Ty \<and> snd n = SubType) ns)"

fun NetworkNodes :: "(u8 \<times> u8) list \<Rightarrow> bool \<Rightarrow> bool" where
  "NetworkNodes [] HasMac = HasMac"
| "NetworkNodes (n # ns) HasMac =
     (if fst n \<noteq> MESSAGING_DEVICE_PATH then NetworkNodes ns HasMac
      else if snd n = MSG_USB_DP then False
      else NetworkNodes ns (HasMac \<or> snd n = MSG_MAC_ADDR_DP))"

definition OptionIsNetworkBoot :: "boot_option \<Rightarrow> bool" where
  "OptionIsNetworkBoot o' = (case FilePath o' of None \<Rightarrow> False | Some ns \<Rightarrow> NetworkNodes ns False)"

definition storage_subtype :: "u8 \<Rightarrow> bool" where
  "storage_subtype t = (t \<in> {MSG_NVME_NAMESPACE_DP, MSG_SATA_DP, MSG_ATAPI_DP, MSG_SCSI_DP, MSG_EMMC_DP, MSG_SD_DP, MSG_UFS_DP})"

fun DiskNodes :: "(u8 \<times> u8) list \<Rightarrow> bool" where
  "DiskNodes [] = False"
| "DiskNodes (n # ns) =
     (if fst n \<noteq> MESSAGING_DEVICE_PATH then DiskNodes ns
      else if storage_subtype (snd n) then True
      else DiskNodes ns)"

definition OptionIsDiskBoot :: "boot_option \<Rightarrow> bool" where
  "OptionIsDiskBoot o' =
     (case FilePath o' of
        None \<Rightarrow> False
      | Some ns \<Rightarrow> if OptionHasNode o' MEDIA_DEVICE_PATH MEDIA_HARDDRIVE_DP then True else DiskNodes ns)"

definition OptionMatchesTarget :: "u8 list \<Rightarrow> boot_option \<Rightarrow> bool" where
  "OptionMatchesTarget Target o' =
     (if Target = ascii ''BiosSetup'' then OptAttributes o' AND LOAD_OPTION_CATEGORY = LOAD_OPTION_CATEGORY_APP
      else if Target = ascii ''Pxe'' then OptionIsNetworkBoot o'
      else if Target = ascii ''Hdd'' then OptionIsDiskBoot o'
      else False)"

definition ConnectBootClassDevices :: "sync_env \<Rightarrow> u8 list \<Rightarrow> (sync_state, unit) state" where
  "ConnectBootClassDevices E Target = do {
     Status \<leftarrow> call E LocatePolicy (EnvStatus E);
     if EFI_ERROR Status then State_Monad.return ()
     else do {
       Status \<leftarrow> call E (ConnectDeviceClass (if Target = ascii ''Pxe'' then NetworkClass else ConnectAllClass)) (EnvStatus E);
       State_Monad.return ()
     }
   }"

fun MatchLoop :: "u8 list \<Rightarrow> boot_option list \<Rightarrow> boot_option option" where
  "MatchLoop Target [] = None"
| "MatchLoop Target (o' # os) = (if OptionMatchesTarget Target o' then Some o' else MatchLoop Target os)"

definition FindBootOverrideOption :: "sync_env \<Rightarrow> u8 list option \<Rightarrow> (sync_state, efi_status + boot_option) state" where
  "FindBootOverrideOption E Target =
     (case Target of
        None \<Rightarrow> State_Monad.return (Inl EFI_NOT_FOUND)
      | Some t \<Rightarrow>
          if t = ascii ''None'' then State_Monad.return (Inl EFI_NOT_FOUND)
          else do {
            Options \<leftarrow> call E GetLoadOptions (EnvOptions E);
            if Options = [] then State_Monad.return (Inl EFI_NOT_FOUND)
            else (case MatchLoop t Options of
                Some o' \<Rightarrow> State_Monad.return (Inr o')
              | None \<Rightarrow> do {
                  ConnectBootClassDevices E t;
                  call E RefreshAllBootOption (\<lambda>h. ());
                  Options \<leftarrow> call E GetLoadOptions (EnvOptions E);
                  if Options = [] then State_Monad.return (Inl EFI_NOT_FOUND)
                  else (case MatchLoop t Options of
                      Some o' \<Rightarrow> State_Monad.return (Inr o')
                    | None \<Rightarrow> State_Monad.return (Inl EFI_NOT_FOUND))
                })
          })"

subsection \<open>Applying a boot override\<close>

definition ApplyMatchedOption :: "sync_env \<Rightarrow> boot_option \<Rightarrow> (sync_state, efi_status option) state" where
  "ApplyMatchedOption E o' = do {
     let BootNext = word_of_nat (OptionNumber o');
     Status \<leftarrow> call E (SetVariable BootNextVar
       (EFI_VARIABLE_NON_VOLATILE OR EFI_VARIABLE_BOOTSERVICE_ACCESS OR EFI_VARIABLE_RUNTIME_ACCESS) (Some BootNext)) (EnvStatus E);
     if EFI_ERROR Status then State_Monad.return (Some Status)
     else do {
       call E ResetCold (\<lambda>h. ());
       State_Monad.return None
     }
   }"

definition ClearOverrideBody :: "u8 list" where
  "ClearOverrideBody = ascii ''{\"Boot\":{\"BootSourceOverrideEnabled\":\"Disabled\"}}''"

text \<open>The two texts that the response asks with, absent when there is no such object or the value is not a string.\<close>

definition OverrideRequest :: "sync_env \<Rightarrow> payload \<Rightarrow> (u8 list option \<times> u8 list option) option" where
  "OverrideRequest E Payload =
     (case Payload of
        None \<Rightarrow> None
      | Some Root \<Rightarrow>
          (case Root of
             None \<Rightarrow> None
           | Some Root \<Rightarrow>
               if \<not> JsonValueIsObject E Root then None
               else
                 (case JsonObjectGetValue E Root ''Boot'' of
                    None \<Rightarrow> None
                  | Some Boot \<Rightarrow>
                      if \<not> JsonValueIsObject E Boot then None
                      else Some (Option.bind (JsonObjectGetValue E Boot ''BootSourceOverrideTarget'') (JsonValueGetAsciiString E),
                                 Option.bind (JsonObjectGetValue E Boot ''BootSourceOverrideEnabled'') (JsonValueGetAsciiString E)))))"

definition ApplyContinuous :: "sync_env \<Rightarrow> boot_option \<Rightarrow> (sync_state, unit option) state" where
  "ApplyContinuous E o' = do {
     let Mark = word_of_nat (OptionNumber o');
     Status \<leftarrow> call E (SetVariable ContinuousMarkVar (EFI_VARIABLE_NON_VOLATILE OR EFI_VARIABLE_BOOTSERVICE_ACCESS) (Some Mark)) (EnvStatus E);
     if EFI_ERROR Status then State_Monad.return (Some ())
     else do {
       r \<leftarrow> ApplyMatchedOption E o';
       State_Monad.return (map_option (\<lambda>_. ()) r)
     }
   }"

definition ApplyOnce :: "sync_env \<Rightarrow> boot_option \<Rightarrow> (sync_state, unit option) state" where
  "ApplyOnce E o' = do {
     Ack \<leftarrow> call E (RestPatch RPI_REDFISH_SYSTEM_URI ClearOverrideBody) (EnvRest E);
     if EFI_ERROR (fst Ack) then State_Monad.return (Some ())
     else do {
       r \<leftarrow> ApplyMatchedOption E o';
       State_Monad.return (map_option (\<lambda>_. ()) r)
     }
   }"

definition StandAside :: "sync_env \<Rightarrow> (sync_state, bool) state" where
  "StandAside E = do {
     Status \<leftarrow> call E (QueryVariable ContinuousMarkVar) (EnvStatus E);
     if Status = EFI_BUFFER_TOO_SMALL then do {
       call E (SetVariable ContinuousMarkVar 0 None) (EnvStatus E);
       State_Monad.return True
     }
     else State_Monad.return False
   }"

definition ApplyOverride :: "sync_env \<Rightarrow> bool \<Rightarrow> u8 list option \<Rightarrow> (sync_state, unit option) state" where
  "ApplyOverride E IsContinuous Target = do {
     Match \<leftarrow> FindBootOverrideOption E Target;
     (case Match of
        Inl e \<Rightarrow> State_Monad.return (Some ())
      | Inr o' \<Rightarrow> if IsContinuous then ApplyContinuous E o' else ApplyOnce E o')
   }"

definition HandleBootOverride :: "sync_env \<Rightarrow> payload \<Rightarrow> (sync_state, unit option) state" where
  "HandleBootOverride E Payload = do {
     s \<leftarrow> gets (\<lambda>s. s);
     if mReadyToBoot s then State_Monad.return (Some ())
     else (case OverrideRequest E Payload of
         None \<Rightarrow> State_Monad.return (Some ())
       | Some (Target, Enabled) \<Rightarrow>
           let IsOnce = (Enabled = Some (ascii ''Once''));
               IsContinuous = (Enabled = Some (ascii ''Continuous'')) in
           if \<not> IsOnce \<and> \<not> IsContinuous then State_Monad.return (Some ())
           else if IsContinuous then do {
             Aside \<leftarrow> StandAside E;
             if Aside then State_Monad.return (Some ())
             else ApplyOverride E True Target
           }
           else ApplyOverride E False Target)
   }"

subsection \<open>The reports\<close>

fun PostAll :: "sync_env \<Rightarrow> string \<Rightarrow> (bool \<Rightarrow> 'a \<Rightarrow> efi_status + u8 list) \<Rightarrow> 'a list \<Rightarrow> (sync_state, unit) state" where
  "PostAll E Uri Build [] = State_Monad.return ()"
| "PostAll E Uri Build (x # xs) = do {
     s \<leftarrow> gets (\<lambda>s. s);
     (case Build (EnvAlloc E (History s)) x of
        Inl e \<Rightarrow> State_Monad.return ()
      | Inr Body \<Rightarrow> do {
          Status \<leftarrow> call E (RestPost Uri Body) (EnvRest E);
          State_Monad.return ()
        });
     PostAll E Uri Build xs
   }"

definition ReportProcessors :: "sync_env \<Rightarrow> (sync_state, unit) state" where
  "ReportProcessors E = do {
     s \<leftarrow> gets (\<lambda>s. s);
     (case RpiRedfishCollectProcessors (EnvSmbios E (History s)) RPI_REDFISH_PROCESSOR_MAX of
        Inl e \<Rightarrow> State_Monad.return ()
      | Inr Processors \<Rightarrow> PostAll E RPI_REDFISH_PROCESSORS_URI RpiRedfishBuildProcessorPost Processors)
   }"

definition ReportMemory :: "sync_env \<Rightarrow> (sync_state, unit) state" where
  "ReportMemory E = do {
     s \<leftarrow> gets (\<lambda>s. s);
     (case RpiRedfishCollectMemory (EnvSmbios E (History s)) RPI_REDFISH_MEMORY_MAX of
        Inl e \<Rightarrow> State_Monad.return ()
      | Inr Modules \<Rightarrow> PostAll E RPI_REDFISH_MEMORY_URI RpiRedfishBuildMemoryPost Modules)
   }"

definition ReportFirmwareInventory :: "sync_env \<Rightarrow> (sync_state, unit) state" where
  "ReportFirmwareInventory E = do {
     s \<leftarrow> gets (\<lambda>s. s);
     (case RpiRedfishCollectFirmware (EnvFmp E (History s)) RPI_REDFISH_FIRMWARE_MAX of
        Inl e \<Rightarrow> State_Monad.return ()
      | Inr Images \<Rightarrow>
          if Images = [] then State_Monad.return ()
          else
            (case RpiRedfishBuildFirmwareInventoryPatch (EnvAlloc E (History s)) (hd Images) of
               Inl e \<Rightarrow> State_Monad.return ()
             | Inr Body \<Rightarrow> do {
                 Status \<leftarrow> call E (RestPatch RPI_REDFISH_FIRMWARE_INVENTORY_URI Body) (EnvRest E);
                 State_Monad.return ()
               }))
   }"

definition ReportDrives :: "sync_env \<Rightarrow> (sync_state, unit) state" where
  "ReportDrives E = do {
     s \<leftarrow> gets (\<lambda>s. s);
     (case RpiRedfishCollectDrives (EnvDisks E (History s)) RPI_REDFISH_DRIVE_MAX of
        Inl e \<Rightarrow> State_Monad.return ()
      | Inr Drives \<Rightarrow> PostAll E RPI_REDFISH_DRIVES_URI RpiRedfishBuildDrivePost Drives)
   }"

definition fmt_03d :: "nat \<Rightarrow> u8 list" where
  "fmt_03d n = (let d = fmt_dec n in replicate (3 - length d) 48 @ d)"

definition fmt_int :: "int \<Rightarrow> u8 list" where
  "fmt_int i = (if i < 0 then 45 # fmt_dec (nat (- i)) else fmt_dec (nat i))"

definition ThermalReading :: "int \<Rightarrow> u8 list" where
  "ThermalReading T =
     (let Whole = T sdiv 1000;
          Milli = T smod 1000;
          Milli = (if Milli < 0 then - Milli else Milli) in
      (if T < 0 \<and> Whole = 0 then [45] else []) @ fmt_int Whole @ [46] @ fmt_03d (nat Milli))"

definition TempField :: "fan_info \<Rightarrow> u8 list" where
  "TempField Info =
     (if TemperatureValid Info
      then AsciiSPrint 64 (ascii ''\"Temperatures\":[{\"MemberId\":\"SoC\",\"ReadingCelsius\":'' @
             ThermalReading (TemperatureMilliCelsius Info) @ ascii ''}],'')
      else [])"

definition ThermalBody :: "fan_info \<Rightarrow> u8 list" where
  "ThermalBody Info =
     (let Percent = (InfoDuty255 Info * 100) mod 2 ^ 32 div 255 in
      AsciiSPrint RPI_REDFISH_JSON_MAX (ascii ''{'' @ TempField Info @
        ascii ''\"Fans\":[{\"MemberId\":\"ActiveCooler\",\"Reading\":'' @ fmt_dec Percent @
        ascii '',\"ReadingUnits\":\"Percent\",'' @
        ascii ''\"Oem\":{\"PiBmc\":{\"Level\":'' @ fmt_dec (InfoLevel Info) @ ascii '',\"MaxLevel\":'' @ fmt_dec (MaxLevel Info) @
        ascii '',\"OverrideActive\":'' @ ascii (if OverrideActive Info then ''true'' else ''false'') @ ascii ''}}}]}''))"

definition ReportThermal :: "sync_env \<Rightarrow> (sync_state, efi_status) state" where
  "ReportThermal E = do {
     Status \<leftarrow> call E LocateFan (EnvStatus E);
     if EFI_ERROR Status then State_Monad.return EFI_NOT_FOUND
     else do {
       Info \<leftarrow> call E FanGetInfoCall (EnvFanInfo E);
       if EFI_ERROR (fst Info) \<and> fst Info \<noteq> EFI_NOT_READY then State_Monad.return (fst Info)
       else do {
         Response \<leftarrow> call E (RestPatch RPI_REDFISH_THERMAL_URI (ThermalBody (snd Info))) (EnvRest E);
         State_Monad.return (fst Response)
       }
     }
   }"

text \<open>
  The value that the steering is read from: each member is looked up only in an object, and where the value is not an
  object it is kept as it is.
\<close>

definition FanOverrideValue :: "sync_env \<Rightarrow> payload \<Rightarrow> json option" where
  "FanOverrideValue E Payload =
     (case Option.bind Payload (\<lambda>r. r) of
        None \<Rightarrow> None
      | Some Root \<Rightarrow>
          if \<not> JsonValueIsObject E Root then None
          else
            (case JsonObjectGetValue E Root ''Oem'' of
               None \<Rightarrow> None
             | Some Oem \<Rightarrow>
                 if \<not> JsonValueIsObject E Oem then Some Oem
                 else
                   (case JsonObjectGetValue E Oem ''PiBmc'' of
                      None \<Rightarrow> None
                    | Some PiBmc \<Rightarrow>
                        if \<not> JsonValueIsObject E PiBmc then Some PiBmc
                        else JsonObjectGetValue E PiBmc ''FanOverrideLevel'')))"

definition PollFanOverride :: "sync_env \<Rightarrow> (sync_state, efi_status) state" where
  "PollFanOverride E = do {
     Status \<leftarrow> call E LocateFan (EnvStatus E);
     if EFI_ERROR Status then State_Monad.return EFI_NOT_FOUND
     else do {
       Response \<leftarrow> call E (RestGet RPI_REDFISH_THERMAL_URI) (EnvRest E);
       if EFI_ERROR (fst Response) then State_Monad.return (fst Response)
       else do {
         Done \<leftarrow> (case Option.bind (FanOverrideValue E (snd Response)) (JsonValueInteger E) of
            Some Level \<Rightarrow>
              if Level \<ge> 0 \<and> Level \<le> 0xFF then call E (FanSetOverrideCall (word_of_int Level)) (EnvStatus E)
              else call E FanClearOverrideCall (EnvStatus E)
          | None \<Rightarrow> call E FanClearOverrideCall (EnvStatus E));
         State_Monad.return EFI_SUCCESS
       }
     }
   }"

subsection \<open>The exchange\<close>

text \<open>The requests for the service root: \<open>n\<close> of them are left.\<close>

fun ServiceRootLoop :: "sync_env \<Rightarrow> nat \<Rightarrow> (sync_state, efi_status) state" where
  "ServiceRootLoop E 0 = State_Monad.return EFI_NO_MEDIA"
| "ServiceRootLoop E (Suc n) = do {
     Response \<leftarrow> call E (RestGet RPI_REDFISH_SERVICE_ROOT_URI) (EnvRest E);
     if fst Response \<noteq> EFI_NO_MEDIA \<or> n = 0 then State_Monad.return (fst Response)
     else do {
       call E (StallFor RPI_REDFISH_MEDIA_RETRY_STALL) (\<lambda>h. ());
       ServiceRootLoop E n
     }
   }"

definition ReportSystem :: "sync_env \<Rightarrow> (sync_state, unit) state" where
  "ReportSystem E = do {
     s \<leftarrow> gets (\<lambda>s. s);
     (case RpiRedfishBuildSystemPatch (EnvAlloc E (History s)) (snd (RpiRedfishCollectInventory (EnvSmbios E (History s)))) of
        Inl e \<Rightarrow> State_Monad.return ()
      | Inr Patch \<Rightarrow> do {
          Status \<leftarrow> call E (RestPatch RPI_REDFISH_SYSTEM_URI Patch) (EnvRest E);
          State_Monad.return ()
        })
   }"

definition RpiRedfishSync :: "sync_env \<Rightarrow> (sync_state, unit option) state" where
  "RpiRedfishSync E = do {
     Service \<leftarrow> call E CreateServiceCall (EnvCreated E);
     if \<not> Service then State_Monad.return (Some ())
     else do {
       Status \<leftarrow> ServiceRootLoop E RPI_REDFISH_MEDIA_RETRIES;
       if EFI_ERROR Status then State_Monad.return (Some ())
       else do {
         ReportSystem E;
         ReportProcessors E;
         ReportMemory E;
         ReportDrives E;
         ReportFirmwareInventory E;
         ReportThermal E;
         PollFanOverride E;
         Response \<leftarrow> call E (RestGet RPI_REDFISH_SYSTEM_URI) (EnvRest E);
         if EFI_ERROR (fst Response) then State_Monad.return (Some ())
         else HandleBootOverride E (snd Response)
       }
     }
   }"

text \<open>The service information: \<open>None\<close> for a null pointer, else whether a REST EX handle is in it.\<close>

definition RpiRedfishConfigHandlerInit :: "sync_env \<Rightarrow> bool option \<Rightarrow> (sync_state, efi_status option) state" where
  "RpiRedfishConfigHandlerInit E ServiceInfo =
     (case ServiceInfo of
        None \<Rightarrow> State_Monad.return (Some EFI_SUCCESS)
      | Some RestExHandle \<Rightarrow>
          if \<not> RestExHandle then State_Monad.return (Some EFI_NOT_READY)
          else do {
            s \<leftarrow> gets (\<lambda>s. s);
            if mSyncDone s then State_Monad.return (Some EFI_SUCCESS)
            else do {
              modify (mSyncDone_update (\<lambda>_. True));
              r \<leftarrow> RpiRedfishSync E;
              (case r of
                 None \<Rightarrow> State_Monad.return None
               | Some u \<Rightarrow> do {
                   SignalSyncSettled E;
                   State_Monad.return (Some EFI_SUCCESS)
                 })
            }
          })"

definition RpiRedfishConfigHandlerStop :: efi_status where
  "RpiRedfishConfigHandlerStop = EFI_SUCCESS"

text \<open>The static variables of a fresh image, and the entry point.\<close>

definition sync_boot :: "history \<Rightarrow> sync_state" where
  "sync_boot h = \<lparr>mSyncDone = False, mSettled = False, mReadyToBoot = False, History = h\<rparr>"

definition RpiRedfishSyncDxeEntryPoint :: "sync_env \<Rightarrow> (sync_state, efi_status) state" where
  "RpiRedfishSyncDxeEntryPoint E = do {
     Status \<leftarrow> call E CreateReadyToBootEvent (EnvStatus E);
     call E InstallConfigHandler (EnvStatus E)
   }"

subsection \<open>Operations that change nothing but the history\<close>

text \<open>
  A calm event sets no variable and does not reset. \<^verbatim>\<open>calm m\<close>: from every state, \<open>m\<close> adds only calm events,
  keeps the two flags of the exchange and never takes the ready-to-boot latch back.
\<close>

fun calm_event :: "sync_event \<Rightarrow> bool" where
  "calm_event (SetVariable v a d) = False"
| "calm_event ResetCold = False"
| "calm_event _ = True"

definition extends :: "sync_state \<Rightarrow> sync_state \<Rightarrow> bool" where
  "extends s s' = (mSyncDone s' = mSyncDone s \<and> mSettled s' = mSettled s \<and> (mReadyToBoot s \<longrightarrow> mReadyToBoot s') \<and>
     (\<exists>es. History s' = es @ History s \<and> list_all calm_event es))"

definition calm :: "(sync_state, 'a) state \<Rightarrow> bool" where
  "calm m = (\<forall>s. extends s (snd (run_state m s)))"

lemma extends_refl: "extends s s"
  by (simp add: extends_def)

lemma extends_trans: "extends s t \<Longrightarrow> extends t u \<Longrightarrow> extends s u"
  by (auto simp: extends_def)

named_theorems calm_intro \<open>rules for programs that add only calm events\<close>

lemma calm_return [calm_intro]: "calm (State_Monad.return x)"
  by (simp add: calm_def extends_refl)

lemma calm_get [calm_intro]: "calm (gets (\<lambda>s. s))"
  by (simp add: calm_def gets_def extends_refl)

lemma calm_bind [calm_intro]: "calm m \<Longrightarrow> (\<And>x. calm (f x)) \<Longrightarrow> calm (State_Monad.bind m f)"
  by (auto simp: calm_def case_prod_unfold intro: extends_trans)

lemma calm_call [calm_intro]: "calm_event e \<Longrightarrow> calm (call E e f)"
  by (simp add: calm_def call_def extends_def OnReadyToBoot_def Let_def)

lemma calm_if [calm_intro]: "(b \<Longrightarrow> calm m) \<Longrightarrow> (\<not> b \<Longrightarrow> calm n) \<Longrightarrow> calm (if b then m else n)"
  by simp

lemma calm_case [calm_intro]:
  "calm n \<Longrightarrow> (\<And>x. calm (h x)) \<Longrightarrow> calm (case q of None \<Rightarrow> n | Some x \<Rightarrow> h x)"
  "(\<And>x. calm (k x)) \<Longrightarrow> (\<And>x. calm (l x)) \<Longrightarrow> calm (case t of Inl x \<Rightarrow> k x | Inr x \<Rightarrow> l x)"
  by (simp_all split: option.split sum.split)

lemma runs_quiet: "calm m \<Longrightarrow> (\<And>x s'. extends s s' \<Longrightarrow> Q x s') \<Longrightarrow> runs m s Q"
  by (rule runsI) (metis calm_def snd_conv)

lemma calm_PostAll [calm_intro]: "calm (PostAll E Uri Build xs)"
  by (induction xs) (auto intro!: calm_intro)

lemma calm_root [calm_intro]: "calm (ServiceRootLoop E n)"
  by (induction n) (auto intro!: calm_intro)

lemma calm_reports [calm_intro]:
  "calm (ReportSystem E)" "calm (ReportProcessors E)" "calm (ReportMemory E)" "calm (ReportDrives E)"
  "calm (ReportFirmwareInventory E)" "calm (ReportThermal E)" "calm (PollFanOverride E)"
  unfolding ReportSystem_def ReportProcessors_def ReportMemory_def ReportDrives_def ReportFirmwareInventory_def
    ReportThermal_def PollFanOverride_def by (intro calm_intro; simp)+

lemma calm_connect [calm_intro]: "calm (ConnectBootClassDevices E t)"
  unfolding ConnectBootClassDevices_def by (intro calm_intro; simp)

lemma calm_find [calm_intro]: "calm (FindBootOverrideOption E Target)"
  unfolding FindBootOverrideOption_def by (intro calm_intro; simp)

lemma runs_gets: "Q s s \<Longrightarrow> runs (gets (\<lambda>s. s)) s Q"
  by (simp add: runs_def gets_def)

lemma runs_modify: "Q () (f s) \<Longrightarrow> runs (modify f) s Q"
  by (simp add: runs_def modify_def)

lemma runs_call:
  "(\<And>s'. History s' = e # History s \<Longrightarrow> mSyncDone s' = mSyncDone s \<Longrightarrow> mSettled s' = mSettled s \<Longrightarrow>
     (mReadyToBoot s \<Longrightarrow> mReadyToBoot s') \<Longrightarrow> Q (f (e # History s)) s') \<Longrightarrow> runs (call E e f) s Q"
  by (simp add: runs_def call_def Let_def OnReadyToBoot_def)

subsection \<open>How an override is applied\<close>

text \<open>
  What a history has to look like for every override in it to have been applied safely. A number is put into
  \<^verbatim>\<open>BootNext\<close> only right after the BMC accepted that the request is cleared, or right after the same number was
  written to the mark of the continuous cycle; and the machine is reset only right after \<^verbatim>\<open>BootNext\<close> was set.
\<close>

fun disciplined :: "sync_env \<Rightarrow> history \<Rightarrow> bool" where
  "disciplined E [] = True"
| "disciplined E (SetVariable BootNextVar a (Some n) # h) =
     (disciplined E h \<and>
      (case h of
         RestPatch Uri Body # r \<Rightarrow> Uri = RPI_REDFISH_SYSTEM_URI \<and> Body = ClearOverrideBody \<and> fst (EnvRest E h) = EFI_SUCCESS
       | SetVariable ContinuousMarkVar b d # r \<Rightarrow> d = Some n \<and> EnvStatus E h = EFI_SUCCESS
       | _ \<Rightarrow> False))"
| "disciplined E (SetVariable BootNextVar a None # h) = False"
| "disciplined E (ResetCold # h) =
     (disciplined E h \<and>
      (case h of SetVariable BootNextVar a (Some n) # r \<Rightarrow> EnvStatus E h = EFI_SUCCESS | _ \<Rightarrow> False))"
| "disciplined E (e # h) = disciplined E h"

lemma disciplined_quiet: "list_all calm_event es \<Longrightarrow> disciplined E (es @ h) = disciplined E h"
proof (induction es)
  case (Cons e es)
  then show ?case by (cases e) auto
qed simp

text \<open>The ways in which handling an override can end, as the events added since it began.\<close>

definition stood_aside :: "history \<Rightarrow> bool" where
  "stood_aside es = (\<exists>r. es = SetVariable ContinuousMarkVar 0 None # r \<and> list_all calm_event r)"

definition marked :: "sync_env \<Rightarrow> history \<Rightarrow> history \<Rightarrow> u16 \<Rightarrow> bool" where
  "marked E h es n = (\<exists>a r. es = SetVariable ContinuousMarkVar a (Some n) # r \<and> list_all calm_event r \<and>
     EnvStatus E (es @ h) = EFI_SUCCESS)"

definition acknowledged :: "sync_env \<Rightarrow> history \<Rightarrow> history \<Rightarrow> bool" where
  "acknowledged E h es = (\<exists>r. es = RestPatch RPI_REDFISH_SYSTEM_URI ClearOverrideBody # r \<and> list_all calm_event r \<and>
     fst (EnvRest E (es @ h)) = EFI_SUCCESS)"

definition override_post :: "sync_env \<Rightarrow> sync_state \<Rightarrow> unit option \<Rightarrow> sync_state \<Rightarrow> bool" where
  "override_post E s r s' = (mSyncDone s' = mSyncDone s \<and> mSettled s' = mSettled s \<and>
     (\<exists>es. History s' = es @ History s \<and>
       (r = Some () \<and> (list_all calm_event es \<or> stood_aside es \<or>
           (\<exists>n t. es = SetVariable ContinuousMarkVar (EFI_VARIABLE_NON_VOLATILE OR EFI_VARIABLE_BOOTSERVICE_ACCESS) (Some n) # t \<and>
              list_all calm_event t \<and> EnvStatus E (History s') \<noteq> EFI_SUCCESS) \<or>
           (\<exists>a n t. es = SetVariable BootNextVar a (Some n) # t \<and> EnvStatus E (History s') \<noteq> EFI_SUCCESS \<and>
              (marked E (History s) t n \<or> acknowledged E (History s) t))) \<or>
        r = None \<and> (\<exists>a n t. es = ResetCold # SetVariable BootNextVar a (Some n) # t \<and>
              EnvStatus E (tl (History s')) = EFI_SUCCESS \<and>
              (marked E (History s) t n \<or> acknowledged E (History s) t)))))"

lemma runs_apply:
  assumes "marked E h t (word_of_nat (OptionNumber o')) \<or> acknowledged E h t" "History s = t @ h"
    and "mSyncDone s0 = mSyncDone s" "mSettled s0 = mSettled s" "History s0 = h"
  shows "runs (ApplyMatchedOption E o') s (\<lambda>r s'. override_post E s0 (map_option (\<lambda>_. ()) r) s')"
  unfolding ApplyMatchedOption_def
  using assms by (intro runs_rules runs_call) (auto simp: override_post_def EFI_ERROR_def)

lemma marked_then_applied:
  assumes "extends s0 s" "History s' = SetVariable ContinuousMarkVar a (Some (word_of_nat (OptionNumber o'))) # History s"
    "mSyncDone s' = mSyncDone s" "mSettled s' = mSettled s" "EnvStatus E (History s') = EFI_SUCCESS"
  shows "runs (ApplyMatchedOption E o') s' (\<lambda>r t. override_post E s0 (map_option (\<lambda>_. ()) r) t)"
proof -
  from assms(1) obtain es where "History s = es @ History s0" "list_all calm_event es" "mSyncDone s0 = mSyncDone s" "mSettled s0 = mSettled s"
    by (auto simp: extends_def)
  with assms show ?thesis
    by (intro runs_apply [where h = "History s0" and t = "SetVariable ContinuousMarkVar a (Some (word_of_nat (OptionNumber o'))) # es"])
      (auto simp: marked_def)
qed

lemma acknowledged_then_applied:
  assumes "extends s0 s" "History s' = RestPatch RPI_REDFISH_SYSTEM_URI ClearOverrideBody # History s"
    "mSyncDone s' = mSyncDone s" "mSettled s' = mSettled s" "fst (EnvRest E (History s')) = EFI_SUCCESS"
  shows "runs (ApplyMatchedOption E o') s' (\<lambda>r t. override_post E s0 (map_option (\<lambda>_. ()) r) t)"
proof -
  from assms(1) obtain es where "History s = es @ History s0" "list_all calm_event es" "mSyncDone s0 = mSyncDone s" "mSettled s0 = mSettled s"
    by (auto simp: extends_def)
  with assms show ?thesis
    by (intro runs_apply [where h = "History s0" and t = "RestPatch RPI_REDFISH_SYSTEM_URI ClearOverrideBody # es"])
      (auto simp: acknowledged_def)
qed

lemma runs_unit: "runs m s (\<lambda>r t. Q (map_option (\<lambda>_. ()) r) t) \<Longrightarrow> runs m s (\<lambda>r t. runs (State_Monad.return (map_option (\<lambda>_. ()) r)) t Q)"
  by (auto simp: runs_def split: prod.splits)

lemma runs_ApplyContinuous: "extends s0 s \<Longrightarrow> runs (ApplyContinuous E o') s (override_post E s0)"
  unfolding ApplyContinuous_def Let_def
  apply (intro runs_bind runs_call runs_if runs_return)
   apply (auto simp: override_post_def extends_def EFI_ERROR_def)[1]
  apply (rule runs_unit, erule marked_then_applied)
     apply (simp_all add: EFI_ERROR_def)
  done

lemma runs_ApplyOnce: "extends s0 s \<Longrightarrow> runs (ApplyOnce E o') s (override_post E s0)"
  unfolding ApplyOnce_def
  apply (intro runs_bind runs_call runs_if runs_return)
   apply (auto simp: override_post_def extends_def EFI_ERROR_def)[1]
  apply (rule runs_unit, erule acknowledged_then_applied)
     apply (simp_all add: EFI_ERROR_def)
  done

lemma override_post_quiet: "extends s s' \<Longrightarrow> override_post E s (Some ()) s'"
  by (auto simp: override_post_def extends_def)

lemma override_post_aside:
  "extends s t \<Longrightarrow> History s' = SetVariable ContinuousMarkVar 0 None # History t \<Longrightarrow> mSyncDone s' = mSyncDone t \<Longrightarrow>
   mSettled s' = mSettled t \<Longrightarrow> override_post E s (Some ()) s'"
  by (auto simp: override_post_def extends_def stood_aside_def)

lemma runs_ApplyOverride:
  "extends s0 s \<Longrightarrow> runs (ApplyOverride E IsContinuous Target) s (override_post E s0)"
  unfolding ApplyOverride_def
  by (intro runs_rules runs_quiet [OF calm_find])
    (auto intro: override_post_quiet runs_ApplyContinuous runs_ApplyOnce extends_trans)

lemma extends_call:
  "calm_event e \<Longrightarrow> History s' = e # History s \<Longrightarrow> mSyncDone s' = mSyncDone s \<Longrightarrow> mSettled s' = mSettled s \<Longrightarrow>
   (mReadyToBoot s \<Longrightarrow> mReadyToBoot s') \<Longrightarrow> extends s s'"
  by (simp add: extends_def)

lemma runs_StandAside:
  "runs (StandAside E) s (\<lambda>b s'. if b then override_post E s (Some ()) s' \<and>
       EnvStatus E (QueryVariable ContinuousMarkVar # History s) = EFI_BUFFER_TOO_SMALL
     else extends s s' \<and> EnvStatus E (QueryVariable ContinuousMarkVar # History s) \<noteq> EFI_BUFFER_TOO_SMALL)"
  unfolding StandAside_def
  by (intro runs_bind runs_call runs_if runs_return)
    (simp_all add: override_post_def extends_def stood_aside_def)

lemma runs_HandleBootOverride: "runs (HandleBootOverride E Payload) s (override_post E s)"
  unfolding HandleBootOverride_def Let_def
  by (intro runs_bind runs_gets runs_if runs_option runs_return runs_prod runs_ApplyOverride extends_refl
      runs_mono [OF runs_StandAside])
    (auto intro: override_post_quiet extends_refl runs_ApplyOverride simp: runs_return)

lemma latched_stays: "mReadyToBoot s \<Longrightarrow> run_state (HandleBootOverride E Payload) s = (Some (), s)"
  by (simp add: HandleBootOverride_def gets_def)

definition sync_post :: "sync_env \<Rightarrow> sync_state \<Rightarrow> unit option \<Rightarrow> sync_state \<Rightarrow> bool" where
  "sync_post E s r s' = (\<exists>t. extends s t \<and> override_post E t r s' \<and> (mReadyToBoot t \<longrightarrow> r = Some () \<and> s' = t))"

lemma sync_post_quiet: "extends s t \<Longrightarrow> sync_post E s (Some ()) t"
  using override_post_quiet [OF extends_refl] by (auto simp: sync_post_def)

lemma runs_override: "extends s t \<Longrightarrow> runs (HandleBootOverride E Payload) t (sync_post E s)"
proof (cases "mReadyToBoot t")
  case True
  then show "extends s t \<Longrightarrow> ?thesis" using latched_stays [OF True, of E Payload] sync_post_quiet [of s t E] by (simp add: runs_def)
next
  case False
  then show "extends s t \<Longrightarrow> ?thesis"
    by (intro runs_mono [OF runs_HandleBootOverride]) (auto simp: sync_post_def)
qed

text \<open>The exchange up to the last request, and what it answers.\<close>

definition Reports :: "sync_env \<Rightarrow> (sync_state, (efi_status \<times> payload) option) state" where
  "Reports E = do {
     Service \<leftarrow> call E CreateServiceCall (EnvCreated E);
     if \<not> Service then State_Monad.return None
     else do {
       Status \<leftarrow> ServiceRootLoop E RPI_REDFISH_MEDIA_RETRIES;
       if EFI_ERROR Status then State_Monad.return None
       else do {
         ReportSystem E;
         ReportProcessors E;
         ReportMemory E;
         ReportDrives E;
         ReportFirmwareInventory E;
         ReportThermal E;
         PollFanOverride E;
         Response \<leftarrow> call E (RestGet RPI_REDFISH_SYSTEM_URI) (EnvRest E);
         State_Monad.return (if EFI_ERROR (fst Response) then None else Some Response)
       }
     }
   }"

lemma bind_if: "State_Monad.bind (if b then m else n) f = (if b then State_Monad.bind m f else State_Monad.bind n f)"
  by simp

lemma sync_Reports:
  "RpiRedfishSync E = do {
     r \<leftarrow> Reports E;
     (case r of None \<Rightarrow> State_Monad.return (Some ()) | Some Response \<Rightarrow> HandleBootOverride E (snd Response))
   }"
  unfolding RpiRedfishSync_def Reports_def
  by (simp add: bind_if State_Monad.bind_assoc if_distrib [where f = "case_option _ _"] cong: if_cong)

lemma runs_Reports:
  "runs (Reports E) s (\<lambda>r t. extends s t \<and>
     (\<forall>Response. r = Some Response \<longrightarrow> (\<exists>h. History t = RestGet RPI_REDFISH_SYSTEM_URI # h \<and> EnvRest E (History t) = Response)))"
  unfolding Reports_def
  apply (intro runs_bind runs_call runs_if runs_return runs_quiet [OF calm_root] calm_reports [THEN runs_quiet])
    apply (simp_all add: extends_def)
  by (auto split: if_splits)

lemma runs_RpiRedfishSync: "runs (RpiRedfishSync E) s (sync_post E s)"
  unfolding sync_Reports
  by (intro runs_bind runs_mono [OF runs_Reports] runs_option) (auto intro: runs_override runs_return sync_post_quiet)

lemma runs_SignalSyncSettled:
  "runs (SignalSyncSettled E) s (\<lambda>u s'. mSettled s' \<and> mSyncDone s' = mSyncDone s \<and> (mReadyToBoot s \<longrightarrow> mReadyToBoot s') \<and>
     (\<exists>es. History s' = es @ History s \<and> list_all calm_event es))"
  unfolding SignalSyncSettled_def
  by (intro runs_bind runs_gets runs_if runs_return runs_modify runs_call) simp_all

definition init_post :: "sync_env \<Rightarrow> sync_state \<Rightarrow> efi_status option \<Rightarrow> sync_state \<Rightarrow> bool" where
  "init_post E s r s' = (mSyncDone s' \<and>
     (\<exists>t v u. sync_post E (s\<lparr>mSyncDone := True\<rparr>) v t \<and> (v = None \<longrightarrow> r = None \<and> s' = t) \<and>
        (v = Some u \<longrightarrow> r = Some EFI_SUCCESS \<and> mSettled s' \<and> (mReadyToBoot t \<longrightarrow> mReadyToBoot s') \<and>
           (\<exists>es. History s' = es @ History t \<and> list_all calm_event es))))"

lemma sync_post_done: "sync_post E s v t \<Longrightarrow> mSyncDone t = mSyncDone s"
  by (auto simp: sync_post_def override_post_def extends_def)

lemma runs_init:
  "\<not> mSyncDone s \<Longrightarrow> runs (RpiRedfishConfigHandlerInit E (Some True)) s (init_post E s)"
  unfolding RpiRedfishConfigHandlerInit_def
  apply (simp only: option.case)
  apply (intro runs_if runs_bind runs_gets)
    apply simp
   apply simp
  apply (intro runs_bind runs_modify runs_mono [OF runs_RpiRedfishSync] runs_option runs_return runs_mono [OF runs_SignalSyncSettled])
   apply (auto simp: init_post_def dest: sync_post_done)
  done

lemma override_disciplined:
  "override_post E s r s' \<Longrightarrow> disciplined E (History s) \<Longrightarrow> disciplined E (History s')"
  by (auto simp: override_post_def stood_aside_def marked_def acknowledged_def disciplined_quiet)

lemma sync_disciplined: "sync_post E s r s' \<Longrightarrow> disciplined E (History s) \<Longrightarrow> disciplined E (History s')"
  by (auto simp: sync_post_def extends_def disciplined_quiet dest!: override_disciplined)

text \<open>C6: However the BMC, the boot manager and the firmware answer, the driver puts a number into BootNext only
  right after the BMC accepted the clearing of the one-time request or right after the mark of the continuous cycle
  was written with the same number, and it resets the machine only right after BootNext was set.\<close>

theorem override_applied_safely:
  assumes "disciplined E (History s)"
  shows "disciplined E (History (snd (run_state (RpiRedfishConfigHandlerInit E ServiceInfo) s)))"
proof (cases "ServiceInfo = Some True \<and> \<not> mSyncDone s")
  case True
  obtain r s' where r: "run_state (RpiRedfishConfigHandlerInit E ServiceInfo) s = (r, s')" by (rule prod.exhaust)
  with True have "init_post E s r s'" using runsD [OF runs_init] by blast
  with assms r show ?thesis
    by (auto simp: init_post_def disciplined_quiet dest!: sync_disciplined)
next
  case False
  with assms show ?thesis by (auto simp: RpiRedfishConfigHandlerInit_def gets_def split: option.split)
qed

subsection \<open>One exchange per boot\<close>

lemma calm_no_reset: "list_all calm_event es \<Longrightarrow> ResetCold \<notin> set es"
  by (auto simp: list_all_iff)

lemma override_resets:
  "override_post E s r s' \<Longrightarrow> \<exists>es. History s' = es @ History s \<and>
     (case r of None \<Rightarrow> (\<exists>u. es = ResetCold # u \<and> ResetCold \<notin> set u) | Some u \<Rightarrow> ResetCold \<notin> set es)"
  unfolding override_post_def stood_aside_def marked_def acknowledged_def
  by (elim conjE exE disjE) (simp_all add: calm_no_reset)

text \<open>C23: The first call with a discovered service runs the exchange once and either ends in a reset, as the newest event
  with none before it, or returns success with the exchange signalled as settled and no reset made; every later call
  changes nothing. Once the machine is ready to boot, no variable is set and no reset is made.\<close>

theorem sync_runs_once:
  assumes "\<not> mSyncDone s" "run_state (RpiRedfishConfigHandlerInit E (Some True)) s = (r, s')"
  shows "\<exists>es. History s' = es @ History s \<and>
     (case r of
        None \<Rightarrow> (\<exists>t. es = ResetCold # t \<and> ResetCold \<notin> set t)
      | Some st \<Rightarrow> st = EFI_SUCCESS \<and> mSettled s' \<and> ResetCold \<notin> set es) \<and>
     (mReadyToBoot s \<longrightarrow> list_all calm_event es) \<and>
     run_state (RpiRedfishConfigHandlerInit E (Some True)) s' = (Some EFI_SUCCESS, s')"
proof -
  note q = calm_no_reset
  from runsD [OF runs_init [OF assms(1)] assms(2)] have post: "init_post E s r s'" .
  then have again: "run_state (RpiRedfishConfigHandlerInit E (Some True)) s' = (Some EFI_SUCCESS, s')"
    by (simp add: init_post_def RpiRedfishConfigHandlerInit_def gets_def)
  from post obtain t v es0 where t: "sync_post E (s\<lparr>mSyncDone := True\<rparr>) v t"
    and v: "v = None \<longrightarrow> r = None \<and> s' = t"
      "v \<noteq> None \<longrightarrow> r = Some EFI_SUCCESS \<and> mSettled s' \<and> History s' = es0 @ History t \<and> list_all calm_event es0"
    by (auto simp: init_post_def)
  from t obtain t0 es1 where t0: "override_post E t0 v t" "mReadyToBoot s \<longrightarrow> mReadyToBoot t0"
    "mReadyToBoot t0 \<longrightarrow> v = Some () \<and> t = t0" "History t0 = es1 @ History s" "list_all calm_event es1"
    by (auto simp: sync_post_def extends_def)
  from override_resets [OF t0(1)] obtain es2 where e2: "History t = es2 @ History t0"
    "case v of None \<Rightarrow> (\<exists>u. es2 = ResetCold # u \<and> ResetCold \<notin> set u) | Some u \<Rightarrow> ResetCold \<notin> set es2" by blast
  show ?thesis
  proof (cases v)
    case None
    with v e2 t0 q [OF t0(5)] again show ?thesis by (intro exI [of _ "es2 @ es1"]) auto
  next
    case (Some u)
    with v have "list_all calm_event es0" "History s' = es0 @ History t" by auto
    with Some v e2 t0 q q [OF t0(5)] again show ?thesis by (intro exI [of _ "es0 @ es2 @ es1"]) auto
  qed
qed

subsection \<open>The service root is asked a bounded number of times\<close>

primrec root_history :: "nat \<Rightarrow> history \<Rightarrow> history" where
  "root_history 0 h = RestGet RPI_REDFISH_SERVICE_ROOT_URI # h"
| "root_history (Suc k) h = RestGet RPI_REDFISH_SERVICE_ROOT_URI # StallFor RPI_REDFISH_MEDIA_RETRY_STALL # root_history k h"

lemma root_history_shift:
  "root_history k (StallFor RPI_REDFISH_MEDIA_RETRY_STALL # RestGet RPI_REDFISH_SERVICE_ROOT_URI # h) = root_history (Suc k) h"
  by (induction k) auto

lemma service_root_loop:
  "n > 0 \<Longrightarrow> run_state (ServiceRootLoop E n) s = (st, s') \<Longrightarrow>
   \<exists>k<n. History s' = root_history k (History s) \<and> st = fst (EnvRest E (root_history k (History s))) \<and>
     (\<forall>i<k. fst (EnvRest E (root_history i (History s))) = EFI_NO_MEDIA) \<and> (st = EFI_NO_MEDIA \<longrightarrow> Suc k = n)"
proof (induction n arbitrary: s)
  case (Suc n)
  let ?h = "RestGet RPI_REDFISH_SERVICE_ROOT_URI # History s"
  obtain x t where c: "run_state (call E (RestGet RPI_REDFISH_SERVICE_ROOT_URI) (EnvRest E)) s = (x, t)" by (rule prod.exhaust)
  obtain y u where d: "run_state (call E (StallFor RPI_REDFISH_MEDIA_RETRY_STALL) (\<lambda>h. ())) t = (y, u)" by (rule prod.exhaust)
  from c d have h: "x = EnvRest E ?h" "History t = ?h" "History u = StallFor RPI_REDFISH_MEDIA_RETRY_STALL # ?h"
    by (auto simp: call_def Let_def OnReadyToBoot_def split: if_splits)
  show ?case
  proof (cases "fst x \<noteq> EFI_NO_MEDIA \<or> n = 0")
    case True
    with Suc.prems c h show ?thesis by (intro exI [of _ 0]) auto
  next
    case False
    with Suc.prems c d have "run_state (ServiceRootLoop E n) u = (st, s')" by auto
    with Suc.IH False obtain k where k: "k < n" "History s' = root_history k (History u)" "st = fst (EnvRest E (root_history k (History u)))"
      "\<forall>i<k. fst (EnvRest E (root_history i (History u))) = EFI_NO_MEDIA" "st = EFI_NO_MEDIA \<longrightarrow> Suc k = n" by blast
    have "root_history i (History u) = root_history (Suc i) (History s)" for i by (simp only: h root_history_shift)
    moreover have "\<forall>i<Suc k. fst (EnvRest E (root_history i (History s))) = EFI_NO_MEDIA"
      using calculation k(4) False h(1) by (auto simp: less_Suc_eq_0_disj)
    ultimately show ?thesis using k by (intro exI [of _ "Suc k"]) auto
  qed
qed simp

text \<open>C36: The service root is asked at most eight times, two seconds apart, and again only while the answer is that
  there is no medium: the status is the first answer that is not, or the eighth.\<close>

theorem service_root_bounded:
  "\<exists>k<8. History (snd (run_state (ServiceRootLoop E RPI_REDFISH_MEDIA_RETRIES) s)) = root_history k (History s) \<and>
     fst (run_state (ServiceRootLoop E RPI_REDFISH_MEDIA_RETRIES) s) = fst (EnvRest E (root_history k (History s))) \<and>
     {i. i < k \<and> fst (EnvRest E (root_history i (History s))) \<noteq> EFI_NO_MEDIA} = {} \<and>
     (k = 7 \<or> fst (EnvRest E (root_history k (History s))) \<noteq> EFI_NO_MEDIA)"
proof -
  obtain st s' where r: "run_state (ServiceRootLoop E RPI_REDFISH_MEDIA_RETRIES) s = (st, s')" by (rule prod.exhaust)
  from service_root_loop [OF _ r] obtain k where k: "k < 8" "History s' = root_history k (History s)"
    "st = fst (EnvRest E (root_history k (History s)))"
    "\<forall>i<k. fst (EnvRest E (root_history i (History s))) = EFI_NO_MEDIA" "st = EFI_NO_MEDIA \<longrightarrow> Suc k = 8"
    by (auto simp: RPI_REDFISH_MEDIA_RETRIES_def)
  have "{i. i < k \<and> fst (EnvRest E (root_history i (History s))) \<noteq> EFI_NO_MEDIA} = {}" using k(4) by blast
  with r k show ?thesis by (intro exI [of _ k]) auto
qed

subsection \<open>Which option an override selects\<close>

text \<open>C29: A requested target selects the first option that satisfies it among the options in force when it was last
  looked for, and the boot manager is asked to connect and refresh only when no present option does; an option
  selected for a network boot has a MAC node and no USB node, so the BMC's own USB network interface never is.\<close>

theorem override_selects_first:
  assumes "run_state (FindBootOverrideOption E (Some t)) s = (r, s')" "t \<noteq> ascii ''None''"
  shows "r = (case find (OptionMatchesTarget t) (EnvOptions E (History s')) of None \<Rightarrow> Inl EFI_NOT_FOUND | Some o' \<Rightarrow> Inr o') \<and>
    hd (History s') = GetLoadOptions \<and>
    (find (OptionMatchesTarget t) (EnvOptions E (GetLoadOptions # History s)) \<noteq> None \<longrightarrow> History s' = GetLoadOptions # History s) \<and>
    (\<forall>o'. r = Inr o' \<and> t = ascii ''Pxe'' \<longrightarrow> (\<exists>ns. FilePath o' = Some ns \<and>
       (MESSAGING_DEVICE_PATH, MSG_MAC_ADDR_DP) \<in> set ns \<and> (MESSAGING_DEVICE_PATH, MSG_USB_DP) \<notin> set ns))"
proof -
  have find: "MatchLoop t os = find (OptionMatchesTarget t) os" for os by (induction os) auto
  have net: "NetworkNodes ns b \<Longrightarrow> (MESSAGING_DEVICE_PATH, MSG_USB_DP) \<notin> set ns \<and> (b \<or> (MESSAGING_DEVICE_PATH, MSG_MAC_ADDR_DP) \<in> set ns)" for ns b
    by (induction ns b rule: NetworkNodes.induct) (auto split: if_splits simp: MSG_USB_DP_def MSG_MAC_ADDR_DP_def)
  have "runs (FindBootOverrideOption E (Some t)) s (\<lambda>r s'.
      r = (case find (OptionMatchesTarget t) (EnvOptions E (History s')) of None \<Rightarrow> Inl EFI_NOT_FOUND | Some o' \<Rightarrow> Inr o') \<and>
      hd (History s') = GetLoadOptions \<and>
      (find (OptionMatchesTarget t) (EnvOptions E (GetLoadOptions # History s)) \<noteq> None \<longrightarrow> History s' = GetLoadOptions # History s))"
    unfolding FindBootOverrideOption_def find
    using assms(2) by (simp only: option.case if_False, intro runs_bind runs_call runs_if runs_option runs_return runs_quiet [OF calm_connect])
      (simp_all add: find)
  from runsD [OF this assms(1)]
  have r: "r = (case find (OptionMatchesTarget t) (EnvOptions E (History s')) of None \<Rightarrow> Inl EFI_NOT_FOUND | Some o' \<Rightarrow> Inr o')"
    "hd (History s') = GetLoadOptions"
    "find (OptionMatchesTarget t) (EnvOptions E (GetLoadOptions # History s)) \<noteq> None \<longrightarrow> History s' = GetLoadOptions # History s" by blast+
  moreover have "\<exists>ns. FilePath o' = Some ns \<and> (MESSAGING_DEVICE_PATH, MSG_MAC_ADDR_DP) \<in> set ns \<and> (MESSAGING_DEVICE_PATH, MSG_USB_DP) \<notin> set ns"
    if "r = Inr o'" "t = ascii ''Pxe''" for o'
  proof -
    from that r(1) have "OptionMatchesTarget t o'" by (auto simp: find_Some_iff split: option.splits)
    moreover have "ascii ''Pxe'' \<noteq> ascii ''BiosSetup''" by code_simp
    ultimately have "OptionIsNetworkBoot o'" using that(2) by (simp add: OptionMatchesTarget_def)
    then show ?thesis using net by (auto simp: OptionIsNetworkBoot_def split: option.splits)
  qed
  ultimately show ?thesis by blast
qed

subsection \<open>The continuous override over several boots\<close>

text \<open>
  What the variable store keeps: a variable is there when the last attempt to set it that succeeded gave it data. The
  store answers a query of no size with \<^verbatim>\<open>EFI_BUFFER_TOO_SMALL\<close> exactly when the variable is there. The BMC keeps
  asking when every answer to a request for the system names the target with a continuous override.
\<close>

fun mark_present :: "sync_env \<Rightarrow> history \<Rightarrow> bool" where
  "mark_present E [] = False"
| "mark_present E (SetVariable ContinuousMarkVar a d # h) =
     (if EnvStatus E (SetVariable ContinuousMarkVar a d # h) = EFI_SUCCESS then d \<noteq> None else mark_present E h)"
| "mark_present E (e # h) = mark_present E h"

definition store_law :: "sync_env \<Rightarrow> bool" where
  "store_law E = (\<forall>h. EnvStatus E (QueryVariable ContinuousMarkVar # h) = EFI_BUFFER_TOO_SMALL \<longleftrightarrow> mark_present E h)"

definition asks_continuous :: "sync_env \<Rightarrow> bool" where
  "asks_continuous E = (\<forall>h. \<exists>t. OverrideRequest E (snd (EnvRest E (RestGet RPI_REDFISH_SYSTEM_URI # h))) = Some (t, Some (ascii ''Continuous'')))"

lemma mark_quiet: "list_all calm_event es \<Longrightarrow> mark_present E (es @ h) = mark_present E h"
proof (induction es)
  case (Cons e es)
  then show ?case by (cases e) auto
qed simp

lemma mark_extends: "extends s t \<Longrightarrow> mark_present E (History t) = mark_present E (History s)"
  by (auto simp: extends_def mark_quiet)

lemma once_not_continuous: "ascii ''Once'' \<noteq> ascii ''Continuous''"
  by code_simp

lemma runs_apply_mark:
  "mark_present E (History s) \<Longrightarrow> runs (ApplyMatchedOption E o') s (\<lambda>r s'. mark_present E (History s'))"
  unfolding ApplyMatchedOption_def Let_def by (intro runs_bind runs_call runs_if runs_return) simp_all

lemma runs_continuous_mark:
  "runs (ApplyContinuous E o') s (\<lambda>r s'. r = None \<longrightarrow> mark_present E (History s'))"
  unfolding ApplyContinuous_def Let_def
  apply (intro runs_bind runs_call runs_if runs_return)
   apply simp
  apply (rule runs_mono [OF runs_apply_mark])
   apply (simp_all add: EFI_ERROR_def runs_return)
  done

fun harmless :: "sync_event \<Rightarrow> bool" where
  "harmless (SetVariable BootNextVar a d) = False"
| "harmless ResetCold = False"
| "harmless _ = True"

lemma calm_harmless: "list_all calm_event es \<Longrightarrow> list_all harmless es"
proof (induction es)
  case (Cons e es)
  then show ?case by (cases e) auto
qed simp

definition harmless_post :: "sync_state \<Rightarrow> 'a \<Rightarrow> 'a \<Rightarrow> sync_state \<Rightarrow> bool" where
  "harmless_post s v r s' = (r = v \<and> (\<exists>es. History s' = es @ History s \<and> list_all harmless es))"

lemma continuous_present:
  assumes law: "store_law E" and req: "OverrideRequest E Payload = Some (t, Some (ascii ''Continuous''))"
    and m: "mark_present E (History s)"
  shows "runs (HandleBootOverride E Payload) s (harmless_post s (Some ()))"
proof -
  have q: "EnvStatus E (QueryVariable ContinuousMarkVar # History s) = EFI_BUFFER_TOO_SMALL"
    using law m by (simp add: store_law_def)
  have "runs (StandAside E) s (harmless_post s True)"
    unfolding StandAside_def
    by (intro runs_bind runs_call runs_if runs_return) (simp_all add: q harmless_post_def)
  then show ?thesis
    unfolding HandleBootOverride_def req option.case prod.case Let_def
    apply (intro runs_bind runs_gets runs_if runs_return)
      apply (simp add: harmless_post_def)
     apply (simp add: harmless_post_def)
    apply (erule runs_mono)
     apply (auto simp: harmless_post_def runs_return once_not_continuous)
    done
qed

lemma continuous_marks:
  assumes "OverrideRequest E Payload = Some (t, Some (ascii ''Continuous''))"
  shows "runs (HandleBootOverride E Payload) s (\<lambda>r s'. r = None \<longrightarrow> mark_present E (History s'))"
  unfolding HandleBootOverride_def assms option.case prod.case Let_def
  apply (intro runs_bind runs_gets)
  apply (simp add: runs_return)
  apply (intro conjI impI runs_bind runs_mono [OF runs_StandAside] runs_if runs_return)
  apply (auto simp: ApplyOverride_def intro!: runs_bind runs_mono [OF runs_quiet [OF calm_find]] runs_sum runs_return runs_continuous_mark)
  done

lemma runs_sync_request:
  assumes "asks_continuous E"
    and "\<And>t. extends s t \<Longrightarrow> Q (Some ()) t"
    and "\<And>t Payload tgt. extends s t \<Longrightarrow> OverrideRequest E Payload = Some (tgt, Some (ascii ''Continuous'')) \<Longrightarrow>
      runs (HandleBootOverride E Payload) t Q"
  shows "runs (RpiRedfishSync E) s Q"
  unfolding sync_Reports
proof (intro runs_bind runs_mono [OF runs_Reports] runs_option)
  fix r t
  assume r: "extends s t \<and> (\<forall>Response. r = Some Response \<longrightarrow>
      (\<exists>h. History t = RestGet RPI_REDFISH_SYSTEM_URI # h \<and> EnvRest E (History t) = Response))"
  then show "r = None \<Longrightarrow> runs (State_Monad.return (Some ())) t Q" by (simp add: runs_return assms(2))
  fix Response
  assume "r = Some Response"
  with r obtain h where "History t = RestGet RPI_REDFISH_SYSTEM_URI # h" "EnvRest E (History t) = Response" by blast
  with assms(1) obtain tgt where "OverrideRequest E (snd Response) = Some (tgt, Some (ascii ''Continuous''))"
    unfolding asks_continuous_def by metis
  with r show "runs (HandleBootOverride E (snd Response)) t Q" by (intro assms(3)) auto
qed

lemma sync_marks:
  assumes "asks_continuous E"
  shows "runs (RpiRedfishSync E) s (\<lambda>r s'. r = None \<longrightarrow> mark_present E (History s'))"
  by (rule runs_sync_request [OF assms]) (auto intro: continuous_marks)

lemma sync_stands_aside:
  assumes "asks_continuous E" "store_law E" "mark_present E (History s)"
  shows "runs (RpiRedfishSync E) s (harmless_post s (Some ()))"
proof (rule runs_sync_request [OF assms(1)])
  show "harmless_post s (Some ()) (Some ()) t" if "extends s t" for t
    using that calm_harmless by (auto simp: harmless_post_def extends_def)
  show "runs (HandleBootOverride E P) t (harmless_post s (Some ()))"
    if x: "extends s t" and req: "OverrideRequest E P = Some (tgt, Some (ascii ''Continuous''))" for t P tgt
  proof (rule runs_mono [OF continuous_present [OF assms(2) req]])
    show "mark_present E (History t)" using assms(3) mark_extends [OF x] by simp
    show "harmless_post t (Some ()) r u \<Longrightarrow> harmless_post s (Some ()) r u" for r u
      using x calm_harmless by (fastforce simp: harmless_post_def extends_def)
  qed
qed

text \<open>C16: While the BMC keeps asking for a continuous override, a boot whose exchange staged the target and reset is
  followed by one whose exchange returns without staging or resetting, so the target that was staged is launched.\<close>

theorem continuous_override_alternates:
  assumes "store_law E" "asks_continuous E"
    and first: "run_state (RpiRedfishConfigHandlerInit E (Some True)) (sync_boot h) = (None, s1)"
    and between: "list_all calm_event es"
    and second: "run_state (RpiRedfishConfigHandlerInit E (Some True)) (sync_boot (es @ History s1)) = (r, s2)"
  shows "r = Some EFI_SUCCESS \<and> mSettled s2 \<and> (\<exists>es'. History s2 = es' @ es @ History s1 \<and> list_all harmless es')"
proof -
  have "runs (RpiRedfishConfigHandlerInit E (Some True)) (sync_boot h) (\<lambda>r s'. r = None \<longrightarrow> mark_present E (History s'))"
    unfolding RpiRedfishConfigHandlerInit_def
    by (simp only: option.case sync_boot_def, intro runs_bind runs_gets runs_if runs_modify runs_option runs_return
        runs_mono [OF sync_marks [OF assms(2)]] runs_mono [OF runs_SignalSyncSettled]) simp_all
  from runsD [OF this first] have m: "mark_present E (History s1)" by simp
  have "runs (RpiRedfishConfigHandlerInit E (Some True)) (sync_boot (es @ History s1)) (\<lambda>r s'.
      r = Some EFI_SUCCESS \<and> mSettled s' \<and> (\<exists>es'. History s' = es' @ es @ History s1 \<and> list_all harmless es'))"
    unfolding RpiRedfishConfigHandlerInit_def
    using m mark_quiet [OF between] calm_harmless
    by (simp only: option.case sync_boot_def, intro runs_bind runs_gets runs_if runs_modify runs_option runs_return
        runs_mono [OF sync_stands_aside [OF assms(2,1)]] runs_mono [OF runs_SignalSyncSettled]) (auto simp: harmless_post_def)
  from runsD [OF this second] show ?thesis .
qed

subsection \<open>The temperature that is reported\<close>

lemma div_mod_abs: "\<bar>T sdiv 1000\<bar> = \<bar>T\<bar> div 1000" "\<bar>T smod 1000\<bar> = \<bar>T\<bar> mod (1000 :: int)"
  by (simp_all add: signed_divide_int_def signed_modulo_int_def sgn_if)

lemma div_sign: "T sdiv 1000 < 0 \<longleftrightarrow> T < 0 \<and> T sdiv (1000 :: int) \<noteq> 0"
  by (auto simp: signed_divide_int_def sgn_if)

definition dec3 :: "nat \<Rightarrow> u8 list" where
  "dec3 n = map (\<lambda>d. 48 + word_of_nat d) [n div 100 mod 10, n div 10 mod 10, n mod 10]"

lemma fmt_03d_dec3: "n < 1000 \<Longrightarrow> fmt_03d n = dec3 n"
proof -
  assume n: "n < 1000"
  consider "n < 10" | "10 \<le> n" "n < 100" | "100 \<le> n" by linarith
  then show ?thesis
  proof cases
    case 1
    then have "fmt_dec n = [48 + word_of_nat n]" by (subst fmt_dec.simps) simp
    with 1 show ?thesis by (simp add: fmt_03d_def dec3_def numeral_2_eq_2)
  next
    case 2
    then have "n div 10 < 10" by linarith
    then have "fmt_dec (n div 10) = [48 + word_of_nat (n div 10)]" by (subst fmt_dec.simps) simp
    moreover from 2 have "fmt_dec n = fmt_dec (n div 10) @ [48 + word_of_nat (n mod 10)]" by (subst fmt_dec.simps) simp
    ultimately show ?thesis using 2 by (simp add: fmt_03d_def dec3_def)
  next
    case 3
    then have d: "n div 10 div 10 = n div 100" by (simp add: div_mult2_eq [symmetric])
    with 3 n have "fmt_dec (n div 10 div 10) = [48 + word_of_nat (n div 100)]" by (subst fmt_dec.simps) auto
    moreover from 3 have "fmt_dec (n div 10) = fmt_dec (n div 10 div 10) @ [48 + word_of_nat (n div 10 mod 10)]"
      by (subst fmt_dec.simps) auto
    moreover from 3 have "fmt_dec n = fmt_dec (n div 10) @ [48 + word_of_nat (n mod 10)]" by (subst fmt_dec.simps) simp
    ultimately show ?thesis using 3 n by (simp add: fmt_03d_def dec3_def)
  qed
qed

lemma thermal_reading:
  "ThermalReading T = (if T < 0 then [45] else []) @ fmt_dec (nat (\<bar>T\<bar> div 1000)) @ [46] @ dec3 (nat (\<bar>T\<bar> mod 1000))"
proof -
  have m: "(if T smod 1000 < 0 then - (T smod 1000) else T smod 1000) = \<bar>T\<bar> mod 1000"
    unfolding div_mod_abs(2) [of T, symmetric] by (simp add: abs_if)
  have k: "fmt_03d (nat (\<bar>T\<bar> mod 1000)) = dec3 (nat (\<bar>T\<bar> mod 1000))" by (rule fmt_03d_dec3) (simp add: nat_less_iff)
  have w: "(if T < 0 \<and> T sdiv 1000 = 0 then [45] else []) @ fmt_int (T sdiv 1000) = (if T < 0 then [45] else []) @ fmt_dec (nat (\<bar>T\<bar> div 1000))"
  proof (cases "T < 0 \<and> T sdiv 1000 \<noteq> 0")
    case True
    then have "T sdiv 1000 < 0" using div_sign by blast
    then have "- (T sdiv 1000) = \<bar>T\<bar> div 1000" using div_mod_abs(1) [of T] by linarith
    with True \<open>T sdiv 1000 < 0\<close> show ?thesis by (simp add: fmt_int_def)
  next
    case False
    then have "T sdiv 1000 \<ge> 0" using div_sign [of T] by linarith
    then have "T sdiv 1000 = \<bar>T\<bar> div 1000" using div_mod_abs(1) [of T] by linarith
    with False \<open>T sdiv 1000 \<ge> 0\<close> show ?thesis by (auto simp: fmt_int_def)
  qed
  from w show ?thesis unfolding ThermalReading_def Let_def m k by (metis append.assoc)
qed

text \<open>For every temperature the sensor can deliver, the field that reports it is complete: it holds the sign, the
  whole degrees and the thousandths as three digits.\<close>

theorem thermal_field_exact:
  assumes "TemperatureValid Info" "-112650 \<le> TemperatureMilliCelsius Info" "TemperatureMilliCelsius Info \<le> 450000"
  shows "TempField Info = ascii ''\"Temperatures\":[{\"MemberId\":\"SoC\",\"ReadingCelsius\":'' @
    (if TemperatureMilliCelsius Info < 0 then [45] else []) @ fmt_dec (nat (\<bar>TemperatureMilliCelsius Info\<bar> div 1000)) @ [46] @
    dec3 (nat (\<bar>TemperatureMilliCelsius Info\<bar> mod 1000)) @ ascii ''}],''"
proof -
  let ?T = "TemperatureMilliCelsius Info"
  let ?r = "(if ?T < 0 then [45] else []) @ fmt_dec (nat (\<bar>?T\<bar> div 1000)) @ [46] @ dec3 (nat (\<bar>?T\<bar> mod 1000))"
  have "nat (\<bar>?T\<bar> div 1000) < 1000" using assms by (simp add: nat_less_iff)
  then have "length (fmt_dec (nat (\<bar>?T\<bar> div 1000))) \<le> 3" using length_fmt_dec [of "nat (\<bar>?T\<bar> div 1000)" 2] by simp
  then have "length ?r \<le> 8" by (cases "?T < 0") (simp_all add: dec3_def)
  moreover have "length (ascii ''\"Temperatures\":[{\"MemberId\":\"SoC\",\"ReadingCelsius\":'') = 51" "length (ascii ''}],'') = 3"
    by (simp_all add: ascii_def)
  ultimately have "AsciiSPrint 64 (ascii ''\"Temperatures\":[{\"MemberId\":\"SoC\",\"ReadingCelsius\":'' @ ?r @ ascii ''}],'') =
      ascii ''\"Temperatures\":[{\"MemberId\":\"SoC\",\"ReadingCelsius\":'' @ ?r @ ascii ''}],''"
    by (intro cut_none) (simp only: length_append)
  with assms(1) show ?thesis unfolding TempField_def thermal_reading by (simp only: if_True append.assoc)
qed

theorem thermal_field_exact_witness:
  "TempField \<lparr>TemperatureMilliCelsius = -500, TemperatureValid = True, InfoLevel = 0, MaxLevel = 4, InfoDuty255 = 0, OverrideActive = False\<rparr> =
     ascii ''\"Temperatures\":[{\"MemberId\":\"SoC\",\"ReadingCelsius\":-0.500}],''"
proof -
  have "fmt_dec 0 = [48]" by (subst fmt_dec.simps) simp
  with thermal_field_exact [of "\<lparr>TemperatureMilliCelsius = -500, TemperatureValid = True, InfoLevel = 0, MaxLevel = 4, InfoDuty255 = 0, OverrideActive = False\<rparr>"]
  show ?thesis by (simp add: dec3_def ascii_def)
qed

subsection \<open>A board, a BMC and a variable store\<close>

fun demo_mark :: "history \<Rightarrow> bool" where
  "demo_mark [] = False"
| "demo_mark (SetVariable ContinuousMarkVar a d # h) = (d \<noteq> None)"
| "demo_mark (e # h) = demo_mark h"

fun demo_status :: "history \<Rightarrow> efi_status" where
  "demo_status (QueryVariable v # h) = (if demo_mark h then EFI_BUFFER_TOO_SMALL else EFI_NOT_FOUND)"
| "demo_status (LocateFan # h) = EFI_NOT_FOUND"
| "demo_status _ = EFI_SUCCESS"

fun demo_rest :: "string \<Rightarrow> history \<Rightarrow> efi_status \<times> payload" where
  "demo_rest Enabled (RestGet u # h) =
     (if u = RPI_REDFISH_SYSTEM_URI
      then (EFI_SUCCESS, Some (Some (JObj [(ascii ''Boot'', JObj
        [(ascii ''BootSourceOverrideTarget'', JStr (ascii ''Hdd'')), (ascii ''BootSourceOverrideEnabled'', JStr (ascii Enabled))])])))
      else (EFI_SUCCESS, None))"
| "demo_rest Enabled _ = (EFI_SUCCESS, None)"

definition demo_env :: "string \<Rightarrow> sync_env" where
  "demo_env Enabled = \<lparr>EnvCreated = (\<lambda>h. True), EnvRest = demo_rest Enabled, EnvStatus = demo_status,
     EnvOptions = (\<lambda>h. [\<lparr>OptionNumber = 1, OptAttributes = 1, FilePath = Some [(3, 23), (4, 1)]\<rparr>]),
     EnvFanInfo = (\<lambda>h. (EFI_NOT_FOUND, \<lparr>TemperatureMilliCelsius = 0, TemperatureValid = False, InfoLevel = 0, MaxLevel = 0,
       InfoDuty255 = 0, OverrideActive = False\<rparr>)),
     EnvReadyToBoot = (\<lambda>h. False), EnvAlloc = (\<lambda>h. False), EnvSmbios = (\<lambda>h. None), EnvDisks = (\<lambda>h. None), EnvFmp = (\<lambda>h. None),
     JsonValueIsObject = (\<lambda>j. case j of JObj ms \<Rightarrow> True | _ \<Rightarrow> False),
     JsonObjectGetValue = (\<lambda>j k. case j of JObj ms \<Rightarrow> map_of ms (ascii k) | _ \<Rightarrow> None),
     JsonValueGetAsciiString = (\<lambda>j. case j of JStr s \<Rightarrow> Some s | _ \<Rightarrow> None),
     JsonValueInteger = (\<lambda>j. case j of JInt i \<Rightarrow> Some i | _ \<Rightarrow> None)\<rparr>"

lemma demo_present: "mark_present (demo_env m) h = demo_mark h"
  by (induction h rule: demo_mark.induct) (simp_all add: demo_env_def)

lemma demo_store: "store_law (demo_env m)"
  using demo_present [of m] by (simp add: store_law_def) (simp add: demo_env_def)

definition demo_run :: "string \<Rightarrow> history \<Rightarrow> efi_status option \<times> sync_state" where
  "demo_run m h = run_state (RpiRedfishConfigHandlerInit (demo_env m) (Some True)) (sync_boot h)"

lemma demo_runs:
  "fst (demo_run ''Once'' []) = None" "hd (tl (History (snd (demo_run ''Once'' [])))) = SetVariable BootNextVar 7 (Some 1)"
  "fst (demo_run ''Continuous'' []) = None"
  by code_simp+

lemma demo_asks: "asks_continuous (demo_env ''Continuous'')"
proof -
  have "OverrideRequest (demo_env ''Continuous'') (snd (demo_rest ''Continuous'' [RestGet RPI_REDFISH_SYSTEM_URI])) =
      Some (Some (ascii ''Hdd''), Some (ascii ''Continuous''))" by code_simp
  then show ?thesis by (simp add: asks_continuous_def) (simp add: demo_env_def)
qed


theorem override_applied_safely_witness:
  "disciplined (demo_env ''Once'') (History (snd (demo_run ''Once'' []))) \<and>
   hd (tl (History (snd (demo_run ''Once'' [])))) = SetVariable BootNextVar 7 (Some 1)"
  using override_applied_safely [of "demo_env ''Once''" "sync_boot []" "Some True"] demo_runs(2)
  by (simp add: demo_run_def sync_boot_def)

theorem sync_runs_once_witness:
  "run_state (RpiRedfishConfigHandlerInit (demo_env ''Once'') (Some True)) (snd (demo_run ''Once'' [])) =
     (Some EFI_SUCCESS, snd (demo_run ''Once'' []))"
proof -
  have n: "\<not> mSyncDone (sync_boot [])" by (simp add: sync_boot_def)
  have "run_state (RpiRedfishConfigHandlerInit (demo_env ''Once'') (Some True)) (sync_boot []) =
      (fst (demo_run ''Once'' []), snd (demo_run ''Once'' []))" by (simp add: demo_run_def)
  from sync_runs_once [OF n this] show ?thesis by blast
qed

theorem override_selects_first_witness:
  "fst (run_state (FindBootOverrideOption (demo_env ''Once'') (Some (ascii ''Hdd''))) (sync_boot [])) =
     Inr \<lparr>OptionNumber = 1, OptAttributes = 1, FilePath = Some [(3, 23), (4, 1)]\<rparr>"
proof -
  obtain r s' where run: "run_state (FindBootOverrideOption (demo_env ''Once'') (Some (ascii ''Hdd''))) (sync_boot []) = (r, s')"
    by (rule prod.exhaust)
  have "ascii ''Hdd'' \<noteq> ascii ''None''" by code_simp
  moreover have "OptionMatchesTarget (ascii ''Hdd'') \<lparr>OptionNumber = 1, OptAttributes = 1, FilePath = Some [(3, 23), (4, 1)]\<rparr>" by code_simp
  ultimately show ?thesis using override_selects_first [OF run] run by (simp add: demo_env_def)
qed

theorem continuous_override_alternates_witness:
  "fst (demo_run ''Continuous'' []) = None \<and>
   fst (demo_run ''Continuous'' (History (snd (demo_run ''Continuous'' [])))) = Some EFI_SUCCESS"
proof -
  have "run_state (RpiRedfishConfigHandlerInit (demo_env ''Continuous'') (Some True)) (sync_boot []) =
      (None, snd (demo_run ''Continuous'' []))" using demo_runs(3) by (simp add: demo_run_def prod_eq_iff)
  from continuous_override_alternates [OF demo_store demo_asks this, of "[]"] demo_runs(3)
  show ?thesis by (simp add: demo_run_def prod_eq_iff)
qed

theorem service_root_bounded_witness:
  "fst (run_state (ServiceRootLoop (demo_env ''Once'') RPI_REDFISH_MEDIA_RETRIES) (sync_boot [])) = EFI_SUCCESS"
proof -
  have d: "RPI_REDFISH_SERVICE_ROOT_URI \<noteq> RPI_REDFISH_SYSTEM_URI" by code_simp
  have r: "fst (EnvRest (demo_env ''Once'') (root_history k [])) = EFI_SUCCESS" for k
    using d by (cases k) (simp_all add: demo_env_def)
  obtain k where "fst (run_state (ServiceRootLoop (demo_env ''Once'') RPI_REDFISH_MEDIA_RETRIES) (sync_boot [])) =
      fst (EnvRest (demo_env ''Once'') (root_history k (History (sync_boot []))))"
    using service_root_bounded [of "demo_env ''Once''" "sync_boot []"] by blast
  then show ?thesis using r by (simp add: sync_boot_def)
qed

end
