(* ===== verification/Config_Table.thy ===== *)
theory Config_Table
  imports Rpi5_Programs Boot_Services
begin

unbundle bit_operations_syntax

section \<open>The configuration tables handed to the OS (ConfigTable.c)\<close>

text \<open>
  The ACPI tables and the part of system memory that is reserved for the 32-bit PCI window. A table is the memory from
  its first byte on (\<^verbatim>\<open>buf\<close>). What the firmware answers (protocols found, variables read, bridges present) is an
  argument; the library routine that renews a table's checksum is the parameter \<open>Renew\<close>. Calls that change the DSDT
  through the ACPI protocol, set variables or add memory are returned as lists, in the order the code makes them.
\<close>

subsection \<open>Constants\<close>

definition PCI_RESERVED_MEM32_BASE :: u64 where "PCI_RESERVED_MEM32_BASE = 0xC0000000"
definition PCI_RESERVED_MEM32_SIZE :: u64 where "PCI_RESERVED_MEM32_SIZE = 0x40000000"
definition ACPI_SD_COMPAT_MODE_DEFAULT :: u8 where "ACPI_SD_COMPAT_MODE_DEFAULT = 0"
definition ACPI_SD_LIMIT_UHS_DEFAULT :: u8 where "ACPI_SD_LIMIT_UHS_DEFAULT = 1"
definition ACPI_PCIE_ECAM_COMPAT_MODE_DEN0115 :: u32 where "ACPI_PCIE_ECAM_COMPAT_MODE_DEN0115 = 1"
definition ACPI_PCIE_ECAM_COMPAT_MODE_NXPMX6 :: u32 where "ACPI_PCIE_ECAM_COMPAT_MODE_NXPMX6 = 2"
definition ACPI_PCIE_ECAM_COMPAT_MODE_GRAVITON :: u32 where "ACPI_PCIE_ECAM_COMPAT_MODE_GRAVITON = 4"
definition ACPI_PCIE_ECAM_COMPAT_MODE_NXPMX6_DEN0115 :: u32 where "ACPI_PCIE_ECAM_COMPAT_MODE_NXPMX6_DEN0115 = 3"
definition ACPI_PCIE_ECAM_COMPAT_MODE_NXPMX6_GRAVITON :: u32 where "ACPI_PCIE_ECAM_COMPAT_MODE_NXPMX6_GRAVITON = 6"
definition ACPI_PCIE_ECAM_COMPAT_MODE_DEFAULT :: u32 where
  "ACPI_PCIE_ECAM_COMPAT_MODE_DEFAULT = ACPI_PCIE_ECAM_COMPAT_MODE_NXPMX6_DEN0115"
definition ACPI_PCIE_32_BIT_BAR_SPACE_SIZE_MB_DEFAULT :: u32 where "ACPI_PCIE_32_BIT_BAR_SPACE_SIZE_MB_DEFAULT = 0"
definition SDT_PATTERN_LEN :: nat where "SDT_PATTERN_LEN = 5"
definition AML_NAME_OP :: u8 where "AML_NAME_OP = 0x08"
definition PCI_MAX_BUS :: u8 where "PCI_MAX_BUS = 255"
definition PDB_NAME_MAX_LENGTH :: nat where "PDB_NAME_MAX_LENGTH = 256"

datatype os_type = AcpiOsUnknown | AcpiOsWindows

subsection \<open>Patching a named integer in a table\<close>

text \<open>How far behind the pattern the value starts, and its length, by the byte that follows the pattern.\<close>

definition SdtValue :: "u8 \<Rightarrow> (nat \<times> nat) option" where
  "SdtValue Prefix =
     (if Prefix = 0x0E then Some (SDT_PATTERN_LEN + 1, 8)
      else if Prefix = 0x0C then Some (SDT_PATTERN_LEN + 1, 4)
      else if Prefix = 0x0B then Some (SDT_PATTERN_LEN + 1, 2)
      else if Prefix = 0x01 \<or> Prefix = 0x00 then Some (SDT_PATTERN_LEN, 1)
      else if Prefix = 0x0A then Some (SDT_PATTERN_LEN + 1, 1)
      else None)"

definition u64_bytes :: "u64 \<Rightarrow> u8 list" where
  "u64_bytes v = map (\<lambda>k. ucast (drop_bit (8 * k) v)) [0..<8]"

fun SdtLoop :: "u8 list \<Rightarrow> u64 \<Rightarrow> nat list \<Rightarrow> buf \<Rightarrow> efi_status \<times> buf" where
  "SdtLoop Pattern Val [] Sdt = (EFI_NOT_FOUND, Sdt)"
| "SdtLoop Pattern Val (i # is) Sdt =
     (if bytes_at Sdt i SDT_PATTERN_LEN = Pattern
      then (case SdtValue (Sdt (i + SDT_PATTERN_LEN)) of
              None \<Rightarrow> (EFI_UNSUPPORTED, Sdt)
            | Some (ValueOffset, DataSize) \<Rightarrow>
                (EFI_SUCCESS, CopyMem Sdt (i + ValueOffset) (take DataSize (u64_bytes Val))))
      else SdtLoop Pattern Val is Sdt)"

definition AcpiUpdateSdtNameInteger :: "buf \<Rightarrow> u8 list \<Rightarrow> u64 \<Rightarrow> efi_status \<times> buf" where
  "AcpiUpdateSdtNameInteger AcpiTable Nam Val =
     (let Len = unat (Le32 AcpiTable 4) in
      if Len \<le> SDT_PATTERN_LEN then (EFI_INVALID_PARAMETER, AcpiTable)
      else SdtLoop (AML_NAME_OP # Nam) Val [0..<Len - SDT_PATTERN_LEN] AcpiTable)"

subsection \<open>Fixing the DSDT\<close>

text \<open>A path from the root of the namespace; the integers that the fix-ups ask the ACPI protocol to write.\<close>

definition root_path :: "string \<Rightarrow> string" where
  "root_path p = CHR 0x5C # p"

definition DsdtFixupStatus :: "bool \<Rightarrow> (string \<times> u64) list" where
  "DsdtFixupStatus Pcie1Enabled =
     map (\<lambda>d. (fst d, 0)) (filter (\<lambda>d. \<not> snd d)
       [(root_path ''_SB.PCI0._STA'', False), (root_path ''_SB.PCI1._STA'', Pcie1Enabled), (root_path ''_SB.PCI2._STA'', False)])"

definition DsdtFixupSd :: "u8 \<Rightarrow> u8 \<Rightarrow> (string \<times> u64) list" where
  "DsdtFixupSd CompatMode LimitUhs = [(root_path ''_SB.SDCM'', ucast CompatMode), (root_path ''_SB.SDLU'', ucast LimitUhs)]"

text \<open>The RP1 instances found: whether the protocol of each could be opened, and its peripheral base.\<close>

definition DsdtFixupRp1 :: "(bool \<times> u64) list option \<Rightarrow> (string \<times> u64) list" where
  "DsdtFixupRp1 Handles =
     (case Handles of
        None \<Rightarrow> []
      | Some [] \<Rightarrow> []
      | Some ((Opened, Base) # hs) \<Rightarrow> if Opened then [(root_path ''_SB.RP1B.PBAR'', Base)] else [])"

definition DsdtFixupPcie :: "u64 \<Rightarrow> u64 \<Rightarrow> (string \<times> u64) list" where
  "DsdtFixupPcie Base Sz = [(root_path ''_SB.BB32'', Base), (root_path ''_SB.MS32'', Sz)]"

subsection \<open>The configuration space that the OS is told about\<close>

definition EffectiveEcamMode :: "u32 \<Rightarrow> os_type \<Rightarrow> u32" where
  "EffectiveEcamMode Mode OsType =
     (if Mode = ACPI_PCIE_ECAM_COMPAT_MODE_NXPMX6_DEN0115 \<or> Mode = ACPI_PCIE_ECAM_COMPAT_MODE_NXPMX6_GRAVITON
      then (if OsType = AcpiOsWindows then ACPI_PCIE_ECAM_COMPAT_MODE_NXPMX6
            else Mode AND NOT ACPI_PCIE_ECAM_COMPAT_MODE_NXPMX6)
      else Mode)"

record acpi_tables =
  Mcfg :: buf
  Fadt :: buf
  Dsdt :: buf

text \<open>
  The MCFG: signature at 0, length at 4, OEM identifier at 10, OEM table identifier at 16, OEM revision at 24, entries
  of 16 bytes from 44 on, each with its base address first.
\<close>

definition McfgPoint :: "nat \<Rightarrow> buf \<Rightarrow> buf" where
  "McfgPoint i t = CopyMem t (44 + 16 * i) (u64_bytes (0x10000000000 + of_nat i * 0x100000))"

definition McfgGraviton :: "nat \<Rightarrow> buf \<Rightarrow> buf" where
  "McfgGraviton Entries t =
     (let t = CopyMem t 10 (ascii ''AMAZON'');
          t = CopyMem t 16 (ascii ''GRAVITON'');
          t = CopyMem t 24 [0, 0, 0, 0] in
      fold McfgPoint [0..<Entries] t)"

definition AcpiFixupPcieEcam ::
  "(buf \<Rightarrow> nat \<Rightarrow> buf) \<Rightarrow> efi_status \<Rightarrow> efi_status \<Rightarrow> nat \<Rightarrow> u32 \<Rightarrow> os_type \<Rightarrow> acpi_tables \<Rightarrow> efi_status \<times> acpi_tables" where
  "AcpiFixupPcieEcam Renew LocateMcfg LocateFadt Entries Mode OsType T =
     (if EFI_ERROR LocateMcfg then (LocateMcfg, T)
      else
       (let Mode = EffectiveEcamMode Mode OsType;
            Finish = (\<lambda>T PcieBusMax.
              let T = T\<lparr>Mcfg := Renew (Mcfg T) (unat (Le32 (Mcfg T) 4))\<rparr> in
              (EFI_SUCCESS, T\<lparr>Dsdt := snd (AcpiUpdateSdtNameInteger (Dsdt T) (ascii ''PBMA'') (ucast PcieBusMax))\<rparr>)) in
        if Mode = ACPI_PCIE_ECAM_COMPAT_MODE_NXPMX6 then
          (if EFI_ERROR LocateFadt then (LocateFadt, T)
           else
            (let F = CopyMem (Fadt T) 10 (ascii ''NXPMX6'') in
             Finish (T\<lparr>Fadt := Renew F (unat (Le32 F 4))\<rparr>) (0 :: u8)))
        else if Mode = ACPI_PCIE_ECAM_COMPAT_MODE_GRAVITON then
          Finish (T\<lparr>Mcfg := McfgGraviton Entries (Mcfg T)\<rparr>) 0
        else Finish (T\<lparr>Mcfg := CopyMem (Mcfg T) 0 [0, 0, 0, 0]\<rparr>) PCI_MAX_BUS))"

text \<open>\<open>Ready\<close>: the ACPI protocol and the DSDT were found when the tables were installed.\<close>

definition AcpiOsBootHandler ::
  "(buf \<Rightarrow> nat \<Rightarrow> buf) \<Rightarrow> bool \<Rightarrow> efi_status \<Rightarrow> efi_status \<Rightarrow> nat \<Rightarrow> u32 \<Rightarrow> os_type \<Rightarrow> acpi_tables \<Rightarrow> acpi_tables" where
  "AcpiOsBootHandler Renew Ready LocateMcfg LocateFadt Entries Mode OsType T =
     (if \<not> Ready then T
      else
       (let T = snd (AcpiFixupPcieEcam Renew LocateMcfg LocateFadt Entries Mode OsType T) in
        T\<lparr>Dsdt := Renew (Dsdt T) (unat (Le32 (Dsdt T) 4))\<rparr>))"

subsection \<open>Which OS is booting\<close>

text \<open>
  The image that the return address lies in: the pages are walked down from the address, \<open>n\<close> is the number of the
  page. \<open>M\<close> is the memory; a page starts an image when it starts with the DOS signature and the PE signature is where
  its header says.
\<close>

definition image_at :: "(u64 \<Rightarrow> u8) \<Rightarrow> u64 \<Rightarrow> bool" where
  "image_at M Base =
     (let rd = (\<lambda>a n. map (\<lambda>k. M (a + of_nat k)) [0..<n]);
          lfanew = Le32 (\<lambda>k. M (Base + 0x3C + of_nat k)) 0 in
      rd Base 2 = ascii ''MZ'' \<and> rd (Base + ucast lfanew) 4 = ascii ''PE'' @ [0, 0])"

primrec FindPePage :: "(u64 \<Rightarrow> u8) \<Rightarrow> nat \<Rightarrow> nat" where
  "FindPePage M 0 = 0"
| "FindPePage M (Suc n) = (if image_at M (word_of_nat (4096 * Suc n)) then Suc n else FindPePage M n)"

definition FindPeImageBase :: "(u64 \<Rightarrow> u8) \<Rightarrow> u64 \<Rightarrow> u64" where
  "FindPeImageBase M Base = word_of_nat (4096 * FindPePage M (unat Base div 4096))"

text \<open>The name of the debug file, up to its terminating zero; \<open>Index\<close> counts the characters before \<open>Pdb\<close>.\<close>

fun WinLoop :: "u8 list \<Rightarrow> nat \<Rightarrow> bool" where
  "WinLoop [] Index = False"
| "WinLoop (c # cs) Index =
     (if Index < PDB_NAME_MAX_LENGTH
      then (if take 7 (c # cs) = ascii ''winload'' then True else WinLoop cs (Suc Index))
      else False)"

definition IsPeImageWinLoader :: "u8 list option \<Rightarrow> bool" where
  "IsPeImageWinLoader PdbStr = (case PdbStr of None \<Rightarrow> False | Some s \<Rightarrow> WinLoop s 0)"

text \<open>
  The service that ends the boot services: the hook, until it has run once. \<open>Pdb\<close> gives the debug name of the image at an
  address.
\<close>

record boot_hook =
  Hooked :: bool
  Tables :: acpi_tables

definition AcpiExitBootServicesHook ::
  "(acpi_tables \<Rightarrow> os_type \<Rightarrow> acpi_tables) \<Rightarrow> (u64 \<Rightarrow> u8) \<Rightarrow> (u64 \<Rightarrow> u8 list option) \<Rightarrow> u64 \<Rightarrow> boot_hook \<Rightarrow> boot_hook" where
  "AcpiExitBootServicesHook Handler M Pdb ReturnAddress B =
     (let B = B\<lparr>Hooked := False\<rparr>;
          OsLoaderAddress = FindPeImageBase M ReturnAddress;
          OsType = (if OsLoaderAddress > 0 \<and> IsPeImageWinLoader (Pdb OsLoaderAddress) then AcpiOsWindows else AcpiOsUnknown) in
      B\<lparr>Tables := Handler (Tables B) OsType\<rparr>)"

text \<open>A call of \<^verbatim>\<open>ExitBootServices\<close> by the loader: through the hook when it is in place, then the firmware's own service.\<close>

definition ExitBootServices ::
  "(acpi_tables \<Rightarrow> os_type \<Rightarrow> acpi_tables) \<Rightarrow> (u64 \<Rightarrow> u8) \<Rightarrow> (u64 \<Rightarrow> u8 list option) \<Rightarrow> u64 \<Rightarrow> boot_hook \<Rightarrow> boot_hook" where
  "ExitBootServices Handler M Pdb ReturnAddress B =
     (if Hooked B then AcpiExitBootServicesHook Handler M Pdb ReturnAddress B else B)"

subsection \<open>The memory reserved for PCI\<close>

text \<open>A PCI handle: the statuses of opening and reading it, whether it is a bridge, and its memory base and limit registers.\<close>

record pci_handle =
  PhOpen :: efi_status
  PhRead :: efi_status
  PhBridge :: bool
  PhMemoryBase :: u16
  PhMemoryLimit :: u16

fun Mem32Loop :: "pci_handle list \<Rightarrow> u32 \<Rightarrow> u32 \<Rightarrow> u32 \<times> u32" where
  "Mem32Loop [] Minimum Maximum = (Minimum, Maximum)"
| "Mem32Loop (h # hs) Minimum Maximum =
     (if EFI_ERROR (PhOpen h) \<or> EFI_ERROR (PhRead h) \<or> \<not> PhBridge h then Mem32Loop hs Minimum Maximum
      else
       (let MemoryBase = push_bit 16 (ucast (PhMemoryBase h));
            Minimum = (if Minimum > MemoryBase then MemoryBase else Minimum);
            MemoryLimit = push_bit 16 (ucast (PhMemoryLimit h));
            Maximum = (if Maximum < MemoryLimit then MemoryLimit else Maximum) in
        Mem32Loop hs Minimum Maximum))"

definition GetPciMem32TotalRange :: "efi_status \<Rightarrow> pci_handle list \<Rightarrow> efi_status + u64 \<times> u64" where
  "GetPciMem32TotalRange Locate Handles =
     (if EFI_ERROR Locate then Inl Locate
      else
       (case Mem32Loop Handles 0xFFFFFFFF 0 of (Minimum, Maximum) \<Rightarrow>
          if Maximum = 0 then Inl EFI_NOT_FOUND
          else Inr (ucast Minimum, ucast ((Maximum + 0x100000) - Minimum))))"

text \<open>What is reported to ACPI and what is added to the memory map.\<close>

record mem32_plan =
  AcpiBase :: u64
  AcpiSize :: u64
  Reclaimed :: "(u64 \<times> u64) option"

definition Reclaim :: "u64 \<Rightarrow> u64 \<Rightarrow> u64 \<Rightarrow> (u64 \<times> u64) option" where
  "Reclaim SystemMemorySize Base Sz = (if SystemMemorySize > PCI_RESERVED_MEM32_BASE \<and> Sz > 0 then Some (Base, Sz) else None)"

definition AdjustPciReservedMemory :: "bool \<Rightarrow> u64 \<Rightarrow> u32 \<Rightarrow> efi_status + u64 \<times> u64 \<Rightarrow> mem32_plan" where
  "AdjustPciReservedMemory IsAcpiEnabled SystemMemorySize BarSpaceMB Window =
     (let Whole = \<lparr>AcpiBase = PCI_RESERVED_MEM32_BASE, AcpiSize = 0,
                 Reclaimed = Reclaim SystemMemorySize PCI_RESERVED_MEM32_BASE PCI_RESERVED_MEM32_SIZE\<rparr> in
      if \<not> IsAcpiEnabled then Whole
      else
       (let (PciMem32Base, PciMem32Size) = (case Window of Inl e \<Rightarrow> (PCI_RESERVED_MEM32_BASE, 0) | Inr r \<Rightarrow> r) in
        if PciMem32Base < PCI_RESERVED_MEM32_BASE \<or> PciMem32Size > PCI_RESERVED_MEM32_SIZE then Whole
        else
         (let PreferredSize = ucast (BarSpaceMB * 1024 * 1024);
              PciMem32Size = (if PreferredSize \<le> PCI_RESERVED_MEM32_SIZE \<and> PciMem32Size < PreferredSize then PreferredSize
                              else PciMem32Size);
              (Base, Sz) = (if PciMem32Size > 0 then (PciMem32Base + PciMem32Size, 0x100000000 - (PciMem32Base + PciMem32Size))
                            else (PCI_RESERVED_MEM32_BASE, PCI_RESERVED_MEM32_SIZE)) in
          \<lparr>AcpiBase = PciMem32Base, AcpiSize = PciMem32Size, Reclaimed = Reclaim SystemMemorySize Base Sz\<rparr>)))"

text \<open>Adding the reclaimed memory: the attributes are set only when it could be added.\<close>

datatype gcd_call = AddMemorySpace u64 u64 | SetMemorySpaceAttributes u64 u64

definition ReclaimCalls :: "efi_status \<Rightarrow> mem32_plan \<Rightarrow> gcd_call list" where
  "ReclaimCalls AddStatus P =
     (case Reclaimed P of
        None \<Rightarrow> []
      | Some (Base, Sz) \<Rightarrow> AddMemorySpace Base Sz # (if EFI_ERROR AddStatus then [] else [SetMemorySpaceAttributes Base Sz]))"

subsection \<open>Installing the tables\<close>

text \<open>A table handle that was never opened is the uninitialised variable: \<open>CloseTable False\<close>.\<close>

datatype acpi_call = UpdateInteger string u64 | CloseTable bool

record acpi_answers =
  AaLocateSdt :: efi_status
  AaInstall :: efi_status
  AaLocateDsdt :: efi_status
  AaOpenSdt :: efi_status
  AaRp1 :: "(bool \<times> u64) list option"

record config_vars =
  CvSdCompatMode :: u8
  CvSdLimitUhs :: u8
  CvEcamMode :: u32
  CvBarSpaceMB :: u32

definition InstallAcpiTables :: "acpi_answers \<Rightarrow> bool \<Rightarrow> config_vars \<Rightarrow> mem32_plan \<Rightarrow> efi_status \<times> acpi_call list" where
  "InstallAcpiTables A Pcie1Enabled V P =
     (if EFI_ERROR (AaLocateSdt A) then (AaLocateSdt A, [])
      else if EFI_ERROR (AaInstall A) then (AaInstall A, [])
      else if EFI_ERROR (AaLocateDsdt A) then (AaLocateDsdt A, [])
      else if EFI_ERROR (AaOpenSdt A) then (AaOpenSdt A, [CloseTable False])
      else (EFI_SUCCESS,
        map (\<lambda>u. UpdateInteger (fst u) (snd u))
          (DsdtFixupStatus Pcie1Enabled @ DsdtFixupSd (CvSdCompatMode V) (CvSdLimitUhs V) @ DsdtFixupRp1 (AaRp1 A) @
           DsdtFixupPcie (AcpiBase P) (AcpiSize P)) @ [CloseTable True]))"

definition OnReadyToBoot ::
  "acpi_answers \<Rightarrow> efi_status \<Rightarrow> efi_status + u64 \<times> u64 \<Rightarrow> bool \<Rightarrow> u64 \<Rightarrow> bool \<Rightarrow> config_vars \<Rightarrow> gcd_call list \<times> acpi_call list" where
  "OnReadyToBoot A AddStatus Window IsAcpiEnabled SystemMemorySize Pcie1Enabled V =
     (let P = AdjustPciReservedMemory IsAcpiEnabled SystemMemorySize (CvBarSpaceMB V) Window in
      (ReclaimCalls AddStatus P, if IsAcpiEnabled then snd (InstallAcpiTables A Pcie1Enabled V P) else []))"

text \<open>\<open>Mode\<close> is the table mode of the platform; \<open>AcpiMode\<close> and \<open>BothModes\<close> are the two constants it is compared with.\<close>

definition ApplyConfigTableVariables :: "u32 \<Rightarrow> u32 \<Rightarrow> u32 \<Rightarrow> boot_hook \<Rightarrow> bool \<times> boot_hook" where
  "ApplyConfigTableVariables AcpiMode BothModes Mode B =
     (let IsAcpiEnabled = (Mode = AcpiMode \<or> Mode = BothModes) in
      (IsAcpiEnabled, if IsAcpiEnabled then B\<lparr>Hooked := True\<rparr> else B))"

subsection \<open>The setup variables\<close>

text \<open>
  Reading a variable of \<open>n\<close> bytes answers a status, the size that is left in the caller's variable and the bytes that
  were copied. Writing one is a call with a name, a size and the object the bytes are taken from.
\<close>

type_synonym var_reader = "string \<Rightarrow> nat \<Rightarrow> efi_status \<times> nat \<times> u8 list"
type_synonym var_write = "string \<times> nat \<times> u8 list"

definition SetupVariable :: "var_reader \<Rightarrow> string \<Rightarrow> u8 list \<Rightarrow> u8 list \<times> var_write list" where
  "SetupVariable Get Nam Default =
     (case Get Nam (length Default) of (Status, Sz, Data) \<Rightarrow>
        let Val = Data @ drop (length Data) Default in
        if EFI_ERROR Status then (Val, [(Nam, Sz, Val)]) else (Val, []))"

definition u32_of_bytes :: "u8 list \<Rightarrow> u32" where
  "u32_of_bytes bs = Le32 (\<lambda>i. bs ! i) 0"

definition bytes_of_u32 :: "u32 \<Rightarrow> u8 list" where
  "bytes_of_u32 v = map (\<lambda>k. ucast (drop_bit (8 * k) v)) [0, 1, 2, 3]"

definition SetupConfigTableVariables :: "var_reader \<Rightarrow> config_vars \<times> var_write list" where
  "SetupConfigTableVariables Get =
     (case SetupVariable Get ''AcpiSdCompatMode'' [ACPI_SD_COMPAT_MODE_DEFAULT] of (Sd, w1) \<Rightarrow>
      case SetupVariable Get ''AcpiSdLimitUhs'' [ACPI_SD_LIMIT_UHS_DEFAULT] of (Uhs, w2) \<Rightarrow>
      case SetupVariable Get ''AcpiPcieEcamCompatMode'' (bytes_of_u32 ACPI_PCIE_ECAM_COMPAT_MODE_DEFAULT) of (Ecam, w3) \<Rightarrow>
      case SetupVariable Get ''AcpiPcie32BitBarSpaceSizeMB'' (bytes_of_u32 ACPI_PCIE_32_BIT_BAR_SPACE_SIZE_MB_DEFAULT) of (Bar, w4) \<Rightarrow>
        (\<lparr>CvSdCompatMode = Sd ! 0, CvSdLimitUhs = Uhs ! 0, CvEcamMode = u32_of_bytes Ecam, CvBarSpaceMB = u32_of_bytes Bar\<rparr>,
         w1 @ w2 @ w3 @ w4))"

section \<open>What the tables say\<close>

subsection \<open>A patched integer reads back\<close>

text \<open>The little-endian integer of \<open>n\<close> bytes at \<open>p\<close>, and the integer object whose prefix is at \<open>p\<close>.\<close>

definition le_int :: "buf \<Rightarrow> nat \<Rightarrow> nat \<Rightarrow> u64" where
  "le_int t p n = fold (\<lambda>k v. v OR push_bit (8 * k) (ucast (t (p + k)))) [0..<n] 0"

definition aml_integer :: "buf \<Rightarrow> nat \<Rightarrow> u64 option" where
  "aml_integer t p =
     (if t p = 0x0A then Some (le_int t (p + 1) 1)
      else if t p = 0x0B then Some (le_int t (p + 1) 2)
      else if t p = 0x0C then Some (le_int t (p + 1) 4)
      else if t p = 0x0E then Some (le_int t (p + 1) 8)
      else if t p = 0 then Some 0 else if t p = 1 then Some 1 else if t p = 0xFF then Some (- 1) else None)"

lemma le_int_bytes:
  assumes "\<And>k. k < n \<Longrightarrow> t (p + k) = ucast (drop_bit (8 * k) v)"
  shows "le_int t p n = take_bit (8 * n) v"
  using assms
proof (induction n)
  case (Suc n)
  have "take_bit (8 * n) v OR push_bit (8 * n) (ucast (ucast (drop_bit (8 * n) v) :: u8)) = take_bit (8 * Suc n) v"
    by (rule bit_word_eqI) (auto simp: bit_simps)
  with Suc show ?case by (simp add: le_int_def)
qed (simp add: le_int_def)

lemma SdtLoop_first:
  assumes "i \<in> set is" "sorted is" "bytes_at T i SDT_PATTERN_LEN = P" "\<And>j. j < i \<Longrightarrow> bytes_at T j SDT_PATTERN_LEN \<noteq> P"
  shows "SdtLoop P V is T = (case SdtValue (T (i + SDT_PATTERN_LEN)) of None \<Rightarrow> (EFI_UNSUPPORTED, T)
     | Some (off, n) \<Rightarrow> (EFI_SUCCESS, CopyMem T (i + off) (take n (u64_bytes V))))"
  using assms(1,2)
proof (induction "is")
  case (Cons j js)
  show ?case
  proof (cases "j = i")
    case False
    with Cons.prems have "i \<in> set js" "sorted js" "j < i" by auto
    with Cons.IH assms(4) show ?thesis by simp
  qed (use assms(3) in simp)
qed simp

lemma SdtLoop_none: "\<forall>i\<in>set is. bytes_at T i SDT_PATTERN_LEN \<noteq> P \<Longrightarrow> SdtLoop P V is T = (EFI_NOT_FOUND, T)"
  by (induction "is") auto

definition sdt_name_at :: "buf \<Rightarrow> u8 list \<Rightarrow> nat \<Rightarrow> bool" where
  "sdt_name_at T Nam i = (i + SDT_PATTERN_LEN < unat (Le32 T 4) \<and> bytes_at T i SDT_PATTERN_LEN = AML_NAME_OP # Nam \<and>
     list_all (\<lambda>j. bytes_at T j SDT_PATTERN_LEN \<noteq> AML_NAME_OP # Nam) [0..<i])"

lemma patch_first:
  assumes "sdt_name_at T Nam i" "SdtValue (T (i + SDT_PATTERN_LEN)) = Some (off, n)"
  shows "AcpiUpdateSdtNameInteger T Nam V = (EFI_SUCCESS, CopyMem T (i + off) (take n (u64_bytes V)))"
proof -
  let ?L = "unat (Le32 T 4)"
  have l: "SDT_PATTERN_LEN < ?L" "i \<in> set [0..<?L - SDT_PATTERN_LEN]" using assms(1) by (auto simp: sdt_name_at_def)
  moreover have "SdtLoop (AML_NAME_OP # Nam) V [0..<?L - SDT_PATTERN_LEN] T = (EFI_SUCCESS, CopyMem T (i + off) (take n (u64_bytes V)))"
    using assms l by (subst SdtLoop_first [of i]) (auto simp: sdt_name_at_def list_all_iff)
  ultimately show ?thesis by (simp add: AcpiUpdateSdtNameInteger_def Let_def)
qed

lemma byte_at: "n \<le> 8 \<Longrightarrow> k < n \<Longrightarrow> CopyMem T p (take n (u64_bytes V)) (p + k) = ucast (drop_bit (8 * k) V)"
  by (simp add: CopyMem_def u64_bytes_def)

lemma aml_prefix:
  "SdtValue (t p) = Some (SDT_PATTERN_LEN + 1, n) \<Longrightarrow> le_int t (p + 1) n = v \<Longrightarrow> aml_integer t p = Some v"
proof -
  assume v: "SdtValue (t p) = Some (SDT_PATTERN_LEN + 1, n)" and l: "le_int t (p + 1) n = v"
  then have "t p = 0x0A \<and> n = 1 \<or> t p = 0x0B \<and> n = 2 \<or> t p = 0x0C \<and> n = 4 \<or> t p = 0x0E \<and> n = 8"
    by (simp add: SdtValue_def split: if_splits)
  then show ?thesis using l by (elim disjE conjE; hypsubst) (simp_all add: aml_integer_def)
qed

text \<open>C32: Patching the integer of a name that is in the table succeeds, the integer object then reads as the value cut
  to its size, and no byte outside the value changes; the two objects without a value byte hold a zero or a one.\<close>

theorem sdt_patch_reads_back:
  assumes "sdt_name_at T Nam i" "SdtValue (T (i + SDT_PATTERN_LEN)) = Some (off, n)" "off = SDT_PATTERN_LEN + 1 \<or> V \<in> {0, 1}"
  shows "fst (AcpiUpdateSdtNameInteger T Nam V) = EFI_SUCCESS \<and>
    aml_integer (snd (AcpiUpdateSdtNameInteger T Nam V)) (i + SDT_PATTERN_LEN) = Some (take_bit (8 * n) V) \<and>
    (j < i + off \<or> i + off + n \<le> j \<longrightarrow> snd (AcpiUpdateSdtNameInteger T Nam V) j = T j)"
proof -
  let ?T = "CopyMem T (i + off) (take n (u64_bytes V))"
  have p: "AcpiUpdateSdtNameInteger T Nam V = (EFI_SUCCESS, ?T)" by (rule patch_first [OF assms(1,2)])
  have n: "n \<in> {1, 2, 4, 8}" "n \<le> 8" using assms(2) by (auto simp: SdtValue_def split: if_splits)
  have len: "length (take n (u64_bytes V)) = n" using n by (simp add: u64_bytes_def)
  have out: "j < i + off \<or> i + off + n \<le> j \<longrightarrow> ?T j = T j" for j using CopyMem_outside len by auto
  have le: "le_int ?T (i + off) n = take_bit (8 * n) V" using byte_at [OF n(2)] by (intro le_int_bytes) auto
  have "aml_integer ?T (i + SDT_PATTERN_LEN) = Some (take_bit (8 * n) V)"
  proof (cases "off = SDT_PATTERN_LEN + 1")
    case True
    then have "?T (i + SDT_PATTERN_LEN) = T (i + SDT_PATTERN_LEN)" using out by simp
    then have same: "?T (i + SDT_PATTERN_LEN) = T (i + SDT_PATTERN_LEN)" .
    have le': "le_int ?T (i + SDT_PATTERN_LEN + 1) n = take_bit (8 * n) V" using le True by (simp add: ac_simps)
    show ?thesis by (rule aml_prefix [OF _ le']) (use assms(2) True same in simp)
  next
    case False
    then have o: "off = SDT_PATTERN_LEN" "n = 1" using assms(2) by (auto simp: SdtValue_def split: if_splits)
    have "?T (i + SDT_PATTERN_LEN + 0) = ucast (drop_bit (8 * 0) V)" using byte_at [of n 0 T "i + off" V] n o by simp
    with False assms(3) o show ?thesis by (auto simp: aml_integer_def)
  qed
  with p out show ?thesis by simp
qed

subsection \<open>The loader's image\<close>

lemma unat_word64: "m < 2 ^ 64 \<Longrightarrow> unat (word_of_nat m :: u64) = m"
  by (simp add: unat_of_nat take_bit_nat_eq_self)

lemma page_addr: "n < 2 ^ 52 \<Longrightarrow> unat (word_of_nat (4096 * n) :: u64) = 4096 * n"
  by (rule unat_word64) simp

lemma FindPePage_max: "FindPePage M n = Max (insert 0 {k. 0 < k \<and> k \<le> n \<and> image_at M (word_of_nat (4096 * k))})"
proof (induction n)
  case 0
  have "{k :: nat. 0 < k \<and> k \<le> 0 \<and> image_at M (word_of_nat (4096 * k))} = {}" by auto
  then show ?case by (simp only: FindPePage.simps) simp
next
  case (Suc n)
  let ?S = "\<lambda>n. {k. 0 < k \<and> k \<le> n \<and> image_at M (word_of_nat (4096 * k))}"
  have fin: "finite (?S n)" for n by (rule finite_subset [of _ "{..n}"]) auto
  show ?case
  proof (cases "image_at M (word_of_nat (4096 * Suc n))")
    case True
    then have "Max (insert 0 (?S (Suc n))) = Suc n" using fin by (intro Max_eqI) auto
    with True show ?thesis by simp
  next
    case False
    then have "?S (Suc n) = ?S n" by (auto simp: le_Suc_eq)
    with False Suc show ?thesis by simp
  qed
qed

text \<open>The image found for a return address is the highest page at or below it that starts an image, and zero
  when there is none; the search ends for every memory.\<close>

theorem loader_image_nearest:
  "unat (FindPeImageBase M Base) = Max (insert 0 {a. 0 < a \<and> a mod 4096 = 0 \<and> a \<le> unat Base \<and> image_at M (word_of_nat a)})"
proof -
  let ?n = "unat Base div 4096"
  let ?S = "{k. 0 < k \<and> k \<le> ?n \<and> image_at M (word_of_nat (4096 * k))}"
  have fin: "finite ?S" by (rule finite_subset [of _ "{..?n}"]) auto
  have "unat Base < 2 ^ 64" using unsigned_less [of Base] by simp
  then have n: "?n < 2 ^ 52" by (simp add: less_mult_imp_div_less)
  have "FindPePage M ?n \<in> insert 0 ?S" unfolding FindPePage_max using fin by (intro Max_in) auto
  then have "FindPePage M ?n < 2 ^ 52" using n by auto
  then have "unat (FindPeImageBase M Base) = 4096 * Max (insert 0 ?S)"
    by (simp only: FindPeImageBase_def FindPePage_max page_addr)
  also have "\<dots> = Max ((\<lambda>k. 4096 * k) ` insert 0 ?S)"
    using fin by (intro mono_Max_commute) (auto simp: mono_def)
  also have "(\<lambda>k. 4096 * k) ` insert 0 ?S = insert 0 {a. 0 < a \<and> a mod 4096 = 0 \<and> a \<le> unat Base \<and> image_at M (word_of_nat a)}"
  proof (intro equalityI subsetI)
    fix a assume "a \<in> insert 0 {a. 0 < a \<and> a mod 4096 = 0 \<and> a \<le> unat Base \<and> image_at M (word_of_nat a)}"
    then show "a \<in> (\<lambda>k. 4096 * k) ` insert 0 ?S"
      by (intro image_eqI [of _ _ "a div 4096"]) (auto simp: div_le_mono)
  qed auto
  finally show ?thesis .
qed

lemma WinLoop_spec:
  "WinLoop s i \<longleftrightarrow> (\<exists>pre suf. s = pre @ ascii ''winload'' @ suf \<and> i + length pre < 256)"
proof (induction s i rule: WinLoop.induct)
  case (2 c cs i)
  have l: "length (ascii ''winload'') = 7" by (simp add: ascii_def)
  have t: "take 7 (c # cs) = ascii ''winload'' \<longleftrightarrow> (\<exists>suf. c # cs = ascii ''winload'' @ suf)"
    using l by (metis append_eq_conv_conj append_take_drop_id)
  show ?case
  proof (cases "take 7 (c # cs) = ascii ''winload''")
    case True
    then show ?thesis using t 2 by (auto simp: PDB_NAME_MAX_LENGTH_def intro: exI [of _ "[]"])
  next
    case False
    then have "(\<exists>pre suf. c # cs = pre @ ascii ''winload'' @ suf \<and> i + length pre < 256) \<longleftrightarrow>
        i < 256 \<and> (\<exists>pre suf. cs = pre @ ascii ''winload'' @ suf \<and> Suc i + length pre < 256)"
      using t by (auto simp: Cons_eq_append_conv) (force intro: exI [of _ "c # _"])+
    with False 2 show ?thesis by (simp add: PDB_NAME_MAX_LENGTH_def)
  qed
qed (simp add: ascii_def)

text \<open>The loader is taken for the Windows loader exactly when "winload" occurs in the name of its debug file with
  fewer than 256 characters before it.\<close>

theorem windows_loader_recognised:
  "IsPeImageWinLoader (Some s) \<longleftrightarrow> (\<exists>pre suf. s = pre @ ascii ''winload'' @ suf \<and> length pre < 256)"
  by (simp add: IsPeImageWinLoader_def WinLoop_spec)

text \<open>However often a loader ends the boot services, the tables are fixed once: the first call goes through the
  hook and takes it away, the later ones leave the tables as they are.\<close>

theorem tables_fixed_once:
  "fold (ExitBootServices Handler M Pdb) (ra # ras) B = ExitBootServices Handler M Pdb ra B"
proof -
  have u: "\<not> Hooked B \<Longrightarrow> fold (ExitBootServices Handler M Pdb) ras B = B" for B
    by (induction ras) (simp_all add: ExitBootServices_def)
  have "\<not> Hooked (ExitBootServices Handler M Pdb ra B)"
    by (simp add: ExitBootServices_def AcpiExitBootServicesHook_def Let_def)
  from u [OF this] show ?thesis by simp
qed

subsection \<open>The memory that is given back\<close>

text \<open>The window of a bridge that decodes memory, in bytes.\<close>

definition bridge_window :: "pci_handle \<Rightarrow> nat \<times> nat" where
  "bridge_window h = (65536 * unat (PhMemoryBase h), 65536 * unat (PhMemoryLimit h) + 0x100000)"

definition live_bridge :: "pci_handle \<Rightarrow> bool" where
  "live_bridge h = (PhOpen h = EFI_SUCCESS \<and> PhRead h = EFI_SUCCESS \<and> PhBridge h)"

lemma window_word: "unat (push_bit 16 (ucast (v :: u16)) :: u32) = 65536 * unat v"
proof -
  have "unat v < 2 ^ 16" using unsigned_less [of v] by simp
  then show ?thesis by (simp add: push_bit_eq_mult unat_word_ariths unat_ucast_less)
qed

lemma Mem32Loop_bounds:
  assumes "Mem32Loop hs mn mx = (mn', mx')"
  shows "mn' \<le> mn \<and> mx \<le> mx' \<and>
    (\<forall>h\<in>set hs. live_bridge h \<longrightarrow> unat mn' \<le> 65536 * unat (PhMemoryBase h) \<and> 65536 * unat (PhMemoryLimit h) \<le> unat mx')"
  using assms
proof (induction hs mn mx rule: Mem32Loop.induct)
  case (2 h hs mn mx)
  let ?b = "push_bit 16 (ucast (PhMemoryBase h)) :: u32" and ?l = "push_bit 16 (ucast (PhMemoryLimit h)) :: u32"
  show ?case
  proof (cases "live_bridge h")
    case False
    with 2 show ?thesis by (auto simp: live_bridge_def EFI_ERROR_def)
  next
    case True
    let ?mn = "if mn > ?b then ?b else mn" and ?mx = "if mx < ?l then ?l else mx"
    from True 2(3) have r: "Mem32Loop hs ?mn ?mx = (mn', mx')" by (simp add: live_bridge_def EFI_ERROR_def Let_def)
    from True have e: "\<not> (EFI_ERROR (PhOpen h) \<or> EFI_ERROR (PhRead h) \<or> \<not> PhBridge h)" by (simp add: live_bridge_def EFI_ERROR_def)
    have ih: "mn' \<le> ?mn \<and> ?mx \<le> mx' \<and> (\<forall>h\<in>set hs. live_bridge h \<longrightarrow>
        unat mn' \<le> 65536 * unat (PhMemoryBase h) \<and> 65536 * unat (PhMemoryLimit h) \<le> unat mx')"
      using 2(2) [OF e refl refl refl refl r] .
    then have "mn' \<le> mn \<and> mn' \<le> ?b" "mx \<le> mx' \<and> ?l \<le> mx'" by (auto split: if_splits)
    moreover have "unat ?b = 65536 * unat (PhMemoryBase h)" "unat ?l = 65536 * unat (PhMemoryLimit h)" by (rule window_word)+
    ultimately show ?thesis using ih by (auto simp: word_le_nat_alt)
  qed
qed simp

text \<open>The low four bits of a bridge's limit register are the type of the window and read as zero.\<close>

definition limits_ok :: "pci_handle list \<Rightarrow> bool" where
  "limits_ok hs = list_all (\<lambda>h. unat (PhMemoryLimit h) mod 16 = 0) hs"

lemma below_64k: "(x :: nat) < 65536 \<Longrightarrow> x mod 16 = 0 \<Longrightarrow> x \<le> 65520"
  by presburger

lemma unat_up64: "unat (ucast (v :: u32) :: u64) = unat v"
proof (rule unat_ucast_less)
  have "unat v < 2 ^ 32" using unsigned_less [of v] by simp
  then show "unat v < 2 ^ LENGTH(64)" by simp
qed

lemma Mem32Loop_max:
  assumes "Mem32Loop hs mn mx = (mn', mx')" "limits_ok hs" "unat mx \<le> 0xFFF00000"
  shows "unat mx' \<le> 0xFFF00000"
  using assms
proof (induction hs mn mx rule: Mem32Loop.induct)
  case (2 h hs mn mx)
  have "unat (PhMemoryLimit h) < 2 ^ 16" using unsigned_less [of "PhMemoryLimit h"] by simp
  moreover have "unat (PhMemoryLimit h) mod 16 = 0" using 2(4) by (simp add: limits_ok_def)
  ultimately have "unat (PhMemoryLimit h) \<le> 0xFFF0" using below_64k by simp
  then have l: "unat (push_bit 16 (ucast (PhMemoryLimit h)) :: u32) \<le> 0xFFF00000" unfolding window_word by simp
  have ok: "limits_ok hs" using 2(4) by (simp add: limits_ok_def)
  show ?case
  proof (cases "EFI_ERROR (PhOpen h) \<or> EFI_ERROR (PhRead h) \<or> \<not> PhBridge h")
    case True
    with 2(1) [OF True _ ok 2(5)] 2(3) show ?thesis by simp
  next
    case False
    with 2(3) have "Mem32Loop hs (if mn > push_bit 16 (ucast (PhMemoryBase h)) then push_bit 16 (ucast (PhMemoryBase h)) else mn)
        (if mx < push_bit 16 (ucast (PhMemoryLimit h)) then push_bit 16 (ucast (PhMemoryLimit h)) else mx) = (mn', mx')"
      by (simp add: Let_def)
    from 2(2) [OF False refl refl refl refl this ok] l 2(5) show ?thesis by (simp split: if_splits)
  qed
qed simp

lemma range_covers:
  assumes r: "GetPciMem32TotalRange st hs = Inr (B, S)" and ok: "limits_ok hs" and pos: "unat B > 0"
    and h: "h \<in> set hs" "live_bridge h" "fst (bridge_window h) < snd (bridge_window h)"
  shows "unat B \<le> fst (bridge_window h) \<and> snd (bridge_window h) \<le> unat B + unat S"
proof -
  obtain mn mx where l: "Mem32Loop hs 0xFFFFFFFF 0 = (mn, mx)" by (rule prod.exhaust)
  from Mem32Loop_bounds [OF l] h have b: "unat mn \<le> 65536 * unat (PhMemoryBase h)" "65536 * unat (PhMemoryLimit h) \<le> unat mx"
    by auto
  have m: "unat mx \<le> 0xFFF00000" using Mem32Loop_max [OF l ok] by simp
  from r l have "B = ucast mn" "S = ucast ((mx + 0x100000) - mn)"
    by (auto simp: GetPciMem32TotalRange_def split: if_splits)
  then have u: "unat B = unat mn" "unat S = unat ((mx + 0x100000) - mn)" by (simp_all add: unat_up64)
  have "unat mn < unat mx + 0x100000" using b h(3) by (simp add: bridge_window_def)
  then have "int (unat ((mx + 0x100000) - mn)) = (int (unat mx) + 0x100000 - int (unat mn)) mod 2 ^ 32"
    by (simp add: uint_word_ariths mod_simps flip: uint_nat)
  also have "\<dots> = int (unat mx) + 0x100000 - int (unat mn)"
  proof (rule mod_pos_pos_trivial)
    show "0 \<le> int (unat mx) + 0x100000 - int (unat mn)" using \<open>unat mn < unat mx + 0x100000\<close> by linarith
    have "int (unat mx) + 0x100000 - int (unat mn) < 0x100000000" using m pos u(1) by linarith
    then show "int (unat mx) + 0x100000 - int (unat mn) < 2 ^ 32" by simp
  qed
  finally have "unat S = unat mx + 0x100000 - unat mn" unfolding u(2) by linarith
  with b u(1) \<open>unat mn < unat mx + 0x100000\<close> show ?thesis by (simp add: bridge_window_def)
qed

text \<open>C18: When the windows of the bridges and the preferred size lie in the reserved gigabyte, the range that is
  reported covers the window of every live bridge, and the memory that is given back is exactly what follows it up to
  4 GB.\<close>

theorem reclaimed_memory_disjoint:
  assumes r: "GetPciMem32TotalRange EFI_SUCCESS hs = Inr (B, S)" and ok: "limits_ok hs"
    and lo: "0xC0000000 \<le> unat B" and sz: "unat S \<le> 0x40000000"
    and p: "P = unat (BarSpaceMB * 1024 * 1024)" "P \<le> 0x40000000" and fit: "unat B + max (unat S) P \<le> 2 ^ 32"
    and plan: "AdjustPciReservedMemory True Mem BarSpaceMB (Inr (B, S)) = Plan"
    and h: "h \<in> set hs" "live_bridge h" "fst (bridge_window h) < snd (bridge_window h)"
  shows "unat (AcpiBase Plan) \<le> fst (bridge_window h) \<and> snd (bridge_window h) \<le> unat (AcpiBase Plan) + unat (AcpiSize Plan) \<and>
    (case Reclaimed Plan of
       None \<Rightarrow> unat Mem \<le> 0xC0000000 \<or> unat (AcpiBase Plan) + unat (AcpiSize Plan) = 2 ^ 32
     | Some (b, n) \<Rightarrow> unat b = unat (AcpiBase Plan) + unat (AcpiSize Plan) \<and> unat b + unat n = 2 ^ 32)"
proof -
  have cov: "unat B \<le> fst (bridge_window h)" "snd (bridge_window h) \<le> unat B + unat S"
    using range_covers [OF r ok _ h] lo by auto
  define W where "W = (ucast (BarSpaceMB * 1024 * 1024) :: u64)"
  have P: "unat W = P" unfolding p(1) W_def by (rule unat_up64)
  define Z where "Z = (if W \<le> PCI_RESERVED_MEM32_SIZE \<and> S < W then W else S)"
  have Z: "unat Z = max (unat S) P"
    using p(2) by (simp add: Z_def word_le_nat_alt word_less_nat_alt P PCI_RESERVED_MEM32_SIZE_def max_def)
  have Zpos: "Z > 0" using cov h(3) Z by (simp add: word_less_nat_alt)
  have plan': "Plan = \<lparr>AcpiBase = B, AcpiSize = Z, Reclaimed = Reclaim Mem (B + Z) (0x100000000 - (B + Z))\<rparr>"
    using lo sz Zpos unfolding plan [symmetric] AdjustPciReservedMemory_def W_def [symmetric] Let_def
    by (cases "W \<le> PCI_RESERVED_MEM32_SIZE \<and> S < W")
      (simp_all add: Z_def PCI_RESERVED_MEM32_BASE_def PCI_RESERVED_MEM32_SIZE_def word_less_nat_alt)
  have sum: "unat (B + Z) = unat B + unat Z" using fit Z by (simp add: unat_word_ariths)
  have rest: "unat (0x100000000 - (B + Z)) = 2 ^ 32 - (unat B + unat Z)"
    using fit Z by (subst unat_sub) (simp_all add: word_le_nat_alt sum)
  show ?thesis
    using cov Z fit unfolding plan' Reclaim_def
    by (auto simp: sum rest word_less_nat_alt PCI_RESERVED_MEM32_BASE_def)
qed


subsection \<open>The configuration space is described in one way\<close>

text \<open>The checksum routine changes only the checksum byte and makes the bytes of the table add up to zero.\<close>

definition renew_law :: "(buf \<Rightarrow> nat \<Rightarrow> buf) \<Rightarrow> bool" where
  "renew_law Renew = (\<forall>t n. (\<forall>i. i \<noteq> 9 \<longrightarrow> Renew t n i = t i) \<and> (9 < n \<longrightarrow> sum_list (bytes_at (Renew t n) 0 n) = 0))"

lemma Point_low: "j < 10 \<Longrightarrow> fold McfgPoint is t j = t j"
  by (induction "is" arbitrary: t) (simp_all add: McfgPoint_def CopyMem_def)

lemma Graviton_low: "j < 10 \<Longrightarrow> McfgGraviton n t j = t j"
  by (simp add: McfgGraviton_def Let_def Point_low CopyMem_def)

lemma Renew_same: "renew_law Renew \<Longrightarrow> i \<noteq> 9 \<Longrightarrow> Renew t n i = t i"
  by (simp add: renew_law_def)

lemma Le32_same: "(\<And>i. i < 8 \<Longrightarrow> p i = q i) \<Longrightarrow> Le32 p 4 = Le32 q 4"
  by (intro Le32_cong) simp

definition mcfg_hidden :: "u32 \<Rightarrow> bool" where
  "mcfg_hidden Mode = (Mode \<noteq> ACPI_PCIE_ECAM_COMPAT_MODE_NXPMX6 \<and> Mode \<noteq> ACPI_PCIE_ECAM_COMPAT_MODE_GRAVITON)"

definition pbma_byte :: "acpi_tables \<Rightarrow> nat \<Rightarrow> bool" where
  "pbma_byte T i = (36 \<le> i \<and> sdt_name_at (Dsdt T) (ascii ''PBMA'') i \<and> Dsdt T (i + SDT_PATTERN_LEN) = 0x0A)"

lemma low_byte: "take 1 (u64_bytes v) = [ucast v]"
  by (simp add: u64_bytes_def upt_rec)

lemma fixup_tables:
  assumes "renew_law Renew" "pbma_byte T i" "9 < unat (Le32 (Mcfg T) 4)" "bytes_at (Mcfg T) 0 4 = ascii ''MCFG''"
    and t: "AcpiFixupPcieEcam Renew EFI_SUCCESS EFI_SUCCESS n Mode OsType T = (st, T')"
  defines "hidden \<equiv> mcfg_hidden (EffectiveEcamMode Mode OsType)"
  shows "bytes_at (Mcfg T') 0 4 = (if hidden then [0, 0, 0, 0] else ascii ''MCFG'') \<and>
    sum_list (bytes_at (Mcfg T') 0 (unat (Le32 (Mcfg T') 4))) = 0 \<and>
    Dsdt T' = CopyMem (Dsdt T) (i + 6) [if hidden then 255 else 0]"
proof -
  let ?m = "EffectiveEcamMode Mode OsType"
  define M where "M = (if ?m = ACPI_PCIE_ECAM_COMPAT_MODE_NXPMX6 then Mcfg T
    else if ?m = ACPI_PCIE_ECAM_COMPAT_MODE_GRAVITON then McfgGraviton n (Mcfg T) else CopyMem (Mcfg T) 0 [0, 0, 0, 0])"
  have p: "AcpiUpdateSdtNameInteger (Dsdt T) (ascii ''PBMA'') v = (EFI_SUCCESS, CopyMem (Dsdt T) (i + 6) [ucast v])" for v
  proof -
    have "sdt_name_at (Dsdt T) (ascii ''PBMA'') i" "SdtValue (Dsdt T (i + SDT_PATTERN_LEN)) = Some (6, 1)"
      using assms(2) by (simp_all add: pbma_byte_def SdtValue_def SDT_PATTERN_LEN_def)
    from patch_first [OF this] show ?thesis by (simp only: low_byte)
  qed
  have T': "Mcfg T' = Renew M (unat (Le32 M 4))" "Dsdt T' = CopyMem (Dsdt T) (i + 6) [if hidden then 255 else 0]"
    using t unfolding AcpiFixupPcieEcam_def Let_def p
    by (auto simp: EFI_ERROR_def M_def hidden_def mcfg_hidden_def p PCI_MAX_BUS_def split: if_splits)
  have low: "j < 8 \<Longrightarrow> 4 \<le> j \<Longrightarrow> M j = Mcfg T j" for j by (simp add: M_def Graviton_low CopyMem_def)
  have len: "Le32 M 4 = Le32 (Mcfg T) 4" by (intro Le32_cong) (simp add: low)
  have len': "Le32 (Mcfg T') 4 = Le32 M 4" unfolding T' by (intro Le32_cong) (simp add: Renew_same [OF assms(1)])
  have s: "sum_list (bytes_at (Mcfg T') 0 (unat (Le32 (Mcfg T') 4))) = 0"
    unfolding len' unfolding T' using assms(1,3) len by (simp add: renew_law_def)
  have "bytes_at (Mcfg T') 0 4 = bytes_at M 0 4" unfolding T' by (intro bytes_at_cong) (simp add: Renew_same [OF assms(1)])
  also have "\<dots> = (if hidden then [0, 0, 0, 0] else ascii ''MCFG'')"
  proof (cases hidden)
    case True
    then have "M = CopyMem (Mcfg T) 0 [0, 0, 0, 0]" by (simp add: M_def hidden_def mcfg_hidden_def)
    with True show ?thesis using bytes_at_CopyMem [of "Mcfg T" 0 "[0, 0, 0, 0]"] by (simp add: numeral_eq_Suc)
  next
    case False
    then have "bytes_at M 0 4 = bytes_at (Mcfg T) 0 4"
      by (intro bytes_at_cong) (auto simp: M_def hidden_def mcfg_hidden_def Graviton_low)
    with False assms(4) show ?thesis by simp
  qed
  finally show ?thesis using s T'(2) by simp
qed

text \<open>C25: When an OS is about to start, the PCI configuration space is described to it in exactly one way: either the
  MCFG stays in view and the DSDT names bus 0 as the last one, or the MCFG is hidden and the DSDT names all 256 buses;
  both tables have valid checksums.\<close>

theorem ecam_described_once:
  assumes "renew_law Renew" "pbma_byte T i" "9 < unat (Le32 (Mcfg T) 4)" "bytes_at (Mcfg T) 0 4 = ascii ''MCFG''"
    and t: "AcpiOsBootHandler Renew True EFI_SUCCESS EFI_SUCCESS n Mode OsType T = T'"
  shows "(bytes_at (Mcfg T') 0 4, Dsdt T' (i + 6)) =
      (if mcfg_hidden (EffectiveEcamMode Mode OsType) then ([0, 0, 0, 0], 255) else (ascii ''MCFG'', 0)) \<and>
    sum_list (bytes_at (Mcfg T') 0 (unat (Le32 (Mcfg T') 4))) = 0 \<and>
    sum_list (bytes_at (Dsdt T') 0 (unat (Le32 (Dsdt T') 4))) = 0"
proof -
  obtain st T1 where f: "AcpiFixupPcieEcam Renew EFI_SUCCESS EFI_SUCCESS n Mode OsType T = (st, T1)" by (rule prod.exhaust)
  note r = fixup_tables [OF assms(1-4) f]
  have T': "T' = T1\<lparr>Dsdt := Renew (Dsdt T1) (unat (Le32 (Dsdt T1) 4))\<rparr>"
    using t f by (simp add: AcpiOsBootHandler_def Let_def)
  have i: "36 \<le> i" "9 < unat (Le32 (Dsdt T) 4)" using assms(2) by (auto simp: pbma_byte_def sdt_name_at_def)
  have l1: "Le32 (Dsdt T1) 4 = Le32 (Dsdt T) 4"
    using r i by (intro Le32_cong) (simp add: CopyMem_def)
  have l2: "Le32 (Dsdt T') 4 = Le32 (Dsdt T1) 4" unfolding T' by (intro Le32_cong) (simp add: Renew_same [OF assms(1)])
  have "sum_list (bytes_at (Dsdt T') 0 (unat (Le32 (Dsdt T') 4))) = 0"
    unfolding l2 unfolding T' using assms(1) i(2) l1 by (simp add: renew_law_def)
  moreover have "Dsdt T' (i + 6) = (if mcfg_hidden (EffectiveEcamMode Mode OsType) then 255 else 0)"
    using r i by (simp add: T' Renew_same [OF assms(1)] CopyMem_def)
  ultimately show ?thesis using r by (simp add: T')
qed

subsection \<open>The sizes of the variables\<close>

text \<open>
  The variable store: reading an absent variable leaves the size alone, reading one that is longer than the caller's
  object fails and leaves its real size there.
\<close>

definition reader_law :: "(string \<Rightarrow> u8 list option) \<Rightarrow> var_reader \<Rightarrow> bool" where
  "reader_law Store Get = (\<forall>Nam n. Get Nam n =
     (case Store Nam of
        None \<Rightarrow> (EFI_NOT_FOUND, n, [])
      | Some bs \<Rightarrow> if length bs > n then (EFI_BUFFER_TOO_SMALL, length bs, []) else (EFI_SUCCESS, length bs, bs)))"

text \<open>A write that stays inside its object, and the writes that a set-up makes for one variable.\<close>

definition write_inside :: "var_write \<Rightarrow> bool" where
  "write_inside w = (fst (snd w) \<le> length (snd (snd w)))"

lemma SetupVariable_cases:
  "reader_law Store Get \<Longrightarrow> SetupVariable Get Nam d =
     (case Store Nam of
        None \<Rightarrow> (d, [(Nam, length d, d)])
      | Some bs \<Rightarrow> if length bs > length d then (d, [(Nam, length bs, d)]) else (bs @ drop (length bs) d, []))"
  by (auto simp: SetupVariable_def reader_law_def EFI_ERROR_def split: option.splits)

lemma SetupVariable_writes:
  assumes "reader_law Store Get"
  shows "map (\<lambda>w. (fst w, fst (snd w))) (snd (SetupVariable Get Nam d)) =
      (case Store Nam of None \<Rightarrow> [(Nam, length d)] | Some bs \<Rightarrow> if length bs > length d then [(Nam, length bs)] else [])"
    "list_all write_inside (snd (SetupVariable Get Nam d)) = (case Store Nam of None \<Rightarrow> True | Some bs \<Rightarrow> length bs \<le> length d)"
  by (simp_all add: SetupVariable_cases [OF assms] write_inside_def split: option.split)

lemma setup_writes_concat:
  "snd (SetupConfigTableVariables Get) = snd (SetupVariable Get ''AcpiSdCompatMode'' [ACPI_SD_COMPAT_MODE_DEFAULT]) @
     snd (SetupVariable Get ''AcpiSdLimitUhs'' [ACPI_SD_LIMIT_UHS_DEFAULT]) @
     snd (SetupVariable Get ''AcpiPcieEcamCompatMode'' (bytes_of_u32 ACPI_PCIE_ECAM_COMPAT_MODE_DEFAULT)) @
     snd (SetupVariable Get ''AcpiPcie32BitBarSpaceSizeMB'' (bytes_of_u32 ACPI_PCIE_32_BIT_BAR_SPACE_SIZE_MB_DEFAULT))"
  by (simp add: SetupConfigTableVariables_def case_prod_unfold)

definition setup_names :: "(string \<times> nat) list" where
  "setup_names = [(''AcpiSdCompatMode'', 1), (''AcpiSdLimitUhs'', 1), (''AcpiPcieEcamCompatMode'', 4), (''AcpiPcie32BitBarSpaceSizeMB'', 4)]"

text \<open>The set-up writes exactly the variables that are absent or stored with more bytes than the driver has room
  for; for the absent ones the default is written, for the longer ones the write reads as many bytes as are stored, past
  the end of the driver's object.\<close>

theorem setup_writes_exact:
  assumes "reader_law Store Get"
  shows "map (\<lambda>w. (fst w, fst (snd w))) (snd (SetupConfigTableVariables Get)) =
      concat (map (\<lambda>(Nam, n). case Store Nam of None \<Rightarrow> [(Nam, n)] | Some bs \<Rightarrow> if length bs > n then [(Nam, length bs)] else []) setup_names) \<and>
    (list_all write_inside (snd (SetupConfigTableVariables Get)) \<longleftrightarrow>
      list_all (\<lambda>(Nam, n). case Store Nam of None \<Rightarrow> True | Some bs \<Rightarrow> length bs \<le> n) setup_names)"
proof -
  have four: "length (bytes_of_u32 v) = 4" for v by (simp add: bytes_of_u32_def)
  have one: "length [v :: u8] = Suc 0" for v by simp
  show ?thesis
    unfolding setup_writes_concat list_all_append map_append SetupVariable_writes [OF assms] four one
    by (simp add: setup_names_def)
qed

subsection \<open>Concrete tables, bridges and variables\<close>

definition demo_dsdt :: buf where
  "demo_dsdt = CopyMem (CopyMem (\<lambda>i. 0) 4 [60, 0, 0, 0]) 40 (8 # ascii ''PBMA'' @ [0x0A, 0])"

definition demo_renew :: "buf \<Rightarrow> nat \<Rightarrow> buf" where
  "demo_renew t n = t(9 := - sum_list (bytes_at (t(9 := 0)) 0 n))"

lemma sum_renew: "sum_list (bytes_at (t(9 := x)) 0 n) = sum_list (bytes_at (t(9 := 0)) 0 n) + (if 9 < n then x else (0 :: u8))"
  by (induction n) (auto simp: bytes_at_def)

lemma demo_renew_law: "renew_law demo_renew"
  unfolding renew_law_def
proof (intro allI conjI impI)
  fix t :: buf and n :: nat
  show "i \<noteq> 9 \<Longrightarrow> demo_renew t n i = t i" for i by (simp add: demo_renew_def)
  assume "9 < n"
  then show "sum_list (bytes_at (demo_renew t n) 0 n) = 0"
    unfolding demo_renew_def using sum_renew [of t "- sum_list (bytes_at (t(9 := 0)) 0 n)" n] by (simp del: fun_upd_apply)
qed

lemma demo_name: "sdt_name_at demo_dsdt (ascii ''PBMA'') 40" "SdtValue (demo_dsdt (40 + SDT_PATTERN_LEN)) = Some (6, 1)"
  by code_simp+

theorem sdt_patch_reads_back_witness:
  "aml_integer (snd (AcpiUpdateSdtNameInteger demo_dsdt (ascii ''PBMA'') 200)) 45 = Some 200"
  using sdt_patch_reads_back [OF demo_name, of 200 0] by (simp add: SDT_PATTERN_LEN_def)

definition demo_bridge :: pci_handle where
  "demo_bridge = \<lparr>PhOpen = EFI_SUCCESS, PhRead = EFI_SUCCESS, PhBridge = True, PhMemoryBase = 0xC000, PhMemoryLimit = 0xC0F0\<rparr>"

theorem reclaimed_memory_disjoint_witness:
  "Reclaimed (AdjustPciReservedMemory True 0x100000000 64 (Inr (0xC0000000, 0x1000000))) = Some (0xC4000000, 0x3C000000) \<and>
   unat (AcpiBase (AdjustPciReservedMemory True 0x100000000 64 (Inr (0xC0000000, 0x1000000)))) \<le> fst (bridge_window demo_bridge)"
proof -
  let ?P = "AdjustPciReservedMemory True 0x100000000 64 (Inr (0xC0000000, 0x1000000))"
  have r: "GetPciMem32TotalRange EFI_SUCCESS [demo_bridge] = Inr (0xC0000000, 0x1000000)"
    by (simp add: GetPciMem32TotalRange_def demo_bridge_def EFI_ERROR_def)
  have l: "limits_ok [demo_bridge]" "live_bridge demo_bridge" "fst (bridge_window demo_bridge) < snd (bridge_window demo_bridge)"
    by (simp_all add: limits_ok_def live_bridge_def bridge_window_def demo_bridge_def)
  have "unat (AcpiBase ?P) \<le> fst (bridge_window demo_bridge)"
    using reclaimed_memory_disjoint [OF r l(1) _ _ _ _ _ refl _ l(2,3), of "unat (64 * 1024 * 1024 :: u32)" 64 "0x100000000"] by simp
  moreover have "Reclaimed ?P = Some (0xC4000000, 0x3C000000)"
    by (simp add: AdjustPciReservedMemory_def Reclaim_def PCI_RESERVED_MEM32_BASE_def PCI_RESERVED_MEM32_SIZE_def)
  ultimately show ?thesis by blast
qed

definition demo_tables :: acpi_tables where
  "demo_tables = \<lparr>Mcfg = CopyMem (CopyMem (\<lambda>i. 0) 0 (ascii ''MCFG'')) 4 [60, 0, 0, 0], Fadt = (\<lambda>i. 0), Dsdt = demo_dsdt\<rparr>"

theorem ecam_described_once_witness:
  "Dsdt (AcpiOsBootHandler demo_renew True EFI_SUCCESS EFI_SUCCESS 1 3 AcpiOsWindows demo_tables) 46 = 0 \<and>
   Dsdt (AcpiOsBootHandler demo_renew True EFI_SUCCESS EFI_SUCCESS 1 3 AcpiOsUnknown demo_tables) 46 = 255"
proof -
  have p: "pbma_byte demo_tables 40" "9 < unat (Le32 (Mcfg demo_tables) 4)" "bytes_at (Mcfg demo_tables) 0 4 = ascii ''MCFG''" by code_simp+
  have h: "\<not> mcfg_hidden (EffectiveEcamMode 3 AcpiOsWindows)" "mcfg_hidden (EffectiveEcamMode 3 AcpiOsUnknown)" by code_simp+
  show ?thesis
    using ecam_described_once [OF demo_renew_law p refl, of 1 3 AcpiOsWindows] ecam_described_once [OF demo_renew_law p refl, of 1 3 AcpiOsUnknown] h
    by simp
qed

definition demo_store :: "string \<Rightarrow> u8 list option" where
  "demo_store Nam = (if Nam = ''AcpiPcieEcamCompatMode'' then Some [1, 0, 0, 0, 0, 0, 0, 0] else Some [0])"

definition demo_reader :: var_reader where
  "demo_reader Nam n = (case demo_store Nam of None \<Rightarrow> (EFI_NOT_FOUND, n, [])
     | Some bs \<Rightarrow> if length bs > n then (EFI_BUFFER_TOO_SMALL, length bs, []) else (EFI_SUCCESS, length bs, bs))"

theorem setup_writes_exact_witness:
  "map (\<lambda>w. (fst w, fst (snd w))) (snd (SetupConfigTableVariables demo_reader)) = [(''AcpiPcieEcamCompatMode'', 8)] \<and>
   \<not> list_all write_inside (snd (SetupConfigTableVariables demo_reader))"
proof -
  have "reader_law demo_store demo_reader" by (simp add: reader_law_def demo_reader_def)
  from setup_writes_exact [OF this] show ?thesis by (simp add: setup_names_def demo_store_def)
qed

end
