(* ===== verification/Platform_Driver.thy ===== *)
theory Platform_Driver
  imports Config_Table Bcm2712_Gpio Pci_Host Board_Info
begin

section \<open>The platform driver (RpiPlatformDxe.c, Peripherals.c)\<close>

text \<open>
  The entry point that ties the platform together: the board is identified, the setup variables are read, the pins of
  the SD slot and of the wireless module are routed, and the two platform protocols are published. The registers are
  the device \<open>D\<close>; what the firmware answers is a record; the result says what was published and written.
\<close>

subsection \<open>Peripherals\<close>

datatype sd_voltage = SdMmcSignalingVoltage33 | SdMmcSignalingVoltage18

definition SdControllerSetSignalingVoltage :: "'s iodev \<Rightarrow> (u8 \<Rightarrow> u32) \<Rightarrow> sd_voltage \<Rightarrow> ('s, efi_status) state" where
  "SdControllerSetSignalingVoltage D ub Voltage = do {
     GpioWrite D ub BCM2712_GIO_AON 3 (Voltage = SdMmcSignalingVoltage18);
     State_Monad.return EFI_SUCCESS
   }"

definition GIO_AON_PIN5_ALT_SD_CARD_G :: u8 where "GIO_AON_PIN5_ALT_SD_CARD_G = 4"
definition GIO_PIN_ALT_SD2 :: u8 where "GIO_PIN_ALT_SD2 = 1"

definition InitGpioPinctrls :: "'s iodev \<Rightarrow> (u8 \<Rightarrow> u32) \<Rightarrow> ('s, efi_status) state" where
  "InitGpioPinctrls D ub = do {
     GpioSetFunction D BCM2712_GIO_AON 5 GIO_AON_PIN5_ALT_SD_CARD_G;
     GpioSetPull D BCM2712_GIO_AON 5 BCM2712_GPIO_PIN_PULL_UP;
     GpioSetFunction D BCM2712_GIO 30 GIO_PIN_ALT_SD2;
     GpioSetPull D BCM2712_GIO 30 BCM2712_GPIO_PIN_PULL_NONE;
     GpioSetFunction D BCM2712_GIO 31 GIO_PIN_ALT_SD2;
     GpioSetPull D BCM2712_GIO 31 BCM2712_GPIO_PIN_PULL_UP;
     GpioSetFunction D BCM2712_GIO 32 GIO_PIN_ALT_SD2;
     GpioSetPull D BCM2712_GIO 32 BCM2712_GPIO_PIN_PULL_UP;
     GpioSetFunction D BCM2712_GIO 33 GIO_PIN_ALT_SD2;
     GpioSetPull D BCM2712_GIO 33 BCM2712_GPIO_PIN_PULL_UP;
     GpioSetFunction D BCM2712_GIO 34 GIO_PIN_ALT_SD2;
     GpioSetPull D BCM2712_GIO 34 BCM2712_GPIO_PIN_PULL_UP;
     GpioSetFunction D BCM2712_GIO 35 GIO_PIN_ALT_SD2;
     GpioSetPull D BCM2712_GIO 35 BCM2712_GPIO_PIN_PULL_UP;
     GpioWrite D ub BCM2712_GIO 28 True;
     GpioSetDirection D ub BCM2712_GIO 28 BCM2712_GPIO_PIN_OUTPUT;
     State_Monad.return EFI_SUCCESS
   }"

text \<open>The settings of the controllers before any variable is read; members that the initialiser omits are zero.\<close>

definition mPciePlatform :: pcie_platform where
  "mPciePlatform =
     \<lparr>Mem32BusBase = PCI_RESERVED_MEM32_BASE, Mem32Size = PCI_RESERVED_MEM32_SIZE,
      PlatSettings =
        [\<lparr>Enabled = False, MaxLinkSpeed = 0, AspmSupportL0s = False, AspmSupportL1 = False, RcbMatchMps = False, VdmToQosMap = 0\<rparr>,
         \<lparr>Enabled = True, MaxLinkSpeed = 2, AspmSupportL0s = False, AspmSupportL1 = False, RcbMatchMps = False, VdmToQosMap = 0\<rparr>,
         \<lparr>Enabled = True, MaxLinkSpeed = 2, AspmSupportL0s = False, AspmSupportL1 = False, RcbMatchMps = True, VdmToQosMap = 0xbbaa9888\<rparr>]\<rparr>"

text \<open>The packed structure of nine bytes that the variable holds.\<close>

definition settings_bytes :: "pcie_settings \<Rightarrow> u8 list" where
  "settings_bytes s = [of_bool (Enabled s), MaxLinkSpeed s, of_bool (AspmSupportL0s s), of_bool (AspmSupportL1 s),
     of_bool (RcbMatchMps s)] @ bytes_of_u32 (VdmToQosMap s)"

definition settings_of_bytes :: "u8 list \<Rightarrow> pcie_settings" where
  "settings_of_bytes b = \<lparr>Enabled = (b ! 0 \<noteq> 0), MaxLinkSpeed = b ! 1, AspmSupportL0s = (b ! 2 \<noteq> 0), AspmSupportL1 = (b ! 3 \<noteq> 0),
     RcbMatchMps = (b ! 4 \<noteq> 0), VdmToQosMap = u32_of_bytes (drop 5 b)\<rparr>"

definition SetupPeripheralVariables :: "var_reader \<Rightarrow> pcie_platform \<Rightarrow> pcie_platform \<times> var_write list" where
  "SetupPeripheralVariables Get P =
     (case SetupVariable Get ''Pcie1Settings'' (settings_bytes (PlatSettings P ! 1)) of (b, ws) \<Rightarrow>
        (P\<lparr>PlatSettings := (PlatSettings P)[1 := settings_of_bytes b]\<rparr>, ws))"

definition ApplyPeripheralVariables :: "unit" where
  "ApplyPeripheralVariables = ()"

datatype published = SdhciDevice u64 u64 | PciePlatform pcie_platform | VendorDevicePath | HiiPackages

definition BCM2712_BRCMSTB_SDIO1_HOST_BASE :: u64 where "BCM2712_BRCMSTB_SDIO1_HOST_BASE = 0x1000fff000"
definition BCM2712_BRCMSTB_SDIO1_CFG_BASE :: u64 where "BCM2712_BRCMSTB_SDIO1_CFG_BASE = 0x1000fff400"

definition RegisterSdControllers :: "efi_status \<Rightarrow> published list \<Rightarrow> efi_status \<times> published list" where
  "RegisterSdControllers Install Ps =
     (Install, if EFI_ERROR Install then Ps else Ps @ [SdhciDevice BCM2712_BRCMSTB_SDIO1_HOST_BASE BCM2712_BRCMSTB_SDIO1_CFG_BASE])"

definition RegisterPciePlatform :: "efi_status \<Rightarrow> pcie_platform \<Rightarrow> published list \<Rightarrow> efi_status \<times> published list" where
  "RegisterPciePlatform Install P Ps = (Install, if EFI_ERROR Install then Ps else Ps @ [PciePlatform P])"

record platform_answers =
  PaRevision :: "efi_status + u32"
  PaSdInstall :: efi_status
  PaPcieInstall :: efi_status
  PaHiiInstall :: efi_status
  PaHiiPackages :: bool
  PaTableMode :: u32
  PaAcpiMode :: u32
  PaBothModes :: u32

definition SetupPeripherals ::
  "'s iodev \<Rightarrow> (u8 \<Rightarrow> u32) \<Rightarrow> platform_answers \<Rightarrow> pcie_platform \<Rightarrow> published list \<Rightarrow> ('s, published list) state" where
  "SetupPeripherals D ub A P Ps = do {
     Status \<leftarrow> InitGpioPinctrls D ub;
     let Ps = snd (RegisterSdControllers (PaSdInstall A) Ps);
     let Ps = snd (RegisterPciePlatform (PaPcieInstall A) P Ps);
     State_Monad.return Ps
   }"

subsection \<open>The entry point\<close>

text \<open>When the packages cannot be added the device path is taken back.\<close>

definition InstallHiiPages :: "platform_answers \<Rightarrow> published list \<Rightarrow> efi_status \<times> published list" where
  "InstallHiiPages A Ps =
     (if EFI_ERROR (PaHiiInstall A) then (PaHiiInstall A, Ps)
      else if \<not> PaHiiPackages A then (EFI_OUT_OF_RESOURCES, removeAll VendorDevicePath (Ps @ [VendorDevicePath]))
      else (EFI_SUCCESS, Ps @ [VendorDevicePath, HiiPackages]))"

record platform_state =
  mBoardRevisionCode :: u32
  mSystemMemorySize :: u64
  Config :: config_vars
  IsAcpiEnabled :: bool
  Hook :: boot_hook
  PciePlat :: pcie_platform
  Writes :: "var_write list"
  Published :: "published list"

definition SetupVariables :: "var_reader \<Rightarrow> pcie_platform \<Rightarrow> config_vars \<times> pcie_platform \<times> var_write list" where
  "SetupVariables Get P =
     (case SetupConfigTableVariables Get of (V, w1) \<Rightarrow>
      case SetupPeripheralVariables Get P of (P, w2) \<Rightarrow> (V, P, w1 @ w2))"

definition ApplyVariables :: "platform_answers \<Rightarrow> boot_hook \<Rightarrow> bool \<times> boot_hook" where
  "ApplyVariables A B = ApplyConfigTableVariables (PaAcpiMode A) (PaBothModes A) (PaTableMode A) B"

text \<open>The revision code stays zero, as a static variable starts, when the board cannot be identified.\<close>

definition RpiPlatformDxeEntryPoint ::
  "'s iodev \<Rightarrow> (u8 \<Rightarrow> u32) \<Rightarrow> var_reader \<Rightarrow> platform_answers \<Rightarrow> boot_hook \<Rightarrow> ('s, efi_status \<times> platform_state) state" where
  "RpiPlatformDxeEntryPoint D ub Get A B =
     (let Code = (case PaRevision A of Inl e \<Rightarrow> 0 | Inr c \<Rightarrow> c);
          Memory = BoardRevisionGetMemorySize Code in
      case SetupVariables Get mPciePlatform of (V, P, ws) \<Rightarrow>
      case ApplyVariables A B of (Acpi, B) \<Rightarrow> do {
        Ps \<leftarrow> SetupPeripherals D ub A P [];
        let Ps = snd (InstallHiiPages A Ps);
        State_Monad.return (EFI_SUCCESS,
          \<lparr>mBoardRevisionCode = Code, mSystemMemorySize = Memory, Config = V, IsAcpiEnabled = Acpi, Hook = B, PciePlat = P,
           Writes = ws, Published = Ps\<rparr>)
      })"

subsection \<open>The pins after the set-up\<close>

definition pin_function :: "(u64 \<Rightarrow> u32) \<Rightarrow> gpio_type \<times> u8 \<Rightarrow> u8" where
  "pin_function s p = fst (run_state (GpioGetFunction reg_dev (fst p) (snd p)) s)"

definition pin_pull :: "(u64 \<Rightarrow> u32) \<Rightarrow> gpio_type \<times> u8 \<Rightarrow> u32" where
  "pin_pull s p = fst (run_state (GpioGetPull reg_dev (fst p) (snd p)) s)"

lemma set_function_views:
  assumes "mux_ok (t, p)" "f < 16"
  shows "runs (GpioSetFunction reg_dev t p f) s (\<lambda>u s'. pin_function s' = (pin_function s)((t, p) := f) \<and> pin_pull s' = pin_pull s)"
proof -
  let ?s = "snd (run_state (GpioSetFunction reg_dev t p f) s)"
  have "pin_function ?s q = ((pin_function s)((t, p) := f)) q" "pin_pull ?s q = pin_pull s q" for q
    using gpio_function_set_get [OF assms, of s "fst q" "snd q"] by (auto simp: pin_function_def pin_pull_def)
  then show ?thesis by (auto simp: runs_def split: prod.splits)
qed

lemma set_pull_views:
  assumes "ctl_ok (t, p)" "pl \<in> {BCM2712_GPIO_PIN_PULL_NONE, BCM2712_GPIO_PIN_PULL_UP, BCM2712_GPIO_PIN_PULL_DOWN}"
  shows "runs (GpioSetPull reg_dev t p pl) s (\<lambda>u s'. pin_pull s' = (pin_pull s)((t, p) := pull_code pl) \<and> pin_function s' = pin_function s)"
proof -
  let ?s = "snd (run_state (GpioSetPull reg_dev t p pl) s)"
  have "pin_pull ?s q = ((pin_pull s)((t, p) := pull_code pl)) q" "pin_function ?s q = pin_function s q" for q
    using gpio_pull_set_get [OF assms, of s "fst q" "snd q"] by (auto simp: pin_function_def pin_pull_def)
  then show ?thesis by (auto simp: runs_def split: prod.splits)
qed

definition gio_regs :: "u64 set" where
  "gio_regs = {GioBase BCM2712_GIO + 4, GioBase BCM2712_GIO + 8, GioBase BCM2712_GIO_AON + 4, GioBase BCM2712_GIO_AON + 8}"

lemma pinctrl_apart:
  "list_all (\<lambda>t. list_all (\<lambda>r. (MuxReg r = unused \<or> PinctrlBase t + ucast (MuxReg r) \<notin> gio_regs) \<and>
     (CtlReg r = unused \<or> PinctrlBase t + ucast (CtlReg r) \<notin> gio_regs)) (PinctrlRegisters t)) [BCM2712_GIO, BCM2712_GIO_AON]"
  by code_simp

lemma pin_regs_apart: "mux_ok p \<Longrightarrow> mux_reg p \<notin> gio_regs" "ctl_ok p \<Longrightarrow> ctl_reg p \<notin> gio_regs"
proof -
  obtain t q where p: "p = (t, q)" by (rule prod.exhaust)
  have t: "t \<in> {BCM2712_GIO, BCM2712_GIO_AON}" by (cases t) auto
  have m: "pin_exists p \<Longrightarrow> pin_regs p \<in> set (PinctrlRegisters t)" by (simp add: p PinCount_def)
  show "mux_ok p \<Longrightarrow> mux_reg p \<notin> gio_regs" "ctl_ok p \<Longrightarrow> ctl_reg p \<notin> gio_regs"
    using pinctrl_apart m t unfolding list_all_iff mux_ok_def ctl_ok_def mux_reg_def ctl_reg_def by (force simp: p)+
qed

lemma views_gio: "a \<in> gio_regs \<Longrightarrow> pin_function (s(a := v)) = pin_function s \<and> pin_pull (s(a := v)) = pin_pull s"
proof -
  assume a: "a \<in> gio_regs"
  have "mux_ok p \<Longrightarrow> mux_reg p \<noteq> a" "ctl_ok p \<Longrightarrow> ctl_reg p \<noteq> a" for p
    using a pin_regs_apart(1) [of p] pin_regs_apart(2) [of p] by metis+
  then show ?thesis by (auto simp: fun_eq_iff pin_function_def pin_pull_def GpioGetFunction_field GpioGetPull_field)
qed

lemma drive_views:
  fixes s :: "u64 \<Rightarrow> u32" and ub :: "u8 \<Rightarrow> u32"
  assumes "unat p < 32" "unat p < PinCount t"
  shows "runs (GpioWrite reg_dev ub t p v) s (\<lambda>u s'. pin_function s' = pin_function s \<and> pin_pull s' = pin_pull s \<and> bit (s' (GioBase t + 4)) (unat p) = v)"
    "runs (GpioSetDirection reg_dev ub t p d) s (\<lambda>u s'. pin_function s' = pin_function s \<and> pin_pull s' = pin_pull s \<and>
       bit (s' (GioBase t + 8)) (unat p) = (d = BCM2712_GPIO_PIN_INPUT) \<and> s' (GioBase t + 4) = s (GioBase t + 4))"
proof -
  have g: "GioBase t + 4 \<in> gio_regs" "GioBase t + 8 \<in> gio_regs" by (cases t; simp add: gio_regs_def)+
  show "runs (GpioWrite reg_dev ub t p v) s (\<lambda>u s'. pin_function s' = pin_function s \<and> pin_pull s' = pin_pull s \<and> bit (s' (GioBase t + 4)) (unat p) = v)"
    using level_ops(3) [OF assms, of ub v s] views_gio [OF g(1)] assms(1)
    by (auto simp: runs_def reg_bit_set split: prod.splits if_splits)
  show "runs (GpioSetDirection reg_dev ub t p d) s (\<lambda>u s'. pin_function s' = pin_function s \<and> pin_pull s' = pin_pull s \<and>
       bit (s' (GioBase t + 8)) (unat p) = (d = BCM2712_GPIO_PIN_INPUT) \<and> s' (GioBase t + 4) = s (GioBase t + 4))"
    using level_ops(4) [OF assms, of ub d s] views_gio [OF g(2)] assms(1)
    by (auto simp: runs_def reg_bit_set simp del: GpioSetDirection.simps split: prod.splits if_splits)
qed

lemma pins_ok:
  "mux_ok (BCM2712_GIO_AON, 5)" "ctl_ok (BCM2712_GIO_AON, 5)"
  "mux_ok (BCM2712_GIO, 30)" "mux_ok (BCM2712_GIO, 31)" "mux_ok (BCM2712_GIO, 32)" "mux_ok (BCM2712_GIO, 33)"
  "mux_ok (BCM2712_GIO, 34)" "mux_ok (BCM2712_GIO, 35)"
  "ctl_ok (BCM2712_GIO, 30)" "ctl_ok (BCM2712_GIO, 31)" "ctl_ok (BCM2712_GIO, 32)" "ctl_ok (BCM2712_GIO, 33)"
  "ctl_ok (BCM2712_GIO, 34)" "ctl_ok (BCM2712_GIO, 35)"
  by code_simp+


end
