(* ===== verification/Spec2Isabelle.thy ===== *)
theory Spec2Isabelle
  imports Rpi5_Prelude Eeprom_Image Blcfg_Values Sha256_Hash Gpio_Fields Rp1_Gpio Bcm2712_Gpio Active_Cooler
    Gem_Hw Gem_Ring Gem_Queue Gem_Phy Gem_Snp
    Pci_Segment Pci_Host Fdt_Reg Spi_Flash Eeprom_Patch
    Rpi5_Programs Boot_Services Boot_Ram Boot_Stage Boot_Page Boot_Config
    Board_Info Platform_Memory Rpi_Rtc Power_Button Fmp_Device
    Json_Text Redfish_Inventory Redfish_Bodies Redfish_Firmware Redfish_Sync
    Config_Table Platform_Driver
begin

text \<open>
  Verification development for the RPi5 UEFI platform code.
\<close>

end
